(* ===== verification/Prelude.thy ===== *)
theory Prelude
  imports Main "HOL-Library.Char_ord" "HOL-Library.List_Lexorder"
begin

text \<open>
  The shared prelude of the Blob Yard development.

  It fixes how the Rust of the repository is read in HOL:
  \<^item> a Rust \<^verbatim>\<open>Result<T, E>\<close> is a sum, \<open>Err e\<close> or \<open>Ok x\<close>, and the \<^verbatim>\<open>?\<close> operator is
    \<open>and_then\<close>; a \<^verbatim>\<open>for\<close> loop whose body ends in \<^verbatim>\<open>?\<close> is \<open>try_each\<close>;
  \<^item> a Rust \<^verbatim>\<open>str\<close> is the list of its UTF-8 bytes, one \<open>char\<close> per byte, so \<open>length\<close> is
    \<^verbatim>\<open>len()\<close>, \<^verbatim>\<open>bytes()\<close> is the list itself and \<^verbatim>\<open>chars()\<close> is the decoder \<open>chars\<close>, which
    yields Unicode scalar values as naturals;
  \<^item> \<^verbatim>\<open>split\<close>, \<^verbatim>\<open>split_once\<close>, \<^verbatim>\<open>rsplit_once\<close>, \<^verbatim>\<open>strip_prefix\<close>, \<^verbatim>\<open>strip_suffix\<close>, \<^verbatim>\<open>join\<close> and the
    integer \<^verbatim>\<open>parse\<close> of the standard library are the functions of the same name below;
  \<^item> unsigned machine integers are naturals with their maximum written out where it
    matters (\<open>u64_max\<close>, \<open>i64_max\<close>), signed database integers are \<open>int\<close>.

  The second half holds the generic lemmas about these functions that the component
  theories share, and the locale \<open>string_codec\<close> for the many enums that are stored as
  text and read back.
\<close>

section \<open>Results\<close>

abbreviation Err :: "'e \<Rightarrow> 'e + 'a" where
  "Err \<equiv> Inl"

abbreviation Ok :: "'a \<Rightarrow> 'e + 'a" where
  "Ok \<equiv> Inr"

fun and_then :: "'e + 'a \<Rightarrow> ('a \<Rightarrow> 'e + 'b) \<Rightarrow> 'e + 'b" where
  "and_then (Inl e) f = Inl e"
| "and_then (Inr x) f = f x"

text \<open>\<^verbatim>\<open>result.map_err(f)\<close>\<close>

fun map_err :: "('e \<Rightarrow> 'f) \<Rightarrow> 'e + 'a \<Rightarrow> 'f + 'a" where
  "map_err f (Inl e) = Inl (f e)"
| "map_err f (Inr x) = Inr x"

text \<open>\<^verbatim>\<open>option.ok_or(e)\<close>\<close>

fun ok_or :: "'e \<Rightarrow> 'a option \<Rightarrow> 'e + 'a" where
  "ok_or e None = Inl e"
| "ok_or e (Some x) = Inr x"

definition ensure :: "bool \<Rightarrow> 'e \<Rightarrow> 'e + unit" where
  "ensure b e = (if b then Ok () else Err e)"

fun try_each :: "('a \<Rightarrow> 'e + unit) \<Rightarrow> 'a list \<Rightarrow> 'e + unit" where
  "try_each f [] = Ok ()"
| "try_each f (x # xs) = and_then (f x) (\<lambda>_. try_each f xs)"

text \<open>\<^verbatim>\<open>iter.map(f).collect::<Result<Vec<_>, _>>()\<close>\<close>

fun collect_results :: "('a \<Rightarrow> 'e + 'b) \<Rightarrow> 'a list \<Rightarrow> 'e + 'b list" where
  "collect_results f [] = Ok []"
| "collect_results f (x # xs) =
     and_then (f x) (\<lambda>y. and_then (collect_results f xs) (\<lambda>ys. Ok (y # ys)))"

text \<open>\<^verbatim>\<open>option.map(f).transpose()?\<close>\<close>

fun transpose_option :: "('a \<Rightarrow> 'e + 'b) \<Rightarrow> 'a option \<Rightarrow> 'e + 'b option" where
  "transpose_option f None = Ok None"
| "transpose_option f (Some x) = and_then (f x) (\<lambda>y. Ok (Some y))"

fun is_ok :: "'e + 'a \<Rightarrow> bool" where
  "is_ok (Inl e) = False"
| "is_ok (Inr x) = True"

section \<open>Machine integers\<close>

definition u8_max :: nat where "u8_max = 255"
definition u16_max :: nat where "u16_max = 65535"
definition u32_max :: nat where "u32_max = 4294967295"
definition u64_max :: nat where "u64_max = 18446744073709551615"
definition i64_max :: nat where "i64_max = 9223372036854775807"

text \<open>\<^verbatim>\<open>u64::saturating_mul\<close>, \<^verbatim>\<open>u64::saturating_sub\<close> and \<^verbatim>\<open>u64::div_ceil\<close>\<close>

definition saturating_mul_u64 :: "nat \<Rightarrow> nat \<Rightarrow> nat" where
  "saturating_mul_u64 a b = min (a * b) u64_max"

definition saturating_sub_u64 :: "nat \<Rightarrow> nat \<Rightarrow> nat" where
  "saturating_sub_u64 a b = a - b"

definition div_ceil :: "nat \<Rightarrow> nat \<Rightarrow> nat" where
  "div_ceil a b = (if a mod b = 0 then a div b else a div b + 1)"

section \<open>Text\<close>

abbreviation byte :: "char \<Rightarrow> nat" where
  "byte c \<equiv> of_char c"

definition is_ascii_lowercase :: "char \<Rightarrow> bool" where
  "is_ascii_lowercase c \<longleftrightarrow> 97 \<le> byte c \<and> byte c \<le> 122"

definition is_ascii_uppercase :: "char \<Rightarrow> bool" where
  "is_ascii_uppercase c \<longleftrightarrow> 65 \<le> byte c \<and> byte c \<le> 90"

definition is_ascii_digit :: "char \<Rightarrow> bool" where
  "is_ascii_digit c \<longleftrightarrow> 48 \<le> byte c \<and> byte c \<le> 57"

definition is_ascii_alphabetic :: "char \<Rightarrow> bool" where
  "is_ascii_alphabetic c \<longleftrightarrow> is_ascii_lowercase c \<or> is_ascii_uppercase c"

definition is_ascii_alphanumeric :: "char \<Rightarrow> bool" where
  "is_ascii_alphanumeric c \<longleftrightarrow> is_ascii_alphabetic c \<or> is_ascii_digit c"

definition is_ascii_hexdigit :: "char \<Rightarrow> bool" where
  "is_ascii_hexdigit c \<longleftrightarrow>
     is_ascii_digit c \<or> (97 \<le> byte c \<and> byte c \<le> 102) \<or> (65 \<le> byte c \<and> byte c \<le> 70)"

text \<open>\<^verbatim>\<open>byte.is_ascii_digit() || (b'a'..=b'f').contains(&byte)\<close>, the test the sources spell out
  for canonical digests.\<close>

definition is_lower_hex :: "char \<Rightarrow> bool" where
  "is_lower_hex c \<longleftrightarrow> is_ascii_digit c \<or> (97 \<le> byte c \<and> byte c \<le> 102)"

definition to_ascii_uppercase :: "char \<Rightarrow> char" where
  "to_ascii_uppercase c = (if is_ascii_lowercase c then char_of (byte c - 32) else c)"

definition eq_ignore_ascii_case :: "string \<Rightarrow> string \<Rightarrow> bool" where
  "eq_ignore_ascii_case a b \<longleftrightarrow> map to_ascii_uppercase a = map to_ascii_uppercase b"

text \<open>\<^verbatim>\<open>str::chars\<close>: the scalar values of a UTF-8 byte string. A truncated sequence cannot
  occur in a Rust \<^verbatim>\<open>str\<close>; it decodes to the replacement character here.\<close>

fun chars :: "string \<Rightarrow> nat list" where
  "chars [] = []"
| "chars (a # r) =
     (if byte a < 128 then byte a # chars r
      else (case r of
        [] \<Rightarrow> [65533]
      | b # r2 \<Rightarrow>
          if byte a < 224 then ((byte a mod 32) * 64 + byte b mod 64) # chars r2
          else (case r2 of
            [] \<Rightarrow> [65533]
          | c # r3 \<Rightarrow>
              if byte a < 240
              then ((byte a mod 16) * 4096 + (byte b mod 64) * 64 + byte c mod 64) # chars r3
              else (case r3 of
                [] \<Rightarrow> [65533]
              | d # r4 \<Rightarrow>
                  ((byte a mod 8) * 262144 + (byte b mod 64) * 4096
                    + (byte c mod 64) * 64 + byte d mod 64) # chars r4))))"

text \<open>\<^verbatim>\<open>core::str::from_utf8\<close>: the well-formed byte sequences of the Unicode standard.\<close>

fun utf8_valid :: "string \<Rightarrow> bool" where
  "utf8_valid [] = True"
| "utf8_valid (a # r) =
     (if byte a < 128 then utf8_valid r
      else if 194 \<le> byte a \<and> byte a \<le> 223 then
        (case r of b # r2 \<Rightarrow> 128 \<le> byte b \<and> byte b \<le> 191 \<and> utf8_valid r2 | _ \<Rightarrow> False)
      else if 224 \<le> byte a \<and> byte a \<le> 239 then
        (case r of
           b # c # r3 \<Rightarrow>
             (if byte a = 224 then 160 else 128) \<le> byte b
             \<and> byte b \<le> (if byte a = 237 then 159 else 191)
             \<and> 128 \<le> byte c \<and> byte c \<le> 191 \<and> utf8_valid r3
         | _ \<Rightarrow> False)
      else if 240 \<le> byte a \<and> byte a \<le> 244 then
        (case r of
           b # c # d # r4 \<Rightarrow>
             (if byte a = 240 then 144 else 128) \<le> byte b
             \<and> byte b \<le> (if byte a = 244 then 143 else 191)
             \<and> 128 \<le> byte c \<and> byte c \<le> 191
             \<and> 128 \<le> byte d \<and> byte d \<le> 191 \<and> utf8_valid r4
         | _ \<Rightarrow> False)
      else False)"

text \<open>\<^verbatim>\<open>char::is_control\<close> (general category Cc) and \<^verbatim>\<open>char::is_whitespace\<close> (White_Space).\<close>

definition is_control :: "nat \<Rightarrow> bool" where
  "is_control c \<longleftrightarrow> c < 32 \<or> (127 \<le> c \<and> c < 160)"

definition is_whitespace :: "nat \<Rightarrow> bool" where
  "is_whitespace c \<longleftrightarrow>
     (9 \<le> c \<and> c \<le> 13) \<or> c = 32 \<or> c = 133 \<or> c = 160 \<or> c = 5760
     \<or> (8192 \<le> c \<and> c \<le> 8202) \<or> c = 8232 \<or> c = 8233 \<or> c = 8239 \<or> c = 8287 \<or> c = 12288"

definition has_control :: "string \<Rightarrow> bool" where
  "has_control s \<longleftrightarrow> list_ex is_control (chars s)"

fun split_on :: "'a \<Rightarrow> 'a list \<Rightarrow> 'a list list" where
  "split_on d [] = [[]]"
| "split_on d (x # xs) =
     (if x = d then [] # split_on d xs
      else (case split_on d xs of [] \<Rightarrow> [[x]] | p # ps \<Rightarrow> (x # p) # ps))"

fun join :: "'a list \<Rightarrow> 'a list list \<Rightarrow> 'a list" where
  "join sep [] = []"
| "join sep [p] = p"
| "join sep (p # q # ps) = p @ sep @ join sep (q # ps)"

fun split_once :: "'a \<Rightarrow> 'a list \<Rightarrow> ('a list \<times> 'a list) option" where
  "split_once d [] = None"
| "split_once d (x # xs) =
     (if x = d then Some ([], xs) else map_option (\<lambda>(a, b). (x # a, b)) (split_once d xs))"

definition rsplit_once :: "'a \<Rightarrow> 'a list \<Rightarrow> ('a list \<times> 'a list) option" where
  "rsplit_once d xs = map_option (\<lambda>(a, b). (rev b, rev a)) (split_once d (rev xs))"

definition strip_prefix :: "'a list \<Rightarrow> 'a list \<Rightarrow> 'a list option" where
  "strip_prefix p s = (if take (length p) s = p then Some (drop (length p) s) else None)"

definition strip_suffix :: "'a list \<Rightarrow> 'a list \<Rightarrow> 'a list option" where
  "strip_suffix p s = map_option rev (strip_prefix (rev p) (rev s))"

definition starts_with :: "'a list \<Rightarrow> 'a list \<Rightarrow> bool" where
  "starts_with p s \<longleftrightarrow> take (length p) s = p"

text \<open>Decimal display of an unsigned integer, and the parse of \<^verbatim>\<open>uN::from_str\<close>: an optional
  leading \<^verbatim>\<open>+\<close>, at least one digit, only digits, and no overflow.\<close>

definition digit_char :: "nat \<Rightarrow> char" where
  "digit_char d = char_of (48 + d)"

fun show_nat :: "nat \<Rightarrow> string" where
  "show_nat n = (if n < 10 then [digit_char n] else show_nat (n div 10) @ [digit_char (n mod 10)])"

declare show_nat.simps [simp del]

definition digits_value :: "string \<Rightarrow> nat" where
  "digits_value s = foldl (\<lambda>n c. n * 10 + (byte c - 48)) 0 s"

definition parse_uint :: "nat \<Rightarrow> string \<Rightarrow> nat option" where
  "parse_uint maximum s =
     (let ds = (case s of c # r \<Rightarrow> if c = CHR ''+'' \<and> r \<noteq> [] then r else s | [] \<Rightarrow> [])
      in if ds = [] \<or> \<not> list_all is_ascii_digit ds then None
         else if digits_value ds \<le> maximum then Some (digits_value ds) else None)"

text \<open>A \<^verbatim>\<open>BTreeMap\<close> is its list of entries in key order, a \<^verbatim>\<open>BTreeSet\<close> collected from an iterator
  is the sorted list of its distinct elements.\<close>

definition btree_set :: "'a :: linorder list \<Rightarrow> 'a list" where
  "btree_set xs = sort (remdups xs)"

text \<open>\<^verbatim>\<open>iter().enumerate()\<close>\<close>

definition enumerated :: "'a list \<Rightarrow> (nat \<times> 'a) list" where
  "enumerated xs = zip [0..<length xs] xs"

section \<open>Lemmas on results\<close>

named_theorems result_simps

lemma and_then_Ok_iff [result_simps]:
  "and_then r f = Inr y \<longleftrightarrow> (\<exists>x. r = Inr x \<and> f x = Inr y)"
  by (cases r) auto

lemma and_then_Err_iff [result_simps]:
  "and_then r f = Inl e \<longleftrightarrow> r = Inl e \<or> (\<exists>x. r = Inr x \<and> f x = Inl e)"
  by (cases r) auto

lemma map_err_Ok_iff [result_simps]: "map_err f r = Inr y \<longleftrightarrow> r = Inr y"
  by (cases r) auto

lemma map_err_Err_iff [result_simps]: "map_err f r = Inl e \<longleftrightarrow> (\<exists>d. r = Inl d \<and> e = f d)"
  by (cases r) auto

lemma ok_or_Ok_iff [result_simps]: "ok_or e v = Inr x \<longleftrightarrow> v = Some x"
  by (cases v) auto

lemma ok_or_Err_iff [result_simps]: "ok_or e v = Inl d \<longleftrightarrow> v = None \<and> d = e"
  by (cases v) auto

lemma ensure_Ok_iff [result_simps]: "ensure b e = Inr u \<longleftrightarrow> b"
  by (simp add: ensure_def)

lemma ensure_Err_iff [result_simps]: "ensure b e = Inl d \<longleftrightarrow> \<not> b \<and> d = e"
  by (auto simp: ensure_def)

lemma ensure_True [simp]: "ensure True e = Inr ()"
  by (simp add: ensure_def)

lemma ensure_False [simp]: "ensure False e = Inl e"
  by (simp add: ensure_def)

lemma try_each_Ok_iff [result_simps]:
  "try_each f xs = Inr u \<longleftrightarrow> (\<forall>x \<in> set xs. f x = Inr ())"
  by (induction xs) (auto simp: result_simps)

lemma transpose_option_Ok_iff [result_simps]:
  "transpose_option f v = Inr w \<longleftrightarrow>
     (v = None \<and> w = None) \<or> (\<exists>x y. v = Some x \<and> w = Some y \<and> f x = Inr y)"
  by (cases v) (auto simp: result_simps)

lemma collect_results_Ok_iff:
  "collect_results f xs = Inr ys \<longleftrightarrow> list_all2 (\<lambda>x y. f x = Inr y) xs ys"
proof (induction xs arbitrary: ys)
  case Nil
  then show ?case by auto
next
  case (Cons x xs)
  then show ?case by (cases ys) (auto simp: result_simps)
qed

lemma collect_results_member: "collect_results f xs = Inr ys \<Longrightarrow> y \<in> set ys \<Longrightarrow> \<exists>x \<in> set xs. f x = Inr y"
  by (induction xs arbitrary: ys) (auto simp: result_simps)

lemma collect_results_covers: "collect_results f xs = Inr ys \<Longrightarrow> x \<in> set xs \<Longrightarrow> \<exists>y \<in> set ys. f x = Inr y"
  by (induction xs arbitrary: ys) (auto simp: result_simps)

lemma collect_results_total: "(\<And>x. x \<in> set xs \<Longrightarrow> \<exists>y. f x = Inr y) \<Longrightarrow> \<exists>ys. collect_results f xs = Inr ys"
proof (induction xs)
  case (Cons a xs)
  obtain y where "f a = Inr y" using Cons.prems [of a] by auto
  moreover obtain ys where "collect_results f xs = Inr ys" using Cons.IH Cons.prems by auto
  ultimately show ?case by simp
qed simp

lemma length_filter_mono:
  "(\<And>x. x \<in> set xs \<Longrightarrow> P x \<Longrightarrow> Q x) \<Longrightarrow> length (filter P xs) \<le> length (filter Q xs)"
  by (induction xs) auto

lemma is_ok_iff: "is_ok r \<longleftrightarrow> (\<exists>x. r = Inr x)"
  by (cases r) auto

section \<open>Lemmas on text\<close>

lemmas ascii_class_defs =
  is_ascii_lowercase_def is_ascii_uppercase_def is_ascii_digit_def is_ascii_alphabetic_def
  is_ascii_alphanumeric_def is_ascii_hexdigit_def is_lower_hex_def

lemma split_on_not_Nil [simp]: "split_on d xs \<noteq> []"
  by (induction xs) (auto split: list.splits)

lemma split_on_no_delim [simp]: "d \<notin> set xs \<Longrightarrow> split_on d xs = [xs]"
  by (induction xs) auto

lemma split_on_append_delim:
  "d \<notin> set xs \<Longrightarrow> split_on d (xs @ d # ys) = xs # split_on d ys"
  by (induction xs) auto

lemma join_split_on [simp]: "join [d] (split_on d xs) = xs"
proof (induction xs)
  case Nil
  then show ?case by simp
next
  case (Cons x xs)
  obtain p ps where sp: "split_on d xs = p # ps"
    by (cases "split_on d xs") auto
  have "join [d] ((x # p) # ps) = x # join [d] (p # ps)"
    by (cases ps) auto
  with Cons sp show ?case by (auto split: list.splits)
qed

lemma split_on_join:
  assumes "ps \<noteq> []" and "\<forall>p \<in> set ps. d \<notin> set p"
  shows "split_on d (join [d] ps) = ps"
  using assms
proof (induction ps)
  case Nil
  then show ?case by simp
next
  case (Cons p ps)
  then show ?case by (cases ps) (auto simp: split_on_append_delim)
qed

lemma split_on_pieces: "p \<in> set (split_on d xs) \<Longrightarrow> d \<notin> set p"
proof (induction xs arbitrary: p)
  case Nil
  then show ?case by simp
next
  case (Cons x xs)
  then show ?case by (fastforce split: if_splits list.splits)
qed

lemma split_on_elems: "p \<in> set (split_on d xs) \<Longrightarrow> set p \<subseteq> set xs"
proof (induction xs arbitrary: p)
  case Nil
  then show ?case by simp
next
  case (Cons x xs)
  then show ?case by (fastforce split: if_splits list.splits)
qed

lemma set_join: "set (join sep ps) \<subseteq> set sep \<union> \<Union> (set ` set ps)"
  by (induction sep ps rule: join.induct) auto

lemma split_once_Some_iff:
  "split_once d xs = Some (a, b) \<longleftrightarrow> xs = a @ d # b \<and> d \<notin> set a"
proof (induction xs arbitrary: a b)
  case Nil
  then show ?case by simp
next
  case (Cons x xs)
  then show ?case by (cases a) auto
qed

lemma split_once_None_iff: "split_once d xs = None \<longleftrightarrow> d \<notin> set xs"
  by (induction xs) auto

lemma split_once_append [simp]: "d \<notin> set a \<Longrightarrow> split_once d (a @ d # b) = Some (a, b)"
  by (simp add: split_once_Some_iff)

lemma strip_prefix_append [simp]: "strip_prefix p (p @ s) = Some s"
  by (simp add: strip_prefix_def)

lemma strip_prefix_Some_iff: "strip_prefix p s = Some r \<longleftrightarrow> s = p @ r"
proof
  assume "strip_prefix p s = Some r"
  then have "take (length p) s = p" and "drop (length p) s = r"
    by (auto simp: strip_prefix_def split: if_splits)
  then show "s = p @ r"
    by (metis append_take_drop_id)
qed simp

lemma strip_suffix_Some_iff: "strip_suffix p s = Some r \<longleftrightarrow> s = r @ p"
proof -
  have "strip_suffix p s = Some r \<longleftrightarrow> rev s = rev p @ rev r"
    by (auto simp: strip_suffix_def strip_prefix_Some_iff)
  also have "\<dots> \<longleftrightarrow> s = r @ p"
    by (metis rev_append rev_rev_ident)
  finally show ?thesis .
qed

text \<open>ASCII text decodes byte by byte.\<close>

lemma chars_ascii: "\<forall>c \<in> set s. byte c < (128 :: nat) \<Longrightarrow> chars s = map byte s"
  by (induction s) auto

lemma utf8_valid_ascii: "\<forall>c \<in> set s. byte c < (128 :: nat) \<Longrightarrow> utf8_valid s"
  by (induction s) auto

section \<open>Lemmas on decimal numbers\<close>

lemma byte_digit_char [simp]: "d < 10 \<Longrightarrow> byte (digit_char d) = 48 + d"
  by (simp add: digit_char_def)

lemma is_ascii_digit_digit_char [simp]: "d < 10 \<Longrightarrow> is_ascii_digit (digit_char d)"
  by (simp add: is_ascii_digit_def)

lemma show_nat_digits: "list_all is_ascii_digit (show_nat n)"
proof (induction n rule: show_nat.induct)
  case (1 n)
  show ?case
    by (subst show_nat.simps) (use 1 in auto)
qed

lemma show_nat_not_Nil [simp]: "show_nat n \<noteq> []"
  by (subst show_nat.simps) simp

lemma digits_value_snoc: "digits_value (s @ [c]) = digits_value s * 10 + (byte c - 48)"
  by (simp add: digits_value_def)

lemma digits_value_show_nat [simp]: "digits_value (show_nat n) = n"
proof (induction n rule: show_nat.induct)
  case (1 n)
  show ?case
  proof (cases "n < 10")
    case True
    then show ?thesis by (subst show_nat.simps) (simp add: digits_value_def)
  next
    case False
    with 1 show ?thesis by (subst show_nat.simps) (simp add: digits_value_snoc)
  qed
qed

lemma is_ascii_digit_not_plus [simp]: "\<not> is_ascii_digit CHR ''+''"
  by (simp add: is_ascii_digit_def)

lemma parse_uint_show_nat [simp]: "n \<le> m \<Longrightarrow> parse_uint m (show_nat n) = Some n"
proof -
  assume le: "n \<le> m"
  obtain c r where s: "show_nat n = c # r"
    by (cases "show_nat n") auto
  have "list_all is_ascii_digit (c # r)"
    using show_nat_digits [of n] s by simp
  moreover from this have "c \<noteq> CHR ''+''" by auto
  moreover have "digits_value (c # r) = n"
    using digits_value_show_nat [of n] s by simp
  ultimately show ?thesis
    using le s by (simp add: parse_uint_def)
qed

lemma parse_uint_bound: "parse_uint m s = Some n \<Longrightarrow> n \<le> m"
  by (auto simp: parse_uint_def Let_def split: if_splits)

section \<open>Lemmas on ordered collections\<close>

lemma set_btree_set [simp]: "set (btree_set xs) = set xs"
  by (simp add: btree_set_def)

lemma sorted_btree_set [simp]: "sorted (btree_set xs)"
  by (simp add: btree_set_def)

lemma distinct_btree_set [simp]: "distinct (btree_set xs)"
  by (simp add: btree_set_def)

lemma length_btree_set: "length (btree_set xs) = card (set xs)"
  by (simp add: btree_set_def length_remdups_card_conv)

lemma btree_set_eq: "set xs = set ys \<Longrightarrow> btree_set xs = btree_set ys"
  by (metis distinct_btree_set set_btree_set sorted_btree_set sorted_distinct_set_unique)

lemma enumerated_iff: "(i, x) \<in> set (enumerated xs) \<longleftrightarrow> i < length xs \<and> x = xs ! i"
proof -
  have "(i, x) \<in> set (enumerated xs) \<longleftrightarrow>
      (\<exists>j. i = [0..<length xs] ! j \<and> x = xs ! j \<and> j < length xs)"
    by (auto simp: enumerated_def set_zip)
  also have "\<dots> \<longleftrightarrow> i < length xs \<and> x = xs ! i"
    by (metis add_0 nth_upt)
  finally show ?thesis .
qed

lemma mod_in_block:
  assumes "k * m \<le> x" and "x < k * m + (m :: nat)"
  shows "x mod m = x - k * m"
proof -
  obtain r where x: "x = k * m + r" using assms(1) le_Suc_ex by blast
  with assms(2) have "r < m" by simp
  then show ?thesis by (simp add: x)
qed

text \<open>Evaluation compares with the bounds of machine integers in binary.\<close>

lemma int_i64_max [code_unfold]: "int i64_max = 9223372036854775807"
  by (simp add: i64_max_def)

lemma int_u32_max [code_unfold]: "int u32_max = 4294967295"
  by (simp add: u32_max_def)

lemma le_i64_max [code_unfold]: "n \<le> i64_max \<longleftrightarrow> int n \<le> 9223372036854775807"
  unfolding int_i64_max [symmetric] by simp

lemma saturating_mul_code [code]:
  "saturating_mul_u64 a b = (if int a * int b \<le> 18446744073709551615 then a * b else u64_max)"
proof -
  have "int u64_max = 18446744073709551615" by (simp add: u64_max_def)
  then have "int a * int b \<le> 18446744073709551615 \<longleftrightarrow> a * b \<le> u64_max"
    by (metis of_nat_le_iff of_nat_mult)
  then show ?thesis by (simp add: saturating_mul_u64_def)
qed

lemma div_ceil_bounds:
  assumes "0 < b"
  shows "a \<le> div_ceil a b * b" and "0 < a \<Longrightarrow> (div_ceil a b - 1) * b < a"
proof -
  have e: "a = a div b * b + a mod b" by simp
  have r: "a mod b < b" using assms by simp
  have up: "div_ceil a b * b = a div b * b + b" if "a mod b \<noteq> 0"
    using that by (simp add: div_ceil_def)
  have even: "div_ceil a b = a div b" if "a mod b = 0"
    using that by (simp add: div_ceil_def)
  show "a \<le> div_ceil a b * b"
  proof (cases "a mod b = 0")
    case True
    then have "div_ceil a b * b = a" using e even by auto
    then show ?thesis by simp
  next
    case False
    show ?thesis using e r up [OF False] by linarith
  qed
  assume pos: "0 < a"
  have "(div_ceil a b - 1) * b = div_ceil a b * b - b"
    by (simp add: diff_mult_distrib)
  also have "\<dots> < a"
  proof (cases "a mod b = 0")
    case True
    then have "div_ceil a b * b = a" using e even by auto
    then show ?thesis using assms pos by simp
  next
    case False
    then have "0 < a mod b" by simp
    then show ?thesis using e up [OF False] by linarith
  qed
  finally show "(div_ceil a b - 1) * b < a" .
qed

section \<open>Enums stored as text\<close>

text \<open>
  Every enum that the repository stores in a text column has an \<^verbatim>\<open>as_str\<close> and a \<^verbatim>\<open>parse\<close>.
  What the rows rely on is that reading back what was written gives the value, and that
  nothing else is read as it.
\<close>

locale string_codec =
  fixes as_str :: "'a \<Rightarrow> string"
    and parse :: "string \<Rightarrow> 'a option"
  assumes parse_as_str: "parse (as_str x) = Some x"
    and parse_sound: "parse s = Some x \<Longrightarrow> s = as_str x"
begin

lemma parse_iff: "parse s = Some x \<longleftrightarrow> s = as_str x"
  using parse_as_str parse_sound by blast

lemma as_str_inject: "as_str x = as_str y \<longleftrightarrow> x = y"
  by (metis option.inject parse_as_str)

lemma inj_as_str: "inj as_str"
  by (simp add: inj_def as_str_inject)

lemma parse_None_iff: "parse s = None \<longleftrightarrow> s \<notin> range as_str"
  by (metis not_None_eq parse_iff rangeE rangeI)

end

end
