(* ===== verification/Core_Errors.thy ===== *)
theory Core_Errors
  imports Prelude
begin

text \<open>
  The stable error vocabulary of \<^verbatim>\<open>crates/blobyard-core/src/error.rs\<close>: the error codes with
  their serialized names, process exit codes and default messages, and the redaction-safe
  error record that every fallible core operation returns.
\<close>

datatype ErrorCode =
    InvalidRequest
  | AuthRequired
  | InvalidToken
  | TokenExpired
  | Forbidden
  | NotFoundCode
  | ConflictCode
  | PlanLimit
  | OperationUnsupported
  | UploadIncomplete
  | ChecksumMismatch
  | RateLimited
  | ProviderUnavailable
  | NetworkError
  | StorageErrorCode
  | InternalError
  | Interrupted

fun error_code_as_str :: "ErrorCode \<Rightarrow> string" where
  "error_code_as_str InvalidRequest = ''INVALID_REQUEST''"
| "error_code_as_str AuthRequired = ''AUTH_REQUIRED''"
| "error_code_as_str InvalidToken = ''INVALID_TOKEN''"
| "error_code_as_str TokenExpired = ''TOKEN_EXPIRED''"
| "error_code_as_str Forbidden = ''FORBIDDEN''"
| "error_code_as_str NotFoundCode = ''NOT_FOUND''"
| "error_code_as_str ConflictCode = ''CONFLICT''"
| "error_code_as_str PlanLimit = ''PLAN_LIMIT''"
| "error_code_as_str OperationUnsupported = ''OPERATION_UNSUPPORTED''"
| "error_code_as_str UploadIncomplete = ''UPLOAD_INCOMPLETE''"
| "error_code_as_str ChecksumMismatch = ''CHECKSUM_MISMATCH''"
| "error_code_as_str RateLimited = ''RATE_LIMITED''"
| "error_code_as_str ProviderUnavailable = ''PROVIDER_UNAVAILABLE''"
| "error_code_as_str NetworkError = ''NETWORK_ERROR''"
| "error_code_as_str StorageErrorCode = ''STORAGE_ERROR''"
| "error_code_as_str InternalError = ''INTERNAL_ERROR''"
| "error_code_as_str Interrupted = ''INTERRUPTED''"

fun exit_code :: "ErrorCode \<Rightarrow> nat" where
  "exit_code InvalidRequest = 2"
| "exit_code AuthRequired = 10"
| "exit_code InvalidToken = 10"
| "exit_code TokenExpired = 10"
| "exit_code Forbidden = 11"
| "exit_code NotFoundCode = 12"
| "exit_code ConflictCode = 13"
| "exit_code PlanLimit = 14"
| "exit_code OperationUnsupported = 15"
| "exit_code NetworkError = 20"
| "exit_code ProviderUnavailable = 21"
| "exit_code UploadIncomplete = 22"
| "exit_code ChecksumMismatch = 22"
| "exit_code StorageErrorCode = 22"
| "exit_code RateLimited = 23"
| "exit_code InternalError = 70"
| "exit_code Interrupted = 130"

fun default_message :: "ErrorCode \<Rightarrow> string" where
  "default_message InvalidRequest =
     ''That request isn't valid. Check the command and try again.''"
| "default_message AuthRequired = ''Sign in with blobyard login.''"
| "default_message InvalidToken = ''Your session isn't valid. Sign in again.''"
| "default_message TokenExpired = ''Your session expired. Sign in again.''"
| "default_message Forbidden = ''You don't have access to do that.''"
| "default_message NotFoundCode =
     ''That item couldn't be found. Check the name and try again.''"
| "default_message ConflictCode =
     ''That action conflicts with the current state. Refresh and try again.''"
| "default_message PlanLimit =
     ''Your current plan doesn't allow this. Review your plan and try again.''"
| "default_message OperationUnsupported =
     ''This operation isn't available on the selected Blob Yard deployment.''"
| "default_message UploadIncomplete = ''The upload is incomplete. Resume it or start again.''"
| "default_message ChecksumMismatch =
     ''The uploaded file failed its integrity check. Upload it again.''"
| "default_message RateLimited =
     ''Too many requests were made. Wait a moment and try again.''"
| "default_message ProviderUnavailable =
     ''Blobyard can't complete this right now. Try again shortly.''"
| "default_message NetworkError =
     ''Blobyard couldn't connect. Check your connection and try again.''"
| "default_message StorageErrorCode = ''The file transfer couldn't finish. Try again.''"
| "default_message InternalError =
     ''Blobyard couldn't complete that. Try again or contact support.''"
| "default_message Interrupted =
     ''The operation was cancelled. Run the command again when ready.''"

record BlobyardError =
  err_code :: ErrorCode
  err_message :: string
  err_request_id :: "string option"

definition blobyard_error_new :: "ErrorCode \<Rightarrow> string \<Rightarrow> BlobyardError" where
  "blobyard_error_new code message =
     \<lparr>err_code = code, err_message = message, err_request_id = None\<rparr>"

definition blobyard_error_from_code :: "ErrorCode \<Rightarrow> BlobyardError" where
  "blobyard_error_from_code code = blobyard_error_new code (default_message code)"

definition with_request_id :: "BlobyardError \<Rightarrow> string \<Rightarrow> BlobyardError" where
  "with_request_id e request_id = e\<lparr>err_request_id := Some request_id\<rparr>"

definition display_blobyard_error :: "BlobyardError \<Rightarrow> string" where
  "display_blobyard_error e =
     ''['' @ error_code_as_str (err_code e) @ ''] '' @ err_message e"

section \<open>The codes are a faithful vocabulary\<close>

text \<open>The table that reads a serialized code back, as a deserializer of the same names does.\<close>

definition error_code_table :: "(string \<times> ErrorCode) list" where
  "error_code_table =
     map (\<lambda>c. (error_code_as_str c, c))
       [InvalidRequest, AuthRequired, InvalidToken, TokenExpired, Forbidden, NotFoundCode,
        ConflictCode, PlanLimit, OperationUnsupported, UploadIncomplete, ChecksumMismatch,
        RateLimited, ProviderUnavailable, NetworkError, StorageErrorCode, InternalError,
        Interrupted]"

lemma error_code_table_inverse: "map_of error_code_table (error_code_as_str c) = Some c"
  unfolding error_code_table_def by (cases c) simp_all

lemma error_code_as_str_inject: "error_code_as_str c = error_code_as_str d \<longleftrightarrow> c = d"
  by (metis error_code_table_inverse option.inject)

lemma error_code_as_str_no_bracket: "CHR '']'' \<notin> set (error_code_as_str c)"
  by (cases c) simp_all

text \<open>A displayed error determines its code and its message: the code never contains the
  closing bracket that ends it.\<close>

lemma display_blobyard_error_inject:
  assumes "display_blobyard_error e = display_blobyard_error f"
  shows "err_code e = err_code f \<and> err_message e = err_message f"
proof -
  let ?c = "error_code_as_str (err_code e)" and ?d = "error_code_as_str (err_code f)"
  have eq: "?c @ CHR '']'' # CHR '' '' # err_message e
      = ?d @ CHR '']'' # CHR '' '' # err_message f"
    using assms by (simp add: display_blobyard_error_def)
  have c: "split_once CHR '']'' (?c @ CHR '']'' # CHR '' '' # err_message e)
      = Some (?c, CHR '' '' # err_message e)"
    by (rule split_once_append) (rule error_code_as_str_no_bracket)
  have d: "split_once CHR '']'' (?d @ CHR '']'' # CHR '' '' # err_message f)
      = Some (?d, CHR '' '' # err_message f)"
    by (rule split_once_append) (rule error_code_as_str_no_bracket)
  have "Some (?c, CHR '' '' # err_message e) = Some (?d, CHR '' '' # err_message f)"
    by (rule trans [OF sym [OF c [unfolded eq]] d])
  then have "?c = ?d" and "err_message e = err_message f"
    by (simp_all only: option.inject prod.inject list.inject)
  then show ?thesis by (simp add: error_code_as_str_inject)
qed

text \<open>Every exit code is a nonzero process status that fits a byte, so a failure is never
  reported as success.\<close>

lemma exit_code_range: "0 < exit_code c \<and> exit_code c \<le> u8_max"
  by (cases c) (simp_all add: u8_max_def)

end
