(* ===== verification/Core_Secrets.thy ===== *)
theory Core_Secrets
  imports Core_Errors
begin

text \<open>
  Hex digests and secrets: \<^verbatim>\<open>crates/blobyard-core/src/encoding.rs\<close> and
  \<^verbatim>\<open>crates/blobyard-core/src/secret.rs\<close>.

  A byte array \<^verbatim>\<open>[u8; 32]\<close> is a list of 32 \<open>char\<close>s. The base32 encoder of the preview host
  keeps its \<^verbatim>\<open>u16\<close> buffer as a natural with the truncation to 16 bits written out; the bit
  operations on it are the divisions by powers of two that they compute: shifting left
  by 8 leaves the low 8 bits clear, so or-ing a byte in is addition, and masking with
  \<^verbatim>\<open>(1 << n) - 1\<close> is the remainder modulo \<^verbatim>\<open>2 ^ n\<close>.
\<close>

section \<open>Hexadecimal digests\<close>

definition hex_alphabet :: string where
  "hex_alphabet = ''0123456789abcdef''"

fun hex_digest :: "string \<Rightarrow> string" where
  "hex_digest [] = []"
| "hex_digest (b # bs) =
     hex_alphabet ! (byte b div 16) # hex_alphabet ! (byte b mod 16) # hex_digest bs"

section \<open>Secrets\<close>

definition MAX_SECRET_BYTES :: nat where
  "MAX_SECRET_BYTES = 16384"

definition PREVIEW_HOST_ALPHABET :: string where
  "PREVIEW_HOST_ALPHABET = ''abcdefghijklmnopqrstuvwxyz234567''"

datatype GeneratedSecretKind =
    AccessToken
  | ApiToken
  | MachineToken
  | BootstrapToken
  | RuntimeSecret
  | DownloadCapability
  | ShareCapability
  | InboxCapability
  | UploadCapability
  | UserLoginKey
  | YardGuestInvitation
  | YardGuestLoginKey
  | YardExchangeCode
  | YardOidcState
  | YardOidcNonce
  | YardOidcPkceVerifier
  | YardSession

fun secret_prefix :: "GeneratedSecretKind \<Rightarrow> string" where
  "secret_prefix AccessToken = ''bya''"
| "secret_prefix ApiToken = ''byd_pat''"
| "secret_prefix MachineToken = ''byd_ci''"
| "secret_prefix BootstrapToken = ''byb''"
| "secret_prefix RuntimeSecret = ''bys''"
| "secret_prefix DownloadCapability = ''byd''"
| "secret_prefix ShareCapability = ''bysh''"
| "secret_prefix InboxCapability = ''byin''"
| "secret_prefix UploadCapability = ''byu''"
| "secret_prefix UserLoginKey = ''byuk''"
| "secret_prefix YardGuestInvitation = ''bygi''"
| "secret_prefix YardGuestLoginKey = ''byg''"
| "secret_prefix YardExchangeCode = ''byx''"
| "secret_prefix YardOidcState = ''byos''"
| "secret_prefix YardOidcNonce = ''byon''"
| "secret_prefix YardOidcPkceVerifier = ''byop''"
| "secret_prefix YardSession = ''byys''"

datatype SecretString = SecretString (expose_secret: string)

definition secret_new :: "string \<Rightarrow> BlobyardError + SecretString" where
  "secret_new value =
     (let invalid = value = [] \<or> length value > MAX_SECRET_BYTES \<or> has_control value
      in if invalid
         then Err (blobyard_error_new InvalidRequest
                ''The credential value isn't valid. Request a new credential and try again.'')
         else Ok (SecretString value))"

definition from_generated_entropy :: "GeneratedSecretKind \<Rightarrow> string \<Rightarrow> SecretString" where
  "from_generated_entropy kind entropy =
     SecretString (secret_prefix kind @ ''_'' @ hex_digest entropy)"

text \<open>The inner \<^verbatim>\<open>while bit_count >= 5\<close> loop: emit the top five bits, keep the rest.\<close>

fun emit_groups :: "nat \<Rightarrow> nat \<Rightarrow> string \<Rightarrow> nat \<times> nat \<times> string" where
  "emit_groups buffer bit_count output =
     (if 5 \<le> bit_count
      then (let bits = bit_count - 5;
                index = (buffer div 2 ^ bits) mod 32
            in emit_groups (buffer mod 2 ^ bits) bits (output @ [PREVIEW_HOST_ALPHABET ! index]))
      else (buffer, bit_count, output))"

declare emit_groups.simps [simp del]

fun encode_bytes :: "nat \<Rightarrow> nat \<Rightarrow> string \<Rightarrow> string \<Rightarrow> nat \<times> nat \<times> string" where
  "encode_bytes buffer bit_count output [] = (buffer, bit_count, output)"
| "encode_bytes buffer bit_count output (b # bs) =
     (case emit_groups ((buffer * 256) mod 65536 + byte b) (bit_count + 8) output of
        (buffer', bit_count', output') \<Rightarrow> encode_bytes buffer' bit_count' output' bs)"

definition encode_preview_host :: "string \<Rightarrow> string" where
  "encode_preview_host entropy =
     (case encode_bytes 0 0 [] entropy of
        (buffer, bit_count, output) \<Rightarrow>
          (let index = ((buffer * 2 ^ (5 - bit_count)) mod 65536) mod 32
           in output @ [PREVIEW_HOST_ALPHABET ! index]))"

definition from_preview_host_entropy :: "string \<Rightarrow> SecretString" where
  "from_preview_host_entropy entropy = SecretString (encode_preview_host entropy)"

text \<open>The \<^verbatim>\<open>Debug\<close> representation.\<close>

definition debug_secret :: "SecretString \<Rightarrow> string" where
  "debug_secret s = ''[REDACTED]''"

section \<open>Hex digests\<close>

lemma hex_alphabet_lower_hex: "n < 16 \<Longrightarrow> is_lower_hex (hex_alphabet ! n)"
proof -
  have "\<forall>c \<in> set hex_alphabet. is_lower_hex c"
    by (simp add: hex_alphabet_def is_lower_hex_def is_ascii_digit_def)
  moreover have "length hex_alphabet = 16" by (simp add: hex_alphabet_def)
  ultimately show "n < 16 \<Longrightarrow> is_lower_hex (hex_alphabet ! n)" by simp
qed

lemma hex_alphabet_inject:
  "m < 16 \<Longrightarrow> n < 16 \<Longrightarrow> hex_alphabet ! m = hex_alphabet ! n \<longleftrightarrow> m = n"
proof -
  have "distinct hex_alphabet" by (simp add: hex_alphabet_def)
  moreover have "length hex_alphabet = 16" by (simp add: hex_alphabet_def)
  ultimately show "m < 16 \<Longrightarrow> n < 16 \<Longrightarrow> hex_alphabet ! m = hex_alphabet ! n \<longleftrightarrow> m = n"
    by (simp add: nth_eq_iff_index_eq)
qed

lemma byte_less_256 [simp]: "byte c < 256"
  by simp

lemma length_hex_digest [simp]: "length (hex_digest bs) = 2 * length bs"
  by (induction bs) auto

lemma byte_div_16 [simp]: "byte b div 16 < 16"
  using byte_less_256 [of b] by (simp add: less_mult_imp_div_less)

lemma hex_digest_lower_hex: "list_all is_lower_hex (hex_digest bs)"
  by (induction bs) (auto simp: hex_alphabet_lower_hex)

lemma hex_pair_inject:
  assumes "byte b div 16 = byte c div (16 :: nat)" and "byte b mod 16 = byte c mod (16 :: nat)"
  shows "b = c"
proof -
  have "byte b = byte c"
    using assms by (metis mult_div_mod_eq)
  then show ?thesis by simp
qed

lemma hex_digest_inject: "hex_digest xs = hex_digest ys \<longleftrightarrow> xs = ys"
proof (induction xs arbitrary: ys)
  case Nil
  then show ?case by (cases ys) auto
next
  case (Cons x xs)
  then show ?case
    by (cases ys) (auto simp: hex_alphabet_inject intro: hex_pair_inject)
qed

section \<open>Preview host labels\<close>

text \<open>
  The encoder writes a number in base 32. \<open>base32_value\<close> reads a label back as that
  number and \<open>base256_value\<close> reads the entropy as a number; the loop invariant relates
  the two through the bits still in the buffer.
\<close>

definition base256_value :: "string \<Rightarrow> nat" where
  "base256_value = foldl (\<lambda>n c. n * 256 + byte c) 0"

definition alphabet_index :: "char \<Rightarrow> nat" where
  "alphabet_index c = length (takeWhile (\<lambda>d. d \<noteq> c) PREVIEW_HOST_ALPHABET)"

definition base32_value :: "string \<Rightarrow> nat" where
  "base32_value = foldl (\<lambda>n c. n * 32 + alphabet_index c) 0"

lemma length_preview_alphabet [simp]: "length PREVIEW_HOST_ALPHABET = 32"
  by (simp add: PREVIEW_HOST_ALPHABET_def)

lemma distinct_preview_alphabet: "distinct PREVIEW_HOST_ALPHABET"
  by (simp add: PREVIEW_HOST_ALPHABET_def)

lemma takeWhile_neq_nth:
  "distinct xs \<Longrightarrow> i < length xs \<Longrightarrow> length (takeWhile (\<lambda>d. d \<noteq> xs ! i) xs) = i"
proof (induction xs arbitrary: i)
  case Nil
  then show ?case by simp
next
  case (Cons x xs)
  then show ?case by (cases i) auto
qed

lemma alphabet_index_nth [simp]: "i < 32 \<Longrightarrow> alphabet_index (PREVIEW_HOST_ALPHABET ! i) = i"
  unfolding alphabet_index_def
  by (rule takeWhile_neq_nth) (simp_all add: distinct_preview_alphabet)

lemma base32_value_snoc: "base32_value (s @ [c]) = base32_value s * 32 + alphabet_index c"
  by (simp add: base32_value_def)

text \<open>One drain of the buffer keeps the number, leaves fewer than five bits and grows the
  output by the number of whole groups.\<close>

lemma emit_groups_spec:
  assumes "buffer < 2 ^ bits" and "emit_groups buffer bits out = (buffer', bits', out')"
  shows "base32_value out' * 2 ^ bits' + buffer' = base32_value out * 2 ^ bits + buffer
    \<and> buffer' < 2 ^ bits' \<and> bits' = bits mod 5 \<and> length out' = length out + bits div 5
    \<and> set out' \<subseteq> set out \<union> set PREVIEW_HOST_ALPHABET"
  using assms
proof (induction buffer bits out rule: emit_groups.induct)
  case (1 buffer bits out)
  show ?case
  proof (cases "5 \<le> bits")
    case False
    with 1 show ?thesis by (simp add: emit_groups.simps [of buffer bits out])
  next
    case True
    define b where "b = bits - 5"
    have bits: "bits = b + 5" using True by (simp add: b_def)
    have small: "buffer div 2 ^ b < 32"
      using 1(2) bits by (simp add: less_mult_imp_div_less power_add mult.commute)
    let ?out = "out @ [PREVIEW_HOST_ALPHABET ! ((buffer div 2 ^ b) mod 32)]"
    have rec: "emit_groups (buffer mod 2 ^ b) b ?out = (buffer', bits', out')"
      using 1(3) True by (simp add: emit_groups.simps [of buffer bits out] b_def Let_def)
    have ih: "base32_value out' * 2 ^ bits' + buffer'
          = base32_value ?out * 2 ^ b + buffer mod 2 ^ b
        \<and> buffer' < 2 ^ bits' \<and> bits' = b mod 5 \<and> length out' = length ?out + b div 5
        \<and> set out' \<subseteq> set ?out \<union> set PREVIEW_HOST_ALPHABET"
      by (rule 1(1) [OF True b_def refl _ rec]) simp
    have "base32_value ?out * 2 ^ b + buffer mod 2 ^ b
        = base32_value out * 32 * 2 ^ b + ((buffer div 2 ^ b) * 2 ^ b + buffer mod 2 ^ b)"
      using small by (simp add: base32_value_snoc algebra_simps)
    also have "\<dots> = base32_value out * 2 ^ bits + buffer"
      by (simp add: bits power_add algebra_simps)
    finally have num: "base32_value ?out * 2 ^ b + buffer mod 2 ^ b
        = base32_value out * 2 ^ bits + buffer" .
    have "PREVIEW_HOST_ALPHABET ! ((buffer div 2 ^ b) mod 32) \<in> set PREVIEW_HOST_ALPHABET"
      by (rule nth_mem) simp
    then have out: "set ?out \<subseteq> set out \<union> set PREVIEW_HOST_ALPHABET" by simp
    have eqs: "bits mod 5 = b mod 5" "length ?out + b div 5 = length out + bits div 5"
      by (simp_all add: bits)
    note ih1 = ih [THEN conjunct1] and ih2 = ih [THEN conjunct2, THEN conjunct1]
      and ih3 = ih [THEN conjunct2, THEN conjunct2, THEN conjunct1]
      and ih4 = ih [THEN conjunct2, THEN conjunct2, THEN conjunct2, THEN conjunct1]
      and ih5 = ih [THEN conjunct2, THEN conjunct2, THEN conjunct2, THEN conjunct2]
    have "set out' \<subseteq> set out \<union> set PREVIEW_HOST_ALPHABET"
      using ih5 out by (rule subset_trans [OF _ Un_least]) simp
    with trans [OF ih1 num] ih2 ih3 ih4 eqs show ?thesis by (simp only:)
  qed
qed

lemma encode_bytes_spec:
  assumes "bits < 5" and "buffer < 2 ^ bits"
    and "encode_bytes buffer bits out bs = (buffer', bits', out')"
  shows "base32_value out' * 2 ^ bits' + buffer'
      = (base32_value out * 2 ^ bits + buffer) * 256 ^ length bs + base256_value bs
    \<and> buffer' < 2 ^ bits' \<and> bits' = (bits + 8 * length bs) mod 5
    \<and> length out' = length out + (bits + 8 * length bs) div 5
    \<and> set out' \<subseteq> set out \<union> set PREVIEW_HOST_ALPHABET"
  using assms
proof (induction bs arbitrary: buffer bits out)
  case Nil
  then show ?case by (simp add: base256_value_def)
next
  case (Cons c bs)
  have "buffer < 16"
  proof -
    have "(2 :: nat) ^ bits \<le> 2 ^ 4"
      by (rule power_increasing) (use Cons.prems(1) in simp_all)
    with Cons.prems(2) show ?thesis by simp
  qed
  then have shift: "(buffer * 256) mod 65536 = buffer * 256" by simp
  obtain buffer1 bits1 out1
    where emit: "emit_groups (buffer * 256 + byte c) (bits + 8) out = (buffer1, bits1, out1)"
    using prod_cases3 by blast
  have rec: "encode_bytes buffer1 bits1 out1 bs = (buffer', bits', out')"
    using Cons.prems(3) emit by (simp add: shift)
  have "buffer * 256 + byte c < (buffer + 1) * 256"
    using byte_less_256 [of c] by simp
  also have "\<dots> \<le> 2 ^ bits * 256"
    using Cons.prems(2) by (intro mult_right_mono) simp_all
  finally have "buffer * 256 + byte c < 2 ^ (bits + 8)"
    by (simp add: power_add)
  from emit_groups_spec [OF this emit]
  have e: "base32_value out1 * 2 ^ bits1 + buffer1
        = base32_value out * 2 ^ (bits + 8) + (buffer * 256 + byte c)"
      "buffer1 < 2 ^ bits1" "bits1 = (bits + 8) mod 5"
      "length out1 = length out + (bits + 8) div 5"
      "set out1 \<subseteq> set out \<union> set PREVIEW_HOST_ALPHABET"
    by auto
  have "bits1 < 5" using e(3) by simp
  from Cons.IH [OF this e(2) rec]
  have ih: "base32_value out' * 2 ^ bits' + buffer'
        = (base32_value out1 * 2 ^ bits1 + buffer1) * 256 ^ length bs + base256_value bs"
      "buffer' < 2 ^ bits'" "bits' = (bits1 + 8 * length bs) mod 5"
      "length out' = length out1 + (bits1 + 8 * length bs) div 5"
      "set out' \<subseteq> set out1 \<union> set PREVIEW_HOST_ALPHABET"
    by auto
  have fold: "foldl (\<lambda>n c. n * 256 + byte c) a xs
      = a * 256 ^ length xs + foldl (\<lambda>n c. n * 256 + byte c) 0 xs" for a :: nat and xs
  proof (induction xs arbitrary: a rule: rev_induct)
    case Nil
    then show ?case by simp
  next
    case (snoc x xs)
    from snoc [of a] show ?case by (simp add: algebra_simps)
  qed
  have cons: "base256_value (c # bs) = byte c * 256 ^ length bs + base256_value bs"
    unfolding base256_value_def by (simp add: fold [of "byte c"])
  have "(base32_value out * 2 ^ (bits + 8) + (buffer * 256 + byte c)) * 256 ^ length bs
        + base256_value bs
      = (base32_value out * 2 ^ bits + buffer) * 256 ^ length (c # bs) + base256_value (c # bs)"
    by (simp add: cons power_add algebra_simps)
  then have num: "base32_value out' * 2 ^ bits' + buffer'
      = (base32_value out * 2 ^ bits + buffer) * 256 ^ length (c # bs) + base256_value (c # bs)"
    using ih(1) e(1) by simp
  have "bits' = (bits + 8 * length (c # bs)) mod 5"
    using ih(3) e(3) by (simp add: mod_simps algebra_simps)
  moreover have "length out' = length out + (bits + 8 * length (c # bs)) div 5"
  proof -
    have "bits + 8 + 8 * length bs = ((bits + 8) mod 5 + 8 * length bs) + (bits + 8) div 5 * 5"
      using mod_div_mult_eq [of "bits + 8" 5] by linarith
    then have "(bits + 8 + 8 * length bs) div 5
        = (bits + 8) div 5 + ((bits + 8) mod 5 + 8 * length bs) div 5"
      by (simp only: div_mult_self1)
    then show ?thesis using ih(4) e(3,4) by (simp add: algebra_simps)
  qed
  moreover have "set out' \<subseteq> set out \<union> set PREVIEW_HOST_ALPHABET"
    using ih(5) e(5) by auto
  ultimately show ?case using num ih(2) by simp
qed

lemma encode_preview_host_decompose:
  assumes "length entropy = 32"
  shows "base32_value (encode_preview_host entropy) = base256_value entropy * 16
    \<and> length (encode_preview_host entropy) = 52
    \<and> set (encode_preview_host entropy) \<subseteq> set PREVIEW_HOST_ALPHABET"
proof -
  obtain buffer bits out where enc: "encode_bytes 0 0 [] entropy = (buffer, bits, out)"
    using prod_cases3 by blast
  have spec: "base32_value out * 2 ^ bits + buffer = base256_value entropy"
      "buffer < 2 ^ bits" "bits = 1" "length out = 51" "set out \<subseteq> set PREVIEW_HOST_ALPHABET"
    using encode_bytes_spec [OF _ _ enc] assms by (auto simp: base32_value_def)
  let ?i = "((buffer * 2 ^ (5 - bits)) mod 65536) mod 32"
  have i: "?i = buffer * 16" and "?i < 32" using spec(2,3) by simp_all
  have e: "encode_preview_host entropy = out @ [PREVIEW_HOST_ALPHABET ! ?i]"
    by (simp add: encode_preview_host_def enc)
  have "base32_value (encode_preview_host entropy) = (base32_value out * 2 + buffer) * 16"
    unfolding e base32_value_snoc using i \<open>?i < 32\<close> by simp
  moreover have "base32_value out * 2 + buffer = base256_value entropy"
    using spec(1,3) by simp
  moreover have "PREVIEW_HOST_ALPHABET ! ?i \<in> set PREVIEW_HOST_ALPHABET"
    by (rule nth_mem) simp
  ultimately show ?thesis using spec(4,5) by (simp add: e)
qed

lemma base256_value_inject:
  "length xs = length ys \<Longrightarrow> base256_value xs = base256_value ys \<Longrightarrow> xs = ys"
proof (induction xs arbitrary: ys rule: rev_induct)
  case Nil
  then show ?case by simp
next
  case (snoc x xs)
  obtain z zs where ys: "ys = zs @ [z]"
    using snoc.prems(1) by (cases ys rule: rev_cases) auto
  have eq: "base256_value xs * 256 + byte x = base256_value zs * 256 + byte z"
    using snoc.prems(2) by (simp add: ys base256_value_def)
  have "byte x = (base256_value xs * 256 + byte x) mod 256" by simp
  also have "\<dots> = byte z" unfolding eq by simp
  finally have "byte x = byte z" .
  with eq snoc.IH [of zs] snoc.prems(1) show ?case by (simp add: ys)
qed

section \<open>Properties\<close>

text \<open>The preview host label of a 256-bit entropy is one DNS label of exactly 52
  characters of the base32 alphabet, and no two entropies share a label: the encoder
  retains all 256 bits.\<close>

theorem preview_host_label_faithful:
  assumes "length entropy = 32" and "length entropy' = 32"
  shows "length (encode_preview_host entropy) = 52
    \<and> set (encode_preview_host entropy) \<subseteq> set PREVIEW_HOST_ALPHABET
    \<and> (encode_preview_host entropy = encode_preview_host entropy' \<longleftrightarrow> entropy = entropy')"
proof -
  note d = encode_preview_host_decompose [OF assms(1)] encode_preview_host_decompose [OF assms(2)]
  have "entropy = entropy'" if "encode_preview_host entropy = encode_preview_host entropy'"
  proof -
    have "base256_value entropy * 16 = base256_value entropy' * 16" using d that by metis
    then show ?thesis using assms by (intro base256_value_inject) simp_all
  qed
  with d show ?thesis by blast
qed

theorem preview_host_label_faithful_witness:
  "length (encode_preview_host (replicate 32 CHR ''a'')) = 52
    \<and> encode_preview_host (replicate 32 CHR ''a'') \<noteq> encode_preview_host (replicate 32 CHR ''b'')"
  using preview_host_label_faithful [of "replicate 32 CHR ''a''" "replicate 32 CHR ''b''"]
  by (simp only: length_replicate replicate_eq_replicate) simp

definition secret_prefix_table :: "(string \<times> GeneratedSecretKind) list" where
  "secret_prefix_table =
     map (\<lambda>k. (secret_prefix k, k))
       [AccessToken, ApiToken, MachineToken, BootstrapToken, RuntimeSecret, DownloadCapability,
        ShareCapability, InboxCapability, UploadCapability, UserLoginKey, YardGuestInvitation,
        YardGuestLoginKey, YardExchangeCode, YardOidcState, YardOidcNonce, YardOidcPkceVerifier,
        YardSession]"

lemma secret_prefix_table_inverse: "map_of secret_prefix_table (secret_prefix k) = Some k"
  unfolding secret_prefix_table_def by (cases k) simp_all

lemma secret_prefix_inject: "secret_prefix k = secret_prefix l \<longleftrightarrow> k = l"
  by (metis secret_prefix_table_inverse option.inject)

lemma secret_prefix_text:
  "length (secret_prefix k) \<le> 7 \<and> (\<forall>c \<in> set (secret_prefix k). is_ascii_lowercase c \<or> c = CHR ''_'')"
  by (cases k) (simp_all add: is_ascii_lowercase_def)

lemma has_control_printable:
  assumes "\<forall>c \<in> set s. 32 \<le> byte c \<and> byte c < (127 :: nat)"
  shows "\<not> has_control s"
proof -
  have "chars s = map byte s" using assms by (intro chars_ascii) auto
  with assms show ?thesis by (auto simp: has_control_def is_control_def list_ex_iff)
qed

text \<open>A credential generated from 32 bytes of entropy satisfies the invariant of
  \<^verbatim>\<open>SecretString::new\<close> without being re-validated, and it determines both its kind and its
  entropy: no credential of one kind can be mistaken for one of another kind.\<close>

theorem generated_secret_faithful:
  assumes "length entropy = 32" and "length entropy' = 32"
  shows "secret_new (expose_secret (from_generated_entropy kind entropy))
      = Ok (from_generated_entropy kind entropy)
    \<and> (from_generated_entropy kind entropy = from_generated_entropy kind' entropy'
        \<longleftrightarrow> kind = kind' \<and> entropy = entropy')"
proof -
  let ?s = "secret_prefix kind @ ''_'' @ hex_digest entropy"
  have "\<forall>c \<in> set ?s. 32 \<le> byte c \<and> byte c < (127 :: nat)"
    using secret_prefix_text [of kind] hex_digest_lower_hex [of entropy]
    by (fastforce simp: ascii_class_defs list_all_iff)
  then have "\<not> has_control ?s" by (rule has_control_printable)
  moreover have "length ?s \<le> MAX_SECRET_BYTES"
    using secret_prefix_text [of kind] assms(1) by (simp add: MAX_SECRET_BYTES_def)
  ultimately have "secret_new ?s = Ok (SecretString ?s)"
    by (simp add: secret_new_def)
  moreover have "?s = secret_prefix kind' @ ''_'' @ hex_digest entropy'
      \<longleftrightarrow> kind = kind' \<and> entropy = entropy'"
    using assms by (simp add: append_eq_append_conv secret_prefix_inject hex_digest_inject)
  ultimately show ?thesis by (simp add: from_generated_entropy_def)
qed

theorem generated_secret_faithful_witness:
  "from_generated_entropy ApiToken (replicate 32 CHR ''a'')
     \<noteq> from_generated_entropy DownloadCapability (replicate 32 CHR ''a'')"
  using generated_secret_faithful
    [of "replicate 32 CHR ''a''" "replicate 32 CHR ''a''" ApiToken DownloadCapability]
  by (simp only: length_replicate) simp

end
