(* ===== verification/Core_Uri.thy ===== *)
theory Core_Uri
  imports Prelude
begin

text \<open>
  Slugs and object identifiers: \<^verbatim>\<open>crates/blobyard-core/src/slug.rs\<close> and
  \<^verbatim>\<open>crates/blobyard-core/src/uri.rs\<close>.

  The \<^verbatim>\<open>percent_encoding\<close> crate is not part of the repository. Its encoder and decoder are
  arguments \<open>enc\<close> and \<open>dec\<close> of the definitions that call them, and \<open>percent_codec enc dec\<close>
  is what its documentation promises: a byte outside ASCII or in the given set becomes a
  percent sign and two uppercase hexadecimal digits, any other byte stays; decoding turns
  an escape back into its byte and leaves other bytes alone.

  \<^verbatim>\<open>char::is_alphanumeric\<close> asks the Unicode tables about code points outside ASCII; the
  predicate \<open>uni\<close> stands for them in \<open>slug_new_with\<close>, and \<open>slug_new_with_ascii\<close> shows that
  they are never consulted in vain: the result does not depend on them.
\<close>

section \<open>Slugs\<close>

definition MAX_SLUG_BYTES :: nat where
  "MAX_SLUG_BYTES = 63"

datatype SlugError = SlugError

datatype Slug = Slug (slug_as_str: string)

definition char_is_alphanumeric :: "(nat \<Rightarrow> bool) \<Rightarrow> nat \<Rightarrow> bool" where
  "char_is_alphanumeric uni c \<longleftrightarrow>
     (if c < 128 then is_ascii_alphanumeric (char_of c) else uni c)"

definition slug_char :: "char \<Rightarrow> bool" where
  "slug_char c \<longleftrightarrow> is_ascii_alphanumeric c \<or> c = CHR ''-'' \<or> c = CHR ''_''"

definition slug_new_with :: "(nat \<Rightarrow> bool) \<Rightarrow> string \<Rightarrow> SlugError + Slug" where
  "slug_new_with uni value =
     (let valid_length = value \<noteq> [] \<and> length value \<le> MAX_SLUG_BYTES;
          cs = chars value;
          valid_edges = cs \<noteq> [] \<and> char_is_alphanumeric uni (hd cs)
                        \<and> char_is_alphanumeric uni (last cs);
          valid_chars = list_all (\<lambda>c. c < 128 \<and> slug_char (char_of c)) cs
      in if valid_length \<and> valid_edges \<and> valid_chars then Ok (Slug value) else Err SlugError)"

definition slug_new :: "string \<Rightarrow> SlugError + Slug" where
  "slug_new value =
     (if value \<noteq> [] \<and> length value \<le> MAX_SLUG_BYTES
         \<and> is_ascii_alphanumeric (hd value) \<and> is_ascii_alphanumeric (last value)
         \<and> list_all slug_char value
      then Ok (Slug value) else Err SlugError)"

section \<open>Object identifiers\<close>

definition SCHEME :: string where
  "SCHEME = ''blobyard://''"

definition MAX_URI_BYTES :: nat where
  "MAX_URI_BYTES = 4096"

definition MAX_PATH_BYTES :: nat where
  "MAX_PATH_BYTES = 2048"

text \<open>\<^verbatim>\<open>CONTROLS\<close> of the percent-encoding crate is C0 and DEL; the rest is added by the source.\<close>

definition SEGMENT_ENCODE_SET :: "char \<Rightarrow> bool" where
  "SEGMENT_ENCODE_SET c \<longleftrightarrow>
     byte c < 32 \<or> byte c = 127
     \<or> c \<in> set '' !'' \<or> c = CHR 0x22 \<or> c \<in> set ''#$%&'' \<or> c = CHR 0x27
     \<or> c \<in> set ''()*+,/:;<=>?@['' \<or> c = CHR 0x5C \<or> c \<in> set '']^'' \<or> c = CHR 0x60
     \<or> c \<in> set ''{|}''"

record BlobyardUri =
  uri_workspace :: Slug
  uri_project :: Slug
  uri_logical_path :: string
  uri_version :: "nat option"

datatype BlobyardUriError =
    TooLong
  | InvalidScheme
  | InvalidStructure
  | InvalidWorkspace
  | InvalidProject
  | InvalidPath
  | InvalidPercentEncoding
  | InvalidVersion

text \<open>The \<^verbatim>\<open>Display\<close> instance.\<close>

definition uri_to_string ::
  "((char \<Rightarrow> bool) \<Rightarrow> string \<Rightarrow> string) \<Rightarrow> BlobyardUri \<Rightarrow> string" where
  "uri_to_string enc u =
     SCHEME @ slug_as_str (uri_workspace u) @ ''/'' @ slug_as_str (uri_project u)
     @ concat (map (\<lambda>segment. ''/'' @ enc SEGMENT_ENCODE_SET segment)
                 (split_on CHR ''/'' (uri_logical_path u)))
     @ (case uri_version u of None \<Rightarrow> [] | Some version \<Rightarrow> ''?version='' @ show_nat version)"

definition unsafe_segment :: "string \<Rightarrow> bool" where
  "unsafe_segment segment \<longleftrightarrow>
     segment = [] \<or> segment = ''.'' \<or> segment = ''..''
     \<or> CHR 0x5C \<in> set segment \<or> has_control segment"

definition validate_decoded_path :: "string \<Rightarrow> BlobyardUriError + unit" where
  "validate_decoded_path value =
     (if length value > MAX_PATH_BYTES then Err TooLong
      else if list_ex unsafe_segment (split_on CHR ''/'' value) then Err InvalidPath
      else Ok ())"

definition uri_new ::
  "((char \<Rightarrow> bool) \<Rightarrow> string \<Rightarrow> string) \<Rightarrow> Slug \<Rightarrow> Slug \<Rightarrow> string \<Rightarrow> nat option
    \<Rightarrow> BlobyardUriError + BlobyardUri" where
  "uri_new enc workspace project logical_path version =
     and_then (validate_decoded_path logical_path) (\<lambda>_.
       let value = \<lparr>uri_workspace = workspace, uri_project = project,
                    uri_logical_path = logical_path, uri_version = version\<rparr>
       in if length (uri_to_string enc value) > MAX_URI_BYTES then Err TooLong else Ok value)"

definition split_query :: "string \<Rightarrow> BlobyardUriError + string \<times> string option" where
  "split_query body =
     (case split_once CHR ''?'' body of
        Some (location, query) \<Rightarrow>
          if CHR ''?'' \<in> set query then Err InvalidStructure else Ok (location, Some query)
      | None \<Rightarrow> Ok (body, None))"

definition split_location :: "string \<Rightarrow> BlobyardUriError + string \<times> string \<times> string" where
  "split_location location =
     and_then (ok_or InvalidStructure (split_once CHR ''/'' location)) (\<lambda>(workspace, remainder).
     and_then (ok_or InvalidStructure (split_once CHR ''/'' remainder)) (\<lambda>(project, path).
       if workspace = [] \<or> project = [] \<or> path = [] then Err InvalidStructure
       else Ok (workspace, project, path)))"

fun validate_percent_encoding :: "string \<Rightarrow> BlobyardUriError + unit" where
  "validate_percent_encoding [] = Ok ()"
| "validate_percent_encoding (b # bytes) =
     (if b = CHR ''%''
      then (case bytes of
          first # second # rest \<Rightarrow>
            if \<not> is_ascii_hexdigit first \<or> \<not> is_ascii_hexdigit second
            then Err InvalidPercentEncoding else validate_percent_encoding rest
        | _ \<Rightarrow> Err InvalidPercentEncoding)
      else validate_percent_encoding bytes)"

definition decode_segment ::
  "(string \<Rightarrow> string) \<Rightarrow> string \<Rightarrow> BlobyardUriError + string" where
  "decode_segment dec segment =
     (let decoded = dec segment
      in if \<not> utf8_valid decoded then Err InvalidPercentEncoding
         else if decoded = [] \<or> decoded = ''.'' \<or> decoded = ''..''
                 \<or> CHR ''/'' \<in> set decoded \<or> CHR 0x5C \<in> set decoded \<or> has_control decoded
         then Err InvalidPath
         else Ok decoded)"

definition decode_path :: "(string \<Rightarrow> string) \<Rightarrow> string \<Rightarrow> BlobyardUriError + string" where
  "decode_path dec encoded_path =
     and_then (validate_percent_encoding encoded_path) (\<lambda>_.
     and_then (collect_results (decode_segment dec) (split_on CHR ''/'' encoded_path))
       (\<lambda>decoded_segments.
          let logical_path = join ''/'' decoded_segments
          in and_then (validate_decoded_path logical_path) (\<lambda>_. Ok logical_path)))"

definition parse_version :: "string option \<Rightarrow> BlobyardUriError + nat option" where
  "parse_version query =
     (case query of
        None \<Rightarrow> Ok None
      | Some q \<Rightarrow>
          and_then (ok_or InvalidVersion (strip_prefix ''version='' q)) (\<lambda>raw.
            if raw = [] \<or> CHR ''&'' \<in> set raw then Err InvalidVersion
            else (case parse_uint u64_max raw of
                None \<Rightarrow> Err InvalidVersion
              | Some version \<Rightarrow>
                  if version = 0 then Err InvalidVersion else Ok (Some version))))"

definition uri_from_str ::
  "(string \<Rightarrow> string) \<Rightarrow> string \<Rightarrow> BlobyardUriError + BlobyardUri" where
  "uri_from_str dec input =
     (if length input > MAX_URI_BYTES then Err TooLong
      else
        and_then (ok_or InvalidScheme (strip_prefix SCHEME input)) (\<lambda>body.
        if CHR ''#'' \<in> set body then Err InvalidStructure
        else
          and_then (split_query body) (\<lambda>(location, query).
          and_then (split_location location) (\<lambda>(workspace, project, encoded_path).
          and_then (map_err (\<lambda>_. InvalidWorkspace) (slug_new workspace)) (\<lambda>workspace.
          and_then (map_err (\<lambda>_. InvalidProject) (slug_new project)) (\<lambda>project.
          and_then (decode_path dec encoded_path) (\<lambda>logical_path.
          and_then (parse_version query) (\<lambda>version.
            Ok \<lparr>uri_workspace = workspace, uri_project = project,
                uri_logical_path = logical_path, uri_version = version\<rparr>))))))))"

text \<open>What the percent-encoding crate documents.\<close>

definition upper_hex :: "nat \<Rightarrow> char" where
  "upper_hex n = ''0123456789ABCDEF'' ! n"

definition hex_value :: "char \<Rightarrow> nat" where
  "hex_value c =
     (if is_ascii_digit c then byte c - 48
      else if is_ascii_lowercase c then byte c - 87 else byte c - 55)"

definition percent_codec ::
  "((char \<Rightarrow> bool) \<Rightarrow> string \<Rightarrow> string) \<Rightarrow> (string \<Rightarrow> string) \<Rightarrow> bool" where
  "percent_codec enc dec \<longleftrightarrow>
     (\<forall>S. enc S [] = [])
     \<and> (\<forall>S c s. enc S (c # s) =
           (if byte c \<ge> 128 \<or> S c
            then CHR ''%'' # upper_hex (byte c div 16) # upper_hex (byte c mod 16) # enc S s
            else c # enc S s))
     \<and> dec [] = []
     \<and> (\<forall>c s. c \<noteq> CHR ''%'' \<longrightarrow> dec (c # s) = c # dec s)
     \<and> (\<forall>h l s. is_ascii_hexdigit h \<and> is_ascii_hexdigit l \<longrightarrow>
           dec (CHR ''%'' # h # l # s) = char_of (16 * hex_value h + hex_value l) # dec s)"

section \<open>Slug lemmas\<close>

lemma slug_char_ascii: "slug_char c \<Longrightarrow> byte c < 128"
  by (auto simp: slug_char_def ascii_class_defs)

lemma slug_char_not: "slug_char c \<Longrightarrow> c \<noteq> CHR ''/'' \<and> c \<noteq> CHR ''?'' \<and> c \<noteq> CHR ''#''"
  by (auto simp: slug_char_def ascii_class_defs)

text \<open>In well-formed UTF-8 a multi-byte sequence never decodes to an ASCII code point.\<close>

lemma chars_hd_multibyte:
  assumes "utf8_valid (a # r)" and "\<not> byte a < (128 :: nat)"
  shows "128 \<le> hd (chars (a # r))"
proof -
  have two: "2 \<le> byte a mod (32 :: nat)" if "194 \<le> byte a" "byte a \<le> (223 :: nat)"
  proof -
    have "byte a mod (32 :: nat) = byte a - 192" using that by (simp add: mod_in_block [of 6 32])
    with that show ?thesis by linarith
  qed
  have three: "128 \<le> (byte a mod 16) * 4096 + (x mod 64) * 64 + (y :: nat)"
    if "224 \<le> byte a" "byte a \<le> (239 :: nat)" "byte a = (224 :: nat) \<longrightarrow> 160 \<le> x" "x \<le> 191" for x y
  proof (cases "byte a = (224 :: nat)")
    case True
    with that have "160 \<le> x" and "x \<le> 191" by simp_all
    then have "32 \<le> x mod 64" by (simp add: mod_in_block [of 2 64])
    then show ?thesis by linarith
  next
    case False
    then have "byte a mod (16 :: nat) = byte a - 224"
      using that by (simp add: mod_in_block [of 14 16])
    with False that have "1 \<le> byte a mod (16 :: nat)" by linarith
    then show ?thesis by linarith
  qed
  have four: "128 \<le> (byte a mod 8) * 262144 + (x mod 64) * 4096 + (y :: nat)"
    if "240 \<le> byte a" "byte a \<le> (244 :: nat)" "byte a = (240 :: nat) \<longrightarrow> 144 \<le> x" "x \<le> 191" for x y
  proof (cases "byte a = (240 :: nat)")
    case True
    with that have "144 \<le> x" and "x \<le> 191" by simp_all
    then have "16 \<le> x mod 64" by (simp add: mod_in_block [of 2 64])
    then show ?thesis by linarith
  next
    case False
    then have "byte a mod (8 :: nat) = byte a - 240"
      using that by (simp add: mod_in_block [of 30 8])
    with False that have "1 \<le> byte a mod (8 :: nat)" by linarith
    then show ?thesis by linarith
  qed
  show ?thesis
    using assms two three four
    by (auto simp: add.assoc split: list.splits if_splits)
qed

lemma chars_Cons_not_Nil [simp]: "chars (a # r) \<noteq> []"
  by (auto split: list.splits)

lemma chars_all_ascii:
  assumes "utf8_valid s" and "list_all (\<lambda>c. c < 128) (chars s)"
  shows "\<forall>c \<in> set s. byte c < (128 :: nat)"
  using assms
proof (induction s)
  case Nil
  then show ?case by simp
next
  case (Cons a r)
  have "hd (chars (a # r)) \<in> set (chars (a # r))"
    by (rule hd_in_set) (rule chars_Cons_not_Nil)
  then have "hd (chars (a # r)) < 128"
    using Cons.prems(2) by (simp only: list_all_iff)
  then have "byte a < (128 :: nat)"
    using chars_hd_multibyte [OF Cons.prems(1)] by linarith
  with Cons show ?case by simp
qed

definition valid_slug :: "Slug \<Rightarrow> bool" where
  "valid_slug s \<longleftrightarrow> slug_new (slug_as_str s) = Ok s"

lemma slug_new_Ok_iff:
  "slug_new value = Ok s \<longleftrightarrow>
     s = Slug value \<and> value \<noteq> [] \<and> length value \<le> MAX_SLUG_BYTES
     \<and> is_ascii_alphanumeric (hd value) \<and> is_ascii_alphanumeric (last value)
     \<and> list_all slug_char value"
  by (auto simp: slug_new_def)

lemma slug_new_valid: "slug_new value = Ok s \<Longrightarrow> valid_slug s \<and> slug_as_str s = value"
  by (auto simp: valid_slug_def slug_new_Ok_iff)

lemma valid_slug_text:
  assumes "valid_slug s"
  shows "slug_as_str s \<noteq> []" and "list_all slug_char (slug_as_str s)"
  using assms by (auto simp: valid_slug_def slug_new_Ok_iff)

lemma slug_no_separator:
  assumes "valid_slug s"
  shows "CHR ''/'' \<notin> set (slug_as_str s)" and "CHR ''?'' \<notin> set (slug_as_str s)"
    and "CHR ''#'' \<notin> set (slug_as_str s)"
  using valid_slug_text(2) [OF assms] slug_char_not by (auto simp: list_all_iff)

section \<open>Percent encoding\<close>

lemma percent_codecD:
  assumes "percent_codec enc dec"
  shows "enc S [] = []"
    and "byte c \<ge> (128 :: nat) \<or> SEGMENT_ENCODE_SET c \<Longrightarrow> enc SEGMENT_ENCODE_SET (c # s)
      = CHR ''%'' # upper_hex (byte c div 16) # upper_hex (byte c mod 16)
        # enc SEGMENT_ENCODE_SET s"
    and "\<not> (byte c \<ge> (128 :: nat) \<or> SEGMENT_ENCODE_SET c) \<Longrightarrow>
      enc SEGMENT_ENCODE_SET (c # s) = c # enc SEGMENT_ENCODE_SET s"
    and "dec [] = []"
    and "c \<noteq> CHR ''%'' \<Longrightarrow> dec (c # s) = c # dec s"
    and "is_ascii_hexdigit h \<Longrightarrow> is_ascii_hexdigit l \<Longrightarrow>
      dec (CHR ''%'' # h # l # s) = char_of (16 * hex_value h + hex_value l) # dec s"
  using assms unfolding percent_codec_def by simp_all

lemma upper_hex_digit:
  assumes "n < 16"
  shows "is_ascii_hexdigit (upper_hex n)" and "hex_value (upper_hex n) = n"
    and "is_ascii_alphanumeric (upper_hex n)"
proof -
  have "\<forall>n \<in> set [0..<16]. is_ascii_hexdigit (upper_hex n) \<and> hex_value (upper_hex n) = n
      \<and> is_ascii_alphanumeric (upper_hex n)"
    by code_simp
  moreover have "n \<in> set [0..<16]" using assms by simp
  ultimately have "is_ascii_hexdigit (upper_hex n) \<and> hex_value (upper_hex n) = n
      \<and> is_ascii_alphanumeric (upper_hex n)"
    by blast
  then show "is_ascii_hexdigit (upper_hex n)" and "hex_value (upper_hex n) = n"
    and "is_ascii_alphanumeric (upper_hex n)"
    by blast+
qed

lemma percent_in_set: "SEGMENT_ENCODE_SET CHR ''%''"
  by (simp add: SEGMENT_ENCODE_SET_def)

text \<open>Encoded segments consist of a percent sign, hexadecimal digits and bytes the set lets
  through, so none of the delimiters of an identifier occurs in them.\<close>

lemma enc_segment_chars:
  assumes "percent_codec enc dec" and "c \<in> set (enc SEGMENT_ENCODE_SET s)"
  shows "c = CHR ''%'' \<or> is_ascii_alphanumeric c \<or> \<not> SEGMENT_ENCODE_SET c"
  using assms(2)
proof (induction s)
  case Nil
  then show ?case by (simp add: percent_codecD(1) [OF assms(1)])
next
  case (Cons b s)
  have b: "byte b div 16 < (16 :: nat)" "byte b mod 16 < (16 :: nat)"
    by (simp_all add: less_mult_imp_div_less)
  show ?case
  proof (cases "byte b \<ge> (128 :: nat) \<or> SEGMENT_ENCODE_SET b")
    case True
    with Cons b show ?thesis
      by (auto simp: percent_codecD(2) [OF assms(1) True] upper_hex_digit(3))
  next
    case False
    with Cons show ?thesis
      by (auto simp: percent_codecD(3) [OF assms(1) False])
  qed
qed

lemma enc_segment_no_delimiter:
  assumes "percent_codec enc dec"
  shows "CHR ''/'' \<notin> set (enc SEGMENT_ENCODE_SET s)"
    and "CHR ''?'' \<notin> set (enc SEGMENT_ENCODE_SET s)"
    and "CHR ''#'' \<notin> set (enc SEGMENT_ENCODE_SET s)"
proof -
  have "c \<noteq> CHR ''%'' \<and> \<not> is_ascii_alphanumeric c \<and> SEGMENT_ENCODE_SET c"
    if "c \<in> {CHR ''/'', CHR ''?'', CHR ''#''}" for c
    using that by (auto simp: SEGMENT_ENCODE_SET_def ascii_class_defs)
  then show "CHR ''/'' \<notin> set (enc SEGMENT_ENCODE_SET s)"
    and "CHR ''?'' \<notin> set (enc SEGMENT_ENCODE_SET s)"
    and "CHR ''#'' \<notin> set (enc SEGMENT_ENCODE_SET s)"
    using enc_segment_chars [OF assms, of _ s] by blast+
qed

lemma dec_enc_segment:
  assumes "percent_codec enc dec"
  shows "dec (enc SEGMENT_ENCODE_SET s) = s"
proof (induction s)
  case Nil
  then show ?case by (simp add: percent_codecD(1,4) [OF assms])
next
  case (Cons b s)
  have b: "byte b div 16 < (16 :: nat)" "byte b mod 16 < (16 :: nat)"
    by (simp_all add: less_mult_imp_div_less)
  show ?case
  proof (cases "byte b \<ge> (128 :: nat) \<or> SEGMENT_ENCODE_SET b")
    case True
    have "16 * (byte b div 16) + byte b mod 16 = (byte b :: nat)" by simp
    with Cons show ?thesis
      by (simp add: percent_codecD(2) [OF assms True] upper_hex_digit b
          percent_codecD(6) [OF assms])
  next
    case False
    then have "b \<noteq> CHR ''%''" using percent_in_set by blast
    with Cons show ?thesis
      by (simp add: percent_codecD(3) [OF assms False] percent_codecD(5) [OF assms])
  qed
qed

lemma validate_percent_enc_append:
  assumes "percent_codec enc dec"
  shows "validate_percent_encoding (enc SEGMENT_ENCODE_SET s @ t) = validate_percent_encoding t"
proof (induction s)
  case Nil
  then show ?case by (simp add: percent_codecD(1) [OF assms])
next
  case (Cons b s)
  have b: "byte b div 16 < (16 :: nat)" "byte b mod 16 < (16 :: nat)"
    by (simp_all add: less_mult_imp_div_less)
  show ?case
  proof (cases "byte b \<ge> (128 :: nat) \<or> SEGMENT_ENCODE_SET b")
    case True
    with Cons show ?thesis
      by (simp add: percent_codecD(2) [OF assms True] upper_hex_digit b)
  next
    case False
    then have "b \<noteq> CHR ''%''" using percent_in_set by blast
    with Cons show ?thesis
      by (simp add: percent_codecD(3) [OF assms False])
  qed
qed

lemma validate_percent_join:
  assumes "percent_codec enc dec"
  shows "validate_percent_encoding (join ''/'' (map (enc SEGMENT_ENCODE_SET) segs)) = Ok ()"
proof (induction segs)
  case Nil
  then show ?case by simp
next
  case (Cons p segs)
  have "validate_percent_encoding (enc SEGMENT_ENCODE_SET p) = Ok ()"
    using validate_percent_enc_append [OF assms, of p "[]"] by simp
  with Cons show ?case
    by (cases segs) (simp_all add: validate_percent_enc_append [OF assms])
qed

text \<open>Cutting valid UTF-8 at an ASCII byte leaves valid UTF-8.\<close>

lemma split_on_Cons_neq:
  "x \<noteq> d \<Longrightarrow> split_on d xs = p # ps \<Longrightarrow> split_on d (x # xs) = (x # p) # ps"
  by simp

lemma utf8_valid_split_on:
  assumes "byte d < (128 :: nat)" and "utf8_valid s"
  shows "list_all utf8_valid (split_on d s)"
  using assms(2)
proof (induction s rule: utf8_valid.induct)
  case 1
  then show ?case by simp
next
  case (2 a r)
  have ne: "x \<noteq> d" if "128 \<le> (byte x :: nat)" for x using that assms(1) by auto
  show ?case
  proof (cases "byte a < (128 :: nat)")
    case True
    with 2 have "list_all utf8_valid (split_on d r)" by simp
    with True show ?thesis by (cases "split_on d r") auto
  next
    case False
    then have a: "a \<noteq> d" using ne by auto
    consider (two) b r2 where "r = b # r2" "194 \<le> (byte a :: nat)" "byte a \<le> (223 :: nat)"
      | (three) b c r3 where "r = b # c # r3" "224 \<le> (byte a :: nat)" "byte a \<le> (239 :: nat)"
      | (four) b c e r4 where "r = b # c # e # r4" "240 \<le> (byte a :: nat)" "byte a \<le> (244 :: nat)"
      using "2.prems" False by (auto split: if_splits list.splits)
    then show ?thesis
    proof cases
      case two
      then have b: "128 \<le> (byte b :: nat)" and v: "utf8_valid r2"
        using "2.prems" False by (auto split: if_splits)
      obtain p ps where sp: "split_on d r2 = p # ps" by (cases "split_on d r2") auto
      have "list_all utf8_valid (split_on d r2)"
        using "2.IH"(2) [of b r2] two v False by simp
      then show ?thesis
        using two "2.prems" False a ne [OF b] by (simp add: sp)
    next
      case three
      then have b: "128 \<le> (byte b :: nat)" and c: "128 \<le> (byte c :: nat)" and v: "utf8_valid r3"
        using "2.prems" False by (auto split: if_splits)
      obtain p ps where sp: "split_on d r3 = p # ps" by (cases "split_on d r3") auto
      have "list_all utf8_valid (split_on d r3)"
        using "2.IH"(3) [of b "c # r3" c r3] three v False by simp
      then show ?thesis
        using three "2.prems" False a ne [OF b] ne [OF c] by (simp add: sp)
    next
      case four
      then have b: "128 \<le> (byte b :: nat)" and c: "128 \<le> (byte c :: nat)"
        and e: "128 \<le> (byte e :: nat)" and v: "utf8_valid r4"
        using "2.prems" False by (auto split: if_splits)
      obtain p ps where sp: "split_on d r4 = p # ps" by (cases "split_on d r4") auto
      have "list_all utf8_valid (split_on d r4)"
        using "2.IH"(4) [of b "c # e # r4" c "e # r4" e r4] four v False by simp
      then show ?thesis
        using four "2.prems" False a ne [OF b] ne [OF c] ne [OF e] by (simp add: sp)
    qed
  qed
qed

section \<open>Identifier lemmas\<close>

text \<open>The invariant of the Rust type: what every constructed identifier satisfies.\<close>

definition valid_uri :: "BlobyardUri \<Rightarrow> bool" where
  "valid_uri u \<longleftrightarrow>
     valid_slug (uri_workspace u) \<and> valid_slug (uri_project u)
     \<and> utf8_valid (uri_logical_path u)
     \<and> validate_decoded_path (uri_logical_path u) = Ok ()
     \<and> (\<forall>version. uri_version u = Some version \<longrightarrow> 0 < version \<and> version \<le> u64_max)"

lemma validate_decoded_path_Ok_iff:
  "validate_decoded_path p = Ok u \<longleftrightarrow>
     length p \<le> MAX_PATH_BYTES \<and> (\<forall>segment \<in> set (split_on CHR ''/'' p). \<not> unsafe_segment segment)"
  by (auto simp: validate_decoded_path_def list_ex_iff)

lemma concat_slash_segments:
  "segs \<noteq> [] \<Longrightarrow> concat (map (\<lambda>s. ''/'' @ f s) segs) = CHR ''/'' # join ''/'' (map f segs)"
proof (induction segs)
  case Nil
  then show ?case by simp
next
  case (Cons x segs)
  then show ?case by (cases segs) auto
qed

lemma decode_segment_enc:
  assumes "percent_codec enc dec" and "utf8_valid p" and "\<not> unsafe_segment p"
    and "CHR ''/'' \<notin> set p"
  shows "decode_segment dec (enc SEGMENT_ENCODE_SET p) = Ok p"
  using assms by (auto simp: decode_segment_def dec_enc_segment unsafe_segment_def Let_def)

lemma decode_path_enc:
  assumes "percent_codec enc dec" and "utf8_valid path" and "validate_decoded_path path = Ok ()"
  shows "decode_path dec (join ''/'' (map (enc SEGMENT_ENCODE_SET) (split_on CHR ''/'' path)))
    = Ok path"
proof -
  let ?E = "enc SEGMENT_ENCODE_SET" and ?segs = "split_on CHR ''/'' path"
  have "\<forall>p \<in> set (map ?E ?segs). CHR ''/'' \<notin> set p"
    using enc_segment_no_delimiter(1) [OF assms(1)] by auto
  then have split: "split_on CHR ''/'' (join ''/'' (map ?E ?segs)) = map ?E ?segs"
    by (intro split_on_join) simp_all
  have "list_all utf8_valid ?segs"
    using assms(2) by (intro utf8_valid_split_on) simp_all
  then have "\<forall>p \<in> set ?segs. decode_segment dec (?E p) = Ok p"
    using assms(3) split_on_pieces [of _ "CHR ''/''" path]
    by (auto simp: validate_decoded_path_Ok_iff list_all_iff intro!: decode_segment_enc [OF assms(1)])
  then have "collect_results (decode_segment dec) (map ?E ?segs) = Ok ?segs"
    by (auto simp: collect_results_Ok_iff list_all2_conv_all_nth)
  then show ?thesis
    using assms(3) validate_percent_join [OF assms(1)] by (simp add: decode_path_def split)
qed

lemma split_query_plain: "CHR ''?'' \<notin> set loc \<Longrightarrow> split_query loc = Ok (loc, None)"
  by (simp add: split_query_def split_once_None_iff [THEN iffD2])

lemma split_query_with:
  "CHR ''?'' \<notin> set loc \<Longrightarrow> CHR ''?'' \<notin> set q \<Longrightarrow>
    split_query (loc @ CHR ''?'' # q) = Ok (loc, Some q)"
  by (simp add: split_query_def)

lemma digits_no_delimiter:
  assumes "c \<in> set (show_nat v)"
  shows "c \<noteq> CHR ''?'' \<and> c \<noteq> CHR ''#'' \<and> c \<noteq> CHR ''&''"
  using show_nat_digits [of v] assms by (auto simp: list_all_iff is_ascii_digit_def)

lemma parse_version_show:
  assumes "0 < v" and "v \<le> u64_max"
  shows "parse_version (Some (''version='' @ show_nat v)) = Ok (Some v)"
proof -
  have "strip_prefix ''version='' (''version='' @ show_nat v) = Some (show_nat v)"
    by (rule strip_prefix_append)
  moreover have "CHR ''&'' \<notin> set (show_nat v)" using digits_no_delimiter by blast
  ultimately show ?thesis
    using assms by (simp add: parse_version_def)
qed

text \<open>Parsing the display form, once its length is known to be within the limit.\<close>

lemma from_str_to_string:
  assumes "percent_codec enc dec" and "valid_uri u"
    and "length (uri_to_string enc u) \<le> MAX_URI_BYTES"
  shows "uri_from_str dec (uri_to_string enc u) = Ok u"
proof -
  obtain w p path v where u: "u = \<lparr>uri_workspace = w, uri_project = p,
      uri_logical_path = path, uri_version = v\<rparr>"
    by (cases u)
  let ?segs = "split_on CHR ''/'' path" and ?E = "enc SEGMENT_ENCODE_SET"
  let ?path = "join ''/'' (map ?E ?segs)"
  let ?query = "map_option (\<lambda>n. ''version='' @ show_nat n) v"
  let ?loc = "slug_as_str w @ CHR ''/'' # slug_as_str p @ CHR ''/'' # ?path"
  let ?body = "?loc @ (case ?query of None \<Rightarrow> [] | Some q \<Rightarrow> CHR ''?'' # q)"
  have w: "valid_slug w" and p: "valid_slug p" and utf: "utf8_valid path"
    and val: "validate_decoded_path path = Ok ()"
    and ver: "v = Some n \<Longrightarrow> 0 < n \<and> n \<le> u64_max" for n
    using assms(2) by (auto simp: valid_uri_def u)
  have str: "uri_to_string enc u = SCHEME @ ?body"
    using concat_slash_segments [of ?segs ?E]
    by (auto simp: uri_to_string_def u split: option.splits)
  have path_chars: "c \<in> set ?path \<Longrightarrow> c = CHR ''/'' \<or> (\<exists>s. c \<in> set (?E s))" for c
    using set_join [of "''/''" "map ?E ?segs"] by auto
  have path_ok: "CHR ''?'' \<notin> set ?path" "CHR ''#'' \<notin> set ?path"
    using path_chars enc_segment_no_delimiter(2,3) [OF assms(1)] by fastforce+
  have path_ne: "?path \<noteq> []"
  proof -
    obtain s ss where segs: "?segs = s # ss" by (cases ?segs) auto
    then have "s \<noteq> []" using val by (auto simp: validate_decoded_path_Ok_iff unsafe_segment_def)
    then have "?E s \<noteq> []"
      using dec_enc_segment [OF assms(1), of s] percent_codecD(4) [OF assms(1)] by force
    then show ?thesis by (cases ss) (simp_all add: segs)
  qed
  have nohash: "CHR ''#'' \<notin> set ?body"
    using slug_no_separator(3) [OF w] slug_no_separator(3) [OF p] path_ok(2) digits_no_delimiter
    by (auto split: option.splits)
  have noq: "CHR ''?'' \<notin> set ?loc"
    using slug_no_separator(2) [OF w] slug_no_separator(2) [OF p] path_ok(1) by auto
  have query: "split_query ?body = Ok (?loc, ?query)"
  proof (cases v)
    case None
    then show ?thesis using split_query_plain [OF noq] by simp
  next
    case (Some n)
    have "CHR ''?'' \<notin> set (''version='' @ show_nat n)" using digits_no_delimiter by auto
    from split_query_with [OF noq this] Some show ?thesis
      by (simp only: option.map option.case)
  qed
  have loc: "split_location ?loc = Ok (slug_as_str w, slug_as_str p, ?path)"
    using slug_no_separator(1) [OF w] slug_no_separator(1) [OF p] path_ne
      valid_slug_text(1) [OF w] valid_slug_text(1) [OF p]
    by (simp add: split_location_def)
  have version: "parse_version ?query = Ok v"
    using ver parse_version_show by (cases v) (auto simp: parse_version_def)
  have strip: "strip_prefix SCHEME (uri_to_string enc u) = Some ?body"
    unfolding str by (rule strip_prefix_append)
  define body where "body = ?body"
  define location where "location = ?loc"
  define query where "query = ?query"
  define encoded where "encoded = ?path"
  have facts: "strip_prefix SCHEME (uri_to_string enc u) = Some body" "CHR ''#'' \<notin> set body"
      "split_query body = Ok (location, query)"
      "split_location location = Ok (slug_as_str w, slug_as_str p, encoded)"
      "decode_path dec encoded = Ok path" "parse_version query = Ok v"
    using strip nohash query loc version decode_path_enc [OF assms(1) utf val]
    unfolding body_def location_def query_def encoded_def by blast+
  show ?thesis
    using assms(3) w p
    by (simp add: uri_from_str_def facts valid_slug_def u [symmetric])
qed

lemma validate_decoded_after_decode:
  "decode_path dec e = Ok path \<Longrightarrow> validate_decoded_path path = Ok ()"
  by (auto simp: decode_path_def result_simps Let_def)

section \<open>Properties\<close>

text \<open>C36. Display then parse: every identifier that \<^verbatim>\<open>BlobyardUri::new\<close> builds from valid slugs,
  a UTF-8 path and a nonzero version is read back unchanged from its display form.\<close>

theorem uri_display_parse_roundtrip:
  assumes "percent_codec enc dec"
    and "valid_slug workspace" and "valid_slug project" and "utf8_valid path"
    and "\<forall>v. version = Some v \<longrightarrow> 0 < v \<and> v \<le> u64_max"
    and "uri_new enc workspace project path version = Ok u"
  shows "uri_from_str dec (uri_to_string enc u) = Ok u"
proof -
  from assms(6) have u: "u = \<lparr>uri_workspace = workspace, uri_project = project,
      uri_logical_path = path, uri_version = version\<rparr>"
    and "validate_decoded_path path = Ok ()"
    and "length (uri_to_string enc u) \<le> MAX_URI_BYTES"
    by (auto simp: uri_new_def result_simps Let_def split: if_splits)
  with assms show ?thesis
    by (intro from_str_to_string) (simp_all add: valid_uri_def)
qed

text \<open>A concrete codec that meets the documentation, for the witnesses.\<close>

fun ref_enc :: "(char \<Rightarrow> bool) \<Rightarrow> string \<Rightarrow> string" where
  "ref_enc S [] = []"
| "ref_enc S (c # s) =
     (if byte c \<ge> 128 \<or> S c
      then CHR ''%'' # upper_hex (byte c div 16) # upper_hex (byte c mod 16) # ref_enc S s
      else c # ref_enc S s)"

fun ref_dec :: "string \<Rightarrow> string" where
  "ref_dec [] = []"
| "ref_dec (c # s) =
     (if c = CHR ''%''
      then (case s of
          h # l # r \<Rightarrow> if is_ascii_hexdigit h \<and> is_ascii_hexdigit l
                       then char_of (16 * hex_value h + hex_value l) # ref_dec r
                       else c # ref_dec s
        | _ \<Rightarrow> c # ref_dec s)
      else c # ref_dec s)"

lemma percent_codec_ref: "percent_codec ref_enc ref_dec"
  by (simp add: percent_codec_def)

lemma valid_slug_w: "valid_slug (Slug ''w'')"
  by (simp add: valid_slug_def slug_new_def slug_char_def ascii_class_defs MAX_SLUG_BYTES_def)

lemma show_nat_7: "show_nat 7 = ''7''"
  by code_simp

theorem uri_display_parse_roundtrip_witness:
  "\<exists>u. uri_new ref_enc (Slug ''w'') (Slug ''w'') ''a b/c'' (Some 7) = Ok u
     \<and> uri_from_str ref_dec (uri_to_string ref_enc u) = Ok u"
proof -
  let ?u = "\<lparr>uri_workspace = Slug ''w'', uri_project = Slug ''w'',
    uri_logical_path = ''a b/c'', uri_version = Some 7\<rparr>"
  have "uri_new ref_enc (Slug ''w'') (Slug ''w'') ''a b/c'' (Some 7) = Ok ?u"
    by (simp add: uri_new_def validate_decoded_path_def unsafe_segment_def has_control_def
        is_control_def uri_to_string_def SCHEME_def SEGMENT_ENCODE_SET_def MAX_URI_BYTES_def
        MAX_PATH_BYTES_def show_nat_7)
  moreover from this have "uri_from_str ref_dec (uri_to_string ref_enc ?u) = Ok ?u"
    by (rule uri_display_parse_roundtrip [OF percent_codec_ref valid_slug_w valid_slug_w, rotated 2])
      (simp_all add: u64_max_def)
  ultimately show ?thesis by blast
qed

text \<open>Whatever \<^verbatim>\<open>FromStr\<close> accepts is a safe identifier: valid slugs, a bounded logical path
  none of whose segments is empty, a dot segment, or holds a backslash or a control
  character, and a nonzero 64-bit version.\<close>

theorem uri_parse_safe:
  assumes "uri_from_str dec input = Ok u"
  shows "valid_slug (uri_workspace u) \<and> valid_slug (uri_project u)
    \<and> length (uri_logical_path u) \<le> MAX_PATH_BYTES
    \<and> (\<forall>segment \<in> set (split_on CHR ''/'' (uri_logical_path u)). \<not> unsafe_segment segment)
    \<and> (\<forall>v. uri_version u = Some v \<longrightarrow> 0 < v \<and> v \<le> u64_max)"
proof -
  from assms obtain ws ps e q w p path v where
    parts: "slug_new ws = Ok w" "slug_new ps = Ok p" "decode_path dec e = Ok path"
      "parse_version q = Ok v"
    and u: "u = \<lparr>uri_workspace = w, uri_project = p, uri_logical_path = path, uri_version = v\<rparr>"
    by (auto simp: uri_from_str_def result_simps split: if_splits)
  have "0 < n \<and> n \<le> u64_max" if "v = Some n" for n
    using parts(4) that
    by (auto simp: parse_version_def result_simps dest: parse_uint_bound
        split: option.splits if_splits)
  with parts u slug_new_valid validate_decoded_after_decode show ?thesis
    by (auto simp: validate_decoded_path_Ok_iff)
qed

theorem uri_parse_safe_witness:
  "\<exists>u. uri_from_str ref_dec ''blobyard://w/w/a?version=7'' = Ok u \<and> valid_slug (uri_workspace u)
     \<and> uri_version u = Some 7"
proof -
  let ?u = "\<lparr>uri_workspace = Slug ''w'', uri_project = Slug ''w'',
    uri_logical_path = ''a'', uri_version = Some 7\<rparr>"
  have "uri_from_str ref_dec ''blobyard://w/w/a?version=7'' = Ok ?u"
    by (simp add: uri_from_str_def MAX_URI_BYTES_def SCHEME_def strip_prefix_def split_query_def
        split_location_def slug_new_def slug_char_def ascii_class_defs MAX_SLUG_BYTES_def
        decode_path_def decode_segment_def has_control_def is_control_def validate_decoded_path_def
        unsafe_segment_def MAX_PATH_BYTES_def parse_version_def parse_uint_def digits_value_def
        u64_max_def)
  with uri_parse_safe [OF this] show ?thesis by auto
qed

text \<open>C37. \<^verbatim>\<open>FromStr\<close> and \<^verbatim>\<open>Display\<close> disagree on the length limit: there is an identifier that
  parses, whose own display form is then rejected as too long, and that \<^verbatim>\<open>BlobyardUri::new\<close>
  refuses to build. Percent encoding triples the bytes, and only \<^verbatim>\<open>new\<close> measures the result.\<close>

theorem uri_parse_display_length_gap:
  assumes "percent_codec enc dec"
  shows "\<exists>input u. uri_from_str dec input = Ok u
    \<and> uri_from_str dec (uri_to_string enc u) = Err TooLong
    \<and> uri_new enc (uri_workspace u) (uri_project u) (uri_logical_path u) (uri_version u)
        = Err TooLong"
proof -
  let ?path = "replicate 1400 CHR ''!''"
  let ?input = "SCHEME @ ''w'' @ CHR ''/'' # ''w'' @ CHR ''/'' # ?path"
  let ?u = "\<lparr>uri_workspace = Slug ''w'', uri_project = Slug ''w'',
    uri_logical_path = ?path, uri_version = None\<rparr>"
  have dec: "dec (replicate n CHR ''!'') = replicate n CHR ''!''" for n
    by (induction n) (simp_all add: percent_codecD(4,5) [OF assms])
  have "SEGMENT_ENCODE_SET CHR ''!''" by (simp add: SEGMENT_ENCODE_SET_def)
  then have enc: "length (enc SEGMENT_ENCODE_SET (replicate n CHR ''!'')) = 3 * n" for n
    by (induction n) (simp_all add: percent_codecD(1,2) [OF assms])
  have split: "split_on CHR ''/'' (replicate n CHR ''!'') = [replicate n CHR ''!'']" for n
    by (intro split_on_no_delim) simp
  have pct: "validate_percent_encoding (replicate n CHR ''!'') = Ok ()" for n
    by (induction n) simp_all
  have ctl: "\<not> has_control (replicate n CHR ''!'')" for n
    by (auto simp: has_control_def is_control_def list_ex_iff chars_ascii)
  have utf: "utf8_valid (replicate n CHR ''!'')" for n
    by (rule utf8_valid_ascii) simp
  have dots: "?path \<noteq> ''.'' \<and> ?path \<noteq> ''..'' \<and> ?path \<noteq> []"
    by (intro conjI notI; drule arg_cong [where f = length]; simp)
  have path: "decode_segment dec ?path = Ok ?path" "validate_decoded_path ?path = Ok ()"
    using ctl [of 1400] dots
    by (simp_all add: decode_segment_def dec utf validate_decoded_path_def split
        unsafe_segment_def MAX_PATH_BYTES_def)
  have "decode_path dec ?path = Ok ?path"
    unfolding decode_path_def split pct using path by simp
  moreover have "split_query (''w'' @ CHR ''/'' # ''w'' @ CHR ''/'' # ?path)
      = Ok (''w'' @ CHR ''/'' # ''w'' @ CHR ''/'' # ?path, None)"
    by (simp add: split_query_def split_once_None_iff [THEN iffD2])
  moreover have "split_location (''w'' @ CHR ''/'' # ''w'' @ CHR ''/'' # ?path)
      = Ok (''w'', ''w'', ?path)"
    by (simp add: split_location_def)
  moreover have "slug_new ''w'' = Ok (Slug ''w'')"
    using valid_slug_w by (simp add: valid_slug_def)
  moreover have "strip_prefix SCHEME ?input = Some (''w'' @ CHR ''/'' # ''w'' @ CHR ''/'' # ?path)"
    by (rule strip_prefix_append)
  ultimately have parsed: "uri_from_str dec ?input = Ok ?u"
    by (simp add: uri_from_str_def MAX_URI_BYTES_def SCHEME_def parse_version_def)
  have long: "length (uri_to_string enc ?u) > MAX_URI_BYTES"
    by (simp add: uri_to_string_def split enc MAX_URI_BYTES_def)
  then have "uri_from_str dec (uri_to_string enc ?u) = Err TooLong"
    by (simp add: uri_from_str_def)
  moreover have "uri_new enc (Slug ''w'') (Slug ''w'') ?path None = Err TooLong"
    unfolding uri_new_def path(2) using long by simp
  ultimately show ?thesis using parsed by fastforce
qed

theorem uri_parse_display_length_gap_witness:
  "\<exists>input u. uri_from_str ref_dec input = Ok u
    \<and> uri_from_str ref_dec (uri_to_string ref_enc u) = Err TooLong"
  using uri_parse_display_length_gap [OF percent_codec_ref] by blast

text \<open>\<^verbatim>\<open>Slug::new\<close> never depends on the Unicode tables it consults for the first and last
  character: on a Rust string it accepts exactly 1 to 63 ASCII letters, digits, hyphens and
  underscores with alphanumeric edges.\<close>

theorem slug_new_ascii_only:
  assumes "utf8_valid value"
  shows "slug_new_with uni value = slug_new value"
proof (cases "list_all (\<lambda>c. c < 128 \<and> slug_char (char_of c)) (chars value)")
  case True
  then have "list_all (\<lambda>c. c < 128) (chars value)" by (auto simp: list_all_iff)
  from chars_all_ascii [OF assms this] have ascii: "\<forall>c \<in> set value. byte c < (128 :: nat)" .
  then have cs: "chars value = map byte value" by (rule chars_ascii)
  show ?thesis
  proof (cases "value = []")
    case False
    then have "hd value \<in> set value" and "last value \<in> set value" by simp_all
    with False ascii cs show ?thesis
      by (auto simp: slug_new_with_def slug_new_def char_is_alphanumeric_def hd_map last_map
          list_all_iff Let_def)
  qed (simp add: slug_new_with_def slug_new_def)
next
  case False
  have "\<not> list_all slug_char value"
  proof
    assume all: "list_all slug_char value"
    then have "\<forall>c \<in> set value. byte c < (128 :: nat)"
      using slug_char_ascii by (auto simp: list_all_iff)
    then have "chars value = map byte value" by (rule chars_ascii)
    with all False show False by (auto simp: list_all_iff dest: slug_char_ascii)
  qed
  with False show ?thesis by (simp add: slug_new_with_def slug_new_def Let_def)
qed

theorem slug_new_ascii_only_witness:
  "slug_new_with (\<lambda>_. True) ''my-slug'' = slug_new ''my-slug'' \<and> is_ok (slug_new ''my-slug'')"
proof -
  have "utf8_valid ''my-slug''" by simp
  from slug_new_ascii_only [OF this] show ?thesis
    by (simp add: slug_new_def slug_char_def ascii_class_defs MAX_SLUG_BYTES_def)
qed

end
