(* ===== verification/Core_Web_Origin.thy ===== *)
theory Core_Web_Origin
  imports Core_Secrets
begin

text \<open>
  The trusted Web Yard root origin: \<^verbatim>\<open>crates/blobyard-core/src/web_yard_origin.rs\<close>.

  URL parsing is done by the \<^verbatim>\<open>url\<close> crate, which is not part of the repository: \<open>parse\<close> is an
  argument of \<open>web_yard_origin_new\<close> that yields the parts the code reads from a parsed URL.
  Every check the code makes on those parts is in the model; nothing is assumed about the
  parser.
\<close>

definition MAXIMUM_DNS_LABEL_BYTES :: nat where
  "MAXIMUM_DNS_LABEL_BYTES = 63"

definition MAXIMUM_DNS_NAME_BYTES :: nat where
  "MAXIMUM_DNS_NAME_BYTES = 253"

definition MAXIMUM_WEB_YARD_ROOT_BYTES :: nat where
  "MAXIMUM_WEB_YARD_ROOT_BYTES = MAXIMUM_DNS_NAME_BYTES - MAXIMUM_DNS_LABEL_BYTES - 1"

datatype url_host = HostDomain string | HostIpv4 string | HostIpv6 string

record parsed_url =
  url_scheme :: string
  url_host_part :: "url_host option"
  url_username :: string
  url_password :: "string option"
  url_path :: string
  url_query :: "string option"
  url_fragment :: "string option"
  url_port :: "nat option"

record WebYardOrigin =
  origin_scheme :: string
  origin_domain :: string
  origin_port :: "nat option"
  origin_authority :: string
  origin_serialized :: string

definition invalid_origin :: BlobyardError where
  "invalid_origin =
     blobyard_error_new InvalidRequest
       ''Web Yard origin must be an HTTPS domain root, or HTTP on localhost for development.''"

definition is_valid_dns_label :: "string \<Rightarrow> bool" where
  "is_valid_dns_label value \<longleftrightarrow>
     value \<noteq> [] \<and> length value \<le> MAXIMUM_DNS_LABEL_BYTES
     \<and> \<not> starts_with ''-'' value \<and> strip_suffix ''-'' value = None
     \<and> list_all (\<lambda>b. is_ascii_lowercase b \<or> is_ascii_digit b \<or> b = CHR ''-'') value"

definition valid_root_domain :: "string \<Rightarrow> bool" where
  "valid_root_domain value \<longleftrightarrow>
     length value \<le> MAXIMUM_WEB_YARD_ROOT_BYTES
     \<and> list_all is_valid_dns_label (split_on CHR ''.'' value)"

definition serialize_authority :: "string \<Rightarrow> nat option \<Rightarrow> string" where
  "serialize_authority host port =
     (case port of None \<Rightarrow> host | Some p \<Rightarrow> host @ '':'' @ show_nat p)"

definition serialize_origin :: "string \<Rightarrow> string \<Rightarrow> nat option \<Rightarrow> string" where
  "serialize_origin scheme host port = scheme @ ''://'' @ serialize_authority host port"

definition web_yard_origin_new ::
  "(string \<Rightarrow> parsed_url option) \<Rightarrow> string \<Rightarrow> BlobyardError + WebYardOrigin" where
  "web_yard_origin_new parse value =
     and_then (ok_or invalid_origin (parse value)) (\<lambda>parsed.
     case url_host_part parsed of
       Some (HostDomain domain) \<Rightarrow>
         (let valid_scheme = url_scheme parsed = ''https''
                \<or> (url_scheme parsed = ''http'' \<and> domain = ''localhost'');
              valid_authority = url_username parsed = [] \<and> url_password parsed = None;
              valid_tail = (url_path parsed = [] \<or> url_path parsed = ''/'')
                \<and> url_query parsed = None \<and> url_fragment parsed = None
          in if \<not> valid_scheme \<or> \<not> valid_authority \<or> \<not> valid_tail \<or> \<not> valid_root_domain domain
             then Err invalid_origin
             else Ok \<lparr>origin_scheme = url_scheme parsed, origin_domain = domain,
                      origin_port = url_port parsed,
                      origin_authority = serialize_authority domain (url_port parsed),
                      origin_serialized =
                        serialize_origin (url_scheme parsed) domain (url_port parsed)\<rparr>)
     | _ \<Rightarrow> Err invalid_origin)"

definition url_for :: "WebYardOrigin \<Rightarrow> string \<Rightarrow> BlobyardError + string" where
  "url_for origin host_label =
     (if \<not> is_valid_dns_label host_label then Err invalid_origin
      else (let host = host_label @ ''.'' @ origin_domain origin
            in Ok (serialize_origin (origin_scheme origin) host (origin_port origin))))"

definition secret_url_for :: "WebYardOrigin \<Rightarrow> string \<Rightarrow> BlobyardError + SecretString" where
  "secret_url_for origin host_label =
     and_then (url_for origin host_label) (\<lambda>root. Ok (SecretString (root @ ''/'')))"

definition origin_matches :: "WebYardOrigin \<Rightarrow> string \<Rightarrow> string \<Rightarrow> bool" where
  "origin_matches origin value host_label =
     (case url_for origin host_label of Ok expected \<Rightarrow> value = expected | Err _ \<Rightarrow> False)"

section \<open>Lemmas\<close>

lemma dns_label_no_dot: "is_valid_dns_label l \<Longrightarrow> CHR ''.'' \<notin> set l"
  by (auto simp: is_valid_dns_label_def list_all_iff ascii_class_defs)

lemma url_for_Ok_iff:
  "url_for origin l = Ok u \<longleftrightarrow> is_valid_dns_label l
     \<and> u = origin_scheme origin @ ''://'' @ l @ ''.'' @ origin_authority origin"
  if "origin_authority origin = serialize_authority (origin_domain origin) (origin_port origin)"
  using that
  by (auto simp: url_for_def serialize_origin_def serialize_authority_def split: option.splits)

lemma origin_new_fields:
  assumes "web_yard_origin_new parse value = Ok origin"
  shows "origin_authority origin = serialize_authority (origin_domain origin) (origin_port origin)"
    and "origin_serialized origin = origin_scheme origin @ ''://'' @ origin_authority origin"
    and "valid_root_domain (origin_domain origin)"
    and "origin_scheme origin = ''https''
      \<or> origin_scheme origin = ''http'' \<and> origin_domain origin = ''localhost''"
proof -
  from assms obtain parsed where p: "parse value = Some parsed"
    by (cases "parse value") (simp_all add: web_yard_origin_new_def)
  from assms p obtain host where h: "url_host_part parsed = Some host"
    by (cases "url_host_part parsed") (simp_all add: web_yard_origin_new_def)
  from assms p h obtain domain where
    "url_host_part parsed = Some (HostDomain domain)" "valid_root_domain domain"
    "url_scheme parsed = ''https'' \<or> url_scheme parsed = ''http'' \<and> domain = ''localhost''"
    and o: "origin = \<lparr>origin_scheme = url_scheme parsed, origin_domain = domain,
      origin_port = url_port parsed, origin_authority = serialize_authority domain (url_port parsed),
      origin_serialized = serialize_origin (url_scheme parsed) domain (url_port parsed)\<rparr>"
    by (cases host) (auto simp: web_yard_origin_new_def split: if_split_asm)
  then show "origin_authority origin = serialize_authority (origin_domain origin) (origin_port origin)"
    and "origin_serialized origin = origin_scheme origin @ ''://'' @ origin_authority origin"
    and "valid_root_domain (origin_domain origin)"
    and "origin_scheme origin = ''https''
      \<or> origin_scheme origin = ''http'' \<and> origin_domain origin = ''localhost''"
    by (simp_all add: serialize_origin_def)
qed

section \<open>Properties\<close>

text \<open>For a validated root origin, a host label yields a URL exactly when it is one DNS
  label; the URL is that label prepended to the root authority, its host name respects the
  253-byte DNS limit, and two labels never share a URL, so the first-level origins of
  distinct Web Yards are distinct.\<close>

theorem web_yard_urls_isolated:
  assumes "web_yard_origin_new parse value = Ok origin"
    and "url_for origin label = Ok url"
  shows "is_valid_dns_label label
    \<and> url = origin_scheme origin @ ''://'' @ label @ ''.'' @ origin_authority origin
    \<and> length (label @ ''.'' @ origin_domain origin) \<le> MAXIMUM_DNS_NAME_BYTES
    \<and> list_all is_valid_dns_label (split_on CHR ''.'' (label @ ''.'' @ origin_domain origin))
    \<and> (\<forall>label'. url_for origin label' = Ok url \<longrightarrow> label' = label)
    \<and> (\<forall>label'. origin_matches origin url label' \<longleftrightarrow> label' = label)"
proof -
  note f = origin_new_fields [OF assms(1)]
  note iff = url_for_Ok_iff [OF f(1)]
  have l: "is_valid_dns_label label"
    and u: "url = origin_scheme origin @ ''://'' @ label @ ''.'' @ origin_authority origin"
    using assms(2) iff by auto
  have len: "length (label @ ''.'' @ origin_domain origin) \<le> MAXIMUM_DNS_NAME_BYTES"
    using l f(3)
    by (simp add: is_valid_dns_label_def valid_root_domain_def MAXIMUM_DNS_NAME_BYTES_def
        MAXIMUM_DNS_LABEL_BYTES_def MAXIMUM_WEB_YARD_ROOT_BYTES_def)
  have dots: "list_all is_valid_dns_label (split_on CHR ''.'' (label @ ''.'' @ origin_domain origin))"
    using l f(3) dns_label_no_dot [OF l]
    by (simp add: split_on_append_delim valid_root_domain_def)
  have inj: "label' = label" if "url_for origin label' = Ok url" for label'
  proof -
    have "url = origin_scheme origin @ ''://'' @ label' @ ''.'' @ origin_authority origin"
      using that iff by blast
    then show ?thesis unfolding u by simp
  qed
  have "origin_matches origin url label' \<longleftrightarrow> label' = label" for label'
  proof (cases "url_for origin label'")
    case (Inl e)
    with assms(2) show ?thesis by (auto simp: origin_matches_def)
  next
    case (Inr w)
    with inj [of label'] assms(2) show ?thesis by (auto simp: origin_matches_def)
  qed
  with l u len dots inj show ?thesis by blast
qed

definition sample_url :: parsed_url where
  "sample_url = \<lparr>url_scheme = ''https'', url_host_part = Some (HostDomain ''blobyard.app''),
     url_username = [], url_password = None, url_path = ''/'', url_query = None,
     url_fragment = None, url_port = None\<rparr>"

theorem web_yard_urls_isolated_witness:
  "\<exists>origin. web_yard_origin_new (\<lambda>_. Some sample_url) ''https://blobyard.app/'' = Ok origin
     \<and> url_for origin ''docs'' = Ok ''https://docs.blobyard.app''
     \<and> \<not> origin_matches origin ''https://docs.blobyard.app'' ''main''"
proof -
  let ?o = "\<lparr>origin_scheme = ''https'', origin_domain = ''blobyard.app'', origin_port = None,
    origin_authority = ''blobyard.app'', origin_serialized = ''https://blobyard.app''\<rparr>"
  have new: "web_yard_origin_new (\<lambda>_. Some sample_url) ''https://blobyard.app/'' = Ok ?o"
    by (simp add: web_yard_origin_new_def sample_url_def valid_root_domain_def is_valid_dns_label_def
        ascii_class_defs starts_with_def strip_suffix_def strip_prefix_def serialize_origin_def
        serialize_authority_def MAXIMUM_WEB_YARD_ROOT_BYTES_def MAXIMUM_DNS_NAME_BYTES_def
        MAXIMUM_DNS_LABEL_BYTES_def)
  have url: "url_for ?o ''docs'' = Ok ''https://docs.blobyard.app''"
    by (simp add: url_for_def is_valid_dns_label_def ascii_class_defs starts_with_def
        strip_suffix_def strip_prefix_def serialize_origin_def serialize_authority_def
        MAXIMUM_DNS_LABEL_BYTES_def)
  have "\<not> origin_matches ?o ''https://docs.blobyard.app'' ''main''"
    using web_yard_urls_isolated [OF new url] by simp
  with new url show ?thesis by blast
qed

end
