(* ===== verification/Worklist.thy ===== *)
theory Worklist
  imports Prelude
begin

text \<open>
  Searches over inheritance graphs. The core crate walks role graphs in three places: the cycle
  check and the closure of \<^verbatim>\<open>application_policy.rs\<close>, which keep a stack of pending names and
  index the role map, and the recursive cycle check of \<^verbatim>\<open>application_manifest/cross_roles.rs\<close>.
  This theory has the graph vocabulary they share and the locale \<open>worklist\<close>: the two defining
  equations of a stack search are its laws, and what such a search computes is proved once.
\<close>

definition edges :: "('a \<Rightarrow> 'a list option) \<Rightarrow> ('a \<times> 'a) set" where
  "edges succs = {(u, v). \<exists>vs. succs u = Some vs \<and> v \<in> set vs}"

definition reachable :: "('a \<Rightarrow> 'a list option) \<Rightarrow> 'a set \<Rightarrow> 'a set" where
  "reachable succs s = (edges succs)\<^sup>* `` s"

lemma edges_iff: "succs u = Some vs \<Longrightarrow> (u, v) \<in> edges succs \<longleftrightarrow> v \<in> set vs"
  by (simp add: edges_def)

lemma reachable_base: "s \<subseteq> reachable succs s"
  by (auto simp: reachable_def)

lemma reachable_mono: "s \<subseteq> t \<Longrightarrow> reachable succs s \<subseteq> reachable succs t"
  by (auto simp: reachable_def)

lemma reachable_Un: "reachable succs (s \<union> t) = reachable succs s \<union> reachable succs t"
  by (auto simp: reachable_def)

text \<open>Following one step from a node adds nothing the node did not reach.\<close>

lemma reachable_insert_succs:
  assumes "succs c = Some vs"
  shows "reachable succs (insert c s) = insert c (reachable succs (s \<union> set vs))"
proof -
  have "(c, v) \<in> (edges succs)\<^sup>*" if "v \<in> set vs" for v
    using that edges_iff [of succs, OF assms] by blast
  then have up: "reachable succs (set vs) \<subseteq> reachable succs {c}"
    unfolding reachable_def by (auto intro: rtrancl_trans)
  have down: "reachable succs {c} \<subseteq> insert c (reachable succs (set vs))"
  proof
    fix x
    assume "x \<in> reachable succs {c}"
    then have "(c, x) \<in> (edges succs)\<^sup>*" by (simp add: reachable_def)
    then show "x \<in> insert c (reachable succs (set vs))"
    proof (cases rule: converse_rtranclE)
      case (step y)
      then show ?thesis
        using edges_iff [of succs, OF assms] by (auto simp: reachable_def)
    qed simp
  qed
  have "c \<in> reachable succs {c}" by (simp add: reachable_def)
  with up down have one: "reachable succs {c} = insert c (reachable succs (set vs))" by blast
  have "reachable succs (insert c s) = reachable succs {c} \<union> reachable succs s"
    by (auto simp: reachable_def)
  then show ?thesis unfolding one reachable_Un by blast
qed

text \<open>A set is closed when every step out of it stays in it; it then reaches only itself.\<close>

definition closed_under :: "('a \<Rightarrow> 'a list option) \<Rightarrow> 'a set \<Rightarrow> bool" where
  "closed_under succs s \<longleftrightarrow> (\<forall>x \<in> s. \<forall>vs. succs x = Some vs \<longrightarrow> set vs \<subseteq> s)"

lemma closed_under_reachable: "closed_under succs s \<Longrightarrow> reachable succs s = s"
proof -
  assume c: "closed_under succs s"
  have "x \<in> s" if "(u, x) \<in> (edges succs)\<^sup>*" "u \<in> s" for u x
    using that by induction (use c in \<open>auto simp: closed_under_def edges_def\<close>)
  then show ?thesis using reachable_base [of s succs] by (auto simp: reachable_def)
qed

section \<open>Stack searches\<close>

text \<open>
  \<open>loop seen pending\<close> pops the last pending node, stops with \<open>found\<close> on a node that satisfies
  \<open>stop\<close>, skips a node it has seen, and otherwise marks it and pushes its successors. Indexing
  a node without an entry panics, which is the result \<open>None\<close>.
\<close>

locale worklist =
  fixes succs :: "'a \<Rightarrow> 'a list option"
    and stop :: "'a \<Rightarrow> bool"
    and found :: 'r
    and finished :: "'a set \<Rightarrow> 'r"
    and loop :: "'a set \<Rightarrow> 'a list \<Rightarrow> 'r option"
  assumes loop_Nil: "loop seen [] = Some (finished seen)"
    and loop_snoc: "loop seen (pending @ [c]) =
      (if stop c then Some found
       else if c \<in> seen then loop seen pending
       else (case succs c of
           None \<Rightarrow> None
         | Some more \<Rightarrow> loop (insert c seen) (pending @ more)))"
    and finite_nodes: "finite (dom succs)"
begin

lemma loop_result:
  assumes "set pending \<subseteq> D" and "D \<subseteq> dom succs" and "closed_under succs D"
    and "\<forall>x \<in> seen. \<not> stop x \<and> (\<forall>vs. succs x = Some vs \<longrightarrow> set vs \<subseteq> seen \<union> set pending)"
  shows "loop seen pending = Some (
      if \<exists>c \<in> reachable succs (seen \<union> set pending). stop c then found
      else finished (reachable succs (seen \<union> set pending)))"
  using assms
proof (induction "(card (dom succs - seen), length pending)"
    arbitrary: seen pending rule: wf_induct_rule [OF wf_lex_prod [OF wf_less wf_less]])
  case (1 seen pending)
  show ?case
  proof (cases pending rule: rev_cases)
    case Nil
    then have "closed_under succs seen" using "1.prems"(4) by (simp add: closed_under_def)
    then have "reachable succs (seen \<union> set pending) = seen"
      using Nil closed_under_reachable by auto
    with Nil "1.prems"(4) show ?thesis by (auto simp: loop_Nil)
  next
    case (snoc rest c)
    have c_in: "c \<in> reachable succs (seen \<union> set pending)"
      using reachable_base snoc by fastforce
    show ?thesis
    proof (cases "stop c")
      case True
      with c_in show ?thesis by (auto simp: snoc loop_snoc)
    next
      case live: False
      show ?thesis
      proof (cases "c \<in> seen")
        case True
        have same: "seen \<union> set rest = seen \<union> set pending" using True snoc by auto
        have "loop seen rest = Some (
            if \<exists>d \<in> reachable succs (seen \<union> set rest). stop d then found
            else finished (reachable succs (seen \<union> set rest)))"
        proof (rule "1.hyps")
          show "set rest \<subseteq> D" using "1.prems"(1) snoc by simp
          show "\<forall>x \<in> seen. \<not> stop x
              \<and> (\<forall>vs. succs x = Some vs \<longrightarrow> set vs \<subseteq> seen \<union> set rest)"
            using "1.prems"(4) unfolding same .
        qed (use "1.prems"(2,3) snoc in simp_all)
        moreover have "loop seen pending = loop seen rest"
          using live True by (simp add: snoc loop_snoc)
        ultimately show ?thesis unfolding same by simp
      next
        case False
        have "c \<in> dom succs" using "1.prems" snoc by auto
        then obtain more where more: "succs c = Some more" by blast
        have "dom succs - insert c seen \<subset> dom succs - seen"
          using False \<open>c \<in> dom succs\<close> by blast
        then have smaller: "card (dom succs - insert c seen) < card (dom succs - seen)"
          using finite_nodes by (intro psubset_card_mono) simp_all
        have sub: "set (rest @ more) \<subseteq> D"
          using "1.prems"(1,3) more snoc by (auto simp: closed_under_def)
        have inv: "\<forall>x \<in> insert c seen. \<not> stop x
            \<and> (\<forall>vs. succs x = Some vs \<longrightarrow> set vs \<subseteq> insert c seen \<union> set (rest @ more))"
          using "1.prems"(4) more live snoc by auto
        have ih: "loop (insert c seen) (rest @ more) = Some (
            if \<exists>d \<in> reachable succs (insert c seen \<union> set (rest @ more)). stop d then found
            else finished (reachable succs (insert c seen \<union> set (rest @ more))))"
          using "1.hyps" [of "insert c seen" "rest @ more"] smaller sub "1.prems"(2,3) inv by simp
        have "reachable succs (seen \<union> set pending) = reachable succs (insert c (seen \<union> set rest))"
          using snoc by simp
        also have "\<dots> = insert c (reachable succs ((seen \<union> set rest) \<union> set more))"
          by (rule reachable_insert_succs [of succs, OF more])
        also have "\<dots> = reachable succs (insert c seen \<union> set (rest @ more))"
          using reachable_insert_succs [of succs, OF more, of "seen \<union> set rest \<union> set more"]
          by (simp add: Un_assoc)
        finally have "reachable succs (seen \<union> set pending)
            = reachable succs (insert c seen \<union> set (rest @ more))" .
        with ih live False more show ?thesis by (simp add: snoc loop_snoc)
      qed
    qed
  qed
qed

end

end
