(* ===== verification/Manifest_Patterns.thy ===== *)
theory Manifest_Patterns
  imports Core_Web_Origin Core_Uri
begin

text \<open>
  The lexical grammar of the application manifest: the string predicates of
  \<^verbatim>\<open>crates/blobyard-core/src/application_manifest/patterns.rs\<close> and the cron grammar of
  \<^verbatim>\<open>application_manifest/cron.rs\<close>. A check that indexes the first or the last byte is guarded
  by the emptiness test that precedes it in the source, so \<open>hd\<close> and \<open>last\<close> are only read on
  nonempty strings.
\<close>

section \<open>Patterns\<close>

definition edge_alphanumeric :: "string \<Rightarrow> bool" where
  "edge_alphanumeric value \<longleftrightarrow>
     is_ascii_alphanumeric (hd value) \<and> is_ascii_alphanumeric (last value)"

definition dns_label :: "string \<Rightarrow> bool" where
  "dns_label value \<longleftrightarrow>
     value \<noteq> [] \<and> length value \<le> 63 \<and> edge_alphanumeric value
     \<and> list_all (\<lambda>b. is_ascii_lowercase b \<or> is_ascii_digit b \<or> b = CHR ''-'') value"

definition role_name :: "string \<Rightarrow> bool" where
  "role_name value \<longleftrightarrow>
     value \<noteq> [] \<and> length value \<le> 32 \<and> is_ascii_lowercase (hd value)
     \<and> list_all (\<lambda>b. is_ascii_lowercase b \<or> is_ascii_digit b \<or> b = CHR ''-'') value"

definition dotted_identifier :: "string \<Rightarrow> bool" where
  "dotted_identifier value \<longleftrightarrow>
     (let parts = split_on CHR ''.'' value
      in 2 \<le> length parts \<and> length parts \<le> 4
         \<and> list_all (\<lambda>part. part \<noteq> [] \<and> is_ascii_lowercase (hd part)
              \<and> list_all (\<lambda>b. is_ascii_lowercase b \<or> is_ascii_digit b \<or> b = CHR ''_'') part) parts)"

definition permission :: "string \<Rightarrow> bool" where
  "permission value \<longleftrightarrow> length value \<le> 128 \<and> dotted_identifier value"

definition secret_name :: "string \<Rightarrow> bool" where
  "secret_name value \<longleftrightarrow>
     value \<noteq> [] \<and> length value \<le> 64 \<and> is_ascii_uppercase (hd value)
     \<and> list_all (\<lambda>b. is_ascii_uppercase b \<or> is_ascii_digit b \<or> b = CHR ''_'') value"

definition bucket_grant :: "string \<Rightarrow> bool" where
  "bucket_grant value \<longleftrightarrow>
     (case split_once CHR '':'' value of
        None \<Rightarrow> False
      | Some (name, access) \<Rightarrow>
          dns_label name \<and> (access = ''read'' \<or> access = ''write'' \<or> access = ''read-write''))"

definition host_label :: "string \<Rightarrow> bool" where
  "host_label value \<longleftrightarrow>
     value \<noteq> [] \<and> edge_alphanumeric value
     \<and> list_all (\<lambda>b. is_ascii_lowercase b \<or> is_ascii_digit b \<or> b = CHR ''-'') value"

definition egress_target :: "string \<Rightarrow> bool" where
  "egress_target value \<longleftrightarrow>
     (if length value > 256 then False
      else (case rsplit_once CHR '':'' value of
          None \<Rightarrow> False
        | Some (host, port) \<Rightarrow>
            (let labels = split_on CHR ''.'' host
             in (port = ''80'' \<or> port = ''443'')
                \<and> 2 \<le> length labels
                \<and> (2 \<le> length (last labels) \<and> length (last labels) \<le> 63
                   \<and> list_all is_ascii_lowercase (last labels))
                \<and> list_all host_label labels)))"

definition path_segment :: "string \<Rightarrow> bool" where
  "path_segment value \<longleftrightarrow>
     value \<noteq> [] \<and> value \<noteq> ''.'' \<and> value \<noteq> ''..''
     \<and> list_all (\<lambda>b. is_ascii_alphanumeric b \<or> b \<in> set ''._-'') value"

definition relative_path :: "string \<Rightarrow> bool" where
  "relative_path value \<longleftrightarrow>
     length value \<le> 256 \<and> value \<noteq> [] \<and> \<not> starts_with ''/'' value
     \<and> list_all path_segment (split_on CHR ''/'' value)"

definition module_path :: "string \<Rightarrow> bool" where
  "module_path value \<longleftrightarrow>
     (if length value > 256 then False
      else list_ex (\<lambda>suffix. case strip_suffix suffix value of
                        None \<Rightarrow> False | Some stem \<Rightarrow> relative_path stem)
             [''.ts'', ''.js'', ''.mts'', ''.mjs''])"

definition route_path :: "string \<Rightarrow> bool" where
  "route_path value \<longleftrightarrow>
     (if length value > 256 \<or> \<not> starts_with ''/'' value then False
      else (let tail = drop 1 value
            in tail = []
               \<or> list_all (\<lambda>segment. segment \<noteq> []
                     \<and> list_all (\<lambda>b. is_ascii_alphanumeric b \<or> b \<in> set ''._~-'') segment)
                   (split_on CHR ''/'' tail)))"

definition unit_number :: "string \<Rightarrow> string list \<Rightarrow> nat \<Rightarrow> bool" where
  "unit_number value units maximum_digits \<longleftrightarrow>
     list_ex (\<lambda>u. case strip_suffix u value of
          None \<Rightarrow> False
        | Some number \<Rightarrow>
            number \<noteq> [] \<and> length number \<le> maximum_digits
            \<and> is_ascii_digit (hd number) \<and> hd number \<noteq> CHR ''0''
            \<and> list_all is_ascii_digit number) units"

definition byte_size :: "string \<Rightarrow> bool" where
  "byte_size value \<longleftrightarrow> unit_number value [''KiB'', ''MiB'', ''GiB''] 6"

definition duration :: "string \<Rightarrow> bool" where
  "duration value \<longleftrightarrow> unit_number value [''ms'', ''s'', ''m''] 4"

definition cron_shape :: "string \<Rightarrow> bool" where
  "cron_shape value \<longleftrightarrow>
     (if length value > 64 then False
      else (let fields = split_on CHR '' '' value
            in length fields = 5
               \<and> list_all (\<lambda>field. field \<noteq> [] \<and> \<not> list_ex is_whitespace (chars field)) fields))"

definition timezone_shape :: "string \<Rightarrow> bool" where
  "timezone_shape value \<longleftrightarrow>
     (if value = ''UTC'' then True
      else if length value > 64 then False
      else (let parts = split_on CHR ''/'' value
            in 2 \<le> length parts \<and> length parts \<le> 3
               \<and> list_all (\<lambda>b. is_ascii_alphabetic b \<or> b = CHR ''_'') (hd parts)
               \<and> list_all (\<lambda>part. part \<noteq> []
                    \<and> list_all (\<lambda>b. is_ascii_alphanumeric b \<or> b \<in> set ''_+-'') part) (tl parts)))"

section \<open>Cron expressions\<close>

record cron_field =
  cf_source :: string
  cf_minimum :: nat
  cf_maximum :: nat
  cf_names :: "string list"

definition cron_field_new :: "string \<Rightarrow> nat \<Rightarrow> nat \<Rightarrow> string list \<Rightarrow> cron_field" where
  "cron_field_new source minimum maximum names =
     \<lparr>cf_source = source, cf_minimum = minimum, cf_maximum = maximum, cf_names = names\<rparr>"

definition valid_step :: "string \<Rightarrow> bool" where
  "valid_step value \<longleftrightarrow>
     (case parse_uint u16_max value of None \<Rightarrow> False | Some step \<Rightarrow> step > 0)"

text \<open>\<^verbatim>\<open>iter().position(p)\<close>\<close>

fun position :: "('a \<Rightarrow> bool) \<Rightarrow> 'a list \<Rightarrow> nat option" where
  "position p [] = None"
| "position p (x # xs) = (if p x then Some 0 else map_option Suc (position p xs))"

definition field_value :: "cron_field \<Rightarrow> string \<Rightarrow> nat option" where
  "field_value f value =
     (case (case parse_uint u8_max value of
              Some number \<Rightarrow>
                if cf_minimum f \<le> number \<and> number \<le> cf_maximum f then Some number else None
            | None \<Rightarrow> None) of
        Some number \<Rightarrow> Some number
      | None \<Rightarrow>
          (case position (\<lambda>name. eq_ignore_ascii_case value name) (cf_names f) of
             None \<Rightarrow> None
           | Some index \<Rightarrow>
               if index \<le> u8_max \<and> index + cf_minimum f \<le> u8_max
               then Some (index + cf_minimum f) else None))"

definition valid_item :: "cron_field \<Rightarrow> string \<Rightarrow> bool" where
  "valid_item f item =
     (let parts = split_on CHR ''/'' item;
          base = hd parts;
          step = (case parts of _ # s # _ \<Rightarrow> Some s | _ \<Rightarrow> None)
      in if length parts > 2 \<or> (case step of None \<Rightarrow> False | Some s \<Rightarrow> \<not> valid_step s) then False
         else if base = ''*'' then True
         else (let range = split_on CHR ''-'' base
               in case field_value f (hd range) of
                    None \<Rightarrow> False
                  | Some start \<Rightarrow>
                      if length range > 2 then False
                      else (case range of
                          _ # e # _ \<Rightarrow>
                            (case field_value f e of None \<Rightarrow> False | Some end \<Rightarrow> start \<le> end)
                        | _ \<Rightarrow> True)))"

definition field_valid :: "cron_field \<Rightarrow> bool" where
  "field_valid f \<longleftrightarrow>
     cf_source f \<noteq> [] \<and> list_all (valid_item f) (split_on CHR '','' (cf_source f))"

definition month_names :: "string list" where
  "month_names = [''JAN'', ''FEB'', ''MAR'', ''APR'', ''MAY'', ''JUN'', ''JUL'', ''AUG'', ''SEP'',
     ''OCT'', ''NOV'', ''DEC'']"

definition weekday_names :: "string list" where
  "weekday_names = [''SUN'', ''MON'', ''TUE'', ''WED'', ''THU'', ''FRI'', ''SAT'']"

definition cron_specifications :: "string list \<Rightarrow> cron_field list" where
  "cron_specifications parts =
     [cron_field_new (parts ! 0) 0 59 [],
      cron_field_new (parts ! 1) 0 23 [],
      cron_field_new (parts ! 2) 1 31 [],
      cron_field_new (parts ! 3) 1 12 month_names,
      cron_field_new (parts ! 4) 0 7 weekday_names]"

definition cron_valid :: "string \<Rightarrow> bool" where
  "cron_valid value \<longleftrightarrow>
     (let parts = split_on CHR '' '' value
      in if length parts \<noteq> 5 then False
         else list_all field_valid (cron_specifications parts))"

section \<open>Lemmas on patterns\<close>

lemma edge_not_hyphen: "is_ascii_alphanumeric c \<Longrightarrow> c \<noteq> CHR ''-''"
  by (auto simp: ascii_class_defs)

lemma lower_digit_hyphen_edge:
  "is_ascii_lowercase c \<or> is_ascii_digit c \<or> c = CHR ''-'' \<Longrightarrow>
     is_ascii_alphanumeric c \<longleftrightarrow> c \<noteq> CHR ''-''"
  by (auto simp: ascii_class_defs)

lemma strip_suffix_single_None_iff:
  "value \<noteq> [] \<Longrightarrow> strip_suffix [c] value = None \<longleftrightarrow> last value \<noteq> c"
  by (cases "value" rule: rev_cases) (simp_all add: strip_suffix_def strip_prefix_def)

lemma starts_with_single: "value \<noteq> [] \<Longrightarrow> starts_with [c] value \<longleftrightarrow> hd value = c"
  by (cases "value") (auto simp: starts_with_def)

lemma portable_byte_printable:
  "is_ascii_alphanumeric b \<or> b \<in> set ''._-'' \<Longrightarrow>
     32 \<le> (byte b :: nat) \<and> byte b < (127 :: nat) \<and> b \<noteq> CHR 0x5C \<and> b \<noteq> CHR ''/''"
  by (auto simp: ascii_class_defs)

lemma path_segment_safe:
  assumes "path_segment s"
  shows "\<not> unsafe_segment s"
proof -
  have all: "\<forall>b \<in> set s. is_ascii_alphanumeric b \<or> b \<in> set ''._-''"
    using assms unfolding path_segment_def list_all_iff by blast
  have "\<not> has_control s"
    using all portable_byte_printable by (intro has_control_printable) blast
  moreover have "CHR 0x5C \<notin> set s" using all portable_byte_printable by blast
  ultimately show ?thesis using assms by (simp add: unsafe_segment_def path_segment_def)
qed

lemma relative_path_segments: "relative_path p \<Longrightarrow> list_all path_segment (split_on CHR ''/'' p)"
  by (simp add: relative_path_def)

lemma split_on_append_last:
  assumes "d \<notin> set b"
  shows "split_on d (a @ b) = butlast (split_on d a) @ [last (split_on d a) @ b]"
proof (induction a)
  case Nil
  with assms show ?case by simp
next
  case (Cons x a)
  obtain p ps where sp: "split_on d a = p # ps" by (cases "split_on d a") auto
  with Cons show ?case by (cases ps) auto
qed

lemma path_segment_append:
  assumes "path_segment s" and "list_all (\<lambda>b. is_ascii_alphanumeric b \<or> b \<in> set ''._-'') t"
    and "3 \<le> length t"
  shows "path_segment (s @ t)"
proof -
  have "length (s @ t) \<noteq> length ''.''" and "length (s @ t) \<noteq> length ''..''"
    using assms(3) by auto
  then have "s @ t \<noteq> ''.''" and "s @ t \<noteq> ''..''" by metis+
  with assms show ?thesis by (simp add: path_segment_def)
qed

lemma module_path_cases:
  assumes "module_path v"
  obtains stem suffix where "v = stem @ suffix" and "relative_path stem"
    and "suffix \<in> set [''.ts'', ''.js'', ''.mts'', ''.mjs'']" and "length v \<le> 256"
proof -
  from assms have len: "length v \<le> 256" and
    ex: "list_ex (\<lambda>suffix. case strip_suffix suffix v of
       None \<Rightarrow> False | Some stem \<Rightarrow> relative_path stem) [''.ts'', ''.js'', ''.mts'', ''.mjs'']"
    by (auto simp: module_path_def split: if_split_asm)
  from ex obtain suffix where s: "suffix \<in> set [''.ts'', ''.js'', ''.mts'', ''.mjs'']"
    and c: "case strip_suffix suffix v of None \<Rightarrow> False | Some stem \<Rightarrow> relative_path stem"
    unfolding list_ex_iff by blast
  from c obtain stem where "strip_suffix suffix v = Some stem" and "relative_path stem"
    by (auto split: option.split_asm)
  with s len that show thesis by (auto simp: strip_suffix_Some_iff)
qed

text \<open>A digit string without a leading zero is the canonical decimal of its value.\<close>

lemma digits_canonical:
  assumes "list_all is_ascii_digit s" and "s \<noteq> []" and "hd s \<noteq> CHR ''0''"
  shows "show_nat (digits_value s) = s \<and> 0 < digits_value s"
  using assms
proof (induction s rule: rev_induct)
  case Nil
  then show ?case by simp
next
  case (snoc c s)
  define d where "d = (byte c :: nat) - 48"
  have d: "d < 10" and c: "c = digit_char d"
    using snoc.prems(1) by (auto simp: d_def is_ascii_digit_def digit_char_def)
  have v: "digits_value (s @ [c]) = digits_value s * 10 + d"
    by (simp add: digits_value_snoc d_def)
  show ?case
  proof (cases "s = []")
    case True
    have "d \<noteq> 0"
    proof
      assume "d = 0"
      then have "(byte c :: nat) = byte CHR ''0''" unfolding c by simp
      then have "c = CHR ''0''" by (simp only: of_char_eq_iff)
      with snoc.prems(3) True show False by simp
    qed
    moreover have "digits_value [] = 0" by (simp add: digits_value_def)
    ultimately show ?thesis using True v d c by (simp add: show_nat.simps [of d])
  next
    case False
    then have ih: "show_nat (digits_value s) = s" "0 < digits_value s"
      using snoc by simp_all
    then have "\<not> digits_value s * 10 + d < 10" by simp
    then have "show_nat (digits_value s * 10 + d)
        = show_nat ((digits_value s * 10 + d) div 10) @ [digit_char ((digits_value s * 10 + d) mod 10)]"
      by (simp add: show_nat.simps [of "digits_value s * 10 + d"])
    with ih v c d show ?thesis by simp
  qed
qed

lemma digits_value_bound: "list_all is_ascii_digit s \<Longrightarrow> digits_value s < 10 ^ length s"
proof (induction s rule: rev_induct)
  case Nil
  then show ?case by (simp add: digits_value_def)
next
  case (snoc c s)
  then have "(byte c :: nat) - 48 < 10" by (auto simp: is_ascii_digit_def)
  with snoc show ?case by (simp add: digits_value_snoc)
qed

lemma unit_number_iff:
  "unit_number v units digits \<longleftrightarrow>
     (\<exists>n u. u \<in> set units \<and> 0 < n \<and> length (show_nat n) \<le> digits \<and> v = show_nat n @ u)"
proof
  assume "unit_number v units digits"
  then obtain u where u: "u \<in> set units" and c: "case strip_suffix u v of None \<Rightarrow> False
     | Some number \<Rightarrow> number \<noteq> [] \<and> length number \<le> digits \<and> is_ascii_digit (hd number)
         \<and> hd number \<noteq> CHR ''0'' \<and> list_all is_ascii_digit number"
    unfolding unit_number_def list_ex_iff by blast
  from c obtain number where "v = number @ u" "number \<noteq> []" "length number \<le> digits"
      "hd number \<noteq> CHR ''0''" "list_all is_ascii_digit number"
    by (auto simp: strip_suffix_Some_iff split: option.split_asm)
  with digits_canonical [of number] u
  show "\<exists>n u. u \<in> set units \<and> 0 < n \<and> length (show_nat n) \<le> digits \<and> v = show_nat n @ u"
    by metis
next
  assume "\<exists>n u. u \<in> set units \<and> 0 < n \<and> length (show_nat n) \<le> digits \<and> v = show_nat n @ u"
  then obtain n u where nu: "u \<in> set units" "0 < n" "length (show_nat n) \<le> digits"
      "v = show_nat n @ u" by blast
  have digits: "list_all is_ascii_digit (show_nat n)" by (rule show_nat_digits)
  have "hd (show_nat n) \<noteq> CHR ''0''" using nu(2)
  proof (induction n rule: show_nat.induct)
    case (1 n)
    show ?case
    proof (cases "n < 10")
      case True
      have "byte (digit_char n) = 48 + n" using True by simp
      moreover have "byte CHR ''0'' = (48 :: nat)" by simp
      ultimately have "digit_char n \<noteq> CHR ''0''" using 1(2) by force
      with True show ?thesis by (simp add: show_nat.simps [of n])
    next
      case False
      with 1 have "hd (show_nat (n div 10)) \<noteq> CHR ''0''" by simp
      with False show ?thesis by (simp add: show_nat.simps [of n])
    qed
  qed
  moreover have "is_ascii_digit (hd (show_nat n))"
    using digits by (cases "show_nat n") auto
  moreover have "strip_suffix u v = Some (show_nat n)"
    using nu(4) by (simp add: strip_suffix_Some_iff)
  ultimately show "unit_number v units digits"
    using nu digits unfolding unit_number_def list_ex_iff
    by (intro bexI [of _ u]) simp_all
qed

lemma show_nat_length_iff: "0 < k \<Longrightarrow> length (show_nat n) \<le> k \<longleftrightarrow> n < 10 ^ k"
proof (induction n arbitrary: k rule: show_nat.induct)
  case (1 n)
  show ?case
  proof (cases "n < 10")
    case True
    have "(10 :: nat) ^ 1 \<le> 10 ^ k" using 1(2) by (intro power_increasing) simp_all
    with True 1(2) show ?thesis by (simp add: show_nat.simps [of n])
  next
    case False
    obtain j where k: "k = Suc j" using 1(2) by (cases k) auto
    show ?thesis
    proof (cases "j = 0")
      case True
      with False k show ?thesis by (simp add: show_nat.simps [of n])
    next
      case j: False
      have "length (show_nat n) \<le> k \<longleftrightarrow> length (show_nat (n div 10)) \<le> j"
        using False k by (simp add: show_nat.simps [of n])
      also have "\<dots> \<longleftrightarrow> n div 10 < 10 ^ j" using 1(1) False j by simp
      also have "\<dots> \<longleftrightarrow> n < 10 ^ k" by (simp add: k div_less_iff_less_mult mult.commute)
      finally show ?thesis .
    qed
  qed
qed

section \<open>Lemmas on cron fields\<close>

definition field_char :: "char \<Rightarrow> bool" where
  "field_char c \<longleftrightarrow> is_ascii_alphanumeric c \<or> c \<in> set ''+*/,-''"

lemma field_char_not_whitespace: "field_char c \<Longrightarrow> byte c < (128 :: nat) \<and> \<not> is_whitespace (byte c)"
  by (auto simp: field_char_def ascii_class_defs is_whitespace_def)

lemma parse_uint_chars:
  "parse_uint m s = Some n \<Longrightarrow> c \<in> set s \<Longrightarrow> is_ascii_digit c \<or> c = CHR ''+''"
  by (auto simp: parse_uint_def Let_def list_all_iff split: if_split_asm list.split_asm)

lemma position_Some: "position p xs = Some i \<Longrightarrow> i < length xs \<and> p (xs ! i)"
  by (induction xs arbitrary: i) (auto split: if_split_asm)

lemma to_ascii_uppercase_alphabetic:
  "is_ascii_uppercase (to_ascii_uppercase c) \<Longrightarrow> is_ascii_alphabetic c"
  by (auto simp: to_ascii_uppercase_def is_ascii_alphabetic_def split: if_split_asm)

lemma eq_ignore_ascii_case_letters:
  assumes "eq_ignore_ascii_case v name" and "\<forall>c \<in> set name. is_ascii_uppercase c" and "c \<in> set v"
  shows "is_ascii_alphabetic c"
proof -
  have up: "to_ascii_uppercase d = d" if "is_ascii_uppercase d" for d
    using that by (auto simp: to_ascii_uppercase_def ascii_class_defs)
  have "set (map to_ascii_uppercase v) = set (map to_ascii_uppercase name)"
    using assms(1) unfolding eq_ignore_ascii_case_def by (rule arg_cong)
  moreover have "to_ascii_uppercase c \<in> set (map to_ascii_uppercase v)" using assms(3) by simp
  ultimately have "to_ascii_uppercase c \<in> to_ascii_uppercase ` set name" by simp
  then have "is_ascii_uppercase (to_ascii_uppercase c)" using assms(2) up by auto
  then show ?thesis by (rule to_ascii_uppercase_alphabetic)
qed

definition names_fit :: "cron_field \<Rightarrow> bool" where
  "names_fit f \<longleftrightarrow>
     (\<forall>name \<in> set (cf_names f). \<forall>c \<in> set name. is_ascii_uppercase c)
     \<and> (\<forall>i < length (cf_names f). i + cf_minimum f \<le> cf_maximum f)"

lemma field_value_sound:
  assumes "field_value f v = Some n" and "names_fit f"
  shows "cf_minimum f \<le> n \<and> n \<le> cf_maximum f" and "\<forall>c \<in> set v. field_char c"
proof -
  consider (number) "parse_uint u8_max v = Some n" "cf_minimum f \<le> n" "n \<le> cf_maximum f"
    | (name) i where "position (\<lambda>name. eq_ignore_ascii_case v name) (cf_names f) = Some i"
        "n = i + cf_minimum f"
    using assms(1) by (auto simp: field_value_def split: option.split_asm if_split_asm)
  then have "(cf_minimum f \<le> n \<and> n \<le> cf_maximum f) \<and> (\<forall>c \<in> set v. field_char c)"
  proof cases
    case number
    then show ?thesis
      using parse_uint_chars [OF number(1)] by (auto simp: field_char_def is_ascii_alphanumeric_def)
  next
    case name
    from position_Some [OF name(1)] have i: "i < length (cf_names f)"
      and eq: "eq_ignore_ascii_case v (cf_names f ! i)" by auto
    have "cf_names f ! i \<in> set (cf_names f)" using i by simp
    then have "\<forall>c \<in> set (cf_names f ! i). is_ascii_uppercase c"
      using assms(2) unfolding names_fit_def by blast
    then have "\<forall>c \<in> set v. field_char c"
      using eq_ignore_ascii_case_letters [OF eq]
      by (auto simp: field_char_def is_ascii_alphanumeric_def)
    moreover have "i + cf_minimum f \<le> cf_maximum f"
      using assms(2) i unfolding names_fit_def by blast
    ultimately show ?thesis using name(2) by auto
  qed
  then show "cf_minimum f \<le> n \<and> n \<le> cf_maximum f" and "\<forall>c \<in> set v. field_char c" by auto
qed

lemma split_on_chars:
  assumes "\<forall>p \<in> set (split_on d s). \<forall>c \<in> set p. P c" and "P d"
  shows "\<forall>c \<in> set s. P c"
  using assms(1)
proof (induction s)
  case Nil
  then show ?case by simp
next
  case (Cons x s)
  obtain p ps where sp: "split_on d s = p # ps" by (cases "split_on d s") auto
  show ?case
  proof (cases "x = d")
    case True
    with Cons assms(2) show ?thesis by simp
  next
    case False
    then have "P x" and "\<forall>q \<in> set (split_on d s). \<forall>c \<in> set q. P c"
      using Cons.prems by (simp_all add: sp)
    with Cons.IH show ?thesis by simp
  qed
qed

lemma valid_step_chars: "valid_step s \<Longrightarrow> c \<in> set s \<Longrightarrow> field_char c"
  using parse_uint_chars
  by (fastforce simp: valid_step_def field_char_def is_ascii_alphanumeric_def
      split: option.split_asm)

text \<open>The shape of an accepted item: at most one step, at most one range, every bound in the
  field's interval.\<close>

lemma valid_item_cases:
  assumes "valid_item f item"
  obtains base steps range where "split_on CHR ''/'' item = base # steps"
    and "steps = [] \<or> (\<exists>s. steps = [s] \<and> valid_step s)"
    and "range = split_on CHR ''-'' base"
    and "base = ''*''
      \<or> (\<exists>v n. range = [v] \<and> field_value f v = Some n)
      \<or> (\<exists>v w m n. range = [v, w] \<and> field_value f v = Some m \<and> field_value f w = Some n \<and> m \<le> n)"
proof -
  obtain base steps where sp: "split_on CHR ''/'' item = base # steps"
    by (cases "split_on CHR ''/'' item") auto
  obtain v range where r: "split_on CHR ''-'' base = v # range"
    by (cases "split_on CHR ''-'' base") auto
  have step: "length (base # steps) \<le> 2"
      "\<not> (case (case base # steps of _ # s # _ \<Rightarrow> Some s | _ \<Rightarrow> None) of
          None \<Rightarrow> False | Some s \<Rightarrow> \<not> valid_step s)"
    using assms unfolding valid_item_def Let_def sp by (simp_all split: if_split_asm)
  have "steps = [] \<or> (\<exists>s. steps = [s] \<and> valid_step s)"
  proof (cases steps)
    case (Cons s rest)
    with step show ?thesis by simp
  qed simp
  moreover have "base = ''*''
      \<or> (\<exists>u n. v # range = [u] \<and> field_value f u = Some n)
      \<or> (\<exists>u w m n. v # range = [u, w] \<and> field_value f u = Some m \<and> field_value f w = Some n \<and> m \<le> n)"
  proof (cases "base = ''*''")
    case False
    then have ok: "case field_value f v of None \<Rightarrow> False
        | Some start \<Rightarrow> if length (v # range) > 2 then False
            else (case v # range of
                _ # e # _ \<Rightarrow> (case field_value f e of None \<Rightarrow> False | Some end \<Rightarrow> start \<le> end)
              | _ \<Rightarrow> True)"
      using assms unfolding valid_item_def Let_def sp list.sel r 
      by (cases "field_value f v") (simp_all split: if_split_asm)
    then obtain m where m: "field_value f v = Some m" by (cases "field_value f v") auto
    show ?thesis
    proof (cases range)
      case Nil
      with m show ?thesis by simp
    next
      case (Cons w rest)
      with ok m have "rest = []" by (cases rest) simp_all
      with ok m Cons show ?thesis by (cases "field_value f w") simp_all
    qed
  qed simp
  ultimately show thesis using that [OF sp _ r [symmetric]] by blast
qed

lemma valid_item_chars:
  assumes "valid_item f item" and "names_fit f"
  shows "\<forall>c \<in> set item. field_char c"
proof -
  obtain base steps range where sp: "split_on CHR ''/'' item = base # steps"
    and steps: "steps = [] \<or> (\<exists>s. steps = [s] \<and> valid_step s)"
    and range: "range = split_on CHR ''-'' base"
    and base: "base = ''*''
      \<or> (\<exists>v n. range = [v] \<and> field_value f v = Some n)
      \<or> (\<exists>v w m n. range = [v, w] \<and> field_value f v = Some m \<and> field_value f w = Some n \<and> m \<le> n)"
    by (rule valid_item_cases [OF assms(1)])
  have fc: "field_char CHR ''/''" "field_char CHR ''-''" "field_char CHR ''*''"
    by (simp_all add: field_char_def)
  have "\<forall>c \<in> set base. field_char c"
  proof (cases "base = ''*''")
    case True
    with fc show ?thesis by simp
  next
    case False
    with base have "\<forall>p \<in> set (split_on CHR ''-'' base). \<forall>c \<in> set p. field_char c"
      using field_value_sound(2) [OF _ assms(2)] unfolding range by auto
    then show ?thesis using fc(2) by (rule split_on_chars)
  qed
  moreover have "\<forall>s \<in> set steps. \<forall>c \<in> set s. field_char c"
    using steps valid_step_chars by auto
  ultimately have "\<forall>p \<in> set (split_on CHR ''/'' item). \<forall>c \<in> set p. field_char c"
    by (simp add: sp)
  then show ?thesis using fc(1) by (rule split_on_chars)
qed

lemma field_valid_chars:
  assumes "field_valid f" and "names_fit f"
  shows "cf_source f \<noteq> [] \<and> (\<forall>c \<in> set (cf_source f). field_char c)"
proof -
  have "\<forall>p \<in> set (split_on CHR '','' (cf_source f)). \<forall>c \<in> set p. field_char c"
    using assms valid_item_chars by (auto simp: field_valid_def list_all_iff)
  moreover have "field_char CHR '',''" by (simp add: field_char_def)
  ultimately have "\<forall>c \<in> set (cf_source f). field_char c" by (rule split_on_chars)
  with assms(1) show ?thesis by (simp add: field_valid_def)
qed

lemma names_fit_specifications: "f \<in> set (cron_specifications parts) \<Longrightarrow> names_fit f"
  by (auto simp: cron_specifications_def cron_field_new_def names_fit_def month_names_def
      weekday_names_def is_ascii_uppercase_def)

lemma sources_specifications:
  assumes "length parts = 5" and "p \<in> set parts"
  shows "\<exists>f \<in> set (cron_specifications parts). cf_source f = p"
proof -
  obtain a b c d e where "parts = [a, b, c, d, e]"
    using assms(1) by (auto simp: length_Suc_conv eval_nat_numeral)
  with assms(2) show ?thesis by (auto simp: cron_specifications_def cron_field_new_def)
qed

section \<open>Properties\<close>

text \<open>The two DNS-label checks of the core crate agree: the manifest grammar's
  \<^verbatim>\<open>patterns::dns_label\<close> (alphanumeric edges) and the origin's \<^verbatim>\<open>is_valid_dns_label\<close> (no hyphen at
  an edge) accept the same strings, so every manifest name can be a Web Yard host label.\<close>

theorem dns_label_checks_agree: "dns_label value = is_valid_dns_label value"
proof (cases "value = []")
  case True
  then show ?thesis by (simp add: dns_label_def is_valid_dns_label_def)
next
  case False
  then have "hd value \<in> set value" and "last value \<in> set value" by simp_all
  then have "edge_alphanumeric value \<longleftrightarrow> hd value \<noteq> CHR ''-'' \<and> last value \<noteq> CHR ''-''"
    if "list_all (\<lambda>b. is_ascii_lowercase b \<or> is_ascii_digit b \<or> b = CHR ''-'') value"
    using that lower_digit_hyphen_edge unfolding edge_alphanumeric_def list_all_iff by metis
  with False show ?thesis
    unfolding dns_label_def is_valid_dns_label_def starts_with_single [OF False]
      strip_suffix_single_None_iff [OF False] MAXIMUM_DNS_LABEL_BYTES_def
    by metis
qed

text \<open>Manifest paths cannot escape: a portable relative path, and a module path with its
  extension, is not absolute and is a safe logical path in the sense of the identifier
  parser (no empty, dot or dot-dot segment, no backslash, no control character).\<close>

theorem manifest_paths_are_safe:
  assumes "relative_path value \<or> module_path value"
  shows "validate_decoded_path value = Ok () \<and> \<not> starts_with ''/'' value
    \<and> list_all path_segment (split_on CHR ''/'' value)"
proof -
  have plain: "validate_decoded_path p = Ok () \<and> \<not> starts_with ''/'' p
      \<and> list_all path_segment (split_on CHR ''/'' p)" if "relative_path p" for p
    using that path_segment_safe
    by (auto simp: relative_path_def validate_decoded_path_Ok_iff MAX_PATH_BYTES_def list_all_iff)
  show ?thesis
  proof (cases "relative_path value")
    case True
    then show ?thesis by (rule plain)
  next
    case False
    with assms obtain stem suffix where v: "value = stem @ suffix" and stem: "relative_path stem"
      and suffix: "suffix \<in> set [''.ts'', ''.js'', ''.mts'', ''.mjs'']" and len: "length value \<le> 256"
      by (auto elim: module_path_cases)
    let ?segs = "split_on CHR ''/'' stem"
    have ok: "list_all (\<lambda>b. is_ascii_alphanumeric b \<or> b \<in> set ''._-'') suffix" "3 \<le> length suffix"
      "CHR ''/'' \<notin> set suffix"
      using suffix by (auto simp: ascii_class_defs)
    have "list_all path_segment (butlast ?segs)" "path_segment (last ?segs)"
      using relative_path_segments [OF stem]
      by (auto simp: list_all_iff dest: in_set_butlastD)
    then have "list_all path_segment (split_on CHR ''/'' value)"
      using path_segment_append [OF _ ok(1,2)] unfolding v split_on_append_last [OF ok(3)] by simp
    moreover have "\<not> starts_with ''/'' value"
      using stem unfolding v by (cases stem) (auto simp: relative_path_def starts_with_def)
    ultimately have "relative_path value"
      using len stem by (simp add: relative_path_def v)
    then show ?thesis by (rule plain)
  qed
qed

theorem manifest_paths_are_safe_witness:
  "module_path ''src/job.ts'' \<and> validate_decoded_path ''src/job.ts'' = Ok ()"
proof -
  have "module_path ''src/job.ts''"
    by (simp add: module_path_def strip_suffix_def strip_prefix_def relative_path_def
        starts_with_def path_segment_def ascii_class_defs)
  with manifest_paths_are_safe [of "''src/job.ts''"] show ?thesis by blast
qed

text \<open>A byte size is accepted exactly when it is the canonical decimal of a number from 1
  to 999999 followed by a binary unit, and a duration exactly when it is the canonical
  decimal of a number from 1 to 9999 followed by its unit: no zero, no leading zero, no sign.\<close>

theorem unit_numbers_canonical:
  "(byte_size value \<longleftrightarrow>
      (\<exists>n u. u \<in> {''KiB'', ''MiB'', ''GiB''} \<and> 1 \<le> n \<and> n \<le> 999999 \<and> value = show_nat n @ u))
   \<and> (duration value \<longleftrightarrow>
      (\<exists>n u. u \<in> {''ms'', ''s'', ''m''} \<and> 1 \<le> n \<and> n \<le> 9999 \<and> value = show_nat n @ u))"
proof -
  have six: "length (show_nat n) \<le> 6 \<longleftrightarrow> n \<le> 999999" for n
    using show_nat_length_iff [of 6 n] by auto
  have four: "length (show_nat n) \<le> 4 \<longleftrightarrow> n \<le> 9999" for n
    using show_nat_length_iff [of 4 n] by auto
  have pos: "0 < n \<longleftrightarrow> 1 \<le> n" for n :: nat by auto
  show ?thesis
    unfolding byte_size_def duration_def unit_number_iff six four pos by simp
qed

text \<open>The strict cron grammar is inside the shape the schema asks for: an expression of at
  most 64 bytes that \<^verbatim>\<open>cron::valid\<close> accepts has five nonempty fields without whitespace, so
  a schedule that passes the cross-field check never fails the shape check.\<close>

theorem cron_valid_has_shape:
  assumes "cron_valid value" and "length value \<le> 64"
  shows "cron_shape value"
proof -
  let ?parts = "split_on CHR '' '' value"
  have len: "length ?parts = 5" and all: "list_all field_valid (cron_specifications ?parts)"
    using assms(1) by (auto simp: cron_valid_def Let_def split: if_split_asm)
  have "p \<noteq> [] \<and> \<not> list_ex is_whitespace (chars p)" if p: "p \<in> set ?parts" for p
  proof -
    obtain f where f: "f \<in> set (cron_specifications ?parts)" and src: "cf_source f = p"
      using sources_specifications [OF len p] by blast
    have "field_valid f" using all f by (auto simp: list_all_iff)
    from field_valid_chars [OF this names_fit_specifications [OF f]] src
    have ne: "p \<noteq> []" and fc: "\<forall>c \<in> set p. field_char c" by auto
    then have "chars p = map byte p" by (intro chars_ascii) (auto dest: field_char_not_whitespace)
    with ne fc field_char_not_whitespace show ?thesis by (auto simp: list_ex_iff)
  qed
  with len assms(2) show ?thesis by (auto simp: cron_shape_def list_all_iff)
qed

theorem cron_valid_has_shape_witness:
  "cron_valid ''0 12 1-15 JAN MON/2'' \<and> cron_shape ''0 12 1-15 JAN MON/2''"
proof -
  have "cron_valid ''0 12 1-15 JAN MON/2''"
    by (simp add: cron_valid_def cron_specifications_def cron_field_new_def field_valid_def
        valid_item_def field_value_def parse_uint_def valid_step_def digits_value_def
        ascii_class_defs u8_max_def u16_max_def month_names_def weekday_names_def
        eq_ignore_ascii_case_def to_ascii_uppercase_def)
  with cron_valid_has_shape [of "''0 12 1-15 JAN MON/2''"] show ?thesis by simp
qed

text \<open>The cron grammar admits signed numbers: because the integer parser accepts a leading
  plus sign, \<^verbatim>\<open>+5\<close> passes as a minute and as a step, which no cron dialect allows.\<close>

theorem cron_accepts_plus_sign:
  "cron_valid ''+5 * * * *'' \<and> cron_valid ''*/+5 * * * *''"
  by (simp add: cron_valid_def cron_specifications_def cron_field_new_def field_valid_def
      valid_item_def field_value_def parse_uint_def valid_step_def digits_value_def
      ascii_class_defs u8_max_def u16_max_def)

end
