(* ===== verification/Application_Policy.thy ===== *)
theory Application_Policy
  imports Worklist Manifest_Patterns
begin

text \<open>
  Application role policies, \<^verbatim>\<open>crates/blobyard-core/src/application_policy.rs\<close>: validation of an
  owner-approved role graph and its precomputed transitive closure. The role map is the list of
  its entries in key order. Rust's \<^verbatim>\<open>graph.roles[name]\<close> panics on a missing key, so every
  function that indexes the map returns an \<open>option\<close>, and \<open>None\<close> is the panic.
\<close>

definition MAXIMUM_APPLICATION_POLICY_ROLES :: nat where
  "MAXIMUM_APPLICATION_POLICY_ROLES = 32"

definition MAXIMUM_DIRECT_INHERITED_ROLES :: nat where
  "MAXIMUM_DIRECT_INHERITED_ROLES = 8"

definition MAXIMUM_DIRECT_ROLE_PERMISSIONS :: nat where
  "MAXIMUM_DIRECT_ROLE_PERMISSIONS = 64"

record ApplicationRoleDefinition =
  ard_inherits :: "string list"
  ard_permissions :: "string list"

record ApplicationPolicyGraph =
  apg_default_role :: "string option"
  apg_roles :: "(string \<times> ApplicationRoleDefinition) list"

record EffectiveApplicationPolicy =
  eap_effective_roles :: "(string \<times> string list) list"
  eap_effective_permissions :: "(string \<times> string list) list"

record CanonicalApplicationPolicy =
  cap_graph :: ApplicationPolicyGraph
  cap_effective :: EffectiveApplicationPolicy

datatype ApplicationPolicyError = ApplicationPolicyError

definition valid_source_manifest_digest :: "string \<Rightarrow> bool" where
  "valid_source_manifest_digest value \<longleftrightarrow> length value = 64 \<and> list_all is_lower_hex value"

definition unique :: "string list \<Rightarrow> bool" where
  "unique values \<longleftrightarrow> length (btree_set values) = length values"

definition role_inherits :: "ApplicationPolicyGraph \<Rightarrow> string \<Rightarrow> string list option" where
  "role_inherits graph name = map_option ard_inherits (map_of (apg_roles graph) name)"

lemma finite_role_inherits: "finite (dom (role_inherits graph))"
proof -
  have "dom (role_inherits graph) = dom (map_of (apg_roles graph))"
    by (auto simp: role_inherits_def dom_def)
  then show ?thesis by (simp add: finite_dom_map_of)
qed

lemma new_node_smaller:
  assumes "role_inherits graph c = Some parents" and "c \<notin> seen"
  shows "card (dom (role_inherits graph) - insert c seen) < card (dom (role_inherits graph) - seen)"
  using assms finite_role_inherits [of graph] by (intro psubset_card_mono) auto

text \<open>\<^verbatim>\<open>while let Some(candidate) = pending.pop()\<close> of \<^verbatim>\<open>has_cycle\<close> and of \<^verbatim>\<open>inherited_closure\<close>\<close>

function has_cycle_loop ::
  "ApplicationPolicyGraph \<Rightarrow> string \<Rightarrow> string set \<Rightarrow> string list \<Rightarrow> bool option" where
  "has_cycle_loop graph origin visited pending =
     (if pending = [] then Some False
      else let candidate = last pending; rest = butlast pending
        in if candidate = origin then Some True
           else if candidate \<in> visited then has_cycle_loop graph origin visited rest
           else (case role_inherits graph candidate of
               None \<Rightarrow> None
             | Some parents \<Rightarrow> has_cycle_loop graph origin (insert candidate visited) (rest @ parents)))"
  by pat_completeness auto
termination
  by (relation "measures [\<lambda>(graph, origin, visited, pending).
        card (dom (role_inherits graph) - visited),
      \<lambda>(graph, origin, visited, pending). length pending]")
    (auto intro: new_node_smaller)

declare has_cycle_loop.simps [simp del]

definition has_cycle :: "string \<Rightarrow> ApplicationPolicyGraph \<Rightarrow> bool option" where
  "has_cycle origin graph =
     (case role_inherits graph origin of
        None \<Rightarrow> None
      | Some pending \<Rightarrow> has_cycle_loop graph origin {} pending)"

function closure_loop ::
  "ApplicationPolicyGraph \<Rightarrow> string set \<Rightarrow> string list \<Rightarrow> string set option" where
  "closure_loop graph roles pending =
     (if pending = [] then Some roles
      else let candidate = last pending; rest = butlast pending
        in if candidate \<in> roles then closure_loop graph roles rest
           else (case role_inherits graph candidate of
               None \<Rightarrow> None
             | Some parents \<Rightarrow> closure_loop graph (insert candidate roles) (rest @ parents)))"
  by pat_completeness auto
termination
  by (relation "measures [\<lambda>(graph, roles, pending). card (dom (role_inherits graph) - roles),
      \<lambda>(graph, roles, pending). length pending]")
    (auto intro: new_node_smaller)

declare closure_loop.simps [simp del]

definition inherited_closure :: "string \<Rightarrow> ApplicationPolicyGraph \<Rightarrow> string list option" where
  "inherited_closure name graph =
     (case role_inherits graph name of
        None \<Rightarrow> None
      | Some pending \<Rightarrow> map_option sorted_list_of_set (closure_loop graph {name} pending))"

text \<open>The condition of the loop of \<^verbatim>\<open>validate_graph\<close>, its disjuncts in source order.\<close>

definition role_rejected ::
  "ApplicationPolicyGraph \<Rightarrow> string \<Rightarrow> ApplicationRoleDefinition \<Rightarrow> bool option" where
  "role_rejected graph name d =
     (if \<not> role_name name
        \<or> length (ard_inherits d) > MAXIMUM_DIRECT_INHERITED_ROLES
        \<or> length (ard_permissions d) > MAXIMUM_DIRECT_ROLE_PERMISSIONS
        \<or> \<not> unique (ard_inherits d)
        \<or> \<not> unique (ard_permissions d)
        \<or> list_ex (\<lambda>inherited. map_of (apg_roles graph) inherited = None) (ard_inherits d)
        \<or> list_ex (\<lambda>p. \<not> permission p) (ard_permissions d)
      then Some True
      else has_cycle name graph)"

fun validate_roles :: "ApplicationPolicyGraph \<Rightarrow> (string \<times> ApplicationRoleDefinition) list
    \<Rightarrow> (ApplicationPolicyError + unit) option" where
  "validate_roles graph [] = Some (Ok ())"
| "validate_roles graph ((name, d) # rest) =
     (case role_rejected graph name d of
        None \<Rightarrow> None
      | Some True \<Rightarrow> Some (Err ApplicationPolicyError)
      | Some False \<Rightarrow> validate_roles graph rest)"

definition validate_graph ::
  "ApplicationPolicyGraph \<Rightarrow> (ApplicationPolicyError + unit) option" where
  "validate_graph graph =
     (if length (apg_roles graph) > MAXIMUM_APPLICATION_POLICY_ROLES
        \<or> (case apg_default_role graph of
             None \<Rightarrow> False
           | Some role \<Rightarrow> map_of (apg_roles graph) role = None)
      then Some (Err ApplicationPolicyError)
      else validate_roles graph (apg_roles graph))"

definition canonicalize_definition :: "ApplicationRoleDefinition \<Rightarrow> ApplicationRoleDefinition" where
  "canonicalize_definition d =
     \<lparr>ard_inherits = sort (ard_inherits d), ard_permissions = sort (ard_permissions d)\<rparr>"

definition canonicalize_direct_arrays :: "ApplicationPolicyGraph \<Rightarrow> ApplicationPolicyGraph" where
  "canonicalize_direct_arrays graph =
     graph\<lparr>apg_roles := map (\<lambda>(name, d). (name, canonicalize_definition d)) (apg_roles graph)\<rparr>"

definition effective_entry ::
  "ApplicationPolicyGraph \<Rightarrow> string \<Rightarrow> (string list \<times> string list) option" where
  "effective_entry graph name =
     (case inherited_closure name graph of
        None \<Rightarrow> None
      | Some roles \<Rightarrow>
          (case those (map (\<lambda>role. map_option ard_permissions (map_of (apg_roles graph) role)) roles) of
             None \<Rightarrow> None
           | Some permissions \<Rightarrow> Some (roles, btree_set (concat permissions))))"

definition expand :: "ApplicationPolicyGraph \<Rightarrow> EffectiveApplicationPolicy option" where
  "expand graph =
     map_option (\<lambda>entries.
         \<lparr>eap_effective_roles = zip (map fst (apg_roles graph)) (map fst entries),
          eap_effective_permissions = zip (map fst (apg_roles graph)) (map snd entries)\<rparr>)
       (those (map (effective_entry graph) (map fst (apg_roles graph))))"

definition canonicalize_application_policy :: "ApplicationPolicyGraph
    \<Rightarrow> (ApplicationPolicyError + CanonicalApplicationPolicy) option" where
  "canonicalize_application_policy graph =
     (case validate_graph graph of
        None \<Rightarrow> None
      | Some (Inl e) \<Rightarrow> Some (Err e)
      | Some (Inr _) \<Rightarrow>
          (let canonical = canonicalize_direct_arrays graph
           in map_option (\<lambda>effective. Ok \<lparr>cap_graph = canonical, cap_effective = effective\<rparr>)
                (expand canonical)))"

section \<open>The searches are stack searches\<close>

text \<open>Both loops of the module satisfy the laws of \<open>worklist\<close>, so both compute reachability.\<close>

interpretation cycle: worklist "role_inherits graph" "\<lambda>c. c = origin" True "\<lambda>_. False"
  "has_cycle_loop graph origin" for graph origin
  by unfold_locales
    (simp_all add: has_cycle_loop.simps [of graph origin _ "[]"]
      has_cycle_loop.simps [of graph origin _ "_ @ [_]"] Let_def finite_role_inherits)

interpretation closure: worklist "role_inherits graph" "\<lambda>_. False" undefined "\<lambda>seen. seen"
  "closure_loop graph" for graph
  by unfold_locales
    (simp_all add: closure_loop.simps [of graph _ "[]"]
      closure_loop.simps [of graph _ "_ @ [_]"] Let_def finite_role_inherits)

definition inherits_declared :: "ApplicationPolicyGraph \<Rightarrow> bool" where
  "inherits_declared graph \<longleftrightarrow>
     list_all (\<lambda>(name, d). list_all (\<lambda>i. map_of (apg_roles graph) i \<noteq> None) (ard_inherits d))
       (apg_roles graph)"

definition inherits_from :: "ApplicationPolicyGraph \<Rightarrow> string \<Rightarrow> string \<Rightarrow> bool" where
  "inherits_from graph a b \<longleftrightarrow> (a, b) \<in> (edges (role_inherits graph))\<^sup>+"

section \<open>What the searches compute\<close>

lemma unique_iff: "unique values \<longleftrightarrow> distinct values"
  by (simp add: unique_def length_btree_set card_distinct distinct_card
      eq_commute [of "length values"]) (metis card_distinct distinct_card)

lemma declared_nodes_closed:
  "inherits_declared graph \<Longrightarrow> closed_under (role_inherits graph) (dom (role_inherits graph))"
  by (fastforce simp: inherits_declared_def closed_under_def role_inherits_def list_all_iff
      dest: map_of_SomeD)

lemma role_inherits_declared:
  assumes "inherits_declared graph" and "role_inherits graph name = Some parents"
  shows "set parents \<subseteq> dom (role_inherits graph)"
  using declared_nodes_closed [OF assms(1)] assms(2) by (auto simp: closed_under_def)

lemma has_cycle_declared:
  assumes "inherits_declared graph" and "role_inherits graph name = Some parents"
  shows "has_cycle name graph = Some (inherits_from graph name name)"
proof -
  have "has_cycle_loop graph name {} parents
      = Some (\<exists>c \<in> reachable (role_inherits graph) (set parents). c = name)"
    using cycle.loop_result [OF role_inherits_declared [OF assms] subset_refl
        declared_nodes_closed [OF assms(1)], of "{}"] by simp
  moreover have "name \<in> reachable (role_inherits graph) (set parents)
      \<longleftrightarrow> inherits_from graph name name"
    using edges_iff [of "role_inherits graph" name, OF assms(2)]
    by (auto simp: reachable_def inherits_from_def trancl_unfold_left)
  ultimately show ?thesis using assms(2) by (simp add: has_cycle_def)
qed

definition closure_of :: "ApplicationPolicyGraph \<Rightarrow> string \<Rightarrow> string set" where
  "closure_of graph name = insert name {r. inherits_from graph name r}"

lemma closure_of_reachable: "closure_of graph name = reachable (role_inherits graph) {name}"
  by (auto simp: closure_of_def inherits_from_def reachable_def rtrancl_eq_or_trancl)

lemma inherited_closure_declared:
  assumes "inherits_declared graph" and "role_inherits graph name = Some parents"
  shows "inherited_closure name graph = Some (sorted_list_of_set (closure_of graph name))"
proof -
  have "closure_loop graph {name} parents
      = Some (reachable (role_inherits graph) ({name} \<union> set parents))"
    using closure.loop_result [OF role_inherits_declared [OF assms] subset_refl
        declared_nodes_closed [OF assms(1)], of "{name}"] assms(2) by auto
  moreover have "reachable (role_inherits graph) ({name} \<union> set parents) = closure_of graph name"
    using reachable_insert_succs [of "role_inherits graph", OF assms(2), of "{}"]
      reachable_insert_succs [of "role_inherits graph", OF assms(2), of "set parents"]
    by (simp add: closure_of_reachable)
  ultimately show ?thesis using assms(2) by (simp add: inherited_closure_def)
qed

lemma closure_of_declared:
  assumes "inherits_declared graph" and "name \<in> dom (role_inherits graph)"
  shows "closure_of graph name \<subseteq> dom (role_inherits graph)"
proof -
  have "reachable (role_inherits graph) {name}
      \<subseteq> reachable (role_inherits graph) (dom (role_inherits graph))"
    using assms(2) by (intro reachable_mono) simp
  then show ?thesis
    using closed_under_reachable [OF declared_nodes_closed [OF assms(1)]]
    by (simp add: closure_of_reachable)
qed

lemma those_map_Some: "\<forall>x \<in> set xs. f x = Some (g x) \<Longrightarrow> those (map f xs) = Some (map g xs)"
  by (induction xs) simp_all

definition permissions_of :: "ApplicationPolicyGraph \<Rightarrow> string \<Rightarrow> string set" where
  "permissions_of graph name =
     {p. \<exists>r d. r \<in> closure_of graph name \<and> map_of (apg_roles graph) r = Some d
        \<and> p \<in> set (ard_permissions d)}"

lemma finite_closure_of:
  assumes "inherits_declared graph" and "name \<in> dom (role_inherits graph)"
  shows "finite (closure_of graph name)"
  using closure_of_declared [OF assms] finite_role_inherits by (rule finite_subset)

lemma effective_entry_declared:
  assumes decl: "inherits_declared graph" and name: "name \<in> dom (role_inherits graph)"
  shows "effective_entry graph name
    = Some (sorted_list_of_set (closure_of graph name), sorted_list_of_set (permissions_of graph name))"
proof -
  obtain parents where parents: "role_inherits graph name = Some parents" using name by auto
  let ?roles = "sorted_list_of_set (closure_of graph name)"
  let ?perms = "\<lambda>role. ard_permissions (the (map_of (apg_roles graph) role))"
  have roles: "set ?roles = closure_of graph name"
    using finite_closure_of [OF assms] by simp
  have known: "\<exists>d. map_of (apg_roles graph) r = Some d" if "r \<in> closure_of graph name" for r
  proof -
    have "r \<in> dom (role_inherits graph)" using closure_of_declared [OF assms] that by blast
    then show ?thesis by (auto simp: role_inherits_def)
  qed
  have "those (map (\<lambda>role. map_option ard_permissions (map_of (apg_roles graph) role)) ?roles)
      = Some (map ?perms ?roles)"
    using known roles by (intro those_map_Some) force
  moreover have "set (concat (map ?perms ?roles)) = permissions_of graph name"
    unfolding permissions_of_def using known roles by force
  then have "btree_set (concat (map ?perms ?roles)) = sorted_list_of_set (permissions_of graph name)"
    by (metis btree_set_def sorted_list_of_set_sort_remdups)
  ultimately show ?thesis
    by (simp add: effective_entry_def inherited_closure_declared [OF decl parents])
qed

definition effective_spec :: "ApplicationPolicyGraph \<Rightarrow> EffectiveApplicationPolicy" where
  "effective_spec graph =
     \<lparr>eap_effective_roles =
        map (\<lambda>name. (name, sorted_list_of_set (closure_of graph name))) (map fst (apg_roles graph)),
      eap_effective_permissions =
        map (\<lambda>name. (name, sorted_list_of_set (permissions_of graph name))) (map fst (apg_roles graph))\<rparr>"

lemma zip_maps: "zip (map f xs) (map g xs) = map (\<lambda>x. (f x, g x)) xs"
  by (induction xs) simp_all

lemma role_keys: "dom (role_inherits graph) = set (map fst (apg_roles graph))"
  by (auto simp: role_inherits_def dom_map_of_conv_image_fst [symmetric])

lemma expand_declared:
  assumes "inherits_declared graph"
  shows "expand graph = Some (effective_spec graph)"
proof -
  have "those (map (effective_entry graph) (map fst (apg_roles graph)))
      = Some (map (\<lambda>name. (sorted_list_of_set (closure_of graph name),
          sorted_list_of_set (permissions_of graph name))) (map fst (apg_roles graph)))"
    using effective_entry_declared [OF assms] by (intro those_map_Some) (simp add: role_keys)
  then show ?thesis
    by (simp add: expand_def effective_spec_def o_def zip_maps)
qed

section \<open>What validation accepts\<close>

text \<open>The policies an owner may approve, stated on the graph.\<close>

definition policy_ok :: "ApplicationPolicyGraph \<Rightarrow> bool" where
  "policy_ok graph \<longleftrightarrow>
     length (apg_roles graph) \<le> MAXIMUM_APPLICATION_POLICY_ROLES
     \<and> (\<forall>role. apg_default_role graph = Some role \<longrightarrow> map_of (apg_roles graph) role \<noteq> None)
     \<and> inherits_declared graph
     \<and> (\<forall>(name, d) \<in> set (apg_roles graph).
          role_name name
          \<and> length (ard_inherits d) \<le> MAXIMUM_DIRECT_INHERITED_ROLES
          \<and> length (ard_permissions d) \<le> MAXIMUM_DIRECT_ROLE_PERMISSIONS
          \<and> distinct (ard_inherits d) \<and> distinct (ard_permissions d)
          \<and> (\<forall>p \<in> set (ard_permissions d). permission p)
          \<and> \<not> inherits_from graph name name)"

lemma validate_roles_Ok_iff:
  "validate_roles graph roles = Some (Ok ()) \<longleftrightarrow>
     (\<forall>(name, d) \<in> set roles. role_rejected graph name d = Some False)"
  by (induction graph roles rule: validate_roles.induct) (auto split: option.split bool.split)

lemma role_rejected_False_iff:
  "role_rejected graph name d = Some False \<longleftrightarrow>
     role_name name
     \<and> length (ard_inherits d) \<le> MAXIMUM_DIRECT_INHERITED_ROLES
     \<and> length (ard_permissions d) \<le> MAXIMUM_DIRECT_ROLE_PERMISSIONS
     \<and> distinct (ard_inherits d) \<and> distinct (ard_permissions d)
     \<and> (\<forall>i \<in> set (ard_inherits d). map_of (apg_roles graph) i \<noteq> None)
     \<and> (\<forall>p \<in> set (ard_permissions d). permission p)
     \<and> has_cycle name graph = Some False"
  by (auto simp: role_rejected_def unique_iff list_ex_iff not_less)

lemma validate_graph_Ok_iff: "validate_graph graph = Some (Ok ()) \<longleftrightarrow> policy_ok graph"
proof -
  have cycle: "has_cycle name graph = Some False \<longleftrightarrow> \<not> inherits_from graph name name"
    if "inherits_declared graph" "(name, d) \<in> set (apg_roles graph)" for name d
  proof -
    have "name \<in> dom (role_inherits graph)" unfolding role_keys using that(2) by force
    then show ?thesis using has_cycle_declared [OF that(1)] by auto
  qed
  have decl: "inherits_declared graph \<longleftrightarrow>
      (\<forall>(name, d) \<in> set (apg_roles graph). \<forall>i \<in> set (ard_inherits d). map_of (apg_roles graph) i \<noteq> None)"
    by (simp add: inherits_declared_def list_all_iff)
  have "validate_roles graph (apg_roles graph) = Some (Ok ()) \<longleftrightarrow>
      inherits_declared graph
      \<and> (\<forall>(name, d) \<in> set (apg_roles graph). role_rejected graph name d = Some False)"
    unfolding validate_roles_Ok_iff decl role_rejected_False_iff by blast
  also have "\<dots> \<longleftrightarrow> inherits_declared graph
      \<and> (\<forall>(name, d) \<in> set (apg_roles graph).
          role_name name
          \<and> length (ard_inherits d) \<le> MAXIMUM_DIRECT_INHERITED_ROLES
          \<and> length (ard_permissions d) \<le> MAXIMUM_DIRECT_ROLE_PERMISSIONS
          \<and> distinct (ard_inherits d) \<and> distinct (ard_permissions d)
          \<and> (\<forall>p \<in> set (ard_permissions d). permission p)
          \<and> \<not> inherits_from graph name name)"
    unfolding role_rejected_False_iff using cycle decl by (intro conj_cong refl ball_cong) auto
  finally show ?thesis
    by (auto simp: validate_graph_def policy_ok_def split: option.splits)
qed

lemma canonical_role_lookup:
  "map_of (apg_roles (canonicalize_direct_arrays graph)) name
     = map_option canonicalize_definition (map_of (apg_roles graph) name)"
  by (simp add: canonicalize_direct_arrays_def map_of_map)

lemma canonical_edges:
  "edges (role_inherits (canonicalize_direct_arrays graph)) = edges (role_inherits graph)"
  by (auto simp: edges_def role_inherits_def canonical_role_lookup canonicalize_definition_def)

lemma canonical_closure:
  "inherits_from (canonicalize_direct_arrays graph) = inherits_from graph"
  "closure_of (canonicalize_direct_arrays graph) = closure_of graph"
  "permissions_of (canonicalize_direct_arrays graph) = permissions_of graph"
proof -
  show inh: "inherits_from (canonicalize_direct_arrays graph) = inherits_from graph"
    by (intro ext) (simp add: inherits_from_def canonical_edges)
  show "closure_of (canonicalize_direct_arrays graph) = closure_of graph"
    by (intro ext) (simp add: closure_of_def inh)
  then show "permissions_of (canonicalize_direct_arrays graph) = permissions_of graph"
    by (intro ext) (auto simp: permissions_of_def canonical_role_lookup canonicalize_definition_def)
qed

lemma canonical_keys: "map fst (apg_roles (canonicalize_direct_arrays graph)) = map fst (apg_roles graph)"
  by (auto simp: canonicalize_direct_arrays_def)

lemma canonical_policy_ok: "policy_ok (canonicalize_direct_arrays graph) \<longleftrightarrow> policy_ok graph"
proof -
  have roles: "apg_roles (canonicalize_direct_arrays graph)
      = map (\<lambda>(name, d). (name, canonicalize_definition d)) (apg_roles graph)"
    by (simp add: canonicalize_direct_arrays_def)
  have "inherits_declared (canonicalize_direct_arrays graph) \<longleftrightarrow> inherits_declared graph"
    unfolding inherits_declared_def canonical_role_lookup
    by (auto simp: roles list_all_iff canonicalize_definition_def)
  then show ?thesis
    unfolding policy_ok_def canonical_closure canonical_role_lookup
    by (auto simp: roles canonicalize_definition_def canonicalize_direct_arrays_def)
qed

lemma canonicalize_ok:
  assumes "policy_ok graph"
  shows "canonicalize_application_policy graph
    = Some (Ok \<lparr>cap_graph = canonicalize_direct_arrays graph, cap_effective = effective_spec graph\<rparr>)"
proof -
  have "inherits_declared (canonicalize_direct_arrays graph)"
    using assms canonical_policy_ok policy_ok_def by blast
  moreover have "effective_spec (canonicalize_direct_arrays graph) = effective_spec graph"
    by (simp only: effective_spec_def canonical_closure canonical_keys)
  ultimately show ?thesis
    using assms validate_graph_Ok_iff [of graph]
    by (simp add: canonicalize_application_policy_def Let_def expand_declared)
qed

lemma canonicalize_Ok_D:
  assumes "canonicalize_application_policy graph = Some (Ok c)"
  shows "policy_ok graph
    \<and> c = \<lparr>cap_graph = canonicalize_direct_arrays graph, cap_effective = effective_spec graph\<rparr>"
proof -
  have "policy_ok graph"
    using assms validate_graph_Ok_iff [of graph]
    by (auto simp: canonicalize_application_policy_def split: option.split_asm sum.split_asm)
  with assms canonicalize_ok show ?thesis by simp
qed

lemma canonicalize_direct_arrays_idem:
  "canonicalize_direct_arrays (canonicalize_direct_arrays graph) = canonicalize_direct_arrays graph"
  by (simp add: canonicalize_direct_arrays_def canonicalize_definition_def split_def o_def
      sorted_sort_id)

lemma effective_spec_canonical: "effective_spec (canonicalize_direct_arrays graph) = effective_spec graph"
  by (simp only: effective_spec_def canonical_closure canonical_keys)

text \<open>With declared inheritance every lookup of the walk succeeds.\<close>

lemma validate_roles_declared:
  assumes "inherits_declared graph"
  shows "set roles \<subseteq> set (apg_roles graph) \<Longrightarrow> validate_roles graph roles \<noteq> None"
proof (induction roles)
  case (Cons entry roles)
  obtain name d where entry: "entry = (name, d)" by force
  have "name \<in> dom (role_inherits graph)" unfolding role_keys using Cons.prems entry by force
  then have "has_cycle name graph \<noteq> None" using has_cycle_declared [OF assms] by auto
  then have "role_rejected graph name d \<noteq> None" unfolding role_rejected_def by auto
  with Cons show ?case by (auto simp: entry split: bool.split)
qed simp

lemma canonicalize_declared:
  assumes "inherits_declared graph"
  shows "canonicalize_application_policy graph \<noteq> None"
proof (cases "policy_ok graph")
  case True
  then show ?thesis by (simp add: canonicalize_ok)
next
  case False
  then have "validate_graph graph \<noteq> Some (Ok ())" by (simp add: validate_graph_Ok_iff)
  moreover have "validate_graph graph \<noteq> None"
    using validate_roles_declared [OF assms] by (simp add: validate_graph_def)
  ultimately show ?thesis
    by (auto simp: canonicalize_application_policy_def split: option.split sum.split)
qed

section \<open>Properties\<close>

text \<open>A two-role policy, used by the witnesses.\<close>

definition sample_policy :: ApplicationPolicyGraph where
  "sample_policy =
     \<lparr>apg_default_role = Some ''member'',
      apg_roles =
        [(''admin'', \<lparr>ard_inherits = [''member''], ard_permissions = [''notes.write'']\<rparr>),
         (''member'', \<lparr>ard_inherits = [], ard_permissions = [''notes.read'']\<rparr>)]\<rparr>"

lemma sample_policy_accepted:
  "canonicalize_application_policy sample_policy
     = Some (Ok \<lparr>cap_graph = sample_policy,
         cap_effective =
           \<lparr>eap_effective_roles = [(''admin'', [''admin'', ''member'']), (''member'', [''member''])],
            eap_effective_permissions =
              [(''admin'', [''notes.read'', ''notes.write'']), (''member'', [''notes.read''])]\<rparr>\<rparr>)"
  by code_simp

text \<open>C38. Validation accepts exactly the well-formed policies: at most 32 roles with valid
  names, a declared default role, direct arrays within their limits and free of duplicates,
  valid permissions, only declared inheritance, and no role that inherits from itself through
  any chain. Every other graph is refused or stops the walk.\<close>

theorem policy_accepted_iff:
  "(\<exists>c. canonicalize_application_policy graph = Some (Ok c)) \<longleftrightarrow> policy_ok graph"
  using canonicalize_ok canonicalize_Ok_D by blast

text \<open>The precomputed closure is the transitive closure: for each declared role, in key
  order, the effective roles are the sorted list of the role and everything it inherits from
  through any chain, and the effective permissions are the sorted union of the direct
  permissions of those roles.\<close>

theorem policy_closure_is_transitive:
  assumes "canonicalize_application_policy graph = Some (Ok c)"
  shows "cap_effective c =
     \<lparr>eap_effective_roles = map (\<lambda>name. (name,
          sorted_list_of_set (insert name {r. inherits_from graph name r}))) (map fst (apg_roles graph)),
      eap_effective_permissions = map (\<lambda>name. (name,
          sorted_list_of_set {p. \<exists>r d. (r = name \<or> inherits_from graph name r)
             \<and> map_of (apg_roles graph) r = Some d \<and> p \<in> set (ard_permissions d)}))
          (map fst (apg_roles graph))\<rparr>"
proof -
  have "cap_effective c = effective_spec graph" using canonicalize_Ok_D [OF assms] by simp
  then show ?thesis by (simp add: effective_spec_def closure_of_def permissions_of_def)
qed

theorem policy_closure_is_transitive_witness:
  "sorted_list_of_set (insert ''admin'' {r. inherits_from sample_policy ''admin'' r})
     = [''admin'', ''member'']"
  using policy_closure_is_transitive [OF sample_policy_accepted]
  by (simp add: sample_policy_def)

text \<open>Canonicalization is idempotent: the canonical graph of an accepted policy is accepted
  again and yields the same graph and the same closure.\<close>

theorem policy_canonical_fixpoint:
  assumes "canonicalize_application_policy graph = Some (Ok c)"
  shows "canonicalize_application_policy (cap_graph c) = Some (Ok c)"
proof -
  have c: "c = \<lparr>cap_graph = canonicalize_direct_arrays graph, cap_effective = effective_spec graph\<rparr>"
    and "policy_ok graph" using canonicalize_Ok_D [OF assms] by simp_all
  then have "policy_ok (cap_graph c)" by (simp add: canonical_policy_ok)
  from canonicalize_ok [OF this] show ?thesis
    by (simp add: c canonicalize_direct_arrays_idem effective_spec_canonical)
qed

theorem policy_canonical_fixpoint_witness:
  "\<exists>c. canonicalize_application_policy sample_policy = Some (Ok c)
     \<and> canonicalize_application_policy (cap_graph c) = Some (Ok c)"
  using sample_policy_accepted policy_canonical_fixpoint [OF sample_policy_accepted] by blast

text \<open>C39. A policy whose inheritance is declared never stops the walk: it is canonicalized or
  refused with the module's error. Without that, the cycle check of an earlier role indexes a
  role that a later role inherits from without declaring it, and panics: \<^verbatim>\<open>alpha\<close> inherits
  \<^verbatim>\<open>beta\<close>, \<^verbatim>\<open>beta\<close> inherits the undeclared \<^verbatim>\<open>zeta\<close>.\<close>

theorem policy_panics_only_undeclared:
  "(inherits_declared graph \<longrightarrow> canonicalize_application_policy graph \<noteq> None)
   \<and> canonicalize_application_policy
       \<lparr>apg_default_role = None,
        apg_roles = [(''alpha'', \<lparr>ard_inherits = [''beta''], ard_permissions = []\<rparr>),
                     (''beta'', \<lparr>ard_inherits = [''zeta''], ard_permissions = []\<rparr>)]\<rparr> = None"
proof (intro conjI impI)
  assume "inherits_declared graph"
  then show "canonicalize_application_policy graph \<noteq> None" by (rule canonicalize_declared)
next
  show "canonicalize_application_policy
       \<lparr>apg_default_role = None,
        apg_roles = [(''alpha'', \<lparr>ard_inherits = [''beta''], ard_permissions = []\<rparr>),
                     (''beta'', \<lparr>ard_inherits = [''zeta''], ard_permissions = []\<rparr>)]\<rparr> = None"
    by code_simp
qed

theorem policy_panics_only_undeclared_witness:
  "inherits_declared sample_policy \<and> canonicalize_application_policy sample_policy \<noteq> None"
proof -
  have "inherits_declared sample_policy" by code_simp
  with policy_panics_only_undeclared [of sample_policy] show ?thesis by blast
qed

end
