(* ===== verification/Manifest_Types.thy ===== *)
theory Manifest_Types
  imports Prelude
begin

text \<open>
  The data of the application manifest: \<^verbatim>\<open>application_manifest/types.rs\<close>, \<^verbatim>\<open>resources.rs\<close>,
  \<^verbatim>\<open>error.rs\<close> and the capability counts of \<^verbatim>\<open>mod.rs\<close>. An optional vector is an option of a
  list, the role map is the list of its entries in key order.
\<close>

datatype ApplicationRuntime = BlobyardJs1

fun application_runtime_as_str :: "ApplicationRuntime \<Rightarrow> string" where
  "application_runtime_as_str BlobyardJs1 = ''blobyard-js-1''"

record ManifestApplication =
  ma_name :: string
  ma_runtime :: ApplicationRuntime

record ManifestFrontend =
  mff_directory :: string
  mff_spa_fallback :: "bool option"
  mff_clean_urls :: "bool option"

record ManifestRole =
  mr_inherits :: "string list option"
  mr_permissions :: "string list option"

record ManifestAuth =
  mau_default_role :: "string option"
  mau_roles :: "(string \<times> ManifestRole) list option"

record ManifestDatabase =
  md_migrations :: string

datatype BucketVisibility = Private | PublicRead

record Bucket =
  bk_name :: string
  bk_visibility :: "BucketVisibility option"
  bk_max_object_size :: "string option"

datatype FunctionType = Rpc | Http | Webhook | Event | Scheduled | Queue

datatype DatabaseAccess = NoAccess | Read | ReadWrite

record Function =
  fn_name :: string
  fn_entry :: string
  fn_function_type :: FunctionType
  fn_permissions :: "string list option"
  fn_database :: "DatabaseAccess option"
  fn_buckets :: "string list option"
  fn_secrets :: "string list option"
  fn_network :: "string list option"
  fn_email :: "bool option"
  fn_event :: "string option"
  fn_queue :: "string option"

datatype Backoff = Fixed | Exponential

record Retry =
  rt_max_attempts :: "nat option"
  rt_backoff :: "Backoff option"

record Job =
  job_name :: string
  job_function :: string
  job_schedule :: string
  job_timezone :: string
  job_retry :: "Retry option"

datatype HttpMethod = GET | HEAD | POST | PUT | PATCH | DELETE

datatype RouteAuth = AuthRequired | AuthPublic

record Route =
  route_path_of :: string
  route_method :: HttpMethod
  route_function :: string
  route_auth :: "RouteAuth option"

datatype FunctionClass = Standard

record Limits =
  lim_function_class :: "FunctionClass option"
  lim_function_timeout :: "string option"
  lim_concurrency :: "nat option"

record Health =
  hl_function :: string
  hl_timeout :: "string option"

record ApplicationManifest =
  am_schema_version :: nat
  am_application :: ManifestApplication
  am_frontend :: "ManifestFrontend option"
  am_auth :: "ManifestAuth option"
  am_database :: "ManifestDatabase option"
  am_buckets :: "Bucket list option"
  am_functions :: "Function list option"
  am_jobs :: "Job list option"
  am_routes :: "Route list option"
  am_limits :: "Limits option"
  am_health :: "Health option"

section \<open>Errors\<close>

record ManifestError =
  me_path :: string
  me_message :: string

definition manifest_error_new :: "string \<Rightarrow> string \<Rightarrow> ManifestError" where
  "manifest_error_new path message = \<lparr>me_path = path, me_message = message\<rparr>"

definition display_manifest_error :: "ManifestError \<Rightarrow> string" where
  "display_manifest_error e = me_path e @ '': '' @ me_message e"

datatype ManifestErrors = ManifestErrors (errors: "ManifestError list")

definition manifest_errors_one :: "string \<Rightarrow> string \<Rightarrow> ManifestErrors" where
  "manifest_errors_one path message = ManifestErrors [manifest_error_new path message]"

definition display_manifest_errors :: "ManifestErrors \<Rightarrow> string" where
  "display_manifest_errors es =
     concat (map (\<lambda>(index, error). (if index > 0 then [CHR 0x0A] else []) @ display_manifest_error error)
       (enumerated (errors es)))"

section \<open>Capability counts\<close>

text \<open>\<^verbatim>\<open>option.as_deref().unwrap_or_default()\<close>\<close>

fun unwrap_or_default :: "'a list option \<Rightarrow> 'a list" where
  "unwrap_or_default None = []"
| "unwrap_or_default (Some xs) = xs"

record ManifestCapabilityCounts =
  mcc_roles :: nat
  mcc_databases :: nat
  mcc_buckets :: nat
  mcc_functions :: nat
  mcc_jobs :: nat
  mcc_routes :: nat
  mcc_secrets :: nat
  mcc_network_targets :: nat
  mcc_email_functions :: nat

definition distinct_count :: "Function list \<Rightarrow> (Function \<Rightarrow> string list option) \<Rightarrow> nat" where
  "distinct_count functions select =
     length (btree_set (concat (List.map_filter select functions)))"

definition declared_roles :: "ApplicationManifest \<Rightarrow> (string \<times> ManifestRole) list option" where
  "declared_roles manifest = Option.bind (am_auth manifest) mau_roles"

definition capability_counts :: "ApplicationManifest \<Rightarrow> ManifestCapabilityCounts" where
  "capability_counts manifest =
     (let functions = unwrap_or_default (am_functions manifest)
      in \<lparr>mcc_roles = (case declared_roles manifest of None \<Rightarrow> 0 | Some roles \<Rightarrow> length roles),
          mcc_databases = (if am_database manifest \<noteq> None then 1 else 0),
          mcc_buckets = (case am_buckets manifest of None \<Rightarrow> 0 | Some buckets \<Rightarrow> length buckets),
          mcc_functions = length functions,
          mcc_jobs = (case am_jobs manifest of None \<Rightarrow> 0 | Some jobs \<Rightarrow> length jobs),
          mcc_routes = (case am_routes manifest of None \<Rightarrow> 0 | Some routes \<Rightarrow> length routes),
          mcc_secrets = distinct_count functions fn_secrets,
          mcc_network_targets = distinct_count functions fn_network,
          mcc_email_functions = length (filter (\<lambda>f. fn_email f = Some True) functions)\<rparr>)"

section \<open>Lemmas\<close>

lemma set_map_filter: "set (List.map_filter f xs) = {y. \<exists>x \<in> set xs. f x = Some y}"
  by (induction xs) (auto simp: List.map_filter_simps split: option.split)

lemma in_unwrap_or_default: "s \<in> set (unwrap_or_default v) \<longleftrightarrow> (\<exists>xs. v = Some xs \<and> s \<in> set xs)"
  by (cases v) auto

lemma distinct_count_card:
  "distinct_count functions select
     = card {s. \<exists>f \<in> set functions. s \<in> set (unwrap_or_default (select f))}"
proof -
  have "set (concat (List.map_filter select functions))
      = {s. \<exists>f \<in> set functions. s \<in> set (unwrap_or_default (select f))}"
    by (auto simp: set_map_filter in_unwrap_or_default)
  then show ?thesis by (simp add: distinct_count_def length_btree_set)
qed

end
