(* ===== verification/Manifest_Cross.thy ===== *)
theory Manifest_Cross
  imports Application_Policy Manifest_Types
begin

text \<open>
  The cross-field contract of the application manifest: \<^verbatim>\<open>application_manifest/cross.rs\<close> and
  \<^verbatim>\<open>cross_roles.rs\<close>. Each source function pushes onto a vector of errors; here it returns the
  errors it pushes, in order, and \<open>validate\<close> concatenates them in call order. The time zone
  database is the parameter \<open>iana_name\<close>: the canonical name that \<^verbatim>\<open>jiff::tz::TimeZone::get\<close>
  reports for an identifier, if it knows it.
\<close>

section \<open>Roles\<close>

definition reference :: "bool \<Rightarrow> string \<Rightarrow> string \<Rightarrow> ManifestError list" where
  "reference declared path name =
     (if declared then []
      else [manifest_error_new path (''references undeclared role `'' @ name @ ''`'')])"

definition manifest_inherits :: "(string \<times> ManifestRole) list \<Rightarrow> string \<Rightarrow> string list option" where
  "manifest_inherits roles name =
     map_option (\<lambda>role. unwrap_or_default (mr_inherits role)) (map_of roles name)"

definition inherits_errors ::
  "string \<Rightarrow> ManifestRole \<Rightarrow> (string \<times> ManifestRole) list \<Rightarrow> ManifestError list" where
  "inherits_errors name role roles =
     concat (map (\<lambda>(index, inherited).
         reference (map_of roles inherited \<noteq> None)
           (''auth.roles.'' @ name @ ''.inherits['' @ show_nat index @ '']'') inherited)
       (enumerated (unwrap_or_default (mr_inherits role))))"

text \<open>The recursive cycle check. \<open>cycle_any\<close> is the closure passed to \<^verbatim>\<open>any\<close>, which threads the
  visited set through the recursive calls and through the remaining parents.\<close>

function (sequential) cycle_any :: "(string \<times> ManifestRole) list \<Rightarrow> string \<Rightarrow> string list \<Rightarrow> string set
    \<Rightarrow> bool \<times> string set" where
  "cycle_any roles origin [] visited = (False, visited)"
| "cycle_any roles origin (parent # rest) visited =
     (if parent = origin then (True, visited)
      else if parent \<in> visited then cycle_any roles origin rest visited
      else (case manifest_inherits roles parent of
          None \<Rightarrow> cycle_any roles origin rest (insert parent visited)
        | Some parents \<Rightarrow>
            (let r = cycle_any roles origin parents (insert parent visited)
             in if fst r then r else cycle_any roles origin rest (snd r))))"
  by pat_completeness auto

lemma cycle_any_grows:
  assumes "cycle_any_dom (roles, origin, parents, visited)"
  shows "visited \<subseteq> snd (cycle_any roles origin parents visited)"
  using assms
proof (induction rule: cycle_any.pinduct)
  case (1 roles origin visited)
  then show ?case by (simp add: cycle_any.psimps)
next
  case (2 roles origin parent rest visited)
  show ?case
  proof (cases "manifest_inherits roles parent")
    case None
    with 2 show ?thesis by (auto simp: cycle_any.psimps)
  next
    case (Some parents)
    obtain a b where r: "cycle_any roles origin parents (insert parent visited) = (a, b)" by force
    have "insert parent visited \<subseteq> b" if "parent \<noteq> origin" "parent \<notin> visited"
      using 2(4) [OF that Some] by (simp add: r)
    moreover have "b \<subseteq> snd (cycle_any roles origin rest b)"
      if "parent \<noteq> origin" "parent \<notin> visited" "\<not> a"
      using 2(5) [OF that(1,2) Some r [symmetric]] that(3) by (simp add: r)
    ultimately show ?thesis using 2(1,2) Some by (auto simp: cycle_any.psimps Let_def r)
  qed
qed

lemma finite_manifest_inherits: "finite (dom (manifest_inherits roles))"
proof -
  have "dom (manifest_inherits roles) = dom (map_of roles)"
    by (auto simp: manifest_inherits_def dom_def)
  then show ?thesis by (simp add: finite_dom_map_of)
qed

lemma unvisited_card_mono:
  "v \<subseteq> w \<Longrightarrow> card (dom (manifest_inherits roles) - w) \<le> card (dom (manifest_inherits roles) - v)"
  using finite_manifest_inherits by (intro card_mono) auto

lemma unvisited_card_less:
  "manifest_inherits roles p = Some ps \<Longrightarrow> p \<notin> v \<Longrightarrow>
     card (dom (manifest_inherits roles) - insert p v) < card (dom (manifest_inherits roles) - v)"
  using finite_manifest_inherits [of roles] by (intro psubset_card_mono) auto

termination cycle_any
proof (relation "measures [\<lambda>(roles, origin, parents, visited).
      card (dom (manifest_inherits roles) - visited),
    \<lambda>(roles, origin, parents, visited). length parents]")
  show "wf (measures [\<lambda>(roles, origin, parents, visited). card (dom (manifest_inherits roles) - visited),
    \<lambda>(roles, origin, parents, visited). length parents])" by simp
next
  fix roles origin visited and parent :: string and rest
  assume "parent \<noteq> origin" and "parent \<notin> visited" and "manifest_inherits roles parent = None"
  show "((roles, origin, rest, insert parent visited), (roles, origin, parent # rest, visited))
     \<in> measures [\<lambda>(roles, origin, parents, visited). card (dom (manifest_inherits roles) - visited),
    \<lambda>(roles, origin, parents, visited). length parents]"
    using unvisited_card_mono [OF subset_insertI, of roles parent visited] by auto
next
  fix roles origin visited and parent :: string and rest parents r
  assume new: "parent \<notin> visited" and some: "manifest_inherits roles parent = Some parents"
    and r: "r = cycle_any roles origin parents (insert parent visited)"
    and dom: "cycle_any_dom (roles, origin, parents, insert parent visited)"
  have "insert parent visited \<subseteq> snd r" unfolding r by (rule cycle_any_grows [OF dom])
  then have "card (dom (manifest_inherits roles) - snd r)
      \<le> card (dom (manifest_inherits roles) - insert parent visited)"
    by (rule unvisited_card_mono)
  with unvisited_card_less [OF some new]
  show "((roles, origin, rest, snd r), (roles, origin, parent # rest, visited))
     \<in> measures [\<lambda>(roles, origin, parents, visited). card (dom (manifest_inherits roles) - visited),
    \<lambda>(roles, origin, parents, visited). length parents]"
    by simp
qed (auto dest: unvisited_card_less)

definition role_has_cycle ::
  "string \<Rightarrow> string \<Rightarrow> (string \<times> ManifestRole) list \<Rightarrow> string set \<Rightarrow> bool \<times> string set" where
  "role_has_cycle origin current roles visited =
     (case manifest_inherits roles current of
        None \<Rightarrow> (False, visited)
      | Some parents \<Rightarrow> cycle_any roles origin parents visited)"

definition function_permissions ::
  "ApplicationManifest \<Rightarrow> (string \<times> ManifestRole) list \<Rightarrow> ManifestError list" where
  "function_permissions manifest roles =
     (let declared = set (concat (List.map_filter (\<lambda>(name, role). mr_permissions role) roles))
      in concat (map (\<lambda>(function_index, function).
           concat (map (\<lambda>(permission_index, p).
               if p \<in> declared then []
               else [manifest_error_new
                 (''functions['' @ show_nat function_index @ ''].permissions['' @ show_nat permission_index @ '']'')
                 (''permission `'' @ p @ ''` is not declared by any auth role'')])
             (enumerated (unwrap_or_default (fn_permissions function)))))
         (enumerated (unwrap_or_default (am_functions manifest)))))"

definition cross_roles_validate :: "ApplicationManifest \<Rightarrow> ManifestError list" where
  "cross_roles_validate manifest =
     (let roles = unwrap_or_default (declared_roles manifest)
      in (case Option.bind (am_auth manifest) mau_default_role of
            None \<Rightarrow> []
          | Some default_role \<Rightarrow>
              reference (map_of roles default_role \<noteq> None) ''auth.default_role'' default_role)
         @ concat (map (\<lambda>(name, role).
               inherits_errors name role roles
               @ (if fst (role_has_cycle name name roles {})
                  then [manifest_error_new (''auth.roles.'' @ name @ ''.inherits'')
                          ''inheritance must be acyclic'']
                  else [])) roles)
         @ function_permissions manifest roles)"

section \<open>References, triggers, routes and schedules\<close>

definition referenced :: "bool \<Rightarrow> string \<Rightarrow> string \<Rightarrow> string \<Rightarrow> ManifestError list" where
  "referenced declared path kind name =
     (if declared then []
      else [manifest_error_new path (''references undeclared '' @ kind @ '' `'' @ name @ ''`'')])"

definition job_reference :: "Function list \<Rightarrow> nat \<Rightarrow> Job \<Rightarrow> ManifestError list" where
  "job_reference functions index job =
     (let matching = filter (\<lambda>f. fn_name f = job_function job) functions;
          path = ''jobs['' @ show_nat index @ ''].function''
      in referenced (matching \<noteq> []) path ''function'' (job_function job)
         @ (if matching \<noteq> [] \<and> \<not> list_ex (\<lambda>f. fn_function_type f = Scheduled) matching
            then [manifest_error_new path ''must reference a scheduled function''] else []))"

definition function_references :: "ApplicationManifest \<Rightarrow> ManifestError list" where
  "function_references manifest =
     (let functions = unwrap_or_default (am_functions manifest)
      in concat (map (\<lambda>(index, job). job_reference functions index job)
             (enumerated (unwrap_or_default (am_jobs manifest))))
         @ concat (map (\<lambda>(index, route).
               referenced (list_ex (\<lambda>f. fn_name f = route_function route) functions)
                 (''routes['' @ show_nat index @ ''].function'') ''function'' (route_function route))
             (enumerated (unwrap_or_default (am_routes manifest))))
         @ (case am_health manifest of
              None \<Rightarrow> []
            | Some health \<Rightarrow>
                referenced (list_ex (\<lambda>f. fn_name f = hl_function health) functions)
                  ''health.function'' ''function'' (hl_function health)))"

definition grant_bucket :: "string \<Rightarrow> string" where
  "grant_bucket grant = (case split_once CHR '':'' grant of None \<Rightarrow> grant | Some (name, _) \<Rightarrow> name)"

definition uses_database :: "Function \<Rightarrow> bool" where
  "uses_database f \<longleftrightarrow> fn_database f = Some Read \<or> fn_database f = Some ReadWrite"

definition resource_references :: "ApplicationManifest \<Rightarrow> ManifestError list" where
  "resource_references manifest =
     (let buckets = set (map bk_name (unwrap_or_default (am_buckets manifest)))
      in concat (map (\<lambda>(function_index, function).
           concat (map (\<lambda>(grant_index, grant).
               referenced (grant_bucket grant \<in> buckets)
                 (''functions['' @ show_nat function_index @ ''].buckets['' @ show_nat grant_index @ '']'')
                 ''bucket'' (grant_bucket grant))
             (enumerated (unwrap_or_default (fn_buckets function))))
           @ (if uses_database function \<and> am_database manifest = None
              then [manifest_error_new (''functions['' @ show_nat function_index @ ''].database'')
                      ''database access requires a database section'']
              else []))
         (enumerated (unwrap_or_default (am_functions manifest)))))"

definition required_trigger :: "bool \<Rightarrow> nat \<Rightarrow> string \<Rightarrow> ManifestError list" where
  "required_trigger present index field =
     (if present then []
      else [manifest_error_new (''functions['' @ show_nat index @ ''].'' @ field)
              (''is required for a '' @ field @ '' function'')])"

definition forbidden_trigger :: "bool \<Rightarrow> nat \<Rightarrow> string \<Rightarrow> ManifestError list" where
  "forbidden_trigger present index field =
     (if present
      then [manifest_error_new (''functions['' @ show_nat index @ ''].'' @ field)
              ''is not allowed for this function type'']
      else [])"

definition function_triggers :: "nat \<Rightarrow> Function \<Rightarrow> ManifestError list" where
  "function_triggers index f =
     (case fn_function_type f of
        Event \<Rightarrow> required_trigger (fn_event f \<noteq> None) index ''event''
                 @ forbidden_trigger (fn_queue f \<noteq> None) index ''queue''
      | Queue \<Rightarrow> required_trigger (fn_queue f \<noteq> None) index ''queue''
                 @ forbidden_trigger (fn_event f \<noteq> None) index ''event''
      | _ \<Rightarrow> forbidden_trigger (fn_event f \<noteq> None) index ''event''
             @ forbidden_trigger (fn_queue f \<noteq> None) index ''queue'')"

definition triggers :: "ApplicationManifest \<Rightarrow> ManifestError list" where
  "triggers manifest =
     concat (map (\<lambda>(index, f). function_triggers index f)
       (enumerated (unwrap_or_default (am_functions manifest))))"

fun routes_from :: "(HttpMethod \<times> string) list \<Rightarrow> (nat \<times> Route) list \<Rightarrow> ManifestError list" where
  "routes_from declared [] = []"
| "routes_from declared ((index, route) # rest) =
     (let key = (route_method route, route_path_of route)
      in if key \<in> set declared
         then manifest_error_new (''routes['' @ show_nat index @ ''].path'')
                ''route path must be unique for its method'' # routes_from declared rest
         else routes_from (key # declared) rest)"

definition routes :: "ApplicationManifest \<Rightarrow> ManifestError list" where
  "routes manifest = routes_from [] (enumerated (unwrap_or_default (am_routes manifest)))"

definition job_schedule_errors :: "(string \<Rightarrow> string option) \<Rightarrow> nat \<Rightarrow> Job \<Rightarrow> ManifestError list" where
  "job_schedule_errors iana_name index job =
     (if cron_valid (job_schedule job) then []
      else [manifest_error_new (''jobs['' @ show_nat index @ ''].schedule'')
              ''must be a valid five-field cron expression''])
     @ (if iana_name (job_timezone job) \<noteq> Some (job_timezone job)
        then [manifest_error_new (''jobs['' @ show_nat index @ ''].timezone'')
                ''must be a canonical IANA timezone identifier'']
        else [])"

definition schedules :: "(string \<Rightarrow> string option) \<Rightarrow> ApplicationManifest \<Rightarrow> ManifestError list" where
  "schedules iana_name manifest =
     concat (map (\<lambda>(index, job). job_schedule_errors iana_name index job)
       (enumerated (unwrap_or_default (am_jobs manifest))))"

definition cross_validate :: "(string \<Rightarrow> string option) \<Rightarrow> ApplicationManifest \<Rightarrow> ManifestError list" where
  "cross_validate iana_name manifest =
     cross_roles_validate manifest @ function_references manifest @ resource_references manifest
     @ triggers manifest @ routes manifest @ schedules iana_name manifest"

section \<open>The recursive search computes reachability\<close>

lemma cycle_any_found:
  "fst (cycle_any roles origin ps visited) \<Longrightarrow>
     origin \<in> reachable (manifest_inherits roles) (set ps)"
proof (induction roles origin ps visited rule: cycle_any.induct)
  case (2 roles origin parent rest visited)
  let ?E = "manifest_inherits roles"
  have here: "parent \<in> reachable ?E (set (parent # rest))"
    using reachable_base by fastforce
  have tail: "reachable ?E (set rest) \<subseteq> reachable ?E (set (parent # rest))"
    by (rule reachable_mono) auto
  show ?case
  proof (cases "parent = origin \<or> parent \<in> visited")
    case True
    with 2 here tail show ?thesis by (auto split: if_split_asm)
  next
    case new: False
    show ?thesis
    proof (cases "?E parent")
      case None
      with 2 new tail show ?thesis by auto
    next
      case (Some parents)
      obtain a b where r: "cycle_any roles origin parents (insert parent visited) = (a, b)" by force
      have "reachable ?E (set (parent # rest)) = insert parent (reachable ?E (set rest \<union> set parents))"
        using reachable_insert_succs [of ?E, OF Some, of "set rest"] by simp
      then have up: "reachable ?E (set parents) \<subseteq> reachable ?E (set (parent # rest))"
        using reachable_mono [of "set parents" "set rest \<union> set parents" ?E] by auto
      show ?thesis
      proof (cases a)
        case True
        then have "origin \<in> reachable ?E (set parents)"
          using 2(3) [of parents] new Some r by simp
        with up show ?thesis by blast
      next
        case False
        then have "fst (cycle_any roles origin rest b)" using "2.prems" new Some r by simp
        then have "origin \<in> reachable ?E (set rest)"
          using 2(4) [OF _ _ Some refl] new r False by simp
        with tail show ?thesis by blast
      qed
    qed
  qed
qed simp

text \<open>A search that finds nothing leaves the visited set closed on what it added.\<close>

lemma cycle_any_not_found:
  "\<not> fst (cycle_any roles origin ps visited) \<Longrightarrow>
     visited \<union> set ps \<subseteq> snd (cycle_any roles origin ps visited)
     \<and> (origin \<in> snd (cycle_any roles origin ps visited) \<longrightarrow> origin \<in> visited)
     \<and> (\<forall>x \<in> snd (cycle_any roles origin ps visited) - visited. \<forall>ys.
          manifest_inherits roles x = Some ys \<longrightarrow> set ys \<subseteq> snd (cycle_any roles origin ps visited))"
proof (induction roles origin ps visited rule: cycle_any.induct)
  case (2 roles origin parent rest visited)
  show ?case
  proof (cases "parent \<in> visited")
    case True
    with 2 show ?thesis by (auto split: if_split_asm)
  next
    case new: False
    have ne: "parent \<noteq> origin" using "2.prems" by auto
    show ?thesis
    proof (cases "manifest_inherits roles parent")
      case None
      obtain c d where t: "cycle_any roles origin rest (insert parent visited) = (c, d)" by force
      have result: "cycle_any roles origin (parent # rest) visited = (c, d)"
        using ne new None t by simp
      have ih: "insert parent visited \<union> set rest \<subseteq> d" "origin \<in> d \<longrightarrow> origin \<in> insert parent visited"
          "\<forall>x \<in> d - insert parent visited. \<forall>ys. manifest_inherits roles x = Some ys \<longrightarrow> set ys \<subseteq> d"
        using 2(2) [OF ne new None] "2.prems" unfolding result by (simp_all add: t)
      have "\<forall>x \<in> d - visited. \<forall>ys. manifest_inherits roles x = Some ys \<longrightarrow> set ys \<subseteq> d"
        using ih(3) None by (metis Diff_iff insert_iff option.distinct(1))
      then show ?thesis using ih(1,2) ne unfolding result by auto
    next
      case (Some parents)
      obtain a b where r: "cycle_any roles origin parents (insert parent visited) = (a, b)" by force
      obtain c d where t: "cycle_any roles origin rest b = (c, d)" by force
      have "\<not> a" and "\<not> c" using "2.prems" ne new Some r t by (auto simp: Let_def split: if_split_asm)
      have first: "insert parent visited \<union> set parents \<subseteq> b" "origin \<in> b \<longrightarrow> origin \<in> insert parent visited"
          "\<forall>x \<in> b - insert parent visited. \<forall>ys. manifest_inherits roles x = Some ys \<longrightarrow> set ys \<subseteq> b"
        using 2(3) [OF ne new Some] \<open>\<not> a\<close> by (simp_all add: r)
      have second: "b \<union> set rest \<subseteq> d" "origin \<in> d \<longrightarrow> origin \<in> b"
          "\<forall>x \<in> d - b. \<forall>ys. manifest_inherits roles x = Some ys \<longrightarrow> set ys \<subseteq> d"
        using 2(4) [OF ne new Some refl] \<open>\<not> a\<close> \<open>\<not> c\<close> by (simp_all add: r t)
      have result: "cycle_any roles origin (parent # rest) visited = (c, d)"
        using ne new Some r t \<open>\<not> a\<close> by simp
      have "\<forall>x \<in> d - visited. \<forall>ys. manifest_inherits roles x = Some ys \<longrightarrow> set ys \<subseteq> d"
      proof (intro ballI allI impI)
        fix x ys
        assume x: "x \<in> d - visited" and ys: "manifest_inherits roles x = Some ys"
        consider "x = parent" | "x \<in> b - insert parent visited" | "x \<in> d - b" using x by blast
        then show "set ys \<subseteq> d"
        proof cases
          case 1
          with first(1) second(1) ys Some show ?thesis by auto
        next
          case 2
          with first(3) ys have "set ys \<subseteq> b" by blast
          with second(1) show ?thesis by blast
        next
          case 3
          with second(3) ys show ?thesis by blast
        qed
      qed
      moreover have "visited \<union> set (parent # rest) \<subseteq> d" using first(1) second(1) by auto
      moreover have "origin \<in> d \<longrightarrow> origin \<in> visited" using first(2) second(2) ne by auto
      ultimately show ?thesis unfolding result by simp
    qed
  qed
qed simp

lemma role_has_cycle_iff:
  "fst (role_has_cycle name name roles {}) \<longleftrightarrow> (name, name) \<in> (edges (manifest_inherits roles))\<^sup>+"
proof (cases "manifest_inherits roles name")
  case None
  then show ?thesis by (auto simp: role_has_cycle_def edges_def trancl_unfold_left)
next
  case (Some parents)
  let ?E = "manifest_inherits roles"
  have loops: "name \<in> reachable ?E (set parents) \<longleftrightarrow> (name, name) \<in> (edges ?E)\<^sup>+"
    using edges_iff [of ?E, OF Some] by (auto simp: reachable_def trancl_unfold_left)
  obtain b v where r: "cycle_any roles name parents {} = (b, v)" by force
  have "name \<notin> reachable ?E (set parents)" if "\<not> b"
  proof -
    have v: "set parents \<subseteq> v" "name \<notin> v" "closed_under ?E v"
      using cycle_any_not_found [of roles name parents "{}"] that
      by (simp_all add: r closed_under_def)
    then show ?thesis
      using reachable_mono [OF v(1)] closed_under_reachable [OF v(3)] by blast
  qed
  moreover have "name \<in> reachable ?E (set parents)" if "b"
    using cycle_any_found [of roles name parents "{}"] that by (simp add: r)
  ultimately show ?thesis using loops Some by (auto simp: role_has_cycle_def r)
qed

section \<open>What the cross-field checks accept\<close>

lemma concat_enumerated_Nil:
  assumes "\<And>i x. f i x = [] \<longleftrightarrow> P x"
  shows "concat (map (\<lambda>(i, x). f i x) (enumerated xs)) = [] \<longleftrightarrow> (\<forall>x \<in> set xs. P x)"
  proof -
  have "concat (map (\<lambda>(i, x). f i x) (enumerated xs)) = [] \<longleftrightarrow>
      (\<forall>i x. (i, x) \<in> set (enumerated xs) \<longrightarrow> f i x = [])"
    by auto
  also have "\<dots> \<longleftrightarrow> (\<forall>x \<in> set xs. P x)"
    unfolding enumerated_iff assms by (metis in_set_conv_nth)
  finally show ?thesis .
qed

definition roles_coherent :: "ApplicationManifest \<Rightarrow> bool" where
  "roles_coherent manifest \<longleftrightarrow>
     (let roles = unwrap_or_default (declared_roles manifest)
      in (\<forall>default_role. Option.bind (am_auth manifest) mau_default_role = Some default_role \<longrightarrow>
            map_of roles default_role \<noteq> None)
         \<and> (\<forall>(name, role) \<in> set roles.
              (\<forall>i \<in> set (unwrap_or_default (mr_inherits role)). map_of roles i \<noteq> None)
              \<and> (name, name) \<notin> (edges (manifest_inherits roles))\<^sup>+)
         \<and> (\<forall>f \<in> set (unwrap_or_default (am_functions manifest)).
              \<forall>p \<in> set (unwrap_or_default (fn_permissions f)).
                \<exists>(name, role) \<in> set roles. p \<in> set (unwrap_or_default (mr_permissions role))))"

definition function_coherent :: "ApplicationManifest \<Rightarrow> Function \<Rightarrow> bool" where
  "function_coherent manifest f \<longleftrightarrow>
     (\<forall>grant \<in> set (unwrap_or_default (fn_buckets f)).
        \<exists>b \<in> set (unwrap_or_default (am_buckets manifest)). bk_name b = grant_bucket grant)
     \<and> (uses_database f \<longrightarrow> am_database manifest \<noteq> None)
     \<and> (fn_event f \<noteq> None \<longleftrightarrow> fn_function_type f = Event)
     \<and> (fn_queue f \<noteq> None \<longleftrightarrow> fn_function_type f = Queue)"

definition manifest_coherent :: "(string \<Rightarrow> string option) \<Rightarrow> ApplicationManifest \<Rightarrow> bool" where
  "manifest_coherent iana_name manifest \<longleftrightarrow>
     roles_coherent manifest
     \<and> (let functions = unwrap_or_default (am_functions manifest);
            route_list = unwrap_or_default (am_routes manifest)
        in (\<forall>f \<in> set functions. function_coherent manifest f)
           \<and> (\<forall>job \<in> set (unwrap_or_default (am_jobs manifest)).
                (\<exists>f \<in> set functions. fn_name f = job_function job \<and> fn_function_type f = Scheduled)
                \<and> cron_valid (job_schedule job)
                \<and> iana_name (job_timezone job) = Some (job_timezone job))
           \<and> (\<forall>route \<in> set route_list. \<exists>f \<in> set functions. fn_name f = route_function route)
           \<and> distinct (map (\<lambda>route. (route_method route, route_path_of route)) route_list)
           \<and> (\<forall>health. am_health manifest = Some health \<longrightarrow>
                (\<exists>f \<in> set functions. fn_name f = hl_function health)))"

lemma cross_roles_Nil_iff: "cross_roles_validate manifest = [] \<longleftrightarrow> roles_coherent manifest"
proof -
  define roles where "roles = unwrap_or_default (declared_roles manifest)"
  have inh: "inherits_errors name role roles = [] \<longleftrightarrow>
      (\<forall>i \<in> set (unwrap_or_default (mr_inherits role)). map_of roles i \<noteq> None)" for name role
    unfolding inherits_errors_def by (rule concat_enumerated_Nil) (simp add: reference_def)
  have perm: "p \<in> set (concat (List.map_filter (\<lambda>(name, role). mr_permissions role) roles)) \<longleftrightarrow>
      (\<exists>(name, role) \<in> set roles. p \<in> set (unwrap_or_default (mr_permissions role)))" for p
  proof -
    have "p \<in> set (concat (List.map_filter (\<lambda>(name, role). mr_permissions role) roles)) \<longleftrightarrow>
        (\<exists>entry \<in> set roles. p \<in> set (unwrap_or_default (mr_permissions (snd entry))))"
      by (auto simp: set_map_filter in_unwrap_or_default split_def)
    then show ?thesis by (simp add: split_def)
  qed
  have funs: "function_permissions manifest roles = [] \<longleftrightarrow>
      (\<forall>f \<in> set (unwrap_or_default (am_functions manifest)).
         \<forall>p \<in> set (unwrap_or_default (fn_permissions f)).
           \<exists>(name, role) \<in> set roles. p \<in> set (unwrap_or_default (mr_permissions role)))"
    unfolding function_permissions_def Let_def
    by (intro concat_enumerated_Nil) (subst perm, simp)
  have "concat (map (\<lambda>(name, role). inherits_errors name role roles
        @ (if fst (role_has_cycle name name roles {})
           then [manifest_error_new (''auth.roles.'' @ name @ ''.inherits'')
                   ''inheritance must be acyclic'']
           else [])) roles) = []
      \<longleftrightarrow> (\<forall>(name, role) \<in> set roles.
              (\<forall>i \<in> set (unwrap_or_default (mr_inherits role)). map_of roles i \<noteq> None)
              \<and> (name, name) \<notin> (edges (manifest_inherits roles))\<^sup>+)"
    by (auto simp: inh role_has_cycle_iff)
  then show ?thesis
    unfolding cross_roles_validate_def roles_coherent_def Let_def roles_def [symmetric]
    by (simp add: funs reference_def split: option.split)
qed

lemma routes_from_Nil_iff:
  "routes_from declared entries = [] \<longleftrightarrow>
     distinct (map (\<lambda>(i, route). (route_method route, route_path_of route)) entries)
     \<and> set (map (\<lambda>(i, route). (route_method route, route_path_of route)) entries) \<inter> set declared = {}"
  by (induction declared entries rule: routes_from.induct) (auto simp: Let_def)

lemma map_snd_enumerated: "map (\<lambda>(i, x). f x) (enumerated xs) = map f xs"
proof -
  have "map snd (enumerated xs) = xs" by (simp add: enumerated_def)
  moreover have "map (\<lambda>(i, x). f x) (enumerated xs) = map f (map snd (enumerated xs))"
    by (simp add: split_def)
  ultimately show ?thesis by simp
qed

lemma routes_Nil_iff:
  "routes manifest = [] \<longleftrightarrow>
     distinct (map (\<lambda>route. (route_method route, route_path_of route))
       (unwrap_or_default (am_routes manifest)))"
  by (simp add: routes_def routes_from_Nil_iff map_snd_enumerated)

lemma job_reference_Nil_iff:
  "job_reference functions index job = [] \<longleftrightarrow>
     (\<exists>f \<in> set functions. fn_name f = job_function job \<and> fn_function_type f = Scheduled)"
  by (auto simp: job_reference_def Let_def referenced_def list_ex_iff filter_empty_conv)

lemma function_triggers_Nil_iff:
  "function_triggers index f = [] \<longleftrightarrow>
     (fn_event f \<noteq> None \<longleftrightarrow> fn_function_type f = Event)
     \<and> (fn_queue f \<noteq> None \<longleftrightarrow> fn_function_type f = Queue)"
  by (cases "fn_function_type f")
    (auto simp: function_triggers_def required_trigger_def forbidden_trigger_def)

lemma resource_references_Nil_iff:
  "resource_references manifest = [] \<longleftrightarrow>
     (\<forall>f \<in> set (unwrap_or_default (am_functions manifest)).
        (\<forall>grant \<in> set (unwrap_or_default (fn_buckets f)).
           \<exists>b \<in> set (unwrap_or_default (am_buckets manifest)). bk_name b = grant_bucket grant)
        \<and> (uses_database f \<longrightarrow> am_database manifest \<noteq> None))"
proof -
  have grants: "concat (map (\<lambda>(grant_index, grant).
        referenced (grant_bucket grant \<in> set (map bk_name buckets)) (path grant_index)
          ''bucket'' (grant_bucket grant)) (enumerated gs)) = [] \<longleftrightarrow>
      (\<forall>grant \<in> set gs. \<exists>b \<in> set buckets. bk_name b = grant_bucket grant)" for buckets path gs
    by (rule concat_enumerated_Nil) (auto simp: referenced_def rev_image_eqI)
  show ?thesis
    unfolding resource_references_def Let_def
    by (intro concat_enumerated_Nil) (simp only: append_is_Nil_conv grants, auto)
qed

lemma function_references_Nil_iff:
  "function_references manifest = [] \<longleftrightarrow>
     (let functions = unwrap_or_default (am_functions manifest)
      in (\<forall>job \<in> set (unwrap_or_default (am_jobs manifest)).
            \<exists>f \<in> set functions. fn_name f = job_function job \<and> fn_function_type f = Scheduled)
         \<and> (\<forall>route \<in> set (unwrap_or_default (am_routes manifest)).
              \<exists>f \<in> set functions. fn_name f = route_function route)
         \<and> (\<forall>health. am_health manifest = Some health \<longrightarrow>
              (\<exists>f \<in> set functions. fn_name f = hl_function health)))"
proof -
  have route_part: "concat (map (\<lambda>(index, route).
        referenced (list_ex (\<lambda>f. fn_name f = route_function route) fs) (path index)
          ''function'' (route_function route)) (enumerated rs)) = [] \<longleftrightarrow>
      (\<forall>route \<in> set rs. \<exists>f \<in> set fs. fn_name f = route_function route)" for path rs and fs
    by (rule concat_enumerated_Nil) (auto simp: referenced_def list_ex_iff)
  have job_part: "concat (map (\<lambda>(index, job). job_reference fs index job) (enumerated js)) = []
      \<longleftrightarrow> (\<forall>job \<in> set js. \<exists>f \<in> set fs.
             fn_name f = job_function job \<and> fn_function_type f = Scheduled)" for js and fs
    by (rule concat_enumerated_Nil) (rule job_reference_Nil_iff)
  show ?thesis
    unfolding function_references_def Let_def append_is_Nil_conv route_part job_part
    by (auto simp: referenced_def list_ex_iff split: option.split)
qed

lemma schedules_Nil_iff:
  "schedules iana_name manifest = [] \<longleftrightarrow>
     (\<forall>job \<in> set (unwrap_or_default (am_jobs manifest)).
        cron_valid (job_schedule job) \<and> iana_name (job_timezone job) = Some (job_timezone job))"
  unfolding schedules_def
  by (rule concat_enumerated_Nil) (auto simp: job_schedule_errors_def)

lemma triggers_Nil_iff:
  "triggers manifest = [] \<longleftrightarrow>
     (\<forall>f \<in> set (unwrap_or_default (am_functions manifest)).
        (fn_event f \<noteq> None \<longleftrightarrow> fn_function_type f = Event)
        \<and> (fn_queue f \<noteq> None \<longleftrightarrow> fn_function_type f = Queue))"
  unfolding triggers_def by (rule concat_enumerated_Nil) (rule function_triggers_Nil_iff)

lemmas cross_Nil_iffs =
  cross_roles_Nil_iff function_references_Nil_iff resource_references_Nil_iff triggers_Nil_iff
  routes_Nil_iff schedules_Nil_iff

section \<open>Properties\<close>

text \<open>C40. The cross-field checks are exact: a manifest produces no cross-field error if and only
  if it is coherent: the default role and every inherited role are declared, no role inherits
  from itself through any chain, every function permission, bucket grant, database use, job,
  route and health reference resolves, events and queues occur exactly on the functions of
  their type, routes are unique per method, and schedules and time zones are valid.\<close>

theorem manifest_cross_validation_exact:
  "cross_validate iana_name manifest = [] \<longleftrightarrow> manifest_coherent iana_name manifest"
  unfolding cross_validate_def append_is_Nil_conv cross_Nil_iffs manifest_coherent_def Let_def
    function_coherent_def
  by blast

text \<open>The two cycle checks of the core crate agree: on declared inheritance, the recursive
  check of the manifest and the stack check of the owner-approved policy give the same answer
  for every role, and both answer whether the role inherits from itself.\<close>

theorem role_cycle_checks_agree:
  assumes "inherits_declared graph" and "name \<in> dom (role_inherits graph)"
    and "\<forall>n. role_inherits graph n = manifest_inherits roles n"
  shows "has_cycle name graph = Some (fst (role_has_cycle name name roles {}))
    \<and> (fst (role_has_cycle name name roles {}) \<longleftrightarrow> inherits_from graph name name)"
proof -
  have same: "role_inherits graph = manifest_inherits roles" using assms(3) by auto
  obtain parents where "role_inherits graph name = Some parents" using assms(2) by auto
  from has_cycle_declared [OF assms(1) this] show ?thesis
    by (simp add: role_has_cycle_iff inherits_from_def same)
qed

theorem role_cycle_checks_agree_witness:
  "has_cycle ''admin'' sample_policy = Some (fst (role_has_cycle ''admin'' ''admin''
     [(''admin'', \<lparr>mr_inherits = Some [''member''], mr_permissions = None\<rparr>),
      (''member'', \<lparr>mr_inherits = None, mr_permissions = None\<rparr>)] {}))"
proof -
  let ?roles = "[(''admin'', \<lparr>mr_inherits = Some [''member''], mr_permissions = None\<rparr>),
      (''member'', \<lparr>mr_inherits = None, mr_permissions = None\<rparr>)]"
  have "inherits_declared sample_policy" by code_simp
  moreover have "''admin'' \<in> dom (role_inherits sample_policy)"
    by (simp add: role_keys sample_policy_def)
  moreover have "\<forall>n. role_inherits sample_policy n = manifest_inherits ?roles n"
    by (simp add: role_inherits_def manifest_inherits_def sample_policy_def)
  ultimately show ?thesis by (rule role_cycle_checks_agree [THEN conjunct1])
qed

end
