(* ===== verification/Contract.thy ===== *)
theory Contract
  imports Core_Secrets Core_Uri
begin

text \<open>
  The provider-independent contract of \<^verbatim>\<open>crates/blobyard-contract\<close> that the transfer, sharing,
  inbox and lifecycle services share: the persisted enums with their text forms, the request
  and record structs, and the validated storage key, checksum and byte range. Unsigned fields
  are naturals. A constructor is the source's variant behind a two-letter prefix of its enum.
  Each enum that is stored as text is an instance of \<open>string_codec\<close>.
\<close>

section \<open>Errors\<close>

datatype RepositoryError = NotFound | Conflict | InvalidInput | SchemaTooNew | Unavailable

fun display_repository_error :: "RepositoryError \<Rightarrow> string" where
  "display_repository_error NotFound = ''metadata record not found''"
| "display_repository_error Conflict = ''metadata conflict''"
| "display_repository_error InvalidInput = ''invalid metadata input''"
| "display_repository_error SchemaTooNew = ''metadata schema is newer than this runtime''"
| "display_repository_error Unavailable = ''metadata repository unavailable''"

datatype StorageError =
  StNotFound | StConflict | StInvalidInput | StIntegrityMismatch | StUnavailable

section \<open>Validated storage values\<close>

definition is_valid_relative_path :: "string \<Rightarrow> nat \<Rightarrow> bool" where
  "is_valid_relative_path value maximum_bytes \<longleftrightarrow>
     value \<noteq> [] \<and> length value \<le> maximum_bytes
     \<and> \<not> starts_with ''/'' value
     \<and> strip_suffix ''/'' value = None
     \<and> CHR 0x5C \<notin> set value
     \<and> \<not> has_control value
     \<and> list_all (\<lambda>segment. segment \<noteq> [] \<and> segment \<noteq> ''.'' \<and> segment \<noteq> ''..'') (split_on CHR ''/'' value)"

datatype StorageKey = StorageKey (storage_key_as_str: string)

definition storage_key_new :: "string \<Rightarrow> StorageError + StorageKey" where
  "storage_key_new value =
     (if is_valid_relative_path value 512 then Ok (StorageKey value) else Err StInvalidInput)"

datatype ObjectChecksum = ObjectChecksum (checksum_as_str: string)

definition object_checksum_new :: "string \<Rightarrow> StorageError + ObjectChecksum" where
  "object_checksum_new value =
     (if length value = 64 \<and> list_all is_lower_hex value then Ok (ObjectChecksum value)
      else Err StInvalidInput)"

definition from_sha256_digest :: "string \<Rightarrow> ObjectChecksum" where
  "from_sha256_digest digest = ObjectChecksum (hex_digest digest)"

record ByteRange =
  br_start :: nat
  br_end :: nat

definition byte_range_new :: "nat \<Rightarrow> nat \<Rightarrow> StorageError + ByteRange" where
  "byte_range_new s e =
     (if s \<le> e then Ok \<lparr>br_start = s, br_end = e\<rparr> else Err StInvalidInput)"

section \<open>Enums stored as text\<close>

datatype RevocableStatus = RvActive | RvRevoked

fun revocable_as_str :: "RevocableStatus \<Rightarrow> string" where
  "revocable_as_str RvActive = ''active''"
| "revocable_as_str RvRevoked = ''revoked''"

definition revocable_parse :: "string \<Rightarrow> RevocableStatus option" where
  "revocable_parse value =
     (if value = ''active'' then Some RvActive
      else if value = ''revoked'' then Some RvRevoked else None)"

datatype UploadState = UsPending | UsComplete | UsAborted

fun upload_state_as_str :: "UploadState \<Rightarrow> string" where
  "upload_state_as_str UsPending = ''pending''"
| "upload_state_as_str UsComplete = ''complete''"
| "upload_state_as_str UsAborted = ''aborted''"

definition upload_state_parse :: "string \<Rightarrow> UploadState option" where
  "upload_state_parse value =
     (if value = ''pending'' then Some UsPending
      else if value = ''complete'' then Some UsComplete
      else if value = ''aborted'' then Some UsAborted else None)"

datatype ObjectSource = OsCi | OsCli | OsInbox | OsPreview | OsWeb

fun object_source_as_str :: "ObjectSource \<Rightarrow> string" where
  "object_source_as_str OsCi = ''ci''"
| "object_source_as_str OsCli = ''cli''"
| "object_source_as_str OsInbox = ''inbox''"
| "object_source_as_str OsPreview = ''preview''"
| "object_source_as_str OsWeb = ''web''"

definition object_source_parse :: "string \<Rightarrow> ObjectSource option" where
  "object_source_parse value =
     (if value = ''ci'' then Some OsCi
      else if value = ''cli'' then Some OsCli
      else if value = ''inbox'' then Some OsInbox
      else if value = ''preview'' then Some OsPreview
      else if value = ''web'' then Some OsWeb else None)"

datatype ReservationStrategy = RySingle | RyMultipart

fun strategy_as_str :: "ReservationStrategy \<Rightarrow> string" where
  "strategy_as_str RySingle = ''single''"
| "strategy_as_str RyMultipart = ''multipart''"

definition strategy_parse :: "string \<Rightarrow> ReservationStrategy option" where
  "strategy_parse value =
     (if value = ''single'' then Some RySingle
      else if value = ''multipart'' then Some RyMultipart else None)"

datatype ReservationState = RsRequested | RsUploaded | RsComplete | RsAborted

fun reservation_state_as_str :: "ReservationState \<Rightarrow> string" where
  "reservation_state_as_str RsRequested = ''requested''"
| "reservation_state_as_str RsUploaded = ''uploaded''"
| "reservation_state_as_str RsComplete = ''complete''"
| "reservation_state_as_str RsAborted = ''aborted''"

definition reservation_state_parse :: "string \<Rightarrow> ReservationState option" where
  "reservation_state_parse value =
     (if value = ''requested'' then Some RsRequested
      else if value = ''uploaded'' then Some RsUploaded
      else if value = ''complete'' then Some RsComplete
      else if value = ''aborted'' then Some RsAborted else None)"

datatype ShareStatus = ShActive | ShExhausted | ShRevoked

fun share_status_as_str :: "ShareStatus \<Rightarrow> string" where
  "share_status_as_str ShActive = ''active''"
| "share_status_as_str ShExhausted = ''exhausted''"
| "share_status_as_str ShRevoked = ''revoked''"

definition share_status_parse :: "string \<Rightarrow> ShareStatus option" where
  "share_status_parse value =
     (if value = ''active'' then Some ShActive
      else if value = ''exhausted'' then Some ShExhausted
      else if value = ''revoked'' then Some ShRevoked else None)"

text \<open>The text forms of the status columns are read back exactly.\<close>

interpretation revocable: string_codec revocable_as_str revocable_parse
proof unfold_locales
  show "revocable_parse (revocable_as_str x) = Some x" for x
    by (cases x) (simp_all add: revocable_parse_def)
qed (auto simp: revocable_parse_def split: if_split_asm)

interpretation upload_state: string_codec upload_state_as_str upload_state_parse
proof unfold_locales
  show "upload_state_parse (upload_state_as_str x) = Some x" for x
    by (cases x) (simp_all add: upload_state_parse_def)
qed (auto simp: upload_state_parse_def split: if_split_asm)

interpretation object_source: string_codec object_source_as_str object_source_parse
proof unfold_locales
  show "object_source_parse (object_source_as_str x) = Some x" for x
    by (cases x) (simp_all add: object_source_parse_def)
qed (auto simp: object_source_parse_def split: if_split_asm)

interpretation strategy: string_codec strategy_as_str strategy_parse
proof unfold_locales
  show "strategy_parse (strategy_as_str x) = Some x" for x
    by (cases x) (simp_all add: strategy_parse_def)
qed (auto simp: strategy_parse_def split: if_split_asm)

interpretation reservation_state: string_codec reservation_state_as_str reservation_state_parse
proof unfold_locales
  show "reservation_state_parse (reservation_state_as_str x) = Some x" for x
    by (cases x) (simp_all add: reservation_state_parse_def)
qed (auto simp: reservation_state_parse_def split: if_split_asm)

interpretation share_status: string_codec share_status_as_str share_status_parse
proof unfold_locales
  show "share_status_parse (share_status_as_str x) = Some x" for x
    by (cases x) (simp_all add: share_status_parse_def)
qed (auto simp: share_status_parse_def split: if_split_asm)

section \<open>Records\<close>

record ObjectVersionRecord =
  ovr_id :: string
  ovr_project_id :: string
  ovr_object_path :: string
  ovr_version :: nat
  ovr_storage_key :: string
  ovr_state :: UploadState
  ovr_size :: "nat option"
  ovr_checksum :: "string option"
  ovr_created_at_ms :: nat
  ovr_source :: ObjectSource
  ovr_git_repository :: "string option"
  ovr_git_commit :: "string option"
  ovr_git_branch :: "string option"

record NewUploadReservation =
  nur_id :: string
  nur_project_id :: string
  nur_object_path :: string
  nur_filename :: string
  nur_content_type :: string
  nur_expected_size :: nat
  nur_expected_checksum :: string
  nur_storage_key :: string
  nur_capability_hash :: string
  nur_expires_at_ms :: nat
  nur_created_at_ms :: nat
  nur_source :: ObjectSource
  nur_git_repository :: "string option"
  nur_git_commit :: "string option"
  nur_git_branch :: "string option"
  nur_strategy :: ReservationStrategy
  nur_part_size :: "nat option"
  nur_part_count :: "nat option"

record NewUploadPartGrant =
  npg_upload_id :: string
  npg_part_number :: nat
  npg_expected_size :: nat
  npg_capability_hash :: string
  npg_expires_at_ms :: nat

record UploadPartRecord =
  upr_upload_id :: string
  upr_part_number :: nat
  upr_expected_size :: nat
  upr_expires_at_ms :: nat
  upr_received_size :: "nat option"
  upr_received_checksum :: "string option"
  upr_provider_tag :: "string option"

record NewDownloadGrant =
  ndg_version_id :: string
  ndg_capability_hash :: string
  ndg_expires_at_ms :: nat

record UploadReservationRecord =
  urr_id :: string
  urr_version :: ObjectVersionRecord
  urr_filename :: string
  urr_content_type :: string
  urr_expected_size :: nat
  urr_expected_checksum :: string
  urr_expires_at_ms :: nat
  urr_state :: ReservationState
  urr_strategy :: ReservationStrategy
  urr_part_size :: "nat option"
  urr_part_count :: "nat option"
  urr_provider_upload_id :: "string option"

record StoredObjectRecord =
  sor_version :: ObjectVersionRecord
  sor_filename :: string
  sor_content_type :: string

record NewShare =
  nsh_id :: string
  nsh_workspace_id :: string
  nsh_version_id :: string
  nsh_capability_hash :: string
  nsh_expires_at_ms :: nat
  nsh_maximum_downloads :: "nat option"
  nsh_created_at_ms :: nat

record ShareRecord =
  shr_id :: string
  shr_workspace_id :: string
  shr_version_id :: "string option"
  shr_expires_at_ms :: nat
  shr_status :: ShareStatus
  shr_consumed_count :: nat
  shr_maximum_downloads :: "nat option"
  shr_created_at_ms :: nat
  shr_revoked_at_ms :: "nat option"

record ShareTarget =
  sht_share :: ShareRecord
  sht_object :: StoredObjectRecord

datatype AuditValue = AvString string | AvNumber nat | AvBoolean bool | AvNull

record NewAuditEvent =
  nae_id :: string
  nae_workspace_id :: string
  nae_actor :: string
  nae_action :: string
  nae_request_id :: string
  nae_target_type :: string
  nae_metadata :: "(string \<times> AuditValue) list"
  nae_created_at_ms :: nat

record AuditEventRecord =
  aer_sequence :: nat
  aer_action :: string
  aer_actor :: string
  aer_created_at_ms :: nat
  aer_id :: string
  aer_metadata :: "(string \<times> AuditValue) list"
  aer_request_id :: string
  aer_target_type :: string
  aer_workspace_id :: string

record AuditPage =
  apg_items :: "AuditEventRecord list"
  apg_next_before :: "nat option"

record ObjectDeletionTarget =
  odt_project_id :: string
  odt_object_path :: string
  odt_version :: "nat option"

record NewObjectDeletion =
  nod_id :: string
  nod_target :: ObjectDeletionTarget
  nod_actor :: string
  nod_request_id :: string
  nod_created_at_ms :: nat

record DeletionItem =
  dit_version_id :: string
  dit_storage_key :: string
  dit_version :: nat

record DeletionPlan =
  dpl_id :: string
  dpl_items :: "DeletionItem list"
  dpl_complete :: bool
  dpl_actor :: string
  dpl_request_id :: string

record RetentionPolicyRecord =
  rpr_project_id :: string
  rpr_keep_latest :: nat
  rpr_path_glob :: "string option"
  rpr_branch_glob :: "string option"
  rpr_created_at_ms :: nat
  rpr_updated_at_ms :: nat

record RetentionRunRecord =
  rrr_id :: string
  rrr_candidate_count :: nat
  rrr_deleted_count :: nat
  rrr_status :: string
  rrr_started_at_ms :: nat
  rrr_completed_at_ms :: "nat option"
  rrr_error_summary :: "string option"

record RetentionOverview =
  rov_policy :: "RetentionPolicyRecord option"
  rov_last_run :: "RetentionRunRecord option"

record NewInbox =
  nib_id :: string
  nib_workspace_id :: string
  nib_project_id :: string
  nib_name :: string
  nib_capability_hash :: string
  nib_expires_at_ms :: nat
  nib_maximum_files :: nat
  nib_maximum_bytes :: nat
  nib_created_at_ms :: nat

record InboxRecord =
  ibr_id :: string
  ibr_workspace_id :: string
  ibr_project_id :: string
  ibr_name :: string
  ibr_expires_at_ms :: nat
  ibr_status :: RevocableStatus
  ibr_current_files :: nat
  ibr_current_bytes :: nat
  ibr_reserved_files :: nat
  ibr_reserved_bytes :: nat
  ibr_maximum_files :: nat
  ibr_maximum_bytes :: nat
  ibr_created_at_ms :: nat
  ibr_revoked_at_ms :: "nat option"

record NewInboxUpload =
  niu_capability_hash :: string
  niu_fingerprint_hash :: string
  niu_now_ms :: nat

datatype InboxRateResult = Allowed | Limited nat

section \<open>Lemmas\<close>

lemma object_checksum_Ok_iff:
  "object_checksum_new value = Ok c \<longleftrightarrow>
     length value = 64 \<and> list_all is_lower_hex value \<and> c = ObjectChecksum value"
  by (auto simp: object_checksum_new_def)

text \<open>The stored texts of the enums, as the CHECK constraints list them.\<close>

lemma range_upload_state: "range upload_state_as_str = {''pending'', ''complete'', ''aborted''}"
proof -
  have all: "(UNIV :: UploadState set) = {UsPending, UsComplete, UsAborted}"
    by (auto intro: UploadState.exhaust)
  show ?thesis unfolding all by simp
qed

lemma range_object_source: "range object_source_as_str = {''ci'', ''cli'', ''inbox'', ''preview'', ''web''}"
proof -
  have all: "(UNIV :: ObjectSource set) = {OsCi, OsCli, OsInbox, OsPreview, OsWeb}"
    by (auto intro: ObjectSource.exhaust)
  show ?thesis unfolding all by simp
qed

lemma range_strategy: "range strategy_as_str = {''single'', ''multipart''}"
proof -
  have all: "(UNIV :: ReservationStrategy set) = {RySingle, RyMultipart}"
    by (auto intro: ReservationStrategy.exhaust)
  show ?thesis unfolding all by simp
qed

lemma range_reservation_state:
  "range reservation_state_as_str = {''requested'', ''uploaded'', ''complete'', ''aborted''}"
proof -
  have all: "(UNIV :: ReservationState set) = {RsRequested, RsUploaded, RsComplete, RsAborted}"
    by (auto intro: ReservationState.exhaust)
  show ?thesis unfolding all by simp
qed

lemma range_share_status: "range share_status_as_str = {''active'', ''exhausted'', ''revoked''}"
proof -
  have all: "(UNIV :: ShareStatus set) = {ShActive, ShExhausted, ShRevoked}"
    by (auto intro: ShareStatus.exhaust)
  show ?thesis unfolding all by simp
qed

end
