(* ===== verification/Repository_State.thy ===== *)
theory Repository_State
  imports Contract
begin

text \<open>
  The metadata database of \<^verbatim>\<open>crates/blobyard-repository-sqlite\<close>: its tables as lists of rows in
  insertion order, the constraints of the migrations, and the row decoders of \<^verbatim>\<open>rows.rs\<close>.

  An INTEGER column is an \<open>int\<close>, a TEXT column a \<open>string\<close>, a nullable column an \<open>option\<close>. A
  statement that violates a PRIMARY KEY, UNIQUE, CHECK or FOREIGN KEY constraint changes nothing
  and fails with \<open>Conflict\<close>, a query for one row that finds none fails with \<open>NotFound\<close>, and a
  stored value that does not decode fails with \<open>Unavailable\<close>, as \<^verbatim>\<open>map_error\<close> of \<^verbatim>\<open>adapter.rs\<close>
  maps them. \<open>write_transaction\<close> keeps the old database on every error. The connection is
  healthy: failures of the disk, of the lock and of SQLite itself are not modelled. The JSON
  text of an audit event is represented by the sorted entries it encodes: writing and reading
  that text is the job of \<^verbatim>\<open>serde_json\<close>.
\<close>

section \<open>Tables\<close>

record workspace_row =
  ws_id :: string
  ws_name :: string
  ws_slug :: string

record project_row =
  pj_id :: string
  pj_workspace_id :: string
  pj_name :: string
  pj_slug :: string

record object_version_row =
  ov_id :: string
  ov_project_id :: string
  ov_object_path :: string
  ov_version :: int
  ov_storage_key :: string
  ov_state :: string
  ov_size :: "int option"
  ov_checksum :: "string option"
  ov_created_at_ms :: int
  ov_source :: string
  ov_git_repository :: "string option"
  ov_git_commit :: "string option"
  ov_git_branch :: "string option"

record upload_reservation_row =
  ur_id :: string
  ur_version_id :: string
  ur_filename :: string
  ur_content_type :: string
  ur_expected_size :: int
  ur_expected_checksum :: string
  ur_capability_hash :: string
  ur_expires_at_ms :: int
  ur_state :: string
  ur_received_size :: "int option"
  ur_received_checksum :: "string option"
  ur_strategy :: string
  ur_part_size :: "int option"
  ur_part_count :: "int option"
  ur_provider_upload_id :: "string option"

record upload_part_row =
  up_upload_id :: string
  up_part_number :: int
  up_expected_size :: int
  up_capability_hash :: string
  up_expires_at_ms :: int
  up_state :: string
  up_received_size :: "int option"
  up_received_checksum :: "string option"
  up_provider_tag :: "string option"

record download_grant_row =
  dg_capability_hash :: string
  dg_version_id :: string
  dg_expires_at_ms :: int

record deletion_operation_row =
  do_id :: string
  do_project_id :: string
  do_object_path :: string
  do_selected_version :: "int option"
  do_reason :: string
  do_status :: string
  do_actor :: string
  do_request_id :: string
  do_created_at_ms :: int
  do_completed_at_ms :: "int option"

record deletion_item_row =
  di_operation_id :: string
  di_version_id :: string
  di_storage_key :: string
  di_version :: int

text \<open>\<^verbatim>\<open>serde_json::Value\<close>. The text column of the audit metadata is the JSON object it holds: its
  entries in key order, as \<^verbatim>\<open>BTreeMap\<close> serialises and parses them.\<close>

datatype json_value =
  JsonNull
| JsonBool bool
| JsonNumber int
| JsonFloat
| JsonString string
| JsonArray "json_value list"
| JsonObject "(string \<times> json_value) list"

record audit_event_row =
  ae_sequence :: int
  ae_id :: string
  ae_workspace_id :: string
  ae_actor :: string
  ae_action :: string
  ae_request_id :: string
  ae_target_type :: string
  ae_metadata :: "(string \<times> json_value) list"
  ae_created_at_ms :: int

record share_row =
  sh_id :: string
  sh_workspace_id :: string
  sh_version_id :: "string option"
  sh_capability_hash :: string
  sh_expires_at_ms :: int
  sh_status :: string
  sh_consumed_count :: int
  sh_maximum_downloads :: "int option"
  sh_created_at_ms :: int
  sh_revoked_at_ms :: "int option"

record inbox_row =
  ib_id :: string
  ib_workspace_id :: string
  ib_project_id :: string
  ib_name :: string
  ib_capability_hash :: string
  ib_expires_at_ms :: int
  ib_status :: string
  ib_current_files :: int
  ib_current_bytes :: int
  ib_reserved_files :: int
  ib_reserved_bytes :: int
  ib_maximum_files :: int
  ib_maximum_bytes :: int
  ib_created_at_ms :: int
  ib_revoked_at_ms :: "int option"

record inbox_upload_row =
  iu_upload_id :: string
  iu_inbox_id :: string
  iu_fingerprint_hash :: string
  iu_reserved_size :: int
  iu_status :: string
  iu_created_at_ms :: int

record inbox_rate_row =
  ir_rate_key :: string
  ir_window_started_at_ms :: int
  ir_request_count :: int

record retention_policy_row =
  rp_project_id :: string
  rp_keep_latest :: int
  rp_path_glob :: "string option"
  rp_branch_glob :: "string option"
  rp_enabled :: int
  rp_created_at_ms :: int
  rp_updated_at_ms :: int

record retention_run_row =
  rr_id :: string
  rr_project_id :: string
  rr_candidate_count :: int
  rr_deleted_count :: int
  rr_status :: string
  rr_started_at_ms :: int
  rr_completed_at_ms :: "int option"
  rr_error_summary :: "string option"

record database =
  workspaces :: "workspace_row list"
  projects :: "project_row list"
  object_versions :: "object_version_row list"
  upload_reservations :: "upload_reservation_row list"
  upload_parts :: "upload_part_row list"
  download_grants :: "download_grant_row list"
  deletion_operations :: "deletion_operation_row list"
  deletion_items :: "deletion_item_row list"
  audit_events :: "audit_event_row list"
  audit_sequence :: int
  shares :: "share_row list"
  inboxes :: "inbox_row list"
  inbox_uploads :: "inbox_upload_row list"
  inbox_rate_limits :: "inbox_rate_row list"
  retention_policies :: "retention_policy_row list"
  retention_runs :: "retention_run_row list"

definition empty_database :: database where
  "empty_database =
     \<lparr>workspaces = [], projects = [], object_versions = [], upload_reservations = [],
      upload_parts = [], download_grants = [], deletion_operations = [], deletion_items = [],
      audit_events = [], audit_sequence = 0, shares = [], inboxes = [], inbox_uploads = [],
      inbox_rate_limits = [], retention_policies = [], retention_runs = []\<rparr>"

section \<open>CHECK constraints\<close>

definition object_version_check :: "object_version_row \<Rightarrow> bool" where
  "object_version_check r \<longleftrightarrow>
     ov_version r > 0
     \<and> ov_state r \<in> {''pending'', ''complete'', ''aborted''}
     \<and> (if ov_state r = ''complete'' then ov_size r \<noteq> None \<and> ov_checksum r \<noteq> None
        else ov_size r = None \<and> ov_checksum r = None)
     \<and> ov_created_at_ms r \<ge> 0
     \<and> ov_source r \<in> {''ci'', ''cli'', ''inbox'', ''preview'', ''web''}"

definition upload_reservation_check :: "upload_reservation_row \<Rightarrow> bool" where
  "upload_reservation_check r \<longleftrightarrow>
     ur_expected_size r \<ge> 0
     \<and> ur_expires_at_ms r \<ge> 0
     \<and> ur_state r \<in> {''requested'', ''uploaded'', ''complete'', ''aborted''}
     \<and> (if ur_state r \<in> {''requested'', ''aborted''}
        then ur_received_size r = None \<and> ur_received_checksum r = None
        else ur_received_size r \<noteq> None \<and> ur_received_checksum r \<noteq> None)
     \<and> ur_strategy r \<in> {''single'', ''multipart''}
     \<and> (case ur_part_size r of None \<Rightarrow> True | Some n \<Rightarrow> n > 0)
     \<and> (case ur_part_count r of None \<Rightarrow> True | Some n \<Rightarrow> n > 0 \<and> n \<le> 10000)"

definition upload_part_check :: "upload_part_row \<Rightarrow> bool" where
  "upload_part_check r \<longleftrightarrow>
     up_part_number r > 0 \<and> up_part_number r \<le> 10000
     \<and> up_expected_size r > 0
     \<and> up_expires_at_ms r \<ge> 0
     \<and> up_state r \<in> {''pending'', ''uploaded''}
     \<and> (if up_state r = ''pending''
        then up_received_size r = None \<and> up_received_checksum r = None
        else up_received_size r \<noteq> None \<and> up_received_checksum r \<noteq> None)"

definition share_check :: "share_row \<Rightarrow> bool" where
  "share_check r \<longleftrightarrow>
     sh_expires_at_ms r \<ge> 0
     \<and> sh_status r \<in> {''active'', ''exhausted'', ''revoked''}
     \<and> sh_consumed_count r \<ge> 0
     \<and> (case sh_maximum_downloads r of None \<Rightarrow> True | Some m \<Rightarrow> m > 0)
     \<and> sh_created_at_ms r \<ge> 0
     \<and> sh_expires_at_ms r > sh_created_at_ms r
     \<and> (if sh_status r = ''revoked''
        then (case sh_revoked_at_ms r of None \<Rightarrow> False | Some t \<Rightarrow> t \<ge> sh_created_at_ms r)
        else sh_revoked_at_ms r = None)
     \<and> (case sh_maximum_downloads r of None \<Rightarrow> True | Some m \<Rightarrow> sh_consumed_count r \<le> m)
     \<and> (sh_status r \<noteq> ''exhausted'' \<or> sh_maximum_downloads r = Some (sh_consumed_count r)
        \<or> sh_maximum_downloads r = None)"

section \<open>Statements\<close>

text \<open>\<^verbatim>\<open>connection.query_row(..).map_err(map_error)\<close>\<close>

definition query_row :: "('r \<Rightarrow> bool) \<Rightarrow> ('r \<Rightarrow> RepositoryError + 'a) \<Rightarrow> 'r list \<Rightarrow> RepositoryError + 'a" where
  "query_row selected decode rows =
     (case find selected rows of None \<Rightarrow> Err NotFound | Some r \<Rightarrow> decode r)"

definition insert_row :: "bool \<Rightarrow> 'r \<Rightarrow> 'r list \<Rightarrow> RepositoryError + 'r list" where
  "insert_row allowed row rows = (if allowed then Ok (rows @ [row]) else Err Conflict)"

definition update_rows ::
  "('r \<Rightarrow> bool) \<Rightarrow> ('r \<Rightarrow> 'r) \<Rightarrow> ('r \<Rightarrow> bool) \<Rightarrow> 'r list \<Rightarrow> RepositoryError + (nat \<times> 'r list)" where
  "update_rows selected change check rows =
     (if list_all (\<lambda>r. selected r \<longrightarrow> check (change r)) rows
      then Ok (length (filter selected rows), map (\<lambda>r. if selected r then change r else r) rows)
      else Err Conflict)"

definition changed_once :: "nat \<Rightarrow> RepositoryError + unit" where
  "changed_once changed = (if changed = 1 then Ok () else Err Conflict)"

text \<open>A public operation returns its result and the database it leaves. A service with tables of its
  own works on a record around this one, so a transaction is generic in the state.\<close>

type_synonym 'a outcome = "(RepositoryError + 'a) \<times> database"

definition write_transaction ::
  "('s \<Rightarrow> RepositoryError + ('a \<times> 's)) \<Rightarrow> 's \<Rightarrow> (RepositoryError + 'a) \<times> 's" where
  "write_transaction operation db =
     (case operation db of Inl e \<Rightarrow> (Err e, db) | Inr (x, db') \<Rightarrow> (Ok x, db'))"

text \<open>A check that runs before the transaction is opened.\<close>

definition after ::
  "RepositoryError + 'v \<Rightarrow> 's \<Rightarrow> ('v \<Rightarrow> (RepositoryError + 'a) \<times> 's) \<Rightarrow> (RepositoryError + 'a) \<times> 's" where
  "after validated db continue =
     (case validated of Inl e \<Rightarrow> (Err e, db) | Inr v \<Rightarrow> continue v)"

section \<open>Validation of inputs\<close>

definition validate_text :: "string \<Rightarrow> RepositoryError + unit" where
  "validate_text value =
     (if value = [] \<or> length value > 512 \<or> has_control value then Err InvalidInput else Ok ())"

definition to_i64 :: "nat \<Rightarrow> RepositoryError + int" where
  "to_i64 value = (if value \<le> i64_max then Ok (int value) else Err InvalidInput)"

definition validate_hash :: "string \<Rightarrow> RepositoryError + unit" where
  "validate_hash value =
     map_err (\<lambda>_. InvalidInput) (and_then (object_checksum_new value) (\<lambda>_. Ok ()))"

section \<open>Row decoders\<close>

definition required_u64 :: "int \<Rightarrow> RepositoryError + nat" where
  "required_u64 value = (if value \<ge> 0 then Ok (nat value) else Err Unavailable)"

definition optional_u64 :: "int option \<Rightarrow> RepositoryError + nat option" where
  "optional_u64 = transpose_option required_u64"

definition required_u32 :: "int \<Rightarrow> RepositoryError + nat" where
  "required_u32 value = (if value \<ge> 0 \<and> value \<le> int u32_max then Ok (nat value) else Err Unavailable)"

definition optional_u32 :: "int option \<Rightarrow> RepositoryError + nat option" where
  "optional_u32 = transpose_option required_u32"

definition object_version :: "object_version_row \<Rightarrow> RepositoryError + ObjectVersionRecord" where
  "object_version r =
     and_then (required_u64 (ov_version r)) (\<lambda>version.
     and_then (ok_or Unavailable (upload_state_parse (ov_state r))) (\<lambda>state.
     and_then (optional_u64 (ov_size r)) (\<lambda>size.
     and_then (required_u64 (ov_created_at_ms r)) (\<lambda>created_at_ms.
     and_then (ok_or Unavailable (object_source_parse (ov_source r))) (\<lambda>source.
       Ok \<lparr>ovr_id = ov_id r, ovr_project_id = ov_project_id r, ovr_object_path = ov_object_path r,
           ovr_version = version, ovr_storage_key = ov_storage_key r, ovr_state = state,
           ovr_size = size, ovr_checksum = ov_checksum r, ovr_created_at_ms = created_at_ms,
           ovr_source = source, ovr_git_repository = ov_git_repository r,
           ovr_git_commit = ov_git_commit r, ovr_git_branch = ov_git_branch r\<rparr>)))))"

definition upload_reservation ::
  "upload_reservation_row \<times> object_version_row \<Rightarrow> RepositoryError + UploadReservationRecord" where
  "upload_reservation rv =
     (let r = fst rv
      in and_then (object_version (snd rv)) (\<lambda>version.
         and_then (required_u64 (ur_expected_size r)) (\<lambda>expected_size.
         and_then (required_u64 (ur_expires_at_ms r)) (\<lambda>expires_at_ms.
         and_then (ok_or Unavailable (reservation_state_parse (ur_state r))) (\<lambda>state.
         and_then (ok_or Unavailable (strategy_parse (ur_strategy r))) (\<lambda>strategy.
         and_then (optional_u64 (ur_part_size r)) (\<lambda>part_size.
         and_then (optional_u32 (ur_part_count r)) (\<lambda>part_count.
           Ok \<lparr>urr_id = ur_id r, urr_version = version, urr_filename = ur_filename r,
               urr_content_type = ur_content_type r, urr_expected_size = expected_size,
               urr_expected_checksum = ur_expected_checksum r, urr_expires_at_ms = expires_at_ms,
               urr_state = state, urr_strategy = strategy, urr_part_size = part_size,
               urr_part_count = part_count, urr_provider_upload_id = ur_provider_upload_id r\<rparr>))))))))"

definition upload_part :: "upload_part_row \<Rightarrow> RepositoryError + UploadPartRecord" where
  "upload_part r =
     and_then (required_u32 (up_part_number r)) (\<lambda>part_number.
     and_then (required_u64 (up_expected_size r)) (\<lambda>expected_size.
     and_then (required_u64 (up_expires_at_ms r)) (\<lambda>expires_at_ms.
     and_then (optional_u64 (up_received_size r)) (\<lambda>received_size.
       Ok \<lparr>upr_upload_id = up_upload_id r, upr_part_number = part_number,
           upr_expected_size = expected_size, upr_expires_at_ms = expires_at_ms,
           upr_received_size = received_size, upr_received_checksum = up_received_checksum r,
           upr_provider_tag = up_provider_tag r\<rparr>))))"

definition stored_object ::
  "object_version_row \<times> upload_reservation_row \<Rightarrow> RepositoryError + StoredObjectRecord" where
  "stored_object vr =
     and_then (object_version (fst vr)) (\<lambda>version.
       Ok \<lparr>sor_version = version, sor_filename = ur_filename (snd vr),
           sor_content_type = ur_content_type (snd vr)\<rparr>)"

definition share :: "share_row \<Rightarrow> RepositoryError + ShareRecord" where
  "share r =
     and_then (required_u64 (sh_expires_at_ms r)) (\<lambda>expires_at_ms.
     and_then (ok_or Unavailable (share_status_parse (sh_status r))) (\<lambda>status.
     and_then (required_u64 (sh_consumed_count r)) (\<lambda>consumed_count.
     and_then (optional_u64 (sh_maximum_downloads r)) (\<lambda>maximum_downloads.
     and_then (required_u64 (sh_created_at_ms r)) (\<lambda>created_at_ms.
     and_then (optional_u64 (sh_revoked_at_ms r)) (\<lambda>revoked_at_ms.
       Ok \<lparr>shr_id = sh_id r, shr_workspace_id = sh_workspace_id r, shr_version_id = sh_version_id r,
           shr_expires_at_ms = expires_at_ms, shr_status = status,
           shr_consumed_count = consumed_count, shr_maximum_downloads = maximum_downloads,
           shr_created_at_ms = created_at_ms, shr_revoked_at_ms = revoked_at_ms\<rparr>))))))"

section \<open>Lemmas on statements\<close>

lemma find_Some_iff_first: "find P xs = Some x \<Longrightarrow> x \<in> set xs \<and> P x"
  by (induction xs) (auto split: if_split_asm)

lemma query_row_Ok_iff:
  "query_row selected decode rows = Ok x \<longleftrightarrow> (\<exists>r. find selected rows = Some r \<and> decode r = Ok x)"
  by (auto simp: query_row_def split: option.split)

lemma query_row_Ok_D:
  "query_row selected decode rows = Ok x \<Longrightarrow> \<exists>r \<in> set rows. selected r \<and> decode r = Ok x"
  using find_Some_iff_first by (fastforce simp: query_row_Ok_iff)

lemma find_unique:
  assumes "x \<in> set xs" and "P x" and "\<And>y. y \<in> set xs \<Longrightarrow> P y \<Longrightarrow> y = x"
  shows "find P xs = Some x"
proof -
  have "find P xs \<noteq> None" using assms(1,2) by (auto simp: find_None_iff)
  then obtain y where y: "find P xs = Some y" by blast
  then have "y = x" using find_Some_iff_first [OF y] assms(3) by blast
  with y show ?thesis by simp
qed

lemma distinct_map_eq: "distinct (map key xs) \<Longrightarrow> x \<in> set xs \<Longrightarrow> y \<in> set xs \<Longrightarrow> key x = key y \<Longrightarrow> x = y"
  by (auto simp: distinct_map inj_on_def)

lemma query_row_unique:
  assumes "x \<in> set rows" and "selected x" and "\<And>y. y \<in> set rows \<Longrightarrow> selected y \<Longrightarrow> y = x"
  shows "query_row selected decode rows = decode x"
  using find_unique [of x rows selected, OF assms] by (simp add: query_row_def)

lemma query_row_NotFound:
  "(\<And>x. x \<in> set rows \<Longrightarrow> \<not> selected x) \<Longrightarrow> query_row selected decode rows = Err NotFound"
  by (simp add: query_row_def find_None_iff [THEN iffD2])

lemma update_rows_Ok_iff:
  "update_rows selected change check rows = Ok (n, rows') \<longleftrightarrow>
     (\<forall>r \<in> set rows. selected r \<longrightarrow> check (change r))
     \<and> n = length (filter selected rows)
     \<and> rows' = map (\<lambda>r. if selected r then change r else r) rows"
  by (auto simp: update_rows_def list_all_iff)

text \<open>At most one row of a keyed table is selected by its key.\<close>

lemma keyed_selection:
  assumes "distinct (map key rows)" and "\<And>r. selected r \<Longrightarrow> key r = k"
  shows "length (filter selected rows) \<le> 1"
  using assms
proof (induction rows)
  case (Cons r rows)
  show ?case
  proof (cases "selected r")
    case True
    then have "\<not> selected x" if "x \<in> set rows" for x
      using Cons.prems that by (metis distinct.simps(2) image_eqI list.set_map list.simps(9))
    then have "filter selected rows = []" by (simp add: filter_empty_conv)
    then show ?thesis by simp
  next
    case False
    with Cons show ?thesis by simp
  qed
qed simp

lemma keyed_selection_one:
  assumes "distinct (map key rows)" and "\<And>r. selected r \<Longrightarrow> key r = k" and "x \<in> set rows" and "selected x"
  shows "length (filter selected rows) = 1"
proof -
  have "x \<in> set (filter selected rows)" using assms(3,4) by simp
  then have "length (filter selected rows) > 0" by (rule length_pos_if_in_set)
  with keyed_selection [of key rows selected k, OF assms(1,2)] show ?thesis by linarith
qed

text \<open>An update by key of a row that is there changes exactly that row.\<close>

lemma update_rows_one:
  assumes "distinct (map key rows)" and "x \<in> set rows" and "selected x"
    and "\<And>r. selected r \<Longrightarrow> key r = key x" and "check (change x)"
  shows "update_rows selected change check rows
    = Ok (1, map (\<lambda>r. if r = x then change r else r) rows)"
proof -
  have only: "selected r \<longleftrightarrow> r = x" if "r \<in> set rows" for r
    using distinct_map_eq [OF assms(1) that assms(2)] assms(3,4) by blast
  have "length (filter selected rows) = 1"
    using assms(1-4) by (intro keyed_selection_one [where key = key and k = "key x"])
  moreover have "map (\<lambda>r. if selected r then change r else r) rows
      = map (\<lambda>r. if r = x then change r else r) rows"
    using only by simp
  moreover have "list_all (\<lambda>r. selected r \<longrightarrow> check (change r)) rows"
    using only assms(5) by (simp add: list_all_iff)
  ultimately show ?thesis by (simp add: update_rows_def)
qed

lemma find_updated:
  assumes "distinct (map key rows)" and "x \<in> set rows" and "key (change x) = key x"
    and "P (change x)" and "\<And>r. P r \<Longrightarrow> key r = key x"
  shows "find P (map (\<lambda>r. if r = x then change r else r) rows) = Some (change x)"
proof (rule find_unique)
  show "change x \<in> set (map (\<lambda>r. if r = x then change r else r) rows)" using assms(2) by force
next
  fix y
  assume "y \<in> set (map (\<lambda>r. if r = x then change r else r) rows)" and "P y"
  then obtain r where r: "r \<in> set rows" "y = (if r = x then change r else r)" by auto
  have "key y = key x" by (rule assms(5) [OF \<open>P y\<close>])
  then have "key r = key x" using r(2) by (simp split: if_split_asm)
  then have "r = x" using distinct_map_eq [OF assms(1) r(1) assms(2)] by simp
  with r(2) show "y = change x" by simp
qed (rule assms(4))

lemma selected_exists: "length (filter selected rows) = 1 \<Longrightarrow> \<exists>r \<in> set rows. selected r"
proof -
  assume "length (filter selected rows) = 1"
  then have "filter selected rows \<noteq> []" by (auto simp del: filter_empty_conv)
  then show ?thesis by (auto simp: filter_empty_conv)
qed

lemma map_update_key:
  assumes "\<And>r. key (change r) = key r"
  shows "map key (map (\<lambda>r. if selected r then change r else r) rows) = map key rows"
  using assms by simp

lemma update_rows_D:
  assumes "update_rows sel f check xs = Ok (n, ys)"
  shows "ys = map (\<lambda>x. if sel x then f x else x) xs" and "n = length (filter sel xs)"
    and "\<And>x. x \<in> set xs \<Longrightarrow> sel x \<Longrightarrow> check (f x)"
  using assms by (simp_all add: update_rows_Ok_iff)

lemma bex_update:
  assumes "\<exists>x \<in> set xs. P x" and "\<And>x. x \<in> set xs \<Longrightarrow> P x \<Longrightarrow> sel x \<Longrightarrow> P (f x)"
  shows "\<exists>y \<in> set (map (\<lambda>x. if sel x then f x else x) xs). P y"
proof -
  obtain x where x: "x \<in> set xs" "P x" using assms(1) by blast
  then have "P (if sel x then f x else x)" using assms(2) by simp
  with x(1) show ?thesis by (metis (mono_tags, lifting) image_eqI list.set_map)
qed

lemma ball_update:
  assumes "\<And>x. x \<in> set xs \<Longrightarrow> P x" and "\<And>x. x \<in> set xs \<Longrightarrow> sel x \<Longrightarrow> P (f x)"
    and "y \<in> set (map (\<lambda>x. if sel x then f x else x) xs)"
  shows "P y"
  using assms by (auto split: if_split_asm)

lemma update_rows_possible:
  assumes "\<And>x. x \<in> set xs \<Longrightarrow> sel x \<Longrightarrow> check (f x)"
  shows "update_rows sel f check xs = Ok (length (filter sel xs), map (\<lambda>x. if sel x then f x else x) xs)"
  using assms by (simp add: update_rows_Ok_iff)

lemma changed_once_Ok_iff [result_simps]: "changed_once n = Ok u \<longleftrightarrow> n = 1"
  by (simp add: changed_once_def)

lemma insert_row_Ok_iff [result_simps]:
  "insert_row allowed row rows = Ok rows' \<longleftrightarrow> allowed \<and> rows' = rows @ [row]"
  by (auto simp: insert_row_def)

lemma to_i64_Ok_iff [result_simps]: "to_i64 n = Ok k \<longleftrightarrow> n \<le> i64_max \<and> k = int n"
  by (auto simp: to_i64_def)

lemma validate_hash_Ok_iff [result_simps]:
  "validate_hash h = Ok u \<longleftrightarrow> length h = 64 \<and> list_all is_lower_hex h"
  by (auto simp: validate_hash_def result_simps object_checksum_Ok_iff)

text \<open>Outcomes: a transaction that fails keeps the database, a check that fails keeps it too.\<close>

lemma write_transaction_Ok_iff:
  "write_transaction operation db = (Ok x, db') \<longleftrightarrow> operation db = Ok (x, db')"
  by (auto simp: write_transaction_def split: sum.split)

lemma write_transaction_Err_D: "write_transaction operation db = (Err e, db') \<Longrightarrow> db' = db"
  by (auto simp: write_transaction_def split: sum.split_asm)

lemma after_Ok_iff:
  "after validated db continue = (Ok x, db') \<longleftrightarrow> (\<exists>v. validated = Ok v \<and> continue v = (Ok x, db'))"
  by (auto simp: after_def split: sum.split)

lemma after_Err_D:
  "after validated db continue = (Err e, db') \<Longrightarrow>
     db' = db \<or> (\<exists>v. validated = Ok v \<and> continue v = (Err e, db'))"
  by (auto simp: after_def split: sum.split_asm)

lemmas outcome_iffs = write_transaction_Ok_iff after_Ok_iff

section \<open>Lemmas on decoders\<close>

lemma required_u64_Ok_iff [result_simps]: "required_u64 k = Ok n \<longleftrightarrow> k = int n"
  by (auto simp: required_u64_def)

lemma required_u32_Ok_iff [result_simps]: "required_u32 k = Ok n \<longleftrightarrow> k = int n \<and> n \<le> u32_max"
  by (auto simp: required_u32_def)

lemma optional_u64_Ok_iff [result_simps]: "optional_u64 v = Ok w \<longleftrightarrow> v = map_option int w"
  by (cases v; cases w) (auto simp: optional_u64_def result_simps)

lemma optional_u32_Ok_iff [result_simps]:
  "optional_u32 v = Ok w \<longleftrightarrow> v = map_option int w \<and> (\<forall>n. w = Some n \<longrightarrow> n \<le> u32_max)"
  by (cases v; cases w) (auto simp: optional_u32_def result_simps)

lemma object_version_Ok_iff:
  "object_version r = Ok x \<longleftrightarrow>
     ov_version r = int (ovr_version x)
     \<and> ov_state r = upload_state_as_str (ovr_state x)
     \<and> ov_size r = map_option int (ovr_size x)
     \<and> ov_created_at_ms r = int (ovr_created_at_ms x)
     \<and> ov_source r = object_source_as_str (ovr_source x)
     \<and> ovr_id x = ov_id r \<and> ovr_project_id x = ov_project_id r
     \<and> ovr_object_path x = ov_object_path r \<and> ovr_storage_key x = ov_storage_key r
     \<and> ovr_checksum x = ov_checksum r \<and> ovr_git_repository x = ov_git_repository r
     \<and> ovr_git_commit x = ov_git_commit r \<and> ovr_git_branch x = ov_git_branch r"
  by (cases x)
    (auto simp: object_version_def result_simps upload_state.parse_iff object_source.parse_iff)

lemma upload_reservation_Ok_iff:
  "upload_reservation (r, v) = Ok x \<longleftrightarrow>
     object_version v = Ok (urr_version x)
     \<and> ur_expected_size r = int (urr_expected_size x)
     \<and> ur_expires_at_ms r = int (urr_expires_at_ms x)
     \<and> ur_state r = reservation_state_as_str (urr_state x)
     \<and> ur_strategy r = strategy_as_str (urr_strategy x)
     \<and> ur_part_size r = map_option int (urr_part_size x)
     \<and> ur_part_count r = map_option int (urr_part_count x)
     \<and> (\<forall>n. urr_part_count x = Some n \<longrightarrow> n \<le> u32_max)
     \<and> urr_id x = ur_id r \<and> urr_filename x = ur_filename r
     \<and> urr_content_type x = ur_content_type r
     \<and> urr_expected_checksum x = ur_expected_checksum r
     \<and> urr_provider_upload_id x = ur_provider_upload_id r"
  by (cases x)
    (auto simp: upload_reservation_def Let_def result_simps reservation_state.parse_iff
      strategy.parse_iff)

end
