(* ===== verification/Transfers.thy ===== *)
theory Transfers
  imports Repository_State "HOL-Library.Product_Lexorder"
begin

text \<open>
  The byte-transfer metadata of \<^verbatim>\<open>crates/blobyard-repository-sqlite\<close>: \<^verbatim>\<open>transfers.rs\<close>,
  \<^verbatim>\<open>transfer_reservations.rs\<close>, \<^verbatim>\<open>transfer_validation.rs\<close>, \<^verbatim>\<open>transfer_multipart.rs\<close>,
  \<^verbatim>\<open>transfer_downloads.rs\<close> and \<^verbatim>\<open>transfer_listing.rs\<close>. Every SQL statement is a function on the
  tables it names; the operations compose them in source order. An operation that runs in
  \<^verbatim>\<open>write_transaction\<close> leaves the database unchanged when it fails; the operations that run on
  the bare connection perform at most one write.
\<close>

section \<open>Validation\<close>

definition MAX_PROVIDER_UPLOAD_ID_LENGTH :: nat where
  "MAX_PROVIDER_UPLOAD_ID_LENGTH = 4096"

record ValidatedReservation =
  vr_expected_size :: int
  vr_expires_at_ms :: int
  vr_created_at_ms :: int
  vr_part_size :: "int option"

definition validate_strategy :: "NewUploadReservation \<Rightarrow> RepositoryError + unit" where
  "validate_strategy value =
     (case (nur_strategy value, nur_part_size value, nur_part_count value) of
        (RySingle, None, None) \<Rightarrow> Ok ()
      | (RyMultipart, Some part_size, Some count) \<Rightarrow>
          if part_size > 0 \<and> count > 0 \<and> count \<le> 10000
          then (if div_ceil (nur_expected_size value) part_size = count then Ok () else Err InvalidInput)
          else Err InvalidInput
      | _ \<Rightarrow> Err InvalidInput)"

definition validate_provenance ::
  "string option \<Rightarrow> string option \<Rightarrow> string option \<Rightarrow> RepositoryError + unit" where
  "validate_provenance repository commit branch =
     try_each validate_text (List.map_filter (\<lambda>v. v) [repository, commit, branch])"

definition validate_reservation :: "NewUploadReservation \<Rightarrow> RepositoryError + ValidatedReservation" where
  "validate_reservation value =
     and_then (try_each validate_text
       [nur_id value, nur_project_id value, nur_object_path value, nur_filename value,
        nur_content_type value]) (\<lambda>_.
     and_then (validate_hash (nur_expected_checksum value)) (\<lambda>_.
     and_then (validate_hash (nur_capability_hash value)) (\<lambda>_.
     and_then (map_err (\<lambda>_. InvalidInput) (storage_key_new (nur_storage_key value))) (\<lambda>_.
     and_then (validate_provenance (nur_git_repository value) (nur_git_commit value)
       (nur_git_branch value)) (\<lambda>_.
     and_then (validate_strategy value) (\<lambda>_.
     and_then (to_i64 (nur_created_at_ms value)) (\<lambda>created_at_ms.
     and_then (to_i64 (nur_expires_at_ms value)) (\<lambda>expires_at_ms.
       if expires_at_ms \<le> created_at_ms then Err InvalidInput
       else and_then (to_i64 (nur_expected_size value)) (\<lambda>expected_size.
            and_then (transpose_option to_i64 (nur_part_size value)) (\<lambda>part_size.
              Ok \<lparr>vr_expected_size = expected_size, vr_expires_at_ms = expires_at_ms,
                  vr_created_at_ms = created_at_ms, vr_part_size = part_size\<rparr>))))))))))"

definition validate_upload_integrity :: "string \<Rightarrow> string \<Rightarrow> RepositoryError + unit" where
  "validate_upload_integrity uid checksum =
     and_then (validate_text uid) (\<lambda>_. validate_hash checksum)"

definition validate_provider_upload_id :: "string \<Rightarrow> RepositoryError + unit" where
  "validate_provider_upload_id value =
     (if value = [] \<or> length value > MAX_PROVIDER_UPLOAD_ID_LENGTH \<or> has_control value
      then Err InvalidInput else Ok ())"

section \<open>Reservations\<close>

text \<open>\<^verbatim>\<open>upload_reservations r JOIN object_versions v ON v.id = r.version_id\<close>\<close>

definition reservation_join :: "database \<Rightarrow> (upload_reservation_row \<times> object_version_row) list" where
  "reservation_join db =
     concat (map (\<lambda>r. map (Pair r) (filter (\<lambda>v. ov_id v = ur_version_id r) (object_versions db)))
       (upload_reservations db))"

definition reservation_by_id :: "database \<Rightarrow> string \<Rightarrow> RepositoryError + UploadReservationRecord" where
  "reservation_by_id db uid =
     query_row (\<lambda>(r, v). ur_id r = uid) upload_reservation (reservation_join db)"

definition ensure_project :: "database \<Rightarrow> string \<Rightarrow> RepositoryError + unit" where
  "ensure_project db uid =
     (if list_ex (\<lambda>p. pj_id p = uid) (projects db) then Ok () else Err NotFound)"

text \<open>The version numbers \<^verbatim>\<open>next_version\<close> looks at: those of the stored versions of the path and
  those of the items of its deletion operations.\<close>

definition known_versions :: "database \<Rightarrow> string \<Rightarrow> string \<Rightarrow> int list" where
  "known_versions db project_id object_path =
     map ov_version (filter (\<lambda>v. ov_project_id v = project_id \<and> ov_object_path v = object_path)
       (object_versions db))
     @ map di_version (filter (\<lambda>item.
         list_ex (\<lambda>operation. do_id operation = di_operation_id item
             \<and> do_project_id operation = project_id \<and> do_object_path operation = object_path)
           (deletion_operations db)) (deletion_items db))"

text \<open>\<^verbatim>\<open>COALESCE(MAX(version), 0) + 1\<close>: at the end of the 64-bit range the sum is no integer and
  does not decode.\<close>

definition next_version :: "database \<Rightarrow> NewUploadReservation \<Rightarrow> RepositoryError + int" where
  "next_version db value =
     (let versions = known_versions db (nur_project_id value) (nur_object_path value);
          version = (if versions = [] then 0 else Max (set versions)) + 1
      in if version > int i64_max \<or> version < 0 then Err Unavailable else Ok version)"

definition new_version_row :: "NewUploadReservation \<Rightarrow> int \<Rightarrow> int \<Rightarrow> object_version_row" where
  "new_version_row value version created_at_ms =
     \<lparr>ov_id = nur_id value, ov_project_id = nur_project_id value,
      ov_object_path = nur_object_path value, ov_version = version,
      ov_storage_key = nur_storage_key value, ov_state = ''pending'', ov_size = None,
      ov_checksum = None, ov_created_at_ms = created_at_ms,
      ov_source = object_source_as_str (nur_source value),
      ov_git_repository = nur_git_repository value, ov_git_commit = nur_git_commit value,
      ov_git_branch = nur_git_branch value\<rparr>"

definition object_version_allowed :: "database \<Rightarrow> object_version_row \<Rightarrow> bool" where
  "object_version_allowed db row \<longleftrightarrow>
     object_version_check row
     \<and> \<not> list_ex (\<lambda>v. ov_id v = ov_id row \<or> ov_storage_key v = ov_storage_key row
          \<or> (ov_project_id v = ov_project_id row \<and> ov_object_path v = ov_object_path row
             \<and> ov_version v = ov_version row)) (object_versions db)
     \<and> list_ex (\<lambda>p. pj_id p = ov_project_id row) (projects db)"

definition insert_version ::
  "database \<Rightarrow> NewUploadReservation \<Rightarrow> int \<Rightarrow> int \<Rightarrow> RepositoryError + database" where
  "insert_version db value version created_at_ms =
     (let row = new_version_row value version created_at_ms
      in and_then (insert_row (object_version_allowed db row) row (object_versions db)) (\<lambda>rows.
           Ok (db\<lparr>object_versions := rows\<rparr>)))"

definition new_reservation_row ::
  "NewUploadReservation \<Rightarrow> ValidatedReservation \<Rightarrow> upload_reservation_row" where
  "new_reservation_row value validated =
     \<lparr>ur_id = nur_id value, ur_version_id = nur_id value, ur_filename = nur_filename value,
      ur_content_type = nur_content_type value, ur_expected_size = vr_expected_size validated,
      ur_expected_checksum = nur_expected_checksum value,
      ur_capability_hash = nur_capability_hash value,
      ur_expires_at_ms = vr_expires_at_ms validated, ur_state = ''requested'',
      ur_received_size = None, ur_received_checksum = None,
      ur_strategy = strategy_as_str (nur_strategy value), ur_part_size = vr_part_size validated,
      ur_part_count = map_option int (nur_part_count value), ur_provider_upload_id = None\<rparr>"

definition upload_reservation_allowed :: "database \<Rightarrow> upload_reservation_row \<Rightarrow> bool" where
  "upload_reservation_allowed db row \<longleftrightarrow>
     upload_reservation_check row
     \<and> \<not> list_ex (\<lambda>r. ur_id r = ur_id row \<or> ur_version_id r = ur_version_id row
          \<or> ur_capability_hash r = ur_capability_hash row) (upload_reservations db)
     \<and> list_ex (\<lambda>v. ov_id v = ur_version_id row) (object_versions db)"

definition insert_reservation ::
  "database \<Rightarrow> NewUploadReservation \<Rightarrow> ValidatedReservation \<Rightarrow> RepositoryError + database" where
  "insert_reservation db value validated =
     (let row = new_reservation_row value validated
      in and_then (insert_row (upload_reservation_allowed db row) row (upload_reservations db)) (\<lambda>rows.
           Ok (db\<lparr>upload_reservations := rows\<rparr>)))"

definition reserve_upload ::
  "database \<Rightarrow> NewUploadReservation \<Rightarrow> UploadReservationRecord outcome" where
  "reserve_upload db reservation =
     after (validate_reservation reservation) db (\<lambda>validated.
       write_transaction (\<lambda>db.
         and_then (ensure_project db (nur_project_id reservation)) (\<lambda>_.
         and_then (next_version db reservation) (\<lambda>version.
         and_then (insert_version db reservation version (vr_created_at_ms validated)) (\<lambda>db.
         and_then (insert_reservation db reservation validated) (\<lambda>db.
         and_then (reservation_by_id db (nur_id reservation)) (\<lambda>result.
           Ok (result, db))))))) db)"

definition upload_by_capability ::
  "database \<Rightarrow> string \<Rightarrow> nat \<Rightarrow> RepositoryError + UploadReservationRecord" where
  "upload_by_capability db capability_hash now_ms =
     and_then (validate_hash capability_hash) (\<lambda>_.
     and_then (to_i64 now_ms) (\<lambda>now.
       query_row (\<lambda>(r, v). ur_capability_hash r = capability_hash \<and> ur_state r = ''requested''
           \<and> ur_expires_at_ms r > now) upload_reservation (reservation_join db)))"

definition upload_by_id :: "database \<Rightarrow> string \<Rightarrow> RepositoryError + UploadReservationRecord" where
  "upload_by_id db uid = and_then (validate_text uid) (\<lambda>_. reservation_by_id db uid)"

definition renew_upload :: "database \<Rightarrow> string \<Rightarrow> nat \<Rightarrow> unit outcome" where
  "renew_upload db uid expires_at_ms =
     after (and_then (validate_text uid) (\<lambda>_. to_i64 expires_at_ms)) db (\<lambda>expires.
     after (update_rows (\<lambda>r. ur_id r = uid \<and> ur_state r = ''requested'')
              (\<lambda>r. r\<lparr>ur_expires_at_ms := expires\<rparr>) upload_reservation_check
              (upload_reservations db)) db (\<lambda>(changed, rows).
       (changed_once changed, db\<lparr>upload_reservations := rows\<rparr>)))"

definition require_state :: "ReservationState \<Rightarrow> ReservationState \<Rightarrow> RepositoryError + unit" where
  "require_state actual expected = (if actual = expected then Ok () else Err Conflict)"

definition update_reservation_state ::
  "database \<Rightarrow> string \<Rightarrow> string \<Rightarrow> string \<Rightarrow> bool \<Rightarrow> RepositoryError + database" where
  "update_reservation_state db uid from_state to_state clear_received =
     and_then (update_rows (\<lambda>r. ur_id r = uid \<and> ur_state r = from_state)
         (if clear_received
          then (\<lambda>r. r\<lparr>ur_state := to_state, ur_received_size := None, ur_received_checksum := None\<rparr>)
          else (\<lambda>r. r\<lparr>ur_state := to_state\<rparr>))
         upload_reservation_check (upload_reservations db)) (\<lambda>(changed, rows).
     and_then (changed_once changed) (\<lambda>_. Ok (db\<lparr>upload_reservations := rows\<rparr>)))"

definition object_version_by_id :: "database \<Rightarrow> string \<Rightarrow> RepositoryError + ObjectVersionRecord" where
  "object_version_by_id db uid = query_row (\<lambda>v. ov_id v = uid) object_version (object_versions db)"

definition record_uploaded_bytes :: "database \<Rightarrow> string \<Rightarrow> nat \<Rightarrow> string \<Rightarrow> unit outcome" where
  "record_uploaded_bytes db uid byte_count checksum =
     after (and_then (validate_upload_integrity uid checksum) (\<lambda>_.
            and_then (to_i64 byte_count) (\<lambda>stored_size.
            and_then (reservation_by_id db uid) (\<lambda>current.
              if urr_expected_size current \<noteq> byte_count \<or> urr_expected_checksum current \<noteq> checksum
              then Err InvalidInput
              else if urr_state current \<noteq> RsRequested then Err Conflict
              else Ok stored_size)))) db (\<lambda>stored_size.
     after (update_rows (\<lambda>r. ur_id r = uid \<and> ur_state r = ''requested'')
              (\<lambda>r. r\<lparr>ur_state := ''uploaded'', ur_received_size := Some stored_size,
                     ur_received_checksum := Some checksum\<rparr>)
              upload_reservation_check (upload_reservations db)) db (\<lambda>(changed, rows).
       (changed_once changed, db\<lparr>upload_reservations := rows\<rparr>)))"

text \<open>\<^verbatim>\<open>UPDATE object_versions SET state = 'complete', size = .., checksum = .. WHERE id = .. AND
  state = 'pending'\<close> followed by \<^verbatim>\<open>changed_once\<close>, and the same for \<^verbatim>\<open>'aborted'\<close>.\<close>

definition complete_version ::
  "database \<Rightarrow> string \<Rightarrow> int option \<Rightarrow> string \<Rightarrow> RepositoryError + database" where
  "complete_version db version_id byte_count checksum =
     and_then (update_rows (\<lambda>v. ov_id v = version_id \<and> ov_state v = ''pending'')
         (\<lambda>v. v\<lparr>ov_state := ''complete'', ov_size := byte_count, ov_checksum := Some checksum\<rparr>)
         object_version_check (object_versions db)) (\<lambda>(changed, rows).
     and_then (changed_once changed) (\<lambda>_. Ok (db\<lparr>object_versions := rows\<rparr>)))"

definition abort_version :: "database \<Rightarrow> string \<Rightarrow> RepositoryError + database" where
  "abort_version db version_id =
     and_then (update_rows (\<lambda>v. ov_id v = version_id \<and> ov_state v = ''pending'')
         (\<lambda>v. v\<lparr>ov_state := ''aborted''\<rparr>) object_version_check (object_versions db)) (\<lambda>(changed, rows).
     and_then (changed_once changed) (\<lambda>_. Ok (db\<lparr>object_versions := rows\<rparr>)))"

definition complete_upload :: "database \<Rightarrow> string \<Rightarrow> ObjectVersionRecord outcome" where
  "complete_upload db uid =
     after (validate_text uid) db (\<lambda>_.
       write_transaction (\<lambda>db.
         and_then (reservation_by_id db uid) (\<lambda>reservation.
         and_then (require_state (urr_state reservation) RsUploaded) (\<lambda>_.
         and_then (update_reservation_state db uid ''uploaded'' ''complete'' False) (\<lambda>db.
         and_then (complete_version db (ovr_id (urr_version reservation))
             (map_option ur_expected_size
               (find (\<lambda>r. ur_id r = urr_id reservation) (upload_reservations db)))
             (urr_expected_checksum reservation)) (\<lambda>db.
         and_then (object_version_by_id db (ovr_id (urr_version reservation))) (\<lambda>version.
           Ok (version, db))))))) db)"

definition delete_parts :: "database \<Rightarrow> string \<Rightarrow> database" where
  "delete_parts db upload_id =
     db\<lparr>upload_parts := filter (\<lambda>p. up_upload_id p \<noteq> upload_id) (upload_parts db)\<rparr>"

definition abort_upload :: "database \<Rightarrow> string \<Rightarrow> UploadReservationRecord outcome" where
  "abort_upload db uid =
     after (validate_text uid) db (\<lambda>_.
       write_transaction (\<lambda>db.
         and_then (reservation_by_id db uid) (\<lambda>reservation.
           if urr_state reservation \<noteq> RsRequested \<and> urr_state reservation \<noteq> RsUploaded
           then Err Conflict
           else and_then (update_reservation_state db uid
                  (reservation_state_as_str (urr_state reservation)) ''aborted'' True) (\<lambda>db.
                and_then (abort_version (delete_parts db uid) (ovr_id (urr_version reservation))) (\<lambda>db.
                  Ok (reservation, db))))) db)"

section \<open>Multipart parts\<close>

definition require_multipart :: "UploadReservationRecord \<Rightarrow> RepositoryError + (nat \<times> nat)" where
  "require_multipart upload =
     (case (urr_state upload, urr_strategy upload, urr_part_size upload, urr_part_count upload) of
        (RsRequested, RyMultipart, Some part_size, Some count) \<Rightarrow> Ok (part_size, count)
      | _ \<Rightarrow> Err Conflict)"

definition attach_multipart ::
  "database \<Rightarrow> string \<Rightarrow> string \<Rightarrow> UploadReservationRecord outcome" where
  "attach_multipart db uid provider_upload_id =
     after (and_then (validate_text uid) (\<lambda>_. validate_provider_upload_id provider_upload_id)) db (\<lambda>_.
       write_transaction (\<lambda>db.
         and_then (reservation_by_id db uid) (\<lambda>current.
         and_then (require_multipart current) (\<lambda>_.
           case urr_provider_upload_id current of
             Some existing \<Rightarrow> if existing = provider_upload_id then Ok (current, db) else Err Conflict
           | None \<Rightarrow>
               and_then (update_rows (\<lambda>r. ur_id r = uid \<and> ur_state r = ''requested''
                     \<and> ur_provider_upload_id r = None)
                   (\<lambda>r. r\<lparr>ur_provider_upload_id := Some provider_upload_id\<rparr>)
                   upload_reservation_check (upload_reservations db)) (\<lambda>(changed, rows).
               and_then (reservation_by_id (db\<lparr>upload_reservations := rows\<rparr>) uid) (\<lambda>result.
                 Ok (result, db\<lparr>upload_reservations := rows\<rparr>)))))) db)"

text \<open>The closure of \<^verbatim>\<open>any\<close> in \<^verbatim>\<open>validate_batch\<close>, with its set of seen part numbers.\<close>

fun batch_invalid :: "string \<Rightarrow> nat set \<Rightarrow> NewUploadPartGrant list \<Rightarrow> bool" where
  "batch_invalid upload_id numbers [] \<longleftrightarrow> False"
| "batch_invalid upload_id numbers (part # parts) \<longleftrightarrow>
     npg_upload_id part \<noteq> upload_id \<or> npg_part_number part \<in> numbers
     \<or> batch_invalid upload_id (insert (npg_part_number part) numbers) parts"

definition validate_batch :: "NewUploadPartGrant list \<Rightarrow> RepositoryError + unit" where
  "validate_batch parts =
     (if parts = [] \<or> length parts > 100 then Err InvalidInput
      else if batch_invalid (npg_upload_id (hd parts)) {} parts then Err InvalidInput
      else Ok ())"

definition expected_part_size :: "UploadReservationRecord \<Rightarrow> nat \<Rightarrow> nat \<Rightarrow> nat" where
  "expected_part_size upload number part_size =
     min (saturating_sub_u64 (urr_expected_size upload) (saturating_mul_u64 (number - 1) part_size)) part_size"

record ValidatedPart =
  vp_expected_size :: int
  vp_expires_at_ms :: int

definition validate_part ::
  "NewUploadPartGrant \<Rightarrow> UploadReservationRecord \<Rightarrow> nat \<Rightarrow> nat \<Rightarrow> RepositoryError + ValidatedPart" where
  "validate_part part upload part_size count =
     and_then (validate_hash (npg_capability_hash part)) (\<lambda>_.
     and_then (to_i64 (npg_expected_size part)) (\<lambda>expected_size.
     and_then (to_i64 (npg_expires_at_ms part)) (\<lambda>expires_at_ms.
       if npg_part_number part = 0 \<or> npg_part_number part > count
         \<or> npg_expected_size part \<noteq> expected_part_size upload (npg_part_number part) part_size
       then Err InvalidInput
       else Ok \<lparr>vp_expected_size = expected_size, vp_expires_at_ms = expires_at_ms\<rparr>)))"

definition new_part_row :: "NewUploadPartGrant \<Rightarrow> ValidatedPart \<Rightarrow> upload_part_row" where
  "new_part_row part validated =
     \<lparr>up_upload_id = npg_upload_id part, up_part_number = int (npg_part_number part),
      up_expected_size = vp_expected_size validated,
      up_capability_hash = npg_capability_hash part,
      up_expires_at_ms = vp_expires_at_ms validated, up_state = ''pending'',
      up_received_size = None, up_received_checksum = None, up_provider_tag = None\<rparr>"

text \<open>\<^verbatim>\<open>INSERT .. ON CONFLICT(upload_id, part_number) DO UPDATE SET capability_hash, expires_at_ms\<close>:
  the checks of the new row come first, then the conflict target, then the other keys.\<close>

definition upsert_part ::
  "database \<Rightarrow> NewUploadPartGrant \<Rightarrow> ValidatedPart \<Rightarrow> RepositoryError + database" where
  "upsert_part db part validated =
     (let row = new_part_row part validated;
          same = (\<lambda>p. up_upload_id p = up_upload_id row \<and> up_part_number p = up_part_number row);
          taken = list_ex (\<lambda>p. \<not> same p \<and> up_capability_hash p = up_capability_hash row)
                    (upload_parts db)
      in if \<not> upload_part_check row then Err Conflict
         else if list_ex same (upload_parts db)
         then (if taken then Err Conflict
               else Ok (db\<lparr>upload_parts := map (\<lambda>p. if same p
                          then p\<lparr>up_capability_hash := up_capability_hash row,
                                 up_expires_at_ms := up_expires_at_ms row\<rparr> else p) (upload_parts db)\<rparr>))
         else and_then (insert_row (\<not> taken \<and> list_ex (\<lambda>r. ur_id r = up_upload_id row)
                  (upload_reservations db)) row (upload_parts db)) (\<lambda>rows.
                Ok (db\<lparr>upload_parts := rows\<rparr>)))"

definition list_on ::
  "database \<Rightarrow> string \<Rightarrow> NewUploadPartGrant list option \<Rightarrow> RepositoryError + UploadPartRecord list" where
  "list_on db upload_id requested =
     and_then (collect_results upload_part
         (sort_key up_part_number (filter (\<lambda>p. up_upload_id p = upload_id) (upload_parts db)))) (\<lambda>all.
       Ok (case requested of
             Some parts \<Rightarrow> filter (\<lambda>record.
               list_ex (\<lambda>part. npg_part_number part = upr_part_number record) parts) all
           | None \<Rightarrow> all))"

fun issue_each :: "UploadReservationRecord \<Rightarrow> nat \<Rightarrow> nat \<Rightarrow> NewUploadPartGrant list \<Rightarrow> database
    \<Rightarrow> RepositoryError + database" where
  "issue_each upload part_size count [] db = Ok db"
| "issue_each upload part_size count (part # parts) db =
     and_then (validate_part part upload part_size count) (\<lambda>validated.
     and_then (upsert_part db part validated) (\<lambda>db.
       issue_each upload part_size count parts db))"

definition issue_upload_parts ::
  "database \<Rightarrow> NewUploadPartGrant list \<Rightarrow> UploadPartRecord list outcome" where
  "issue_upload_parts db parts =
     after (validate_batch parts) db (\<lambda>_.
       write_transaction (\<lambda>db.
         and_then (reservation_by_id db (npg_upload_id (hd parts))) (\<lambda>upload.
         and_then (require_multipart upload) (\<lambda>(part_size, part_count).
         and_then (issue_each upload part_size part_count parts db) (\<lambda>db.
         and_then (list_on db (urr_id upload) (Some parts)) (\<lambda>records.
           Ok (records, db)))))) db)"

text \<open>\<^verbatim>\<open>upload_parts p JOIN upload_reservations r ON r.id = p.upload_id\<close>\<close>

definition part_join :: "database \<Rightarrow> (upload_part_row \<times> upload_reservation_row) list" where
  "part_join db =
     concat (map (\<lambda>p. map (Pair p) (filter (\<lambda>r. ur_id r = up_upload_id p) (upload_reservations db)))
       (upload_parts db))"

definition upload_part_by_capability ::
  "database \<Rightarrow> string \<Rightarrow> nat \<Rightarrow> RepositoryError + (UploadReservationRecord \<times> UploadPartRecord)" where
  "upload_part_by_capability db capability_hash now_ms =
     and_then (validate_hash capability_hash) (\<lambda>_.
     and_then (to_i64 now_ms) (\<lambda>now.
     and_then (query_row (\<lambda>(p, r). up_capability_hash p = capability_hash \<and> up_expires_at_ms p > now
           \<and> ur_state r = ''requested'' \<and> ur_strategy r = ''multipart'')
         (\<lambda>(p, r). upload_part p) (part_join db)) (\<lambda>part.
     and_then (reservation_by_id db (upr_upload_id part)) (\<lambda>upload.
       Ok (upload, part)))))"

definition record_uploaded_part ::
  "database \<Rightarrow> string \<Rightarrow> nat \<Rightarrow> nat \<Rightarrow> string \<Rightarrow> string option \<Rightarrow> unit outcome" where
  "record_uploaded_part db upload_id part_number byte_count checksum provider_tag =
     after (and_then (validate_upload_integrity upload_id checksum) (\<lambda>_.
            and_then (case provider_tag of None \<Rightarrow> Ok () | Some tag \<Rightarrow> validate_text tag) (\<lambda>_.
              if part_number = 0 then Err InvalidInput
              else and_then (query_row (\<lambda>(p, r). up_upload_id p = upload_id
                       \<and> up_part_number p = int part_number
                       \<and> ur_state r = ''requested'' \<and> ur_strategy r = ''multipart'')
                     (\<lambda>(p, r). Ok (up_expected_size p)) (part_join db)) (\<lambda>expected.
                   and_then (to_i64 byte_count) (\<lambda>stored.
                     if expected \<noteq> stored then Err InvalidInput else Ok expected))))) db (\<lambda>expected.
     after (update_rows (\<lambda>p. up_upload_id p = upload_id \<and> up_part_number p = int part_number)
              (\<lambda>p. p\<lparr>up_state := ''uploaded'', up_received_size := Some expected,
                     up_received_checksum := Some checksum, up_provider_tag := provider_tag\<rparr>)
              upload_part_check (upload_parts db)) db (\<lambda>(changed, rows).
       (Ok (), db\<lparr>upload_parts := rows\<rparr>)))"

definition list_upload_parts :: "database \<Rightarrow> string \<Rightarrow> RepositoryError + UploadPartRecord list" where
  "list_upload_parts db upload_id =
     and_then (validate_text upload_id) (\<lambda>_.
     and_then (reservation_by_id db upload_id) (\<lambda>_.
       list_on db upload_id None))"

section \<open>Downloads and listing\<close>

definition validate_download_grant :: "NewDownloadGrant \<Rightarrow> RepositoryError + int" where
  "validate_download_grant value =
     and_then (validate_text (ndg_version_id value)) (\<lambda>_.
     and_then (validate_hash (ndg_capability_hash value)) (\<lambda>_.
       to_i64 (ndg_expires_at_ms value)))"

definition download_grant_allowed :: "database \<Rightarrow> download_grant_row \<Rightarrow> bool" where
  "download_grant_allowed db row \<longleftrightarrow>
     dg_expires_at_ms row \<ge> 0
     \<and> \<not> list_ex (\<lambda>d. dg_capability_hash d = dg_capability_hash row) (download_grants db)
     \<and> list_ex (\<lambda>v. ov_id v = dg_version_id row) (object_versions db)"

definition insert_download_grant :: "database \<Rightarrow> download_grant_row \<Rightarrow> RepositoryError + database" where
  "insert_download_grant db row =
     and_then (insert_row (download_grant_allowed db row) row (download_grants db)) (\<lambda>rows.
       Ok (db\<lparr>download_grants := rows\<rparr>))"

definition issue_download :: "database \<Rightarrow> NewDownloadGrant \<Rightarrow> unit outcome" where
  "issue_download db grant =
     after (validate_download_grant grant) db (\<lambda>expires_at_ms.
       case find (\<lambda>v. ov_id v = ndg_version_id grant \<and> ov_state v = ''complete'') (object_versions db) of
         None \<Rightarrow> (Err NotFound, db)
       | Some v \<Rightarrow>
           after (insert_download_grant db \<lparr>dg_capability_hash = ndg_capability_hash grant,
                    dg_version_id = ov_id v, dg_expires_at_ms = expires_at_ms\<rparr>) db (\<lambda>db'.
             (Ok (), db')))"

text \<open>\<^verbatim>\<open>object_versions v JOIN upload_reservations r ON r.version_id = v.id\<close>\<close>

definition stored_join :: "database \<Rightarrow> (object_version_row \<times> upload_reservation_row) list" where
  "stored_join db =
     concat (map (\<lambda>v. map (Pair v) (filter (\<lambda>r. ur_version_id r = ov_id v) (upload_reservations db)))
       (object_versions db))"

text \<open>\<^verbatim>\<open>download_grants d JOIN object_versions v ON v.id = d.version_id JOIN upload_reservations r\<close>\<close>

definition grant_join :: "database \<Rightarrow> (download_grant_row \<times> object_version_row \<times> upload_reservation_row) list" where
  "grant_join db =
     concat (map (\<lambda>d. map (Pair d) (filter (\<lambda>(v, r). ov_id v = dg_version_id d) (stored_join db)))
       (download_grants db))"

definition download_by_capability ::
  "database \<Rightarrow> string \<Rightarrow> nat \<Rightarrow> RepositoryError + StoredObjectRecord" where
  "download_by_capability db capability_hash now_ms =
     and_then (validate_hash capability_hash) (\<lambda>_.
     and_then (to_i64 now_ms) (\<lambda>now.
       query_row (\<lambda>(d, v, r). dg_capability_hash d = capability_hash \<and> dg_expires_at_ms d > now
             \<and> ov_state v = ''complete'')
         (\<lambda>(d, vr). stored_object vr)
         (grant_join db)))"

definition latest_complete :: "database \<Rightarrow> object_version_row \<Rightarrow> int" where
  "latest_complete db v =
     Max (set (map ov_version (filter (\<lambda>latest. ov_project_id latest = ov_project_id v
        \<and> ov_object_path latest = ov_object_path v \<and> ov_state latest = ''complete'')
        (object_versions db))))"

definition list_stored_objects ::
  "database \<Rightarrow> string \<Rightarrow> string option \<Rightarrow> bool \<Rightarrow> RepositoryError + StoredObjectRecord list" where
  "list_stored_objects db project_id prefix include_versions =
     and_then (validate_text project_id) (\<lambda>_.
     and_then (case prefix of None \<Rightarrow> Ok () | Some value \<Rightarrow> validate_text value) (\<lambda>_.
       collect_results stored_object
         (sort_key (\<lambda>(v, r). (ov_object_path v, ov_version v))
           (filter (\<lambda>(v, r). ov_project_id v = project_id \<and> ov_state v = ''complete''
               \<and> (case prefix of None \<Rightarrow> True | Some p \<Rightarrow> starts_with p (ov_object_path v))
               \<and> (include_versions \<or> ov_version v = latest_complete db v)) (stored_join db)))))"

end
