(* ===== verification/Service.thy ===== *)
theory Service
  imports Repository_State
begin

text \<open>
  Two interfaces the metadata services share.

  \<open>transactional_service\<close> is what a client of the repository relies on: a command either fails
  and leaves the state as it was, or succeeds and keeps the invariant. Its lemmas lift that to
  every sequence of commands, in any order and interleaving the connection lock serialises.

  \<open>expiring_capability\<close> is the contract of a resolved capability: it denotes at most one record,
  it resolves at every earlier time if it resolves now, and once it stops it stays dead.
\<close>

fun run_commands :: "('c \<Rightarrow> 's \<Rightarrow> 'r \<times> 's) \<Rightarrow> 'c list \<Rightarrow> 's \<Rightarrow> 's" where
  "run_commands exec [] s = s"
| "run_commands exec (c # cs) s = run_commands exec cs (snd (exec c s))"

text \<open>The commands of a history that did not fail.\<close>

fun effective_commands ::
  "('c \<Rightarrow> 's \<Rightarrow> 'r \<times> 's) \<Rightarrow> ('r \<Rightarrow> bool) \<Rightarrow> 'c list \<Rightarrow> 's \<Rightarrow> 'c list" where
  "effective_commands exec failed [] s = []"
| "effective_commands exec failed (c # cs) s =
     (if failed (fst (exec c s)) then effective_commands exec failed cs s
      else c # effective_commands exec failed cs (snd (exec c s)))"

inductive reached :: "('c \<Rightarrow> 's \<Rightarrow> 'r \<times> 's) \<Rightarrow> 's \<Rightarrow> 's \<Rightarrow> bool" for exec s0 where
  start: "reached exec s0 s0"
| step: "reached exec s0 s \<Longrightarrow> exec c s = (r, s') \<Longrightarrow> reached exec s0 s'"

lemma reached_iff_run: "reached exec s0 s \<longleftrightarrow> (\<exists>cs. s = run_commands exec cs s0)"
proof
  assume "reached exec s0 s"
  then show "\<exists>cs. s = run_commands exec cs s0"
  proof induction
    case start
    have "s0 = run_commands exec [] s0" by simp
    then show ?case by blast
  next
    case (step s c r s')
    then obtain cs where s: "s = run_commands exec cs s0" by blast
    have "run_commands exec (cs @ [c]) s0 = snd (exec c (run_commands exec cs s0))"
      by (induction cs arbitrary: s0) simp_all
    with s step(2) have "s' = run_commands exec (cs @ [c]) s0" by simp
    then show ?case by blast
  qed
next
  assume "\<exists>cs. s = run_commands exec cs s0"
  then obtain cs where s: "s = run_commands exec cs s0" by blast
  have run: "reached exec s0 t \<Longrightarrow> reached exec s0 (run_commands exec cs t)" for t
  proof (induction cs arbitrary: t)
    case (Cons c cs)
    have "reached exec s0 (snd (exec c t))"
      using reached.step [OF Cons.prems prod.collapse [symmetric]] .
    then have "reached exec s0 (run_commands exec cs (snd (exec c t)))" by (rule Cons.IH)
    then show ?case by (simp only: run_commands.simps)
  qed simp
  show "reached exec s0 s" unfolding s by (rule run [OF reached.start])
qed

locale transactional_service =
  fixes exec :: "'c \<Rightarrow> 's \<Rightarrow> 'r \<times> 's"
    and failed :: "'r \<Rightarrow> bool"
    and inv :: "'s \<Rightarrow> bool"
  assumes failed_unchanged: "inv s \<Longrightarrow> exec c s = (r, s') \<Longrightarrow> failed r \<Longrightarrow> s' = s"
    and inv_success: "inv s \<Longrightarrow> exec c s = (r, s') \<Longrightarrow> \<not> failed r \<Longrightarrow> inv s'"
begin

lemma inv_step: "inv s \<Longrightarrow> exec c s = (r, s') \<Longrightarrow> inv s'"
  using failed_unchanged inv_success by metis

lemma inv_run: "inv s \<Longrightarrow> inv (run_commands exec cs s)"
proof (induction cs arbitrary: s)
  case (Cons c cs)
  then have "inv (snd (exec c s))" using inv_step [of s c "fst (exec c s)"] by simp
  with Cons.IH show ?case by simp
qed simp

lemma inv_reached: "reached exec s0 s \<Longrightarrow> inv s0 \<Longrightarrow> inv s"
  by (auto simp: reached_iff_run inv_run)

text \<open>Failed commands leave no trace: a history and its effective part end in the same state.\<close>

lemma run_effective:
  "inv s \<Longrightarrow> run_commands exec cs s = run_commands exec (effective_commands exec failed cs s) s"
proof (induction cs arbitrary: s)
  case (Cons c cs)
  obtain r s' where e: "exec c s = (r, s')" by force
  show ?case
  proof (cases "failed r")
    case True
    then have "s' = s" using failed_unchanged [OF Cons.prems e] by simp
    with Cons e True show ?thesis by simp
  next
    case False
    with Cons e inv_step [OF Cons.prems e] show ?thesis by simp
  qed
qed simp

end

locale expiring_capability =
  fixes inv :: "'s \<Rightarrow> bool"
    and resolve :: "'s \<Rightarrow> string \<Rightarrow> nat \<Rightarrow> RepositoryError + 'x"
  assumes earlier: "inv s \<Longrightarrow> resolve s h t = Ok x \<Longrightarrow> u \<le> t \<Longrightarrow> resolve s h u = Ok x"
begin

lemma denotes_one: "inv s \<Longrightarrow> resolve s h t = Ok x \<Longrightarrow> resolve s h u = Ok y \<Longrightarrow> x = y"
proof -
  assume inv: "inv s" and t: "resolve s h t = Ok x" and u: "resolve s h u = Ok y"
  consider "t \<le> u" | "u \<le> t" by linarith
  then show "x = y" using earlier [OF inv t] earlier [OF inv u] t u by cases auto
qed

lemma stays_dead: "inv s \<Longrightarrow> resolve s h t = Err e \<Longrightarrow> t \<le> u \<Longrightarrow> resolve s h u \<noteq> Ok x"
proof
  assume "inv s" and dead: "resolve s h t = Err e" and "t \<le> u" and "resolve s h u = Ok x"
  then have "resolve s h t = Ok x" using earlier by blast
  with dead show False by simp
qed

end

end
