(* ===== verification/Transfer_Invariants.thy ===== *)
theory Transfer_Invariants
  imports Transfers Service
begin

text \<open>
  The invariant of the transfer tables and its preservation by every transfer operation. A
  reservation and the object version it allocates move together: requested and uploaded
  reservations have a pending version, a complete reservation a complete version with exactly
  the promised size and checksum, an aborted one an aborted version. Parts belong to a
  multipart reservation and have the size the reservation gives their number, download grants
  belong to complete versions.
\<close>

section \<open>The invariant\<close>

definition versions_ok :: "database \<Rightarrow> bool" where
  "versions_ok db \<longleftrightarrow>
     distinct (map ov_id (object_versions db))
     \<and> distinct (map ov_storage_key (object_versions db))
     \<and> distinct (map (\<lambda>v. (ov_project_id v, ov_object_path v, ov_version v)) (object_versions db))
     \<and> (\<forall>v \<in> set (object_versions db). object_version_check v
          \<and> (\<forall>n. ov_size v = Some n \<longrightarrow> n \<ge> 0))"

text \<open>The part arithmetic of a multipart reservation.\<close>

definition multipart_shape :: "nat \<Rightarrow> nat \<Rightarrow> nat \<Rightarrow> bool" where
  "multipart_shape expected_size part_size count \<longleftrightarrow>
     part_size > 0 \<and> count > 0 \<and> div_ceil expected_size part_size = count"

definition reservation_row_ok :: "upload_reservation_row \<Rightarrow> bool" where
  "reservation_row_ok r \<longleftrightarrow>
     upload_reservation_check r
     \<and> ur_expected_size r \<le> int i64_max
     \<and> (ur_received_size r \<noteq> None \<longrightarrow>
          ur_received_size r = Some (ur_expected_size r)
          \<and> ur_received_checksum r = Some (ur_expected_checksum r))
     \<and> (ur_strategy r = ''multipart'' \<longrightarrow>
          (\<exists>part_size count. ur_part_size r = Some (int part_size) \<and> ur_part_count r = Some (int count)
             \<and> multipart_shape (nat (ur_expected_size r)) part_size count))"

definition coupled :: "upload_reservation_row \<Rightarrow> object_version_row \<Rightarrow> bool" where
  "coupled r v \<longleftrightarrow>
     (ur_state r = ''requested'' \<longrightarrow> ov_state v = ''pending'')
     \<and> (ur_state r = ''uploaded'' \<longrightarrow> ov_state v = ''pending'')
     \<and> (ur_state r = ''complete'' \<longrightarrow> ov_state v = ''complete''
          \<and> ov_size v = Some (ur_expected_size r) \<and> ov_checksum v = Some (ur_expected_checksum r))
     \<and> (ur_state r = ''aborted'' \<longrightarrow> ov_state v = ''aborted'')"

definition reservations_ok :: "database \<Rightarrow> bool" where
  "reservations_ok db \<longleftrightarrow>
     distinct (map ur_id (upload_reservations db))
     \<and> distinct (map ur_version_id (upload_reservations db))
     \<and> distinct (map ur_capability_hash (upload_reservations db))
     \<and> (\<forall>r \<in> set (upload_reservations db). reservation_row_ok r
          \<and> (\<exists>v \<in> set (object_versions db). ov_id v = ur_version_id r \<and> coupled r v))"

text \<open>The size part \<open>n\<close> of a reservation of \<open>expected\<close> bytes must have.\<close>

definition part_bytes :: "nat \<Rightarrow> nat \<Rightarrow> nat \<Rightarrow> nat" where
  "part_bytes expected part_size n = min (expected - (n - 1) * part_size) part_size"

definition part_fits :: "upload_part_row \<Rightarrow> upload_reservation_row \<Rightarrow> bool" where
  "part_fits p r \<longleftrightarrow>
     ur_id r = up_upload_id p \<and> ur_strategy r = ''multipart''
     \<and> (\<exists>part_size count. ur_part_size r = Some (int part_size) \<and> ur_part_count r = Some (int count)
          \<and> up_part_number p \<le> int count
          \<and> up_expected_size p
              = int (part_bytes (nat (ur_expected_size r)) part_size (nat (up_part_number p))))"

definition parts_ok :: "database \<Rightarrow> bool" where
  "parts_ok db \<longleftrightarrow>
     distinct (map (\<lambda>p. (up_upload_id p, up_part_number p)) (upload_parts db))
     \<and> distinct (map up_capability_hash (upload_parts db))
     \<and> (\<forall>p \<in> set (upload_parts db). upload_part_check p
          \<and> (up_received_size p \<noteq> None \<longrightarrow> up_received_size p = Some (up_expected_size p))
          \<and> (\<exists>r \<in> set (upload_reservations db). part_fits p r))"

definition grants_ok :: "database \<Rightarrow> bool" where
  "grants_ok db \<longleftrightarrow>
     distinct (map dg_capability_hash (download_grants db))
     \<and> (\<forall>d \<in> set (download_grants db). dg_expires_at_ms d \<ge> 0
          \<and> (\<exists>v \<in> set (object_versions db). ov_id v = dg_version_id d \<and> ov_state v = ''complete''))"

definition transfer_inv :: "database \<Rightarrow> bool" where
  "transfer_inv db \<longleftrightarrow> versions_ok db \<and> reservations_ok db \<and> parts_ok db \<and> grants_ok db"

lemma transfer_inv_empty: "transfer_inv empty_database"
  by (simp add: transfer_inv_def versions_ok_def reservations_ok_def parts_ok_def grants_ok_def
      empty_database_def)

lemma transfer_invD:
  assumes "transfer_inv db"
  shows "versions_ok db" and "reservations_ok db" and "parts_ok db" and "grants_ok db"
  using assms by (auto simp: transfer_inv_def)

lemma version_unique:
  "versions_ok db \<Longrightarrow> v \<in> set (object_versions db) \<Longrightarrow> w \<in> set (object_versions db) \<Longrightarrow>
     ov_id v = ov_id w \<Longrightarrow> v = w"
  unfolding versions_ok_def using distinct_map_eq by metis

lemma reservation_unique:
  assumes "reservations_ok db" and "r \<in> set (upload_reservations db)" and "s \<in> set (upload_reservations db)"
  shows "ur_id r = ur_id s \<Longrightarrow> r = s" and "ur_version_id r = ur_version_id s \<Longrightarrow> r = s"
    and "ur_capability_hash r = ur_capability_hash s \<Longrightarrow> r = s"
  using assms distinct_map_eq unfolding reservations_ok_def by metis+

section \<open>Joins\<close>

lemma reservation_join_iff:
  "(r, v) \<in> set (reservation_join db) \<longleftrightarrow>
     r \<in> set (upload_reservations db) \<and> v \<in> set (object_versions db) \<and> ov_id v = ur_version_id r"
  by (auto simp: reservation_join_def)

lemma part_join_iff:
  "(p, r) \<in> set (part_join db) \<longleftrightarrow>
     p \<in> set (upload_parts db) \<and> r \<in> set (upload_reservations db) \<and> ur_id r = up_upload_id p"
  by (auto simp: part_join_def)

lemma stored_join_iff:
  "(v, r) \<in> set (stored_join db) \<longleftrightarrow>
     v \<in> set (object_versions db) \<and> r \<in> set (upload_reservations db) \<and> ur_version_id r = ov_id v"
  by (auto simp: stored_join_def)

lemma reservation_by_id_D:
  assumes "reservation_by_id db uid = Ok x"
  obtains r v where "r \<in> set (upload_reservations db)" and "v \<in> set (object_versions db)"
    and "ov_id v = ur_version_id r" and "ur_id r = uid" and "upload_reservation (r, v) = Ok x"
proof -
  from query_row_Ok_D [OF assms [unfolded reservation_by_id_def]]
  obtain rv where rv: "rv \<in> set (reservation_join db)"
    and sel: "case rv of (r, v) \<Rightarrow> ur_id r = uid" and dec: "upload_reservation rv = Ok x"
    by blast
  obtain r v where eq: "rv = (r, v)" by force
  show thesis
    using that [of r v] rv sel dec unfolding eq reservation_join_iff by simp
qed

text \<open>Every row of a consistent database decodes.\<close>

lemma object_version_decodes:
  assumes "object_version_check v" and "\<forall>n. ov_size v = Some n \<longrightarrow> n \<ge> 0"
  shows "\<exists>x. object_version v = Ok x"
proof -
  obtain st where "ov_state v = upload_state_as_str st"
    using assms(1) unfolding object_version_check_def range_upload_state [symmetric] by blast
  moreover obtain src where "ov_source v = object_source_as_str src"
    using assms(1) unfolding object_version_check_def range_object_source [symmetric] by blast
  moreover obtain sz where "ov_size v = map_option int sz"
    using assms(2) by (cases "ov_size v") (metis option.simps(8), metis nat_0_le option.simps(9))
  moreover have "ov_version v = int (nat (ov_version v))" "ov_created_at_ms v = int (nat (ov_created_at_ms v))"
    using assms(1) by (auto simp: object_version_check_def)
  ultimately have "object_version v = Ok
      \<lparr>ovr_id = ov_id v, ovr_project_id = ov_project_id v, ovr_object_path = ov_object_path v,
       ovr_version = nat (ov_version v), ovr_storage_key = ov_storage_key v, ovr_state = st,
       ovr_size = sz, ovr_checksum = ov_checksum v, ovr_created_at_ms = nat (ov_created_at_ms v),
       ovr_source = src, ovr_git_repository = ov_git_repository v,
       ovr_git_commit = ov_git_commit v, ovr_git_branch = ov_git_branch v\<rparr>"
    unfolding object_version_Ok_iff by simp
  then show ?thesis by blast
qed

section \<open>Reserving\<close>

lemma validate_reservation_D:
  assumes "validate_reservation n = Ok val"
  shows "vr_expected_size val = int (nur_expected_size n)" and "nur_expected_size n \<le> i64_max"
    and "vr_expires_at_ms val = int (nur_expires_at_ms n)"
    and "vr_created_at_ms val = int (nur_created_at_ms n)"
    and "nur_created_at_ms n < nur_expires_at_ms n"
    and "vr_part_size val = map_option int (nur_part_size n)"
    and "validate_strategy n = Ok ()"
    and "storage_key_new (nur_storage_key n) = Ok (StorageKey (nur_storage_key n))"
  using assms unfolding validate_reservation_def
  by (auto simp: result_simps storage_key_new_def split: if_split_asm)

lemma validate_strategy_multipart:
  assumes "validate_strategy n = Ok ()" and "nur_strategy n = RyMultipart"
  obtains part_size count where "nur_part_size n = Some part_size" and "nur_part_count n = Some count"
    and "multipart_shape (nur_expected_size n) part_size count"
  using assms
  by (auto simp: validate_strategy_def multipart_shape_def split: option.split_asm if_split_asm)

lemma new_reservation_row_ok:
  assumes "validate_reservation n = Ok val" and "upload_reservation_check (new_reservation_row n val)"
  shows "reservation_row_ok (new_reservation_row n val)"
proof -
  note v = validate_reservation_D [OF assms(1)]
  have "\<exists>part_size count. ur_part_size (new_reservation_row n val) = Some (int part_size)
      \<and> ur_part_count (new_reservation_row n val) = Some (int count)
      \<and> multipart_shape (nur_expected_size n) part_size count"
    if multi: "nur_strategy n = RyMultipart"
  proof -
    obtain part_size count where "nur_part_size n = Some part_size" "nur_part_count n = Some count"
      "multipart_shape (nur_expected_size n) part_size count"
      by (rule validate_strategy_multipart [OF v(7) multi])
    with v(6) show ?thesis by (auto simp: new_reservation_row_def)
  qed
  then show ?thesis
    using assms(2) v(1,2) by (cases "nur_strategy n") (auto simp: reservation_row_ok_def new_reservation_row_def)
qed

lemma reserve_upload_Ok_D:
  assumes "reserve_upload db n = (Ok x, db')"
  obtains val version where "validate_reservation n = Ok val"
    and "ensure_project db (nur_project_id n) = Ok ()"
    and "next_version db n = Ok version"
    and "object_version_allowed db (new_version_row n version (vr_created_at_ms val))"
    and "upload_reservation_allowed
      (db\<lparr>object_versions := object_versions db @ [new_version_row n version (vr_created_at_ms val)]\<rparr>)
      (new_reservation_row n val)"
    and "db' = db\<lparr>object_versions := object_versions db @ [new_version_row n version (vr_created_at_ms val)],
      upload_reservations := upload_reservations db @ [new_reservation_row n val]\<rparr>"
    and "reservation_by_id db' (nur_id n) = Ok x"
  using assms unfolding reserve_upload_def insert_version_def insert_reservation_def Let_def
  by (auto simp: outcome_iffs result_simps)

lemma reserve_upload_inv:
  assumes inv: "transfer_inv db" and ok: "reserve_upload db n = (Ok x, db')"
  shows "transfer_inv db'"
proof -
  obtain val version where val: "validate_reservation n = Ok val"
    and va: "object_version_allowed db (new_version_row n version (vr_created_at_ms val))"
    and ra: "upload_reservation_allowed
      (db\<lparr>object_versions := object_versions db @ [new_version_row n version (vr_created_at_ms val)]\<rparr>)
      (new_reservation_row n val)"
    and db': "db' = db\<lparr>object_versions := object_versions db @ [new_version_row n version (vr_created_at_ms val)],
      upload_reservations := upload_reservations db @ [new_reservation_row n val]\<rparr>"
    by (rule reserve_upload_Ok_D [OF ok])
  define v where "v = new_version_row n version (vr_created_at_ms val)"
  define r where "r = new_reservation_row n val"
  note db' = db' [folded v_def r_def] and va = va [folded v_def] and ra = ra [folded v_def r_def]
  have rok: "reservation_row_ok r"
    using new_reservation_row_ok [OF val] ra by (simp add: upload_reservation_allowed_def r_def)
  have fresh_v: "\<forall>w \<in> set (object_versions db). ov_id w \<noteq> ov_id v \<and> ov_storage_key w \<noteq> ov_storage_key v
      \<and> (ov_project_id w, ov_object_path w, ov_version w) \<noteq> (ov_project_id v, ov_object_path v, ov_version v)"
    using va by (auto simp: object_version_allowed_def list_ex_iff)
  have fresh_r: "\<forall>s \<in> set (upload_reservations db). ur_id s \<noteq> ur_id r \<and> ur_version_id s \<noteq> ur_version_id r
      \<and> ur_capability_hash s \<noteq> ur_capability_hash r"
    using ra by (auto simp: upload_reservation_allowed_def list_ex_iff)
  have link: "ov_id v = ur_version_id r \<and> coupled r v"
    by (simp add: v_def r_def new_version_row_def new_reservation_row_def coupled_def)
  have "versions_ok db'"
    using transfer_invD(1) [OF inv] fresh_v va
    by (auto simp: versions_ok_def db' object_version_allowed_def v_def new_version_row_def)
  moreover have "reservations_ok db'"
    using transfer_invD(2) [OF inv] fresh_r rok link by (auto simp: reservations_ok_def db')
  moreover have "parts_ok db'" and "grants_ok db'"
    using transfer_invD(3,4) [OF inv] by (auto simp: parts_ok_def grants_ok_def db')
  ultimately show ?thesis by (simp add: transfer_inv_def)
qed

section \<open>Moving rows through their states\<close>

text \<open>What no transition of a reservation changes.\<close>

definition same_terms :: "upload_reservation_row \<Rightarrow> upload_reservation_row \<Rightarrow> bool" where
  "same_terms r s \<longleftrightarrow>
     ur_id s = ur_id r \<and> ur_version_id s = ur_version_id r
     \<and> ur_capability_hash s = ur_capability_hash r \<and> ur_expected_size s = ur_expected_size r
     \<and> ur_strategy s = ur_strategy r \<and> ur_part_size s = ur_part_size r
     \<and> ur_part_count s = ur_part_count r"

definition same_object :: "object_version_row \<Rightarrow> object_version_row \<Rightarrow> bool" where
  "same_object v w \<longleftrightarrow>
     ov_id w = ov_id v \<and> ov_storage_key w = ov_storage_key v \<and> ov_project_id w = ov_project_id v
     \<and> ov_object_path w = ov_object_path v \<and> ov_version w = ov_version v"

lemma part_fits_same_terms: "same_terms r s \<Longrightarrow> part_fits p r \<Longrightarrow> part_fits p s"
  by (auto simp: part_fits_def same_terms_def)

text \<open>The one step every transition is an instance of: rows are rewritten in place, each keeps
  its keys and its terms, and reservation and version stay coupled.\<close>

lemma transfer_inv_map:
  assumes inv: "transfer_inv db"
    and f: "\<And>r. r \<in> set (upload_reservations db) \<Longrightarrow> same_terms r (f r) \<and> reservation_row_ok (f r)"
    and g: "\<And>v. v \<in> set (object_versions db) \<Longrightarrow>
      same_object v (g v) \<and> object_version_check (g v) \<and> (\<forall>n. ov_size (g v) = Some n \<longrightarrow> n \<ge> 0)
      \<and> (ov_state v = ''complete'' \<longrightarrow> ov_state (g v) = ''complete'')"
    and fg: "\<And>r v. r \<in> set (upload_reservations db) \<Longrightarrow> v \<in> set (object_versions db) \<Longrightarrow>
      ov_id v = ur_version_id r \<Longrightarrow> coupled r v \<Longrightarrow> coupled (f r) (g v)"
  shows "transfer_inv (db\<lparr>upload_reservations := map f (upload_reservations db),
      object_versions := map g (object_versions db)\<rparr>)"
proof -
  let ?rs = "upload_reservations db" and ?vs = "object_versions db"
  have keys: "map ur_id (map f ?rs) = map ur_id ?rs" "map ur_version_id (map f ?rs) = map ur_version_id ?rs"
    "map ur_capability_hash (map f ?rs) = map ur_capability_hash ?rs"
    using f by (simp_all add: same_terms_def)
  have vkeys: "map ov_id (map g ?vs) = map ov_id ?vs" "map ov_storage_key (map g ?vs) = map ov_storage_key ?vs"
    "map (\<lambda>v. (ov_project_id v, ov_object_path v, ov_version v)) (map g ?vs)
      = map (\<lambda>v. (ov_project_id v, ov_object_path v, ov_version v)) ?vs"
    using g by (simp_all add: same_object_def)
  have "\<exists>w \<in> set (map g ?vs). ov_id w = ur_version_id (f r) \<and> coupled (f r) w" if r: "r \<in> set ?rs" for r
  proof -
    obtain v where v: "v \<in> set ?vs" "ov_id v = ur_version_id r" "coupled r v"
      using transfer_invD(2) [OF inv] r unfolding reservations_ok_def by blast
    have "ov_id (g v) = ur_version_id (f r)"
      using v(2) f [OF r] g [OF v(1)] by (simp add: same_terms_def same_object_def)
    with fg [OF r v] v(1) show ?thesis by auto
  qed
  moreover have "\<exists>s \<in> set (map f ?rs). part_fits p s" if p: "p \<in> set (upload_parts db)" for p
  proof -
    obtain r where r: "r \<in> set ?rs" "part_fits p r"
      using transfer_invD(3) [OF inv] p unfolding parts_ok_def by blast
    then have "part_fits p (f r)" using f part_fits_same_terms by blast
    with r(1) show ?thesis by auto
  qed
  moreover have "\<exists>w \<in> set (map g ?vs). ov_id w = dg_version_id d \<and> ov_state w = ''complete''"
    if d: "d \<in> set (download_grants db)" for d
  proof -
    obtain v where v: "v \<in> set ?vs" "ov_id v = dg_version_id d" "ov_state v = ''complete''"
      using transfer_invD(4) [OF inv] d unfolding grants_ok_def by blast
    with g [OF v(1)] show ?thesis by (auto simp: same_object_def)
  qed
  ultimately show ?thesis
    using transfer_invD [OF inv] keys vkeys f g
    unfolding transfer_inv_def versions_ok_def reservations_ok_def parts_ok_def grants_ok_def
    by (simp del: map_map)
qed

text \<open>The instance in which only reservations change.\<close>

lemma transfer_inv_update:
  assumes inv: "transfer_inv db"
    and ch: "\<And>r. r \<in> set (upload_reservations db) \<Longrightarrow> selected r \<Longrightarrow>
      same_terms r (change r) \<and> reservation_row_ok (change r) \<and> (\<forall>v. coupled r v \<longrightarrow> coupled (change r) v)"
  shows "transfer_inv (db\<lparr>upload_reservations :=
      map (\<lambda>r. if selected r then change r else r) (upload_reservations db)\<rparr>)"
proof -
  have "transfer_inv (db\<lparr>upload_reservations := map (\<lambda>r. if selected r then change r else r) (upload_reservations db),
      object_versions := map (\<lambda>v. v) (object_versions db)\<rparr>)"
  proof (rule transfer_inv_map [OF inv])
    fix r
    assume r: "r \<in> set (upload_reservations db)"
    then have "reservation_row_ok r"
      using transfer_invD(2) [OF inv] unfolding reservations_ok_def by blast
    then show "same_terms r (if selected r then change r else r)
        \<and> reservation_row_ok (if selected r then change r else r)"
      using ch [OF r] by (simp add: same_terms_def)
    show "coupled (if selected r then change r else r) v" if "coupled r v" for v
      using ch [OF r] that by simp
  next
    fix v
    assume "v \<in> set (object_versions db)"
    then show "same_object v v \<and> object_version_check v \<and> (\<forall>n. ov_size v = Some n \<longrightarrow> n \<ge> 0)
        \<and> (ov_state v = ''complete'' \<longrightarrow> ov_state v = ''complete'')"
      using transfer_invD(1) [OF inv] unfolding versions_ok_def same_object_def by blast
  qed
  then show ?thesis by simp
qed

section \<open>Every operation keeps the invariant\<close>

text \<open>Operations on the bare connection either stop before their write or end with
  \<^verbatim>\<open>changed_once\<close>, which in a keyed table can only fail when nothing was selected.\<close>

lemma unselected_update: "filter selected rows = [] \<Longrightarrow> map (\<lambda>r. if selected r then change r else r) rows = rows"
  by (induction rows) (auto split: if_split_asm)

lemma reservation_selection:
  assumes "reservations_ok db"
  shows "length (filter (\<lambda>r. ur_id r = uid \<and> P r) (upload_reservations db)) \<le> 1"
  using assms by (intro keyed_selection [where key = ur_id and k = uid]) (auto simp: reservations_ok_def)

lemma changed_once_unchanged:
  assumes "reservations_ok db"
    and "changed_once (length (filter (\<lambda>r. ur_id r = uid \<and> P r) (upload_reservations db))) = Err e"
  shows "db\<lparr>upload_reservations := map (\<lambda>r. if ur_id r = uid \<and> P r then change r else r)
      (upload_reservations db)\<rparr> = db"
proof -
  have "length (filter (\<lambda>r. ur_id r = uid \<and> P r) (upload_reservations db)) \<noteq> 1"
    using assms(2) by (auto simp: changed_once_def)
  then have "length (filter (\<lambda>r. ur_id r = uid \<and> P r) (upload_reservations db)) = 0"
    using reservation_selection [OF assms(1), of uid P] by linarith
  then have "filter (\<lambda>r. ur_id r = uid \<and> P r) (upload_reservations db) = []" by simp
  then show ?thesis by (simp add: unselected_update)
qed

lemma renew_upload_inv:
  assumes inv: "transfer_inv db" and ok: "renew_upload db uid t = (Ok u, db')"
  shows "transfer_inv db'"
proof -
  from ok obtain e n rows where
    up: "update_rows (\<lambda>r. ur_id r = uid \<and> ur_state r = ''requested'')
       (\<lambda>r. r\<lparr>ur_expires_at_ms := e\<rparr>) upload_reservation_check (upload_reservations db) = Ok (n, rows)"
    and db': "db' = db\<lparr>upload_reservations := rows\<rparr>"
    by (auto simp: renew_upload_def outcome_iffs split: prod.split_asm)
  have chk: "upload_reservation_check (r\<lparr>ur_expires_at_ms := e\<rparr>)"
    if "r \<in> set (upload_reservations db)" "ur_id r = uid" "ur_state r = ''requested''" for r
    using up that by (auto simp: update_rows_Ok_iff)
  have "transfer_inv (db\<lparr>upload_reservations := map (\<lambda>r. if ur_id r = uid \<and> ur_state r = ''requested''
      then r\<lparr>ur_expires_at_ms := e\<rparr> else r) (upload_reservations db)\<rparr>)"
  proof (rule transfer_inv_update [OF inv])
    fix r
    assume r: "r \<in> set (upload_reservations db)" and sel: "ur_id r = uid \<and> ur_state r = ''requested''"
    have "reservation_row_ok r" using transfer_invD(2) [OF inv] r unfolding reservations_ok_def by blast
    with chk [OF r] sel show "same_terms r (r\<lparr>ur_expires_at_ms := e\<rparr>)
        \<and> reservation_row_ok (r\<lparr>ur_expires_at_ms := e\<rparr>)
        \<and> (\<forall>v. coupled r v \<longrightarrow> coupled (r\<lparr>ur_expires_at_ms := e\<rparr>) v)"
      by (simp add: same_terms_def reservation_row_ok_def coupled_def)
  qed
  with up db' show ?thesis by (simp add: update_rows_Ok_iff)
qed

lemma record_uploaded_bytes_Ok_D:
  assumes "record_uploaded_bytes db uid count checksum = (Ok u, db')"
  obtains current where "reservation_by_id db uid = Ok current"
    and "urr_expected_size current = count" and "urr_expected_checksum current = checksum"
    and "urr_state current = RsRequested" and "count \<le> i64_max"
    and "\<forall>r \<in> set (upload_reservations db). ur_id r = uid \<and> ur_state r = ''requested'' \<longrightarrow>
      upload_reservation_check (r\<lparr>ur_state := ''uploaded'', ur_received_size := Some (int count),
        ur_received_checksum := Some checksum\<rparr>)"
    and "db' = db\<lparr>upload_reservations := map (\<lambda>r. if ur_id r = uid \<and> ur_state r = ''requested''
        then r\<lparr>ur_state := ''uploaded'', ur_received_size := Some (int count),
          ur_received_checksum := Some checksum\<rparr> else r) (upload_reservations db)\<rparr>"
  using assms unfolding record_uploaded_bytes_def
  by (auto simp: outcome_iffs result_simps update_rows_Ok_iff split: if_split_asm)

lemma record_uploaded_bytes_inv:
  assumes inv: "transfer_inv db" and ok: "record_uploaded_bytes db uid count checksum = (Ok u, db')"
  shows "transfer_inv db'"
proof -
  obtain current where cur: "reservation_by_id db uid = Ok current"
    and count: "urr_expected_size current = count" and sum: "urr_expected_checksum current = checksum"
    and chk: "\<forall>r \<in> set (upload_reservations db). ur_id r = uid \<and> ur_state r = ''requested'' \<longrightarrow>
      upload_reservation_check (r\<lparr>ur_state := ''uploaded'', ur_received_size := Some (int count),
        ur_received_checksum := Some checksum\<rparr>)"
    and db': "db' = db\<lparr>upload_reservations := map (\<lambda>r. if ur_id r = uid \<and> ur_state r = ''requested''
        then r\<lparr>ur_state := ''uploaded'', ur_received_size := Some (int count),
          ur_received_checksum := Some checksum\<rparr> else r) (upload_reservations db)\<rparr>"
    by (rule record_uploaded_bytes_Ok_D [OF ok])
  obtain r0 v0 where r0: "r0 \<in> set (upload_reservations db)" "ur_id r0 = uid"
    and dec: "upload_reservation (r0, v0) = Ok current"
    by (rule reservation_by_id_D [OF cur])
  have exp: "ur_expected_size r0 = int count" "ur_expected_checksum r0 = checksum"
    using dec count sum by (auto simp: upload_reservation_Ok_iff)
  show ?thesis unfolding db'
  proof (rule transfer_inv_update [OF inv])
    fix r
    assume r: "r \<in> set (upload_reservations db)" and sel: "ur_id r = uid \<and> ur_state r = ''requested''"
    have "r = r0" using reservation_unique(1) [OF transfer_invD(2) [OF inv] r r0(1)] sel r0(2) by simp
    have "reservation_row_ok r" using transfer_invD(2) [OF inv] r unfolding reservations_ok_def by blast
    with chk r sel exp \<open>r = r0\<close>
    show "same_terms r (r\<lparr>ur_state := ''uploaded'', ur_received_size := Some (int count),
            ur_received_checksum := Some checksum\<rparr>)
        \<and> reservation_row_ok (r\<lparr>ur_state := ''uploaded'', ur_received_size := Some (int count),
            ur_received_checksum := Some checksum\<rparr>)
        \<and> (\<forall>v. coupled r v \<longrightarrow> coupled (r\<lparr>ur_state := ''uploaded'', ur_received_size := Some (int count),
            ur_received_checksum := Some checksum\<rparr>) v)"
      by (simp add: same_terms_def reservation_row_ok_def coupled_def)
  qed
qed

text \<open>Completion and abortion rewrite one reservation and its version together.\<close>

lemma complete_upload_Ok_D:
  assumes "complete_upload db uid = (Ok x, db')"
  obtains rec rows vrows where "reservation_by_id db uid = Ok rec" and "urr_state rec = RsUploaded"
    and "update_rows (\<lambda>r. ur_id r = uid \<and> ur_state r = ''uploaded'') (\<lambda>r. r\<lparr>ur_state := ''complete''\<rparr>)
      upload_reservation_check (upload_reservations db) = Ok (1, rows)"
    and "update_rows (\<lambda>v. ov_id v = ovr_id (urr_version rec) \<and> ov_state v = ''pending'')
      (\<lambda>v. v\<lparr>ov_state := ''complete'',
        ov_size := map_option ur_expected_size (find (\<lambda>r. ur_id r = urr_id rec) rows),
        ov_checksum := Some (urr_expected_checksum rec)\<rparr>)
      object_version_check (object_versions db) = Ok (1, vrows)"
    and "db' = db\<lparr>upload_reservations := rows, object_versions := vrows\<rparr>"
    and "object_version_by_id db' (ovr_id (urr_version rec)) = Ok x"
  using assms unfolding complete_upload_def update_reservation_state_def complete_version_def
    require_state_def
  by (auto simp: outcome_iffs result_simps split: if_split_asm)

lemma abort_upload_Ok_D:
  assumes "abort_upload db uid = (Ok x, db')"
  obtains rows vrows where "reservation_by_id db uid = Ok x"
    and "urr_state x = RsRequested \<or> urr_state x = RsUploaded"
    and "update_rows (\<lambda>r. ur_id r = uid \<and> ur_state r = reservation_state_as_str (urr_state x))
      (\<lambda>r. r\<lparr>ur_state := ''aborted'', ur_received_size := None, ur_received_checksum := None\<rparr>)
      upload_reservation_check (upload_reservations db) = Ok (1, rows)"
    and "update_rows (\<lambda>v. ov_id v = ovr_id (urr_version x) \<and> ov_state v = ''pending'')
      (\<lambda>v. v\<lparr>ov_state := ''aborted''\<rparr>) object_version_check (object_versions db) = Ok (1, vrows)"
    and "db' = db\<lparr>upload_reservations := rows, object_versions := vrows,
      upload_parts := filter (\<lambda>p. up_upload_id p \<noteq> uid) (upload_parts db)\<rparr>"
  using assms unfolding abort_upload_def update_reservation_state_def abort_version_def delete_parts_def
  by (auto simp: outcome_iffs result_simps split: if_split_asm)

lemma joint_transition_inv:
  assumes inv: "transfer_inv db"
    and r0: "r0 \<in> set (upload_reservations db)" "ur_id r0 = uid" and v0: "v0 \<in> set (object_versions db)"
      "ov_id v0 = ur_version_id r0" "ov_id v0 = vid"
    and st: "ur_state r0 = st" "ov_state v0 = ''pending''"
    and r1: "same_terms r0 (ch r0)" "reservation_row_ok (ch r0)"
    and v1: "same_object v0 (chv v0)" "object_version_check (chv v0)" "\<forall>n. ov_size (chv v0) = Some n \<longrightarrow> n \<ge> 0"
    and rv: "coupled (ch r0) (chv v0)"
  shows "transfer_inv (db\<lparr>
      upload_reservations := map (\<lambda>r. if ur_id r = uid \<and> ur_state r = st then ch r else r) (upload_reservations db),
      object_versions := map (\<lambda>v. if ov_id v = vid \<and> ov_state v = ''pending'' then chv v else v) (object_versions db)\<rparr>)"
proof -
  note ok = transfer_invD [OF inv]
  have only_r: "r = r0" if "r \<in> set (upload_reservations db)" "ur_id r = uid" for r
    using reservation_unique(1) [OF ok(2) that(1) r0(1)] that(2) r0(2) by simp
  have only_v: "v = v0" if "v \<in> set (object_versions db)" "ov_id v = vid" for v
    using version_unique [OF ok(1) that(1) v0(1)] that(2) v0(3) by simp
  show ?thesis
  proof (rule transfer_inv_map [OF inv])
    fix r
    assume r: "r \<in> set (upload_reservations db)"
    then have "reservation_row_ok r" using ok(2) unfolding reservations_ok_def by blast
    then show "same_terms r (if ur_id r = uid \<and> ur_state r = st then ch r else r)
        \<and> reservation_row_ok (if ur_id r = uid \<and> ur_state r = st then ch r else r)"
      using only_r [OF r] r1 by (auto simp: same_terms_def)
  next
    fix v
    assume v: "v \<in> set (object_versions db)"
    then have "object_version_check v \<and> (\<forall>n. ov_size v = Some n \<longrightarrow> n \<ge> 0)"
      using ok(1) unfolding versions_ok_def by blast
    then show "same_object v (if ov_id v = vid \<and> ov_state v = ''pending'' then chv v else v)
        \<and> object_version_check (if ov_id v = vid \<and> ov_state v = ''pending'' then chv v else v)
        \<and> (\<forall>n. ov_size (if ov_id v = vid \<and> ov_state v = ''pending'' then chv v else v) = Some n \<longrightarrow> n \<ge> 0)
        \<and> (ov_state v = ''complete'' \<longrightarrow>
            ov_state (if ov_id v = vid \<and> ov_state v = ''pending'' then chv v else v) = ''complete'')"
      using only_v [OF v] v1 by (auto simp: same_object_def)
  next
    fix r v
    assume r: "r \<in> set (upload_reservations db)" and v: "v \<in> set (object_versions db)"
      and link: "ov_id v = ur_version_id r" and co: "coupled r v"
    show "coupled (if ur_id r = uid \<and> ur_state r = st then ch r else r)
        (if ov_id v = vid \<and> ov_state v = ''pending'' then chv v else v)"
    proof (cases "r = r0")
      case True
      then have "v = v0" using version_unique [OF ok(1) v v0(1)] link v0(2) by simp
      with True rv r0(2) v0(3) st show ?thesis by simp
    next
      case False
      then have "ur_id r \<noteq> uid" using only_r [OF r] by blast
      moreover have "ov_id v \<noteq> vid"
        using False reservation_unique(2) [OF ok(2) r r0(1)] link v0(2,3) by metis
      ultimately show ?thesis using co by simp
    qed
  qed
qed

lemma complete_upload_inv:
  assumes inv: "transfer_inv db" and ok: "complete_upload db uid = (Ok x, db')"
  shows "transfer_inv db'"
proof -
  obtain rec rows vrows where rec: "reservation_by_id db uid = Ok rec" and st: "urr_state rec = RsUploaded"
    and up: "update_rows (\<lambda>r. ur_id r = uid \<and> ur_state r = ''uploaded'') (\<lambda>r. r\<lparr>ur_state := ''complete''\<rparr>)
      upload_reservation_check (upload_reservations db) = Ok (1, rows)"
    and vup: "update_rows (\<lambda>v. ov_id v = ovr_id (urr_version rec) \<and> ov_state v = ''pending'')
      (\<lambda>v. v\<lparr>ov_state := ''complete'',
        ov_size := map_option ur_expected_size (find (\<lambda>r. ur_id r = urr_id rec) rows),
        ov_checksum := Some (urr_expected_checksum rec)\<rparr>)
      object_version_check (object_versions db) = Ok (1, vrows)"
    and db': "db' = db\<lparr>upload_reservations := rows, object_versions := vrows\<rparr>"
    by (rule complete_upload_Ok_D [OF ok])
  obtain r v where r: "r \<in> set (upload_reservations db)" and v: "v \<in> set (object_versions db)"
    and link: "ov_id v = ur_version_id r" and uid: "ur_id r = uid"
    and dec: "upload_reservation (r, v) = Ok rec"
    by (rule reservation_by_id_D [OF rec])
  note oks = transfer_invD [OF inv]
  have rok: "reservation_row_ok r" using oks(2) r unfolding reservations_ok_def by blast
  have rst: "ur_state r = ''uploaded''" using dec st by (simp add: upload_reservation_Ok_iff)
  obtain w where "w \<in> set (object_versions db)" "ov_id w = ur_version_id r" "coupled r w"
    using oks(2) r unfolding reservations_ok_def by blast
  then have co: "coupled r v" using version_unique [OF oks(1) v] link by simp
  have vst: "ov_state v = ''pending''" using co rst by (simp add: coupled_def)
  have vid: "ov_id v = ovr_id (urr_version rec)" and rid: "urr_id rec = uid"
    and sum: "urr_expected_checksum rec = ur_expected_checksum r"
    using dec uid by (auto simp: upload_reservation_Ok_iff object_version_Ok_iff)
  have rows: "rows = map (\<lambda>r. if ur_id r = uid \<and> ur_state r = ''uploaded'' then r\<lparr>ur_state := ''complete''\<rparr>
      else r) (upload_reservations db)"
    using up by (simp add: update_rows_Ok_iff)
  have "find (\<lambda>r. ur_id r = urr_id rec) rows = Some (r\<lparr>ur_state := ''complete''\<rparr>)"
  proof (rule find_unique)
    show "r\<lparr>ur_state := ''complete''\<rparr> \<in> set rows" using r uid rst by (force simp: rows)
    fix y
    assume "y \<in> set rows" and y: "ur_id y = urr_id rec"
    then obtain s where s: "s \<in> set (upload_reservations db)"
      "y = (if ur_id s = uid \<and> ur_state s = ''uploaded'' then s\<lparr>ur_state := ''complete''\<rparr> else s)"
      unfolding rows set_map by blast
    then have "ur_id s = uid" using y rid by (simp split: if_split_asm)
    then have "s = r" using reservation_unique(1) [OF oks(2) s(1) r] uid by simp
    with s rst uid show "y = r\<lparr>ur_state := ''complete''\<rparr>" by simp
  qed (simp add: rid uid)
  then have size: "map_option ur_expected_size (find (\<lambda>r. ur_id r = urr_id rec) rows)
      = Some (ur_expected_size r)" by simp
  have vchk: "object_version_check (v\<lparr>ov_state := ''complete'', ov_size := Some (ur_expected_size r),
      ov_checksum := Some (ur_expected_checksum r)\<rparr>)"
    using vup v vid vst by (auto simp: update_rows_Ok_iff size sum)
  have "transfer_inv (db\<lparr>upload_reservations := map (\<lambda>r. if ur_id r = uid \<and> ur_state r = ''uploaded''
        then r\<lparr>ur_state := ''complete''\<rparr> else r) (upload_reservations db),
      object_versions := map (\<lambda>w. if ov_id w = ovr_id (urr_version rec) \<and> ov_state w = ''pending''
        then w\<lparr>ov_state := ''complete'', ov_size := Some (ur_expected_size r),
          ov_checksum := Some (ur_expected_checksum r)\<rparr> else w) (object_versions db)\<rparr>)"
  proof (rule joint_transition_inv [OF inv r uid v link vid rst vst])
    show "reservation_row_ok (r\<lparr>ur_state := ''complete''\<rparr>)"
      using rok rst by (simp add: reservation_row_ok_def upload_reservation_check_def)
    have "ur_expected_size r \<ge> 0"
      using rok by (simp add: reservation_row_ok_def upload_reservation_check_def)
    then show "\<forall>n. ov_size (v\<lparr>ov_state := ''complete'', ov_size := Some (ur_expected_size r),
        ov_checksum := Some (ur_expected_checksum r)\<rparr>) = Some n \<longrightarrow> n \<ge> 0" by simp
  qed (simp_all add: vchk same_terms_def same_object_def coupled_def)
  then show ?thesis
    using vup [unfolded size sum] unfolding db' rows by (simp add: update_rows_Ok_iff)
qed

lemma parts_filter_inv:
  "transfer_inv db \<Longrightarrow> transfer_inv (db\<lparr>upload_parts := filter P (upload_parts db)\<rparr>)"
  by (auto simp: transfer_inv_def versions_ok_def reservations_ok_def parts_ok_def grants_ok_def
      distinct_map_filter)

lemma abort_upload_inv:
  assumes inv: "transfer_inv db" and ok: "abort_upload db uid = (Ok x, db')"
  shows "transfer_inv db'"
proof -
  obtain rows vrows where rec: "reservation_by_id db uid = Ok x"
    and st: "urr_state x = RsRequested \<or> urr_state x = RsUploaded"
    and up: "update_rows (\<lambda>r. ur_id r = uid \<and> ur_state r = reservation_state_as_str (urr_state x))
      (\<lambda>r. r\<lparr>ur_state := ''aborted'', ur_received_size := None, ur_received_checksum := None\<rparr>)
      upload_reservation_check (upload_reservations db) = Ok (1, rows)"
    and vup: "update_rows (\<lambda>v. ov_id v = ovr_id (urr_version x) \<and> ov_state v = ''pending'')
      (\<lambda>v. v\<lparr>ov_state := ''aborted''\<rparr>) object_version_check (object_versions db) = Ok (1, vrows)"
    and db': "db' = db\<lparr>upload_reservations := rows, object_versions := vrows,
      upload_parts := filter (\<lambda>p. up_upload_id p \<noteq> uid) (upload_parts db)\<rparr>"
    by (rule abort_upload_Ok_D [OF ok])
  obtain r v where r: "r \<in> set (upload_reservations db)" and v: "v \<in> set (object_versions db)"
    and link: "ov_id v = ur_version_id r" and uid: "ur_id r = uid"
    and dec: "upload_reservation (r, v) = Ok x"
    by (rule reservation_by_id_D [OF rec])
  note oks = transfer_invD [OF inv]
  have rok: "reservation_row_ok r" using oks(2) r unfolding reservations_ok_def by blast
  have rst: "ur_state r = reservation_state_as_str (urr_state x)"
    using dec by (simp add: upload_reservation_Ok_iff)
  obtain w where "w \<in> set (object_versions db)" "ov_id w = ur_version_id r" "coupled r w"
    using oks(2) r unfolding reservations_ok_def by blast
  then have "coupled r v" using version_unique [OF oks(1) v] link by simp
  then have vst: "ov_state v = ''pending''" using rst st by (auto simp: coupled_def)
  have vid: "ov_id v = ovr_id (urr_version x)"
    using dec by (auto simp: upload_reservation_Ok_iff object_version_Ok_iff)
  have vchk: "object_version_check (v\<lparr>ov_state := ''aborted''\<rparr>)" "ov_size v = None"
    using vup v vid vst oks(1) by (auto simp: update_rows_Ok_iff versions_ok_def object_version_check_def)
  have "transfer_inv (db\<lparr>upload_reservations := map (\<lambda>r. if ur_id r = uid
          \<and> ur_state r = reservation_state_as_str (urr_state x)
        then r\<lparr>ur_state := ''aborted'', ur_received_size := None, ur_received_checksum := None\<rparr> else r)
        (upload_reservations db),
      object_versions := map (\<lambda>w. if ov_id w = ovr_id (urr_version x) \<and> ov_state w = ''pending''
        then w\<lparr>ov_state := ''aborted''\<rparr> else w) (object_versions db)\<rparr>)"
  proof (rule joint_transition_inv [OF inv r uid v link vid rst vst])
    show "reservation_row_ok (r\<lparr>ur_state := ''aborted'', ur_received_size := None,
        ur_received_checksum := None\<rparr>)"
      using rok by (simp add: reservation_row_ok_def upload_reservation_check_def)
  qed (simp_all add: vchk same_terms_def same_object_def coupled_def)
  from parts_filter_inv [OF this, of "\<lambda>p. up_upload_id p \<noteq> uid"] db' up vup show ?thesis
    by (simp add: update_rows_Ok_iff)
qed

lemma attach_multipart_inv:
  assumes inv: "transfer_inv db" and ok: "attach_multipart db uid provider = (Ok x, db')"
  shows "transfer_inv db'"
proof (cases "db' = db")
  case False
  let ?sel = "\<lambda>r. ur_id r = uid \<and> ur_state r = ''requested'' \<and> ur_provider_upload_id r = None"
  let ?ch = "\<lambda>r. r\<lparr>ur_provider_upload_id := Some provider\<rparr>"
  from ok False have db': "db' = db\<lparr>upload_reservations :=
      map (\<lambda>r. if ?sel r then ?ch r else r) (upload_reservations db)\<rparr>"
    unfolding attach_multipart_def
    by (auto simp: outcome_iffs result_simps update_rows_Ok_iff split: option.split_asm if_split_asm)
  show ?thesis unfolding db'
  proof (rule transfer_inv_update [OF inv])
    fix r
    assume "r \<in> set (upload_reservations db)"
    then have "reservation_row_ok r"
      using transfer_invD(2) [OF inv] unfolding reservations_ok_def by blast
    then show "same_terms r (?ch r) \<and> reservation_row_ok (?ch r) \<and> (\<forall>v. coupled r v \<longrightarrow> coupled (?ch r) v)"
      by (simp add: same_terms_def reservation_row_ok_def coupled_def upload_reservation_check_def)
  qed
qed (use inv in simp)

section \<open>Parts and grants\<close>

lemma expected_part_size_part_bytes:
  assumes "urr_expected_size upload \<le> i64_max"
  shows "expected_part_size upload n part_size = part_bytes (urr_expected_size upload) part_size n"
proof -
  have "urr_expected_size upload - min a u64_max = urr_expected_size upload - a" for a
    using assms by (cases "a \<le> u64_max") (simp_all add: i64_max_def u64_max_def)
  then show ?thesis
    by (simp add: expected_part_size_def part_bytes_def saturating_sub_u64_def saturating_mul_u64_def)
qed

lemma validate_part_D:
  assumes "validate_part part upload part_size count = Ok val"
  shows "vp_expected_size val = int (npg_expected_size part)" and "npg_part_number part > 0"
    and "npg_part_number part \<le> count"
    and "npg_expected_size part = expected_part_size upload (npg_part_number part) part_size"
  using assms unfolding validate_part_def by (auto simp: result_simps split: if_split_asm)

lemma require_multipart_Ok_iff:
  "require_multipart upload = Ok (part_size, count) \<longleftrightarrow>
     urr_state upload = RsRequested \<and> urr_strategy upload = RyMultipart
     \<and> urr_part_size upload = Some part_size \<and> urr_part_count upload = Some count"
  by (auto simp: require_multipart_def
      split: ReservationState.split ReservationStrategy.split option.split)

lemma new_part_fits:
  assumes dec: "upload_reservation (r, v) = Ok upload" and rok: "reservation_row_ok r"
    and multi: "require_multipart upload = Ok (part_size, count)"
    and val: "validate_part part upload part_size count = Ok val" and id: "npg_upload_id part = ur_id r"
  shows "part_fits (new_part_row part val) r"
proof -
  have le: "urr_expected_size upload \<le> i64_max"
    using dec rok by (auto simp: upload_reservation_Ok_iff reservation_row_ok_def)
  have "ur_strategy r = ''multipart''" "ur_part_size r = Some (int part_size)" "ur_part_count r = Some (int count)"
    "nat (ur_expected_size r) = urr_expected_size upload"
    using dec multi by (auto simp: upload_reservation_Ok_iff require_multipart_Ok_iff)
  then show ?thesis
    using validate_part_D [OF val] id expected_part_size_part_bytes [OF le]
    by (auto simp: part_fits_def new_part_row_def)
qed

lemma upsert_part_inv:
  assumes inv: "transfer_inv db" and r: "r \<in> set (upload_reservations db)"
    and fits: "part_fits (new_part_row part val) r" and ok: "upsert_part db part val = Ok db'"
  shows "transfer_inv db' \<and> upload_reservations db' = upload_reservations db
    \<and> object_versions db' = object_versions db"
proof -
  define row where "row = new_part_row part val"
  define same where "same = (\<lambda>p :: upload_part_row. up_upload_id p = up_upload_id row \<and> up_part_number p = up_part_number row)"
  define ch where "ch = (\<lambda>p :: upload_part_row. if same p then p\<lparr>up_capability_hash := up_capability_hash row,
      up_expires_at_ms := up_expires_at_ms row\<rparr> else p)"
  note parts = transfer_invD(3) [OF inv, unfolded parts_ok_def]
  consider (renew) "upload_part_check row" "\<forall>p \<in> set (upload_parts db). \<not> same p \<longrightarrow>
        up_capability_hash p \<noteq> up_capability_hash row" "db' = db\<lparr>upload_parts := map ch (upload_parts db)\<rparr>"
    | (fresh) "upload_part_check row" "\<forall>p \<in> set (upload_parts db). \<not> same p \<and>
        up_capability_hash p \<noteq> up_capability_hash row" "db' = db\<lparr>upload_parts := upload_parts db @ [row]\<rparr>"
    using ok unfolding upsert_part_def Let_def row_def [symmetric] same_def ch_def list_ex_iff
    by (auto simp: result_simps split: if_split_asm)
  then have "parts_ok db'"
  proof cases
    case renew
    have keys: "map (\<lambda>p. (up_upload_id p, up_part_number p)) (map ch (upload_parts db))
        = map (\<lambda>p. (up_upload_id p, up_part_number p)) (upload_parts db)"
      by (simp add: ch_def)
    have "distinct (map up_capability_hash (map ch (upload_parts db)))"
    proof -
      have "inj_on (\<lambda>p. up_capability_hash (ch p)) (set (upload_parts db))"
      proof (rule inj_onI)
        fix p q
        assume pq: "p \<in> set (upload_parts db)" "q \<in> set (upload_parts db)"
          and eq: "up_capability_hash (ch p) = up_capability_hash (ch q)"
        have "(up_upload_id p, up_part_number p) = (up_upload_id q, up_part_number q)" if "same p" "same q"
          using that by (simp add: same_def)
        then have "p = q" if "same p" "same q"
          using that pq parts distinct_map_eq [of "\<lambda>p. (up_upload_id p, up_part_number p)"] by blast
        moreover have "p = q" if "\<not> same p" "\<not> same q"
        proof (rule distinct_map_eq [OF _ pq])
          show "distinct (map up_capability_hash (upload_parts db))" using parts by blast
          show "up_capability_hash p = up_capability_hash q" using eq that by (simp add: ch_def)
        qed
        moreover have "same p \<longleftrightarrow> same q"
          using eq renew(2) pq by (auto simp: ch_def split: if_split_asm)
        ultimately show "p = q" by blast
      qed
      moreover have "distinct (upload_parts db)" using parts by (blast intro: distinct_map [THEN iffD1, THEN conjunct1])
      ultimately show ?thesis by (simp add: distinct_map comp_def)
    qed
    moreover have "upload_part_check (ch p)" "up_received_size (ch p) \<noteq> None \<longrightarrow>
        up_received_size (ch p) = Some (up_expected_size (ch p))"
        "part_fits (ch p) s = part_fits p s" if "p \<in> set (upload_parts db)" for p s
      using that parts renew(1) by (auto simp: ch_def upload_part_check_def part_fits_def)
    ultimately show ?thesis using parts keys by (simp add: parts_ok_def renew(3) del: map_map)
  next
    case fresh
    have "up_received_size row = None" by (simp add: row_def new_part_row_def)
    with fresh parts r fits [folded row_def] show ?thesis
      by (auto simp: parts_ok_def same_def)
  qed
  moreover have "versions_ok db'" "reservations_ok db'" "grants_ok db'"
    "upload_reservations db' = upload_reservations db" "object_versions db' = object_versions db"
    using transfer_invD [OF inv] ok unfolding upsert_part_def Let_def
    by (auto simp: versions_ok_def reservations_ok_def grants_ok_def result_simps split: if_split_asm)
  ultimately show ?thesis by (simp add: transfer_inv_def)
qed

lemma issue_each_inv:
  assumes dec: "upload_reservation (r, v) = Ok upload" and r: "r \<in> set (upload_reservations db)"
    and multi: "require_multipart upload = Ok (part_size, count)"
    and ids: "\<forall>part \<in> set parts. npg_upload_id part = ur_id r"
    and inv: "transfer_inv db" and ok: "issue_each upload part_size count parts db = Ok db'"
  shows "transfer_inv db' \<and> upload_reservations db' = upload_reservations db
    \<and> object_versions db' = object_versions db"
  using r ids inv ok
proof (induction parts arbitrary: db)
  case (Cons part parts)
  from Cons.prems(4) obtain val db1 where val: "validate_part part upload part_size count = Ok val"
    and up: "upsert_part db part val = Ok db1" and rest: "issue_each upload part_size count parts db1 = Ok db'"
    by (auto simp: result_simps)
  have "reservation_row_ok r"
    using transfer_invD(2) [OF Cons.prems(3)] Cons.prems(1) unfolding reservations_ok_def by blast
  from new_part_fits [OF dec this multi val] Cons.prems(2)
  have "part_fits (new_part_row part val) r" by simp
  from upsert_part_inv [OF Cons.prems(3,1) this up]
  have one: "transfer_inv db1" "upload_reservations db1 = upload_reservations db"
    "object_versions db1 = object_versions db" by auto
  with Cons.IH [of db1] Cons.prems(1,2) rest show ?case by simp
qed simp

lemma batch_ids:
  "\<not> batch_invalid uid numbers parts \<Longrightarrow> \<forall>part \<in> set parts. npg_upload_id part = uid"
  by (induction uid numbers parts rule: batch_invalid.induct) auto

lemma issue_upload_parts_inv:
  assumes inv: "transfer_inv db" and ok: "issue_upload_parts db parts = (Ok x, db')"
  shows "transfer_inv db'"
proof -
  from ok obtain upload part_size count where batch: "validate_batch parts = Ok ()"
    and upload: "reservation_by_id db (npg_upload_id (hd parts)) = Ok upload"
    and multi: "require_multipart upload = Ok (part_size, count)"
    and each: "issue_each upload part_size count parts db = Ok db'"
    unfolding issue_upload_parts_def by (auto simp: outcome_iffs result_simps)
  obtain r v where r: "r \<in> set (upload_reservations db)" and id: "ur_id r = npg_upload_id (hd parts)"
    and dec: "upload_reservation (r, v) = Ok upload"
    by (rule reservation_by_id_D [OF upload])
  have "\<forall>part \<in> set parts. npg_upload_id part = ur_id r"
    unfolding id using batch
    by (intro batch_ids [of _ "{}"]) (simp add: validate_batch_def split: if_split_asm)
  from issue_each_inv [OF dec r multi this inv each] show ?thesis by simp
qed

lemma record_uploaded_part_inv:
  assumes inv: "transfer_inv db" and ok: "record_uploaded_part db uid n count checksum tag = (Ok u, db')"
  shows "transfer_inv db'"
proof -
  let ?sel = "\<lambda>p. up_upload_id p = uid \<and> up_part_number p = int n"
  let ?ch = "\<lambda>e p. p\<lparr>up_state := ''uploaded'', up_received_size := Some e,
      up_received_checksum := Some checksum, up_provider_tag := tag\<rparr>"
  from ok obtain e where
    q: "query_row (\<lambda>(p, r). up_upload_id p = uid \<and> up_part_number p = int n
         \<and> ur_state r = ''requested'' \<and> ur_strategy r = ''multipart'')
       (\<lambda>(p, r). Ok (up_expected_size p)) (part_join db) = Ok e"
    and chk: "\<forall>p \<in> set (upload_parts db). ?sel p \<longrightarrow> upload_part_check (?ch e p)"
    and db': "db' = db\<lparr>upload_parts := map (\<lambda>p. if ?sel p then ?ch e p else p) (upload_parts db)\<rparr>"
    unfolding record_uploaded_part_def
    by (auto simp: outcome_iffs result_simps update_rows_Ok_iff split: if_split_asm option.split_asm)
  note parts = transfer_invD(3) [OF inv, unfolded parts_ok_def]
  from query_row_Ok_D [OF q] obtain p0 r0 where "(p0, r0) \<in> set (part_join db)" and sel0: "?sel p0"
    and e: "up_expected_size p0 = e" by auto
  then have p0: "p0 \<in> set (upload_parts db)" by (simp add: part_join_iff)
  have size: "up_expected_size p = e" if "p \<in> set (upload_parts db)" "?sel p" for p
  proof -
    have "p = p0"
    proof (rule distinct_map_eq [OF _ that(1) p0])
      show "distinct (map (\<lambda>p. (up_upload_id p, up_part_number p)) (upload_parts db))" using parts by blast
      show "(up_upload_id p, up_part_number p) = (up_upload_id p0, up_part_number p0)" using that(2) sel0 by simp
    qed
    with e show ?thesis by simp
  qed
  define f where "f p = (if ?sel p then ?ch e p else p)" for p :: upload_part_row
  have maps: "map (\<lambda>p. (up_upload_id p, up_part_number p)) (map f (upload_parts db))
      = map (\<lambda>p. (up_upload_id p, up_part_number p)) (upload_parts db)"
    "map up_capability_hash (map f (upload_parts db)) = map up_capability_hash (upload_parts db)"
    by (simp_all add: f_def)
  have rows: "upload_part_check (f p) \<and> (up_received_size (f p) \<noteq> None \<longrightarrow>
      up_received_size (f p) = Some (up_expected_size (f p)))
      \<and> (\<exists>r \<in> set (upload_reservations db). part_fits (f p) r)" if "p \<in> set (upload_parts db)" for p
  proof -
    have "part_fits (f p) r = part_fits p r" for r by (simp add: part_fits_def f_def)
    with parts that chk size show ?thesis by (auto simp: f_def)
  qed
  have db'f: "db' = db\<lparr>upload_parts := map f (upload_parts db)\<rparr>"
    unfolding db' by (simp add: f_def [abs_def])
  have "parts_ok db'"
    unfolding parts_ok_def db'f using parts maps rows by (simp del: map_map)
  then show ?thesis
    using transfer_invD [OF inv]
    by (simp add: transfer_inv_def db' versions_ok_def reservations_ok_def grants_ok_def)
qed

lemma insert_download_grant_inv:
  assumes "transfer_inv db" and "insert_download_grant db d = Ok db'"
    and "\<exists>v \<in> set (object_versions db). ov_id v = dg_version_id d \<and> ov_state v = ''complete''"
  shows "transfer_inv db'"
proof -
  have db': "db' = db\<lparr>download_grants := download_grants db @ [d]\<rparr>" and "download_grant_allowed db d"
    using assms(2) unfolding insert_download_grant_def by (auto simp: result_simps)
  then have "grants_ok db'"
    using transfer_invD(4) [OF assms(1)] assms(3)
    by (auto simp: grants_ok_def download_grant_allowed_def list_ex_iff)
  then show ?thesis
    using transfer_invD [OF assms(1)]
    by (simp add: transfer_inv_def db' versions_ok_def reservations_ok_def parts_ok_def)
qed

lemma issue_download_inv:
  assumes inv: "transfer_inv db" and ok: "issue_download db grant = (Ok u, db')"
  shows "transfer_inv db'"
proof -
  from ok obtain v e where f: "find (\<lambda>v. ov_id v = ndg_version_id grant \<and> ov_state v = ''complete'')
        (object_versions db) = Some v"
    and ins: "insert_download_grant db \<lparr>dg_capability_hash = ndg_capability_hash grant,
        dg_version_id = ov_id v, dg_expires_at_ms = e\<rparr> = Ok db'"
    unfolding issue_download_def by (auto simp: outcome_iffs split: option.split_asm)
  show ?thesis
    by (rule insert_download_grant_inv [OF inv ins]) (use find_Some_iff_first [OF f] in auto)
qed

section \<open>The transfer service\<close>

datatype transfer_command =
  ReserveUpload NewUploadReservation
| RenewUpload string nat
| AttachMultipart string string
| IssueUploadParts "NewUploadPartGrant list"
| RecordUploadedPart string nat nat string "string option"
| RecordUploadedBytes string nat string
| CompleteUpload string
| AbortUpload string
| IssueDownload NewDownloadGrant

text \<open>The result of a command, forgetting the record it returns.\<close>

definition outcome_of :: "(RepositoryError + 'a) \<times> 's \<Rightarrow> (RepositoryError + unit) \<times> 's" where
  "outcome_of p = (and_then (fst p) (\<lambda>_. Ok ()), snd p)"

fun transfer_exec :: "transfer_command \<Rightarrow> database \<Rightarrow> (RepositoryError + unit) \<times> database" where
  "transfer_exec (ReserveUpload n) db = outcome_of (reserve_upload db n)"
| "transfer_exec (RenewUpload uid t) db = outcome_of (renew_upload db uid t)"
| "transfer_exec (AttachMultipart uid p) db = outcome_of (attach_multipart db uid p)"
| "transfer_exec (IssueUploadParts ps) db = outcome_of (issue_upload_parts db ps)"
| "transfer_exec (RecordUploadedPart uid n k c t) db = outcome_of (record_uploaded_part db uid n k c t)"
| "transfer_exec (RecordUploadedBytes uid k c) db = outcome_of (record_uploaded_bytes db uid k c)"
| "transfer_exec (CompleteUpload uid) db = outcome_of (complete_upload db uid)"
| "transfer_exec (AbortUpload uid) db = outcome_of (abort_upload db uid)"
| "transfer_exec (IssueDownload g) db = outcome_of (issue_download db g)"

lemma outcome_of_Ok: "outcome_of p = (r, db') \<Longrightarrow> is_ok r \<Longrightarrow> \<exists>x. p = (Ok x, db')"
  by (cases p) (auto simp: outcome_of_def is_ok_iff result_simps)

lemma outcome_of_Err: "outcome_of p = (r, db') \<Longrightarrow> \<not> is_ok r \<Longrightarrow> \<exists>e. p = (Err e, db')"
  by (cases p; cases "fst p") (auto simp: outcome_of_def)

lemma transfer_failed_unchanged:
  assumes inv: "transfer_inv db"
  shows "reserve_upload db n = (Err e, db') \<Longrightarrow> db' = db"
    and "renew_upload db uid t = (Err e, db') \<Longrightarrow> db' = db"
    and "attach_multipart db uid p = (Err e, db') \<Longrightarrow> db' = db"
    and "issue_upload_parts db ps = (Err e, db') \<Longrightarrow> db' = db"
    and "record_uploaded_part db uid k s c tag = (Err e, db') \<Longrightarrow> db' = db"
    and "record_uploaded_bytes db uid s c = (Err e, db') \<Longrightarrow> db' = db"
    and "complete_upload db uid = (Err e, db') \<Longrightarrow> db' = db"
    and "abort_upload db uid = (Err e, db') \<Longrightarrow> db' = db"
    and "issue_download db g = (Err e, db') \<Longrightarrow> db' = db"
proof -
  note once = changed_once_unchanged [OF transfer_invD(2) [OF inv]]
  show "reserve_upload db n = (Err e, db') \<Longrightarrow> db' = db"
    unfolding reserve_upload_def by (auto dest!: after_Err_D write_transaction_Err_D)
  show "renew_upload db uid t = (Err e, db') \<Longrightarrow> db' = db"
    unfolding renew_upload_def
    by (auto dest!: after_Err_D once simp: update_rows_Ok_iff)
  show "attach_multipart db uid p = (Err e, db') \<Longrightarrow> db' = db"
    unfolding attach_multipart_def by (auto dest!: after_Err_D write_transaction_Err_D)
  show "issue_upload_parts db ps = (Err e, db') \<Longrightarrow> db' = db"
    unfolding issue_upload_parts_def by (auto dest!: after_Err_D write_transaction_Err_D)
  show "record_uploaded_part db uid k s c tag = (Err e, db') \<Longrightarrow> db' = db"
    unfolding record_uploaded_part_def by (auto dest!: after_Err_D)
  show "record_uploaded_bytes db uid s c = (Err e, db') \<Longrightarrow> db' = db"
    unfolding record_uploaded_bytes_def
    by (auto dest!: after_Err_D once simp: update_rows_Ok_iff)
  show "complete_upload db uid = (Err e, db') \<Longrightarrow> db' = db"
    unfolding complete_upload_def by (auto dest!: after_Err_D write_transaction_Err_D)
  show "abort_upload db uid = (Err e, db') \<Longrightarrow> db' = db"
    unfolding abort_upload_def by (auto dest!: after_Err_D write_transaction_Err_D)
  show "issue_download db g = (Err e, db') \<Longrightarrow> db' = db"
    unfolding issue_download_def by (auto dest!: after_Err_D split: option.split_asm)
qed

lemmas transfer_op_inv =
  reserve_upload_inv renew_upload_inv attach_multipart_inv issue_upload_parts_inv
  record_uploaded_part_inv record_uploaded_bytes_inv complete_upload_inv abort_upload_inv
  issue_download_inv

interpretation transfers: transactional_service transfer_exec "\<lambda>r. \<not> is_ok r" transfer_inv
proof unfold_locales
  fix db c r db'
  assume "transfer_inv db" and "transfer_exec c db = (r, db')" and "\<not> is_ok r"
  then show "db' = db"
    by (cases c) (auto dest!: outcome_of_Err dest: transfer_failed_unchanged)
next
  fix db c r db'
  assume "transfer_inv db" and "transfer_exec c db = (r, db')" and "\<not> \<not> is_ok r"
  then show "transfer_inv db'"
    by (cases c) (auto dest!: outcome_of_Ok dest: transfer_op_inv)
qed

end
