(* ===== verification/Transfer_Properties.thy ===== *)
theory Transfer_Properties
  imports Transfer_Invariants
begin

text \<open>
  What the transfer service promises to its clients, proved over the invariant of
  \<^verbatim>\<open>Transfer_Invariants\<close>: which version a reservation gets, which bytes a completed upload
  stands for, that capabilities expire and are consumed, that parts tile the object, and that
  every accepted upload can be carried through to a download.
\<close>

section \<open>Reservations of a consistent database decode\<close>

lemma reservation_decodes:
  assumes inv: "transfer_inv db" and r: "r \<in> set (upload_reservations db)"
  obtains v x where "v \<in> set (object_versions db)" and "ov_id v = ur_version_id r" and "coupled r v"
    and "upload_reservation (r, v) = Ok x"
proof -
  note oks = transfer_invD [OF inv]
  have rok: "reservation_row_ok r" and "\<exists>v \<in> set (object_versions db). ov_id v = ur_version_id r \<and> coupled r v"
    using oks(2) r unfolding reservations_ok_def by blast+
  then obtain v where v: "v \<in> set (object_versions db)" "ov_id v = ur_version_id r" "coupled r v" by blast
  have chk: "upload_reservation_check r" using rok by (simp add: reservation_row_ok_def)
  obtain ver where ver: "object_version v = Ok ver"
    using object_version_decodes [of v] oks(1) v(1) unfolding versions_ok_def by blast
  obtain st where st: "ur_state r = reservation_state_as_str st"
    using chk unfolding upload_reservation_check_def range_reservation_state [symmetric] by blast
  obtain sy where sy: "ur_strategy r = strategy_as_str sy"
    using chk unfolding upload_reservation_check_def range_strategy [symmetric] by blast
  obtain ps where ps: "ur_part_size r = map_option int ps"
    using chk unfolding upload_reservation_check_def
    by (cases "ur_part_size r") (metis option.simps(8), metis nat_0_le option.simps(5,9) order_less_imp_le)
  obtain pc where pc: "ur_part_count r = map_option int pc" "\<forall>n. pc = Some n \<longrightarrow> n \<le> u32_max"
  proof (cases "ur_part_count r")
    case None
    then show thesis using that [of None] by simp
  next
    case (Some n)
    then have "0 < n" "n \<le> 10000" using chk by (auto simp: upload_reservation_check_def)
    then show thesis using that [of "Some (nat n)"] Some by (auto simp: u32_max_def)
  qed
  have "ur_expected_size r = int (nat (ur_expected_size r))" "ur_expires_at_ms r = int (nat (ur_expires_at_ms r))"
    using chk by (auto simp: upload_reservation_check_def)
  then have "upload_reservation (r, v) = Ok
      \<lparr>urr_id = ur_id r, urr_version = ver, urr_filename = ur_filename r,
       urr_content_type = ur_content_type r, urr_expected_size = nat (ur_expected_size r),
       urr_expected_checksum = ur_expected_checksum r, urr_expires_at_ms = nat (ur_expires_at_ms r),
       urr_state = st, urr_strategy = sy, urr_part_size = ps,
       urr_part_count = pc, urr_provider_upload_id = ur_provider_upload_id r\<rparr>"
    unfolding upload_reservation_Ok_iff using ver st sy ps pc by simp
  then show thesis using that v by blast
qed

text \<open>A join on keys selects one pair of rows.\<close>

lemma reservation_join_unique:
  assumes inv: "transfer_inv db" and rv: "(r, v) \<in> set (reservation_join db)"
    and sw: "(s, w) \<in> set (reservation_join db)"
  shows "ur_id s = ur_id r \<Longrightarrow> (s, w) = (r, v)"
    and "ur_capability_hash s = ur_capability_hash r \<Longrightarrow> (s, w) = (r, v)"
proof -
  have same: "(s, w) = (r, v)" if "s = r"
    using that rv sw version_unique [OF transfer_invD(1) [OF inv], of w v] by (simp add: reservation_join_iff)
  have rows: "s \<in> set (upload_reservations db)" "r \<in> set (upload_reservations db)"
    using rv sw by (auto simp: reservation_join_iff)
  note uniq = reservation_unique [OF transfer_invD(2) [OF inv] rows]
  show "ur_id s = ur_id r \<Longrightarrow> (s, w) = (r, v)" by (rule same [OF uniq(1)])
  show "ur_capability_hash s = ur_capability_hash r \<Longrightarrow> (s, w) = (r, v)" by (rule same [OF uniq(3)])
qed

lemma reservation_by_id_row:
  assumes inv: "transfer_inv db" and r: "r \<in> set (upload_reservations db)"
    and v: "v \<in> set (object_versions db)" "ov_id v = ur_version_id r"
  shows "reservation_by_id db (ur_id r) = upload_reservation (r, v)"
  unfolding reservation_by_id_def
proof (rule query_row_unique)
  show rv: "(r, v) \<in> set (reservation_join db)" using r v by (simp add: reservation_join_iff)
  show "y = (r, v)" if "y \<in> set (reservation_join db)" "case y of (s, w) \<Rightarrow> ur_id s = ur_id r" for y
  proof -
    obtain s w where y: "y = (s, w)" by force
    show ?thesis unfolding y using reservation_join_unique(1) [OF inv rv] that by (simp add: y)
  qed
qed simp

lemma reservation_by_id_missing:
  "\<forall>r \<in> set (upload_reservations db). ur_id r \<noteq> uid \<Longrightarrow> reservation_by_id db uid = Err NotFound"
  unfolding reservation_by_id_def by (rule query_row_NotFound) (auto simp: reservation_join_iff)

text \<open>The version row of a reservation is the one it is coupled with.\<close>

lemma linked_version_coupled:
  assumes inv: "transfer_inv db" and r: "r \<in> set (upload_reservations db)"
    and v: "v \<in> set (object_versions db)" "ov_id v = ur_version_id r"
  shows "coupled r v" and "\<exists>x. upload_reservation (r, v) = Ok x"
proof -
  obtain w x where w: "w \<in> set (object_versions db)" "ov_id w = ur_version_id r" "coupled r w"
    and x: "upload_reservation (r, w) = Ok x"
    by (rule reservation_decodes [OF inv r])
  have "v = w" using version_unique [OF transfer_invD(1) [OF inv] v(1) w(1)] v(2) w(2) by simp
  with w x show "coupled r v" and "\<exists>x. upload_reservation (r, v) = Ok x" by auto
qed

section \<open>A sample database\<close>

text \<open>One project; a three-byte single upload; a multipart upload of ten bytes in parts of four.\<close>

definition sample_hash :: "char \<Rightarrow> string" where
  "sample_hash c = replicate 64 c"

definition sample_db :: database where
  "sample_db = empty_database\<lparr>
     workspaces := [\<lparr>ws_id = ''w'', ws_name = ''W'', ws_slug = ''w''\<rparr>],
     projects := [\<lparr>pj_id = ''p'', pj_workspace_id = ''w'', pj_name = ''P'', pj_slug = ''p''\<rparr>]\<rparr>"

definition sample_upload :: NewUploadReservation where
  "sample_upload =
     \<lparr>nur_id = ''u1'', nur_project_id = ''p'', nur_object_path = ''a.txt'', nur_filename = ''a.txt'',
      nur_content_type = ''text/plain'', nur_expected_size = 3,
      nur_expected_checksum = sample_hash CHR ''a'', nur_storage_key = ''objects/u1'',
      nur_capability_hash = sample_hash CHR ''1'', nur_expires_at_ms = 100, nur_created_at_ms = 10,
      nur_source = OsCli, nur_git_repository = None, nur_git_commit = None, nur_git_branch = None,
      nur_strategy = RySingle, nur_part_size = None, nur_part_count = None\<rparr>"

definition sample_multipart :: NewUploadReservation where
  "sample_multipart = sample_upload\<lparr>nur_id := ''u2'', nur_expected_size := 10,
     nur_storage_key := ''objects/u2'', nur_capability_hash := sample_hash CHR ''2'',
     nur_strategy := RyMultipart, nur_part_size := Some 4, nur_part_count := Some 3\<rparr>"

definition sample_reserved :: database where
  "sample_reserved = run_commands transfer_exec
     [ReserveUpload sample_upload, ReserveUpload sample_multipart] sample_db"

text \<open>The rows of a sample, computed once: later evaluations start from them.\<close>

lemma sample_reserved_rows [code]:
  "sample_reserved = sample_db\<lparr>
     object_versions := [\<lparr>ov_id = ''u1'', ov_project_id = ''p'', ov_object_path = ''a.txt'',
          ov_version = 1, ov_storage_key = ''objects/u1'', ov_state = ''pending'', ov_size = None,
          ov_checksum = None, ov_created_at_ms = 10, ov_source = ''cli'', ov_git_repository = None,
          ov_git_commit = None, ov_git_branch = None\<rparr>,
        \<lparr>ov_id = ''u2'', ov_project_id = ''p'', ov_object_path = ''a.txt'', ov_version = 2,
          ov_storage_key = ''objects/u2'', ov_state = ''pending'', ov_size = None,
          ov_checksum = None, ov_created_at_ms = 10, ov_source = ''cli'', ov_git_repository = None,
          ov_git_commit = None, ov_git_branch = None\<rparr>],
     upload_reservations := [\<lparr>ur_id = ''u1'', ur_version_id = ''u1'', ur_filename = ''a.txt'',
          ur_content_type = ''text/plain'', ur_expected_size = 3,
          ur_expected_checksum = sample_hash CHR ''a'', ur_capability_hash = sample_hash CHR ''1'',
          ur_expires_at_ms = 100, ur_state = ''requested'', ur_received_size = None,
          ur_received_checksum = None, ur_strategy = ''single'', ur_part_size = None,
          ur_part_count = None, ur_provider_upload_id = None\<rparr>,
        \<lparr>ur_id = ''u2'', ur_version_id = ''u2'', ur_filename = ''a.txt'',
          ur_content_type = ''text/plain'', ur_expected_size = 10,
          ur_expected_checksum = sample_hash CHR ''a'', ur_capability_hash = sample_hash CHR ''2'',
          ur_expires_at_ms = 100, ur_state = ''requested'', ur_received_size = None,
          ur_received_checksum = None, ur_strategy = ''multipart'', ur_part_size = Some 4,
          ur_part_count = Some 3, ur_provider_upload_id = None\<rparr>]\<rparr>"
  by code_simp

definition sample_uploaded :: database where
  "sample_uploaded = run_commands transfer_exec
     [RecordUploadedBytes ''u1'' 3 (sample_hash CHR ''a'')] sample_reserved"

lemma sample_uploaded_rows [code]:
  "sample_uploaded = sample_db\<lparr>
     object_versions := [\<lparr>ov_id = ''u1'', ov_project_id = ''p'', ov_object_path = ''a.txt'',
          ov_version = 1, ov_storage_key = ''objects/u1'', ov_state = ''pending'', ov_size = None,
          ov_checksum = None, ov_created_at_ms = 10, ov_source = ''cli'', ov_git_repository = None,
          ov_git_commit = None, ov_git_branch = None\<rparr>,
        \<lparr>ov_id = ''u2'', ov_project_id = ''p'', ov_object_path = ''a.txt'', ov_version = 2,
          ov_storage_key = ''objects/u2'', ov_state = ''pending'', ov_size = None,
          ov_checksum = None, ov_created_at_ms = 10, ov_source = ''cli'', ov_git_repository = None,
          ov_git_commit = None, ov_git_branch = None\<rparr>],
     upload_reservations := [\<lparr>ur_id = ''u1'', ur_version_id = ''u1'', ur_filename = ''a.txt'',
          ur_content_type = ''text/plain'', ur_expected_size = 3,
          ur_expected_checksum = sample_hash CHR ''a'', ur_capability_hash = sample_hash CHR ''1'',
          ur_expires_at_ms = 100, ur_state = ''uploaded'', ur_received_size = Some 3,
          ur_received_checksum = Some (sample_hash CHR ''a''), ur_strategy = ''single'',
          ur_part_size = None, ur_part_count = None, ur_provider_upload_id = None\<rparr>,
        \<lparr>ur_id = ''u2'', ur_version_id = ''u2'', ur_filename = ''a.txt'',
          ur_content_type = ''text/plain'', ur_expected_size = 10,
          ur_expected_checksum = sample_hash CHR ''a'', ur_capability_hash = sample_hash CHR ''2'',
          ur_expires_at_ms = 100, ur_state = ''requested'', ur_received_size = None,
          ur_received_checksum = None, ur_strategy = ''multipart'', ur_part_size = Some 4,
          ur_part_count = Some 3, ur_provider_upload_id = None\<rparr>]\<rparr>"
  by code_simp

lemma sample_db_inv: "transfer_inv sample_db"
  by (simp add: transfer_inv_def versions_ok_def reservations_ok_def parts_ok_def grants_ok_def
      sample_db_def empty_database_def)

lemma sample_reserved_inv: "transfer_inv sample_reserved"
  unfolding sample_reserved_def by (rule transfers.inv_run [OF sample_db_inv])

lemma sample_uploaded_inv: "transfer_inv sample_uploaded"
  unfolding sample_uploaded_def by (rule transfers.inv_run [OF sample_reserved_inv])

section \<open>Completing an upload\<close>

text \<open>The step of an uploaded reservation: it becomes complete and its version becomes an object
  of the promised size and checksum.\<close>

lemma complete_upload_uploaded:
  assumes inv: "transfer_inv db" and uid: "validate_text uid = Ok ()"
    and r: "r \<in> set (upload_reservations db)" "ur_id r = uid" and st: "ur_state r = ''uploaded''"
    and v: "v \<in> set (object_versions db)" "ov_id v = ur_version_id r"
  defines "done_r \<equiv> r\<lparr>ur_state := ''complete''\<rparr>"
    and "done_v \<equiv> v\<lparr>ov_state := ''complete'', ov_size := Some (ur_expected_size r),
      ov_checksum := Some (ur_expected_checksum r)\<rparr>"
  obtains x where "object_version done_v = Ok x"
    and "complete_upload db uid = (Ok x,
      db\<lparr>upload_reservations := map (\<lambda>s. if s = r then done_r else s) (upload_reservations db),
         object_versions := map (\<lambda>w. if w = v then done_v else w) (object_versions db)\<rparr>)"
proof -
  note oks = transfer_invD [OF inv]
  have rkeys: "distinct (map ur_id (upload_reservations db))" and rok: "reservation_row_ok r"
    using oks(2) r(1) unfolding reservations_ok_def by blast+
  have vkeys: "distinct (map ov_id (object_versions db))" and vok: "object_version_check v"
    using oks(1) v(1) unfolding versions_ok_def by blast+
  have co: "coupled r v" by (rule linked_version_coupled [OF inv r(1) v])
  then have vst: "ov_state v = ''pending''" using st by (simp add: coupled_def)
  obtain rec where rec: "upload_reservation (r, v) = Ok rec" using linked_version_coupled [OF inv r(1) v] by blast
  then have by_id: "reservation_by_id db uid = Ok rec"
    using reservation_by_id_row [OF inv r(1) v] r(2) by simp
  have rst: "urr_state rec = RsUploaded"
    using rec st by (cases "urr_state rec") (auto simp: upload_reservation_Ok_iff)
  have ids: "ovr_id (urr_version rec) = ov_id v" "urr_id rec = uid"
    "urr_expected_checksum rec = ur_expected_checksum r"
    using rec r(2) by (auto simp: upload_reservation_Ok_iff object_version_Ok_iff)
  have rchk: "upload_reservation_check done_r"
    using rok st by (simp add: done_r_def reservation_row_ok_def upload_reservation_check_def)
  have vchk: "object_version_check done_v"
    using vok by (simp add: done_v_def object_version_check_def)
  have nonneg: "ur_expected_size r \<ge> 0"
    using rok by (simp add: reservation_row_ok_def upload_reservation_check_def)
  obtain x where x: "object_version done_v = Ok x"
    using object_version_decodes [OF vchk] nonneg by (auto simp: done_v_def)
  define rows where "rows = map (\<lambda>s. if s = r then done_r else s) (upload_reservations db)"
  define vrows where "vrows = map (\<lambda>w. if w = v then done_v else w) (object_versions db)"
  have up: "update_rows (\<lambda>s. ur_id s = uid \<and> ur_state s = ''uploaded'') (\<lambda>s. s\<lparr>ur_state := ''complete''\<rparr>)
      upload_reservation_check (upload_reservations db) = Ok (1, rows)"
    using update_rows_one [OF rkeys r(1), of "\<lambda>s. ur_id s = uid \<and> ur_state s = ''uploaded''"
      upload_reservation_check "\<lambda>s. s\<lparr>ur_state := ''complete''\<rparr>"] r(2) st rchk
    unfolding rows_def done_r_def by (simp cong: if_cong)
  have fnd: "find (\<lambda>s. ur_id s = uid) rows = Some done_r"
    using find_updated [OF rkeys r(1), of "\<lambda>_. done_r" "\<lambda>s. ur_id s = uid"] r(2)
    unfolding rows_def by (simp add: done_r_def)
  have vup: "update_rows (\<lambda>w. ov_id w = ov_id v \<and> ov_state w = ''pending'')
      (\<lambda>w. w\<lparr>ov_state := ''complete'', ov_size := Some (ur_expected_size r),
        ov_checksum := Some (ur_expected_checksum r)\<rparr>) object_version_check (object_versions db) = Ok (1, vrows)"
    using update_rows_one [OF vkeys v(1), of "\<lambda>w. ov_id w = ov_id v \<and> ov_state w = ''pending''"
      object_version_check "\<lambda>w. w\<lparr>ov_state := ''complete'', ov_size := Some (ur_expected_size r),
        ov_checksum := Some (ur_expected_checksum r)\<rparr>"] vst vchk
    unfolding vrows_def done_v_def by (simp cong: if_cong)
  have vfnd: "find (\<lambda>w. ov_id w = ov_id v) vrows = Some done_v"
    using find_updated [OF vkeys v(1), of "\<lambda>_. done_v" "\<lambda>w. ov_id w = ov_id v"]
    unfolding vrows_def by (simp add: done_v_def)
  have "complete_upload db uid = (Ok x, db\<lparr>upload_reservations := rows, object_versions := vrows\<rparr>)"
    unfolding complete_upload_def update_reservation_state_def complete_version_def object_version_by_id_def
    by (simp add: outcome_iffs uid by_id rst require_state_def up changed_once_def ids fnd vup vfnd
        query_row_def x done_r_def)
  with x show thesis using that unfolding rows_def vrows_def by blast
qed

section \<open>Recording bytes\<close>

lemma record_uploaded_requested:
  assumes inv: "transfer_inv db" and uid: "validate_text uid = Ok ()"
    and r: "r \<in> set (upload_reservations db)" "ur_id r = uid" and st: "ur_state r = ''requested''"
    and sum: "validate_hash (ur_expected_checksum r) = Ok ()"
  shows "record_uploaded_bytes db uid (nat (ur_expected_size r)) (ur_expected_checksum r) = (Ok (),
      db\<lparr>upload_reservations := map (\<lambda>s. if s = r then r\<lparr>ur_state := ''uploaded'',
        ur_received_size := Some (ur_expected_size r),
        ur_received_checksum := Some (ur_expected_checksum r)\<rparr> else s) (upload_reservations db)\<rparr>)"
proof -
  note oks = transfer_invD [OF inv]
  have rkeys: "distinct (map ur_id (upload_reservations db))" and rok: "reservation_row_ok r"
    using oks(2) r(1) unfolding reservations_ok_def by blast+
  obtain v rec where v: "v \<in> set (object_versions db)" "ov_id v = ur_version_id r"
    and rec: "upload_reservation (r, v) = Ok rec"
    by (rule reservation_decodes [OF inv r(1)])
  then have by_id: "reservation_by_id db uid = Ok rec"
    using reservation_by_id_row [OF inv r(1) v] r(2) by simp
  have rst: "urr_state rec = RsRequested"
    using rec st by (cases "urr_state rec") (auto simp: upload_reservation_Ok_iff)
  have terms: "urr_expected_checksum rec = ur_expected_checksum r"
    "urr_expected_size rec = nat (ur_expected_size r)"
    using rec by (auto simp: upload_reservation_Ok_iff)
  have size: "ur_expected_size r \<ge> 0" "nat (ur_expected_size r) \<le> i64_max"
    using rok by (auto simp: reservation_row_ok_def upload_reservation_check_def)
  have chk: "upload_reservation_check (r\<lparr>ur_state := ''uploaded'', ur_received_size := Some (ur_expected_size r),
      ur_received_checksum := Some (ur_expected_checksum r)\<rparr>)"
    using rok by (simp add: reservation_row_ok_def upload_reservation_check_def)
  have up: "update_rows (\<lambda>s. ur_id s = uid \<and> ur_state s = ''requested'')
      (\<lambda>s. s\<lparr>ur_state := ''uploaded'', ur_received_size := Some (ur_expected_size r),
        ur_received_checksum := Some (ur_expected_checksum r)\<rparr>)
      upload_reservation_check (upload_reservations db) = Ok (1, map (\<lambda>s. if s = r
        then s\<lparr>ur_state := ''uploaded'', ur_received_size := Some (ur_expected_size r),
          ur_received_checksum := Some (ur_expected_checksum r)\<rparr> else s) (upload_reservations db))"
    using update_rows_one [OF rkeys r(1), of "\<lambda>s. ur_id s = uid \<and> ur_state s = ''requested''"] r(2) st chk
    by simp
  have "to_i64 (nat (ur_expected_size r)) = Ok (ur_expected_size r)"
    using size by (simp add: to_i64_def)
  then show ?thesis
    unfolding record_uploaded_bytes_def validate_upload_integrity_def
    by (simp add: after_def uid sum by_id terms rst up changed_once_def cong: if_cong)
qed

text \<open>Bytes are recorded only for a live promise and only as promised: recording succeeds exactly
  when the reservation is still requested and both the byte count and the checksum are the
  ones it was made for.\<close>

theorem recorded_bytes_match_promise:
  assumes inv: "transfer_inv db"
  shows "fst (record_uploaded_bytes db uid count checksum) = Ok () \<longleftrightarrow>
    validate_text uid = Ok () \<and> validate_hash checksum = Ok ()
    \<and> (\<exists>r \<in> set (upload_reservations db). ur_id r = uid \<and> ur_state r = ''requested''
         \<and> ur_expected_size r = int count \<and> ur_expected_checksum r = checksum)"
    (is "?ok \<longleftrightarrow> ?cond")
proof
  assume ?ok
  then have ok: "record_uploaded_bytes db uid count checksum
      = (Ok (), snd (record_uploaded_bytes db uid count checksum))"
    by (metis prod.collapse)
  have valid: "validate_text uid = Ok ()" "validate_hash checksum = Ok ()"
    using ok unfolding record_uploaded_bytes_def validate_upload_integrity_def
    by (auto simp: after_Ok_iff result_simps)
  obtain current where cur: "reservation_by_id db uid = Ok current"
    and terms: "urr_expected_size current = count" "urr_expected_checksum current = checksum"
      "urr_state current = RsRequested"
    by (rule record_uploaded_bytes_Ok_D [OF ok])
  obtain r v where "r \<in> set (upload_reservations db)" "ur_id r = uid"
    and "upload_reservation (r, v) = Ok current"
    by (rule reservation_by_id_D [OF cur])
  with terms valid show ?cond by (auto simp: upload_reservation_Ok_iff)
next
  assume ?cond
  then obtain r where "r \<in> set (upload_reservations db)" "ur_id r = uid" "ur_state r = ''requested''"
    "ur_expected_size r = int count" "ur_expected_checksum r = checksum"
    and "validate_text uid = Ok ()" "validate_hash checksum = Ok ()" by blast
  with record_uploaded_requested [OF inv, of uid r] show ?ok by simp
qed

theorem recorded_bytes_match_promise_witness:
  "fst (record_uploaded_bytes sample_reserved ''u1'' 3 (sample_hash CHR ''a'')) = Ok ()
   \<and> fst (record_uploaded_bytes sample_reserved ''u1'' 4 (sample_hash CHR ''a'')) \<noteq> Ok ()"
proof -
  have "\<exists>r \<in> set (upload_reservations sample_reserved). ur_id r = ''u1'' \<and> ur_state r = ''requested''
      \<and> ur_expected_size r = int 3 \<and> ur_expected_checksum r = sample_hash CHR ''a''" by code_simp
  moreover have "\<not> (\<exists>r \<in> set (upload_reservations sample_reserved). ur_id r = ''u1''
      \<and> ur_state r = ''requested'' \<and> ur_expected_size r = int 4
      \<and> ur_expected_checksum r = sample_hash CHR ''a'')" by code_simp
  moreover have "validate_text ''u1'' = Ok ()" "validate_hash (sample_hash CHR ''a'') = Ok ()" by code_simp+
  ultimately show ?thesis
    using recorded_bytes_match_promise [OF sample_reserved_inv] by blast
qed

text \<open>C11. Completion is exact: it fails without a trace on a malformed identifier, on an unknown
  upload and in every state but uploaded, and otherwise turns exactly the reserved version into
  an object of the promised size and checksum.\<close>

theorem complete_upload_exact:
  assumes inv: "transfer_inv db"
  shows "case complete_upload db uid of
      (Inl e, db') \<Rightarrow> db' = db
        \<and> (if validate_text uid \<noteq> Ok () then e = InvalidInput
            else if \<exists>r \<in> set (upload_reservations db). ur_id r = uid
            then e = Conflict \<and> (\<exists>r \<in> set (upload_reservations db). ur_id r = uid \<and> ur_state r \<noteq> ''uploaded'')
            else e = NotFound)
    | (Inr x, db') \<Rightarrow>
        (\<exists>r \<in> set (upload_reservations db). \<exists>v \<in> set (object_versions db).
           ur_id r = uid \<and> ur_state r = ''uploaded'' \<and> ov_id v = ur_version_id r
           \<and> ov_state v = ''pending''
           \<and> ovr_id x = ov_id v \<and> ovr_version x = nat (ov_version v)
           \<and> ovr_object_path x = ov_object_path v \<and> ovr_storage_key x = ov_storage_key v
           \<and> ovr_state x = UsComplete \<and> ovr_size x = Some (nat (ur_expected_size r))
           \<and> ovr_checksum x = Some (ur_expected_checksum r)
           \<and> db' = db\<lparr>upload_reservations := map (\<lambda>s. if s = r then r\<lparr>ur_state := ''complete''\<rparr> else s)
                 (upload_reservations db),
               object_versions := map (\<lambda>w. if w = v then v\<lparr>ov_state := ''complete'',
                 ov_size := Some (ur_expected_size r), ov_checksum := Some (ur_expected_checksum r)\<rparr> else w)
                 (object_versions db)\<rparr>)"
proof -
  consider (bad) "validate_text uid \<noteq> Ok ()"
    | (missing) "validate_text uid = Ok ()" "\<forall>r \<in> set (upload_reservations db). ur_id r \<noteq> uid"
    | (found) r where "validate_text uid = Ok ()" "r \<in> set (upload_reservations db)" "ur_id r = uid"
    by blast
  then show ?thesis
  proof cases
    case bad
    then show ?thesis by (auto simp: complete_upload_def after_def validate_text_def split: if_split_asm)
  next
    case missing
    then show ?thesis
      by (auto simp: complete_upload_def after_def write_transaction_def reservation_by_id_missing)
  next
    case found
    obtain v rec where v: "v \<in> set (object_versions db)" "ov_id v = ur_version_id r" "coupled r v"
      and rec: "upload_reservation (r, v) = Ok rec"
      by (rule reservation_decodes [OF inv found(2)])
    show ?thesis
    proof (cases "ur_state r = ''uploaded''")
      case True
      obtain x where x: "object_version (v\<lparr>ov_state := ''complete'', ov_size := Some (ur_expected_size r),
          ov_checksum := Some (ur_expected_checksum r)\<rparr>) = Ok x"
        and run: "complete_upload db uid = (Ok x,
          db\<lparr>upload_reservations := map (\<lambda>s. if s = r then r\<lparr>ur_state := ''complete''\<rparr> else s)
              (upload_reservations db),
            object_versions := map (\<lambda>w. if w = v then v\<lparr>ov_state := ''complete'',
              ov_size := Some (ur_expected_size r), ov_checksum := Some (ur_expected_checksum r)\<rparr> else w)
              (object_versions db)\<rparr>)"
        by (rule complete_upload_uploaded [OF inv found True v(1,2)])
      have "ovr_state x = UsComplete" using x by (cases "ovr_state x") (auto simp: object_version_Ok_iff)
      moreover have "ov_state v = ''pending''" using v(3) True by (simp add: coupled_def)
      moreover have "ovr_size x = Some (nat (ur_expected_size r))"
        using x by (cases "ovr_size x") (auto simp: object_version_Ok_iff)
      ultimately show ?thesis
        unfolding run prod.case sum.case using found v True x
        by (intro bexI [of _ r] bexI [of _ v]) (auto simp: object_version_Ok_iff)
    next
      case False
      then have "urr_state rec \<noteq> RsUploaded" using rec by (auto simp: upload_reservation_Ok_iff)
      then have "complete_upload db uid = (Err Conflict, db)"
        using found reservation_by_id_row [OF inv found(2) v(1,2)] rec
        by (simp add: complete_upload_def after_def write_transaction_def require_state_def)
      with found False show ?thesis by auto
    qed
  qed
qed

theorem complete_upload_exact_witness:
  "case complete_upload sample_uploaded ''u1'' of
     (Inl e, db') \<Rightarrow> False
   | (Inr x, db') \<Rightarrow> ovr_state x = UsComplete \<and> ovr_size x = Some 3
        \<and> ovr_checksum x = Some (sample_hash CHR ''a'')"
proof -
  have "validate_text ''u1'' = Ok ()"
    and "\<exists>r \<in> set (upload_reservations sample_uploaded). ur_id r = ''u1''"
    and all: "\<forall>r \<in> set (upload_reservations sample_uploaded). ur_id r = ''u1'' \<longrightarrow> ur_state r = ''uploaded''
      \<and> ur_expected_size r = 3 \<and> ur_expected_checksum r = sample_hash CHR ''a''"
    by code_simp+
  then show ?thesis
    using complete_upload_exact [OF sample_uploaded_inv, of "''u1''"]
    by (auto split: prod.split_asm sum.split_asm prod.split sum.split)
qed

section \<open>Capabilities\<close>

lemma upload_by_capability_iff:
  assumes inv: "transfer_inv db"
  shows "upload_by_capability db h t = Ok x \<longleftrightarrow>
    validate_hash h = Ok () \<and> t \<le> i64_max
    \<and> (\<exists>r v. (r, v) \<in> set (reservation_join db) \<and> ur_capability_hash r = h
         \<and> ur_state r = ''requested'' \<and> ur_expires_at_ms r > int t \<and> upload_reservation (r, v) = Ok x)"
    (is "?l \<longleftrightarrow> ?valid \<and> ?range \<and> ?row")
proof
  assume ?l
  then have "?valid \<and> ?range" and q: "query_row (\<lambda>(r, v). ur_capability_hash r = h \<and> ur_state r = ''requested''
      \<and> ur_expires_at_ms r > int t) upload_reservation (reservation_join db) = Ok x"
    unfolding upload_by_capability_def by (auto simp: result_simps)
  with query_row_Ok_D [OF q] show "?valid \<and> ?range \<and> ?row" by auto
next
  assume r: "?valid \<and> ?range \<and> ?row"
  then obtain r v where rv: "(r, v) \<in> set (reservation_join db)" and h: "ur_capability_hash r = h"
    and live: "ur_state r = ''requested''" "ur_expires_at_ms r > int t"
    and x: "upload_reservation (r, v) = Ok x" by blast
  have "query_row (\<lambda>(r, v). ur_capability_hash r = h \<and> ur_state r = ''requested''
      \<and> ur_expires_at_ms r > int t) upload_reservation (reservation_join db) = upload_reservation (r, v)"
  proof (rule query_row_unique [OF rv])
    show "y = (r, v)" if "y \<in> set (reservation_join db)" "case y of (r, v) \<Rightarrow> ur_capability_hash r = h
        \<and> ur_state r = ''requested'' \<and> ur_expires_at_ms r > int t" for y
      using reservation_join_unique(2) [OF inv rv, of "fst y" "snd y"] that h by auto
  qed (use h live in simp)
  with r x show ?l by (simp add: upload_by_capability_def to_i64_def)
qed

interpretation upload_capability: expiring_capability transfer_inv upload_by_capability
proof unfold_locales
  fix db h t x u
  assume inv: "transfer_inv db" and ok: "upload_by_capability db h t = Ok x" and "u \<le> (t::nat)"
  from ok [unfolded upload_by_capability_iff [OF inv]] obtain r v
    where "validate_hash h = Ok ()" "t \<le> i64_max" "(r, v) \<in> set (reservation_join db)"
      "ur_capability_hash r = h" "ur_state r = ''requested''" "ur_expires_at_ms r > int t"
      "upload_reservation (r, v) = Ok x" by blast
  with \<open>u \<le> t\<close> show "upload_by_capability db h u = Ok x"
    unfolding upload_by_capability_iff [OF inv]
    by (intro conjI exI [of _ r] exI [of _ v]) (assumption | linarith)+
qed

lemma grant_join_iff:
  "(d, v, r) \<in> set (grant_join db) \<longleftrightarrow>
     d \<in> set (download_grants db) \<and> v \<in> set (object_versions db) \<and> r \<in> set (upload_reservations db)
     \<and> ov_id v = dg_version_id d \<and> ur_version_id r = ov_id v"
  by (force simp: grant_join_def stored_join_iff)

lemma grant_join_unique:
  assumes inv: "transfer_inv db" and y: "(d, v, r) \<in> set (grant_join db)"
    and z: "(d', v', r') \<in> set (grant_join db)" and h: "dg_capability_hash d' = dg_capability_hash d"
  shows "(d', v', r') = (d, v, r)"
proof -
  note oks = transfer_invD [OF inv]
  have "distinct (map dg_capability_hash (download_grants db))" using oks(4) by (simp add: grants_ok_def)
  then have d: "d' = d"
    using distinct_map_eq [of dg_capability_hash "download_grants db" d' d] y z h
    by (simp only: grant_join_iff)
  have v: "v' = v"
    using version_unique [OF oks(1), of v' v] y z d by (simp only: grant_join_iff)
  have "r' \<in> set (upload_reservations db)" "r \<in> set (upload_reservations db)"
    "ur_version_id r' = ur_version_id r"
    using y z v by (simp_all only: grant_join_iff)
  then have "r' = r" by (rule reservation_unique(2) [OF oks(2)])
  with d v show ?thesis by simp
qed

lemma download_by_capability_iff:
  assumes inv: "transfer_inv db"
  shows "download_by_capability db h t = Ok x \<longleftrightarrow>
    validate_hash h = Ok () \<and> t \<le> i64_max
    \<and> (\<exists>d v r. (d, v, r) \<in> set (grant_join db) \<and> dg_capability_hash d = h
         \<and> dg_expires_at_ms d > int t \<and> ov_state v = ''complete'' \<and> stored_object (v, r) = Ok x)"
    (is "?l \<longleftrightarrow> ?valid \<and> ?range \<and> ?row")
proof
  assume ?l
  then have "?valid \<and> ?range" and q: "query_row (\<lambda>(d, v, r). dg_capability_hash d = h
      \<and> dg_expires_at_ms d > int t \<and> ov_state v = ''complete'') (\<lambda>(d, vr). stored_object vr) (grant_join db) = Ok x"
    unfolding download_by_capability_def by (auto simp: result_simps)
  with query_row_Ok_D [OF q] show "?valid \<and> ?range \<and> ?row" by auto
next
  assume r: "?valid \<and> ?range \<and> ?row"
  then obtain d v r where dvr: "(d, v, r) \<in> set (grant_join db)" and h: "dg_capability_hash d = h"
    and live: "dg_expires_at_ms d > int t" "ov_state v = ''complete''"
    and x: "stored_object (v, r) = Ok x" by blast
  have "query_row (\<lambda>(d, v, r). dg_capability_hash d = h \<and> dg_expires_at_ms d > int t
      \<and> ov_state v = ''complete'') (\<lambda>(d, vr). stored_object vr) (grant_join db)
      = (\<lambda>(d, vr). stored_object vr) (d, v, r)"
  proof (rule query_row_unique [OF dvr])
    fix y
    assume y: "y \<in> set (grant_join db)" and sel: "case y of (d, v, r) \<Rightarrow> dg_capability_hash d = h
        \<and> dg_expires_at_ms d > int t \<and> ov_state v = ''complete''"
    obtain d' v' r' where eq: "y = (d', v', r')" using prod_cases3 by blast
    show "y = (d, v, r)" unfolding eq using grant_join_unique [OF inv dvr] y sel h by (simp add: eq)
  qed (use h live in simp)
  with r x show ?l by (simp add: download_by_capability_def to_i64_def)
qed

interpretation download_capability: expiring_capability transfer_inv download_by_capability
proof unfold_locales
  fix db h t x u
  assume inv: "transfer_inv db" and ok: "download_by_capability db h t = Ok x" and "u \<le> (t::nat)"
  from ok [unfolded download_by_capability_iff [OF inv]] obtain d v r
    where "validate_hash h = Ok ()" "t \<le> i64_max" "(d, v, r) \<in> set (grant_join db)"
      "dg_capability_hash d = h" "dg_expires_at_ms d > int t" "ov_state v = ''complete''"
      "stored_object (v, r) = Ok x" by blast
  with \<open>u \<le> t\<close> show "download_by_capability db h u = Ok x"
    unfolding download_by_capability_iff [OF inv]
    by (intro conjI exI [of _ d] exI [of _ v] exI [of _ r]) (assumption | linarith)+
qed

text \<open>An upload capability denotes one reservation for a bounded time: whatever it resolves to
  it resolves to at every earlier time as well, it never denotes two different reservations,
  once it has stopped resolving it never resolves again, and what it resolves to is requested
  and unexpired.\<close>

theorem upload_capability_lifetime:
  assumes inv: "transfer_inv db" and ok: "upload_by_capability db h t = Ok x"
  shows "urr_state x = RsRequested \<and> t < urr_expires_at_ms x
    \<and> (\<forall>u. u \<le> t \<longrightarrow> upload_by_capability db h u = Ok x)
    \<and> (\<forall>u y. upload_by_capability db h u = Ok y \<longrightarrow> y = x)
    \<and> (\<forall>u w e. upload_by_capability db h u = Err e \<and> u \<le> w \<longrightarrow> \<not> is_ok (upload_by_capability db h w))"
proof -
  obtain r v where "ur_state r = ''requested''" "ur_expires_at_ms r > int t" "upload_reservation (r, v) = Ok x"
    using ok unfolding upload_by_capability_iff [OF inv] by blast
  then have "urr_state x = RsRequested \<and> t < urr_expires_at_ms x"
    by (cases "urr_state x") (auto simp: upload_reservation_Ok_iff)
  moreover have "\<not> is_ok (upload_by_capability db h w)"
    if "upload_by_capability db h u = Err e" "u \<le> w" for u w e
    using upload_capability.stays_dead [OF inv that] by (auto simp: is_ok_iff)
  ultimately show ?thesis
    using upload_capability.earlier [OF inv ok] upload_capability.denotes_one [OF inv _ ok] by blast
qed

theorem upload_capability_lifetime_witness:
  "urr_id (projr (upload_by_capability sample_reserved (sample_hash CHR ''1'') 50)) = ''u1''
   \<and> upload_by_capability sample_reserved (sample_hash CHR ''1'') 20
     = upload_by_capability sample_reserved (sample_hash CHR ''1'') 50"
proof -
  have ok: "is_ok (upload_by_capability sample_reserved (sample_hash CHR ''1'') 50)" by code_simp
  then obtain x where x: "upload_by_capability sample_reserved (sample_hash CHR ''1'') 50 = Ok x"
    by (auto simp: is_ok_iff)
  have "urr_id (projr (upload_by_capability sample_reserved (sample_hash CHR ''1'') 50)) = ''u1''" by code_simp
  with upload_capability_lifetime [OF sample_reserved_inv x] x show ?thesis by simp
qed

text \<open>An upload whose bytes are recorded, completed or aborted is no longer requested, so its
  capability is spent.\<close>

lemma upload_capability_spent:
  assumes "\<And>r. r \<in> set (upload_reservations db) \<Longrightarrow> ur_capability_hash r = h \<Longrightarrow> ur_state r \<noteq> ''requested''"
    and "validate_hash h = Ok ()" and "t \<le> i64_max"
  shows "upload_by_capability db h t = Err NotFound"
proof -
  have "query_row (\<lambda>(r, v). ur_capability_hash r = h \<and> ur_state r = ''requested'' \<and> ur_expires_at_ms r > int t)
      upload_reservation (reservation_join db) = Err NotFound"
  proof (rule query_row_NotFound)
    fix y
    assume y: "y \<in> set (reservation_join db)"
    obtain r v where eq: "y = (r, v)" by force
    have "r \<in> set (upload_reservations db)" using y unfolding eq reservation_join_iff by simp
    then show "\<not> (case y of (r, v) \<Rightarrow> ur_capability_hash r = h \<and> ur_state r = ''requested''
        \<and> ur_expires_at_ms r > int t)"
      unfolding eq using assms(1) by auto
  qed
  then show ?thesis using assms(2,3) by (simp add: upload_by_capability_def to_i64_def)
qed

text \<open>An upload capability is single use: once the bytes it was issued for have been recorded it
  resolves at no time, so a second upload through it is refused.\<close>

theorem upload_capability_single_use:
  assumes inv: "transfer_inv db" and ok: "upload_by_capability db h t = Ok x"
    and rec: "record_uploaded_bytes db (urr_id x) count checksum = (Ok (), db')" and u: "u \<le> i64_max"
  shows "upload_by_capability db' h u = Err NotFound"
proof (rule upload_capability_spent [OF _ _ u])
  obtain r v where rv: "(r, v) \<in> set (reservation_join db)" and h: "ur_capability_hash r = h"
    and x: "upload_reservation (r, v) = Ok x" and valid: "validate_hash h = Ok ()"
    using ok unfolding upload_by_capability_iff [OF inv] by blast
  show "validate_hash h = Ok ()" by (rule valid)
  have r: "r \<in> set (upload_reservations db)" "ur_id r = urr_id x"
    using rv x by (auto simp: reservation_join_iff upload_reservation_Ok_iff)
  obtain current where rows: "upload_reservations db' = map (\<lambda>s. if ur_id s = urr_id x \<and> ur_state s = ''requested''
      then s\<lparr>ur_state := ''uploaded'', ur_received_size := Some (int count),
        ur_received_checksum := Some checksum\<rparr> else s) (upload_reservations db)"
    by (rule record_uploaded_bytes_Ok_D [OF rec]) simp
  fix s'
  assume "s' \<in> set (upload_reservations db')" and h': "ur_capability_hash s' = h"
  then obtain s where s: "s \<in> set (upload_reservations db)"
    and s': "s' = (if ur_id s = urr_id x \<and> ur_state s = ''requested''
      then s\<lparr>ur_state := ''uploaded'', ur_received_size := Some (int count),
        ur_received_checksum := Some checksum\<rparr> else s)"
    unfolding rows set_map by blast
  have "ur_capability_hash s = h" using s' h' by (simp split: if_split_asm)
  then have "s = r" using reservation_unique(3) [OF transfer_invD(2) [OF inv] s r(1)] h by simp
  then show "ur_state s' \<noteq> ''requested''" using s' r(2) by auto
qed

theorem upload_capability_single_use_witness:
  "upload_by_capability sample_uploaded (sample_hash CHR ''1'') 50 = Err NotFound"
proof -
  let ?h = "sample_hash CHR ''1''"
  have "is_ok (upload_by_capability sample_reserved ?h 50)" by code_simp
  then obtain x where x: "upload_by_capability sample_reserved ?h 50 = Ok x" by (auto simp: is_ok_iff)
  have "urr_id (projr (upload_by_capability sample_reserved ?h 50)) = ''u1''" by code_simp
  then have id: "urr_id x = ''u1''" by (simp add: x)
  have "is_ok (fst (record_uploaded_bytes sample_reserved ''u1'' 3 (sample_hash CHR ''a'')))" by code_simp
  then have "record_uploaded_bytes sample_reserved ''u1'' 3 (sample_hash CHR ''a'') = (Ok (), sample_uploaded)"
    by (cases "record_uploaded_bytes sample_reserved ''u1'' 3 (sample_hash CHR ''a'')")
      (auto simp: sample_uploaded_def outcome_of_def is_ok_iff)
  with upload_capability_single_use [OF sample_reserved_inv x, of 3 "sample_hash CHR ''a''" sample_uploaded 50]
  show ?thesis by (simp add: id le_i64_max)
qed

end
