(* ===== verification/Transfer_Histories.thy ===== *)
theory Transfer_Histories
  imports Transfer_Properties
begin

text \<open>
  Properties of the transfer service across operations and histories: version allocation, the
  tiling of an object by its parts, the path from a reservation to a download, the committed
  bytes of every reachable database, and listings.
\<close>

section \<open>Reserving a version\<close>

lemma next_version_above:
  assumes "next_version db n = Ok version"
    and "k \<in> set (known_versions db (nur_project_id n) (nur_object_path n))"
  shows "k < version"
proof -
  let ?vs = "known_versions db (nur_project_id n) (nur_object_path n)"
  have "version = (if ?vs = [] then 0 else Max (set ?vs)) + 1"
    using assms(1) by (auto simp: next_version_def Let_def split: if_split_asm)
  moreover have "?vs \<noteq> []" using assms(2) by (cases ?vs) simp_all
  moreover have "k \<le> Max (set ?vs)" using assms(2) by simp
  ultimately show ?thesis by simp
qed

text \<open>A reservation gets a version number above every version of its path that is stored or
  recorded in a deletion of that path, starts as a pending version with the promised terms, and its
  capability resolves to exactly this reservation until it expires.\<close>

theorem reserve_allocates_next_version:
  assumes inv: "transfer_inv db" and ok: "reserve_upload db n = (Ok x, db')"
  shows "urr_id x = nur_id n \<and> urr_state x = RsRequested \<and> ovr_state (urr_version x) = UsPending
    \<and> ovr_object_path (urr_version x) = nur_object_path n
    \<and> urr_expected_size x = nur_expected_size n \<and> urr_expected_checksum x = nur_expected_checksum n
    \<and> ovr_version (urr_version x) \<le> i64_max
    \<and> (\<forall>k \<in> set (known_versions db (nur_project_id n) (nur_object_path n)).
         k < int (ovr_version (urr_version x)))
    \<and> (\<forall>t. t < nur_expires_at_ms n \<longrightarrow> upload_by_capability db' (nur_capability_hash n) t = Ok x)"
proof -
  obtain val version where val: "validate_reservation n = Ok val" and nv: "next_version db n = Ok version"
    and db': "db' = db\<lparr>object_versions := object_versions db @ [new_version_row n version (vr_created_at_ms val)],
      upload_reservations := upload_reservations db @ [new_reservation_row n val]\<rparr>"
    and x: "reservation_by_id db' (nur_id n) = Ok x"
    by (rule reserve_upload_Ok_D [OF ok])
  define r where "r = new_reservation_row n val"
  define v where "v = new_version_row n version (vr_created_at_ms val)"
  have inv': "transfer_inv db'" by (rule reserve_upload_inv [OF inv ok])
  have r: "r \<in> set (upload_reservations db')" and v: "v \<in> set (object_versions db')" "ov_id v = ur_version_id r"
    by (simp_all add: db' r_def v_def new_reservation_row_def new_version_row_def)
  have id: "ur_id r = nur_id n" by (simp add: r_def new_reservation_row_def)
  then have dec: "upload_reservation (r, v) = Ok x"
    using reservation_by_id_row [OF inv' r v] x by simp
  note terms = validate_reservation_D [OF val]
  have hash: "validate_hash (nur_capability_hash n) = Ok ()" and exp: "nur_expires_at_ms n \<le> i64_max"
    using val unfolding validate_reservation_def by (auto simp: result_simps split: if_split_asm)
  have "upload_by_capability db' (nur_capability_hash n) t = Ok x" if "t < nur_expires_at_ms n" for t
    unfolding upload_by_capability_iff [OF inv']
    using r v dec hash exp that terms(3)
    by (intro conjI exI [of _ r] exI [of _ v])
      (auto simp: reservation_join_iff r_def new_reservation_row_def)
  moreover have "urr_state x = RsRequested" "ovr_state (urr_version x) = UsPending"
    using dec by (cases "urr_state x"; cases "ovr_state (urr_version x)";
        simp add: upload_reservation_Ok_iff object_version_Ok_iff r_def v_def
          new_reservation_row_def new_version_row_def)+
  moreover have num: "version = int (ovr_version (urr_version x))"
    using dec by (simp add: upload_reservation_Ok_iff object_version_Ok_iff v_def new_version_row_def)
  moreover have "ovr_version (urr_version x) \<le> i64_max"
    using nv num by (auto simp: next_version_def Let_def split: if_split_asm)
  moreover have "urr_id x = nur_id n" "ovr_object_path (urr_version x) = nur_object_path n"
    "urr_expected_size x = nur_expected_size n" "urr_expected_checksum x = nur_expected_checksum n"
    using dec terms(1) by (simp_all add: upload_reservation_Ok_iff object_version_Ok_iff r_def v_def
        new_reservation_row_def new_version_row_def)
  ultimately show ?thesis using next_version_above [OF nv] by blast
qed

theorem reserve_allocates_next_version_witness:
  "ovr_version (urr_version (projr (fst (reserve_upload sample_reserved
     (sample_upload\<lparr>nur_id := ''u3'', nur_storage_key := ''objects/u3'',
       nur_capability_hash := sample_hash CHR ''3''\<rparr>))))) > 2"
proof -
  let ?n = "sample_upload\<lparr>nur_id := ''u3'', nur_storage_key := ''objects/u3'',
      nur_capability_hash := sample_hash CHR ''3''\<rparr>"
  have "is_ok (fst (reserve_upload sample_reserved ?n))" by code_simp
  then obtain x db' where run: "reserve_upload sample_reserved ?n = (Ok x, db')"
    by (metis is_ok_iff prod.collapse)
  have "2 \<in> set (known_versions sample_reserved (nur_project_id ?n) (nur_object_path ?n))" by code_simp
  with reserve_allocates_next_version [OF sample_reserved_inv run]
  have "2 < int (ovr_version (urr_version x))" by blast
  then show ?thesis by (simp add: run)
qed

section \<open>Parts tile the object\<close>

lemma part_bytes_prefix:
  "(\<Sum>n = 1..k. part_bytes e part_size n) = min e (k * part_size)"
proof (induction k)
  case (Suc k)
  have "(\<Sum>n = 1..Suc k. part_bytes e part_size n) = min e (k * part_size) + part_bytes e part_size (Suc k)"
    using Suc by simp
  also have "\<dots> = min e (k * part_size) + min (e - k * part_size) part_size"
    by (simp add: part_bytes_def)
  also have "\<dots> = min e (Suc k * part_size)" unfolding mult_Suc by linarith
  finally show ?case .
qed simp

lemma expected_part_size_exact:
  assumes "multipart_shape (urr_expected_size u) part_size count" and "urr_expected_size u \<le> i64_max"
    and "1 \<le> k" and "k \<le> count"
  shows "expected_part_size u k part_size = part_bytes (urr_expected_size u) part_size k"
proof -
  let ?e = "urr_expected_size u"
  have pos: "part_size > 0" and count: "div_ceil ?e part_size = count" "count > 0"
    using assms(1) by (auto simp: multipart_shape_def)
  have "?e > 0" using count by (cases "?e = 0") (simp_all add: div_ceil_def)
  then have "(count - 1) * part_size < ?e" using div_ceil_bounds(2) [OF pos, of ?e] count(1) by simp
  moreover have "(k - 1) * part_size \<le> (count - 1) * part_size"
    using assms(4) by (intro mult_le_mono1 diff_le_mono)
  ultimately have "(k - 1) * part_size \<le> u64_max"
    using assms(2) unfolding i64_max_def u64_max_def by linarith
  then show ?thesis
    by (simp add: expected_part_size_def saturating_mul_u64_def saturating_sub_u64_def part_bytes_def)
qed

text \<open>C23. The parts of an accepted multipart plan tile the object: the sizes the service demands for
  parts one to the part count are all positive, all but the last are the part size, and they add
  up to exactly the promised size, with no overflow anywhere in the accepted range.\<close>

theorem multipart_parts_tile_object:
  assumes val: "validate_reservation n = Ok val" and multi: "nur_strategy n = RyMultipart"
    and size: "urr_expected_size u = nur_expected_size n"
  shows "\<exists>part_size count. nur_part_size n = Some part_size \<and> nur_part_count n = Some count
    \<and> (\<Sum>k = 1..count. expected_part_size u k part_size) = nur_expected_size n
    \<and> (\<forall>k. 1 \<le> k \<and> k < count \<longrightarrow> expected_part_size u k part_size = part_size)
    \<and> 0 < expected_part_size u count part_size \<and> expected_part_size u count part_size \<le> part_size"
proof -
  obtain part_size count where plan: "nur_part_size n = Some part_size" "nur_part_count n = Some count"
    and shape: "multipart_shape (nur_expected_size n) part_size count"
    by (rule validate_strategy_multipart [OF validate_reservation_D(7) [OF val] multi])
  let ?e = "nur_expected_size n"
  note exact = expected_part_size_exact [of u, unfolded size, OF shape validate_reservation_D(2) [OF val]]
  have pos: "part_size > 0" and count: "div_ceil ?e part_size = count" "count > 0"
    using shape by (auto simp: multipart_shape_def)
  have "?e > 0" using count by (cases "?e = 0") (simp_all add: div_ceil_def)
  then have low: "(count - 1) * part_size < ?e" and up: "?e \<le> count * part_size"
    using div_ceil_bounds [OF pos, of ?e] count(1) by simp_all
  have "(\<Sum>k = 1..count. expected_part_size u k part_size) = (\<Sum>k = 1..count. part_bytes ?e part_size k)"
    by (rule sum.cong [OF refl]) (simp add: exact)
  also have "\<dots> = min ?e (count * part_size)" by (rule part_bytes_prefix)
  also have "\<dots> = ?e" using up by simp
  finally have total: "(\<Sum>k = 1..count. expected_part_size u k part_size) = ?e" .
  have inner: "expected_part_size u k part_size = part_size" if k: "1 \<le> k \<and> k < count" for k
  proof -
    have "k * part_size \<le> (count - 1) * part_size" using k by (intro mult_le_mono1) linarith
    moreover have "k * part_size = (k - 1) * part_size + part_size"
      using k by (metis add.commute le_add_diff_inverse mult_Suc plus_1_eq_Suc)
    ultimately have "part_size \<le> ?e - (k - 1) * part_size" using low by linarith
    then show ?thesis using k by (simp add: exact part_bytes_def)
  qed
  have "0 < expected_part_size u count part_size" "expected_part_size u count part_size \<le> part_size"
    using count(2) low pos by (simp_all add: exact part_bytes_def)
  with plan total inner show ?thesis by blast
qed

theorem multipart_parts_tile_object_witness:
  "nur_part_count sample_multipart = Some 3 \<and> (\<exists>part_size. nur_part_size sample_multipart = Some part_size
   \<and> (\<Sum>k = 1..3. expected_part_size (projr (upload_by_id sample_reserved ''u2'')) k part_size) = 10)"
proof -
  have "is_ok (validate_reservation sample_multipart)" by code_simp
  then obtain val where val: "validate_reservation sample_multipart = Ok val" by (auto simp: is_ok_iff)
  have "urr_expected_size (projr (upload_by_id sample_reserved ''u2'')) = nur_expected_size sample_multipart"
    by code_simp
  from multipart_parts_tile_object [OF val _ this]
  show ?thesis by (auto simp: sample_multipart_def)
qed

section \<open>From a reservation to a download\<close>

lemma fresh_grant_resolves:
  assumes inv: "transfer_inv db"
    and v: "v \<in> set (object_versions db)" "ov_state v = ''complete''"
    and r: "r \<in> set (upload_reservations db)" "ur_version_id r = ov_id v"
    and g: "validate_text (ov_id v) = Ok ()" "validate_hash h = Ok ()" "e \<le> i64_max"
    and fresh: "\<forall>d \<in> set (download_grants db). dg_capability_hash d \<noteq> h"
    and x: "object_version v = Ok x" and t: "t < e"
  shows "\<exists>db'. issue_download db \<lparr>ndg_version_id = ov_id v, ndg_capability_hash = h, ndg_expires_at_ms = e\<rparr>
      = (Ok (), db')
    \<and> download_by_capability db' h t
      = Ok \<lparr>sor_version = x, sor_filename = ur_filename r, sor_content_type = ur_content_type r\<rparr>"
proof -
  define d where "d = \<lparr>dg_capability_hash = h, dg_version_id = ov_id v, dg_expires_at_ms = int e\<rparr>"
  define db' where "db' = db\<lparr>download_grants := download_grants db @ [d]\<rparr>"
  have keys: "distinct (map ov_id (object_versions db))" using transfer_invD(1) [OF inv] by (simp add: versions_ok_def)
  have f: "find (\<lambda>w. ov_id w = ov_id v \<and> ov_state w = ''complete'') (object_versions db) = Some v"
    by (rule find_unique) (use v distinct_map_eq [OF keys _ v(1)] in auto)
  have "insert_download_grant db d = Ok db'"
    using fresh v(1) unfolding insert_download_grant_def download_grant_allowed_def
    by (auto simp: insert_row_def d_def db'_def list_ex_iff)
  then have run: "issue_download db \<lparr>ndg_version_id = ov_id v, ndg_capability_hash = h, ndg_expires_at_ms = e\<rparr>
      = (Ok (), db')"
    using g f unfolding issue_download_def validate_download_grant_def
    by (simp add: after_def to_i64_def d_def)
  have inv': "transfer_inv db'" by (rule issue_download_inv [OF inv run])
  have "(d, v, r) \<in> set (grant_join db')" using v r by (simp add: grant_join_iff db'_def d_def)
  moreover have "stored_object (v, r)
      = Ok \<lparr>sor_version = x, sor_filename = ur_filename r, sor_content_type = ur_content_type r\<rparr>"
    using x by (simp add: stored_object_def)
  ultimately have "download_by_capability db' h t
      = Ok \<lparr>sor_version = x, sor_filename = ur_filename r, sor_content_type = ur_content_type r\<rparr>"
    unfolding download_by_capability_iff [OF inv'] using g t v(2)
    by (intro conjI exI [of _ d] exI [of _ v] exI [of _ r]) (simp_all add: d_def)
  with run show ?thesis by blast
qed

text \<open>C20. No accepted upload gets stuck: after a successful reservation, recording the promised bytes
  succeeds, completing succeeds, and a fresh download grant for the version then resolves, until
  it expires, to the object with the promised size, checksum, file name and content type.\<close>

theorem reserved_upload_reaches_download:
  assumes inv: "transfer_inv db" and ok: "reserve_upload db n = (Ok u, db1)"
    and h: "validate_hash h = Ok ()" "e \<le> i64_max" "t < e"
    and fresh: "\<forall>d \<in> set (download_grants db). dg_capability_hash d \<noteq> h"
  shows "\<exists>db2 db3 db4 x. record_uploaded_bytes db1 (nur_id n) (nur_expected_size n) (nur_expected_checksum n)
        = (Ok (), db2)
    \<and> complete_upload db2 (nur_id n) = (Ok x, db3)
    \<and> issue_download db3 \<lparr>ndg_version_id = nur_id n, ndg_capability_hash = h, ndg_expires_at_ms = e\<rparr>
        = (Ok (), db4)
    \<and> download_by_capability db4 h t = Ok \<lparr>sor_version = x, sor_filename = nur_filename n,
          sor_content_type = nur_content_type n\<rparr>
    \<and> ovr_id x = nur_id n \<and> ovr_object_path x = nur_object_path n \<and> ovr_storage_key x = nur_storage_key n
    \<and> ovr_state x = UsComplete \<and> ovr_size x = Some (nur_expected_size n)
    \<and> ovr_checksum x = Some (nur_expected_checksum n)"
proof -
  obtain val version where val: "validate_reservation n = Ok val"
    and db1: "db1 = db\<lparr>object_versions := object_versions db @ [new_version_row n version (vr_created_at_ms val)],
      upload_reservations := upload_reservations db @ [new_reservation_row n val]\<rparr>"
    by (rule reserve_upload_Ok_D [OF ok])
  define r where "r = new_reservation_row n val"
  define v where "v = new_version_row n version (vr_created_at_ms val)"
  note terms = validate_reservation_D [OF val]
  have uid: "validate_text (nur_id n) = Ok ()" and sum: "validate_hash (nur_expected_checksum n) = Ok ()"
    using val unfolding validate_reservation_def by (auto simp: result_simps)
  have inv1: "transfer_inv db1" by (rule reserve_upload_inv [OF inv ok])
  have r: "r \<in> set (upload_reservations db1)" "ur_id r = nur_id n" "ur_state r = ''requested''"
    and rt: "ur_version_id r = nur_id n" "ur_expected_size r = int (nur_expected_size n)"
      "ur_expected_checksum r = nur_expected_checksum n" "ur_filename r = nur_filename n"
      "ur_content_type r = nur_content_type n"
    using terms(1) by (simp_all add: db1 r_def new_reservation_row_def)
  have v: "v \<in> set (object_versions db1)" "ov_id v = nur_id n" "ov_object_path v = nur_object_path n"
      "ov_storage_key v = nur_storage_key n"
    by (simp_all add: db1 v_def new_version_row_def)
  define r2 where "r2 = r\<lparr>ur_state := ''uploaded'', ur_received_size := Some (ur_expected_size r),
      ur_received_checksum := Some (ur_expected_checksum r)\<rparr>"
  define db2 where "db2 = db1\<lparr>upload_reservations := map (\<lambda>s. if s = r then r2 else s) (upload_reservations db1)\<rparr>"
  have rec: "record_uploaded_bytes db1 (nur_id n) (nur_expected_size n) (nur_expected_checksum n) = (Ok (), db2)"
    using record_uploaded_requested [OF inv1 uid r] sum by (simp add: rt db2_def r2_def)
  have inv2: "transfer_inv db2" by (rule record_uploaded_bytes_inv [OF inv1 rec])
  have r2: "r2 \<in> set (upload_reservations db2)" using r(1) by (force simp: db2_def)
  have r2t: "ur_id r2 = nur_id n" "ur_state r2 = ''uploaded''" "ur_version_id r2 = nur_id n"
      "ur_expected_size r2 = int (nur_expected_size n)" "ur_expected_checksum r2 = nur_expected_checksum n"
      "ur_filename r2 = nur_filename n" "ur_content_type r2 = nur_content_type n"
    by (simp_all add: r2_def r rt)
  have v2: "v \<in> set (object_versions db2)" "ov_id v = ur_version_id r2" using v by (simp_all add: db2_def r2t)
  define r3 where "r3 = r2\<lparr>ur_state := ''complete''\<rparr>"
  define v3 where "v3 = v\<lparr>ov_state := ''complete'', ov_size := Some (ur_expected_size r2),
      ov_checksum := Some (ur_expected_checksum r2)\<rparr>"
  define db3 where "db3 = db2\<lparr>upload_reservations := map (\<lambda>s. if s = r2 then r3 else s) (upload_reservations db2),
      object_versions := map (\<lambda>w. if w = v then v3 else w) (object_versions db2)\<rparr>"
  obtain x where x: "object_version v3 = Ok x" and comp: "complete_upload db2 (nur_id n) = (Ok x, db3)"
    by (rule complete_upload_uploaded [OF inv2 uid r2 r2t(1,2) v2]) (simp add: db3_def r3_def v3_def)
  have inv3: "transfer_inv db3" by (rule complete_upload_inv [OF inv2 comp])
  have v3: "v3 \<in> set (object_versions db3)" and r3: "r3 \<in> set (upload_reservations db3)"
    using v2(1) r2 by (force simp: db3_def)+
  have v3t: "ov_id v3 = nur_id n" "ov_state v3 = ''complete''" "ov_object_path v3 = nur_object_path n"
    "ov_storage_key v3 = nur_storage_key n" "ov_size v3 = Some (int (nur_expected_size n))"
    "ov_checksum v3 = Some (nur_expected_checksum n)"
    by (simp_all add: v3_def v r2t)
  have "download_grants db3 = download_grants db" by (simp add: db3_def db2_def db1)
  with fresh have fresh3: "\<forall>d \<in> set (download_grants db3). dg_capability_hash d \<noteq> h" by simp
  have "ur_version_id r3 = ov_id v3" by (simp add: r3_def r2t v3t)
  from fresh_grant_resolves [OF inv3 v3 v3t(2) r3 this _ h(1,2) fresh3 x h(3)] uid
  obtain db4 where "issue_download db3 \<lparr>ndg_version_id = nur_id n, ndg_capability_hash = h, ndg_expires_at_ms = e\<rparr>
        = (Ok (), db4)"
    and "download_by_capability db4 h t = Ok \<lparr>sor_version = x, sor_filename = nur_filename n,
          sor_content_type = nur_content_type n\<rparr>"
    by (auto simp: v3t r3_def r2t)
  moreover have "ovr_state x = UsComplete" using x v3t(2) by (cases "ovr_state x") (auto simp: object_version_Ok_iff)
  moreover have "ovr_size x = Some (nur_expected_size n)"
    using x v3t(5) by (cases "ovr_size x") (auto simp: object_version_Ok_iff)
  ultimately show ?thesis using rec comp x v3t by (auto simp: object_version_Ok_iff)
qed

theorem reserved_upload_reaches_download_witness:
  "\<exists>db1 db2 db3 db4 u x. reserve_upload sample_db sample_upload = (Ok u, db1)
    \<and> record_uploaded_bytes db1 ''u1'' 3 (sample_hash CHR ''a'') = (Ok (), db2)
    \<and> complete_upload db2 ''u1'' = (Ok x, db3)
    \<and> issue_download db3 \<lparr>ndg_version_id = ''u1'', ndg_capability_hash = sample_hash CHR ''d'',
        ndg_expires_at_ms = 70\<rparr> = (Ok (), db4)
    \<and> download_by_capability db4 (sample_hash CHR ''d'') 60
        = Ok \<lparr>sor_version = x, sor_filename = ''a.txt'', sor_content_type = ''text/plain''\<rparr>
    \<and> ovr_size x = Some 3"
proof -
  have "is_ok (fst (reserve_upload sample_db sample_upload))" by code_simp
  then obtain u db1 where run: "reserve_upload sample_db sample_upload = (Ok u, db1)"
    by (metis is_ok_iff prod.collapse)
  have h: "validate_hash (sample_hash CHR ''d'') = Ok ()" by code_simp
  have fresh: "\<forall>d \<in> set (download_grants sample_db). dg_capability_hash d \<noteq> sample_hash CHR ''d''" by code_simp
  have n: "nur_id sample_upload = ''u1''" "nur_expected_size sample_upload = 3"
    "nur_expected_checksum sample_upload = sample_hash CHR ''a''" "nur_filename sample_upload = ''a.txt''"
    "nur_content_type sample_upload = ''text/plain''"
    by (simp_all add: sample_upload_def)
  have "(70::nat) \<le> i64_max" and "(60::nat) < 70" by (simp_all add: le_i64_max)
  from reserved_upload_reaches_download [OF sample_db_inv run h this fresh]
  show ?thesis unfolding n using run by blast
qed

section \<open>Histories\<close>

text \<open>C10. In every database reachable by transfer commands, in any order and with any failures in
  between, object identifiers, storage keys and version numbers of a path are unique, a
  version is complete exactly when its reservation is, and a complete version has exactly the
  size and checksum the reservation promised.\<close>

theorem reachable_versions_keep_promises:
  assumes "transfer_inv db0" and "reached transfer_exec db0 db"
  shows "distinct (map ov_id (object_versions db))
    \<and> distinct (map ov_storage_key (object_versions db))
    \<and> distinct (map (\<lambda>v. (ov_project_id v, ov_object_path v, ov_version v)) (object_versions db))
    \<and> (\<forall>r \<in> set (upload_reservations db). \<forall>v \<in> set (object_versions db). ov_id v = ur_version_id r \<longrightarrow>
        (ov_state v = ''complete'' \<longleftrightarrow> ur_state r = ''complete'')
        \<and> (ov_state v = ''complete'' \<longrightarrow>
             ov_size v = Some (ur_expected_size r) \<and> ov_checksum v = Some (ur_expected_checksum r)))"
proof -
  have inv: "transfer_inv db" by (rule transfers.inv_reached [OF assms(2,1)])
  have "(ov_state v = ''complete'' \<longleftrightarrow> ur_state r = ''complete'')
      \<and> (ov_state v = ''complete'' \<longrightarrow>
           ov_size v = Some (ur_expected_size r) \<and> ov_checksum v = Some (ur_expected_checksum r))"
    if r: "r \<in> set (upload_reservations db)" and v: "v \<in> set (object_versions db)" "ov_id v = ur_version_id r"
    for r v
  proof -
    have "coupled r v" by (rule linked_version_coupled [OF inv r v])
    moreover have "upload_reservation_check r"
      using transfer_invD(2) [OF inv] r by (simp add: reservations_ok_def reservation_row_ok_def)
    ultimately show ?thesis by (auto simp: coupled_def upload_reservation_check_def)
  qed
  with transfer_invD(1) [OF inv] show ?thesis unfolding versions_ok_def by blast
qed

theorem reachable_versions_keep_promises_witness:
  "\<exists>v \<in> set (object_versions (run_commands transfer_exec [CompleteUpload ''u1''] sample_uploaded)).
     ov_state v = ''complete'' \<and> ov_size v = Some 3 \<and> ov_checksum v = Some (sample_hash CHR ''a'')"
proof -
  let ?db = "run_commands transfer_exec [CompleteUpload ''u1''] sample_uploaded"
  have "reached transfer_exec sample_uploaded ?db"
    unfolding reached_iff_run by (rule exI, rule refl)
  note keep = reachable_versions_keep_promises [OF sample_uploaded_inv this]
  have "\<exists>r \<in> set (upload_reservations ?db). \<exists>v \<in> set (object_versions ?db). ov_id v = ur_version_id r
      \<and> ur_state r = ''complete'' \<and> ur_expected_size r = 3 \<and> ur_expected_checksum r = sample_hash CHR ''a''"
    by code_simp
  then obtain r v where r: "r \<in> set (upload_reservations ?db)" and v: "v \<in> set (object_versions ?db)"
    and link: "ov_id v = ur_version_id r" and terms: "ur_state r = ''complete''" "ur_expected_size r = 3"
      "ur_expected_checksum r = sample_hash CHR ''a''" by blast
  from keep [THEN conjunct2, THEN conjunct2, THEN conjunct2, rule_format, OF r v link] terms
  have "ov_state v = ''complete'' \<and> ov_size v = Some 3 \<and> ov_checksum v = Some (sample_hash CHR ''a'')"
    by simp
  with v show ?thesis by blast
qed

text \<open>Failed transfer commands leave no trace: a history and the same history without its failed
  commands end in the same database.\<close>

theorem failed_commands_leave_no_trace:
  assumes "transfer_inv db"
  shows "run_commands transfer_exec cs db
    = run_commands transfer_exec (effective_commands transfer_exec (\<lambda>r. \<not> is_ok r) cs db) db"
  by (rule transfers.run_effective [OF assms])

theorem failed_commands_leave_no_trace_witness:
  "run_commands transfer_exec [CompleteUpload ''u2'', CompleteUpload ''u1'', CompleteUpload ''u1''] sample_uploaded
    = run_commands transfer_exec [CompleteUpload ''u1''] sample_uploaded"
proof -
  have "effective_commands transfer_exec (\<lambda>r. \<not> is_ok r)
      [CompleteUpload ''u2'', CompleteUpload ''u1'', CompleteUpload ''u1''] sample_uploaded
    = [CompleteUpload ''u1'']" by code_simp
  with failed_commands_leave_no_trace [OF sample_uploaded_inv,
      of "[CompleteUpload ''u2'', CompleteUpload ''u1'', CompleteUpload ''u1'']"]
  show ?thesis by simp
qed

section \<open>Listings\<close>

lemma distinct_join:
  "distinct vs \<Longrightarrow> distinct rs \<Longrightarrow> distinct (concat (map (\<lambda>v. map (Pair v) (filter (Q v) rs)) vs))"
  by (induction vs) (auto simp: distinct_map inj_on_def)

lemma stored_join_distinct:
  assumes "transfer_inv db"
  shows "distinct (stored_join db)"
proof -
  have "distinct (object_versions db)" "distinct (upload_reservations db)"
    using transfer_invD(1,2) [OF assms] by (auto simp: versions_ok_def reservations_ok_def distinct_map)
  then show ?thesis unfolding stored_join_def by (rule distinct_join)
qed

lemma latest_complete_max:
  assumes "w \<in> set (object_versions db)" and "ov_project_id w = ov_project_id v"
    and "ov_object_path w = ov_object_path v" and "ov_state w = ''complete''"
  shows "ov_version w \<le> latest_complete db v"
  unfolding latest_complete_def using assms by (intro Max_ge) auto

lemma kept_path_unique:
  assumes inv: "transfer_inv db"
    and a: "(v, r) \<in> set (stored_join db)" "ov_version v = latest_complete db v"
    and b: "(w, s) \<in> set (stored_join db)" "ov_version w = latest_complete db w"
    and same: "ov_project_id w = ov_project_id v" "ov_object_path w = ov_object_path v"
  shows "v = w \<and> r = s"
proof -
  note oks = transfer_invD [OF inv]
  have rows: "v \<in> set (object_versions db)" "w \<in> set (object_versions db)"
    "r \<in> set (upload_reservations db)" "s \<in> set (upload_reservations db)"
    "ur_version_id r = ov_id v" "ur_version_id s = ov_id w"
    using a(1) b(1) by (auto simp: stored_join_iff)
  have "latest_complete db w = latest_complete db v" by (simp add: latest_complete_def same)
  then have key: "(ov_project_id v, ov_object_path v, ov_version v) = (ov_project_id w, ov_object_path w, ov_version w)"
    using a(2) b(2) same by simp
  have "distinct (map (\<lambda>v. (ov_project_id v, ov_object_path v, ov_version v)) (object_versions db))"
    using oks(1) by (simp add: versions_ok_def)
  from distinct_map_eq [OF this rows(1,2)] key have "v = w" by simp
  moreover from this rows have "r = s" by (intro reservation_unique(2) [OF oks(2)]) simp_all
  ultimately show ?thesis by simp
qed

text \<open>The default listing shows the latest object of every path: entries are in strictly ascending
  path order, so no path appears twice, every entry is complete and belongs to the project, and
  no complete version of the same path is newer than the one listed.\<close>

theorem listing_shows_latest_per_path:
  assumes inv: "transfer_inv db" and ok: "list_stored_objects db project prefix False = Ok xs"
  shows "sorted (map (\<lambda>x. ovr_object_path (sor_version x)) xs)
    \<and> distinct (map (\<lambda>x. ovr_object_path (sor_version x)) xs)
    \<and> (\<forall>x \<in> set xs. ovr_project_id (sor_version x) = project \<and> ovr_state (sor_version x) = UsComplete
        \<and> (\<forall>w \<in> set (object_versions db). ov_project_id w = project
             \<and> ov_object_path w = ovr_object_path (sor_version x) \<and> ov_state w = ''complete''
             \<longrightarrow> ov_version w \<le> int (ovr_version (sor_version x))))"
proof -
  define keep where "keep = (\<lambda>(v, r :: upload_reservation_row). ov_project_id v = project \<and> ov_state v = ''complete''
      \<and> (case prefix of None \<Rightarrow> True | Some p \<Rightarrow> starts_with p (ov_object_path v))
      \<and> ov_version v = latest_complete db v)"
  define rows where "rows = sort_key (\<lambda>(v, r). (ov_object_path v, ov_version v)) (filter keep (stored_join db))"
  have "collect_results stored_object rows = Ok xs"
    using ok unfolding list_stored_objects_def rows_def keep_def by (auto simp: result_simps)
  then have all2: "list_all2 (\<lambda>vr x. stored_object vr = Ok x) rows xs" by (simp add: collect_results_Ok_iff)
  have dec: "object_version (fst vr) = Ok (sor_version x)" if "stored_object vr = Ok x" for vr x
    using that by (auto simp: stored_object_def result_simps)
  have "list_all2 (\<lambda>vr x. ov_object_path (fst vr) = ovr_object_path (sor_version x)) rows xs"
    using all2 by (rule list_all2_mono) (auto dest: dec simp: object_version_Ok_iff)
  then have paths: "map (\<lambda>x. ovr_object_path (sor_version x)) xs = map (\<lambda>vr. ov_object_path (fst vr)) rows"
    by (simp add: list_all2_conv_all_nth list_eq_iff_nth_eq)
  have "sorted (map (\<lambda>(v, r). (ov_object_path v, ov_version v)) rows)" unfolding rows_def by simp
  then have "sorted (map (\<lambda>vr. ov_object_path (fst vr)) rows)"
    unfolding sorted_iff_nth_mono by (simp add: less_eq_prod_def case_prod_beta) (meson less_imp_le)
  moreover have "distinct (map (\<lambda>vr. ov_object_path (fst vr)) rows)"
  proof -
    have "distinct rows" using stored_join_distinct [OF inv] by (simp add: rows_def)
    moreover have "inj_on (\<lambda>vr. ov_object_path (fst vr)) (set rows)"
    proof (rule inj_onI)
      fix a b
      assume a: "a \<in> set rows" and b: "b \<in> set rows"
        and path: "ov_object_path (fst a) = ov_object_path (fst b)"
      have mem: "vr \<in> set (stored_join db)" "ov_project_id (fst vr) = project"
        "ov_version (fst vr) = latest_complete db (fst vr)" if "vr \<in> set rows" for vr
        using that by (auto simp: rows_def keep_def)
      have "fst a = fst b \<and> snd a = snd b"
        using mem [OF a] mem [OF b] path
        by (intro kept_path_unique [OF inv]) simp_all
      then show "a = b" by (simp add: prod_eq_iff)
    qed
    ultimately show ?thesis by (simp add: distinct_map)
  qed
  moreover have "ovr_project_id (sor_version x) = project \<and> ovr_state (sor_version x) = UsComplete
        \<and> (\<forall>w \<in> set (object_versions db). ov_project_id w = project
             \<and> ov_object_path w = ovr_object_path (sor_version x) \<and> ov_state w = ''complete''
             \<longrightarrow> ov_version w \<le> int (ovr_version (sor_version x)))" if x: "x \<in> set xs" for x
  proof -
    obtain i where i: "i < length xs" "x = xs ! i" using x by (auto simp: in_set_conv_nth)
    define vr where "vr = rows ! i"
    have vr: "vr \<in> set rows" "stored_object vr = Ok x"
      using i list_all2_lengthD [OF all2] list_all2_nthD2 [OF all2 i(1)] by (simp_all add: vr_def)
    have kept: "ov_project_id (fst vr) = project" "ov_state (fst vr) = ''complete''"
      "ov_version (fst vr) = latest_complete db (fst vr)"
      using vr(1) by (auto simp: rows_def keep_def)
    note d = dec [OF vr(2), unfolded object_version_Ok_iff]
    have st: "ovr_state (sor_version x) = UsComplete"
      using d kept(2) by (cases "ovr_state (sor_version x)") simp_all
    have proj: "ovr_project_id (sor_version x) = project" using d kept(1) by simp
    have path: "ovr_object_path (sor_version x) = ov_object_path (fst vr)" using d by simp
    have num: "int (ovr_version (sor_version x)) = latest_complete db (fst vr)"
      using d kept(3) by (simp only: d)
    show ?thesis
      unfolding num path
      using st proj latest_complete_max [of _ db "fst vr"] kept(1) by auto
  qed
  ultimately show ?thesis unfolding paths by blast
qed

theorem listing_shows_latest_per_path_witness:
  "map (\<lambda>x. ovr_object_path (sor_version x)) (projr (list_stored_objects
     (run_commands transfer_exec [CompleteUpload ''u1''] sample_uploaded) ''p'' None False)) = [''a.txt'']
   \<and> sorted (map (\<lambda>x. ovr_object_path (sor_version x)) (projr (list_stored_objects
     (run_commands transfer_exec [CompleteUpload ''u1''] sample_uploaded) ''p'' None False)))"
proof -
  let ?db = "run_commands transfer_exec [CompleteUpload ''u1''] sample_uploaded"
  have inv: "transfer_inv ?db" by (rule transfers.inv_run [OF sample_uploaded_inv])
  have "is_ok (list_stored_objects ?db ''p'' None False)" by code_simp
  then obtain xs where xs: "list_stored_objects ?db ''p'' None False = Ok xs" by (auto simp: is_ok_iff)
  have "map (\<lambda>x. ovr_object_path (sor_version x)) (projr (list_stored_objects ?db ''p'' None False)) = [''a.txt'']"
    by code_simp
  with listing_shows_latest_per_path [OF inv xs] xs show ?thesis by simp
qed

end
