(* ===== verification/Audit_Log.thy ===== *)
theory Audit_Log
  imports Repository_State Service
begin

text \<open>
  The audit log of \<^verbatim>\<open>lifecycle_audit.rs\<close>: validation, the append of an event with its
  auto-increment sequence number, and newest-first pages. Every audited operation of the other
  services ends in \<open>audit_insert\<close>.
\<close>

section \<open>The model\<close>

text \<open>\<^verbatim>\<open>collect::<BTreeMap<_, _>>\<close>: entries in key order, the last entry of a key wins.\<close>

definition btree_map :: "('k :: linorder \<times> 'v) list \<Rightarrow> ('k \<times> 'v) list" where
  "btree_map entries =
     map (\<lambda>k. (k, the (map_of (rev entries) k))) (btree_set (map fst entries))"

text \<open>The loop over the metadata, with its set of seen names.\<close>

fun validate_metadata :: "string set \<Rightarrow> (string \<times> AuditValue) list \<Rightarrow> RepositoryError + unit" where
  "validate_metadata names [] = Ok ()"
| "validate_metadata names ((name, value) # rest) =
     and_then (validate_text name) (\<lambda>_.
       if name \<in> names then Err InvalidInput
       else and_then (case value of AvString text \<Rightarrow> validate_text text | _ \<Rightarrow> Ok ()) (\<lambda>_.
              validate_metadata (insert name names) rest))"

definition audit_validate :: "NewAuditEvent \<Rightarrow> RepositoryError + unit" where
  "audit_validate event =
     and_then (try_each validate_text
       [nae_id event, nae_workspace_id event, nae_actor event, nae_action event,
        nae_request_id event, nae_target_type event]) (\<lambda>_.
       validate_metadata {} (nae_metadata event))"

fun json_value_of :: "AuditValue \<Rightarrow> json_value" where
  "json_value_of (AvString s) = JsonString s"
| "json_value_of (AvNumber n) = JsonNumber (int n)"
| "json_value_of (AvBoolean b) = JsonBool b"
| "json_value_of AvNull = JsonNull"

definition encode_metadata :: "(string \<times> AuditValue) list \<Rightarrow> (string \<times> json_value) list" where
  "encode_metadata values = btree_map (map (\<lambda>(name, v). (name, json_value_of v)) values)"

fun decode_value :: "json_value \<Rightarrow> RepositoryError + AuditValue" where
  "decode_value (JsonString s) = Ok (AvString s)"
| "decode_value (JsonNumber n) = (if n \<ge> 0 then Ok (AvNumber (nat n)) else Err Unavailable)"
| "decode_value (JsonBool b) = Ok (AvBoolean b)"
| "decode_value JsonNull = Ok AvNull"
| "decode_value _ = Err Unavailable"

definition decode_metadata ::
  "(string \<times> json_value) list \<Rightarrow> RepositoryError + (string \<times> AuditValue) list" where
  "decode_metadata =
     collect_results (\<lambda>(name, v). and_then (decode_value v) (\<lambda>decoded. Ok (name, decoded)))"

text \<open>The columns of the new row; \<^verbatim>\<open>sequence\<close> is one more than any number handed out before.\<close>

definition audit_event_allowed :: "database \<Rightarrow> audit_event_row \<Rightarrow> bool" where
  "audit_event_allowed db row \<longleftrightarrow>
     ae_created_at_ms row \<ge> 0
     \<and> \<not> list_ex (\<lambda>e. ae_id e = ae_id row) (audit_events db)
     \<and> list_ex (\<lambda>w. ws_id w = ae_workspace_id row) (workspaces db)"

definition audit_insert :: "database \<Rightarrow> NewAuditEvent \<Rightarrow> RepositoryError + database" where
  "audit_insert db event =
     and_then (audit_validate event) (\<lambda>_.
     and_then (to_i64 (nae_created_at_ms event)) (\<lambda>created_at_ms.
       if audit_sequence db \<ge> int i64_max then Err Unavailable
       else let row = \<lparr>ae_sequence = audit_sequence db + 1, ae_id = nae_id event,
                       ae_workspace_id = nae_workspace_id event, ae_actor = nae_actor event,
                       ae_action = nae_action event, ae_request_id = nae_request_id event,
                       ae_target_type = nae_target_type event,
                       ae_metadata = encode_metadata (nae_metadata event),
                       ae_created_at_ms = created_at_ms\<rparr>
            in and_then (insert_row (audit_event_allowed db row) row (audit_events db)) (\<lambda>rows.
                 Ok (db\<lparr>audit_events := rows, audit_sequence := audit_sequence db + 1\<rparr>))))"

definition record_audit :: "database \<Rightarrow> NewAuditEvent \<Rightarrow> unit outcome" where
  "record_audit db event = after (audit_insert db event) db (\<lambda>db'. (Ok (), db'))"

definition audit_row :: "audit_event_row \<Rightarrow> RepositoryError + AuditEventRecord" where
  "audit_row r =
     and_then (required_u64 (ae_sequence r)) (\<lambda>sequence.
     and_then (decode_metadata (ae_metadata r)) (\<lambda>metadata.
     and_then (required_u64 (ae_created_at_ms r)) (\<lambda>created_at_ms.
       Ok \<lparr>aer_sequence = sequence, aer_action = ae_action r, aer_actor = ae_actor r,
           aer_created_at_ms = created_at_ms, aer_id = ae_id r, aer_metadata = metadata,
           aer_request_id = ae_request_id r, aer_target_type = ae_target_type r,
           aer_workspace_id = ae_workspace_id r\<rparr>)))"

text \<open>The rows of a page query before \<^verbatim>\<open>LIMIT\<close>: \<^verbatim>\<open>ORDER BY sequence DESC\<close>.\<close>

definition audit_selection :: "database \<Rightarrow> string \<Rightarrow> int option \<Rightarrow> audit_event_row list" where
  "audit_selection db workspace_id before =
     rev (sort_key ae_sequence (filter (\<lambda>e. ae_workspace_id e = workspace_id
       \<and> (case before of None \<Rightarrow> True | Some b \<Rightarrow> ae_sequence e < b)) (audit_events db)))"

definition query_audit ::
  "database \<Rightarrow> string \<Rightarrow> int option \<Rightarrow> nat \<Rightarrow> RepositoryError + AuditEventRecord list" where
  "query_audit db workspace_id before fetch =
     collect_results audit_row (take fetch (audit_selection db workspace_id before))"

definition list_audit ::
  "database \<Rightarrow> string \<Rightarrow> nat option \<Rightarrow> nat \<Rightarrow> RepositoryError + AuditPage" where
  "list_audit db workspace_id before limit =
     and_then (validate_text workspace_id) (\<lambda>_.
       if \<not> (1 \<le> limit \<and> limit \<le> 100) then Err InvalidInput
       else and_then (transpose_option to_i64 before) (\<lambda>before.
            and_then (query_audit db workspace_id before (limit + 1)) (\<lambda>items.
              let has_more = limit < length items;
                  items = (if has_more then butlast items else items);
                  next_before = (if has_more \<and> items \<noteq> [] then Some (aer_sequence (last items)) else None)
              in Ok \<lparr>apg_items = items, apg_next_before = next_before\<rparr>)))"

section \<open>Metadata round trip\<close>

lemma decode_json_value_of [simp]: "decode_value (json_value_of v) = Ok v"
  by (cases v) simp_all

lemma set_btree_map: "distinct (map fst xs) \<Longrightarrow> set (btree_map xs) = set xs"
proof -
  assume d: "distinct (map fst xs)"
  then have "map_of (rev xs) k = Some v \<longleftrightarrow> (k, v) \<in> set xs" for k v
    by (simp add: map_of_eq_Some_iff rev_map [symmetric])
  then have "the (map_of (rev xs) (fst p)) = snd p" if "p \<in> set xs" for p
    using that by (metis option.sel prod.collapse)
  then show ?thesis by (force simp: btree_map_def image_image)
qed

lemma collect_results_all: "(\<And>x. x \<in> set xs \<Longrightarrow> f x = Ok (g x)) \<Longrightarrow> collect_results f xs = Ok (map g xs)"
  by (induction xs) simp_all

lemma decode_encode_metadata:
  assumes "distinct (map fst m)"
  shows "decode_metadata (encode_metadata m) = Ok (btree_map m)"
proof -
  let ?enc = "map (\<lambda>(name, v). (name, json_value_of v)) m"
  have keys: "map fst ?enc = map fst m" by (simp add: case_prod_beta)
  have look: "map_of (rev ?enc) k = map_option json_value_of (map_of (rev m) k)" for k
    by (simp add: map_of_map rev_map)
  have "k \<in> dom (map_of (rev m))" if "k \<in> fst ` set m" for k
    using that by (simp add: dom_map_of_conv_image_fst)
  then have dec: "decode_value (the (map_of (rev ?enc) k)) = Ok (the (map_of (rev m) k))"
    if "k \<in> fst ` set m" for k
    using that unfolding look by fastforce
  have "collect_results (\<lambda>(name, v). and_then (decode_value v) (\<lambda>decoded. Ok (name, decoded)))
      (map (\<lambda>k. (k, the (map_of (rev ?enc) k))) (btree_set (map fst m)))
      = Ok (map (\<lambda>(k, v). (k, the (map_of (rev m) k))) (map (\<lambda>k. (k, the (map_of (rev ?enc) k))) (btree_set (map fst m))))"
    by (rule collect_results_all) (use dec in force)
  then show ?thesis
    unfolding decode_metadata_def encode_metadata_def btree_map_def keys by (simp add: comp_def)
qed

lemma validate_metadata_distinct:
  "validate_metadata names m = Ok u \<Longrightarrow> distinct (map fst m) \<and> fst ` set m \<inter> names = {}"
  by (induction names m rule: validate_metadata.induct)
    (auto simp: result_simps split: if_split_asm)

section \<open>The invariant of the log\<close>

definition audit_inv :: "database \<Rightarrow> bool" where
  "audit_inv db \<longleftrightarrow>
     sorted_wrt (<) (map ae_sequence (audit_events db))
     \<and> distinct (map ae_id (audit_events db))
     \<and> 0 \<le> audit_sequence db \<and> audit_sequence db \<le> int i64_max
     \<and> (\<forall>e \<in> set (audit_events db). 0 < ae_sequence e \<and> ae_sequence e \<le> audit_sequence db
          \<and> 0 \<le> ae_created_at_ms e \<and> (\<exists>m. decode_metadata (ae_metadata e) = Ok m))"

lemma audit_insert_Ok_D:
  assumes "audit_insert db event = Ok db'"
  obtains e where "db' = db\<lparr>audit_events := audit_events db @ [e], audit_sequence := audit_sequence db + 1\<rparr>"
    and "ae_sequence e = audit_sequence db + 1" and "ae_id e = nae_id event"
    and "ae_workspace_id e = nae_workspace_id event" and "ae_action e = nae_action event"
    and "ae_metadata e = encode_metadata (nae_metadata event)"
    and "ae_created_at_ms e = int (nae_created_at_ms event)"
    and "audit_event_allowed db e" and "audit_validate event = Ok ()"
  using assms unfolding audit_insert_def by (auto simp: result_simps Let_def split: if_split_asm)

lemma audit_insert_inv:
  assumes inv: "audit_inv db" and ok: "audit_insert db event = Ok db'"
  shows "audit_inv db'"
proof -
  obtain e where db': "db' = db\<lparr>audit_events := audit_events db @ [e], audit_sequence := audit_sequence db + 1\<rparr>"
    and e: "ae_sequence e = audit_sequence db + 1" "ae_metadata e = encode_metadata (nae_metadata event)"
      "ae_created_at_ms e = int (nae_created_at_ms event)"
    and allowed: "audit_event_allowed db e" and valid: "audit_validate event = Ok ()"
    by (rule audit_insert_Ok_D [OF ok])
  have "distinct (map fst (nae_metadata event))"
    using valid validate_metadata_distinct by (auto simp: audit_validate_def result_simps)
  then have "decode_metadata (ae_metadata e) = Ok (btree_map (nae_metadata event))"
    by (simp add: e decode_encode_metadata)
  moreover have "\<forall>d \<in> set (audit_events db). ae_id d \<noteq> ae_id e"
    using allowed by (auto simp: audit_event_allowed_def list_ex_iff)
  moreover have "audit_sequence db + 1 \<le> int i64_max"
    using ok by (auto simp: audit_insert_def result_simps split: if_split_asm)
  ultimately show ?thesis
    using inv e(1,3) unfolding audit_inv_def db'
    by (auto simp: sorted_wrt_append intro: order.trans le_less_trans)
qed

section \<open>Pages\<close>

lemma descending_filter_drop:
  assumes "sorted_wrt (\<lambda>a b. f b < (f a :: int)) xs" and "0 < n" and "n \<le> length xs"
  shows "filter (\<lambda>e. f e < f (xs ! (n - 1))) xs = drop n xs"
proof -
  have split: "xs = take n xs @ drop n xs" by simp
  have last: "xs ! (n - 1) \<in> set (take n xs)" using assms(2,3)
    by (auto simp: in_set_conv_nth intro!: exI [of _ "n - 1"])
  have high: "\<not> f e < f (xs ! (n - 1))" if e: "e \<in> set (take n xs)" for e
  proof -
    obtain i where i: "i < n" "i < length xs" "e = xs ! i"
      using e assms(3) by (auto simp: in_set_conv_nth [of e "take n xs"])
    then have "i = n - 1 \<or> i < n - 1" by linarith
    moreover have "n - 1 < length xs" using assms(2,3) by linarith
    ultimately show ?thesis
      using sorted_wrt_nth_less [OF assms(1), of i "n - 1"] i(3) by force
  qed
  have low: "f e < f (xs ! (n - 1))" if "e \<in> set (drop n xs)" for e
    using assms(1) last that by (subst (asm) split) (simp only: sorted_wrt_append)
  show ?thesis
    using high low by (subst (2) split) (simp only: filter_append, simp add: filter_True filter_False)
qed

lemma audit_selection_descending:
  assumes "audit_inv db"
  shows "sorted_wrt (\<lambda>a b. ae_sequence b < ae_sequence a) (audit_selection db w before)"
proof -
  let ?P = "\<lambda>e. ae_workspace_id e = w \<and> (case before of None \<Rightarrow> True | Some b \<Rightarrow> ae_sequence e < b)"
  have all: "sorted_wrt (\<lambda>a b. ae_sequence a < ae_sequence b) (filter ?P (audit_events db))"
    using assms by (simp add: audit_inv_def sorted_wrt_map sorted_wrt_filter)
  have "sorted_wrt (\<lambda>a b. ae_sequence a \<le> ae_sequence b) (filter ?P (audit_events db))"
    by (rule sorted_wrt_mono_rel [OF _ all]) simp
  then have "sorted (map ae_sequence (filter ?P (audit_events db)))" by (simp add: sorted_wrt_map)
  then have "sort_key ae_sequence (filter ?P (audit_events db)) = filter ?P (audit_events db)"
    by (rule sort_key_id_if_sorted)
  with all show ?thesis unfolding audit_selection_def by (simp add: sorted_wrt_rev)
qed

lemma audit_selection_continue:
  assumes "\<forall>b'. before = Some b' \<longrightarrow> b \<le> b'"
  shows "audit_selection db w (Some b) = filter (\<lambda>e. ae_sequence e < b) (audit_selection db w before)"
proof -
  have "filter (\<lambda>e. ae_workspace_id e = w \<and> ae_sequence e < b) (audit_events db)
      = filter (\<lambda>e. ae_sequence e < b) (filter (\<lambda>e. ae_workspace_id e = w
          \<and> (case before of None \<Rightarrow> True | Some b' \<Rightarrow> ae_sequence e < b')) (audit_events db))"
    using assms by (auto simp: filter_filter split: option.split intro!: filter_cong)
  then have "rev (sort_key ae_sequence (filter (\<lambda>e. ae_workspace_id e = w \<and> ae_sequence e < b) (audit_events db)))
      = rev (filter (\<lambda>e. ae_sequence e < b) (sort_key ae_sequence (filter (\<lambda>e. ae_workspace_id e = w
          \<and> (case before of None \<Rightarrow> True | Some b' \<Rightarrow> ae_sequence e < b')) (audit_events db))))"
    by (simp only: filter_sort)
  then show ?thesis by (simp only: audit_selection_def rev_filter option.case)
qed

lemma audit_row_decodes:
  assumes "audit_inv db" and "e \<in> set (audit_events db)"
  obtains x where "audit_row e = Ok x" and "int (aer_sequence x) = ae_sequence e" and "aer_id x = ae_id e"
    and "decode_metadata (ae_metadata e) = Ok (aer_metadata x)"
proof -
  have "0 < ae_sequence e" "0 \<le> ae_created_at_ms e" "\<exists>m. decode_metadata (ae_metadata e) = Ok m"
    using assms unfolding audit_inv_def by blast+
  then obtain m where m: "decode_metadata (ae_metadata e) = Ok m"
    and pos: "0 \<le> ae_sequence e" "0 \<le> ae_created_at_ms e" by auto
  show thesis
    by (rule that [of "\<lparr>aer_sequence = nat (ae_sequence e), aer_action = ae_action e, aer_actor = ae_actor e,
        aer_created_at_ms = nat (ae_created_at_ms e), aer_id = ae_id e, aer_metadata = m,
        aer_request_id = ae_request_id e, aer_target_type = ae_target_type e,
        aer_workspace_id = ae_workspace_id e\<rparr>"])
      (use m pos in \<open>simp_all add: audit_row_def required_u64_def\<close>)
qed

lemma audit_selection_set: "e \<in> set (audit_selection db w before) \<Longrightarrow> e \<in> set (audit_events db)
    \<and> (\<forall>b. before = Some b \<longrightarrow> ae_sequence e < b)"
  by (auto simp: audit_selection_def)

lemma collect_audit_rows:
  assumes inv: "audit_inv db" and rows: "set rows \<subseteq> set (audit_events db)"
  obtains xs where "collect_results audit_row rows = Ok xs"
    and "map (\<lambda>x. int (aer_sequence x)) xs = map ae_sequence rows" and "map aer_id xs = map ae_id rows"
proof -
  have "\<exists>xs. collect_results audit_row rows = Ok xs
      \<and> map (\<lambda>x. int (aer_sequence x)) xs = map ae_sequence rows \<and> map aer_id xs = map ae_id rows"
    using rows
  proof (induction rows)
    case (Cons e rows)
    obtain x where "audit_row e = Ok x" "int (aer_sequence x) = ae_sequence e" "aer_id x = ae_id e"
      by (rule audit_row_decodes [OF inv, of e]) (use Cons.prems in auto)
    with Cons show ?case by auto
  qed simp
  then show thesis using that by blast
qed

lemma audit_page:
  assumes inv: "audit_inv db" and w: "validate_text w = Ok ()" and limit: "1 \<le> limit" "limit \<le> 100"
    and before: "\<forall>b. before = Some b \<longrightarrow> b \<le> i64_max"
  shows "\<exists>page. list_audit db w before limit = Ok page
    \<and> map aer_id (apg_items page) = map ae_id (take limit (audit_selection db w (map_option int before)))
    \<and> sorted_wrt (>) (map aer_sequence (apg_items page))
    \<and> (case apg_next_before page of
         None \<Rightarrow> drop limit (audit_selection db w (map_option int before)) = []
       | Some b \<Rightarrow> drop limit (audit_selection db w (map_option int before)) \<noteq> []
           \<and> audit_selection db w (Some (int b)) = drop limit (audit_selection db w (map_option int before)))"
proof -
  let ?before = "map_option int before"
  let ?rows = "audit_selection db w ?before"
  have tb: "transpose_option to_i64 before = Ok ?before"
    using before by (cases before) (simp_all add: to_i64_def)
  have desc: "sorted_wrt (\<lambda>a b. ae_sequence b < ae_sequence a) ?rows" by (rule audit_selection_descending [OF inv])
  have mem: "set (take (limit + 1) ?rows) \<subseteq> set (audit_events db)"
    using audit_selection_set set_take_subset by fastforce
  obtain xs where xs: "collect_results audit_row (take (limit + 1) ?rows) = Ok xs"
    and seqs: "map (\<lambda>x. int (aer_sequence x)) xs = map ae_sequence (take (limit + 1) ?rows)"
    and ids: "map aer_id xs = map ae_id (take (limit + 1) ?rows)"
    by (rule collect_audit_rows [OF inv mem])
  have len: "length xs = min (limit + 1) (length ?rows)"
    using arg_cong [OF ids, of length] by (simp add: min.commute)
  have run: "list_audit db w before limit = Ok \<lparr>apg_items = take limit xs, apg_next_before =
      (if limit < length xs then Some (aer_sequence (last (take limit xs))) else None)\<rparr>"
  proof -
    have "butlast xs = take limit xs" if "limit < length xs"
      using that len by (simp add: butlast_conv_take)
    moreover have "take limit xs = xs" if "\<not> limit < length xs" using that by simp
    ultimately show ?thesis
      using w limit tb xs by (auto simp: list_audit_def query_audit_def Let_def)
  qed
  have items: "map aer_id (take limit xs) = map ae_id (take limit ?rows)"
    using arg_cong [OF ids, of "take limit"] by (simp add: take_map min_def)
  have taken: "map (\<lambda>x. int (aer_sequence x)) (take limit xs) = map ae_sequence (take limit ?rows)"
    using arg_cong [OF seqs, of "take limit"] by (simp add: take_map min_def)
  have "sorted_wrt (\<lambda>a b. b < a) (map ae_sequence (take limit ?rows))"
    using sorted_wrt_take [OF desc, of limit] by (simp add: sorted_wrt_map)
  then have "sorted_wrt (\<lambda>a b. b < a) (map (\<lambda>x. int (aer_sequence x)) (take limit xs))" by (simp only: taken)
  then have order: "sorted_wrt (>) (map aer_sequence (take limit xs))" by (simp add: sorted_wrt_map)
  have cont: "audit_selection db w (Some (int (aer_sequence (last (take limit xs))))) = drop limit ?rows"
    if more: "limit < length ?rows"
  proof -
    have ne: "take limit ?rows \<noteq> []" using more limit by auto
    have "length (take limit xs) > 0" using more limit len by (simp add: min_def)
    then have nex: "take limit xs \<noteq> []" by (rule length_greater_0_conv [THEN iffD1])
    have "int (aer_sequence (last (take limit xs))) = last (map ae_sequence (take limit ?rows))"
      unfolding taken [symmetric] by (rule last_map [OF nex, symmetric])
    also have "\<dots> = ae_sequence (?rows ! (limit - 1))"
      using ne more limit by (simp add: last_map last_conv_nth min_def)
    finally have b: "int (aer_sequence (last (take limit xs))) = ae_sequence (?rows ! (limit - 1))" .
    have "?rows ! (limit - 1) \<in> set ?rows" using more by simp
    then have "\<forall>b'. ?before = Some b' \<longrightarrow> ae_sequence (?rows ! (limit - 1)) \<le> b'"
      using audit_selection_set [of "?rows ! (limit - 1)" db w ?before] by auto
    then show ?thesis
      unfolding b using descending_filter_drop [OF desc, of limit] limit more
      by (subst audit_selection_continue) simp_all
  qed
  show ?thesis
    unfolding run using items order cont len by auto
qed

text \<open>C34. Audit pages cover the log without gaps or repeats: a page holds the next \<open>limit\<close> events of the
  workspace in strictly descending order, it has a cursor exactly when events remain, and the
  rows after that cursor are exactly the remaining ones.\<close>

theorem audit_pages_cover_log:
  assumes "audit_inv db" and "validate_text w = Ok ()" and "1 \<le> limit" "limit \<le> 100"
    and "\<forall>b. before = Some b \<longrightarrow> b \<le> i64_max"
  shows "\<exists>page. list_audit db w before limit = Ok page
    \<and> map aer_id (apg_items page) = map ae_id (take limit (audit_selection db w (map_option int before)))
    \<and> sorted_wrt (>) (map aer_sequence (apg_items page))
    \<and> (case apg_next_before page of
         None \<Rightarrow> drop limit (audit_selection db w (map_option int before)) = []
       | Some b \<Rightarrow> drop limit (audit_selection db w (map_option int before)) \<noteq> []
           \<and> audit_selection db w (Some (int b)) = drop limit (audit_selection db w (map_option int before)))"
  by (rule audit_page [OF assms])

text \<open>A log of three events of one workspace.\<close>

definition sample_event :: "string \<Rightarrow> NewAuditEvent" where
  "sample_event uid =
     \<lparr>nae_id = uid, nae_workspace_id = ''w'', nae_actor = ''a'', nae_action = ''x.y'',
      nae_request_id = ''r'', nae_target_type = ''t'',
      nae_metadata = [(''n'', AvNumber 7), (''b'', AvBoolean True)], nae_created_at_ms = 5\<rparr>"

definition sample_log :: database where
  "sample_log = fold (\<lambda>uid db. snd (record_audit db (sample_event uid))) [''e1'', ''e2'', ''e3'']
     (empty_database\<lparr>workspaces := [\<lparr>ws_id = ''w'', ws_name = ''W'', ws_slug = ''w''\<rparr>]\<rparr>)"

lemma record_audit_inv: "audit_inv db \<Longrightarrow> audit_inv (snd (record_audit db event))"
  by (cases "audit_insert db event") (auto simp: record_audit_def after_def dest: audit_insert_inv)

lemma sample_log_inv: "audit_inv sample_log"
proof -
  have "audit_inv (empty_database\<lparr>workspaces := ws\<rparr>)" for ws
    by (simp add: audit_inv_def empty_database_def)
  then show ?thesis unfolding sample_log_def by (simp add: record_audit_inv)
qed

theorem audit_pages_cover_log_witness:
  "\<exists>page. list_audit sample_log ''w'' None 2 = Ok page \<and> map aer_id (apg_items page) = [''e3'', ''e2'']
    \<and> map ae_id (audit_selection sample_log ''w'' (map_option int (apg_next_before page))) = [''e1'']"
proof -
  have w: "validate_text ''w'' = Ok ()" by code_simp
  obtain page where page: "list_audit sample_log ''w'' None 2 = Ok page"
    and items: "map aer_id (apg_items page) = map ae_id (take 2 (audit_selection sample_log ''w'' None))"
    and rest: "case apg_next_before page of
         None \<Rightarrow> drop 2 (audit_selection sample_log ''w'' None) = []
       | Some b \<Rightarrow> drop 2 (audit_selection sample_log ''w'' None) \<noteq> []
           \<and> audit_selection sample_log ''w'' (Some (int b)) = drop 2 (audit_selection sample_log ''w'' None)"
    using audit_pages_cover_log [OF sample_log_inv w, of 2 None, unfolded option.map] by auto
  have log: "map ae_id (take 2 (audit_selection sample_log ''w'' None)) = [''e3'', ''e2'']"
    "map ae_id (drop 2 (audit_selection sample_log ''w'' None)) = [''e1'']" by code_simp+
  then have "drop 2 (audit_selection sample_log ''w'' None) \<noteq> []" by auto
  with rest log(2) have "map ae_id (audit_selection sample_log ''w'' (map_option int (apg_next_before page))) = [''e1'']"
    by (auto split: option.split_asm)
  with page items log(1) show ?thesis by auto
qed

text \<open>Audit metadata is stored faithfully: whatever an accepted event carries comes back from the
  stored text as the same entries, ordered by name.\<close>

theorem audit_metadata_roundtrip:
  assumes "audit_validate event = Ok ()"
  shows "\<exists>m. decode_metadata (encode_metadata (nae_metadata event)) = Ok m
    \<and> set m = set (nae_metadata event) \<and> sorted (map fst m) \<and> distinct (map fst m)"
proof -
  have d: "distinct (map fst (nae_metadata event))"
    using assms validate_metadata_distinct by (auto simp: audit_validate_def result_simps)
  have "map fst (btree_map (nae_metadata event)) = btree_set (map fst (nae_metadata event))"
    by (simp add: btree_map_def comp_def)
  with decode_encode_metadata [OF d] set_btree_map [OF d] show ?thesis by simp
qed

theorem audit_metadata_roundtrip_witness:
  "decode_metadata (encode_metadata (nae_metadata (sample_event ''e1'')))
    = Ok [(''b'', AvBoolean True), (''n'', AvNumber 7)]
   \<and> (\<exists>m. decode_metadata (encode_metadata (nae_metadata (sample_event ''e1''))) = Ok m
        \<and> set m = set (nae_metadata (sample_event ''e1'')))"
proof -
  have "audit_validate (sample_event ''e1'') = Ok ()" by code_simp
  from audit_metadata_roundtrip [OF this]
  have "\<exists>m. decode_metadata (encode_metadata (nae_metadata (sample_event ''e1''))) = Ok m
        \<and> set m = set (nae_metadata (sample_event ''e1''))" by blast
  moreover have "decode_metadata (encode_metadata (nae_metadata (sample_event ''e1'')))
    = Ok [(''b'', AvBoolean True), (''n'', AvNumber 7)]" by code_simp
  ultimately show ?thesis by blast
qed

section \<open>Reading the whole log\<close>

text \<open>A client that follows the cursors; \<open>None\<close> when the requests it may make run out.\<close>

fun audit_walk ::
  "nat \<Rightarrow> database \<Rightarrow> string \<Rightarrow> nat option \<Rightarrow> nat \<Rightarrow> (RepositoryError + AuditEventRecord list) option" where
  "audit_walk 0 db w before limit = None"
| "audit_walk (Suc n) db w before limit =
     (case list_audit db w before limit of
        Inl e \<Rightarrow> Some (Err e)
      | Inr page \<Rightarrow>
          (case apg_next_before page of
             None \<Rightarrow> Some (Ok (apg_items page))
           | Some b \<Rightarrow> map_option (map_sum id (\<lambda>items. apg_items page @ items)) (audit_walk n db w (Some b) limit)))"

lemma audit_next_bounded:
  assumes inv: "audit_inv db" and page: "list_audit db w before limit = Ok page" and b: "apg_next_before page = Some b"
  shows "b \<le> i64_max"
proof -
  obtain before' items where q: "query_audit db w before' (limit + 1) = Ok items" and ne: "butlast items \<noteq> []"
    and last: "b = aer_sequence (last (butlast items))"
    using page b by (auto simp: list_audit_def result_simps Let_def split: if_split_asm)
  have "last (butlast items) \<in> set items" using in_set_butlastD [OF last_in_set [OF ne]] .
  then obtain e where e: "e \<in> set (take (limit + 1) (audit_selection db w before'))" and dec: "audit_row e = Ok (last (butlast items))"
    using collect_results_member [OF q [unfolded query_audit_def]] by blast
  have "e \<in> set (audit_events db)" using audit_selection_set [OF in_set_takeD [OF e]] by blast
  moreover have "int b = ae_sequence e" using dec unfolding last by (auto simp: audit_row_def result_simps dest!: sym [of _ "last (butlast items)"])
  ultimately have "int b \<le> int i64_max" using inv by (auto simp: audit_inv_def)
  then show ?thesis by simp
qed

lemma audit_walk_from:
  assumes inv: "audit_inv db" and w: "validate_text w = Ok ()" and limit: "1 \<le> limit" "limit \<le> 100"
  shows "\<forall>b. before = Some b \<longrightarrow> b \<le> i64_max \<Longrightarrow> length (audit_selection db w (map_option int before)) \<le> n * limit \<Longrightarrow> 0 < n
    \<Longrightarrow> \<exists>items. audit_walk n db w before limit = Some (Ok items)
      \<and> map aer_id items = map ae_id (audit_selection db w (map_option int before))"
proof (induction n arbitrary: before)
  case (Suc n)
  let ?rows = "audit_selection db w (map_option int before)"
  obtain page where page: "list_audit db w before limit = Ok page"
    and items: "map aer_id (apg_items page) = map ae_id (take limit ?rows)"
    and more: "case apg_next_before page of None \<Rightarrow> drop limit ?rows = []
       | Some b \<Rightarrow> drop limit ?rows \<noteq> [] \<and> audit_selection db w (Some (int b)) = drop limit ?rows"
    using audit_page [OF inv w limit Suc.prems(1)] by blast
  show ?case
  proof (cases "apg_next_before page")
    case None
    then show ?thesis using page items more by simp
  next
    case (Some b)
    with more have rest: "drop limit ?rows \<noteq> []" "audit_selection db w (map_option int (Some b)) = drop limit ?rows" by simp_all
    have b: "b \<le> i64_max" by (rule audit_next_bounded [OF inv page Some])
    have "0 < n" using rest(1) Suc.prems(2) by (cases n) auto
    moreover have "length (audit_selection db w (map_option int (Some b))) \<le> n * limit"
      unfolding rest(2) using Suc.prems(2) by simp
    ultimately obtain later where "audit_walk n db w (Some b) limit = Some (Ok later)" "map aer_id later = map ae_id (drop limit ?rows)"
      using Suc.IH [of "Some b"] b rest(2) by auto
    moreover have "map ae_id ?rows = map ae_id (take limit ?rows) @ map ae_id (drop limit ?rows)"
      by (simp flip: map_append)
    ultimately show ?thesis using page Some items by simp
  qed
qed simp

text \<open>C35. Reading the log by pages ends: a client that follows the cursors with any admissible page
  size gets the whole log of the workspace, newest first, after at most one request per full page
  of events and one more.\<close>

theorem audit_walk_ends:
  assumes "audit_inv db" and "validate_text w = Ok ()" and "1 \<le> limit" "limit \<le> 100"
    and "length (audit_selection db w None) div limit < n"
  shows "\<exists>items. audit_walk n db w None limit = Some (Ok items)
    \<and> map aer_id items = map ae_id (audit_selection db w None)"
proof -
  have "length (audit_selection db w None) < n * limit"
    using assms(3,5) by (simp add: div_less_iff_less_mult)
  then show ?thesis using audit_walk_from [OF assms(1-4), of None n] assms(5) by simp
qed

theorem audit_walk_ends_witness:
  "\<exists>items. audit_walk 2 sample_log ''w'' None 2 = Some (Ok items) \<and> map aer_id items = [''e3'', ''e2'', ''e1'']"
proof -
  have w: "validate_text ''w'' = Ok ()" by code_simp
  have "length (audit_selection sample_log ''w'' None) div 2 < 2"
    "map ae_id (audit_selection sample_log ''w'' None) = [''e3'', ''e2'', ''e1'']" by code_simp+
  with audit_walk_ends [OF sample_log_inv w, of 2 2] show ?thesis by auto
qed

end
