(* ===== verification/Sharing.thy ===== *)
theory Sharing
  imports Transfer_Histories Audit_Log
begin

text \<open>
  Public shares of stored objects: \<^verbatim>\<open>sharing.rs\<close> and \<^verbatim>\<open>sharing_queries.rs\<close>. A share names one
  complete version of its workspace, expires, and may carry a download budget that each issued
  download consumes; every change is audited in the same transaction.
\<close>

section \<open>The model\<close>

record ShareTimes =
  sti_expires :: int
  sti_maximum_downloads :: "int option"
  sti_created :: int

definition validate_new_share :: "NewShare \<Rightarrow> RepositoryError + ShareTimes" where
  "validate_new_share new =
     and_then (try_each validate_text [nsh_id new, nsh_workspace_id new, nsh_version_id new]) (\<lambda>_.
     and_then (validate_hash (nsh_capability_hash new)) (\<lambda>_.
     and_then (to_i64 (nsh_expires_at_ms new)) (\<lambda>expires.
     and_then (transpose_option to_i64 (nsh_maximum_downloads new)) (\<lambda>maximum_downloads.
     and_then (to_i64 (nsh_created_at_ms new)) (\<lambda>created.
       if nsh_created_at_ms new \<ge> nsh_expires_at_ms new \<or> nsh_maximum_downloads new = Some 0
       then Err InvalidInput
       else Ok \<lparr>sti_expires = expires, sti_maximum_downloads = maximum_downloads,
                sti_created = created\<rparr>)))))"

definition validate_grant :: "NewDownloadGrant \<Rightarrow> nat \<Rightarrow> RepositoryError + unit" where
  "validate_grant grant now_ms =
     and_then (validate_text (ndg_version_id grant)) (\<lambda>_.
     and_then (map_err (\<lambda>_. InvalidInput) (object_checksum_new (ndg_capability_hash grant))) (\<lambda>_.
       if ndg_expires_at_ms grant \<le> now_ms then Err InvalidInput else Ok ()))"

definition share_event_valid :: "NewAuditEvent \<Rightarrow> string \<Rightarrow> string \<Rightarrow> string \<Rightarrow> nat \<Rightarrow> bool" where
  "share_event_valid event action share_id workspace_id created_at_ms \<longleftrightarrow>
     nae_action event = action \<and> nae_target_type event = ''share''
     \<and> nae_workspace_id event = workspace_id \<and> nae_created_at_ms event = created_at_ms
     \<and> nae_metadata event = [(''shareId'', AvString share_id)]"

definition validate_share_event ::
  "NewAuditEvent \<Rightarrow> string \<Rightarrow> string \<Rightarrow> string \<Rightarrow> nat \<Rightarrow> RepositoryError + unit" where
  "validate_share_event event action share_id workspace_id created_at_ms =
     (if share_event_valid event action share_id workspace_id created_at_ms then Ok ()
      else Err InvalidInput)"

definition finish_audited_change ::
  "database \<Rightarrow> nat \<Rightarrow> NewAuditEvent \<Rightarrow> RepositoryError + (bool \<times> database)" where
  "finish_audited_change db changed event =
     and_then (changed_once changed) (\<lambda>_.
     and_then (audit_insert db event) (\<lambda>db. Ok (True, db)))"

definition share_by_id :: "database \<Rightarrow> string \<Rightarrow> RepositoryError + ShareRecord" where
  "share_by_id db share_id = query_row (\<lambda>s. sh_id s = share_id) share (shares db)"

text \<open>\<^verbatim>\<open>shares s JOIN object_versions v ON v.id = s.version_id JOIN upload_reservations r ON
  r.version_id = v.id\<close>\<close>

definition share_join :: "database \<Rightarrow> (share_row \<times> object_version_row \<times> upload_reservation_row) list" where
  "share_join db =
     concat (map (\<lambda>s. map (Pair s) (filter (\<lambda>(v, r). sh_version_id s = Some (ov_id v)) (stored_join db)))
       (shares db))"

definition share_target ::
  "share_row \<times> object_version_row \<times> upload_reservation_row \<Rightarrow> RepositoryError + ShareTarget" where
  "share_target = (\<lambda>(s, vr).
     and_then (share s) (\<lambda>shared.
     and_then (stored_object vr) (\<lambda>object.
       Ok \<lparr>sht_share = shared, sht_object = object\<rparr>)))"

definition target_by_capability ::
  "database \<Rightarrow> string \<Rightarrow> int \<Rightarrow> bool \<Rightarrow> RepositoryError + ShareTarget" where
  "target_by_capability db capability_hash now require_download =
     query_row (\<lambda>(s, v, r). sh_capability_hash s = capability_hash \<and> sh_expires_at_ms s > now
         \<and> (if require_download then sh_status s = ''active''
            else sh_status s \<in> {''active'', ''exhausted''})
         \<and> ov_state v = ''complete'') share_target (share_join db)"

definition share_allowed :: "database \<Rightarrow> share_row \<Rightarrow> bool" where
  "share_allowed db row \<longleftrightarrow>
     share_check row
     \<and> \<not> list_ex (\<lambda>s. sh_id s = sh_id row \<or> sh_capability_hash s = sh_capability_hash row) (shares db)
     \<and> list_ex (\<lambda>w. ws_id w = sh_workspace_id row) (workspaces db)"

definition new_share_row :: "NewShare \<Rightarrow> ShareTimes \<Rightarrow> share_row" where
  "new_share_row new limits =
     \<lparr>sh_id = nsh_id new, sh_workspace_id = nsh_workspace_id new,
      sh_version_id = Some (nsh_version_id new), sh_capability_hash = nsh_capability_hash new,
      sh_expires_at_ms = sti_expires limits, sh_status = ''active'', sh_consumed_count = 0,
      sh_maximum_downloads = sti_maximum_downloads limits, sh_created_at_ms = sti_created limits,
      sh_revoked_at_ms = None\<rparr>"

text \<open>\<^verbatim>\<open>INSERT .. SELECT .. FROM object_versions v JOIN projects p ON p.id = v.project_id WHERE v.id = ..
  AND v.state = 'complete' AND p.workspace_id = ..\<close>: one row per selected pair.\<close>

definition insert_share :: "database \<Rightarrow> NewShare \<Rightarrow> ShareTimes \<Rightarrow> RepositoryError + (nat \<times> database)" where
  "insert_share db new limits =
     (if list_ex (\<lambda>v. ov_id v = nsh_version_id new \<and> ov_state v = ''complete''
           \<and> list_ex (\<lambda>p. pj_id p = ov_project_id v \<and> pj_workspace_id p = nsh_workspace_id new)
               (projects db)) (object_versions db)
      then let row = new_share_row new limits
           in and_then (insert_row (share_allowed db row) row (shares db)) (\<lambda>rows.
                Ok (1, db\<lparr>shares := rows\<rparr>))
      else Ok (0, db))"

definition create_share :: "database \<Rightarrow> NewShare \<Rightarrow> NewAuditEvent \<Rightarrow> ShareRecord outcome" where
  "create_share db new event =
     after (and_then (validate_new_share new) (\<lambda>limits.
            and_then (validate_share_event event ''share.created'' (nsh_id new) (nsh_workspace_id new)
              (nsh_created_at_ms new)) (\<lambda>_. Ok limits))) db (\<lambda>limits.
       write_transaction (\<lambda>db.
         and_then (insert_share db new limits) (\<lambda>(changed, db).
           if changed \<noteq> 1 then Err NotFound
           else and_then (audit_insert db event) (\<lambda>db.
                and_then (share_by_id db (nsh_id new)) (\<lambda>result.
                  Ok (result, db))))) db)"

definition list_shares :: "database \<Rightarrow> string \<Rightarrow> RepositoryError + ShareRecord list" where
  "list_shares db workspace_id =
     and_then (validate_text workspace_id) (\<lambda>_.
       collect_results share
         (rev (sort_key (\<lambda>s. (sh_created_at_ms s, sh_id s))
           (filter (\<lambda>s. sh_workspace_id s = workspace_id) (shares db)))))"

definition share_by_capability :: "database \<Rightarrow> string \<Rightarrow> nat \<Rightarrow> RepositoryError + ShareTarget" where
  "share_by_capability db capability_hash now_ms =
     and_then (validate_hash capability_hash) (\<lambda>_.
     and_then (to_i64 now_ms) (\<lambda>now.
       target_by_capability db capability_hash now False))"

text \<open>\<^verbatim>\<open>UPDATE shares SET consumed_count = consumed_count + 1, status = CASE ..\<close>\<close>

definition consumed :: "share_row \<Rightarrow> share_row" where
  "consumed s = s\<lparr>sh_consumed_count := sh_consumed_count s + 1,
     sh_status := (if sh_maximum_downloads s = Some (sh_consumed_count s + 1) then ''exhausted''
                   else ''active'')\<rparr>"

definition consume_share :: "database \<Rightarrow> string \<Rightarrow> RepositoryError + (nat \<times> database)" where
  "consume_share db share_id =
     and_then (update_rows (\<lambda>s. sh_id s = share_id \<and> sh_status s = ''active''
           \<and> sh_consumed_count s < int i64_max) consumed share_check (shares db)) (\<lambda>(changed, rows).
       Ok (changed, db\<lparr>shares := rows\<rparr>))"

definition issue_share_download ::
  "database \<Rightarrow> string \<Rightarrow> nat \<Rightarrow> NewDownloadGrant \<Rightarrow> NewAuditEvent \<Rightarrow> ShareTarget outcome" where
  "issue_share_download db capability_hash now_ms grant event =
     after (and_then (validate_hash capability_hash) (\<lambda>_.
            and_then (to_i64 now_ms) (\<lambda>now.
            and_then (validate_grant grant now_ms) (\<lambda>_. Ok now)))) db (\<lambda>now.
       write_transaction (\<lambda>db.
         and_then (target_by_capability db capability_hash now True) (\<lambda>target.
         and_then (to_i64 (ndg_expires_at_ms grant)) (\<lambda>grant_expires.
           if ndg_version_id grant \<noteq> ovr_id (sor_version (sht_object target))
              \<or> ndg_expires_at_ms grant > shr_expires_at_ms (sht_share target)
           then Err InvalidInput
           else
             and_then (validate_share_event event ''share.download_issued'' (shr_id (sht_share target))
               (shr_workspace_id (sht_share target)) now_ms) (\<lambda>_.
             and_then (insert_download_grant db \<lparr>dg_capability_hash = ndg_capability_hash grant,
               dg_version_id = ndg_version_id grant, dg_expires_at_ms = grant_expires\<rparr>) (\<lambda>db.
             and_then (consume_share db (shr_id (sht_share target))) (\<lambda>(changed, db).
               if changed \<noteq> 1 then Err InvalidInput
               else and_then (audit_insert db event) (\<lambda>db.
                    and_then (share_by_id db (shr_id (sht_share target))) (\<lambda>shared.
                      Ok (target\<lparr>sht_share := shared\<rparr>, db)))))))) ) db)"

definition revoke_share ::
  "database \<Rightarrow> string \<Rightarrow> string \<Rightarrow> nat \<Rightarrow> NewAuditEvent \<Rightarrow> bool outcome" where
  "revoke_share db share_id workspace_id revoked_at_ms event =
     after (and_then (validate_text share_id) (\<lambda>_. validate_text workspace_id)) db (\<lambda>_.
       write_transaction (\<lambda>db.
         and_then (share_by_id db share_id) (\<lambda>shared.
           if shr_workspace_id shared \<noteq> workspace_id then Err NotFound
           else if shr_status shared = ShRevoked then Ok (False, db)
           else
             and_then (validate_share_event event ''share.revoked'' (shr_id shared)
               (shr_workspace_id shared) revoked_at_ms) (\<lambda>_.
             and_then (to_i64 revoked_at_ms) (\<lambda>revoked.
             and_then (update_rows (\<lambda>s. sh_id s = share_id \<and> sh_workspace_id s = workspace_id
                   \<and> sh_status s \<noteq> ''revoked'')
                 (\<lambda>s. s\<lparr>sh_status := ''revoked'', sh_revoked_at_ms := Some revoked\<rparr>)
                 share_check (shares db)) (\<lambda>(changed, rows).
               finish_audited_change (db\<lparr>shares := rows\<rparr>) changed event))))) db)"

end
