(* ===== verification/Sharing_Properties.thy ===== *)
theory Sharing_Properties
  imports Sharing
begin

text \<open>
  The object store as its clients see it: transfer, audit and share commands on one database.
  The joint invariant is kept by every command, shares never give out more downloads than
  their budget, and a revoked share is dead for good.
\<close>

section \<open>What transfer commands leave alone\<close>

definition complete_ids :: "database \<Rightarrow> string set" where
  "complete_ids db = ov_id ` {v \<in> set (object_versions db). ov_state v = ''complete''}"

text \<open>Only the transfer tables change, and no complete version disappears.\<close>

definition transfer_frame :: "database \<Rightarrow> database \<Rightarrow> bool" where
  "transfer_frame db db' \<longleftrightarrow>
     db' = db\<lparr>object_versions := object_versions db', upload_reservations := upload_reservations db',
       upload_parts := upload_parts db', download_grants := download_grants db'\<rparr>
     \<and> complete_ids db \<subseteq> complete_ids db'"

lemma transfer_frame_fields:
  assumes "transfer_frame db db'"
  shows "workspaces db' = workspaces db" and "projects db' = projects db" and "shares db' = shares db"
    and "audit_events db' = audit_events db" and "audit_sequence db' = audit_sequence db"
proof -
  have eq: "db' = db\<lparr>object_versions := object_versions db', upload_reservations := upload_reservations db',
       upload_parts := upload_parts db', download_grants := download_grants db'\<rparr>"
    using assms by (simp add: transfer_frame_def)
  show "workspaces db' = workspaces db" "projects db' = projects db" "shares db' = shares db"
    "audit_events db' = audit_events db" "audit_sequence db' = audit_sequence db"
    by (subst eq, simp)+
qed

lemma complete_ids_map:
  assumes "\<And>v. v \<in> set (object_versions db) \<Longrightarrow> ov_id (g v) = ov_id v"
    and "\<And>v. v \<in> set (object_versions db) \<Longrightarrow> ov_state v = ''complete'' \<Longrightarrow> ov_state (g v) = ''complete''"
    and "object_versions db' = map g (object_versions db)"
  shows "complete_ids db \<subseteq> complete_ids db'"
proof
  fix i
  assume "i \<in> complete_ids db"
  then obtain v where v: "v \<in> set (object_versions db)" "ov_state v = ''complete''" "i = ov_id v"
    by (auto simp: complete_ids_def)
  then have "g v \<in> set (object_versions db')" "ov_state (g v) = ''complete''" "ov_id (g v) = i"
    using assms by simp_all
  then show "i \<in> complete_ids db'" unfolding complete_ids_def by blast
qed

lemma complete_ids_fields [simp]:
  "complete_ids (db\<lparr>shares := ss\<rparr>) = complete_ids db"
  "complete_ids (db\<lparr>download_grants := ds\<rparr>) = complete_ids db"
  "complete_ids (db\<lparr>audit_events := es, audit_sequence := n\<rparr>) = complete_ids db"
  by (simp_all add: complete_ids_def)

lemma complete_ids_same: "object_versions db' = object_versions db \<Longrightarrow> complete_ids db \<subseteq> complete_ids db'"
  by (simp add: complete_ids_def)

lemma transfer_frame_reserve: "reserve_upload db n = (Ok x, db') \<Longrightarrow> transfer_frame db db'"
  by (erule reserve_upload_Ok_D) (auto simp: transfer_frame_def complete_ids_def)

lemma reservations_frame: "db' = db\<lparr>upload_reservations := rs\<rparr> \<Longrightarrow> transfer_frame db db'"
  by (simp add: transfer_frame_def complete_ids_def)

lemma transfer_frame_refl: "transfer_frame db db"
  by (simp add: transfer_frame_def)

lemma transfer_frame_renew: "renew_upload db uid t = (Ok x, db') \<Longrightarrow> transfer_frame db db'"
  by (auto simp: renew_upload_def outcome_iffs intro: reservations_frame split: prod.split_asm)

lemma transfer_frame_attach: "attach_multipart db uid p = (Ok x, db') \<Longrightarrow> transfer_frame db db'"
proof -
  assume ok: "attach_multipart db uid p = (Ok x, db')"
  then have "db' = db \<or> (\<exists>rs. db' = db\<lparr>upload_reservations := rs\<rparr>)"
    unfolding attach_multipart_def outcome_iffs
    by (auto simp: result_simps split: option.split_asm if_split_asm)
  then show ?thesis using transfer_frame_refl reservations_frame by metis
qed

lemma upsert_part_frame: "upsert_part db part val = Ok db' \<Longrightarrow> db' = db\<lparr>upload_parts := upload_parts db'\<rparr>"
  by (auto simp: upsert_part_def Let_def result_simps split: if_split_asm)

lemma issue_each_frame:
  "issue_each upload part_size count parts db = Ok db' \<Longrightarrow> db' = db\<lparr>upload_parts := upload_parts db'\<rparr>"
proof (induction parts arbitrary: db)
  case (Cons part parts)
  then obtain val db1 where up: "upsert_part db part val = Ok db1"
    and rest: "issue_each upload part_size count parts db1 = Ok db'" by (auto simp: result_simps)
  have "db' = db1\<lparr>upload_parts := upload_parts db'\<rparr>" by (rule Cons.IH [OF rest])
  also have "\<dots> = db\<lparr>upload_parts := upload_parts db'\<rparr>" by (subst upsert_part_frame [OF up]) simp
  finally show ?case .
qed simp

lemma parts_frame: "db' = db\<lparr>upload_parts := ps\<rparr> \<Longrightarrow> transfer_frame db db'"
  by (simp add: transfer_frame_def complete_ids_def)

lemma transfer_frame_issue: "issue_upload_parts db ps = (Ok x, db') \<Longrightarrow> transfer_frame db db'"
proof -
  assume "issue_upload_parts db ps = (Ok x, db')"
  then obtain upload part_size count where "issue_each upload part_size count ps db = Ok db'"
    unfolding issue_upload_parts_def by (auto simp: outcome_iffs result_simps)
  from parts_frame [OF issue_each_frame [OF this]] show ?thesis .
qed

lemma transfer_frame_part: "record_uploaded_part db uid k s c tag = (Ok x, db') \<Longrightarrow> transfer_frame db db'"
  by (auto simp: record_uploaded_part_def outcome_iffs intro: parts_frame split: prod.split_asm)

lemma transfer_frame_bytes: "record_uploaded_bytes db uid s c = (Ok x, db') \<Longrightarrow> transfer_frame db db'"
  by (erule record_uploaded_bytes_Ok_D) (auto simp: transfer_frame_def complete_ids_def)

lemma versions_frame:
  assumes "db' = db\<lparr>upload_reservations := rs, object_versions := map (\<lambda>v. if P v \<and> ov_state v = ''pending''
      then ch v else v) (object_versions db), upload_parts := ps\<rparr>" and "\<And>v. ov_id (ch v) = ov_id v"
  shows "transfer_frame db db'"
proof -
  have "complete_ids db \<subseteq> complete_ids db'"
    by (rule complete_ids_map [where g = "\<lambda>v. if P v \<and> ov_state v = ''pending'' then ch v else v"])
      (simp_all add: assms)
  then show ?thesis by (simp add: transfer_frame_def assms(1))
qed

lemma transfer_frame_complete: "complete_upload db uid = (Ok x, db') \<Longrightarrow> transfer_frame db db'"
proof -
  assume ok: "complete_upload db uid = (Ok x, db')"
  obtain rec rows vrows where "reservation_by_id db uid = Ok rec"
    and vup: "update_rows (\<lambda>v. ov_id v = ovr_id (urr_version rec) \<and> ov_state v = ''pending'')
      (\<lambda>v. v\<lparr>ov_state := ''complete'',
        ov_size := map_option ur_expected_size (find (\<lambda>r. ur_id r = urr_id rec) rows),
        ov_checksum := Some (urr_expected_checksum rec)\<rparr>)
      object_version_check (object_versions db) = Ok (1, vrows)"
    and db': "db' = db\<lparr>upload_reservations := rows, object_versions := vrows\<rparr>"
    by (rule complete_upload_Ok_D [OF ok])
  show ?thesis
    by (rule versions_frame [where rs = rows and ps = "upload_parts db" 
          and P = "\<lambda>v. ov_id v = ovr_id (urr_version rec)"
          and ch = "\<lambda>v. v\<lparr>ov_state := ''complete'',
            ov_size := map_option ur_expected_size (find (\<lambda>r. ur_id r = urr_id rec) rows),
            ov_checksum := Some (urr_expected_checksum rec)\<rparr>"])
      (use vup in \<open>simp_all add: db' update_rows_Ok_iff\<close>)
qed

lemma transfer_frame_abort: "abort_upload db uid = (Ok x, db') \<Longrightarrow> transfer_frame db db'"
proof -
  assume ok: "abort_upload db uid = (Ok x, db')"
  obtain rows vrows where vup: "update_rows (\<lambda>v. ov_id v = ovr_id (urr_version x) \<and> ov_state v = ''pending'')
      (\<lambda>v. v\<lparr>ov_state := ''aborted''\<rparr>) object_version_check (object_versions db) = Ok (1, vrows)"
    and db': "db' = db\<lparr>upload_reservations := rows, object_versions := vrows,
      upload_parts := filter (\<lambda>p. up_upload_id p \<noteq> uid) (upload_parts db)\<rparr>"
    by (rule abort_upload_Ok_D [OF ok])
  show ?thesis
    by (rule versions_frame [where rs = rows and ps = "filter (\<lambda>p. up_upload_id p \<noteq> uid) (upload_parts db)"
          and P = "\<lambda>v. ov_id v = ovr_id (urr_version x)" and ch = "\<lambda>v. v\<lparr>ov_state := ''aborted''\<rparr>"])
      (use vup in \<open>simp_all add: db' update_rows_Ok_iff\<close>)
qed

lemma insert_download_grant_D:
  "insert_download_grant db d = Ok db' \<Longrightarrow>
     db' = db\<lparr>download_grants := download_grants db @ [d]\<rparr> \<and> download_grant_allowed db d"
  by (auto simp: insert_download_grant_def result_simps)

lemma transfer_frame_download: "issue_download db g = (Ok x, db') \<Longrightarrow> transfer_frame db db'"
  by (auto simp: issue_download_def outcome_iffs transfer_frame_def complete_ids_def
      dest!: insert_download_grant_D split: option.split_asm)

lemmas transfer_frames =
  transfer_frame_reserve transfer_frame_renew transfer_frame_attach transfer_frame_issue
  transfer_frame_part transfer_frame_bytes transfer_frame_complete transfer_frame_abort
  transfer_frame_download

lemma transfer_exec_frame:
  assumes "transfer_inv db" and "transfer_exec c db = (r, db')"
  shows "transfer_frame db db'"
proof (cases "is_ok r")
  case True
  with assms(2) show ?thesis by (cases c) (auto dest!: outcome_of_Ok dest: transfer_frames)
next
  case False
  then show ?thesis using transfers.failed_unchanged [OF assms] transfer_frame_refl by simp
qed

section \<open>The invariant of shares\<close>

definition share_inv :: "database \<Rightarrow> bool" where
  "share_inv db \<longleftrightarrow>
     distinct (map sh_id (shares db)) \<and> distinct (map sh_capability_hash (shares db))
     \<and> (\<forall>s \<in> set (shares db). share_check s
          \<and> (\<forall>vid. sh_version_id s = Some vid \<longrightarrow> vid \<in> complete_ids db))"

definition store_inv :: "database \<Rightarrow> bool" where
  "store_inv db \<longleftrightarrow> transfer_inv db \<and> audit_inv db \<and> share_inv db"

lemma store_invD: "store_inv db \<Longrightarrow> transfer_inv db" "store_inv db \<Longrightarrow> audit_inv db" "store_inv db \<Longrightarrow> share_inv db"
  by (simp_all add: store_inv_def)

lemma share_inv_mono:
  "share_inv db \<Longrightarrow> shares db' = shares db \<Longrightarrow> complete_ids db \<subseteq> complete_ids db' \<Longrightarrow> share_inv db'"
  by (auto simp: share_inv_def)

lemma transfer_inv_shares [simp]: "transfer_inv (db\<lparr>shares := ss\<rparr>) = transfer_inv db"
  by (simp add: transfer_inv_def versions_ok_def reservations_ok_def parts_ok_def grants_ok_def)

lemma transfer_inv_audit [simp]:
  "transfer_inv (db\<lparr>audit_events := es, audit_sequence := n\<rparr>) = transfer_inv db"
  by (simp add: transfer_inv_def versions_ok_def reservations_ok_def parts_ok_def grants_ok_def)

lemma audit_insert_store_inv:
  assumes "store_inv db" and "audit_insert db event = Ok db'"
  shows "store_inv db'"
proof -
  obtain e where db': "db' = db\<lparr>audit_events := audit_events db @ [e], audit_sequence := audit_sequence db + 1\<rparr>"
    by (rule audit_insert_Ok_D [OF assms(2)])
  have "audit_inv db'" by (rule audit_insert_inv [OF store_invD(2) [OF assms(1)] assms(2)])
  moreover have "share_inv db'"
    by (rule share_inv_mono [OF store_invD(3) [OF assms(1)]]) (simp_all add: db' complete_ids_def)
  moreover have "transfer_inv db'" using store_invD(1) [OF assms(1)] by (simp add: db')
  ultimately show ?thesis by (simp add: store_inv_def)
qed

lemma transfer_exec_store_inv:
  assumes "store_inv db" and "transfer_exec c db = (r, db')"
  shows "store_inv db'"
proof -
  have frame: "transfer_frame db db'" by (rule transfer_exec_frame [OF store_invD(1) [OF assms(1)] assms(2)])
  then have fields: "shares db' = shares db" "audit_events db' = audit_events db"
    "audit_sequence db' = audit_sequence db"
    by (simp_all add: transfer_frame_fields)
  have "transfer_inv db'" by (rule transfers.inv_step [OF store_invD(1) [OF assms(1)] assms(2)])
  moreover have "audit_inv db'" using store_invD(2) [OF assms(1)] by (simp add: audit_inv_def fields)
  moreover have "share_inv db'"
    using share_inv_mono [OF store_invD(3) [OF assms(1)] fields(1)] frame by (simp add: transfer_frame_def)
  ultimately show ?thesis by (simp add: store_inv_def)
qed

section \<open>Share rows decode\<close>

lemma share_Ok_iff:
  "share s = Ok x \<longleftrightarrow>
     sh_expires_at_ms s = int (shr_expires_at_ms x)
     \<and> sh_status s = share_status_as_str (shr_status x)
     \<and> sh_consumed_count s = int (shr_consumed_count x)
     \<and> sh_maximum_downloads s = map_option int (shr_maximum_downloads x)
     \<and> sh_created_at_ms s = int (shr_created_at_ms x)
     \<and> sh_revoked_at_ms s = map_option int (shr_revoked_at_ms x)
     \<and> shr_id x = sh_id s \<and> shr_workspace_id x = sh_workspace_id s \<and> shr_version_id x = sh_version_id s"
  by (cases x) (auto simp: share_def result_simps share_status.parse_iff)

lemma stored_object_Ok_iff:
  "stored_object (v, r) = Ok x \<longleftrightarrow> object_version v = Ok (sor_version x)
     \<and> sor_filename x = ur_filename r \<and> sor_content_type x = ur_content_type r"
  by (cases x) (auto simp: stored_object_def result_simps)

lemma share_by_id_D:
  assumes "share_by_id db uid = Ok x"
  obtains s where "s \<in> set (shares db)" and "sh_id s = uid" and "share s = Ok x"
  using query_row_Ok_D [OF assms [unfolded share_by_id_def]] that by blast

lemma share_join_iff:
  "(s, v, r) \<in> set (share_join db) \<longleftrightarrow>
     s \<in> set (shares db) \<and> (v, r) \<in> set (stored_join db) \<and> sh_version_id s = Some (ov_id v)"
  by (force simp: share_join_def)

lemma target_by_capability_D:
  assumes "target_by_capability db h now dl = Ok target"
  obtains s v r where "s \<in> set (shares db)" and "(v, r) \<in> set (stored_join db)"
    and "sh_version_id s = Some (ov_id v)" and "sh_capability_hash s = h" and "sh_expires_at_ms s > now"
    and "sh_status s \<noteq> ''revoked''" and "dl \<Longrightarrow> sh_status s = ''active''"
    and "share s = Ok (sht_share target)" and "stored_object (v, r) = Ok (sht_object target)"
    and "ov_state v = ''complete''"
proof -
  obtain y where y: "y \<in> set (share_join db)" and sel: "case y of (s, v, r) \<Rightarrow> sh_capability_hash s = h
      \<and> sh_expires_at_ms s > now \<and> (if dl then sh_status s = ''active'' else sh_status s \<in> {''active'', ''exhausted''})
      \<and> ov_state v = ''complete''" and dec: "share_target y = Ok target"
    using query_row_Ok_D [OF assms [unfolded target_by_capability_def]] by blast
  obtain s v r where eq: "y = (s, v, r)" using prod_cases3 by blast
  have "share s = Ok (sht_share target)" "stored_object (v, r) = Ok (sht_object target)"
    using dec by (auto simp: share_target_def eq result_simps)
  with y sel that [of s v r] show thesis
    by (auto simp: eq share_join_iff split: if_split_asm)
qed

section \<open>Share operations keep the invariant\<close>

lemma create_share_store_inv:
  assumes inv: "store_inv db" and ok: "create_share db new event = (Ok x, db')"
  shows "store_inv db' \<and> shares db' \<noteq> [] \<and> butlast (shares db') = shares db"
proof -
  obtain limits where allowed: "share_allowed db (new_share_row new limits)"
    and ev: "audit_insert (db\<lparr>shares := shares db @ [new_share_row new limits]\<rparr>) event = Ok db'"
    and sel: "\<exists>v \<in> set (object_versions db). ov_id v = nsh_version_id new \<and> ov_state v = ''complete''"
    using ok unfolding create_share_def insert_share_def Let_def outcome_iffs
    by (auto simp: result_simps list_ex_iff split: if_split_asm)
  define row where "row = new_share_row new limits"
  define db1 where db1: "db1 = db\<lparr>shares := shares db @ [row]\<rparr>"
  have ver: "sh_version_id row = Some (nsh_version_id new)" by (simp add: row_def new_share_row_def)
  note allowed = allowed [folded row_def] and ev = ev [folded row_def, folded db1]
  have "nsh_version_id new \<in> complete_ids db" using sel by (force simp: complete_ids_def)
  then have "share_inv db1"
    using store_invD(3) [OF inv] allowed ver
    by (auto simp: share_inv_def db1 share_allowed_def list_ex_iff)
  moreover have "audit_inv db1" using store_invD(2) [OF inv] by (simp add: db1 audit_inv_def)
  moreover have "transfer_inv db1" using store_invD(1) [OF inv] by (simp add: db1)
  ultimately have "store_inv db1" by (simp add: store_inv_def)
  moreover have "shares db' = shares db1"
    by (rule audit_insert_Ok_D [OF ev]) simp
  ultimately show ?thesis using audit_insert_store_inv [OF _ ev] by (simp add: db1)
qed

lemma consume_share_D:
  assumes inv: "share_inv db" and ok: "consume_share db uid = Ok (1, db')"
  obtains s where "s \<in> set (shares db)" and "sh_id s = uid" and "sh_status s = ''active''"
    and "share_check (consumed s)"
    and "db' = db\<lparr>shares := map (\<lambda>t. if t = s then consumed t else t) (shares db)\<rparr>"
proof -
  let ?sel = "\<lambda>s. sh_id s = uid \<and> sh_status s = ''active'' \<and> sh_consumed_count s < int i64_max"
  from ok have up: "update_rows ?sel consumed share_check (shares db) = Ok (1, shares db')"
    and db': "db' = db\<lparr>shares := shares db'\<rparr>"
    by (auto simp: consume_share_def result_simps)
  have one: "length (filter ?sel (shares db)) = 1" using up by (simp add: update_rows_Ok_iff)
  from selected_exists [OF one] obtain s where s: "s \<in> set (shares db)" "?sel s" by blast
  have keys: "distinct (map sh_id (shares db))" using inv by (simp add: share_inv_def)
  have chk: "share_check (consumed s)" using up s unfolding update_rows_Ok_iff by blast
  have "update_rows ?sel consumed share_check (shares db)
      = Ok (1, map (\<lambda>t. if t = s then consumed t else t) (shares db))"
    by (rule update_rows_one [OF keys s(1)]) (use s(2) chk in auto)
  with up have eq: "shares db' = map (\<lambda>t. if t = s then consumed t else t) (shares db)" by simp
  from s(2) have "sh_id s = uid" "sh_status s = ''active''" by simp_all
  then show thesis using that s(1) chk db' [unfolded eq] by blast
qed

text \<open>Rewriting one share in place, with its keys and its object.\<close>

lemma share_inv_update:
  assumes inv: "share_inv db" and s: "s \<in> set (shares db)"
    and s': "sh_id s' = sh_id s" "sh_capability_hash s' = sh_capability_hash s"
      "sh_version_id s' = sh_version_id s" "share_check s'"
  shows "share_inv (db\<lparr>shares := map (\<lambda>t. if t = s then s' else t) (shares db)\<rparr>)"
proof -
  define f where "f = (\<lambda>t. if t = s then s' else t)"
  have keys: "map sh_id (map f (shares db)) = map sh_id (shares db)"
    "map sh_capability_hash (map f (shares db)) = map sh_capability_hash (shares db)"
    using s' by (simp_all add: f_def)
  have "share_check (f t) \<and> (\<forall>vid. sh_version_id (f t) = Some vid \<longrightarrow> vid \<in> complete_ids db)"
    if "t \<in> set (shares db)" for t
    using inv that s s' unfolding share_inv_def by (auto simp: f_def)
  then show ?thesis
    using inv keys unfolding share_inv_def f_def [symmetric] by (simp del: map_map)
qed

lemma issue_share_download_D:
  assumes ok: "issue_share_download db h now grant event = (Ok x, db')"
  obtains target db1 db2 where "target_by_capability db h (int now) True = Ok target"
    and "ndg_version_id grant = ovr_id (sor_version (sht_object target))"
    and "ndg_expires_at_ms grant \<le> shr_expires_at_ms (sht_share target)"
    and "insert_download_grant db \<lparr>dg_capability_hash = ndg_capability_hash grant,
        dg_version_id = ndg_version_id grant, dg_expires_at_ms = int (ndg_expires_at_ms grant)\<rparr> = Ok db1"
    and "consume_share db1 (shr_id (sht_share target)) = Ok (1, db2)"
    and "audit_insert db2 event = Ok db'" and "sht_object x = sht_object target"
    and "share_by_id db' (shr_id (sht_share target)) = Ok (sht_share x)"
  using ok unfolding issue_share_download_def outcome_iffs
  by (auto simp: result_simps split: if_split_asm)

text \<open>The share a download is issued from, and the database it leaves.\<close>

lemma issue_share_download_step:
  assumes inv: "store_inv db" and ok: "issue_share_download db h now grant event = (Ok x, db')"
  obtains s where "s \<in> set (shares db)" and "sh_capability_hash s = h" and "sh_status s = ''active''"
    and "shares db' = map (\<lambda>t. if t = s then consumed t else t) (shares db)" and "store_inv db'"
proof -
  obtain target db1 db2 where target: "target_by_capability db h (int now) True = Ok target"
    and ver: "ndg_version_id grant = ovr_id (sor_version (sht_object target))"
    and ins: "insert_download_grant db \<lparr>dg_capability_hash = ndg_capability_hash grant,
        dg_version_id = ndg_version_id grant, dg_expires_at_ms = int (ndg_expires_at_ms grant)\<rparr> = Ok db1"
    and con: "consume_share db1 (shr_id (sht_share target)) = Ok (1, db2)"
    and ev: "audit_insert db2 event = Ok db'"
    by (rule issue_share_download_D [OF ok])
  obtain s v r where s: "s \<in> set (shares db)" and v: "(v, r) \<in> set (stored_join db)"
    and h: "sh_capability_hash s = h" and st: "ov_state v = ''complete''"
    and dec: "share s = Ok (sht_share target)" "stored_object (v, r) = Ok (sht_object target)"
    by (rule target_by_capability_D [OF target])
  have vid: "ov_id v = ndg_version_id grant" "v \<in> set (object_versions db)"
    using v dec(2) ver by (auto simp: stored_object_Ok_iff object_version_Ok_iff stored_join_iff)
  have db1: "db1 = db\<lparr>download_grants := download_grants db1\<rparr>" using insert_download_grant_D [OF ins] by simp
  have sh1: "shares db1 = shares db" by (subst db1) simp
  have "transfer_inv db1"
    by (rule insert_download_grant_inv [OF store_invD(1) [OF inv] ins]) (use vid st in auto)
  moreover have inv1: "share_inv db1"
    by (rule share_inv_mono [OF store_invD(3) [OF inv] sh1], subst db1, simp)
  moreover have "audit_inv db1" using store_invD(2) [OF inv] by (subst db1) (simp add: audit_inv_def)
  ultimately have store1: "store_inv db1" by (simp add: store_inv_def)
  obtain t where t: "t \<in> set (shares db1)" "sh_id t = shr_id (sht_share target)" "sh_status t = ''active''"
    and chk: "share_check (consumed t)"
    and db2: "db2 = db1\<lparr>shares := map (\<lambda>u. if u = t then consumed u else u) (shares db1)\<rparr>"
    by (rule consume_share_D [OF inv1 con])
  have "distinct (map sh_id (shares db))" using store_invD(3) [OF inv] by (simp add: share_inv_def)
  moreover have "sh_id t = sh_id s" using t(2) dec(1) by (simp add: share_Ok_iff)
  ultimately have "t = s" using distinct_map_eq t(1) s sh1 by metis
  have "share_inv (db1\<lparr>shares := map (\<lambda>u. if u = t then consumed t else u) (shares db1)\<rparr>)"
    by (rule share_inv_update [OF inv1 t(1)]) (use chk in \<open>simp_all add: consumed_def\<close>)
  then have "share_inv db2" unfolding db2 by (simp cong: if_cong)
  moreover have "transfer_inv db2" "audit_inv db2"
    using store_invD(1,2) [OF store1] by (simp_all add: db2 audit_inv_def)
  ultimately have store2: "store_inv db2" by (simp add: store_inv_def)
  have "shares db' = shares db2" by (rule audit_insert_Ok_D [OF ev]) simp
  then have "shares db' = map (\<lambda>u. if u = s then consumed u else u) (shares db)"
    by (simp add: db2 sh1 \<open>t = s\<close>)
  with that s h t(3) \<open>t = s\<close> audit_insert_store_inv [OF store2 ev] show thesis by blast
qed

lemma revoke_share_step:
  assumes inv: "store_inv db" and ok: "revoke_share db uid w t event = (Ok b, db')"
  shows "store_inv db' \<and> (\<exists>s \<in> set (shares db). sh_id s = uid \<and> sh_workspace_id s = w
    \<and> ((\<not> b \<and> sh_status s = ''revoked'' \<and> db' = db)
       \<or> (b \<and> shares db' = map (\<lambda>u. if u = s then s\<lparr>sh_status := ''revoked'', sh_revoked_at_ms := Some (int t)\<rparr>
            else u) (shares db))))"
proof -
  obtain x where by_id: "share_by_id db uid = Ok x" and w: "shr_workspace_id x = w"
    and cases: "shr_status x = ShRevoked \<and> \<not> b \<and> db' = db
      \<or> (\<exists>n rows. shr_status x \<noteq> ShRevoked
        \<and> update_rows (\<lambda>s. sh_id s = uid \<and> sh_workspace_id s = w \<and> sh_status s \<noteq> ''revoked'')
            (\<lambda>s. s\<lparr>sh_status := ''revoked'', sh_revoked_at_ms := Some (int t)\<rparr>) share_check (shares db) = Ok (n, rows)
        \<and> finish_audited_change (db\<lparr>shares := rows\<rparr>) n event = Ok (b, db'))"
    using ok unfolding revoke_share_def outcome_iffs
    by (auto simp: result_simps split: if_split_asm)
  obtain s where s: "s \<in> set (shares db)" "sh_id s = uid" and dec: "share s = Ok x"
    by (rule share_by_id_D [OF by_id])
  have ws: "sh_workspace_id s = w" using dec w by (simp add: share_Ok_iff)
  note sinv = store_invD(3) [OF inv]
  have keys: "distinct (map sh_id (shares db))" using sinv by (simp add: share_inv_def)
  show ?thesis
  proof (cases "shr_status x = ShRevoked")
    case True
    then have "sh_status s = ''revoked''" using dec by (simp add: share_Ok_iff)
    with True cases s ws inv show ?thesis by blast
  next
    case False
    let ?ch = "\<lambda>s. s\<lparr>sh_status := ''revoked'', sh_revoked_at_ms := Some (int t)\<rparr>"
    from False cases obtain n rows where
      up: "update_rows (\<lambda>s. sh_id s = uid \<and> sh_workspace_id s = w \<and> sh_status s \<noteq> ''revoked'') ?ch share_check
        (shares db) = Ok (n, rows)"
      and fin: "finish_audited_change (db\<lparr>shares := rows\<rparr>) n event = Ok (b, db')" by blast
    have st: "sh_status s \<noteq> ''revoked''"
      using False dec by (cases "shr_status x") (auto simp: share_Ok_iff)
    have chk: "share_check (?ch s)" using up s ws st unfolding update_rows_Ok_iff by blast
    have "update_rows (\<lambda>s. sh_id s = uid \<and> sh_workspace_id s = w \<and> sh_status s \<noteq> ''revoked'') ?ch share_check
        (shares db) = Ok (1, map (\<lambda>u. if u = s then ?ch u else u) (shares db))"
      by (rule update_rows_one [OF keys s(1)]) (use s ws st chk in auto)
    with up have rows: "rows = map (\<lambda>u. if u = s then ?ch s else u) (shares db)" by (auto cong: if_cong)
    have ev: "audit_insert (db\<lparr>shares := rows\<rparr>) event = Ok db'" and b: "b"
      using fin by (auto simp: finish_audited_change_def result_simps)
    have "share_inv (db\<lparr>shares := rows\<rparr>)"
      unfolding rows by (rule share_inv_update [OF sinv s(1)]) (use chk in simp_all)
    moreover have "transfer_inv (db\<lparr>shares := rows\<rparr>)" "audit_inv (db\<lparr>shares := rows\<rparr>)"
      using store_invD(1,2) [OF inv] by (simp_all add: audit_inv_def)
    ultimately have "store_inv (db\<lparr>shares := rows\<rparr>)" by (simp add: store_inv_def)
    moreover have "shares db' = rows" by (rule audit_insert_Ok_D [OF ev]) simp
    ultimately show ?thesis using audit_insert_store_inv [OF _ ev] s ws b rows by blast
  qed
qed

section \<open>The store service\<close>

datatype store_command =
  Transfer transfer_command
| RecordAudit NewAuditEvent
| CreateShare NewShare NewAuditEvent
| IssueShareDownload string nat NewDownloadGrant NewAuditEvent
| RevokeShare string string nat NewAuditEvent

fun store_exec :: "store_command \<Rightarrow> database \<Rightarrow> (RepositoryError + unit) \<times> database" where
  "store_exec (Transfer c) db = transfer_exec c db"
| "store_exec (RecordAudit e) db = outcome_of (record_audit db e)"
| "store_exec (CreateShare n e) db = outcome_of (create_share db n e)"
| "store_exec (IssueShareDownload h t g e) db = outcome_of (issue_share_download db h t g e)"
| "store_exec (RevokeShare uid w t e) db = outcome_of (revoke_share db uid w t e)"

lemma share_failed_unchanged:
  "record_audit db ev = (Err e, db') \<Longrightarrow> db' = db"
  "create_share db n ev = (Err e, db') \<Longrightarrow> db' = db"
  "issue_share_download db h t g ev = (Err e, db') \<Longrightarrow> db' = db"
  "revoke_share db uid w t ev = (Err e, db') \<Longrightarrow> db' = db"
  unfolding record_audit_def create_share_def issue_share_download_def revoke_share_def
  by (auto dest!: after_Err_D write_transaction_Err_D)

lemma record_audit_step:
  "store_inv db \<Longrightarrow> record_audit db ev = (Ok u, db') \<Longrightarrow> store_inv db' \<and> shares db' = shares db"
proof -
  assume inv: "store_inv db" and ok: "record_audit db ev = (Ok u, db')"
  then have ev: "audit_insert db ev = Ok db'" by (auto simp: record_audit_def outcome_iffs)
  have "shares db' = shares db" by (rule audit_insert_Ok_D [OF ev]) simp
  then show ?thesis using audit_insert_store_inv [OF inv ev] by simp
qed

interpretation store: transactional_service store_exec "\<lambda>r. \<not> is_ok r" store_inv
proof unfold_locales
  fix db c r db'
  assume inv: "store_inv db" and run: "store_exec c db = (r, db')" and bad: "\<not> is_ok r"
  then show "db' = db"
    by (cases c) (auto dest!: outcome_of_Err dest: share_failed_unchanged
        transfers.failed_unchanged [OF store_invD(1)])
next
  fix db c r db'
  assume inv: "store_inv db" and run: "store_exec c db = (r, db')" and ok: "\<not> \<not> is_ok r"
  show "store_inv db'"
  proof (cases c)
    case (Transfer tc)
    with run transfer_exec_store_inv [OF inv] show ?thesis by simp
  next
    case (RecordAudit e)
    with run ok show ?thesis by (auto dest!: outcome_of_Ok dest: record_audit_step [OF inv])
  next
    case (CreateShare n e)
    with run ok show ?thesis by (auto dest!: outcome_of_Ok dest: create_share_store_inv [OF inv])
  next
    case (IssueShareDownload h t g e)
    with run ok obtain x where "issue_share_download db h t g e = (Ok x, db')" by (auto dest!: outcome_of_Ok)
    then show ?thesis by (rule issue_share_download_step [OF inv])
  next
    case (RevokeShare uid w t e)
    with run ok show ?thesis by (auto dest!: outcome_of_Ok dest: revoke_share_step [OF inv])
  qed
qed

text \<open>How one command moves one share: it keeps its capability and its budget, its count never
  falls and rises with every download issued through it, and a revoked share stays revoked.\<close>

definition issues_download :: "string \<Rightarrow> store_command \<Rightarrow> bool" where
  "issues_download h c \<longleftrightarrow> (case c of IssueShareDownload h' t g e \<Rightarrow> h' = h | _ \<Rightarrow> False)"

definition share_moves :: "share_row \<Rightarrow> share_row \<Rightarrow> bool" where
  "share_moves s s' \<longleftrightarrow>
     sh_id s' = sh_id s \<and> sh_capability_hash s' = sh_capability_hash s
     \<and> sh_maximum_downloads s' = sh_maximum_downloads s \<and> sh_consumed_count s \<le> sh_consumed_count s'
     \<and> (sh_status s = ''revoked'' \<longrightarrow> sh_status s' = ''revoked'' \<and> sh_consumed_count s' = sh_consumed_count s)"

lemma share_moves_refl: "share_moves s s"
  by (simp add: share_moves_def)

lemma share_moves_trans: "share_moves s t \<Longrightarrow> share_moves t u \<Longrightarrow> share_moves s u"
  by (auto simp: share_moves_def)

lemma store_exec_share:
  assumes inv: "store_inv db" and run: "store_exec c db = (r, db')" and s: "s \<in> set (shares db)"
  shows "\<exists>s' \<in> set (shares db'). share_moves s s'
    \<and> (is_ok r \<and> issues_download (sh_capability_hash s) c \<longrightarrow> sh_consumed_count s' = sh_consumed_count s + 1)"
proof (cases "is_ok r")
  case False
  then have "db' = db" by (rule store.failed_unchanged [OF inv run])
  with s False share_moves_refl show ?thesis by blast
next
  case ok: True
  have same: ?thesis if "shares db' = shares db" "\<not> issues_download (sh_capability_hash s) c"
    using that s share_moves_refl by auto
  show ?thesis
  proof (cases c)
    case (Transfer tc)
    with run have "transfer_frame db db'" using transfer_exec_frame [OF store_invD(1) [OF inv]] by simp
    then show ?thesis using same transfer_frame_fields(3) Transfer by (simp add: issues_download_def)
  next
    case (RecordAudit e)
    with run ok have "shares db' = shares db" by (auto dest!: outcome_of_Ok dest: record_audit_step [OF inv])
    then show ?thesis using same RecordAudit by (simp add: issues_download_def)
  next
    case (CreateShare n e)
    with run ok have "shares db' \<noteq> [] \<and> butlast (shares db') = shares db"
      by (auto dest!: outcome_of_Ok dest: create_share_store_inv [OF inv])
    then have "s \<in> set (shares db')" using s in_set_butlastD by metis
    then show ?thesis using CreateShare share_moves_refl by (auto simp: issues_download_def)
  next
    case (IssueShareDownload h t g e)
    with run ok obtain x where x: "issue_share_download db h t g e = (Ok x, db')" by (auto dest!: outcome_of_Ok)
    obtain u where u: "u \<in> set (shares db)" "sh_capability_hash u = h" "sh_status u = ''active''"
      and sh: "shares db' = map (\<lambda>t. if t = u then consumed t else t) (shares db)"
      by (rule issue_share_download_step [OF inv x])
    have "distinct (map sh_capability_hash (shares db))"
      using store_invD(3) [OF inv] by (simp add: share_inv_def)
    from distinct_map_eq [OF this s u(1)] have eq: "sh_capability_hash s = h \<Longrightarrow> s = u" using u(2) by simp
    define s' where "s' = (if s = u then consumed s else s)"
    have "s' \<in> set (shares db')" using s by (auto simp: sh s'_def)
    moreover have "share_moves s s'" using u(3) by (auto simp: share_moves_def s'_def consumed_def)
    ultimately show ?thesis using eq IssueShareDownload by (auto simp: issues_download_def s'_def consumed_def)
  next
    case (RevokeShare uid w t e)
    with run ok obtain b where "revoke_share db uid w t e = (Ok b, db')" by (auto dest!: outcome_of_Ok)
    from revoke_share_step [OF inv this] obtain u where u: "u \<in> set (shares db)"
      and cs: "db' = db \<or> shares db' = map (\<lambda>v. if v = u then u\<lparr>sh_status := ''revoked'',
        sh_revoked_at_ms := Some (int t)\<rparr> else v) (shares db)" by blast
    define s' where "s' = (if s = u then u\<lparr>sh_status := ''revoked'', sh_revoked_at_ms := Some (int t)\<rparr> else s)"
    have "share_moves s s'" by (simp add: share_moves_def s'_def)
    moreover have "s' \<in> set (shares db')" if "db' \<noteq> db" using cs that s by (auto simp: s'_def)
    ultimately show ?thesis
      using s share_moves_refl RevokeShare by (cases "db' = db") (auto simp: issues_download_def)
  qed
qed

lemma store_run_share:
  assumes "store_inv db" and "s \<in> set (shares db)"
  shows "\<exists>s' \<in> set (shares (run_commands store_exec cs db)). share_moves s s'"
  using assms
proof (induction cs arbitrary: db s)
  case Nil
  then show ?case using share_moves_refl by auto
next
  case (Cons c cs)
  obtain r db1 where run: "store_exec c db = (r, db1)" by force
  obtain s1 where s1: "s1 \<in> set (shares db1)" "share_moves s s1"
    using store_exec_share [OF Cons.prems(1) run Cons.prems(2)] by blast
  have "store_inv db1" by (rule store.inv_step [OF Cons.prems(1) run])
  from Cons.IH [OF this s1(1)] s1(2) run show ?case using share_moves_trans by fastforce
qed

section \<open>A sample store\<close>

definition sample_share :: NewShare where
  "sample_share = \<lparr>nsh_id = ''s1'', nsh_workspace_id = ''w'', nsh_version_id = ''u1'',
     nsh_capability_hash = sample_hash CHR ''5'', nsh_expires_at_ms = 90,
     nsh_maximum_downloads = Some 1, nsh_created_at_ms = 20\<rparr>"

definition sample_share_event :: "string \<Rightarrow> string \<Rightarrow> nat \<Rightarrow> NewAuditEvent" where
  "sample_share_event uid action t = \<lparr>nae_id = uid, nae_workspace_id = ''w'', nae_actor = ''a'',
     nae_action = action, nae_request_id = ''r'', nae_target_type = ''share'',
     nae_metadata = [(''shareId'', AvString ''s1'')], nae_created_at_ms = t\<rparr>"

definition sample_grant :: NewDownloadGrant where
  "sample_grant = \<lparr>ndg_version_id = ''u1'', ndg_capability_hash = sample_hash CHR ''d'', ndg_expires_at_ms = 80\<rparr>"

definition sample_download :: store_command where
  "sample_download = IssueShareDownload (sample_hash CHR ''5'') 30 sample_grant
     (sample_share_event ''e2'' ''share.download_issued'' 30)"

definition sample_store :: database where
  "sample_store = run_commands store_exec
     [Transfer (CompleteUpload ''u1''), CreateShare sample_share (sample_share_event ''e1'' ''share.created'' 20)]
     sample_uploaded"

lemma sample_store_rows [code]:
  "sample_store = sample_db\<lparr>
     object_versions := [\<lparr>ov_id = ''u1'', ov_project_id = ''p'', ov_object_path = ''a.txt'',
          ov_version = 1, ov_storage_key = ''objects/u1'', ov_state = ''complete'', ov_size = Some 3,
          ov_checksum = Some (sample_hash CHR ''a''), ov_created_at_ms = 10, ov_source = ''cli'',
          ov_git_repository = None, ov_git_commit = None, ov_git_branch = None\<rparr>,
        \<lparr>ov_id = ''u2'', ov_project_id = ''p'', ov_object_path = ''a.txt'', ov_version = 2,
          ov_storage_key = ''objects/u2'', ov_state = ''pending'', ov_size = None,
          ov_checksum = None, ov_created_at_ms = 10, ov_source = ''cli'', ov_git_repository = None,
          ov_git_commit = None, ov_git_branch = None\<rparr>],
     upload_reservations := [\<lparr>ur_id = ''u1'', ur_version_id = ''u1'', ur_filename = ''a.txt'',
          ur_content_type = ''text/plain'', ur_expected_size = 3,
          ur_expected_checksum = sample_hash CHR ''a'', ur_capability_hash = sample_hash CHR ''1'',
          ur_expires_at_ms = 100, ur_state = ''complete'', ur_received_size = Some 3,
          ur_received_checksum = Some (sample_hash CHR ''a''), ur_strategy = ''single'',
          ur_part_size = None, ur_part_count = None, ur_provider_upload_id = None\<rparr>,
        \<lparr>ur_id = ''u2'', ur_version_id = ''u2'', ur_filename = ''a.txt'',
          ur_content_type = ''text/plain'', ur_expected_size = 10,
          ur_expected_checksum = sample_hash CHR ''a'', ur_capability_hash = sample_hash CHR ''2'',
          ur_expires_at_ms = 100, ur_state = ''requested'', ur_received_size = None,
          ur_received_checksum = None, ur_strategy = ''multipart'', ur_part_size = Some 4,
          ur_part_count = Some 3, ur_provider_upload_id = None\<rparr>],
     audit_events := [\<lparr>ae_sequence = 1, ae_id = ''e1'', ae_workspace_id = ''w'',
          ae_actor = ''a'', ae_action = ''share.created'', ae_request_id = ''r'',
          ae_target_type = ''share'', ae_metadata = [(''shareId'', JsonString ''s1'')],
          ae_created_at_ms = 20\<rparr>],
     audit_sequence := 1,
     shares := [\<lparr>sh_id = ''s1'', sh_workspace_id = ''w'', sh_version_id = Some ''u1'',
          sh_capability_hash = sample_hash CHR ''5'', sh_expires_at_ms = 90, sh_status = ''active'',
          sh_consumed_count = 0, sh_maximum_downloads = Some 1, sh_created_at_ms = 20,
          sh_revoked_at_ms = None\<rparr>]\<rparr>"
  by code_simp

lemma sample_store_inv: "store_inv sample_store"
proof -
  have "shares sample_uploaded = []" "audit_events sample_uploaded = []" "audit_sequence sample_uploaded = 0"
    by code_simp+
  then have "store_inv sample_uploaded"
    using sample_uploaded_inv by (simp add: store_inv_def share_inv_def audit_inv_def)
  then show ?thesis unfolding sample_store_def by (rule store.inv_run)
qed

section \<open>Budgets and revocation\<close>

text \<open>The number of downloads a history issues through a share capability.\<close>

fun downloads_issued :: "string \<Rightarrow> store_command list \<Rightarrow> database \<Rightarrow> nat" where
  "downloads_issued h [] db = 0"
| "downloads_issued h (c # cs) db =
     (if is_ok (fst (store_exec c db)) \<and> issues_download h c then 1 else 0)
     + downloads_issued h cs (snd (store_exec c db))"

lemma downloads_issued_counted:
  assumes "store_inv db" and "s \<in> set (shares db)"
  shows "\<exists>s' \<in> set (shares (run_commands store_exec cs db)). share_moves s s'
    \<and> sh_consumed_count s + int (downloads_issued (sh_capability_hash s) cs db) \<le> sh_consumed_count s'"
  using assms
proof (induction cs arbitrary: db s)
  case Nil
  then show ?case using share_moves_refl by auto
next
  case (Cons c cs)
  obtain r db1 where run: "store_exec c db = (r, db1)" by force
  obtain s1 where s1: "s1 \<in> set (shares db1)" "share_moves s s1"
    and step: "is_ok r \<and> issues_download (sh_capability_hash s) c \<longrightarrow> sh_consumed_count s1 = sh_consumed_count s + 1"
    using store_exec_share [OF Cons.prems(1) run Cons.prems(2)] by blast
  have inv1: "store_inv db1" by (rule store.inv_step [OF Cons.prems(1) run])
  obtain s2 where s2: "s2 \<in> set (shares (run_commands store_exec cs db1))" "share_moves s1 s2"
    and rest: "sh_consumed_count s1 + int (downloads_issued (sh_capability_hash s1) cs db1) \<le> sh_consumed_count s2"
    using Cons.IH [OF inv1 s1(1)] by blast
  have hash: "sh_capability_hash s1 = sh_capability_hash s" and le: "sh_consumed_count s \<le> sh_consumed_count s1"
    using s1(2) by (simp_all add: share_moves_def)
  have "sh_consumed_count s + int (downloads_issued (sh_capability_hash s) (c # cs) db) \<le> sh_consumed_count s2"
    using step rest le by (cases "is_ok r \<and> issues_download (sh_capability_hash s) c") (auto simp: run hash)
  moreover have "share_moves s s2" by (rule share_moves_trans [OF s1(2) s2(2)])
  ultimately show ?case using s2(1) run by auto
qed

text \<open>C33. A share never gives out more downloads than its budget: whatever commands follow, in any
  order and with any failures, the downloads issued through it are at most the maximum minus
  those already consumed.\<close>

theorem share_download_budget:
  assumes inv: "store_inv db" and s: "s \<in> set (shares db)" and maximum: "sh_maximum_downloads s = Some m"
  shows "int (downloads_issued (sh_capability_hash s) cs db) \<le> m - sh_consumed_count s"
proof -
  obtain s' where s': "s' \<in> set (shares (run_commands store_exec cs db))" "share_moves s s'"
    and count: "sh_consumed_count s + int (downloads_issued (sh_capability_hash s) cs db) \<le> sh_consumed_count s'"
    using downloads_issued_counted [OF inv s] by blast
  have "share_check s'"
    using store_invD(3) [OF store.inv_run [OF inv]] s'(1) by (auto simp: share_inv_def)
  moreover have "sh_maximum_downloads s' = Some m" using s'(2) maximum by (simp add: share_moves_def)
  ultimately have "sh_consumed_count s' \<le> m" by (simp add: share_check_def)
  with count show ?thesis by linarith
qed

theorem share_download_budget_witness:
  "downloads_issued (sample_hash CHR ''5'') [sample_download, sample_download] sample_store = 1
   \<and> int (downloads_issued (sample_hash CHR ''5'') [sample_download, sample_download] sample_store) \<le> 1"
proof -
  have "\<exists>s \<in> set (shares sample_store). sh_capability_hash s = sample_hash CHR ''5''
      \<and> sh_maximum_downloads s = Some 1 \<and> sh_consumed_count s = 0" by code_simp
  then obtain s where s: "s \<in> set (shares sample_store)" "sh_capability_hash s = sample_hash CHR ''5''"
    "sh_maximum_downloads s = Some 1" "sh_consumed_count s = 0" by blast
  have "downloads_issued (sample_hash CHR ''5'') [sample_download, sample_download] sample_store = 1" by code_simp
  with share_download_budget [OF sample_store_inv s(1,3), of "[sample_download, sample_download]"] s
  show ?thesis by simp
qed

text \<open>A revoked share resolves for nobody.\<close>

lemma revoked_unresolvable:
  assumes inv: "share_inv db" and s: "s \<in> set (shares db)" and st: "sh_status s = ''revoked''"
  shows "target_by_capability db (sh_capability_hash s) now dl = Err NotFound"
  unfolding target_by_capability_def
proof (rule query_row_NotFound)
  fix y
  assume y: "y \<in> set (share_join db)"
  obtain t v r where eq: "y = (t, v, r)" using prod_cases3 by blast
  have "t \<in> set (shares db)" using y by (simp add: eq share_join_iff)
  moreover have "distinct (map sh_capability_hash (shares db))" using inv by (simp add: share_inv_def)
  ultimately have "sh_capability_hash t = sh_capability_hash s \<Longrightarrow> t = s" using distinct_map_eq s by metis
  then show "\<not> (case y of (s', v, r) \<Rightarrow> sh_capability_hash s' = sh_capability_hash s \<and> sh_expires_at_ms s' > now
      \<and> (if dl then sh_status s' = ''active'' else sh_status s' \<in> {''active'', ''exhausted''})
      \<and> ov_state v = ''complete'')"
    using st by (auto simp: eq)
qed

text \<open>Revocation is final: after a successful revocation, and after whatever commands follow it, the
  capability of the share resolves at no time and issues no download.\<close>

theorem share_revocation_final:
  assumes inv: "store_inv db" and ok: "revoke_share db uid w t event = (Ok b, db')"
    and s: "s \<in> set (shares db)" "sh_id s = uid"
  shows "\<not> is_ok (share_by_capability (run_commands store_exec cs db') (sh_capability_hash s) now)
    \<and> downloads_issued (sh_capability_hash s) cs db' = 0"
proof -
  have inv': "store_inv db'" using revoke_share_step [OF inv ok] by simp
  obtain u where u: "u \<in> set (shares db)" "sh_id u = uid"
    and out: "(sh_status u = ''revoked'' \<and> db' = db)
       \<or> shares db' = map (\<lambda>v. if v = u then u\<lparr>sh_status := ''revoked'', sh_revoked_at_ms := Some (int t)\<rparr>
            else v) (shares db)"
    using revoke_share_step [OF inv ok] by blast
  have "distinct (map sh_id (shares db))" using store_invD(3) [OF inv] by (simp add: share_inv_def)
  from distinct_map_eq [OF this s(1) u(1)] s(2) u(2) have "s = u" by simp
  with out u(1) obtain s1 where s1: "s1 \<in> set (shares db')" "sh_status s1 = ''revoked''"
    "sh_capability_hash s1 = sh_capability_hash s" by force
  obtain s2 where s2: "s2 \<in> set (shares (run_commands store_exec cs db'))" "share_moves s1 s2"
    and count: "sh_consumed_count s1 + int (downloads_issued (sh_capability_hash s1) cs db') \<le> sh_consumed_count s2"
    using downloads_issued_counted [OF inv' s1(1)] by blast
  have moved: "sh_status s2 = ''revoked''" "sh_consumed_count s2 = sh_consumed_count s1"
    "sh_capability_hash s2 = sh_capability_hash s"
    using s2(2) s1(2,3) by (auto simp: share_moves_def)
  have "share_inv (run_commands store_exec cs db')" by (rule store_invD(3) [OF store.inv_run [OF inv']])
  from revoked_unresolvable [OF this s2(1) moved(1)] moved(3)
  have "target_by_capability (run_commands store_exec cs db') (sh_capability_hash s) (int now) False = Err NotFound"
    by simp
  then have "\<not> is_ok (share_by_capability (run_commands store_exec cs db') (sh_capability_hash s) now)"
    by (auto simp: share_by_capability_def is_ok_iff result_simps)
  with count moved(2) s1(3) show ?thesis by simp
qed

theorem share_revocation_final_witness:
  "downloads_issued (sample_hash CHR ''5'') [sample_download]
     (snd (revoke_share sample_store ''s1'' ''w'' 40 (sample_share_event ''e3'' ''share.revoked'' 40))) = 0"
proof -
  let ?e = "sample_share_event ''e3'' ''share.revoked'' 40"
  have "is_ok (fst (revoke_share sample_store ''s1'' ''w'' 40 ?e))" by code_simp
  then obtain b db' where run: "revoke_share sample_store ''s1'' ''w'' 40 ?e = (Ok b, db')"
    by (metis is_ok_iff prod.collapse)
  have "\<exists>s \<in> set (shares sample_store). sh_id s = ''s1'' \<and> sh_capability_hash s = sample_hash CHR ''5''"
    by code_simp
  then obtain s where s: "s \<in> set (shares sample_store)" "sh_id s = ''s1''" "sh_capability_hash s = sample_hash CHR ''5''"
    by blast
  from share_revocation_final [OF sample_store_inv run s(1,2), of "[sample_download]" 41] s(3)
  show ?thesis by (simp add: run)
qed

lemma issue_share_download_tables:
  assumes ok: "issue_share_download db h now grant event = (Ok x, db')"
  shows "object_versions db' = object_versions db" and "upload_reservations db' = upload_reservations db"
    and "download_grants db' = download_grants db @ [\<lparr>dg_capability_hash = ndg_capability_hash grant,
        dg_version_id = ndg_version_id grant, dg_expires_at_ms = int (ndg_expires_at_ms grant)\<rparr>]"
proof -
  obtain target db1 db2 where "target_by_capability db h (int now) True = Ok target"
    and ins: "insert_download_grant db \<lparr>dg_capability_hash = ndg_capability_hash grant,
        dg_version_id = ndg_version_id grant, dg_expires_at_ms = int (ndg_expires_at_ms grant)\<rparr> = Ok db1"
    and con: "consume_share db1 (shr_id (sht_share target)) = Ok (1, db2)"
    and ev: "audit_insert db2 event = Ok db'"
    by (rule issue_share_download_D [OF ok])
  obtain e where "db' = db2\<lparr>audit_events := audit_events db2 @ [e], audit_sequence := audit_sequence db2 + 1\<rparr>"
    by (rule audit_insert_Ok_D [OF ev])
  moreover obtain ss where "db2 = db1\<lparr>shares := ss\<rparr>" using con by (auto simp: consume_share_def result_simps)
  moreover note insert_download_grant_D [OF ins, THEN conjunct1]
  ultimately show "object_versions db' = object_versions db" "upload_reservations db' = upload_reservations db"
    "download_grants db' = download_grants db @ [\<lparr>dg_capability_hash = ndg_capability_hash grant,
        dg_version_id = ndg_version_id grant, dg_expires_at_ms = int (ndg_expires_at_ms grant)\<rparr>]" by simp_all
qed

text \<open>A share download is confined to what was shared: the grant it issues resolves only to the
  shared object and only before the share itself expires.\<close>

theorem share_download_confined:
  assumes inv: "store_inv db" and ok: "issue_share_download db h now grant event = (Ok target, db')"
    and res: "download_by_capability db' (ndg_capability_hash grant) t = Ok object"
  shows "object = sht_object target \<and> t < shr_expires_at_ms (sht_share target)"
proof -
  obtain target0 where t0: "target_by_capability db h (int now) True = Ok target0"
    and ver: "ndg_version_id grant = ovr_id (sor_version (sht_object target0))"
    and exp: "ndg_expires_at_ms grant \<le> shr_expires_at_ms (sht_share target0)"
    and obj: "sht_object target = sht_object target0"
    and by_id: "share_by_id db' (shr_id (sht_share target0)) = Ok (sht_share target)"
    by (rule issue_share_download_D [OF ok])
  obtain s v r where s: "s \<in> set (shares db)" and vr: "(v, r) \<in> set (stored_join db)"
    and dec: "share s = Ok (sht_share target0)" "stored_object (v, r) = Ok (sht_object target0)"
    by (rule target_by_capability_D [OF t0])
  obtain u where inv': "store_inv db'" and sh: "shares db' = map (\<lambda>t. if t = u then consumed t else t) (shares db)"
    by (rule issue_share_download_step [OF inv ok])
  note tabs = issue_share_download_tables [OF ok]
  have tinv': "transfer_inv db'" by (rule store_invD(1) [OF inv'])
  obtain d w q where j: "(d, w, q) \<in> set (grant_join db')" and dh: "dg_capability_hash d = ndg_capability_hash grant"
    and live: "dg_expires_at_ms d > int t" and object: "stored_object (w, q) = Ok object"
    using res unfolding download_by_capability_iff [OF tinv'] by blast
  have "distinct (map dg_capability_hash (download_grants db'))"
    using transfer_invD(4) [OF tinv'] by (simp add: grants_ok_def)
  then have "d = \<lparr>dg_capability_hash = ndg_capability_hash grant, dg_version_id = ndg_version_id grant,
      dg_expires_at_ms = int (ndg_expires_at_ms grant)\<rparr>"
    using j dh by (intro distinct_map_eq [of dg_capability_hash "download_grants db'"])
      (simp_all add: grant_join_iff tabs)
  then have d: "dg_version_id d = ndg_version_id grant" "dg_expires_at_ms d = int (ndg_expires_at_ms grant)" by simp_all
  note oks = transfer_invD [OF tinv']
  have vid: "ov_id v = ndg_version_id grant"
    using dec(2) ver by (simp add: stored_object_Ok_iff object_version_Ok_iff)
  have v: "v \<in> set (object_versions db')" "r \<in> set (upload_reservations db')" "ur_version_id r = ov_id v"
    using vr by (simp_all add: stored_join_iff tabs)
  have w: "w \<in> set (object_versions db')" "q \<in> set (upload_reservations db')" "ov_id w = ndg_version_id grant"
    "ur_version_id q = ov_id w" using j d(1) by (simp_all add: grant_join_iff)
  have "w = v" using version_unique [OF oks(1) w(1) v(1)] w(3) vid by simp
  moreover have "q = r" using reservation_unique(2) [OF oks(2) w(2) v(2)] w(4) v(3) \<open>w = v\<close> by simp
  ultimately have "object = sht_object target" using object dec(2) obj by simp
  moreover have "shr_expires_at_ms (sht_share target) = shr_expires_at_ms (sht_share target0)"
  proof -
    obtain s' where s': "s' \<in> set (shares db')" "sh_id s' = shr_id (sht_share target0)"
      and dec': "share s' = Ok (sht_share target)" by (rule share_by_id_D [OF by_id])
    obtain t1 where t1: "t1 \<in> set (shares db)" "s' = (if t1 = u then consumed t1 else t1)"
      using s'(1) unfolding sh set_map by blast
    then have "sh_id t1 = sh_id s" "sh_expires_at_ms s' = sh_expires_at_ms t1"
      using s'(2) dec(1) by (auto simp: consumed_def share_Ok_iff split: if_split_asm)
    moreover have "distinct (map sh_id (shares db))" using store_invD(3) [OF inv] by (simp add: share_inv_def)
    ultimately have "sh_expires_at_ms s' = sh_expires_at_ms s" using distinct_map_eq t1(1) s by metis
    then show ?thesis using dec(1) dec' by (simp add: share_Ok_iff)
  qed
  ultimately show ?thesis using live d(2) exp by simp
qed

theorem share_download_confined_witness:
  "\<exists>target db'. issue_share_download sample_store (sample_hash CHR ''5'') 30 sample_grant
       (sample_share_event ''e2'' ''share.download_issued'' 30) = (Ok target, db')
    \<and> download_by_capability db' (sample_hash CHR ''d'') 50 = Ok (sht_object target)
    \<and> 50 < shr_expires_at_ms (sht_share target)"
proof -
  let ?run = "issue_share_download sample_store (sample_hash CHR ''5'') 30 sample_grant
       (sample_share_event ''e2'' ''share.download_issued'' 30)"
  have "is_ok (fst ?run)" by code_simp
  then obtain target db' where run: "?run = (Ok target, db')" by (metis is_ok_iff prod.collapse)
  have "is_ok (download_by_capability (snd ?run) (ndg_capability_hash sample_grant) 50)" by code_simp
  then obtain object where res: "download_by_capability db' (ndg_capability_hash sample_grant) 50 = Ok object"
    by (auto simp: run is_ok_iff)
  have h: "ndg_capability_hash sample_grant = sample_hash CHR ''d''" by (simp add: sample_grant_def)
  from share_download_confined [OF sample_store_inv run res] run res show ?thesis by (auto simp: h)
qed

end
