(* ===== verification/Glob.thy ===== *)
theory Glob
  imports Prelude
begin

text \<open>
  The glob matcher of \<^verbatim>\<open>lifecycle_retention_plan.rs\<close>, with its memo table threaded through the
  calls, and the language it recognises: \<^verbatim>\<open>*\<close> stands for any text without a slash, \<^verbatim>\<open>**\<close> for any
  text, \<^verbatim>\<open>?\<close> for one character other than a slash. Patterns and inputs are the code points of
  the two strings.
\<close>

section \<open>The matcher\<close>

text \<open>The code points of \<^verbatim>\<open>*\<close>, \<^verbatim>\<open>?\<close> and \<^verbatim>\<open>/\<close>.\<close>

definition star :: nat where "star = 42"
definition question :: nat where "question = 63"
definition slash :: nat where "slash = 47"

type_synonym memo = "nat \<times> nat \<rightharpoonup> bool"

function glob_at :: "nat list \<Rightarrow> nat list \<Rightarrow> nat \<Rightarrow> nat \<Rightarrow> memo \<Rightarrow> bool \<times> memo" where
  "glob_at pattern input pattern_index input_index memo =
     (case memo (pattern_index, input_index) of
        Some value \<Rightarrow> (value, memo)
      | None \<Rightarrow>
          (let (result, memo) =
             (if pattern_index \<ge> length pattern then (input_index = length input, memo)
              else if pattern ! pattern_index = star \<and> pattern_index + 1 < length pattern
                \<and> pattern ! (pattern_index + 1) = star
              then (let (first, memo) = glob_at pattern input (pattern_index + 2) input_index memo
                    in if first then (True, memo)
                       else if input_index < length input
                       then glob_at pattern input pattern_index (input_index + 1) memo
                       else (False, memo))
              else if pattern ! pattern_index = star
              then (let (first, memo) = glob_at pattern input (pattern_index + 1) input_index memo
                    in if first then (True, memo)
                       else if input_index < length input \<and> input ! input_index \<noteq> slash
                       then glob_at pattern input pattern_index (input_index + 1) memo
                       else (False, memo))
              else if pattern ! pattern_index = question
              then (if input_index < length input \<and> input ! input_index \<noteq> slash
                    then glob_at pattern input (pattern_index + 1) (input_index + 1) memo
                    else (False, memo))
              else (if input_index < length input \<and> input ! input_index = pattern ! pattern_index
                    then glob_at pattern input (pattern_index + 1) (input_index + 1) memo
                    else (False, memo)))
           in (result, memo((pattern_index, input_index) \<mapsto> result))))"
  by pat_completeness auto

termination
  by (relation "measure (\<lambda>(p, i, pi, ii, memo). (length p - pi) + (length i - ii))") auto

declare glob_at.simps [simp del]

definition glob_matches :: "string \<Rightarrow> string \<Rightarrow> bool" where
  "glob_matches glob value = fst (glob_at (chars glob) (chars value) 0 0 Map.empty)"

section \<open>The language of a pattern\<close>

inductive glob_lang :: "nat list \<Rightarrow> nat list \<Rightarrow> bool" where
  empty: "glob_lang [] []"
| deep: "glob_lang p s \<Longrightarrow> glob_lang (star # star # p) (u @ s)"
| flat: "glob_lang p s \<Longrightarrow> \<not> starts_with [star] p \<Longrightarrow> slash \<notin> set u \<Longrightarrow> glob_lang (star # p) (u @ s)"
| single: "glob_lang p s \<Longrightarrow> x \<noteq> slash \<Longrightarrow> glob_lang (question # p) (x # s)"
| literal: "glob_lang p s \<Longrightarrow> c \<noteq> star \<Longrightarrow> c \<noteq> question \<Longrightarrow> glob_lang (c # p) (c # s)"

inductive_cases glob_lang_NilE: "glob_lang [] s"
inductive_cases glob_lang_ConsE: "glob_lang (c # p) s"

lemma glob_codes [simp]: "star \<noteq> question" "question \<noteq> star"
  by (simp_all add: star_def question_def)

lemma starts_with_star: "starts_with [star] p \<longleftrightarrow> (\<exists>q. p = star # q)"
  by (cases p) (auto simp: starts_with_def)

lemma glob_lang_Nil: "glob_lang [] s \<longleftrightarrow> s = []"
  by (auto elim: glob_lang_NilE intro: glob_lang.intros)

lemma glob_lang_deep:
  "glob_lang (star # star # p) s \<longleftrightarrow> glob_lang p s \<or> (\<exists>x t. s = x # t \<and> glob_lang (star # star # p) t)"
proof
  assume "glob_lang (star # star # p) s"
  then obtain u t where t: "glob_lang p t" and s: "s = u @ t"
    by (auto elim!: glob_lang_ConsE simp: starts_with_star)
  show "glob_lang p s \<or> (\<exists>x t. s = x # t \<and> glob_lang (star # star # p) t)"
    using t s glob_lang.deep [OF t] by (cases u) auto
next
  assume "glob_lang p s \<or> (\<exists>x t. s = x # t \<and> glob_lang (star # star # p) t)"
  then show "glob_lang (star # star # p) s"
  proof
    assume "glob_lang p s"
    from glob_lang.deep [OF this, of "[]"] show ?thesis by simp
  next
    assume "\<exists>x t. s = x # t \<and> glob_lang (star # star # p) t"
    then obtain x t u r where "s = x # t" "glob_lang p r" "t = u @ r"
      by (auto elim!: glob_lang_ConsE simp: starts_with_star)
    then show ?thesis using glob_lang.deep [of p r "x # u"] by simp
  qed
qed

lemma glob_lang_flat:
  assumes "\<not> starts_with [star] p"
  shows "glob_lang (star # p) s \<longleftrightarrow>
    glob_lang p s \<or> (\<exists>x t. s = x # t \<and> x \<noteq> slash \<and> glob_lang (star # p) t)"
proof
  assume "glob_lang (star # p) s"
  then obtain u t where t: "glob_lang p t" and u: "slash \<notin> set u" and s: "s = u @ t"
    using assms by (auto elim!: glob_lang_ConsE simp: starts_with_star)
  show "glob_lang p s \<or> (\<exists>x t. s = x # t \<and> x \<noteq> slash \<and> glob_lang (star # p) t)"
    using t s u glob_lang.flat [OF t assms] by (cases u) auto
next
  assume "glob_lang p s \<or> (\<exists>x t. s = x # t \<and> x \<noteq> slash \<and> glob_lang (star # p) t)"
  then show "glob_lang (star # p) s"
  proof
    assume "glob_lang p s"
    from glob_lang.flat [OF this assms, of "[]"] show ?thesis by simp
  next
    assume "\<exists>x t. s = x # t \<and> x \<noteq> slash \<and> glob_lang (star # p) t"
    then obtain x t u r where "s = x # t" "x \<noteq> slash" "glob_lang p r" "t = u @ r" "slash \<notin> set u"
      using assms by (auto elim!: glob_lang_ConsE simp: starts_with_star)
    then show ?thesis using glob_lang.flat [OF _ assms, of r "x # u"] by simp
  qed
qed

lemma glob_lang_single: "glob_lang (question # p) s \<longleftrightarrow> (\<exists>x t. s = x # t \<and> x \<noteq> slash \<and> glob_lang p t)"
  by (auto elim: glob_lang_ConsE intro: glob_lang.intros)

lemma glob_lang_literal:
  "c \<noteq> star \<Longrightarrow> c \<noteq> question \<Longrightarrow> glob_lang (c # p) s \<longleftrightarrow> (\<exists>t. s = c # t \<and> glob_lang p t)"
  by (auto elim: glob_lang_ConsE intro: glob_lang.intros)

section \<open>The matcher recognises the language\<close>

definition memo_ok :: "nat list \<Rightarrow> nat list \<Rightarrow> memo \<Rightarrow> bool" where
  "memo_ok p i memo \<longleftrightarrow>
     (\<forall>pi ii v. memo (pi, ii) = Some v \<longrightarrow> v = glob_lang (drop pi p) (drop ii i))"

lemma memo_ok_empty: "memo_ok p i Map.empty"
  by (simp add: memo_ok_def)

lemma memo_ok_update:
  "memo_ok p i memo \<Longrightarrow> v = glob_lang (drop pi p) (drop ii i) \<Longrightarrow> memo_ok p i (memo((pi, ii) \<mapsto> v))"
  by (simp add: memo_ok_def)

text \<open>The head of the pattern, without the memo table: one unfolding of the language.\<close>

lemma glob_lang_step:
  assumes "ii \<le> length i"
  shows "glob_lang (drop pi p) (drop ii i) \<longleftrightarrow>
    (if pi \<ge> length p then ii = length i
     else if p ! pi = star \<and> pi + 1 < length p \<and> p ! (pi + 1) = star
     then glob_lang (drop (pi + 2) p) (drop ii i)
       \<or> (ii < length i \<and> glob_lang (drop pi p) (drop (ii + 1) i))
     else if p ! pi = star
     then glob_lang (drop (pi + 1) p) (drop ii i)
       \<or> (ii < length i \<and> i ! ii \<noteq> slash \<and> glob_lang (drop pi p) (drop (ii + 1) i))
     else if p ! pi = question
     then ii < length i \<and> i ! ii \<noteq> slash \<and> glob_lang (drop (pi + 1) p) (drop (ii + 1) i)
     else ii < length i \<and> i ! ii = p ! pi \<and> glob_lang (drop (pi + 1) p) (drop (ii + 1) i))"
proof (cases "pi \<ge> length p")
  case True
  then show ?thesis using assms by (auto simp: glob_lang_Nil)
next
  case False
  then have p: "drop pi p = p ! pi # drop (pi + 1) p" by (simp add: Cons_nth_drop_Suc)
  have i: "drop ii i = (if ii < length i then i ! ii # drop (ii + 1) i else [])"
    using assms by (simp add: Cons_nth_drop_Suc)
  have two: "starts_with [star] (drop (pi + 1) p) \<longleftrightarrow> pi + 1 < length p \<and> p ! (pi + 1) = star"
  proof (cases "pi + 1 < length p")
    case True
    then have "drop (pi + 1) p = p ! (pi + 1) # drop (pi + 2) p" by (simp add: Cons_nth_drop_Suc)
    with True show ?thesis by (simp add: starts_with_star)
  qed (simp add: starts_with_star)
  consider (deep) "p ! pi = star" "pi + 1 < length p" "p ! (pi + 1) = star"
    | (flat) "p ! pi = star" "\<not> starts_with [star] (drop (pi + 1) p)"
    | (single) "p ! pi = question" | (literal) "p ! pi \<noteq> star" "p ! pi \<noteq> question"
    using two by blast
  then show ?thesis
  proof cases
    case deep
    then have "drop (pi + 1) p = star # drop (pi + 2) p"
      using Cons_nth_drop_Suc [of "pi + 1" p] by simp
    with p deep(1) have "drop pi p = star # star # drop (pi + 2) p" by simp
    with deep False i show ?thesis
      using glob_lang_deep [of "drop (pi + 2) p" "drop ii i"] by simp
  next
    case flat
    then have "drop pi p = star # drop (pi + 1) p" using p by simp
    moreover have "\<not> (pi + 1 < length p \<and> p ! (pi + 1) = star)" using flat(2) two by blast
    ultimately show ?thesis
      using flat(1) False i glob_lang_flat [OF flat(2), of "drop ii i"] by (cases "ii < length i") auto
  next
    case single
    with p False i show ?thesis
      using glob_lang_single [of "drop (pi + 1) p" "drop ii i"] by (simp add: glob_codes)
  next
    case literal
    with p False i show ?thesis
      using glob_lang_literal [OF literal, of "drop (pi + 1) p" "drop ii i"] by auto
  qed
qed

lemma glob_at_correct:
  assumes "memo_ok p i memo" and "ii \<le> length i" and "glob_at p i pi ii memo = (b, memo')"
  shows "b = glob_lang (drop pi p) (drop ii i) \<and> memo_ok p i memo'"
  using assms
proof (induction "(length p - pi) + (length i - ii)" arbitrary: pi ii memo b memo' rule: less_induct)
  case less
  have IH: "c = glob_lang (drop qi p) (drop ji i) \<and> memo_ok p i m'"
    if "(length p - qi) + (length i - ji) < (length p - pi) + (length i - ii)" "memo_ok p i m"
      "ji \<le> length i" "glob_at p i qi ji m = (c, m')" for qi ji m c m'
    using less.hyps that by blast
  show ?case
  proof (cases "memo (pi, ii)")
    case (Some v)
    then show ?thesis using less.prems by (auto simp: glob_at.simps memo_ok_def)
  next
    case None
    define body where "body = (if pi \<ge> length p then (ii = length i, memo)
       else if p ! pi = star \<and> pi + 1 < length p \<and> p ! (pi + 1) = star
       then (let (first, memo) = glob_at p i (pi + 2) ii memo
             in if first then (True, memo) else if ii < length i then glob_at p i pi (ii + 1) memo
                else (False, memo))
       else if p ! pi = star
       then (let (first, memo) = glob_at p i (pi + 1) ii memo
             in if first then (True, memo)
                else if ii < length i \<and> i ! ii \<noteq> slash then glob_at p i pi (ii + 1) memo else (False, memo))
       else if p ! pi = question
       then (if ii < length i \<and> i ! ii \<noteq> slash then glob_at p i (pi + 1) (ii + 1) memo else (False, memo))
       else (if ii < length i \<and> i ! ii = p ! pi then glob_at p i (pi + 1) (ii + 1) memo else (False, memo)))"
    have eq: "glob_at p i pi ii memo = (fst body, (snd body)((pi, ii) \<mapsto> fst body))"
      unfolding body_def by (subst glob_at.simps) (simp only: None option.case Let_def case_prod_beta)
    have choice: "r = (glob_lang (drop (pi + d) p) (drop ii i) \<or> (C \<and> glob_lang (drop pi p) (drop (ii + 1) i)))
        \<and> memo_ok p i m"
      if run: "(let (first, memo) = glob_at p i (pi + d) ii memo
         in if first then (True, memo) else if C then glob_at p i pi (ii + 1) memo else (False, memo)) = (r, m)"
        and d: "0 < d" "pi < length p" and C: "C \<Longrightarrow> ii < length i" for d C r m
    proof -
      obtain f m1 where one: "glob_at p i (pi + d) ii memo = (f, m1)" by force
      have f: "f = glob_lang (drop (pi + d) p) (drop ii i) \<and> memo_ok p i m1"
        by (rule IH [OF _ less.prems(1,2) one]) (use d in linarith)
      show ?thesis
      proof (cases "\<not> f \<and> C")
        case True
        then have "glob_at p i pi (ii + 1) m1 = (r, m)" using run one by simp
        from IH [OF _ _ _ this] True C f show ?thesis by auto
      next
        case False
        with run one f show ?thesis by (auto split: if_split_asm)
      qed
    qed
    have next_char: "r = (C \<and> glob_lang (drop (pi + 1) p) (drop (ii + 1) i)) \<and> memo_ok p i m"
      if "(if C then glob_at p i (pi + 1) (ii + 1) memo else (False, memo)) = (r, m)"
        "pi < length p" and C: "C \<Longrightarrow> ii < length i" for C r m
      using that IH [of "pi + 1" "ii + 1" memo r m] less.prems(1) by (auto split: if_split_asm)
    have "fst body = glob_lang (drop pi p) (drop ii i) \<and> memo_ok p i (snd body)"
    proof -
      note step = glob_lang_step [OF less.prems(2), of pi p]
      consider (over) "pi \<ge> length p"
        | (deep) "pi < length p" "p ! pi = star" "pi + 1 < length p \<and> p ! (pi + 1) = star"
        | (flat) "pi < length p" "p ! pi = star" "\<not> (pi + 1 < length p \<and> p ! (pi + 1) = star)"
        | (single) "pi < length p" "p ! pi = question"
        | (literal) "pi < length p" "p ! pi \<noteq> star" "p ! pi \<noteq> question"
        by linarith
      then show ?thesis
      proof cases
        case over
        with less.prems(1) show ?thesis unfolding step by (simp add: body_def)
      next
        case deep
        then have "(let (first, memo) = glob_at p i (pi + 2) ii memo
             in if first then (True, memo) else if ii < length i then glob_at p i pi (ii + 1) memo
                else (False, memo)) = (fst body, snd body)" by (simp add: body_def)
        from choice [OF this] deep show ?thesis unfolding step by simp
      next
        case flat
        then have "(let (first, memo) = glob_at p i (pi + 1) ii memo
             in if first then (True, memo)
                else if ii < length i \<and> i ! ii \<noteq> slash then glob_at p i pi (ii + 1) memo else (False, memo))
            = (fst body, snd body)" by (auto simp: body_def)
        from choice [OF this] flat show ?thesis unfolding step by auto
      next
        case single
        then have "(if ii < length i \<and> i ! ii \<noteq> slash then glob_at p i (pi + 1) (ii + 1) memo else (False, memo))
            = (fst body, snd body)" by (simp add: body_def)
        from next_char [OF this] single show ?thesis unfolding step by simp
      next
        case literal
        then have "(if ii < length i \<and> i ! ii = p ! pi then glob_at p i (pi + 1) (ii + 1) memo else (False, memo))
            = (fst body, snd body)" by (simp add: body_def)
        from next_char [OF this] literal show ?thesis unfolding step by simp
      qed
    qed
    with less.prems(3) memo_ok_update show ?thesis unfolding eq by blast
  qed
qed

text \<open>C29. The memoised matcher decides the glob language: it terminates on every pattern and input, and
  answers yes exactly when the input belongs to the language of the pattern.\<close>

theorem glob_matches_language: "glob_matches glob value \<longleftrightarrow> glob_lang (chars glob) (chars value)"
proof -
  obtain b memo where run: "glob_at (chars glob) (chars value) 0 0 Map.empty = (b, memo)" by force
  have "b = glob_lang (drop 0 (chars glob)) (drop 0 (chars value))"
    using glob_at_correct [OF memo_ok_empty _ run] by simp
  with run show ?thesis by (simp add: glob_matches_def)
qed

end
