(* ===== verification/Lifecycle.thy ===== *)
theory Lifecycle
  imports Sharing_Properties Glob "HOL-Library.Option_ord"
begin

text \<open>
  Object deletion and retention: \<^verbatim>\<open>lifecycle_deletion.rs\<close>, \<^verbatim>\<open>lifecycle_operation.rs\<close>,
  \<^verbatim>\<open>lifecycle_retention.rs\<close> and \<^verbatim>\<open>lifecycle_retention_plan.rs\<close>. A deletion is planned durably
  before any byte is touched and finished in one transaction that removes the planned metadata.
  Deleting a reservation cascades to its parts and inbox link, deleting a version clears the
  shares that point to it; \<^verbatim>\<open>Yard_Site\<close> adds the files of the yards, which a purge unlinks, and the
  previews are not part of the model.
\<close>

section \<open>Constraints\<close>

definition deletion_operation_check :: "deletion_operation_row \<Rightarrow> bool" where
  "deletion_operation_check r \<longleftrightarrow>
     (case do_selected_version r of None \<Rightarrow> True | Some n \<Rightarrow> n > 0)
     \<and> do_reason r \<in> {''object_delete'', ''retention'', ''yard_cleanup''}
     \<and> do_status r \<in> {''pending'', ''complete''}
     \<and> do_created_at_ms r \<ge> 0
     \<and> (if do_status r = ''pending'' then do_completed_at_ms r = None else do_completed_at_ms r \<noteq> None)"

text \<open>The primary key, the foreign key and the three partial unique indexes.\<close>

definition deletion_operation_allowed :: "database \<Rightarrow> deletion_operation_row \<Rightarrow> bool" where
  "deletion_operation_allowed db row \<longleftrightarrow>
     deletion_operation_check row
     \<and> list_ex (\<lambda>p. pj_id p = do_project_id row) (projects db)
     \<and> \<not> list_ex (\<lambda>r. do_id r = do_id row
          \<or> (do_status r = ''pending'' \<and> do_status row = ''pending'' \<and> do_reason r = do_reason row
             \<and> do_project_id r = do_project_id row
             \<and> (do_reason row = ''retention''
                \<or> (do_reason row = ''object_delete'' \<and> do_object_path r = do_object_path row
                   \<and> do_selected_version r = do_selected_version row)))) (deletion_operations db)"

definition retention_policy_check :: "retention_policy_row \<Rightarrow> bool" where
  "retention_policy_check r \<longleftrightarrow>
     rp_keep_latest r > 0 \<and> rp_enabled r \<in> {0, 1} \<and> rp_created_at_ms r \<ge> 0
     \<and> rp_updated_at_ms r \<ge> rp_created_at_ms r"

definition retention_run_check :: "retention_run_row \<Rightarrow> bool" where
  "retention_run_check r \<longleftrightarrow>
     rr_candidate_count r \<ge> 0 \<and> rr_deleted_count r \<ge> 0 \<and> rr_deleted_count r \<le> rr_candidate_count r
     \<and> rr_started_at_ms r \<ge> 0
     \<and> (rr_status r = ''running'' \<and> rr_completed_at_ms r = None \<and> rr_error_summary r = None
        \<or> rr_status r = ''complete'' \<and> rr_completed_at_ms r \<noteq> None \<and> rr_error_summary r = None
        \<or> rr_status r = ''failed'' \<and> rr_completed_at_ms r \<noteq> None \<and> rr_error_summary r \<noteq> None)"

section \<open>Planning an object deletion\<close>

record ValidatedDeletion =
  vd_selected_version :: "int option"
  vd_created_at_ms :: int

definition validate_deletion :: "NewObjectDeletion \<Rightarrow> RepositoryError + ValidatedDeletion" where
  "validate_deletion value =
     and_then (try_each validate_text
       [nod_id value, odt_project_id (nod_target value), odt_object_path (nod_target value),
        nod_actor value, nod_request_id value]) (\<lambda>_.
       if odt_version (nod_target value) = Some 0 then Err InvalidInput
       else and_then (transpose_option to_i64 (odt_version (nod_target value))) (\<lambda>selected_version.
            and_then (to_i64 (nod_created_at_ms value)) (\<lambda>created_at_ms.
              Ok \<lparr>vd_selected_version = selected_version, vd_created_at_ms = created_at_ms\<rparr>)))"

record SelectedVersion =
  sv_id :: string
  sv_storage_key :: string
  sv_version :: int
  sv_state :: string

definition selected_row :: "object_version_row \<Rightarrow> RepositoryError + SelectedVersion" where
  "selected_row v =
     and_then (required_u64 (ov_version v)) (\<lambda>_.
       Ok \<lparr>sv_id = ov_id v, sv_storage_key = ov_storage_key v, sv_version = ov_version v,
           sv_state = ov_state v\<rparr>)"

text \<open>\<^verbatim>\<open>project_id = .. AND object_path = .. AND (?3 IS NULL OR version = ?3)\<close>\<close>

definition targets :: "string \<Rightarrow> string \<Rightarrow> int option \<Rightarrow> object_version_row \<Rightarrow> bool" where
  "targets project_id object_path selected v \<longleftrightarrow>
     ov_project_id v = project_id \<and> ov_object_path v = object_path
     \<and> (case selected of None \<Rightarrow> True | Some n \<Rightarrow> ov_version v = n)"

definition selected_versions ::
  "database \<Rightarrow> NewObjectDeletion \<Rightarrow> int option \<Rightarrow> RepositoryError + SelectedVersion list" where
  "selected_versions db value selected =
     collect_results selected_row
       (sort_key ov_version (filter (targets (odt_project_id (nod_target value))
         (odt_object_path (nod_target value)) selected) (object_versions db)))"

definition targets_operation ::
  "NewObjectDeletion \<Rightarrow> int option \<Rightarrow> string \<Rightarrow> deletion_operation_row \<Rightarrow> bool" where
  "targets_operation value selected status operation \<longleftrightarrow>
     do_project_id operation = odt_project_id (nod_target value)
     \<and> do_object_path operation = odt_object_path (nod_target value)
     \<and> do_reason operation = ''object_delete'' \<and> do_status operation = status
     \<and> do_selected_version operation = selected"

definition pending_deletion :: "database \<Rightarrow> NewObjectDeletion \<Rightarrow> int option \<Rightarrow> string option" where
  "pending_deletion db value selected =
     map_option do_id (find (targets_operation value selected ''pending'') (deletion_operations db))"

text \<open>\<^verbatim>\<open>ORDER BY completed_at_ms DESC, id DESC LIMIT 1\<close>\<close>

definition completed_deletion :: "database \<Rightarrow> NewObjectDeletion \<Rightarrow> int option \<Rightarrow> string option" where
  "completed_deletion db value selected =
     (case rev (sort_key (\<lambda>operation. (do_completed_at_ms operation, do_id operation))
         (filter (targets_operation value selected ''complete'') (deletion_operations db))) of
        [] \<Rightarrow> None
      | operation # _ \<Rightarrow> Some (do_id operation))"

definition item_row :: "deletion_item_row \<Rightarrow> RepositoryError + DeletionItem" where
  "item_row r =
     and_then (required_u64 (di_version r)) (\<lambda>version.
       Ok \<lparr>dit_version_id = di_version_id r, dit_storage_key = di_storage_key r, dit_version = version\<rparr>)"

definition operation_items :: "database \<Rightarrow> string \<Rightarrow> deletion_item_row list" where
  "operation_items db operation_id =
     sort_key di_version_id (filter (\<lambda>r. di_operation_id r = operation_id) (deletion_items db))"

definition deletion_plan :: "database \<Rightarrow> string \<Rightarrow> RepositoryError + DeletionPlan" where
  "deletion_plan db operation_id =
     and_then (query_row (\<lambda>r. do_id r = operation_id) Ok (deletion_operations db)) (\<lambda>operation.
     and_then (collect_results item_row (operation_items db operation_id)) (\<lambda>items.
       Ok \<lparr>dpl_id = operation_id, dpl_items = items,
           dpl_complete = (do_status operation = ''complete''),
           dpl_actor = do_actor operation, dpl_request_id = do_request_id operation\<rparr>))"

definition insert_operation :: "database \<Rightarrow> deletion_operation_row \<Rightarrow> RepositoryError + database" where
  "insert_operation db row =
     and_then (insert_row (deletion_operation_allowed db row) row (deletion_operations db)) (\<lambda>rows.
       Ok (db\<lparr>deletion_operations := rows\<rparr>))"

definition deletion_item_allowed :: "database \<Rightarrow> deletion_item_row \<Rightarrow> bool" where
  "deletion_item_allowed db row \<longleftrightarrow>
     di_version row > 0
     \<and> \<not> list_ex (\<lambda>r. di_operation_id r = di_operation_id row \<and> di_version_id r = di_version_id row)
          (deletion_items db)
     \<and> list_ex (\<lambda>r. do_id r = di_operation_id row) (deletion_operations db)"

definition insert_item :: "database \<Rightarrow> deletion_item_row \<Rightarrow> RepositoryError + database" where
  "insert_item db row =
     and_then (insert_row (deletion_item_allowed db row) row (deletion_items db)) (\<lambda>rows.
       Ok (db\<lparr>deletion_items := rows\<rparr>))"

fun insert_items :: "deletion_item_row list \<Rightarrow> database \<Rightarrow> RepositoryError + database" where
  "insert_items [] db = Ok db"
| "insert_items (row # rows) db = and_then (insert_item db row) (insert_items rows)"

definition insert_complete_items ::
  "database \<Rightarrow> string \<Rightarrow> SelectedVersion list \<Rightarrow> RepositoryError + database" where
  "insert_complete_items db operation_id versions =
     insert_items (map (\<lambda>v. \<lparr>di_operation_id = operation_id, di_version_id = sv_id v,
         di_storage_key = sv_storage_key v, di_version = sv_version v\<rparr>)
       (filter (\<lambda>v. sv_state v = ''complete'') versions)) db"

definition begin_deletion ::
  "NewObjectDeletion \<Rightarrow> ValidatedDeletion \<Rightarrow> database \<Rightarrow> RepositoryError + (DeletionPlan \<times> database)" where
  "begin_deletion value validated db =
     (let selected = vd_selected_version validated
      in and_then (selected_versions db value selected) (\<lambda>versions.
         case pending_deletion db value selected of
           Some uid \<Rightarrow> and_then (deletion_plan db uid) (\<lambda>plan. Ok (plan, db))
         | None \<Rightarrow>
             if versions = []
             then (case completed_deletion db value selected of
                     Some uid \<Rightarrow> and_then (deletion_plan db uid) (\<lambda>plan. Ok (plan, db))
                   | None \<Rightarrow> Err NotFound)
             else if list_ex (\<lambda>v. sv_state v = ''pending'') versions then Err Conflict
             else and_then (insert_operation db
                    \<lparr>do_id = nod_id value, do_project_id = odt_project_id (nod_target value),
                     do_object_path = odt_object_path (nod_target value),
                     do_selected_version = selected, do_reason = ''object_delete'',
                     do_status = ''pending'', do_actor = nod_actor value,
                     do_request_id = nod_request_id value,
                     do_created_at_ms = vd_created_at_ms validated, do_completed_at_ms = None\<rparr>) (\<lambda>db.
                  and_then (insert_complete_items db (nod_id value) versions) (\<lambda>db.
                  and_then (deletion_plan db (nod_id value)) (\<lambda>plan. Ok (plan, db))))))"

definition begin_object_deletion :: "database \<Rightarrow> NewObjectDeletion \<Rightarrow> DeletionPlan outcome" where
  "begin_object_deletion db deletion =
     after (validate_deletion deletion) db (\<lambda>validated.
       write_transaction (begin_deletion deletion validated) db)"

section \<open>Finishing a deletion\<close>

text \<open>\<^verbatim>\<open>DELETE FROM upload_reservations\<close>, cascading to the parts and the inbox links.\<close>

definition delete_reservations :: "(upload_reservation_row \<Rightarrow> bool) \<Rightarrow> database \<Rightarrow> database" where
  "delete_reservations doomed db =
     (let gone = map ur_id (filter doomed (upload_reservations db))
      in db\<lparr>upload_reservations := filter (\<lambda>r. \<not> doomed r) (upload_reservations db),
            upload_parts := filter (\<lambda>p. up_upload_id p \<notin> set gone) (upload_parts db),
            inbox_uploads := filter (\<lambda>l. iu_upload_id l \<notin> set gone) (inbox_uploads db)\<rparr>)"

text \<open>\<^verbatim>\<open>DELETE FROM object_versions\<close>: restricted by reservations, cascading to grants, clearing shares.\<close>

definition delete_versions :: "(object_version_row \<Rightarrow> bool) \<Rightarrow> database \<Rightarrow> RepositoryError + database" where
  "delete_versions doomed db =
     (let gone = map ov_id (filter doomed (object_versions db))
      in if list_ex (\<lambda>r. ur_version_id r \<in> set gone) (upload_reservations db) then Err Conflict
         else Ok (db\<lparr>object_versions := filter (\<lambda>v. \<not> doomed v) (object_versions db),
              download_grants := filter (\<lambda>d. dg_version_id d \<notin> set gone) (download_grants db),
              shares := map (\<lambda>s. case sh_version_id s of
                  Some vid \<Rightarrow> if vid \<in> set gone then s\<lparr>sh_version_id := None\<rparr> else s
                | None \<Rightarrow> s) (shares db)\<rparr>))"

definition delete_version :: "database \<Rightarrow> string \<Rightarrow> RepositoryError + database" where
  "delete_version db version_id =
     (let db = db\<lparr>download_grants := filter (\<lambda>d. dg_version_id d \<noteq> version_id) (download_grants db)\<rparr>;
          db = delete_reservations (\<lambda>r. ur_version_id r = version_id) db
      in delete_versions (\<lambda>v. ov_id v = version_id) db)"

fun delete_each :: "string list \<Rightarrow> database \<Rightarrow> RepositoryError + database" where
  "delete_each [] db = Ok db"
| "delete_each (vid # vids) db = and_then (delete_version db vid) (delete_each vids)"

definition operation_version_ids :: "database \<Rightarrow> string \<Rightarrow> string list" where
  "operation_version_ids db operation_id = map di_version_id (operation_items db operation_id)"

definition aborted_target :: "deletion_operation_row \<Rightarrow> object_version_row \<Rightarrow> bool" where
  "aborted_target operation v \<longleftrightarrow>
     targets (do_project_id operation) (do_object_path operation) (do_selected_version operation) v
     \<and> ov_state v = ''aborted''"

definition delete_aborted_target ::
  "deletion_operation_row \<Rightarrow> database \<Rightarrow> RepositoryError + database" where
  "delete_aborted_target operation db =
     (let doomed = map ov_id (filter (aborted_target operation) (object_versions db))
      in delete_versions (aborted_target operation)
           (delete_reservations (\<lambda>r. ur_version_id r \<in> set doomed) db))"

definition delete_selected_metadata ::
  "database \<Rightarrow> deletion_operation_row \<Rightarrow> RepositoryError + database" where
  "delete_selected_metadata db operation =
     and_then (delete_each (operation_version_ids db (do_id operation)) db) (\<lambda>db.
       if do_reason operation = ''object_delete'' then delete_aborted_target operation db else Ok db)"

text \<open>The row of \<^verbatim>\<open>operation\<close>, with the conversion of its selected version.\<close>

definition operation_row :: "deletion_operation_row \<Rightarrow> RepositoryError + deletion_operation_row" where
  "operation_row r =
     and_then (transpose_option required_u64 (do_selected_version r)) (\<lambda>_. Ok r)"

definition operation_by_id :: "database \<Rightarrow> string \<Rightarrow> RepositoryError + deletion_operation_row" where
  "operation_by_id db operation_id =
     query_row (\<lambda>r. do_id r = operation_id) operation_row (deletion_operations db)"

definition operation_action :: "string \<Rightarrow> string" where
  "operation_action reason =
     (if reason = ''retention'' then ''retention.enforced''
      else if reason = ''yard_cleanup'' then ''yard.cleanup_completed''
      else ''object.deleted'')"

definition project_workspace :: "database \<Rightarrow> string \<Rightarrow> RepositoryError + string" where
  "project_workspace db project_id =
     query_row (\<lambda>p. pj_id p = project_id) (\<lambda>p. Ok (pj_workspace_id p)) (projects db)"

definition validate_operation_event ::
  "database \<Rightarrow> deletion_operation_row \<Rightarrow> NewAuditEvent \<Rightarrow> RepositoryError + unit" where
  "validate_operation_event db operation event =
     and_then (project_workspace db (do_project_id operation)) (\<lambda>workspace_id.
       if do_actor operation = nae_actor event \<and> do_request_id operation = nae_request_id event
          \<and> workspace_id = nae_workspace_id event
          \<and> nae_action event = operation_action (do_reason operation)
       then Ok () else Err InvalidInput)"

definition complete_run ::
  "deletion_operation_row \<Rightarrow> int \<Rightarrow> database \<Rightarrow> RepositoryError + database" where
  "complete_run operation completed_at_ms db =
     (if do_reason operation \<noteq> ''retention'' then Ok db
      else and_then (update_rows (\<lambda>r. rr_id r = do_id operation)
             (\<lambda>r. r\<lparr>rr_deleted_count := int (length (filter
                      (\<lambda>i. di_operation_id i = do_id operation) (deletion_items db))),
                    rr_status := ''complete'', rr_completed_at_ms := Some completed_at_ms,
                    rr_error_summary := None\<rparr>) retention_run_check (retention_runs db)) (\<lambda>(changed, rows).
           Ok (db\<lparr>retention_runs := rows\<rparr>)))"

definition finish_transaction ::
  "string \<Rightarrow> int \<Rightarrow> NewAuditEvent \<Rightarrow> database \<Rightarrow> RepositoryError + (unit \<times> database)" where
  "finish_transaction operation_id completed_at_ms event db =
     and_then (operation_by_id db operation_id) (\<lambda>operation.
       if do_status operation = ''complete'' then Ok ((), db)
       else
         and_then (validate_operation_event db operation event) (\<lambda>_.
         and_then (delete_selected_metadata db operation) (\<lambda>db.
         and_then (update_rows (\<lambda>r. do_id r = operation_id \<and> do_status r = ''pending'')
             (\<lambda>r. r\<lparr>do_status := ''complete'', do_completed_at_ms := Some completed_at_ms\<rparr>)
             deletion_operation_check (deletion_operations db)) (\<lambda>(changed, rows).
         and_then (complete_run operation completed_at_ms (db\<lparr>deletion_operations := rows\<rparr>)) (\<lambda>db.
         and_then (audit_insert db event) (\<lambda>db. Ok ((), db)))))))"

definition finish_deletion :: "database \<Rightarrow> string \<Rightarrow> nat \<Rightarrow> NewAuditEvent \<Rightarrow> unit outcome" where
  "finish_deletion db operation_id completed_at_ms event =
     after (and_then (validate_text operation_id) (\<lambda>_. to_i64 completed_at_ms)) db (\<lambda>completed.
       write_transaction (finish_transaction operation_id completed event) db)"

section \<open>Retention policies\<close>

text \<open>\<^verbatim>\<open>value.trim() != value\<close> for a text that is not empty.\<close>

definition needs_trim :: "string \<Rightarrow> bool" where
  "needs_trim value \<longleftrightarrow> is_whitespace (hd (chars value)) \<or> is_whitespace (last (chars value))"

definition validate_glob :: "string option \<Rightarrow> bool \<Rightarrow> RepositoryError + unit" where
  "validate_glob value path =
     (case value of
        None \<Rightarrow> Ok ()
      | Some value \<Rightarrow>
          if value = [] \<or> length value > 256 \<or> needs_trim value
             \<or> list_ex (\<lambda>c. byte c = 92) value
             \<or> has_control value
             \<or> (path \<and> (starts_with ''/'' value \<or> list_ex (\<lambda>part. part = ''..'') (split_on CHR ''/'' value)))
          then Err InvalidInput else Ok ())"

definition validate_policy :: "RetentionPolicyRecord \<Rightarrow> RepositoryError + unit" where
  "validate_policy policy =
     and_then (validate_text (rpr_project_id policy)) (\<lambda>_.
       if rpr_keep_latest policy = 0 \<or> rpr_updated_at_ms policy < rpr_created_at_ms policy
       then Err InvalidInput
       else and_then (validate_glob (rpr_path_glob policy) True) (\<lambda>_.
            validate_glob (rpr_branch_glob policy) False))"

definition policy_row :: "retention_policy_row \<Rightarrow> RepositoryError + RetentionPolicyRecord" where
  "policy_row r =
     and_then (required_u32 (rp_keep_latest r)) (\<lambda>keep_latest.
     and_then (required_u64 (rp_created_at_ms r)) (\<lambda>created_at_ms.
     and_then (required_u64 (rp_updated_at_ms r)) (\<lambda>updated_at_ms.
       Ok \<lparr>rpr_project_id = rp_project_id r, rpr_keep_latest = keep_latest,
           rpr_path_glob = rp_path_glob r, rpr_branch_glob = rp_branch_glob r,
           rpr_created_at_ms = created_at_ms, rpr_updated_at_ms = updated_at_ms\<rparr>)))"

definition run_row :: "retention_run_row \<Rightarrow> RepositoryError + RetentionRunRecord" where
  "run_row r =
     and_then (required_u64 (rr_candidate_count r)) (\<lambda>candidate_count.
     and_then (required_u64 (rr_deleted_count r)) (\<lambda>deleted_count.
     and_then (required_u64 (rr_started_at_ms r)) (\<lambda>started_at_ms.
     and_then (optional_u64 (rr_completed_at_ms r)) (\<lambda>completed_at_ms.
       Ok \<lparr>rrr_id = rr_id r, rrr_candidate_count = candidate_count,
           rrr_deleted_count = deleted_count, rrr_status = rr_status r,
           rrr_started_at_ms = started_at_ms, rrr_completed_at_ms = completed_at_ms,
           rrr_error_summary = rr_error_summary r\<rparr>))))"

definition retention_policy :: "database \<Rightarrow> string \<Rightarrow> RepositoryError + RetentionPolicyRecord" where
  "retention_policy db project_id =
     and_then (validate_text project_id) (\<lambda>_.
       query_row (\<lambda>r. rp_project_id r = project_id \<and> rp_enabled r = 1) policy_row
         (retention_policies db))"

definition assert_project_event ::
  "database \<Rightarrow> string \<Rightarrow> NewAuditEvent \<Rightarrow> string \<Rightarrow> RepositoryError + unit" where
  "assert_project_event db project_id event action =
     and_then (project_workspace db project_id) (\<lambda>workspace_id.
       if workspace_id = nae_workspace_id event \<and> nae_action event = action then Ok ()
       else Err InvalidInput)"

text \<open>\<^verbatim>\<open>project_id = .. AND reason = 'retention' AND status = 'pending'\<close>\<close>

definition pending_retention :: "string \<Rightarrow> deletion_operation_row \<Rightarrow> bool" where
  "pending_retention project_id r \<longleftrightarrow>
     do_project_id r = project_id \<and> do_reason r = ''retention'' \<and> do_status r = ''pending''"

definition assert_no_pending :: "database \<Rightarrow> string \<Rightarrow> RepositoryError + unit" where
  "assert_no_pending db project_id =
     (if list_ex (pending_retention project_id) (deletion_operations db) then Err Conflict else Ok ())"

text \<open>\<^verbatim>\<open>INSERT .. ON CONFLICT(project_id) DO UPDATE\<close>: an existing row keeps its creation time. The
  foreign key holds, since the project was just read.\<close>

definition upsert_policy ::
  "RetentionPolicyRecord \<Rightarrow> int \<Rightarrow> int \<Rightarrow> database \<Rightarrow> RepositoryError + database" where
  "upsert_policy policy created_at_ms updated_at_ms db =
     (let row = \<lparr>rp_project_id = rpr_project_id policy, rp_keep_latest = int (rpr_keep_latest policy),
                 rp_path_glob = rpr_path_glob policy, rp_branch_glob = rpr_branch_glob policy,
                 rp_enabled = 1, rp_created_at_ms = created_at_ms, rp_updated_at_ms = updated_at_ms\<rparr>
      in if list_ex (\<lambda>r. rp_project_id r = rpr_project_id policy) (retention_policies db)
         then and_then (update_rows (\<lambda>r. rp_project_id r = rpr_project_id policy)
                (\<lambda>r. row\<lparr>rp_created_at_ms := rp_created_at_ms r\<rparr>) retention_policy_check
                (retention_policies db)) (\<lambda>(changed, rows). Ok (db\<lparr>retention_policies := rows\<rparr>))
         else and_then (insert_row (retention_policy_check row) row (retention_policies db)) (\<lambda>rows.
                Ok (db\<lparr>retention_policies := rows\<rparr>)))"

definition set_retention_in ::
  "RetentionPolicyRecord \<Rightarrow> NewAuditEvent \<Rightarrow> database \<Rightarrow> RepositoryError + (unit \<times> database)" where
  "set_retention_in policy event db =
     and_then (validate_policy policy) (\<lambda>_.
     and_then (assert_project_event db (rpr_project_id policy) event ''retention.policy_set'') (\<lambda>_.
     and_then (assert_no_pending db (rpr_project_id policy)) (\<lambda>_.
     and_then (to_i64 (rpr_created_at_ms policy)) (\<lambda>created_at_ms.
     and_then (to_i64 (rpr_updated_at_ms policy)) (\<lambda>updated_at_ms.
     and_then (upsert_policy policy created_at_ms updated_at_ms db) (\<lambda>db.
     and_then (audit_insert db event) (\<lambda>db. Ok ((), db))))))))"

definition set_retention :: "database \<Rightarrow> RetentionPolicyRecord \<Rightarrow> NewAuditEvent \<Rightarrow> unit outcome" where
  "set_retention db policy event = write_transaction (set_retention_in policy event) db"

definition clear_retention_in ::
  "string \<Rightarrow> nat \<Rightarrow> NewAuditEvent \<Rightarrow> database \<Rightarrow> RepositoryError + (bool \<times> database)" where
  "clear_retention_in project_id updated_at_ms event db =
     and_then (validate_text project_id) (\<lambda>_.
     and_then (assert_project_event db project_id event ''retention.policy_cleared'') (\<lambda>_.
     and_then (assert_no_pending db project_id) (\<lambda>_.
     and_then (to_i64 updated_at_ms) (\<lambda>updated_at_ms.
     and_then (update_rows (\<lambda>r. rp_project_id r = project_id \<and> rp_enabled r = 1)
         (\<lambda>r. r\<lparr>rp_enabled := 0, rp_updated_at_ms := updated_at_ms\<rparr>) retention_policy_check
         (retention_policies db)) (\<lambda>(changed, rows).
       let db = db\<lparr>retention_policies := rows\<rparr>
       in if changed = 1 then and_then (audit_insert db event) (\<lambda>db. Ok (True, db))
          else Ok (False, db))))))"

definition clear_retention :: "database \<Rightarrow> string \<Rightarrow> nat \<Rightarrow> NewAuditEvent \<Rightarrow> bool outcome" where
  "clear_retention db project_id updated_at_ms event =
     write_transaction (clear_retention_in project_id updated_at_ms event) db"

text \<open>\<^verbatim>\<open>ORDER BY started_at_ms DESC, id DESC LIMIT 1\<close>\<close>

definition last_run :: "database \<Rightarrow> string \<Rightarrow> retention_run_row option" where
  "last_run db project_id =
     (case rev (sort_key (\<lambda>r. (rr_started_at_ms r, rr_id r))
         (filter (\<lambda>r. rr_project_id r = project_id) (retention_runs db))) of
        [] \<Rightarrow> None | r # _ \<Rightarrow> Some r)"

definition retention_overview :: "database \<Rightarrow> string \<Rightarrow> RepositoryError + RetentionOverview" where
  "retention_overview db project_id =
     and_then (validate_text project_id) (\<lambda>_.
     and_then (query_row (\<lambda>p. pj_id p = project_id) (\<lambda>_. Ok ()) (projects db)) (\<lambda>_.
     and_then (case retention_policy db project_id of
                 Inr policy \<Rightarrow> Ok (Some policy)
               | Inl e \<Rightarrow> if e = NotFound then Ok None else Err e) (\<lambda>policy.
     and_then (transpose_option run_row (last_run db project_id)) (\<lambda>run.
       Ok \<lparr>rov_policy = policy, rov_last_run = run\<rparr>))))"

definition fail_retention :: "database \<Rightarrow> string \<Rightarrow> nat \<Rightarrow> unit outcome" where
  "fail_retention db run_id completed_at_ms =
     (case and_then (validate_text run_id) (\<lambda>_.
           and_then (to_i64 completed_at_ms) (\<lambda>completed_at_ms.
             update_rows (\<lambda>r. rr_id r = run_id \<and> rr_status r \<noteq> ''complete'')
               (\<lambda>r. r\<lparr>rr_status := ''failed'', rr_completed_at_ms := Some completed_at_ms,
                      rr_error_summary := Some ''Storage deletion did not complete.''\<rparr>)
               retention_run_check (retention_runs db))) of
        Inl e \<Rightarrow> (Err e, db)
      | Inr (changed, rows) \<Rightarrow>
          (if changed = 1 then Ok () else Err NotFound, db\<lparr>retention_runs := rows\<rparr>))"

definition retention_projects :: "database \<Rightarrow> string list" where
  "retention_projects db =
     sort (map rp_project_id (filter (\<lambda>r. rp_enabled r = 1) (retention_policies db)))"

section \<open>Planning a retention run\<close>

record Candidate =
  cd_id :: string
  cd_path :: string
  cd_storage_key :: string
  cd_version :: int
  cd_git_branch :: "string option"

definition candidate_row :: "object_version_row \<Rightarrow> RepositoryError + Candidate" where
  "candidate_row v =
     and_then (required_u64 (ov_version v)) (\<lambda>_.
       Ok \<lparr>cd_id = ov_id v, cd_path = ov_object_path v, cd_storage_key = ov_storage_key v,
           cd_version = ov_version v, cd_git_branch = ov_git_branch v\<rparr>)"

text \<open>\<^verbatim>\<open>ORDER BY created_at_ms DESC, id DESC\<close>\<close>

definition candidates_of :: "database \<Rightarrow> string \<Rightarrow> object_version_row list" where
  "candidates_of db project_id =
     rev (sort_key (\<lambda>v. (ov_created_at_ms v, ov_id v))
       (filter (\<lambda>v. ov_project_id v = project_id \<and> ov_state v = ''complete'') (object_versions db)))"

definition query_candidates :: "database \<Rightarrow> string \<Rightarrow> RepositoryError + Candidate list" where
  "query_candidates db project_id = collect_results candidate_row (candidates_of db project_id)"

definition protected_path :: "string \<Rightarrow> bool" where
  "protected_path path \<longleftrightarrow>
     list_ex (\<lambda>prefix. starts_with prefix path) [''.blobyard-preview/'', ''.blobyard-yard/'']"

definition policy_matches :: "RetentionPolicyRecord \<Rightarrow> Candidate \<Rightarrow> bool" where
  "policy_matches policy candidate \<longleftrightarrow>
     (case rpr_path_glob policy of None \<Rightarrow> True | Some glob \<Rightarrow> glob_matches glob (cd_path candidate))
     \<and> (case rpr_branch_glob policy of
          None \<Rightarrow> True
        | Some glob \<Rightarrow>
            (case cd_git_branch candidate of None \<Rightarrow> False | Some value \<Rightarrow> glob_matches glob value))"

definition matching_versions ::
  "database \<Rightarrow> RetentionPolicyRecord \<Rightarrow> RepositoryError + (Candidate list \<times> int)" where
  "matching_versions db policy =
     and_then (query_candidates db (rpr_project_id policy)) (\<lambda>candidates.
       let matching = filter (\<lambda>c. \<not> protected_path (cd_path c) \<and> policy_matches policy c) candidates
       in Ok (matching, int (length matching)))"

definition pending_operation :: "database \<Rightarrow> string \<Rightarrow> string option" where
  "pending_operation db project_id =
     map_option do_id (find (pending_retention project_id) (deletion_operations db))"

definition resume_run :: "database \<Rightarrow> string \<Rightarrow> RepositoryError + database" where
  "resume_run db run_id =
     and_then (update_rows (\<lambda>r. rr_id r = run_id \<and> rr_status r \<noteq> ''complete'')
         (\<lambda>r. r\<lparr>rr_status := ''running'', rr_completed_at_ms := None, rr_error_summary := None\<rparr>)
         retention_run_check (retention_runs db)) (\<lambda>(changed, rows).
       Ok (db\<lparr>retention_runs := rows\<rparr>))"

definition insert_run ::
  "database \<Rightarrow> string \<Rightarrow> string \<Rightarrow> int \<Rightarrow> int \<Rightarrow> RepositoryError + database" where
  "insert_run db run_id project_id candidates started_at_ms =
     (let row = \<lparr>rr_id = run_id, rr_project_id = project_id, rr_candidate_count = candidates,
                 rr_deleted_count = 0, rr_status = ''running'', rr_started_at_ms = started_at_ms,
                 rr_completed_at_ms = None, rr_error_summary = None\<rparr>
      in and_then (insert_row (retention_run_check row
             \<and> list_ex (\<lambda>p. pj_id p = project_id) (projects db)
             \<and> \<not> list_ex (\<lambda>r. rr_id r = run_id) (retention_runs db)) row (retention_runs db)) (\<lambda>rows.
           Ok (db\<lparr>retention_runs := rows\<rparr>)))"

definition insert_retention_operation ::
  "database \<Rightarrow> string \<Rightarrow> string \<Rightarrow> string \<Rightarrow> string \<Rightarrow> int \<Rightarrow> RepositoryError + database" where
  "insert_retention_operation db run_id project_id actor request_id started_at_ms =
     insert_operation db
       \<lparr>do_id = run_id, do_project_id = project_id, do_object_path = ''.retention'',
        do_selected_version = None, do_reason = ''retention'', do_status = ''pending'',
        do_actor = actor, do_request_id = request_id, do_created_at_ms = started_at_ms,
        do_completed_at_ms = None\<rparr>"

definition candidate_item :: "string \<Rightarrow> Candidate \<Rightarrow> deletion_item_row" where
  "candidate_item run_id candidate =
     \<lparr>di_operation_id = run_id, di_version_id = cd_id candidate,
      di_storage_key = cd_storage_key candidate, di_version = cd_version candidate\<rparr>"

definition begin_retention_in ::
  "string \<Rightarrow> string \<Rightarrow> string \<Rightarrow> string \<Rightarrow> nat \<Rightarrow> database \<Rightarrow> RepositoryError + (DeletionPlan \<times> database)" where
  "begin_retention_in project_id run_id actor request_id started_at_ms db =
     and_then (try_each validate_text [project_id, run_id, actor, request_id]) (\<lambda>_.
     case pending_operation db project_id of
       Some existing \<Rightarrow>
         and_then (resume_run db existing) (\<lambda>db.
         and_then (deletion_plan db existing) (\<lambda>plan. Ok (plan, db)))
     | None \<Rightarrow>
         and_then (retention_policy db project_id) (\<lambda>policy.
         and_then (matching_versions db policy) (\<lambda>(matching, candidate_count).
         and_then (to_i64 started_at_ms) (\<lambda>started_at_ms.
         and_then (insert_run db run_id project_id candidate_count started_at_ms) (\<lambda>db.
         and_then (insert_retention_operation db run_id project_id actor request_id started_at_ms) (\<lambda>db.
         and_then (insert_items (map (candidate_item run_id)
             (drop (rpr_keep_latest policy) matching)) db) (\<lambda>db.
         and_then (deletion_plan db run_id) (\<lambda>plan. Ok (plan, db)))))))))"

definition begin_retention ::
  "database \<Rightarrow> string \<Rightarrow> string \<Rightarrow> string \<Rightarrow> string \<Rightarrow> nat \<Rightarrow> DeletionPlan outcome" where
  "begin_retention db project_id run_id actor request_id started_at_ms =
     write_transaction (begin_retention_in project_id run_id actor request_id started_at_ms) db"

end
