(* ===== verification/Lifecycle_Purge.thy ===== *)
theory Lifecycle_Purge
  imports Lifecycle
begin

text \<open>
  The abstract view of a deletion: \<open>purge\<close> forgets a set of versions with everything that hangs
  on them, reservations with their parts and inbox links, download grants, and the version of a
  share. It keeps the invariant of the store, and the statements of \<^verbatim>\<open>lifecycle_deletion.rs\<close>
  implement it.
\<close>

section \<open>Forgetting a set of versions\<close>

definition purged_uploads :: "string set \<Rightarrow> database \<Rightarrow> string set" where
  "purged_uploads gone db = ur_id ` {r \<in> set (upload_reservations db). ur_version_id r \<in> gone}"

definition forget_version :: "string set \<Rightarrow> share_row \<Rightarrow> share_row" where
  "forget_version gone s =
     (case sh_version_id s of
        None \<Rightarrow> s
      | Some vid \<Rightarrow> if vid \<in> gone then s\<lparr>sh_version_id := None\<rparr> else s)"

definition purge :: "string set \<Rightarrow> database \<Rightarrow> database" where
  "purge gone db = db\<lparr>
     object_versions := filter (\<lambda>v. ov_id v \<notin> gone) (object_versions db),
     upload_reservations := filter (\<lambda>r. ur_version_id r \<notin> gone) (upload_reservations db),
     upload_parts := filter (\<lambda>p. up_upload_id p \<notin> purged_uploads gone db) (upload_parts db),
     inbox_uploads := filter (\<lambda>l. iu_upload_id l \<notin> purged_uploads gone db) (inbox_uploads db),
     download_grants := filter (\<lambda>d. dg_version_id d \<notin> gone) (download_grants db),
     shares := map (forget_version gone) (shares db)\<rparr>"

lemma purge_fields [simp]:
  "object_versions (purge gone db) = filter (\<lambda>v. ov_id v \<notin> gone) (object_versions db)"
  "upload_reservations (purge gone db) = filter (\<lambda>r. ur_version_id r \<notin> gone) (upload_reservations db)"
  "download_grants (purge gone db) = filter (\<lambda>d. dg_version_id d \<notin> gone) (download_grants db)"
  "upload_parts (purge gone db) = filter (\<lambda>p. up_upload_id p \<notin> purged_uploads gone db) (upload_parts db)"
  "inbox_uploads (purge gone db) = filter (\<lambda>l. iu_upload_id l \<notin> purged_uploads gone db) (inbox_uploads db)"
  "shares (purge gone db) = map (forget_version gone) (shares db)"
  "deletion_operations (purge gone db) = deletion_operations db"
  "deletion_items (purge gone db) = deletion_items db"
  "retention_runs (purge gone db) = retention_runs db"
  "retention_policies (purge gone db) = retention_policies db"
  "projects (purge gone db) = projects db"
  "workspaces (purge gone db) = workspaces db"
  "audit_events (purge gone db) = audit_events db"
  "audit_sequence (purge gone db) = audit_sequence db"
  "inboxes (purge gone db) = inboxes db"
  "inbox_rate_limits (purge gone db) = inbox_rate_limits db"
  by (simp_all add: purge_def)

lemma forget_version_fields [simp]:
  "sh_id (forget_version gone s) = sh_id s"
  "sh_capability_hash (forget_version gone s) = sh_capability_hash s"
  "share_check (forget_version gone s) = share_check s"
  by (simp_all add: forget_version_def share_check_def split: option.split)

lemma forget_version_Some:
  "sh_version_id (forget_version gone s) = Some vid \<longleftrightarrow> sh_version_id s = Some vid \<and> vid \<notin> gone"
  by (auto simp: forget_version_def split: option.split if_split_asm)

lemma forget_version_twice: "forget_version A (forget_version B s) = forget_version (B \<union> A) s"
  by (simp add: forget_version_def split: option.split)

lemma purged_uploads_twice:
  "purged_uploads B db \<union> purged_uploads A (purge B db) = purged_uploads (B \<union> A) db"
  by (auto simp: purged_uploads_def)

lemma purge_purge: "purge A (purge B db) = purge (B \<union> A) db"
proof -
  have twice: "i \<in> purged_uploads (B \<union> A) db \<longleftrightarrow> i \<in> purged_uploads B db \<or> i \<in> purged_uploads A (purge B db)" for i
    using purged_uploads_twice [of B db A] by blast
  show ?thesis
    by (rule database.equality) (auto simp: twice forget_version_twice intro: filter_cong)
qed

lemma forget_version_none: "forget_version {} s = s"
  by (simp add: forget_version_def split: option.split)

lemma purge_none [simp]: "purge {} db = db"
proof -
  have "map (forget_version {}) ss = ss" for ss by (simp add: forget_version_none map_idI)
  then show ?thesis by (simp add: purge_def purged_uploads_def)
qed

lemma transfer_inv_purge:
  assumes "transfer_inv db"
  shows "transfer_inv (purge gone db)"
proof -
  note inv = transfer_invD [OF assms]
  have "versions_ok (purge gone db)"
    using inv(1) by (auto simp: versions_ok_def distinct_map_filter)
  moreover have "reservations_ok (purge gone db)"
    using inv(2) by (fastforce simp: reservations_ok_def distinct_map_filter)
  moreover have "grants_ok (purge gone db)"
    using inv(4) by (fastforce simp: grants_ok_def distinct_map_filter)
  moreover have "\<exists>r \<in> set (upload_reservations (purge gone db)). part_fits p r"
    if p: "p \<in> set (upload_parts db)" "up_upload_id p \<notin> purged_uploads gone db" for p
  proof -
    obtain r where r: "r \<in> set (upload_reservations db)" "part_fits p r"
      using inv(3) p(1) by (auto simp: parts_ok_def)
    then have "ur_id r = up_upload_id p" by (simp add: part_fits_def)
    then have "ur_version_id r \<notin> gone" using r(1) p(2) by (force simp: purged_uploads_def)
    with r show ?thesis by auto
  qed
  then have "parts_ok (purge gone db)"
    using inv(3) by (auto simp: parts_ok_def distinct_map_filter)
  ultimately show ?thesis by (simp add: transfer_inv_def)
qed

lemma complete_ids_purge: "complete_ids (purge gone db) = complete_ids db - gone"
  by (auto simp: complete_ids_def)

lemma store_inv_purge:
  assumes "store_inv db"
  shows "store_inv (purge gone db)"
proof -
  have "audit_inv (purge gone db)" using store_invD(2) [OF assms] by (simp add: audit_inv_def)
  moreover have "share_inv (purge gone db)"
  proof -
    have "map (sh_id \<circ> forget_version gone) ss = map sh_id ss"
      "map (sh_capability_hash \<circ> forget_version gone) ss = map sh_capability_hash ss" for ss
      by simp_all
    then show ?thesis
      using store_invD(3) [OF assms] unfolding share_inv_def complete_ids_purge
      by (auto simp: forget_version_Some simp del: map_eq_conv)
  qed
  ultimately show ?thesis
    using transfer_inv_purge [OF store_invD(1) [OF assms]] by (simp add: store_inv_def)
qed

section \<open>The statements implement it\<close>

lemma share_version_known:
  assumes "share_inv db" and "s \<in> set (shares db)" and "sh_version_id s = Some vid"
  shows "vid \<in> ov_id ` set (object_versions db)"
  using assms by (auto simp: share_inv_def complete_ids_def)

lemma grant_version_known:
  assumes "transfer_inv db" and "d \<in> set (download_grants db)"
  shows "dg_version_id d \<in> ov_id ` set (object_versions db)"
  using transfer_invD(4) [OF assms(1)] assms(2) by (force simp: grants_ok_def)

text \<open>Deleting the reservations of some versions and then the versions.\<close>

lemma delete_versions_purge:
  assumes inv: "store_inv db" and doomed: "\<And>v. v \<in> set (object_versions db) \<Longrightarrow> doomed v \<longleftrightarrow> ov_id v \<in> gone"
  shows "delete_versions doomed (delete_reservations (\<lambda>r. ur_version_id r \<in> gone) db) = Ok (purge gone db)"
proof -
  let ?ids = "ov_id ` {v \<in> set (object_versions db). doomed v}"
  have known: "x \<in> ?ids \<longleftrightarrow> x \<in> gone" if "x \<in> ov_id ` set (object_versions db)" for x
    using that doomed by auto
  have sub: "?ids \<subseteq> gone" using doomed by auto
  have "filter (\<lambda>v. \<not> doomed v) (object_versions db) = filter (\<lambda>v. ov_id v \<notin> gone) (object_versions db)"
    by (rule filter_cong) (simp_all add: doomed)
  moreover have "filter (\<lambda>d. dg_version_id d \<notin> ?ids) (download_grants db)
      = filter (\<lambda>d. dg_version_id d \<notin> gone) (download_grants db)"
    by (rule filter_cong) (simp_all add: known grant_version_known [OF store_invD(1) [OF inv]])
  moreover have "map (\<lambda>s. case sh_version_id s of
        Some vid \<Rightarrow> if vid \<in> ?ids then s\<lparr>sh_version_id := None\<rparr> else s
      | None \<Rightarrow> s) (shares db) = map (forget_version gone) (shares db)"
  proof (rule map_cong)
    fix s
    assume "s \<in> set (shares db)"
    from share_version_known [OF store_invD(3) [OF inv] this]
    show "(case sh_version_id s of
        Some vid \<Rightarrow> if vid \<in> ?ids then s\<lparr>sh_version_id := None\<rparr> else s
      | None \<Rightarrow> s) = forget_version gone s"
      by (simp add: forget_version_def known split: option.split)
  qed simp
  ultimately show ?thesis
    using sub by (auto simp: delete_versions_def delete_reservations_def Let_def purge_def
        purged_uploads_def list_ex_iff cong: option.case_cong)
qed

lemma store_inv_grants_filter:
  assumes "store_inv db"
  shows "store_inv (db\<lparr>download_grants := filter P (download_grants db)\<rparr>)"
proof -
  have "grants_ok (db\<lparr>download_grants := filter P (download_grants db)\<rparr>)"
    using transfer_invD(4) [OF store_invD(1) [OF assms]] by (auto simp: grants_ok_def distinct_map_filter)
  then show ?thesis
    using assms by (simp add: store_inv_def transfer_inv_def versions_ok_def reservations_ok_def
        parts_ok_def audit_inv_def share_inv_def)
qed

lemma delete_version_purge:
  assumes inv: "store_inv db"
  shows "delete_version db vid = Ok (purge {vid} db)"
proof -
  define db1 where "db1 = db\<lparr>download_grants := filter (\<lambda>d. dg_version_id d \<noteq> vid) (download_grants db)\<rparr>"
  have "store_inv db1" unfolding db1_def by (rule store_inv_grants_filter [OF inv])
  then have "delete_versions (\<lambda>v. ov_id v = vid) (delete_reservations (\<lambda>r. ur_version_id r \<in> {vid}) db1)
      = Ok (purge {vid} db1)"
    by (rule delete_versions_purge) simp
  moreover have "purge {vid} db1 = purge {vid} db" by (simp add: purge_def db1_def purged_uploads_def)
  ultimately show ?thesis by (simp add: delete_version_def Let_def db1_def [symmetric])
qed

lemma delete_each_purge: "store_inv db \<Longrightarrow> delete_each vids db = Ok (purge (set vids) db)"
proof (induction vids arbitrary: db)
  case (Cons vid vids)
  then show ?case by (simp add: delete_version_purge store_inv_purge purge_purge)
qed simp

text \<open>The versions a deletion operation removes.\<close>

definition planned_ids :: "database \<Rightarrow> string \<Rightarrow> string set" where
  "planned_ids db uid = di_version_id ` {i \<in> set (deletion_items db). di_operation_id i = uid}"

definition doomed_ids :: "database \<Rightarrow> deletion_operation_row \<Rightarrow> string set" where
  "doomed_ids db operation =
     planned_ids db (do_id operation)
     \<union> (if do_reason operation = ''object_delete''
        then ov_id ` {v \<in> set (object_versions db). aborted_target operation v} else {})"

lemma operation_version_ids_set: "set (operation_version_ids db uid) = planned_ids db uid"
  by (auto simp: operation_version_ids_def operation_items_def planned_ids_def)

lemma delete_aborted_target_purge:
  assumes "store_inv db"
  shows "delete_aborted_target operation db
    = Ok (purge (ov_id ` {v \<in> set (object_versions db). aborted_target operation v}) db)"
proof -
  let ?gone = "ov_id ` {v \<in> set (object_versions db). aborted_target operation v}"
  have "v = w" if "v \<in> set (object_versions db)" "w \<in> set (object_versions db)" "ov_id v = ov_id w" for v w
    using version_unique [OF transfer_invD(1) [OF store_invD(1) [OF assms]] that] .
  then have "aborted_target operation v \<longleftrightarrow> ov_id v \<in> ?gone" if "v \<in> set (object_versions db)" for v
    using that by blast
  from delete_versions_purge [OF assms this]
  show ?thesis by (simp add: delete_aborted_target_def Let_def)
qed

lemma delete_selected_metadata_purge:
  assumes inv: "store_inv db"
  shows "delete_selected_metadata db operation = Ok (purge (doomed_ids db operation) db)"
proof -
  let ?plan = "planned_ids db (do_id operation)"
  have "delete_each (operation_version_ids db (do_id operation)) db = Ok (purge ?plan db)"
    using delete_each_purge [OF inv] by (simp add: operation_version_ids_set)
  moreover have "delete_aborted_target operation (purge ?plan db)
      = Ok (purge (?plan \<union> ov_id ` {v \<in> set (object_versions db). aborted_target operation v}) db)"
  proof -
    have "?plan \<union> ov_id ` {v \<in> set (object_versions (purge ?plan db)). aborted_target operation v}
        = ?plan \<union> ov_id ` {v \<in> set (object_versions db). aborted_target operation v}"
      by auto
    then show ?thesis
      by (simp only: delete_aborted_target_purge [OF store_inv_purge [OF inv]] purge_purge)
  qed
  ultimately show ?thesis by (simp add: delete_selected_metadata_def doomed_ids_def)
qed

end
