(* ===== verification/Lifecycle_Properties.thy ===== *)
theory Lifecycle_Properties
  imports Lifecycle_Purge
begin

text \<open>
  What deletions and retention runs do to the store. The joint invariant of the store and of the
  deletion tables is kept by every command, a planned deletion can be finished and then removes
  exactly what was planned, the numbers of deleted objects are not given out again, and a
  retention run plans exactly the matching versions beyond the newest ones it has to keep.
\<close>

section \<open>The invariant of the deletion tables\<close>

definition items_of :: "database \<Rightarrow> string \<Rightarrow> deletion_item_row list" where
  "items_of db uid = filter (\<lambda>i. di_operation_id i = uid) (deletion_items db)"

definition run_covers :: "database \<Rightarrow> deletion_operation_row \<Rightarrow> bool" where
  "run_covers db operation \<longleftrightarrow>
     (\<exists>r \<in> set (retention_runs db). rr_id r = do_id operation
        \<and> int (length (items_of db (do_id operation))) \<le> rr_candidate_count r)"

definition deletions_inv :: "database \<Rightarrow> bool" where
  "deletions_inv db \<longleftrightarrow>
     distinct (map do_id (deletion_operations db))
     \<and> (\<forall>operation \<in> set (deletion_operations db). deletion_operation_check operation
          \<and> (\<exists>p \<in> set (projects db). pj_id p = do_project_id operation)
          \<and> (do_reason operation = ''retention'' \<and> do_status operation = ''pending'' \<longrightarrow> run_covers db operation))
     \<and> distinct (map (\<lambda>i. (di_operation_id i, di_version_id i)) (deletion_items db))
     \<and> (\<forall>i \<in> set (deletion_items db). di_version i > 0
          \<and> (\<exists>operation \<in> set (deletion_operations db). do_id operation = di_operation_id i))
     \<and> distinct (map rr_id (retention_runs db))
     \<and> (\<forall>r \<in> set (retention_runs db). retention_run_check r)
     \<and> distinct (map rp_project_id (retention_policies db))
     \<and> (\<forall>p \<in> set (retention_policies db). retention_policy_check p)"

definition lifecycle_inv :: "database \<Rightarrow> bool" where
  "lifecycle_inv db \<longleftrightarrow> store_inv db \<and> deletions_inv db"

lemma lifecycle_invD: "lifecycle_inv db \<Longrightarrow> store_inv db" "lifecycle_inv db \<Longrightarrow> deletions_inv db"
  by (simp_all add: lifecycle_inv_def)

text \<open>The tables the invariant reads.\<close>

definition deletion_tables :: "database \<Rightarrow> _" where
  "deletion_tables db = (projects db, deletion_operations db, deletion_items db, retention_runs db,
     retention_policies db)"

lemma deletions_inv_cong: "deletion_tables db' = deletion_tables db \<Longrightarrow> deletions_inv db' = deletions_inv db"
  by (simp add: deletion_tables_def deletions_inv_def run_covers_def items_of_def)

lemma audit_insert_tables: "audit_insert db ev = Ok db' \<Longrightarrow> deletion_tables db' = deletion_tables db"
  by (erule audit_insert_Ok_D) (simp add: deletion_tables_def)

lemma transfer_frame_tables:
  assumes "transfer_frame db db'"
  shows "deletion_tables db' = deletion_tables db"
proof -
  have eq: "db' = db\<lparr>object_versions := object_versions db', upload_reservations := upload_reservations db',
       upload_parts := upload_parts db', download_grants := download_grants db'\<rparr>"
    using assms by (simp add: transfer_frame_def)
  show ?thesis by (subst eq) (simp add: deletion_tables_def)
qed

lemma share_tables:
  "create_share db n ev = (Ok x, db') \<Longrightarrow> deletion_tables db' = deletion_tables db"
  "issue_share_download db h t g ev = (Ok y, db') \<Longrightarrow> deletion_tables db' = deletion_tables db"
  "revoke_share db uid w t ev = (Ok b, db') \<Longrightarrow> deletion_tables db' = deletion_tables db"
proof -
  assume "create_share db n ev = (Ok x, db')"
  then obtain limits db1 where ins: "insert_share db n limits = Ok (1, db1)" and ev: "audit_insert db1 ev = Ok db'"
    by (auto simp: create_share_def outcome_iffs result_simps split: if_split_asm)
  have "deletion_tables db1 = deletion_tables db"
    using ins by (auto simp: insert_share_def Let_def result_simps deletion_tables_def split: if_split_asm)
  with audit_insert_tables [OF ev] show "deletion_tables db' = deletion_tables db" by simp
next
  assume ok: "issue_share_download db h t g ev = (Ok y, db')"
  obtain target db1 db2 where "target_by_capability db h (int t) True = Ok target"
    and ins: "insert_download_grant db \<lparr>dg_capability_hash = ndg_capability_hash g,
        dg_version_id = ndg_version_id g, dg_expires_at_ms = int (ndg_expires_at_ms g)\<rparr> = Ok db1"
    and con: "consume_share db1 (shr_id (sht_share target)) = Ok (1, db2)"
    and ev: "audit_insert db2 ev = Ok db'"
    by (rule issue_share_download_D [OF ok])
  have "deletion_tables db2 = deletion_tables db1"
    using con by (auto simp: consume_share_def result_simps deletion_tables_def)
  moreover have "deletion_tables db1 = deletion_tables db"
    using insert_download_grant_D [OF ins] by (simp add: deletion_tables_def)
  ultimately show "deletion_tables db' = deletion_tables db" using audit_insert_tables [OF ev] by simp
next
  assume "revoke_share db uid w t ev = (Ok b, db')"
  then show "deletion_tables db' = deletion_tables db"
    unfolding revoke_share_def finish_audited_change_def
    by (auto simp: outcome_iffs result_simps deletion_tables_def dest!: audit_insert_tables split: if_split_asm)
qed

lemma store_exec_tables:
  assumes inv: "store_inv db" and run: "store_exec c db = (r, db')"
  shows "deletion_tables db' = deletion_tables db"
proof (cases "is_ok r")
  case False
  then show ?thesis using store.failed_unchanged [OF inv run] by simp
next
  case True
  show ?thesis
  proof (cases c)
    case (Transfer tc)
    with run have "transfer_exec tc db = (r, db')" by simp
    from transfer_frame_tables [OF transfer_exec_frame [OF store_invD(1) [OF inv] this]] show ?thesis .
  next
    case (RecordAudit e)
    with run True show ?thesis
      by (auto simp: record_audit_def outcome_iffs dest!: outcome_of_Ok audit_insert_tables)
  qed (use run True in \<open>auto dest!: outcome_of_Ok dest: share_tables\<close>)
qed

section \<open>Finishing a deletion\<close>

lemma operation_by_id_row:
  assumes inv: "deletions_inv db" and op: "operation \<in> set (deletion_operations db)"
  shows "operation_by_id db (do_id operation) = Ok operation"
proof -
  have "operation_by_id db (do_id operation) = operation_row operation"
    unfolding operation_by_id_def
  proof (rule query_row_unique)
    fix y
    assume "y \<in> set (deletion_operations db)" and "do_id y = do_id operation"
    then show "y = operation" using inv op distinct_map_eq unfolding deletions_inv_def by metis
  qed (use op in simp_all)
  moreover have "deletion_operation_check operation" using inv op by (simp add: deletions_inv_def)
  then have "\<exists>w. transpose_option required_u64 (do_selected_version operation) = Ok w"
    by (cases "do_selected_version operation") (auto simp: deletion_operation_check_def required_u64_def)
  ultimately show ?thesis by (auto simp: operation_row_def)
qed

definition finished_operation :: "int \<Rightarrow> deletion_operation_row \<Rightarrow> deletion_operation_row" where
  "finished_operation t operation = operation\<lparr>do_status := ''complete'', do_completed_at_ms := Some t\<rparr>"

definition finished_run :: "nat \<Rightarrow> int \<Rightarrow> retention_run_row \<Rightarrow> retention_run_row" where
  "finished_run deleted t r = r\<lparr>rr_deleted_count := int deleted, rr_status := ''complete'',
     rr_completed_at_ms := Some t, rr_error_summary := None\<rparr>"

text \<open>The abstract effect of finishing a pending operation.\<close>

definition finished :: "deletion_operation_row \<Rightarrow> int \<Rightarrow> database \<Rightarrow> database" where
  "finished operation t db =
     (purge (doomed_ids db operation) db)\<lparr>
       deletion_operations := map (\<lambda>r. if r = operation then finished_operation t r else r) (deletion_operations db),
       retention_runs := (if do_reason operation = ''retention''
         then map (\<lambda>r. if rr_id r = do_id operation
                then finished_run (length (items_of db (do_id operation))) t r else r) (retention_runs db)
         else retention_runs db)\<rparr>"

lemma finished_operation_fields [simp]:
  "do_id (finished_operation t operation) = do_id operation"
  "do_project_id (finished_operation t operation) = do_project_id operation"
  "do_object_path (finished_operation t operation) = do_object_path operation"
  "do_reason (finished_operation t operation) = do_reason operation"
  "do_status (finished_operation t operation) = ''complete''"
  by (simp_all add: finished_operation_def)

lemma finished_operation_check:
  "deletion_operation_check operation \<Longrightarrow> deletion_operation_check (finished_operation t operation)"
  by (simp add: deletion_operation_check_def finished_operation_def)

lemma complete_run_eq:
  assumes inv: "deletions_inv db" and op: "operation \<in> set (deletion_operations db)" "do_status operation = ''pending''"
    and same: "retention_runs db1 = retention_runs db" "deletion_items db1 = deletion_items db"
  shows "complete_run operation t db1 = Ok (db1\<lparr>retention_runs := (if do_reason operation = ''retention''
         then map (\<lambda>r. if rr_id r = do_id operation
                then finished_run (length (items_of db (do_id operation))) t r else r) (retention_runs db)
         else retention_runs db)\<rparr>)"
proof (cases "do_reason operation = ''retention''")
  case True
  with inv op obtain r where r: "r \<in> set (retention_runs db)" "rr_id r = do_id operation"
    and cov: "int (length (items_of db (do_id operation))) \<le> rr_candidate_count r"
    by (auto simp: deletions_inv_def run_covers_def)
  have "retention_run_check (finished_run (length (items_of db (do_id operation))) t s)"
    if s: "s \<in> set (retention_runs db)" "rr_id s = do_id operation" for s
  proof -
    have "s = r" using inv s r distinct_map_eq [of rr_id "retention_runs db" s r] by (simp add: deletions_inv_def)
    moreover have "retention_run_check r" using inv r(1) by (simp add: deletions_inv_def)
    ultimately show ?thesis using cov by (simp add: retention_run_check_def finished_run_def)
  qed
  then have "update_rows (\<lambda>r. rr_id r = do_id operation)
      (finished_run (length (items_of db (do_id operation))) t) retention_run_check (retention_runs db)
    = Ok (length (filter (\<lambda>r. rr_id r = do_id operation) (retention_runs db)),
        map (\<lambda>r. if rr_id r = do_id operation
          then finished_run (length (items_of db (do_id operation))) t r else r) (retention_runs db))"
    by (simp add: update_rows_def list_all_iff)
  moreover have "finished_run (length (items_of db (do_id operation))) t
      = (\<lambda>r. r\<lparr>rr_deleted_count := int (length (items_of db (do_id operation))), rr_status := ''complete'',
          rr_completed_at_ms := Some t, rr_error_summary := None\<rparr>)"
    by (rule ext) (simp add: finished_run_def)
  ultimately show ?thesis using True by (simp add: complete_run_def same items_of_def)
qed (simp add: complete_run_def same [symmetric])

lemma finish_transaction_eq:
  assumes inv: "lifecycle_inv db" and op: "operation \<in> set (deletion_operations db)" "do_status operation = ''pending''"
  shows "finish_transaction (do_id operation) t ev db =
    and_then (validate_operation_event db operation ev) (\<lambda>_.
    and_then (audit_insert (finished operation t db) ev) (\<lambda>db. Ok ((), db)))"
proof -
  note dinv = lifecycle_invD(2) [OF inv]
  let ?db1 = "purge (doomed_ids db operation) db"
  have check: "deletion_operation_check operation" using dinv op(1) by (simp add: deletions_inv_def)
  have "update_rows (\<lambda>r. do_id r = do_id operation \<and> do_status r = ''pending'') (finished_operation t)
      deletion_operation_check (deletion_operations db)
    = Ok (1, map (\<lambda>r. if r = operation then finished_operation t r else r) (deletion_operations db))"
    by (rule update_rows_one [where key = do_id])
      (use dinv op finished_operation_check [OF check] in \<open>simp_all add: deletions_inv_def\<close>)
  moreover have "finished_operation t
      = (\<lambda>r. r\<lparr>do_status := ''complete'', do_completed_at_ms := Some t\<rparr>)"
    by (rule ext) (simp add: finished_operation_def)
  ultimately have up: "update_rows (\<lambda>r. do_id r = do_id operation \<and> do_status r = ''pending'')
      (\<lambda>r. r\<lparr>do_status := ''complete'', do_completed_at_ms := Some t\<rparr>)
      deletion_operation_check (deletion_operations ?db1)
    = Ok (1, map (\<lambda>r. if r = operation then finished_operation t r else r) (deletion_operations db))"
    by simp
  show ?thesis
    unfolding finish_transaction_def operation_by_id_row [OF dinv op(1)]
      delete_selected_metadata_purge [OF lifecycle_invD(1) [OF inv]] and_then.simps up prod.case
    using op(2) complete_run_eq [OF dinv op, of "?db1\<lparr>deletion_operations := map (\<lambda>r. if r = operation
      then finished_operation t r else r) (deletion_operations db)\<rparr>" t]
    by (simp add: finished_def)
qed

lemma store_inv_deletion_tables [simp]:
  "store_inv (db\<lparr>deletion_operations := os\<rparr>) = store_inv db"
  "store_inv (db\<lparr>deletion_items := is\<rparr>) = store_inv db"
  "store_inv (db\<lparr>retention_runs := rs\<rparr>) = store_inv db"
  "store_inv (db\<lparr>retention_policies := ps\<rparr>) = store_inv db"
  by (simp_all add: store_inv_def transfer_inv_def versions_ok_def reservations_ok_def parts_ok_def
      grants_ok_def audit_inv_def share_inv_def complete_ids_def)

lemma bex_map_if: "(\<exists>y \<in> set (map (\<lambda>x. if P x then f x else x) xs). Q y) \<longleftrightarrow> (\<exists>x \<in> set xs. Q (if P x then f x else x))"
  by (simp del: if_image_distrib)

lemma run_covers_finished:
  "run_covers (finished operation t db) other = run_covers db other"
proof -
  have "(\<exists>r \<in> set (retention_runs (finished operation t db)). rr_id r = uid \<and> n \<le> rr_candidate_count r)
      \<longleftrightarrow> (\<exists>r \<in> set (retention_runs db). rr_id r = uid \<and> n \<le> rr_candidate_count r)" for uid n
    by (simp add: finished_def bex_map_if finished_run_def del: set_map)
     (metis (mono_tags, lifting))
  then show ?thesis by (simp add: run_covers_def items_of_def finished_def)
qed

lemma finished_deletions_inv:
  assumes inv: "deletions_inv db" and op: "operation \<in> set (deletion_operations db)" "do_status operation = ''pending''"
  shows "deletions_inv (finished operation t db)"
proof -
  let ?db' = "finished operation t db"
  let ?ops = "map (\<lambda>r. if r = operation then finished_operation t r else r) (deletion_operations db)"
  have ids: "map do_id ?ops = map do_id (deletion_operations db)" by simp
  have opids: "map do_id (deletion_operations ?db') = map do_id (deletion_operations db)"
    using ids by (simp add: finished_def)
  moreover have "deletion_operation_check r \<and> (\<exists>p \<in> set (projects ?db'). pj_id p = do_project_id r)
      \<and> (do_reason r = ''retention'' \<and> do_status r = ''pending'' \<longrightarrow> run_covers ?db' r)"
    if r: "r \<in> set (deletion_operations ?db')" for r
  proof -
    obtain s where s: "s \<in> set (deletion_operations db)" "r = (if s = operation then finished_operation t s else s)"
      using r unfolding finished_def by (auto simp del: if_image_distrib)
    then have "deletion_operation_check s" "\<exists>p \<in> set (projects db). pj_id p = do_project_id s"
      "do_reason s = ''retention'' \<and> do_status s = ''pending'' \<longrightarrow> run_covers db s"
      using inv by (simp_all add: deletions_inv_def)
    moreover have "projects ?db' = projects db" by (simp add: finished_def)
    ultimately show ?thesis
      using s(2) by (auto simp: finished_operation_check run_covers_finished)
  qed
  moreover have "\<exists>r \<in> set (deletion_operations ?db'). do_id r = di_operation_id i"
    if "i \<in> set (deletion_items db)" for i
  proof -
    have "di_operation_id i \<in> set (map do_id (deletion_operations db))"
      using inv that by (force simp: deletions_inv_def)
    then have "di_operation_id i \<in> set (map do_id (deletion_operations ?db'))" by (simp only: opids)
    then show ?thesis by force
  qed
  moreover have "map rr_id (retention_runs ?db') = map rr_id (retention_runs db)"
    by (simp add: finished_def finished_run_def)
  moreover have "retention_run_check r" if "r \<in> set (retention_runs ?db')" for r
  proof -
    obtain rows where rows: "retention_runs ?db' = (if do_reason operation = ''retention'' then rows else retention_runs db)"
      and up: "complete_run operation t db = Ok (db\<lparr>retention_runs := retention_runs ?db'\<rparr>)"
      using complete_run_eq [OF inv op refl refl, of t] by (simp add: finished_def)
    show ?thesis
    proof (cases "do_reason operation = ''retention''")
      case True
      then have "\<forall>r \<in> set (retention_runs db). rr_id r = do_id operation \<longrightarrow>
          retention_run_check (finished_run (length (items_of db (do_id operation))) t r)"
        using up by (auto simp: complete_run_def result_simps update_rows_Ok_iff finished_run_def items_of_def)
      with True inv that show ?thesis by (auto simp: finished_def deletions_inv_def)
    next
      case False
      with inv that show ?thesis by (simp add: finished_def deletions_inv_def)
    qed
  qed
  moreover have "deletion_items ?db' = deletion_items db" "retention_policies ?db' = retention_policies db"
    by (simp_all add: finished_def)
  ultimately show ?thesis using inv unfolding deletions_inv_def by simp
qed

lemma finished_lifecycle_inv:
  assumes "lifecycle_inv db" and "operation \<in> set (deletion_operations db)" and "do_status operation = ''pending''"
  shows "lifecycle_inv (finished operation t db)"
  using store_inv_purge [OF lifecycle_invD(1) [OF assms(1)]] finished_deletions_inv [OF lifecycle_invD(2) [OF assms(1)] assms(2,3)]
  by (simp add: lifecycle_inv_def) (simp add: finished_def)

lemma audit_insert_lifecycle_inv:
  "lifecycle_inv db \<Longrightarrow> audit_insert db ev = Ok db' \<Longrightarrow> lifecycle_inv db'"
  using audit_insert_store_inv [of db ev db'] deletions_inv_cong [OF audit_insert_tables, of db ev db']
  by (simp add: lifecycle_inv_def)

lemma finish_deletion_D:
  assumes inv: "lifecycle_inv db" and ok: "finish_deletion db uid t ev = (Ok u, db')"
  obtains operation where "operation \<in> set (deletion_operations db)" and "do_id operation = uid"
    and "do_status operation = ''complete''" and "db' = db"
  | operation where "operation \<in> set (deletion_operations db)" and "do_id operation = uid"
    and "do_status operation = ''pending''" and "validate_operation_event db operation ev = Ok ()"
    and "audit_insert (finished operation (int t) db) ev = Ok db'"
proof -
  have run: "finish_transaction uid (int t) ev db = Ok ((), db')"
    using ok by (auto simp: finish_deletion_def outcome_iffs result_simps)
  then obtain operation where "operation_by_id db uid = Ok operation"
    by (auto simp: finish_transaction_def result_simps)
  then obtain r where op: "r \<in> set (deletion_operations db)" "do_id r = uid"
    by (auto simp: operation_by_id_def dest!: query_row_Ok_D)
  have "do_status r = ''complete'' \<or> do_status r = ''pending''"
    using lifecycle_invD(2) [OF inv] op(1) by (auto simp: deletions_inv_def deletion_operation_check_def)
  then show thesis
  proof
    assume st: "do_status r = ''complete''"
    then have "db' = db"
      using run operation_by_id_row [OF lifecycle_invD(2) [OF inv] op(1)] by (simp add: finish_transaction_def op(2))
    with that(1) op st show thesis by blast
  next
    assume st: "do_status r = ''pending''"
    have "validate_operation_event db r ev = Ok ()" "audit_insert (finished r (int t) db) ev = Ok db'"
      using run unfolding finish_transaction_eq [OF inv op(1) st, of "int t" ev, unfolded op(2)]
      by (auto simp: result_simps)
    with that(2) op st show thesis by blast
  qed
qed

lemma finish_deletion_inv:
  assumes inv: "lifecycle_inv db" and ok: "finish_deletion db uid t ev = (Ok u, db')"
  shows "lifecycle_inv db'"
  using inv ok by (rule finish_deletion_D)
    (use inv audit_insert_lifecycle_inv finished_lifecycle_inv in blast)+

section \<open>Planning\<close>

abbreviation item_key :: "deletion_item_row \<Rightarrow> string \<times> string" where
  "item_key i \<equiv> (di_operation_id i, di_version_id i)"

lemma insert_items_D:
  "insert_items rows db = Ok db' \<Longrightarrow>
     db' = db\<lparr>deletion_items := deletion_items db @ rows\<rparr>
     \<and> (\<forall>row \<in> set rows. di_version row > 0
          \<and> (\<exists>operation \<in> set (deletion_operations db). do_id operation = di_operation_id row))
     \<and> (distinct (map item_key (deletion_items db)) \<longrightarrow> distinct (map item_key (deletion_items db @ rows)))"
proof (induction rows arbitrary: db)
  case (Cons row rows)
  then obtain db1 where ins: "insert_item db row = Ok db1" and rest: "insert_items rows db1 = Ok db'"
    by (auto simp: result_simps)
  then have allowed: "deletion_item_allowed db row"
    and db1: "db1 = db\<lparr>deletion_items := deletion_items db @ [row]\<rparr>"
    by (auto simp: insert_item_def result_simps)
  have "item_key row \<notin> item_key ` set (deletion_items db)"
    using allowed by (auto simp: deletion_item_allowed_def list_ex_iff)
  then show ?case
    using Cons.IH [OF rest] allowed by (auto simp: db1 deletion_item_allowed_def list_ex_iff)
qed simp

lemma run_covers_more_runs:
  "run_covers db operation \<Longrightarrow> run_covers (db\<lparr>retention_runs := retention_runs db @ rs\<rparr>) operation"
  by (auto simp: run_covers_def items_of_def)

lemma insert_run_inv:
  assumes "deletions_inv db" and "insert_run db uid project_id n t = Ok db'"
  shows "deletions_inv db'"
proof -
  define row where "row = \<lparr>rr_id = uid, rr_project_id = project_id, rr_candidate_count = n,
     rr_deleted_count = 0, rr_status = ''running'', rr_started_at_ms = t,
     rr_completed_at_ms = None, rr_error_summary = None\<rparr>"
  have "retention_run_check row" and "\<not> list_ex (\<lambda>r. rr_id r = uid) (retention_runs db)"
    and db': "db' = db\<lparr>retention_runs := retention_runs db @ [row]\<rparr>"
    using assms(2) by (auto simp: insert_run_def Let_def row_def result_simps)
  moreover have "rr_id row = uid" by (simp add: row_def)
  ultimately have "retention_run_check row" "rr_id row \<notin> rr_id ` set (retention_runs db)"
    by (auto simp: list_ex_iff)
  then show ?thesis
    using assms(1) unfolding deletions_inv_def db' by (simp add: run_covers_more_runs)
qed

text \<open>Recording a new operation with its items keeps the invariant.\<close>

lemma record_operation_inv:
  assumes inv: "deletions_inv db" and allowed: "deletion_operation_allowed db operation"
    and rows: "\<And>row. row \<in> set rows \<Longrightarrow> di_operation_id row = do_id operation"
    and run: "do_reason operation = ''retention'' \<Longrightarrow>
      \<exists>r \<in> set (retention_runs db). rr_id r = do_id operation \<and> int (length rows) \<le> rr_candidate_count r"
    and ok: "insert_items rows (db\<lparr>deletion_operations := deletion_operations db @ [operation]\<rparr>) = Ok db'"
  shows "deletions_inv db'"
    and "db' = db\<lparr>deletion_operations := deletion_operations db @ [operation],
           deletion_items := deletion_items db @ rows\<rparr>"
proof -
  note items = insert_items_D [OF ok]
  show db': "db' = db\<lparr>deletion_operations := deletion_operations db @ [operation],
      deletion_items := deletion_items db @ rows\<rparr>" using items by simp
  have new: "do_id operation \<notin> do_id ` set (deletion_operations db)"
    and chk: "deletion_operation_check operation" "\<exists>p \<in> set (projects db). pj_id p = do_project_id operation"
    using allowed by (auto simp: deletion_operation_allowed_def list_ex_iff)
  have none: "filter (\<lambda>i. di_operation_id i = do_id operation) (deletion_items db) = []"
    using inv new unfolding deletions_inv_def filter_empty_conv by (metis image_eqI)
  have old: "filter (\<lambda>i. di_operation_id i = do_id r) rows = []" if "r \<in> set (deletion_operations db)" for r
    using rows new that unfolding filter_empty_conv by (metis image_eqI)
  have "run_covers db' r = run_covers db r" if "r \<in> set (deletion_operations db)" for r
    using old [OF that] by (simp add: run_covers_def items_of_def db')
  moreover have "run_covers db' operation" if "do_reason operation = ''retention''"
    using run [OF that] none rows by (simp add: run_covers_def items_of_def db')
  moreover have "distinct (map item_key (deletion_items db'))"
    using items inv by (simp add: deletions_inv_def db')
  ultimately show "deletions_inv db'"
    using inv chk new items unfolding deletions_inv_def by (auto simp: db')
qed

definition deletion_row :: "NewObjectDeletion \<Rightarrow> deletion_operation_row" where
  "deletion_row d = \<lparr>do_id = nod_id d, do_project_id = odt_project_id (nod_target d),
     do_object_path = odt_object_path (nod_target d),
     do_selected_version = map_option int (odt_version (nod_target d)), do_reason = ''object_delete'',
     do_status = ''pending'', do_actor = nod_actor d, do_request_id = nod_request_id d,
     do_created_at_ms = int (nod_created_at_ms d), do_completed_at_ms = None\<rparr>"

definition in_target :: "NewObjectDeletion \<Rightarrow> object_version_row \<Rightarrow> bool" where
  "in_target d = targets (odt_project_id (nod_target d)) (odt_object_path (nod_target d))
     (map_option int (odt_version (nod_target d)))"

definition version_item :: "string \<Rightarrow> object_version_row \<Rightarrow> deletion_item_row" where
  "version_item uid v = \<lparr>di_operation_id = uid, di_version_id = ov_id v,
     di_storage_key = ov_storage_key v, di_version = ov_version v\<rparr>"

definition target_items :: "database \<Rightarrow> NewObjectDeletion \<Rightarrow> deletion_item_row list" where
  "target_items db d = map (version_item (nod_id d))
     (filter (\<lambda>v. ov_state v = ''complete'') (sort_key ov_version (filter (in_target d) (object_versions db))))"

lemma validate_deletion_D:
  assumes "validate_deletion d = Ok val"
  shows "vd_selected_version val = map_option int (odt_version (nod_target d))"
    and "vd_created_at_ms val = int (nod_created_at_ms d)" and "validate_text (nod_id d) = Ok ()"
  using assms unfolding validate_deletion_def
  by (auto simp: result_simps split: if_split_asm)

lemma selected_row_Ok_D:
  "selected_row v = Ok s \<Longrightarrow> s = \<lparr>sv_id = ov_id v, sv_storage_key = ov_storage_key v,
     sv_version = ov_version v, sv_state = ov_state v\<rparr>"
  by (auto simp: selected_row_def result_simps)

lemma selected_versions_D:
  assumes "selected_versions db d (map_option int (odt_version (nod_target d))) = Ok versions"
  shows "versions = map (\<lambda>v. \<lparr>sv_id = ov_id v, sv_storage_key = ov_storage_key v,
     sv_version = ov_version v, sv_state = ov_state v\<rparr>) (sort_key ov_version (filter (in_target d) (object_versions db)))"
proof -
  have "list_all2 (\<lambda>v s. selected_row v = Ok s) (sort_key ov_version (filter (in_target d) (object_versions db))) versions"
    using assms by (simp add: selected_versions_def collect_results_Ok_iff in_target_def)
  then show ?thesis
    by (induction rule: list_all2_induct) (auto dest: selected_row_Ok_D)
qed

lemma begin_object_deletion_D:
  assumes ok: "begin_object_deletion db d = (Ok plan, db')"
  obtains uid where "db' = db" and "deletion_plan db uid = Ok plan"
    and "pending_deletion db d (map_option int (odt_version (nod_target d))) = Some uid
      \<or> completed_deletion db d (map_option int (odt_version (nod_target d))) = Some uid"
  | "pending_deletion db d (map_option int (odt_version (nod_target d))) = None"
    and "\<And>v. v \<in> set (object_versions db) \<Longrightarrow> in_target d v \<Longrightarrow> ov_state v \<noteq> ''pending''"
    and "deletion_operation_allowed db (deletion_row d)"
    and "insert_items (target_items db d)
      (db\<lparr>deletion_operations := deletion_operations db @ [deletion_row d]\<rparr>) = Ok db'"
    and "deletion_plan db' (nod_id d) = Ok plan" and "validate_text (nod_id d) = Ok ()"
proof -
  let ?sel = "map_option int (odt_version (nod_target d))"
  obtain val where val: "validate_deletion d = Ok val" and run: "begin_deletion d val db = Ok (plan, db')"
    using ok by (auto simp: begin_object_deletion_def outcome_iffs)
  note vd = validate_deletion_D [OF val]
  obtain versions where vs: "selected_versions db d ?sel = Ok versions"
    using run by (auto simp: begin_deletion_def Let_def vd result_simps)
  note versions = selected_versions_D [OF vs]
  show thesis
  proof (cases "pending_deletion db d ?sel")
    case (Some uid)
    with run vs have "deletion_plan db uid = Ok plan" "db' = db"
      by (auto simp: begin_deletion_def Let_def vd result_simps)
    with that(1) Some show thesis by blast
  next
    case None
    show thesis
    proof (cases "versions = []")
      case True
      have "begin_deletion d val db = (case completed_deletion db d ?sel of
            Some uid \<Rightarrow> and_then (deletion_plan db uid) (\<lambda>plan. Ok (plan, db)) | None \<Rightarrow> Err NotFound)"
        by (simp add: begin_deletion_def vd vs None True)
      note eq = this [unfolded run]
      show thesis
      proof (cases "completed_deletion db d ?sel")
        case (Some uid)
        with eq have "deletion_plan db uid = Ok plan" "db' = db"
          by (cases "deletion_plan db uid", simp_all)+
        with that(1) Some show thesis by blast
      qed (use eq in simp)
    next
      case False
      have items: "map (\<lambda>v. \<lparr>di_operation_id = nod_id d, di_version_id = sv_id v,
          di_storage_key = sv_storage_key v, di_version = sv_version v\<rparr>)
          (filter (\<lambda>v. sv_state v = ''complete'') versions) = target_items db d"
        unfolding versions target_items_def filter_map by (simp add: comp_def version_item_def)
      have "begin_deletion d val db = (if list_ex (\<lambda>v. sv_state v = ''pending'') versions then Err Conflict
          else and_then (insert_operation db (deletion_row d)) (\<lambda>db1.
            and_then (insert_items (target_items db d) db1) (\<lambda>db.
            and_then (deletion_plan db (nod_id d)) (\<lambda>plan. Ok (plan, db)))))"
        by (simp add: begin_deletion_def vd vs None False insert_complete_items_def items deletion_row_def)
      with run have "deletion_operation_allowed db (deletion_row d)"
        "insert_items (target_items db d)
          (db\<lparr>deletion_operations := deletion_operations db @ [deletion_row d]\<rparr>) = Ok db'"
        "deletion_plan db' (nod_id d) = Ok plan" and st: "\<not> list_ex (\<lambda>v. sv_state v = ''pending'') versions"
        by (auto simp: insert_operation_def result_simps split: if_split_asm)
      moreover have "ov_state v \<noteq> ''pending''" if "v \<in> set (object_versions db)" "in_target d v" for v
        using st that by (auto simp: versions list_ex_iff)
      ultimately show thesis using that(2) None vd(3) by blast
    qed
  qed
qed

lemma begin_object_deletion_inv:
  assumes inv: "lifecycle_inv db" and ok: "begin_object_deletion db d = (Ok plan, db')"
  shows "lifecycle_inv db'"
  using ok
proof (rule begin_object_deletion_D)
  assume "db' = db"
  with inv show ?thesis by simp
next
  assume allowed: "deletion_operation_allowed db (deletion_row d)"
    and ins: "insert_items (target_items db d)
      (db\<lparr>deletion_operations := deletion_operations db @ [deletion_row d]\<rparr>) = Ok db'"
  have rows: "di_operation_id row = do_id (deletion_row d)" if "row \<in> set (target_items db d)" for row
    using that by (auto simp: target_items_def version_item_def deletion_row_def)
  note rec = record_operation_inv [OF lifecycle_invD(2) [OF inv] allowed rows _ ins]
  have "deletions_inv db'" by (rule rec(1)) (simp_all add: deletion_row_def)
  moreover have "db' = db\<lparr>deletion_operations := deletion_operations db @ [deletion_row d],
      deletion_items := deletion_items db @ target_items db d\<rparr>"
    by (rule rec(2)) (simp_all add: deletion_row_def)
  ultimately show ?thesis using lifecycle_invD(1) [OF inv] by (simp add: lifecycle_inv_def)
qed

section \<open>Retention\<close>

lemma update_runs_inv:
  assumes inv: "deletions_inv db" and up: "update_rows sel change retention_run_check (retention_runs db) = Ok (n, rows)"
    and keep: "\<And>r. rr_id (change r) = rr_id r" "\<And>r. rr_candidate_count (change r) = rr_candidate_count r"
  shows "deletions_inv (db\<lparr>retention_runs := rows\<rparr>)"
proof -
  have rows: "rows = map (\<lambda>r. if sel r then change r else r) (retention_runs db)"
    and chk: "\<forall>r \<in> set (retention_runs db). sel r \<longrightarrow> retention_run_check (change r)"
    using up by (simp_all add: update_rows_Ok_iff)
  have "run_covers (db\<lparr>retention_runs := rows\<rparr>) operation = run_covers db operation" for operation
    by (simp add: run_covers_def items_of_def rows bex_map_if keep if_distrib del: set_map cong: if_cong)
  moreover have "map rr_id rows = map rr_id (retention_runs db)"
    unfolding rows by (rule map_update_key) (rule keep)
  moreover have "\<forall>r \<in> set rows. retention_run_check r"
    using chk inv by (auto simp: rows deletions_inv_def)
  ultimately show ?thesis using inv unfolding deletions_inv_def by simp
qed

lemma policies_inv:
  assumes "deletions_inv db" and "distinct (map rp_project_id rows)" and "\<forall>p \<in> set rows. retention_policy_check p"
  shows "deletions_inv (db\<lparr>retention_policies := rows\<rparr>)"
  using assms by (simp add: deletions_inv_def run_covers_def items_of_def)

lemma update_policies_inv:
  assumes inv: "deletions_inv db"
    and up: "update_rows sel change retention_policy_check (retention_policies db) = Ok (n, rows)"
    and keep: "\<And>r. sel r \<Longrightarrow> rp_project_id (change r) = rp_project_id r"
  shows "deletions_inv (db\<lparr>retention_policies := rows\<rparr>)"
proof -
  have rows: "rows = map (\<lambda>r. if sel r then change r else r) (retention_policies db)"
    and chk: "\<forall>r \<in> set (retention_policies db). sel r \<longrightarrow> retention_policy_check (change r)"
    using up by (simp_all add: update_rows_Ok_iff)
  have "map rp_project_id rows = map rp_project_id (retention_policies db)" by (simp add: rows keep)
  then have "distinct (map rp_project_id rows)" using inv by (simp add: deletions_inv_def)
  moreover have "\<forall>p \<in> set rows. retention_policy_check p" using inv chk by (auto simp: rows deletions_inv_def)
  ultimately show ?thesis by (rule policies_inv [OF inv])
qed

lemma upsert_policy_inv:
  assumes inv: "deletions_inv db" and ok: "upsert_policy policy created updated db = Ok db'"
  shows "deletions_inv db' \<and> (\<exists>rows. db' = db\<lparr>retention_policies := rows\<rparr>)"
proof -
  define row where "row = \<lparr>rp_project_id = rpr_project_id policy, rp_keep_latest = int (rpr_keep_latest policy),
     rp_path_glob = rpr_path_glob policy, rp_branch_glob = rpr_branch_glob policy,
     rp_enabled = 1, rp_created_at_ms = created, rp_updated_at_ms = updated\<rparr>"
  show ?thesis
  proof (cases "list_ex (\<lambda>r. rp_project_id r = rpr_project_id policy) (retention_policies db)")
    case True
    obtain n rows where up: "update_rows (\<lambda>r. rp_project_id r = rpr_project_id policy)
        (\<lambda>r. row\<lparr>rp_created_at_ms := rp_created_at_ms r\<rparr>) retention_policy_check (retention_policies db) = Ok (n, rows)"
      and db': "db' = db\<lparr>retention_policies := rows\<rparr>"
      using ok True unfolding upsert_policy_def Let_def row_def [symmetric] by (auto simp: result_simps)
    have "deletions_inv (db\<lparr>retention_policies := rows\<rparr>)"
      by (rule update_policies_inv [OF inv up]) (simp add: row_def)
    with db' show ?thesis by blast
  next
    case False
    then have row: "rp_project_id row = rpr_project_id policy" "retention_policy_check row"
      and db': "db' = db\<lparr>retention_policies := retention_policies db @ [row]\<rparr>"
      using ok unfolding upsert_policy_def Let_def row_def [symmetric] by (simp_all add: result_simps) (simp add: row_def)
    have "deletions_inv (db\<lparr>retention_policies := retention_policies db @ [row]\<rparr>)"
      using inv False row by (intro policies_inv [OF inv]) (auto simp: deletions_inv_def list_ex_iff)
    with db' show ?thesis by blast
  qed
qed

lemma set_retention_inv:
  assumes inv: "lifecycle_inv db" and ok: "set_retention db policy ev = (Ok u, db')"
  shows "lifecycle_inv db'"
proof -
  obtain created updated db1 where up: "upsert_policy policy created updated db = Ok db1"
    and ev: "audit_insert db1 ev = Ok db'"
    using ok by (auto simp: set_retention_def set_retention_in_def outcome_iffs result_simps)
  have "lifecycle_inv db1"
    using upsert_policy_inv [OF lifecycle_invD(2) [OF inv] up] lifecycle_invD(1) [OF inv]
    by (auto simp: lifecycle_inv_def)
  then show ?thesis using ev by (rule audit_insert_lifecycle_inv)
qed

lemma clear_retention_inv:
  assumes inv: "lifecycle_inv db" and ok: "clear_retention db p t ev = (Ok b, db')"
  shows "lifecycle_inv db'"
proof -
  obtain n rows where up: "update_rows (\<lambda>r. rp_project_id r = p \<and> rp_enabled r = 1)
      (\<lambda>r. r\<lparr>rp_enabled := 0, rp_updated_at_ms := int t\<rparr>) retention_policy_check (retention_policies db) = Ok (n, rows)"
    and res: "db' = db\<lparr>retention_policies := rows\<rparr> \<or> audit_insert (db\<lparr>retention_policies := rows\<rparr>) ev = Ok db'"
    using ok unfolding clear_retention_def clear_retention_in_def
    by (auto simp: outcome_iffs result_simps Let_def split: if_split_asm)
  have "deletions_inv (db\<lparr>retention_policies := rows\<rparr>)"
    by (rule update_policies_inv [OF lifecycle_invD(2) [OF inv] up]) simp
  then have "lifecycle_inv (db\<lparr>retention_policies := rows\<rparr>)"
    using lifecycle_invD(1) [OF inv] by (simp add: lifecycle_inv_def)
  then show ?thesis using res audit_insert_lifecycle_inv by auto
qed

lemma fail_retention_D:
  assumes run: "fail_retention db uid t = (r, db')" and inv: "lifecycle_inv db"
  shows "if is_ok r then lifecycle_inv db' else db' = db"
proof (cases "and_then (validate_text uid) (\<lambda>_.
           and_then (to_i64 t) (\<lambda>completed_at_ms.
             update_rows (\<lambda>r. rr_id r = uid \<and> rr_status r \<noteq> ''complete'')
               (\<lambda>r. r\<lparr>rr_status := ''failed'', rr_completed_at_ms := Some completed_at_ms,
                      rr_error_summary := Some ''Storage deletion did not complete.''\<rparr>)
               retention_run_check (retention_runs db)))")
  case (Inl e)
  with run show ?thesis by (auto simp: fail_retention_def)
next
  case (Inr p)
  obtain n rows where p: "p = (n, rows)" by force
  from Inr have up: "update_rows (\<lambda>r. rr_id r = uid \<and> rr_status r \<noteq> ''complete'')
      (\<lambda>r. r\<lparr>rr_status := ''failed'', rr_completed_at_ms := Some (int t),
        rr_error_summary := Some ''Storage deletion did not complete.''\<rparr>)
      retention_run_check (retention_runs db) = Ok (n, rows)"
    by (simp add: result_simps p)
  have res: "r = (if n = 1 then Ok () else Err NotFound)" "db' = db\<lparr>retention_runs := rows\<rparr>"
    using run Inr by (simp_all add: fail_retention_def p)
  have "deletions_inv (db\<lparr>retention_runs := rows\<rparr>)"
    by (rule update_runs_inv [OF lifecycle_invD(2) [OF inv] up]) simp_all
  moreover have "n \<le> 1"
    using up lifecycle_invD(2) [OF inv] keyed_selection [of rr_id "retention_runs db"
        "\<lambda>r. rr_id r = uid \<and> rr_status r \<noteq> ''complete''" uid]
    by (simp add: update_rows_Ok_iff deletions_inv_def)
  moreover have "rows = retention_runs db" if "n = 0"
    using up that by (auto simp: update_rows_Ok_iff intro: unselected_update)
  ultimately show ?thesis
    using res lifecycle_invD(1) [OF inv] by (cases "n = 1") (auto simp: lifecycle_inv_def)
qed

text \<open>The versions a policy ranges over, newest first.\<close>

definition candidate_of :: "object_version_row \<Rightarrow> Candidate" where
  "candidate_of v = \<lparr>cd_id = ov_id v, cd_path = ov_object_path v, cd_storage_key = ov_storage_key v,
     cd_version = ov_version v, cd_git_branch = ov_git_branch v\<rparr>"

definition eligible :: "database \<Rightarrow> RetentionPolicyRecord \<Rightarrow> object_version_row list" where
  "eligible db policy = filter (\<lambda>v. \<not> protected_path (ov_object_path v) \<and> policy_matches policy (candidate_of v))
     (candidates_of db (rpr_project_id policy))"

lemma matching_versions_D:
  assumes "matching_versions db policy = Ok (matching, n)"
  shows "matching = map candidate_of (eligible db policy)" and "n = int (length matching)"
proof -
  obtain cs where cs: "query_candidates db (rpr_project_id policy) = Ok cs"
    and m: "matching = filter (\<lambda>c. \<not> protected_path (cd_path c) \<and> policy_matches policy c) cs"
    and n: "n = int (length matching)"
    using assms by (auto simp: matching_versions_def result_simps Let_def)
  have "list_all2 (\<lambda>v c. candidate_row v = Ok c) (candidates_of db (rpr_project_id policy)) cs"
    using cs by (simp add: query_candidates_def collect_results_Ok_iff)
  then have "cs = map candidate_of (candidates_of db (rpr_project_id policy))"
    by (induction rule: list_all2_induct) (auto simp: candidate_row_def candidate_of_def result_simps)
  then show "matching = map candidate_of (eligible db policy)"
    by (simp add: m eligible_def filter_map comp_def candidate_of_def)
  show "n = int (length matching)" by (rule n)
qed

lemma candidate_item_of [simp]: "candidate_item uid (candidate_of v) = version_item uid v"
  by (simp add: candidate_item_def candidate_of_def version_item_def)

definition retention_row :: "string \<Rightarrow> string \<Rightarrow> string \<Rightarrow> string \<Rightarrow> nat \<Rightarrow> deletion_operation_row" where
  "retention_row p uid actor request_id t =
     \<lparr>do_id = uid, do_project_id = p, do_object_path = ''.retention'',
      do_selected_version = None, do_reason = ''retention'', do_status = ''pending'',
      do_actor = actor, do_request_id = request_id, do_created_at_ms = int t, do_completed_at_ms = None\<rparr>"

lemma begin_retention_D:
  assumes ok: "begin_retention db p uid actor request_id t = (Ok plan, db')"
  obtains existing where "pending_operation db p = Some existing" and "resume_run db existing = Ok db'"
    and "deletion_plan db' existing = Ok plan"
  | policy db1 where "pending_operation db p = None" and "retention_policy db p = Ok policy"
    and "insert_run db uid p (int (length (eligible db policy))) (int t) = Ok db1"
    and "deletion_operation_allowed db1 (retention_row p uid actor request_id t)"
    and "insert_items (map (version_item uid) (drop (rpr_keep_latest policy) (eligible db policy)))
      (db1\<lparr>deletion_operations := deletion_operations db1 @ [retention_row p uid actor request_id t]\<rparr>) = Ok db'"
    and "deletion_plan db' uid = Ok plan" and "validate_text uid = Ok ()"
proof (cases "pending_operation db p")
  case (Some existing)
  with ok have "resume_run db existing = Ok db'" "deletion_plan db' existing = Ok plan"
    by (simp_all add: begin_retention_def begin_retention_in_def outcome_iffs result_simps)
  with Some that(1) show thesis by blast
next
  case None
  with ok obtain policy matching n db1 db2 where pol: "retention_policy db p = Ok policy"
    and m: "matching_versions db policy = Ok (matching, n)" and run: "insert_run db uid p n (int t) = Ok db1"
    and op: "insert_retention_operation db1 uid p actor request_id (int t) = Ok db2"
    and items: "insert_items (map (candidate_item uid) (drop (rpr_keep_latest policy) matching)) db2 = Ok db'"
    and plan: "deletion_plan db' uid = Ok plan" and text_ok: "validate_text uid = Ok ()"
    by (auto simp: begin_retention_def begin_retention_in_def outcome_iffs result_simps)
  note md = matching_versions_D [OF m]
  have "map (candidate_item uid) (drop k matching) = map (version_item uid) (drop k (eligible db policy))" for k
    by (simp add: md(1) drop_map)
  then have "insert_items (map (version_item uid) (drop (rpr_keep_latest policy) (eligible db policy))) db2 = Ok db'"
    using items by simp
  moreover have "insert_run db uid p (int (length (eligible db policy))) (int t) = Ok db1" using run md by simp
  moreover have "deletion_operation_allowed db1 (retention_row p uid actor request_id t)"
    "db2 = db1\<lparr>deletion_operations := deletion_operations db1 @ [retention_row p uid actor request_id t]\<rparr>"
    using op by (auto simp: insert_retention_operation_def insert_operation_def retention_row_def result_simps)
  ultimately show thesis using that(2) None pol plan text_ok by blast
qed

end
