(* ===== verification/Lifecycle_Histories.thy ===== *)
theory Lifecycle_Histories
  imports Lifecycle_Properties
begin

text \<open>
  The lifecycle service: transfers, shares, audit, deletions and retention as commands on one
  database, and what its histories guarantee.
\<close>

section \<open>The service\<close>

lemma begin_retention_inv:
  assumes inv: "lifecycle_inv db" and ok: "begin_retention db p uid actor request_id t = (Ok plan, db')"
  shows "lifecycle_inv db'"
  using ok
proof (rule begin_retention_D)
  fix existing
  assume "resume_run db existing = Ok db'"
  then obtain n rows where up: "update_rows (\<lambda>r. rr_id r = existing \<and> rr_status r \<noteq> ''complete'')
      (\<lambda>r. r\<lparr>rr_status := ''running'', rr_completed_at_ms := None, rr_error_summary := None\<rparr>)
      retention_run_check (retention_runs db) = Ok (n, rows)" and db': "db' = db\<lparr>retention_runs := rows\<rparr>"
    by (auto simp: resume_run_def result_simps)
  have "deletions_inv db'"
    unfolding db' by (rule update_runs_inv [OF lifecycle_invD(2) [OF inv] up]) simp_all
  then show ?thesis using lifecycle_invD(1) [OF inv] by (simp add: lifecycle_inv_def db')
next
  fix policy db1
  let ?rows = "map (version_item uid) (drop (rpr_keep_latest policy) (eligible db policy))"
  assume run: "insert_run db uid p (int (length (eligible db policy))) (int t) = Ok db1"
    and allowed: "deletion_operation_allowed db1 (retention_row p uid actor request_id t)"
    and ins: "insert_items ?rows
      (db1\<lparr>deletion_operations := deletion_operations db1 @ [retention_row p uid actor request_id t]\<rparr>) = Ok db'"
  have inv1: "deletions_inv db1" by (rule insert_run_inv [OF lifecycle_invD(2) [OF inv] run])
  have rows: "di_operation_id row = do_id (retention_row p uid actor request_id t)" if "row \<in> set ?rows" for row
    using that by (auto simp: version_item_def retention_row_def)
  obtain r where db1: "db1 = db\<lparr>retention_runs := retention_runs db @ [r]\<rparr>"
    and "rr_id r = uid" "rr_candidate_count r = int (length (eligible db policy))"
    using run by (auto simp: insert_run_def Let_def result_simps)
  then have cov: "\<exists>r \<in> set (retention_runs db1). rr_id r = do_id (retention_row p uid actor request_id t)
      \<and> int (length ?rows) \<le> rr_candidate_count r"
    by (simp add: retention_row_def)
  note rec = record_operation_inv [OF inv1 allowed rows cov ins]
  have "store_inv db'" using rec(2) lifecycle_invD(1) [OF inv] by (simp add: db1)
  with rec(1) show ?thesis by (simp add: lifecycle_inv_def)
qed

datatype lifecycle_command =
  Store store_command
| BeginObjectDeletion NewObjectDeletion
| FinishDeletion string nat NewAuditEvent
| SetRetention RetentionPolicyRecord NewAuditEvent
| ClearRetention string nat NewAuditEvent
| BeginRetention string string string string nat
| FailRetention string nat

fun lifecycle_exec :: "lifecycle_command \<Rightarrow> database \<Rightarrow> (RepositoryError + unit) \<times> database" where
  "lifecycle_exec (Store c) db = store_exec c db"
| "lifecycle_exec (BeginObjectDeletion d) db = outcome_of (begin_object_deletion db d)"
| "lifecycle_exec (FinishDeletion uid t e) db = outcome_of (finish_deletion db uid t e)"
| "lifecycle_exec (SetRetention p e) db = outcome_of (set_retention db p e)"
| "lifecycle_exec (ClearRetention p t e) db = outcome_of (clear_retention db p t e)"
| "lifecycle_exec (BeginRetention p uid a r t) db = outcome_of (begin_retention db p uid a r t)"
| "lifecycle_exec (FailRetention uid t) db = fail_retention db uid t"

lemma lifecycle_failed_unchanged:
  "begin_object_deletion db d = (Err e, db') \<Longrightarrow> db' = db"
  "finish_deletion db uid t ev = (Err e, db') \<Longrightarrow> db' = db"
  "set_retention db policy ev = (Err e, db') \<Longrightarrow> db' = db"
  "clear_retention db p t ev = (Err e, db') \<Longrightarrow> db' = db"
  "begin_retention db p uid actor request_id t = (Err e, db') \<Longrightarrow> db' = db"
  unfolding begin_object_deletion_def finish_deletion_def set_retention_def clear_retention_def begin_retention_def
  by (auto dest!: after_Err_D write_transaction_Err_D)

lemmas lifecycle_op_inv =
  begin_object_deletion_inv finish_deletion_inv set_retention_inv clear_retention_inv begin_retention_inv

interpretation lifecycle: transactional_service lifecycle_exec "\<lambda>r. \<not> is_ok r" lifecycle_inv
proof unfold_locales
  fix db c r db'
  assume inv: "lifecycle_inv db" and run: "lifecycle_exec c db = (r, db')" and bad: "\<not> is_ok r"
  then show "db' = db"
    by (cases c) (auto dest!: outcome_of_Err dest: lifecycle_failed_unchanged fail_retention_D
        store.failed_unchanged [OF lifecycle_invD(1)])
next
  fix db c r db'
  assume inv: "lifecycle_inv db" and run: "lifecycle_exec c db = (r, db')" and ok: "\<not> \<not> is_ok r"
  show "lifecycle_inv db'"
  proof (cases c)
    case (Store sc)
    with run have run: "store_exec sc db = (r, db')" by simp
    have "store_inv db'" by (rule store.inv_step [OF lifecycle_invD(1) [OF inv] run])
    moreover have "deletions_inv db'"
      using deletions_inv_cong [OF store_exec_tables [OF lifecycle_invD(1) [OF inv] run]] lifecycle_invD(2) [OF inv]
      by simp
    ultimately show ?thesis by (simp add: lifecycle_inv_def)
  next
    case (FailRetention uid t)
    with run have "fail_retention db uid t = (r, db')" by simp
    from fail_retention_D [OF this inv] ok show ?thesis by simp
  qed (use run ok in \<open>auto dest!: outcome_of_Ok dest: lifecycle_op_inv [OF inv]\<close>)
qed

section \<open>Samples\<close>

definition sample_deletion :: NewObjectDeletion where
  "sample_deletion = \<lparr>nod_id = ''d1'', nod_target = \<lparr>odt_project_id = ''p'', odt_object_path = ''a.txt'',
     odt_version = Some 1\<rparr>, nod_actor = ''a'', nod_request_id = ''r'', nod_created_at_ms = 40\<rparr>"

definition sample_lifecycle_event :: "string \<Rightarrow> string \<Rightarrow> NewAuditEvent" where
  "sample_lifecycle_event uid action = \<lparr>nae_id = uid, nae_workspace_id = ''w'', nae_actor = ''a'',
     nae_action = action, nae_request_id = ''r'', nae_target_type = ''object'',
     nae_metadata = [], nae_created_at_ms = 50\<rparr>"

lemma sample_store_lifecycle: "lifecycle_inv sample_store"
proof -
  have "deletion_tables sample_store = (projects sample_store, [], [], [], [])" by code_simp
  then have "deletions_inv sample_store" by (simp add: deletion_tables_def deletions_inv_def)
  with sample_store_inv show ?thesis by (simp add: lifecycle_inv_def)
qed

definition sample_planned :: database where
  "sample_planned = snd (begin_object_deletion sample_store sample_deletion)"

lemma sample_planned_rows [code]:
  "sample_planned = sample_db\<lparr>
     object_versions := [\<lparr>ov_id = ''u1'', ov_project_id = ''p'', ov_object_path = ''a.txt'',
          ov_version = 1, ov_storage_key = ''objects/u1'', ov_state = ''complete'', ov_size = Some 3,
          ov_checksum = Some (sample_hash CHR ''a''), ov_created_at_ms = 10, ov_source = ''cli'',
          ov_git_repository = None, ov_git_commit = None, ov_git_branch = None\<rparr>,
        \<lparr>ov_id = ''u2'', ov_project_id = ''p'', ov_object_path = ''a.txt'', ov_version = 2,
          ov_storage_key = ''objects/u2'', ov_state = ''pending'', ov_size = None,
          ov_checksum = None, ov_created_at_ms = 10, ov_source = ''cli'', ov_git_repository = None,
          ov_git_commit = None, ov_git_branch = None\<rparr>],
     upload_reservations := [\<lparr>ur_id = ''u1'', ur_version_id = ''u1'', ur_filename = ''a.txt'',
          ur_content_type = ''text/plain'', ur_expected_size = 3,
          ur_expected_checksum = sample_hash CHR ''a'', ur_capability_hash = sample_hash CHR ''1'',
          ur_expires_at_ms = 100, ur_state = ''complete'', ur_received_size = Some 3,
          ur_received_checksum = Some (sample_hash CHR ''a''), ur_strategy = ''single'',
          ur_part_size = None, ur_part_count = None, ur_provider_upload_id = None\<rparr>,
        \<lparr>ur_id = ''u2'', ur_version_id = ''u2'', ur_filename = ''a.txt'',
          ur_content_type = ''text/plain'', ur_expected_size = 10,
          ur_expected_checksum = sample_hash CHR ''a'', ur_capability_hash = sample_hash CHR ''2'',
          ur_expires_at_ms = 100, ur_state = ''requested'', ur_received_size = None,
          ur_received_checksum = None, ur_strategy = ''multipart'', ur_part_size = Some 4,
          ur_part_count = Some 3, ur_provider_upload_id = None\<rparr>],
     deletion_operations := [\<lparr>do_id = ''d1'', do_project_id = ''p'',
          do_object_path = ''a.txt'', do_selected_version = Some 1, do_reason = ''object_delete'',
          do_status = ''pending'', do_actor = ''a'', do_request_id = ''r'', do_created_at_ms = 40,
          do_completed_at_ms = None\<rparr>],
     deletion_items := [\<lparr>di_operation_id = ''d1'', di_version_id = ''u1'',
          di_storage_key = ''objects/u1'', di_version = 1\<rparr>],
     audit_events := [\<lparr>ae_sequence = 1, ae_id = ''e1'', ae_workspace_id = ''w'',
          ae_actor = ''a'', ae_action = ''share.created'', ae_request_id = ''r'',
          ae_target_type = ''share'', ae_metadata = [(''shareId'', JsonString ''s1'')],
          ae_created_at_ms = 20\<rparr>],
     audit_sequence := 1,
     shares := [\<lparr>sh_id = ''s1'', sh_workspace_id = ''w'', sh_version_id = Some ''u1'',
          sh_capability_hash = sample_hash CHR ''5'', sh_expires_at_ms = 90, sh_status = ''active'',
          sh_consumed_count = 0, sh_maximum_downloads = Some 1, sh_created_at_ms = 20,
          sh_revoked_at_ms = None\<rparr>]\<rparr>"
  by code_simp

lemma sample_planned_inv: "lifecycle_inv sample_planned"
  using lifecycle.inv_step [OF sample_store_lifecycle, of "BeginObjectDeletion sample_deletion"]
  by (simp add: sample_planned_def outcome_of_def prod.case_eq_if)

section \<open>Finishing refines forgetting\<close>

lemma finish_complete_again:
  assumes inv: "lifecycle_inv db" and op: "operation \<in> set (deletion_operations db)" "do_status operation = ''complete''"
    and "validate_text (do_id operation) = Ok ()" and "t \<le> i64_max"
  shows "finish_deletion db (do_id operation) t ev = (Ok (), db)"
  using assms(4,5) op(2) operation_by_id_row [OF lifecycle_invD(2) [OF inv] op(1)]
  by (simp add: finish_deletion_def finish_transaction_def after_def to_i64_def write_transaction_def)

text \<open>C25. Finishing a pending deletion is the abstract update \<open>purge\<close> of the versions it planned and,
  for an object deletion, of the aborted versions of its target: versions, reservations, parts,
  inbox links, download grants and shares are exactly those of the purged store. The operation is
  complete afterwards, one event is logged, the invariant holds, and finishing again changes nothing.\<close>

theorem finish_deletion_refines_purge:
  assumes inv: "lifecycle_inv db" and op: "operation \<in> set (deletion_operations db)"
    and pending: "do_status operation = ''pending''"
    and ok: "finish_deletion db (do_id operation) t ev = (Ok (), db')" and t': "t' \<le> i64_max"
  shows "(object_versions db', upload_reservations db', upload_parts db', inbox_uploads db', download_grants db', shares db')
      = (let s = purge (doomed_ids db operation) db
         in (object_versions s, upload_reservations s, upload_parts s, inbox_uploads s, download_grants s, shares s))
    \<and> deletion_operations db' = map (\<lambda>r. if r = operation then finished_operation (int t) r else r) (deletion_operations db)
    \<and> length (audit_events db') = Suc (length (audit_events db))
    \<and> lifecycle_inv db'
    \<and> finish_deletion db' (do_id operation) t' ev' = (Ok (), db')"
proof -
  have ev: "audit_insert (finished operation (int t) db) ev = Ok db'" and text_ok: "validate_text (do_id operation) = Ok ()"
    using ok finish_transaction_eq [OF inv op pending, of "int t" ev]
    by (auto simp: finish_deletion_def outcome_iffs result_simps)
  have inv': "lifecycle_inv db'" by (rule finish_deletion_inv [OF inv ok])
  obtain e where db': "db' = (finished operation (int t) db)
      \<lparr>audit_events := audit_events (finished operation (int t) db) @ [e],
       audit_sequence := audit_sequence (finished operation (int t) db) + 1\<rparr>"
    by (rule audit_insert_Ok_D [OF ev])
  have ops: "deletion_operations db' = map (\<lambda>r. if r = operation then finished_operation (int t) r else r) (deletion_operations db)"
    by (simp add: db' finished_def)
  have "finished_operation (int t) operation \<in> set (deletion_operations db')" using op by (force simp: ops)
  from finish_complete_again [OF inv' this] text_ok t'
  have "finish_deletion db' (do_id operation) t' ev' = (Ok (), db')" by simp
  then show ?thesis using inv' ops by (simp add: db' finished_def Let_def)
qed

theorem finish_deletion_refines_purge_witness:
  "\<exists>operation db'. finish_deletion sample_planned (do_id operation) 50 (sample_lifecycle_event ''e9'' ''object.deleted'') = (Ok (), db')
     \<and> object_versions db' = object_versions (purge (doomed_ids sample_planned operation) sample_planned)
     \<and> finish_deletion db' (do_id operation) 60 (sample_lifecycle_event ''e9'' ''object.deleted'') = (Ok (), db')"
proof -
  let ?op = "deletion_row sample_deletion"
  have "deletion_operations sample_planned = [?op]" by code_simp
  then have op: "?op \<in> set (deletion_operations sample_planned)" by simp
  have pending: "do_status ?op = ''pending''" by (simp add: deletion_row_def)
  let ?run = "finish_deletion sample_planned (do_id ?op) 50 (sample_lifecycle_event ''e9'' ''object.deleted'')"
  have "is_ok (fst ?run)" by code_simp
  then have run: "?run = (Ok (), snd ?run)" by (cases ?run) (auto simp: is_ok_iff)
  have "60 \<le> i64_max" by (simp add: i64_max_def)
  from finish_deletion_refines_purge [OF sample_planned_inv op pending run this,
      of "sample_lifecycle_event ''e9'' ''object.deleted''"] run
  show ?thesis by (intro exI [of _ ?op] exI [of _ "snd ?run"]) (simp add: Let_def)
qed

section \<open>Deleting an object\<close>

lemma audit_insert_possible:
  assumes "audit_insert db ev = Ok x" and "audit_events db1 = audit_events db"
    and "audit_sequence db1 = audit_sequence db" and "workspaces db1 = workspaces db"
  shows "\<exists>y. audit_insert db1 ev = Ok y"
  using assms by (auto simp: audit_insert_def result_simps Let_def audit_event_allowed_def split: if_split_asm)

lemma deletion_plan_D:
  assumes inv: "deletions_inv db" and plan: "deletion_plan db uid = Ok plan"
  obtains operation where "operation \<in> set (deletion_operations db)" and "do_id operation = uid"
    and "dpl_id plan = uid" and "dpl_complete plan \<longleftrightarrow> do_status operation = ''complete''"
    and "(\<lambda>i. (dit_version_id i, dit_storage_key i, int (dit_version i))) ` set (dpl_items plan)
      = (\<lambda>i. (di_version_id i, di_storage_key i, di_version i)) ` set (items_of db uid)"
proof -
  obtain operation items where "query_row (\<lambda>r. do_id r = uid) Ok (deletion_operations db) = Ok operation"
    and items: "collect_results item_row (operation_items db uid) = Ok items"
    and p: "plan = \<lparr>dpl_id = uid, dpl_items = items, dpl_complete = (do_status operation = ''complete''),
           dpl_actor = do_actor operation, dpl_request_id = do_request_id operation\<rparr>"
    using plan by (auto simp: deletion_plan_def result_simps)
  then have op: "operation \<in> set (deletion_operations db)" "do_id operation = uid"
    by (auto dest!: query_row_Ok_D)
  have "list_all2 (\<lambda>r i. item_row r = Ok i) (operation_items db uid) items"
    using items by (simp add: collect_results_Ok_iff)
  then have "map (\<lambda>i. (dit_version_id i, dit_storage_key i, int (dit_version i))) items
      = map (\<lambda>i. (di_version_id i, di_storage_key i, di_version i)) (operation_items db uid)"
    by (induction rule: list_all2_induct) (auto simp: item_row_def result_simps)
  from arg_cong [OF this, of set]
  have "(\<lambda>i. (dit_version_id i, dit_storage_key i, int (dit_version i))) ` set items
      = (\<lambda>i. (di_version_id i, di_storage_key i, di_version i)) ` set (operation_items db uid)"
    by simp
  moreover have "set (operation_items db uid) = set (items_of db uid)"
    by (simp add: operation_items_def items_of_def)
  ultimately show thesis using that op by (simp add: p)
qed

lemma completed_deletion_D:
  assumes "completed_deletion db d selected = Some uid"
  shows "\<exists>operation \<in> set (deletion_operations db). do_id operation = uid
    \<and> targets_operation d selected ''complete'' operation"
proof -
  obtain rest operation where ops: "rev (sort_key (\<lambda>operation. (do_completed_at_ms operation, do_id operation))
       (filter (targets_operation d selected ''complete'') (deletion_operations db))) = operation # rest"
    and uid: "do_id operation = uid"
    using assms by (auto simp: completed_deletion_def split: list.split_asm)
  from arg_cong [OF ops, of set] have "operation \<in> set (deletion_operations db)"
    "targets_operation d selected ''complete'' operation" by auto
  with uid show ?thesis by blast
qed

text \<open>A fresh object deletion: what it records and what finishing it will remove.\<close>

lemma begin_object_deletion_fresh:
  assumes inv: "lifecycle_inv db" and ok: "begin_object_deletion db d = (Ok plan, db1)"
    and fresh: "pending_deletion db d (map_option int (odt_version (nod_target d))) = None"
    and incomplete: "\<not> dpl_complete plan"
  shows "db1 = db\<lparr>deletion_operations := deletion_operations db @ [deletion_row d],
      deletion_items := deletion_items db @ target_items db d\<rparr>"
    and "\<And>v. v \<in> set (object_versions db) \<Longrightarrow> in_target d v \<Longrightarrow> ov_state v \<noteq> ''pending''"
    and "deletion_plan db1 (nod_id d) = Ok plan" and "validate_text (nod_id d) = Ok ()"
    and "items_of db1 (nod_id d) = target_items db d"
proof -
  let ?sel = "map_option int (odt_version (nod_target d))"
  have False if plan: "deletion_plan db uid = Ok plan" and comp: "completed_deletion db d ?sel = Some uid" for uid
  proof -
    from completed_deletion_D [OF comp] obtain operation where "operation \<in> set (deletion_operations db)"
      "do_status operation = ''complete''" and uid: "do_id operation = uid"
      by (auto simp: targets_operation_def)
    moreover obtain other where "other \<in> set (deletion_operations db)" "do_id other = uid"
      "dpl_complete plan \<longleftrightarrow> do_status other = ''complete''"
      by (rule deletion_plan_D [OF lifecycle_invD(2) [OF inv] plan])
    moreover have "distinct (map do_id (deletion_operations db))"
      using lifecycle_invD(2) [OF inv] by (simp add: deletions_inv_def)
    ultimately show False using uid incomplete distinct_map_eq by metis
  qed
  with begin_object_deletion_D [OF ok] fresh
  have allowed: "deletion_operation_allowed db (deletion_row d)"
    and ins: "insert_items (target_items db d)
      (db\<lparr>deletion_operations := deletion_operations db @ [deletion_row d]\<rparr>) = Ok db1"
    and rest: "deletion_plan db1 (nod_id d) = Ok plan" "validate_text (nod_id d) = Ok ()"
      "\<And>v. v \<in> set (object_versions db) \<Longrightarrow> in_target d v \<Longrightarrow> ov_state v \<noteq> ''pending''"
    by (metis option.distinct(1))+
  show db1: "db1 = db\<lparr>deletion_operations := deletion_operations db @ [deletion_row d],
      deletion_items := deletion_items db @ target_items db d\<rparr>"
    using insert_items_D [OF ins] by simp
  show "deletion_plan db1 (nod_id d) = Ok plan" "validate_text (nod_id d) = Ok ()" by (fact rest)+
  show "ov_state v \<noteq> ''pending''" if "v \<in> set (object_versions db)" "in_target d v" for v
    by (rule rest(3) [OF that])
  have "nod_id d \<notin> do_id ` set (deletion_operations db)"
    using allowed by (auto simp: deletion_operation_allowed_def list_ex_iff deletion_row_def)
  then have "filter (\<lambda>i. di_operation_id i = nod_id d) (deletion_items db) = []"
    using lifecycle_invD(2) [OF inv] unfolding deletions_inv_def filter_empty_conv by (metis image_eqI)
  then show "items_of db1 (nod_id d) = target_items db d"
    by (simp add: items_of_def db1 target_items_def version_item_def)
qed

lemma fresh_doomed_ids:
  assumes inv: "lifecycle_inv db" and items: "items_of db1 (nod_id d) = target_items db d"
    and same: "object_versions db1 = object_versions db"
    and settled: "\<And>v. v \<in> set (object_versions db) \<Longrightarrow> in_target d v \<Longrightarrow> ov_state v \<noteq> ''pending''"
    and v: "v \<in> set (object_versions db)"
  shows "ov_id v \<in> doomed_ids db1 (deletion_row d) \<longleftrightarrow> in_target d v"
proof -
  have vs: "versions_ok db" by (rule transfer_invD(1) [OF store_invD(1) [OF lifecycle_invD(1) [OF inv]]])
  have "planned_ids db1 (nod_id d) = di_version_id ` set (items_of db1 (nod_id d))"
    by (simp add: planned_ids_def items_of_def)
  also have "\<dots> = ov_id ` {v \<in> set (object_versions db). in_target d v \<and> ov_state v = ''complete''}"
    unfolding items target_items_def by (auto simp: version_item_def image_image)
  finally have planned: "planned_ids db1 (nod_id d)
      = ov_id ` {v \<in> set (object_versions db). in_target d v \<and> ov_state v = ''complete''}" .
  have "aborted_target (deletion_row d) w \<longleftrightarrow> in_target d w \<and> ov_state w = ''aborted''" for w
    by (simp add: aborted_target_def in_target_def deletion_row_def)
  then have "doomed_ids db1 (deletion_row d)
      = ov_id ` {v \<in> set (object_versions db). in_target d v \<and> ov_state v \<in> {''complete'', ''aborted''}}"
    unfolding doomed_ids_def by (auto simp: planned same deletion_row_def)
  moreover have "ov_state v \<in> {''complete'', ''aborted''}" if "in_target d v"
    using settled [OF v that] vs v by (auto simp: versions_ok_def object_version_check_def)
  ultimately show ?thesis using version_unique [OF vs v] v by auto
qed

text \<open>Deleting an object works: once a fresh deletion of an object (or of one of its versions) is
  planned, the plan names exactly the stored bytes of the target's complete versions, and
  finishing it with the matching event succeeds and leaves exactly the versions outside the target.\<close>

theorem object_deletion_removes_target:
  assumes inv: "lifecycle_inv db" and ok: "begin_object_deletion db d = (Ok plan, db1)"
    and fresh: "pending_deletion db d (map_option int (odt_version (nod_target d))) = None"
    and incomplete: "\<not> dpl_complete plan"
    and event: "nae_actor ev = nod_actor d" "nae_request_id ev = nod_request_id d" "nae_action ev = ''object.deleted''"
      "project_workspace db (odt_project_id (nod_target d)) = Ok (nae_workspace_id ev)"
      "audit_insert db ev = Ok logged" and t: "t \<le> i64_max"
  shows "dit_storage_key ` set (dpl_items plan)
      = ov_storage_key ` {v \<in> set (object_versions db). in_target d v \<and> ov_state v = ''complete''}
    \<and> object_versions db1 = object_versions db
    \<and> (\<exists>db2. finish_deletion db1 (dpl_id plan) t ev = (Ok (), db2)
         \<and> object_versions db2 = filter (\<lambda>v. \<not> in_target d v) (object_versions db))"
proof -
  note new = begin_object_deletion_fresh [OF inv ok fresh incomplete]
  have inv1: "lifecycle_inv db1" by (rule begin_object_deletion_inv [OF inv ok])
  have op: "deletion_row d \<in> set (deletion_operations db1)" by (simp add: new(1))
  have st: "do_status (deletion_row d) = ''pending''" and uid: "do_id (deletion_row d) = nod_id d"
    by (simp_all add: deletion_row_def)
  obtain operation where "operation \<in> set (deletion_operations db1)" and pid: "dpl_id plan = nod_id d"
    and items: "(\<lambda>i. (dit_version_id i, dit_storage_key i, int (dit_version i))) ` set (dpl_items plan)
      = (\<lambda>i. (di_version_id i, di_storage_key i, di_version i)) ` set (items_of db1 (nod_id d))"
    by (rule deletion_plan_D [OF lifecycle_invD(2) [OF inv1] new(3)])
  from arg_cong [OF items, of "image (\<lambda>p. fst (snd p))"]
  have "dit_storage_key ` set (dpl_items plan) = di_storage_key ` set (target_items db d)"
    by (simp add: image_image new(5))
  also have "\<dots> = ov_storage_key ` {v \<in> set (object_versions db). in_target d v \<and> ov_state v = ''complete''}"
    unfolding target_items_def by (auto simp: version_item_def image_image)
  finally have keys: "dit_storage_key ` set (dpl_items plan)
      = ov_storage_key ` {v \<in> set (object_versions db). in_target d v \<and> ov_state v = ''complete''}" .
  define done1 where "done1 = finished (deletion_row d) (int t) db1"
  have "validate_operation_event db1 (deletion_row d) ev = Ok ()"
    using event by (simp add: validate_operation_event_def project_workspace_def new(1) deletion_row_def operation_action_def)
  moreover have "\<exists>db2. audit_insert done1 ev = Ok db2"
    by (rule audit_insert_possible [OF event(5)]) (simp_all add: done1_def finished_def new(1))
  then obtain db2 where ev2: "audit_insert done1 ev = Ok db2" by blast
  ultimately have "finish_deletion db1 (dpl_id plan) t ev = (Ok (), db2)"
    using finish_transaction_eq [OF inv1 op st, of "int t" ev] new(4) t
    by (simp add: finish_deletion_def pid uid after_def to_i64_def write_transaction_def done1_def)
  moreover have "object_versions db2 = object_versions done1" by (rule audit_insert_Ok_D [OF ev2]) simp
  moreover have "object_versions done1 = filter (\<lambda>v. \<not> in_target d v) (object_versions db)"
  proof -
    have same: "object_versions db1 = object_versions db" by (simp add: new(1))
    have "filter (\<lambda>v. ov_id v \<notin> doomed_ids db1 (deletion_row d)) (object_versions db)
        = filter (\<lambda>v. \<not> in_target d v) (object_versions db)"
      by (rule filter_cong) (use fresh_doomed_ids [OF inv new(5) same new(2)] in simp_all)
    then show ?thesis by (simp add: done1_def finished_def same)
  qed
  ultimately show ?thesis using keys new(1) by auto
qed

theorem object_deletion_removes_target_witness:
  "\<exists>plan db1 db2. begin_object_deletion sample_store sample_deletion = (Ok plan, db1)
     \<and> dit_storage_key ` set (dpl_items plan) = {''objects/u1''}
     \<and> finish_deletion db1 (dpl_id plan) 50 (sample_lifecycle_event ''e9'' ''object.deleted'') = (Ok (), db2)
     \<and> map ov_id (object_versions db2) = [''u2'']"
proof -
  let ?run = "begin_object_deletion sample_store sample_deletion"
  let ?ev = "sample_lifecycle_event ''e9'' ''object.deleted''"
  have "is_ok (fst ?run)" by code_simp
  then obtain plan db1 where run: "?run = (Ok plan, db1)" by (metis is_ok_iff prod.collapse)
  have "pending_deletion sample_store sample_deletion (map_option int (odt_version (nod_target sample_deletion))) = None"
    by code_simp
  moreover have "(case fst ?run of Inr p \<Rightarrow> \<not> dpl_complete p | Inl e \<Rightarrow> False)" by code_simp
  then have "\<not> dpl_complete plan" by (simp add: run)
  moreover have "project_workspace sample_store (odt_project_id (nod_target sample_deletion)) = Ok (nae_workspace_id ?ev)"
    by code_simp
  moreover have "is_ok (audit_insert sample_store ?ev)" by code_simp
  then obtain logged where "audit_insert sample_store ?ev = Ok logged" by (auto simp: is_ok_iff)
  moreover have "50 \<le> i64_max" by (simp add: i64_max_def)
  ultimately obtain db2 where res: "dit_storage_key ` set (dpl_items plan) = ov_storage_key `
        {v \<in> set (object_versions sample_store). in_target sample_deletion v \<and> ov_state v = ''complete''}"
      "finish_deletion db1 (dpl_id plan) 50 ?ev = (Ok (), db2)"
      "object_versions db2 = filter (\<lambda>v. \<not> in_target sample_deletion v) (object_versions sample_store)"
    using object_deletion_removes_target [OF sample_store_lifecycle run, of ?ev logged 50]
    by (auto simp: sample_lifecycle_event_def sample_deletion_def)
  have "map ov_storage_key (filter (\<lambda>v. in_target sample_deletion v \<and> ov_state v = ''complete'') (object_versions sample_store))
      = [''objects/u1'']" by code_simp
  from arg_cong [OF this, of set]
  have "ov_storage_key ` {v \<in> set (object_versions sample_store). in_target sample_deletion v \<and> ov_state v = ''complete''}
      = {''objects/u1''}" by simp
  moreover have "map ov_id (filter (\<lambda>v. \<not> in_target sample_deletion v) (object_versions sample_store)) = [''u2'']"
    by code_simp
  ultimately show ?thesis using run res by auto
qed

section \<open>Deleted version numbers\<close>

text \<open>No command forgets a deletion item or moves a deletion operation to another path.\<close>

definition recorded :: "database \<Rightarrow> database \<Rightarrow> bool" where
  "recorded db db' \<longleftrightarrow>
     set (deletion_items db) \<subseteq> set (deletion_items db')
     \<and> (\<lambda>r. (do_id r, do_project_id r, do_object_path r)) ` set (deletion_operations db)
         \<subseteq> (\<lambda>r. (do_id r, do_project_id r, do_object_path r)) ` set (deletion_operations db')"

lemma recorded_refl: "recorded db db"
  by (simp add: recorded_def)

lemma recorded_trans: "recorded db db1 \<Longrightarrow> recorded db1 db2 \<Longrightarrow> recorded db db2"
  unfolding recorded_def by (elim conjE, intro conjI) (erule subset_trans, assumption)+

lemma recorded_same: "deletion_operations db' = deletion_operations db \<Longrightarrow> deletion_items db' = deletion_items db \<Longrightarrow> recorded db db'"
  by (simp add: recorded_def)

lemma recorded_tables: "deletion_tables db' = deletion_tables db \<Longrightarrow> recorded db db'"
  by (simp add: recorded_same deletion_tables_def)

lemma recorded_insert_items:
  "insert_items rows (db\<lparr>deletion_operations := deletion_operations db @ [r]\<rparr>) = Ok db' \<Longrightarrow> recorded db db'"
  by (drule insert_items_D) (auto simp: recorded_def)

lemma recorded_begin_object_deletion: "begin_object_deletion db d = (Ok plan, db') \<Longrightarrow> recorded db db'"
  by (erule begin_object_deletion_D) (simp_all add: recorded_refl recorded_insert_items)

lemma recorded_finish_deletion:
  assumes "lifecycle_inv db" and "finish_deletion db uid t ev = (Ok u, db')"
  shows "recorded db db'"
  using assms
proof (rule finish_deletion_D)
  fix operation
  assume ev: "audit_insert (finished operation (int t) db) ev = Ok db'"
  have "map (\<lambda>r. (do_id r, do_project_id r, do_object_path r)) (deletion_operations (finished operation (int t) db))
      = map (\<lambda>r. (do_id r, do_project_id r, do_object_path r)) (deletion_operations db)"
    by (simp add: finished_def)
  from arg_cong [OF this, of set] have "recorded db (finished operation (int t) db)"
    by (simp add: recorded_def) (simp add: finished_def)
  then show ?thesis using recorded_tables [OF audit_insert_tables [OF ev]] recorded_trans by blast
qed (simp add: recorded_refl)

lemma recorded_set_retention: "set_retention db policy ev = (Ok u, db') \<Longrightarrow> recorded db db'"
proof -
  assume "set_retention db policy ev = (Ok u, db')"
  then obtain created updated db1 where up: "upsert_policy policy created updated db = Ok db1"
    and ev: "audit_insert db1 ev = Ok db'"
    by (auto simp: set_retention_def set_retention_in_def outcome_iffs result_simps)
  have "recorded db db1"
    using up by (auto simp: upsert_policy_def Let_def result_simps intro: recorded_same split: if_split_asm)
  then show ?thesis using recorded_tables [OF audit_insert_tables [OF ev]] recorded_trans by blast
qed

lemma recorded_clear_retention: "clear_retention db p t ev = (Ok b, db') \<Longrightarrow> recorded db db'"
proof -
  assume "clear_retention db p t ev = (Ok b, db')"
  then obtain rows where "db' = db\<lparr>retention_policies := rows\<rparr> \<or> audit_insert (db\<lparr>retention_policies := rows\<rparr>) ev = Ok db'"
    unfolding clear_retention_def clear_retention_in_def
    by (auto simp: outcome_iffs result_simps Let_def split: if_split_asm)
  moreover have "recorded db (db\<lparr>retention_policies := rows\<rparr>)" by (rule recorded_same) simp_all
  ultimately show ?thesis using recorded_tables [OF audit_insert_tables] recorded_trans by blast
qed

lemma recorded_begin_retention: "begin_retention db p uid a r t = (Ok plan, db') \<Longrightarrow> recorded db db'"
proof (erule begin_retention_D)
  fix existing
  assume "resume_run db existing = Ok db'"
  then show ?thesis by (auto simp: resume_run_def result_simps intro: recorded_same)
next
  fix policy db1
  assume run: "insert_run db uid p (int (length (eligible db policy))) (int t) = Ok db1"
    and ins: "insert_items (map (version_item uid) (drop (rpr_keep_latest policy) (eligible db policy)))
      (db1\<lparr>deletion_operations := deletion_operations db1 @ [retention_row p uid a r t]\<rparr>) = Ok db'"
  have "recorded db db1" using run by (auto simp: insert_run_def Let_def result_simps intro: recorded_same)
  then show ?thesis using recorded_insert_items [OF ins] recorded_trans by blast
qed

lemma recorded_fail_retention: "fail_retention db uid t = (r, db') \<Longrightarrow> recorded db db'"
  by (auto simp: fail_retention_def intro: recorded_same recorded_refl split: sum.split_asm prod.split_asm)

lemmas recorded_steps =
  recorded_begin_object_deletion recorded_finish_deletion recorded_set_retention recorded_clear_retention
  recorded_begin_retention recorded_fail_retention

lemma lifecycle_exec_recorded:
  assumes inv: "lifecycle_inv db" and run: "lifecycle_exec c db = (r, db')"
  shows "recorded db db'"
proof (cases "is_ok r")
  case False
  then show ?thesis using lifecycle.failed_unchanged [OF inv run] recorded_refl by simp
next
  case True
  show ?thesis
  proof (cases c)
    case (Store sc)
    with run store_exec_tables [OF lifecycle_invD(1) [OF inv]] show ?thesis by (simp add: recorded_tables)
  next
    case (FailRetention uid t)
    with run show ?thesis by (simp add: recorded_fail_retention)
  qed (use run True inv in \<open>auto dest!: outcome_of_Ok dest: recorded_steps\<close>)
qed

lemma lifecycle_run_recorded: "lifecycle_inv db \<Longrightarrow> recorded db (run_commands lifecycle_exec cs db)"
proof (induction cs arbitrary: db)
  case (Cons c cs)
  have step: "lifecycle_exec c db = (fst (lifecycle_exec c db), snd (lifecycle_exec c db))" by simp
  have "recorded db (snd (lifecycle_exec c db))" by (rule lifecycle_exec_recorded [OF Cons.prems step])
  moreover have "lifecycle_inv (snd (lifecycle_exec c db))" by (rule lifecycle.inv_step [OF Cons.prems step])
  ultimately show ?case using Cons.IH recorded_trans by (metis run_commands.simps(2))
qed (simp add: recorded_refl)

lemma recorded_known_version:
  assumes rec: "recorded db db'" and op: "operation \<in> set (deletion_operations db)"
    and i: "i \<in> set (deletion_items db)" "di_operation_id i = do_id operation"
  shows "di_version i \<in> set (known_versions db' (do_project_id operation) (do_object_path operation))"
proof -
  have "(do_id operation, do_project_id operation, do_object_path operation)
      \<in> (\<lambda>r. (do_id r, do_project_id r, do_object_path r)) ` set (deletion_operations db')"
    using rec op by (auto simp: recorded_def)
  then obtain r where "r \<in> set (deletion_operations db')" "do_id r = di_operation_id i"
    "do_project_id r = do_project_id operation" "do_object_path r = do_object_path operation"
    using i(2) by auto
  moreover have "i \<in> set (deletion_items db')" using rec i(1) by (auto simp: recorded_def)
  ultimately show ?thesis by (auto simp: known_versions_def list_ex_iff)
qed

lemma reserved_above_known:
  assumes inv: "transfer_inv db" and ok: "reserve_upload db n = (Ok x, db')"
    and known: "k \<in> set (known_versions db (nur_project_id n) (nur_object_path n))"
  shows "k < int (ovr_version (urr_version x))"
proof -
  obtain val version where nv: "next_version db n = Ok version"
    and db': "db' = db\<lparr>object_versions := object_versions db @ [new_version_row n version (vr_created_at_ms val)],
      upload_reservations := upload_reservations db @ [new_reservation_row n val]\<rparr>"
    and x: "reservation_by_id db' (nur_id n) = Ok x"
    by (rule reserve_upload_Ok_D [OF ok])
  define r where "r = new_reservation_row n val"
  define v where "v = new_version_row n version (vr_created_at_ms val)"
  have "r \<in> set (upload_reservations db')" "v \<in> set (object_versions db')" "ov_id v = ur_version_id r"
    by (simp_all add: db' r_def v_def new_reservation_row_def new_version_row_def)
  from reservation_by_id_row [OF reserve_upload_inv [OF inv ok] this] x
  have "upload_reservation (r, v) = Ok x" by (simp add: r_def new_reservation_row_def)
  then have "version = int (ovr_version (urr_version x))"
    by (simp add: upload_reservation_Ok_iff object_version_Ok_iff v_def new_version_row_def)
  then show ?thesis using next_version_above [OF nv known] by simp
qed

text \<open>The plan of an object deletion belongs to an operation on its target.\<close>

lemma begin_object_deletion_operation:
  assumes inv: "lifecycle_inv db" and ok: "begin_object_deletion db d = (Ok plan, db')"
  obtains operation where "operation \<in> set (deletion_operations db')"
    and "do_project_id operation = odt_project_id (nod_target d)"
    and "do_object_path operation = odt_object_path (nod_target d)"
    and "deletion_plan db' (do_id operation) = Ok plan"
proof (rule begin_object_deletion_D [OF ok])
  fix uid
  let ?sel = "map_option int (odt_version (nod_target d))"
  assume db': "db' = db" and plan: "deletion_plan db uid = Ok plan"
    and which: "pending_deletion db d ?sel = Some uid \<or> completed_deletion db d ?sel = Some uid"
  from which have "\<exists>operation status. operation \<in> set (deletion_operations db) \<and> do_id operation = uid
      \<and> targets_operation d ?sel status operation"
  proof
    assume "pending_deletion db d ?sel = Some uid"
    then obtain operation where "find (targets_operation d ?sel ''pending'') (deletion_operations db) = Some operation"
      "do_id operation = uid" by (auto simp: pending_deletion_def)
    then show ?thesis using find_Some_iff_first by metis
  next
    assume "completed_deletion db d ?sel = Some uid"
    from completed_deletion_D [OF this] show ?thesis by blast
  qed
  then show thesis using that plan by (auto simp: db' targets_operation_def)
next
  assume ins: "insert_items (target_items db d)
      (db\<lparr>deletion_operations := deletion_operations db @ [deletion_row d]\<rparr>) = Ok db'"
    and plan: "deletion_plan db' (nod_id d) = Ok plan"
  show thesis
    by (rule that [of "deletion_row d"]) (use insert_items_D [OF ins] plan in \<open>simp_all add: deletion_row_def\<close>)
qed

text \<open>The version numbers of a deleted object are retired: whatever commands follow the planning of
  an object deletion, a later upload to the same path gets a number above every planned version.\<close>

theorem deleted_numbers_never_reused:
  assumes inv: "lifecycle_inv db" and ok: "begin_object_deletion db d = (Ok plan, db1)"
    and item: "item \<in> set (dpl_items plan)"
    and later: "reserve_upload (run_commands lifecycle_exec cs db1) n = (Ok x, db2)"
    and path: "nur_project_id n = odt_project_id (nod_target d)" "nur_object_path n = odt_object_path (nod_target d)"
  shows "dit_version item < ovr_version (urr_version x)"
proof -
  let ?db = "run_commands lifecycle_exec cs db1"
  have inv1: "lifecycle_inv db1" by (rule begin_object_deletion_inv [OF inv ok])
  obtain operation where op: "operation \<in> set (deletion_operations db1)"
    "do_project_id operation = odt_project_id (nod_target d)" "do_object_path operation = odt_object_path (nod_target d)"
    and plan: "deletion_plan db1 (do_id operation) = Ok plan"
    by (rule begin_object_deletion_operation [OF inv ok])
  obtain other where "other \<in> set (deletion_operations db1)"
    and items: "(\<lambda>i. (dit_version_id i, dit_storage_key i, int (dit_version i))) ` set (dpl_items plan)
      = (\<lambda>i. (di_version_id i, di_storage_key i, di_version i)) ` set (items_of db1 (do_id operation))"
    by (rule deletion_plan_D [OF lifecycle_invD(2) [OF inv1] plan])
  have "(dit_version_id item, dit_storage_key item, int (dit_version item))
      \<in> (\<lambda>i. (di_version_id i, di_storage_key i, di_version i)) ` set (items_of db1 (do_id operation))"
    unfolding items [symmetric] using item by (rule imageI)
  then obtain i where i: "i \<in> set (deletion_items db1)" "di_operation_id i = do_id operation"
    "di_version i = int (dit_version item)" by (auto simp: items_of_def)
  have "di_version i \<in> set (known_versions ?db (do_project_id operation) (do_object_path operation))"
    by (rule recorded_known_version [OF lifecycle_run_recorded [OF inv1] op(1) i(1,2)])
  then have known: "int (dit_version item) \<in> set (known_versions ?db (nur_project_id n) (nur_object_path n))"
    by (simp add: i(3) op(2,3) path)
  have tinv: "transfer_inv ?db"
    by (rule store_invD(1) [OF lifecycle_invD(1) [OF lifecycle.inv_run [OF inv1]]])
  show ?thesis using reserved_above_known [OF tinv later known] by simp
qed

definition sample_again :: NewUploadReservation where
  "sample_again = sample_upload\<lparr>nur_id := ''u7'', nur_storage_key := ''objects/u7'',
     nur_capability_hash := sample_hash CHR ''7''\<rparr>"

theorem deleted_numbers_never_reused_witness:
  "\<exists>plan db1 item x db2. begin_object_deletion sample_store sample_deletion = (Ok plan, db1)
     \<and> item \<in> set (dpl_items plan)
     \<and> reserve_upload (run_commands lifecycle_exec
           [FinishDeletion ''d1'' 50 (sample_lifecycle_event ''e9'' ''object.deleted'')] db1) sample_again = (Ok x, db2)
     \<and> dit_version item < ovr_version (urr_version x)"
proof -
  let ?run = "begin_object_deletion sample_store sample_deletion"
  let ?cs = "[FinishDeletion ''d1'' 50 (sample_lifecycle_event ''e9'' ''object.deleted'')]"
  have "(case fst ?run of Inr p \<Rightarrow> dpl_items p \<noteq> [] | Inl e \<Rightarrow> False)" by code_simp
  then obtain plan db1 where run: "?run = (Ok plan, db1)" and "dpl_items plan \<noteq> []"
    by (cases ?run) (auto split: sum.split_asm)
  then obtain item where item: "item \<in> set (dpl_items plan)" by (cases "dpl_items plan") auto
  let ?again = "reserve_upload (run_commands lifecycle_exec ?cs (snd ?run)) sample_again"
  have "is_ok (fst ?again)" by code_simp
  then obtain x db2 where "?again = (Ok x, db2)" by (metis is_ok_iff prod.collapse)
  then have later: "reserve_upload (run_commands lifecycle_exec ?cs db1) sample_again = (Ok x, db2)" by (simp add: run)
  have path: "nur_project_id sample_again = odt_project_id (nod_target sample_deletion)"
    "nur_object_path sample_again = odt_object_path (nod_target sample_deletion)"
    by (simp_all add: sample_again_def sample_upload_def sample_deletion_def)
  from deleted_numbers_never_reused [OF sample_store_lifecycle run item later path] run item later
  show ?thesis by blast
qed

end
