(* ===== verification/Retention.thy ===== *)
theory Retention
  imports Lifecycle_Histories
begin

text \<open>
  What a retention run removes: exactly the eligible versions that have at least \<^verbatim>\<open>keep_latest\<close>
  newer eligible versions, never a version under a protected path; and what it does to the version
  numbers of the paths it empties.
\<close>

section \<open>The tail of a descending list\<close>

lemma drop_descending_iff:
  assumes "sorted_wrt (\<lambda>x y. key y < (key x :: 'k :: linorder)) xs"
  shows "v \<in> set (drop k xs) \<longleftrightarrow> v \<in> set xs \<and> k \<le> card {w \<in> set xs. key v < key w}"
  using assms
proof (induction xs arbitrary: k)
  case (Cons x xs)
  have below: "key y < key x" if "y \<in> set xs" for y using Cons.prems that by simp
  show ?case
  proof (cases k)
    case 0
    then show ?thesis by simp
  next
    case (Suc j)
    have IH: "v \<in> set (drop j xs) \<longleftrightarrow> v \<in> set xs \<and> j \<le> card {w \<in> set xs. key v < key w}"
      using Cons by simp
    show ?thesis
    proof (cases "v \<in> set xs")
      case True
      have "{w \<in> set (x # xs). key v < key w} = insert x {w \<in> set xs. key v < key w}" using below [OF True] by auto
      moreover have "x \<notin> {w \<in> set xs. key v < key w}" using below by force
      ultimately have "card {w \<in> set (x # xs). key v < key w} = Suc (card {w \<in> set xs. key v < key w})" by simp
      then show ?thesis using IH True Suc by simp
    next
      case False
      then have "v \<notin> set (drop k (x # xs))" using Suc by (auto dest: in_set_dropD)
      moreover have "\<not> k \<le> card {w \<in> set (x # xs). key v < key w}" if "v = x"
      proof -
        have "{w \<in> set (x # xs). key v < key w} = {}" using below that by force
        then have "card {w \<in> set (x # xs). key v < key w} = 0" by (simp only: card.empty)
        with Suc show ?thesis by linarith
      qed
      ultimately show ?thesis using False by (auto simp del: drop_Suc_Cons)
    qed
  qed
qed simp

section \<open>Eligible versions\<close>

definition version_age :: "object_version_row \<Rightarrow> int \<times> string" where
  "version_age v = (ov_created_at_ms v, ov_id v)"

text \<open>A complete version of the project outside the protected paths that the policy matches.\<close>

definition under_policy :: "RetentionPolicyRecord \<Rightarrow> object_version_row \<Rightarrow> bool" where
  "under_policy policy v \<longleftrightarrow>
     ov_project_id v = rpr_project_id policy \<and> ov_state v = ''complete''
     \<and> \<not> protected_path (ov_object_path v)
     \<and> (case rpr_path_glob policy of None \<Rightarrow> True | Some glob \<Rightarrow> glob_matches glob (ov_object_path v))
     \<and> (case rpr_branch_glob policy of
          None \<Rightarrow> True
        | Some glob \<Rightarrow> (case ov_git_branch v of None \<Rightarrow> False | Some branch \<Rightarrow> glob_matches glob branch))"

lemma eligible_set: "set (eligible db policy) = {v \<in> set (object_versions db). under_policy policy v}"
  by (auto simp: eligible_def candidates_of_def under_policy_def policy_matches_def candidate_of_def
      cong: option.case_cong)

lemma eligible_descending:
  assumes "versions_ok db"
  shows "sorted_wrt (\<lambda>x y. version_age y < version_age x) (eligible db policy)"
proof -
  let ?cs = "filter (\<lambda>v. ov_project_id v = rpr_project_id policy \<and> ov_state v = ''complete'') (object_versions db)"
  have "distinct (map ov_id ?cs)" using assms by (simp add: versions_ok_def distinct_map_filter)
  then have "distinct (map version_age ?cs)" by (auto simp: distinct_map inj_on_def version_age_def)
  then have "distinct (map version_age (sort_key version_age ?cs))"
    by (auto simp: distinct_map inj_on_def)
  then have "sorted_wrt (<) (map version_age (sort_key version_age ?cs))"
    by (simp add: strict_sorted_iff)
  then have "sorted_wrt (\<lambda>x y. version_age x < version_age y) (sort_key version_age ?cs)"
    by (simp add: sorted_wrt_map)
  moreover have "version_age = (\<lambda>v. (ov_created_at_ms v, ov_id v))" by (rule ext) (simp add: version_age_def)
  ultimately have "sorted_wrt (\<lambda>x y. version_age y < version_age x) (candidates_of db (rpr_project_id policy))"
    by (simp add: candidates_of_def sorted_wrt_rev)
  then show ?thesis unfolding eligible_def by (rule sorted_wrt_filter)
qed

lemma retention_policy_project: "retention_policy db p = Ok policy \<Longrightarrow> rpr_project_id policy = p"
  by (auto simp: retention_policy_def policy_row_def result_simps dest!: query_row_Ok_D)

lemma begin_retention_items:
  assumes inv: "lifecycle_inv db" and ok: "begin_retention db p uid actor request_id t = (Ok plan, db')"
    and fresh: "pending_operation db p = None" and policy: "retention_policy db p = Ok policy"
  shows "items_of db' uid = map (version_item uid) (drop (rpr_keep_latest policy) (eligible db policy))"
    and "deletion_plan db' uid = Ok plan" and "object_versions db' = object_versions db"
    and "deletion_operations db' = deletion_operations db @ [retention_row p uid actor request_id t]" and "validate_text uid = Ok ()"
    and "audit_events db' = audit_events db" and "audit_sequence db' = audit_sequence db"
    and "workspaces db' = workspaces db" and "projects db' = projects db"
proof -
  let ?rows = "map (version_item uid) (drop (rpr_keep_latest policy) (eligible db policy))"
  obtain db1 where run: "insert_run db uid p (int (length (eligible db policy))) (int t) = Ok db1"
    and allowed: "deletion_operation_allowed db1 (retention_row p uid actor request_id t)"
    and ins: "insert_items ?rows
      (db1\<lparr>deletion_operations := deletion_operations db1 @ [retention_row p uid actor request_id t]\<rparr>) = Ok db'"
    and plan: "deletion_plan db' uid = Ok plan" and text_ok: "validate_text uid = Ok ()"
    by (rule begin_retention_D [OF ok]) (use fresh policy in simp_all)
  obtain r where db1: "db1 = db\<lparr>retention_runs := retention_runs db @ [r]\<rparr>"
    using run by (auto simp: insert_run_def Let_def result_simps)
  have db': "db' = db1\<lparr>deletion_operations := deletion_operations db1 @ [retention_row p uid actor request_id t],
      deletion_items := deletion_items db1 @ ?rows\<rparr>"
    using insert_items_D [OF ins] by simp
  have "uid \<notin> do_id ` set (deletion_operations db)"
    using allowed by (auto simp: deletion_operation_allowed_def list_ex_iff retention_row_def db1)
  then have "filter (\<lambda>i. di_operation_id i = uid) (deletion_items db) = []"
    using lifecycle_invD(2) [OF inv] unfolding deletions_inv_def filter_empty_conv by (metis image_eqI)
  then show "items_of db' uid = ?rows" by (simp add: items_of_def db' db1 version_item_def)
  show "deletion_plan db' uid = Ok plan" and "validate_text uid = Ok ()" by (fact plan, fact text_ok)
  show "object_versions db' = object_versions db" 
    "deletion_operations db' = deletion_operations db @ [retention_row p uid actor request_id t]"
    "audit_events db' = audit_events db" "audit_sequence db' = audit_sequence db"
    "workspaces db' = workspaces db" "projects db' = projects db"
    by (simp_all add: db' db1)
qed

section \<open>What a run removes\<close>

text \<open>At least \<^verbatim>\<open>keep_latest\<close> versions under the policy are newer.\<close>

definition surplus :: "database \<Rightarrow> RetentionPolicyRecord \<Rightarrow> object_version_row \<Rightarrow> bool" where
  "surplus db policy v \<longleftrightarrow>
     under_policy policy v
     \<and> rpr_keep_latest policy \<le> card {w \<in> set (object_versions db). under_policy policy w \<and> version_age v < version_age w}"

lemma eligible_surplus_iff:
  assumes "versions_ok db" and "v \<in> set (object_versions db)"
  shows "v \<in> set (drop (rpr_keep_latest policy) (eligible db policy)) \<longleftrightarrow> surplus db policy v"
proof -
  have "{w \<in> set (eligible db policy). version_age v < version_age w}
      = {w \<in> set (object_versions db). under_policy policy w \<and> version_age v < version_age w}"
    by (auto simp: eligible_set)
  then show ?thesis
    using assms(2) by (simp add: drop_descending_iff [OF eligible_descending [OF assms(1)]] surplus_def)
      (simp add: eligible_set)
qed

lemma retention_finishes:
  assumes inv: "lifecycle_inv db" and ok: "begin_retention db p uid actor request_id t = (Ok plan, db1)"
    and fresh: "pending_operation db p = None" and policy: "retention_policy db p = Ok policy"
    and event: "nae_actor ev = actor" "nae_request_id ev = request_id" "nae_action ev = ''retention.enforced''"
      "project_workspace db p = Ok (nae_workspace_id ev)" "audit_insert db ev = Ok logged" and t': "t' \<le> i64_max"
  obtains db2 where "finish_deletion db1 uid t' ev = (Ok (), db2)"
    and "object_versions db2 = filter (\<lambda>v. \<not> surplus db policy v) (object_versions db)"
    and "\<And>r. r \<in> set (deletion_operations db2) \<Longrightarrow> do_object_path r \<noteq> ''.retention'' \<Longrightarrow>
      r \<in> set (deletion_operations db)"
proof -
  let ?op = "retention_row p uid actor request_id t"
  note new = begin_retention_items [OF inv ok fresh policy]
  have inv1: "lifecycle_inv db1" by (rule begin_retention_inv [OF inv ok])
  have vs: "versions_ok db" by (rule transfer_invD(1) [OF store_invD(1) [OF lifecycle_invD(1) [OF inv]]])
  define done1 where "done1 = finished ?op (int t') db1"
  have op: "?op \<in> set (deletion_operations db1)" by (simp add: new(4))
  have st: "do_status ?op = ''pending''" "do_id ?op = uid" by (simp_all add: retention_row_def)
  have "validate_operation_event db1 ?op ev = Ok ()"
    using event by (simp add: validate_operation_event_def project_workspace_def new(9) retention_row_def operation_action_def)
  moreover have "\<exists>db2. audit_insert done1 ev = Ok db2"
    by (rule audit_insert_possible [OF event(5)]) (simp_all add: done1_def finished_def new(6-8))
  then obtain db2 where ev2: "audit_insert done1 ev = Ok db2" by blast
  ultimately have "finish_deletion db1 uid t' ev = (Ok (), db2)"
    using finish_transaction_eq [OF inv1 op st(1), of "int t'" ev] new(5) t'
    by (simp add: finish_deletion_def st(2) after_def to_i64_def write_transaction_def done1_def)
  moreover have "object_versions db2 = object_versions done1" by (rule audit_insert_Ok_D [OF ev2]) simp
  moreover have "object_versions done1 = filter (\<lambda>v. \<not> surplus db policy v) (object_versions db)"
  proof -
    have "doomed_ids db1 ?op = di_version_id ` set (items_of db1 uid)"
      by (simp add: doomed_ids_def planned_ids_def items_of_def retention_row_def)
    also have "\<dots> = ov_id ` set (drop (rpr_keep_latest policy) (eligible db policy))"
      by (simp add: new(1) version_item_def image_image)
    finally have doomed: "doomed_ids db1 ?op = ov_id ` set (drop (rpr_keep_latest policy) (eligible db policy))" .
    have "ov_id v \<in> doomed_ids db1 ?op \<longleftrightarrow> surplus db policy v" if v: "v \<in> set (object_versions db)" for v
    proof -
      have "set (drop (rpr_keep_latest policy) (eligible db policy)) \<subseteq> set (object_versions db)"
        using set_drop_subset [of "rpr_keep_latest policy" "eligible db policy"] by (auto simp: eligible_set)
      then have "ov_id v \<in> doomed_ids db1 ?op \<longleftrightarrow> v \<in> set (drop (rpr_keep_latest policy) (eligible db policy))"
        unfolding doomed using version_unique [OF vs v] by blast
      then show ?thesis by (simp only: eligible_surplus_iff [OF vs v])
    qed
    then have "filter (\<lambda>v. ov_id v \<notin> doomed_ids db1 ?op) (object_versions db)
        = filter (\<lambda>v. \<not> surplus db policy v) (object_versions db)"
      by (intro filter_cong) simp_all
    then show ?thesis by (simp add: done1_def finished_def new(3))
  qed
  moreover have "r \<in> set (deletion_operations db)"
    if r: "r \<in> set (deletion_operations db2)" "do_object_path r \<noteq> ''.retention''" for r
  proof -
    have "deletion_operations db2 = deletion_operations done1" by (rule audit_insert_Ok_D [OF ev2]) simp
    with r show ?thesis
      by (auto simp: done1_def finished_def new(4) retention_row_def split: if_split_asm)
  qed
  ultimately show thesis using that by auto
qed


text \<open>C26. A retention run removes exactly the surplus: once planned with no other run pending, it can be
  finished with the matching event, and the versions that remain are exactly those that are not
  complete, under a protected path, not matched by the policy, or among the newest
  \<^verbatim>\<open>keep_latest\<close> of the matched ones.\<close>

theorem retention_removes_surplus:
  assumes inv: "lifecycle_inv db" and ok: "begin_retention db p uid actor request_id t = (Ok plan, db1)"
    and fresh: "pending_operation db p = None" and policy: "retention_policy db p = Ok policy"
    and event: "nae_actor ev = actor" "nae_request_id ev = request_id" "nae_action ev = ''retention.enforced''"
      "project_workspace db p = Ok (nae_workspace_id ev)" "audit_insert db ev = Ok logged" and t': "t' \<le> i64_max"
  shows "\<exists>db2. finish_deletion db1 uid t' ev = (Ok (), db2)
    \<and> object_versions db2 = filter (\<lambda>v. \<not> surplus db policy v) (object_versions db)"
  using retention_finishes [OF inv ok fresh policy event t'] by metis

section \<open>A sample run\<close>

definition sample_other :: NewUploadReservation where
  "sample_other = sample_upload\<lparr>nur_id := ''u3'', nur_object_path := ''b.txt'', nur_storage_key := ''objects/u3'',
     nur_capability_hash := sample_hash CHR ''3'', nur_created_at_ms := 30\<rparr>"

definition sample_policy :: RetentionPolicyRecord where
  "sample_policy = \<lparr>rpr_project_id = ''p'', rpr_keep_latest = 1, rpr_path_glob = Some ''*.txt'',
     rpr_branch_glob = None, rpr_created_at_ms = 40, rpr_updated_at_ms = 40\<rparr>"

definition uploads_of :: "NewUploadReservation \<Rightarrow> lifecycle_command list" where
  "uploads_of n = map (\<lambda>c. Store (Transfer c)) [ReserveUpload n,
     RecordUploadedBytes (nur_id n) (nur_expected_size n) (nur_expected_checksum n), CompleteUpload (nur_id n)]"

definition sample_retention :: database where
  "sample_retention = run_commands lifecycle_exec
     (uploads_of sample_upload @ uploads_of sample_other
      @ [SetRetention sample_policy (sample_lifecycle_event ''e1'' ''retention.policy_set'')]) sample_db"

lemma sample_retention_rows [code]:
  "sample_retention = sample_db\<lparr>
     object_versions := [\<lparr>ov_id = ''u1'', ov_project_id = ''p'', ov_object_path = ''a.txt'',
          ov_version = 1, ov_storage_key = ''objects/u1'', ov_state = ''complete'', ov_size = Some 3,
          ov_checksum = Some (sample_hash CHR ''a''), ov_created_at_ms = 10, ov_source = ''cli'',
          ov_git_repository = None, ov_git_commit = None, ov_git_branch = None\<rparr>,
        \<lparr>ov_id = ''u3'', ov_project_id = ''p'', ov_object_path = ''b.txt'', ov_version = 1,
          ov_storage_key = ''objects/u3'', ov_state = ''complete'', ov_size = Some 3,
          ov_checksum = Some (sample_hash CHR ''a''), ov_created_at_ms = 30, ov_source = ''cli'',
          ov_git_repository = None, ov_git_commit = None, ov_git_branch = None\<rparr>],
     upload_reservations := [\<lparr>ur_id = ''u1'', ur_version_id = ''u1'', ur_filename = ''a.txt'',
          ur_content_type = ''text/plain'', ur_expected_size = 3,
          ur_expected_checksum = sample_hash CHR ''a'', ur_capability_hash = sample_hash CHR ''1'',
          ur_expires_at_ms = 100, ur_state = ''complete'', ur_received_size = Some 3,
          ur_received_checksum = Some (sample_hash CHR ''a''), ur_strategy = ''single'',
          ur_part_size = None, ur_part_count = None, ur_provider_upload_id = None\<rparr>,
        \<lparr>ur_id = ''u3'', ur_version_id = ''u3'', ur_filename = ''a.txt'',
          ur_content_type = ''text/plain'', ur_expected_size = 3,
          ur_expected_checksum = sample_hash CHR ''a'', ur_capability_hash = sample_hash CHR ''3'',
          ur_expires_at_ms = 100, ur_state = ''complete'', ur_received_size = Some 3,
          ur_received_checksum = Some (sample_hash CHR ''a''), ur_strategy = ''single'',
          ur_part_size = None, ur_part_count = None, ur_provider_upload_id = None\<rparr>],
     audit_events := [\<lparr>ae_sequence = 1, ae_id = ''e1'', ae_workspace_id = ''w'',
          ae_actor = ''a'', ae_action = ''retention.policy_set'', ae_request_id = ''r'',
          ae_target_type = ''object'', ae_metadata = [], ae_created_at_ms = 50\<rparr>],
     audit_sequence := 1,
     retention_policies := [\<lparr>rp_project_id = ''p'', rp_keep_latest = 1,
          rp_path_glob = Some ''*.txt'', rp_branch_glob = None, rp_enabled = 1,
          rp_created_at_ms = 40, rp_updated_at_ms = 40\<rparr>]\<rparr>"
  by code_simp

lemma sample_retention_inv: "lifecycle_inv sample_retention"
proof -
  have "deletions_inv sample_db" by (simp add: deletions_inv_def sample_db_def empty_database_def)
  moreover have "audit_inv sample_db" by (simp add: audit_inv_def sample_db_def empty_database_def)
  moreover have "share_inv sample_db" by (simp add: share_inv_def sample_db_def empty_database_def)
  ultimately have "lifecycle_inv sample_db" using sample_db_inv by (simp add: lifecycle_inv_def store_inv_def)
  then show ?thesis unfolding sample_retention_def by (rule lifecycle.inv_run)
qed

lemma sample_run_ready:
  "(\<exists>plan db1. begin_retention sample_retention ''p'' ''run'' ''a'' ''r'' 45 = (Ok plan, db1))"
  "pending_operation sample_retention ''p'' = None"
  "retention_policy sample_retention ''p'' = Ok sample_policy"
  "project_workspace sample_retention ''p'' = Ok ''w''"
  "\<exists>logged. audit_insert sample_retention (sample_lifecycle_event ''e2'' ''retention.enforced'') = Ok logged"
  "50 \<le> i64_max"
proof -
  have "is_ok (fst (begin_retention sample_retention ''p'' ''run'' ''a'' ''r'' 45))" by code_simp
  then show "\<exists>plan db1. begin_retention sample_retention ''p'' ''run'' ''a'' ''r'' 45 = (Ok plan, db1)"
    by (metis is_ok_iff prod.collapse)
  have "is_ok (audit_insert sample_retention (sample_lifecycle_event ''e2'' ''retention.enforced''))" by code_simp
  then show "\<exists>logged. audit_insert sample_retention (sample_lifecycle_event ''e2'' ''retention.enforced'') = Ok logged"
    by (auto simp: is_ok_iff)
  show "pending_operation sample_retention ''p'' = None" by code_simp
  show "retention_policy sample_retention ''p'' = Ok sample_policy" by code_simp
  show "project_workspace sample_retention ''p'' = Ok ''w''" by code_simp
  show "50 \<le> i64_max" by (simp add: i64_max_def)
qed

lemma sample_enforcement:
  "nae_actor (sample_lifecycle_event uid action) = ''a''" "nae_request_id (sample_lifecycle_event uid action) = ''r''"
  "nae_action (sample_lifecycle_event uid action) = action" "nae_workspace_id (sample_lifecycle_event uid action) = ''w''"
  by (simp_all add: sample_lifecycle_event_def)

theorem retention_removes_surplus_witness:
  "\<exists>plan db1 db2. begin_retention sample_retention ''p'' ''run'' ''a'' ''r'' 45 = (Ok plan, db1)
     \<and> finish_deletion db1 ''run'' 50 (sample_lifecycle_event ''e2'' ''retention.enforced'') = (Ok (), db2)
     \<and> object_versions db2 = filter (\<lambda>v. \<not> surplus sample_retention sample_policy v) (object_versions sample_retention)"
proof -
  obtain plan db1 where run: "begin_retention sample_retention ''p'' ''run'' ''a'' ''r'' 45 = (Ok plan, db1)"
    using sample_run_ready(1) by blast
  obtain logged where "audit_insert sample_retention (sample_lifecycle_event ''e2'' ''retention.enforced'') = Ok logged"
    using sample_run_ready(5) by blast
  from retention_removes_surplus [OF sample_retention_inv run sample_run_ready(2,3) sample_enforcement(1-3) _ this
      sample_run_ready(6)] sample_run_ready(4) run
  show ?thesis by (auto simp: sample_enforcement)
qed

section \<open>Numbers after a run\<close>

text \<open>C32. Retention does not retire version numbers: when a run removes every version of a path and no
  object deletion of that path is on record, the next upload to it gets version 1 again.\<close>

theorem retention_restarts_numbering:
  assumes inv: "lifecycle_inv db" and ok: "begin_retention db p uid actor request_id t = (Ok plan, db1)"
    and fresh: "pending_operation db p = None" and policy: "retention_policy db p = Ok policy"
    and event: "nae_actor ev = actor" "nae_request_id ev = request_id" "nae_action ev = ''retention.enforced''"
      "project_workspace db p = Ok (nae_workspace_id ev)" "audit_insert db ev = Ok logged" and t': "t' \<le> i64_max"
    and path: "nur_project_id n = p" "nur_object_path n \<noteq> ''.retention''"
    and emptied: "\<forall>v \<in> set (object_versions db). ov_project_id v = p \<and> ov_object_path v = nur_object_path n \<longrightarrow>
      surplus db policy v"
    and unrecorded: "\<forall>r \<in> set (deletion_operations db). do_object_path r \<noteq> nur_object_path n"
  shows "\<exists>db2. finish_deletion db1 uid t' ev = (Ok (), db2) \<and> next_version db2 n = Ok 1"
proof -
  obtain db2 where fin: "finish_deletion db1 uid t' ev = (Ok (), db2)"
    and vs: "object_versions db2 = filter (\<lambda>v. \<not> surplus db policy v) (object_versions db)"
    and ops: "\<And>r. r \<in> set (deletion_operations db2) \<Longrightarrow> do_object_path r \<noteq> ''.retention'' \<Longrightarrow>
      r \<in> set (deletion_operations db)"
    by (rule retention_finishes [OF inv ok fresh policy event t']) blast
  have "\<not> list_ex (\<lambda>operation. do_id operation = k \<and> do_project_id operation = nur_project_id n
      \<and> do_object_path operation = nur_object_path n) (deletion_operations db2)" for k
    using ops unrecorded path(2) by (auto simp: list_ex_iff)
  then have "known_versions db2 (nur_project_id n) (nur_object_path n) = []"
    using emptied path(1) by (auto simp: known_versions_def vs filter_empty_conv)
  then have "next_version db2 n = Ok 1" by (simp add: next_version_def i64_max_def)
  with fin show ?thesis by blast
qed

theorem retention_restarts_numbering_witness:
  "\<exists>plan db1 db2. begin_retention sample_retention ''p'' ''run'' ''a'' ''r'' 45 = (Ok plan, db1)
     \<and> finish_deletion db1 ''run'' 50 (sample_lifecycle_event ''e2'' ''retention.enforced'') = (Ok (), db2)
     \<and> map (\<lambda>v. (ov_object_path v, ov_version v)) (object_versions sample_retention) = [(''a.txt'', 1), (''b.txt'', 1)]
     \<and> nur_object_path sample_again = ''a.txt'' \<and> next_version db2 sample_again = Ok 1"
proof -
  obtain plan db1 where run: "begin_retention sample_retention ''p'' ''run'' ''a'' ''r'' 45 = (Ok plan, db1)"
    using sample_run_ready(1) by blast
  obtain logged where logged: "audit_insert sample_retention (sample_lifecycle_event ''e2'' ''retention.enforced'') = Ok logged"
    using sample_run_ready(5) by blast
  have before: "map (\<lambda>v. (ov_object_path v, ov_version v)) (object_versions sample_retention) = [(''a.txt'', 1), (''b.txt'', 1)]"
    and none: "deletion_operations sample_retention = []"
    and doomed: "list_all (\<lambda>v. ov_object_path v = ''a.txt'' \<longrightarrow>
        v \<in> set (drop (rpr_keep_latest sample_policy) (eligible sample_retention sample_policy))) (object_versions sample_retention)"
    by code_simp+
  have path: "nur_project_id sample_again = ''p''" "nur_object_path sample_again = ''a.txt''"
    by (simp_all add: sample_again_def sample_upload_def)
  have "versions_ok sample_retention"
    by (rule transfer_invD(1) [OF store_invD(1) [OF lifecycle_invD(1) [OF sample_retention_inv]]])
  with doomed have "\<forall>v \<in> set (object_versions sample_retention). ov_project_id v = ''p''
      \<and> ov_object_path v = nur_object_path sample_again \<longrightarrow> surplus sample_retention sample_policy v"
    by (simp add: list_all_iff path eligible_surplus_iff)
  from retention_restarts_numbering [OF sample_retention_inv run sample_run_ready(2,3) sample_enforcement(1-3) _ logged
      sample_run_ready(6) path(1) _ this] sample_run_ready(4) run before
  show ?thesis by (auto simp: sample_enforcement none path)
qed

end
