(* ===== verification/Inboxes.thy ===== *)
theory Inboxes
  imports Retention
begin

text \<open>
  Public upload inboxes: \<^verbatim>\<open>inboxes.rs\<close>, \<^verbatim>\<open>inbox_uploads.rs\<close>, \<^verbatim>\<open>inbox_queries.rs\<close> and
  \<^verbatim>\<open>inbox_rates.rs\<close>. An inbox lets guests upload into one project within a budget of files and
  bytes: reserving an upload takes capacity, completing it turns reserved into used capacity,
  aborting it gives the capacity back. A fixed-window counter limits the requests of a guest.
\<close>

section \<open>Constraints\<close>

definition inbox_check :: "inbox_row \<Rightarrow> bool" where
  "inbox_check r \<longleftrightarrow>
     ib_expires_at_ms r \<ge> 0
     \<and> ib_status r \<in> {''active'', ''revoked''}
     \<and> ib_current_files r \<ge> 0 \<and> ib_current_bytes r \<ge> 0
     \<and> ib_reserved_files r \<ge> 0 \<and> ib_reserved_bytes r \<ge> 0
     \<and> ib_maximum_files r > 0 \<and> ib_maximum_bytes r > 0
     \<and> ib_created_at_ms r \<ge> 0
     \<and> ib_expires_at_ms r > ib_created_at_ms r
     \<and> ib_current_files r + ib_reserved_files r \<le> ib_maximum_files r
     \<and> ib_current_bytes r + ib_reserved_bytes r \<le> ib_maximum_bytes r
     \<and> (if ib_status r = ''revoked''
        then (case ib_revoked_at_ms r of None \<Rightarrow> False | Some t \<Rightarrow> t \<ge> ib_created_at_ms r)
        else ib_revoked_at_ms r = None)"

definition inbox_allowed :: "database \<Rightarrow> inbox_row \<Rightarrow> bool" where
  "inbox_allowed db row \<longleftrightarrow>
     inbox_check row
     \<and> \<not> list_ex (\<lambda>r. ib_id r = ib_id row \<or> ib_capability_hash r = ib_capability_hash row) (inboxes db)
     \<and> list_ex (\<lambda>w. ws_id w = ib_workspace_id row) (workspaces db)
     \<and> list_ex (\<lambda>p. pj_id p = ib_project_id row) (projects db)"

definition inbox_upload_check :: "inbox_upload_row \<Rightarrow> bool" where
  "inbox_upload_check r \<longleftrightarrow>
     iu_reserved_size r \<ge> 0 \<and> iu_status r \<in> {''reserved'', ''complete'', ''aborted''}
     \<and> iu_created_at_ms r \<ge> 0"

definition inbox_upload_allowed :: "database \<Rightarrow> inbox_upload_row \<Rightarrow> bool" where
  "inbox_upload_allowed db row \<longleftrightarrow>
     inbox_upload_check row
     \<and> \<not> list_ex (\<lambda>r. iu_upload_id r = iu_upload_id row) (inbox_uploads db)
     \<and> list_ex (\<lambda>r. ur_id r = iu_upload_id row) (upload_reservations db)
     \<and> list_ex (\<lambda>r. ib_id r = iu_inbox_id row) (inboxes db)"

definition inbox_rate_check :: "inbox_rate_row \<Rightarrow> bool" where
  "inbox_rate_check r \<longleftrightarrow> ir_window_started_at_ms r \<ge> 0 \<and> ir_request_count r > 0"

section \<open>Queries\<close>

definition validate_capability :: "string \<Rightarrow> RepositoryError + unit" where
  "validate_capability value =
     map_err (\<lambda>_. InvalidInput) (and_then (object_checksum_new value) (\<lambda>_. Ok ()))"

definition validate_name :: "string \<Rightarrow> RepositoryError + unit" where
  "validate_name value =
     and_then (validate_text value) (\<lambda>_.
       if length value \<le> 128 \<and> \<not> has_control value then Ok () else Err InvalidInput)"

definition inbox_row_decode :: "inbox_row \<Rightarrow> RepositoryError + InboxRecord" where
  "inbox_row_decode r =
     and_then (required_u64 (ib_expires_at_ms r)) (\<lambda>expires_at_ms.
     and_then (ok_or Unavailable (revocable_parse (ib_status r))) (\<lambda>status.
     and_then (required_u64 (ib_current_files r)) (\<lambda>current_files.
     and_then (required_u64 (ib_current_bytes r)) (\<lambda>current_bytes.
     and_then (required_u64 (ib_reserved_files r)) (\<lambda>reserved_files.
     and_then (required_u64 (ib_reserved_bytes r)) (\<lambda>reserved_bytes.
     and_then (required_u64 (ib_maximum_files r)) (\<lambda>maximum_files.
     and_then (required_u64 (ib_maximum_bytes r)) (\<lambda>maximum_bytes.
     and_then (required_u64 (ib_created_at_ms r)) (\<lambda>created_at_ms.
     and_then (optional_u64 (ib_revoked_at_ms r)) (\<lambda>revoked_at_ms.
       Ok \<lparr>ibr_id = ib_id r, ibr_workspace_id = ib_workspace_id r, ibr_project_id = ib_project_id r,
           ibr_name = ib_name r, ibr_expires_at_ms = expires_at_ms, ibr_status = status,
           ibr_current_files = current_files, ibr_current_bytes = current_bytes,
           ibr_reserved_files = reserved_files, ibr_reserved_bytes = reserved_bytes,
           ibr_maximum_files = maximum_files, ibr_maximum_bytes = maximum_bytes,
           ibr_created_at_ms = created_at_ms, ibr_revoked_at_ms = revoked_at_ms\<rparr>))))))))))"

definition inbox_by_id :: "database \<Rightarrow> string \<Rightarrow> RepositoryError + InboxRecord" where
  "inbox_by_id db inbox_id = query_row (\<lambda>r. ib_id r = inbox_id) inbox_row_decode (inboxes db)"

definition active_inbox :: "string \<Rightarrow> int \<Rightarrow> inbox_row \<Rightarrow> bool" where
  "active_inbox capability_hash now r \<longleftrightarrow>
     ib_capability_hash r = capability_hash \<and> ib_status r = ''active'' \<and> ib_expires_at_ms r > now"

definition active_by_capability :: "database \<Rightarrow> string \<Rightarrow> int \<Rightarrow> RepositoryError + InboxRecord" where
  "active_by_capability db capability_hash now =
     query_row (active_inbox capability_hash now) inbox_row_decode (inboxes db)"

text \<open>\<^verbatim>\<open>inbox_uploads iu JOIN inboxes i ON i.id = iu.inbox_id\<close>\<close>

definition inbox_upload_reservation ::
  "database \<Rightarrow> string \<Rightarrow> string \<Rightarrow> int \<Rightarrow> RepositoryError + UploadReservationRecord" where
  "inbox_upload_reservation db capability_hash upload_id now =
     (if list_ex (\<lambda>l. iu_upload_id l = upload_id
           \<and> list_ex (\<lambda>r. ib_id r = iu_inbox_id l \<and> active_inbox capability_hash now r) (inboxes db))
          (inbox_uploads db)
      then reservation_by_id db upload_id else Err NotFound)"

section \<open>Inboxes\<close>

record ValidatedInbox =
  vib_expires_at_ms :: int
  vib_maximum_files :: int
  vib_maximum_bytes :: int
  vib_created_at_ms :: int

definition validate_new_inbox :: "NewInbox \<Rightarrow> RepositoryError + ValidatedInbox" where
  "validate_new_inbox inbox =
     and_then (try_each validate_text [nib_id inbox, nib_workspace_id inbox, nib_project_id inbox]) (\<lambda>_.
     and_then (validate_name (nib_name inbox)) (\<lambda>_.
     and_then (validate_capability (nib_capability_hash inbox)) (\<lambda>_.
     and_then (to_i64 (nib_created_at_ms inbox)) (\<lambda>created_at_ms.
     and_then (to_i64 (nib_expires_at_ms inbox)) (\<lambda>expires_at_ms.
       if created_at_ms \<ge> expires_at_ms \<or> nib_maximum_files inbox = 0 \<or> nib_maximum_bytes inbox = 0
       then Err InvalidInput
       else and_then (to_i64 (nib_maximum_files inbox)) (\<lambda>maximum_files.
            and_then (to_i64 (nib_maximum_bytes inbox)) (\<lambda>maximum_bytes.
              Ok \<lparr>vib_expires_at_ms = expires_at_ms, vib_maximum_files = maximum_files,
                  vib_maximum_bytes = maximum_bytes, vib_created_at_ms = created_at_ms\<rparr>)))))))"

definition validate_inbox_event ::
  "NewAuditEvent \<Rightarrow> string \<Rightarrow> string \<Rightarrow> string \<Rightarrow> nat \<Rightarrow> RepositoryError + unit" where
  "validate_inbox_event event action inbox_id workspace_id created_at_ms =
     (if nae_action event = action \<and> nae_target_type event = ''inbox''
         \<and> nae_workspace_id event = workspace_id \<and> nae_created_at_ms event = created_at_ms
         \<and> nae_metadata event = [(''inboxId'', AvString inbox_id)]
      then Ok () else Err InvalidInput)"

definition new_inbox_row :: "NewInbox \<Rightarrow> ValidatedInbox \<Rightarrow> inbox_row" where
  "new_inbox_row inbox values =
     \<lparr>ib_id = nib_id inbox, ib_workspace_id = nib_workspace_id inbox, ib_project_id = nib_project_id inbox,
      ib_name = nib_name inbox, ib_capability_hash = nib_capability_hash inbox,
      ib_expires_at_ms = vib_expires_at_ms values, ib_status = ''active'', ib_current_files = 0,
      ib_current_bytes = 0, ib_reserved_files = 0, ib_reserved_bytes = 0,
      ib_maximum_files = vib_maximum_files values, ib_maximum_bytes = vib_maximum_bytes values,
      ib_created_at_ms = vib_created_at_ms values, ib_revoked_at_ms = None\<rparr>"

definition insert_inbox :: "database \<Rightarrow> NewInbox \<Rightarrow> ValidatedInbox \<Rightarrow> RepositoryError + (nat \<times> database)" where
  "insert_inbox db inbox values =
     (if list_ex (\<lambda>p. pj_id p = nib_project_id inbox \<and> pj_workspace_id p = nib_workspace_id inbox) (projects db)
      then let row = new_inbox_row inbox values
           in and_then (insert_row (inbox_allowed db row) row (inboxes db)) (\<lambda>rows.
                Ok (1, db\<lparr>inboxes := rows\<rparr>))
      else Ok (0, db))"

definition create_inbox :: "database \<Rightarrow> NewInbox \<Rightarrow> NewAuditEvent \<Rightarrow> InboxRecord outcome" where
  "create_inbox db inbox event =
     after (and_then (validate_new_inbox inbox) (\<lambda>values.
            and_then (validate_inbox_event event ''inbox.created'' (nib_id inbox) (nib_workspace_id inbox)
              (nib_created_at_ms inbox)) (\<lambda>_. Ok values))) db (\<lambda>values.
       write_transaction (\<lambda>db.
         and_then (insert_inbox db inbox values) (\<lambda>(changed, db).
           if changed \<noteq> 1 then Err NotFound
           else and_then (audit_insert db event) (\<lambda>db.
                and_then (inbox_by_id db (nib_id inbox)) (\<lambda>result. Ok (result, db))))) db)"

definition list_inboxes :: "database \<Rightarrow> string \<Rightarrow> RepositoryError + InboxRecord list" where
  "list_inboxes db project_id =
     and_then (validate_text project_id) (\<lambda>_.
       collect_results inbox_row_decode
         (rev (sort_key (\<lambda>r. (ib_created_at_ms r, ib_id r))
           (filter (\<lambda>r. ib_project_id r = project_id) (inboxes db)))))"

definition inbox_by_capability :: "database \<Rightarrow> string \<Rightarrow> nat \<Rightarrow> RepositoryError + InboxRecord" where
  "inbox_by_capability db capability_hash now_ms =
     and_then (validate_capability capability_hash) (\<lambda>_.
     and_then (to_i64 now_ms) (\<lambda>now. active_by_capability db capability_hash now))"

definition revoke_inbox :: "database \<Rightarrow> string \<Rightarrow> string \<Rightarrow> nat \<Rightarrow> NewAuditEvent \<Rightarrow> bool outcome" where
  "revoke_inbox db inbox_id workspace_id revoked_at_ms event =
     after (and_then (validate_text inbox_id) (\<lambda>_. validate_text workspace_id)) db (\<lambda>_.
       write_transaction (\<lambda>db.
         and_then (inbox_by_id db inbox_id) (\<lambda>inbox.
           if ibr_workspace_id inbox \<noteq> workspace_id then Err NotFound
           else if ibr_status inbox = RvRevoked then Ok (False, db)
           else
             and_then (validate_inbox_event event ''inbox.revoked'' (ibr_id inbox) (ibr_workspace_id inbox)
               revoked_at_ms) (\<lambda>_.
             and_then (to_i64 revoked_at_ms) (\<lambda>revoked_at.
               if revoked_at_ms < ibr_created_at_ms inbox then Err InvalidInput
               else
                 and_then (update_rows (\<lambda>r. ib_id r = inbox_id \<and> ib_workspace_id r = workspace_id
                       \<and> ib_status r = ''active'')
                     (\<lambda>r. r\<lparr>ib_status := ''revoked'', ib_revoked_at_ms := Some revoked_at\<rparr>)
                     inbox_check (inboxes db)) (\<lambda>(changed, rows).
                   finish_audited_change (db\<lparr>inboxes := rows\<rparr>) changed event))))) db)"

section \<open>Uploads\<close>

definition validate_scope :: "InboxRecord \<Rightarrow> NewUploadReservation \<Rightarrow> nat \<Rightarrow> RepositoryError + unit" where
  "validate_scope inbox reservation now_ms =
     (if ibr_status inbox = RvActive \<and> ibr_project_id inbox = nur_project_id reservation
         \<and> nur_source reservation = OsInbox \<and> nur_created_at_ms reservation = now_ms
         \<and> nur_expires_at_ms reservation \<le> ibr_expires_at_ms inbox
      then Ok () else Err InvalidInput)"

text \<open>A guarded update of the counters of one inbox.\<close>

definition update_capacity ::
  "database \<Rightarrow> string \<Rightarrow> (inbox_row \<Rightarrow> bool) \<Rightarrow> (inbox_row \<Rightarrow> inbox_row) \<Rightarrow> RepositoryError + database" where
  "update_capacity db inbox_id guard change =
     and_then (update_rows (\<lambda>r. ib_id r = inbox_id \<and> guard r) change inbox_check (inboxes db)) (\<lambda>(changed, rows).
     and_then (changed_once changed) (\<lambda>_. Ok (db\<lparr>inboxes := rows\<rparr>)))"

definition reserve_capacity :: "database \<Rightarrow> string \<Rightarrow> nat \<Rightarrow> RepositoryError + database" where
  "reserve_capacity db inbox_id byte_count =
     and_then (to_i64 byte_count) (\<lambda>n.
       update_capacity db inbox_id
         (\<lambda>r. ib_status r = ''active'' \<and> ib_current_files r + ib_reserved_files r < ib_maximum_files r
              \<and> ib_current_bytes r + ib_reserved_bytes r + n \<le> ib_maximum_bytes r)
         (\<lambda>r. r\<lparr>ib_reserved_files := ib_reserved_files r + 1, ib_reserved_bytes := ib_reserved_bytes r + n\<rparr>))"

definition complete_capacity :: "database \<Rightarrow> string \<Rightarrow> nat \<Rightarrow> RepositoryError + database" where
  "complete_capacity db inbox_id byte_count =
     and_then (to_i64 byte_count) (\<lambda>n.
       update_capacity db inbox_id (\<lambda>r. ib_reserved_files r \<ge> 1 \<and> ib_reserved_bytes r \<ge> n)
         (\<lambda>r. r\<lparr>ib_reserved_files := ib_reserved_files r - 1, ib_reserved_bytes := ib_reserved_bytes r - n,
                ib_current_files := ib_current_files r + 1, ib_current_bytes := ib_current_bytes r + n\<rparr>))"

definition release_capacity :: "database \<Rightarrow> string \<Rightarrow> nat \<Rightarrow> RepositoryError + database" where
  "release_capacity db inbox_id byte_count =
     and_then (to_i64 byte_count) (\<lambda>n.
       update_capacity db inbox_id (\<lambda>r. ib_reserved_files r \<ge> 1 \<and> ib_reserved_bytes r \<ge> n)
         (\<lambda>r. r\<lparr>ib_reserved_files := ib_reserved_files r - 1, ib_reserved_bytes := ib_reserved_bytes r - n\<rparr>))"

definition insert_link :: "database \<Rightarrow> inbox_upload_row \<Rightarrow> RepositoryError + database" where
  "insert_link db row =
     and_then (insert_row (inbox_upload_allowed db row) row (inbox_uploads db)) (\<lambda>rows.
       Ok (db\<lparr>inbox_uploads := rows\<rparr>))"

definition transition_link :: "database \<Rightarrow> string \<Rightarrow> string \<Rightarrow> RepositoryError + database" where
  "transition_link db upload_id status =
     and_then (update_rows (\<lambda>l. iu_upload_id l = upload_id \<and> iu_status l = ''reserved'')
         (\<lambda>l. l\<lparr>iu_status := status\<rparr>) inbox_upload_check (inbox_uploads db)) (\<lambda>(changed, rows).
     and_then (changed_once changed) (\<lambda>_. Ok (db\<lparr>inbox_uploads := rows\<rparr>)))"

definition reserved_inbox_id :: "database \<Rightarrow> string \<Rightarrow> RepositoryError + string" where
  "reserved_inbox_id db upload_id =
     query_row (\<lambda>l. iu_upload_id l = upload_id \<and> iu_status l = ''reserved'') (\<lambda>l. Ok (iu_inbox_id l))
       (inbox_uploads db)"

definition require_inbox_source :: "UploadReservationRecord \<Rightarrow> RepositoryError + unit" where
  "require_inbox_source reservation =
     (if ovr_source (urr_version reservation) = OsInbox then Ok () else Err NotFound)"

definition inbox_reservation ::
  "database \<Rightarrow> string \<Rightarrow> string \<Rightarrow> int \<Rightarrow> RepositoryError + UploadReservationRecord" where
  "inbox_reservation db capability_hash upload_id now =
     and_then (inbox_upload_reservation db capability_hash upload_id now) (\<lambda>reservation.
     and_then (require_inbox_source reservation) (\<lambda>_. Ok reservation))"

definition validate_access :: "string \<Rightarrow> string \<Rightarrow> RepositoryError + unit" where
  "validate_access capability_hash upload_id =
     and_then (validate_capability capability_hash) (\<lambda>_. validate_text upload_id)"

definition validate_upload_event ::
  "NewAuditEvent \<Rightarrow> string \<Rightarrow> string \<Rightarrow> nat \<Rightarrow> nat \<Rightarrow> RepositoryError + unit" where
  "validate_upload_event event action inbox_id byte_size created_at_ms =
     (if nae_action event = action \<and> nae_target_type event = ''object_version''
         \<and> nae_actor event = inbox_id \<and> nae_created_at_ms event = created_at_ms
         \<and> nae_metadata event = [(''byteSize'', AvNumber byte_size), (''source'', AvString ''inbox'')]
      then Ok () else Err InvalidInput)"

definition reserve_inbox_upload ::
  "database \<Rightarrow> NewInboxUpload \<Rightarrow> NewUploadReservation \<Rightarrow> UploadReservationRecord outcome" where
  "reserve_inbox_upload db inbox_upload reservation =
     after (and_then (validate_reservation reservation) (\<lambda>validated.
            and_then (validate_capability (niu_capability_hash inbox_upload)) (\<lambda>_.
            and_then (map_err (\<lambda>_. InvalidInput) (object_checksum_new (niu_fingerprint_hash inbox_upload))) (\<lambda>_.
            and_then (to_i64 (niu_now_ms inbox_upload)) (\<lambda>now. Ok (validated, now)))))) db (\<lambda>(validated, now).
       write_transaction (\<lambda>db.
         and_then (active_by_capability db (niu_capability_hash inbox_upload) now) (\<lambda>inbox.
         and_then (validate_scope inbox reservation (niu_now_ms inbox_upload)) (\<lambda>_.
         and_then (reserve_capacity db (ibr_id inbox) (nur_expected_size reservation)) (\<lambda>db.
         and_then (ensure_project db (nur_project_id reservation)) (\<lambda>_.
         and_then (next_version db reservation) (\<lambda>version.
         and_then (insert_version db reservation version (vr_created_at_ms validated)) (\<lambda>db.
         and_then (insert_reservation db reservation validated) (\<lambda>db.
         and_then (insert_link db
             \<lparr>iu_upload_id = nur_id reservation, iu_inbox_id = ibr_id inbox,
              iu_fingerprint_hash = niu_fingerprint_hash inbox_upload,
              iu_reserved_size = vr_expected_size validated, iu_status = ''reserved'',
              iu_created_at_ms = vr_created_at_ms validated\<rparr>) (\<lambda>db.
         and_then (reservation_by_id db (nur_id reservation)) (\<lambda>result.
           Ok (result, db))))))))))) db)"

definition inbox_upload_by_id ::
  "database \<Rightarrow> string \<Rightarrow> string \<Rightarrow> nat \<Rightarrow> RepositoryError + UploadReservationRecord" where
  "inbox_upload_by_id db capability_hash upload_id now_ms =
     and_then (validate_capability capability_hash) (\<lambda>_.
     and_then (validate_text upload_id) (\<lambda>_.
     and_then (to_i64 now_ms) (\<lambda>now. inbox_upload_reservation db capability_hash upload_id now)))"

definition complete_inbox_version :: "database \<Rightarrow> UploadReservationRecord \<Rightarrow> RepositoryError + database" where
  "complete_inbox_version db reservation =
     and_then (to_i64 (urr_expected_size reservation)) (\<lambda>n.
       complete_version db (ovr_id (urr_version reservation)) (Some n) (urr_expected_checksum reservation))"

definition complete_inbox_upload ::
  "database \<Rightarrow> string \<Rightarrow> string \<Rightarrow> nat \<Rightarrow> NewAuditEvent \<Rightarrow> ObjectVersionRecord outcome" where
  "complete_inbox_upload db capability_hash upload_id now_ms event =
     after (and_then (validate_access capability_hash upload_id) (\<lambda>_. to_i64 now_ms)) db (\<lambda>now.
       write_transaction (\<lambda>db.
         and_then (inbox_reservation db capability_hash upload_id now) (\<lambda>reservation.
         and_then (require_state (urr_state reservation) RsUploaded) (\<lambda>_.
         and_then (reserved_inbox_id db upload_id) (\<lambda>inbox_id.
         and_then (validate_upload_event event ''inbox.uploaded'' inbox_id (urr_expected_size reservation) now_ms) (\<lambda>_.
         and_then (update_reservation_state db upload_id ''uploaded'' ''complete'' False) (\<lambda>db.
         and_then (complete_inbox_version db reservation) (\<lambda>db.
         and_then (complete_capacity db inbox_id (urr_expected_size reservation)) (\<lambda>db.
         and_then (transition_link db upload_id ''complete'') (\<lambda>db.
         and_then (audit_insert db event) (\<lambda>db.
         and_then (object_version_by_id db (ovr_id (urr_version reservation))) (\<lambda>version.
           Ok (version, db)))))))))))) db)"

definition abort_inbox_upload ::
  "database \<Rightarrow> string \<Rightarrow> string \<Rightarrow> nat \<Rightarrow> UploadReservationRecord outcome" where
  "abort_inbox_upload db capability_hash upload_id now_ms =
     after (and_then (validate_access capability_hash upload_id) (\<lambda>_. to_i64 now_ms)) db (\<lambda>now.
       write_transaction (\<lambda>db.
         and_then (inbox_reservation db capability_hash upload_id now) (\<lambda>reservation.
           if urr_state reservation \<noteq> RsRequested \<and> urr_state reservation \<noteq> RsUploaded
           then Err Conflict
           else
             and_then (reserved_inbox_id db upload_id) (\<lambda>inbox_id.
             and_then (update_reservation_state db upload_id
               (reservation_state_as_str (urr_state reservation)) ''aborted'' True) (\<lambda>db.
             and_then (abort_version (delete_parts db upload_id) (ovr_id (urr_version reservation))) (\<lambda>db.
             and_then (release_capacity db inbox_id (urr_expected_size reservation)) (\<lambda>db.
             and_then (transition_link db upload_id ''aborted'') (\<lambda>db.
               Ok (reservation, db)))))))) db)"

section \<open>Rate limits\<close>

text \<open>Times are at least 0, so the saturating subtraction of two of them does not saturate; the sum of
  a start and a window may.\<close>

definition saturating_add_i64 :: "int \<Rightarrow> int \<Rightarrow> int" where
  "saturating_add_i64 a b = min (a + b) (int i64_max)"

definition consume_current ::
  "string \<Rightarrow> int \<Rightarrow> int \<Rightarrow> int \<Rightarrow> int \<Rightarrow> nat \<Rightarrow> database \<Rightarrow> RepositoryError + (InboxRateResult \<times> database)" where
  "consume_current rate_key started request_count now window limit db =
     (if request_count \<ge> int limit
      then Ok (Limited (div_ceil (nat \<bar>saturating_add_i64 started window - now\<bar>) 1000), db)
      else and_then (update_rows (\<lambda>r. ir_rate_key r = rate_key)
             (\<lambda>r. r\<lparr>ir_request_count := ir_request_count r + 1\<rparr>) inbox_rate_check (inbox_rate_limits db))
             (\<lambda>(changed, rows). Ok (Allowed, db\<lparr>inbox_rate_limits := rows\<rparr>)))"

definition reset_rate :: "string \<Rightarrow> int \<Rightarrow> database \<Rightarrow> RepositoryError + (InboxRateResult \<times> database)" where
  "reset_rate rate_key now db =
     (let row = \<lparr>ir_rate_key = rate_key, ir_window_started_at_ms = now, ir_request_count = 1\<rparr>
      in if list_ex (\<lambda>r. ir_rate_key r = rate_key) (inbox_rate_limits db)
         then and_then (update_rows (\<lambda>r. ir_rate_key r = rate_key) (\<lambda>_. row) inbox_rate_check
                (inbox_rate_limits db)) (\<lambda>(changed, rows). Ok (Allowed, db\<lparr>inbox_rate_limits := rows\<rparr>))
         else and_then (insert_row (inbox_rate_check row) row (inbox_rate_limits db)) (\<lambda>rows.
                Ok (Allowed, db\<lparr>inbox_rate_limits := rows\<rparr>)))"

definition consume_rate ::
  "string \<Rightarrow> nat \<Rightarrow> nat \<Rightarrow> nat \<Rightarrow> database \<Rightarrow> RepositoryError + (InboxRateResult \<times> database)" where
  "consume_rate rate_key window_ms limit now_ms db =
     (if window_ms = 0 \<or> limit = 0 then Err InvalidInput
      else
        and_then (validate_capability rate_key) (\<lambda>_.
        and_then (to_i64 now_ms) (\<lambda>now.
        and_then (to_i64 window_ms) (\<lambda>window.
          case find (\<lambda>r. ir_rate_key r = rate_key) (inbox_rate_limits db) of
            Some r \<Rightarrow>
              if now - ir_window_started_at_ms r < window
              then consume_current rate_key (ir_window_started_at_ms r) (ir_request_count r) now window limit db
              else reset_rate rate_key now db
          | None \<Rightarrow> reset_rate rate_key now db))))"

definition consume_inbox_rate ::
  "database \<Rightarrow> string \<Rightarrow> nat \<Rightarrow> nat \<Rightarrow> nat \<Rightarrow> InboxRateResult outcome" where
  "consume_inbox_rate db rate_key window_ms limit now_ms =
     write_transaction (consume_rate rate_key window_ms limit now_ms) db"

end
