(* ===== verification/Inbox_Invariants.thy ===== *)
theory Inbox_Invariants
  imports Inboxes
begin

text \<open>
  The capacity ledger of an inbox and its preservation. Every link between an upload and an inbox
  is backed by counters: the links in flight by the reserved counters, the completed ones by the
  current counters. All commands of the store keep this, those that know nothing of inboxes too.
\<close>

section \<open>The ledger\<close>

definition link_weight :: "string \<Rightarrow> string \<Rightarrow> (inbox_upload_row \<Rightarrow> int) \<Rightarrow> inbox_upload_row \<Rightarrow> int" where
  "link_weight status inbox_id weight l = (if iu_inbox_id l = inbox_id \<and> iu_status l = status then weight l else 0)"

definition link_total :: "string \<Rightarrow> string \<Rightarrow> (inbox_upload_row \<Rightarrow> int) \<Rightarrow> inbox_upload_row list \<Rightarrow> int" where
  "link_total status inbox_id weight links = sum_list (map (link_weight status inbox_id weight) links)"

abbreviation one_file :: "inbox_upload_row \<Rightarrow> int" where
  "one_file \<equiv> \<lambda>_. 1"

definition backed :: "inbox_upload_row list \<Rightarrow> inbox_row \<Rightarrow> bool" where
  "backed links r \<longleftrightarrow>
     link_total ''reserved'' (ib_id r) one_file links \<le> ib_reserved_files r
     \<and> link_total ''reserved'' (ib_id r) iu_reserved_size links \<le> ib_reserved_bytes r
     \<and> link_total ''complete'' (ib_id r) one_file links \<le> ib_current_files r
     \<and> link_total ''complete'' (ib_id r) iu_reserved_size links \<le> ib_current_bytes r"

definition reservation_terms :: "upload_reservation_row list \<Rightarrow> (string \<times> int) set" where
  "reservation_terms rs = (\<lambda>r. (ur_id r, ur_expected_size r)) ` set rs"

definition inbox_inv :: "database \<Rightarrow> bool" where
  "inbox_inv db \<longleftrightarrow>
     distinct (map ib_id (inboxes db)) \<and> distinct (map ib_capability_hash (inboxes db))
     \<and> (\<forall>r \<in> set (inboxes db). inbox_check r \<and> backed (inbox_uploads db) r)
     \<and> distinct (map iu_upload_id (inbox_uploads db))
     \<and> (\<forall>l \<in> set (inbox_uploads db). inbox_upload_check l
          \<and> (iu_upload_id l, iu_reserved_size l) \<in> reservation_terms (upload_reservations db)
          \<and> iu_inbox_id l \<in> ib_id ` set (inboxes db))
     \<and> distinct (map ir_rate_key (inbox_rate_limits db))
     \<and> (\<forall>r \<in> set (inbox_rate_limits db). inbox_rate_check r)"

definition store_wide_inv :: "database \<Rightarrow> bool" where
  "store_wide_inv db \<longleftrightarrow> lifecycle_inv db \<and> inbox_inv db"

lemma store_wide_invD: "store_wide_inv db \<Longrightarrow> lifecycle_inv db" "store_wide_inv db \<Longrightarrow> inbox_inv db"
  by (simp_all add: store_wide_inv_def)

lemma store_wide_transfer: "store_wide_inv db \<Longrightarrow> transfer_inv db"
  by (rule store_invD(1) [OF lifecycle_invD(1) [OF store_wide_invD(1)]])

lemma lifecycle_inv_inbox_tables [simp]:
  "lifecycle_inv (db\<lparr>inboxes := is\<rparr>) = lifecycle_inv db"
  "lifecycle_inv (db\<lparr>inbox_uploads := ls\<rparr>) = lifecycle_inv db"
  "lifecycle_inv (db\<lparr>inbox_rate_limits := rs\<rparr>) = lifecycle_inv db"
  by (simp_all add: lifecycle_inv_def store_inv_def transfer_inv_def versions_ok_def reservations_ok_def
      parts_ok_def grants_ok_def audit_inv_def share_inv_def complete_ids_def deletions_inv_def
      run_covers_def items_of_def)

section \<open>Commands that leave the inbox tables alone\<close>

definition inbox_tables :: "database \<Rightarrow> _" where
  "inbox_tables db = (inboxes db, inbox_uploads db, inbox_rate_limits db)"

text \<open>A reservation is open until its upload completes or is aborted; it never opens again.\<close>

definition open_reservation :: "upload_reservation_row \<Rightarrow> bool" where
  "open_reservation r \<longleftrightarrow> ur_state r = ''requested'' \<or> ur_state r = ''uploaded''"

definition none_reopened :: "upload_reservation_row list \<Rightarrow> upload_reservation_row list \<Rightarrow> bool" where
  "none_reopened rs rs' \<longleftrightarrow> (\<forall>s \<in> set rs'. open_reservation s \<and> ur_id s \<in> ur_id ` set rs \<longrightarrow>
     (\<exists>r \<in> set rs. ur_id r = ur_id s \<and> open_reservation r))"

lemma none_reopened_refl [simp]: "none_reopened rs rs"
  by (auto simp: none_reopened_def)

lemma none_reopened_append: "ur_id r \<notin> ur_id ` set rs \<Longrightarrow> none_reopened rs (rs @ [r])"
  by (auto simp: none_reopened_def)

lemma none_reopened_map:
  assumes "\<And>r. ur_id (change r) = ur_id r" and "\<And>r. sel r \<Longrightarrow> open_reservation (change r) \<Longrightarrow> open_reservation r"
  shows "none_reopened rs (map (\<lambda>r. if sel r then change r else r) rs)"
  unfolding none_reopened_def
proof (intro ballI impI, elim conjE)
  fix s assume "s \<in> set (map (\<lambda>r. if sel r then change r else r) rs)" and s: "open_reservation s"
  then obtain r where "r \<in> set rs" "s = (if sel r then change r else r)" by auto
  then show "\<exists>r \<in> set rs. ur_id r = ur_id s \<and> open_reservation r"
    using s assms by (intro bexI [of _ r]) (auto split: if_split_asm)
qed

lemma none_reopened_update:
  assumes "update_rows sel change check rs = Ok (n, rows)"
    and "\<And>r. ur_id (change r) = ur_id r" and "\<And>r. sel r \<Longrightarrow> open_reservation (change r) \<Longrightarrow> open_reservation r"
  shows "none_reopened rs rows"
  using assms none_reopened_map [of change sel rs] by (simp add: update_rows_Ok_iff)

lemma none_reopened_trans:
  assumes one: "none_reopened rs us" and two: "none_reopened us vs" and "reservation_terms rs \<subseteq> reservation_terms us"
  shows "none_reopened rs vs"
  unfolding none_reopened_def
proof (intro ballI impI, elim conjE)
  fix s assume s: "s \<in> set vs" "open_reservation s" "ur_id s \<in> ur_id ` set rs"
  then have "ur_id s \<in> fst ` reservation_terms us" using assms(3) by (force simp: reservation_terms_def)
  then have "ur_id s \<in> ur_id ` set us" by (auto simp: reservation_terms_def)
  with two s obtain u where "u \<in> set us" "ur_id u = ur_id s" "open_reservation u" unfolding none_reopened_def by blast
  with one s(3) show "\<exists>r \<in> set rs. ur_id r = ur_id s \<and> open_reservation r" unfolding none_reopened_def by metis
qed

definition terms_kept :: "database \<Rightarrow> database \<Rightarrow> bool" where
  "terms_kept db db' \<longleftrightarrow>
     inbox_tables db' = inbox_tables db
     \<and> reservation_terms (upload_reservations db) \<subseteq> reservation_terms (upload_reservations db')
     \<and> none_reopened (upload_reservations db) (upload_reservations db')"

lemma terms_kept_inv: "terms_kept db db' \<Longrightarrow> inbox_inv db \<Longrightarrow> inbox_inv db'"
  by (auto simp: terms_kept_def inbox_tables_def inbox_inv_def)

lemma terms_kept_refl: "terms_kept db db"
  by (simp add: terms_kept_def)

lemma terms_kept_trans: "terms_kept db db1 \<Longrightarrow> terms_kept db1 db2 \<Longrightarrow> terms_kept db db2"
  using none_reopened_trans by (auto simp: terms_kept_def)

lemma reservation_terms_map:
  assumes "\<And>r. ur_id (change r) = ur_id r" and "\<And>r. ur_expected_size (change r) = ur_expected_size r"
  shows "reservation_terms (map (\<lambda>r. if sel r then change r else r) rs) = reservation_terms rs"
proof -
  have "map (\<lambda>r. (ur_id r, ur_expected_size r)) (map (\<lambda>r. if sel r then change r else r) rs)
      = map (\<lambda>r. (ur_id r, ur_expected_size r)) rs"
    by (simp add: assms)
  then show ?thesis by (simp only: reservation_terms_def set_map [symmetric])
qed

lemma reservation_terms_update:
  assumes "update_rows sel change check rs = Ok (n, rows)"
    and "\<And>r. ur_id (change r) = ur_id r" and "\<And>r. ur_expected_size (change r) = ur_expected_size r"
  shows "reservation_terms rows = reservation_terms rs"
proof -
  have "rows = map (\<lambda>r. if sel r then change r else r) rs" using assms(1) by (simp add: update_rows_Ok_iff)
  then show ?thesis using reservation_terms_map [of change sel rs] assms(2,3) by simp
qed

lemma frame_inbox_tables: "transfer_frame db db' \<Longrightarrow> inbox_tables db' = inbox_tables db"
proof -
  assume "transfer_frame db db'"
  then have eq: "db' = db\<lparr>object_versions := object_versions db', upload_reservations := upload_reservations db',
       upload_parts := upload_parts db', download_grants := download_grants db'\<rparr>"
    by (simp add: transfer_frame_def)
  show ?thesis by (subst eq) (simp add: inbox_tables_def)
qed

lemma transfer_terms:
  "reserve_upload db n = (Ok x1, db') \<Longrightarrow> reservation_terms (upload_reservations db) \<subseteq> reservation_terms (upload_reservations db')"
  "renew_upload db uid t = (Ok x2, db') \<Longrightarrow> reservation_terms (upload_reservations db) \<subseteq> reservation_terms (upload_reservations db')"
  "attach_multipart db uid p = (Ok x3, db') \<Longrightarrow> reservation_terms (upload_reservations db) \<subseteq> reservation_terms (upload_reservations db')"
  "issue_upload_parts db ps = (Ok x4, db') \<Longrightarrow> reservation_terms (upload_reservations db) \<subseteq> reservation_terms (upload_reservations db')"
  "record_uploaded_part db uid k s c tag = (Ok x5, db') \<Longrightarrow> reservation_terms (upload_reservations db) \<subseteq> reservation_terms (upload_reservations db')"
  "record_uploaded_bytes db uid s c = (Ok x6, db') \<Longrightarrow> reservation_terms (upload_reservations db) \<subseteq> reservation_terms (upload_reservations db')"
  "complete_upload db uid = (Ok x7, db') \<Longrightarrow> reservation_terms (upload_reservations db) \<subseteq> reservation_terms (upload_reservations db')"
  "abort_upload db uid = (Ok x8, db') \<Longrightarrow> reservation_terms (upload_reservations db) \<subseteq> reservation_terms (upload_reservations db')"
  "issue_download db g = (Ok x9, db') \<Longrightarrow> reservation_terms (upload_reservations db) \<subseteq> reservation_terms (upload_reservations db')"
proof -
  show "reserve_upload db n = (Ok x1, db') \<Longrightarrow> reservation_terms (upload_reservations db) \<subseteq> reservation_terms (upload_reservations db')"
    by (erule reserve_upload_Ok_D) (auto simp: reservation_terms_def)
  show "renew_upload db uid t = (Ok x2, db') \<Longrightarrow> reservation_terms (upload_reservations db) \<subseteq> reservation_terms (upload_reservations db')"
    unfolding renew_upload_def by (auto simp: outcome_iffs reservation_terms_update split: prod.split_asm)
  show "attach_multipart db uid p = (Ok x3, db') \<Longrightarrow> reservation_terms (upload_reservations db) \<subseteq> reservation_terms (upload_reservations db')"
    unfolding attach_multipart_def
    by (auto simp: outcome_iffs result_simps reservation_terms_update split: option.split_asm if_split_asm)
  show "issue_upload_parts db ps = (Ok x4, db') \<Longrightarrow> reservation_terms (upload_reservations db) \<subseteq> reservation_terms (upload_reservations db')"
  proof -
    assume "issue_upload_parts db ps = (Ok x4, db')"
    then obtain upload part_size count where "issue_each upload part_size count ps db = Ok db'"
      unfolding issue_upload_parts_def by (auto simp: outcome_iffs result_simps)
    then have eq: "db' = db\<lparr>upload_parts := upload_parts db'\<rparr>" by (rule issue_each_frame)
    show ?thesis by (subst eq) simp
  qed
  show "record_uploaded_part db uid k s c tag = (Ok x5, db') \<Longrightarrow> reservation_terms (upload_reservations db) \<subseteq> reservation_terms (upload_reservations db')"
    by (auto simp: record_uploaded_part_def outcome_iffs split: prod.split_asm)
  show "record_uploaded_bytes db uid s c = (Ok x6, db') \<Longrightarrow> reservation_terms (upload_reservations db) \<subseteq> reservation_terms (upload_reservations db')"
    by (erule record_uploaded_bytes_Ok_D) (simp add: reservation_terms_map)
  show "complete_upload db uid = (Ok x7, db') \<Longrightarrow> reservation_terms (upload_reservations db) \<subseteq> reservation_terms (upload_reservations db')"
    by (erule complete_upload_Ok_D) (simp add: reservation_terms_update)
  show "abort_upload db uid = (Ok x8, db') \<Longrightarrow> reservation_terms (upload_reservations db) \<subseteq> reservation_terms (upload_reservations db')"
    by (erule abort_upload_Ok_D) (simp add: reservation_terms_update)
  show "issue_download db g = (Ok x9, db') \<Longrightarrow> reservation_terms (upload_reservations db) \<subseteq> reservation_terms (upload_reservations db')"
    by (auto simp: issue_download_def outcome_iffs dest!: insert_download_grant_D split: option.split_asm)
qed

lemma transfer_reopens:
  "reserve_upload db n = (Ok x1, db') \<Longrightarrow> none_reopened (upload_reservations db) (upload_reservations db')"
  "renew_upload db uid t = (Ok x2, db') \<Longrightarrow> none_reopened (upload_reservations db) (upload_reservations db')"
  "attach_multipart db uid p = (Ok x3, db') \<Longrightarrow> none_reopened (upload_reservations db) (upload_reservations db')"
  "issue_upload_parts db ps = (Ok x4, db') \<Longrightarrow> none_reopened (upload_reservations db) (upload_reservations db')"
  "record_uploaded_part db uid k s c tag = (Ok x5, db') \<Longrightarrow> none_reopened (upload_reservations db) (upload_reservations db')"
  "record_uploaded_bytes db uid s c = (Ok x6, db') \<Longrightarrow> none_reopened (upload_reservations db) (upload_reservations db')"
  "complete_upload db uid = (Ok x7, db') \<Longrightarrow> none_reopened (upload_reservations db) (upload_reservations db')"
  "abort_upload db uid = (Ok x8, db') \<Longrightarrow> none_reopened (upload_reservations db) (upload_reservations db')"
  "issue_download db g = (Ok x9, db') \<Longrightarrow> none_reopened (upload_reservations db) (upload_reservations db')"
proof -
  show "reserve_upload db n = (Ok x1, db') \<Longrightarrow> none_reopened (upload_reservations db) (upload_reservations db')"
    by (erule reserve_upload_Ok_D) (auto simp: upload_reservation_allowed_def list_ex_iff intro!: none_reopened_append)
  show "renew_upload db uid t = (Ok x2, db') \<Longrightarrow> none_reopened (upload_reservations db) (upload_reservations db')"
    unfolding renew_upload_def
    by (auto simp: outcome_iffs none_reopened_update open_reservation_def split: prod.split_asm)
  show "attach_multipart db uid p = (Ok x3, db') \<Longrightarrow> none_reopened (upload_reservations db) (upload_reservations db')"
    unfolding attach_multipart_def
    by (auto simp: outcome_iffs result_simps none_reopened_update open_reservation_def split: option.split_asm if_split_asm)
  show "issue_upload_parts db ps = (Ok x4, db') \<Longrightarrow> none_reopened (upload_reservations db) (upload_reservations db')"
  proof -
    assume "issue_upload_parts db ps = (Ok x4, db')"
    then obtain upload part_size count where "issue_each upload part_size count ps db = Ok db'"
      unfolding issue_upload_parts_def by (auto simp: outcome_iffs result_simps)
    then have eq: "db' = db\<lparr>upload_parts := upload_parts db'\<rparr>" by (rule issue_each_frame)
    show ?thesis by (subst eq) simp
  qed
  show "record_uploaded_part db uid k s c tag = (Ok x5, db') \<Longrightarrow> none_reopened (upload_reservations db) (upload_reservations db')"
    by (auto simp: record_uploaded_part_def outcome_iffs split: prod.split_asm)
  show "record_uploaded_bytes db uid s c = (Ok x6, db') \<Longrightarrow> none_reopened (upload_reservations db) (upload_reservations db')"
    by (erule record_uploaded_bytes_Ok_D) (auto simp: open_reservation_def intro!: none_reopened_map)
  show "complete_upload db uid = (Ok x7, db') \<Longrightarrow> none_reopened (upload_reservations db) (upload_reservations db')"
    by (erule complete_upload_Ok_D) (simp add: none_reopened_update open_reservation_def)
  show "abort_upload db uid = (Ok x8, db') \<Longrightarrow> none_reopened (upload_reservations db) (upload_reservations db')"
    by (erule abort_upload_Ok_D) (auto simp: open_reservation_def elim!: none_reopened_update)
  show "issue_download db g = (Ok x9, db') \<Longrightarrow> none_reopened (upload_reservations db) (upload_reservations db')"
    by (auto simp: issue_download_def outcome_iffs dest!: insert_download_grant_D split: option.split_asm)
qed

lemma transfer_exec_terms:
  assumes inv: "transfer_inv db" and run: "transfer_exec c db = (r, db')"
  shows "terms_kept db db'"
proof (cases "is_ok r")
  case True
  have "reservation_terms (upload_reservations db) \<subseteq> reservation_terms (upload_reservations db')"
    using run True by (cases c) (auto dest!: outcome_of_Ok dest: transfer_terms [THEN subsetD])
  moreover have "none_reopened (upload_reservations db) (upload_reservations db')"
    using run True by (cases c) (auto dest!: outcome_of_Ok dest: transfer_reopens)
  ultimately show ?thesis using frame_inbox_tables [OF transfer_exec_frame [OF inv run]] by (simp add: terms_kept_def)
next
  case False
  then show ?thesis using transfers.failed_unchanged [OF inv run] terms_kept_refl by simp
qed

lemma terms_kept_tables:
  "inboxes db' = inboxes db \<Longrightarrow> inbox_uploads db' = inbox_uploads db \<Longrightarrow> inbox_rate_limits db' = inbox_rate_limits db
     \<Longrightarrow> upload_reservations db' = upload_reservations db \<Longrightarrow> terms_kept db db'"
  by (simp add: terms_kept_def inbox_tables_def)

lemma audit_insert_terms: "audit_insert db ev = Ok db' \<Longrightarrow> terms_kept db db'"
  by (erule audit_insert_Ok_D) (simp add: terms_kept_tables)

lemma share_terms:
  "create_share db n ev = (Ok x, db') \<Longrightarrow> terms_kept db db'"
  "issue_share_download db h t g ev = (Ok y, db') \<Longrightarrow> terms_kept db db'"
  "revoke_share db uid w t ev = (Ok b, db') \<Longrightarrow> terms_kept db db'"
proof -
  assume "create_share db n ev = (Ok x, db')"
  then obtain limits db1 where ins: "insert_share db n limits = Ok (1, db1)" and ev: "audit_insert db1 ev = Ok db'"
    by (auto simp: create_share_def outcome_iffs result_simps split: if_split_asm)
  have "terms_kept db db1"
    using ins by (auto simp: insert_share_def Let_def result_simps terms_kept_tables split: if_split_asm)
  then show "terms_kept db db'" using audit_insert_terms [OF ev] by (rule terms_kept_trans)
next
  assume ok: "issue_share_download db h t g ev = (Ok y, db')"
  obtain target db1 db2 where "target_by_capability db h (int t) True = Ok target"
    and ins: "insert_download_grant db \<lparr>dg_capability_hash = ndg_capability_hash g,
        dg_version_id = ndg_version_id g, dg_expires_at_ms = int (ndg_expires_at_ms g)\<rparr> = Ok db1"
    and con: "consume_share db1 (shr_id (sht_share target)) = Ok (1, db2)"
    and ev: "audit_insert db2 ev = Ok db'"
    by (rule issue_share_download_D [OF ok])
  have "terms_kept db db1" using insert_download_grant_D [OF ins] by (simp add: terms_kept_tables)
  moreover have "terms_kept db1 db2"
    using con by (auto simp: consume_share_def result_simps terms_kept_tables)
  ultimately show "terms_kept db db'" using audit_insert_terms [OF ev] terms_kept_trans by blast
next
  assume ok: "revoke_share db uid w t ev = (Ok b, db')"
  show "terms_kept db db'"
  proof (cases "db' = db")
    case False
    with ok obtain rows where ev: "audit_insert (db\<lparr>shares := rows\<rparr>) ev = Ok db'"
      unfolding revoke_share_def finish_audited_change_def
      by (auto simp: outcome_iffs result_simps split: if_split_asm)
    have "terms_kept db (db\<lparr>shares := rows\<rparr>)" by (simp add: terms_kept_tables)
    then show ?thesis using audit_insert_terms [OF ev] by (rule terms_kept_trans)
  qed (simp add: terms_kept_refl)
qed

lemma store_exec_terms:
  assumes inv: "store_inv db" and run: "store_exec c db = (r, db')"
  shows "terms_kept db db'"
proof (cases "is_ok r")
  case False
  then show ?thesis using store.failed_unchanged [OF inv run] by (simp add: terms_kept_refl)
next
  case True
  show ?thesis
  proof (cases c)
    case (Transfer tc)
    with run transfer_exec_terms [OF store_invD(1) [OF inv]] show ?thesis by simp
  next
    case (RecordAudit e)
    with run True show ?thesis
      by (auto simp: record_audit_def outcome_iffs dest!: outcome_of_Ok audit_insert_terms)
  qed (use run True in \<open>auto dest!: outcome_of_Ok dest: share_terms\<close>)
qed

section \<open>Deletions\<close>

lemma link_weight_nonneg: "inbox_upload_check l \<Longrightarrow> 0 \<le> link_weight status inbox_id iu_reserved_size l"
  by (simp add: link_weight_def inbox_upload_check_def)

lemma link_total_filter:
  assumes "\<And>l. l \<in> set links \<Longrightarrow> 0 \<le> link_weight status inbox_id weight l"
  shows "link_total status inbox_id weight (filter P links) \<le> link_total status inbox_id weight links"
  using assms by (induction links) (force simp: link_total_def)+

lemma backed_filter:
  assumes "\<And>l. l \<in> set links \<Longrightarrow> inbox_upload_check l" and "backed links r"
  shows "backed (filter P links) r"
proof -
  have "link_total status inbox_id iu_reserved_size (filter P links) \<le> link_total status inbox_id iu_reserved_size links"
    "link_total status inbox_id one_file (filter P links) \<le> link_total status inbox_id one_file links" for status inbox_id
    using assms(1) by (auto intro!: link_total_filter link_weight_nonneg) (simp add: link_weight_def)
  then show ?thesis using assms(2) unfolding backed_def by (meson order_trans)
qed

lemma inbox_inv_purge:
  assumes inv: "inbox_inv db" and ids: "distinct (map ur_id (upload_reservations db))"
  shows "inbox_inv (purge gone db)"
proof -
  have "(iu_upload_id l, iu_reserved_size l) \<in> reservation_terms (upload_reservations (purge gone db))"
    if l: "l \<in> set (inbox_uploads db)" "iu_upload_id l \<notin> purged_uploads gone db" for l
  proof -
    obtain r where r: "r \<in> set (upload_reservations db)" "ur_id r = iu_upload_id l" "ur_expected_size r = iu_reserved_size l"
      using inv l(1) by (auto simp: inbox_inv_def reservation_terms_def)
    then have "ur_version_id r \<notin> gone" using l(2) by (force simp: purged_uploads_def)
    with r show ?thesis by (force simp: reservation_terms_def)
  qed
  then show ?thesis
    using inv by (auto simp: inbox_inv_def distinct_map_filter intro!: backed_filter)
qed

lemma finished_inbox_inv:
  assumes "store_wide_inv db"
  shows "inbox_inv (finished operation t db)"
proof -
  have "distinct (map ur_id (upload_reservations db))"
    using transfer_invD(2) [OF store_wide_transfer [OF assms]] by (simp add: reservations_ok_def)
  from inbox_inv_purge [OF store_wide_invD(2) [OF assms] this, of "doomed_ids db operation"]
  show ?thesis by (simp add: inbox_inv_def finished_def)
qed

lemma finish_deletion_inbox_inv:
  assumes inv: "store_wide_inv db" and ok: "finish_deletion db uid t ev = (Ok u, db')"
  shows "inbox_inv db'"
  using store_wide_invD(1) [OF inv] ok
proof (rule finish_deletion_D)
  fix operation
  assume "audit_insert (finished operation (int t) db) ev = Ok db'"
  from terms_kept_inv [OF audit_insert_terms [OF this] finished_inbox_inv [OF inv]] show ?thesis .
qed (use store_wide_invD(2) [OF inv] in simp)

lemma lifecycle_terms:
  "begin_object_deletion db d = (Ok plan, db') \<Longrightarrow> terms_kept db db'"
  "set_retention db policy ev = (Ok u, db') \<Longrightarrow> terms_kept db db'"
  "clear_retention db p t ev = (Ok b, db') \<Longrightarrow> terms_kept db db'"
  "begin_retention db p uid a rq t = (Ok plan, db') \<Longrightarrow> terms_kept db db'"
  "fail_retention db uid t = (r, db') \<Longrightarrow> terms_kept db db'"
proof -
  show "begin_object_deletion db d = (Ok plan, db') \<Longrightarrow> terms_kept db db'"
    by (erule begin_object_deletion_D) (auto simp: terms_kept_refl terms_kept_tables dest: insert_items_D)
  show "terms_kept db db'" if ok: "set_retention db policy ev = (Ok u, db')"
  proof -
    obtain created updated db1 where up: "upsert_policy policy created updated db = Ok db1"
      and ev: "audit_insert db1 ev = Ok db'"
      using ok by (auto simp: set_retention_def set_retention_in_def outcome_iffs result_simps)
    have "terms_kept db db1"
      using up by (auto simp: upsert_policy_def Let_def result_simps terms_kept_tables split: if_split_asm)
    then show ?thesis using audit_insert_terms [OF ev] by (rule terms_kept_trans)
  qed
  show "terms_kept db db'" if ok: "clear_retention db p t ev = (Ok b, db')"
  proof -
    obtain rows where "db' = db\<lparr>retention_policies := rows\<rparr> \<or> audit_insert (db\<lparr>retention_policies := rows\<rparr>) ev = Ok db'"
      using ok unfolding clear_retention_def clear_retention_in_def
      by (auto simp: outcome_iffs result_simps Let_def split: if_split_asm)
    moreover have "terms_kept db (db\<lparr>retention_policies := rows\<rparr>)" by (simp add: terms_kept_tables)
    ultimately show ?thesis using audit_insert_terms terms_kept_trans by blast
  qed
  show "terms_kept db db'" if "begin_retention db p uid a rq t = (Ok plan, db')"
    using that
    by (rule begin_retention_D)
      (auto simp: resume_run_def insert_run_def Let_def result_simps terms_kept_tables dest!: insert_items_D)
  show "fail_retention db uid t = (r, db') \<Longrightarrow> terms_kept db db'"
    by (auto simp: fail_retention_def terms_kept_tables split: sum.split_asm prod.split_asm)
qed

lemma lifecycle_exec_store_wide:
  assumes inv: "store_wide_inv db" and run: "lifecycle_exec c db = (r, db')"
  shows "store_wide_inv db'"
proof (cases "is_ok r")
  case False
  then show ?thesis using lifecycle.failed_unchanged [OF store_wide_invD(1) [OF inv] run] inv by simp
next
  case True
  have "lifecycle_inv db'" by (rule lifecycle.inv_step [OF store_wide_invD(1) [OF inv] run])
  moreover have "inbox_inv db'"
  proof (cases c)
    case (Store sc)
    with run store_exec_terms [OF lifecycle_invD(1) [OF store_wide_invD(1) [OF inv]]] have "terms_kept db db'" by simp
    from terms_kept_inv [OF this store_wide_invD(2) [OF inv]] show ?thesis .
  next
    case (FinishDeletion uid t e)
    with run True finish_deletion_inbox_inv [OF inv] show ?thesis by (auto dest!: outcome_of_Ok)
  qed (use run True terms_kept_inv [OF _ store_wide_invD(2) [OF inv]] in
      \<open>auto dest!: outcome_of_Ok dest: lifecycle_terms\<close>)
  ultimately show ?thesis by (simp add: store_wide_inv_def)
qed

end
