(* ===== verification/Inbox_Properties.thy ===== *)
theory Inbox_Properties
  imports Inbox_Invariants
begin

text \<open>
  The inbox operations keep the ledger, and what that gives: the files and bytes received and in
  flight through an inbox never exceed its budget, an accepted upload can always be completed, and
  the rate limiter bounds the requests of a guest.
\<close>

section \<open>Moving capacity\<close>

lemma update_capacity_D:
  assumes keys: "distinct (map ib_id (inboxes db))" and ok: "update_capacity db inbox_id guard change = Ok db'"
  obtains r where "r \<in> set (inboxes db)" and "ib_id r = inbox_id" and "guard r" and "inbox_check (change r)"
    and "db' = db\<lparr>inboxes := map (\<lambda>s. if s = r then change r else s) (inboxes db)\<rparr>"
proof -
  let ?sel = "\<lambda>r. ib_id r = inbox_id \<and> guard r"
  obtain rows where up: "update_rows ?sel change inbox_check (inboxes db) = Ok (1, rows)"
    and db': "db' = db\<lparr>inboxes := rows\<rparr>"
    using ok by (auto simp: update_capacity_def result_simps)
  have one: "length (filter ?sel (inboxes db)) = 1" using up by (simp add: update_rows_Ok_iff)
  from selected_exists [OF one] obtain r where r: "r \<in> set (inboxes db)" "?sel r" by blast
  have chk: "inbox_check (change r)" using up r unfolding update_rows_Ok_iff by blast
  have "update_rows ?sel change inbox_check (inboxes db)
      = Ok (1, map (\<lambda>s. if s = r then change s else s) (inboxes db))"
    by (rule update_rows_one [OF keys r(1)]) (use r(2) chk in auto)
  with up have "rows = map (\<lambda>s. if s = r then change s else s) (inboxes db)" by simp
  also have "\<dots> = map (\<lambda>s. if s = r then change r else s) (inboxes db)" by simp
  finally have rows: "rows = map (\<lambda>s. if s = r then change r else s) (inboxes db)" .
  from r(2) have "ib_id r = inbox_id" "guard r" by simp_all
  then show thesis using that r(1) chk db' [unfolded rows] by blast
qed

lemma link_total_append: "link_total status i w (ls @ [l]) = link_total status i w ls + link_weight status i w l"
  by (simp add: link_total_def)

lemma link_total_update:
  assumes "distinct ls" and "l \<in> set ls"
  shows "link_total status i w (map (\<lambda>k. if k = l then l' else k) ls)
    = link_total status i w ls - link_weight status i w l + link_weight status i w l'"
  using assms
proof (induction ls)
  case (Cons k ls)
  show ?case
  proof (cases "k = l")
    case True
    with Cons.prems have "map (\<lambda>k. if k = l then l' else k) ls = ls" by (auto intro: map_idI)
    with True show ?thesis by (simp add: link_total_def)
  next
    case False
    with Cons have "link_total status i w (map (\<lambda>k. if k = l then l' else k) ls)
        = link_total status i w ls - link_weight status i w l + link_weight status i w l'" by simp
    with False show ?thesis by (simp add: link_total_def)
  qed
qed simp

text \<open>Changing one inbox together with links of that inbox.\<close>

lemma inbox_inv_move:
  assumes inv: "inbox_inv db" and r: "r \<in> set (inboxes db)"
    and keep: "ib_id r' = ib_id r" "ib_capability_hash r' = ib_capability_hash r"
    and ok: "inbox_check r'" "backed (inbox_uploads db') r'"
    and others: "\<And>status i w. i \<noteq> ib_id r \<Longrightarrow>
      link_total status i w (inbox_uploads db') = link_total status i w (inbox_uploads db)"
    and links: "distinct (map iu_upload_id (inbox_uploads db'))"
      "\<And>l. l \<in> set (inbox_uploads db') \<Longrightarrow> inbox_upload_check l
        \<and> (iu_upload_id l, iu_reserved_size l) \<in> reservation_terms (upload_reservations db')
        \<and> iu_inbox_id l \<in> ib_id ` set (inboxes db)"
    and db': "inboxes db' = map (\<lambda>s. if s = r then r' else s) (inboxes db)"
      "inbox_rate_limits db' = inbox_rate_limits db"
  shows "inbox_inv db'"
proof -
  have keys: "distinct (map ib_id (inboxes db))" using inv by (simp add: inbox_inv_def)
  have maps: "map ib_id (inboxes db') = map ib_id (inboxes db)"
    "map ib_capability_hash (inboxes db') = map ib_capability_hash (inboxes db)"
    by (simp_all add: db' keep)
  have "inbox_check s \<and> backed (inbox_uploads db') s" if "s \<in> set (inboxes db')" for s
  proof -
    have "s = r' \<or> (s \<in> set (inboxes db) \<and> s \<noteq> r)" using that by (auto simp: db' split: if_split_asm)
    then show ?thesis
    proof
      assume s: "s \<in> set (inboxes db) \<and> s \<noteq> r"
      then have "ib_id s \<noteq> ib_id r" using distinct_map_eq [OF keys _ r] by blast
      then have "backed (inbox_uploads db') s = backed (inbox_uploads db) s" by (simp add: backed_def others)
      with s inv show ?thesis by (simp add: inbox_inv_def)
    qed (use ok in simp)
  qed
  moreover have "ib_id ` set (inboxes db') = ib_id ` set (inboxes db)" using maps(1) by (metis set_map)
  ultimately show ?thesis
    using inv maps links unfolding inbox_inv_def db'(2) by (simp only: simp_thms) blast
qed

lemma rates_move: "inbox_inv db \<Longrightarrow> distinct (map ir_rate_key rows) \<Longrightarrow> \<forall>r \<in> set rows. inbox_rate_check r \<Longrightarrow>
    inbox_inv (db\<lparr>inbox_rate_limits := rows\<rparr>)"
  by (simp add: inbox_inv_def)

section \<open>Inbox rows\<close>

lemma inbox_row_decode_Ok_iff:
  "inbox_row_decode r = Ok x \<longleftrightarrow>
     ib_expires_at_ms r = int (ibr_expires_at_ms x)
     \<and> ib_status r = revocable_as_str (ibr_status x)
     \<and> ib_current_files r = int (ibr_current_files x) \<and> ib_current_bytes r = int (ibr_current_bytes x)
     \<and> ib_reserved_files r = int (ibr_reserved_files x) \<and> ib_reserved_bytes r = int (ibr_reserved_bytes x)
     \<and> ib_maximum_files r = int (ibr_maximum_files x) \<and> ib_maximum_bytes r = int (ibr_maximum_bytes x)
     \<and> ib_created_at_ms r = int (ibr_created_at_ms x)
     \<and> ib_revoked_at_ms r = map_option int (ibr_revoked_at_ms x)
     \<and> ibr_id x = ib_id r \<and> ibr_workspace_id x = ib_workspace_id r
     \<and> ibr_project_id x = ib_project_id r \<and> ibr_name x = ib_name r"
  by (cases x) (auto simp: inbox_row_decode_def result_simps revocable.parse_iff)

lemma create_inbox_inv:
  assumes inv: "store_wide_inv db" and ok: "create_inbox db n ev = (Ok x, db')"
  shows "store_wide_inv db'"
proof -
  obtain vals db1 where "validate_new_inbox n = Ok vals" and ins: "insert_inbox db n vals = Ok (1, db1)"
    and ev: "audit_insert db1 ev = Ok db'"
    using ok by (auto simp: create_inbox_def outcome_iffs result_simps split: if_split_asm)
  define row where "row = new_inbox_row n vals"
  have allowed: "inbox_allowed db row" and db1: "db1 = db\<lparr>inboxes := inboxes db @ [row]\<rparr>"
    using ins by (auto simp: insert_inbox_def row_def Let_def result_simps split: if_split_asm)
  note inv2 = store_wide_invD(2) [OF inv]
  have new: "ib_id row \<notin> ib_id ` set (inboxes db)" "ib_capability_hash row \<notin> ib_capability_hash ` set (inboxes db)"
    and chk: "inbox_check row"
    using allowed by (auto simp: inbox_allowed_def list_ex_iff)
  have none: "link_weight status (ib_id row) w l = 0" if "l \<in> set (inbox_uploads db)" for l status w
  proof -
    have "iu_inbox_id l \<in> ib_id ` set (inboxes db)" using that inv2 by (simp add: inbox_inv_def)
    then have "iu_inbox_id l \<noteq> ib_id row" using new(1) by metis
    then show ?thesis by (simp add: link_weight_def)
  qed
  have "link_total status (ib_id row) w (inbox_uploads db) = 0" for status w
    using none by (simp add: link_total_def cong: map_cong)
  then have "backed (inbox_uploads db) row" using chk by (simp add: backed_def inbox_check_def)
  then have "inbox_inv db1" using inv2 new chk by (auto simp: inbox_inv_def db1)
  then have "inbox_inv db'" by (rule terms_kept_inv [OF audit_insert_terms [OF ev]])
  moreover have "lifecycle_inv db1" using store_wide_invD(1) [OF inv] by (simp add: db1)
  then have "lifecycle_inv db'" using ev by (rule audit_insert_lifecycle_inv)
  ultimately show ?thesis by (simp add: store_wide_inv_def)
qed

lemma revoke_inbox_inv:
  assumes inv: "store_wide_inv db" and ok: "revoke_inbox db uid w t ev = (Ok b, db')"
  shows "store_wide_inv db'"
proof (cases "db' = db")
  case False
  let ?sel = "\<lambda>r. ib_id r = uid \<and> ib_workspace_id r = w \<and> ib_status r = ''active''"
  let ?ch = "\<lambda>r. r\<lparr>ib_status := ''revoked'', ib_revoked_at_ms := Some (int t)\<rparr>"
  from ok False obtain rows where up: "update_rows ?sel ?ch inbox_check (inboxes db) = Ok (1, rows)"
    and ev: "audit_insert (db\<lparr>inboxes := rows\<rparr>) ev = Ok db'"
    unfolding revoke_inbox_def finish_audited_change_def
    by (auto simp: outcome_iffs result_simps split: if_split_asm)
  note inv2 = store_wide_invD(2) [OF inv]
  have rows: "rows = map (\<lambda>r. if ?sel r then ?ch r else r) (inboxes db)"
    and chk: "\<forall>r \<in> set (inboxes db). ?sel r \<longrightarrow> inbox_check (?ch r)"
    using up by (simp_all add: update_rows_Ok_iff)
  have maps: "map ib_id rows = map ib_id (inboxes db)" "map ib_capability_hash rows = map ib_capability_hash (inboxes db)"
    by (simp_all add: rows)
  have "inbox_check r \<and> backed (inbox_uploads db) r" if "r \<in> set rows" for r
    using that chk inv2 by (auto simp: rows inbox_inv_def backed_def)
  moreover have "ib_id ` set rows = ib_id ` set (inboxes db)" using maps(1) by (metis set_map)
  ultimately have "inbox_inv (db\<lparr>inboxes := rows\<rparr>)" using inv2 maps by (simp add: inbox_inv_def)
  then have "inbox_inv db'" by (rule terms_kept_inv [OF audit_insert_terms [OF ev]])
  moreover have "lifecycle_inv (db\<lparr>inboxes := rows\<rparr>)" using store_wide_invD(1) [OF inv] by simp
  then have "lifecycle_inv db'" using ev by (rule audit_insert_lifecycle_inv)
  ultimately show ?thesis by (simp add: store_wide_inv_def)
qed (use inv in simp)

section \<open>Inbox uploads keep the ledger\<close>

lemma reserve_inbox_upload_D:
  assumes ok: "reserve_inbox_upload db iu n = (Ok x, db')"
  obtains inbox db1 db2 link where "active_by_capability db (niu_capability_hash iu) (int (niu_now_ms iu)) = Ok inbox"
    and "validate_scope inbox n (niu_now_ms iu) = Ok ()"
    and "reserve_capacity db (ibr_id inbox) (nur_expected_size n) = Ok db1"
    and "reserve_upload db1 n = (Ok x, db2)" and "insert_link db2 link = Ok db'"
    and "iu_upload_id link = nur_id n" and "iu_inbox_id link = ibr_id inbox"
    and "iu_reserved_size link = int (nur_expected_size n)" and "iu_status link = ''reserved''"
proof -
  define link where "link inbox val = \<lparr>iu_upload_id = nur_id n, iu_inbox_id = ibr_id inbox,
      iu_fingerprint_hash = niu_fingerprint_hash iu, iu_reserved_size = vr_expected_size val,
      iu_status = ''reserved'', iu_created_at_ms = vr_created_at_ms val\<rparr>" 
    for inbox :: InboxRecord and val :: ValidatedReservation
  from ok obtain val inbox db1 version dbv db2 where val: "validate_reservation n = Ok val"
    and inbox: "active_by_capability db (niu_capability_hash iu) (int (niu_now_ms iu)) = Ok inbox"
    and scope: "validate_scope inbox n (niu_now_ms iu) = Ok ()"
    and cap: "reserve_capacity db (ibr_id inbox) (nur_expected_size n) = Ok db1"
    and proj: "ensure_project db1 (nur_project_id n) = Ok ()" and ver: "next_version db1 n = Ok version"
    and insv: "insert_version db1 n version (vr_created_at_ms val) = Ok dbv"
    and insr: "insert_reservation dbv n val = Ok db2"
    and insl: "insert_link db2 (link inbox val) = Ok db'" and res: "reservation_by_id db' (nur_id n) = Ok x"
    unfolding reserve_inbox_upload_def link_def by (auto simp: outcome_iffs result_simps)
  have "db' = db2\<lparr>inbox_uploads := inbox_uploads db2 @ [link inbox val]\<rparr>"
    using insl by (auto simp: insert_link_def result_simps)
  then have "reservation_by_id db2 (nur_id n) = Ok x"
    using res by (simp add: reservation_by_id_def reservation_join_def)
  then have "reserve_upload db1 n = (Ok x, db2)"
    by (simp add: reserve_upload_def after_def write_transaction_def val proj ver insv insr)
  moreover have "vr_expected_size val = int (nur_expected_size n)" by (rule validate_reservation_D(1) [OF val])
  ultimately show thesis using that [OF inbox scope cap _ insl] by (simp add: link_def)
qed

lemma reserve_inbox_upload_inv:
  assumes inv: "store_wide_inv db" and ok: "reserve_inbox_upload db iu n = (Ok x, db')"
  shows "store_wide_inv db'"
proof -
  obtain inbox db1 db2 link where "active_by_capability db (niu_capability_hash iu) (int (niu_now_ms iu)) = Ok inbox"
    and cap: "reserve_capacity db (ibr_id inbox) (nur_expected_size n) = Ok db1"
    and res: "reserve_upload db1 n = (Ok x, db2)" and insl: "insert_link db2 link = Ok db'"
    and link: "iu_upload_id link = nur_id n" "iu_inbox_id link = ibr_id inbox"
      "iu_reserved_size link = int (nur_expected_size n)" "iu_status link = ''reserved''"
    by (rule reserve_inbox_upload_D [OF ok])
  note inv2 = store_wide_invD(2) [OF inv]
  define k where "k = int (nur_expected_size n)"
  define ch where "ch = (\<lambda>r :: inbox_row. r\<lparr>ib_reserved_files := ib_reserved_files r + 1, ib_reserved_bytes := ib_reserved_bytes r + k\<rparr>)"
  have keys: "distinct (map ib_id (inboxes db))" using inv2 by (simp add: inbox_inv_def)
  obtain guard where up: "update_capacity db (ibr_id inbox) guard ch = Ok db1"
    using cap unfolding reserve_capacity_def ch_def k_def by (auto simp: result_simps)
  obtain r where r: "r \<in> set (inboxes db)" "ib_id r = ibr_id inbox" and chk: "inbox_check (ch r)"
    and db1: "db1 = db\<lparr>inboxes := map (\<lambda>s. if s = r then ch r else s) (inboxes db)\<rparr>"
    by (rule update_capacity_D [OF keys up])
  have allowed: "inbox_upload_allowed db2 link" and db': "db' = db2\<lparr>inbox_uploads := inbox_uploads db2 @ [link]\<rparr>"
    using insl by (auto simp: insert_link_def result_simps)
  have life2: "lifecycle_inv db2"
    using lifecycle.inv_step [of db1 "Store (Transfer (ReserveUpload n))"] store_wide_invD(1) [OF inv] res
    by (simp add: db1 outcome_of_def)
  have "inboxes db2 = inboxes db1" "inbox_uploads db2 = inbox_uploads db" "inbox_rate_limits db2 = inbox_rate_limits db"
    using frame_inbox_tables [OF transfer_frame_reserve [OF res]] by (simp_all add: inbox_tables_def db1)
  then have tabs: "inboxes db' = map (\<lambda>s. if s = r then ch r else s) (inboxes db)"
    "inbox_uploads db' = inbox_uploads db @ [link]" "inbox_rate_limits db' = inbox_rate_limits db"
    by (simp_all add: db' db1)
  have terms: "reservation_terms (upload_reservations db) \<subseteq> reservation_terms (upload_reservations db')"
    using transfer_terms(1) [OF res] by (simp add: db' db1)
  have "inbox_inv db'"
  proof (rule inbox_inv_move [OF inv2 r(1)])
    show "inbox_check (ch r)" by (rule chk)
    have "backed (inbox_uploads db) r" using inv2 r(1) by (simp add: inbox_inv_def)
    then show "backed (inbox_uploads db') (ch r)"
      by (simp add: tabs backed_def link_total_append ch_def link_weight_def link r(2) k_def)
    show "link_total status i w (inbox_uploads db') = link_total status i w (inbox_uploads db)"
      if "i \<noteq> ib_id r" for status i w
      using that by (simp add: tabs link_total_append link_weight_def link r(2))
    show "distinct (map iu_upload_id (inbox_uploads db'))"
      using inv2 allowed tabs(2) \<open>inbox_uploads db2 = inbox_uploads db\<close>
      by (auto simp: inbox_inv_def inbox_upload_allowed_def list_ex_iff)
    have new: "(iu_upload_id link, iu_reserved_size link) \<in> reservation_terms (upload_reservations db')"
      using res by (rule reserve_upload_Ok_D)
        (auto simp: db' reservation_terms_def new_reservation_row_def link dest: validate_reservation_D(1))
    show "inbox_upload_check l \<and> (iu_upload_id l, iu_reserved_size l) \<in> reservation_terms (upload_reservations db')
        \<and> iu_inbox_id l \<in> ib_id ` set (inboxes db)" if "l \<in> set (inbox_uploads db')" for l
    proof (cases "l = link")
      case True
      moreover have "ibr_id inbox \<in> ib_id ` set (inboxes db)" using r by (metis imageI)
      ultimately show ?thesis using new allowed by (simp add: inbox_upload_allowed_def link(2))
    next
      case False
      then have "l \<in> set (inbox_uploads db)" using that by (simp add: tabs(2))
      with inv2 terms show ?thesis by (auto simp: inbox_inv_def)
    qed
  qed (simp_all add: tabs ch_def)
  moreover have "lifecycle_inv db'" using life2 by (simp add: db')
  ultimately show ?thesis by (simp add: store_wide_inv_def)
qed

text \<open>The reserved link of an upload, and what settling it does to the ledger.\<close>

lemma reserved_inbox_id_D:
  assumes "reserved_inbox_id db uid = Ok inbox_id"
  obtains l where "l \<in> set (inbox_uploads db)" and "iu_upload_id l = uid" and "iu_status l = ''reserved''"
    and "iu_inbox_id l = inbox_id"
  using query_row_Ok_D [OF assms [unfolded reserved_inbox_id_def]] by auto

lemma transition_link_eq:
  assumes keys: "distinct (map iu_upload_id (inbox_uploads db))" and l: "l \<in> set (inbox_uploads db)"
    "iu_upload_id l = uid" "iu_status l = ''reserved''" and chk: "inbox_upload_check (l\<lparr>iu_status := status\<rparr>)"
  shows "transition_link db uid status = Ok (db\<lparr>inbox_uploads :=
    map (\<lambda>k. if k = l then l\<lparr>iu_status := status\<rparr> else k) (inbox_uploads db)\<rparr>)"
proof -
  have "update_rows (\<lambda>l. iu_upload_id l = uid \<and> iu_status l = ''reserved'') (\<lambda>l. l\<lparr>iu_status := status\<rparr>)
      inbox_upload_check (inbox_uploads db)
    = Ok (1, map (\<lambda>k. if k = l then k\<lparr>iu_status := status\<rparr> else k) (inbox_uploads db))"
    by (rule update_rows_one [OF keys l(1)]) (use l(2,3) chk in auto)
  moreover have "map (\<lambda>k. if k = l then k\<lparr>iu_status := status\<rparr> else k) (inbox_uploads db)
      = map (\<lambda>k. if k = l then l\<lparr>iu_status := status\<rparr> else k) (inbox_uploads db)" by simp
  ultimately show ?thesis by (simp add: transition_link_def changed_once_def)
qed

lemma settle_link_inv:
  assumes inv: "inbox_inv db" and r: "r \<in> set (inboxes db)" "ib_id r = iu_inbox_id l"
    and l: "l \<in> set (inbox_uploads db)" "iu_status l = ''reserved''"
    and move: "status = ''complete'' \<and> files = 1 \<and> bytes = iu_reserved_size l \<or> status = ''aborted'' \<and> files = 0 \<and> bytes = 0"
    and r': "r' = r\<lparr>ib_reserved_files := ib_reserved_files r - 1, ib_reserved_bytes := ib_reserved_bytes r - iu_reserved_size l,
      ib_current_files := ib_current_files r + files, ib_current_bytes := ib_current_bytes r + bytes\<rparr>"
    and chk: "inbox_check r'"
  shows "inbox_inv (db\<lparr>inboxes := map (\<lambda>s. if s = r then r' else s) (inboxes db),
    inbox_uploads := map (\<lambda>k. if k = l then l\<lparr>iu_status := status\<rparr> else k) (inbox_uploads db)\<rparr>)"
proof (rule inbox_inv_move [OF inv r(1)])
  let ?l' = "l\<lparr>iu_status := status\<rparr>"
  let ?ls = "map (\<lambda>k. if k = l then ?l' else k) (inbox_uploads db)"
  have keys: "distinct (map iu_upload_id (inbox_uploads db))" using inv by (simp add: inbox_inv_def)
  then have "distinct (inbox_uploads db)" by (simp add: distinct_map)
  note total = link_total_update [OF this l(1), of _ _ _ ?l']
  show "inbox_check r'" by (rule chk)
  show "backed (inbox_uploads (db\<lparr>inboxes := map (\<lambda>s. if s = r then r' else s) (inboxes db), inbox_uploads := ?ls\<rparr>)) r'"
  proof -
    have "backed (inbox_uploads db) r" using inv r(1) by (simp add: inbox_inv_def)
    then show ?thesis
      using move l(2) by (auto simp: backed_def total r' link_weight_def r(2))
  qed
  show "link_total status' i w (inbox_uploads (db\<lparr>inboxes := map (\<lambda>s. if s = r then r' else s) (inboxes db),
      inbox_uploads := ?ls\<rparr>)) = link_total status' i w (inbox_uploads db)" if "i \<noteq> ib_id r" for status' i w
    using that by (simp add: total link_weight_def r(2))
  have "map iu_upload_id ?ls = map iu_upload_id (inbox_uploads db)" by simp
  then have "distinct (map iu_upload_id ?ls)" using keys by (simp only:)
  then show "distinct (map iu_upload_id (inbox_uploads (db\<lparr>inboxes := map (\<lambda>s. if s = r then r' else s) (inboxes db),
      inbox_uploads := ?ls\<rparr>)))" by simp
  show "inbox_upload_check k
      \<and> (iu_upload_id k, iu_reserved_size k) \<in> reservation_terms (upload_reservations
          (db\<lparr>inboxes := map (\<lambda>s. if s = r then r' else s) (inboxes db), inbox_uploads := ?ls\<rparr>))
      \<and> iu_inbox_id k \<in> ib_id ` set (inboxes db)"
    if "k \<in> set (inbox_uploads (db\<lparr>inboxes := map (\<lambda>s. if s = r then r' else s) (inboxes db), inbox_uploads := ?ls\<rparr>))" for k
  proof -
    have "k = ?l' \<or> k \<in> set (inbox_uploads db)" using that by (auto split: if_split_asm)
    moreover have "inbox_upload_check ?l'" if "inbox_upload_check l"
      using that move by (auto simp: inbox_upload_check_def)
    ultimately show ?thesis using inv l(1) by (auto simp: inbox_inv_def)
  qed
qed (simp_all add: r')

lemma find_terms:
  assumes "distinct (map ur_id rs)" and "(uid, k) \<in> reservation_terms rs"
  shows "map_option ur_expected_size (find (\<lambda>r. ur_id r = uid) rs) = Some k"
proof -
  obtain r where r: "r \<in> set rs" "ur_id r = uid" "ur_expected_size r = k"
    using assms(2) by (auto simp: reservation_terms_def)
  have "find (\<lambda>r. ur_id r = uid) rs = Some r"
  proof (rule find_unique [OF r(1)])
    show "y = r" if "y \<in> set rs" "ur_id y = uid" for y
      by (rule distinct_map_eq [OF assms(1) that(1) r(1)]) (simp add: that(2) r(2))
  qed (rule r(2))
  with r(3) show ?thesis by simp
qed

lemma reservation_decoded_terms:
  assumes "reservation_by_id db uid = Ok rec"
  shows "(uid, int (urr_expected_size rec)) \<in> reservation_terms (upload_reservations db)" and "urr_id rec = uid"
proof -
  obtain r v where r: "r \<in> set (upload_reservations db)" "ur_id r = uid" "upload_reservation (r, v) = Ok rec"
    by (rule reservation_by_id_D [OF assms])
  then have "ur_expected_size r = int (urr_expected_size rec)" "urr_id rec = ur_id r"
    by (simp_all add: upload_reservation_Ok_iff)
  then show "(uid, int (urr_expected_size rec)) \<in> reservation_terms (upload_reservations db)" "urr_id rec = uid"
    using r(1,2) by (force simp: reservation_terms_def)+
qed

lemma inbox_reservation_D:
  "inbox_reservation db h uid now = Ok rec \<Longrightarrow> reservation_by_id db uid = Ok rec"
  by (auto simp: inbox_reservation_def inbox_upload_reservation_def result_simps split: if_split_asm)

lemma update_state_rows:
  assumes "update_reservation_state db uid from_state to_state clear = Ok db1"
  shows "db1 = db\<lparr>upload_reservations := upload_reservations db1\<rparr>"
    and "reservation_terms (upload_reservations db1) = reservation_terms (upload_reservations db)"
    and "map ur_id (upload_reservations db1) = map ur_id (upload_reservations db)"
proof -
  obtain change n rows where up: "update_rows (\<lambda>r. ur_id r = uid \<and> ur_state r = from_state) change
      upload_reservation_check (upload_reservations db) = Ok (n, rows)"
    and db1: "db1 = db\<lparr>upload_reservations := rows\<rparr>"
    and keep: "\<And>r. ur_id (change r) = ur_id r" "\<And>r. ur_expected_size (change r) = ur_expected_size r"
    using assms by (cases clear) (auto simp: update_reservation_state_def result_simps)
  show "db1 = db\<lparr>upload_reservations := upload_reservations db1\<rparr>" by (simp add: db1)
  show "reservation_terms (upload_reservations db1) = reservation_terms (upload_reservations db)"
    using reservation_terms_update [OF up keep] by (simp add: db1)
  show "map ur_id (upload_reservations db1) = map ur_id (upload_reservations db)"
    using up by (auto simp: db1 update_rows_Ok_iff keep)
qed

lemma complete_inbox_upload_D:
  assumes inv: "transfer_inv db" and ok: "complete_inbox_upload db h uid now ev = (Ok x, db')"
  obtains rec inbox_id db1 db2 db3 where "inbox_reservation db h uid (int now) = Ok rec"
    and "reserved_inbox_id db uid = Ok inbox_id" and "complete_upload db uid = (Ok x, db1)"
    and "complete_capacity db1 inbox_id (urr_expected_size rec) = Ok db2"
    and "transition_link db2 uid ''complete'' = Ok db3" and "audit_insert db3 ev = Ok db'"
proof -
  from ok obtain rec inbox_id dbr db1 db2 db3 where acc: "validate_text uid = Ok ()"
    and rec: "inbox_reservation db h uid (int now) = Ok rec"
    and st: "require_state (urr_state rec) RsUploaded = Ok ()" and rid: "reserved_inbox_id db uid = Ok inbox_id"
    and up: "update_reservation_state db uid ''uploaded'' ''complete'' False = Ok dbr"
    and ver: "complete_inbox_version dbr rec = Ok db1"
    and cap: "complete_capacity db1 inbox_id (urr_expected_size rec) = Ok db2"
    and link: "transition_link db2 uid ''complete'' = Ok db3" and ev: "audit_insert db3 ev = Ok db'"
    and x: "object_version_by_id db' (ovr_id (urr_version rec)) = Ok x"
    unfolding complete_inbox_upload_def validate_access_def by (auto simp: outcome_iffs result_simps)
  note by_id = inbox_reservation_D [OF rec]
  have "distinct (map ur_id (upload_reservations dbr))"
    using transfer_invD(2) [OF inv] update_state_rows(3) [OF up] by (simp add: reservations_ok_def)
  from find_terms [OF this] reservation_decoded_terms [OF by_id] update_state_rows(2) [OF up]
  have size: "map_option ur_expected_size (find (\<lambda>r. ur_id r = urr_id rec) (upload_reservations dbr))
      = Some (int (urr_expected_size rec))" by simp
  have ver': "complete_version dbr (ovr_id (urr_version rec)) (Some (int (urr_expected_size rec)))
      (urr_expected_checksum rec) = Ok db1"
    using ver by (auto simp: complete_inbox_version_def result_simps)
  have "object_versions db' = object_versions db3" by (rule audit_insert_Ok_D [OF ev]) simp
  also have "\<dots> = object_versions db2" using link by (auto simp: transition_link_def result_simps)
  also have "\<dots> = object_versions db1"
    using cap by (auto simp: complete_capacity_def update_capacity_def result_simps)
  finally have "object_version_by_id db1 (ovr_id (urr_version rec)) = Ok x"
    using x by (simp add: object_version_by_id_def)
  then have "complete_upload db uid = (Ok x, db1)"
    by (simp add: complete_upload_def after_def write_transaction_def acc by_id st up size ver')
  then show thesis using that rec rid cap link ev by blast
qed

lemma abort_inbox_upload_D:
  assumes ok: "abort_inbox_upload db h uid now = (Ok x, db')"
  obtains inbox_id db1 db2 where "inbox_reservation db h uid (int now) = Ok x"
    and "reserved_inbox_id db uid = Ok inbox_id" and "abort_upload db uid = (Ok x, db1)"
    and "release_capacity db1 inbox_id (urr_expected_size x) = Ok db2"
    and "transition_link db2 uid ''aborted'' = Ok db'"
proof -
  from ok obtain inbox_id dbr db1 db2 where acc: "validate_text uid = Ok ()"
    and rec: "inbox_reservation db h uid (int now) = Ok x"
    and st: "\<not> (urr_state x \<noteq> RsRequested \<and> urr_state x \<noteq> RsUploaded)" and rid: "reserved_inbox_id db uid = Ok inbox_id"
    and up: "update_reservation_state db uid (reservation_state_as_str (urr_state x)) ''aborted'' True = Ok dbr"
    and ver: "abort_version (delete_parts dbr uid) (ovr_id (urr_version x)) = Ok db1"
    and cap: "release_capacity db1 inbox_id (urr_expected_size x) = Ok db2"
    and link: "transition_link db2 uid ''aborted'' = Ok db'"
    unfolding abort_inbox_upload_def validate_access_def by (auto simp: outcome_iffs result_simps split: if_split_asm)
  have "abort_upload db uid = (Ok x, db1)"
    using st by (simp add: abort_upload_def after_def write_transaction_def acc inbox_reservation_D [OF rec] up ver)
  then show thesis using that rec rid cap link by blast
qed

definition settled :: "int \<Rightarrow> int \<Rightarrow> int \<Rightarrow> inbox_row \<Rightarrow> inbox_row" where
  "settled k files bytes r = r\<lparr>ib_reserved_files := ib_reserved_files r - 1, ib_reserved_bytes := ib_reserved_bytes r - k,
     ib_current_files := ib_current_files r + files, ib_current_bytes := ib_current_bytes r + bytes\<rparr>"

lemma capacity_settled:
  "complete_capacity db inbox_id n = Ok db' \<Longrightarrow>
     update_capacity db inbox_id (\<lambda>r. ib_reserved_files r \<ge> 1 \<and> ib_reserved_bytes r \<ge> int n) (settled (int n) 1 (int n)) = Ok db'"
  "release_capacity db inbox_id n = Ok db' \<Longrightarrow>
     update_capacity db inbox_id (\<lambda>r. ib_reserved_files r \<ge> 1 \<and> ib_reserved_bytes r \<ge> int n) (settled (int n) 0 0) = Ok db'"
proof -
  have complete: "settled (int n) 1 (int n) = (\<lambda>r. r\<lparr>ib_reserved_files := ib_reserved_files r - 1,
      ib_reserved_bytes := ib_reserved_bytes r - int n, ib_current_files := ib_current_files r + 1,
      ib_current_bytes := ib_current_bytes r + int n\<rparr>)"
    and release: "settled (int n) 0 0 = (\<lambda>r. r\<lparr>ib_reserved_files := ib_reserved_files r - 1,
      ib_reserved_bytes := ib_reserved_bytes r - int n\<rparr>)"
    by (rule ext, simp add: settled_def)+
  show "complete_capacity db inbox_id n = Ok db' \<Longrightarrow>
     update_capacity db inbox_id (\<lambda>r. ib_reserved_files r \<ge> 1 \<and> ib_reserved_bytes r \<ge> int n) (settled (int n) 1 (int n)) = Ok db'"
    unfolding complete complete_capacity_def by (auto simp: result_simps)
  show "release_capacity db inbox_id n = Ok db' \<Longrightarrow>
     update_capacity db inbox_id (\<lambda>r. ib_reserved_files r \<ge> 1 \<and> ib_reserved_bytes r \<ge> int n) (settled (int n) 0 0) = Ok db'"
    unfolding release release_capacity_def by (auto simp: result_simps)
qed

lemma settle_store_wide:
  assumes inv: "store_wide_inv db" and l: "l \<in> set (inbox_uploads db)" "iu_upload_id l = uid" "iu_status l = ''reserved''"
    and cap: "update_capacity db (iu_inbox_id l) guard (settled (iu_reserved_size l) files bytes) = Ok db2"
    and link: "transition_link db2 uid status = Ok db3"
    and move: "status = ''complete'' \<and> files = 1 \<and> bytes = iu_reserved_size l \<or> status = ''aborted'' \<and> files = 0 \<and> bytes = 0"
  shows "store_wide_inv db3"
proof -
  note inv2 = store_wide_invD(2) [OF inv]
  have keys: "distinct (map ib_id (inboxes db))" "distinct (map iu_upload_id (inbox_uploads db))"
    using inv2 by (simp_all add: inbox_inv_def)
  obtain r where r: "r \<in> set (inboxes db)" "ib_id r = iu_inbox_id l"
    and chk: "inbox_check (settled (iu_reserved_size l) files bytes r)"
    and db2: "db2 = db\<lparr>inboxes := map (\<lambda>s. if s = r then settled (iu_reserved_size l) files bytes r else s) (inboxes db)\<rparr>"
    by (rule update_capacity_D [OF keys(1) cap])
  have "inbox_upload_check l" using inv2 l(1) by (simp add: inbox_inv_def)
  then have "inbox_upload_check (l\<lparr>iu_status := status\<rparr>)" using move by (auto simp: inbox_upload_check_def)
  then have db3: "db3 = db2\<lparr>inbox_uploads := map (\<lambda>k. if k = l then l\<lparr>iu_status := status\<rparr> else k) (inbox_uploads db2)\<rparr>"
    using link transition_link_eq [of db2 l uid status] keys(2) l by (simp add: db2)
  have "inbox_inv (db\<lparr>inboxes := map (\<lambda>s. if s = r then settled (iu_reserved_size l) files bytes r else s) (inboxes db),
      inbox_uploads := map (\<lambda>k. if k = l then l\<lparr>iu_status := status\<rparr> else k) (inbox_uploads db)\<rparr>)"
    by (rule settle_link_inv [OF inv2 r l(1,3) move _ chk]) (simp add: settled_def)
  then show ?thesis using store_wide_invD(1) [OF inv] by (simp add: store_wide_inv_def db3 db2)
qed

lemma link_size:
  assumes inv: "store_wide_inv db" and l: "l \<in> set (inbox_uploads db)" and rec: "reservation_by_id db (iu_upload_id l) = Ok rec"
  shows "iu_reserved_size l = int (urr_expected_size rec)"
proof -
  have "distinct (map ur_id (upload_reservations db))"
    using transfer_invD(2) [OF store_wide_transfer [OF inv]] by (simp add: reservations_ok_def)
  moreover have "(iu_upload_id l, iu_reserved_size l) \<in> reservation_terms (upload_reservations db)"
    using store_wide_invD(2) [OF inv] l by (simp add: inbox_inv_def)
  ultimately show ?thesis using find_terms reservation_decoded_terms(1) [OF rec] by (metis option.inject)
qed

lemma transfer_step_store_wide:
  assumes inv: "store_wide_inv db" and run: "transfer_exec c db = (r, db')"
  shows "store_wide_inv db'" and "inboxes db' = inboxes db" and "inbox_uploads db' = inbox_uploads db"
proof -
  show "store_wide_inv db'" using lifecycle_exec_store_wide [OF inv, of "Store (Transfer c)"] run by simp
  show "inboxes db' = inboxes db" "inbox_uploads db' = inbox_uploads db"
    using frame_inbox_tables [OF transfer_exec_frame [OF store_wide_transfer [OF inv] run]] by (simp_all add: inbox_tables_def)
qed

lemma audit_insert_store_wide: "store_wide_inv db \<Longrightarrow> audit_insert db ev = Ok db' \<Longrightarrow> store_wide_inv db'"
  using audit_insert_lifecycle_inv terms_kept_inv [OF audit_insert_terms] by (simp add: store_wide_inv_def) blast

lemma complete_inbox_upload_inv:
  assumes inv: "store_wide_inv db" and ok: "complete_inbox_upload db h uid now ev = (Ok x, db')"
  shows "store_wide_inv db'"
proof -
  obtain rec inbox_id db1 db2 db3 where rec: "inbox_reservation db h uid (int now) = Ok rec"
    and rid: "reserved_inbox_id db uid = Ok inbox_id" and com: "complete_upload db uid = (Ok x, db1)"
    and cap: "complete_capacity db1 inbox_id (urr_expected_size rec) = Ok db2"
    and link: "transition_link db2 uid ''complete'' = Ok db3" and ev: "audit_insert db3 ev = Ok db'"
    by (rule complete_inbox_upload_D [OF store_wide_transfer [OF inv] ok])
  obtain l where l: "l \<in> set (inbox_uploads db)" "iu_upload_id l = uid" "iu_status l = ''reserved''" "iu_inbox_id l = inbox_id"
    by (rule reserved_inbox_id_D [OF rid])
  have run: "transfer_exec (CompleteUpload uid) db = (Ok (), db1)" using com by (simp add: outcome_of_def)
  note step = transfer_step_store_wide [OF inv run]
  have size: "iu_reserved_size l = int (urr_expected_size rec)"
    using link_size [OF inv l(1)] inbox_reservation_D [OF rec] l(2) by simp
  have "store_wide_inv db3"
    by (rule settle_store_wide [OF step(1) _ l(2,3) _ link, where files = 1 and bytes = "iu_reserved_size l"])
      (use l capacity_settled(1) [OF cap] in \<open>simp_all add: step(3) size\<close>)
  then show ?thesis using ev by (rule audit_insert_store_wide)
qed

lemma abort_inbox_upload_inv:
  assumes inv: "store_wide_inv db" and ok: "abort_inbox_upload db h uid now = (Ok x, db')"
  shows "store_wide_inv db'"
proof -
  obtain inbox_id db1 db2 where rec: "inbox_reservation db h uid (int now) = Ok x"
    and rid: "reserved_inbox_id db uid = Ok inbox_id" and ab: "abort_upload db uid = (Ok x, db1)"
    and cap: "release_capacity db1 inbox_id (urr_expected_size x) = Ok db2"
    and link: "transition_link db2 uid ''aborted'' = Ok db'"
    by (rule abort_inbox_upload_D [OF ok])
  obtain l where l: "l \<in> set (inbox_uploads db)" "iu_upload_id l = uid" "iu_status l = ''reserved''" "iu_inbox_id l = inbox_id"
    by (rule reserved_inbox_id_D [OF rid])
  have run: "transfer_exec (AbortUpload uid) db = (Ok (), db1)" using ab by (simp add: outcome_of_def)
  note step = transfer_step_store_wide [OF inv run]
  have size: "iu_reserved_size l = int (urr_expected_size x)"
    using link_size [OF inv l(1)] inbox_reservation_D [OF rec] l(2) by simp
  show ?thesis
    by (rule settle_store_wide [OF step(1) _ l(2,3) _ link, where files = 0 and bytes = 0])
      (use l capacity_settled(2) [OF cap] in \<open>simp_all add: step(3) size\<close>)
qed

section \<open>The rate limiter\<close>

text \<open>The counter of one key: the start of its window and the requests counted in it.\<close>

definition rate_of :: "database \<Rightarrow> string \<Rightarrow> (int \<times> int) option" where
  "rate_of db key = map_option (\<lambda>r. (ir_window_started_at_ms r, ir_request_count r))
     (find (\<lambda>r. ir_rate_key r = key) (inbox_rate_limits db))"

text \<open>A fixed-window counter, as a pure function of the counter.\<close>

fun rate_step :: "int \<Rightarrow> int \<Rightarrow> int \<Rightarrow> (int \<times> int) option \<Rightarrow> bool \<times> (int \<times> int) option" where
  "rate_step window limit now None = (True, Some (now, 1))"
| "rate_step window limit now (Some (started, n)) =
     (if now - started < window
      then (if n \<ge> limit then (False, Some (started, n)) else (True, Some (started, n + 1)))
      else (True, Some (now, 1)))"

definition rates_ok :: "inbox_rate_row list \<Rightarrow> bool" where
  "rates_ok rows \<longleftrightarrow> distinct (map ir_rate_key rows) \<and> (\<forall>r \<in> set rows. inbox_rate_check r)"

lemma find_append: "find P (xs @ ys) = (case find P xs of None \<Rightarrow> find P ys | Some x \<Rightarrow> Some x)"
  by (induction xs) auto

lemma find_rate_changed:
  assumes "distinct (map ir_rate_key rows)" and "r \<in> set rows" and "ir_rate_key r' = ir_rate_key r"
  shows "find (\<lambda>s. ir_rate_key s = key) (map (\<lambda>s. if s = r then r' else s) rows)
    = (if key = ir_rate_key r then Some r' else find (\<lambda>s. ir_rate_key s = key) rows)"
  using assms
proof (induction rows)
  case (Cons s rows)
  have "map (\<lambda>s. if s = r then r' else s) rows = rows" if "s = r"
    using that Cons.prems(1) by (auto intro!: map_idI)
  with Cons show ?case by (cases "s = r") auto
qed simp

lemma consume_rate_cases:
  assumes "consume_rate key window limit now db = Ok x"
  shows "window \<noteq> 0" and "limit \<noteq> 0" and "now \<le> i64_max" and "window \<le> i64_max"
    and "(case find (\<lambda>r. ir_rate_key r = key) (inbox_rate_limits db) of
            Some r \<Rightarrow> if int now - ir_window_started_at_ms r < int window
              then consume_current key (ir_window_started_at_ms r) (ir_request_count r) (int now) (int window) limit db
              else reset_rate key (int now) db
          | None \<Rightarrow> reset_rate key (int now) db) = Ok x"
proof -
  have guards: "\<not> (window = 0 \<or> limit = 0)" using assms by (simp add: consume_rate_def split: if_split_asm)
  obtain u n w where "to_i64 now = Ok n" "to_i64 window = Ok w"
    and body: "(case find (\<lambda>r. ir_rate_key r = key) (inbox_rate_limits db) of
            Some r \<Rightarrow> if n - ir_window_started_at_ms r < w
              then consume_current key (ir_window_started_at_ms r) (ir_request_count r) n w limit db
              else reset_rate key n db
          | None \<Rightarrow> reset_rate key n db) = Ok x"
    using assms guards unfolding consume_rate_def if_not_P [OF guards] and_then_Ok_iff by blast
  then have "n = int now" "w = int window" and bounds: "now \<le> i64_max" "window \<le> i64_max"
    by (simp_all add: to_i64_def split: if_split_asm)
  with guards body show "window \<noteq> 0" "limit \<noteq> 0" "now \<le> i64_max" "window \<le> i64_max"
    "(case find (\<lambda>r. ir_rate_key r = key) (inbox_rate_limits db) of
            Some r \<Rightarrow> if int now - ir_window_started_at_ms r < int window
              then consume_current key (ir_window_started_at_ms r) (ir_request_count r) (int now) (int window) limit db
              else reset_rate key (int now) db
          | None \<Rightarrow> reset_rate key (int now) db) = Ok x"
    by (simp_all only: de_Morgan_disj not_False_eq_True simp_thms)
qed

lemma consume_current_D:
  assumes "consume_current key started count now window limit db = Ok (x, db')"
  obtains (full) "count \<ge> int limit" "x = Limited (div_ceil (nat \<bar>saturating_add_i64 started window - now\<bar>) 1000)" "db' = db"
    | (counted) n rows where "\<not> count \<ge> int limit" "x = Allowed" "db' = db\<lparr>inbox_rate_limits := rows\<rparr>"
      "update_rows (\<lambda>s. ir_rate_key s = key) (\<lambda>s. s\<lparr>ir_request_count := ir_request_count s + 1\<rparr>) inbox_rate_check
         (inbox_rate_limits db) = Ok (n, rows)"
proof (cases "count \<ge> int limit")
  case True
  then show ?thesis using assms by (intro full) (simp_all add: consume_current_def)
next
  case False
  obtain y where y: "update_rows (\<lambda>s. ir_rate_key s = key) (\<lambda>s. s\<lparr>ir_request_count := ir_request_count s + 1\<rparr>)
      inbox_rate_check (inbox_rate_limits db) = Ok y" "(case y of (n, rows) \<Rightarrow> Ok (Allowed, db\<lparr>inbox_rate_limits := rows\<rparr>))
        = (Ok (x, db') :: RepositoryError + _)"
    using assms unfolding consume_current_def if_not_P [OF False] and_then_Ok_iff by (elim exE conjE) (rule that)
  obtain n rows where "y = (n, rows)" by (rule prod.exhaust)
  with y show ?thesis by (intro counted [OF False]) simp_all
qed

definition fresh_rate :: "string \<Rightarrow> int \<Rightarrow> inbox_rate_row" where
  "fresh_rate key now = \<lparr>ir_rate_key = key, ir_window_started_at_ms = now, ir_request_count = 1\<rparr>"

lemma reset_rate_D:
  assumes "reset_rate key now db = Ok (x, db')"
  obtains (fresh) "\<not> list_ex (\<lambda>r. ir_rate_key r = key) (inbox_rate_limits db)" "x = Allowed" "inbox_rate_check (fresh_rate key now)"
      "db' = db\<lparr>inbox_rate_limits := inbox_rate_limits db @ [fresh_rate key now]\<rparr>"
    | (again) n rows where "list_ex (\<lambda>r. ir_rate_key r = key) (inbox_rate_limits db)" "x = Allowed" "db' = db\<lparr>inbox_rate_limits := rows\<rparr>"
      "update_rows (\<lambda>s. ir_rate_key s = key) (\<lambda>_. fresh_rate key now) inbox_rate_check (inbox_rate_limits db) = Ok (n, rows)"
proof (cases "list_ex (\<lambda>r. ir_rate_key r = key) (inbox_rate_limits db)")
  case True
  obtain y where y: "update_rows (\<lambda>s. ir_rate_key s = key) (\<lambda>_. fresh_rate key now) inbox_rate_check (inbox_rate_limits db) = Ok y"
      "(case y of (n, rows) \<Rightarrow> Ok (Allowed, db\<lparr>inbox_rate_limits := rows\<rparr>))
        = (Ok (x, db') :: RepositoryError + _)"
    using assms unfolding reset_rate_def Let_def if_P [OF True] and_then_Ok_iff fresh_rate_def [symmetric] by (elim exE conjE) (rule that)
  obtain n rows where "y = (n, rows)" by (rule prod.exhaust)
  with y show ?thesis by (intro again [OF True]) simp_all
next
  case False
  then show ?thesis using assms
    by (intro fresh) (simp_all add: reset_rate_def and_then_Ok_iff insert_row_def Let_def fresh_rate_def split: if_split_asm)
qed

text \<open>One request, refined: the answer and the counter of the key are those of \<open>rate_step\<close>, every
  other counter keeps its value.\<close>

lemma consume_rate_refines:
  assumes ok: "rates_ok (inbox_rate_limits db)" and run: "consume_inbox_rate db key window limit now = (Ok x, db')"
  shows "(x = Allowed, rate_of db' key) = rate_step (int window) (int limit) (int now) (rate_of db key)"
    and "other \<noteq> key \<Longrightarrow> rate_of db' other = rate_of db other"
    and "rates_ok (inbox_rate_limits db')" and "db' = db\<lparr>inbox_rate_limits := inbox_rate_limits db'\<rparr>"
proof -
  let ?fresh = "fresh_rate key (int now)"
  have keys: "distinct (map ir_rate_key (inbox_rate_limits db))" using ok by (simp add: rates_ok_def)
  have upd: "update_rows (\<lambda>s. ir_rate_key s = key) change inbox_rate_check (inbox_rate_limits db) = Ok (n, rows) \<Longrightarrow>
      rows = map (\<lambda>s. if s = r then change r else s) (inbox_rate_limits db) \<and> inbox_rate_check (change r)"
    if r: "r \<in> set (inbox_rate_limits db)" "ir_rate_key r = key" for r change n rows
  proof -
    have "ir_rate_key s = key \<longleftrightarrow> s = r" if "s \<in> set (inbox_rate_limits db)" for s
      using distinct_map_eq [OF keys that r(1)] r(2) by auto
    moreover assume "update_rows (\<lambda>s. ir_rate_key s = key) change inbox_rate_check (inbox_rate_limits db) = Ok (n, rows)"
    ultimately show ?thesis using r by (auto simp: update_rows_Ok_iff)
  qed
  have step: "consume_rate key window limit now db = Ok (x, db')"
    using run by (simp add: consume_inbox_rate_def outcome_iffs)
  note body = consume_rate_cases(5) [OF step]
  consider (fresh) "find (\<lambda>r. ir_rate_key r = key) (inbox_rate_limits db) = None" "x = Allowed"
      "inbox_rate_check ?fresh" "db' = db\<lparr>inbox_rate_limits := inbox_rate_limits db @ [?fresh]\<rparr>"
    | (seen) r r' where "find (\<lambda>r. ir_rate_key r = key) (inbox_rate_limits db) = Some r" "inbox_rate_check r'"
      "ir_rate_key r' = key" "db' = db\<lparr>inbox_rate_limits := map (\<lambda>s. if s = r then r' else s) (inbox_rate_limits db)\<rparr>"
      "(x = Allowed, Some (ir_window_started_at_ms r', ir_request_count r'))
        = rate_step (int window) (int limit) (int now) (Some (ir_window_started_at_ms r, ir_request_count r))"
  proof (cases "find (\<lambda>r. ir_rate_key r = key) (inbox_rate_limits db)")
    case None
    then have none: "\<not> list_ex (\<lambda>r. ir_rate_key r = key) (inbox_rate_limits db)" by (auto simp: find_None_iff list_ex_iff)
    from body None have "reset_rate key (int now) db = Ok (x, db')" by simp
    then show thesis
    proof (cases rule: reset_rate_D)
      case new: fresh
      show thesis by (rule fresh [OF None new(2,3,4)])
    next
      case (again n rows)
      with none show thesis by simp
    qed
  next
    case (Some r)
    have r: "r \<in> set (inbox_rate_limits db)" "ir_rate_key r = key" using find_Some_iff_first [OF Some] by simp_all
    have chk: "inbox_rate_check r" using ok r(1) by (simp add: rates_ok_def)
    have same: "db = db\<lparr>inbox_rate_limits := map (\<lambda>s. if s = r then r else s) (inbox_rate_limits db)\<rparr>"
      by (simp add: map_idI)
    have ex: "list_ex (\<lambda>r. ir_rate_key r = key) (inbox_rate_limits db)" using r by (auto simp: list_ex_iff)
    show thesis
    proof (cases "int now - ir_window_started_at_ms r < int window")
      case True
      with body Some have "consume_current key (ir_window_started_at_ms r) (ir_request_count r) (int now) (int window) limit db
          = Ok (x, db')" by simp
      then show thesis
      proof (cases rule: consume_current_D)
        case full
        then show thesis using seen [of r r] Some chk r(2) same True by simp
      next
        case (counted n rows)
        show thesis
          using seen [of r "r\<lparr>ir_request_count := ir_request_count r + 1\<rparr>"] Some upd [OF r counted(4)] counted(1-3) r(2) True
          by simp
      qed
    next
      case False
      with body Some have "reset_rate key (int now) db = Ok (x, db')" by simp
      then show thesis
      proof (cases rule: reset_rate_D)
        case fresh
        with ex show thesis by simp
      next
        case (again n rows)
        show thesis using seen [of r ?fresh] Some upd [OF r again(4)] again(2,3) False by (simp add: fresh_rate_def)
      qed
    qed
  qed
  then have "(x = Allowed, rate_of db' key) = rate_step (int window) (int limit) (int now) (rate_of db key)
    \<and> (other \<noteq> key \<longrightarrow> rate_of db' other = rate_of db other) \<and> rates_ok (inbox_rate_limits db')
    \<and> db' = db\<lparr>inbox_rate_limits := inbox_rate_limits db'\<rparr>"
  proof cases
    case fresh
    then have "key \<notin> ir_rate_key ` set (inbox_rate_limits db)" by (auto simp: find_None_iff)
    with fresh ok show ?thesis by (auto simp: rate_of_def rates_ok_def fresh_rate_def find_append split: option.split)
  next
    case (seen r r')
    have r: "r \<in> set (inbox_rate_limits db)" "ir_rate_key r = key" using find_Some_iff_first [OF seen(1)] by simp_all
    have "map ir_rate_key (map (\<lambda>s. if s = r then r' else s) (inbox_rate_limits db)) = map ir_rate_key (inbox_rate_limits db)"
      using seen(3) r(2) by simp
    then have "distinct (map ir_rate_key (map (\<lambda>s. if s = r then r' else s) (inbox_rate_limits db)))"
      using keys by (simp only:)
    then have "rates_ok (map (\<lambda>s. if s = r then r' else s) (inbox_rate_limits db))"
      using ok seen(2) by (auto simp: rates_ok_def)
    then show ?thesis
      using seen r by (simp add: rate_of_def find_rate_changed [OF keys r(1)])
  qed
  then show "(x = Allowed, rate_of db' key) = rate_step (int window) (int limit) (int now) (rate_of db key)"
    "other \<noteq> key \<Longrightarrow> rate_of db' other = rate_of db other" "rates_ok (inbox_rate_limits db')"
    "db' = db\<lparr>inbox_rate_limits := inbox_rate_limits db'\<rparr>" by blast+
qed

lemma consume_rate_inv:
  assumes inv: "store_wide_inv db" and ok: "consume_inbox_rate db key window limit now = (Ok x, db')"
  shows "store_wide_inv db'"
proof -
  note inv2 = store_wide_invD(2) [OF inv]
  have "rates_ok (inbox_rate_limits db)" using inv2 by (simp add: rates_ok_def inbox_inv_def)
  note step = consume_rate_refines(3,4) [OF this ok]
  have "inbox_inv (db\<lparr>inbox_rate_limits := inbox_rate_limits db'\<rparr>)"
    using rates_move [OF inv2] step(1) by (simp add: rates_ok_def)
  moreover have "lifecycle_inv (db\<lparr>inbox_rate_limits := inbox_rate_limits db'\<rparr>)" using store_wide_invD(1) [OF inv] by simp
  ultimately show ?thesis by (subst step(2)) (simp add: store_wide_inv_def)
qed

end
