(* ===== verification/Inbox_Histories.thy ===== *)
theory Inbox_Histories
  imports Inbox_Properties
begin

text \<open>
  The whole store as one service: transfers, shares, audit, deletions, retention and guest inboxes
  as commands on one database, and what its histories guarantee of an inbox: its budget is never
  exceeded, an accepted upload can always be settled, and its rate limit bounds every burst.
\<close>

section \<open>The service\<close>

datatype inbox_command =
  Metadata lifecycle_command
| CreateInbox NewInbox NewAuditEvent
| RevokeInbox string string nat NewAuditEvent
| ReserveInboxUpload NewInboxUpload NewUploadReservation
| CompleteInboxUpload string string nat NewAuditEvent
| AbortInboxUpload string string nat
| ConsumeRate string nat nat nat

fun inbox_exec :: "inbox_command \<Rightarrow> database \<Rightarrow> (RepositoryError + unit) \<times> database" where
  "inbox_exec (Metadata c) db = lifecycle_exec c db"
| "inbox_exec (CreateInbox n e) db = outcome_of (create_inbox db n e)"
| "inbox_exec (RevokeInbox uid w t e) db = outcome_of (revoke_inbox db uid w t e)"
| "inbox_exec (ReserveInboxUpload i n) db = outcome_of (reserve_inbox_upload db i n)"
| "inbox_exec (CompleteInboxUpload h uid t e) db = outcome_of (complete_inbox_upload db h uid t e)"
| "inbox_exec (AbortInboxUpload h uid t) db = outcome_of (abort_inbox_upload db h uid t)"
| "inbox_exec (ConsumeRate key w l t) db = outcome_of (consume_inbox_rate db key w l t)"

lemma inbox_failed_unchanged:
  "create_inbox db n ev = (Err e, db') \<Longrightarrow> db' = db"
  "revoke_inbox db uid w t ev = (Err e, db') \<Longrightarrow> db' = db"
  "reserve_inbox_upload db i r = (Err e, db') \<Longrightarrow> db' = db"
  "complete_inbox_upload db h uid t ev = (Err e, db') \<Longrightarrow> db' = db"
  "abort_inbox_upload db h uid t = (Err e, db') \<Longrightarrow> db' = db"
  "consume_inbox_rate db key window limit t = (Err e, db') \<Longrightarrow> db' = db"
  unfolding create_inbox_def revoke_inbox_def reserve_inbox_upload_def complete_inbox_upload_def
    abort_inbox_upload_def consume_inbox_rate_def
  by (auto dest!: after_Err_D write_transaction_Err_D split: prod.split_asm)

lemmas inbox_op_inv =
  create_inbox_inv revoke_inbox_inv reserve_inbox_upload_inv complete_inbox_upload_inv abort_inbox_upload_inv
  consume_rate_inv

interpretation guest_store: transactional_service inbox_exec "\<lambda>r. \<not> is_ok r" store_wide_inv
proof unfold_locales
  fix db c r db'
  assume inv: "store_wide_inv db" and run: "inbox_exec c db = (r, db')" and bad: "\<not> is_ok r"
  then show "db' = db"
    by (cases c) (auto dest!: outcome_of_Err dest: inbox_failed_unchanged
        lifecycle.failed_unchanged [OF store_wide_invD(1)])
next
  fix db c r db'
  assume inv: "store_wide_inv db" and run: "inbox_exec c db = (r, db')" and ok: "\<not> \<not> is_ok r"
  show "store_wide_inv db'"
  proof (cases c)
    case (Metadata lc)
    with run show ?thesis using lifecycle_exec_store_wide [OF inv] by simp
  qed (use run ok in \<open>auto dest!: outcome_of_Ok dest: inbox_op_inv [OF inv]\<close>)
qed

section \<open>The budget\<close>

definition inbox_usage :: "database \<Rightarrow> string \<Rightarrow> (inbox_upload_row \<Rightarrow> int) \<Rightarrow> int" where
  "inbox_usage db inbox_id weight =
     link_total ''complete'' inbox_id weight (inbox_uploads db)
     + link_total ''reserved'' inbox_id weight (inbox_uploads db)"

lemma usage_within_maximum:
  assumes inv: "store_wide_inv db" and r: "r \<in> set (inboxes db)"
  shows "inbox_usage db (ib_id r) one_file \<le> ib_maximum_files r"
    and "inbox_usage db (ib_id r) iu_reserved_size \<le> ib_maximum_bytes r"
proof -
  have "inbox_check r" "backed (inbox_uploads db) r"
    using store_wide_invD(2) [OF inv] r by (auto simp: inbox_inv_def)
  then show "inbox_usage db (ib_id r) one_file \<le> ib_maximum_files r"
    "inbox_usage db (ib_id r) iu_reserved_size \<le> ib_maximum_bytes r"
    by (auto simp: inbox_usage_def backed_def inbox_check_def)
qed

section \<open>Settling an upload\<close>

lemma link_total_member:
  assumes "l \<in> set ls" and "\<And>k. k \<in> set ls \<Longrightarrow> 0 \<le> link_weight status i w k"
  shows "link_weight status i w l \<le> link_total status i w ls"
  using assms unfolding link_total_def by (intro member_le_sum_list) auto

lemma capacity_present:
  assumes inv: "store_wide_inv db" and l: "l \<in> set (inbox_uploads db)" "iu_status l = ''reserved''"
  obtains r where "r \<in> set (inboxes db)" and "ib_id r = iu_inbox_id l" and "1 \<le> ib_reserved_files r"
    and "iu_reserved_size l \<le> ib_reserved_bytes r" and "inbox_check r" and "0 \<le> iu_reserved_size l"
proof -
  note inv2 = store_wide_invD(2) [OF inv]
  have chk: "inbox_upload_check k" if "k \<in> set (inbox_uploads db)" for k using inv2 that by (simp add: inbox_inv_def)
  obtain r where r: "r \<in> set (inboxes db)" "ib_id r = iu_inbox_id l"
    using inv2 l(1) by (auto simp: inbox_inv_def)
  have rows: "inbox_check r" "backed (inbox_uploads db) r" using inv2 r(1) by (auto simp: inbox_inv_def)
  have "1 \<le> link_total ''reserved'' (ib_id r) one_file (inbox_uploads db)"
    using link_total_member [OF l(1), of "''reserved''" "ib_id r" one_file] l(2) r(2) by (simp add: link_weight_def)
  moreover have "iu_reserved_size l \<le> link_total ''reserved'' (ib_id r) iu_reserved_size (inbox_uploads db)"
    using link_total_member [OF l(1), of "''reserved''" "ib_id r" iu_reserved_size] link_weight_nonneg chk l(2) r(2)
    by (simp add: link_weight_def)
  ultimately show thesis
    using that [OF r] rows chk [OF l(1)] by (simp add: backed_def inbox_upload_check_def)
qed

lemma settle_possible:
  assumes inv: "store_wide_inv db" and l: "l \<in> set (inbox_uploads db)" "iu_status l = ''reserved''"
    and move: "files = 1 \<and> bytes = iu_reserved_size l \<or> files = 0 \<and> bytes = 0"
  obtains r where "r \<in> set (inboxes db)" and "ib_id r = iu_inbox_id l"
    and "update_capacity db (iu_inbox_id l) (\<lambda>r. ib_reserved_files r \<ge> 1 \<and> ib_reserved_bytes r \<ge> iu_reserved_size l)
      (settled (iu_reserved_size l) files bytes) = Ok (db\<lparr>inboxes :=
        map (\<lambda>s. if s = r then settled (iu_reserved_size l) files bytes r else s) (inboxes db)\<rparr>)"
proof -
  obtain r where r: "r \<in> set (inboxes db)" "ib_id r = iu_inbox_id l" "1 \<le> ib_reserved_files r"
      "iu_reserved_size l \<le> ib_reserved_bytes r" "inbox_check r" "0 \<le> iu_reserved_size l"
    by (rule capacity_present [OF inv l])
  let ?sel = "\<lambda>r. ib_id r = iu_inbox_id l \<and> ib_reserved_files r \<ge> 1 \<and> ib_reserved_bytes r \<ge> iu_reserved_size l"
  have keys: "distinct (map ib_id (inboxes db))" using store_wide_invD(2) [OF inv] by (simp add: inbox_inv_def)
  have "inbox_check (settled (iu_reserved_size l) files bytes r)"
    using r(3-6) move unfolding inbox_check_def settled_def by (auto split: if_splits option.splits)
  then have "update_rows ?sel (settled (iu_reserved_size l) files bytes) inbox_check (inboxes db)
      = Ok (1, map (\<lambda>s. if s = r then settled (iu_reserved_size l) files bytes s else s) (inboxes db))"
    using update_rows_one [OF keys r(1), of ?sel inbox_check "settled (iu_reserved_size l) files bytes"] r(2-4) by simp
  moreover have "map (\<lambda>s. if s = r then settled (iu_reserved_size l) files bytes s else s) (inboxes db)
      = map (\<lambda>s. if s = r then settled (iu_reserved_size l) files bytes r else s) (inboxes db)" by simp
  ultimately show thesis using that [OF r(1,2)] by (simp add: update_capacity_def changed_once_def cong: if_cong)
qed

lemma settled_eqs:
  "n \<le> i64_max \<Longrightarrow> complete_capacity db inbox_id n =
     update_capacity db inbox_id (\<lambda>r. ib_reserved_files r \<ge> 1 \<and> ib_reserved_bytes r \<ge> int n) (settled (int n) 1 (int n))"
  "n \<le> i64_max \<Longrightarrow> release_capacity db inbox_id n =
     update_capacity db inbox_id (\<lambda>r. ib_reserved_files r \<ge> 1 \<and> ib_reserved_bytes r \<ge> int n) (settled (int n) 0 0)"
proof -
  have "settled (int n) 1 (int n) = (\<lambda>r. r\<lparr>ib_reserved_files := ib_reserved_files r - 1,
      ib_reserved_bytes := ib_reserved_bytes r - int n, ib_current_files := ib_current_files r + 1,
      ib_current_bytes := ib_current_bytes r + int n\<rparr>)"
    "settled (int n) 0 0 = (\<lambda>r. r\<lparr>ib_reserved_files := ib_reserved_files r - 1,
      ib_reserved_bytes := ib_reserved_bytes r - int n\<rparr>)"
    by (rule ext, simp add: settled_def)+
  then show "n \<le> i64_max \<Longrightarrow> complete_capacity db inbox_id n =
     update_capacity db inbox_id (\<lambda>r. ib_reserved_files r \<ge> 1 \<and> ib_reserved_bytes r \<ge> int n) (settled (int n) 1 (int n))"
    "n \<le> i64_max \<Longrightarrow> release_capacity db inbox_id n =
     update_capacity db inbox_id (\<lambda>r. ib_reserved_files r \<ge> 1 \<and> ib_reserved_bytes r \<ge> int n) (settled (int n) 0 0)"
    by (simp_all add: complete_capacity_def release_capacity_def to_i64_def)
qed

lemma reservation_size_bound:
  assumes inv: "transfer_inv db" and rec: "reservation_by_id db uid = Ok rec"
  shows "urr_expected_size rec \<le> i64_max"
proof -
  obtain r v where r: "r \<in> set (upload_reservations db)" "ur_id r = uid" "upload_reservation (r, v) = Ok rec"
    by (rule reservation_by_id_D [OF rec])
  have "reservation_row_ok r" using transfer_invD(2) [OF inv] r(1) by (simp add: reservations_ok_def)
  moreover have "ur_expected_size r = int (urr_expected_size rec)" using r(3) by (simp add: upload_reservation_Ok_iff)
  ultimately show ?thesis by (auto simp: reservation_row_ok_def)
qed

text \<open>The steps of a completed upload, put back together.\<close>

lemma complete_inbox_upload_I:
  assumes inv: "transfer_inv db" and acc: "validate_access h uid = Ok ()" and t: "now \<le> i64_max"
    and rec: "inbox_reservation db h uid (int now) = Ok rec" and st: "urr_state rec = RsUploaded"
    and rid: "reserved_inbox_id db uid = Ok inbox_id"
    and event: "validate_upload_event ev ''inbox.uploaded'' inbox_id (urr_expected_size rec) now = Ok ()"
    and com: "complete_upload db uid = (Ok x, db1)"
    and cap: "complete_capacity db1 inbox_id (urr_expected_size rec) = Ok db2"
    and link: "transition_link db2 uid ''complete'' = Ok db3" and ev: "audit_insert db3 ev = Ok db'"
  shows "complete_inbox_upload db h uid now ev = (Ok x, db')"
proof -
  note by_id = inbox_reservation_D [OF rec]
  from com obtain rec' dbr where uid: "validate_text uid = Ok ()" and "reservation_by_id db uid = Ok rec'"
    and up: "update_reservation_state db uid ''uploaded'' ''complete'' False = Ok dbr"
    and ver: "complete_version dbr (ovr_id (urr_version rec'))
      (map_option ur_expected_size (find (\<lambda>r. ur_id r = urr_id rec') (upload_reservations dbr)))
      (urr_expected_checksum rec') = Ok db1"
    and x: "object_version_by_id db1 (ovr_id (urr_version rec')) = Ok x"
    unfolding complete_upload_def by (auto simp: outcome_iffs result_simps)
  then have same: "rec' = rec" using by_id by simp
  have "distinct (map ur_id (upload_reservations dbr))"
    using transfer_invD(2) [OF inv] update_state_rows(3) [OF up] by (simp add: reservations_ok_def)
  from find_terms [OF this] reservation_decoded_terms [OF by_id] update_state_rows(2) [OF up]
  have "map_option ur_expected_size (find (\<lambda>r. ur_id r = urr_id rec) (upload_reservations dbr))
      = Some (int (urr_expected_size rec))" by simp
  with ver same have ver': "complete_inbox_version dbr rec = Ok db1"
    using reservation_size_bound [OF inv by_id] by (simp add: complete_inbox_version_def to_i64_def)
  have "object_versions db' = object_versions db3" by (rule audit_insert_Ok_D [OF ev]) simp
  also have "\<dots> = object_versions db2" using link by (auto simp: transition_link_def result_simps)
  also have "\<dots> = object_versions db1"
    using cap by (auto simp: complete_capacity_def update_capacity_def result_simps)
  finally have "object_version_by_id db' (ovr_id (urr_version rec)) = Ok x"
    using x same by (simp add: object_version_by_id_def)
  then show ?thesis
    using acc t rec st rid event up ver' cap link ev
    by (simp add: complete_inbox_upload_def after_def write_transaction_def to_i64_def require_state_def)
qed

lemma uploaded_completes:
  assumes inv: "transfer_inv db" and uid: "validate_text uid = Ok ()"
    and by_id: "reservation_by_id db uid = Ok rec" and st: "urr_state rec = RsUploaded"
  obtains x db1 where "complete_upload db uid = (Ok x, db1)" and "ovr_state x = UsComplete"
    and "ovr_size x = Some (urr_expected_size rec)"
proof -
  obtain r v where r: "r \<in> set (upload_reservations db)" "ur_id r = uid"
    and v: "v \<in> set (object_versions db)" "ov_id v = ur_version_id r" and dec: "upload_reservation (r, v) = Ok rec"
    by (rule reservation_by_id_D [OF by_id])
  have rst: "ur_state r = ''uploaded''" and size: "ur_expected_size r = int (urr_expected_size rec)"
    using dec st by (simp_all add: upload_reservation_Ok_iff)
  show thesis
  proof (rule complete_upload_uploaded [OF inv uid r rst v])
    fix x
    assume x: "object_version (v\<lparr>ov_state := ''complete'', ov_size := Some (ur_expected_size r),
        ov_checksum := Some (ur_expected_checksum r)\<rparr>) = Ok x"
      and run: "complete_upload db uid = (Ok x,
        db\<lparr>upload_reservations := map (\<lambda>s. if s = r then r\<lparr>ur_state := ''complete''\<rparr> else s) (upload_reservations db),
          object_versions := map (\<lambda>w. if w = v then v\<lparr>ov_state := ''complete'', ov_size := Some (ur_expected_size r),
            ov_checksum := Some (ur_expected_checksum r)\<rparr> else w) (object_versions db)\<rparr>)"
    have "ovr_state x = UsComplete" using x by (cases "ovr_state x") (auto simp: object_version_Ok_iff)
    moreover have "ovr_size x = Some (urr_expected_size rec)"
      using x size by (cases "ovr_size x") (auto simp: object_version_Ok_iff)
    ultimately show thesis by (rule that [OF run])
  qed
qed

lemma reserved_inbox_id_link:
  assumes inv: "inbox_inv db" and l: "l \<in> set (inbox_uploads db)" "iu_upload_id l = uid" "iu_status l = ''reserved''"
  shows "reserved_inbox_id db uid = Ok (iu_inbox_id l)"
proof -
  have keys: "distinct (map iu_upload_id (inbox_uploads db))" using inv by (simp add: inbox_inv_def)
  have "find (\<lambda>l. iu_upload_id l = uid \<and> iu_status l = ''reserved'') (inbox_uploads db) = Some l"
  proof (rule find_unique [OF l(1)])
    fix k
    assume "k \<in> set (inbox_uploads db)" "iu_upload_id k = uid \<and> iu_status k = ''reserved''"
    then show "k = l" using distinct_map_eq [OF keys _ l(1)] l(2) by simp
  qed (use l in simp)
  then show ?thesis by (simp add: reserved_inbox_id_def query_row_def)
qed

lemma frame_audit_tables:
  assumes "transfer_frame db db'"
  shows "audit_events db' = audit_events db" and "audit_sequence db' = audit_sequence db"
    and "workspaces db' = workspaces db"
proof -
  have eq: "db' = db\<lparr>object_versions := object_versions db', upload_reservations := upload_reservations db',
       upload_parts := upload_parts db', download_grants := download_grants db'\<rparr>"
    using assms by (simp add: transfer_frame_def)
  show "audit_events db' = audit_events db" "audit_sequence db' = audit_sequence db" "workspaces db' = workspaces db"
    by (subst eq, simp)+
qed

text \<open>An accepted guest upload can always be completed: once its bytes are recorded, and while
  the inbox answers to its capability, completion succeeds for every well-formed event. The budget
  is never short, whatever other guests and operators did in between; the version becomes an object
  of the promised size and the link is settled.\<close>

theorem inbox_upload_completes:
  assumes inv: "store_wide_inv db" and acc: "validate_access h uid = Ok ()" and t: "now \<le> i64_max"
    and rec: "inbox_reservation db h uid (int now) = Ok rec" and st: "urr_state rec = RsUploaded"
    and l: "l \<in> set (inbox_uploads db)" "iu_upload_id l = uid" "iu_status l = ''reserved''"
    and event: "validate_upload_event ev ''inbox.uploaded'' (iu_inbox_id l) (urr_expected_size rec) now = Ok ()"
    and aud: "audit_insert db ev = Ok dba"
  shows "\<exists>x db'. complete_inbox_upload db h uid now ev = (Ok x, db') \<and> ovr_state x = UsComplete
    \<and> ovr_size x = Some (urr_expected_size rec) \<and> l\<lparr>iu_status := ''complete''\<rparr> \<in> set (inbox_uploads db')"
proof -
  note by_id = inbox_reservation_D [OF rec] and tinv = store_wide_transfer [OF inv]
  have uid: "validate_text uid = Ok ()" using acc by (auto simp: validate_access_def result_simps)
  obtain x db1 where com: "complete_upload db uid = (Ok x, db1)" and x: "ovr_state x = UsComplete"
    "ovr_size x = Some (urr_expected_size rec)"
    by (rule uploaded_completes [OF tinv uid by_id st])
  have run: "transfer_exec (CompleteUpload uid) db = (Ok (), db1)" using com by (simp add: outcome_of_def)
  note step = transfer_step_store_wide [OF inv run]
  have l1: "l \<in> set (inbox_uploads db1)" using l(1) step(3) by simp
  have size: "iu_reserved_size l = int (urr_expected_size rec)" using link_size [OF inv l(1)] by_id l(2) by simp
  obtain r where "r \<in> set (inboxes db1)" and cap: "update_capacity db1 (iu_inbox_id l)
      (\<lambda>r. ib_reserved_files r \<ge> 1 \<and> ib_reserved_bytes r \<ge> iu_reserved_size l)
      (settled (iu_reserved_size l) 1 (iu_reserved_size l))
      = Ok (db1\<lparr>inboxes := map (\<lambda>s. if s = r then settled (iu_reserved_size l) 1 (iu_reserved_size l) r else s) (inboxes db1)\<rparr>)"
    by (rule settle_possible [OF step(1) l1 l(3), of 1 "iu_reserved_size l"]) simp_all
  define db2 where "db2 = db1\<lparr>inboxes :=
    map (\<lambda>s. if s = r then settled (iu_reserved_size l) 1 (iu_reserved_size l) r else s) (inboxes db1)\<rparr>"
  have cap: "complete_capacity db1 (iu_inbox_id l) (urr_expected_size rec) = Ok db2"
    using settled_eqs(1) [OF reservation_size_bound [OF tinv by_id]] cap size by (simp add: db2_def)
  define db3 where "db3 = db2\<lparr>inbox_uploads :=
    map (\<lambda>k. if k = l then l\<lparr>iu_status := ''complete''\<rparr> else k) (inbox_uploads db2)\<rparr>"
  have keys: "distinct (map iu_upload_id (inbox_uploads db2))" and chk: "inbox_upload_check l"
    using store_wide_invD(2) [OF step(1)] l1 by (simp_all add: inbox_inv_def db2_def)
  have link: "transition_link db2 uid ''complete'' = Ok db3"
    unfolding db3_def by (rule transition_link_eq [OF keys _ l(2,3)])
      (use l1 chk in \<open>simp_all add: db2_def inbox_upload_check_def\<close>)
  have "audit_events db1 = audit_events db" "audit_sequence db1 = audit_sequence db" "workspaces db1 = workspaces db"
    by (rule frame_audit_tables [OF transfer_exec_frame [OF tinv run]])+
  then obtain db' where ev: "audit_insert db3 ev = Ok db'"
    using audit_insert_possible [OF aud, of db3] by (auto simp: db3_def db2_def)
  have "complete_inbox_upload db h uid now ev = (Ok x, db')"
    by (rule complete_inbox_upload_I [OF tinv acc t rec st reserved_inbox_id_link [OF store_wide_invD(2) [OF inv] l]
        event com cap link ev])
  moreover have "inbox_uploads db' = inbox_uploads db3" by (rule audit_insert_Ok_D [OF ev]) simp
  then have "l\<lparr>iu_status := ''complete''\<rparr> \<in> set (inbox_uploads db')"
    using l1 by (force simp: db3_def db2_def)
  ultimately show ?thesis using x by blast
qed

section \<open>Samples\<close>

definition sample_inbox :: NewInbox where
  "sample_inbox = \<lparr>nib_id = ''i1'', nib_workspace_id = ''w'', nib_project_id = ''p'', nib_name = ''In'',
     nib_capability_hash = sample_hash CHR ''5'', nib_expires_at_ms = 1000, nib_maximum_files = 1,
     nib_maximum_bytes = 10, nib_created_at_ms = 5\<rparr>"

definition sample_inbox_event :: NewAuditEvent where
  "sample_inbox_event = \<lparr>nae_id = ''e1'', nae_workspace_id = ''w'', nae_actor = ''a'',
     nae_action = ''inbox.created'', nae_request_id = ''r'', nae_target_type = ''inbox'',
     nae_metadata = [(''inboxId'', AvString ''i1'')], nae_created_at_ms = 5\<rparr>"

definition sample_guest :: NewInboxUpload where
  "sample_guest = \<lparr>niu_capability_hash = sample_hash CHR ''5'', niu_fingerprint_hash = sample_hash CHR ''6'', niu_now_ms = 10\<rparr>"

definition sample_guest_uploaded :: database where
  "sample_guest_uploaded = run_commands inbox_exec
     [CreateInbox sample_inbox sample_inbox_event,
      ReserveInboxUpload sample_guest (sample_upload\<lparr>nur_source := OsInbox\<rparr>),
      Metadata (Store (Transfer (RecordUploadedBytes ''u1'' 3 (sample_hash CHR ''a''))))] sample_db"

lemma sample_guest_uploaded_rows [code]:
  "sample_guest_uploaded = sample_db\<lparr>
     object_versions := [\<lparr>ov_id = ''u1'', ov_project_id = ''p'', ov_object_path = ''a.txt'',
          ov_version = 1, ov_storage_key = ''objects/u1'', ov_state = ''pending'', ov_size = None,
          ov_checksum = None, ov_created_at_ms = 10, ov_source = ''inbox'', ov_git_repository = None,
          ov_git_commit = None, ov_git_branch = None\<rparr>],
     upload_reservations := [\<lparr>ur_id = ''u1'', ur_version_id = ''u1'', ur_filename = ''a.txt'',
          ur_content_type = ''text/plain'', ur_expected_size = 3,
          ur_expected_checksum = sample_hash CHR ''a'', ur_capability_hash = sample_hash CHR ''1'',
          ur_expires_at_ms = 100, ur_state = ''uploaded'', ur_received_size = Some 3,
          ur_received_checksum = Some (sample_hash CHR ''a''), ur_strategy = ''single'',
          ur_part_size = None, ur_part_count = None, ur_provider_upload_id = None\<rparr>],
     audit_events := [\<lparr>ae_sequence = 1, ae_id = ''e1'', ae_workspace_id = ''w'', ae_actor = ''a'',
          ae_action = ''inbox.created'', ae_request_id = ''r'', ae_target_type = ''inbox'',
          ae_metadata = [(''inboxId'', JsonString ''i1'')], ae_created_at_ms = 5\<rparr>],
     audit_sequence := 1,
     inboxes := [\<lparr>ib_id = ''i1'', ib_workspace_id = ''w'', ib_project_id = ''p'', ib_name = ''In'',
          ib_capability_hash = sample_hash CHR ''5'', ib_expires_at_ms = 1000, ib_status = ''active'',
          ib_current_files = 0, ib_current_bytes = 0, ib_reserved_files = 1, ib_reserved_bytes = 3,
          ib_maximum_files = 1, ib_maximum_bytes = 10, ib_created_at_ms = 5, ib_revoked_at_ms = None\<rparr>],
     inbox_uploads := [\<lparr>iu_upload_id = ''u1'', iu_inbox_id = ''i1'',
          iu_fingerprint_hash = sample_hash CHR ''6'', iu_reserved_size = 3, iu_status = ''reserved'',
          iu_created_at_ms = 10\<rparr>]\<rparr>"
  by code_simp

lemma sample_db_store_wide: "store_wide_inv sample_db"
proof -
  have "deletions_inv sample_db" by (simp add: deletions_inv_def sample_db_def empty_database_def)
  moreover have "store_inv sample_db"
    using sample_db_inv by (simp add: store_inv_def audit_inv_def share_inv_def sample_db_def empty_database_def)
  ultimately show ?thesis
    by (simp add: store_wide_inv_def lifecycle_inv_def inbox_inv_def sample_db_def empty_database_def)
qed

lemma sample_guest_uploaded_inv: "store_wide_inv sample_guest_uploaded"
  unfolding sample_guest_uploaded_def by (rule guest_store.inv_run [OF sample_db_store_wide])

definition sample_uploaded_event :: NewAuditEvent where
  "sample_uploaded_event = \<lparr>nae_id = ''e2'', nae_workspace_id = ''w'', nae_actor = ''i1'',
     nae_action = ''inbox.uploaded'', nae_request_id = ''r'', nae_target_type = ''object_version'',
     nae_metadata = [(''byteSize'', AvNumber 3), (''source'', AvString ''inbox'')], nae_created_at_ms = 20\<rparr>"

theorem inbox_upload_completes_witness:
  "\<exists>x db'. complete_inbox_upload sample_guest_uploaded (sample_hash CHR ''5'') ''u1'' 20 sample_uploaded_event = (Ok x, db')
    \<and> ovr_state x = UsComplete \<and> ovr_size x = Some 3
    \<and> hd (inbox_uploads sample_guest_uploaded)\<lparr>iu_status := ''complete''\<rparr> \<in> set (inbox_uploads db')"
proof -
  let ?db = sample_guest_uploaded and ?l = "hd (inbox_uploads sample_guest_uploaded)"
  define rec where "rec = projr (inbox_reservation ?db (sample_hash CHR ''5'') ''u1'' (int 20))"
  have "is_ok (inbox_reservation ?db (sample_hash CHR ''5'') ''u1'' (int 20))" by code_simp
  then have rec: "inbox_reservation ?db (sample_hash CHR ''5'') ''u1'' (int 20) = Ok rec"
    unfolding rec_def by (cases "inbox_reservation ?db (sample_hash CHR ''5'') ''u1'' (int 20)") simp_all
  have terms: "urr_state rec = RsUploaded" "urr_expected_size rec = 3" unfolding rec_def by code_simp+
  have link: "?l \<in> set (inbox_uploads ?db)" "iu_upload_id ?l = ''u1''" "iu_status ?l = ''reserved''" by code_simp+
  have acc: "validate_access (sample_hash CHR ''5'') ''u1'' = Ok ()" "(20::nat) \<le> i64_max" by code_simp+
  have event: "validate_upload_event sample_uploaded_event ''inbox.uploaded'' (iu_inbox_id ?l) (urr_expected_size rec) 20 = Ok ()"
    unfolding terms(2) by code_simp
  have "is_ok (audit_insert ?db sample_uploaded_event)" by code_simp
  then obtain dba where aud: "audit_insert ?db sample_uploaded_event = Ok dba" by (auto simp: is_ok_iff)
  show ?thesis
    using inbox_upload_completes [OF sample_guest_uploaded_inv acc rec terms(1) link event aud] unfolding terms(2) .
qed

text \<open>C24. The budget of an inbox is never exceeded: after any sequence of commands, by guests and
  operators, in any order, the completed and the open uploads of an inbox together number at most
  its maximum of files and hold at most its maximum of bytes.\<close>

theorem inbox_budget_never_exceeded:
  assumes "store_wide_inv db" and "r \<in> set (inboxes (run_commands inbox_exec cs db))"
  shows "inbox_usage (run_commands inbox_exec cs db) (ib_id r) one_file \<le> ib_maximum_files r
    \<and> inbox_usage (run_commands inbox_exec cs db) (ib_id r) iu_reserved_size \<le> ib_maximum_bytes r"
  using usage_within_maximum [OF guest_store.inv_run [OF assms(1)] assms(2)] by blast

definition sample_more_guests :: "inbox_command list" where
  "sample_more_guests =
     [CompleteInboxUpload (sample_hash CHR ''5'') ''u1'' 20 sample_uploaded_event,
      ReserveInboxUpload sample_guest (sample_upload\<lparr>nur_source := OsInbox, nur_id := ''u2'',
        nur_storage_key := ''objects/u2'', nur_capability_hash := sample_hash CHR ''2''\<rparr>)]"

theorem inbox_budget_never_exceeded_witness:
  "inbox_usage (run_commands inbox_exec sample_more_guests sample_guest_uploaded) ''i1'' one_file = 1
   \<and> ib_maximum_files (hd (inboxes (run_commands inbox_exec sample_more_guests sample_guest_uploaded))) = 1
   \<and> inbox_usage (run_commands inbox_exec sample_more_guests sample_guest_uploaded) ''i1'' iu_reserved_size \<le> 10"
proof -
  let ?db = "run_commands inbox_exec sample_more_guests sample_guest_uploaded"
  have r: "hd (inboxes ?db) \<in> set (inboxes ?db)" "ib_id (hd (inboxes ?db)) = ''i1''"
      "ib_maximum_files (hd (inboxes ?db)) = 1" "ib_maximum_bytes (hd (inboxes ?db)) = 10" by code_simp+
  have "inbox_usage ?db ''i1'' one_file = 1" by code_simp
  then show ?thesis
    using inbox_budget_never_exceeded [OF sample_guest_uploaded_inv r(1)] r(2-4) by simp
qed

end
