(* ===== verification/Inbox_Rates.thy ===== *)
theory Inbox_Rates
  imports Inbox_Histories
begin

text \<open>
  What the fixed-window limiter guarantees of the requests it lets through, first of the pure counter
  \<open>rate_step\<close>, then, by refinement, of the calls on the database.
\<close>

section \<open>Bursts of the pure counter\<close>

fun rate_accepted :: "int \<Rightarrow> int \<Rightarrow> (int \<times> int) option \<Rightarrow> int list \<Rightarrow> int list" where
  "rate_accepted window limit counter [] = []"
| "rate_accepted window limit counter (t # ts) =
     (case rate_step window limit t counter of
        (True, counter') \<Rightarrow> t # rate_accepted window limit counter' ts
      | (False, counter') \<Rightarrow> rate_accepted window limit counter' ts)"

lemma rate_accepted_subset: "set (rate_accepted window limit counter ts) \<subseteq> set ts"
  by (induction ts arbitrary: counter) (auto split: prod.split bool.split)

lemma rate_accepted_seen:
  "rate_accepted window limit (Some (started, n)) (t # ts) =
     (if t - started < window
      then (if n \<ge> limit then rate_accepted window limit (Some (started, n)) ts
            else t # rate_accepted window limit (Some (started, n + 1)) ts)
      else t # rate_accepted window limit (Some (t, 1)) ts)"
  by simp

text \<open>A window admits what is left of its limit.\<close>

lemma accepted_in_window:
  assumes "sorted ts"
  shows "length (filter (\<lambda>x. x < started + window) (rate_accepted window limit (Some (started, n)) ts)) \<le> nat (limit - n)"
  using assms
proof (induction ts arbitrary: n)
  case (Cons t ts)
  show ?case
  proof (cases "t - started < window")
    case True
    show ?thesis
    proof (cases "n \<ge> limit")
      case False
      have "length (filter (\<lambda>x. x < started + window) (rate_accepted window limit (Some (started, n + 1)) ts)) \<le> nat (limit - (n + 1))"
        using Cons by simp
      with True False show ?thesis unfolding rate_accepted_seen by simp
    next
      case full: True
      with Cons.IH [of n] Cons.prems True show ?thesis unfolding rate_accepted_seen by (simp del: rate_accepted.simps)
    qed
  next
    case False
    have "\<forall>x \<in> set (t # rate_accepted window limit (Some (t, 1)) ts). \<not> x < started + window"
      using Cons.prems False rate_accepted_subset [of window limit "Some (t, 1)" ts] by fastforce
    then have "filter (\<lambda>x. x < started + window) (t # rate_accepted window limit (Some (t, 1)) ts) = []"
      by (simp only: filter_empty_conv)
    with False show ?thesis unfolding rate_accepted_seen by simp
  qed
qed simp

lemma accepted_after_reset:
  assumes "sorted (t # ts)" and "a \<le> t" and "1 \<le> limit"
  shows "length (filter (\<lambda>x. a \<le> x \<and> x < a + window) (t # rate_accepted window limit (Some (t, 1)) ts)) \<le> nat limit"
proof -
  let ?xs = "rate_accepted window limit (Some (t, 1)) ts"
  have "length (filter (\<lambda>x. a \<le> x \<and> x < a + window) ?xs) \<le> length (filter (\<lambda>x. x < t + window) ?xs)"
    by (rule length_filter_mono) (use assms(2) in auto)
  also have "\<dots> \<le> nat (limit - 1)" using accepted_in_window [of ts t window limit 1] assms(1) by simp
  finally show ?thesis using assms(3) by (auto simp: nat_diff_distrib)
qed

lemma accepted_in_interval:
  assumes "sorted ts" and "1 \<le> n" and "n \<le> limit"
  shows "length (filter (\<lambda>x. a \<le> x \<and> x < a + window) (rate_accepted window limit (Some (started, n)) ts))
    \<le> nat (if a \<le> started + window then 2 * limit - n else 2 * limit - 1)"
  using assms
proof (induction ts arbitrary: started n)
  case (Cons t ts)
  let ?in = "\<lambda>x. a \<le> x \<and> x < a + window"
  have sorted: "sorted ts" using Cons.prems(1) by simp
  show ?case
  proof (cases "t - started < window")
    case True
    show ?thesis
    proof (cases "n \<ge> limit")
      case True
      then show ?thesis using Cons.IH [OF sorted Cons.prems(2,3), of started] \<open>t - started < window\<close>
        unfolding rate_accepted_seen by simp
    next
      case False
      have "length (filter ?in (rate_accepted window limit (Some (started, n + 1)) ts))
          \<le> nat (if a \<le> started + window then 2 * limit - (n + 1) else 2 * limit - 1)"
        using Cons.IH [OF sorted, of "n + 1" started] Cons.prems(2) False by simp
      moreover have "\<not> ?in t" if "\<not> a \<le> started + window" using that True by simp
      moreover have "nat (2 * limit - n) = Suc (nat (2 * limit - (n + 1)))" using Cons.prems(2) False by simp
      ultimately show ?thesis using True False unfolding rate_accepted_seen by (auto simp del: nat_diff_distrib' split: if_splits)
    qed
  next
    case False
    show ?thesis
    proof (cases "a \<le> t")
      case True
      have "nat limit \<le> nat (if a \<le> started + window then 2 * limit - n else 2 * limit - 1)"
        using Cons.prems(2,3) by auto
      with accepted_after_reset [OF Cons.prems(1) True, of limit window] Cons.prems(2,3) False
      show ?thesis unfolding rate_accepted_seen by (simp del: filter.simps)
    next
      case later: False
      then have "length (filter ?in (rate_accepted window limit (Some (t, 1)) ts)) \<le> nat (2 * limit - 1)"
        using Cons.IH [OF sorted, of 1 t] Cons.prems(2,3) by (simp split: if_splits)
      with False later show ?thesis unfolding rate_accepted_seen by simp
    qed
  qed
qed simp

lemma accepted_from_start:
  assumes "sorted ts" and "1 \<le> limit"
  shows "length (filter (\<lambda>x. a \<le> x \<and> x < a + window) (rate_accepted window limit None ts)) \<le> nat (2 * limit - 1)"
proof (cases ts)
  case (Cons t rest)
  show ?thesis
  proof (cases "a \<le> t")
    case True
    have "nat limit \<le> nat (2 * limit - 1)" using assms(2) by simp
    with accepted_after_reset [of t rest a limit window] assms True Cons show ?thesis by (simp del: filter.simps)
  next
    case False
    then show ?thesis using accepted_in_interval [of rest 1 limit a window t] assms Cons by (simp split: if_splits)
  qed
qed simp

section \<open>Bursts of the service\<close>

text \<open>Requests of several keys at increasing times, and those that are let through.\<close>

fun rate_requests :: "nat \<Rightarrow> nat \<Rightarrow> (string \<times> nat) list \<Rightarrow> database \<Rightarrow> (string \<times> nat) list" where
  "rate_requests window limit [] db = []"
| "rate_requests window limit ((key, t) # reqs) db =
     (case consume_inbox_rate db key window limit t of
        (Inr Allowed, db') \<Rightarrow> (key, t) # rate_requests window limit reqs db'
      | (_, db') \<Rightarrow> rate_requests window limit reqs db')"

definition times_of :: "string \<Rightarrow> (string \<times> nat) list \<Rightarrow> int list" where
  "times_of key reqs = map (\<lambda>(k, t). int t) (filter (\<lambda>(k, t). k = key) reqs)"

lemma times_of_simps [simp]:
  "times_of key [] = []"
  "times_of key ((k, t) # reqs) = (if k = key then int t # times_of key reqs else times_of key reqs)"
  by (simp_all add: times_of_def)

lemma rates_ok_inv: "store_wide_inv db \<Longrightarrow> rates_ok (inbox_rate_limits db)"
  using store_wide_invD(2) by (auto simp: rates_ok_def inbox_inv_def)

lemma rate_requests_refine:
  assumes "store_wide_inv db" and "sorted (map snd reqs)"
  shows "\<exists>ts. sorted ts \<and> set ts \<subseteq> set (times_of key reqs)
    \<and> times_of key (rate_requests window limit reqs db) = rate_accepted (int window) (int limit) (rate_of db key) ts"
  using assms
proof (induction reqs arbitrary: db)
  case Nil
  show ?case by (intro exI [of _ "[]"]) simp
next
  case (Cons req reqs)
  obtain k t where req: "req = (k, t)" by (rule prod.exhaust)
  obtain r db' where run: "consume_inbox_rate db k window limit t = (r, db')" by (rule prod.exhaust)
  have exec: "inbox_exec (ConsumeRate k window limit t) db = outcome_of (r, db')" using run by simp
  have sorted: "sorted (map snd reqs)" and after: "\<And>u. u \<in> set (times_of key reqs) \<Longrightarrow> int t \<le> u"
    using Cons.prems(2) by (auto simp: req times_of_def)
  show ?case
  proof (cases r)
    case (Inl e)
    then have "db' = db" using inbox_failed_unchanged(6) run by simp
    with Cons.IH [OF Cons.prems(1) sorted] show ?thesis using run Inl by (auto simp: req)
  next
    case (Inr x)
    note run' = run [unfolded Inr]
    have inv': "store_wide_inv db'" by (rule consume_rate_inv [OF Cons.prems(1) run'])
    note step = consume_rate_refines [OF rates_ok_inv [OF Cons.prems(1)] run']
    obtain ts where ts: "sorted ts" "set ts \<subseteq> set (times_of key reqs)"
      "times_of key (rate_requests window limit reqs db') = rate_accepted (int window) (int limit) (rate_of db' key) ts"
      using Cons.IH [OF inv' sorted] by blast
    show ?thesis
    proof (cases "k = key")
      case True
      have "times_of key (rate_requests window limit (req # reqs) db)
          = rate_accepted (int window) (int limit) (rate_of db key) (int t # ts)"
        using step(1) [symmetric] ts(3) run' True by (cases x) (simp_all add: req)
      moreover have "sorted (int t # ts)" using ts(1,2) after by auto
      moreover have "set (int t # ts) \<subseteq> set (times_of key (req # reqs))" using ts(2) True by (auto simp: req)
      ultimately show ?thesis by blast
    next
      case False
      have "times_of key (rate_requests window limit (req # reqs) db) = times_of key (rate_requests window limit reqs db')"
        using run' False by (cases x) (simp_all add: req)
      then show ?thesis using ts step(2) False by (auto simp: req)
    qed
  qed
qed

lemma rate_limit_zero: "rate_requests window 0 reqs db = []"
proof (induction reqs arbitrary: db)
  case (Cons req reqs)
  obtain k t where req: "req = (k, t)" by (rule prod.exhaust)
  have "consume_inbox_rate db k window 0 t = (Err InvalidInput, db)"
    by (simp add: consume_inbox_rate_def write_transaction_def consume_rate_def)
  with Cons show ?case by (simp add: req)
qed simp

text \<open>C27. The rate limiter bounds every burst: of the requests of one key, at increasing times and
  interleaved with those of other keys, fewer than twice the limit are let through in any interval
  as long as the window, however the interval lies across the windows. The bound is exact.\<close>

theorem rate_limit_bounds_bursts:
  assumes "store_wide_inv db" and "rate_of db key = None" and "sorted (map snd reqs)"
  shows "length (filter (\<lambda>(k, t). k = key \<and> a \<le> t \<and> t < a + window) (rate_requests window limit reqs db)) \<le> 2 * limit - 1"
proof (cases "limit = 0")
  case True
  then show ?thesis using rate_limit_zero by simp
next
  case False
  let ?acc = "rate_requests window limit reqs db"
  have count: "length (filter (\<lambda>(k, t). k = key \<and> a \<le> t \<and> t < a + window) xs)
      = length (filter (\<lambda>x. int a \<le> x \<and> x < int a + int window) (times_of key xs))" for xs
    by (induction xs) (auto simp: split_beta times_of_def)
  obtain ts where ts: "sorted ts" "times_of key ?acc = rate_accepted (int window) (int limit) None ts"
    using rate_requests_refine [OF assms(1,3), of key window limit] assms(2) by auto
  show ?thesis
    using accepted_from_start [OF ts(1), of "int limit" "int a" "int window"] False unfolding count ts(2)
    by (simp add: nat_diff_distrib nat_mult_distrib)
qed

text \<open>A key with a limit of two in a window of ten: the first window opens at 0, the second at 10,
  and three requests pass within the ten units from 8 on.\<close>

definition sample_key :: string where
  "sample_key = sample_hash CHR ''7''"

definition sample_requests :: "(string \<times> nat) list" where
  "sample_requests = map (Pair sample_key) [0, 8, 9, 10, 11, 12]"

theorem rate_limit_bounds_bursts_witness:
  "length (filter (\<lambda>(k, t). k = sample_key \<and> 8 \<le> t \<and> t < 8 + 10) (rate_requests 10 2 sample_requests sample_db)) = 3
   \<and> length (filter (\<lambda>(k, t). k = sample_key \<and> 8 \<le> t \<and> t < 8 + 10) (rate_requests 10 2 sample_requests sample_db)) \<le> 2 * 2 - 1"
proof -
  have fresh: "rate_of sample_db sample_key = None" by code_simp
  have sorted: "sorted (map snd sample_requests)" by code_simp
  have "length (filter (\<lambda>(k, t). k = sample_key \<and> 8 \<le> t \<and> t < 8 + 10) (rate_requests 10 2 sample_requests sample_db)) = 3"
    by code_simp
  then show ?thesis
    using rate_limit_bounds_bursts [OF sample_db_store_wide fresh sorted, of 8 10 2] by blast
qed

section \<open>The advice to a refused client\<close>

lemma consume_rate_seen:
  assumes ok: "rates_ok (inbox_rate_limits db)" and r: "r \<in> set (inbox_rate_limits db)" "ir_rate_key r = key"
    and pos: "window \<noteq> 0" "limit \<noteq> 0" and cap: "validate_capability key = Ok ()"
    and bounds: "window \<le> i64_max" "now \<le> i64_max" and full: "int limit \<le> ir_request_count r"
  shows "fst (consume_inbox_rate db key window limit now) = Ok Allowed
    \<longleftrightarrow> ir_window_started_at_ms r + int window \<le> int now"
proof -
  have keys: "distinct (map ir_rate_key (inbox_rate_limits db))" using ok by (simp add: rates_ok_def)
  have f: "find (\<lambda>r. ir_rate_key r = key) (inbox_rate_limits db) = Some r"
  proof (rule find_unique)
    fix s assume "s \<in> set (inbox_rate_limits db)" "ir_rate_key s = key"
    then show "s = r" using distinct_map_eq [OF keys _ r(1)] r(2) by simp
  qed (use r in simp_all)
  have ex: "list_ex (\<lambda>r. ir_rate_key r = key) (inbox_rate_limits db)" using r by (auto simp: list_ex_iff)
  have "inbox_rate_check (fresh_rate key (int now))" by (simp add: fresh_rate_def inbox_rate_check_def)
  then have "update_rows (\<lambda>r. ir_rate_key r = key) (\<lambda>_. fresh_rate key (int now)) inbox_rate_check (inbox_rate_limits db)
      = Ok (1, map (\<lambda>s. if s = r then fresh_rate key (int now) else s) (inbox_rate_limits db))"
    by (intro update_rows_one [OF keys r(1)]) (simp_all add: r(2))
  then have reset: "\<exists>db'. reset_rate key (int now) db = Ok (Allowed, db')"
    using ex by (simp add: reset_rate_def fresh_rate_def)
  show ?thesis
  proof (cases "ir_window_started_at_ms r + int window \<le> int now")
    case True
    then have "\<not> int now - ir_window_started_at_ms r < int window" by simp
    with reset obtain db' where "consume_rate key window limit now db = Ok (Allowed, db')"
      using pos cap bounds f by (auto simp: consume_rate_def to_i64_def)
    with True show ?thesis by (simp add: consume_inbox_rate_def write_transaction_def)
  next
    case False
    then have "int now - ir_window_started_at_ms r < int window" by simp
    with False show ?thesis
      using pos cap bounds f full
      by (simp add: consume_inbox_rate_def write_transaction_def consume_rate_def to_i64_def consume_current_def)
  qed
qed

lemma rate_of_row:
  assumes "rate_of db key = Some (started, n)"
  obtains r where "r \<in> set (inbox_rate_limits db)" and "ir_rate_key r = key" and "ir_window_started_at_ms r = started"
    and "ir_request_count r = n" and "find (\<lambda>r. ir_rate_key r = key) (inbox_rate_limits db) = Some r"
proof -
  obtain r where f: "find (\<lambda>r. ir_rate_key r = key) (inbox_rate_limits db) = Some r"
    and "ir_window_started_at_ms r = started" "ir_request_count r = n"
    using assms by (auto simp: rate_of_def)
  then show thesis using find_Some_iff_first [OF f] by (intro that [of r]) simp_all
qed

lemma limited_D:
  assumes rate: "rate_of db key = Some (started, n)"
    and run: "consume_inbox_rate db key window limit now = (Ok (Limited secs), db')"
  shows "db' = db" and "int limit \<le> n" and "int now < started + int window"
    and "secs = div_ceil (nat \<bar>saturating_add_i64 started (int window) - int now\<bar>) 1000"
    and "window \<noteq> 0" and "limit \<noteq> 0" and "window \<le> i64_max" and "validate_capability key = Ok ()"
proof -
  obtain r where r: "ir_window_started_at_ms r = started" "ir_request_count r = n"
      "find (\<lambda>r. ir_rate_key r = key) (inbox_rate_limits db) = Some r"
    by (rule rate_of_row [OF rate])
  have step: "consume_rate key window limit now db = Ok (Limited secs, db')"
    using run by (simp add: consume_inbox_rate_def outcome_iffs)
  note body = consume_rate_cases [OF step]
  show "window \<noteq> 0" "limit \<noteq> 0" "window \<le> i64_max" using body(1,2,4) by simp_all
  show "validate_capability key = Ok ()"
    using step body(1,2) by (cases "validate_capability key") (simp_all add: consume_rate_def)
  have inside: "int now - started < int window"
  proof (rule ccontr)
    assume "\<not> int now - started < int window"
    with body(5) r have "reset_rate key (int now) db = Ok (Limited secs, db')" by simp
    then show False by (cases rule: reset_rate_D) simp_all
  qed
  with body(5) r have "consume_current key started n (int now) (int window) limit db = Ok (Limited secs, db')" by simp
  then have "db' = db \<and> int limit \<le> n \<and> secs = div_ceil (nat \<bar>saturating_add_i64 started (int window) - int now\<bar>) 1000"
    by (cases rule: consume_current_D) simp_all
  then show "db' = db" "int limit \<le> n" "secs = div_ceil (nat \<bar>saturating_add_i64 started (int window) - int now\<bar>) 1000"
    by blast+
  show "int now < started + int window" using inside by simp
qed

text \<open>The advice to a refused client is right to the second: a retry after the advised number of
  seconds is let through when nobody else used the key, and a retry a whole second earlier is
  refused (while the end of the window is a representable time).\<close>

theorem rate_retry_after_exact:
  assumes inv: "store_wide_inv db" and rate: "rate_of db key = Some (started, n)"
    and run: "consume_inbox_rate db key window limit now = (Ok (Limited secs), db')"
    and fits: "started + int window \<le> int i64_max" and u: "u \<le> i64_max"
  shows "(now + 1000 * secs \<le> u \<longrightarrow> fst (consume_inbox_rate db' key window limit u) = Ok Allowed)
    \<and> (u \<le> now + 1000 * (secs - 1) \<longrightarrow> fst (consume_inbox_rate db' key window limit u) \<noteq> Ok Allowed)"
proof -
  note d = limited_D [OF rate run]
  obtain r where r: "r \<in> set (inbox_rate_limits db)" "ir_rate_key r = key" "ir_window_started_at_ms r = started"
      "ir_request_count r = n"
    by (rule rate_of_row [OF rate])
  have again: "fst (consume_inbox_rate db' key window limit u) = Ok Allowed \<longleftrightarrow> started + int window \<le> int u"
    using consume_rate_seen [OF rates_ok_inv [OF inv] r(1,2) d(5,6,8,7) u] d(1,2) r(3,4) by simp
  define left where "left = nat (started + int window - int now)"
  have left: "0 < left" "int now + int left = started + int window" using d(3) by (simp_all add: left_def)
  have secs: "secs = div_ceil left 1000" using d(3,4) fits by (simp add: left_def saturating_add_i64_def)
  show ?thesis
    using div_ceil_bounds(1) [of 1000 left] div_ceil_bounds(2) [of 1000 left] left unfolding again secs by auto
qed

theorem rate_retry_after_exact_witness:
  "fst (consume_inbox_rate (snd (consume_inbox_rate sample_db sample_key 1500 1 10)) sample_key 1500 1 20) = Ok (Limited 2)
   \<and> fst (consume_inbox_rate (snd (consume_inbox_rate sample_db sample_key 1500 1 10)) sample_key 1500 1 2020) = Ok Allowed
   \<and> fst (consume_inbox_rate (snd (consume_inbox_rate sample_db sample_key 1500 1 10)) sample_key 1500 1 1020) \<noteq> Ok Allowed"
proof -
  let ?db = "snd (consume_inbox_rate sample_db sample_key 1500 1 10)"
  have "?db = run_commands inbox_exec [ConsumeRate sample_key 1500 1 10] sample_db"
    by (cases "consume_inbox_rate sample_db sample_key 1500 1 10") (simp add: outcome_of_def)
  with guest_store.inv_run [OF sample_db_store_wide] have inv: "store_wide_inv ?db" by (simp only:)
  have rate: "rate_of ?db sample_key = Some (10, 1)" by code_simp
  have run: "consume_inbox_rate ?db sample_key 1500 1 20 = (Ok (Limited 2), ?db)" by code_simp
  have "10 + int 1500 \<le> int i64_max" "(2020::nat) \<le> i64_max" "(1020::nat) \<le> i64_max" by code_simp+
  with rate_retry_after_exact [OF inv rate run, of 2020] rate_retry_after_exact [OF inv rate run, of 1020] run
  show ?thesis by simp
qed

end
