(* ===== verification/Ref_Glob.thy ===== *)
theory Ref_Glob
  imports Prelude
begin

text \<open>
  The Git ref glob of a CI trust: \<^verbatim>\<open>ref_matches\<close> of \<^verbatim>\<open>ci_validation.rs\<close>. A star stands for any
  text, slashes included. The matcher is greedy: it cuts the value at the leftmost occurrence of
  each segment between two stars. It is shown to decide the declarative language of the glob.
\<close>

section \<open>Substrings\<close>

text \<open>\<^verbatim>\<open>str::find\<close>, \<^verbatim>\<open>str::contains\<close> and \<^verbatim>\<open>str::ends_with\<close>\<close>

fun find_str :: "'a list \<Rightarrow> 'a list \<Rightarrow> nat option" where
  "find_str pat [] = (if pat = [] then Some 0 else None)"
| "find_str pat (c # s) =
     (if starts_with pat (c # s) then Some 0 else map_option Suc (find_str pat s))"

definition contains_str :: "'a list \<Rightarrow> 'a list \<Rightarrow> bool" where
  "contains_str pat s \<longleftrightarrow> find_str pat s \<noteq> None"

definition ends_with :: "'a list \<Rightarrow> 'a list \<Rightarrow> bool" where
  "ends_with p s \<longleftrightarrow> strip_suffix p s \<noteq> None"

lemma starts_with_iff: "starts_with p s \<longleftrightarrow> (\<exists>r. s = p @ r)"
proof
  assume "starts_with p s"
  then have "s = p @ drop (length p) s" unfolding starts_with_def by (metis append_take_drop_id)
  then show "\<exists>r. s = p @ r" by blast
qed (auto simp: starts_with_def)

lemma ends_with_iff: "ends_with p s \<longleftrightarrow> (\<exists>r. s = r @ p)"
  by (auto simp: ends_with_def strip_suffix_Some_iff not_None_eq)

text \<open>The occurrence that is found is an occurrence, and no occurrence lies further left.\<close>

lemma find_str_Some:
  "find_str pat s = Some i \<Longrightarrow> i + length pat \<le> length s \<and> (\<exists>b. s = take i s @ pat @ b)"
proof (induction s arbitrary: i)
  case (Cons c s)
  show ?case
  proof (cases "starts_with pat (c # s)")
    case True
    then obtain r where "c # s = pat @ r" by (auto simp: starts_with_iff)
    with Cons.prems True show ?thesis by (metis append_Nil find_str.simps(2) le_add1 length_append option.inject take0 add_0)
  next
    case False
    with Cons.prems obtain j where j: "find_str pat s = Some j" "i = Suc j" by auto
    from Cons.IH [OF j(1)] j(2) show ?thesis by auto
  qed
qed (auto split: if_split_asm)

lemma find_str_leftmost:
  "s = a @ pat @ b \<Longrightarrow> \<exists>i. find_str pat s = Some i \<and> i \<le> length a"
proof (induction a arbitrary: s)
  case Nil
  then have "starts_with pat s" by (auto simp: starts_with_iff)
  then show ?case by (cases s) (auto simp: starts_with_def)
next
  case (Cons c a)
  then obtain i where "find_str pat (a @ pat @ b) = Some i" "i \<le> length a" by blast
  with Cons.prems show ?case by auto
qed

lemma contains_str_iff: "contains_str pat s \<longleftrightarrow> (\<exists>a b. s = a @ pat @ b)"
proof
  assume "contains_str pat s"
  then obtain i where "find_str pat s = Some i" by (auto simp: contains_str_def)
  from find_str_Some [OF this] show "\<exists>a b. s = a @ pat @ b" by blast
next
  assume "\<exists>a b. s = a @ pat @ b"
  then obtain a b where "s = a @ pat @ b" by blast
  from find_str_leftmost [OF this] show "contains_str pat s" by (auto simp: contains_str_def)
qed

section \<open>The matcher\<close>

fun ref_rest :: "string \<Rightarrow> string list \<Rightarrow> bool" where
  "ref_rest remaining [] = (remaining = [])"
| "ref_rest remaining [segment] = ends_with segment remaining"
| "ref_rest remaining (segment # next # more) =
     (case find_str segment remaining of
        None \<Rightarrow> False
      | Some i \<Rightarrow> ref_rest (drop (i + length segment) remaining) (next # more))"

definition ref_matches :: "string \<Rightarrow> string \<Rightarrow> bool" where
  "ref_matches value glob =
     (case split_on CHR ''*'' glob of
        [] \<Rightarrow> ref_rest value []
      | first # segments \<Rightarrow> starts_with first value \<and> ref_rest (drop (length first) value) segments)"

section \<open>The language\<close>

fun wild :: "string \<Rightarrow> string \<Rightarrow> bool" where
  "wild [] v \<longleftrightarrow> v = []"
| "wild (c # g) v \<longleftrightarrow>
     (if c = CHR ''*'' then \<exists>a b. v = a @ b \<and> wild g b else \<exists>w. v = c # w \<and> wild g w)"

fun wild_segments :: "string list \<Rightarrow> string \<Rightarrow> bool" where
  "wild_segments [] v \<longleftrightarrow> v = []"
| "wild_segments (s # ss) v \<longleftrightarrow> (\<exists>a b. v = a @ s @ b \<and> wild_segments ss b)"

lemma wild_split:
  "split_on CHR ''*'' g = first # ss \<Longrightarrow> wild g v \<longleftrightarrow> (\<exists>w. v = first @ w \<and> wild_segments ss w)"
proof (induction g arbitrary: first ss v)
  case (Cons c g)
  obtain f rest where s: "split_on CHR ''*'' g = f # rest" by (cases "split_on CHR ''*'' g") auto
  show ?case
  proof (cases "c = CHR ''*''")
    case True
    with Cons.prems s have "first = []" "ss = f # rest" by simp_all
    with True Cons.IH [OF s] show ?thesis by auto
  next
    case False
    with Cons.prems s have "first = c # f" "ss = rest" by simp_all
    with False Cons.IH [OF s] show ?thesis by auto
  qed
qed simp

lemma wild_segments_longer: "ss \<noteq> [] \<Longrightarrow> wild_segments ss b \<Longrightarrow> wild_segments ss (c @ b)"
proof (cases ss)
  case (Cons s rest)
  assume "wild_segments ss b"
  with Cons obtain a r where "c @ b = (c @ a) @ s @ r" "wild_segments rest r" by auto
  with Cons show ?thesis by (metis wild_segments.simps(2))
qed simp

text \<open>Greedy cutting loses no match: a cut further left leaves more text for the rest.\<close>

lemma ref_rest_wild: "ss \<noteq> [] \<Longrightarrow> ref_rest v ss \<longleftrightarrow> (\<exists>a b. v = a @ hd ss @ b \<and> wild_segments (tl ss) b)"
proof (induction v ss rule: ref_rest.induct)
  case (2 v s)
  then show ?case by (auto simp: ends_with_iff)
next
  case (3 v s n more)
  show ?case
  proof
    assume "ref_rest v (s # n # more)"
    then obtain i where i: "find_str s v = Some i" and rest: "ref_rest (drop (i + length s) v) (n # more)"
      by (auto split: option.split_asm)
    obtain b where b: "v = take i v @ s @ b" and len: "i + length s \<le> length v" using find_str_Some [OF i] by blast
    then have "drop (i + length s) v = b"
      by (metis add_leD1 append_assoc append_eq_conv_conj length_append length_take min.absorb2)
    with 3(1) [OF i] rest have "wild_segments (n # more) b" by auto
    with b show "\<exists>a b. v = a @ hd (s # n # more) @ b \<and> wild_segments (tl (s # n # more)) b" by auto
  next
    assume "\<exists>a b. v = a @ hd (s # n # more) @ b \<and> wild_segments (tl (s # n # more)) b"
    then obtain a b where v: "v = a @ s @ b" and w: "wild_segments (n # more) b" by auto
    obtain i where i: "find_str s v = Some i" "i \<le> length a" using find_str_leftmost [OF v] by blast
    have "drop (i + length s) v = drop (i + length s) (a @ s) @ b" using i(2) v by simp
    with wild_segments_longer [of "n # more" b "drop (i + length s) (a @ s)"] w
    have "wild_segments (n # more) (drop (i + length s) v)" by (simp only: list.distinct simp_thms)
    with 3(1) [OF i(1)] i(1) show "ref_rest v (s # n # more)" by simp
  qed
qed simp

lemma ref_matches_wild: "ref_matches value glob \<longleftrightarrow> wild glob value"
proof -
  obtain first ss where s: "split_on CHR ''*'' glob = first # ss" by (cases "split_on CHR ''*'' glob") auto
  have "ref_rest (drop (length first) value) ss = wild_segments ss (drop (length first) value)"
    using ref_rest_wild [of ss "drop (length first) value"] by (cases ss) auto
  then show ?thesis
    unfolding wild_split [OF s] ref_matches_def s by (auto simp: starts_with_iff)
qed

text \<open>The greedy ref matcher decides exactly the glob: a ref matches when the glob, with each
  star replaced by some text, spells it.\<close>

theorem ref_matches_language: "ref_matches value glob \<longleftrightarrow> wild glob value"
  by (rule ref_matches_wild)

end
