(* ===== verification/Access_State.thy ===== *)
theory Access_State
  imports Inbox_Rates Ref_Glob
begin

text \<open>
  The credential tables of the metadata database and the contract types of \<^verbatim>\<open>auth.rs\<close> and
  \<^verbatim>\<open>ci.rs\<close> in \<^verbatim>\<open>crates/blobyard-contract\<close>. No other service reads or writes these tables, and the
  services here touch the rest of the database only to read workspaces and projects and to append
  audit events, so the state is a record around the database of the other services.
\<close>

section \<open>Contract types\<close>

record LocalApiTokenRecord =
  lat_id :: string
  lat_name :: string
  lat_token_prefix :: string
  lat_secret_hash :: string
  lat_scopes :: "string list"
  lat_workspace_id :: string
  lat_project_id :: "string option"
  lat_created_at_ms :: nat
  lat_expires_at_ms :: nat
  lat_last_used_at_ms :: "nat option"
  lat_revoked_at_ms :: "nat option"

record LocalCliSessionRecord =
  lcs_id :: string
  lcs_token_id :: string
  lcs_workspace_id :: string
  lcs_name :: string
  lcs_platform :: string
  lcs_version :: string
  lcs_created_at_ms :: nat
  lcs_last_used_at_ms :: "nat option"
  lcs_revoked_at_ms :: "nat option"

datatype CiAction = CaDownload | CaShare | CaUpload | CaYardManage

fun ci_action_as_str :: "CiAction \<Rightarrow> string" where
  "ci_action_as_str CaDownload = ''download''"
| "ci_action_as_str CaShare = ''share''"
| "ci_action_as_str CaUpload = ''upload''"
| "ci_action_as_str CaYardManage = ''yard:manage''"

definition ci_action_parse :: "string \<Rightarrow> CiAction option" where
  "ci_action_parse value =
     (if value = ''download'' then Some CaDownload
      else if value = ''share'' then Some CaShare
      else if value = ''upload'' then Some CaUpload
      else if value = ''yard:manage'' then Some CaYardManage else None)"

interpretation ci_action: string_codec ci_action_as_str ci_action_parse
proof unfold_locales
  show "ci_action_parse (ci_action_as_str x) = Some x" for x
    by (cases x) (simp_all add: ci_action_parse_def)
qed (auto simp: ci_action_parse_def split: if_split_asm)

record LocalCiTrustRecord =
  lct_id :: string
  lct_workspace_id :: string
  lct_project_id :: "string option"
  lct_repository :: string
  lct_workflow_path :: string
  lct_workflow_ref :: string
  lct_allowed_ref_glob :: string
  lct_environment :: "string option"
  lct_allowed_actions :: "CiAction list"
  lct_audience :: string
  lct_created_at_ms :: nat
  lct_revoked_at_ms :: "nat option"

record GithubOidcIdentity =
  goi_audience :: string
  goi_repository :: string
  goi_git_ref :: string
  goi_workflow_path :: string
  goi_workflow_ref :: string
  goi_environment :: "string option"
  goi_run_id :: string
  goi_run_attempt :: "string option"
  goi_sha :: "string option"
  goi_expires_at_ms :: nat

record NewMachineSession =
  nms_id :: string
  nms_token_prefix :: string
  nms_secret_hash :: string
  nms_identity :: GithubOidcIdentity
  nms_workspace :: "string option"
  nms_project :: string
  nms_actions :: "CiAction list"
  nms_oidc_token_hash :: string
  nms_now_ms :: nat

record LocalMachineSessionRecord =
  lms_id :: string
  lms_trust_id :: string
  lms_workspace_id :: string
  lms_project_id :: string
  lms_repository :: string
  lms_git_ref :: string
  lms_run_id :: string
  lms_run_attempt :: "string option"
  lms_actions :: "CiAction list"
  lms_created_at_ms :: nat
  lms_expires_at_ms :: nat
  lms_last_used_at_ms :: "nat option"
  lms_revoked_at_ms :: "nat option"

datatype MachineSessionMintResult =
  Replayed | Forbidden | RateLimited nat | Minted LocalMachineSessionRecord

record NewCiAuditEvent =
  nce_id :: string
  nce_workspace_id :: string
  nce_actor :: string
  nce_action :: string
  nce_request_id :: string
  nce_target_type :: string
  nce_target_id :: string
  nce_repository :: string
  nce_created_at_ms :: nat

definition ci_audit_event :: "NewCiAuditEvent \<Rightarrow> NewAuditEvent" where
  "ci_audit_event input =
     \<lparr>nae_id = nce_id input, nae_workspace_id = nce_workspace_id input, nae_actor = nce_actor input,
      nae_action = nce_action input, nae_request_id = nce_request_id input,
      nae_target_type = nce_target_type input,
      nae_metadata = [(''repository'', AvString (nce_repository input)), (''targetId'', AvString (nce_target_id input))],
      nae_created_at_ms = nce_created_at_ms input\<rparr>"

section \<open>Tables\<close>

record bootstrap_row =
  ba_secret_hash :: "string option"
  ba_consumed :: int

record api_token_row =
  at_id :: string
  at_name :: string
  at_secret_hash :: string
  at_scopes :: string
  at_workspace_id :: string
  at_revoked :: int
  at_token_prefix :: string
  at_project_id :: "string option"
  at_created_at_ms :: int
  at_expires_at_ms :: int
  at_last_used_at_ms :: "int option"
  at_revoked_at_ms :: "int option"

record cli_session_row =
  cs_id :: string
  cs_token_id :: string
  cs_workspace_id :: string
  cs_name :: string
  cs_platform :: string
  cs_version :: string
  cs_created_at_ms :: int
  cs_last_used_at_ms :: "int option"
  cs_revoked_at_ms :: "int option"

record ci_trust_row =
  tr_id :: string
  tr_workspace_id :: string
  tr_project_id :: "string option"
  tr_repository :: string
  tr_workflow_path :: string
  tr_workflow_ref :: string
  tr_allowed_ref_glob :: string
  tr_environment :: "string option"
  tr_allowed_actions :: string
  tr_audience :: string
  tr_created_at_ms :: int
  tr_revoked_at_ms :: "int option"

record machine_session_row =
  ms_id :: string
  ms_token_id :: string
  ms_trust_id :: string
  ms_workspace_id :: string
  ms_project_id :: string
  ms_repository :: string
  ms_git_ref :: string
  ms_run_id :: string
  ms_run_attempt :: "string option"
  ms_actions :: string
  ms_oidc_token_hash :: string
  ms_created_at_ms :: int
  ms_expires_at_ms :: int
  ms_last_used_at_ms :: "int option"
  ms_revoked_at_ms :: "int option"

text \<open>The primary key of \<^verbatim>\<open>bootstrap_authority\<close> is always 1: the table holds at most one row.\<close>

record access_database =
  metadata :: database
  bootstrap_authority :: "bootstrap_row option"
  api_tokens :: "api_token_row list"
  cli_sessions :: "cli_session_row list"
  ci_trusts :: "ci_trust_row list"
  machine_sessions :: "machine_session_row list"

type_synonym 'a access_outcome = "(RepositoryError + 'a) \<times> access_database"

text \<open>A comparison with NULL is unknown, which a CHECK constraint accepts.\<close>

definition at_least :: "int \<Rightarrow> int option \<Rightarrow> bool" where
  "at_least bound v \<longleftrightarrow> (case v of None \<Rightarrow> True | Some t \<Rightarrow> t \<ge> bound)"

definition bootstrap_check :: "bootstrap_row \<Rightarrow> bool" where
  "bootstrap_check r \<longleftrightarrow>
     (ba_consumed r = 0 \<and> ba_secret_hash r \<noteq> None) \<or> (ba_consumed r = 1 \<and> ba_secret_hash r = None)"

definition api_token_check :: "api_token_row \<Rightarrow> bool" where
  "api_token_check r \<longleftrightarrow>
     at_revoked r \<in> {0, 1} \<and> at_created_at_ms r \<ge> 0 \<and> at_expires_at_ms r \<ge> 0
     \<and> at_least 0 (at_last_used_at_ms r) \<and> at_least 0 (at_revoked_at_ms r)"

definition has_workspace :: "access_database \<Rightarrow> string \<Rightarrow> bool" where
  "has_workspace db wid \<longleftrightarrow> list_ex (\<lambda>w. ws_id w = wid) (workspaces (metadata db))"

definition has_project :: "access_database \<Rightarrow> string \<Rightarrow> bool" where
  "has_project db pid \<longleftrightarrow> list_ex (\<lambda>p. pj_id p = pid) (projects (metadata db))"

definition api_token_allowed :: "access_database \<Rightarrow> api_token_row \<Rightarrow> bool" where
  "api_token_allowed db row \<longleftrightarrow>
     api_token_check row
     \<and> \<not> list_ex (\<lambda>r. at_id r = at_id row \<or> at_secret_hash r = at_secret_hash row) (api_tokens db)
     \<and> has_workspace db (at_workspace_id row)
     \<and> (case at_project_id row of None \<Rightarrow> True | Some p \<Rightarrow> has_project db p)"

definition cli_session_check :: "cli_session_row \<Rightarrow> bool" where
  "cli_session_check r \<longleftrightarrow>
     cs_created_at_ms r \<ge> 0 \<and> at_least (cs_created_at_ms r) (cs_last_used_at_ms r)
     \<and> at_least (cs_created_at_ms r) (cs_revoked_at_ms r)"

definition cli_session_allowed :: "access_database \<Rightarrow> cli_session_row \<Rightarrow> bool" where
  "cli_session_allowed db row \<longleftrightarrow>
     cli_session_check row
     \<and> \<not> list_ex (\<lambda>r. cs_id r = cs_id row \<or> cs_token_id r = cs_token_id row) (cli_sessions db)
     \<and> list_ex (\<lambda>t. at_id t = cs_token_id row) (api_tokens db)
     \<and> has_workspace db (cs_workspace_id row)"

definition ci_trust_check :: "ci_trust_row \<Rightarrow> bool" where
  "ci_trust_check r \<longleftrightarrow> tr_created_at_ms r \<ge> 0 \<and> at_least (tr_created_at_ms r) (tr_revoked_at_ms r)"

definition ci_trust_allowed :: "access_database \<Rightarrow> ci_trust_row \<Rightarrow> bool" where
  "ci_trust_allowed db row \<longleftrightarrow>
     ci_trust_check row \<and> \<not> list_ex (\<lambda>r. tr_id r = tr_id row) (ci_trusts db)
     \<and> has_workspace db (tr_workspace_id row)
     \<and> (case tr_project_id row of None \<Rightarrow> True | Some p \<Rightarrow> has_project db p)"

definition machine_session_check :: "machine_session_row \<Rightarrow> bool" where
  "machine_session_check r \<longleftrightarrow>
     ms_created_at_ms r \<ge> 0 \<and> ms_expires_at_ms r > ms_created_at_ms r
     \<and> at_least (ms_created_at_ms r) (ms_last_used_at_ms r)
     \<and> at_least (ms_created_at_ms r) (ms_revoked_at_ms r)"

definition machine_session_allowed :: "access_database \<Rightarrow> machine_session_row \<Rightarrow> bool" where
  "machine_session_allowed db row \<longleftrightarrow>
     machine_session_check row
     \<and> \<not> list_ex (\<lambda>r. ms_id r = ms_id row \<or> ms_token_id r = ms_token_id row
          \<or> ms_oidc_token_hash r = ms_oidc_token_hash row) (machine_sessions db)
     \<and> list_ex (\<lambda>t. at_id t = ms_token_id row) (api_tokens db)
     \<and> list_ex (\<lambda>t. tr_id t = ms_trust_id row) (ci_trusts db)
     \<and> has_workspace db (ms_workspace_id row) \<and> has_project db (ms_project_id row)"

section \<open>Row decoders\<close>

definition newline :: char where
  "newline = CHR 0x0A"

definition api_token :: "api_token_row \<Rightarrow> RepositoryError + LocalApiTokenRecord" where
  "api_token r =
     and_then (required_u64 (at_created_at_ms r)) (\<lambda>created_at_ms.
     and_then (required_u64 (at_expires_at_ms r)) (\<lambda>expires_at_ms.
     and_then (optional_u64 (at_last_used_at_ms r)) (\<lambda>last_used_at_ms.
     and_then (optional_u64 (at_revoked_at_ms r)) (\<lambda>revoked_at_ms.
       Ok \<lparr>lat_id = at_id r, lat_name = at_name r, lat_token_prefix = at_token_prefix r,
           lat_secret_hash = at_secret_hash r, lat_scopes = split_on newline (at_scopes r),
           lat_workspace_id = at_workspace_id r, lat_project_id = at_project_id r,
           lat_created_at_ms = created_at_ms, lat_expires_at_ms = expires_at_ms,
           lat_last_used_at_ms = last_used_at_ms, lat_revoked_at_ms = revoked_at_ms\<rparr>))))"

definition cli_session :: "cli_session_row \<Rightarrow> RepositoryError + LocalCliSessionRecord" where
  "cli_session r =
     and_then (required_u64 (cs_created_at_ms r)) (\<lambda>created_at_ms.
     and_then (optional_u64 (cs_last_used_at_ms r)) (\<lambda>last_used_at_ms.
     and_then (optional_u64 (cs_revoked_at_ms r)) (\<lambda>revoked_at_ms.
       Ok \<lparr>lcs_id = cs_id r, lcs_token_id = cs_token_id r, lcs_workspace_id = cs_workspace_id r,
           lcs_name = cs_name r, lcs_platform = cs_platform r, lcs_version = cs_version r,
           lcs_created_at_ms = created_at_ms, lcs_last_used_at_ms = last_used_at_ms,
           lcs_revoked_at_ms = revoked_at_ms\<rparr>)))"

definition ci_actions :: "string \<Rightarrow> RepositoryError + CiAction list" where
  "ci_actions value =
     collect_results (\<lambda>action. ok_or Unavailable (ci_action_parse action)) (split_on newline value)"

definition ci_trust :: "ci_trust_row \<Rightarrow> RepositoryError + LocalCiTrustRecord" where
  "ci_trust r =
     and_then (ci_actions (tr_allowed_actions r)) (\<lambda>allowed_actions.
     and_then (required_u64 (tr_created_at_ms r)) (\<lambda>created_at_ms.
     and_then (optional_u64 (tr_revoked_at_ms r)) (\<lambda>revoked_at_ms.
       Ok \<lparr>lct_id = tr_id r, lct_workspace_id = tr_workspace_id r, lct_project_id = tr_project_id r,
           lct_repository = tr_repository r, lct_workflow_path = tr_workflow_path r,
           lct_workflow_ref = tr_workflow_ref r, lct_allowed_ref_glob = tr_allowed_ref_glob r,
           lct_environment = tr_environment r, lct_allowed_actions = allowed_actions,
           lct_audience = tr_audience r, lct_created_at_ms = created_at_ms,
           lct_revoked_at_ms = revoked_at_ms\<rparr>)))"

definition machine_session :: "machine_session_row \<Rightarrow> RepositoryError + LocalMachineSessionRecord" where
  "machine_session r =
     and_then (ci_actions (ms_actions r)) (\<lambda>actions.
     and_then (required_u64 (ms_created_at_ms r)) (\<lambda>created_at_ms.
     and_then (required_u64 (ms_expires_at_ms r)) (\<lambda>expires_at_ms.
     and_then (optional_u64 (ms_last_used_at_ms r)) (\<lambda>last_used_at_ms.
     and_then (optional_u64 (ms_revoked_at_ms r)) (\<lambda>revoked_at_ms.
       Ok \<lparr>lms_id = ms_id r, lms_trust_id = ms_trust_id r, lms_workspace_id = ms_workspace_id r,
           lms_project_id = ms_project_id r, lms_repository = ms_repository r,
           lms_git_ref = ms_git_ref r, lms_run_id = ms_run_id r, lms_run_attempt = ms_run_attempt r,
           lms_actions = actions, lms_created_at_ms = created_at_ms,
           lms_expires_at_ms = expires_at_ms, lms_last_used_at_ms = last_used_at_ms,
           lms_revoked_at_ms = revoked_at_ms\<rparr>)))))"

section \<open>Statements\<close>

definition access_audit :: "access_database \<Rightarrow> NewAuditEvent \<Rightarrow> RepositoryError + access_database" where
  "access_audit db event =
     and_then (audit_insert (metadata db) event) (\<lambda>m. Ok (db\<lparr>metadata := m\<rparr>))"

text \<open>\<^verbatim>\<open>CASE WHEN last_used_at_ms IS NULL OR last_used_at_ms < ?2 THEN ?2 ELSE last_used_at_ms END\<close>\<close>

definition touched :: "int \<Rightarrow> int option \<Rightarrow> int option" where
  "touched now last_used =
     (case last_used of None \<Rightarrow> Some now | Some t \<Rightarrow> if t < now then Some now else Some t)"

text \<open>\<^verbatim>\<open>UPDATE .. RETURNING\<close>, read as one row.\<close>

definition update_returning ::
  "('r \<Rightarrow> bool) \<Rightarrow> ('r \<Rightarrow> 'r) \<Rightarrow> ('r \<Rightarrow> bool) \<Rightarrow> ('r \<Rightarrow> RepositoryError + 'a) \<Rightarrow> 'r list
     \<Rightarrow> RepositoryError + ('a \<times> 'r list)" where
  "update_returning selected change check decode rows =
     and_then (update_rows selected change check rows) (\<lambda>(changed, rows').
     and_then (query_row selected (\<lambda>r. decode (change r)) rows) (\<lambda>x. Ok (x, rows')))"

definition sql_time :: "nat \<Rightarrow> RepositoryError + int" where
  "sql_time value = to_i64 value"

definition optional_sql_time :: "nat option \<Rightarrow> RepositoryError + int option" where
  "optional_sql_time value = transpose_option sql_time value"

definition validate_record :: "string \<Rightarrow> string \<Rightarrow> RepositoryError + unit" where
  "validate_record uid name = and_then (validate_text uid) (\<lambda>_. validate_text name)"

end
