(* ===== verification/Credentials.thy ===== *)
theory Credentials
  imports Access_State
begin

text \<open>
  Local credentials and CI trusts: \<^verbatim>\<open>auth.rs\<close>, \<^verbatim>\<open>auth_machine.rs\<close>, \<^verbatim>\<open>auth_validation.rs\<close>, \<^verbatim>\<open>ci.rs\<close>,
  \<^verbatim>\<open>ci_match.rs\<close>, \<^verbatim>\<open>ci_records.rs\<close> and \<^verbatim>\<open>ci_validation.rs\<close>. A bootstrap secret is exchanged once for a
  first session; API tokens are created and revoked by operators; a CI job exchanges a verified
  OIDC identity for a short machine session under a trust. Only hashes of secrets are stored.
\<close>

section \<open>Validation of credentials\<close>

definition validate_token :: "LocalApiTokenRecord \<Rightarrow> RepositoryError + unit" where
  "validate_token token =
     and_then (validate_record (lat_id token) (lat_name token)) (\<lambda>_.
     and_then (validate_hash (lat_secret_hash token)) (\<lambda>_.
     and_then (validate_text (lat_token_prefix token)) (\<lambda>_.
     and_then (validate_text (lat_workspace_id token)) (\<lambda>_.
     and_then (case lat_project_id token of None \<Rightarrow> Ok () | Some p \<Rightarrow> validate_text p) (\<lambda>_.
       if lat_scopes token = [] \<or> lat_created_at_ms token \<ge> lat_expires_at_ms token
          \<or> (case lat_last_used_at_ms token of None \<Rightarrow> False | Some t \<Rightarrow> t < lat_created_at_ms token)
          \<or> (case lat_revoked_at_ms token of None \<Rightarrow> False | Some t \<Rightarrow> t < lat_created_at_ms token)
          \<or> list_ex (\<lambda>scope. \<not> is_ok (validate_text scope)) (lat_scopes token)
       then Err InvalidInput else Ok ())))))"

definition validate_session :: "LocalCliSessionRecord \<Rightarrow> LocalApiTokenRecord \<Rightarrow> RepositoryError + unit" where
  "validate_session session token =
     and_then (try_each validate_text [lcs_id session, lcs_token_id session, lcs_workspace_id session,
        lcs_name session, lcs_platform session, lcs_version session]) (\<lambda>_.
       if \<not> (lcs_token_id session = lat_id token \<and> lcs_workspace_id session = lat_workspace_id token
             \<and> lcs_name session = lat_name token \<and> lcs_created_at_ms session = lat_created_at_ms token)
          \<or> lcs_last_used_at_ms session \<noteq> None \<or> lcs_revoked_at_ms session \<noteq> None
       then Err InvalidInput else Ok ())"

definition validate_session_event ::
  "NewAuditEvent \<Rightarrow> string \<Rightarrow> string \<Rightarrow> nat \<Rightarrow> RepositoryError + unit" where
  "validate_session_event event session_id workspace_id created_at_ms =
     (if nae_action event \<noteq> ''cli.session_revoked'' \<or> nae_target_type event \<noteq> ''cli_session''
         \<or> nae_workspace_id event \<noteq> workspace_id \<or> nae_created_at_ms event \<noteq> created_at_ms
         \<or> nae_metadata event \<noteq> [(''sessionId'', AvString session_id)]
      then Err InvalidInput else Ok ())"

definition validate_token_event ::
  "NewAuditEvent \<Rightarrow> string \<Rightarrow> string \<Rightarrow> string \<Rightarrow> nat \<Rightarrow> RepositoryError + unit" where
  "validate_token_event event action token_id workspace_id created_at_ms =
     (if nae_action event \<noteq> action \<or> nae_target_type event \<noteq> ''api_token''
         \<or> nae_workspace_id event \<noteq> workspace_id \<or> nae_created_at_ms event \<noteq> created_at_ms
         \<or> nae_metadata event \<noteq> [(''tokenId'', AvString token_id)]
      then Err InvalidInput else Ok ())"

section \<open>Tokens and sessions\<close>

definition insert_token :: "access_database \<Rightarrow> LocalApiTokenRecord \<Rightarrow> RepositoryError + access_database" where
  "insert_token db token =
     and_then (sql_time (lat_created_at_ms token)) (\<lambda>created_at_ms.
     and_then (sql_time (lat_expires_at_ms token)) (\<lambda>expires_at_ms.
     and_then (optional_sql_time (lat_last_used_at_ms token)) (\<lambda>last_used_at_ms.
     and_then (optional_sql_time (lat_revoked_at_ms token)) (\<lambda>revoked_at_ms.
       let row = \<lparr>at_id = lat_id token, at_name = lat_name token, at_secret_hash = lat_secret_hash token,
                  at_scopes = join [newline] (lat_scopes token), at_workspace_id = lat_workspace_id token,
                  at_revoked = (if lat_revoked_at_ms token \<noteq> None then 1 else 0),
                  at_token_prefix = lat_token_prefix token, at_project_id = lat_project_id token,
                  at_created_at_ms = created_at_ms, at_expires_at_ms = expires_at_ms,
                  at_last_used_at_ms = last_used_at_ms, at_revoked_at_ms = revoked_at_ms\<rparr>
       in and_then (insert_row (api_token_allowed db row) row (api_tokens db)) (\<lambda>rows.
            Ok (db\<lparr>api_tokens := rows\<rparr>))))))"

definition insert_session :: "access_database \<Rightarrow> LocalCliSessionRecord \<Rightarrow> RepositoryError + access_database" where
  "insert_session db session =
     and_then (sql_time (lcs_created_at_ms session)) (\<lambda>created_at_ms.
     and_then (optional_sql_time (lcs_last_used_at_ms session)) (\<lambda>last_used_at_ms.
     and_then (optional_sql_time (lcs_revoked_at_ms session)) (\<lambda>revoked_at_ms.
       let row = \<lparr>cs_id = lcs_id session, cs_token_id = lcs_token_id session,
                  cs_workspace_id = lcs_workspace_id session, cs_name = lcs_name session,
                  cs_platform = lcs_platform session, cs_version = lcs_version session,
                  cs_created_at_ms = created_at_ms, cs_last_used_at_ms = last_used_at_ms,
                  cs_revoked_at_ms = revoked_at_ms\<rparr>
       in and_then (insert_row (cli_session_allowed db row) row (cli_sessions db)) (\<lambda>rows.
            Ok (db\<lparr>cli_sessions := rows\<rparr>)))))"

definition install_bootstrap :: "access_database \<Rightarrow> string \<Rightarrow> bool access_outcome" where
  "install_bootstrap db secret_hash =
     after (validate_hash secret_hash) db (\<lambda>_.
       case bootstrap_authority db of
         None \<Rightarrow> (Ok True, db\<lparr>bootstrap_authority := Some \<lparr>ba_secret_hash = Some secret_hash, ba_consumed = 0\<rparr>\<rparr>)
       | Some r \<Rightarrow> (Ok False, db))"

definition consume_bootstrap :: "access_database \<Rightarrow> string \<Rightarrow> RepositoryError + access_database" where
  "consume_bootstrap db bootstrap_hash =
     (case bootstrap_authority db of
        Some r \<Rightarrow>
          if ba_consumed r = 0 \<and> ba_secret_hash r = Some bootstrap_hash
          then Ok (db\<lparr>bootstrap_authority := Some \<lparr>ba_secret_hash = None, ba_consumed = 1\<rparr>\<rparr>)
          else Err NotFound
      | None \<Rightarrow> Err NotFound)"

definition exchange_bootstrap ::
  "access_database \<Rightarrow> string \<Rightarrow> LocalApiTokenRecord \<Rightarrow> LocalCliSessionRecord \<Rightarrow> unit access_outcome" where
  "exchange_bootstrap db bootstrap_hash token session =
     after (and_then (validate_hash bootstrap_hash) (\<lambda>_.
            and_then (validate_token token) (\<lambda>_. validate_session session token))) db (\<lambda>_.
       write_transaction (\<lambda>db.
         and_then (consume_bootstrap db bootstrap_hash) (\<lambda>db.
         and_then (insert_token db token) (\<lambda>db.
         and_then (insert_session db session) (\<lambda>db. Ok ((), db))))) db)"

definition list_cli_sessions :: "access_database \<Rightarrow> string \<Rightarrow> RepositoryError + LocalCliSessionRecord list" where
  "list_cli_sessions db workspace_id =
     and_then (validate_text workspace_id) (\<lambda>_.
       collect_results cli_session
         (rev (sort_key (\<lambda>r. (cs_created_at_ms r, cs_id r))
           (filter (\<lambda>r. cs_workspace_id r = workspace_id \<and> cs_revoked_at_ms r = None) (cli_sessions db)))))"

definition revoke_token_row :: "int \<Rightarrow> api_token_row \<Rightarrow> api_token_row" where
  "revoke_token_row now t = t\<lparr>at_revoked := 1, at_revoked_at_ms := Some now\<rparr>"

definition revoke_cli_session ::
  "access_database \<Rightarrow> string \<Rightarrow> string \<Rightarrow> nat \<Rightarrow> NewAuditEvent \<Rightarrow> unit access_outcome" where
  "revoke_cli_session db uid workspace_id now_ms event =
     after (and_then (validate_text uid) (\<lambda>_. and_then (validate_text workspace_id) (\<lambda>_. sql_time now_ms))) db (\<lambda>now.
       write_transaction (\<lambda>db.
         and_then (query_row (\<lambda>s. cs_id s = uid \<and> cs_workspace_id s = workspace_id)
           (\<lambda>s. Ok (cs_token_id s, cs_revoked_at_ms s)) (cli_sessions db)) (\<lambda>(token_id, revoked_at_ms).
           if revoked_at_ms \<noteq> None then Err Conflict
           else
             and_then (validate_session_event event uid workspace_id now_ms) (\<lambda>_.
             and_then (update_rows (\<lambda>s. cs_id s = uid \<and> cs_workspace_id s = workspace_id \<and> cs_revoked_at_ms s = None)
               (\<lambda>s. s\<lparr>cs_revoked_at_ms := Some now\<rparr>) cli_session_check (cli_sessions db)) (\<lambda>(session_changed, sessions).
             and_then (update_rows (\<lambda>t. at_id t = token_id \<and> at_revoked t = 0)
               (revoke_token_row now) api_token_check (api_tokens db)) (\<lambda>(token_changed, tokens).
               if session_changed \<noteq> 1 \<or> token_changed \<noteq> 1 then Err Conflict
               else and_then (access_audit (db\<lparr>cli_sessions := sessions, api_tokens := tokens\<rparr>) event) (\<lambda>db.
                      Ok ((), db))))))) db)"

definition create_api_token :: "access_database \<Rightarrow> LocalApiTokenRecord \<Rightarrow> NewAuditEvent \<Rightarrow> unit access_outcome" where
  "create_api_token db token event =
     after (and_then (validate_token token) (\<lambda>_.
            validate_token_event event ''api_token.created'' (lat_id token) (lat_workspace_id token)
              (lat_created_at_ms token))) db (\<lambda>_.
       write_transaction (\<lambda>db.
         and_then (insert_token db token) (\<lambda>db.
         and_then (access_audit db event) (\<lambda>db. Ok ((), db)))) db)"

text \<open>\<^verbatim>\<open>NOT EXISTS\<close> a session of either kind: the tokens an operator created.\<close>

definition standalone_token :: "access_database \<Rightarrow> api_token_row \<Rightarrow> bool" where
  "standalone_token db t \<longleftrightarrow>
     \<not> list_ex (\<lambda>s. cs_token_id s = at_id t) (cli_sessions db)
     \<and> \<not> list_ex (\<lambda>s. ms_token_id s = at_id t) (machine_sessions db)"

definition list_api_tokens :: "access_database \<Rightarrow> RepositoryError + LocalApiTokenRecord list" where
  "list_api_tokens db =
     collect_results api_token
       (rev (sort_key (\<lambda>t. (at_created_at_ms t, at_id t)) (filter (standalone_token db) (api_tokens db))))"

definition trust_by_id :: "access_database \<Rightarrow> string \<Rightarrow> string \<Rightarrow> RepositoryError + LocalCiTrustRecord" where
  "trust_by_id db uid workspace_id =
     query_row (\<lambda>t. tr_id t = uid \<and> tr_workspace_id t = workspace_id) ci_trust (ci_trusts db)"

definition session_trust_valid ::
  "LocalMachineSessionRecord \<Rightarrow> LocalCiTrustRecord \<Rightarrow> nat \<Rightarrow> bool" where
  "session_trust_valid session trust now_ms \<longleftrightarrow>
     lms_revoked_at_ms session = None \<and> lms_expires_at_ms session > now_ms
     \<and> lct_revoked_at_ms trust = None \<and> lct_repository trust = lms_repository session
     \<and> (case lct_project_id trust of None \<Rightarrow> True | Some p \<Rightarrow> p = lms_project_id session)
     \<and> list_all (\<lambda>a. a \<in> set (lct_allowed_actions trust)) (lms_actions session)"

definition touch_machine :: "access_database \<Rightarrow> string \<Rightarrow> int \<Rightarrow> RepositoryError + access_database" where
  "touch_machine db token_id now =
     and_then (update_rows (\<lambda>s. ms_token_id s = token_id)
       (\<lambda>s. s\<lparr>ms_last_used_at_ms := touched now (ms_last_used_at_ms s)\<rparr>) machine_session_check
       (machine_sessions db)) (\<lambda>(changed, rows). Ok (db\<lparr>machine_sessions := rows\<rparr>))"

definition validate_and_touch ::
  "access_database \<Rightarrow> string \<Rightarrow> nat \<Rightarrow> int \<Rightarrow> RepositoryError + access_database" where
  "validate_and_touch db token_id now_ms now =
     (case find (\<lambda>s. ms_token_id s = token_id) (machine_sessions db) of
        None \<Rightarrow> Ok db
      | Some row \<Rightarrow>
          and_then (machine_session row) (\<lambda>session.
          and_then (trust_by_id db (lms_trust_id session) (lms_workspace_id session)) (\<lambda>trust.
            if \<not> session_trust_valid session trust now_ms then Err NotFound
            else touch_machine db token_id now)))"

definition authenticate_api_token :: "access_database \<Rightarrow> string \<Rightarrow> nat \<Rightarrow> LocalApiTokenRecord access_outcome" where
  "authenticate_api_token db secret_hash now_ms =
     after (and_then (validate_hash secret_hash) (\<lambda>_. sql_time now_ms)) db (\<lambda>now.
       write_transaction (\<lambda>db.
         and_then (update_returning (\<lambda>t. at_secret_hash t = secret_hash \<and> at_revoked t = 0
              \<and> at_created_at_ms t \<le> now \<and> at_expires_at_ms t > now)
            (\<lambda>t. t\<lparr>at_last_used_at_ms := touched now (at_last_used_at_ms t)\<rparr>) api_token_check api_token
            (api_tokens db)) (\<lambda>(token, rows).
         and_then (validate_and_touch (db\<lparr>api_tokens := rows\<rparr>) (lat_id token) now_ms now) (\<lambda>db.
         and_then (update_rows (\<lambda>s. cs_token_id s = lat_id token \<and> cs_revoked_at_ms s = None)
            (\<lambda>s. s\<lparr>cs_last_used_at_ms := touched now (cs_last_used_at_ms s)\<rparr>) cli_session_check
            (cli_sessions db)) (\<lambda>(changed, sessions).
           Ok (token, db\<lparr>cli_sessions := sessions\<rparr>))))) db)"

definition revoke_api_token :: "access_database \<Rightarrow> string \<Rightarrow> nat \<Rightarrow> NewAuditEvent \<Rightarrow> unit access_outcome" where
  "revoke_api_token db uid now_ms event =
     after (and_then (validate_text uid) (\<lambda>_. sql_time now_ms)) db (\<lambda>now.
       write_transaction (\<lambda>db.
         and_then (query_row (\<lambda>t. at_id t = uid \<and> standalone_token db t)
           (\<lambda>t. Ok (at_workspace_id t, at_revoked t \<noteq> 0)) (api_tokens db)) (\<lambda>(workspace_id, revoked).
           if revoked then Err Conflict
           else
             and_then (validate_token_event event ''api_token.revoked'' uid workspace_id now_ms) (\<lambda>_.
             and_then (update_rows (\<lambda>t. at_id t = uid \<and> at_revoked t = 0) (revoke_token_row now) api_token_check
               (api_tokens db)) (\<lambda>(changed, tokens).
             and_then (access_audit (db\<lparr>api_tokens := tokens\<rparr>) event) (\<lambda>db. Ok ((), db)))))) db)"

section \<open>Validation of trusts and exchanges\<close>

definition MACHINE_SESSION_TTL_MS :: nat where "MACHINE_SESSION_TTL_MS = 15 * 60 * 1000"
definition EXCHANGE_RATE_LIMIT :: nat where "EXCHANGE_RATE_LIMIT = 20"
definition EXCHANGE_RATE_WINDOW_MS :: nat where "EXCHANGE_RATE_WINDOW_MS = 60 * 1000"

definition valid_github_repository_part :: "string \<Rightarrow> nat \<Rightarrow> bool \<Rightarrow> bool" where
  "valid_github_repository_part value maximum extended \<longleftrightarrow>
     value \<noteq> [] \<and> length value \<le> maximum
     \<and> list_all (\<lambda>c. is_ascii_alphanumeric c \<or> c = CHR ''-'' \<or> (extended \<and> (c = CHR ''.'' \<or> c = CHR ''_''))) value
     \<and> is_ascii_alphanumeric (hd value) \<and> is_ascii_alphanumeric (last value)"

definition valid_github_workflow_path :: "string \<Rightarrow> bool" where
  "valid_github_workflow_path value \<longleftrightarrow>
     (case strip_prefix ''.github/workflows/'' value of
        None \<Rightarrow> False
      | Some name \<Rightarrow>
          (case rsplit_once CHR ''.'' name of
             None \<Rightarrow> False
           | Some (_, extension) \<Rightarrow>
               (extension = ''yml'' \<or> extension = ''yaml'')
               \<and> list_all (\<lambda>c. is_ascii_alphanumeric c \<or> c = CHR ''.'' \<or> c = CHR ''_'' \<or> c = CHR ''-'') name))"

definition valid_github_ref_tail :: "string \<Rightarrow> bool" where
  "valid_github_ref_tail value \<longleftrightarrow>
     value \<noteq> [] \<and> \<not> contains_str ''..'' value
     \<and> list_all (\<lambda>c. is_ascii_alphanumeric c \<or> c = CHR ''.'' \<or> c = CHR ''_'' \<or> c = CHR ''/'' \<or> c = CHR ''-'') value"

definition valid_repository :: "string \<Rightarrow> bool" where
  "valid_repository value \<longleftrightarrow>
     (case split_once CHR ''/'' value of
        None \<Rightarrow> False
      | Some (owner, repository) \<Rightarrow>
          \<not> list_ex is_ascii_uppercase value
          \<and> valid_github_repository_part owner 39 False
          \<and> valid_github_repository_part repository 100 True)"

definition ref_prefixes :: "string list" where
  "ref_prefixes = [''refs/heads/'', ''refs/tags/'', ''refs/pull/'']"

definition valid_git_ref :: "string \<Rightarrow> bool" where
  "valid_git_ref value \<longleftrightarrow>
     list_ex (\<lambda>p. case strip_prefix p value of None \<Rightarrow> False | Some tail \<Rightarrow> valid_github_ref_tail tail) ref_prefixes
     \<or> (length value = 40 \<and> list_all is_ascii_hexdigit value)"

definition valid_glob_tail :: "string \<Rightarrow> bool" where
  "valid_glob_tail value \<longleftrightarrow>
     value \<noteq> [] \<and> \<not> contains_str ''..'' value \<and> \<not> contains_str ''**'' value
     \<and> list_all (\<lambda>c. is_ascii_alphanumeric c \<or> c = CHR ''.'' \<or> c = CHR ''_'' \<or> c = CHR ''/'' \<or> c = CHR ''-''
          \<or> c = CHR ''*'') value"

definition valid_ref_glob :: "string \<Rightarrow> bool" where
  "valid_ref_glob value \<longleftrightarrow>
     list_ex (\<lambda>p. case strip_prefix p value of None \<Rightarrow> False | Some tail \<Rightarrow> valid_glob_tail tail) ref_prefixes"

definition validate_actions :: "CiAction list \<Rightarrow> RepositoryError + unit" where
  "validate_actions actions =
     (if actions = [] \<or> length actions > 4 \<or> length (remdups actions) \<noteq> length actions
      then Err InvalidInput else Ok ())"

definition validate_optional :: "string option \<Rightarrow> RepositoryError + unit" where
  "validate_optional value = (case value of None \<Rightarrow> Ok () | Some v \<Rightarrow> validate_text v)"

definition validate_trust :: "LocalCiTrustRecord \<Rightarrow> RepositoryError + int" where
  "validate_trust trust =
     and_then (try_each validate_text [lct_id trust, lct_workspace_id trust, lct_repository trust,
        lct_workflow_path trust, lct_workflow_ref trust, lct_allowed_ref_glob trust, lct_audience trust]) (\<lambda>_.
     and_then (validate_optional (lct_project_id trust)) (\<lambda>_.
     and_then (validate_optional (lct_environment trust)) (\<lambda>_.
       if lct_revoked_at_ms trust \<noteq> None \<or> \<not> valid_repository (lct_repository trust)
          \<or> \<not> valid_github_workflow_path (lct_workflow_path trust) \<or> \<not> valid_git_ref (lct_workflow_ref trust)
          \<or> \<not> valid_ref_glob (lct_allowed_ref_glob trust)
       then Err InvalidInput
       else and_then (validate_actions (lct_allowed_actions trust)) (\<lambda>_. sql_time (lct_created_at_ms trust)))))"

record SqlMachineTimes =
  smt_now :: int
  smt_expires :: int

definition machine_token_name :: "string \<Rightarrow> string \<Rightarrow> string" where
  "machine_token_name repository run_id = ''GitHub Actions '' @ repository @ '' run '' @ run_id"

definition validate_exchange :: "NewMachineSession \<Rightarrow> RepositoryError + SqlMachineTimes" where
  "validate_exchange session =
     (let identity = nms_identity session in
      and_then (validate_hash (nms_oidc_token_hash session)) (\<lambda>_.
      and_then (validate_hash (nms_secret_hash session)) (\<lambda>_.
      and_then (try_each validate_text [nms_project session, goi_audience identity, goi_repository identity,
         goi_git_ref identity, goi_workflow_path identity, goi_workflow_ref identity, goi_run_id identity]) (\<lambda>_.
      and_then (try_each validate_optional [nms_workspace session, goi_environment identity,
         goi_run_attempt identity, goi_sha identity]) (\<lambda>_.
      and_then (validate_actions (nms_actions session)) (\<lambda>_.
      and_then (sql_time (nms_now_ms session)) (\<lambda>now.
      and_then (sql_time (goi_expires_at_ms identity)) (\<lambda>expires.
        let token_name = machine_token_name (goi_repository identity) (goi_run_id identity)
        in if \<not> starts_with ''machine_'' (nms_id session)
              \<or> \<not> is_ok (validate_text (nms_id session)) \<or> \<not> is_ok (validate_text (nms_token_prefix session))
              \<or> \<not> is_ok (validate_text token_name)
              \<or> goi_expires_at_ms identity \<le> nms_now_ms session \<or> goi_expires_at_ms identity > nms_now_ms session + MACHINE_SESSION_TTL_MS
              \<or> \<not> valid_repository (goi_repository identity) \<or> \<not> valid_git_ref (goi_git_ref identity)
              \<or> \<not> valid_github_workflow_path (goi_workflow_path identity)
              \<or> \<not> valid_git_ref (goi_workflow_ref identity)
           then Err InvalidInput
           else Ok \<lparr>smt_now = now, smt_expires = expires\<rparr>))))))))"

definition validate_ci_event ::
  "NewAuditEvent \<Rightarrow> string \<Rightarrow> string \<Rightarrow> string \<Rightarrow> string \<Rightarrow> string \<Rightarrow> nat \<Rightarrow> RepositoryError + unit" where
  "validate_ci_event event action target_type target_id repository workspace_id created_at_ms =
     (if nae_action event \<noteq> action \<or> nae_target_type event \<noteq> target_type
         \<or> nae_workspace_id event \<noteq> workspace_id \<or> nae_created_at_ms event \<noteq> created_at_ms
         \<or> nae_metadata event \<noteq> [(''repository'', AvString repository), (''targetId'', AvString target_id)]
      then Err InvalidInput else Ok ())"

section \<open>Trusts\<close>

definition actions_text :: "CiAction list \<Rightarrow> string" where
  "actions_text actions = join [newline] (map ci_action_as_str actions)"

definition insert_trust :: "access_database \<Rightarrow> LocalCiTrustRecord \<Rightarrow> int \<Rightarrow> RepositoryError + access_database" where
  "insert_trust db trust created_at =
     (let row = \<lparr>tr_id = lct_id trust, tr_workspace_id = lct_workspace_id trust,
                 tr_project_id = lct_project_id trust, tr_repository = lct_repository trust,
                 tr_workflow_path = lct_workflow_path trust, tr_workflow_ref = lct_workflow_ref trust,
                 tr_allowed_ref_glob = lct_allowed_ref_glob trust, tr_environment = lct_environment trust,
                 tr_allowed_actions = actions_text (lct_allowed_actions trust),
                 tr_audience = lct_audience trust, tr_created_at_ms = created_at, tr_revoked_at_ms = None\<rparr>
      in and_then (insert_row (ci_trust_allowed db row) row (ci_trusts db)) (\<lambda>rows. Ok (db\<lparr>ci_trusts := rows\<rparr>)))"

definition require_project_scope :: "access_database \<Rightarrow> string option \<Rightarrow> string \<Rightarrow> RepositoryError + unit" where
  "require_project_scope db project_id workspace_id =
     (case project_id of
        None \<Rightarrow> Ok ()
      | Some p \<Rightarrow> query_row (\<lambda>r. pj_id r = p \<and> pj_workspace_id r = workspace_id) (\<lambda>_. Ok ()) (projects (metadata db)))"

definition create_ci_trust :: "access_database \<Rightarrow> LocalCiTrustRecord \<Rightarrow> NewAuditEvent \<Rightarrow> unit access_outcome" where
  "create_ci_trust db trust event =
     after (and_then (validate_trust trust) (\<lambda>created_at.
            and_then (validate_ci_event event ''ci.trust_created'' ''ci_trust'' (lct_id trust) (lct_repository trust)
              (lct_workspace_id trust) (lct_created_at_ms trust)) (\<lambda>_. Ok created_at))) db (\<lambda>created_at.
       write_transaction (\<lambda>db.
         and_then (require_project_scope db (lct_project_id trust) (lct_workspace_id trust)) (\<lambda>_.
         and_then (insert_trust db trust created_at) (\<lambda>db.
         and_then (access_audit db event) (\<lambda>db. Ok ((), db))))) db)"

definition list_ci_trusts :: "access_database \<Rightarrow> string \<Rightarrow> RepositoryError + LocalCiTrustRecord list" where
  "list_ci_trusts db workspace_id =
     and_then (validate_text workspace_id) (\<lambda>_.
       collect_results ci_trust
         (rev (sort_key (\<lambda>t. (tr_created_at_ms t, tr_id t))
           (filter (\<lambda>t. tr_workspace_id t = workspace_id) (ci_trusts db)))))"

definition derived_token :: "access_database \<Rightarrow> string \<Rightarrow> api_token_row \<Rightarrow> bool" where
  "derived_token db trust_id t \<longleftrightarrow>
     list_ex (\<lambda>s. ms_trust_id s = trust_id \<and> ms_token_id s = at_id t) (machine_sessions db)"

definition revoke_ci_trust ::
  "access_database \<Rightarrow> string \<Rightarrow> string \<Rightarrow> nat \<Rightarrow> NewAuditEvent \<Rightarrow> bool access_outcome" where
  "revoke_ci_trust db uid workspace_id now_ms event =
     after (and_then (validate_text uid) (\<lambda>_. and_then (validate_text workspace_id) (\<lambda>_. sql_time now_ms))) db (\<lambda>now.
       write_transaction (\<lambda>db.
         and_then (trust_by_id db uid workspace_id) (\<lambda>trust.
           if lct_revoked_at_ms trust \<noteq> None then Ok (False, db)
           else
             and_then (validate_ci_event event ''ci.trust_revoked'' ''ci_trust'' uid (lct_repository trust)
               workspace_id now_ms) (\<lambda>_.
             and_then (update_rows (\<lambda>t. tr_id t = uid \<and> tr_revoked_at_ms t = None)
               (\<lambda>t. t\<lparr>tr_revoked_at_ms := Some now\<rparr>) ci_trust_check (ci_trusts db)) (\<lambda>(_, trusts).
             and_then (update_rows (\<lambda>t. derived_token db uid t \<and> at_revoked t = 0) (revoke_token_row now)
               api_token_check (api_tokens db)) (\<lambda>(_, tokens).
             and_then (update_rows (\<lambda>s. ms_trust_id s = uid \<and> ms_revoked_at_ms s = None)
               (\<lambda>s. s\<lparr>ms_revoked_at_ms := Some now\<rparr>) machine_session_check (machine_sessions db)) (\<lambda>(_, sessions).
             and_then (access_audit (db\<lparr>ci_trusts := trusts, api_tokens := tokens, machine_sessions := sessions\<rparr>) event)
               (\<lambda>db. Ok (True, db)))))))) db)"

section \<open>Machine sessions\<close>

definition assertion_exists :: "access_database \<Rightarrow> string \<Rightarrow> bool" where
  "assertion_exists db assertion_hash \<longleftrightarrow>
     list_ex (\<lambda>s. ms_oidc_token_hash s = assertion_hash) (machine_sessions db)"

definition claims_match :: "LocalCiTrustRecord \<Rightarrow> NewMachineSession \<Rightarrow> bool" where
  "claims_match trust session \<longleftrightarrow>
     lct_audience trust = goi_audience (nms_identity session)
     \<and> lct_workflow_path trust = goi_workflow_path (nms_identity session)
     \<and> lct_workflow_ref trust = goi_workflow_ref (nms_identity session)
     \<and> lct_environment trust = goi_environment (nms_identity session)
     \<and> ref_matches (goi_git_ref (nms_identity session)) (lct_allowed_ref_glob trust)
     \<and> list_all (\<lambda>a. a \<in> set (lct_allowed_actions trust)) (nms_actions session)"

definition scoped_project ::
  "access_database \<Rightarrow> LocalCiTrustRecord \<Rightarrow> NewMachineSession \<Rightarrow> RepositoryError + string option" where
  "scoped_project db trust session =
     and_then (query_row (\<lambda>w. ws_id w = lct_workspace_id trust) (\<lambda>w. Ok (ws_slug w)) (workspaces (metadata db)))
       (\<lambda>workspace_slug.
         if (case nms_workspace session of None \<Rightarrow> False | Some requested \<Rightarrow> requested \<noteq> workspace_slug) then Ok None
         else Ok (map_option pj_id (find (\<lambda>p. pj_workspace_id p = lct_workspace_id trust \<and> pj_slug p = nms_project session
                \<and> (case lct_project_id trust of None \<Rightarrow> True | Some pid \<Rightarrow> pj_id p = pid)) (projects (metadata db)))))"

fun first_trust ::
  "access_database \<Rightarrow> NewMachineSession \<Rightarrow> LocalCiTrustRecord list
     \<Rightarrow> RepositoryError + (LocalCiTrustRecord \<times> string) option" where
  "first_trust db session [] = Ok None"
| "first_trust db session (trust # trusts) =
     (if claims_match trust session
      then and_then (scoped_project db trust session) (\<lambda>project.
             case project of
               Some project_id \<Rightarrow> Ok (Some (trust, project_id))
             | None \<Rightarrow> first_trust db session trusts)
      else first_trust db session trusts)"

definition matching_trust ::
  "access_database \<Rightarrow> NewMachineSession \<Rightarrow> RepositoryError + (LocalCiTrustRecord \<times> string) option" where
  "matching_trust db session =
     and_then (collect_results ci_trust
         (rev (sort_key (\<lambda>t. (tr_project_id t \<noteq> None, tr_created_at_ms t, tr_id t))
           (filter (\<lambda>t. tr_repository t = goi_repository (nms_identity session) \<and> tr_revoked_at_ms t = None)
             (ci_trusts db))))) (first_trust db session)"

definition recent_sessions :: "access_database \<Rightarrow> string \<Rightarrow> int \<Rightarrow> machine_session_row list" where
  "recent_sessions db trust_id cutoff =
     filter (\<lambda>s. ms_trust_id s = trust_id \<and> ms_created_at_ms s > cutoff) (machine_sessions db)"

definition rate_retry :: "access_database \<Rightarrow> string \<Rightarrow> nat \<Rightarrow> int \<Rightarrow> nat option" where
  "rate_retry db trust_id now_ms now =
     (let recent = recent_sessions db trust_id (now - int EXCHANGE_RATE_WINDOW_MS)
      in if length recent \<ge> EXCHANGE_RATE_LIMIT
         then let created = nat (Min (set (map ms_created_at_ms recent)));
                  ready_at = min (created + EXCHANGE_RATE_WINDOW_MS) u64_max
              in Some (max (div_ceil (saturating_sub_u64 ready_at now_ms) 1000) 1)
         else None)"

definition machine_record :: "NewMachineSession \<Rightarrow> LocalCiTrustRecord \<Rightarrow> string \<Rightarrow> LocalMachineSessionRecord" where
  "machine_record session trust project_id =
     \<lparr>lms_id = nms_id session, lms_trust_id = lct_id trust, lms_workspace_id = lct_workspace_id trust,
      lms_project_id = project_id, lms_repository = goi_repository (nms_identity session),
      lms_git_ref = goi_git_ref (nms_identity session), lms_run_id = goi_run_id (nms_identity session),
      lms_run_attempt = goi_run_attempt (nms_identity session), lms_actions = nms_actions session,
      lms_created_at_ms = nms_now_ms session, lms_expires_at_ms = goi_expires_at_ms (nms_identity session),
      lms_last_used_at_ms = None, lms_revoked_at_ms = None\<rparr>"

definition machine_token :: "NewMachineSession \<Rightarrow> LocalMachineSessionRecord \<Rightarrow> LocalApiTokenRecord" where
  "machine_token session record' =
     \<lparr>lat_id = nms_id session, lat_name = machine_token_name (lms_repository record') (lms_run_id record'),
      lat_token_prefix = nms_token_prefix session, lat_secret_hash = nms_secret_hash session,
      lat_scopes = map ci_action_as_str (lms_actions record'), lat_workspace_id = lms_workspace_id record',
      lat_project_id = Some (lms_project_id record'), lat_created_at_ms = lms_created_at_ms record',
      lat_expires_at_ms = lms_expires_at_ms record', lat_last_used_at_ms = None, lat_revoked_at_ms = None\<rparr>"

definition insert_machine ::
  "access_database \<Rightarrow> NewMachineSession \<Rightarrow> LocalMachineSessionRecord \<Rightarrow> SqlMachineTimes
     \<Rightarrow> RepositoryError + access_database" where
  "insert_machine db session record' sql_times =
     (let row = \<lparr>ms_id = lms_id record', ms_token_id = lms_id record', ms_trust_id = lms_trust_id record',
                 ms_workspace_id = lms_workspace_id record', ms_project_id = lms_project_id record',
                 ms_repository = lms_repository record', ms_git_ref = lms_git_ref record',
                 ms_run_id = lms_run_id record', ms_run_attempt = lms_run_attempt record',
                 ms_actions = actions_text (lms_actions record'),
                 ms_oidc_token_hash = nms_oidc_token_hash session, ms_created_at_ms = smt_now sql_times,
                 ms_expires_at_ms = smt_expires sql_times, ms_last_used_at_ms = None, ms_revoked_at_ms = None\<rparr>
      in and_then (insert_row (machine_session_allowed db row) row (machine_sessions db)) (\<lambda>rows.
           Ok (db\<lparr>machine_sessions := rows\<rparr>)))"

definition mint ::
  "NewMachineSession \<Rightarrow> NewAuditEvent \<Rightarrow> SqlMachineTimes \<Rightarrow> access_database
     \<Rightarrow> RepositoryError + (MachineSessionMintResult \<times> access_database)" where
  "mint session event sql_times db =
     (if assertion_exists db (nms_oidc_token_hash session) then Ok (Replayed, db)
      else
        and_then (matching_trust db session) (\<lambda>found.
          case found of
            None \<Rightarrow> Ok (Forbidden, db)
          | Some (trust, project_id) \<Rightarrow>
              (case rate_retry db (lct_id trust) (nms_now_ms session) (smt_now sql_times) of
                 Some retry_after_seconds \<Rightarrow> Ok (RateLimited retry_after_seconds, db)
               | None \<Rightarrow>
                   and_then (validate_ci_event event ''ci.token_minted'' ''project'' project_id (lct_repository trust)
                     (lct_workspace_id trust) (nms_now_ms session)) (\<lambda>_.
                     let record' = machine_record session trust project_id
                     in and_then (insert_token db (machine_token session record')) (\<lambda>db.
                        and_then (insert_machine db session record' sql_times) (\<lambda>db.
                        and_then (access_audit db event) (\<lambda>db. Ok (Minted record', db))))))))"

definition mint_machine_session ::
  "access_database \<Rightarrow> NewMachineSession \<Rightarrow> NewAuditEvent \<Rightarrow> MachineSessionMintResult access_outcome" where
  "mint_machine_session db session event =
     after (validate_exchange session) db (\<lambda>sql_times. write_transaction (mint session event sql_times) db)"

definition authenticate_machine_session ::
  "access_database \<Rightarrow> string \<Rightarrow> nat \<Rightarrow> LocalMachineSessionRecord access_outcome" where
  "authenticate_machine_session db token_id now_ms =
     after (and_then (validate_text token_id) (\<lambda>_. sql_time now_ms)) db (\<lambda>now.
       write_transaction (\<lambda>db.
         and_then (query_row (\<lambda>s. ms_token_id s = token_id \<and> ms_revoked_at_ms s = None \<and> ms_expires_at_ms s > now)
           machine_session (machine_sessions db)) (\<lambda>session.
         and_then (trust_by_id db (lms_trust_id session) (lms_workspace_id session)) (\<lambda>trust.
           if \<not> session_trust_valid session trust now_ms then Err NotFound
           else and_then (touch_machine db token_id now) (\<lambda>db.
             Ok (session\<lparr>lms_last_used_at_ms := Some (max now_ms (case lms_last_used_at_ms session of None \<Rightarrow> 0 | Some t \<Rightarrow> t))\<rparr>, db))))) db)"

end
