(* ===== verification/Access_Invariants.thy ===== *)
theory Access_Invariants
  imports Credentials
begin

text \<open>
  The invariant of the credential tables and its preservation. Each session is linked to the token
  that carries it, each machine session also to the trust that granted it, and revocation travels
  down these links: a revoked trust has only revoked sessions, a revoked session has a revoked token.
\<close>

section \<open>Decoders\<close>

lemma ci_actions_text: "as \<noteq> [] \<Longrightarrow> ci_actions (actions_text as) = Ok as"
proof -
  assume "as \<noteq> []"
  have clean: "newline \<notin> set (ci_action_as_str a)" for a by (cases a) (simp_all add: newline_def)
  then have "split_on newline (actions_text as) = map ci_action_as_str as"
    unfolding actions_text_def using \<open>as \<noteq> []\<close> by (intro split_on_join) auto
  moreover have "collect_results (\<lambda>a. ok_or Unavailable (ci_action_parse a)) (map ci_action_as_str as) = Ok as"
    by (induction as) (simp_all add: ci_action.parse_as_str)
  ultimately show ?thesis by (simp add: ci_actions_def)
qed

lemma ci_trust_Ok_iff:
  "ci_trust r = Ok x \<longleftrightarrow>
     ci_actions (tr_allowed_actions r) = Ok (lct_allowed_actions x)
     \<and> tr_created_at_ms r = int (lct_created_at_ms x) \<and> tr_revoked_at_ms r = map_option int (lct_revoked_at_ms x)
     \<and> lct_id x = tr_id r \<and> lct_workspace_id x = tr_workspace_id r \<and> lct_project_id x = tr_project_id r
     \<and> lct_repository x = tr_repository r \<and> lct_workflow_path x = tr_workflow_path r
     \<and> lct_workflow_ref x = tr_workflow_ref r \<and> lct_allowed_ref_glob x = tr_allowed_ref_glob r
     \<and> lct_environment x = tr_environment r \<and> lct_audience x = tr_audience r"
  by (cases x) (auto simp: ci_trust_def result_simps)

lemma machine_session_Ok_iff:
  "machine_session r = Ok x \<longleftrightarrow>
     ci_actions (ms_actions r) = Ok (lms_actions x)
     \<and> ms_created_at_ms r = int (lms_created_at_ms x) \<and> ms_expires_at_ms r = int (lms_expires_at_ms x)
     \<and> ms_last_used_at_ms r = map_option int (lms_last_used_at_ms x)
     \<and> ms_revoked_at_ms r = map_option int (lms_revoked_at_ms x)
     \<and> lms_id x = ms_id r \<and> lms_trust_id x = ms_trust_id r \<and> lms_workspace_id x = ms_workspace_id r
     \<and> lms_project_id x = ms_project_id r \<and> lms_repository x = ms_repository r \<and> lms_git_ref x = ms_git_ref r
     \<and> lms_run_id x = ms_run_id r \<and> lms_run_attempt x = ms_run_attempt r"
  by (cases x) (auto simp: machine_session_def result_simps)

lemma api_token_Ok_iff:
  "api_token r = Ok x \<longleftrightarrow>
     at_created_at_ms r = int (lat_created_at_ms x) \<and> at_expires_at_ms r = int (lat_expires_at_ms x)
     \<and> at_last_used_at_ms r = map_option int (lat_last_used_at_ms x)
     \<and> at_revoked_at_ms r = map_option int (lat_revoked_at_ms x)
     \<and> lat_id x = at_id r \<and> lat_name x = at_name r \<and> lat_token_prefix x = at_token_prefix r
     \<and> lat_secret_hash x = at_secret_hash r \<and> lat_scopes x = split_on newline (at_scopes r)
     \<and> lat_workspace_id x = at_workspace_id r \<and> lat_project_id x = at_project_id r"
  by (cases x) (auto simp: api_token_def result_simps)

lemma optional_nat: "at_least b v \<Longrightarrow> 0 \<le> b \<Longrightarrow> \<exists>w. v = map_option int w"
proof (cases v)
  case (Some t)
  assume "at_least b v" "0 \<le> b"
  with Some have "v = map_option int (Some (nat t))" by (simp add: at_least_def)
  then show ?thesis by blast
qed auto

lemma api_token_decodes: "api_token_check t \<Longrightarrow> \<exists>x. api_token t = Ok x"
proof -
  assume chk: "api_token_check t"
  then have least: "at_least 0 (at_last_used_at_ms t)" "at_least 0 (at_revoked_at_ms t)" by (simp_all add: api_token_check_def)
  obtain u where "at_last_used_at_ms t = map_option int u" using optional_nat [OF least(1)] by auto
  moreover obtain r where "at_revoked_at_ms t = map_option int r" using optional_nat [OF least(2)] by auto
  ultimately show ?thesis using chk
    by (auto simp: api_token_def api_token_check_def required_u64_def optional_u64_Ok_iff [THEN iffD2])
qed

section \<open>The invariant\<close>

definition token_of :: "machine_session_row \<Rightarrow> api_token_row \<Rightarrow> bool" where
  "token_of s t \<longleftrightarrow>
     at_id t = ms_token_id s \<and> at_created_at_ms t = ms_created_at_ms s \<and> at_expires_at_ms t = ms_expires_at_ms s
     \<and> at_scopes t = ms_actions s \<and> at_workspace_id t = ms_workspace_id s \<and> at_project_id t = Some (ms_project_id s)
     \<and> (ms_revoked_at_ms s \<noteq> None \<longrightarrow> at_revoked t = 1)"

definition trust_of :: "machine_session_row \<Rightarrow> ci_trust_row \<Rightarrow> bool" where
  "trust_of s r \<longleftrightarrow>
     tr_id r = ms_trust_id s \<and> tr_workspace_id r = ms_workspace_id s \<and> tr_repository r = ms_repository s
     \<and> (case tr_project_id r of None \<Rightarrow> True | Some p \<Rightarrow> p = ms_project_id s)
     \<and> (\<exists>as bs. ci_actions (ms_actions s) = Ok as \<and> ci_actions (tr_allowed_actions r) = Ok bs \<and> set as \<subseteq> set bs)
     \<and> (tr_revoked_at_ms r \<noteq> None \<longrightarrow> ms_revoked_at_ms s \<noteq> None)"

definition session_of :: "cli_session_row \<Rightarrow> api_token_row \<Rightarrow> bool" where
  "session_of s t \<longleftrightarrow>
     at_id t = cs_token_id s \<and> at_created_at_ms t = cs_created_at_ms s
     \<and> (cs_revoked_at_ms s \<noteq> None \<longrightarrow> at_revoked t = 1)"

definition tokens_ok :: "api_token_row list \<Rightarrow> bool" where
  "tokens_ok ts \<longleftrightarrow>
     distinct (map at_id ts) \<and> distinct (map at_secret_hash ts)
     \<and> (\<forall>t \<in> set ts. api_token_check t \<and> (at_revoked t = 1 \<longleftrightarrow> at_revoked_at_ms t \<noteq> None))"

definition sessions_ok :: "api_token_row list \<Rightarrow> cli_session_row list \<Rightarrow> bool" where
  "sessions_ok ts ss \<longleftrightarrow>
     distinct (map cs_id ss) \<and> (\<forall>s \<in> set ss. cli_session_check s \<and> (\<exists>t \<in> set ts. session_of s t))"

definition trusts_ok :: "ci_trust_row list \<Rightarrow> bool" where
  "trusts_ok rs \<longleftrightarrow>
     distinct (map tr_id rs)
     \<and> (\<forall>r \<in> set rs. ci_trust_check r \<and> (\<exists>as. ci_actions (tr_allowed_actions r) = Ok as))"

definition machines_ok :: "api_token_row list \<Rightarrow> ci_trust_row list \<Rightarrow> machine_session_row list \<Rightarrow> bool" where
  "machines_ok ts rs ss \<longleftrightarrow>
     distinct (map ms_token_id ss) \<and> distinct (map ms_oidc_token_hash ss)
     \<and> (\<forall>s \<in> set ss. machine_session_check s \<and> (\<exists>t \<in> set ts. token_of s t) \<and> (\<exists>r \<in> set rs. trust_of s r))"

definition bootstrap_ok :: "access_database \<Rightarrow> bool" where
  "bootstrap_ok db \<longleftrightarrow> (\<forall>r. bootstrap_authority db = Some r \<longrightarrow> bootstrap_check r)"

definition access_inv :: "access_database \<Rightarrow> bool" where
  "access_inv db \<longleftrightarrow>
     bootstrap_ok db \<and> tokens_ok (api_tokens db) \<and> sessions_ok (api_tokens db) (cli_sessions db)
     \<and> trusts_ok (ci_trusts db) \<and> machines_ok (api_tokens db) (ci_trusts db) (machine_sessions db)"

lemma access_invD:
  assumes "access_inv db"
  shows "bootstrap_ok db" and "tokens_ok (api_tokens db)" and "sessions_ok (api_tokens db) (cli_sessions db)"
    and "trusts_ok (ci_trusts db)" and "machines_ok (api_tokens db) (ci_trusts db) (machine_sessions db)"
  using assms by (simp_all add: access_inv_def)

lemma bootstrap_ok_fields [simp]:
  "bootstrap_ok (db\<lparr>metadata := m\<rparr>) = bootstrap_ok db" "bootstrap_ok (db\<lparr>api_tokens := ts\<rparr>) = bootstrap_ok db"
  "bootstrap_ok (db\<lparr>cli_sessions := ss\<rparr>) = bootstrap_ok db" "bootstrap_ok (db\<lparr>ci_trusts := rs\<rparr>) = bootstrap_ok db"
  "bootstrap_ok (db\<lparr>machine_sessions := xs\<rparr>) = bootstrap_ok db"
  by (simp_all add: bootstrap_ok_def)

section \<open>Updates\<close>

text \<open>A change of tokens that keeps what identifies them and only ever revokes.\<close>

definition token_change :: "(api_token_row \<Rightarrow> api_token_row) \<Rightarrow> bool" where
  "token_change f \<longleftrightarrow> (\<forall>t. at_id (f t) = at_id t \<and> at_secret_hash (f t) = at_secret_hash t \<and> at_scopes (f t) = at_scopes t
     \<and> at_workspace_id (f t) = at_workspace_id t \<and> at_project_id (f t) = at_project_id t
     \<and> at_created_at_ms (f t) = at_created_at_ms t \<and> at_expires_at_ms (f t) = at_expires_at_ms t
     \<and> (at_revoked t = 1 \<longrightarrow> at_revoked (f t) = 1)
     \<and> ((at_revoked t = 1 \<longleftrightarrow> at_revoked_at_ms t \<noteq> None) \<longrightarrow> (at_revoked (f t) = 1 \<longleftrightarrow> at_revoked_at_ms (f t) \<noteq> None)))"

lemma token_change_touch: "token_change (\<lambda>t. t\<lparr>at_last_used_at_ms := g t\<rparr>)"
  by (simp add: token_change_def)

lemma token_change_revoke: "token_change (revoke_token_row now)"
  by (simp add: token_change_def revoke_token_row_def)

lemma tokens_update_inv:
  assumes inv: "access_inv db" and up: "update_rows sel f api_token_check (api_tokens db) = Ok (n, rows)"
    and f: "token_change f"
  shows "access_inv (db\<lparr>api_tokens := rows\<rparr>)"
proof -
  note rows = update_rows_D [OF up] and d = access_invD [OF inv]
  have keys: "map at_id rows = map at_id (api_tokens db)" "map at_secret_hash rows = map at_secret_hash (api_tokens db)"
    unfolding rows(1) using f by (simp_all add: map_update_key token_change_def)
  have "api_token_check t \<and> (at_revoked t = 1 \<longleftrightarrow> at_revoked_at_ms t \<noteq> None)" if "t \<in> set rows" for t
    by (rule ball_update [OF _ _ that [unfolded rows(1)]]) (use d(2) rows(3) f in \<open>auto simp: tokens_ok_def token_change_def\<close>)
  then have "tokens_ok rows" using d(2) by (simp add: tokens_ok_def keys)
  moreover have "\<exists>t \<in> set rows. session_of s t" if "\<exists>t \<in> set (api_tokens db). session_of s t" for s
    unfolding rows(1) by (rule bex_update [OF that]) (use f in \<open>auto simp: session_of_def token_change_def\<close>)
  then have "sessions_ok rows (cli_sessions db)" using d(3) by (simp add: sessions_ok_def)
  moreover have "\<exists>t \<in> set rows. token_of s t" if "\<exists>t \<in> set (api_tokens db). token_of s t" for s
    unfolding rows(1) by (rule bex_update [OF that]) (use f in \<open>auto simp: token_of_def token_change_def\<close>)
  then have "machines_ok rows (ci_trusts db) (machine_sessions db)" using d(5) by (simp add: machines_ok_def)
  ultimately show ?thesis using d(1,4) by (simp add: access_inv_def)
qed

lemma sessions_update_inv:
  assumes inv: "access_inv db" and up: "update_rows sel f cli_session_check (cli_sessions db) = Ok (n, rows)"
    and keep: "\<And>s. cs_id (f s) = cs_id s \<and> cs_token_id (f s) = cs_token_id s \<and> cs_created_at_ms (f s) = cs_created_at_ms s"
    and revoked: "\<And>s t. s \<in> set (cli_sessions db) \<Longrightarrow> sel s \<Longrightarrow> cs_revoked_at_ms (f s) \<noteq> None \<Longrightarrow> session_of s t
      \<Longrightarrow> t \<in> set (api_tokens db) \<Longrightarrow> at_revoked t = 1"
  shows "access_inv (db\<lparr>cli_sessions := rows\<rparr>)"
proof -
  note rows = update_rows_D [OF up] and d = access_invD [OF inv]
  have keys: "map cs_id rows = map cs_id (cli_sessions db)" unfolding rows(1) using keep by (simp add: map_update_key)
  have "cli_session_check s \<and> (\<exists>t \<in> set (api_tokens db). session_of s t)" if "s \<in> set rows" for s
  proof (rule ball_update [OF _ _ that [unfolded rows(1)]])
    fix s assume s: "s \<in> set (cli_sessions db)"
    then show "cli_session_check s \<and> (\<exists>t \<in> set (api_tokens db). session_of s t)" using d(3) by (simp add: sessions_ok_def)
    then obtain t where t: "t \<in> set (api_tokens db)" "session_of s t" by blast
    assume sel: "sel s"
    have "session_of (f s) t" using t revoked [OF s sel _ t(2,1)] keep by (auto simp: session_of_def)
    then show "cli_session_check (f s) \<and> (\<exists>t \<in> set (api_tokens db). session_of (f s) t)" using t(1) rows(3) [OF s sel] by blast
  qed
  then have "sessions_ok (api_tokens db) rows" using d(3) by (simp add: sessions_ok_def keys)
  then show ?thesis using d by (simp add: access_inv_def)
qed

lemma machines_update_inv:
  assumes inv: "access_inv db" and up: "update_rows sel f machine_session_check (machine_sessions db) = Ok (n, rows)"
    and f: "f = (\<lambda>s. s\<lparr>ms_last_used_at_ms := g s\<rparr>) \<or> f = (\<lambda>s. s\<lparr>ms_revoked_at_ms := Some now\<rparr>)
      \<and> (\<forall>s t. s \<in> set (machine_sessions db) \<longrightarrow> sel s \<longrightarrow> t \<in> set (api_tokens db) \<longrightarrow> at_id t = ms_token_id s \<longrightarrow> at_revoked t = 1)"
  shows "access_inv (db\<lparr>machine_sessions := rows\<rparr>)"
proof -
  note rows = update_rows_D [OF up] and d = access_invD [OF inv]
  have keys: "map ms_token_id rows = map ms_token_id (machine_sessions db)"
    "map ms_oidc_token_hash rows = map ms_oidc_token_hash (machine_sessions db)"
    unfolding rows(1) using f by (auto simp: map_update_key)
  let ?ok = "\<lambda>s. machine_session_check s \<and> (\<exists>t \<in> set (api_tokens db). token_of s t) \<and> (\<exists>r \<in> set (ci_trusts db). trust_of s r)"
  have "?ok s" if "s \<in> set rows" for s
  proof (rule ball_update [OF _ _ that [unfolded rows(1)]])
    fix s assume s: "s \<in> set (machine_sessions db)"
    then show old: "?ok s" using d(5) by (simp add: machines_ok_def)
    then obtain t r where t: "t \<in> set (api_tokens db)" "token_of s t" and r: "r \<in> set (ci_trusts db)" "trust_of s r" by blast
    assume sel: "sel s"
    have "token_of (f s) t" using f
    proof
      assume f: "f = (\<lambda>s. s\<lparr>ms_last_used_at_ms := g s\<rparr>)"
      show ?thesis unfolding f using t(2) by (simp add: token_of_def)
    next
      assume f: "f = (\<lambda>s. s\<lparr>ms_revoked_at_ms := Some now\<rparr>) \<and> (\<forall>s t. s \<in> set (machine_sessions db) \<longrightarrow> sel s \<longrightarrow>
        t \<in> set (api_tokens db) \<longrightarrow> at_id t = ms_token_id s \<longrightarrow> at_revoked t = 1)"
      then have "at_revoked t = 1" using s sel t by (simp add: token_of_def)
      with f t(2) show ?thesis by (simp add: token_of_def)
    qed
    moreover have "trust_of (f s) r" using f r(2) by (auto simp: trust_of_def split: option.splits)
    ultimately show "?ok (f s)" using t(1) r(1) rows(3) [OF s sel] by blast
  qed
  then have "machines_ok (api_tokens db) (ci_trusts db) rows" using d(5) by (simp add: machines_ok_def keys)
  then show ?thesis using d by (simp add: access_inv_def)
qed

lemma trusts_revoke_inv:
  assumes inv: "access_inv db" and up: "update_rows sel (\<lambda>r. r\<lparr>tr_revoked_at_ms := Some now\<rparr>) ci_trust_check (ci_trusts db) = Ok (n, rows)"
    and dead: "\<And>s r. s \<in> set (machine_sessions db) \<Longrightarrow> sel r \<Longrightarrow> tr_id r = ms_trust_id s \<Longrightarrow> ms_revoked_at_ms s \<noteq> None"
  shows "access_inv (db\<lparr>ci_trusts := rows\<rparr>)"
proof -
  note rows = update_rows_D [OF up] and d = access_invD [OF inv]
  have keys: "map tr_id rows = map tr_id (ci_trusts db)" unfolding rows(1) by (simp add: map_update_key)
  have "ci_trust_check r \<and> (\<exists>as. ci_actions (tr_allowed_actions r) = Ok as)" if "r \<in> set rows" for r
    by (rule ball_update [OF _ _ that [unfolded rows(1)]]) (use d(4) rows(3) in \<open>auto simp: trusts_ok_def\<close>)
  then have "trusts_ok rows" using d(4) by (simp add: trusts_ok_def keys)
  moreover have "\<exists>r \<in> set rows. trust_of s r" if "s \<in> set (machine_sessions db)" "\<exists>r \<in> set (ci_trusts db). trust_of s r" for s
    unfolding rows(1) by (rule bex_update [OF that(2)]) (use dead [OF that(1)] in \<open>auto simp: trust_of_def\<close>)
  then have "machines_ok (api_tokens db) rows (machine_sessions db)" using d(5) by (simp add: machines_ok_def)
  ultimately show ?thesis using d by (simp add: access_inv_def)
qed

section \<open>Inserts\<close>

lemma token_insert_inv:
  assumes inv: "access_inv db" and ok: "api_token_allowed db t" and rev: "at_revoked t = 1 \<longleftrightarrow> at_revoked_at_ms t \<noteq> None"
  shows "access_inv (db\<lparr>api_tokens := api_tokens db @ [t]\<rparr>)"
  using assms
  by (auto simp: access_inv_def tokens_ok_def sessions_ok_def machines_ok_def api_token_allowed_def list_ex_iff)

lemma session_insert_inv:
  assumes inv: "access_inv db" and ok: "cli_session_allowed db s" and link: "\<exists>t \<in> set (api_tokens db). session_of s t"
  shows "access_inv (db\<lparr>cli_sessions := cli_sessions db @ [s]\<rparr>)"
  using assms by (auto simp: access_inv_def sessions_ok_def cli_session_allowed_def list_ex_iff)

lemma trust_insert_inv:
  assumes inv: "access_inv db" and ok: "ci_trust_allowed db r" and dec: "\<exists>as. ci_actions (tr_allowed_actions r) = Ok as"
  shows "access_inv (db\<lparr>ci_trusts := ci_trusts db @ [r]\<rparr>)"
  using assms
  by (auto simp: access_inv_def trusts_ok_def machines_ok_def ci_trust_allowed_def list_ex_iff)

lemma machine_insert_inv:
  assumes inv: "access_inv db" and ok: "machine_session_allowed db s"
    and link: "\<exists>t \<in> set (api_tokens db). token_of s t" "\<exists>r \<in> set (ci_trusts db). trust_of s r"
  shows "access_inv (db\<lparr>machine_sessions := machine_sessions db @ [s]\<rparr>)"
  using assms by (auto simp: access_inv_def machines_ok_def machine_session_allowed_def list_ex_iff)

lemma metadata_inv [simp]: "access_inv (db\<lparr>metadata := m\<rparr>) = access_inv db"
  by (simp add: access_inv_def)

lemma access_audit_D: "access_audit db ev = Ok db' \<Longrightarrow> \<exists>m. audit_insert (metadata db) ev = Ok m \<and> db' = db\<lparr>metadata := m\<rparr>"
  by (auto simp: access_audit_def result_simps)

lemma access_audit_inv: "access_audit db ev = Ok db' \<Longrightarrow> access_inv db \<Longrightarrow> access_inv db'"
  by (auto dest!: access_audit_D)

end
