(* ===== verification/Access_Histories.thy ===== *)
theory Access_Histories
  imports Access_Invariants
begin

text \<open>
  Every operation of the credential service keeps its invariant; the service as commands.
\<close>

section \<open>Inserted rows\<close>

lemma sql_time_Ok_iff [result_simps]: "sql_time n = Ok k \<longleftrightarrow> n \<le> i64_max \<and> k = int n"
  by (auto simp: sql_time_def result_simps)

lemma optional_sql_time_Ok_iff [result_simps]:
  "optional_sql_time v = Ok w \<longleftrightarrow> w = map_option int v \<and> (\<forall>t. v = Some t \<longrightarrow> t \<le> i64_max)"
  by (cases v) (auto simp: optional_sql_time_def result_simps)

definition token_row :: "LocalApiTokenRecord \<Rightarrow> api_token_row" where
  "token_row token =
     \<lparr>at_id = lat_id token, at_name = lat_name token, at_secret_hash = lat_secret_hash token,
      at_scopes = join [newline] (lat_scopes token), at_workspace_id = lat_workspace_id token,
      at_revoked = (if lat_revoked_at_ms token \<noteq> None then 1 else 0), at_token_prefix = lat_token_prefix token,
      at_project_id = lat_project_id token, at_created_at_ms = int (lat_created_at_ms token),
      at_expires_at_ms = int (lat_expires_at_ms token), at_last_used_at_ms = map_option int (lat_last_used_at_ms token),
      at_revoked_at_ms = map_option int (lat_revoked_at_ms token)\<rparr>"

lemma insert_token_D:
  assumes "insert_token db token = Ok db'"
  shows "db' = db\<lparr>api_tokens := api_tokens db @ [token_row token]\<rparr>" and "api_token_allowed db (token_row token)"
  using assms by (auto simp: insert_token_def result_simps Let_def token_row_def)

lemma insert_token_inv: "insert_token db token = Ok db' \<Longrightarrow> access_inv db \<Longrightarrow> access_inv db'"
  using token_insert_inv [of db "token_row token"] insert_token_D [of db token db'] by (simp add: token_row_def)

definition session_row :: "LocalCliSessionRecord \<Rightarrow> cli_session_row" where
  "session_row session =
     \<lparr>cs_id = lcs_id session, cs_token_id = lcs_token_id session, cs_workspace_id = lcs_workspace_id session,
      cs_name = lcs_name session, cs_platform = lcs_platform session, cs_version = lcs_version session,
      cs_created_at_ms = int (lcs_created_at_ms session),
      cs_last_used_at_ms = map_option int (lcs_last_used_at_ms session),
      cs_revoked_at_ms = map_option int (lcs_revoked_at_ms session)\<rparr>"

lemma insert_session_D:
  assumes "insert_session db session = Ok db'"
  shows "db' = db\<lparr>cli_sessions := cli_sessions db @ [session_row session]\<rparr>" and "cli_session_allowed db (session_row session)"
  using assms by (auto simp: insert_session_def result_simps Let_def session_row_def)

definition machine_row :: "NewMachineSession \<Rightarrow> LocalCiTrustRecord \<Rightarrow> string \<Rightarrow> machine_session_row" where
  "machine_row session trust project_id =
     \<lparr>ms_id = nms_id session, ms_token_id = nms_id session, ms_trust_id = lct_id trust,
      ms_workspace_id = lct_workspace_id trust, ms_project_id = project_id,
      ms_repository = goi_repository (nms_identity session), ms_git_ref = goi_git_ref (nms_identity session),
      ms_run_id = goi_run_id (nms_identity session), ms_run_attempt = goi_run_attempt (nms_identity session),
      ms_actions = actions_text (nms_actions session), ms_oidc_token_hash = nms_oidc_token_hash session,
      ms_created_at_ms = int (nms_now_ms session), ms_expires_at_ms = int (goi_expires_at_ms (nms_identity session)),
      ms_last_used_at_ms = None, ms_revoked_at_ms = None\<rparr>"

lemma insert_machine_D:
  assumes "insert_machine db session (machine_record session trust project_id) sql_times = Ok db'"
    and "smt_now sql_times = int (nms_now_ms session)" "smt_expires sql_times = int (goi_expires_at_ms (nms_identity session))"
  shows "db' = db\<lparr>machine_sessions := machine_sessions db @ [machine_row session trust project_id]\<rparr>"
    and "machine_session_allowed db (machine_row session trust project_id)"
  using assms by (auto simp: insert_machine_def result_simps Let_def machine_record_def machine_row_def)

section \<open>Operations on tokens and sessions\<close>

lemma exchange_bootstrap_D:
  assumes "exchange_bootstrap db h token session = (Ok u, db')"
  obtains r where "bootstrap_authority db = Some r" and "ba_consumed r = 0" and "ba_secret_hash r = Some h"
    and "db' = db\<lparr>bootstrap_authority := Some \<lparr>ba_secret_hash = None, ba_consumed = 1\<rparr>,
      api_tokens := api_tokens db @ [token_row token], cli_sessions := cli_sessions db @ [session_row session]\<rparr>"
    and "api_token_allowed db (token_row token)"
    and "cli_session_allowed (db\<lparr>api_tokens := api_tokens db @ [token_row token]\<rparr>) (session_row session)"
    and "validate_token token = Ok ()" and "validate_session session token = Ok ()"
proof -
  obtain db1 db2 where con: "consume_bootstrap db h = Ok db1" and tok: "insert_token db1 token = Ok db2"
    and ses: "insert_session db2 session = Ok db'" and valid: "validate_token token = Ok ()" "validate_session session token = Ok ()"
    using assms by (auto simp: exchange_bootstrap_def outcome_iffs result_simps)
  from con obtain r where r: "bootstrap_authority db = Some r" "ba_consumed r = 0" "ba_secret_hash r = Some h"
    and db1: "db1 = db\<lparr>bootstrap_authority := Some \<lparr>ba_secret_hash = None, ba_consumed = 1\<rparr>\<rparr>"
    by (auto simp: consume_bootstrap_def split: option.split_asm if_split_asm)
  have "api_token_allowed db (token_row token)"
    using insert_token_D(2) [OF tok] by (simp add: db1 api_token_allowed_def has_workspace_def has_project_def cong: option.case_cong)
  moreover have "cli_session_allowed (db\<lparr>api_tokens := api_tokens db @ [token_row token]\<rparr>) (session_row session)"
    using insert_session_D(2) [OF ses] insert_token_D(1) [OF tok] by (simp add: db1 cli_session_allowed_def has_workspace_def)
  ultimately show thesis
    using that r valid insert_session_D(1) [OF ses] insert_token_D(1) [OF tok] by (simp add: db1)
qed

lemma bootstrap_change_inv:
  "access_inv db \<Longrightarrow> bootstrap_check r \<Longrightarrow> access_inv (db\<lparr>bootstrap_authority := Some r\<rparr>)"
  by (simp add: access_inv_def bootstrap_ok_def)

lemma exchange_bootstrap_inv:
  assumes inv: "access_inv db" and ok: "exchange_bootstrap db h token session = (Ok u, db')"
  shows "access_inv db'"
proof (rule exchange_bootstrap_D [OF ok])
    let ?db1 = "db\<lparr>api_tokens := api_tokens db @ [token_row token]\<rparr>"
    assume tok: "api_token_allowed db (token_row token)" and ses: "cli_session_allowed ?db1 (session_row session)"
      and valid: "validate_session session token = Ok ()"
      and eq: "db' = db\<lparr>bootstrap_authority := Some \<lparr>ba_secret_hash = None, ba_consumed = 1\<rparr>,
      api_tokens := api_tokens db @ [token_row token], cli_sessions := cli_sessions db @ [session_row session]\<rparr>"
    have inv1: "access_inv ?db1" by (rule token_insert_inv [OF inv tok]) (simp add: token_row_def)
    have "session_of (session_row session) (token_row token)"
      using valid by (simp add: validate_session_def result_simps session_of_def session_row_def token_row_def split: if_split_asm)
    then have "\<exists>t \<in> set (api_tokens ?db1). session_of (session_row session) t" by simp
    from session_insert_inv [OF inv1 ses this]
    have "access_inv (?db1\<lparr>cli_sessions := cli_sessions db @ [session_row session]\<rparr>)" by simp
    from bootstrap_change_inv [OF this, of "\<lparr>ba_secret_hash = None, ba_consumed = 1\<rparr>"]
    show ?thesis by (simp add: eq access_inv_def bootstrap_ok_def bootstrap_check_def)
qed

lemma install_bootstrap_inv:
  assumes inv: "access_inv db" and ok: "install_bootstrap db h = (Ok b, db')"
  shows "access_inv db'"
proof (cases "bootstrap_authority db")
  case None
  with ok have "db' = db\<lparr>bootstrap_authority := Some \<lparr>ba_secret_hash = Some h, ba_consumed = 0\<rparr>\<rparr>"
    by (auto simp: install_bootstrap_def outcome_iffs)
  then show ?thesis using bootstrap_change_inv [OF inv] by (simp add: bootstrap_check_def)
next
  case (Some r)
  with ok inv show ?thesis by (auto simp: install_bootstrap_def outcome_iffs)
qed

lemma create_api_token_inv:
  assumes "access_inv db" and "create_api_token db token ev = (Ok u, db')"
  shows "access_inv db'"
proof -
  obtain db1 where ins: "insert_token db token = Ok db1" and ev: "access_audit db1 ev = Ok db'"
    using assms(2) by (auto simp: create_api_token_def outcome_iffs result_simps)
  from access_audit_inv [OF ev insert_token_inv [OF ins assms(1)]] show ?thesis .
qed

lemma revoke_api_token_D:
  assumes "revoke_api_token db uid t ev = (Ok u, db')"
  obtains n tokens m where "update_rows (\<lambda>r. at_id r = uid \<and> at_revoked r = 0) (revoke_token_row (int t)) api_token_check
      (api_tokens db) = Ok (n, tokens)" and "db' = db\<lparr>api_tokens := tokens, metadata := m\<rparr>"
    and "\<exists>r \<in> set (api_tokens db). at_id r = uid \<and> at_revoked r = 0"
proof -
  obtain r where r: "find (\<lambda>t. at_id t = uid \<and> standalone_token db t) (api_tokens db) = Some r"
    and rev: "at_revoked r = 0" and rest: "\<exists>n tokens. update_rows (\<lambda>r. at_id r = uid \<and> at_revoked r = 0) (revoke_token_row (int t))
      api_token_check (api_tokens db) = Ok (n, tokens) \<and> access_audit (db\<lparr>api_tokens := tokens\<rparr>) ev = Ok db'"
    using assms by (auto simp: revoke_api_token_def outcome_iffs result_simps query_row_Ok_iff split: if_split_asm)
  obtain n tokens where up: "update_rows (\<lambda>r. at_id r = uid \<and> at_revoked r = 0) (revoke_token_row (int t))
      api_token_check (api_tokens db) = Ok (n, tokens)" and ev: "access_audit (db\<lparr>api_tokens := tokens\<rparr>) ev = Ok db'"
    using rest by blast
  obtain m where "db' = db\<lparr>api_tokens := tokens, metadata := m\<rparr>" using access_audit_D [OF ev] by auto
  moreover have "\<exists>r \<in> set (api_tokens db). at_id r = uid \<and> at_revoked r = 0"
    using find_Some_iff_first [OF r] rev by blast
  ultimately show thesis using that up by blast
qed

lemma revoke_api_token_inv:
  assumes inv: "access_inv db" and ok: "revoke_api_token db uid t ev = (Ok u, db')"
  shows "access_inv db'"
proof (rule revoke_api_token_D [OF ok])
  fix n tokens m
  assume up: "update_rows (\<lambda>r. at_id r = uid \<and> at_revoked r = 0) (revoke_token_row (int t)) api_token_check
      (api_tokens db) = Ok (n, tokens)" and eq: "db' = db\<lparr>api_tokens := tokens, metadata := m\<rparr>"
  from tokens_update_inv [OF inv up token_change_revoke] show ?thesis by (simp add: eq)
qed

lemma revoke_cli_session_D:
  assumes "revoke_cli_session db uid w t ev = (Ok u, db')"
  obtains s sessions tokens m where "s \<in> set (cli_sessions db)" and "cs_id s = uid"
    and "update_rows (\<lambda>s. cs_id s = uid \<and> cs_workspace_id s = w \<and> cs_revoked_at_ms s = None)
      (\<lambda>s. s\<lparr>cs_revoked_at_ms := Some (int t)\<rparr>) cli_session_check (cli_sessions db) = Ok (1, sessions)"
    and "update_rows (\<lambda>r. at_id r = cs_token_id s \<and> at_revoked r = 0) (revoke_token_row (int t)) api_token_check
      (api_tokens db) = Ok (1, tokens)"
    and "db' = db\<lparr>cli_sessions := sessions, api_tokens := tokens, metadata := m\<rparr>"
proof -
  obtain s where s: "find (\<lambda>s. cs_id s = uid \<and> cs_workspace_id s = w) (cli_sessions db) = Some s"
    and rest: "\<exists>sessions tokens. update_rows (\<lambda>s. cs_id s = uid \<and> cs_workspace_id s = w \<and> cs_revoked_at_ms s = None)
      (\<lambda>s. s\<lparr>cs_revoked_at_ms := Some (int t)\<rparr>) cli_session_check (cli_sessions db) = Ok (1, sessions)
      \<and> update_rows (\<lambda>r. at_id r = cs_token_id s \<and> at_revoked r = 0) (revoke_token_row (int t)) api_token_check
        (api_tokens db) = Ok (1, tokens)
      \<and> access_audit (db\<lparr>cli_sessions := sessions, api_tokens := tokens\<rparr>) ev = Ok db'"
    using assms by (auto simp: revoke_cli_session_def outcome_iffs result_simps query_row_Ok_iff split: if_split_asm)
  obtain sessions tokens where up: "update_rows (\<lambda>s. cs_id s = uid \<and> cs_workspace_id s = w \<and> cs_revoked_at_ms s = None)
      (\<lambda>s. s\<lparr>cs_revoked_at_ms := Some (int t)\<rparr>) cli_session_check (cli_sessions db) = Ok (1, sessions)"
    "update_rows (\<lambda>r. at_id r = cs_token_id s \<and> at_revoked r = 0) (revoke_token_row (int t)) api_token_check
        (api_tokens db) = Ok (1, tokens)"
    and ev: "access_audit (db\<lparr>cli_sessions := sessions, api_tokens := tokens\<rparr>) ev = Ok db'"
    using rest by blast
  obtain m where "db' = db\<lparr>cli_sessions := sessions, api_tokens := tokens, metadata := m\<rparr>"
    using access_audit_D [OF ev] by auto
  then show thesis using that up find_Some_iff_first [OF s] by blast
qed

text \<open>After a revocation that found its row, every token of that identifier is revoked.\<close>

lemma revoked_rows:
  assumes ok: "tokens_ok ts" and up: "update_rows sel (revoke_token_row now) api_token_check ts = Ok (n, rows)"
    and sel: "\<And>r. r \<in> set ts \<Longrightarrow> at_id r = k \<Longrightarrow> at_revoked r = 0 \<Longrightarrow> sel r"
    and r: "r \<in> set rows" "at_id r = k"
  shows "at_revoked r = 1"
proof -
  note rows = update_rows_D [OF up]
  obtain r0 where r0: "r0 \<in> set ts" "r = (if sel r0 then revoke_token_row now r0 else r0)"
    using r(1) unfolding rows(1) by auto
  have "at_revoked r0 = 0 \<or> at_revoked r0 = 1" using ok r0(1) by (auto simp: tokens_ok_def api_token_check_def)
  moreover have "at_id r0 = k" using r(2) r0(2) by (simp add: revoke_token_row_def split: if_split_asm)
  ultimately show ?thesis using sel [OF r0(1)] r0(2) by (auto simp: revoke_token_row_def)
qed

lemma revoke_cli_session_inv:
  assumes inv: "access_inv db" and ok: "revoke_cli_session db uid w t ev = (Ok u, db')"
  shows "access_inv db'"
proof (rule revoke_cli_session_D [OF ok])
  fix s sessions tokens m
  let ?sel = "\<lambda>s. cs_id s = uid \<and> cs_workspace_id s = w \<and> cs_revoked_at_ms s = None"
  assume s: "s \<in> set (cli_sessions db)" "cs_id s = uid"
    and ups: "update_rows ?sel (\<lambda>s. s\<lparr>cs_revoked_at_ms := Some (int t)\<rparr>) cli_session_check (cli_sessions db) = Ok (1, sessions)"
    and upt: "update_rows (\<lambda>r. at_id r = cs_token_id s \<and> at_revoked r = 0) (revoke_token_row (int t)) api_token_check
      (api_tokens db) = Ok (1, tokens)"
    and eq: "db' = db\<lparr>cli_sessions := sessions, api_tokens := tokens, metadata := m\<rparr>"
  have inv1: "access_inv (db\<lparr>api_tokens := tokens\<rparr>)" by (rule tokens_update_inv [OF inv upt token_change_revoke])
  have keys: "distinct (map cs_id (cli_sessions db))" using access_invD(3) [OF inv] by (simp add: sessions_ok_def)
  have "access_inv (db\<lparr>api_tokens := tokens\<rparr>\<lparr>cli_sessions := sessions\<rparr>)"
  proof (rule sessions_update_inv [OF inv1, of ?sel "\<lambda>s. s\<lparr>cs_revoked_at_ms := Some (int t)\<rparr>" 1])
    fix s' r
    assume "s' \<in> set (cli_sessions (db\<lparr>api_tokens := tokens\<rparr>))" "?sel s'" and link: "session_of s' r"
      and r: "r \<in> set (api_tokens (db\<lparr>api_tokens := tokens\<rparr>))"
    then have "s' = s" using distinct_map_eq [OF keys] s by simp
    then have "at_id r = cs_token_id s" using link by (simp add: session_of_def)
    then show "at_revoked r = 1" using revoked_rows [OF access_invD(2) [OF inv] upt, of "cs_token_id s" r] r by simp
  qed (use ups in simp_all)
  then show ?thesis by (simp add: eq access_inv_def bootstrap_ok_def)
qed

lemma touch_machine_inv: "touch_machine db k now = Ok db' \<Longrightarrow> access_inv db \<Longrightarrow> access_inv db'"
  by (auto simp: touch_machine_def result_simps intro: machines_update_inv)

lemma validate_and_touch_inv: "validate_and_touch db k t now = Ok db' \<Longrightarrow> access_inv db \<Longrightarrow> access_inv db'"
  by (auto simp: validate_and_touch_def result_simps touch_machine_inv split: option.split_asm if_split_asm)

lemma authenticate_api_token_D:
  assumes "authenticate_api_token db h t = (Ok x, db')"
  obtains n rows db1 k sessions where "update_rows (\<lambda>r. at_secret_hash r = h \<and> at_revoked r = 0
      \<and> at_created_at_ms r \<le> int t \<and> at_expires_at_ms r > int t)
      (\<lambda>r. r\<lparr>at_last_used_at_ms := touched (int t) (at_last_used_at_ms r)\<rparr>) api_token_check (api_tokens db) = Ok (n, rows)"
    and "validate_and_touch (db\<lparr>api_tokens := rows\<rparr>) (lat_id x) t (int t) = Ok db1"
    and "update_rows (\<lambda>s. cs_token_id s = lat_id x \<and> cs_revoked_at_ms s = None)
      (\<lambda>s. s\<lparr>cs_last_used_at_ms := touched (int t) (cs_last_used_at_ms s)\<rparr>) cli_session_check (cli_sessions db1) = Ok (k, sessions)"
    and "db' = db1\<lparr>cli_sessions := sessions\<rparr>"
    and "query_row (\<lambda>r. at_secret_hash r = h \<and> at_revoked r = 0 \<and> at_created_at_ms r \<le> int t \<and> at_expires_at_ms r > int t)
      (\<lambda>r. api_token (r\<lparr>at_last_used_at_ms := touched (int t) (at_last_used_at_ms r)\<rparr>)) (api_tokens db) = Ok x"
  using assms by (auto simp: authenticate_api_token_def update_returning_def outcome_iffs result_simps)

lemma authenticate_api_token_inv:
  assumes inv: "access_inv db" and ok: "authenticate_api_token db h t = (Ok x, db')"
  shows "access_inv db'"
proof (rule authenticate_api_token_D [OF ok])
  fix n rows db1 k sessions
  assume up: "update_rows (\<lambda>r. at_secret_hash r = h \<and> at_revoked r = 0
      \<and> at_created_at_ms r \<le> int t \<and> at_expires_at_ms r > int t)
      (\<lambda>r. r\<lparr>at_last_used_at_ms := touched (int t) (at_last_used_at_ms r)\<rparr>) api_token_check (api_tokens db) = Ok (n, rows)"
    and touch: "validate_and_touch (db\<lparr>api_tokens := rows\<rparr>) (lat_id x) t (int t) = Ok db1"
    and ups: "update_rows (\<lambda>s. cs_token_id s = lat_id x \<and> cs_revoked_at_ms s = None)
      (\<lambda>s. s\<lparr>cs_last_used_at_ms := touched (int t) (cs_last_used_at_ms s)\<rparr>) cli_session_check (cli_sessions db1) = Ok (k, sessions)"
    and eq: "db' = db1\<lparr>cli_sessions := sessions\<rparr>"
  have inv1: "access_inv db1"
    by (rule validate_and_touch_inv [OF touch]) (rule tokens_update_inv [OF inv up token_change_touch])
  show ?thesis unfolding eq by (rule sessions_update_inv [OF inv1 ups]) auto
qed

section \<open>Operations on trusts and machine sessions\<close>

lemma validate_actions_nonempty: "validate_actions as = Ok u \<Longrightarrow> as \<noteq> []"
  by (auto simp: validate_actions_def split: if_split_asm)

lemma create_ci_trust_inv:
  assumes inv: "access_inv db" and ok: "create_ci_trust db trust ev = (Ok u, db')"
  shows "access_inv db'"
proof -
  obtain created db1 where valid: "validate_trust trust = Ok created" and ins: "insert_trust db trust created = Ok db1"
    and ev: "access_audit db1 ev = Ok db'"
    using ok by (auto simp: create_ci_trust_def outcome_iffs result_simps)
  have "lct_allowed_actions trust \<noteq> []"
    using valid by (auto simp: validate_trust_def result_simps dest: validate_actions_nonempty split: if_split_asm)
  then have "\<exists>as. ci_actions (actions_text (lct_allowed_actions trust)) = Ok as" using ci_actions_text by blast
  then have "access_inv db1"
    using ins trust_insert_inv [OF inv] by (auto simp: insert_trust_def Let_def result_simps)
  then show ?thesis by (rule access_audit_inv [OF ev])
qed

lemma revoke_ci_trust_D:
  assumes "revoke_ci_trust db uid w t ev = (Ok b, db')"
  obtains (already) "b = False" "db' = db" "\<exists>r \<in> set (ci_trusts db). tr_id r = uid \<and> tr_revoked_at_ms r \<noteq> None"
    | (revoked) n1 n2 n3 trusts tokens sessions m where "b = True" "\<exists>r \<in> set (ci_trusts db). tr_id r = uid"
      "update_rows (\<lambda>r. tr_id r = uid \<and> tr_revoked_at_ms r = None) (\<lambda>r. r\<lparr>tr_revoked_at_ms := Some (int t)\<rparr>)
        ci_trust_check (ci_trusts db) = Ok (n1, trusts)"
      "update_rows (\<lambda>r. derived_token db uid r \<and> at_revoked r = 0) (revoke_token_row (int t)) api_token_check
        (api_tokens db) = Ok (n2, tokens)"
      "update_rows (\<lambda>s. ms_trust_id s = uid \<and> ms_revoked_at_ms s = None) (\<lambda>s. s\<lparr>ms_revoked_at_ms := Some (int t)\<rparr>)
        machine_session_check (machine_sessions db) = Ok (n3, sessions)"
      "db' = db\<lparr>ci_trusts := trusts, api_tokens := tokens, machine_sessions := sessions, metadata := m\<rparr>"
proof -
  obtain trust where trust: "trust_by_id db uid w = Ok trust"
    and cases: "lct_revoked_at_ms trust \<noteq> None \<and> b = False \<and> db' = db
      \<or> b = True \<and> (\<exists>n1 trusts n2 tokens n3 sessions.
        update_rows (\<lambda>r. tr_id r = uid \<and> tr_revoked_at_ms r = None) (\<lambda>r. r\<lparr>tr_revoked_at_ms := Some (int t)\<rparr>)
          ci_trust_check (ci_trusts db) = Ok (n1, trusts)
        \<and> update_rows (\<lambda>r. derived_token db uid r \<and> at_revoked r = 0) (revoke_token_row (int t)) api_token_check
          (api_tokens db) = Ok (n2, tokens)
        \<and> update_rows (\<lambda>s. ms_trust_id s = uid \<and> ms_revoked_at_ms s = None) (\<lambda>s. s\<lparr>ms_revoked_at_ms := Some (int t)\<rparr>)
          machine_session_check (machine_sessions db) = Ok (n3, sessions)
        \<and> access_audit (db\<lparr>ci_trusts := trusts, api_tokens := tokens, machine_sessions := sessions\<rparr>) ev = Ok db')"
    using assms by (auto simp: revoke_ci_trust_def outcome_iffs result_simps split: if_split_asm)
  obtain r where r: "r \<in> set (ci_trusts db)" "tr_id r = uid" and dec: "ci_trust r = Ok trust"
    using query_row_Ok_D [OF trust [unfolded trust_by_id_def]] by auto
  from cases show thesis
  proof (elim disjE conjE exE)
    assume "lct_revoked_at_ms trust \<noteq> None" "b = False" "db' = db"
    moreover have "tr_revoked_at_ms r \<noteq> None" using dec \<open>lct_revoked_at_ms trust \<noteq> None\<close> by (auto simp: ci_trust_Ok_iff)
    ultimately show thesis using already r by blast
  next
    fix n1 trusts n2 tokens n3 sessions
    assume b: "b = True" and up: "update_rows (\<lambda>r. tr_id r = uid \<and> tr_revoked_at_ms r = None)
        (\<lambda>r. r\<lparr>tr_revoked_at_ms := Some (int t)\<rparr>) ci_trust_check (ci_trusts db) = Ok (n1, trusts)"
      "update_rows (\<lambda>r. derived_token db uid r \<and> at_revoked r = 0) (revoke_token_row (int t)) api_token_check
          (api_tokens db) = Ok (n2, tokens)"
      "update_rows (\<lambda>s. ms_trust_id s = uid \<and> ms_revoked_at_ms s = None) (\<lambda>s. s\<lparr>ms_revoked_at_ms := Some (int t)\<rparr>)
          machine_session_check (machine_sessions db) = Ok (n3, sessions)"
      and ev: "access_audit (db\<lparr>ci_trusts := trusts, api_tokens := tokens, machine_sessions := sessions\<rparr>) ev = Ok db'"
    obtain m where "db' = db\<lparr>ci_trusts := trusts, api_tokens := tokens, machine_sessions := sessions, metadata := m\<rparr>"
      using access_audit_D [OF ev] by auto
    then show thesis using revoked b up r by blast
  qed
qed

lemma revoke_ci_trust_inv:
  assumes inv: "access_inv db" and ok: "revoke_ci_trust db uid w t ev = (Ok b, db')"
  shows "access_inv db'"
  using ok
proof (cases rule: revoke_ci_trust_D)
  case already
  then show ?thesis using inv by simp
next
  case (revoked n1 n2 n3 trusts tokens sessions m)
  have inv1: "access_inv (db\<lparr>api_tokens := tokens\<rparr>)" by (rule tokens_update_inv [OF inv revoked(4) token_change_revoke])
  have dead: "at_revoked r = 1" if "s \<in> set (machine_sessions db)" "ms_trust_id s = uid" "r \<in> set tokens" "at_id r = ms_token_id s" for s r
    by (rule revoked_rows [OF access_invD(2) [OF inv] revoked(4) _ that(3,4)])
      (use that(1,2) in \<open>auto simp: derived_token_def list_ex_iff\<close>)
  have inv2: "access_inv (db\<lparr>api_tokens := tokens\<rparr>\<lparr>machine_sessions := sessions\<rparr>)"
    by (rule machines_update_inv [OF inv1, where n = n3 and f = "\<lambda>s. s\<lparr>ms_revoked_at_ms := Some (int t)\<rparr>" and now = "int t"
          and sel = "\<lambda>s. ms_trust_id s = uid \<and> ms_revoked_at_ms s = None"])
      (use revoked(5) dead in simp_all)
  have "access_inv (db\<lparr>api_tokens := tokens\<rparr>\<lparr>machine_sessions := sessions\<rparr>\<lparr>ci_trusts := trusts\<rparr>)"
  proof (rule trusts_revoke_inv [OF inv2, of "\<lambda>r. tr_id r = uid \<and> tr_revoked_at_ms r = None" "int t" n1])
    fix s r
    assume "s \<in> set (machine_sessions (db\<lparr>api_tokens := tokens\<rparr>\<lparr>machine_sessions := sessions\<rparr>))"
      and "tr_id r = uid \<and> tr_revoked_at_ms r = None" "tr_id r = ms_trust_id s"
    then show "ms_revoked_at_ms s \<noteq> None" using update_rows_D(1) [OF revoked(5)] by (auto split: if_split_asm)
  qed (use revoked(3) in simp)
  then show ?thesis by (simp add: revoked(6) access_inv_def bootstrap_ok_def)
qed

lemma validate_exchange_D:
  assumes "validate_exchange session = Ok sql_times"
  shows "smt_now sql_times = int (nms_now_ms session)"
    and "smt_expires sql_times = int (goi_expires_at_ms (nms_identity session))"
    and "nms_now_ms session < goi_expires_at_ms (nms_identity session)"
    and "goi_expires_at_ms (nms_identity session) \<le> nms_now_ms session + MACHINE_SESSION_TTL_MS"
    and "goi_expires_at_ms (nms_identity session) \<le> i64_max"
    and "nms_actions session \<noteq> []" and "validate_hash (nms_secret_hash session) = Ok ()"
  using assms
  by (auto simp: validate_exchange_def Let_def result_simps dest: validate_actions_nonempty split: if_split_asm)

lemma first_trust_D:
  "first_trust db session trusts = Ok (Some (trust, pid)) \<Longrightarrow>
     trust \<in> set trusts \<and> claims_match trust session \<and> scoped_project db trust session = Ok (Some pid)"
  by (induction trusts) (auto simp: result_simps split: if_split_asm option.split_asm)

lemma matching_trust_D:
  assumes "matching_trust db session = Ok (Some (trust, pid))"
  obtains r where "r \<in> set (ci_trusts db)" and "ci_trust r = Ok trust" and "tr_revoked_at_ms r = None"
    and "tr_repository r = goi_repository (nms_identity session)" and "claims_match trust session"
    and "scoped_project db trust session = Ok (Some pid)"
proof -
  let ?rows = "rev (sort_key (\<lambda>t. (tr_project_id t \<noteq> None, tr_created_at_ms t, tr_id t))
    (filter (\<lambda>t. tr_repository t = goi_repository (nms_identity session) \<and> tr_revoked_at_ms t = None) (ci_trusts db)))"
  obtain trusts where col: "collect_results ci_trust ?rows = Ok trusts"
    and first: "first_trust db session trusts = Ok (Some (trust, pid))"
    using assms by (auto simp: matching_trust_def result_simps)
  note f = first_trust_D [OF first]
  obtain r where "r \<in> set ?rows" "ci_trust r = Ok trust" using collect_results_member [OF col] f by blast
  then show thesis using f by (intro that [of r]) simp_all
qed

lemma mint_D:
  assumes "mint_machine_session db session ev = (Ok x, db')"
  obtains (refused) "db' = db" "\<And>y. x \<noteq> Minted y"
    | (minted) r trust pid m where "x = Minted (machine_record session trust pid)"
      "r \<in> set (ci_trusts db)" "ci_trust r = Ok trust" "tr_revoked_at_ms r = None"
      "tr_repository r = goi_repository (nms_identity session)" "claims_match trust session"
      "scoped_project db trust session = Ok (Some pid)"
      "rate_retry db (lct_id trust) (nms_now_ms session) (int (nms_now_ms session)) = None"
      "\<not> assertion_exists db (nms_oidc_token_hash session)"
      "api_token_allowed db (token_row (machine_token session (machine_record session trust pid)))"
      "machine_session_allowed (db\<lparr>api_tokens := api_tokens db @ [token_row (machine_token session (machine_record session trust pid))]\<rparr>)
        (machine_row session trust pid)"
      "db' = db\<lparr>api_tokens := api_tokens db @ [token_row (machine_token session (machine_record session trust pid))],
        machine_sessions := machine_sessions db @ [machine_row session trust pid], metadata := m\<rparr>"
proof -
  obtain sql_times where valid: "validate_exchange session = Ok sql_times" and run: "mint session ev sql_times db = Ok (x, db')"
    using assms by (auto simp: mint_machine_session_def outcome_iffs)
  note v = validate_exchange_D [OF valid]
  show thesis
  proof (cases "assertion_exists db (nms_oidc_token_hash session)")
    case True
    with run show thesis by (intro refused) (auto simp: mint_def)
  next
    case False
    with run obtain found where found: "matching_trust db session = Ok found" by (auto simp: mint_def result_simps)
    show thesis
    proof (cases found)
      case None
      with run False found show thesis by (intro refused) (auto simp: mint_def)
    next
      case (Some tp)
      obtain trust pid where tp: "tp = (trust, pid)" by (rule prod.exhaust)
      show thesis
      proof (cases "rate_retry db (lct_id trust) (nms_now_ms session) (int (nms_now_ms session))")
        case (Some k)
        with run False found \<open>found = Some tp\<close> tp v(1) show thesis by (intro refused) (auto simp: mint_def)
      next
        case None
        obtain db1 db2 where x: "x = Minted (machine_record session trust pid)"
          and tok: "insert_token db (machine_token session (machine_record session trust pid)) = Ok db1"
          and mac: "insert_machine db1 session (machine_record session trust pid) sql_times = Ok db2"
          and ev: "access_audit db2 ev = Ok db'"
          using run False found \<open>found = Some tp\<close> tp v(1) None by (auto simp: mint_def Let_def result_simps)
        note t = insert_token_D [OF tok] and s = insert_machine_D [OF mac v(1,2)]
        obtain m where m: "db' = db2\<lparr>metadata := m\<rparr>" using access_audit_D [OF ev] by blast
        obtain r where r: "r \<in> set (ci_trusts db)" "ci_trust r = Ok trust" "tr_revoked_at_ms r = None"
            "tr_repository r = goi_repository (nms_identity session)" "claims_match trust session"
            "scoped_project db trust session = Ok (Some pid)"
          by (rule matching_trust_D [OF found [unfolded \<open>found = Some tp\<close> tp]])
        show thesis
          by (rule minted [OF x r None False t(2)]) (use s t(1) m in simp_all)
      qed
    qed
  qed
qed

lemma machine_token_row:
  assumes "nms_actions session \<noteq> []"
  shows "token_of (machine_row session trust pid) (token_row (machine_token session (machine_record session trust pid)))"
  by (simp add: token_of_def machine_row_def token_row_def machine_token_def machine_record_def actions_text_def)

lemma machine_trust_row:
  assumes dec: "ci_trust r = Ok trust" and active: "tr_revoked_at_ms r = None"
    and repo: "tr_repository r = goi_repository (nms_identity session)" and claims: "claims_match trust session"
    and scope: "scoped_project db trust session = Ok (Some pid)" and ne: "nms_actions session \<noteq> []"
  shows "trust_of (machine_row session trust pid) r"
proof -
  have "case tr_project_id r of None \<Rightarrow> True | Some p \<Rightarrow> p = pid"
  proof (cases "tr_project_id r")
    case (Some p)
    obtain q where "find (\<lambda>x. pj_workspace_id x = lct_workspace_id trust \<and> pj_slug x = nms_project session
        \<and> (case lct_project_id trust of None \<Rightarrow> True | Some p \<Rightarrow> pj_id x = p)) (projects (metadata db)) = Some q" "pj_id q = pid"
      using scope by (auto simp: scoped_project_def result_simps split: if_split_asm)
    from find_Some_iff_first [OF this(1)] this(2) show ?thesis using Some dec by (simp add: ci_trust_Ok_iff)
  qed simp
  moreover have "set (nms_actions session) \<subseteq> set (lct_allowed_actions trust)"
    using claims by (auto simp: claims_match_def list_all_iff)
  ultimately show ?thesis
    using dec active repo ci_actions_text [OF ne]
    by (auto simp: trust_of_def machine_row_def ci_trust_Ok_iff split: option.splits)
qed

lemma mint_machine_session_inv:
  assumes inv: "access_inv db" and ok: "mint_machine_session db session ev = (Ok x, db')"
  shows "access_inv db'"
  using ok
proof (cases rule: mint_D)
  case refused
  then show ?thesis using inv by simp
next
  case (minted r trust pid m)
  obtain sql_times where "validate_exchange session = Ok sql_times"
    using ok by (auto simp: mint_machine_session_def outcome_iffs)
  then have ne: "nms_actions session \<noteq> []" by (rule validate_exchange_D)
  let ?tok = "token_row (machine_token session (machine_record session trust pid))"
  have inv1: "access_inv (db\<lparr>api_tokens := api_tokens db @ [?tok]\<rparr>)"
    by (rule token_insert_inv [OF inv minted(10)]) (simp add: token_row_def machine_token_def)
  have "access_inv (db\<lparr>api_tokens := api_tokens db @ [?tok]\<rparr>\<lparr>machine_sessions :=
      machine_sessions (db\<lparr>api_tokens := api_tokens db @ [?tok]\<rparr>) @ [machine_row session trust pid]\<rparr>)"
  proof (rule machine_insert_inv [OF inv1 minted(11)])
    show "\<exists>t \<in> set (api_tokens (db\<lparr>api_tokens := api_tokens db @ [?tok]\<rparr>)). token_of (machine_row session trust pid) t"
      using machine_token_row [OF ne] by simp
    show "\<exists>r \<in> set (ci_trusts (db\<lparr>api_tokens := api_tokens db @ [?tok]\<rparr>)). trust_of (machine_row session trust pid) r"
      using machine_trust_row [OF minted(3,4,5,6,7) ne] minted(2) by auto
  qed
  then show ?thesis by (simp add: minted(12))
qed

lemma authenticate_machine_session_inv:
  assumes inv: "access_inv db" and ok: "authenticate_machine_session db k t = (Ok x, db')"
  shows "access_inv db'"
proof -
  obtain now where "touch_machine db k now = Ok db'"
    using ok by (auto simp: authenticate_machine_session_def outcome_iffs result_simps split: if_split_asm)
  then show ?thesis using inv by (rule touch_machine_inv)
qed

section \<open>The service\<close>

datatype access_command =
  InstallBootstrap string
| ExchangeBootstrap string LocalApiTokenRecord LocalCliSessionRecord
| RevokeCliSession string string nat NewAuditEvent
| CreateApiToken LocalApiTokenRecord NewAuditEvent
| AuthenticateApiToken string nat
| RevokeApiToken string nat NewAuditEvent
| CreateCiTrust LocalCiTrustRecord NewAuditEvent
| RevokeCiTrust string string nat NewAuditEvent
| MintMachineSession NewMachineSession NewAuditEvent
| AuthenticateMachineSession string nat

fun access_exec :: "access_command \<Rightarrow> access_database \<Rightarrow> (RepositoryError + unit) \<times> access_database" where
  "access_exec (InstallBootstrap h) db = outcome_of (install_bootstrap db h)"
| "access_exec (ExchangeBootstrap h t s) db = outcome_of (exchange_bootstrap db h t s)"
| "access_exec (RevokeCliSession uid w t e) db = outcome_of (revoke_cli_session db uid w t e)"
| "access_exec (CreateApiToken t e) db = outcome_of (create_api_token db t e)"
| "access_exec (AuthenticateApiToken h t) db = outcome_of (authenticate_api_token db h t)"
| "access_exec (RevokeApiToken uid t e) db = outcome_of (revoke_api_token db uid t e)"
| "access_exec (CreateCiTrust r e) db = outcome_of (create_ci_trust db r e)"
| "access_exec (RevokeCiTrust uid w t e) db = outcome_of (revoke_ci_trust db uid w t e)"
| "access_exec (MintMachineSession s e) db = outcome_of (mint_machine_session db s e)"
| "access_exec (AuthenticateMachineSession k t) db = outcome_of (authenticate_machine_session db k t)"

lemma access_failed_unchanged:
  "install_bootstrap db h = (Err e, db') \<Longrightarrow> db' = db"
  "exchange_bootstrap db h tok ses = (Err e, db') \<Longrightarrow> db' = db"
  "revoke_cli_session db uid w t ev = (Err e, db') \<Longrightarrow> db' = db"
  "create_api_token db tok ev = (Err e, db') \<Longrightarrow> db' = db"
  "authenticate_api_token db h t = (Err e, db') \<Longrightarrow> db' = db"
  "revoke_api_token db uid t ev = (Err e, db') \<Longrightarrow> db' = db"
  "create_ci_trust db r ev = (Err e, db') \<Longrightarrow> db' = db"
  "revoke_ci_trust db uid w t ev = (Err e, db') \<Longrightarrow> db' = db"
  "mint_machine_session db n ev = (Err e, db') \<Longrightarrow> db' = db"
  "authenticate_machine_session db k t = (Err e, db') \<Longrightarrow> db' = db"
  unfolding install_bootstrap_def exchange_bootstrap_def revoke_cli_session_def create_api_token_def
    authenticate_api_token_def revoke_api_token_def create_ci_trust_def revoke_ci_trust_def
    mint_machine_session_def authenticate_machine_session_def
  by (auto dest!: after_Err_D write_transaction_Err_D split: option.split_asm)

lemmas access_op_inv =
  install_bootstrap_inv exchange_bootstrap_inv revoke_cli_session_inv create_api_token_inv authenticate_api_token_inv
  revoke_api_token_inv create_ci_trust_inv revoke_ci_trust_inv mint_machine_session_inv authenticate_machine_session_inv

interpretation access: transactional_service access_exec "\<lambda>r. \<not> is_ok r" access_inv
proof unfold_locales
  fix db c r db'
  assume "access_inv db" and "access_exec c db = (r, db')" and "\<not> is_ok r"
  then show "db' = db" by (cases c) (auto dest!: outcome_of_Err dest: access_failed_unchanged)
next
  fix db c r db'
  assume inv: "access_inv db" and run: "access_exec c db = (r, db')" and ok: "\<not> \<not> is_ok r"
  then show "access_inv db'" by (cases c) (auto dest!: outcome_of_Ok dest: access_op_inv [OF inv])
qed

end
