(* ===== verification/Access_Samples.thy ===== *)
theory Access_Samples
  imports Access_Histories
begin

text \<open>
  A sample credential database: a consumed bootstrap secret with its CLI session, one CI trust of a
  repository, and one machine session minted under it.
\<close>

lemma within_ttl [code_unfold]: "m + MACHINE_SESSION_TTL_MS < n \<longleftrightarrow> int m + 900000 < int n"
  unfolding MACHINE_SESSION_TTL_MS_def by linarith

lemma int_rate_window [code_unfold]: "int EXCHANGE_RATE_WINDOW_MS = 60000"
  by (simp add: EXCHANGE_RATE_WINDOW_MS_def)

definition sample_access :: access_database where
  "sample_access = \<lparr>metadata = sample_db, bootstrap_authority = None, api_tokens = [], cli_sessions = [],
     ci_trusts = [], machine_sessions = []\<rparr>"

definition sample_token :: LocalApiTokenRecord where
  "sample_token = \<lparr>lat_id = ''t1'', lat_name = ''cli'', lat_token_prefix = ''by'', lat_secret_hash = sample_hash CHR ''1'',
     lat_scopes = [''admin''], lat_workspace_id = ''w'', lat_project_id = None, lat_created_at_ms = 10,
     lat_expires_at_ms = 500, lat_last_used_at_ms = None, lat_revoked_at_ms = None\<rparr>"

definition sample_session :: LocalCliSessionRecord where
  "sample_session = \<lparr>lcs_id = ''s1'', lcs_token_id = ''t1'', lcs_workspace_id = ''w'', lcs_name = ''cli'',
     lcs_platform = ''linux'', lcs_version = ''1'', lcs_created_at_ms = 10, lcs_last_used_at_ms = None,
     lcs_revoked_at_ms = None\<rparr>"

definition sample_trust :: LocalCiTrustRecord where
  "sample_trust = \<lparr>lct_id = ''c1'', lct_workspace_id = ''w'', lct_project_id = Some ''p'', lct_repository = ''acme/app'',
     lct_workflow_path = ''.github/workflows/ci.yml'', lct_workflow_ref = ''refs/heads/main'',
     lct_allowed_ref_glob = ''refs/heads/rel*'', lct_environment = None,
     lct_allowed_actions = [CaUpload, CaDownload], lct_audience = ''yard'', lct_created_at_ms = 20,
     lct_revoked_at_ms = None\<rparr>"

definition sample_ci_event :: "string \<Rightarrow> string \<Rightarrow> string \<Rightarrow> nat \<Rightarrow> NewAuditEvent" where
  "sample_ci_event action target_type target at = \<lparr>nae_id = action, nae_workspace_id = ''w'', nae_actor = ''a'',
     nae_action = action, nae_request_id = ''r'', nae_target_type = target_type,
     nae_metadata = [(''repository'', AvString ''acme/app''), (''targetId'', AvString target)],
     nae_created_at_ms = at\<rparr>"

definition sample_identity :: GithubOidcIdentity where
  "sample_identity = \<lparr>goi_audience = ''yard'', goi_repository = ''acme/app'', goi_git_ref = ''refs/heads/rel-1'',
     goi_workflow_path = ''.github/workflows/ci.yml'', goi_workflow_ref = ''refs/heads/main'', goi_environment = None,
     goi_run_id = ''7'', goi_run_attempt = None, goi_sha = None, goi_expires_at_ms = 200\<rparr>"

definition sample_exchange :: NewMachineSession where
  "sample_exchange = \<lparr>nms_id = ''machine_1'', nms_token_prefix = ''by'', nms_secret_hash = sample_hash CHR ''2'',
     nms_identity = sample_identity, nms_workspace = None, nms_project = ''p'', nms_actions = [CaUpload],
     nms_oidc_token_hash = sample_hash CHR ''3'', nms_now_ms = 30\<rparr>"

definition sample_mint :: access_command where
  "sample_mint = MintMachineSession sample_exchange (sample_ci_event ''ci.token_minted'' ''project'' ''p'' 30)"

definition sample_trusted :: access_database where
  "sample_trusted = run_commands access_exec
     [InstallBootstrap (sample_hash CHR ''0''), ExchangeBootstrap (sample_hash CHR ''0'') sample_token sample_session,
      CreateCiTrust sample_trust (sample_ci_event ''ci.trust_created'' ''ci_trust'' ''c1'' 20)] sample_access"

definition sample_minted :: access_database where
  "sample_minted = run_commands access_exec [sample_mint] sample_trusted"

lemma sample_access_inv: "access_inv sample_access"
  by (simp add: access_inv_def bootstrap_ok_def tokens_ok_def sessions_ok_def trusts_ok_def machines_ok_def sample_access_def)

lemma sample_trusted_inv: "access_inv sample_trusted"
  unfolding sample_trusted_def by (rule access.inv_run [OF sample_access_inv])

lemma sample_minted_inv: "access_inv sample_minted"
  unfolding sample_minted_def by (rule access.inv_run [OF sample_trusted_inv])

text \<open>The rows of the samples, computed once: later evaluations start from them.\<close>

lemma sample_trusted_rows [code]:
  "sample_trusted = \<lparr>metadata = sample_db\<lparr>audit_events := [\<lparr>ae_sequence = 1, ae_id = ''ci.trust_created'',
        ae_workspace_id = ''w'', ae_actor = ''a'', ae_action = ''ci.trust_created'', ae_request_id = ''r'',
        ae_target_type = ''ci_trust'', ae_metadata = [(''repository'', JsonString ''acme/app''),
          (''targetId'', JsonString ''c1'')], ae_created_at_ms = 20\<rparr>], audit_sequence := 1\<rparr>,
     bootstrap_authority = Some \<lparr>ba_secret_hash = None, ba_consumed = 1\<rparr>,
     api_tokens = [\<lparr>at_id = ''t1'', at_name = ''cli'', at_secret_hash = sample_hash CHR ''1'', at_scopes = ''admin'',
        at_workspace_id = ''w'', at_revoked = 0, at_token_prefix = ''by'', at_project_id = None, at_created_at_ms = 10,
        at_expires_at_ms = 500, at_last_used_at_ms = None, at_revoked_at_ms = None\<rparr>],
     cli_sessions = [\<lparr>cs_id = ''s1'', cs_token_id = ''t1'', cs_workspace_id = ''w'', cs_name = ''cli'',
        cs_platform = ''linux'', cs_version = ''1'', cs_created_at_ms = 10, cs_last_used_at_ms = None,
        cs_revoked_at_ms = None\<rparr>],
     ci_trusts = [\<lparr>tr_id = ''c1'', tr_workspace_id = ''w'', tr_project_id = Some ''p'', tr_repository = ''acme/app'',
        tr_workflow_path = ''.github/workflows/ci.yml'', tr_workflow_ref = ''refs/heads/main'',
        tr_allowed_ref_glob = ''refs/heads/rel*'', tr_environment = None,
        tr_allowed_actions = ''upload'' @ [newline] @ ''download'', tr_audience = ''yard'', tr_created_at_ms = 20,
        tr_revoked_at_ms = None\<rparr>],
     machine_sessions = []\<rparr>"
  by code_simp

lemma sample_minted_rows [code]:
  "sample_minted = sample_trusted\<lparr>metadata := (metadata sample_trusted)\<lparr>audit_events := audit_events (metadata sample_trusted) @
        [\<lparr>ae_sequence = 2, ae_id = ''ci.token_minted'', ae_workspace_id = ''w'', ae_actor = ''a'',
          ae_action = ''ci.token_minted'', ae_request_id = ''r'', ae_target_type = ''project'',
          ae_metadata = [(''repository'', JsonString ''acme/app''), (''targetId'', JsonString ''p'')],
          ae_created_at_ms = 30\<rparr>], audit_sequence := 2\<rparr>,
     api_tokens := api_tokens sample_trusted @ [\<lparr>at_id = ''machine_1'', at_name = ''GitHub Actions acme/app run 7'',
        at_secret_hash = sample_hash CHR ''2'', at_scopes = ''upload'', at_workspace_id = ''w'', at_revoked = 0,
        at_token_prefix = ''by'', at_project_id = Some ''p'', at_created_at_ms = 30, at_expires_at_ms = 200,
        at_last_used_at_ms = None, at_revoked_at_ms = None\<rparr>],
     machine_sessions := [\<lparr>ms_id = ''machine_1'', ms_token_id = ''machine_1'', ms_trust_id = ''c1'',
        ms_workspace_id = ''w'', ms_project_id = ''p'', ms_repository = ''acme/app'', ms_git_ref = ''refs/heads/rel-1'',
        ms_run_id = ''7'', ms_run_attempt = None, ms_actions = ''upload'', ms_oidc_token_hash = sample_hash CHR ''3'',
        ms_created_at_ms = 30, ms_expires_at_ms = 200, ms_last_used_at_ms = None, ms_revoked_at_ms = None\<rparr>]\<rparr>"
  by code_simp

end
