(* ===== verification/Access_Properties.thy ===== *)
theory Access_Properties
  imports Access_Samples
begin

text \<open>
  What the credential service guarantees: authentication is exact, revocation is final and reaches
  every derived session, a minted session stays within its trust, a bootstrap secret works once, and
  the exchange rate of a trust is bounded.
\<close>

section \<open>Authentication\<close>

definition active_token :: "string \<Rightarrow> int \<Rightarrow> api_token_row \<Rightarrow> bool" where
  "active_token h now r \<longleftrightarrow>
     at_secret_hash r = h \<and> at_revoked r = 0 \<and> at_created_at_ms r \<le> now \<and> at_expires_at_ms r > now"

lemma touched_at_least: "at_least b v \<Longrightarrow> b \<le> now \<Longrightarrow> at_least b (touched now v)"
  by (cases v) (auto simp: at_least_def touched_def)

lemma machine_session_decodes:
  assumes "machine_session_check s" and "ci_actions (ms_actions s) = Ok as"
  shows "\<exists>x. machine_session s = Ok x"
proof -
  have chk: "0 \<le> ms_created_at_ms s" "0 \<le> ms_expires_at_ms s" and least:
    "at_least (ms_created_at_ms s) (ms_last_used_at_ms s)" "at_least (ms_created_at_ms s) (ms_revoked_at_ms s)"
    using assms(1) by (auto simp: machine_session_check_def)
  obtain u where "ms_last_used_at_ms s = map_option int u" using optional_nat [OF least(1) chk(1)] by auto
  moreover obtain v where "ms_revoked_at_ms s = map_option int v" using optional_nat [OF least(2) chk(1)] by auto
  ultimately show ?thesis
    using chk assms(2) by (auto simp: machine_session_def required_u64_def optional_u64_Ok_iff [THEN iffD2])
qed

lemma ci_trust_decodes:
  assumes "ci_trust_check r" and "ci_actions (tr_allowed_actions r) = Ok as"
  shows "\<exists>x. ci_trust r = Ok x"
proof -
  have "0 \<le> tr_created_at_ms r" "at_least (tr_created_at_ms r) (tr_revoked_at_ms r)"
    using assms(1) by (auto simp: ci_trust_check_def)
  moreover from this obtain v where "tr_revoked_at_ms r = map_option int v" using optional_nat by blast
  ultimately show ?thesis
    using assms(2) by (auto simp: ci_trust_def required_u64_def optional_u64_Ok_iff [THEN iffD2])
qed

text \<open>A machine session whose token is active is valid under its trust: what the check against the
  trust could refuse is already excluded by the links.\<close>

lemma machine_session_valid:
  assumes inv: "access_inv db" and s: "s \<in> set (machine_sessions db)" and r: "r \<in> set (api_tokens db)"
    "at_id r = ms_token_id s" and active: "at_revoked r = 0" "at_expires_at_ms r > int now"
  obtains x trust where "machine_session s = Ok x" and "trust_by_id db (lms_trust_id x) (lms_workspace_id x) = Ok trust"
    and "session_trust_valid x trust now"
proof -
  note d = access_invD [OF inv]
  obtain t u where t: "t \<in> set (api_tokens db)" "token_of s t" and u: "u \<in> set (ci_trusts db)" "trust_of s u"
    and chk: "machine_session_check s"
    using d(5) s by (auto simp: machines_ok_def)
  have ids: "distinct (map at_id (api_tokens db))" using d(2) by (simp add: tokens_ok_def)
  have "t = r" using distinct_map_eq [OF ids t(1) r(1)] t(2) r(2) by (simp add: token_of_def)
  with t(2) active have alive: "ms_revoked_at_ms s = None" "ms_expires_at_ms s > int now" by (auto simp: token_of_def)
  obtain as bs where acts: "ci_actions (ms_actions s) = Ok as" "ci_actions (tr_allowed_actions u) = Ok bs" "set as \<subseteq> set bs"
    using u(2) by (auto simp: trust_of_def)
  obtain x where x: "machine_session s = Ok x" using machine_session_decodes [OF chk acts(1)] by blast
  have uchk: "ci_trust_check u" and keys: "distinct (map tr_id (ci_trusts db))"
    using d(4) u(1) by (auto simp: trusts_ok_def)
  obtain trust where trust: "ci_trust u = Ok trust" using ci_trust_decodes [OF uchk acts(2)] by blast
  have "find (\<lambda>y. tr_id y = ms_trust_id s \<and> tr_workspace_id y = ms_workspace_id s) (ci_trusts db) = Some u"
  proof (rule find_unique [OF u(1)])
    fix y assume "y \<in> set (ci_trusts db)" "tr_id y = ms_trust_id s \<and> tr_workspace_id y = ms_workspace_id s"
    then show "y = u" using distinct_map_eq [OF keys _ u(1)] u(2) by (simp add: trust_of_def)
  qed (use u(2) in \<open>simp add: trust_of_def\<close>)
  then have by_id: "trust_by_id db (lms_trust_id x) (lms_workspace_id x) = Ok trust"
    using x trust by (simp add: trust_by_id_def query_row_def machine_session_Ok_iff)
  have "session_trust_valid x trust now"
    using x trust u(2) alive acts
    by (auto simp: session_trust_valid_def machine_session_Ok_iff ci_trust_Ok_iff trust_of_def list_all_iff split: option.splits)
  then show thesis by (rule that [OF x by_id])
qed

lemma validate_and_touch_possible:
  assumes inv: "access_inv db" and r: "r \<in> set (api_tokens db)" "at_id r = k"
    and active: "at_revoked r = 0" "at_created_at_ms r \<le> int now" "at_expires_at_ms r > int now"
  shows "\<exists>db'. validate_and_touch db k now (int now) = Ok db'"
proof (cases "find (\<lambda>s. ms_token_id s = k) (machine_sessions db)")
  case None
  then show ?thesis by (simp add: validate_and_touch_def)
next
  case (Some s)
  note d = access_invD [OF inv]
  have s: "s \<in> set (machine_sessions db)" "ms_token_id s = k" using find_Some_iff_first [OF Some] by simp_all
  have keys: "distinct (map at_id (api_tokens db))" using d(2) by (simp add: tokens_ok_def)
  obtain x trust where "machine_session s = Ok x" "trust_by_id db (lms_trust_id x) (lms_workspace_id x) = Ok trust"
    "session_trust_valid x trust now"
    by (rule machine_session_valid [OF inv s(1) r(1) _ active(1,3)]) (use r(2) s(2) in simp)
  moreover have "machine_session_check (y\<lparr>ms_last_used_at_ms := touched (int now) (ms_last_used_at_ms y)\<rparr>)"
    if y: "y \<in> set (machine_sessions db)" "ms_token_id y = k" for y
  proof -
    obtain t where t: "t \<in> set (api_tokens db)" "token_of y t" and chk: "machine_session_check y"
      using d(5) y(1) by (auto simp: machines_ok_def)
    then have "t = r" using distinct_map_eq [OF keys t(1) r(1)] y(2) r(2) by (simp add: token_of_def)
    then have "ms_created_at_ms y \<le> int now" using t(2) active(2) by (simp add: token_of_def)
    then show ?thesis using chk touched_at_least by (simp add: machine_session_check_def)
  qed
  ultimately show ?thesis
    using Some by (simp add: validate_and_touch_def touch_machine_def update_rows_possible)
qed

lemma validate_and_touch_sessions:
  assumes "validate_and_touch db k t now = Ok db'"
  shows "cli_sessions db' = cli_sessions db" and "api_tokens db' = api_tokens db"
  using assms
  by (auto simp: validate_and_touch_def touch_machine_def result_simps split: option.split_asm if_split_asm)

lemma authentication_iff:
  assumes inv: "access_inv db" and h: "validate_hash h = Ok ()" and t: "now \<le> i64_max"
  shows "is_ok (fst (authenticate_api_token db h now)) \<longleftrightarrow> (\<exists>r \<in> set (api_tokens db). active_token h (int now) r)"
proof
  assume "is_ok (fst (authenticate_api_token db h now))"
  then obtain x db' where "authenticate_api_token db h now = (Ok x, db')" by (auto simp: is_ok_iff prod_eq_iff)
  then obtain r where "find (\<lambda>r. at_secret_hash r = h \<and> at_revoked r = 0 \<and> at_created_at_ms r \<le> int now
      \<and> at_expires_at_ms r > int now) (api_tokens db) = Some r"
    by (elim authenticate_api_token_D) (auto simp: query_row_Ok_iff)
  from find_Some_iff_first [OF this] show "\<exists>r \<in> set (api_tokens db). active_token h (int now) r"
    by (auto simp: active_token_def)
next
  assume "\<exists>r \<in> set (api_tokens db). active_token h (int now) r"
  then obtain r where r: "r \<in> set (api_tokens db)" "active_token h (int now) r" by blast
  note d = access_invD [OF inv]
  let ?sel = "active_token h (int now)" and ?f = "\<lambda>r. r\<lparr>at_last_used_at_ms := touched (int now) (at_last_used_at_ms r)\<rparr>"
  have sel: "?sel = (\<lambda>r. at_secret_hash r = h \<and> at_revoked r = 0 \<and> at_created_at_ms r \<le> int now \<and> at_expires_at_ms r > int now)"
    by (rule ext) (simp add: active_token_def)
  have ids: "distinct (map at_id (api_tokens db))" and hashes: "distinct (map at_secret_hash (api_tokens db))"
    using d(2) by (auto simp: tokens_ok_def)
  have chk: "api_token_check (?f y)" if "y \<in> set (api_tokens db)" for y
    using d(2) that touched_at_least by (auto simp: tokens_ok_def api_token_check_def)
  obtain rows where rows: "rows = map (\<lambda>y. if ?sel y then ?f y else y) (api_tokens db)" by blast
  have up: "update_rows ?sel ?f api_token_check (api_tokens db) = Ok (length (filter ?sel (api_tokens db)), rows)"
    unfolding rows by (rule update_rows_possible) (rule chk)
  have find: "find ?sel (api_tokens db) = Some r"
  proof (rule find_unique [where P = ?sel, OF r])
    fix y assume "y \<in> set (api_tokens db)" "?sel y"
    then show "y = r" using distinct_map_eq [OF hashes _ r(1)] r(2) by (simp add: active_token_def)
  qed
  obtain x where x: "api_token (?f r) = Ok x" using api_token_decodes [OF chk [OF r(1)]] by blast
  have xid: "lat_id x = at_id r" using x by (simp add: api_token_Ok_iff)
  let ?db = "db\<lparr>api_tokens := rows\<rparr>"
  have inv1: "access_inv ?db" by (rule tokens_update_inv [OF inv up token_change_touch])
  have "?f r \<in> set rows" unfolding rows using r by force
  then obtain db1 where touch: "validate_and_touch ?db (lat_id x) now (int now) = Ok db1"
    using validate_and_touch_possible [OF inv1, of "?f r" "lat_id x" now] r(2) xid by (auto simp: active_token_def)
  have "cli_session_check (s\<lparr>cs_last_used_at_ms := touched (int now) (cs_last_used_at_ms s)\<rparr>)"
    if s: "s \<in> set (cli_sessions db1)" "cs_token_id s = lat_id x" for s
  proof -
    obtain u where u: "u \<in> set (api_tokens db)" "session_of s u" and c: "cli_session_check s"
      using d(3) s(1) validate_and_touch_sessions(1) [OF touch] by (auto simp: sessions_ok_def)
    then have "u = r" using distinct_map_eq [OF ids u(1) r(1)] s(2) xid by (simp add: session_of_def)
    then have "cs_created_at_ms s \<le> int now" using u(2) r(2) by (simp add: session_of_def active_token_def)
    then show ?thesis using c touched_at_least by (simp add: cli_session_check_def)
  qed
  then have "update_rows (\<lambda>s. cs_token_id s = lat_id x \<and> cs_revoked_at_ms s = None)
      (\<lambda>s. s\<lparr>cs_last_used_at_ms := touched (int now) (cs_last_used_at_ms s)\<rparr>) cli_session_check (cli_sessions db1)
      = Ok (length (filter (\<lambda>s. cs_token_id s = lat_id x \<and> cs_revoked_at_ms s = None) (cli_sessions db1)),
        map (\<lambda>s. if cs_token_id s = lat_id x \<and> cs_revoked_at_ms s = None
          then s\<lparr>cs_last_used_at_ms := touched (int now) (cs_last_used_at_ms s)\<rparr> else s) (cli_sessions db1))"
    by (intro update_rows_possible) blast
  then show "is_ok (fst (authenticate_api_token db h now))"
    using h t up find x touch
    by (simp add: authenticate_api_token_def update_returning_def after_def sql_time_def to_i64_def write_transaction_def
        query_row_def flip: sel)
qed

text \<open>C19. Authentication is exact: in every reachable database a well-formed digest authenticates
  at a time if and only if it belongs to a token that is not revoked and whose lifetime contains
  that time. The further checks of a machine session against its trust refuse nothing that this
  leaves, because revoking a trust revoked its sessions and their tokens.\<close>

theorem authentication_exact:
  assumes "access_inv db" and "validate_hash h = Ok ()" and "now \<le> i64_max"
  shows "is_ok (fst (authenticate_api_token db h now)) \<longleftrightarrow> (\<exists>r \<in> set (api_tokens db). active_token h (int now) r)"
  by (rule authentication_iff [OF assms])

theorem authentication_exact_witness:
  "is_ok (fst (authenticate_api_token sample_minted (sample_hash CHR ''2'') 199))
   \<and> \<not> is_ok (fst (authenticate_api_token sample_minted (sample_hash CHR ''2'') 200))"
proof -
  have h: "validate_hash (sample_hash CHR ''2'') = Ok ()" by code_simp
  have t: "199 \<le> i64_max" "200 \<le> i64_max" by (simp_all add: i64_max_def)
  have "\<exists>r \<in> set (api_tokens sample_minted). active_token (sample_hash CHR ''2'') (int 199) r" by code_simp
  moreover have "\<not> (\<exists>r \<in> set (api_tokens sample_minted). active_token (sample_hash CHR ''2'') (int 200) r)" by code_simp
  ultimately show ?thesis
    using authentication_exact [OF sample_minted_inv h t(1)] authentication_exact [OF sample_minted_inv h t(2)] by blast
qed

section \<open>Listings\<close>







section \<open>Revocation\<close>

definition tokens_grow :: "api_token_row list \<Rightarrow> api_token_row list \<Rightarrow> bool" where
  "tokens_grow ts ts' \<longleftrightarrow> (\<forall>r \<in> set ts. \<exists>r' \<in> set ts'. at_id r' = at_id r \<and> at_secret_hash r' = at_secret_hash r
     \<and> (at_revoked r = 1 \<longrightarrow> at_revoked r' = 1))"

definition trusts_grow :: "ci_trust_row list \<Rightarrow> ci_trust_row list \<Rightarrow> bool" where
  "trusts_grow rs rs' \<longleftrightarrow> (\<forall>r \<in> set rs. \<exists>r' \<in> set rs'. tr_id r' = tr_id r
     \<and> (tr_revoked_at_ms r \<noteq> None \<longrightarrow> tr_revoked_at_ms r' \<noteq> None))"

definition credentials_grow :: "access_database \<Rightarrow> access_database \<Rightarrow> bool" where
  "credentials_grow db db' \<longleftrightarrow> tokens_grow (api_tokens db) (api_tokens db') \<and> trusts_grow (ci_trusts db) (ci_trusts db')"

lemma grow_refl [simp]: "tokens_grow ts ts" "trusts_grow rs rs"
  by (auto simp: tokens_grow_def trusts_grow_def)

lemma grow_append [simp]: "tokens_grow ts (ts @ us)" "trusts_grow rs (rs @ qs)"
  by (auto simp: tokens_grow_def trusts_grow_def)

lemma tokens_grow_update:
  assumes "update_rows sel f check ts = Ok (n, rows)" and f: "token_change f"
  shows "tokens_grow ts rows"
  unfolding tokens_grow_def update_rows_D(1) [OF assms(1)]
proof
  fix r assume "r \<in> set ts"
  then show "\<exists>r' \<in> set (map (\<lambda>x. if sel x then f x else x) ts). at_id r' = at_id r \<and> at_secret_hash r' = at_secret_hash r
      \<and> (at_revoked r = 1 \<longrightarrow> at_revoked r' = 1)"
    using f by (intro bexI [of _ "if sel r then f r else r"]) (auto simp: token_change_def)
qed

lemma trusts_grow_update:
  assumes "update_rows sel (\<lambda>r. r\<lparr>tr_revoked_at_ms := Some now\<rparr>) check rs = Ok (n, rows)"
  shows "trusts_grow rs rows"
  unfolding trusts_grow_def update_rows_D(1) [OF assms]
proof
  fix r assume "r \<in> set rs"
  then show "\<exists>r' \<in> set (map (\<lambda>x. if sel x then x\<lparr>tr_revoked_at_ms := Some now\<rparr> else x) rs). tr_id r' = tr_id r
      \<and> (tr_revoked_at_ms r \<noteq> None \<longrightarrow> tr_revoked_at_ms r' \<noteq> None)"
    by (intro bexI [of _ "if sel r then r\<lparr>tr_revoked_at_ms := Some now\<rparr> else r"]) auto
qed

lemma tokens_grow_trans: "tokens_grow ts us \<Longrightarrow> tokens_grow us vs \<Longrightarrow> tokens_grow ts vs"
proof -
  assume one: "tokens_grow ts us" and two: "tokens_grow us vs"
  show "tokens_grow ts vs"
    unfolding tokens_grow_def
  proof
    fix r assume "r \<in> set ts"
    with one obtain u where u: "u \<in> set us" "at_id u = at_id r" "at_secret_hash u = at_secret_hash r" "at_revoked r = 1 \<longrightarrow> at_revoked u = 1"
      unfolding tokens_grow_def by blast
    from two u(1) obtain v where "v \<in> set vs" "at_id v = at_id u" "at_secret_hash v = at_secret_hash u" "at_revoked u = 1 \<longrightarrow> at_revoked v = 1"
      unfolding tokens_grow_def by blast
    with u show "\<exists>v \<in> set vs. at_id v = at_id r \<and> at_secret_hash v = at_secret_hash r \<and> (at_revoked r = 1 \<longrightarrow> at_revoked v = 1)"
      by (intro bexI [of _ v]) simp_all
  qed
qed

lemma trusts_grow_trans: "trusts_grow rs us \<Longrightarrow> trusts_grow us vs \<Longrightarrow> trusts_grow rs vs"
proof -
  assume one: "trusts_grow rs us" and two: "trusts_grow us vs"
  show "trusts_grow rs vs"
    unfolding trusts_grow_def
  proof
    fix r assume "r \<in> set rs"
    with one obtain u where u: "u \<in> set us" "tr_id u = tr_id r" "tr_revoked_at_ms r \<noteq> None \<longrightarrow> tr_revoked_at_ms u \<noteq> None"
      unfolding trusts_grow_def by blast
    from two u(1) obtain v where "v \<in> set vs" "tr_id v = tr_id u" "tr_revoked_at_ms u \<noteq> None \<longrightarrow> tr_revoked_at_ms v \<noteq> None"
      unfolding trusts_grow_def by blast
    with u show "\<exists>v \<in> set vs. tr_id v = tr_id r \<and> (tr_revoked_at_ms r \<noteq> None \<longrightarrow> tr_revoked_at_ms v \<noteq> None)"
      by (intro bexI [of _ v]) simp_all
  qed
qed

lemma grow_trans: "credentials_grow db db1 \<Longrightarrow> credentials_grow db1 db2 \<Longrightarrow> credentials_grow db db2"
  using tokens_grow_trans trusts_grow_trans by (simp add: credentials_grow_def) blast

lemma touched_tables:
  assumes "validate_and_touch db k t now = Ok db'"
  shows "ci_trusts db' = ci_trusts db"
  using assms by (auto simp: validate_and_touch_def touch_machine_def result_simps split: option.split_asm if_split_asm)

lemma access_op_grow:
  "install_bootstrap db h = (Ok b, db') \<Longrightarrow> credentials_grow db db'"
  "exchange_bootstrap db h tok ses = (Ok u, db') \<Longrightarrow> credentials_grow db db'"
  "revoke_cli_session db uid w t ev = (Ok u, db') \<Longrightarrow> credentials_grow db db'"
  "create_api_token db tok ev = (Ok u, db') \<Longrightarrow> credentials_grow db db'"
  "authenticate_api_token db h t = (Ok x, db') \<Longrightarrow> credentials_grow db db'"
  "revoke_api_token db uid t ev = (Ok u, db') \<Longrightarrow> credentials_grow db db'"
  "create_ci_trust db r ev = (Ok u, db') \<Longrightarrow> credentials_grow db db'"
  "revoke_ci_trust db uid w t ev = (Ok b, db') \<Longrightarrow> credentials_grow db db'"
  "mint_machine_session db n ev = (Ok y, db') \<Longrightarrow> credentials_grow db db'"
  "authenticate_machine_session db k t = (Ok z, db') \<Longrightarrow> credentials_grow db db'"
proof -
  show "install_bootstrap db h = (Ok b, db') \<Longrightarrow> credentials_grow db db'"
    by (auto simp: install_bootstrap_def outcome_iffs credentials_grow_def split: option.split_asm)
  show "exchange_bootstrap db h tok ses = (Ok u, db') \<Longrightarrow> credentials_grow db db'"
    by (erule exchange_bootstrap_D) (simp add: credentials_grow_def)
  show "revoke_cli_session db uid w t ev = (Ok u, db') \<Longrightarrow> credentials_grow db db'"
    by (erule revoke_cli_session_D) (simp add: credentials_grow_def tokens_grow_update [OF _ token_change_revoke])
  show "create_api_token db tok ev = (Ok u, db') \<Longrightarrow> credentials_grow db db'"
    by (auto simp: create_api_token_def outcome_iffs result_simps credentials_grow_def dest!: insert_token_D(1) access_audit_D)
  show "authenticate_api_token db h t = (Ok x, db') \<Longrightarrow> credentials_grow db db'"
    by (erule authenticate_api_token_D)
      (use tokens_grow_update [OF _ token_change_touch] validate_and_touch_sessions(2) touched_tables in
        \<open>fastforce simp: credentials_grow_def\<close>)
  show "revoke_api_token db uid t ev = (Ok u, db') \<Longrightarrow> credentials_grow db db'"
    by (erule revoke_api_token_D) (simp add: credentials_grow_def tokens_grow_update [OF _ token_change_revoke])
  show "create_ci_trust db r ev = (Ok u, db') \<Longrightarrow> credentials_grow db db'"
    by (auto simp: create_ci_trust_def insert_trust_def Let_def outcome_iffs result_simps credentials_grow_def dest!: access_audit_D)
  show "revoke_ci_trust db uid w t ev = (Ok b, db') \<Longrightarrow> credentials_grow db db'"
    by (erule revoke_ci_trust_D)
      (simp_all add: credentials_grow_def tokens_grow_update [OF _ token_change_revoke] trusts_grow_update)
  show "mint_machine_session db n ev = (Ok y, db') \<Longrightarrow> credentials_grow db db'"
    by (erule mint_D) (simp_all add: credentials_grow_def)
  show "authenticate_machine_session db k t = (Ok z, db') \<Longrightarrow> credentials_grow db db'"
    by (auto simp: authenticate_machine_session_def touch_machine_def outcome_iffs result_simps credentials_grow_def split: if_split_asm)
qed

lemma access_exec_grow:
  assumes inv: "access_inv db" and run: "access_exec c db = (r, db')"
  shows "credentials_grow db db'"
proof (cases "is_ok r")
  case True
  with run show ?thesis by (cases c) (auto dest!: outcome_of_Ok dest: access_op_grow)
next
  case False
  then have "db' = db" using access.failed_unchanged [OF inv run] by simp
  then show ?thesis by (simp add: credentials_grow_def)
qed

lemma access_run_grow: "access_inv db \<Longrightarrow> credentials_grow db (run_commands access_exec cs db)"
proof (induction cs arbitrary: db)
  case (Cons c cs)
  obtain r db' where run: "access_exec c db = (r, db')" by (rule prod.exhaust)
  have "credentials_grow db' (run_commands access_exec cs db')" by (rule Cons.IH [OF access.inv_step [OF Cons.prems run]])
  then show ?case using grow_trans [OF access_exec_grow [OF Cons.prems run]] run by simp
qed (simp add: credentials_grow_def)

section \<open>Trusts read back\<close>











section \<open>Revoked tokens\<close>

lemma revoked_token_refused:
  assumes inv: "access_inv db" and r: "r \<in> set (api_tokens db)" "at_revoked r = 1"
  shows "\<not> is_ok (fst (authenticate_api_token db (at_secret_hash r) t))"
proof
  assume ok: "is_ok (fst (authenticate_api_token db (at_secret_hash r) t))"
  then have "validate_hash (at_secret_hash r) = Ok ()" "t \<le> i64_max"
    by (auto simp: authenticate_api_token_def after_def is_ok_iff result_simps split: sum.split_asm)
  from authentication_iff [OF inv this] ok
  obtain r' where "r' \<in> set (api_tokens db)" "at_secret_hash r' = at_secret_hash r" "at_revoked r' = 0"
    by (auto simp: active_token_def)
  moreover have "distinct (map at_secret_hash (api_tokens db))" using access_invD(2) [OF inv] by (simp add: tokens_ok_def)
  ultimately show False using distinct_map_eq [of at_secret_hash "api_tokens db" r' r] r by simp
qed

lemma revoked_token_refused_later:
  assumes inv: "access_inv db" and r: "r \<in> set (api_tokens db)" "at_revoked r = 1"
  shows "\<not> is_ok (fst (authenticate_api_token (run_commands access_exec cs db) (at_secret_hash r) t))"
proof -
  obtain r' where "r' \<in> set (api_tokens (run_commands access_exec cs db))" "at_secret_hash r' = at_secret_hash r" "at_revoked r' = 1"
    using access_run_grow [OF inv, of cs] r unfolding credentials_grow_def tokens_grow_def by blast
  then show ?thesis using revoked_token_refused [OF access.inv_run [OF inv]] by metis
qed

lemma revoked_afterwards:
  assumes inv: "access_inv db" and up: "update_rows sel (revoke_token_row now) api_token_check (api_tokens db) = Ok (n, tokens)"
    and sel: "\<And>r. r \<in> set (api_tokens db) \<Longrightarrow> at_id r = k \<Longrightarrow> at_revoked r = 0 \<Longrightarrow> sel r"
    and r: "r \<in> set (api_tokens db)" "at_id r = k"
  shows "\<exists>r' \<in> set tokens. at_secret_hash r' = at_secret_hash r \<and> at_revoked r' = 1"
proof -
  obtain r' where r': "r' \<in> set tokens" "at_id r' = k" "at_secret_hash r' = at_secret_hash r"
    using tokens_grow_update [OF up token_change_revoke] r unfolding tokens_grow_def by metis
  from revoked_rows [OF access_invD(2) [OF inv] up sel r'(1,2)] r' show ?thesis by blast
qed

text \<open>C18. Revoking a token is final. Once an operator has revoked an API token, or the CLI session
  that carries it, the secret of that token authenticates at no time and after no further commands.\<close>

theorem token_revocation_final:
  assumes inv: "access_inv db" and r: "r \<in> set (api_tokens db)" "at_id r = k"
    and run: "revoke_api_token db k t ev = (Ok u, db')
      \<or> s \<in> set (cli_sessions db) \<and> cs_token_id s = k \<and> revoke_cli_session db (cs_id s) w t ev = (Ok u, db')"
  shows "\<not> is_ok (fst (authenticate_api_token (run_commands access_exec cs db') (at_secret_hash r) now))"
  using run
proof (elim disjE conjE)
  assume ok: "revoke_api_token db k t ev = (Ok u, db')"
  obtain n tokens m where up: "update_rows (\<lambda>r. at_id r = k \<and> at_revoked r = 0) (revoke_token_row (int t)) api_token_check
      (api_tokens db) = Ok (n, tokens)" and eq: "db' = db\<lparr>api_tokens := tokens, metadata := m\<rparr>"
    by (rule revoke_api_token_D [OF ok])
  obtain r' where r': "r' \<in> set (api_tokens db')" "at_secret_hash r' = at_secret_hash r" "at_revoked r' = 1"
    using revoked_afterwards [OF inv up _ r] by (auto simp: eq)
  show ?thesis
    using revoked_token_refused_later [OF revoke_api_token_inv [OF inv ok] r'(1,3)] by (simp add: r'(2))
next
  assume s: "s \<in> set (cli_sessions db)" "cs_token_id s = k" and ok: "revoke_cli_session db (cs_id s) w t ev = (Ok u, db')"
  obtain s' tokens where s': "s' \<in> set (cli_sessions db)" "cs_id s' = cs_id s"
    and up: "update_rows (\<lambda>r. at_id r = cs_token_id s' \<and> at_revoked r = 0) (revoke_token_row (int t)) api_token_check
      (api_tokens db) = Ok (1, tokens)" and eq: "api_tokens db' = tokens"
    by (rule revoke_cli_session_D [OF ok]) simp
  have "distinct (map cs_id (cli_sessions db))" using access_invD(3) [OF inv] by (simp add: sessions_ok_def)
  from distinct_map_eq [OF this s'(1) s(1) s'(2)] have k: "cs_token_id s' = k" using s(2) by simp
  obtain r' where r': "r' \<in> set (api_tokens db')" "at_secret_hash r' = at_secret_hash r" "at_revoked r' = 1"
    using revoked_afterwards [OF inv up _ r] by (auto simp: eq k)
  show ?thesis
    using revoked_token_refused_later [OF revoke_cli_session_inv [OF inv ok] r'(1,3)] by (simp add: r'(2))
qed

definition sample_session_event :: NewAuditEvent where
  "sample_session_event = \<lparr>nae_id = ''e3'', nae_workspace_id = ''w'', nae_actor = ''a'',
     nae_action = ''cli.session_revoked'', nae_request_id = ''r'', nae_target_type = ''cli_session'',
     nae_metadata = [(''sessionId'', AvString ''s1'')], nae_created_at_ms = 50\<rparr>"

theorem token_revocation_final_witness:
  "is_ok (fst (authenticate_api_token sample_minted (sample_hash CHR ''1'') 70))
   \<and> \<not> is_ok (fst (authenticate_api_token (run_commands access_exec [AuthenticateApiToken (sample_hash CHR ''1'') 60]
     (snd (revoke_cli_session sample_minted ''s1'' ''w'' 50 sample_session_event))) (sample_hash CHR ''1'') 70))"
proof -
  let ?run = "revoke_cli_session sample_minted ''s1'' ''w'' 50 sample_session_event"
  let ?r = "hd (api_tokens sample_minted)" and ?s = "hd (cli_sessions sample_minted)"
  have r: "?r \<in> set (api_tokens sample_minted)" "at_id ?r = ''t1''" "at_secret_hash ?r = sample_hash CHR ''1''" by code_simp+
  have s: "?s \<in> set (cli_sessions sample_minted)" "cs_token_id ?s = ''t1''" "cs_id ?s = ''s1''" by code_simp+
  have "fst ?run = Ok ()" by code_simp
  then have run: "?run = (Ok (), snd ?run)" by (simp add: prod_eq_iff)
  have "is_ok (fst (authenticate_api_token sample_minted (sample_hash CHR ''1'') 70))" by code_simp
  then show ?thesis
    using token_revocation_final [OF sample_minted_inv r(1,2), where s = ?s] s run unfolding r(3) by metis
qed

lemma revoke_ci_trust_revokes:
  assumes ok: "revoke_ci_trust db uid w t ev = (Ok b, db')"
  shows "\<exists>r \<in> set (ci_trusts db'). tr_id r = uid \<and> tr_revoked_at_ms r \<noteq> None"
  using ok
proof (cases rule: revoke_ci_trust_D)
  case already
  then show ?thesis by simp
next
  case (revoked n1 n2 n3 trusts tokens sessions m)
  from revoked(2) obtain r where r: "r \<in> set (ci_trusts db)" "tr_id r = uid" by blast
  have "(if tr_revoked_at_ms r = None then r\<lparr>tr_revoked_at_ms := Some (int t)\<rparr> else r) \<in> set trusts"
    using r update_rows_D(1) [OF revoked(3)] by force
  then show ?thesis using r by (intro bexI) (auto simp: revoked(6))
qed

text \<open>What a revoked trust leaves: no session, and so no token, of it is alive.\<close>

lemma revoked_trust_sessions:
  assumes inv: "access_inv db" and q: "q \<in> set (ci_trusts db)" "tr_revoked_at_ms q \<noteq> None"
    and s: "s \<in> set (machine_sessions db)" "ms_trust_id s = tr_id q"
  shows "ms_revoked_at_ms s \<noteq> None" and "\<And>r. r \<in> set (api_tokens db) \<Longrightarrow> at_id r = ms_token_id s \<Longrightarrow> at_revoked r = 1"
proof -
  note d = access_invD [OF inv]
  obtain t v where t: "t \<in> set (api_tokens db)" "token_of s t" and v: "v \<in> set (ci_trusts db)" "trust_of s v"
    using d(5) s(1) by (auto simp: machines_ok_def)
  have ids: "distinct (map at_id (api_tokens db))" and trusts: "distinct (map tr_id (ci_trusts db))"
    using d(2,4) by (auto simp: tokens_ok_def trusts_ok_def)
  have "v = q" using distinct_map_eq [OF trusts v(1) q(1)] v(2) s(2) by (simp add: trust_of_def)
  then show dead: "ms_revoked_at_ms s \<noteq> None" using v(2) q(2) by (simp add: trust_of_def)
  fix r assume r: "r \<in> set (api_tokens db)" "at_id r = ms_token_id s"
  have "t = r" using distinct_map_eq [OF ids t(1) r(1)] t(2) r(2) by (simp add: token_of_def)
  then show "at_revoked r = 1" using t(2) dead by (simp add: token_of_def)
qed

lemma minted_under:
  assumes inv: "access_inv db" and q: "q \<in> set (ci_trusts db)" "tr_revoked_at_ms q \<noteq> None"
  shows "fst (mint_machine_session db n ev) \<noteq> Ok (Minted y) \<or> lms_trust_id y \<noteq> tr_id q"
proof (rule ccontr)
  assume "\<not> ?thesis"
  then obtain db' where ok: "mint_machine_session db n ev = (Ok (Minted y), db')" and y: "lms_trust_id y = tr_id q"
    by (auto simp: prod_eq_iff)
  from ok show False
  proof (cases rule: mint_D)
    case (minted r trust pid m)
    have "distinct (map tr_id (ci_trusts db))" using access_invD(4) [OF inv] by (simp add: trusts_ok_def)
    from distinct_map_eq [OF this minted(2) q(1)] have "r = q"
      using y minted(1,3) by (simp add: machine_record_def ci_trust_Ok_iff)
    with minted(4) q(2) show False by simp
  qed blast
qed

lemma machine_authenticates_under:
  assumes inv: "access_inv db" and ok: "fst (authenticate_machine_session db k t) = Ok x"
  shows "\<exists>s \<in> set (machine_sessions db). ms_trust_id s = lms_trust_id x \<and> ms_revoked_at_ms s = None"
proof -
  obtain x0 where "query_row (\<lambda>s. ms_token_id s = k \<and> ms_revoked_at_ms s = None \<and> ms_expires_at_ms s > int t)
      machine_session (machine_sessions db) = Ok x0" and x: "lms_trust_id x = lms_trust_id x0"
    using ok by (cases "authenticate_machine_session db k t")
      (auto simp: authenticate_machine_session_def outcome_iffs result_simps split: if_split_asm)
  from query_row_Ok_D [OF this(1)] show ?thesis by (auto simp: machine_session_Ok_iff x)
qed

text \<open>C16. Revoking a CI trust is final and reaches everything derived from it. After any further
  commands no token of a session of the trust authenticates, no session of the trust authenticates,
  and no exchange mints a new session under it.\<close>

theorem trust_revocation_final:
  assumes inv: "access_inv db" and run: "revoke_ci_trust db uid w t ev = (Ok b, db')"
    and later: "db2 = run_commands access_exec cs db'"
  shows "(\<forall>s \<in> set (machine_sessions db2). \<forall>r \<in> set (api_tokens db2). ms_trust_id s = uid \<longrightarrow> at_id r = ms_token_id s \<longrightarrow>
      \<not> is_ok (fst (authenticate_api_token db2 (at_secret_hash r) now)))
    \<and> (\<forall>k x. fst (authenticate_machine_session db2 k now) = Ok x \<longrightarrow> lms_trust_id x \<noteq> uid)
    \<and> (\<forall>n ev2 y. fst (mint_machine_session db2 n ev2) = Ok (Minted y) \<longrightarrow> lms_trust_id y \<noteq> uid)"
proof -
  have inv1: "access_inv db'" by (rule revoke_ci_trust_inv [OF inv run])
  have inv2: "access_inv db2" unfolding later by (rule access.inv_run [OF inv1])
  obtain q where q: "q \<in> set (ci_trusts db2)" "tr_id q = uid" "tr_revoked_at_ms q \<noteq> None"
    using access_run_grow [OF inv1, of cs] revoke_ci_trust_revokes [OF run]
    unfolding credentials_grow_def trusts_grow_def later by metis
  note dead = revoked_trust_sessions [OF inv2 q(1,3)]
  have "\<not> is_ok (fst (authenticate_api_token db2 (at_secret_hash r) now))"
    if "s \<in> set (machine_sessions db2)" "r \<in> set (api_tokens db2)" "ms_trust_id s = uid" "at_id r = ms_token_id s" for s r
    using dead(2) [OF that(1) _ that(2,4)] that revoked_token_refused [OF inv2 that(2)] q(2) by simp
  moreover have "lms_trust_id x \<noteq> uid" if "fst (authenticate_machine_session db2 k now) = Ok x" for k x
    using machine_authenticates_under [OF inv2 that] dead(1) q(2) by metis
  moreover have "lms_trust_id y \<noteq> uid" if "fst (mint_machine_session db2 n ev2) = Ok (Minted y)" for n ev2 y
    using minted_under [OF inv2 q(1,3)] that q(2) by metis
  ultimately show ?thesis by blast
qed

theorem trust_revocation_final_witness:
  "ms_trust_id (hd (machine_sessions sample_minted)) = ''c1''
   \<and> is_ok (fst (authenticate_api_token sample_minted (sample_hash CHR ''2'') 70))
   \<and> \<not> is_ok (fst (authenticate_api_token (snd (revoke_ci_trust sample_minted ''c1'' ''w'' 50
     (sample_ci_event ''ci.trust_revoked'' ''ci_trust'' ''c1'' 50))) (sample_hash CHR ''2'') 70))"
proof -
  let ?run = "revoke_ci_trust sample_minted ''c1'' ''w'' 50 (sample_ci_event ''ci.trust_revoked'' ''ci_trust'' ''c1'' 50)"
  have "fst ?run = Ok True" by code_simp
  then have run: "?run = (Ok True, snd ?run)" by (simp add: prod_eq_iff)
  let ?s = "hd (machine_sessions (snd ?run))" and ?r = "api_tokens (snd ?run) ! 1"
  have rows: "?s \<in> set (machine_sessions (snd ?run))" "?r \<in> set (api_tokens (snd ?run))" "ms_trust_id ?s = ''c1''"
    "at_id ?r = ms_token_id ?s" "at_secret_hash ?r = sample_hash CHR ''2''" by code_simp+
  have "ms_trust_id (hd (machine_sessions sample_minted)) = ''c1''"
    "is_ok (fst (authenticate_api_token sample_minted (sample_hash CHR ''2'') 70))" by code_simp+
  moreover have "\<not> is_ok (fst (authenticate_api_token (snd ?run) (at_secret_hash ?r) 70))"
    using trust_revocation_final [OF sample_minted_inv run, where cs = "[]" and now = 70] rows(1-4) by auto
  ultimately show ?thesis by (simp only: rows(5) simp_thms)
qed

end
