(* ===== verification/Machine_Sessions.thy ===== *)
theory Machine_Sessions
  imports Access_Properties
begin

text \<open>
  What a CI exchange and the bootstrap secret can give: a minted session stays within the trust that
  granted it and dies with the assertion, a trust mints a bounded number of sessions per minute, and
  the bootstrap secret is exchanged at most once.
\<close>

section \<open>Minted sessions\<close>

lemma minted_authenticates:
  assumes inv: "access_inv db" and ok: "mint_machine_session db n ev = (Ok (Minted y), db')" and t: "t \<le> i64_max"
  shows "is_ok (fst (authenticate_api_token db' (nms_secret_hash n) t))
    \<longleftrightarrow> nms_now_ms n \<le> t \<and> t < goi_expires_at_ms (nms_identity n)"
proof -
  have inv': "access_inv db'" by (rule mint_machine_session_inv [OF inv ok])
  obtain sql_times where "validate_exchange n = Ok sql_times" using ok by (auto simp: mint_machine_session_def outcome_iffs)
  then have h: "validate_hash (nms_secret_hash n) = Ok ()" by (rule validate_exchange_D)
  from ok show ?thesis
  proof (cases rule: mint_D)
    case (minted r trust pid m)
    let ?tok = "token_row (machine_token n (machine_record n trust pid))"
    have fields: "at_secret_hash ?tok = nms_secret_hash n" "at_revoked ?tok = 0" "at_created_at_ms ?tok = int (nms_now_ms n)"
      "at_expires_at_ms ?tok = int (goi_expires_at_ms (nms_identity n))"
      by (simp_all add: token_row_def machine_token_def machine_record_def)
    have tok: "?tok \<in> set (api_tokens db')" by (simp add: minted(12))
    have hashes: "distinct (map at_secret_hash (api_tokens db'))" using access_invD(2) [OF inv'] by (simp add: tokens_ok_def)
    have "r' = ?tok" if "r' \<in> set (api_tokens db')" "at_secret_hash r' = nms_secret_hash n" for r'
      using distinct_map_eq [OF hashes that(1) tok] that(2) fields(1) by simp
    then have "(\<exists>r' \<in> set (api_tokens db'). active_token (nms_secret_hash n) (int t) r')
        \<longleftrightarrow> active_token (nms_secret_hash n) (int t) ?tok"
      using tok by (auto simp: active_token_def)
    then show ?thesis unfolding authentication_iff [OF inv' h t] by (simp add: active_token_def fields)
  qed blast
qed

lemma scoped_project_D:
  assumes "scoped_project db trust n = Ok (Some pid)"
  shows "\<exists>p \<in> set (projects (metadata db)). pj_id p = pid \<and> pj_workspace_id p = lct_workspace_id trust
    \<and> pj_slug p = nms_project n \<and> (lct_project_id trust = None \<or> lct_project_id trust = Some pid)"
proof -
  obtain q where q: "find (\<lambda>x. pj_workspace_id x = lct_workspace_id trust \<and> pj_slug x = nms_project n
        \<and> (case lct_project_id trust of None \<Rightarrow> True | Some p \<Rightarrow> pj_id x = p)) (projects (metadata db)) = Some q" "pj_id q = pid"
    using assms by (auto simp: scoped_project_def result_simps split: if_split_asm)
  from find_Some_iff_first [OF q(1)] q(2) show ?thesis by (intro bexI [of _ q]) (auto split: option.split_asm)
qed

text \<open>The trust row \<open>r\<close> covers what the session \<open>y\<close> was asked for by \<open>n\<close>.\<close>

definition covers :: "access_database \<Rightarrow> ci_trust_row \<Rightarrow> NewMachineSession \<Rightarrow> LocalMachineSessionRecord \<Rightarrow> bool" where
  "covers db r n y \<longleftrightarrow>
     tr_id r = lms_trust_id y \<and> tr_revoked_at_ms r = None
     \<and> tr_repository r = goi_repository (nms_identity n) \<and> tr_audience r = goi_audience (nms_identity n)
     \<and> tr_workflow_path r = goi_workflow_path (nms_identity n) \<and> tr_workflow_ref r = goi_workflow_ref (nms_identity n)
     \<and> tr_environment r = goi_environment (nms_identity n) \<and> wild (tr_allowed_ref_glob r) (goi_git_ref (nms_identity n))
     \<and> (\<exists>as. ci_actions (tr_allowed_actions r) = Ok as \<and> set (lms_actions y) \<subseteq> set as)
     \<and> (\<exists>p \<in> set (projects (metadata db)). pj_id p = lms_project_id y \<and> pj_workspace_id p = tr_workspace_id r
          \<and> pj_slug p = nms_project n \<and> (tr_project_id r = None \<or> tr_project_id r = Some (lms_project_id y)))"

text \<open>C17. A minted machine session is confined to its trust. An exchange that mints a session found a
  trust that is not revoked and whose repository, audience, workflow, environment and ref glob all
  match the identity; the session's actions are allowed by the trust and its project is in the
  trust's scope; it lives at most fifteen minutes, and its secret authenticates from the moment of
  the exchange until the assertion expires and at no other time.\<close>

theorem minted_session_confined:
  assumes inv: "access_inv db" and ok: "mint_machine_session db n ev = (Ok (Minted y), db')"
  shows "(\<exists>r \<in> set (ci_trusts db). covers db r n y)
    \<and> lms_created_at_ms y < lms_expires_at_ms y \<and> lms_expires_at_ms y \<le> lms_created_at_ms y + 15 * 60 * 1000
    \<and> (\<forall>t \<le> i64_max. is_ok (fst (authenticate_api_token db' (nms_secret_hash n) t))
         \<longleftrightarrow> lms_created_at_ms y \<le> t \<and> t < lms_expires_at_ms y)"
proof -
  obtain sql_times where v: "validate_exchange n = Ok sql_times" using ok by (auto simp: mint_machine_session_def outcome_iffs)
  from ok show ?thesis
  proof (cases rule: mint_D)
    case (minted r trust pid m)
    have y: "y = machine_record n trust pid" using minted(1) by simp
    have "covers db r n y"
      using minted(3-6) scoped_project_D [OF minted(7)]
      by (auto simp: covers_def y machine_record_def ci_trust_Ok_iff claims_match_def ref_matches_wild list_all_iff)
    moreover have "lms_created_at_ms y = nms_now_ms n" "lms_expires_at_ms y = goi_expires_at_ms (nms_identity n)"
      by (simp_all add: y machine_record_def)
    ultimately show ?thesis
      using minted(2) validate_exchange_D(3,4) [OF v] minted_authenticates [OF inv ok]
      by (auto simp: MACHINE_SESSION_TTL_MS_def)
  qed blast
qed

theorem minted_session_confined_witness:
  "wild ''refs/heads/rel*'' ''refs/heads/rel-1''
   \<and> is_ok (fst (authenticate_api_token sample_minted (sample_hash CHR ''2'') 30))
   \<and> \<not> is_ok (fst (authenticate_api_token sample_minted (sample_hash CHR ''2'') 200))"
proof -
  let ?ev = "sample_ci_event ''ci.token_minted'' ''project'' ''p'' 30"
  obtain y where run: "mint_machine_session sample_trusted sample_exchange ?ev = (Ok (Minted y), sample_minted)"
    and y: "lms_created_at_ms y = 30" "lms_expires_at_ms y = 200" "lms_trust_id y = ''c1''"
  proof -
    let ?y = "machine_record sample_exchange sample_trust ''p''"
    have "fst (mint_machine_session sample_trusted sample_exchange ?ev) = Ok (Minted ?y)" by code_simp
    moreover have "snd (mint_machine_session sample_trusted sample_exchange ?ev) = sample_minted"
      by (simp add: sample_minted_def sample_mint_def outcome_of_def split: prod.split)
    ultimately have "mint_machine_session sample_trusted sample_exchange ?ev = (Ok (Minted ?y), sample_minted)"
      by (simp add: prod_eq_iff)
    then show thesis
      by (rule that) (simp_all add: machine_record_def sample_exchange_def sample_identity_def sample_trust_def)
  qed
  have fields: "nms_secret_hash sample_exchange = sample_hash CHR ''2''"
    "goi_git_ref (nms_identity sample_exchange) = ''refs/heads/rel-1''"
    by (simp_all add: sample_exchange_def sample_identity_def)
  have glob: "\<forall>r \<in> set (ci_trusts sample_trusted). tr_allowed_ref_glob r = ''refs/heads/rel*''" by code_simp
  have bound: "30 \<le> i64_max" "200 \<le> i64_max" by (simp_all add: i64_max_def)
  note confined = minted_session_confined [OF sample_trusted_inv run]
  have "wild ''refs/heads/rel*'' ''refs/heads/rel-1''"
    using confined glob by (auto simp: covers_def fields)
  then show ?thesis using confined bound by (auto simp: y fields)
qed

section \<open>The exchange rate\<close>

definition session_times :: "access_database \<Rightarrow> (string \<times> int) list" where
  "session_times db = map (\<lambda>s. (ms_trust_id s, ms_created_at_ms s)) (machine_sessions db)"

lemma touch_machine_times: "touch_machine db k now = Ok db' \<Longrightarrow> session_times db' = session_times db"
  by (auto simp: touch_machine_def result_simps session_times_def dest!: update_rows_D(1))

lemma validate_and_touch_times: "validate_and_touch db k t now = Ok db' \<Longrightarrow> session_times db' = session_times db"
  by (auto simp: validate_and_touch_def result_simps touch_machine_times split: option.split_asm if_split_asm)

text \<open>Only a mint adds a session, and only when its trust is below the limit.\<close>

definition mint_step :: "access_database \<Rightarrow> access_database \<Rightarrow> bool" where
  "mint_step db db' \<longleftrightarrow> session_times db' = session_times db
     \<or> (\<exists>c t. session_times db' = session_times db @ [(c, t)]
          \<and> length (filter (\<lambda>(d, u). d = c \<and> u > t - 60000) (session_times db)) < 20)"

lemma rate_retry_None:
  "rate_retry db c t now = None \<longleftrightarrow> length (filter (\<lambda>(d, u). d = c \<and> u > now - 60000) (session_times db)) < 20"
  by (simp add: rate_retry_def recent_sessions_def Let_def EXCHANGE_RATE_LIMIT_def EXCHANGE_RATE_WINDOW_MS_def
      session_times_def filter_map comp_def not_le)

lemma access_op_times:
  "install_bootstrap db h = (Ok b, db') \<Longrightarrow> mint_step db db'"
  "exchange_bootstrap db h tok ses = (Ok u, db') \<Longrightarrow> mint_step db db'"
  "revoke_cli_session db uid w t ev = (Ok u, db') \<Longrightarrow> mint_step db db'"
  "create_api_token db tok ev = (Ok u, db') \<Longrightarrow> mint_step db db'"
  "authenticate_api_token db h t = (Ok x, db') \<Longrightarrow> mint_step db db'"
  "revoke_api_token db uid t ev = (Ok u, db') \<Longrightarrow> mint_step db db'"
  "create_ci_trust db r ev = (Ok u, db') \<Longrightarrow> mint_step db db'"
  "revoke_ci_trust db uid w t ev = (Ok b, db') \<Longrightarrow> mint_step db db'"
  "mint_machine_session db n ev = (Ok y, db') \<Longrightarrow> mint_step db db'"
  "authenticate_machine_session db k t = (Ok z, db') \<Longrightarrow> mint_step db db'"
proof -
  show "install_bootstrap db h = (Ok b, db') \<Longrightarrow> mint_step db db'"
    by (auto simp: install_bootstrap_def outcome_iffs mint_step_def session_times_def split: option.split_asm)
  show "exchange_bootstrap db h tok ses = (Ok u, db') \<Longrightarrow> mint_step db db'"
    by (erule exchange_bootstrap_D) (simp add: mint_step_def session_times_def)
  show "revoke_cli_session db uid w t ev = (Ok u, db') \<Longrightarrow> mint_step db db'"
    by (erule revoke_cli_session_D) (simp add: mint_step_def session_times_def)
  show "create_api_token db tok ev = (Ok u, db') \<Longrightarrow> mint_step db db'"
    by (auto simp: create_api_token_def outcome_iffs result_simps mint_step_def session_times_def
        dest!: insert_token_D(1) access_audit_D)
  show "authenticate_api_token db h t = (Ok x, db') \<Longrightarrow> mint_step db db'"
    by (erule authenticate_api_token_D)
      (drule validate_and_touch_times, simp add: mint_step_def session_times_def)
  show "revoke_api_token db uid t ev = (Ok u, db') \<Longrightarrow> mint_step db db'"
    by (erule revoke_api_token_D) (simp add: mint_step_def session_times_def)
  show "create_ci_trust db r ev = (Ok u, db') \<Longrightarrow> mint_step db db'"
    by (auto simp: create_ci_trust_def insert_trust_def Let_def outcome_iffs result_simps mint_step_def session_times_def
        dest!: access_audit_D)
  show "revoke_ci_trust db uid w t ev = (Ok b, db') \<Longrightarrow> mint_step db db'"
  proof (erule revoke_ci_trust_D)
    fix n3 sessions trusts tokens m
    assume "update_rows (\<lambda>s. ms_trust_id s = uid \<and> ms_revoked_at_ms s = None) (\<lambda>s. s\<lparr>ms_revoked_at_ms := Some (int t)\<rparr>)
        machine_session_check (machine_sessions db) = Ok (n3, sessions)"
      and "db' = db\<lparr>ci_trusts := trusts, api_tokens := tokens, machine_sessions := sessions, metadata := m\<rparr>"
    then show "mint_step db db'" by (auto simp: mint_step_def session_times_def dest!: update_rows_D(1))
  qed (simp add: mint_step_def)
  show "mint_machine_session db n ev = (Ok y, db') \<Longrightarrow> mint_step db db'"
  proof (erule mint_D)
    fix r trust pid m
    assume rate: "rate_retry db (lct_id trust) (nms_now_ms n) (int (nms_now_ms n)) = None"
      and db': "db' = db\<lparr>api_tokens := api_tokens db @ [token_row (machine_token n (machine_record n trust pid))],
        machine_sessions := machine_sessions db @ [machine_row n trust pid], metadata := m\<rparr>"
    have "session_times db' = session_times db @ [(lct_id trust, int (nms_now_ms n))]"
      by (simp add: db' session_times_def machine_row_def)
    then show "mint_step db db'" using rate unfolding mint_step_def rate_retry_None by blast
  qed (simp add: mint_step_def)
  show "authenticate_machine_session db k t = (Ok z, db') \<Longrightarrow> mint_step db db'"
    by (auto simp: authenticate_machine_session_def outcome_iffs result_simps mint_step_def split: if_split_asm
        dest!: touch_machine_times)
qed

lemma access_exec_step:
  assumes "\<And>db'. mint_step db db' \<Longrightarrow> P db'" and "P db"
  shows "P (snd (access_exec c db))"
proof -
  obtain r db' where run: "access_exec c db = (r, db')" by (rule prod.exhaust)
  show ?thesis
  proof (cases "is_ok r")
    case True
    with run have "mint_step db db'" by (cases c) (auto dest!: outcome_of_Ok dest: access_op_times)
    then show ?thesis using assms(1) run by simp
  next
    case False
    with run have "db' = db" by (cases c) (auto dest!: outcome_of_Err dest: access_failed_unchanged)
    then show ?thesis using assms(2) run by simp
  qed
qed

definition rate_ok :: "access_database \<Rightarrow> bool" where
  "rate_ok db \<longleftrightarrow> (\<forall>c T. length (filter (\<lambda>(d, u). d = c \<and> T < u \<and> u \<le> T + 60000) (session_times db)) \<le> 20)"

lemma mint_step_rate: "mint_step db db' \<Longrightarrow> rate_ok db \<Longrightarrow> rate_ok db'"
  unfolding mint_step_def
proof (elim disjE exE conjE)
  fix c t
  assume ok: "rate_ok db" and eq: "session_times db' = session_times db @ [(c, t)]"
    and below: "length (filter (\<lambda>(d, u). d = c \<and> u > t - 60000) (session_times db)) < 20"
  have "length (filter (\<lambda>(d, u). d = c' \<and> T < u \<and> u \<le> T + 60000) (session_times db')) \<le> 20" for c' T
  proof (cases "c' = c \<and> T < t \<and> t \<le> T + 60000")
    case True
    have "length (filter (\<lambda>(d, u). d = c' \<and> T < u \<and> u \<le> T + 60000) (session_times db))
        \<le> length (filter (\<lambda>(d, u). d = c \<and> u > t - 60000) (session_times db))"
      by (rule length_filter_mono) (use True in auto)
    with below True show ?thesis by (simp add: eq)
  next
    case False
    then show ?thesis using ok by (auto simp: eq rate_ok_def)
  qed
  then show "rate_ok db'" by (simp add: rate_ok_def)
qed (simp add: rate_ok_def)

lemma rate_ok_run: "rate_ok db \<Longrightarrow> rate_ok (run_commands access_exec cs db)"
proof (induction cs arbitrary: db)
  case (Cons c cs)
  have "rate_ok (snd (access_exec c db))" by (rule access_exec_step) (use Cons.prems mint_step_rate in blast)+
  then show ?case using Cons.IH by simp
qed simp

text \<open>The exchange rate of a trust is bounded: in a store that starts without machine sessions,
  whatever commands follow, in whatever order their clocks run, at most twenty sessions of one trust
  are created in any interval of sixty seconds.\<close>

theorem exchange_rate_bounded:
  assumes "machine_sessions db = []"
  shows "length (filter (\<lambda>s. ms_trust_id s = c \<and> T < ms_created_at_ms s \<and> ms_created_at_ms s \<le> T + 60000)
    (machine_sessions (run_commands access_exec cs db))) \<le> 20"
proof -
  have "rate_ok db" using assms by (simp add: rate_ok_def session_times_def)
  from rate_ok_run [OF this, of cs] show ?thesis
    by (simp add: rate_ok_def session_times_def filter_map comp_def)
qed

theorem exchange_rate_bounded_witness:
  "length (filter (\<lambda>s. ms_trust_id s = ''c1'' \<and> 0 < ms_created_at_ms s \<and> ms_created_at_ms s \<le> 0 + 60000)
     (machine_sessions (run_commands access_exec [sample_mint] sample_trusted))) = 1
   \<and> length (filter (\<lambda>s. ms_trust_id s = ''c1'' \<and> 0 < ms_created_at_ms s \<and> ms_created_at_ms s \<le> 0 + 60000)
     (machine_sessions (run_commands access_exec [sample_mint] sample_trusted))) \<le> 20"
proof -
  have "machine_sessions sample_trusted = []" by code_simp
  moreover have "length (filter (\<lambda>s. ms_trust_id s = ''c1'' \<and> 0 < ms_created_at_ms s \<and> ms_created_at_ms s \<le> 0 + 60000)
     (machine_sessions sample_minted)) = 1" by code_simp
  ultimately show ?thesis using exchange_rate_bounded [of sample_trusted "''c1''" 0 "[sample_mint]"] by (simp add: sample_minted_def)
qed

section \<open>The bootstrap secret\<close>

fun exchanges_bootstrap :: "access_command \<Rightarrow> bool" where
  "exchanges_bootstrap (ExchangeBootstrap h t s) \<longleftrightarrow> True"
| "exchanges_bootstrap c \<longleftrightarrow> False"

definition bootstrap_spent :: "access_database \<Rightarrow> bool" where
  "bootstrap_spent db \<longleftrightarrow> (\<exists>r. bootstrap_authority db = Some r \<and> ba_consumed r \<noteq> 0)"

lemma authority_kept:
  "revoke_cli_session db uid w t ev = (Ok u, db') \<Longrightarrow> bootstrap_authority db' = bootstrap_authority db"
  "create_api_token db tok ev = (Ok u, db') \<Longrightarrow> bootstrap_authority db' = bootstrap_authority db"
  "authenticate_api_token db h t = (Ok x, db') \<Longrightarrow> bootstrap_authority db' = bootstrap_authority db"
  "revoke_api_token db uid t ev = (Ok u, db') \<Longrightarrow> bootstrap_authority db' = bootstrap_authority db"
  "create_ci_trust db r ev = (Ok u, db') \<Longrightarrow> bootstrap_authority db' = bootstrap_authority db"
  "revoke_ci_trust db uid w t ev = (Ok b, db') \<Longrightarrow> bootstrap_authority db' = bootstrap_authority db"
  "mint_machine_session db n ev = (Ok y, db') \<Longrightarrow> bootstrap_authority db' = bootstrap_authority db"
  "authenticate_machine_session db k t = (Ok z, db') \<Longrightarrow> bootstrap_authority db' = bootstrap_authority db"
proof -
  have touch: "touch_machine d k now = Ok d' \<Longrightarrow> bootstrap_authority d' = bootstrap_authority d" for d k now d'
    by (auto simp: touch_machine_def result_simps)
  have validate: "validate_and_touch d k t now = Ok d' \<Longrightarrow> bootstrap_authority d' = bootstrap_authority d" for d k t now d'
    by (auto simp: validate_and_touch_def result_simps touch split: option.split_asm if_split_asm)
  show "revoke_cli_session db uid w t ev = (Ok u, db') \<Longrightarrow> bootstrap_authority db' = bootstrap_authority db"
    by (erule revoke_cli_session_D) simp
  show "create_api_token db tok ev = (Ok u, db') \<Longrightarrow> bootstrap_authority db' = bootstrap_authority db"
    by (auto simp: create_api_token_def outcome_iffs result_simps dest!: insert_token_D(1) access_audit_D)
  show "authenticate_api_token db h t = (Ok x, db') \<Longrightarrow> bootstrap_authority db' = bootstrap_authority db"
    by (erule authenticate_api_token_D) (drule validate, simp)
  show "revoke_api_token db uid t ev = (Ok u, db') \<Longrightarrow> bootstrap_authority db' = bootstrap_authority db"
    by (erule revoke_api_token_D) simp
  show "create_ci_trust db r ev = (Ok u, db') \<Longrightarrow> bootstrap_authority db' = bootstrap_authority db"
    by (auto simp: create_ci_trust_def insert_trust_def Let_def outcome_iffs result_simps dest!: access_audit_D)
  show "revoke_ci_trust db uid w t ev = (Ok b, db') \<Longrightarrow> bootstrap_authority db' = bootstrap_authority db"
    by (erule revoke_ci_trust_D) simp_all
  show "mint_machine_session db n ev = (Ok y, db') \<Longrightarrow> bootstrap_authority db' = bootstrap_authority db"
    by (erule mint_D) simp_all
  show "authenticate_machine_session db k t = (Ok z, db') \<Longrightarrow> bootstrap_authority db' = bootstrap_authority db"
    by (auto simp: authenticate_machine_session_def outcome_iffs result_simps touch split: if_split_asm)
qed

lemma exchange_spends:
  assumes "access_exec c db = (r, db')" and "is_ok r" and "exchanges_bootstrap c"
  shows "\<not> bootstrap_spent db" and "bootstrap_spent db'"
proof -
  obtain h t s where c: "c = ExchangeBootstrap h t s" using assms(3) by (cases c) auto
  from assms have ok: "exchange_bootstrap db h t s = (Ok (), db')" by (auto simp: c dest!: outcome_of_Ok)
  from ok show "\<not> bootstrap_spent db" by (rule exchange_bootstrap_D) (simp add: bootstrap_spent_def)
  from ok show "bootstrap_spent db'" by (rule exchange_bootstrap_D) (simp add: bootstrap_spent_def)
qed

lemma spent_step:
  assumes run: "access_exec c db = (r, db')" and ok: "is_ok r" and spent: "bootstrap_spent db"
  shows "bootstrap_spent db'"
proof (cases "exchanges_bootstrap c")
  case True
  then show ?thesis using exchange_spends(1) [OF run ok] spent by simp
next
  case False
  then have "bootstrap_authority db' = bootstrap_authority db"
    using run ok spent
    by (cases c)
      (auto simp: install_bootstrap_def bootstrap_spent_def outcome_iffs dest!: outcome_of_Ok dest: authority_kept)
  then show ?thesis using spent by (simp add: bootstrap_spent_def)
qed

lemma exchanges_left:
  "length (filter exchanges_bootstrap (effective_commands access_exec (\<lambda>r. \<not> is_ok r) cs db))
     \<le> (if bootstrap_spent db then 0 else 1)"
proof (induction cs arbitrary: db)
  case (Cons c cs)
  obtain r db' where run: "access_exec c db = (r, db')" by (rule prod.exhaust)
  show ?case
  proof (cases "is_ok r")
    case True
    show ?thesis
      using Cons.IH [of db'] True run exchange_spends [OF run True] spent_step [OF run True]
      by (auto split: if_split_asm)
  next
    case False
    then show ?thesis using Cons.IH [of db] run by simp
  qed
qed simp

text \<open>C28. The bootstrap secret is exchanged at most once: whatever commands a store serves, from
  whatever state, at most one bootstrap exchange among them succeeds.\<close>

theorem bootstrap_exchanged_once:
  "length (filter exchanges_bootstrap (effective_commands access_exec (\<lambda>r. \<not> is_ok r) cs db)) \<le> 1"
  using exchanges_left [of cs db] by (simp split: if_split_asm)

end
