(* ===== verification/Inbox_Capacity.thy ===== *)
theory Inbox_Capacity
  imports Inbox_Histories
begin

text \<open>
  Where an inbox loses capacity. The open uploads of an inbox never outweigh what it counts as reserved;
  an abort by an operator opens a gap between the two, and no command of the store ever closes it.
\<close>

section \<open>What is in flight\<close>

definition carried :: "database \<Rightarrow> inbox_upload_row \<Rightarrow> bool" where
  "carried db l \<longleftrightarrow> list_ex (\<lambda>r. ur_id r = iu_upload_id l \<and> open_reservation r) (upload_reservations db)"

definition flight_weight :: "database \<Rightarrow> string \<Rightarrow> (inbox_upload_row \<Rightarrow> int) \<Rightarrow> inbox_upload_row \<Rightarrow> int" where
  "flight_weight db inbox_id weight l = (if carried db l then link_weight ''reserved'' inbox_id weight l else 0)"

text \<open>The uploads of an inbox that can still complete: their link and their reservation are both open.\<close>

definition in_flight :: "database \<Rightarrow> string \<Rightarrow> (inbox_upload_row \<Rightarrow> int) \<Rightarrow> int" where
  "in_flight db inbox_id weight = sum_list (map (flight_weight db inbox_id weight) (inbox_uploads db))"

text \<open>Files and bytes, with the counter that backs each.\<close>

definition counts :: "(inbox_upload_row \<Rightarrow> int) \<Rightarrow> (inbox_row \<Rightarrow> int) \<Rightarrow> bool" where
  "counts weight counter \<longleftrightarrow>
     weight = one_file \<and> counter = ib_reserved_files \<or> weight = iu_reserved_size \<and> counter = ib_reserved_bytes"

definition gap :: "string \<Rightarrow> (inbox_upload_row \<Rightarrow> int) \<Rightarrow> (inbox_row \<Rightarrow> int) \<Rightarrow> int \<Rightarrow> database \<Rightarrow> bool" where
  "gap inbox_id weight counter n db \<longleftrightarrow>
     (\<exists>r \<in> set (inboxes db). ib_id r = inbox_id \<and> in_flight db inbox_id weight + n \<le> counter r)"

lemma counts_nonneg:
  assumes "counts w c" and "inbox_inv db" and "l \<in> set (inbox_uploads db)"
  shows "0 \<le> w l"
  using assms by (auto simp: counts_def inbox_inv_def inbox_upload_check_def)

lemma flight_nonneg:
  "counts w c \<Longrightarrow> inbox_inv db \<Longrightarrow> l \<in> set (inbox_uploads db) \<Longrightarrow> 0 \<le> flight_weight db' i w l"
  using counts_nonneg by (simp add: flight_weight_def link_weight_def)

section \<open>Sums over the links\<close>

lemma sum_fewer:
  fixes f :: "'a \<Rightarrow> int"
  assumes "\<And>k. k \<in> set ls \<Longrightarrow> P k \<Longrightarrow> f' k \<le> f k" and "\<And>k. k \<in> set ls \<Longrightarrow> 0 \<le> f k"
  shows "sum_list (map f' (filter P ls)) \<le> sum_list (map f ls)"
  using assms by (induction ls) (fastforce intro: add_mono)+

lemma sum_without:
  fixes f :: "'a \<Rightarrow> int"
  assumes "distinct ls" and "l \<in> set ls" and "\<And>k. k \<in> set ls \<Longrightarrow> k \<noteq> l \<Longrightarrow> f' (g k) \<le> f k" and "f' (g l) = 0"
  shows "sum_list (map f' (map g ls)) + f l \<le> sum_list (map f ls)"
  using assms
proof (induction ls)
  case (Cons k ls)
  show ?case
  proof (cases "k = l")
    case True
    have "sum_list (map f' (map g ls)) \<le> sum_list (map f ls)"
      unfolding map_map by (rule sum_list_mono) (use Cons.prems True in auto)
    then show ?thesis using Cons.prems(4) True by simp
  next
    case False
    then have "sum_list (map f' (map g ls)) + f l \<le> sum_list (map f ls)" using Cons by simp
    moreover have "f' (g k) \<le> f k" using Cons.prems(3) False by simp
    ultimately show ?thesis by simp
  qed
qed simp

section \<open>The gap stays\<close>

text \<open>Commands that settle uploads, or take their links away, leave less in flight.\<close>

lemma gap_fewer:
  assumes c: "counts w c" and inv: "inbox_inv db" and gap: "gap i w c n db" and same: "inboxes db' = inboxes db"
    and links: "inbox_uploads db' = filter P (inbox_uploads db)"
    and carried: "\<And>l. l \<in> set (inbox_uploads db') \<Longrightarrow> carried db' l \<Longrightarrow> carried db l"
  shows "gap i w c n db'"
proof -
  note nonneg = flight_nonneg [OF c inv]
  have "flight_weight db' i w l \<le> flight_weight db i w l" if l: "l \<in> set (inbox_uploads db)" "P l" for l
    using carried [of l] nonneg [OF l(1), of db i] l by (auto simp: flight_weight_def links)
  then have "in_flight db' i w \<le> in_flight db i w" unfolding in_flight_def links by (rule sum_fewer) (use nonneg in auto)
  then show ?thesis using gap by (force simp: gap_def same)
qed

lemma terms_kept_carried:
  assumes "terms_kept db db'" and "inbox_inv db" and l: "l \<in> set (inbox_uploads db)" and "carried db' l"
  shows "carried db l"
proof -
  obtain s where s: "s \<in> set (upload_reservations db')" "ur_id s = iu_upload_id l" "open_reservation s"
    using assms(4) by (auto simp: carried_def list_ex_iff)
  have "(iu_upload_id l, iu_reserved_size l) \<in> reservation_terms (upload_reservations db)"
    using assms(2) l by (simp add: inbox_inv_def)
  then have "ur_id s \<in> ur_id ` set (upload_reservations db)" using s(2) by (force simp: reservation_terms_def)
  then show ?thesis
    using assms(1) s unfolding terms_kept_def none_reopened_def carried_def list_ex_iff by metis
qed

lemma gap_terms:
  assumes c: "counts w c" and inv: "inbox_inv db" and gap: "gap i w c n db" and kept: "terms_kept db db'"
  shows "gap i w c n db'"
proof (rule gap_fewer [OF c inv gap, where P = "\<lambda>_. True"])
  show "inboxes db' = inboxes db" "inbox_uploads db' = filter (\<lambda>_. True) (inbox_uploads db)"
    using kept by (simp_all add: terms_kept_def inbox_tables_def)
  then show "carried db l" if "l \<in> set (inbox_uploads db')" "carried db' l" for l
    using terms_kept_carried [OF kept inv] that by simp
qed

lemma gap_finish:
  assumes c: "counts w c" and inv: "store_wide_inv db" and gap: "gap i w c n db" and ok: "finish_deletion db uid t ev = (Ok u, db')"
  shows "gap i w c n db'"
  using store_wide_invD(1) [OF inv] ok
proof (rule finish_deletion_D)
  fix operation
  assume ev: "audit_insert (finished operation (int t) db) ev = Ok db'"
  have "gap i w c n (finished operation (int t) db)"
    by (rule gap_fewer [OF c store_wide_invD(2) [OF inv] gap]) (auto simp: finished_def carried_def list_ex_iff)
  then show ?thesis by (rule gap_terms [OF c finished_inbox_inv [OF inv] _ audit_insert_terms [OF ev]])
qed (use gap in simp)

lemma gap_metadata:
  assumes c: "counts w c" and inv: "store_wide_inv db" and gap: "gap i w c n db" and run: "lifecycle_exec k db = (Ok u, db')"
  shows "gap i w c n db'"
proof (cases k)
  case (Store sc)
  with run store_exec_terms [OF lifecycle_invD(1) [OF store_wide_invD(1) [OF inv]]] have "terms_kept db db'" by simp
  then show ?thesis by (rule gap_terms [OF c store_wide_invD(2) [OF inv] gap])
next
  case (FinishDeletion uid t e)
  with run gap_finish [OF c inv gap] show ?thesis by (auto dest!: outcome_of_Ok)
qed (use run gap_terms [OF c store_wide_invD(2) [OF inv] gap] in \<open>auto dest!: outcome_of_Ok dest: lifecycle_terms\<close>)

section \<open>Commands of the inboxes\<close>

text \<open>A change of inbox rows that keeps what they count.\<close>

lemma gap_inboxes:
  assumes "gap i w c n db" and "in_flight db' i w = in_flight db i w"
    and "\<And>r. r \<in> set (inboxes db) \<Longrightarrow> \<exists>s \<in> set (inboxes db'). ib_id s = ib_id r \<and> c s = c r"
  shows "gap i w c n db'"
  using assms unfolding gap_def by metis

lemma in_flight_inboxes [simp]: "in_flight (db\<lparr>inboxes := rs\<rparr>) i w = in_flight db i w"
  by (simp add: in_flight_def flight_weight_def [abs_def] carried_def)

lemma in_flight_rates [simp]: "in_flight (db\<lparr>inbox_rate_limits := rs\<rparr>) i w = in_flight db i w"
  by (simp add: in_flight_def flight_weight_def [abs_def] carried_def)

lemma in_flight_audit: "audit_insert db ev = Ok db' \<Longrightarrow> in_flight db' i w = in_flight db i w"
  by (erule audit_insert_Ok_D) (simp add: in_flight_def flight_weight_def [abs_def] carried_def)

lemma audit_inboxes: "audit_insert db ev = Ok db' \<Longrightarrow> inboxes db' = inboxes db"
  by (erule audit_insert_Ok_D) simp

lemma gap_create:
  assumes gap: "gap i w c n db" and ok: "create_inbox db v ev = (Ok x, db')"
  shows "gap i w c n db'"
proof -
  obtain vals db1 where ins: "insert_inbox db v vals = Ok (1, db1)" and ev: "audit_insert db1 ev = Ok db'"
    using ok by (auto simp: create_inbox_def outcome_iffs result_simps split: if_split_asm)
  have "\<exists>rows. db1 = db\<lparr>inboxes := rows\<rparr> \<and> set (inboxes db) \<subseteq> set rows"
    using ins by (auto simp: insert_inbox_def Let_def result_simps split: if_split_asm)
  then obtain rows where rows: "db1 = db\<lparr>inboxes := rows\<rparr>" "set (inboxes db) \<subseteq> set rows" by blast
  show ?thesis
    by (rule gap_inboxes [OF gap]) (use rows in_flight_audit [OF ev] audit_inboxes [OF ev] in auto)
qed

lemma gap_revoke:
  assumes c: "counts w c" and gap: "gap i w c n db" and ok: "revoke_inbox db uid wid t ev = (Ok b, db')"
  shows "gap i w c n db'"
proof (cases "db' = db")
  case False
  let ?sel = "\<lambda>r. ib_id r = uid \<and> ib_workspace_id r = wid \<and> ib_status r = ''active''"
  let ?ch = "\<lambda>r. r\<lparr>ib_status := ''revoked'', ib_revoked_at_ms := Some (int t)\<rparr>"
  from ok False obtain rows where up: "update_rows ?sel ?ch inbox_check (inboxes db) = Ok (1, rows)"
    and ev: "audit_insert (db\<lparr>inboxes := rows\<rparr>) ev = Ok db'"
    unfolding revoke_inbox_def finish_audited_change_def
    by (auto simp: outcome_iffs result_simps split: if_split_asm)
  have rows: "rows = map (\<lambda>r. if ?sel r then ?ch r else r) (inboxes db)" using up by (simp add: update_rows_Ok_iff)
  have keep: "c (?ch r) = c r" for r using c by (auto simp: counts_def)
  show ?thesis
  proof (rule gap_inboxes [OF gap])
    show "in_flight db' i w = in_flight db i w" using in_flight_audit [OF ev] by simp
    fix r assume "r \<in> set (inboxes db)"
    then show "\<exists>s \<in> set (inboxes db'). ib_id s = ib_id r \<and> c s = c r"
      using audit_inboxes [OF ev] keep by (intro bexI [of _ "if ?sel r then ?ch r else r"]) (auto simp: rows)
  qed
qed (use gap in simp)

lemma gap_rate:
  assumes inv: "inbox_inv db" and gap: "gap i w c n db" and ok: "consume_inbox_rate db key window limit t = (Ok x, db')"
  shows "gap i w c n db'"
proof -
  have "rates_ok (inbox_rate_limits db)" using inv by (simp add: rates_ok_def inbox_inv_def)
  from consume_rate_refines(4) [OF this ok] obtain rs where eq: "db' = db\<lparr>inbox_rate_limits := rs\<rparr>" by blast
  show ?thesis by (rule gap_inboxes [OF gap]) (auto simp: eq)
qed

lemma gap_reserve:
  assumes c: "counts w c" and inv: "store_wide_inv db" and gap: "gap i w c n db"
    and ok: "reserve_inbox_upload db iu v = (Ok x, db')"
  shows "gap i w c n db'"
proof -
  obtain inbox db1 db2 link where "active_by_capability db (niu_capability_hash iu) (int (niu_now_ms iu)) = Ok inbox"
    and cap: "reserve_capacity db (ibr_id inbox) (nur_expected_size v) = Ok db1"
    and res: "reserve_upload db1 v = (Ok x, db2)" and insl: "insert_link db2 link = Ok db'"
    and link: "iu_upload_id link = nur_id v" "iu_inbox_id link = ibr_id inbox"
      "iu_reserved_size link = int (nur_expected_size v)" "iu_status link = ''reserved''"
    by (rule reserve_inbox_upload_D [OF ok])
  note inv2 = store_wide_invD(2) [OF inv]
  define ch where "ch = (\<lambda>r :: inbox_row. r\<lparr>ib_reserved_files := ib_reserved_files r + 1,
    ib_reserved_bytes := ib_reserved_bytes r + int (nur_expected_size v)\<rparr>)"
  have keys: "distinct (map ib_id (inboxes db))" using inv2 by (simp add: inbox_inv_def)
  obtain guard where up: "update_capacity db (ibr_id inbox) guard ch = Ok db1"
    using cap unfolding reserve_capacity_def ch_def by (auto simp: result_simps)
  obtain r where r: "r \<in> set (inboxes db)" "ib_id r = ibr_id inbox"
    and db1: "db1 = db\<lparr>inboxes := map (\<lambda>s. if s = r then ch r else s) (inboxes db)\<rparr>"
    by (rule update_capacity_D [OF keys up])
  have db': "db' = db2\<lparr>inbox_uploads := inbox_uploads db2 @ [link]\<rparr>" using insl by (auto simp: insert_link_def result_simps)
  have same: "inboxes db2 = inboxes db1" "inbox_uploads db2 = inbox_uploads db"
    using frame_inbox_tables [OF transfer_frame_reserve [OF res]] by (simp_all add: inbox_tables_def db1)
  have kept: "terms_kept db (db2\<lparr>inboxes := inboxes db\<rparr>)"
    using transfer_terms(1) [OF res] transfer_reopens(1) [OF res] frame_inbox_tables [OF transfer_frame_reserve [OF res]]
    by (simp add: terms_kept_def inbox_tables_def db1)
  have old: "flight_weight db' i w l \<le> flight_weight db i w l" if l: "l \<in> set (inbox_uploads db)" for l
  proof -
    have "carried db l" if "carried db' l"
      using terms_kept_carried [OF kept inv2 l] that by (simp add: carried_def db')
    then show ?thesis using flight_nonneg [OF c inv2 l, of db i] by (auto simp: flight_weight_def)
  qed
  have "sum_list (map (flight_weight db' i w) (inbox_uploads db)) \<le> in_flight db i w"
    unfolding in_flight_def by (rule sum_list_mono) (rule old)
  moreover have "flight_weight db' i w link \<le> (if i = ib_id r then w link else 0)"
    using c link r(2) by (auto simp: flight_weight_def link_weight_def counts_def)
  ultimately have flight: "in_flight db' i w \<le> in_flight db i w + (if i = ib_id r then w link else 0)"
    by (simp add: in_flight_def db' same)
  obtain s where s: "s \<in> set (inboxes db)" "ib_id s = i" "in_flight db i w + n \<le> c s" using gap by (auto simp: gap_def)
  define s' where "s' = (if s = r then ch r else s)"
  have "s' \<in> set (inboxes db')" using s(1) by (auto simp: db' same db1 s'_def)
  moreover have "ib_id s' = i" using s(2) by (auto simp: s'_def ch_def)
  moreover have "c s' = c s + (if i = ib_id r then w link else 0)"
  proof (cases "s = r")
    case True
    then show ?thesis using c s(2) link(3) by (auto simp: s'_def counts_def ch_def)
  next
    case False
    then have "i \<noteq> ib_id r" using distinct_map_eq [OF keys s(1) r(1)] s(2) by blast
    then show ?thesis using False by (simp add: s'_def)
  qed
  ultimately show ?thesis using s(3) flight by (force simp: gap_def)
qed

text \<open>Settling an open upload takes it out of flight and out of the reserved counters.\<close>

lemma gap_settle:
  assumes c: "counts w c" and inv: "store_wide_inv db" and gap: "gap i w c n db"
    and l: "l \<in> set (inbox_uploads db)" "iu_upload_id l = uid" "iu_status l = ''reserved''" and carried: "carried db l"
    and kept: "terms_kept db db1"
    and cap: "update_capacity db1 (iu_inbox_id l) guard (settled (iu_reserved_size l) files bytes) = Ok db2"
    and link: "transition_link db2 uid status = Ok db3" and status: "status = ''complete'' \<or> status = ''aborted''"
  shows "gap i w c n db3"
proof -
  note inv2 = store_wide_invD(2) [OF inv]
  have same: "inboxes db1 = inboxes db" "inbox_uploads db1 = inbox_uploads db"
    using kept by (simp_all add: terms_kept_def inbox_tables_def)
  have keys: "distinct (map ib_id (inboxes db1))" "distinct (map iu_upload_id (inbox_uploads db))"
    using inv2 by (simp_all add: inbox_inv_def same)
  let ?ch = "settled (iu_reserved_size l) files bytes" and ?l' = "l\<lparr>iu_status := status\<rparr>"
  obtain r where r: "r \<in> set (inboxes db)" "ib_id r = iu_inbox_id l"
    and db2: "db2 = db1\<lparr>inboxes := map (\<lambda>s. if s = r then ?ch r else s) (inboxes db)\<rparr>"
    by (rule update_capacity_D [OF keys(1) cap]) (simp add: same)
  have "inbox_upload_check l" using inv2 l(1) by (simp add: inbox_inv_def)
  then have "inbox_upload_check ?l'" using status by (auto simp: inbox_upload_check_def)
  then have db3: "db3 = db2\<lparr>inbox_uploads := map (\<lambda>k. if k = l then ?l' else k) (inbox_uploads db)\<rparr>"
    using link transition_link_eq [of db2 l uid status] keys(2) l by (simp add: db2 same)
  have old: "flight_weight db3 i w k \<le> flight_weight db i w k" if k: "k \<in> set (inbox_uploads db)" for k
  proof -
    have "carried db k" if "carried db3 k"
      using terms_kept_carried [OF kept inv2 k] that by (simp add: carried_def db3 db2)
    then show ?thesis using flight_nonneg [OF c inv2 k, of db i] by (auto simp: flight_weight_def)
  qed
  have "distinct (inbox_uploads db)" using keys(2) by (simp add: distinct_map)
  then have "sum_list (map (flight_weight db3 i w) (map (\<lambda>k. if k = l then ?l' else k) (inbox_uploads db)))
      + flight_weight db i w l \<le> in_flight db i w"
    unfolding in_flight_def by (rule sum_without [OF _ l(1)]) (use old status in \<open>auto simp: flight_weight_def link_weight_def\<close>)
  then have flight: "in_flight db3 i w + (if i = ib_id r then w l else 0) \<le> in_flight db i w"
    using l(3) carried r(2) by (auto simp: in_flight_def db3 db2 flight_weight_def link_weight_def)
  obtain s where s: "s \<in> set (inboxes db)" "ib_id s = i" "in_flight db i w + n \<le> c s" using gap by (auto simp: gap_def)
  define s' where "s' = (if s = r then ?ch r else s)"
  have "s' \<in> set (inboxes db3)" using s(1) by (auto simp: db3 db2 s'_def)
  moreover have "ib_id s' = i" using s(2) by (auto simp: s'_def settled_def)
  moreover have "c s' = c s - (if i = ib_id r then w l else 0)"
  proof (cases "s = r")
    case True
    then show ?thesis using c s(2) by (auto simp: s'_def counts_def settled_def)
  next
    case False
    then have "i \<noteq> ib_id r" using distinct_map_eq [OF keys(1), of s r] s r(1) by (auto simp: same)
    then show ?thesis using False by (simp add: s'_def)
  qed
  ultimately show ?thesis using s(3) flight by (force simp: gap_def)
qed

lemma carried_open:
  assumes "reservation_by_id db uid = Ok rec" and "urr_state rec = RsRequested \<or> urr_state rec = RsUploaded"
    and "iu_upload_id l = uid"
  shows "carried db l"
proof -
  obtain r v where "r \<in> set (upload_reservations db)" "ur_id r = uid" "upload_reservation (r, v) = Ok rec"
    by (rule reservation_by_id_D [OF assms(1)])
  then show ?thesis using assms(2,3) by (auto simp: carried_def list_ex_iff open_reservation_def upload_reservation_Ok_iff)
qed

lemma gap_complete:
  assumes c: "counts w c" and inv: "store_wide_inv db" and gap: "gap i w c n db"
    and ok: "complete_inbox_upload db h uid now ev = (Ok x, db')"
  shows "gap i w c n db'"
proof -
  obtain rec inbox_id db1 db2 db3 where rec: "inbox_reservation db h uid (int now) = Ok rec"
    and rid: "reserved_inbox_id db uid = Ok inbox_id" and com: "complete_upload db uid = (Ok x, db1)"
    and cap: "complete_capacity db1 inbox_id (urr_expected_size rec) = Ok db2"
    and link: "transition_link db2 uid ''complete'' = Ok db3" and ev: "audit_insert db3 ev = Ok db'"
    by (rule complete_inbox_upload_D [OF store_wide_transfer [OF inv] ok])
  obtain l where l: "l \<in> set (inbox_uploads db)" "iu_upload_id l = uid" "iu_status l = ''reserved''" "iu_inbox_id l = inbox_id"
    by (rule reserved_inbox_id_D [OF rid])
  have run: "transfer_exec (CompleteUpload uid) db = (Ok (), db1)" using com by (simp add: outcome_of_def)
  have size: "iu_reserved_size l = int (urr_expected_size rec)"
    using link_size [OF inv l(1)] inbox_reservation_D [OF rec] l(2) by simp
  obtain rec' where "reservation_by_id db uid = Ok rec'" "urr_state rec' = RsUploaded" by (rule complete_upload_Ok_D [OF com])
  then have carried: "carried db l" using carried_open l(2) by blast
  have cap': "update_capacity db1 (iu_inbox_id l) (\<lambda>r. ib_reserved_files r \<ge> 1 \<and> ib_reserved_bytes r \<ge> int (urr_expected_size rec))
      (settled (iu_reserved_size l) 1 (iu_reserved_size l)) = Ok db2"
    using capacity_settled(1) [OF cap] by (simp add: l(4) size)
  have "gap i w c n db3"
    by (rule gap_settle [OF c inv gap l(1-3) carried transfer_exec_terms [OF store_wide_transfer [OF inv] run] cap' link]) simp
  then show ?thesis
    by (rule gap_inboxes) (use in_flight_audit [OF ev] audit_inboxes [OF ev] in auto)
qed

lemma gap_abort:
  assumes c: "counts w c" and inv: "store_wide_inv db" and gap: "gap i w c n db"
    and ok: "abort_inbox_upload db h uid now = (Ok x, db')"
  shows "gap i w c n db'"
proof -
  obtain inbox_id db1 db2 where rec: "inbox_reservation db h uid (int now) = Ok x"
    and rid: "reserved_inbox_id db uid = Ok inbox_id" and ab: "abort_upload db uid = (Ok x, db1)"
    and cap: "release_capacity db1 inbox_id (urr_expected_size x) = Ok db2"
    and link: "transition_link db2 uid ''aborted'' = Ok db'"
    by (rule abort_inbox_upload_D [OF ok])
  obtain l where l: "l \<in> set (inbox_uploads db)" "iu_upload_id l = uid" "iu_status l = ''reserved''" "iu_inbox_id l = inbox_id"
    by (rule reserved_inbox_id_D [OF rid])
  have run: "transfer_exec (AbortUpload uid) db = (Ok (), db1)" using ab by (simp add: outcome_of_def)
  have size: "iu_reserved_size l = int (urr_expected_size x)"
    using link_size [OF inv l(1)] inbox_reservation_D [OF rec] l(2) by simp
  obtain "reservation_by_id db uid = Ok x" "urr_state x = RsRequested \<or> urr_state x = RsUploaded" by (rule abort_upload_Ok_D [OF ab])
  then have carried: "carried db l" using carried_open l(2) by blast
  have cap': "update_capacity db1 (iu_inbox_id l) (\<lambda>r. ib_reserved_files r \<ge> 1 \<and> ib_reserved_bytes r \<ge> int (urr_expected_size x))
      (settled (iu_reserved_size l) 0 0) = Ok db2"
    using capacity_settled(2) [OF cap] by (simp add: l(4) size)
  show ?thesis
    by (rule gap_settle [OF c inv gap l(1-3) carried transfer_exec_terms [OF store_wide_transfer [OF inv] run] cap' link]) simp
qed

section \<open>Histories\<close>

lemma inbox_exec_gap:
  assumes c: "counts w c" and inv: "store_wide_inv db" and gap: "gap i w c n db" and run: "inbox_exec k db = (r, db')"
  shows "gap i w c n db'"
proof (cases "is_ok r")
  case False
  then show ?thesis using guest_store.failed_unchanged [OF inv run] gap by simp
next
  case True
  then obtain u where u: "r = Ok u" by (auto simp: is_ok_iff)
  show ?thesis
  proof (cases k)
    case (Metadata lc)
    with run u gap_metadata [OF c inv gap] show ?thesis by simp
  next
    case (CreateInbox v e)
    with run u gap_create [OF gap] show ?thesis by (auto dest!: outcome_of_Ok)
  next
    case (RevokeInbox uid wid t e)
    with run u gap_revoke [OF c gap] show ?thesis by (auto dest!: outcome_of_Ok)
  next
    case (ReserveInboxUpload iu v)
    with run u gap_reserve [OF c inv gap] show ?thesis by (auto dest!: outcome_of_Ok)
  next
    case (CompleteInboxUpload h uid t e)
    with run u gap_complete [OF c inv gap] show ?thesis by (auto dest!: outcome_of_Ok)
  next
    case (AbortInboxUpload h uid t)
    with run u gap_abort [OF c inv gap] show ?thesis by (auto dest!: outcome_of_Ok)
  next
    case (ConsumeRate key window limit t)
    with run u gap_rate [OF store_wide_invD(2) [OF inv] gap] show ?thesis by (auto dest!: outcome_of_Ok)
  qed
qed

lemma inbox_run_gap:
  "counts w c \<Longrightarrow> store_wide_inv db \<Longrightarrow> gap i w c n db \<Longrightarrow> gap i w c n (run_commands inbox_exec cs db)"
proof (induction cs arbitrary: db)
  case (Cons k cs)
  obtain r db1 where e: "inbox_exec k db = (r, db1)" by force
  from Cons.IH [OF Cons.prems(1) guest_store.inv_step [OF Cons.prems(2) e] inbox_exec_gap [OF Cons.prems e]] e
  show ?case by simp
qed simp

section \<open>A slot that is not given back\<close>

lemma aborted_rows:
  assumes inv: "transfer_inv db" and run: "abort_upload db uid = (Ok x, db')"
    and s: "s \<in> set (upload_reservations db')" "ur_id s = uid"
  shows "ur_state s = ''aborted''"
proof -
  obtain rows vrows where up: "update_rows (\<lambda>r. ur_id r = uid \<and> ur_state r = reservation_state_as_str (urr_state x))
      (\<lambda>r. r\<lparr>ur_state := ''aborted'', ur_received_size := None, ur_received_checksum := None\<rparr>)
      upload_reservation_check (upload_reservations db) = Ok (1, rows)"
    and db': "db' = db\<lparr>upload_reservations := rows, object_versions := vrows,
      upload_parts := filter (\<lambda>p. up_upload_id p \<noteq> uid) (upload_parts db)\<rparr>"
    by (rule abort_upload_Ok_D [OF run])
  let ?sel = "\<lambda>r. ur_id r = uid \<and> ur_state r = reservation_state_as_str (urr_state x)"
  have keys: "distinct (map ur_id (upload_reservations db))"
    using transfer_invD(2) [OF inv] by (simp add: reservations_ok_def)
  have "length (filter ?sel (upload_reservations db)) = 1" using up by (simp add: update_rows_Ok_iff)
  then have "filter ?sel (upload_reservations db) \<noteq> []" by auto
  then obtain r where r: "r \<in> set (upload_reservations db)" "?sel r" by (auto simp: filter_empty_conv)
  obtain s0 where s0: "s0 \<in> set (upload_reservations db)" and s_eq: "s = (if ?sel s0
      then s0\<lparr>ur_state := ''aborted'', ur_received_size := None, ur_received_checksum := None\<rparr> else s0)"
    using s(1) up by (auto simp: db' update_rows_Ok_iff)
  have "ur_id s0 = uid" using s(2) s_eq by (simp split: if_split_asm)
  then have "s0 = r" using distinct_map_eq [OF keys s0 r(1)] r(2) by simp
  with s_eq r(2) show ?thesis by simp
qed

lemma stranded_immediately:
  assumes inv: "store_wide_inv db" and l: "l \<in> set (inbox_uploads db)" "iu_upload_id l = uid" "iu_status l = ''reserved''"
    and run: "abort_upload db uid = (Ok x, db')"
  shows "inboxes db' = inboxes db \<and> l \<in> set (inbox_uploads db')
    \<and> (\<forall>h t ev. \<not> is_ok (fst (complete_inbox_upload db' h uid t ev)))
    \<and> (\<forall>h t. \<not> is_ok (fst (abort_inbox_upload db' h uid t)))"
proof -
  have exec: "transfer_exec (AbortUpload uid) db = (Ok (), db')" using run by (simp add: outcome_of_def)
  note step = transfer_step_store_wide [OF inv exec]
  note aborted = aborted_rows [OF store_wide_transfer [OF inv] run]
  have state: "urr_state rec = RsAborted" if found: "reservation_by_id db' uid = Ok rec" for rec
  proof -
    obtain r v where r: "r \<in> set (upload_reservations db')" "ur_id r = uid" "upload_reservation (r, v) = Ok rec"
      by (rule reservation_by_id_D [OF found])
    then show ?thesis using aborted [OF r(1,2)] by (cases "urr_state rec") (auto simp: upload_reservation_Ok_iff)
  qed
  have "\<not> is_ok (fst (complete_inbox_upload db' h uid t ev))" for h t ev
  proof
    assume "is_ok (fst (complete_inbox_upload db' h uid t ev))"
    then obtain y db2 where ok: "complete_inbox_upload db' h uid t ev = (Ok y, db2)" by (auto simp: is_ok_iff prod_eq_iff)
    obtain rec inbox_id db3 where "complete_upload db' uid = (Ok y, db3)"
      by (rule complete_inbox_upload_D [OF store_wide_transfer [OF step(1)] ok])
    then obtain rec where "reservation_by_id db' uid = Ok rec" "urr_state rec = RsUploaded" by (rule complete_upload_Ok_D)
    then show False using state by simp
  qed
  moreover have "\<not> is_ok (fst (abort_inbox_upload db' h uid t))" for h t
  proof
    assume "is_ok (fst (abort_inbox_upload db' h uid t))"
    then obtain y db2 where ok: "abort_inbox_upload db' h uid t = (Ok y, db2)" by (auto simp: is_ok_iff prod_eq_iff)
    obtain db3 where "abort_upload db' uid = (Ok y, db3)" by (rule abort_inbox_upload_D [OF ok])
    then obtain "reservation_by_id db' uid = Ok y" "urr_state y = RsRequested \<or> urr_state y = RsUploaded"
      by (rule abort_upload_Ok_D)
    then show False using state by auto
  qed
  ultimately show ?thesis using step l(1) by simp
qed

lemma abort_opens_gap:
  assumes c: "counts w c" and inv: "store_wide_inv db"
    and l: "l \<in> set (inbox_uploads db)" "iu_upload_id l = uid" "iu_status l = ''reserved''"
    and run: "abort_upload db uid = (Ok x, db')"
  shows "gap (iu_inbox_id l) w c (w l) db'"
proof -
  have "transfer_exec (AbortUpload uid) db = (Ok (), db')" using run by (simp add: outcome_of_def)
  note step = transfer_step_store_wide [OF inv this]
  note inv2 = store_wide_invD(2) [OF step(1)]
  have "\<not> carried db' l"
    using aborted_rows [OF store_wide_transfer [OF inv] run] l(2)
    by (auto simp: carried_def list_ex_iff open_reservation_def)
  moreover have "distinct (inbox_uploads db)" using inv2 by (simp add: inbox_inv_def step(3) distinct_map)
  ultimately have "sum_list (map (flight_weight db' (iu_inbox_id l) w) (map (\<lambda>k. k) (inbox_uploads db)))
      + link_weight ''reserved'' (iu_inbox_id l) w l \<le> sum_list (map (link_weight ''reserved'' (iu_inbox_id l) w) (inbox_uploads db))"
    using counts_nonneg [OF c inv2] by (intro sum_without l(1)) (auto simp: flight_weight_def link_weight_def step(3))
  then have flight: "in_flight db' (iu_inbox_id l) w + w l \<le> link_total ''reserved'' (iu_inbox_id l) w (inbox_uploads db')"
    using l(3) by (simp add: in_flight_def link_total_def step(3) link_weight_def)
  obtain r where r: "r \<in> set (inboxes db')" "ib_id r = iu_inbox_id l" "backed (inbox_uploads db') r"
    using inv2 l(1) by (auto simp: inbox_inv_def step(3))
  have "link_total ''reserved'' (iu_inbox_id l) w (inbox_uploads db') \<le> c r"
    using c r(2,3) unfolding counts_def backed_def by (elim disjE conjE) simp_all
  with flight r(1,2) show ?thesis unfolding gap_def by (intro bexI [of _ r]) simp_all
qed

text \<open>C31. An operator who aborts a guest upload strands its slot, for good. The transfer service settles
  the reservation, but the inbox keeps counting the file and its bytes as reserved, the link stays open,
  and neither a completion nor an abort through the inbox succeeds for it. And after every history of the
  whole store that may follow, the inbox still counts at least one file, and the bytes of that upload,
  more than the uploads that can still complete: nothing gives the slot back.\<close>

theorem operator_abort_strands_slot:
  assumes inv: "store_wide_inv db" and l: "l \<in> set (inbox_uploads db)" "iu_upload_id l = uid" "iu_status l = ''reserved''"
    and run: "abort_upload db uid = (Ok x, db')"
  shows "(inboxes db' = inboxes db \<and> l \<in> set (inbox_uploads db')
      \<and> (\<forall>h t ev. \<not> is_ok (fst (complete_inbox_upload db' h uid t ev)))
      \<and> (\<forall>h t. \<not> is_ok (fst (abort_inbox_upload db' h uid t))))
    \<and> (\<forall>later. \<exists>r \<in> set (inboxes (run_commands inbox_exec later db')). ib_id r = iu_inbox_id l
      \<and> in_flight (run_commands inbox_exec later db') (ib_id r) one_file + 1 \<le> ib_reserved_files r
      \<and> in_flight (run_commands inbox_exec later db') (ib_id r) iu_reserved_size + iu_reserved_size l \<le> ib_reserved_bytes r)"
proof (intro conjI allI)
  fix later
  let ?db = "run_commands inbox_exec later db'"
  have inv': "store_wide_inv db'"
    using transfer_step_store_wide(1) [OF inv, of "AbortUpload uid" "Ok ()" db'] run by (simp add: outcome_of_def)
  have kinds: "counts one_file ib_reserved_files" "counts iu_reserved_size ib_reserved_bytes" by (simp_all add: counts_def)
  obtain r where r: "r \<in> set (inboxes ?db)" "ib_id r = iu_inbox_id l"
      "in_flight ?db (iu_inbox_id l) one_file + 1 \<le> ib_reserved_files r"
    using inbox_run_gap [OF kinds(1) inv' abort_opens_gap [OF kinds(1) inv l run]] unfolding gap_def by blast
  obtain s where s: "s \<in> set (inboxes ?db)" "ib_id s = iu_inbox_id l"
      "in_flight ?db (iu_inbox_id l) iu_reserved_size + iu_reserved_size l \<le> ib_reserved_bytes s"
    using inbox_run_gap [OF kinds(2) inv' abort_opens_gap [OF kinds(2) inv l run]] unfolding gap_def by blast
  have "distinct (map ib_id (inboxes ?db))"
    using store_wide_invD(2) [OF guest_store.inv_run [OF inv']] by (simp add: inbox_inv_def)
  from distinct_map_eq [OF this r(1) s(1)] r(2) s(2) have "r = s" by simp
  with r s(3) show "\<exists>r \<in> set (inboxes ?db). ib_id r = iu_inbox_id l
      \<and> in_flight ?db (ib_id r) one_file + 1 \<le> ib_reserved_files r
      \<and> in_flight ?db (ib_id r) iu_reserved_size + iu_reserved_size l \<le> ib_reserved_bytes r" by auto
qed (use stranded_immediately [OF inv l run] in blast)+

text \<open>The inbox of one file is used up although nothing is in flight: the next guest is refused.\<close>

definition sample_stranded :: database where
  "sample_stranded = run_commands inbox_exec sample_more_guests (snd (abort_upload sample_guest_uploaded ''u1''))"

theorem operator_abort_strands_slot_witness:
  "\<not> is_ok (fst (abort_inbox_upload (snd (abort_upload sample_guest_uploaded ''u1'')) (sample_hash CHR ''5'') ''u1'' 20))
   \<and> in_flight sample_stranded ''i1'' one_file = 0
   \<and> (\<exists>r \<in> set (inboxes sample_stranded). ib_id r = ''i1'' \<and> in_flight sample_stranded ''i1'' one_file + 1 \<le> ib_reserved_files r)"
proof -
  let ?db = sample_guest_uploaded and ?l = "hd (inbox_uploads sample_guest_uploaded)"
  have "is_ok (fst (abort_upload ?db ''u1''))" by code_simp
  then obtain x where "fst (abort_upload ?db ''u1'') = Ok x" by (auto simp: is_ok_iff)
  then have run: "abort_upload ?db ''u1'' = (Ok x, snd (abort_upload ?db ''u1''))" by (simp add: prod_eq_iff)
  have link: "?l \<in> set (inbox_uploads ?db)" "iu_upload_id ?l = ''u1''" "iu_status ?l = ''reserved''" "iu_inbox_id ?l = ''i1''"
    by code_simp+
  note stranded = operator_abort_strands_slot [OF sample_guest_uploaded_inv link(1-3) run]
  have refused: "\<not> is_ok (fst (abort_inbox_upload (snd (abort_upload ?db ''u1'')) (sample_hash CHR ''5'') ''u1'' 20))"
    using stranded [THEN conjunct1] by blast
  have none: "in_flight sample_stranded ''i1'' one_file = 0" by code_simp
  from stranded [THEN conjunct2, THEN spec, of sample_more_guests] obtain r where
    r: "r \<in> set (inboxes sample_stranded)" "ib_id r = ''i1''" "in_flight sample_stranded (ib_id r) one_file + 1 \<le> ib_reserved_files r"
    unfolding sample_stranded_def [symmetric] link(4) by blast
  have "in_flight sample_stranded ''i1'' one_file + 1 \<le> ib_reserved_files r" using r(3) unfolding r(2) .
  with refused none r(1,2) show ?thesis by blast
qed

end
