(* ===== verification/Yard_State.thy ===== *)
theory Yard_State
  imports Inbox_Rates Core_Web_Origin
begin

text \<open>
  The tables of the Web Yards and the contract types of \<^verbatim>\<open>yards.rs\<close>, \<^verbatim>\<open>yard_environments.rs\<close>,
  \<^verbatim>\<open>yard_access.rs\<close> and \<^verbatim>\<open>yard_sessions.rs\<close> in \<^verbatim>\<open>crates/blobyard-contract\<close>. A Web Yard is a named
  static site: a stable host label selects its current deploy, and every retained deploy has a host
  label of its own. The state is a record around the database of the other services, which the yard
  services read (projects, object versions, reservations) and write (audit log, deletion plans).
\<close>

section \<open>Contract types\<close>

definition MAXIMUM_YARD_PATH_BYTES :: nat where "MAXIMUM_YARD_PATH_BYTES = 1024"

definition is_valid_yard_path :: "string \<Rightarrow> bool" where
  "is_valid_yard_path value \<longleftrightarrow>
     is_valid_relative_path value MAXIMUM_YARD_PATH_BYTES
     \<and> hd (split_on CHR ''/'' value) \<noteq> ''.blobyard''"

definition is_valid_yard_request_path :: "string \<Rightarrow> bool" where
  "is_valid_yard_request_path value \<longleftrightarrow>
     (if value = [] then True
      else let trimmed = (case strip_suffix ''/'' value of None \<Rightarrow> value | Some t \<Rightarrow> t)
           in trimmed \<noteq> [] \<and> is_valid_yard_path trimmed)"

datatype WebYardStatus = WyActive | WySuspended | WyDeleted

fun web_yard_status_as_str :: "WebYardStatus \<Rightarrow> string" where
  "web_yard_status_as_str WyActive = ''active''"
| "web_yard_status_as_str WySuspended = ''suspended''"
| "web_yard_status_as_str WyDeleted = ''deleted''"

definition web_yard_status_parse :: "string \<Rightarrow> WebYardStatus option" where
  "web_yard_status_parse value =
     (if value = ''active'' then Some WyActive
      else if value = ''suspended'' then Some WySuspended
      else if value = ''deleted'' then Some WyDeleted else None)"

interpretation web_yard_status: string_codec web_yard_status_as_str web_yard_status_parse
proof unfold_locales
  show "web_yard_status_parse (web_yard_status_as_str x) = Some x" for x
    by (cases x) (simp_all add: web_yard_status_parse_def)
qed (auto simp: web_yard_status_parse_def split: if_split_asm)

datatype YardDeployStatus = YdUploading | YdFinalising | YdLive | YdFailed | YdSuperseded | YdPruned

fun yard_deploy_status_as_str :: "YardDeployStatus \<Rightarrow> string" where
  "yard_deploy_status_as_str YdUploading = ''uploading''"
| "yard_deploy_status_as_str YdFinalising = ''finalising''"
| "yard_deploy_status_as_str YdLive = ''live''"
| "yard_deploy_status_as_str YdFailed = ''failed''"
| "yard_deploy_status_as_str YdSuperseded = ''superseded''"
| "yard_deploy_status_as_str YdPruned = ''pruned''"

definition yard_deploy_status_parse :: "string \<Rightarrow> YardDeployStatus option" where
  "yard_deploy_status_parse value =
     (if value = ''uploading'' then Some YdUploading
      else if value = ''finalising'' then Some YdFinalising
      else if value = ''live'' then Some YdLive
      else if value = ''failed'' then Some YdFailed
      else if value = ''superseded'' then Some YdSuperseded
      else if value = ''pruned'' then Some YdPruned else None)"

interpretation yard_deploy_status: string_codec yard_deploy_status_as_str yard_deploy_status_parse
proof unfold_locales
  show "yard_deploy_status_parse (yard_deploy_status_as_str x) = Some x" for x
    by (cases x) (simp_all add: yard_deploy_status_parse_def)
qed (auto simp: yard_deploy_status_parse_def split: if_split_asm)

datatype YardEnvironmentKind = YkProduction | YkStaging | YkPreview

fun environment_kind_as_str :: "YardEnvironmentKind \<Rightarrow> string" where
  "environment_kind_as_str YkProduction = ''production''"
| "environment_kind_as_str YkStaging = ''staging''"
| "environment_kind_as_str YkPreview = ''preview''"

definition environment_kind_parse :: "string \<Rightarrow> YardEnvironmentKind option" where
  "environment_kind_parse value =
     (if value = ''production'' then Some YkProduction
      else if value = ''staging'' then Some YkStaging
      else if value = ''preview'' then Some YkPreview else None)"

interpretation environment_kind: string_codec environment_kind_as_str environment_kind_parse
proof unfold_locales
  show "environment_kind_parse (environment_kind_as_str x) = Some x" for x
    by (cases x) (simp_all add: environment_kind_parse_def)
qed (auto simp: environment_kind_parse_def split: if_split_asm)

datatype YardEnvironmentStatus = YeActive | YeDeleted

fun environment_status_as_str :: "YardEnvironmentStatus \<Rightarrow> string" where
  "environment_status_as_str YeActive = ''active''"
| "environment_status_as_str YeDeleted = ''deleted''"

definition environment_status_parse :: "string \<Rightarrow> YardEnvironmentStatus option" where
  "environment_status_parse value =
     (if value = ''active'' then Some YeActive else if value = ''deleted'' then Some YeDeleted else None)"

interpretation environment_status: string_codec environment_status_as_str environment_status_parse
proof unfold_locales
  show "environment_status_parse (environment_status_as_str x) = Some x" for x
    by (cases x) (simp_all add: environment_status_parse_def)
qed (auto simp: environment_status_parse_def split: if_split_asm)

record NewWebYard =
  nwy_id :: string
  nwy_workspace_id :: string
  nwy_project_id :: string
  nwy_name :: Slug
  nwy_host_label :: string
  nwy_created_at_ms :: nat

record NewYardDeploy =
  nyd_id :: string
  nyd_yard_id :: string
  nyd_workspace_id :: string
  nyd_project_id :: string
  nyd_client_deploy_id :: string
  nyd_manifest_root :: string
  nyd_deployment_host_label :: string
  nyd_spa :: bool
  nyd_clean_urls :: bool
  nyd_created_at_ms :: nat

record NewYardFile =
  nyf_normalized_path :: string
  nyf_version_id :: string
  nyf_byte_size :: nat

record WebYardRecord =
  wyr_id :: string
  wyr_workspace_id :: string
  wyr_project_id :: string
  wyr_name :: Slug
  wyr_host_label :: string
  wyr_current_deploy_id :: "string option"
  wyr_status :: WebYardStatus
  wyr_created_at_ms :: nat
  wyr_updated_at_ms :: nat
  wyr_deleted_at_ms :: "nat option"

record YardDeployRecord =
  ydr_id :: string
  ydr_yard_id :: string
  ydr_workspace_id :: string
  ydr_project_id :: string
  ydr_client_deploy_id :: string
  ydr_manifest_root :: string
  ydr_deployment_host_label :: string
  ydr_spa :: bool
  ydr_clean_urls :: bool
  ydr_status :: YardDeployStatus
  ydr_created_at_ms :: nat
  ydr_finalised_at_ms :: "nat option"
  ydr_file_count :: nat
  ydr_total_bytes :: nat

record YardEnvironmentRecord =
  yer_id :: string
  yer_yard_id :: string
  yer_name :: Slug
  yer_kind :: YardEnvironmentKind
  yer_status :: YardEnvironmentStatus
  yer_created_at_ms :: nat
  yer_updated_at_ms :: nat

record YardStartRecord =
  ysr_yard :: WebYardRecord
  ysr_deploy :: YardDeployRecord

record YardDeploymentRecord =
  ydm_yard :: WebYardRecord
  ydm_deploy :: YardDeployRecord

record YardFileTarget =
  yft_object :: StoredObjectRecord
  yft_not_found_document :: bool

record YardCleanupPlan =
  ycp_yard_id :: string
  ycp_workspace_id :: string
  ycp_deploy_id :: string
  ycp_deletion :: DeletionPlan

section \<open>Tables\<close>

record web_yard_row =
  wy_id :: string
  wy_workspace_id :: string
  wy_project_id :: string
  wy_name :: string
  wy_host_label :: string
  wy_current_deploy_id :: "string option"
  wy_status :: string
  wy_created_at_ms :: int
  wy_updated_at_ms :: int
  wy_deleted_at_ms :: "int option"

record yard_deploy_row =
  yd_id :: string
  yd_yard_id :: string
  yd_workspace_id :: string
  yd_project_id :: string
  yd_client_deploy_id :: string
  yd_manifest_root :: string
  yd_deployment_host_label :: string
  yd_spa :: int
  yd_clean_urls :: int
  yd_status :: string
  yd_created_at_ms :: int
  yd_finalised_at_ms :: "int option"
  yd_file_count :: int
  yd_total_bytes :: int
  yd_failure_code :: "string option"
  yd_failure_message :: "string option"
  yd_pruned_at_ms :: "int option"

record yard_file_row =
  yf_deploy_id :: string
  yf_normalized_path :: string
  yf_version_id :: "string option"
  yf_byte_size :: int

record yard_environment_row =
  ye_id :: string
  ye_yard_id :: string
  ye_name :: string
  ye_kind :: string
  ye_status :: string
  ye_created_at_ms :: int
  ye_updated_at_ms :: int
  ye_deleted_at_ms :: "int option"

record yard_database =
  repository :: database
  web_yards :: "web_yard_row list"
  yard_environments :: "yard_environment_row list"
  yard_deploys :: "yard_deploy_row list"
  yard_deploy_files :: "yard_file_row list"

type_synonym 'a yard_outcome = "(RepositoryError + 'a) \<times> yard_database"

definition web_yard_check :: "web_yard_row \<Rightarrow> bool" where
  "web_yard_check r \<longleftrightarrow>
     wy_status r \<in> {''active'', ''suspended'', ''deleted''}
     \<and> wy_created_at_ms r \<ge> 0 \<and> wy_updated_at_ms r \<ge> wy_created_at_ms r
     \<and> (if wy_status r = ''deleted''
        then wy_current_deploy_id r = None
             \<and> (case wy_deleted_at_ms r of None \<Rightarrow> False | Some t \<Rightarrow> t \<ge> wy_created_at_ms r)
        else wy_deleted_at_ms r = None)"

definition web_yard_allowed :: "yard_database \<Rightarrow> web_yard_row \<Rightarrow> bool" where
  "web_yard_allowed db row \<longleftrightarrow>
     web_yard_check row
     \<and> \<not> list_ex (\<lambda>r. wy_id r = wy_id row \<or> wy_host_label r = wy_host_label row
          \<or> (wy_project_id r = wy_project_id row \<and> wy_name r = wy_name row
             \<and> wy_status r \<noteq> ''deleted'' \<and> wy_status row \<noteq> ''deleted'')) (web_yards db)
     \<and> list_ex (\<lambda>w. ws_id w = wy_workspace_id row) (workspaces (repository db))
     \<and> list_ex (\<lambda>p. pj_id p = wy_project_id row) (projects (repository db))"

definition yard_deploy_check :: "yard_deploy_row \<Rightarrow> bool" where
  "yard_deploy_check r \<longleftrightarrow>
     yd_spa r \<in> {0, 1} \<and> yd_clean_urls r \<in> {0, 1}
     \<and> yd_created_at_ms r \<ge> 0 \<and> yd_file_count r \<ge> 0 \<and> yd_total_bytes r \<ge> 0
     \<and> (case yd_finalised_at_ms r of None \<Rightarrow> True | Some t \<Rightarrow> t \<ge> yd_created_at_ms r)
     \<and> (case yd_pruned_at_ms r of None \<Rightarrow> True | Some t \<Rightarrow> t \<ge> yd_created_at_ms r)
     \<and> (yd_status r \<in> {''uploading'', ''finalising''} \<and> yd_finalised_at_ms r = None \<and> yd_file_count r = 0
          \<and> yd_total_bytes r = 0 \<and> yd_failure_code r = None \<and> yd_failure_message r = None \<and> yd_pruned_at_ms r = None
        \<or> yd_status r \<in> {''live'', ''superseded''} \<and> yd_finalised_at_ms r \<noteq> None \<and> yd_file_count r > 0
          \<and> yd_failure_code r = None \<and> yd_failure_message r = None \<and> yd_pruned_at_ms r = None
        \<or> yd_status r = ''failed'' \<and> yd_finalised_at_ms r = None \<and> yd_file_count r = 0 \<and> yd_total_bytes r = 0
          \<and> yd_failure_code r \<noteq> None \<and> yd_failure_message r \<noteq> None \<and> yd_pruned_at_ms r = None
        \<or> yd_status r = ''pruned'' \<and> yd_pruned_at_ms r \<noteq> None)"

definition yard_deploy_allowed :: "yard_database \<Rightarrow> yard_deploy_row \<Rightarrow> bool" where
  "yard_deploy_allowed db row \<longleftrightarrow>
     yard_deploy_check row
     \<and> \<not> list_ex (\<lambda>r. yd_id r = yd_id row \<or> yd_client_deploy_id r = yd_client_deploy_id row
          \<or> yd_manifest_root r = yd_manifest_root row
          \<or> yd_deployment_host_label r = yd_deployment_host_label row) (yard_deploys db)
     \<and> list_ex (\<lambda>y. wy_id y = yd_yard_id row) (web_yards db)
     \<and> list_ex (\<lambda>w. ws_id w = yd_workspace_id row) (workspaces (repository db))
     \<and> list_ex (\<lambda>p. pj_id p = yd_project_id row) (projects (repository db))"

definition yard_file_allowed :: "yard_database \<Rightarrow> yard_file_row \<Rightarrow> bool" where
  "yard_file_allowed db row \<longleftrightarrow>
     yf_byte_size row \<ge> 0
     \<and> \<not> list_ex (\<lambda>r. yf_deploy_id r = yf_deploy_id row \<and> yf_normalized_path r = yf_normalized_path row)
          (yard_deploy_files db)
     \<and> list_ex (\<lambda>d. yd_id d = yf_deploy_id row) (yard_deploys db)"

definition yard_environment_check :: "yard_environment_row \<Rightarrow> bool" where
  "yard_environment_check r \<longleftrightarrow>
     ye_kind r \<in> {''production'', ''staging'', ''preview''} \<and> ye_status r \<in> {''active'', ''deleted''}
     \<and> ye_created_at_ms r \<ge> 0 \<and> ye_updated_at_ms r \<ge> ye_created_at_ms r
     \<and> (if ye_status r = ''deleted''
        then (case ye_deleted_at_ms r of None \<Rightarrow> False | Some t \<Rightarrow> t \<ge> ye_created_at_ms r)
        else ye_deleted_at_ms r = None)"

definition yard_environment_allowed :: "yard_database \<Rightarrow> yard_environment_row \<Rightarrow> bool" where
  "yard_environment_allowed db row \<longleftrightarrow>
     yard_environment_check row
     \<and> \<not> list_ex (\<lambda>r. ye_id r = ye_id row
          \<or> (ye_yard_id r = ye_yard_id row \<and> ye_name r = ye_name row
             \<and> ye_status r \<noteq> ''deleted'' \<and> ye_status row \<noteq> ''deleted'')) (yard_environments db)
     \<and> list_ex (\<lambda>y. wy_id y = ye_yard_id row) (web_yards db)"

section \<open>Row decoders\<close>

definition stored_slug :: "string \<Rightarrow> RepositoryError + Slug" where
  "stored_slug value = map_err (\<lambda>_. Unavailable) (slug_new value)"

definition yard :: "web_yard_row \<Rightarrow> RepositoryError + WebYardRecord" where
  "yard r =
     and_then (stored_slug (wy_name r)) (\<lambda>name.
     and_then (ok_or Unavailable (web_yard_status_parse (wy_status r))) (\<lambda>status.
     and_then (required_u64 (wy_created_at_ms r)) (\<lambda>created_at_ms.
     and_then (required_u64 (wy_updated_at_ms r)) (\<lambda>updated_at_ms.
     and_then (optional_u64 (wy_deleted_at_ms r)) (\<lambda>deleted_at_ms.
       Ok \<lparr>wyr_id = wy_id r, wyr_workspace_id = wy_workspace_id r, wyr_project_id = wy_project_id r,
           wyr_name = name, wyr_host_label = wy_host_label r,
           wyr_current_deploy_id = wy_current_deploy_id r, wyr_status = status,
           wyr_created_at_ms = created_at_ms, wyr_updated_at_ms = updated_at_ms,
           wyr_deleted_at_ms = deleted_at_ms\<rparr>)))))"

definition deploy :: "yard_deploy_row \<Rightarrow> RepositoryError + YardDeployRecord" where
  "deploy r =
     and_then (ok_or Unavailable (yard_deploy_status_parse (yd_status r))) (\<lambda>status.
     and_then (required_u64 (yd_created_at_ms r)) (\<lambda>created_at_ms.
     and_then (optional_u64 (yd_finalised_at_ms r)) (\<lambda>finalised_at_ms.
     and_then (required_u64 (yd_file_count r)) (\<lambda>file_count.
     and_then (required_u64 (yd_total_bytes r)) (\<lambda>total_bytes.
       Ok \<lparr>ydr_id = yd_id r, ydr_yard_id = yd_yard_id r, ydr_workspace_id = yd_workspace_id r,
           ydr_project_id = yd_project_id r, ydr_client_deploy_id = yd_client_deploy_id r,
           ydr_manifest_root = yd_manifest_root r,
           ydr_deployment_host_label = yd_deployment_host_label r, ydr_spa = (yd_spa r \<noteq> 0),
           ydr_clean_urls = (yd_clean_urls r \<noteq> 0), ydr_status = status,
           ydr_created_at_ms = created_at_ms, ydr_finalised_at_ms = finalised_at_ms,
           ydr_file_count = file_count, ydr_total_bytes = total_bytes\<rparr>)))))"

definition environment :: "yard_environment_row \<Rightarrow> RepositoryError + YardEnvironmentRecord" where
  "environment r =
     and_then (stored_slug (ye_name r)) (\<lambda>name.
     and_then (ok_or Unavailable (environment_kind_parse (ye_kind r))) (\<lambda>kind.
     and_then (ok_or Unavailable (environment_status_parse (ye_status r))) (\<lambda>status.
     and_then (required_u64 (ye_created_at_ms r)) (\<lambda>created_at_ms.
     and_then (required_u64 (ye_updated_at_ms r)) (\<lambda>updated_at_ms.
       Ok \<lparr>yer_id = ye_id r, yer_yard_id = ye_yard_id r, yer_name = name, yer_kind = kind,
           yer_status = status, yer_created_at_ms = created_at_ms,
           yer_updated_at_ms = updated_at_ms\<rparr>)))))"

section \<open>Statements\<close>

text \<open>\<^verbatim>\<open>query_row(..).optional()\<close>\<close>

definition query_optional ::
  "('r \<Rightarrow> bool) \<Rightarrow> ('r \<Rightarrow> RepositoryError + 'a) \<Rightarrow> 'r list \<Rightarrow> RepositoryError + 'a option" where
  "query_optional selected decode rows =
     (case find selected rows of None \<Rightarrow> Ok None | Some r \<Rightarrow> and_then (decode r) (\<lambda>x. Ok (Some x)))"

definition yard_audit :: "yard_database \<Rightarrow> NewAuditEvent \<Rightarrow> RepositoryError + yard_database" where
  "yard_audit db event =
     and_then (audit_insert (repository db) event) (\<lambda>m. Ok (db\<lparr>repository := m\<rparr>))"

text \<open>An operation of the other services on the shared database. Deleting an object version clears the
  references of deploy files to it, \<^verbatim>\<open>ON DELETE SET NULL\<close>.\<close>

definition unlink_file :: "database \<Rightarrow> yard_file_row \<Rightarrow> yard_file_row" where
  "unlink_file db f =
     (case yf_version_id f of
        None \<Rightarrow> f
      | Some v \<Rightarrow> if list_ex (\<lambda>r. ov_id r = v) (object_versions db) then f else f\<lparr>yf_version_id := None\<rparr>)"

definition on_repository :: "(database \<Rightarrow> 'r \<times> database) \<Rightarrow> yard_database \<Rightarrow> 'r \<times> yard_database" where
  "on_repository operation db =
     (let (r, m) = operation (repository db)
      in (r, db\<lparr>repository := m, yard_deploy_files := map (unlink_file m) (yard_deploy_files db)\<rparr>))"

end
