(* ===== verification/Yards.thy ===== *)
theory Yards
  imports Yard_State
begin

text \<open>
  Deploys of a Web Yard: \<^verbatim>\<open>yards.rs\<close>, \<^verbatim>\<open>yard_start.rs\<close>, \<^verbatim>\<open>yard_finalise.rs\<close>, \<^verbatim>\<open>yard_lifecycle.rs\<close>,
  \<^verbatim>\<open>yard_history.rs\<close>, \<^verbatim>\<open>yard_cleanup.rs\<close>, \<^verbatim>\<open>yard_queries.rs\<close>, \<^verbatim>\<open>yard_rows.rs\<close> and
  \<^verbatim>\<open>yard_validation.rs\<close>. A deploy is started, its manifest is finalised or it fails; finalising
  selects it as the current deploy unless a newer one was finalised, and prunes the history; a
  rollback selects an earlier deploy; deleting a yard prunes all of them. Pruning plans the
  deletion of the objects no retained deploy needs.
\<close>

section \<open>Validation\<close>

definition HISTORY_DEPTH :: nat where "HISTORY_DEPTH = 10"
definition MAXIMUM_FILES :: nat where "MAXIMUM_FILES = 10000"

definition event_matches ::
  "NewAuditEvent \<Rightarrow> string \<Rightarrow> string \<Rightarrow> string \<Rightarrow> nat \<Rightarrow> (string \<times> AuditValue) list \<Rightarrow> RepositoryError + unit" where
  "event_matches event action target_type workspace_id at_ms metadata =
     (let expected = btree_map metadata; actual = btree_map (nae_metadata event)
      in if nae_action event = action \<and> nae_target_type event = target_type
            \<and> nae_workspace_id event = workspace_id \<and> nae_created_at_ms event = at_ms
            \<and> length actual = length (nae_metadata event) \<and> actual = expected
         then Ok () else Err InvalidInput)"

definition action_event ::
  "NewAuditEvent \<Rightarrow> string \<Rightarrow> string \<Rightarrow> string \<Rightarrow> nat \<Rightarrow> (string \<times> AuditValue) list \<Rightarrow> RepositoryError + int" where
  "action_event event action target_type workspace_id at_ms metadata =
     and_then (event_matches event action target_type workspace_id at_ms metadata) (\<lambda>_. to_i64 at_ms)"

definition valid_client_id :: "string \<Rightarrow> bool" where
  "valid_client_id value \<longleftrightarrow>
     16 \<le> length value \<and> length value \<le> 128 \<and> is_ascii_alphanumeric (hd value)
     \<and> list_all (\<lambda>b. is_ascii_alphanumeric b \<or> b = CHR ''_'' \<or> b = CHR ''-'') value"

definition valid_host_label :: "string \<Rightarrow> bool" where
  "valid_host_label value \<longleftrightarrow> CHR ''-'' \<in> set value \<and> is_valid_dns_label value"

definition manifest_root_of :: "string \<Rightarrow> string \<Rightarrow> string" where
  "manifest_root_of yard_id client_deploy_id = ''.blobyard-yard/'' @ yard_id @ ''/'' @ client_deploy_id @ ''/''"

definition validate_start ::
  "NewWebYard \<Rightarrow> NewYardDeploy \<Rightarrow> NewAuditEvent \<Rightarrow> RepositoryError + (int \<times> int)" where
  "validate_start y d event =
     and_then (try_each validate_text [nwy_id y, nwy_workspace_id y, nwy_project_id y, nwy_host_label y, nyd_id d,
        nyd_yard_id d, nyd_workspace_id d, nyd_project_id d, nyd_client_deploy_id d, nyd_manifest_root d,
        nyd_deployment_host_label d]) (\<lambda>_.
       if \<not> (nyd_yard_id d = nwy_id y \<and> nyd_workspace_id d = nwy_workspace_id y \<and> nyd_project_id d = nwy_project_id y
             \<and> valid_host_label (nwy_host_label y) \<and> valid_host_label (nyd_deployment_host_label d)
             \<and> valid_client_id (nyd_client_deploy_id d)
             \<and> nyd_manifest_root d = manifest_root_of (nwy_id y) (nyd_client_deploy_id d))
       then Err InvalidInput
       else and_then (event_matches event ''yard.created'' ''web_yard'' (nwy_workspace_id y) (nwy_created_at_ms y)
              [(''yardId'', AvString (nwy_id y))]) (\<lambda>_.
            and_then (to_i64 (nwy_created_at_ms y)) (\<lambda>yard_created.
            and_then (to_i64 (nyd_created_at_ms d)) (\<lambda>deploy_created. Ok (yard_created, deploy_created)))))"

text \<open>The loop over the files of a manifest: the set of paths, the byte total and the count.\<close>

fun check_files ::
  "NewYardFile list \<Rightarrow> string list \<Rightarrow> nat \<Rightarrow> int \<Rightarrow> RepositoryError + (string list \<times> nat \<times> int)" where
  "check_files [] paths bytes count = Ok (paths, bytes, count)"
| "check_files (file # files) paths bytes count =
     and_then (validate_text (nyf_version_id file)) (\<lambda>_.
       if \<not> is_valid_yard_path (nyf_normalized_path file) \<or> nyf_normalized_path file \<in> set paths
       then Err InvalidInput
       else if bytes + nyf_byte_size file > u64_max then Err InvalidInput
       else check_files files (nyf_normalized_path file # paths) (bytes + nyf_byte_size file) (count + 1))"

definition validate_finalise ::
  "YardDeployRecord \<Rightarrow> NewYardFile list \<Rightarrow> nat \<Rightarrow> RepositoryError + (int \<times> int \<times> int)" where
  "validate_finalise d files now =
     (if ydr_status d \<notin> {YdUploading, YdFinalising} \<or> files = [] \<or> length files > MAXIMUM_FILES
      then Err Conflict
      else and_then (check_files files [] 0 0) (\<lambda>(paths, bytes, count).
             if ''index.html'' \<notin> set paths then Err InvalidInput
             else and_then (to_i64 now) (\<lambda>finalised_at.
                  and_then (to_i64 bytes) (\<lambda>total_bytes. Ok (finalised_at, count, total_bytes)))))"

definition validate_failure :: "YardDeployRecord \<Rightarrow> string \<Rightarrow> string \<Rightarrow> nat \<Rightarrow> RepositoryError + int" where
  "validate_failure d code message now =
     (if ydr_status d \<notin> {YdUploading, YdFinalising} then Err Conflict
      else if \<not> (2 \<le> length code \<and> length code \<le> 64 \<and> is_ascii_uppercase (hd code)
                \<and> list_all (\<lambda>b. is_ascii_uppercase b \<or> is_ascii_digit b \<or> b = CHR ''_'') code)
              \<or> \<not> (1 \<le> length message \<and> length message \<le> 200 \<and> \<not> has_control message)
           then Err InvalidInput
           else to_i64 now)"

section \<open>Queries\<close>

definition yard_by_id :: "yard_database \<Rightarrow> string \<Rightarrow> RepositoryError + WebYardRecord" where
  "yard_by_id db yard_id = query_row (\<lambda>r. wy_id r = yard_id) yard (web_yards db)"

definition deploy_by_id :: "yard_database \<Rightarrow> string \<Rightarrow> RepositoryError + YardDeployRecord" where
  "deploy_by_id db deploy_id = query_row (\<lambda>r. yd_id r = deploy_id) deploy (yard_deploys db)"

definition active_named_yard ::
  "yard_database \<Rightarrow> string \<Rightarrow> string \<Rightarrow> RepositoryError + WebYardRecord option" where
  "active_named_yard db project_id name =
     query_optional (\<lambda>r. wy_project_id r = project_id \<and> wy_name r = name \<and> wy_status r \<noteq> ''deleted'') yard (web_yards db)"

definition deploy_by_client_id :: "yard_database \<Rightarrow> string \<Rightarrow> RepositoryError + YardDeployRecord option" where
  "deploy_by_client_id db client_deploy_id =
     query_optional (\<lambda>r. yd_client_deploy_id r = client_deploy_id) deploy (yard_deploys db)"

definition list_web_yards :: "yard_database \<Rightarrow> string \<Rightarrow> RepositoryError + WebYardRecord list" where
  "list_web_yards db project_id =
     and_then (validate_text project_id) (\<lambda>_.
       collect_results yard (rev (sort_key (\<lambda>r. (wy_created_at_ms r, wy_id r))
         (filter (\<lambda>r. wy_project_id r = project_id \<and> wy_status r \<noteq> ''deleted'') (web_yards db)))))"

definition web_yard_by_id :: "yard_database \<Rightarrow> string \<Rightarrow> RepositoryError + WebYardRecord" where
  "web_yard_by_id db yard_id = and_then (validate_text yard_id) (\<lambda>_. yard_by_id db yard_id)"

text \<open>\<^verbatim>\<open>WHERE yard_id = ?1 ORDER BY created_at_ms DESC, id DESC\<close>\<close>

definition yard_history :: "yard_database \<Rightarrow> string \<Rightarrow> yard_deploy_row list" where
  "yard_history db yard_id =
     rev (sort_key (\<lambda>r. (yd_created_at_ms r, yd_id r)) (filter (\<lambda>r. yd_yard_id r = yard_id) (yard_deploys db)))"

definition list_candidates :: "yard_database \<Rightarrow> string \<Rightarrow> RepositoryError + YardDeployRecord list" where
  "list_candidates db yard_id = collect_results deploy (yard_history db yard_id)"

definition list_yard_deploys :: "yard_database \<Rightarrow> string \<Rightarrow> RepositoryError + YardDeployRecord list" where
  "list_yard_deploys db yard_id = and_then (validate_text yard_id) (\<lambda>_. list_candidates db yard_id)"

definition list_yard_environments :: "yard_database \<Rightarrow> string \<Rightarrow> RepositoryError + YardEnvironmentRecord list" where
  "list_yard_environments db yard_id =
     and_then (validate_text yard_id) (\<lambda>_.
       collect_results environment (sort_key (\<lambda>r. (ye_kind r \<noteq> ''production'', ye_name r))
         (filter (\<lambda>r. ye_yard_id r = yard_id \<and> ye_status r \<noteq> ''deleted'') (yard_environments db))))"

definition yard_deploy_by_id :: "yard_database \<Rightarrow> string \<Rightarrow> RepositoryError + YardDeployRecord" where
  "yard_deploy_by_id db deploy_id = and_then (validate_text deploy_id) (\<lambda>_. deploy_by_id db deploy_id)"

section \<open>Starting a deploy\<close>

definition insert_yard :: "yard_database \<Rightarrow> NewWebYard \<Rightarrow> int \<Rightarrow> RepositoryError + yard_database" where
  "insert_yard db y created_at =
     (if list_ex (\<lambda>p. pj_id p = nwy_project_id y \<and> pj_workspace_id p = nwy_workspace_id y) (projects (repository db))
      then let row = \<lparr>wy_id = nwy_id y, wy_workspace_id = nwy_workspace_id y, wy_project_id = nwy_project_id y,
                      wy_name = slug_as_str (nwy_name y), wy_host_label = nwy_host_label y,
                      wy_current_deploy_id = None, wy_status = ''active'', wy_created_at_ms = created_at,
                      wy_updated_at_ms = created_at, wy_deleted_at_ms = None\<rparr>
           in and_then (insert_row (web_yard_allowed db row) row (web_yards db)) (\<lambda>rows. Ok (db\<lparr>web_yards := rows\<rparr>))
      else Err NotFound)"

definition insert_production_environment :: "yard_database \<Rightarrow> string \<Rightarrow> int \<Rightarrow> RepositoryError + yard_database" where
  "insert_production_environment db yard_id created_at =
     (let row = \<lparr>ye_id = ''yardenv_'' @ yard_id, ye_yard_id = yard_id, ye_name = ''production'',
                 ye_kind = ''production'', ye_status = ''active'', ye_created_at_ms = created_at,
                 ye_updated_at_ms = created_at, ye_deleted_at_ms = None\<rparr>
      in and_then (insert_row (yard_environment_allowed db row) row (yard_environments db)) (\<lambda>rows.
           Ok (db\<lparr>yard_environments := rows\<rparr>)))"

definition sql_bool :: "bool \<Rightarrow> int" where
  "sql_bool b = (if b then 1 else 0)"

definition insert_deploy :: "yard_database \<Rightarrow> WebYardRecord \<Rightarrow> NewYardDeploy \<Rightarrow> int \<Rightarrow> RepositoryError + yard_database" where
  "insert_deploy db y d created_at =
     (let row = \<lparr>yd_id = nyd_id d, yd_yard_id = wyr_id y, yd_workspace_id = wyr_workspace_id y,
                 yd_project_id = wyr_project_id y, yd_client_deploy_id = nyd_client_deploy_id d,
                 yd_manifest_root = manifest_root_of (wyr_id y) (nyd_client_deploy_id d),
                 yd_deployment_host_label = nyd_deployment_host_label d, yd_spa = sql_bool (nyd_spa d),
                 yd_clean_urls = sql_bool (nyd_clean_urls d), yd_status = ''uploading'',
                 yd_created_at_ms = created_at, yd_finalised_at_ms = None, yd_file_count = 0, yd_total_bytes = 0,
                 yd_failure_code = None, yd_failure_message = None, yd_pruned_at_ms = None\<rparr>
      in and_then (insert_row (yard_deploy_allowed db row) row (yard_deploys db)) (\<lambda>rows.
           Ok (db\<lparr>yard_deploys := rows\<rparr>)))"

definition reused ::
  "yard_database \<Rightarrow> NewWebYard \<Rightarrow> NewYardDeploy \<Rightarrow> YardDeployRecord \<Rightarrow> RepositoryError + YardStartRecord" where
  "reused db requested_yard requested_deploy existing =
     and_then (yard_by_id db (ydr_yard_id existing)) (\<lambda>y.
       if wyr_status y = WyActive \<and> wyr_workspace_id y = nwy_workspace_id requested_yard
          \<and> wyr_project_id y = nwy_project_id requested_yard \<and> wyr_name y = nwy_name requested_yard
          \<and> ydr_workspace_id existing = nyd_workspace_id requested_deploy
          \<and> ydr_project_id existing = nyd_project_id requested_deploy
          \<and> ydr_spa existing = nyd_spa requested_deploy
          \<and> ydr_clean_urls existing = nyd_clean_urls requested_deploy
       then Ok \<lparr>ysr_yard = y, ysr_deploy = existing\<rparr> else Err Conflict)"

definition select_yard ::
  "yard_database \<Rightarrow> NewWebYard \<Rightarrow> NewAuditEvent \<Rightarrow> int \<Rightarrow> RepositoryError + (WebYardRecord \<times> yard_database)" where
  "select_yard db y event yard_created =
     and_then (active_named_yard db (nwy_project_id y) (slug_as_str (nwy_name y))) (\<lambda>found.
       case found of
         Some existing \<Rightarrow>
           if wyr_status existing \<noteq> WyActive \<or> wyr_workspace_id existing \<noteq> nwy_workspace_id y then Err Conflict
           else Ok (existing, db)
       | None \<Rightarrow>
           and_then (insert_yard db y yard_created) (\<lambda>db.
           and_then (insert_production_environment db (nwy_id y) yard_created) (\<lambda>db.
           and_then (yard_audit db event) (\<lambda>db.
           and_then (yard_by_id db (nwy_id y)) (\<lambda>selected. Ok (selected, db))))))"

definition start_in ::
  "NewWebYard \<Rightarrow> NewYardDeploy \<Rightarrow> NewAuditEvent \<Rightarrow> yard_database \<Rightarrow> RepositoryError + (YardStartRecord \<times> yard_database)" where
  "start_in y d event db =
     and_then (validate_start y d event) (\<lambda>(yard_created, deploy_created).
     and_then (deploy_by_client_id db (nyd_client_deploy_id d)) (\<lambda>existing.
       case existing of
         Some e \<Rightarrow> and_then (reused db y d e) (\<lambda>x. Ok (x, db))
       | None \<Rightarrow>
           and_then (select_yard db y event yard_created) (\<lambda>(selected, db).
           and_then (insert_deploy db selected d deploy_created) (\<lambda>db.
           and_then (deploy_by_id db (nyd_id d)) (\<lambda>started.
             Ok (\<lparr>ysr_yard = selected, ysr_deploy = started\<rparr>, db))))))"

definition start_yard_deploy ::
  "yard_database \<Rightarrow> NewWebYard \<Rightarrow> NewYardDeploy \<Rightarrow> NewAuditEvent \<Rightarrow> YardStartRecord yard_outcome" where
  "start_yard_deploy db y d created_event = write_transaction (start_in y d created_event) db"

section \<open>Cleanup plans\<close>

definition cleanup_actor :: string where "cleanup_actor = ''system:yard-cleanup''"

text \<open>The join of the files of a deploy with the versions below its manifest root.\<close>

definition deploy_versions :: "yard_database \<Rightarrow> string \<Rightarrow> string \<Rightarrow> object_version_row list" where
  "deploy_versions db deploy_id root =
     concat (map (\<lambda>f. filter (\<lambda>v. yf_version_id f = Some (ov_id v) \<and> starts_with root (ov_object_path v))
         (object_versions (repository db)))
       (filter (\<lambda>f. yf_deploy_id f = deploy_id) (yard_deploy_files db)))"

text \<open>A version that a file of another deploy, not pruned, still names.\<close>

definition needed_elsewhere :: "yard_database \<Rightarrow> string \<Rightarrow> string \<Rightarrow> bool" where
  "needed_elsewhere db deploy_id version_id \<longleftrightarrow>
     list_ex (\<lambda>f. yf_version_id f = Some version_id \<and> yf_deploy_id f \<noteq> deploy_id
       \<and> list_ex (\<lambda>d. yd_id d = yf_deploy_id f \<and> yd_status d \<noteq> ''pruned'') (yard_deploys db)) (yard_deploy_files db)"

definition cleanup_operation :: "YardDeployRecord \<Rightarrow> int \<Rightarrow> deletion_operation_row" where
  "cleanup_operation d created_at_ms =
     \<lparr>do_id = ''yardcleanup_'' @ ydr_id d, do_project_id = ydr_project_id d, do_object_path = ydr_manifest_root d,
      do_selected_version = None, do_reason = ''yard_cleanup'', do_status = ''pending'', do_actor = cleanup_actor,
      do_request_id = ''request_yardcleanup_'' @ ydr_id d, do_created_at_ms = created_at_ms,
      do_completed_at_ms = None\<rparr>"

definition cleanup_items :: "yard_database \<Rightarrow> YardDeployRecord \<Rightarrow> deletion_item_row list" where
  "cleanup_items db d =
     map (\<lambda>v. \<lparr>di_operation_id = ''yardcleanup_'' @ ydr_id d, di_version_id = ov_id v,
               di_storage_key = ov_storage_key v, di_version = ov_version v\<rparr>)
       (sort_key ov_id (filter (\<lambda>v. ov_state v = ''complete'' \<and> \<not> needed_elsewhere db (ydr_id d) (ov_id v))
         (deploy_versions db (ydr_id d) (ydr_manifest_root d))))"

text \<open>\<^verbatim>\<open>INSERT OR IGNORE .. WHERE EXISTS\<close>: a constraint other than a foreign key skips the row, and
  the plan then has no items of its own.\<close>

definition plan :: "yard_database \<Rightarrow> string \<Rightarrow> int \<Rightarrow> RepositoryError + yard_database" where
  "plan db deploy_id created_at_ms =
     and_then (deploy_by_id db deploy_id) (\<lambda>d.
       let row = cleanup_operation d created_at_ms
       in if deploy_versions db (ydr_id d) (ydr_manifest_root d) = []
             \<or> \<not> deletion_operation_check row
             \<or> list_ex (\<lambda>r. do_id r = do_id row) (deletion_operations (repository db))
          then Ok db
          else and_then (insert_operation (repository db) row) (\<lambda>m.
               and_then (insert_items (cleanup_items db d) m) (\<lambda>m. Ok (db\<lparr>repository := m\<rparr>))))"

definition cleanup_headers :: "yard_database \<Rightarrow> string option \<Rightarrow> (deletion_operation_row \<times> yard_deploy_row) list" where
  "cleanup_headers db yard_id =
     sort_key (\<lambda>(o', d). (do_created_at_ms o', do_id o'))
       (concat (map (\<lambda>o'. map (Pair o') (filter (\<lambda>d. yd_project_id d = do_project_id o' \<and> yd_manifest_root d = do_object_path o'
            \<and> (case yard_id of None \<Rightarrow> True | Some y \<Rightarrow> yd_yard_id d = y)) (yard_deploys db)))
         (filter (\<lambda>o'. do_reason o' = ''yard_cleanup'' \<and> do_status o' = ''pending'') (deletion_operations (repository db)))))"

definition pending_yard_cleanups :: "yard_database \<Rightarrow> string option \<Rightarrow> RepositoryError + YardCleanupPlan list" where
  "pending_yard_cleanups db yard_id =
     and_then (case yard_id of None \<Rightarrow> Ok () | Some y \<Rightarrow> validate_text y) (\<lambda>_.
       collect_results (\<lambda>(o', d).
         and_then (deletion_plan (repository db) (do_id o')) (\<lambda>deletion.
           Ok \<lparr>ycp_yard_id = yd_yard_id d, ycp_workspace_id = yd_workspace_id d, ycp_deploy_id = yd_id d,
               ycp_deletion = deletion\<rparr>)) (cleanup_headers db yard_id))"

section \<open>History\<close>

definition mark_pruned :: "string \<Rightarrow> int \<Rightarrow> yard_database \<Rightarrow> RepositoryError + yard_database" where
  "mark_pruned deploy_id pruned_at db =
     and_then (plan db deploy_id pruned_at) (\<lambda>db.
     and_then (update_rows (\<lambda>r. yd_id r = deploy_id \<and> yd_status r \<noteq> ''pruned'')
        (\<lambda>r. r\<lparr>yd_status := ''pruned'', yd_pruned_at_ms := Some pruned_at\<rparr>) yard_deploy_check
        (yard_deploys db)) (\<lambda>(_, rows).
       Ok (db\<lparr>yard_deploys := rows,
              yard_deploy_files := filter (\<lambda>f. yf_deploy_id f \<noteq> deploy_id) (yard_deploy_files db)\<rparr>)))"

fun prune_each :: "string list \<Rightarrow> int \<Rightarrow> yard_database \<Rightarrow> RepositoryError + yard_database" where
  "prune_each [] pruned_at db = Ok db"
| "prune_each (d # ds) pruned_at db = and_then (mark_pruned d pruned_at db) (prune_each ds pruned_at)"

definition surplus_deploys :: "string option \<Rightarrow> YardDeployRecord list \<Rightarrow> YardDeployRecord list" where
  "surplus_deploys current_deploy_id deploys =
     (let retained_others = (if current_deploy_id \<noteq> None then HISTORY_DEPTH - 1 else HISTORY_DEPTH)
      in filter (\<lambda>d. ydr_status d \<in> {YdLive, YdFailed, YdSuperseded})
           (drop retained_others (filter (\<lambda>d. Some (ydr_id d) \<noteq> current_deploy_id) deploys)))"

definition prune ::
  "string \<Rightarrow> string option \<Rightarrow> int \<Rightarrow> yard_database \<Rightarrow> RepositoryError + yard_database" where
  "prune yard_id current_deploy_id pruned_at db =
     and_then (list_candidates db yard_id) (\<lambda>deploys.
       prune_each (map ydr_id (surplus_deploys current_deploy_id deploys)) pruned_at db)"

definition prune_all :: "string \<Rightarrow> int \<Rightarrow> yard_database \<Rightarrow> RepositoryError + yard_database" where
  "prune_all yard_id pruned_at db =
     and_then (list_candidates db yard_id) (\<lambda>deploys.
       prune_each (map ydr_id (filter (\<lambda>d. ydr_status d \<noteq> YdPruned) deploys)) pruned_at db)"

section \<open>Finalising a deploy\<close>

definition cast_signed :: "nat \<Rightarrow> int" where
  "cast_signed n = (if n \<le> i64_max then int n else int n - 2 ^ 64)"

fun insert_files :: "NewYardFile list \<Rightarrow> YardDeployRecord \<Rightarrow> yard_database \<Rightarrow> RepositoryError + yard_database" where
  "insert_files [] d db = Ok db"
| "insert_files (file # files) d db =
     (if list_ex (\<lambda>v. ov_id v = nyf_version_id file \<and> ov_project_id v = ydr_project_id d \<and> ov_state v = ''complete''
           \<and> ov_size v = Some (cast_signed (nyf_byte_size file))) (object_versions (repository db))
      then let row = \<lparr>yf_deploy_id = ydr_id d, yf_normalized_path = nyf_normalized_path file,
                      yf_version_id = Some (nyf_version_id file), yf_byte_size = cast_signed (nyf_byte_size file)\<rparr>
           in and_then (insert_row (yard_file_allowed db row) row (yard_deploy_files db)) (\<lambda>rows.
                insert_files files d (db\<lparr>yard_deploy_files := rows\<rparr>))
      else Err NotFound)"

definition newer_finalised :: "yard_database \<Rightarrow> YardDeployRecord \<Rightarrow> bool" where
  "newer_finalised db d \<longleftrightarrow>
     list_ex (\<lambda>r. yd_yard_id r = ydr_yard_id d \<and> yd_finalised_at_ms r \<noteq> None
       \<and> (yd_created_at_ms r > cast_signed (ydr_created_at_ms d)
          \<or> (yd_created_at_ms r = cast_signed (ydr_created_at_ms d) \<and> yd_id r > ydr_id d))) (yard_deploys db)"

definition current_of :: "yard_database \<Rightarrow> string \<Rightarrow> string option" where
  "current_of db yard_id =
     (case find (\<lambda>y. wy_id y = yard_id) (web_yards db) of None \<Rightarrow> None | Some y \<Rightarrow> wy_current_deploy_id y)"

definition promote_status ::
  "yard_database \<Rightarrow> YardDeployRecord \<Rightarrow> int \<Rightarrow> RepositoryError + (YardDeployStatus \<times> yard_database)" where
  "promote_status db d updated_at =
     (if newer_finalised db d then Ok (YdSuperseded, db)
      else
        and_then (update_rows (\<lambda>r. Some (yd_id r) = current_of db (ydr_yard_id d) \<and> yd_id r \<noteq> ydr_id d
             \<and> yd_status r = ''live'') (\<lambda>r. r\<lparr>yd_status := ''superseded''\<rparr>) yard_deploy_check
             (yard_deploys db)) (\<lambda>(_, deploys).
        and_then (update_rows (\<lambda>y. wy_id y = ydr_yard_id d \<and> wy_status y = ''active'')
             (\<lambda>y. y\<lparr>wy_current_deploy_id := Some (ydr_id d), wy_updated_at_ms := updated_at\<rparr>) web_yard_check
             (web_yards db)) (\<lambda>(changed, yards).
          if changed \<noteq> 1 then Err Conflict
          else Ok (YdLive, db\<lparr>yard_deploys := deploys, web_yards := yards\<rparr>))))"

definition graph :: "yard_database \<Rightarrow> YardDeployRecord \<Rightarrow> RepositoryError + YardDeploymentRecord" where
  "graph db d = and_then (yard_by_id db (ydr_yard_id d)) (\<lambda>y. Ok \<lparr>ydm_yard = y, ydm_deploy = d\<rparr>)"

definition finalise_in ::
  "string \<Rightarrow> NewYardFile list \<Rightarrow> nat \<Rightarrow> NewAuditEvent \<Rightarrow> yard_database
     \<Rightarrow> RepositoryError + (YardDeploymentRecord \<times> yard_database)" where
  "finalise_in deploy_id files finalised_at_ms event db =
     and_then (deploy_by_id db deploy_id) (\<lambda>d.
     and_then (yard_by_id db (ydr_yard_id d)) (\<lambda>y.
       if wyr_status y \<noteq> WyActive then Err Conflict
       else if ydr_status d \<in> {YdLive, YdSuperseded} then and_then (graph db d) (\<lambda>x. Ok (x, db))
       else
         and_then (validate_finalise d files finalised_at_ms) (\<lambda>(finalised_at, file_count, total_bytes).
         and_then (insert_files files d db) (\<lambda>db.
         and_then (promote_status db d finalised_at) (\<lambda>(status, db).
         and_then (action_event event ''yard.deployed'' ''yard_deploy'' (ydr_workspace_id d) finalised_at_ms
           [(''deployId'', AvString (ydr_id d)), (''fileCount'', AvNumber (nat file_count)),
            (''status'', AvString (yard_deploy_status_as_str status)), (''totalBytes'', AvNumber (nat total_bytes))]) (\<lambda>_.
         and_then (update_rows (\<lambda>r. yd_id r = ydr_id d \<and> yd_status r \<in> {''uploading'', ''finalising''})
           (\<lambda>r. r\<lparr>yd_status := yard_deploy_status_as_str status, yd_finalised_at_ms := Some finalised_at,
                  yd_file_count := file_count, yd_total_bytes := total_bytes\<rparr>) yard_deploy_check
           (yard_deploys db)) (\<lambda>(_, rows).
         and_then (yard_audit (db\<lparr>yard_deploys := rows\<rparr>) event) (\<lambda>db.
         and_then (yard_by_id db (ydr_yard_id d)) (\<lambda>y.
         and_then (prune (wyr_id y) (wyr_current_deploy_id y) finalised_at db) (\<lambda>db.
         and_then (deploy_by_id db (ydr_id d)) (\<lambda>d.
         and_then (graph db d) (\<lambda>x. Ok (x, db)))))))))))))"

definition finalise_yard_deploy ::
  "yard_database \<Rightarrow> string \<Rightarrow> NewYardFile list \<Rightarrow> nat \<Rightarrow> NewAuditEvent \<Rightarrow> YardDeploymentRecord yard_outcome" where
  "finalise_yard_deploy db deploy_id files finalised_at_ms event =
     after (validate_text deploy_id) db (\<lambda>_.
       write_transaction (finalise_in deploy_id files finalised_at_ms event) db)"

section \<open>Failure, rollback and deletion\<close>

definition fail_in ::
  "string \<Rightarrow> string \<Rightarrow> string \<Rightarrow> nat \<Rightarrow> yard_database \<Rightarrow> RepositoryError + (YardDeployRecord \<times> yard_database)" where
  "fail_in deploy_id code message failed_at_ms db =
     and_then (deploy_by_id db deploy_id) (\<lambda>d.
       if ydr_status d \<in> {YdFailed, YdPruned} then Ok (d, db)
       else
         and_then (validate_failure d code message failed_at_ms) (\<lambda>failed_at.
         and_then (update_rows (\<lambda>r. yd_id r = ydr_id d \<and> yd_status r \<in> {''uploading'', ''finalising''})
           (\<lambda>r. r\<lparr>yd_status := ''failed'', yd_failure_code := Some code, yd_failure_message := Some message\<rparr>)
           yard_deploy_check (yard_deploys db)) (\<lambda>(_, rows).
         and_then (yard_by_id (db\<lparr>yard_deploys := rows\<rparr>) (ydr_yard_id d)) (\<lambda>y.
         and_then (prune (wyr_id y) (wyr_current_deploy_id y) failed_at (db\<lparr>yard_deploys := rows\<rparr>)) (\<lambda>db.
         and_then (deploy_by_id db (ydr_id d)) (\<lambda>d. Ok (d, db)))))))"

definition fail_yard_deploy ::
  "yard_database \<Rightarrow> string \<Rightarrow> string \<Rightarrow> string \<Rightarrow> nat \<Rightarrow> YardDeployRecord yard_outcome" where
  "fail_yard_deploy db deploy_id failure_code failure_message failed_at_ms =
     after (validate_text deploy_id) db (\<lambda>_.
       write_transaction (fail_in deploy_id failure_code failure_message failed_at_ms) db)"

definition rollback_target ::
  "yard_database \<Rightarrow> WebYardRecord \<Rightarrow> string option \<Rightarrow> RepositoryError + YardDeployRecord" where
  "rollback_target db y selected =
     and_then (list_candidates db (wyr_id y)) (\<lambda>deploys.
       ok_or NotFound (find (\<lambda>d. ydr_status d = YdSuperseded \<and> ydr_finalised_at_ms d \<noteq> None
         \<and> Some (ydr_id d) \<noteq> wyr_current_deploy_id y
         \<and> (case selected of None \<Rightarrow> True | Some k \<Rightarrow> k = ydr_id d)) deploys))"

definition rollback_in ::
  "string \<Rightarrow> string option \<Rightarrow> nat \<Rightarrow> NewAuditEvent \<Rightarrow> yard_database
     \<Rightarrow> RepositoryError + (YardDeploymentRecord \<times> yard_database)" where
  "rollback_in yard_id deploy_id rolled_back_at_ms event db =
     and_then (yard_by_id db yard_id) (\<lambda>y.
       if wyr_status y \<noteq> WyActive then Err NotFound
       else
         and_then (rollback_target db y deploy_id) (\<lambda>target.
         and_then (action_event event ''yard.rolled_back'' ''yard_deploy'' (wyr_workspace_id y) rolled_back_at_ms
           [(''deployId'', AvString (ydr_id target)), (''yardId'', AvString (wyr_id y))]) (\<lambda>rolled_back_at.
         and_then (update_rows (\<lambda>r. Some (yd_id r) = wyr_current_deploy_id y \<and> yd_status r = ''live'')
           (\<lambda>r. r\<lparr>yd_status := ''superseded''\<rparr>) yard_deploy_check (yard_deploys db)) (\<lambda>(_, deploys).
         and_then (update_rows (\<lambda>r. yd_id r = ydr_id target \<and> yd_status r = ''superseded'')
           (\<lambda>r. r\<lparr>yd_status := ''live''\<rparr>) yard_deploy_check deploys) (\<lambda>(_, deploys).
         and_then (update_rows (\<lambda>r. wy_id r = wyr_id y \<and> wy_status r = ''active'')
           (\<lambda>r. r\<lparr>wy_current_deploy_id := Some (ydr_id target), wy_updated_at_ms := rolled_back_at\<rparr>) web_yard_check
           (web_yards db)) (\<lambda>(_, yards).
         and_then (yard_audit (db\<lparr>yard_deploys := deploys, web_yards := yards\<rparr>) event) (\<lambda>db.
         and_then (yard_by_id db (wyr_id y)) (\<lambda>y.
         and_then (deploy_by_id db (ydr_id target)) (\<lambda>d.
           Ok (\<lparr>ydm_yard = y, ydm_deploy = d\<rparr>, db))))))))))"

definition rollback_web_yard ::
  "yard_database \<Rightarrow> string \<Rightarrow> string option \<Rightarrow> nat \<Rightarrow> NewAuditEvent \<Rightarrow> YardDeploymentRecord yard_outcome" where
  "rollback_web_yard db yard_id deploy_id rolled_back_at_ms event =
     after (and_then (validate_text yard_id) (\<lambda>_.
            case deploy_id of None \<Rightarrow> Ok () | Some d \<Rightarrow> validate_text d)) db (\<lambda>_.
       write_transaction (rollback_in yard_id deploy_id rolled_back_at_ms event) db)"

definition delete_in ::
  "string \<Rightarrow> nat \<Rightarrow> NewAuditEvent \<Rightarrow> yard_database \<Rightarrow> RepositoryError + (bool \<times> yard_database)" where
  "delete_in yard_id deleted_at_ms event db =
     and_then (yard_by_id db yard_id) (\<lambda>y.
       if wyr_status y = WyDeleted then Ok (False, db)
       else
         and_then (action_event event ''yard.deleted'' ''web_yard'' (wyr_workspace_id y) deleted_at_ms
           [(''yardId'', AvString (wyr_id y))]) (\<lambda>deleted_at.
         and_then (prune_all (wyr_id y) deleted_at db) (\<lambda>db.
         and_then (update_rows (\<lambda>r. wy_id r = wyr_id y \<and> wy_status r \<noteq> ''deleted'')
           (\<lambda>r. r\<lparr>wy_current_deploy_id := None, wy_status := ''deleted'', wy_updated_at_ms := deleted_at,
                  wy_deleted_at_ms := Some deleted_at\<rparr>) web_yard_check (web_yards db)) (\<lambda>(_, yards).
         and_then (yard_audit (db\<lparr>web_yards := yards\<rparr>) event) (\<lambda>db. Ok (True, db))))))"

definition delete_web_yard :: "yard_database \<Rightarrow> string \<Rightarrow> nat \<Rightarrow> NewAuditEvent \<Rightarrow> bool yard_outcome" where
  "delete_web_yard db yard_id deleted_at_ms event =
     after (validate_text yard_id) db (\<lambda>_. write_transaction (delete_in yard_id deleted_at_ms event) db)"

section \<open>Serving\<close>

text \<open>A stable host label names the current deploy of its yard, another one a retained deploy.\<close>

definition stable_deploy :: "yard_database \<Rightarrow> string \<Rightarrow> RepositoryError + YardDeployRecord option" where
  "stable_deploy db host_label =
     query_optional (\<lambda>(y, d). wy_host_label y = host_label \<and> wy_status y = ''active''
         \<and> wy_current_deploy_id y = Some (yd_id d) \<and> yd_yard_id d = wy_id y \<and> yd_status d = ''live'')
       (\<lambda>(y, d). deploy d) (List.product (web_yards db) (yard_deploys db))"

definition immutable_deploy :: "yard_database \<Rightarrow> string \<Rightarrow> RepositoryError + YardDeployRecord option" where
  "immutable_deploy db host_label =
     query_optional (\<lambda>(d, y). yd_deployment_host_label d = host_label \<and> wy_id y = yd_yard_id d
         \<and> wy_status y = ''active'' \<and> yd_status d \<in> {''live'', ''superseded''})
       (\<lambda>(d, y). deploy d) (List.product (yard_deploys db) (web_yards db))"

definition serving_deploy :: "yard_database \<Rightarrow> string \<Rightarrow> RepositoryError + YardDeployRecord" where
  "serving_deploy db host_label =
     and_then (stable_deploy db host_label) (\<lambda>stable.
       case stable of
         Some d \<Rightarrow> Ok d
       | None \<Rightarrow> and_then (immutable_deploy db host_label) (ok_or NotFound))"

definition extensionless :: "string \<Rightarrow> bool" where
  "extensionless path \<longleftrightarrow> CHR ''.'' \<notin> set (last (split_on CHR ''/'' path))"

definition resolution_candidates :: "string \<Rightarrow> YardDeployRecord \<Rightarrow> (string \<times> bool) list" where
  "resolution_candidates path d =
     (let trimmed = (case strip_suffix ''/'' path of None \<Rightarrow> path | Some t \<Rightarrow> t)
      in (if path = [] then [(''index.html'', False)]
          else (if path = trimmed then [(trimmed, False)] else [])
               @ [(trimmed @ ''/index.html'', False)]
               @ (if ydr_clean_urls d \<and> extensionless trimmed then [(trimmed @ ''.html'', False)] else [])
               @ (if ydr_spa d \<and> extensionless trimmed then [(''index.html'', False)] else []))
         @ [(''404.html'', True)])"

definition file_by_path :: "yard_database \<Rightarrow> string \<Rightarrow> string \<Rightarrow> RepositoryError + StoredObjectRecord option" where
  "file_by_path db deploy_id normalized_path =
     query_optional (\<lambda>(f, v, r). yf_deploy_id f = deploy_id \<and> yf_normalized_path f = normalized_path
         \<and> yf_version_id f = Some (ov_id v) \<and> ur_version_id r = ov_id v \<and> ov_state v = ''complete'')
       (\<lambda>(f, v, r). stored_object (v, r))
       (List.product (yard_deploy_files db)
         (List.product (object_versions (repository db)) (upload_reservations (repository db))))"

fun first_file ::
  "yard_database \<Rightarrow> string \<Rightarrow> (string \<times> bool) list \<Rightarrow> RepositoryError + YardFileTarget" where
  "first_file db deploy_id [] = Err NotFound"
| "first_file db deploy_id ((path, not_found_document) # candidates) =
     and_then (file_by_path db deploy_id path) (\<lambda>found.
       case found of
         Some stored \<Rightarrow> Ok \<lparr>yft_object = stored, yft_not_found_document = not_found_document\<rparr>
       | None \<Rightarrow> first_file db deploy_id candidates)"

end
