(* ===== verification/Yard_Invariants.thy ===== *)
theory Yard_Invariants
  imports Yards
begin

text \<open>
  The invariant of the Web Yard tables. A yard that names a current deploy names the one live deploy
  among its own, and no deploy is live otherwise; a deploy has files exactly while it is retained
  after finalising, as many as it counted, an index among them; and a deleted yard has only pruned
  deploys. Each way the statements change the tables is shown to keep it.
\<close>

section \<open>Decoders\<close>

lemma stored_slug_Ok_iff [result_simps]: "stored_slug s = Ok x \<longleftrightarrow> slug_new s = Ok x"
  by (simp add: stored_slug_def result_simps)

lemma yard_Ok_iff:
  "yard r = Ok x \<longleftrightarrow>
     slug_new (wy_name r) = Ok (wyr_name x) \<and> wy_status r = web_yard_status_as_str (wyr_status x)
     \<and> wy_created_at_ms r = int (wyr_created_at_ms x) \<and> wy_updated_at_ms r = int (wyr_updated_at_ms x)
     \<and> wy_deleted_at_ms r = map_option int (wyr_deleted_at_ms x)
     \<and> wyr_id x = wy_id r \<and> wyr_workspace_id x = wy_workspace_id r \<and> wyr_project_id x = wy_project_id r
     \<and> wyr_host_label x = wy_host_label r \<and> wyr_current_deploy_id x = wy_current_deploy_id r"
  by (cases x) (auto simp: yard_def result_simps web_yard_status.parse_iff)

lemma deploy_Ok_iff:
  "deploy r = Ok x \<longleftrightarrow>
     yd_status r = yard_deploy_status_as_str (ydr_status x)
     \<and> yd_created_at_ms r = int (ydr_created_at_ms x) \<and> yd_finalised_at_ms r = map_option int (ydr_finalised_at_ms x)
     \<and> yd_file_count r = int (ydr_file_count x) \<and> yd_total_bytes r = int (ydr_total_bytes x)
     \<and> ydr_id x = yd_id r \<and> ydr_yard_id x = yd_yard_id r \<and> ydr_workspace_id x = yd_workspace_id r
     \<and> ydr_project_id x = yd_project_id r \<and> ydr_client_deploy_id x = yd_client_deploy_id r
     \<and> ydr_manifest_root x = yd_manifest_root r \<and> ydr_deployment_host_label x = yd_deployment_host_label r
     \<and> ydr_spa x = (yd_spa r \<noteq> 0) \<and> ydr_clean_urls x = (yd_clean_urls r \<noteq> 0)"
  by (cases x) (auto simp: deploy_def result_simps yard_deploy_status.parse_iff)

lemma yard_by_id_D:
  assumes "yard_by_id db uid = Ok y"
  obtains r where "r \<in> set (web_yards db)" and "wy_id r = uid" and "yard r = Ok y"
  using query_row_Ok_D [OF assms [unfolded yard_by_id_def]] by blast

lemma deploy_by_id_D:
  assumes "deploy_by_id db uid = Ok d"
  obtains r where "r \<in> set (yard_deploys db)" and "yd_id r = uid" and "deploy r = Ok d"
  using query_row_Ok_D [OF assms [unfolded deploy_by_id_def]] by blast

lemma query_optional_Ok_iff:
  "query_optional selected decode rows = Ok v \<longleftrightarrow>
     (case v of None \<Rightarrow> find selected rows = None
      | Some x \<Rightarrow> \<exists>r. find selected rows = Some r \<and> decode r = Ok x)"
  by (cases v) (auto simp: query_optional_def result_simps split: option.split)

lemma status_distinct [simp]:
  "web_yard_status_as_str s = ''active'' \<longleftrightarrow> s = WyActive" "web_yard_status_as_str s = ''deleted'' \<longleftrightarrow> s = WyDeleted"
  "yard_deploy_status_as_str t = ''live'' \<longleftrightarrow> t = YdLive" "yard_deploy_status_as_str t = ''superseded'' \<longleftrightarrow> t = YdSuperseded"
  "yard_deploy_status_as_str t = ''pruned'' \<longleftrightarrow> t = YdPruned" "yard_deploy_status_as_str t = ''failed'' \<longleftrightarrow> t = YdFailed"
  "yard_deploy_status_as_str t = ''uploading'' \<longleftrightarrow> t = YdUploading" "yard_deploy_status_as_str t = ''finalising'' \<longleftrightarrow> t = YdFinalising"
  by (cases s; simp)+ (cases t; simp)+

lemma status_distinct_sym [simp]:
  "''active'' = web_yard_status_as_str s \<longleftrightarrow> s = WyActive" "''deleted'' = web_yard_status_as_str s \<longleftrightarrow> s = WyDeleted"
  "''live'' = yard_deploy_status_as_str t \<longleftrightarrow> t = YdLive" "''superseded'' = yard_deploy_status_as_str t \<longleftrightarrow> t = YdSuperseded"
  "''pruned'' = yard_deploy_status_as_str t \<longleftrightarrow> t = YdPruned" "''failed'' = yard_deploy_status_as_str t \<longleftrightarrow> t = YdFailed"
  "''uploading'' = yard_deploy_status_as_str t \<longleftrightarrow> t = YdUploading" "''finalising'' = yard_deploy_status_as_str t \<longleftrightarrow> t = YdFinalising"
  by (cases s; simp)+ (cases t; simp)+

section \<open>The invariant\<close>

definition finalised :: "yard_deploy_row \<Rightarrow> bool" where
  "finalised d \<longleftrightarrow> yd_status d \<in> {''live'', ''superseded''}"

definition yard_of :: "yard_deploy_row \<Rightarrow> web_yard_row \<Rightarrow> bool" where
  "yard_of d y \<longleftrightarrow>
     wy_id y = yd_yard_id d \<and> wy_workspace_id y = yd_workspace_id d \<and> wy_project_id y = yd_project_id d
     \<and> (wy_status y = ''deleted'' \<longrightarrow> yd_status d = ''pruned'')"

definition deploy_files :: "yard_file_row list \<Rightarrow> string \<Rightarrow> yard_file_row list" where
  "deploy_files fs uid = filter (\<lambda>f. yf_deploy_id f = uid) fs"

definition file_complete :: "yard_file_row list \<Rightarrow> yard_deploy_row \<Rightarrow> bool" where
  "file_complete fs d \<longleftrightarrow>
     (if finalised d
      then yd_file_count d = int (length (deploy_files fs (yd_id d)))
           \<and> ''index.html'' \<in> yf_normalized_path ` set (deploy_files fs (yd_id d))
      else deploy_files fs (yd_id d) = [])"

definition yards_ok :: "web_yard_row list \<Rightarrow> bool" where
  "yards_ok ys \<longleftrightarrow>
     distinct (map wy_id ys) \<and> distinct (map wy_host_label ys)
     \<and> (\<forall>y \<in> set ys. web_yard_check y \<and> is_ok (slug_new (wy_name y)))"

definition deploys_ok :: "web_yard_row list \<Rightarrow> yard_deploy_row list \<Rightarrow> bool" where
  "deploys_ok ys ds \<longleftrightarrow>
     distinct (map yd_id ds) \<and> distinct (map yd_client_deploy_id ds) \<and> distinct (map yd_deployment_host_label ds)
     \<and> (\<forall>d \<in> set ds. yard_deploy_check d \<and> (\<exists>y \<in> set ys. yard_of d y))"

definition files_ok :: "yard_deploy_row list \<Rightarrow> yard_file_row list \<Rightarrow> bool" where
  "files_ok ds fs \<longleftrightarrow>
     distinct (map (\<lambda>f. (yf_deploy_id f, yf_normalized_path f)) fs)
     \<and> (\<forall>f \<in> set fs. yf_deploy_id f \<in> yd_id ` set ds) \<and> (\<forall>d \<in> set ds. file_complete fs d)"

definition alias_of :: "yard_deploy_row list \<Rightarrow> web_yard_row \<Rightarrow> bool" where
  "alias_of ds y \<longleftrightarrow>
     (\<forall>d \<in> set ds. yd_yard_id d = wy_id y \<longrightarrow> (yd_status d = ''live'' \<longleftrightarrow> wy_current_deploy_id y = Some (yd_id d)))
     \<and> (case wy_current_deploy_id y of None \<Rightarrow> True | Some c \<Rightarrow> \<exists>d \<in> set ds. yd_id d = c \<and> yd_yard_id d = wy_id y)"

definition yard_core :: "yard_database \<Rightarrow> bool" where
  "yard_core db \<longleftrightarrow> yards_ok (web_yards db) \<and> deploys_ok (web_yards db) (yard_deploys db)
     \<and> files_ok (yard_deploys db) (yard_deploy_files db)"

definition yard_inv :: "yard_database \<Rightarrow> bool" where
  "yard_inv db \<longleftrightarrow> yard_core db \<and> (\<forall>y \<in> set (web_yards db). alias_of (yard_deploys db) y)"

lemma yard_invD:
  assumes "yard_inv db"
  shows "yards_ok (web_yards db)" and "deploys_ok (web_yards db) (yard_deploys db)"
    and "files_ok (yard_deploys db) (yard_deploy_files db)"
    and "\<And>y. y \<in> set (web_yards db) \<Longrightarrow> alias_of (yard_deploys db) y"
  using assms by (simp_all add: yard_inv_def yard_core_def)

lemma yard_inv_repository [simp]: "yard_inv (db\<lparr>repository := m\<rparr>) = yard_inv db"
  by (simp add: yard_inv_def yard_core_def)

lemma yard_inv_environments [simp]: "yard_inv (db\<lparr>yard_environments := es\<rparr>) = yard_inv db"
  by (simp add: yard_inv_def yard_core_def)

lemma yard_audit_D:
  assumes "yard_audit db event = Ok db'"
  obtains m where "audit_insert (repository db) event = Ok m" and "db' = db\<lparr>repository := m\<rparr>"
  using assms by (auto simp: yard_audit_def result_simps)

lemma yard_unique:
  assumes "yards_ok ys" and "y \<in> set ys" and "z \<in> set ys" and "wy_id y = wy_id z"
  shows "y = z"
  using assms distinct_map_eq [of wy_id ys] by (auto simp: yards_ok_def)

lemma deploy_unique:
  assumes "deploys_ok ys ds" and "d \<in> set ds" and "e \<in> set ds" and "yd_id d = yd_id e"
  shows "d = e"
  using assms distinct_map_eq [of yd_id ds] by (auto simp: deploys_ok_def)

section \<open>Changes of deploys\<close>

definition deploy_change :: "(yard_deploy_row \<Rightarrow> yard_deploy_row) \<Rightarrow> bool" where
  "deploy_change f \<longleftrightarrow> (\<forall>d. yd_id (f d) = yd_id d \<and> yd_yard_id (f d) = yd_yard_id d
     \<and> yd_workspace_id (f d) = yd_workspace_id d \<and> yd_project_id (f d) = yd_project_id d
     \<and> yd_client_deploy_id (f d) = yd_client_deploy_id d
     \<and> yd_deployment_host_label (f d) = yd_deployment_host_label d)"

lemma deploy_changeD:
  assumes "deploy_change f"
  shows "yd_id (f d) = yd_id d" and "yd_yard_id (f d) = yd_yard_id d" and "yd_workspace_id (f d) = yd_workspace_id d"
    and "yd_project_id (f d) = yd_project_id d" and "yd_client_deploy_id (f d) = yd_client_deploy_id d"
    and "yd_deployment_host_label (f d) = yd_deployment_host_label d"
  using assms by (simp_all add: deploy_change_def)

lemma deploys_ok_change:
  assumes ok: "deploys_ok ys ds" and f: "deploy_change f"
    and check: "\<And>d. d \<in> set ds \<Longrightarrow> yard_deploy_check (f d)"
    and dead: "\<And>d y. d \<in> set ds \<Longrightarrow> y \<in> set ys \<Longrightarrow> yard_of d y \<Longrightarrow> wy_status y = ''deleted'' \<Longrightarrow> yd_status (f d) = ''pruned''"
  shows "deploys_ok ys (map f ds)"
proof -
  have maps: "map yd_id (map f ds) = map yd_id ds" "map yd_client_deploy_id (map f ds) = map yd_client_deploy_id ds"
      "map yd_deployment_host_label (map f ds) = map yd_deployment_host_label ds"
    by (simp_all add: deploy_changeD [OF f])
  have "yard_deploy_check d \<and> (\<exists>y \<in> set ys. yard_of d y)" if d: "d \<in> set (map f ds)" for d
  proof -
    obtain e where e: "e \<in> set ds" "d = f e" using d by auto
    obtain y where y: "y \<in> set ys" "yard_of e y" using ok e(1) by (auto simp: deploys_ok_def)
    have "yard_of d y" using y(2) dead [OF e(1) y] by (simp add: e(2) yard_of_def deploy_changeD [OF f])
    then show ?thesis using y(1) check [OF e(1)] e(2) by blast
  qed
  then show ?thesis using ok unfolding deploys_ok_def maps by blast
qed

lemma file_complete_cong:
  assumes "finalised d = finalised e" and "yd_file_count d = yd_file_count e" and "yd_id d = yd_id e"
    and "deploy_files fs (yd_id d) = deploy_files gs (yd_id d)"
  shows "file_complete fs d = file_complete gs e"
  using assms by (simp add: file_complete_def)

lemma files_ok_change:
  assumes ok: "files_ok ds fs" and f: "deploy_change f"
    and keys: "distinct (map (\<lambda>f. (yf_deploy_id f, yf_normalized_path f)) gs)"
    and sub: "\<And>g. g \<in> set gs \<Longrightarrow> yf_deploy_id g \<in> yd_id ` set ds"
    and each: "\<And>d. d \<in> set ds \<Longrightarrow> file_complete fs d \<Longrightarrow> file_complete gs (f d)"
  shows "files_ok (map f ds) gs"
  unfolding files_ok_def
proof (intro conjI ballI)
  fix g
  assume "g \<in> set gs"
  from sub [OF this] show "yf_deploy_id g \<in> yd_id ` set (map f ds)"
    using deploy_changeD(1) [OF f] by (auto simp: image_iff)
next
  fix d
  assume "d \<in> set (map f ds)"
  then obtain e where "e \<in> set ds" "d = f e" by auto
  then show "file_complete gs d" using each ok by (simp add: files_ok_def)
qed (rule keys)

text \<open>A change that leaves the files and what they depend on.\<close>

lemma files_ok_same:
  assumes ok: "files_ok ds fs" and f: "deploy_change f"
    and "\<And>d. d \<in> set ds \<Longrightarrow> finalised (f d) = finalised d \<and> yd_file_count (f d) = yd_file_count d"
  shows "files_ok (map f ds) fs"
proof (rule files_ok_change [OF ok f])
  fix d
  assume d: "d \<in> set ds" and "file_complete fs d"
  then show "file_complete fs (f d)"
    using assms(3) [OF d] by (simp add: file_complete_def deploy_changeD [OF f])
qed (use ok in \<open>auto simp: files_ok_def\<close>)

lemma alias_of_change:
  assumes "alias_of ds y" and f: "deploy_change f"
    and "\<And>d. d \<in> set ds \<Longrightarrow> yd_yard_id d = wy_id y \<Longrightarrow> (yd_status (f d) = ''live'') = (yd_status d = ''live'')"
  shows "alias_of (map f ds) y"
  using assms(1,3) by (auto simp: alias_of_def deploy_changeD [OF f] split: option.split_asm)

end
