(* ===== verification/Yard_Histories.thy ===== *)
theory Yard_Histories
  imports Yard_Invariants
begin

text \<open>
  Every operation of the Web Yards keeps their invariant; the service as commands.
\<close>

section \<open>Starting a deploy\<close>

definition new_yard_row :: "NewWebYard \<Rightarrow> int \<Rightarrow> web_yard_row" where
  "new_yard_row y created_at =
     \<lparr>wy_id = nwy_id y, wy_workspace_id = nwy_workspace_id y, wy_project_id = nwy_project_id y,
      wy_name = slug_as_str (nwy_name y), wy_host_label = nwy_host_label y, wy_current_deploy_id = None,
      wy_status = ''active'', wy_created_at_ms = created_at, wy_updated_at_ms = created_at, wy_deleted_at_ms = None\<rparr>"

definition new_deploy_row :: "WebYardRecord \<Rightarrow> NewYardDeploy \<Rightarrow> int \<Rightarrow> yard_deploy_row" where
  "new_deploy_row y d created_at =
     \<lparr>yd_id = nyd_id d, yd_yard_id = wyr_id y, yd_workspace_id = wyr_workspace_id y,
      yd_project_id = wyr_project_id y, yd_client_deploy_id = nyd_client_deploy_id d,
      yd_manifest_root = manifest_root_of (wyr_id y) (nyd_client_deploy_id d),
      yd_deployment_host_label = nyd_deployment_host_label d, yd_spa = sql_bool (nyd_spa d),
      yd_clean_urls = sql_bool (nyd_clean_urls d), yd_status = ''uploading'', yd_created_at_ms = created_at,
      yd_finalised_at_ms = None, yd_file_count = 0, yd_total_bytes = 0, yd_failure_code = None,
      yd_failure_message = None, yd_pruned_at_ms = None\<rparr>"

lemma insert_yard_D:
  assumes "insert_yard db y t = Ok db'"
  shows "db' = db\<lparr>web_yards := web_yards db @ [new_yard_row y t]\<rparr>" and "web_yard_allowed db (new_yard_row y t)"
  using assms by (auto simp: insert_yard_def result_simps Let_def new_yard_row_def split: if_split_asm)

lemma insert_deploy_D:
  assumes "insert_deploy db y d t = Ok db'"
  shows "db' = db\<lparr>yard_deploys := yard_deploys db @ [new_deploy_row y d t]\<rparr>"
    and "yard_deploy_allowed db (new_deploy_row y d t)"
  using assms by (auto simp: insert_deploy_def result_simps Let_def new_deploy_row_def)

lemma insert_production_environment_D:
  assumes "insert_production_environment db uid t = Ok db'"
  obtains es where "db' = db\<lparr>yard_environments := es\<rparr>"
  using assms by (auto simp: insert_production_environment_def result_simps Let_def)

lemma distinct_map_snoc: "distinct (map k (xs @ [x])) \<longleftrightarrow> distinct (map k xs) \<and> (\<forall>r \<in> set xs. k r \<noteq> k x)"
  by (auto simp: image_iff)

lemma yard_insert_inv:
  assumes inv: "yard_inv db" and allowed: "web_yard_allowed db y" and new: "wy_current_deploy_id y = None"
    and slug: "is_ok (slug_new (wy_name y))"
  shows "yard_inv (db\<lparr>web_yards := web_yards db @ [y]\<rparr>)"
proof -
  note I = yard_invD [OF inv]
  have fresh: "wy_id r \<noteq> wy_id y" "wy_host_label r \<noteq> wy_host_label y" if "r \<in> set (web_yards db)" for r
    using allowed that by (auto simp: web_yard_allowed_def list_ex_iff)
  have "yards_ok (web_yards db @ [y])"
    using I(1) slug allowed fresh unfolding yards_ok_def distinct_map_snoc by (simp add: web_yard_allowed_def)
  moreover have deploys: "deploys_ok (web_yards db @ [y]) (yard_deploys db)"
    using I(2) by (auto simp: deploys_ok_def)
  moreover have "alias_of (yard_deploys db) y"
  proof -
    have "yd_yard_id d \<noteq> wy_id y" if "d \<in> set (yard_deploys db)" for d
      using I(2) that fresh(1) by (fastforce simp: deploys_ok_def yard_of_def)
    then show ?thesis by (simp add: alias_of_def new)
  qed
  ultimately show ?thesis using I(3,4) by (auto simp: yard_inv_def yard_core_def)
qed

lemma deploy_insert_inv:
  assumes inv: "yard_inv db" and allowed: "yard_deploy_allowed db d" and y: "y \<in> set (web_yards db)" "yard_of d y"
    and new: "yd_status d = ''uploading''"
  shows "yard_inv (db\<lparr>yard_deploys := yard_deploys db @ [d]\<rparr>)"
proof -
  note I = yard_invD [OF inv]
  have fresh: "yd_id r \<noteq> yd_id d" "yd_client_deploy_id r \<noteq> yd_client_deploy_id d"
      "yd_deployment_host_label r \<noteq> yd_deployment_host_label d" if "r \<in> set (yard_deploys db)" for r
    using allowed that by (auto simp: yard_deploy_allowed_def list_ex_iff)
  have "deploys_ok (web_yards db) (yard_deploys db @ [d])"
    using I(2) y allowed fresh unfolding deploys_ok_def distinct_map_snoc by (auto simp: yard_deploy_allowed_def)
  moreover have "files_ok (yard_deploys db @ [d]) (yard_deploy_files db)"
  proof -
    have "yf_deploy_id f \<noteq> yd_id d" if "f \<in> set (yard_deploy_files db)" for f
      using I(3) fresh(1) that by (fastforce simp: files_ok_def)
    then have "file_complete (yard_deploy_files db) d"
      by (simp add: file_complete_def finalised_def new deploy_files_def filter_empty_conv)
    then show ?thesis using I(3) by (auto simp: files_ok_def)
  qed
  moreover have "alias_of (yard_deploys db @ [d]) z" if z: "z \<in> set (web_yards db)" for z
  proof -
    note a = I(4) [OF z]
    have "wy_current_deploy_id z \<noteq> Some (yd_id d)"
      using a fresh(1) by (auto simp: alias_of_def split: option.split_asm)
    then show ?thesis using a by (auto simp: alias_of_def new split: option.split_asm)
  qed
  ultimately show ?thesis using I(1) by (simp add: yard_inv_def yard_core_def)
qed

lemma select_yard_inv:
  assumes inv: "yard_inv db" and sel: "select_yard db y event t = Ok (x, db')"
  obtains r where "yard_inv db'" and "r \<in> set (web_yards db')" and "yard r = Ok x" and "wy_status r = ''active''"
    and "yard_deploys db' = yard_deploys db" and "yard_deploy_files db' = yard_deploy_files db"
    and "set (web_yards db) \<subseteq> set (web_yards db')" and "wy_name r = slug_as_str (nwy_name y)"
    and "wy_project_id r = nwy_project_id y" and "wy_workspace_id r = nwy_workspace_id y"
proof -
  obtain found where found: "active_named_yard db (nwy_project_id y) (slug_as_str (nwy_name y)) = Ok found"
    using sel by (auto simp: select_yard_def result_simps)
  show thesis
  proof (cases found)
    case (Some e)
    with sel found have e: "x = e" "db' = db" "wyr_status e = WyActive" "wyr_workspace_id e = nwy_workspace_id y"
      by (auto simp: select_yard_def split: if_split_asm)
    obtain r where "find (\<lambda>r. wy_project_id r = nwy_project_id y \<and> wy_name r = slug_as_str (nwy_name y)
        \<and> wy_status r \<noteq> ''deleted'') (web_yards db) = Some r" and dec: "yard r = Ok e"
      using found Some by (auto simp: active_named_yard_def query_optional_Ok_iff)
    from find_Some_iff_first [OF this(1)] show thesis
      using that [of r] e inv dec by (simp add: yard_Ok_iff)
  next
    case None
    obtain db1 db2 db3 where ins: "insert_yard db y t = Ok db1" and env: "insert_production_environment db1 (nwy_id y) t = Ok db2"
      and aud: "yard_audit db2 event = Ok db3" and get: "yard_by_id db3 (nwy_id y) = Ok x" and eq: "db' = db3"
      using sel found None by (auto simp: select_yard_def result_simps)
    note i = insert_yard_D [OF ins]
    obtain es where es: "db2 = db1\<lparr>yard_environments := es\<rparr>" by (rule insert_production_environment_D [OF env])
    obtain m where m: "db3 = db2\<lparr>repository := m\<rparr>" by (rule yard_audit_D [OF aud])
    have tables: "web_yards db' = web_yards db @ [new_yard_row y t]" "yard_deploys db' = yard_deploys db"
        "yard_deploy_files db' = yard_deploy_files db"
      using i(1) es m eq by simp_all
    obtain r where r: "r \<in> set (web_yards db')" "wy_id r = nwy_id y" "yard r = Ok x"
      using get eq by (auto elim: yard_by_id_D)
    have "wy_id q \<noteq> nwy_id y" if "q \<in> set (web_yards db)" for q
      using i(2) that by (auto simp: web_yard_allowed_def new_yard_row_def list_ex_iff)
    then have row: "r = new_yard_row y t" using r(1,2) tables(1) by auto
    have "yard_inv db1" unfolding i(1)
      using r(3) by (intro yard_insert_inv [OF inv i(2)]) (auto simp: row new_yard_row_def yard_Ok_iff)
    then have "yard_inv db'" using es m eq by simp
    then show thesis using that [of r] r tables row by (simp add: new_yard_row_def subset_insertI)
  qed
qed

lemma start_in_D:
  assumes "start_in y d event db = Ok (x, db')"
  obtains (reused) e where "db' = db" and "deploy_by_client_id db (nyd_client_deploy_id d) = Ok (Some e)"
      and "reused db y d e = Ok x"
    | (started) selected db1 t1 t2 started where "deploy_by_client_id db (nyd_client_deploy_id d) = Ok None"
      and "validate_start y d event = Ok (t1, t2)"
      and "select_yard db y event t1 = Ok (selected, db1)" and "insert_deploy db1 selected d t2 = Ok db'"
      and "deploy_by_id db' (nyd_id d) = Ok started" and "x = \<lparr>ysr_yard = selected, ysr_deploy = started\<rparr>"
proof -
  obtain t1 t2 found where v: "validate_start y d event = Ok (t1, t2)"
    and found: "deploy_by_client_id db (nyd_client_deploy_id d) = Ok found"
    using assms by (auto simp: start_in_def result_simps)
  show thesis
  proof (cases found)
    case None
    with v found assms show thesis by (auto simp: start_in_def result_simps intro: started)
  next
    case (Some e)
    with v found assms show thesis by (auto simp: start_in_def result_simps intro: reused)
  qed
qed

lemma start_inv:
  assumes inv: "yard_inv db" and ok: "start_yard_deploy db y d event = (Ok x, db')"
  shows "yard_inv db'"
  using ok [unfolded start_yard_deploy_def write_transaction_Ok_iff]
proof (cases rule: start_in_D)
  case reused
  then show ?thesis using inv by simp
next
  case (started selected db1 t1 t2 s)
  obtain r where r: "yard_inv db1" "r \<in> set (web_yards db1)" "yard r = Ok selected" "wy_status r = ''active''"
    by (rule select_yard_inv [OF inv started(3)])
  note i = insert_deploy_D [OF started(4)]
  show ?thesis unfolding i(1)
    by (rule deploy_insert_inv [OF r(1) i(2) r(2)])
       (use r(3,4) in \<open>auto simp: yard_of_def new_deploy_row_def yard_Ok_iff\<close>)
qed

section \<open>Pruning\<close>

definition pruned_row :: "string list \<Rightarrow> int \<Rightarrow> yard_deploy_row \<Rightarrow> yard_deploy_row" where
  "pruned_row ids t r =
     (if yd_id r \<in> set ids \<and> yd_status r \<noteq> ''pruned'' then r\<lparr>yd_status := ''pruned'', yd_pruned_at_ms := Some t\<rparr> else r)"

lemma pruned_row_change: "deploy_change (pruned_row ids t)"
  by (simp add: deploy_change_def pruned_row_def)

lemma pruned_row_status: "yd_status (pruned_row ids t r) = (if yd_id r \<in> set ids then ''pruned'' else yd_status r)"
  by (simp add: pruned_row_def)

lemma plan_D:
  assumes "plan db uid t = Ok db'"
  obtains m where "db' = db\<lparr>repository := m\<rparr>"
  using assms that [of "repository db"] by (auto simp: plan_def result_simps Let_def split: if_split_asm)

lemma mark_pruned_D:
  assumes "mark_pruned uid t db = Ok db'"
  obtains m where "db' = db\<lparr>repository := m, yard_deploys := map (pruned_row [uid] t) (yard_deploys db),
      yard_deploy_files := filter (\<lambda>f. yf_deploy_id f \<noteq> uid) (yard_deploy_files db)\<rparr>"
    and "\<And>r. r \<in> set (yard_deploys db) \<Longrightarrow> yard_deploy_check r \<Longrightarrow> yard_deploy_check (pruned_row [uid] t r)"
proof -
  obtain db1 n rows where p: "plan db uid t = Ok db1"
    and up: "update_rows (\<lambda>r. yd_id r = uid \<and> yd_status r \<noteq> ''pruned'')
        (\<lambda>r. r\<lparr>yd_status := ''pruned'', yd_pruned_at_ms := Some t\<rparr>) yard_deploy_check (yard_deploys db1) = Ok (n, rows)"
    and eq: "db' = db1\<lparr>yard_deploys := rows, yard_deploy_files := filter (\<lambda>f. yf_deploy_id f \<noteq> uid) (yard_deploy_files db1)\<rparr>"
    using assms by (auto simp: mark_pruned_def result_simps)
  obtain m where m: "db1 = db\<lparr>repository := m\<rparr>" by (rule plan_D [OF p])
  note u = update_rows_D [OF up]
  have "rows = map (pruned_row [uid] t) (yard_deploys db)" using u(1) m by (simp add: pruned_row_def)
  moreover have "yard_deploy_check (pruned_row [uid] t r)" if "r \<in> set (yard_deploys db)" "yard_deploy_check r" for r
    using u(3) [of r] that m by (simp add: pruned_row_def)
  ultimately show thesis using that [of m] eq m by simp
qed

lemma pruned_row_append: "pruned_row ids t (pruned_row [uid] t r) = pruned_row (uid # ids) t r"
  by (auto simp: pruned_row_def)

lemma prune_each_D:
  assumes "prune_each ids t db = Ok db'"
  obtains m where "db' = db\<lparr>repository := m, yard_deploys := map (pruned_row ids t) (yard_deploys db),
      yard_deploy_files := filter (\<lambda>f. yf_deploy_id f \<notin> set ids) (yard_deploy_files db)\<rparr>"
    and "\<And>r. r \<in> set (yard_deploys db) \<Longrightarrow> yard_deploy_check r \<Longrightarrow> yard_deploy_check (pruned_row ids t r)"
  using assms
proof (induction ids arbitrary: db thesis)
  case Nil
  then show ?case using Nil(1) [of "repository db"] by (simp add: pruned_row_def)
next
  case (Cons uid ids)
  obtain db1 where one: "mark_pruned uid t db = Ok db1" and rest: "prune_each ids t db1 = Ok db'"
    using Cons.prems(2) by (auto simp: result_simps)
  obtain m1 where m1: "db1 = db\<lparr>repository := m1, yard_deploys := map (pruned_row [uid] t) (yard_deploys db),
      yard_deploy_files := filter (\<lambda>f. yf_deploy_id f \<noteq> uid) (yard_deploy_files db)\<rparr>"
    and c1: "\<And>r. r \<in> set (yard_deploys db) \<Longrightarrow> yard_deploy_check r \<Longrightarrow> yard_deploy_check (pruned_row [uid] t r)"
    using mark_pruned_D [OF one] by blast
  show ?case
  proof (rule Cons.IH [OF _ rest])
    fix m
    assume m: "db' = db1\<lparr>repository := m, yard_deploys := map (pruned_row ids t) (yard_deploys db1),
        yard_deploy_files := filter (\<lambda>f. yf_deploy_id f \<notin> set ids) (yard_deploy_files db1)\<rparr>"
      and c: "\<And>r. r \<in> set (yard_deploys db1) \<Longrightarrow> yard_deploy_check r \<Longrightarrow> yard_deploy_check (pruned_row ids t r)"
    have "yard_deploy_check (pruned_row (uid # ids) t r)" if "r \<in> set (yard_deploys db)" "yard_deploy_check r" for r
      using c [of "pruned_row [uid] t r"] c1 [OF that] that(1) by (simp add: m1 pruned_row_append)
    moreover have "filter (\<lambda>f. yf_deploy_id f \<notin> set ids) (filter (\<lambda>f. yf_deploy_id f \<noteq> uid) (yard_deploy_files db))
        = filter (\<lambda>f. yf_deploy_id f \<notin> set (uid # ids)) (yard_deploy_files db)"
      by (simp add: conj_commute)
    ultimately show ?case
      using Cons.prems(1) [of m] by (simp add: m m1 comp_def pruned_row_append del: filter_filter)
  qed
qed

lemma deploy_files_filter:
  "deploy_files (filter (\<lambda>f. yf_deploy_id f \<notin> set ids) fs) uid = (if uid \<in> set ids then [] else deploy_files fs uid)"
  by (auto simp: deploy_files_def filter_empty_conv intro!: filter_cong)

lemma pruned_core:
  assumes core: "yard_core db" and run: "prune_each ids t db = Ok db'"
  shows "yard_core db'"
proof -
  obtain m where eq: "db' = db\<lparr>repository := m, yard_deploys := map (pruned_row ids t) (yard_deploys db),
      yard_deploy_files := filter (\<lambda>f. yf_deploy_id f \<notin> set ids) (yard_deploy_files db)\<rparr>"
    and check: "\<And>r. r \<in> set (yard_deploys db) \<Longrightarrow> yard_deploy_check r \<Longrightarrow> yard_deploy_check (pruned_row ids t r)"
    using prune_each_D [OF run] by blast
  have I: "yards_ok (web_yards db)" "deploys_ok (web_yards db) (yard_deploys db)" "files_ok (yard_deploys db) (yard_deploy_files db)"
    using core by (simp_all add: yard_core_def)
  have "deploys_ok (web_yards db) (map (pruned_row ids t) (yard_deploys db))"
    by (rule deploys_ok_change [OF I(2) pruned_row_change])
       (use I(2) check in \<open>auto simp: deploys_ok_def yard_of_def pruned_row_status\<close>)
  moreover have "files_ok (map (pruned_row ids t) (yard_deploys db)) (filter (\<lambda>f. yf_deploy_id f \<notin> set ids) (yard_deploy_files db))"
  proof (rule files_ok_change [OF I(3) pruned_row_change])
    show "distinct (map (\<lambda>f. (yf_deploy_id f, yf_normalized_path f)) (filter (\<lambda>f. yf_deploy_id f \<notin> set ids) (yard_deploy_files db)))"
      using I(3) by (simp add: files_ok_def distinct_map_filter)
    show "file_complete (filter (\<lambda>f. yf_deploy_id f \<notin> set ids) (yard_deploy_files db)) (pruned_row ids t d)"
      if "d \<in> set (yard_deploys db)" "file_complete (yard_deploy_files db) d" for d
      using that by (simp add: file_complete_def finalised_def pruned_row_def deploy_files_filter)
  qed (use I(3) in \<open>simp add: files_ok_def\<close>)
  ultimately show ?thesis using I(1) by (simp add: eq yard_core_def)
qed

lemma pruned_inv:
  assumes inv: "yard_inv db" and run: "prune_each ids t db = Ok db'"
    and dead: "\<And>d. d \<in> set (yard_deploys db) \<Longrightarrow> yd_id d \<in> set ids \<Longrightarrow> yd_status d \<noteq> ''live''"
  shows "yard_inv db'"
proof -
  obtain m where eq: "db' = db\<lparr>repository := m, yard_deploys := map (pruned_row ids t) (yard_deploys db),
      yard_deploy_files := filter (\<lambda>f. yf_deploy_id f \<notin> set ids) (yard_deploy_files db)\<rparr>"
    using prune_each_D [OF run] by blast
  have "alias_of (map (pruned_row ids t) (yard_deploys db)) y" if "y \<in> set (web_yards db)" for y
    using yard_invD(4) [OF inv that] by (rule alias_of_change [OF _ pruned_row_change]) (use dead in \<open>simp add: pruned_row_status\<close>)
  then show ?thesis using pruned_core [OF _ run] inv by (simp add: yard_inv_def eq)
qed

lemma list_candidates_member:
  assumes "list_candidates db uid = Ok deploys" and "x \<in> set deploys"
  obtains r where "r \<in> set (yard_deploys db)" and "yd_yard_id r = uid" and "deploy r = Ok x"
  using collect_results_member [OF assms(1) [unfolded list_candidates_def] assms(2)] by (auto simp: yard_history_def)

lemma prune_D:
  assumes inv: "yard_inv db" and y: "y \<in> set (web_yards db)" and run: "prune (wy_id y) (wy_current_deploy_id y) t db = Ok db'"
  obtains ids where "prune_each ids t db = Ok db'"
    and "\<And>d. d \<in> set (yard_deploys db) \<Longrightarrow> yd_id d \<in> set ids \<Longrightarrow> yd_yard_id d = wy_id y \<and> yd_status d \<noteq> ''live''"
proof -
  obtain deploys where list: "list_candidates db (wy_id y) = Ok deploys"
    and each: "prune_each (map ydr_id (surplus_deploys (wy_current_deploy_id y) deploys)) t db = Ok db'"
    using run by (auto simp: prune_def result_simps)
  have "yd_yard_id d = wy_id y \<and> yd_status d \<noteq> ''live''"
    if d: "d \<in> set (yard_deploys db)" and i: "yd_id d \<in> set (map ydr_id (surplus_deploys (wy_current_deploy_id y) deploys))" for d
  proof -
    obtain x where x: "x \<in> set (surplus_deploys (wy_current_deploy_id y) deploys)" "ydr_id x = yd_id d" using i by auto
    then have x': "x \<in> set deploys" "Some (ydr_id x) \<noteq> wy_current_deploy_id y"
      by (auto simp: surplus_deploys_def Let_def dest: in_set_dropD)
    obtain r where r: "r \<in> set (yard_deploys db)" "yd_yard_id r = wy_id y" "deploy r = Ok x"
      by (rule list_candidates_member [OF list x'(1)])
    have "yd_id r = yd_id d" using r(3) x(2) by (simp add: deploy_Ok_iff)
    then have "r = d" by (rule deploy_unique [OF yard_invD(2) [OF inv] r(1) d])
    have "(yd_status d = ''live'') = (wy_current_deploy_id y = Some (yd_id d))"
      using yard_invD(4) [OF inv y] r(1,2) unfolding \<open>r = d\<close> alias_of_def by blast
    then show ?thesis using r(2) x(2) x'(2) \<open>r = d\<close> by simp
  qed
  then show thesis using that [OF each] by blast
qed

lemma prune_inv:
  assumes inv: "yard_inv db" and y: "yard_by_id db uid = Ok y"
    and run: "prune (wyr_id y) (wyr_current_deploy_id y) t db = Ok db'"
  shows "yard_inv db'"
proof -
  obtain r where r: "r \<in> set (web_yards db)" "yard r = Ok y" by (rule yard_by_id_D [OF y])
  then have "prune (wy_id r) (wy_current_deploy_id r) t db = Ok db'" using run by (simp add: yard_Ok_iff)
  then obtain ids where "prune_each ids t db = Ok db'"
    and "\<And>d. d \<in> set (yard_deploys db) \<Longrightarrow> yd_id d \<in> set ids \<Longrightarrow> yd_yard_id d = wy_id r \<and> yd_status d \<noteq> ''live''"
    using prune_D [OF inv r(1)] by blast
  then show ?thesis using pruned_inv [OF inv] by blast
qed

section \<open>Failure\<close>

definition change_if :: "('r \<Rightarrow> bool) \<Rightarrow> ('r \<Rightarrow> 'r) \<Rightarrow> 'r \<Rightarrow> 'r" where
  "change_if sel f r = (if sel r then f r else r)"

lemma change_if_deploy: "deploy_change f \<Longrightarrow> deploy_change (change_if sel f)"
  by (simp add: deploy_change_def change_if_def)

lemma update_rows_change:
  assumes "update_rows sel f check xs = Ok (n, ys)"
  shows "ys = map (change_if sel f) xs" and "\<And>x. x \<in> set xs \<Longrightarrow> check x \<Longrightarrow> check (change_if sel f x)"
  using update_rows_D [OF assms] by (simp_all add: change_if_def)

lemma failed_change_inv:
  assumes inv: "yard_inv db" and up: "update_rows sel f yard_deploy_check (yard_deploys db) = Ok (n, rows)"
    and f: "deploy_change f" and sel: "\<And>d. sel d \<Longrightarrow> yd_status d \<in> {''uploading'', ''finalising''}"
    and new: "\<And>d. yd_status (f d) \<notin> {''live'', ''superseded''}"
  shows "yard_inv (db\<lparr>yard_deploys := rows\<rparr>)"
proof -
  note I = yard_invD [OF inv] and u = update_rows_change [OF up] and g = change_if_deploy [OF f, of sel]
  have "deploys_ok (web_yards db) rows" unfolding u(1)
    by (rule deploys_ok_change [OF I(2) g])
       (use I(2) u(2) sel in \<open>fastforce simp: deploys_ok_def yard_of_def change_if_def\<close>)+
  moreover have "files_ok rows (yard_deploy_files db)" unfolding u(1)
  proof (rule files_ok_change [OF I(3) g])
    fix d
    assume "d \<in> set (yard_deploys db)" and "file_complete (yard_deploy_files db) d"
    then show "file_complete (yard_deploy_files db) (change_if sel f d)"
      using sel [of d] new [of d] deploy_changeD(1) [OF f, of d]
      by (auto simp: file_complete_def finalised_def change_if_def split: if_split_asm)
  qed (use I(3) in \<open>auto simp: files_ok_def\<close>)
  moreover have live: "(yd_status (change_if sel f d) = ''live'') = (yd_status d = ''live'')" for d
    using sel [of d] new [of d] by (auto simp: change_if_def)
  moreover have "alias_of rows y" if "y \<in> set (web_yards db)" for y unfolding u(1)
    using I(4) [OF that] by (rule alias_of_change [OF _ g]) (rule live)
  ultimately show ?thesis using I(1) by (simp add: yard_inv_def yard_core_def)
qed

lemma fail_in_D:
  assumes "fail_in uid code message t db = Ok (x, db')"
  obtains (unchanged) "db' = db" and "deploy_by_id db uid = Ok x" and "ydr_status x \<in> {YdFailed, YdPruned}"
    | (marked) d n rows y where "deploy_by_id db uid = Ok d" and "validate_failure d code message t = Ok (int t)"
      and "update_rows (\<lambda>r. yd_id r = ydr_id d \<and> yd_status r \<in> {''uploading'', ''finalising''})
           (\<lambda>r. r\<lparr>yd_status := ''failed'', yd_failure_code := Some code, yd_failure_message := Some message\<rparr>)
           yard_deploy_check (yard_deploys db) = Ok (n, rows)"
      and "yard_by_id (db\<lparr>yard_deploys := rows\<rparr>) (ydr_yard_id d) = Ok y"
      and "prune (wyr_id y) (wyr_current_deploy_id y) (int t) (db\<lparr>yard_deploys := rows\<rparr>) = Ok db'"
      and "deploy_by_id db' uid = Ok x"
proof -
  obtain d where d: "deploy_by_id db uid = Ok d" using assms by (auto simp: fail_in_def result_simps)
  then have uid: "ydr_id d = uid" by (auto elim!: deploy_by_id_D simp: deploy_Ok_iff)
  show thesis
  proof (cases "ydr_status d \<in> {YdFailed, YdPruned}")
    case True
    with d assms show thesis by (intro unchanged) (auto simp: fail_in_def)
  next
    case False
    have time: "validate_failure d code message t = Ok k \<Longrightarrow> k = int t" for k
      by (auto simp: validate_failure_def result_simps split: if_split_asm)
    show thesis using assms d False uid
      by (auto simp: fail_in_def result_simps dest: time intro!: marked)
  qed
qed

lemma fail_inv:
  assumes inv: "yard_inv db" and ok: "fail_yard_deploy db uid code message t = (Ok x, db')"
  shows "yard_inv db'"
proof -
  have "fail_in uid code message t db = Ok (x, db')" using ok by (simp add: fail_yard_deploy_def outcome_iffs)
  then show ?thesis
  proof (cases rule: fail_in_D)
    case unchanged
    then show ?thesis using inv by simp
  next
    case (marked d n rows y)
    have "yard_inv (db\<lparr>yard_deploys := rows\<rparr>)"
      by (rule failed_change_inv [OF inv marked(3)]) (simp_all add: deploy_change_def)
    from prune_inv [OF this marked(4,5)] show ?thesis .
  qed
qed

section \<open>Selecting a deploy\<close>

definition selected_yard :: "string \<Rightarrow> string \<Rightarrow> int \<Rightarrow> web_yard_row \<Rightarrow> web_yard_row" where
  "selected_yard uid c t z =
     (if wy_id z = uid \<and> wy_status z = ''active'' then z\<lparr>wy_current_deploy_id := Some c, wy_updated_at_ms := t\<rparr> else z)"

lemma selected_yard_fields [simp]:
  "wy_id (selected_yard uid c t z) = wy_id z" "wy_host_label (selected_yard uid c t z) = wy_host_label z"
  "wy_name (selected_yard uid c t z) = wy_name z" "wy_workspace_id (selected_yard uid c t z) = wy_workspace_id z"
  "wy_project_id (selected_yard uid c t z) = wy_project_id z" "wy_status (selected_yard uid c t z) = wy_status z"
  by (simp_all add: selected_yard_def)

lemma yards_ok_change:
  assumes "yards_ok ys" and "\<And>z. wy_id (g z) = wy_id z \<and> wy_host_label (g z) = wy_host_label z \<and> wy_name (g z) = wy_name z"
    and "\<And>z. z \<in> set ys \<Longrightarrow> web_yard_check z \<Longrightarrow> web_yard_check (g z)"
  shows "yards_ok (map g ys)"
  using assms by (simp add: yards_ok_def comp_def)

lemma deploys_ok_yards:
  assumes "deploys_ok ys ds" and "\<And>d z. yard_of d z \<Longrightarrow> yard_of d (g z)"
  shows "deploys_ok (map g ys) ds"
  using assms unfolding deploys_ok_def by (simp add: bex_simps) blast

lemma switch_inv:
  assumes inv: "yard_inv db" and y: "y \<in> set (web_yards db)" "wy_status y = ''active''"
    and t: "t \<in> set (yard_deploys db)" "yd_yard_id t = wy_id y"
    and h: "deploy_change h" and check: "\<And>d. d \<in> set (yard_deploys db) \<Longrightarrow> yard_deploy_check (h d)"
    and live: "yd_status (h t) = ''live''"
    and others: "\<And>d. d \<in> set (yard_deploys db) \<Longrightarrow> yd_id d \<noteq> yd_id t \<Longrightarrow>
      h d = (if wy_current_deploy_id y = Some (yd_id d) \<and> yd_status d = ''live'' then d\<lparr>yd_status := ''superseded''\<rparr> else d)"
    and files: "files_ok (map h (yard_deploys db)) gs"
    and checks: "\<And>z. z \<in> set (web_yards db) \<Longrightarrow> web_yard_check z \<Longrightarrow> web_yard_check (selected_yard (wy_id y) (yd_id t) u z)"
  shows "yard_inv (db\<lparr>repository := m, yard_deploys := map h (yard_deploys db), yard_deploy_files := gs,
    web_yards := map (selected_yard (wy_id y) (yd_id t) u) (web_yards db)\<rparr>)"
proof -
  note I = yard_invD [OF inv]
  let ?ys = "map (selected_yard (wy_id y) (yd_id t) u) (web_yards db)"
  have same: "d = t" if "d \<in> set (yard_deploys db)" "yd_id d = yd_id t" for d
    using deploy_unique [OF I(2) that(1) t(1) that(2)] .
  have "deploys_ok (web_yards db) (map h (yard_deploys db))"
  proof (rule deploys_ok_change [OF I(2) h check])
    fix d z
    assume d: "d \<in> set (yard_deploys db)" and z: "z \<in> set (web_yards db)" "yard_of d z" and del: "wy_status z = ''deleted''"
    have "yd_id d \<noteq> yd_id t"
    proof
      assume "yd_id d = yd_id t"
      then have "wy_id z = wy_id y" using same [OF d] t(2) z(2) by (simp add: yard_of_def)
      then have "z = y" by (rule yard_unique [OF I(1) z(1) y(1)])
      with del y(2) show False by simp
    qed
    with others [OF d] z(2) del show "yd_status (h d) = ''pruned''" by (simp add: yard_of_def)
  qed
  then have "deploys_ok ?ys (map h (yard_deploys db))" by (rule deploys_ok_yards) (simp add: yard_of_def)
  moreover have "yards_ok ?ys" using I(1) checks by (intro yards_ok_change) simp_all
  moreover have "alias_of (map h (yard_deploys db)) (selected_yard (wy_id y) (yd_id t) u z)" if z: "z \<in> set (web_yards db)" for z
  proof (cases "wy_id z = wy_id y")
    case True
    then have "z = y" by (rule yard_unique [OF I(1) z y(1)])
    have al: "(yd_status d = ''live'') = (wy_current_deploy_id y = Some (yd_id d))"
      if "d \<in> set (yard_deploys db)" "yd_yard_id d = wy_id y" for d
      using I(4) [OF y(1)] that by (simp add: alias_of_def)
    have "(yd_status (h d) = ''live'') = (yd_id t = yd_id d)" if "d \<in> set (yard_deploys db)" "yd_yard_id d = wy_id y" for d
    proof (cases "yd_id d = yd_id t")
      case True
      then show ?thesis using same [OF that(1)] live by simp
    next
      case False
      then show ?thesis using others [OF that(1)] al [OF that] by auto
    qed
    moreover have "h t \<in> set (map h (yard_deploys db))" using t(1) by simp
    ultimately show ?thesis using t y(2)
      by (auto simp: \<open>z = y\<close> alias_of_def selected_yard_def deploy_changeD [OF h])
  next
    case False
    have "h d = d" if d: "d \<in> set (yard_deploys db)" "yd_yard_id d = wy_id z" for d
    proof -
      have "yd_id d \<noteq> yd_id t" using same [OF d(1)] t(2) d(2) False by auto
      moreover have "wy_current_deploy_id y \<noteq> Some (yd_id d)"
      proof
        assume "wy_current_deploy_id y = Some (yd_id d)"
        then obtain e where e: "e \<in> set (yard_deploys db)" "yd_id e = yd_id d" "yd_yard_id e = wy_id y"
          using I(4) [OF y(1)] by (auto simp: alias_of_def)
        then have "e = d" using deploy_unique [OF I(2) e(1) d(1)] by simp
        with e(3) d(2) False show False by simp
      qed
      ultimately show ?thesis using others [OF d(1)] by simp
    qed
    moreover have "selected_yard (wy_id y) (yd_id t) u z = z" using False by (simp add: selected_yard_def)
    ultimately show ?thesis using I(4) [OF z]
      by (auto simp: alias_of_def deploy_changeD [OF h] split: option.split_asm)
  qed
  ultimately show ?thesis using files by (auto simp: yard_inv_def yard_core_def)
qed

section \<open>Rollback\<close>

lemma rollback_in_D:
  assumes "rollback_in uid chosen t event db = Ok (x, db')"
  obtains y target n1 ds1 n2 ds2 n3 ys m where "yard_by_id db uid = Ok y" and "wyr_status y = WyActive"
    and "rollback_target db y chosen = Ok target"
    and "update_rows (\<lambda>r. Some (yd_id r) = wyr_current_deploy_id y \<and> yd_status r = ''live'')
           (\<lambda>r. r\<lparr>yd_status := ''superseded''\<rparr>) yard_deploy_check (yard_deploys db) = Ok (n1, ds1)"
    and "update_rows (\<lambda>r. yd_id r = ydr_id target \<and> yd_status r = ''superseded'')
           (\<lambda>r. r\<lparr>yd_status := ''live''\<rparr>) yard_deploy_check ds1 = Ok (n2, ds2)"
    and "update_rows (\<lambda>r. wy_id r = wyr_id y \<and> wy_status r = ''active'')
           (\<lambda>r. r\<lparr>wy_current_deploy_id := Some (ydr_id target), wy_updated_at_ms := int t\<rparr>) web_yard_check
           (web_yards db) = Ok (n3, ys)"
    and "db' = db\<lparr>yard_deploys := ds2, web_yards := ys, repository := m\<rparr>"
    and "audit_insert (repository db) event = Ok m"
    and "yard_by_id db' uid = Ok (ydm_yard x)" and "deploy_by_id db' (ydr_id target) = Ok (ydm_deploy x)"
proof -
  obtain y where y: "yard_by_id db uid = Ok y" using assms by (auto simp: rollback_in_def result_simps)
  then have uid: "wyr_id y = uid" by (auto elim!: yard_by_id_D simp: yard_Ok_iff)
  show thesis using assms y uid
    by (auto simp: rollback_in_def action_event_def result_simps split: if_split_asm elim!: yard_audit_D intro!: that)
qed

lemma rollback_target_D:
  assumes "rollback_target db y chosen = Ok target"
  obtains r where "r \<in> set (yard_deploys db)" and "deploy r = Ok target" and "yd_yard_id r = wyr_id y"
    and "yd_status r = ''superseded''" and "wyr_current_deploy_id y \<noteq> Some (yd_id r)"
    and "\<And>k. chosen = Some k \<Longrightarrow> k = yd_id r"
proof -
  obtain deploys where list: "list_candidates db (wyr_id y) = Ok deploys"
    and pick: "find (\<lambda>d. ydr_status d = YdSuperseded \<and> ydr_finalised_at_ms d \<noteq> None
         \<and> Some (ydr_id d) \<noteq> wyr_current_deploy_id y
         \<and> (case chosen of None \<Rightarrow> True | Some k \<Rightarrow> k = ydr_id d)) deploys = Some target"
    using assms by (auto simp: rollback_target_def result_simps)
  note p = find_Some_iff_first [OF pick]
  obtain r where "r \<in> set (yard_deploys db)" "yd_yard_id r = wyr_id y" "deploy r = Ok target"
    using list_candidates_member [OF list] p by blast
  then show thesis using p by (intro that [of r]) (auto simp: deploy_Ok_iff split: option.split_asm)
qed

lemma rollback_inv:
  assumes inv: "yard_inv db" and ok: "rollback_web_yard db uid chosen t event = (Ok x, db')"
  shows "yard_inv db'"
proof -
  have run: "rollback_in uid chosen t event db = Ok (x, db')" using ok by (simp add: rollback_web_yard_def outcome_iffs)
  obtain y target n1 ds1 n2 ds2 n3 ys m where y: "yard_by_id db uid = Ok y" and active: "wyr_status y = WyActive"
    and target: "rollback_target db y chosen = Ok target"
    and u1: "update_rows (\<lambda>r. Some (yd_id r) = wyr_current_deploy_id y \<and> yd_status r = ''live'')
           (\<lambda>r. r\<lparr>yd_status := ''superseded''\<rparr>) yard_deploy_check (yard_deploys db) = Ok (n1, ds1)"
    and u2: "update_rows (\<lambda>r. yd_id r = ydr_id target \<and> yd_status r = ''superseded'')
           (\<lambda>r. r\<lparr>yd_status := ''live''\<rparr>) yard_deploy_check ds1 = Ok (n2, ds2)"
    and u3: "update_rows (\<lambda>r. wy_id r = wyr_id y \<and> wy_status r = ''active'')
           (\<lambda>r. r\<lparr>wy_current_deploy_id := Some (ydr_id target), wy_updated_at_ms := int t\<rparr>) web_yard_check
           (web_yards db) = Ok (n3, ys)"
    and eq: "db' = db\<lparr>yard_deploys := ds2, web_yards := ys, repository := m\<rparr>"
    by (rule rollback_in_D [OF run])
  obtain yr where yr: "yr \<in> set (web_yards db)" "yard yr = Ok y" by (rule yard_by_id_D [OF y])
  obtain r where r: "r \<in> set (yard_deploys db)" "deploy r = Ok target" "yd_yard_id r = wyr_id y"
      "yd_status r = ''superseded''" "wyr_current_deploy_id y \<noteq> Some (yd_id r)"
    by (rule rollback_target_D [OF target])
  have ids: "wyr_id y = wy_id yr" "ydr_id target = yd_id r" "wyr_current_deploy_id y = wy_current_deploy_id yr"
      "wy_status yr = ''active''"
    using yr(2) r(2) active by (simp_all add: yard_Ok_iff deploy_Ok_iff)
  define h :: "yard_deploy_row \<Rightarrow> yard_deploy_row" where "h = change_if (\<lambda>d. yd_id d = yd_id r \<and> yd_status d = ''superseded'') (\<lambda>d. d\<lparr>yd_status := ''live''\<rparr>)
    \<circ> change_if (\<lambda>d. Some (yd_id d) = wy_current_deploy_id yr \<and> yd_status d = ''live'') (\<lambda>d. d\<lparr>yd_status := ''superseded''\<rparr>)"
  note c1 = update_rows_change [OF u1] and c2 = update_rows_change [OF u2] and c3 = update_rows_change [OF u3]
  have ds: "ds2 = map h (yard_deploys db)" using c1(1) c2(1) by (simp add: h_def ids)
  have ys: "ys = map (selected_yard (wy_id yr) (yd_id r) (int t)) (web_yards db)"
    using c3(1) by (simp add: change_if_def selected_yard_def ids)
  have h: "deploy_change h" by (simp add: deploy_change_def h_def change_if_def)
  note I = yard_invD [OF inv]
  have "yard_inv (db\<lparr>repository := m, yard_deploys := map h (yard_deploys db), yard_deploy_files := yard_deploy_files db,
      web_yards := map (selected_yard (wy_id yr) (yd_id r) (int t)) (web_yards db)\<rparr>)"
  proof (rule switch_inv [OF inv yr(1) ids(4) r(1) _ h])
    show "yard_deploy_check (h d)" if "d \<in> set (yard_deploys db)" for d
    proof -
      have "yard_deploy_check d" using I(2) that by (simp add: deploys_ok_def)
      from c2(2) [OF _ c1(2) [OF that this]] show ?thesis using that c1(1) by (simp add: h_def ids)
    qed
    show "files_ok (map h (yard_deploys db)) (yard_deploy_files db)"
      by (rule files_ok_same [OF I(3) h]) (simp add: h_def change_if_def finalised_def)
    show "web_yard_check (selected_yard (wy_id yr) (yd_id r) (int t) z)" if "z \<in> set (web_yards db)" "web_yard_check z" for z
      using c3(2) [OF that] by (simp add: change_if_def selected_yard_def ids)
  qed (use r(3,4) ids in \<open>auto simp: h_def change_if_def\<close>)
  then show ?thesis by (simp add: eq ds ys yard_inv_def yard_core_def)
qed

section \<open>Deletion\<close>

lemma delete_in_D:
  assumes "delete_in uid t event db = Ok (x, db')"
  obtains (unchanged) "db' = db" and "x = False"
    | (deleted) y db1 n ys m where "x" and "yard_by_id db uid = Ok y" and "prune_all uid (int t) db = Ok db1"
      and "update_rows (\<lambda>r. wy_id r = uid \<and> wy_status r \<noteq> ''deleted'')
           (\<lambda>r. r\<lparr>wy_current_deploy_id := None, wy_status := ''deleted'', wy_updated_at_ms := int t,
                  wy_deleted_at_ms := Some (int t)\<rparr>) web_yard_check (web_yards db1) = Ok (n, ys)"
      and "db' = db1\<lparr>web_yards := ys, repository := m\<rparr>"
      and "audit_insert (repository db1) event = Ok m"
proof -
  obtain y where y: "yard_by_id db uid = Ok y" using assms by (auto simp: delete_in_def result_simps)
  then have uid: "wyr_id y = uid" by (auto elim!: yard_by_id_D simp: yard_Ok_iff)
  show thesis
  proof (cases "wyr_status y = WyDeleted")
    case True
    with y assms show thesis by (intro unchanged) (auto simp: delete_in_def)
  next
    case False
    with y uid assms show thesis
      by (auto simp: delete_in_def action_event_def result_simps elim!: yard_audit_D intro!: deleted)
  qed
qed

lemma prune_all_D:
  assumes run: "prune_all uid t db = Ok db'"
  obtains ids where "prune_each ids t db = Ok db'"
    and "\<And>i. i \<in> set ids \<Longrightarrow> \<exists>d \<in> set (yard_deploys db). yd_id d = i \<and> yd_yard_id d = uid"
    and "\<And>d. d \<in> set (yard_deploys db) \<Longrightarrow> yd_yard_id d = uid \<Longrightarrow> yd_status d = ''pruned'' \<or> yd_id d \<in> set ids"
proof -
  obtain deploys where list: "list_candidates db uid = Ok deploys"
    and each: "prune_each (map ydr_id (filter (\<lambda>d. ydr_status d \<noteq> YdPruned) deploys)) t db = Ok db'"
    using run by (auto simp: prune_all_def result_simps)
  let ?ids = "map ydr_id (filter (\<lambda>d. ydr_status d \<noteq> YdPruned) deploys)"
  show thesis
  proof (rule that [OF each])
    fix i
    assume "i \<in> set ?ids"
    then obtain x where x: "x \<in> set deploys" "ydr_id x = i" by auto
    obtain r where "r \<in> set (yard_deploys db)" "yd_yard_id r = uid" "deploy r = Ok x"
      by (rule list_candidates_member [OF list x(1)])
    then show "\<exists>d \<in> set (yard_deploys db). yd_id d = i \<and> yd_yard_id d = uid" using x(2) by (auto simp: deploy_Ok_iff)
  next
    fix d
    assume d: "d \<in> set (yard_deploys db)" "yd_yard_id d = uid"
    then have "d \<in> set (yard_history db uid)" by (simp add: yard_history_def)
    then obtain x where "x \<in> set deploys" "deploy d = Ok x"
      using collect_results_covers [OF list [unfolded list_candidates_def]] by blast
    then have "yd_status d = yard_deploy_status_as_str (ydr_status x)" "yd_id d = ydr_id x" "x \<in> set deploys"
      by (simp_all add: deploy_Ok_iff)
    then show "yd_status d = ''pruned'' \<or> yd_id d \<in> set ?ids" by (cases "ydr_status x = YdPruned") auto
  qed
qed

definition deleted_yard :: "string \<Rightarrow> int \<Rightarrow> web_yard_row \<Rightarrow> web_yard_row" where
  "deleted_yard uid t z =
     (if wy_id z = uid \<and> wy_status z \<noteq> ''deleted''
      then z\<lparr>wy_current_deploy_id := None, wy_status := ''deleted'', wy_updated_at_ms := t, wy_deleted_at_ms := Some t\<rparr>
      else z)"

lemma deleted_yard_fields [simp]:
  "wy_id (deleted_yard uid t z) = wy_id z" "wy_host_label (deleted_yard uid t z) = wy_host_label z"
  "wy_name (deleted_yard uid t z) = wy_name z" "wy_workspace_id (deleted_yard uid t z) = wy_workspace_id z"
  "wy_project_id (deleted_yard uid t z) = wy_project_id z"
  by (simp_all add: deleted_yard_def)

lemma delete_inv:
  assumes inv: "yard_inv db" and ok: "delete_web_yard db uid t event = (Ok x, db')"
  shows "yard_inv db'"
proof -
  have "delete_in uid t event db = Ok (x, db')" using ok by (simp add: delete_web_yard_def outcome_iffs)
  then show ?thesis
  proof (cases rule: delete_in_D)
    case unchanged
    then show ?thesis using inv by simp
  next
    case (deleted y db1 n ys m)
    obtain ids where run: "prune_each ids (int t) db = Ok db1"
      and mine: "\<And>i. i \<in> set ids \<Longrightarrow> \<exists>d \<in> set (yard_deploys db). yd_id d = i \<and> yd_yard_id d = uid"
      and covered: "\<And>d. d \<in> set (yard_deploys db) \<Longrightarrow> yd_yard_id d = uid \<Longrightarrow> yd_status d = ''pruned'' \<or> yd_id d \<in> set ids"
      using prune_all_D [OF deleted(3)] by blast
    obtain k where eq: "db1 = db\<lparr>repository := k, yard_deploys := map (pruned_row ids (int t)) (yard_deploys db),
        yard_deploy_files := filter (\<lambda>f. yf_deploy_id f \<notin> set ids) (yard_deploy_files db)\<rparr>"
      using prune_each_D [OF run] by blast
    note I = yard_invD [OF inv]
    have core: "yard_core db1" using inv pruned_core [OF _ run] by (simp add: yard_inv_def)
    note c = update_rows_change [OF deleted(4)]
    have ys: "ys = map (deleted_yard uid (int t)) (web_yards db)" using c(1) by (simp add: eq change_if_def deleted_yard_def)
    have pruned: "yd_status d = ''pruned''" if d: "d \<in> set (yard_deploys db1)" "yd_yard_id d = uid" for d
    proof -
      obtain e where "e \<in> set (yard_deploys db)" "d = pruned_row ids (int t) e" using d(1) by (auto simp: eq)
      then show ?thesis using covered [of e] d(2) deploy_changeD(2) [OF pruned_row_change, of ids "int t" e]
        by (auto simp: pruned_row_status)
    qed
    have "yards_ok ys" unfolding ys
    proof (rule yards_ok_change [OF I(1)])
      show "web_yard_check (deleted_yard uid (int t) z)" if "z \<in> set (web_yards db)" "web_yard_check z" for z
        using c(2) [of z] that by (simp add: eq change_if_def deleted_yard_def)
    qed simp
    moreover have "deploys_ok ys (yard_deploys db1)"
      unfolding deploys_ok_def
    proof (intro conjI ballI)
      fix d
      assume d: "d \<in> set (yard_deploys db1)"
      show "yard_deploy_check d" using core d by (simp add: yard_core_def deploys_ok_def)
      obtain z where z: "z \<in> set (web_yards db)" "yard_of d z" using core d by (auto simp: yard_core_def deploys_ok_def eq)
      then have "yard_of d (deleted_yard uid (int t) z)"
        using pruned [OF d] by (auto simp: yard_of_def deleted_yard_def)
      then show "\<exists>z \<in> set ys. yard_of d z" using z(1) by (auto simp: ys)
    qed (use core in \<open>auto simp: yard_core_def deploys_ok_def\<close>)
    moreover have "alias_of (yard_deploys db1) (deleted_yard uid (int t) z)" if z: "z \<in> set (web_yards db)" for z
    proof (cases "wy_id z = uid")
      case True
      have "wy_current_deploy_id (deleted_yard uid (int t) z) = None"
        using I(1) z True by (auto simp: deleted_yard_def yards_ok_def web_yard_check_def)
      then show ?thesis using pruned True by (auto simp: alias_of_def)
    next
      case False
      have "pruned_row ids (int t) d = d" if d: "d \<in> set (yard_deploys db)" "yd_yard_id d = wy_id z" for d
      proof -
        have "yd_id d \<notin> set ids"
        proof
          assume "yd_id d \<in> set ids"
          then obtain e where e: "e \<in> set (yard_deploys db)" "yd_id e = yd_id d" "yd_yard_id e = uid" using mine by blast
          then have "e = d" using deploy_unique [OF I(2) e(1) d(1)] by simp
          with e d False show False by simp
        qed
        then show ?thesis by (simp add: pruned_row_def)
      qed
      moreover have "deleted_yard uid (int t) z = z" using False by (simp add: deleted_yard_def)
      ultimately show ?thesis using I(4) [OF z]
        by (auto simp: eq alias_of_def deploy_changeD [OF pruned_row_change] split: option.split_asm)
    qed
    ultimately show ?thesis using core by (auto simp: yard_inv_def yard_core_def deleted(5) ys)
  qed
qed

section \<open>Finalising\<close>

definition file_row :: "YardDeployRecord \<Rightarrow> NewYardFile \<Rightarrow> yard_file_row" where
  "file_row d file = \<lparr>yf_deploy_id = ydr_id d, yf_normalized_path = nyf_normalized_path file,
     yf_version_id = Some (nyf_version_id file), yf_byte_size = cast_signed (nyf_byte_size file)\<rparr>"

lemma insert_files_D:
  assumes "insert_files files d db = Ok db'"
  shows "db' = db\<lparr>yard_deploy_files := yard_deploy_files db @ map (file_row d) files\<rparr>"
    and "distinct (map (\<lambda>f. (yf_deploy_id f, yf_normalized_path f)) (yard_deploy_files db)) \<Longrightarrow>
      distinct (map (\<lambda>f. (yf_deploy_id f, yf_normalized_path f)) (yard_deploy_files db'))"
    and "\<And>file. file \<in> set files \<Longrightarrow> \<exists>v \<in> set (object_versions (repository db)). ov_id v = nyf_version_id file
      \<and> ov_project_id v = ydr_project_id d \<and> ov_state v = ''complete'' \<and> ov_size v = Some (cast_signed (nyf_byte_size file))"
proof -
  have "db' = db\<lparr>yard_deploy_files := yard_deploy_files db @ map (file_row d) files\<rparr>
    \<and> (distinct (map (\<lambda>f. (yf_deploy_id f, yf_normalized_path f)) (yard_deploy_files db)) \<longrightarrow>
      distinct (map (\<lambda>f. (yf_deploy_id f, yf_normalized_path f)) (yard_deploy_files db')))
    \<and> (\<forall>file \<in> set files. \<exists>v \<in> set (object_versions (repository db)). ov_id v = nyf_version_id file
      \<and> ov_project_id v = ydr_project_id d \<and> ov_state v = ''complete'' \<and> ov_size v = Some (cast_signed (nyf_byte_size file)))"
    using assms
  proof (induction files arbitrary: db)
    case (Cons g files)
    let ?db = "db\<lparr>yard_deploy_files := yard_deploy_files db @ [file_row d g]\<rparr>"
    have allowed: "yard_file_allowed db (file_row d g)" and rest: "insert_files files d ?db = Ok db'"
      and v: "\<exists>v \<in> set (object_versions (repository db)). ov_id v = nyf_version_id g
      \<and> ov_project_id v = ydr_project_id d \<and> ov_state v = ''complete'' \<and> ov_size v = Some (cast_signed (nyf_byte_size g))"
      using Cons.prems by (auto simp: result_simps Let_def file_row_def list_ex_iff split: if_split_asm)
    have "distinct (map (\<lambda>f. (yf_deploy_id f, yf_normalized_path f)) (yard_deploy_files ?db))"
      if "distinct (map (\<lambda>f. (yf_deploy_id f, yf_normalized_path f)) (yard_deploy_files db))"
    proof -
      have "(yf_deploy_id r, yf_normalized_path r) \<noteq> (yf_deploy_id (file_row d g), yf_normalized_path (file_row d g))"
        if "r \<in> set (yard_deploy_files db)" for r
        using allowed that by (auto simp: yard_file_allowed_def list_ex_iff)
      then show ?thesis using that by (simp add: image_iff) metis
    qed
    note step = this and IH = Cons.IH [OF rest]
    have "db' = db\<lparr>yard_deploy_files := yard_deploy_files db @ map (file_row d) (g # files)\<rparr>" using IH by simp
    moreover have "\<exists>v \<in> set (object_versions (repository db)). ov_id v = nyf_version_id x
      \<and> ov_project_id v = ydr_project_id d \<and> ov_state v = ''complete'' \<and> ov_size v = Some (cast_signed (nyf_byte_size x))"
      if "x \<in> set (g # files)" for x using IH v that by auto
    ultimately show ?case using step IH by blast
  qed simp
  then show "db' = db\<lparr>yard_deploy_files := yard_deploy_files db @ map (file_row d) files\<rparr>"
    and "distinct (map (\<lambda>f. (yf_deploy_id f, yf_normalized_path f)) (yard_deploy_files db)) \<Longrightarrow>
      distinct (map (\<lambda>f. (yf_deploy_id f, yf_normalized_path f)) (yard_deploy_files db'))"
    and "\<And>file. file \<in> set files \<Longrightarrow> \<exists>v \<in> set (object_versions (repository db)). ov_id v = nyf_version_id file
      \<and> ov_project_id v = ydr_project_id d \<and> ov_state v = ''complete'' \<and> ov_size v = Some (cast_signed (nyf_byte_size file))"
    by blast+
qed

lemma check_files_D:
  assumes "check_files files seen bytes count = Ok (paths, bytes', count')"
  shows "set paths = set seen \<union> nyf_normalized_path ` set files" and "count' = count + int (length files)"
    and "bytes' = bytes + sum_list (map nyf_byte_size files)"
    and "distinct (map nyf_normalized_path files)" and "\<And>file. file \<in> set files \<Longrightarrow> is_valid_yard_path (nyf_normalized_path file)"
proof -
  have "set paths = set seen \<union> nyf_normalized_path ` set files \<and> count' = count + int (length files)
      \<and> bytes' = bytes + sum_list (map nyf_byte_size files) \<and> distinct (map nyf_normalized_path files)
      \<and> set seen \<inter> nyf_normalized_path ` set files = {}
      \<and> (\<forall>file \<in> set files. is_valid_yard_path (nyf_normalized_path file))"
    using assms
  proof (induction files arbitrary: seen bytes count)
    case (Cons g files)
    then have new: "nyf_normalized_path g \<notin> set seen" "is_valid_yard_path (nyf_normalized_path g)"
      and rest: "check_files files (nyf_normalized_path g # seen) (bytes + nyf_byte_size g) (count + 1) = Ok (paths, bytes', count')"
      by (auto simp: result_simps split: if_split_asm)
    from Cons.IH [OF rest] new show ?case by auto
  qed simp
  then show "set paths = set seen \<union> nyf_normalized_path ` set files" and "count' = count + int (length files)"
    and "bytes' = bytes + sum_list (map nyf_byte_size files)"
    and "distinct (map nyf_normalized_path files)" and "\<And>file. file \<in> set files \<Longrightarrow> is_valid_yard_path (nyf_normalized_path file)"
    by blast+
qed

lemma validate_finalise_D:
  assumes "validate_finalise d files t = Ok (at, count, bytes)"
  shows "at = int t" and "count = int (length files)" and "bytes = int (sum_list (map nyf_byte_size files))"
    and "''index.html'' \<in> nyf_normalized_path ` set files" and "ydr_status d \<in> {YdUploading, YdFinalising}"
    and "0 < length files" and "length files \<le> MAXIMUM_FILES" and "distinct (map nyf_normalized_path files)"
    and "\<And>file. file \<in> set files \<Longrightarrow> is_valid_yard_path (nyf_normalized_path file)"
proof -
  obtain paths k c where c: "check_files files [] 0 0 = Ok (paths, k, c)" "''index.html'' \<in> set paths"
      "at = int t" "count = c" "bytes = int k" and s: "ydr_status d \<in> {YdUploading, YdFinalising}"
      "0 < length files" "length files \<le> MAXIMUM_FILES"
    using assms by (auto simp: validate_finalise_def result_simps split: if_split_asm)
  note f = check_files_D [OF c(1)]
  show "at = int t" "count = int (length files)" "bytes = int (sum_list (map nyf_byte_size files))"
    "''index.html'' \<in> nyf_normalized_path ` set files" "ydr_status d \<in> {YdUploading, YdFinalising}"
    "0 < length files" "length files \<le> MAXIMUM_FILES" "distinct (map nyf_normalized_path files)"
    using c f s by auto
  show "is_valid_yard_path (nyf_normalized_path f)" if "f \<in> set files" for f using f(5) that .
qed

lemma promote_status_D:
  assumes "promote_status db d t = Ok (status, db')"
  obtains (older) "status = YdSuperseded" and "db' = db" and "newer_finalised db d"
    | (promoted) n1 ds n2 ys where "status = YdLive" and "\<not> newer_finalised db d"
      and "update_rows (\<lambda>r. Some (yd_id r) = current_of db (ydr_yard_id d) \<and> yd_id r \<noteq> ydr_id d
             \<and> yd_status r = ''live'') (\<lambda>r. r\<lparr>yd_status := ''superseded''\<rparr>) yard_deploy_check
             (yard_deploys db) = Ok (n1, ds)"
      and "update_rows (\<lambda>y. wy_id y = ydr_yard_id d \<and> wy_status y = ''active'')
             (\<lambda>y. y\<lparr>wy_current_deploy_id := Some (ydr_id d), wy_updated_at_ms := t\<rparr>) web_yard_check
             (web_yards db) = Ok (n2, ys)"
      and "db' = db\<lparr>yard_deploys := ds, web_yards := ys\<rparr>"
proof (cases "newer_finalised db d")
  case True
  with assms show thesis by (intro older) (auto simp: promote_status_def)
next
  case False
  with assms show thesis by (auto simp: promote_status_def result_simps intro: promoted split: if_split_asm)
qed

definition finalised_row :: "string \<Rightarrow> YardDeployStatus \<Rightarrow> int \<Rightarrow> int \<Rightarrow> int \<Rightarrow> yard_deploy_row \<Rightarrow> yard_deploy_row" where
  "finalised_row uid status t count bytes =
     change_if (\<lambda>r. yd_id r = uid \<and> yd_status r \<in> {''uploading'', ''finalising''})
       (\<lambda>r. r\<lparr>yd_status := yard_deploy_status_as_str status, yd_finalised_at_ms := Some t,
              yd_file_count := count, yd_total_bytes := bytes\<rparr>)"

lemma finalised_row_change: "deploy_change (finalised_row uid status t count bytes)"
  by (simp add: deploy_change_def finalised_row_def change_if_def)

lemma finalise_in_D:
  assumes "finalise_in uid files t event db = Ok (x, db')"
  obtains (repeated) d where "db' = db" and "deploy_by_id db uid = Ok d" and "ydr_status d \<in> {YdLive, YdSuperseded}"
      and "ydm_deploy x = d" and "yard_by_id db (ydr_yard_id d) = Ok (ydm_yard x)" and "wyr_status (ydm_yard x) = WyActive"
    | (done') d y at count bytes status db1 db2 n rows m y' where "deploy_by_id db uid = Ok d"
      and "yard_by_id db (ydr_yard_id d) = Ok y" and "wyr_status y = WyActive"
      and "validate_finalise d files t = Ok (at, count, bytes)"
      and "insert_files files d db = Ok db1" and "promote_status db1 d at = Ok (status, db2)"
      and "update_rows (\<lambda>r. yd_id r = uid \<and> yd_status r \<in> {''uploading'', ''finalising''})
           (\<lambda>r. r\<lparr>yd_status := yard_deploy_status_as_str status, yd_finalised_at_ms := Some at,
                  yd_file_count := count, yd_total_bytes := bytes\<rparr>) yard_deploy_check
           (yard_deploys db2) = Ok (n, rows)"
      and "yard_by_id (db2\<lparr>yard_deploys := rows, repository := m\<rparr>) (ydr_yard_id d) = Ok y'"
      and "prune (wyr_id y') (wyr_current_deploy_id y') at (db2\<lparr>yard_deploys := rows, repository := m\<rparr>) = Ok db'"
      and "deploy_by_id db' uid = Ok (ydm_deploy x)" and "audit_insert (repository db2) event = Ok m"
      and "yard_by_id db' (ydr_yard_id (ydm_deploy x)) = Ok (ydm_yard x)"
proof -
  obtain d where d: "deploy_by_id db uid = Ok d" using assms by (auto simp: finalise_in_def result_simps)
  then have uid: "ydr_id d = uid" by (auto elim!: deploy_by_id_D simp: deploy_Ok_iff)
  obtain y where y: "yard_by_id db (ydr_yard_id d) = Ok y" "wyr_status y = WyActive"
    using assms d by (auto simp: finalise_in_def result_simps split: if_split_asm)
  show thesis
  proof (cases "ydr_status d \<in> {YdLive, YdSuperseded}")
    case True
    with d y assms show thesis
      by (intro repeated [of d]) (auto simp: finalise_in_def graph_def result_simps)
  next
    case False
    with assms d y have run: "and_then (validate_finalise d files t) (\<lambda>(finalised_at, file_count, total_bytes).
         and_then (insert_files files d db) (\<lambda>db.
         and_then (promote_status db d finalised_at) (\<lambda>(status, db).
         and_then (action_event event ''yard.deployed'' ''yard_deploy'' (ydr_workspace_id d) t
           [(''deployId'', AvString (ydr_id d)), (''fileCount'', AvNumber (nat file_count)),
            (''status'', AvString (yard_deploy_status_as_str status)), (''totalBytes'', AvNumber (nat total_bytes))]) (\<lambda>_.
         and_then (update_rows (\<lambda>r. yd_id r = ydr_id d \<and> yd_status r \<in> {''uploading'', ''finalising''})
           (\<lambda>r. r\<lparr>yd_status := yard_deploy_status_as_str status, yd_finalised_at_ms := Some finalised_at,
                  yd_file_count := file_count, yd_total_bytes := total_bytes\<rparr>) yard_deploy_check
           (yard_deploys db)) (\<lambda>(_, rows).
         and_then (yard_audit (db\<lparr>yard_deploys := rows\<rparr>) event) (\<lambda>db.
         and_then (yard_by_id db (ydr_yard_id d)) (\<lambda>y.
         and_then (prune (wyr_id y) (wyr_current_deploy_id y) finalised_at db) (\<lambda>db.
         and_then (deploy_by_id db (ydr_id d)) (\<lambda>d.
         and_then (graph db d) (\<lambda>x. Ok (x, db))))))))))) = Ok (x, db')"
      by (simp add: finalise_in_def)
    obtain at count bytes db1 status db2 n rows db3 y' d' where
      v: "validate_finalise d files t = Ok (at, count, bytes)" and f: "insert_files files d db = Ok db1"
      and p: "promote_status db1 d at = Ok (status, db2)"
      and u: "update_rows (\<lambda>r. yd_id r = uid \<and> yd_status r \<in> {''uploading'', ''finalising''})
           (\<lambda>r. r\<lparr>yd_status := yard_deploy_status_as_str status, yd_finalised_at_ms := Some at,
                  yd_file_count := count, yd_total_bytes := bytes\<rparr>) yard_deploy_check (yard_deploys db2) = Ok (n, rows)"
      and a: "yard_audit (db2\<lparr>yard_deploys := rows\<rparr>) event = Ok db3"
      and g: "yard_by_id db3 (ydr_yard_id d) = Ok y'"
      and r: "prune (wyr_id y') (wyr_current_deploy_id y') at db3 = Ok db'"
      and x: "deploy_by_id db' uid = Ok d'" "graph db' d' = Ok x"
      using run unfolding uid and_then_Ok_iff by (auto simp: and_then_Ok_iff)
    obtain m where au: "audit_insert (repository (db2\<lparr>yard_deploys := rows\<rparr>)) event = Ok m"
      and m: "db3 = db2\<lparr>yard_deploys := rows\<rparr>\<lparr>repository := m\<rparr>" by (rule yard_audit_D [OF a])
    have "ydm_deploy x = d'" "yard_by_id db' (ydr_yard_id d') = Ok (ydm_yard x)"
      using x(2) by (auto simp: graph_def result_simps)
    with x(1) show thesis using g r au unfolding m by (intro done' [OF d y v f p u]) simp_all
  qed
qed

lemma files_ok_finalised:
  assumes inv: "yard_inv db" and t: "t \<in> set (yard_deploys db)" "\<not> finalised t" "ydr_id d = yd_id t"
    and keys: "distinct (map (\<lambda>f. (yf_deploy_id f, yf_normalized_path f)) (yard_deploy_files db @ map (file_row d) files))"
    and index: "''index.html'' \<in> nyf_normalized_path ` set files"
    and h: "deploy_change h" and ht: "finalised (h t)" "yd_file_count (h t) = int (length files)"
    and others: "\<And>e. e \<in> set (yard_deploys db) \<Longrightarrow> yd_id e \<noteq> yd_id t \<Longrightarrow>
      finalised (h e) = finalised e \<and> yd_file_count (h e) = yd_file_count e"
  shows "files_ok (map h (yard_deploys db)) (yard_deploy_files db @ map (file_row d) files)"
proof (rule files_ok_change [OF _ h keys])
  note I = yard_invD [OF inv]
  show "files_ok (yard_deploys db) (yard_deploy_files db)" by (rule I(3))
  show "yf_deploy_id g \<in> yd_id ` set (yard_deploys db)" if "g \<in> set (yard_deploy_files db @ map (file_row d) files)" for g
    using that I(3) t by (auto simp: files_ok_def file_row_def)
  fix e
  assume e: "e \<in> set (yard_deploys db)" and old: "file_complete (yard_deploy_files db) e"
  show "file_complete (yard_deploy_files db @ map (file_row d) files) (h e)"
  proof (cases "yd_id e = yd_id t")
    case True
    then have "e = t" by (rule deploy_unique [OF I(2) e t(1)])
    have mine: "deploy_files (yard_deploy_files db @ map (file_row d) files) (yd_id t) = map (file_row d) files"
      using old t(2,3) by (simp add: \<open>e = t\<close> file_complete_def deploy_files_def filter_empty_conv file_row_def filter_map comp_def)
    have "''index.html'' \<in> yf_normalized_path ` set (map (file_row d) files)"
      using index by (auto simp: file_row_def image_image)
    then show ?thesis using ht mine by (simp add: \<open>e = t\<close> file_complete_def deploy_changeD [OF h])
  next
    case False
    have "deploy_files (map (file_row d) files) (yd_id e) = []"
      using False t(3) by (auto simp: deploy_files_def filter_empty_conv file_row_def)
    then have "deploy_files (yard_deploy_files db @ map (file_row d) files) (yd_id e) = deploy_files (yard_deploy_files db) (yd_id e)"
      by (simp add: deploy_files_def)
    then show ?thesis using old others [OF e False] by (simp add: file_complete_def deploy_changeD [OF h])
  qed
qed

lemma current_of_yard:
  assumes "yards_ok (web_yards db)" and "y \<in> set (web_yards db)"
  shows "current_of db (wy_id y) = wy_current_deploy_id y"
proof -
  have "find (\<lambda>z. wy_id z = wy_id y) (web_yards db) = Some y"
    by (rule find_unique [where P = "\<lambda>z. wy_id z = wy_id y"])
       (use assms in \<open>auto intro: yard_unique [OF assms(1)]\<close>)
  then show ?thesis by (simp add: current_of_def)
qed

text \<open>The tables just before the history is pruned.\<close>

lemma finalise_selected:
  assumes inv: "yard_inv db" and d: "deploy_by_id db uid = Ok d"
    and y: "yard_by_id db (ydr_yard_id d) = Ok y" "wyr_status y = WyActive"
    and valid: "validate_finalise d files t = Ok (at, count, bytes)"
    and ins: "insert_files files d db = Ok db1" and promote: "promote_status db1 d at = Ok (status, db2)"
    and up: "update_rows (\<lambda>r. yd_id r = uid \<and> yd_status r \<in> {''uploading'', ''finalising''})
           (\<lambda>r. r\<lparr>yd_status := yard_deploy_status_as_str status, yd_finalised_at_ms := Some at,
                  yd_file_count := count, yd_total_bytes := bytes\<rparr>) yard_deploy_check
           (yard_deploys db2) = Ok (n, rows)"
  shows "yard_inv (db2\<lparr>yard_deploys := rows, repository := m\<rparr>)"
proof -
  note I = yard_invD [OF inv] and v = validate_finalise_D [OF valid] and f = insert_files_D [OF ins]
  obtain r where r: "r \<in> set (yard_deploys db)" "yd_id r = uid" "deploy r = Ok d" by (rule deploy_by_id_D [OF d])
  obtain yr where yr: "yr \<in> set (web_yards db)" "wy_id yr = ydr_yard_id d" "yard yr = Ok y" by (rule yard_by_id_D [OF y(1)])
  have ids: "ydr_id d = uid" "yd_yard_id r = wy_id yr" "wy_status yr = ''active''"
    using r(2,3) yr(2,3) y(2) by (simp_all add: deploy_Ok_iff yard_Ok_iff)
  have uploading: "yd_status r \<in> {''uploading'', ''finalising''}" using r(3) v(5) by (auto simp: deploy_Ok_iff)
  then have open_deploy: "\<not> finalised r" "yd_status r \<noteq> ''live''" by (auto simp: finalised_def)
  let ?gs = "yard_deploy_files db @ map (file_row d) files"
  have keys: "distinct (map (\<lambda>f. (yf_deploy_id f, yf_normalized_path f)) ?gs)"
    using f(1,2) I(3) by (simp add: files_ok_def)
  let ?fin = "finalised_row uid status at count bytes"
  have rows: "rows = map ?fin (yard_deploys db2)" "\<And>e. e \<in> set (yard_deploys db2) \<Longrightarrow> yard_deploy_check e \<Longrightarrow> yard_deploy_check (?fin e)"
    using update_rows_change [OF up] by (simp_all add: finalised_row_def)
  have fin: "?fin r = r\<lparr>yd_status := yard_deploy_status_as_str status, yd_finalised_at_ms := Some at,
      yd_file_count := count, yd_total_bytes := bytes\<rparr>" "\<And>e. yd_id e \<noteq> uid \<Longrightarrow> ?fin e = e"
    using uploading r(2) by (simp_all add: finalised_row_def change_if_def)
  have checks: "yard_deploy_check e" if "e \<in> set (yard_deploys db)" for e using I(2) that by (simp add: deploys_ok_def)
  show ?thesis
    using promote
  proof (cases rule: promote_status_D)
    case older
    have db2: "yard_deploys db2 = yard_deploys db" "web_yards db2 = web_yards db" "yard_deploy_files db2 = ?gs"
      using older(2) f(1) by simp_all
    have "deploys_ok (web_yards db) (map ?fin (yard_deploys db))"
    proof (rule deploys_ok_change [OF I(2) finalised_row_change])
      show "yd_status (?fin e) = ''pruned''" if "e \<in> set (yard_deploys db)" "z \<in> set (web_yards db)" "yard_of e z" "wy_status z = ''deleted''" for e z
        using that by (simp add: yard_of_def finalised_row_def change_if_def)
    qed (use rows(2) checks db2 in simp)
    moreover have "files_ok (map ?fin (yard_deploys db)) ?gs"
      by (rule files_ok_finalised [OF inv r(1) open_deploy(1) _ keys v(4) finalised_row_change])
         (use fin r(2) ids(1) v(2) older(1) in \<open>simp_all add: finalised_def\<close>)
    moreover have "alias_of (map ?fin (yard_deploys db)) z" if z: "z \<in> set (web_yards db)" for z
      using I(4) [OF z]
      by (rule alias_of_change [OF _ finalised_row_change]) (auto simp: finalised_row_def change_if_def older(1))
    ultimately show ?thesis using I(1) by (simp add: yard_inv_def yard_core_def db2 rows(1))
  next
    case (promoted n1 ds n2 ys)
    have tables: "yard_deploys db1 = yard_deploys db" "web_yards db1 = web_yards db" "yard_deploy_files db1 = ?gs"
      "yard_deploys db2 = ds" "web_yards db2 = ys" "yard_deploy_files db2 = ?gs"
      using promoted(5) f(1) by simp_all
    have cur: "current_of db1 (ydr_yard_id d) = wy_current_deploy_id yr"
      using current_of_yard [of db1 yr] I(1) yr(1,2) by (simp add: tables)
    define h :: "yard_deploy_row \<Rightarrow> yard_deploy_row" where "h = ?fin \<circ>
      change_if (\<lambda>e. Some (yd_id e) = wy_current_deploy_id yr \<and> yd_id e \<noteq> uid \<and> yd_status e = ''live'')
        (\<lambda>e. e\<lparr>yd_status := ''superseded''\<rparr>)"
    note c1 = update_rows_change [OF promoted(3), unfolded cur tables ids(1)] and c2 = update_rows_change [OF promoted(4)]
    have h: "deploy_change h" by (simp add: h_def deploy_change_def change_if_def deploy_changeD [OF finalised_row_change])
    have hr: "h r = ?fin r" using r(2) by (simp add: h_def change_if_def)
    have ho: "h e = (if wy_current_deploy_id yr = Some (yd_id e) \<and> yd_status e = ''live'' then e\<lparr>yd_status := ''superseded''\<rparr> else e)"
      if "yd_id e \<noteq> uid" for e
      using that fin(2) by (auto simp: h_def change_if_def)
    have sel: "ys = map (selected_yard (wy_id yr) (yd_id r) at) (web_yards db)"
      using c2(1) r(2) yr(2) ids(1) by (simp add: tables change_if_def selected_yard_def)
    have "yard_inv (db\<lparr>repository := m, yard_deploys := map h (yard_deploys db), yard_deploy_files := ?gs,
        web_yards := map (selected_yard (wy_id yr) (yd_id r) at) (web_yards db)\<rparr>)"
    proof (rule switch_inv [OF inv yr(1) ids(3) r(1) ids(2) h])
      show "yard_deploy_check (h e)" if "e \<in> set (yard_deploys db)" for e
        using rows(2) [of "change_if (\<lambda>e. Some (yd_id e) = wy_current_deploy_id yr \<and> yd_id e \<noteq> uid \<and> yd_status e = ''live'')
          (\<lambda>e. e\<lparr>yd_status := ''superseded''\<rparr>) e"] c1(2) [OF that checks [OF that]] that
        by (simp add: h_def tables c1(1))
      show "yd_status (h r) = ''live''" using hr fin(1) promoted(1) by simp
      show "files_ok (map h (yard_deploys db)) ?gs"
      proof (rule files_ok_finalised [OF inv r(1) open_deploy(1) _ keys v(4) h])
        show "finalised (h e) = finalised e \<and> yd_file_count (h e) = yd_file_count e"
          if "e \<in> set (yard_deploys db)" "yd_id e \<noteq> yd_id r" for e
          using ho [of e] that r(2) by (simp add: finalised_def)
      qed (use hr fin(1) promoted(1) v(2) ids(1) r(2) in \<open>simp_all add: finalised_def\<close>)
      show "web_yard_check (selected_yard (wy_id yr) (yd_id r) at z)" if "z \<in> set (web_yards db)" "web_yard_check z" for z
        using c2(2) [of z] that r(2) yr(2) ids(1) by (simp add: tables change_if_def selected_yard_def)
    qed (use ho r(2) in simp)
    moreover have "rows = map h (yard_deploys db)" using rows(1) c1(1) by (simp add: tables h_def)
    ultimately show ?thesis by (simp add: yard_inv_def yard_core_def tables sel)
  qed
qed

lemma finalise_inv:
  assumes inv: "yard_inv db" and ok: "finalise_yard_deploy db uid files t event = (Ok x, db')"
  shows "yard_inv db'"
proof -
  have "finalise_in uid files t event db = Ok (x, db')" using ok by (simp add: finalise_yard_deploy_def outcome_iffs)
  then show ?thesis
  proof (cases rule: finalise_in_D)
    case repeated
    then show ?thesis using inv by simp
  next
    case (done' d y at count bytes status db1 db2 n rows m y')
    have "yard_inv (db2\<lparr>yard_deploys := rows, repository := m\<rparr>)" by (rule finalise_selected [OF inv done'(1-7)])
    from prune_inv [OF this done'(8,9)] show ?thesis .
  qed
qed

section \<open>The service\<close>

datatype yard_command =
  StartYardDeploy NewWebYard NewYardDeploy NewAuditEvent
| FinaliseYardDeploy string "NewYardFile list" nat NewAuditEvent
| FailYardDeploy string string string nat
| RollbackWebYard string "string option" nat NewAuditEvent
| DeleteWebYard string nat NewAuditEvent

fun yard_exec :: "yard_command \<Rightarrow> yard_database \<Rightarrow> (RepositoryError + unit) \<times> yard_database" where
  "yard_exec (StartYardDeploy y d e) db = outcome_of (start_yard_deploy db y d e)"
| "yard_exec (FinaliseYardDeploy d fs t e) db = outcome_of (finalise_yard_deploy db d fs t e)"
| "yard_exec (FailYardDeploy d c m t) db = outcome_of (fail_yard_deploy db d c m t)"
| "yard_exec (RollbackWebYard y d t e) db = outcome_of (rollback_web_yard db y d t e)"
| "yard_exec (DeleteWebYard y t e) db = outcome_of (delete_web_yard db y t e)"

lemma yard_failed_unchanged:
  "start_yard_deploy db y d ev = (Err e, db') \<Longrightarrow> db' = db"
  "finalise_yard_deploy db uid fs t ev = (Err e, db') \<Longrightarrow> db' = db"
  "fail_yard_deploy db uid c m t = (Err e, db') \<Longrightarrow> db' = db"
  "rollback_web_yard db uid k t ev = (Err e, db') \<Longrightarrow> db' = db"
  "delete_web_yard db uid t ev = (Err e, db') \<Longrightarrow> db' = db"
  unfolding start_yard_deploy_def finalise_yard_deploy_def fail_yard_deploy_def rollback_web_yard_def delete_web_yard_def
  by (auto dest!: after_Err_D write_transaction_Err_D)

lemmas yard_op_inv = start_inv finalise_inv fail_inv rollback_inv delete_inv

interpretation yards: transactional_service yard_exec "\<lambda>r. \<not> is_ok r" yard_inv
proof unfold_locales
  fix db c r db'
  assume "yard_inv db" and "yard_exec c db = (r, db')" and "\<not> is_ok r"
  then show "db' = db" by (cases c) (auto dest!: outcome_of_Err dest: yard_failed_unchanged)
next
  fix db c r db'
  assume inv: "yard_inv db" and run: "yard_exec c db = (r, db')" and ok: "\<not> \<not> is_ok r"
  then show "yard_inv db'" by (cases c) (auto dest!: outcome_of_Ok dest: yard_op_inv [OF inv])
qed

end
