(* ===== verification/Yard_Serving.thy ===== *)
theory Yard_Serving
  imports Yard_Histories
begin

text \<open>
  What a host label serves. Publishing a deploy, by finalising it or by rolling back to it, makes the
  stable host serve exactly it.
\<close>

section \<open>Selection by host\<close>

lemma yard_deploy_decodes: "yard_deploy_check d \<Longrightarrow> \<exists>x. deploy d = Ok x"
proof -
  assume check: "yard_deploy_check d"
  then have "\<exists>s. yard_deploy_status_parse (yd_status d) = Some s"
    by (auto simp: yard_deploy_check_def yard_deploy_status_parse_def)
  moreover have "\<exists>v. optional_u64 (yd_finalised_at_ms d) = Ok v"
    using check by (cases "yd_finalised_at_ms d") (auto simp: yard_deploy_check_def optional_u64_def required_u64_def)
  ultimately show ?thesis using check
    by (auto simp: deploy_def yard_deploy_check_def required_u64_def)
qed

lemma stable_deploy_selects:
  assumes inv: "yard_inv db" and y: "y \<in> set (web_yards db)" "wy_status y = ''active''" "wy_current_deploy_id y = Some (yd_id d)"
    and d: "d \<in> set (yard_deploys db)"
  shows "stable_deploy db (wy_host_label y) = and_then (deploy d) (\<lambda>x. Ok (Some x))"
proof -
  note I = yard_invD [OF inv]
  let ?P = "\<lambda>(z, e). wy_host_label z = wy_host_label y \<and> wy_status z = ''active''
         \<and> wy_current_deploy_id z = Some (yd_id e) \<and> yd_yard_id e = wy_id z \<and> yd_status e = ''live''"
  obtain e where e: "e \<in> set (yard_deploys db)" "yd_id e = yd_id d" "yd_yard_id e = wy_id y"
    using I(4) [OF y(1)] y(3) by (auto simp: alias_of_def)
  have "e = d" by (rule deploy_unique [OF I(2) e(1) d e(2)])
  have live: "yd_status d = ''live''" using I(4) [OF y(1)] d e(3) y(3) unfolding \<open>e = d\<close> by (simp add: alias_of_def)
  have "find ?P (List.product (web_yards db) (yard_deploys db)) = Some (y, d)"
  proof (rule find_unique [where P = ?P])
    show "(y, d) \<in> set (List.product (web_yards db) (yard_deploys db))" using y(1) d by simp
    show "?P (y, d)" using y e(3) live \<open>e = d\<close> by simp
    fix q
    assume q: "q \<in> set (List.product (web_yards db) (yard_deploys db))" and P: "?P q"
    obtain z f where zf: "q = (z, f)" by (cases q)
    have "z = y" using distinct_map_eq [of wy_host_label "web_yards db" z y] I(1) q P zf y(1) by (simp add: yards_ok_def)
    moreover have "f = d" using deploy_unique [OF I(2), of f d] q P zf d y(3) \<open>z = y\<close> by simp
    ultimately show "q = (y, d)" using zf by simp
  qed
  then show ?thesis by (simp add: stable_deploy_def query_optional_def)
qed

lemma serves_current:
  assumes inv: "yard_inv db" and y: "y \<in> set (web_yards db)" "wy_status y = ''active''" "wy_current_deploy_id y = Some (yd_id d)"
    and d: "d \<in> set (yard_deploys db)" "deploy d = Ok x"
  shows "serving_deploy db (wy_host_label y) = Ok x"
  using stable_deploy_selects [OF inv y d(1)] d(2) by (simp add: serving_deploy_def)

text \<open>What is served belongs to an active yard and is retained.\<close>

lemma serving_deploy_D:
  assumes "serving_deploy db h = Ok x"
  obtains y d where "y \<in> set (web_yards db)" and "wy_status y = ''active''" and "d \<in> set (yard_deploys db)"
    and "yd_yard_id d = wy_id y" and "finalised d" and "deploy d = Ok x"
    and "wy_host_label y = h \<and> wy_current_deploy_id y = Some (yd_id d) \<or> yd_deployment_host_label d = h"
proof -
  obtain v where v: "stable_deploy db h = Ok v" using assms by (auto simp: serving_deploy_def result_simps)
  show thesis
  proof (cases v)
    case (Some x')
    then obtain y d where "find (\<lambda>(y, d). wy_host_label y = h \<and> wy_status y = ''active''
         \<and> wy_current_deploy_id y = Some (yd_id d) \<and> yd_yard_id d = wy_id y \<and> yd_status d = ''live'')
         (List.product (web_yards db) (yard_deploys db)) = Some (y, d)" "deploy d = Ok x'"
      using v by (auto simp: stable_deploy_def query_optional_Ok_iff)
    from find_Some_iff_first [OF this(1)] this(2) show thesis
      using v Some assms by (intro that [of y d]) (auto simp: serving_deploy_def finalised_def)
  next
    case None
    then have "immutable_deploy db h = Ok (Some x)" using v assms by (auto simp: serving_deploy_def result_simps)
    then obtain d y where "find (\<lambda>(d, y). yd_deployment_host_label d = h \<and> wy_id y = yd_yard_id d
         \<and> wy_status y = ''active'' \<and> yd_status d \<in> {''live'', ''superseded''})
         (List.product (yard_deploys db) (web_yards db)) = Some (d, y)" "deploy d = Ok x"
      by (auto simp: immutable_deploy_def query_optional_Ok_iff)
    from find_Some_iff_first [OF this(1)] this(2) show thesis
      by (intro that [of y d]) (auto simp: finalised_def)
  qed
qed

section \<open>Publishing\<close>

text \<open>A yard and its current deploy, as read back at the end of an operation.\<close>

lemma read_back_serves:
  assumes inv: "yard_inv db" and y: "yard_by_id db uid = Ok y" "wyr_status y = WyActive"
    and d: "deploy_by_id db k = Ok d" "ydr_status d = YdLive" "ydr_yard_id d = uid"
  shows "serving_deploy db (wyr_host_label y) = Ok d" and "wyr_current_deploy_id y = Some (ydr_id d)"
proof -
  obtain r where r: "r \<in> set (web_yards db)" "wy_id r = uid" "yard r = Ok y" by (rule yard_by_id_D [OF y(1)])
  obtain e where e: "e \<in> set (yard_deploys db)" "deploy e = Ok d" by (rule deploy_by_id_D [OF d(1)])
  have "wy_current_deploy_id r = Some (yd_id e)"
    using yard_invD(4) [OF inv r(1)] e r(2) d(2,3) by (simp add: alias_of_def deploy_Ok_iff)
  moreover have "wy_status r = ''active''" using r(3) y(2) by (simp add: yard_Ok_iff)
  ultimately have "serving_deploy db (wy_host_label r) = Ok d" using serves_current [OF inv r(1)] e by blast
  then show "serving_deploy db (wyr_host_label y) = Ok d" using r(3) by (simp add: yard_Ok_iff)
  show "wyr_current_deploy_id y = Some (ydr_id d)"
    using \<open>wy_current_deploy_id r = Some (yd_id e)\<close> r(3) e(2) by (simp add: yard_Ok_iff deploy_Ok_iff)
qed

text \<open>The deploy a rollback picks: the newest superseded one, unless one is named.\<close>

lemma find_first_sorted:
  assumes "find P xs = Some x" and "sorted_wrt R xs" and "y \<in> set xs" and "P y"
  shows "y = x \<or> R x y"
  using assms by (induction xs) (auto split: if_split_asm)

lemma yard_history_sorted:
  "sorted_wrt (\<lambda>a b. (yd_created_at_ms b, yd_id b) \<le> (yd_created_at_ms a, yd_id a)) (yard_history db uid)"
proof -
  have "sorted (map (\<lambda>r. (yd_created_at_ms r, yd_id r)) (sort_key (\<lambda>r. (yd_created_at_ms r, yd_id r))
      (filter (\<lambda>r. yd_yard_id r = uid) (yard_deploys db))))" by (rule sorted_sort_key)
  then show ?thesis unfolding yard_history_def sorted_wrt_rev sorted_wrt_map .
qed

lemma sorted_decoded:
  assumes "collect_results f xs = Ok ys" and "sorted_wrt R xs" and "\<And>a b x y. R a b \<Longrightarrow> f a = Ok x \<Longrightarrow> f b = Ok y \<Longrightarrow> S x y"
  shows "sorted_wrt S ys"
  using assms(1,2)
proof (induction xs arbitrary: ys)
  case (Cons a xs)
  then obtain x zs where x: "f a = Ok x" and zs: "collect_results f xs = Ok zs" "ys = x # zs" by (auto simp: result_simps)
  have "S x z" if "z \<in> set zs" for z
    using collect_results_member [OF zs(1) that] Cons.prems(2) assms(3) x by auto
  then show ?case using Cons zs by simp
qed simp

lemma rollback_target_newest:
  assumes target: "rollback_target db y None = Ok target"
    and d: "d \<in> set (yard_deploys db)" "yd_yard_id d = wyr_id y" "yd_status d = ''superseded''" "yd_finalised_at_ms d \<noteq> None"
      "wyr_current_deploy_id y \<noteq> Some (yd_id d)" "deploy d = Ok x"
  shows "(ydr_created_at_ms x, ydr_id x) \<le> (ydr_created_at_ms target, ydr_id target)"
proof -
  obtain deploys where list: "collect_results deploy (yard_history db (wyr_id y)) = Ok deploys"
    and pick: "find (\<lambda>d. ydr_status d = YdSuperseded \<and> ydr_finalised_at_ms d \<noteq> None
         \<and> Some (ydr_id d) \<noteq> wyr_current_deploy_id y) deploys = Some target"
    using target by (auto simp: rollback_target_def list_candidates_def result_simps)
  have sorted: "sorted_wrt (\<lambda>a b. (ydr_created_at_ms b, ydr_id b) \<le> (ydr_created_at_ms a, ydr_id a)) deploys"
    by (rule sorted_decoded [OF list yard_history_sorted]) (auto simp: deploy_Ok_iff)
  have "d \<in> set (yard_history db (wyr_id y))" using d by (simp add: yard_history_def)
  then have "x \<in> set deploys" using collect_results_covers [OF list] d(6) by fastforce
  moreover have "ydr_status x = YdSuperseded \<and> ydr_finalised_at_ms x \<noteq> None \<and> Some (ydr_id x) \<noteq> wyr_current_deploy_id y"
    using d by (auto simp: deploy_Ok_iff)
  ultimately have "x = target \<or> (ydr_created_at_ms x, ydr_id x) \<le> (ydr_created_at_ms target, ydr_id target)"
    using find_first_sorted [OF pick sorted] by blast
  then show ?thesis by auto
qed

definition previous_deploy :: "yard_database \<Rightarrow> string \<Rightarrow> YardDeployRecord \<Rightarrow> bool" where
  "previous_deploy db uid x \<longleftrightarrow>
     (\<forall>d \<in> set (yard_deploys db). yd_yard_id d = uid \<and> yd_status d = ''superseded'' \<longrightarrow>
        (yd_created_at_ms d, yd_id d) \<le> (int (ydr_created_at_ms x), ydr_id x))"

lemma rollback_effect:
  assumes inv: "yard_inv db" and ok: "rollback_web_yard db uid chosen t ev = (Ok x, db')"
  shows "serving_deploy db' (wyr_host_label (ydm_yard x)) = Ok (ydm_deploy x)"
    and "wyr_id (ydm_yard x) = uid" and "current_of db uid \<noteq> Some (ydr_id (ydm_deploy x))"
    and "case chosen of None \<Rightarrow> previous_deploy db uid (ydm_deploy x) | Some k \<Rightarrow> ydr_id (ydm_deploy x) = k"
proof -
  have run: "rollback_in uid chosen t ev db = Ok (x, db')" using ok by (simp add: rollback_web_yard_def outcome_iffs)
  have inv': "yard_inv db'" by (rule rollback_inv [OF inv ok])
  obtain y target n1 ds1 n2 ds2 n3 ys m where y: "yard_by_id db uid = Ok y" and active: "wyr_status y = WyActive"
    and target: "rollback_target db y chosen = Ok target"
    and u1: "update_rows (\<lambda>r. Some (yd_id r) = wyr_current_deploy_id y \<and> yd_status r = ''live'')
           (\<lambda>r. r\<lparr>yd_status := ''superseded''\<rparr>) yard_deploy_check (yard_deploys db) = Ok (n1, ds1)"
    and u2: "update_rows (\<lambda>r. yd_id r = ydr_id target \<and> yd_status r = ''superseded'')
           (\<lambda>r. r\<lparr>yd_status := ''live''\<rparr>) yard_deploy_check ds1 = Ok (n2, ds2)"
    and u3: "update_rows (\<lambda>r. wy_id r = wyr_id y \<and> wy_status r = ''active'')
           (\<lambda>r. r\<lparr>wy_current_deploy_id := Some (ydr_id target), wy_updated_at_ms := int t\<rparr>) web_yard_check
           (web_yards db) = Ok (n3, ys)"
    and eq: "db' = db\<lparr>yard_deploys := ds2, web_yards := ys, repository := m\<rparr>"
    and read: "yard_by_id db' uid = Ok (ydm_yard x)" "deploy_by_id db' (ydr_id target) = Ok (ydm_deploy x)"
    by (rule rollback_in_D [OF run])
  note I = yard_invD [OF inv] and c1 = update_rows_change [OF u1] and c2 = update_rows_change [OF u2] and c3 = update_rows_change [OF u3]
  obtain yr where yr: "yr \<in> set (web_yards db)" "wy_id yr = uid" "yard yr = Ok y" by (rule yard_by_id_D [OF y])
  obtain r where r: "r \<in> set (yard_deploys db)" "deploy r = Ok target" "yd_yard_id r = wyr_id y"
      "yd_status r = ''superseded''" "wyr_current_deploy_id y \<noteq> Some (yd_id r)" "\<And>k. chosen = Some k \<Longrightarrow> k = yd_id r"
    using rollback_target_D [OF target] by blast
  obtain yr' where yr': "yr' \<in> set (web_yards db')" "wy_id yr' = uid" "yard yr' = Ok (ydm_yard x)" by (rule yard_by_id_D [OF read(1)])
  obtain r' where r': "r' \<in> set (yard_deploys db')" "yd_id r' = ydr_id target" "deploy r' = Ok (ydm_deploy x)" by (rule deploy_by_id_D [OF read(2)])
  have ids: "wyr_id y = uid" "ydr_id target = yd_id r" "wyr_current_deploy_id y = wy_current_deploy_id yr" "wy_status yr = ''active''"
    using yr(2,3) r(2) active by (auto simp: yard_Ok_iff deploy_Ok_iff)
  have "r\<lparr>yd_status := ''live''\<rparr> \<in> set ds2"
    using r(1,4) c1(1) c2(1) by (force simp: change_if_def ids)
  then have r'_eq: "r' = r\<lparr>yd_status := ''live''\<rparr>"
    using deploy_unique [OF yard_invD(2) [OF inv'] r'(1)] r'(2) ids(2) by (simp add: eq)
  have "yr\<lparr>wy_current_deploy_id := Some (yd_id r), wy_updated_at_ms := int t\<rparr> \<in> set ys"
    using yr(1,2) c3(1) by (force simp: change_if_def ids)
  then have yr'_eq: "yr' = yr\<lparr>wy_current_deploy_id := Some (yd_id r), wy_updated_at_ms := int t\<rparr>"
    using yard_unique [OF yard_invD(1) [OF inv'] yr'(1)] yr(2) yr'(2) by (simp add: eq)
  have fields: "wyr_status (ydm_yard x) = WyActive" "ydr_status (ydm_deploy x) = YdLive" "ydr_yard_id (ydm_deploy x) = uid"
      "ydr_id (ydm_deploy x) = yd_id r" "wyr_id (ydm_yard x) = uid" "int (ydr_created_at_ms (ydm_deploy x)) = yd_created_at_ms r"
    using yr'(3) r'(3) yr(2) r(3) ids by (auto simp: yr'_eq r'_eq yard_Ok_iff deploy_Ok_iff)
  show "serving_deploy db' (wyr_host_label (ydm_yard x)) = Ok (ydm_deploy x)"
    by (rule read_back_serves(1) [OF inv' read(1) fields(1) read(2) fields(2,3)])
  show "wyr_id (ydm_yard x) = uid" by (rule fields)
  show "current_of db uid \<noteq> Some (ydr_id (ydm_deploy x))"
    using current_of_yard [OF I(1) yr(1)] r(5) ids fields(4) yr(2) by simp
  show "case chosen of None \<Rightarrow> previous_deploy db uid (ydm_deploy x) | Some k \<Rightarrow> ydr_id (ydm_deploy x) = k"
  proof (cases chosen)
    case None
    have "(yd_created_at_ms d, yd_id d) \<le> (int (ydr_created_at_ms (ydm_deploy x)), ydr_id (ydm_deploy x))"
      if d: "d \<in> set (yard_deploys db)" "yd_yard_id d = uid" "yd_status d = ''superseded''" for d
    proof -
      have check: "yard_deploy_check d" using I(2) d(1) by (simp add: deploys_ok_def)
      obtain z where z: "deploy d = Ok z" using yard_deploy_decodes [OF check] by blast
      have "yd_finalised_at_ms d \<noteq> None" using check d(3) by (auto simp: yard_deploy_check_def)
      moreover have "wyr_current_deploy_id y \<noteq> Some (yd_id d)"
        using I(4) [OF yr(1)] d yr(2) ids(3) by (auto simp: alias_of_def)
      ultimately have "(ydr_created_at_ms z, ydr_id z) \<le> (ydr_created_at_ms target, ydr_id target)"
        using rollback_target_newest [OF target [unfolded None]] d ids(1) z by simp
      then show ?thesis using z r(2) fields(4,6) by (auto simp: deploy_Ok_iff)
    qed
    then show ?thesis using None by (simp add: previous_deploy_def)
  next
    case (Some k)
    then show ?thesis using r(6) fields(4) by simp
  qed
qed

end
