(* ===== verification/Yard_Site.thy ===== *)
theory Yard_Site
  imports Yard_Histories Inbox_Histories
begin

text \<open>
  The Web Yards on the database they share with the other services. The tables of both sides keep
  their invariants under the commands of either: the cleanup plans of the yards are deletion plans
  like the others, and purging an object unlinks the files that show it. What is planned for
  deletion is never a version a retained deploy still shows.
\<close>

section \<open>What the yards do to the shared database\<close>

definition linked :: "database \<Rightarrow> yard_file_row list \<Rightarrow> bool" where
  "linked m fs \<longleftrightarrow>
     (\<forall>f \<in> set fs. \<forall>v. yf_version_id f = Some v \<longrightarrow> v \<in> ov_id ` set (object_versions m))"

definition site_inv :: "yard_database \<Rightarrow> bool" where
  "site_inv db \<longleftrightarrow> yard_inv db \<and> store_wide_inv (repository db) \<and> linked (repository db) (yard_deploy_files db)"

lemma site_invD:
  assumes "site_inv db"
  shows "yard_inv db" and "store_wide_inv (repository db)" and "linked (repository db) (yard_deploy_files db)"
  using assms by (simp_all add: site_inv_def)

text \<open>A step on the shared database that keeps its invariant and the versions, and plans the deletion
  of nothing but \<open>planned\<close>.\<close>

definition repository_step :: "database \<Rightarrow> string set \<Rightarrow> database \<Rightarrow> bool" where
  "repository_step m planned m' \<longleftrightarrow>
     (store_wide_inv m \<longrightarrow> store_wide_inv m') \<and> object_versions m' = object_versions m
     \<and> upload_reservations m' = upload_reservations m
     \<and> set (deletion_items m) \<subseteq> set (deletion_items m')
     \<and> di_version_id ` (set (deletion_items m') - set (deletion_items m)) \<subseteq> planned"

lemma repository_step_refl [simp]: "repository_step m planned m"
  by (simp add: repository_step_def)

lemma repository_step_trans:
  "repository_step m P m1 \<Longrightarrow> repository_step m1 Q m' \<Longrightarrow> repository_step m (P \<union> Q) m'"
proof -
  assume one: "repository_step m P m1" and two: "repository_step m1 Q m'"
  have "di_version_id ` (set (deletion_items m') - set (deletion_items m))
      \<subseteq> di_version_id ` (set (deletion_items m') - set (deletion_items m1)) \<union> di_version_id ` (set (deletion_items m1) - set (deletion_items m))"
    by blast
  also have "\<dots> \<subseteq> P \<union> Q" using one two by (auto simp: repository_step_def)
  finally show ?thesis using one two unfolding repository_step_def by auto
qed

lemma step_weaken: "repository_step m P m' \<Longrightarrow> P \<subseteq> Q \<Longrightarrow> repository_step m Q m'"
  unfolding repository_step_def by (meson subset_trans)

lemma repository_step_audit:
  assumes "audit_insert m ev = Ok m'"
  shows "repository_step m planned m'"
proof -
  obtain e where e: "m' = m\<lparr>audit_events := audit_events m @ [e], audit_sequence := audit_sequence m + 1\<rparr>"
    by (rule audit_insert_Ok_D [OF assms])
  have "store_wide_inv m \<longrightarrow> store_wide_inv m'" using audit_insert_store_wide [OF _ assms] by blast
  then show ?thesis by (simp add: repository_step_def e)
qed

lemma cleanup_items_D:
  assumes "i \<in> set (cleanup_items db d)"
  shows "di_operation_id i = do_id (cleanup_operation d t)" and "\<not> needed_elsewhere db (ydr_id d) (di_version_id i)"
    and "\<exists>v \<in> set (object_versions (repository db)). ov_id v = di_version_id i \<and> ov_state v = ''complete''
      \<and> starts_with (ydr_manifest_root d) (ov_object_path v)"
  using assms by (auto simp: cleanup_items_def cleanup_operation_def deploy_versions_def)

lemma plan_repository:
  assumes "plan db uid t = Ok db'"
  obtains m where "db' = db\<lparr>repository := m\<rparr>"
    and "repository_step (repository db) {v. \<not> needed_elsewhere db uid v} m"
proof -
  obtain d where d: "deploy_by_id db uid = Ok d" using assms by (auto simp: plan_def result_simps)
  then have uid: "ydr_id d = uid" by (auto elim!: deploy_by_id_D simp: deploy_Ok_iff)
  let ?row = "cleanup_operation d t"
  show thesis
  proof (cases "db' = db")
    case True
    then show thesis using that [of "repository db"] by simp
  next
    case False
    with assms d obtain m1 m where op: "insert_operation (repository db) ?row = Ok m1"
      and items: "insert_items (cleanup_items db d) m1 = Ok m" and eq: "db' = db\<lparr>repository := m\<rparr>"
      by (auto simp: plan_def result_simps Let_def split: if_split_asm)
    have allowed: "deletion_operation_allowed (repository db) ?row"
      and m1: "m1 = (repository db)\<lparr>deletion_operations := deletion_operations (repository db) @ [?row]\<rparr>"
      using op by (auto simp: insert_operation_def result_simps)
    have m: "m = (repository db)\<lparr>deletion_operations := deletion_operations (repository db) @ [?row],
        deletion_items := deletion_items (repository db) @ cleanup_items db d\<rparr>"
      using insert_items_D [OF items] by (simp add: m1)
    have "deletions_inv m" if "deletions_inv (repository db)"
    proof (rule record_operation_inv(1) [OF that allowed _ _ items [unfolded m1]])
      show "di_operation_id row = do_id ?row" if "row \<in> set (cleanup_items db d)" for row
        using that by (rule cleanup_items_D(1))
    qed (simp add: cleanup_operation_def)
    moreover have "store_inv m = store_inv (repository db)" by (simp add: m)
    moreover have "inbox_inv m = inbox_inv (repository db)" by (simp add: m inbox_inv_def)
    ultimately have "store_wide_inv (repository db) \<longrightarrow> store_wide_inv m"
      by (simp add: store_wide_inv_def lifecycle_inv_def)
    then show thesis using that [OF eq] cleanup_items_D(2) uid by (auto simp: repository_step_def m)
  qed
qed

text \<open>Pruning plans nothing that a file of a deploy outside the pruned ones names.\<close>

lemma files_need:
  assumes core: "yard_core db" and f: "f \<in> set (yard_deploy_files db)" "yf_deploy_id f \<noteq> uid" "yf_version_id f = Some v"
  shows "needed_elsewhere db uid v"
proof -
  obtain d where d: "d \<in> set (yard_deploys db)" "yd_id d = yf_deploy_id f" "file_complete (yard_deploy_files db) d"
    using core f(1) by (fastforce simp: yard_core_def files_ok_def)
  have "deploy_files (yard_deploy_files db) (yd_id d) \<noteq> []" using f(1) d(2) by (auto simp: deploy_files_def filter_empty_conv)
  then have "yd_status d \<noteq> ''pruned''" using d(3) by (auto simp: file_complete_def finalised_def split: if_split_asm)
  then show ?thesis using f d by (auto simp: needed_elsewhere_def list_ex_iff)
qed

lemma prune_each_repository:
  assumes "prune_each ids t db = Ok db'" and "yard_core db"
  shows "repository_step (repository db) {v. Some v \<notin> yf_version_id ` set (yard_deploy_files db')} (repository db')"
  using assms
proof (induction ids arbitrary: db)
  case (Cons uid ids)
  obtain db1 where one: "mark_pruned uid t db = Ok db1" and rest: "prune_each ids t db1 = Ok db'"
    using Cons.prems(1) by (auto simp: result_simps)
  then have "prune_each [uid] t db = Ok db1" by simp
  with Cons.prems(2) have core1: "yard_core db1" by (rule pruned_core)
  obtain dbp where p: "plan db uid t = Ok dbp" and same: "repository db1 = repository dbp"
      "yard_deploy_files db1 = filter (\<lambda>f. yf_deploy_id f \<noteq> uid) (yard_deploy_files dbp)"
    using one by (auto simp: mark_pruned_def result_simps)
  obtain m where m: "dbp = db\<lparr>repository := m\<rparr>" "repository_step (repository db) {v. \<not> needed_elsewhere db uid v} m"
    by (rule plan_repository [OF p])
  have "yard_deploy_files db' = filter (\<lambda>f. yf_deploy_id f \<notin> set ids) (yard_deploy_files db1)"
    by (rule prune_each_D [OF rest]) simp
  then have files: "f \<in> set (yard_deploy_files db) \<and> yf_deploy_id f \<noteq> uid" if "f \<in> set (yard_deploy_files db')" for f
    using that by (simp add: same(2) m(1))
  have "v \<in> {v. Some v \<notin> yf_version_id ` set (yard_deploy_files db')}" if "v \<in> {v. \<not> needed_elsewhere db uid v}" for v
    using that files_need [OF Cons.prems(2), of _ uid v] files by (simp add: image_iff) metis
  then have "repository_step (repository db) {v. Some v \<notin> yf_version_id ` set (yard_deploy_files db')} (repository db1)"
    using step_weaken [OF m(2) subsetI] by (simp add: same(1) m(1))
  from repository_step_trans [OF this Cons.IH [OF rest core1]] show ?case by simp
qed simp

definition spared :: "yard_database \<Rightarrow> string set" where
  "spared db = {v. Some v \<notin> yf_version_id ` set (yard_deploy_files db)}"

lemma prune_repository:
  assumes core: "yard_core db" and run: "prune uid c t db = Ok db'"
  shows "repository_step (repository db) (spared db') (repository db')"
    and "set (yard_deploy_files db') \<subseteq> set (yard_deploy_files db)"
proof -
  obtain ids where ids: "prune_each ids t db = Ok db'" using run by (auto simp: prune_def result_simps)
  show "repository_step (repository db) (spared db') (repository db')"
    using prune_each_repository [OF ids core] by (simp add: spared_def)
  show "set (yard_deploy_files db') \<subseteq> set (yard_deploy_files db)" by (rule prune_each_D [OF ids]) auto
qed

lemma start_repository:
  assumes inv: "yard_inv db" and ok: "start_yard_deploy db y d ev = (Ok x, db')"
  shows "repository_step (repository db) (spared db') (repository db')" and "yard_deploy_files db' = yard_deploy_files db"
proof -
  have run: "start_in y d ev db = Ok (x, db')" using ok by (simp add: start_yard_deploy_def outcome_iffs)
  have aud: "repository_step (repository db) (spared db') (repository db1)"
    if "yard_audit dbb ev = Ok db1" "repository dbb = repository db" for dbb db1
    using repository_step_audit that by (auto elim: yard_audit_D)
  have "repository_step (repository db) (spared db') (repository db') \<and> yard_deploy_files db' = yard_deploy_files db"
    using run
  proof (cases rule: start_in_D)
    case (started selected db1 t1 t2 s)
    have "repository_step (repository db) (spared db') (repository db1)"
    proof (cases "db1 = db")
      case False
      then obtain dba dbb where ins: "insert_yard db y t1 = Ok dba" and env: "insert_production_environment dba (nwy_id y) t1 = Ok dbb"
        and au: "yard_audit dbb ev = Ok db1"
        using started(3) by (auto simp: select_yard_def result_simps split: option.split_asm if_split_asm)
      have "repository dbb = repository db"
        by (rule insert_production_environment_D [OF env]) (simp add: insert_yard_D(1) [OF ins])
      then show ?thesis by (rule aud [OF au])
    qed simp
    moreover have "yard_deploy_files db1 = yard_deploy_files db"
      by (rule select_yard_inv [OF inv started(3)])
    ultimately show ?thesis using insert_deploy_D(1) [OF started(4)] by simp
  qed simp
  then show "repository_step (repository db) (spared db') (repository db')" and "yard_deploy_files db' = yard_deploy_files db"
    by simp_all
qed

lemma finalise_repository:
  assumes inv: "yard_inv db" and ok: "finalise_yard_deploy db uid files t ev = (Ok x, db')"
  shows "repository_step (repository db) (spared db') (repository db')"
    and "linked (repository db) (yard_deploy_files db) \<Longrightarrow> linked (repository db) (yard_deploy_files db')"
proof -
  have run: "finalise_in uid files t ev db = Ok (x, db')" using ok by (simp add: finalise_yard_deploy_def outcome_iffs)
  have "repository_step (repository db) (spared db') (repository db')
    \<and> (linked (repository db) (yard_deploy_files db) \<longrightarrow> linked (repository db) (yard_deploy_files db'))"
    using run
  proof (cases rule: finalise_in_D)
    case (done' d y at count bytes status db1 db2 n rows m y')
    let ?db = "db2\<lparr>yard_deploys := rows, repository := m\<rparr>"
    note f = insert_files_D [OF done'(5)]
    have tables: "repository db2 = repository db" "yard_deploy_files db2 = yard_deploy_files db @ map (file_row d) files"
      by (rule promote_status_D [OF done'(6)]; simp add: f(1))+
    have "yard_core ?db"
      using finalise_selected [OF inv done'(1-7), of m] by (simp add: yard_inv_def)
    note p = prune_repository [OF this done'(9)]
    have "repository_step (repository db) (spared db') m"
      by (rule repository_step_audit) (use done'(11) in \<open>simp add: tables\<close>)
    from repository_step_trans [OF this] p(1) have "repository_step (repository db) (spared db') (repository db')" by fastforce
    moreover have "linked (repository db) (yard_deploy_files db')" if "linked (repository db) (yard_deploy_files db)"
      unfolding linked_def
    proof (intro ballI allI impI)
      fix g v
      assume g: "g \<in> set (yard_deploy_files db')" and v: "yf_version_id g = Some v"
      have "g \<in> set (yard_deploy_files db) \<or> g \<in> file_row d ` set files" using p(2) g by (auto simp: tables)
      then show "v \<in> ov_id ` set (object_versions (repository db))"
      proof
        assume "g \<in> file_row d ` set files"
        then obtain e where e: "e \<in> set files" "v = nyf_version_id e" using v by (auto simp: file_row_def)
        then show ?thesis using f(3) [OF e(1)] e(2) by (metis image_eqI)
      qed (use that v in \<open>auto simp: linked_def\<close>)
    qed
    ultimately show ?thesis by blast
  qed simp
  then show "repository_step (repository db) (spared db') (repository db')"
    and "linked (repository db) (yard_deploy_files db) \<Longrightarrow> linked (repository db) (yard_deploy_files db')"
    by blast+
qed

lemma fail_repository:
  assumes inv: "yard_inv db" and ok: "fail_yard_deploy db uid code message t = (Ok x, db')"
  shows "repository_step (repository db) (spared db') (repository db')"
    and "set (yard_deploy_files db') \<subseteq> set (yard_deploy_files db)"
proof -
  have run: "fail_in uid code message t db = Ok (x, db')" using ok by (simp add: fail_yard_deploy_def outcome_iffs)
  have "repository_step (repository db) (spared db') (repository db') \<and> set (yard_deploy_files db') \<subseteq> set (yard_deploy_files db)"
    using run
  proof (cases rule: fail_in_D)
    case (marked d n rows y)
    have "yard_inv (db\<lparr>yard_deploys := rows\<rparr>)"
      by (rule failed_change_inv [OF inv marked(3)]) (simp_all add: deploy_change_def)
    then have "yard_core (db\<lparr>yard_deploys := rows\<rparr>)" by (simp add: yard_inv_def)
    from prune_repository [OF this marked(5)] show ?thesis by simp
  qed simp
  then show "repository_step (repository db) (spared db') (repository db')"
    and "set (yard_deploy_files db') \<subseteq> set (yard_deploy_files db)" by blast+
qed

lemma rollback_repository:
  assumes ok: "rollback_web_yard db uid chosen t ev = (Ok x, db')"
  shows "repository_step (repository db) (spared db') (repository db')" and "yard_deploy_files db' = yard_deploy_files db"
proof -
  have run: "rollback_in uid chosen t ev db = Ok (x, db')" using ok by (simp add: rollback_web_yard_def outcome_iffs)
  obtain ds ys m where m: "audit_insert (repository db) ev = Ok m" "db' = db\<lparr>yard_deploys := ds, web_yards := ys, repository := m\<rparr>"
    by (rule rollback_in_D [OF run])
  show "repository_step (repository db) (spared db') (repository db')" using repository_step_audit [OF m(1)] by (simp add: m(2))
  show "yard_deploy_files db' = yard_deploy_files db" by (simp add: m(2))
qed

lemma delete_repository:
  assumes inv: "yard_inv db" and ok: "delete_web_yard db uid t ev = (Ok x, db')"
  shows "repository_step (repository db) (spared db') (repository db')"
    and "set (yard_deploy_files db') \<subseteq> set (yard_deploy_files db)"
proof -
  have run: "delete_in uid t ev db = Ok (x, db')" using ok by (simp add: delete_web_yard_def outcome_iffs)
  have "repository_step (repository db) (spared db') (repository db') \<and> set (yard_deploy_files db') \<subseteq> set (yard_deploy_files db)"
    using run
  proof (cases rule: delete_in_D)
    case (deleted y db1 n ys m)
    obtain ids where ids: "prune_each ids (int t) db = Ok db1" by (rule prune_all_D [OF deleted(3)])
    have core: "yard_core db" using inv by (simp add: yard_inv_def)
    have files: "yard_deploy_files db' = yard_deploy_files db1" by (simp add: deleted(5))
    have "repository_step (repository db) (spared db') (repository db1)"
      using prune_each_repository [OF ids core] by (simp add: spared_def files)
    from repository_step_trans [OF this repository_step_audit [OF deleted(6), of "spared db'"]]
    have "repository_step (repository db) (spared db') (repository db')" by (simp add: deleted(5))
    moreover have "set (yard_deploy_files db1) \<subseteq> set (yard_deploy_files db)" by (rule prune_each_D [OF ids]) auto
    ultimately show ?thesis by (simp add: files)
  qed simp
  then show "repository_step (repository db) (spared db') (repository db')"
    and "set (yard_deploy_files db') \<subseteq> set (yard_deploy_files db)" by blast+
qed

lemma linked_subset: "linked m fs \<Longrightarrow> set gs \<subseteq> set fs \<Longrightarrow> linked m gs"
  by (auto simp: linked_def)

lemma yard_exec_repository:
  assumes inv: "yard_inv db" and run: "yard_exec c db = (Ok u, db')"
  shows "repository_step (repository db) (spared db') (repository db')"
    and "linked (repository db) (yard_deploy_files db) \<Longrightarrow> linked (repository db') (yard_deploy_files db')"
proof -
  have "repository_step (repository db) (spared db') (repository db')
    \<and> (linked (repository db) (yard_deploy_files db) \<longrightarrow> linked (repository db) (yard_deploy_files db'))"
  proof (cases c)
    case (StartYardDeploy y d e)
    with run obtain x where "start_yard_deploy db y d e = (Ok x, db')" by (auto dest!: outcome_of_Ok)
    from start_repository [OF inv this] show ?thesis by simp
  next
    case (FinaliseYardDeploy d fs t e)
    with run obtain x where "finalise_yard_deploy db d fs t e = (Ok x, db')" by (auto dest!: outcome_of_Ok)
    from finalise_repository [OF inv this] show ?thesis by blast
  next
    case (FailYardDeploy d k m t)
    with run obtain x where "fail_yard_deploy db d k m t = (Ok x, db')" by (auto dest!: outcome_of_Ok)
    from fail_repository [OF inv this] show ?thesis using linked_subset by blast
  next
    case (RollbackWebYard y d t e)
    with run obtain x where "rollback_web_yard db y d t e = (Ok x, db')" by (auto dest!: outcome_of_Ok)
    from rollback_repository [OF this] show ?thesis by simp
  next
    case (DeleteWebYard y t e)
    with run obtain x where "delete_web_yard db y t e = (Ok x, db')" by (auto dest!: outcome_of_Ok)
    from delete_repository [OF inv this] show ?thesis using linked_subset by blast
  qed
  moreover from this have "object_versions (repository db') = object_versions (repository db)" by (simp add: repository_step_def)
  then have "linked (repository db') fs = linked (repository db) fs" for fs by (simp add: linked_def)
  ultimately show "repository_step (repository db) (spared db') (repository db')"
    and "linked (repository db) (yard_deploy_files db) \<Longrightarrow> linked (repository db') (yard_deploy_files db')"
    by simp_all
qed

section \<open>The site\<close>

datatype site_command =
  Yard yard_command
| Shared inbox_command

fun site_exec :: "site_command \<Rightarrow> yard_database \<Rightarrow> (RepositoryError + unit) \<times> yard_database" where
  "site_exec (Yard c) db = yard_exec c db"
| "site_exec (Shared c) db = on_repository (inbox_exec c) db"

lemma unlink_file_fields [simp]:
  "yf_deploy_id (unlink_file m f) = yf_deploy_id f" "yf_normalized_path (unlink_file m f) = yf_normalized_path f"
  by (auto simp: unlink_file_def split: option.split)

lemma unlink_linked: "linked m (map (unlink_file m) fs)"
  by (auto simp: linked_def unlink_file_def list_ex_iff image_iff split: option.split)

lemma unlink_same: "linked m fs \<Longrightarrow> map (unlink_file m) fs = fs"
  by (rule map_idI) (fastforce simp: linked_def unlink_file_def list_ex_iff split: option.split)

lemma file_complete_unlink: "file_complete (map (unlink_file m) fs) d = file_complete fs d"
  by (simp add: file_complete_def deploy_files_def filter_map comp_def image_image)

lemma yard_inv_unlink: "yard_inv (db\<lparr>yard_deploy_files := map (unlink_file m) (yard_deploy_files db)\<rparr>) = yard_inv db"
  by (simp add: yard_inv_def yard_core_def files_ok_def file_complete_unlink comp_def)

interpretation site: transactional_service site_exec "\<lambda>r. \<not> is_ok r" site_inv
proof unfold_locales
  fix db c r db'
  assume inv: "site_inv db" and run: "site_exec c db = (r, db')" and bad: "\<not> is_ok r"
  show "db' = db"
  proof (cases c)
    case (Yard yc)
    with run bad show ?thesis using yards.failed_unchanged [OF site_invD(1) [OF inv]] by simp
  next
    case (Shared sc)
    obtain m where m: "inbox_exec sc (repository db) = (r, m)" using run Shared by (auto simp: on_repository_def split: prod.split_asm)
    then have "m = repository db" using guest_store.failed_unchanged [OF site_invD(2) [OF inv] m bad] by simp
    with run Shared m show ?thesis by (simp add: on_repository_def unlink_same [OF site_invD(3) [OF inv]])
  qed
next
  fix db c r db'
  assume inv: "site_inv db" and run: "site_exec c db = (r, db')" and ok: "\<not> \<not> is_ok r"
  show "site_inv db'"
  proof (cases c)
    case (Yard yc)
    from ok obtain u where u: "r = Ok u" by (auto simp: is_ok_iff)
    with run Yard have run': "yard_exec yc db = (Ok u, db')" by simp
    note s = yard_exec_repository [OF site_invD(1) [OF inv] run']
    have "yard_inv db'" by (rule yards.inv_step [OF site_invD(1) [OF inv] run'])
    then show ?thesis using s site_invD [OF inv] by (simp add: site_inv_def repository_step_def)
  next
    case (Shared sc)
    obtain m where m: "inbox_exec sc (repository db) = (r, m)" using run Shared by (auto simp: on_repository_def split: prod.split_asm)
    then have eq: "db' = db\<lparr>repository := m, yard_deploy_files := map (unlink_file m) (yard_deploy_files db)\<rparr>"
      using run Shared by (simp add: on_repository_def)
    have "yard_inv db'" using yard_inv_unlink [where db = "db\<lparr>repository := m\<rparr>" and m = m] site_invD(1) [OF inv] by (simp add: eq)
    moreover have "store_wide_inv m" by (rule guest_store.inv_step [OF site_invD(2) [OF inv] m])
    ultimately show ?thesis by (simp add: site_inv_def unlink_linked) (simp add: eq unlink_linked)
  qed
qed

end
