(* ===== verification/Yard_Evolution.thy ===== *)
theory Yard_Evolution
  imports Yard_Serving Yard_Site "HOL-Library.Multiset"
begin

text \<open>
  How the tables of the yards evolve over a history: a deleted yard stays deleted, a retained history
  stays within its depth, and repeating a start changes nothing.
\<close>

section \<open>Pruning leaves the yards\<close>

lemma prune_tables:
  assumes "prune uid c t db = Ok db'"
  shows "web_yards db' = web_yards db"
    and "\<exists>ids. yard_deploys db' = map (pruned_row ids t) (yard_deploys db)"
proof -
  obtain ids where ids: "prune_each ids t db = Ok db'" using assms by (auto simp: prune_def result_simps)
  show "web_yards db' = web_yards db" by (rule prune_each_D [OF ids]) simp
  show "\<exists>ids. yard_deploys db' = map (pruned_row ids t) (yard_deploys db)"
    by (rule prune_each_D [OF ids]) auto
qed

lemma promote_tables:
  assumes "promote_status db d t = Ok (status, db')"
  obtains g h where "web_yards db' = map g (web_yards db)" and "\<And>y. wy_id (g y) = wy_id y \<and> wy_status (g y) = wy_status y"
    and "yard_deploys db' = map h (yard_deploys db)" and "deploy_change h" and "\<And>d. yd_status d \<noteq> ''live'' \<Longrightarrow> h d = d"
    and "\<And>d. yd_status (h d) = yd_status d \<or> yd_status d = ''live'' \<and> yd_status (h d) = ''superseded''"
    and "status = YdLive \<or> status = YdSuperseded \<and> web_yards db' = web_yards db"
    and "\<And>d. h d = d \<or> yd_status (h d) \<noteq> ''live''" and "\<And>y. wy_id y \<noteq> ydr_yard_id d \<Longrightarrow> g y = y"
proof (cases rule: promote_status_D [OF assms])
  case 1
  then show thesis using that [of id id] by (simp add: deploy_change_def)
next
  case (2 n1 ds n2 ys)
  show thesis
    by (rule that [of "change_if (\<lambda>y. wy_id y = ydr_yard_id d \<and> wy_status y = ''active'')
        (\<lambda>y. y\<lparr>wy_current_deploy_id := Some (ydr_id d), wy_updated_at_ms := t\<rparr>)"
        "change_if (\<lambda>r. Some (yd_id r) = current_of db (ydr_yard_id d) \<and> yd_id r \<noteq> ydr_id d \<and> yd_status r = ''live'')
        (\<lambda>r. r\<lparr>yd_status := ''superseded''\<rparr>)"])
      (use 2(1,5) update_rows_change(1) [OF 2(3)] update_rows_change(1) [OF 2(4)] in
        \<open>auto simp: change_if_def deploy_change_def\<close>)
qed

text \<open>The one row of a finalised deploy, before and after.\<close>

lemma finalise_tables:
  assumes inv: "yard_inv db" and f: "insert_files files d db = Ok db1" and p: "promote_status db1 d at = Ok (status, db2)"
    and u: "update_rows (\<lambda>r. yd_id r = uid \<and> yd_status r \<in> {''uploading'', ''finalising''})
           (\<lambda>r. r\<lparr>yd_status := yard_deploy_status_as_str status, yd_finalised_at_ms := Some at,
                  yd_file_count := cnt, yd_total_bytes := bytes\<rparr>) yard_deploy_check
           (yard_deploys db2) = Ok (n, rows)"
    and q: "prune k c t (db2\<lparr>yard_deploys := rows, repository := m\<rparr>) = Ok db'"
  obtains g h ids where "web_yards db' = map g (web_yards db)" and "\<And>y. wy_id (g y) = wy_id y \<and> wy_status (g y) = wy_status y"
    and "yard_deploys db' = map (pruned_row ids t \<circ> h) (yard_deploys db)" and "deploy_change h" and "rows = map h (yard_deploys db)"
    and "\<And>d. yd_id d = uid \<Longrightarrow> yd_status d \<in> {''uploading'', ''finalising''} \<Longrightarrow> yd_status (h d) = yard_deploy_status_as_str status"
    and "\<And>d. yd_id d \<noteq> uid \<Longrightarrow> yd_status (h d) = yd_status d \<or> yd_status d = ''live'' \<and> yd_status (h d) = ''superseded''"
    and "status = YdLive \<or> status = YdSuperseded \<and> web_yards db' = web_yards db"
    and "\<And>d. yd_status d = ''live'' \<Longrightarrow> h d = d \<or> yd_status (h d) \<noteq> ''live''" and "\<And>y. wy_id y \<noteq> ydr_yard_id d \<Longrightarrow> g y = y"
proof -
  have same: "web_yards db1 = web_yards db" "yard_deploys db1 = yard_deploys db" using insert_files_D(1) [OF f] by simp_all
  obtain g h where g: "web_yards db2 = map g (web_yards db1)" "\<And>y. wy_id (g y) = wy_id y \<and> wy_status (g y) = wy_status y"
    and h: "yard_deploys db2 = map h (yard_deploys db1)" "deploy_change h" "\<And>d. yd_status d \<noteq> ''live'' \<Longrightarrow> h d = d"
      "\<And>d. yd_status (h d) = yd_status d \<or> yd_status d = ''live'' \<and> yd_status (h d) = ''superseded''"
    and s: "status = YdLive \<or> status = YdSuperseded \<and> web_yards db2 = web_yards db1"
    and l: "\<And>d. h d = d \<or> yd_status (h d) \<noteq> ''live''" and other: "\<And>y. wy_id y \<noteq> ydr_yard_id d \<Longrightarrow> g y = y"
    using promote_tables [OF p] by blast
  let ?fin = "finalised_row uid status at cnt bytes"
  have rows: "rows = map (?fin \<circ> h) (yard_deploys db)"
    using update_rows_change(1) [OF u] h(1) same by (simp add: finalised_row_def)
  obtain ids where ids: "yard_deploys db' = map (pruned_row ids t) rows" using prune_tables(2) [OF q] by auto
  show thesis
  proof (rule that [of g ids "?fin \<circ> h"])
    show "web_yards db' = map g (web_yards db)" using prune_tables(1) [OF q] g(1) same by simp
    show "wy_id (g y) = wy_id y \<and> wy_status (g y) = wy_status y" for y by (rule g(2))
    show "yard_deploys db' = map (pruned_row ids t \<circ> (?fin \<circ> h)) (yard_deploys db)" using ids rows by simp
    show "deploy_change (?fin \<circ> h)" using h(2) finalised_row_change [of uid status at cnt bytes] by (simp add: deploy_change_def)
    show "yd_status ((?fin \<circ> h) d) = yard_deploy_status_as_str status"
      if "yd_id d = uid" "yd_status d \<in> {''uploading'', ''finalising''}" for d
    proof -
      have "h d = d" using that(2) by (intro h(3)) auto
      then show ?thesis using that by (simp add: finalised_row_def change_if_def)
    qed
    show "yd_status ((?fin \<circ> h) d) = yd_status d \<or> yd_status d = ''live'' \<and> yd_status ((?fin \<circ> h) d) = ''superseded''"
      if "yd_id d \<noteq> uid" for d
      using h(4) [of d] that deploy_changeD(1) [OF h(2), of d] by (simp add: finalised_row_def change_if_def)
    show "status = YdLive \<or> status = YdSuperseded \<and> web_yards db' = web_yards db"
      using s prune_tables(1) [OF q] same by simp
    show "(?fin \<circ> h) d = d \<or> yd_status ((?fin \<circ> h) d) \<noteq> ''live''" if "yd_status d = ''live''" for d
      using l [of d] h(4) [of d] that by (auto simp: finalised_row_def change_if_def)
    show "g y = y" if "wy_id y \<noteq> ydr_yard_id d" for y by (rule other [OF that])
  qed (rule rows)
qed

section \<open>Publishing by finalising\<close>

lemma finalise_effect:
  assumes inv: "yard_inv db" and ok: "finalise_yard_deploy db uid files t ev = (Ok x, db')"
  shows "ydr_status (ydm_deploy x) = YdLive \<Longrightarrow> serving_deploy db' (wyr_host_label (ydm_yard x)) = Ok (ydm_deploy x)"
    and "ydr_status (ydm_deploy x) \<noteq> YdLive \<Longrightarrow> web_yards db' = web_yards db"
    and "ydr_id (ydm_deploy x) = uid" and "wyr_status (ydm_yard x) = WyActive"
proof -
  have run: "finalise_in uid files t ev db = Ok (x, db')" using ok by (simp add: finalise_yard_deploy_def outcome_iffs)
  have inv': "yard_inv db'" by (rule finalise_inv [OF inv ok])
  show "ydr_status (ydm_deploy x) = YdLive \<Longrightarrow> serving_deploy db' (wyr_host_label (ydm_yard x)) = Ok (ydm_deploy x)"
    and "ydr_status (ydm_deploy x) \<noteq> YdLive \<Longrightarrow> web_yards db' = web_yards db"
    and "ydr_id (ydm_deploy x) = uid" and "wyr_status (ydm_yard x) = WyActive"
    using run
  proof (atomize (full), cases rule: finalise_in_D)
    case (repeated d)
    have "ydr_id d = uid" using repeated(2) by (auto elim!: deploy_by_id_D simp: deploy_Ok_iff)
    then show "((ydr_status (ydm_deploy x) = YdLive \<longrightarrow> serving_deploy db' (wyr_host_label (ydm_yard x)) = Ok (ydm_deploy x))
      \<and> (ydr_status (ydm_deploy x) \<noteq> YdLive \<longrightarrow> web_yards db' = web_yards db)) \<and> ydr_id (ydm_deploy x) = uid \<and> wyr_status (ydm_yard x) = WyActive"
      using read_back_serves(1) [OF inv repeated(5,6,2)] repeated(1,4,6) by simp
  next
    case (done' d y at cnt bytes status db1 db2 n rows m y')
    let ?db = "db2\<lparr>yard_deploys := rows, repository := m\<rparr>"
    have inv2: "yard_inv ?db" by (rule finalise_selected [OF inv done'(1-7)])
    obtain r where r: "r \<in> set (yard_deploys db)" "yd_id r = uid" "deploy r = Ok d" by (rule deploy_by_id_D [OF done'(1)])
    obtain yr where yr: "yr \<in> set (web_yards db)" "wy_id yr = ydr_yard_id d" "yard yr = Ok y" by (rule yard_by_id_D [OF done'(2)])
    obtain e where e: "e \<in> set (yard_deploys db')" "yd_id e = uid" "deploy e = Ok (ydm_deploy x)" by (rule deploy_by_id_D [OF done'(10)])
    obtain z where z: "z \<in> set (web_yards db')" "wy_id z = ydr_yard_id (ydm_deploy x)" "yard z = Ok (ydm_yard x)"
      by (rule yard_by_id_D [OF done'(12)])
    obtain g h ids where g: "web_yards db' = map g (web_yards db)" "\<And>y. wy_id (g y) = wy_id y \<and> wy_status (g y) = wy_status y"
      and h: "yard_deploys db' = map (pruned_row ids at \<circ> h) (yard_deploys db)" "deploy_change h" "rows = map h (yard_deploys db)"
      and hr: "\<And>d. yd_id d = uid \<Longrightarrow> yd_status d \<in> {''uploading'', ''finalising''} \<Longrightarrow> yd_status (h d) = yard_deploy_status_as_str status"
      and s: "status = YdLive \<or> status = YdSuperseded \<and> web_yards db' = web_yards db"
      using finalise_tables [OF inv done'(5,6,7,9)] by blast
    have "e \<in> set (map (pruned_row ids at \<circ> h) (yard_deploys db))" using e(1) h(1) by simp
    then obtain r0 where r0: "r0 \<in> set (yard_deploys db)" "e = pruned_row ids at (h r0)" by auto
    then have "yd_id r0 = yd_id r" using e(2) r(2) by (simp add: deploy_changeD [OF pruned_row_change] deploy_changeD [OF h(2)])
    then have "r0 = r" by (rule deploy_unique [OF yard_invD(2) [OF inv] r0(1) r(1)])
    have same_yard: "yd_yard_id e = yd_yard_id r"
      using r0(2) \<open>r0 = r\<close> by (simp add: deploy_changeD [OF pruned_row_change] deploy_changeD [OF h(2)])
    then have "wy_id z = wy_id yr" using e(3) r(3) yr(2) z(2) by (simp add: deploy_Ok_iff)
    moreover obtain z0 where "z0 \<in> set (web_yards db)" "z = g z0" using z(1) g(1) by auto
    ultimately have "z = g yr" using yard_unique [OF yard_invD(1) [OF inv] _ yr(1)] g(2) by metis
    then have active: "wyr_status (ydm_yard x) = WyActive" using g(2) [of yr] yr(3) z(3) done'(3) by (simp add: yard_Ok_iff)
    have live: "ydr_status (ydm_deploy x) = YdLive" if "status = YdLive"
    proof -
      have "yd_status r \<in> {''uploading'', ''finalising''}" using r(3) validate_finalise_D(5) [OF done'(4)] by (auto simp: deploy_Ok_iff)
      then have hl: "yd_status (h r) = ''live''" using hr [OF r(2)] that by simp
      obtain w where w: "w \<in> set (web_yards ?db)" "yard w = Ok y'" by (rule yard_by_id_D [OF done'(8)])
      have "prune (wy_id w) (wy_current_deploy_id w) at ?db = Ok db'" using done'(9) w(2) by (simp add: yard_Ok_iff)
      then obtain js where js: "prune_each js at ?db = Ok db'"
        and dead: "\<And>d. d \<in> set (yard_deploys ?db) \<Longrightarrow> yd_id d \<in> set js \<Longrightarrow> yd_yard_id d = wy_id w \<and> yd_status d \<noteq> ''live''"
        using prune_D [OF inv2 w(1)] by blast
      have hd: "h r \<in> set (yard_deploys ?db)" using r(1) h(3) by simp
      then have keep: "pruned_row js at (h r) = h r" using dead [of "h r"] hl by (auto simp: pruned_row_def)
      have "yard_deploys db' = map (pruned_row js at) rows" by (rule prune_each_D [OF js]) simp
      then have "h r \<in> set (yard_deploys db')" using keep hd by (force simp: image_iff)
      then have "h r = e" using deploy_unique [OF yard_invD(2) [OF inv'] _ e(1)] e(2) r(2) by (simp add: deploy_changeD [OF h(2)])
      then show ?thesis using hl e(3) by (simp add: deploy_Ok_iff)
    qed
    have "ydr_id (ydm_deploy x) = uid" using e(2,3) by (simp add: deploy_Ok_iff)
    then show "((ydr_status (ydm_deploy x) = YdLive \<longrightarrow> serving_deploy db' (wyr_host_label (ydm_yard x)) = Ok (ydm_deploy x))
      \<and> (ydr_status (ydm_deploy x) \<noteq> YdLive \<longrightarrow> web_yards db' = web_yards db)) \<and> ydr_id (ydm_deploy x) = uid \<and> wyr_status (ydm_yard x) = WyActive"
      using read_back_serves(1) [OF inv' done'(12) active done'(10)] s live active by blast
  qed
qed

section \<open>Deleted yards\<close>

definition yard_deleted :: "yard_database \<Rightarrow> string \<Rightarrow> bool" where
  "yard_deleted db uid \<longleftrightarrow> (\<exists>y \<in> set (web_yards db). wy_id y = uid \<and> wy_status y = ''deleted'')"

lemma yard_deleted_map:
  assumes "web_yards db' = map g (web_yards db)" and "\<And>y. wy_id (g y) = wy_id y"
    and "\<And>y. wy_status y = ''deleted'' \<Longrightarrow> wy_status (g y) = ''deleted''" and "yard_deleted db uid"
  shows "yard_deleted db' uid"
  using assms by (auto simp: yard_deleted_def)

lemma yard_exec_deleted:
  assumes inv: "yard_inv db" and run: "yard_exec c db = (Ok u, db')" and del: "yard_deleted db uid"
  shows "yard_deleted db' uid"
proof (cases c)
  case (StartYardDeploy y d e)
  with run obtain x where "start_in y d e db = Ok (x, db')" by (auto dest!: outcome_of_Ok simp: start_yard_deploy_def outcome_iffs)
  then show ?thesis
  proof (cases rule: start_in_D)
    case (started selected db1 t1 t2 s)
    have "set (web_yards db) \<subseteq> set (web_yards db1)" by (rule select_yard_inv [OF inv started(3)])
    then show ?thesis using del insert_deploy_D(1) [OF started(4)] by (auto simp: yard_deleted_def)
  qed (use del in simp)
next
  case (FinaliseYardDeploy k fs t e)
  with run obtain x where "finalise_in k fs t e db = Ok (x, db')" by (auto dest!: outcome_of_Ok simp: finalise_yard_deploy_def outcome_iffs)
  then show ?thesis
  proof (cases rule: finalise_in_D)
    case (done' d y at cnt bytes status db1 db2 n rows m y')
    obtain g where "web_yards db' = map g (web_yards db)" "\<And>y. wy_id (g y) = wy_id y \<and> wy_status (g y) = wy_status y"
      using finalise_tables [OF inv done'(5,6,7,9)] by blast
    then show ?thesis using yard_deleted_map [of db' g db, OF _ _ _ del] by simp
  qed (use del in simp)
next
  case (FailYardDeploy k code message t)
  with run obtain x where "fail_in k code message t db = Ok (x, db')" by (auto dest!: outcome_of_Ok simp: fail_yard_deploy_def outcome_iffs)
  then show ?thesis
  proof (cases rule: fail_in_D)
    case (marked d n rows y)
    then show ?thesis using prune_tables(1) [OF marked(5)] del by (simp add: yard_deleted_def)
  qed (use del in simp)
next
  case (RollbackWebYard k chosen t e)
  with run obtain x where r: "rollback_in k chosen t e db = Ok (x, db')" by (auto dest!: outcome_of_Ok simp: rollback_web_yard_def outcome_iffs)
  obtain y :: WebYardRecord and target :: YardDeployRecord and n3 ys ds m where up: "update_rows (\<lambda>r. wy_id r = wyr_id y \<and> wy_status r = ''active'')
           (\<lambda>r. r\<lparr>wy_current_deploy_id := Some (ydr_id target), wy_updated_at_ms := int t\<rparr>) web_yard_check
           (web_yards db) = Ok (n3, ys)" and eq: "db' = db\<lparr>yard_deploys := ds, web_yards := ys, repository := m\<rparr>"
    by (rule rollback_in_D [OF r])
  then have ys: "web_yards db' = ys" by simp
  show ?thesis
    using yard_deleted_map [OF _ _ _ del, of db' "change_if (\<lambda>r. wy_id r = wyr_id y \<and> wy_status r = ''active'')
           (\<lambda>r. r\<lparr>wy_current_deploy_id := Some (ydr_id target), wy_updated_at_ms := int t\<rparr>)"]
      update_rows_change(1) [OF up] by (simp add: ys change_if_def)
next
  case (DeleteWebYard k t e)
  with run obtain x where "delete_in k t e db = Ok (x, db')" by (auto dest!: outcome_of_Ok simp: delete_web_yard_def outcome_iffs)
  then show ?thesis
  proof (cases rule: delete_in_D)
    case (deleted y db1 n ys m)
    obtain ids where ids: "prune_each ids (int t) db = Ok db1" by (rule prune_all_D [OF deleted(3)])
    have "web_yards db1 = web_yards db" by (rule prune_each_D [OF ids]) simp
    then have "web_yards db' = map (deleted_yard k (int t)) (web_yards db)"
      using update_rows_change(1) [OF deleted(4)] deleted(5) by (simp add: change_if_def deleted_yard_def)
    then show ?thesis by (rule yard_deleted_map [OF _ _ _ del]) (simp_all add: deleted_yard_def)
  qed (use del in simp)
qed

lemma site_exec_deleted:
  assumes inv: "site_inv db" and run: "site_exec c db = (r, db')" and del: "yard_deleted db uid"
  shows "yard_deleted db' uid"
proof (cases "is_ok r")
  case False
  then show ?thesis using site.failed_unchanged [OF inv run] del by simp
next
  case True
  then obtain u where "r = Ok u" by (auto simp: is_ok_iff)
  then show ?thesis
  proof (cases c)
    case (Yard yc)
    then show ?thesis using yard_exec_deleted [OF site_invD(1) [OF inv] _ del] run \<open>r = Ok u\<close> by simp
  next
    case (Shared sc)
    then have "web_yards db' = web_yards db" using run by (auto simp: on_repository_def split: prod.split_asm)
    then show ?thesis using del by (simp add: yard_deleted_def)
  qed
qed

lemma site_run_deleted: "site_inv db \<Longrightarrow> yard_deleted db uid \<Longrightarrow> yard_deleted (run_commands site_exec cs db) uid"
proof (induction cs arbitrary: db)
  case (Cons c cs)
  obtain r db1 where e: "site_exec c db = (r, db1)" by force
  then show ?case using Cons.IH [OF site.inv_step [OF Cons.prems(1) e] site_exec_deleted [OF Cons.prems(1) e Cons.prems(2)]] by simp
qed simp

lemma deleted_not_served:
  assumes inv: "yard_inv db" and del: "yard_deleted db uid" and serve: "serving_deploy db h = Ok x"
  shows "ydr_yard_id x \<noteq> uid"
proof
  assume "ydr_yard_id x = uid"
  obtain y d where y: "y \<in> set (web_yards db)" "wy_status y = ''active''" "yd_yard_id d = wy_id y" "deploy d = Ok x"
    by (rule serving_deploy_D [OF serve])
  obtain z where z: "z \<in> set (web_yards db)" "wy_id z = uid" "wy_status z = ''deleted''" using del by (auto simp: yard_deleted_def)
  have "wy_id y = wy_id z" using y(3,4) z(2) \<open>ydr_yard_id x = uid\<close> by (simp add: deploy_Ok_iff)
  then have "y = z" by (rule yard_unique [OF yard_invD(1) [OF inv] y(1) z(1)])
  with y(2) z(3) show False by simp
qed

lemma delete_marks:
  assumes inv: "yard_inv db" and ok: "delete_web_yard db uid t ev = (Ok x, db')"
  shows "yard_deleted db' uid"
proof -
  have run: "delete_in uid t ev db = Ok (x, db')" using ok by (simp add: delete_web_yard_def outcome_iffs)
  obtain y where y: "yard_by_id db uid = Ok y" using run by (auto simp: delete_in_def result_simps)
  obtain r where r: "r \<in> set (web_yards db)" "wy_id r = uid" "yard r = Ok y" by (rule yard_by_id_D [OF y])
  show ?thesis
  proof (cases "wyr_status y = WyDeleted")
    case True
    then have "db' = db" using run y by (simp add: delete_in_def)
    then show ?thesis using r True by (auto simp: yard_deleted_def yard_Ok_iff)
  next
    case False
    from run show ?thesis
    proof (cases rule: delete_in_D)
      case unchanged
      with run y False show ?thesis by (auto simp: delete_in_def result_simps)
    next
      case (deleted y' db1 n ys m)
      obtain ids where ids: "prune_each ids (int t) db = Ok db1" by (rule prune_all_D [OF deleted(3)])
      have "web_yards db1 = web_yards db" by (rule prune_each_D [OF ids]) simp
      then have "web_yards db' = map (deleted_yard uid (int t)) (web_yards db)"
        using update_rows_change(1) [OF deleted(4)] deleted(5) by (simp add: change_if_def deleted_yard_def)
      moreover have "wy_status (deleted_yard uid (int t) r) = ''deleted''" using r(2) by (simp add: deleted_yard_def)
      ultimately show ?thesis using r by (auto simp: yard_deleted_def)
    qed
  qed
qed

section \<open>Depth of the history\<close>

definition retained :: "yard_deploy_row \<Rightarrow> bool" where
  "retained d \<longleftrightarrow> yd_status d \<in> {''live'', ''failed'', ''superseded''}"

definition retained_count :: "yard_deploy_row list \<Rightarrow> string \<Rightarrow> nat" where
  "retained_count ds uid = length (filter (\<lambda>d. yd_yard_id d = uid \<and> retained d) ds)"

definition history_bounded :: "yard_deploy_row list \<Rightarrow> bool" where
  "history_bounded ds \<longleftrightarrow> (\<forall>uid. retained_count ds uid \<le> HISTORY_DEPTH)"

lemma retained_count_map:
  assumes h: "deploy_change h" and mono: "\<And>d. d \<in> set ds \<Longrightarrow> yd_yard_id d = uid \<Longrightarrow> retained (h d) \<Longrightarrow> retained d"
  shows "retained_count (map h ds) uid \<le> retained_count ds uid"
proof -
  have "retained_count (map h ds) uid = length (filter (\<lambda>d. yd_yard_id d = uid \<and> retained (h d)) ds)"
    by (simp add: retained_count_def filter_map comp_def deploy_changeD [OF h])
  also have "\<dots> \<le> retained_count ds uid"
    unfolding retained_count_def using mono by (induction ds) (auto simp: le_SucI)
  finally show ?thesis .
qed

lemma length_filter_perm: "mset xs = mset ys \<Longrightarrow> length (filter P xs) = length (filter P ys)"
  by (metis mset_filter size_mset)

lemma collect_results_map: "collect_results f xs = Ok ys \<Longrightarrow> ys = map (\<lambda>x. projr (f x)) xs"
  by (induction xs arbitrary: ys) (auto simp: result_simps)

lemma prune_bounds:
  assumes inv: "yard_inv db" and y: "y \<in> set (web_yards db)" and run: "prune (wy_id y) (wy_current_deploy_id y) t db = Ok db'"
  shows "retained_count (yard_deploys db') (wy_id y) \<le> HISTORY_DEPTH"
proof -
  let ?c = "wy_current_deploy_id y" and ?L = "yard_history db (wy_id y)"
  let ?k = "if ?c \<noteq> None then HISTORY_DEPTH - 1 else HISTORY_DEPTH"
  obtain deploys where list: "collect_results deploy ?L = Ok deploys"
    and each: "prune_each (map ydr_id (surplus_deploys ?c deploys)) t db = Ok db'"
    using run by (auto simp: prune_def list_candidates_def result_simps)
  let ?ids = "map ydr_id (surplus_deploys ?c deploys)"
  define dec where "dec d = projr (deploy d)" for d
  have dec: "deploys = map dec ?L" "\<And>d. d \<in> set ?L \<Longrightarrow> deploy d = Ok (dec d)"
  proof -
    show "deploys = map dec ?L" using collect_results_map [OF list] by (simp add: dec_def)
  next
    fix d
    assume "d \<in> set ?L"
    then show "deploy d = Ok (dec d)" using collect_results_covers [OF list] unfolding dec_def by fastforce
  qed
  have L: "mset ?L = mset (filter (\<lambda>d. yd_yard_id d = wy_id y) (yard_deploys db))" by (simp add: yard_history_def)
  then have setL: "set ?L \<subseteq> set (yard_deploys db)" by (metis filter_is_subset mset_eq_setD)
  have distinct: "distinct (map yd_id ?L)"
  proof -
    have "distinct (map yd_id (filter (\<lambda>d. yd_yard_id d = wy_id y) (yard_deploys db)))"
      using yard_invD(2) [OF inv] by (simp add: deploys_ok_def distinct_map_filter)
    then show ?thesis using L by (metis mset_eq_imp_distinct_iff mset_map)
  qed
  let ?P = "\<lambda>d. retained d \<and> yd_id d \<notin> set ?ids"
  have "yard_deploys db' = map (pruned_row ?ids t) (yard_deploys db)" by (rule prune_each_D [OF each]) simp
  then have "retained_count (yard_deploys db') (wy_id y)
      = length (filter (\<lambda>d. yd_yard_id d = wy_id y \<and> retained (pruned_row ?ids t d)) (yard_deploys db))"
    by (simp add: retained_count_def filter_map comp_def deploy_changeD [OF pruned_row_change])
  also have "\<dots> = length (filter (\<lambda>d. yd_yard_id d = wy_id y \<and> ?P d) (yard_deploys db))"
    by (rule arg_cong [where f = length], rule filter_cong) (auto simp: retained_def pruned_row_status)
  also have "\<dots> = length (filter ?P (filter (\<lambda>d. yd_yard_id d = wy_id y) (yard_deploys db)))" by (simp add: conj_commute)
  also have "\<dots> = length (filter ?P ?L)" by (rule length_filter_perm) (simp only: L)
  also have "\<dots> = card (set (filter ?P ?L))"
    using distinct by (intro distinct_card [symmetric]) (simp add: distinct_map)
  also have "\<dots> \<le> card ({d \<in> set ?L. Some (yd_id d) = ?c} \<union> set (take ?k (filter (\<lambda>d. Some (yd_id d) \<noteq> ?c) ?L)))"
  proof (rule card_mono)
    show "set (filter ?P ?L) \<subseteq> {d \<in> set ?L. Some (yd_id d) = ?c} \<union> set (take ?k (filter (\<lambda>d. Some (yd_id d) \<noteq> ?c) ?L))"
    proof
      fix d
      assume d: "d \<in> set (filter ?P ?L)"
      let ?F = "filter (\<lambda>d. Some (yd_id d) \<noteq> ?c) ?L"
      show "d \<in> {d \<in> set ?L. Some (yd_id d) = ?c} \<union> set (take ?k ?F)"
      proof (rule ccontr)
        assume "\<not> ?thesis"
        then have "d \<in> set ?F" "d \<notin> set (take ?k ?F)" using d by auto
        then have drop: "d \<in> set (drop ?k ?F)" by (metis append_take_drop_id Un_iff set_append)
        have ids: "ydr_id (dec e) = yd_id e" "(ydr_status (dec e) \<in> {YdLive, YdFailed, YdSuperseded}) = retained e" if "e \<in> set ?L" for e
          using dec(2) [OF that] by (auto simp: deploy_Ok_iff retained_def)
        have "filter (\<lambda>x. Some (ydr_id x) \<noteq> ?c) deploys = map dec ?F"
          unfolding dec(1) filter_map comp_def using ids(1) by (metis (no_types, lifting) filter_cong)
        then have "dec d \<in> set (surplus_deploys ?c deploys)"
          using drop d ids(2) [of d] by (auto simp: surplus_deploys_def Let_def drop_map)
        then have "yd_id d \<in> set ?ids" using ids(1) [of d] d by force
        with d show False by simp
      qed
    qed
  qed simp
  also have "\<dots> \<le> card {d \<in> set ?L. Some (yd_id d) = ?c} + ?k"
    by (rule order_trans [OF card_Un_le]) (simp add: card_length [THEN order_trans])
  also have "\<dots> \<le> HISTORY_DEPTH"
  proof (cases ?c)
    case (Some k)
    have "{d \<in> set ?L. Some (yd_id d) = ?c} = set (filter (\<lambda>d. yd_id d = k) ?L)" using Some by auto
    then have "card {d \<in> set ?L. Some (yd_id d) = ?c} \<le> length (filter (\<lambda>d. yd_id d = k) ?L)" by (simp only: card_length)
    also have "\<dots> \<le> 1" by (rule keyed_selection [OF distinct])
    finally show ?thesis using Some by (simp add: HISTORY_DEPTH_def)
  qed simp
  finally show ?thesis .
qed

lemma history_bounded_map:
  assumes "history_bounded ds" and "deploy_change h" and "\<And>d. d \<in> set ds \<Longrightarrow> retained (h d) \<Longrightarrow> retained d"
  shows "history_bounded (map h ds)"
  using assms retained_count_map [of h ds] order_trans unfolding history_bounded_def by blast

text \<open>After a change of one yard that ends in pruning it.\<close>

lemma pruned_history_bounded:
  assumes old: "history_bounded ds" and h: "deploy_change h" and rows: "yard_deploys db = map h ds"
    and others: "\<And>d. d \<in> set ds \<Longrightarrow> yd_yard_id d \<noteq> wy_id y \<Longrightarrow> retained (h d) \<Longrightarrow> retained d"
    and inv: "yard_inv db" and y: "y \<in> set (web_yards db)" and run: "prune (wy_id y) (wy_current_deploy_id y) t db = Ok db'"
  shows "history_bounded (yard_deploys db')"
  unfolding history_bounded_def
proof
  fix uid
  show "retained_count (yard_deploys db') uid \<le> HISTORY_DEPTH"
  proof (cases "uid = wy_id y")
    case True
    then show ?thesis using prune_bounds [OF inv y run] by simp
  next
    case False
    obtain ids where ids: "yard_deploys db' = map (pruned_row ids t) (yard_deploys db)" using prune_tables(2) [OF run] by blast
    have "retained_count (yard_deploys db') uid \<le> retained_count (yard_deploys db) uid" unfolding ids
      by (rule retained_count_map [OF pruned_row_change]) (auto simp: retained_def pruned_row_status split: if_split_asm)
    also have "\<dots> \<le> retained_count ds uid" unfolding rows
      by (rule retained_count_map [OF h]) (use others False in auto)
    also have "\<dots> \<le> HISTORY_DEPTH" using old by (simp add: history_bounded_def)
    finally show ?thesis .
  qed
qed

lemma yard_exec_bounded:
  assumes inv: "yard_inv db" and run: "yard_exec c db = (Ok u, db')" and old: "history_bounded (yard_deploys db)"
  shows "history_bounded (yard_deploys db')"
proof (cases c)
  case (StartYardDeploy y d e)
  with run obtain x where "start_in y d e db = Ok (x, db')" by (auto dest!: outcome_of_Ok simp: start_yard_deploy_def outcome_iffs)
  then show ?thesis
  proof (cases rule: start_in_D)
    case (started selected db1 t1 t2 s)
    have "yard_deploys db1 = yard_deploys db" by (rule select_yard_inv [OF inv started(3)])
    then show ?thesis using old insert_deploy_D(1) [OF started(4)]
      by (simp add: history_bounded_def retained_count_def new_deploy_row_def retained_def)
  qed (use old in simp)
next
  case (FinaliseYardDeploy k fs t e)
  with run obtain x where "finalise_in k fs t e db = Ok (x, db')" by (auto dest!: outcome_of_Ok simp: finalise_yard_deploy_def outcome_iffs)
  then show ?thesis
  proof (cases rule: finalise_in_D)
    case (done' d y at cnt bytes status db1 db2 n rows m y')
    let ?db = "db2\<lparr>yard_deploys := rows, repository := m\<rparr>"
    have inv2: "yard_inv ?db" by (rule finalise_selected [OF inv done'(1-7)])
    obtain h where h: "deploy_change h" "rows = map h (yard_deploys db)"
        "\<And>d. yd_id d \<noteq> k \<Longrightarrow> yd_status (h d) = yd_status d \<or> yd_status d = ''live'' \<and> yd_status (h d) = ''superseded''"
      using finalise_tables [OF inv done'(5,6,7,9)] by blast
    obtain w where w: "w \<in> set (web_yards ?db)" "wy_id w = ydr_yard_id d" "yard w = Ok y'" by (rule yard_by_id_D [OF done'(8)])
    have prune: "prune (wy_id w) (wy_current_deploy_id w) at ?db = Ok db'" using done'(9) w(3) by (simp add: yard_Ok_iff)
    obtain r where r: "r \<in> set (yard_deploys db)" "yd_id r = k" "deploy r = Ok d" by (rule deploy_by_id_D [OF done'(1)])
    show ?thesis
    proof (rule pruned_history_bounded [OF old h(1) _ _ inv2 w(1) prune])
      fix e
      assume e: "e \<in> set (yard_deploys db)" "yd_yard_id e \<noteq> wy_id w" "retained (h e)"
      have "yd_id e \<noteq> k"
      proof
        assume "yd_id e = k"
        then have "e = r" using deploy_unique [OF yard_invD(2) [OF inv] e(1) r(1)] r(2) by simp
        then show False using e(2) r(3) w(2) by (simp add: deploy_Ok_iff)
      qed
      then show "retained e" using h(3) [of e] e(3) by (auto simp: retained_def)
    qed (simp add: h(2))
  qed (use old in simp)
next
  case (FailYardDeploy k code message t)
  with run obtain x where "fail_in k code message t db = Ok (x, db')" by (auto dest!: outcome_of_Ok simp: fail_yard_deploy_def outcome_iffs)
  then show ?thesis
  proof (cases rule: fail_in_D)
    case (marked d n rows y)
    let ?f = "\<lambda>r. r\<lparr>yd_status := ''failed'', yd_failure_code := Some code, yd_failure_message := Some message\<rparr>"
    let ?h = "change_if (\<lambda>r. yd_id r = ydr_id d \<and> yd_status r \<in> {''uploading'', ''finalising''}) ?f"
    have inv2: "yard_inv (db\<lparr>yard_deploys := rows\<rparr>)"
      by (rule failed_change_inv [OF inv marked(3)]) (simp_all add: deploy_change_def)
    obtain w where w: "w \<in> set (web_yards (db\<lparr>yard_deploys := rows\<rparr>))" "wy_id w = ydr_yard_id d" "yard w = Ok y"
      by (rule yard_by_id_D [OF marked(4)])
    have prune: "prune (wy_id w) (wy_current_deploy_id w) (int t) (db\<lparr>yard_deploys := rows\<rparr>) = Ok db'"
      using marked(5) w(3) by (simp add: yard_Ok_iff)
    obtain r where r: "r \<in> set (yard_deploys db)" "yd_id r = k" "deploy r = Ok d" by (rule deploy_by_id_D [OF marked(1)])
    have h: "deploy_change ?h" by (rule change_if_deploy) (simp add: deploy_change_def)
    show ?thesis
    proof (rule pruned_history_bounded [OF old h _ _ inv2 w(1) prune])
      fix e
      assume e: "e \<in> set (yard_deploys db)" "yd_yard_id e \<noteq> wy_id w" "retained (?h e)"
      have "yd_id e \<noteq> ydr_id d"
      proof
        assume "yd_id e = ydr_id d"
        then have "e = r" using deploy_unique [OF yard_invD(2) [OF inv] e(1) r(1)] r(3) by (simp add: deploy_Ok_iff)
        then show False using e(2) r(3) w(2) by (simp add: deploy_Ok_iff)
      qed
      then show "retained e" using e(3) by (simp add: change_if_def)
    qed (use update_rows_change(1) [OF marked(3)] in simp)
  qed (use old in simp)
next
  case (RollbackWebYard k chosen t e)
  with run obtain x where r: "rollback_in k chosen t e db = Ok (x, db')" by (auto dest!: outcome_of_Ok simp: rollback_web_yard_def outcome_iffs)
  obtain y :: WebYardRecord and target :: YardDeployRecord and n1 ds1 n2 ds2 ys m where
    u1: "update_rows (\<lambda>r. Some (yd_id r) = wyr_current_deploy_id y \<and> yd_status r = ''live'')
           (\<lambda>r. r\<lparr>yd_status := ''superseded''\<rparr>) yard_deploy_check (yard_deploys db) = Ok (n1, ds1)"
    and u2: "update_rows (\<lambda>r. yd_id r = ydr_id target \<and> yd_status r = ''superseded'')
           (\<lambda>r. r\<lparr>yd_status := ''live''\<rparr>) yard_deploy_check ds1 = Ok (n2, ds2)"
    and eq: "db' = db\<lparr>yard_deploys := ds2, web_yards := ys, repository := m\<rparr>"
    by (rule rollback_in_D [OF r])
  have "history_bounded ds1" unfolding update_rows_change(1) [OF u1]
    by (rule history_bounded_map [OF old]) (auto simp: change_if_def deploy_change_def retained_def split: if_split_asm)
  then have "history_bounded ds2" unfolding update_rows_change(1) [OF u2]
    by (rule history_bounded_map) (auto simp: change_if_def deploy_change_def retained_def split: if_split_asm)
  then show ?thesis by (simp add: eq)
next
  case (DeleteWebYard k t e)
  with run obtain x where "delete_in k t e db = Ok (x, db')" by (auto dest!: outcome_of_Ok simp: delete_web_yard_def outcome_iffs)
  then show ?thesis
  proof (cases rule: delete_in_D)
    case (deleted y db1 n ys m)
    obtain ids where ids: "prune_each ids (int t) db = Ok db1" by (rule prune_all_D [OF deleted(3)])
    have "yard_deploys db1 = map (pruned_row ids (int t)) (yard_deploys db)" by (rule prune_each_D [OF ids]) simp
    moreover have "history_bounded (map (pruned_row ids (int t)) (yard_deploys db))"
      by (rule history_bounded_map [OF old pruned_row_change])
         (auto simp: retained_def pruned_row_status split: if_split_asm)
    ultimately show ?thesis by (simp add: deleted(5))
  qed (use old in simp)
qed

definition site_ok :: "yard_database \<Rightarrow> bool" where
  "site_ok db \<longleftrightarrow> site_inv db \<and> history_bounded (yard_deploys db)"

interpretation bounded_site: transactional_service site_exec "\<lambda>r. \<not> is_ok r" site_ok
proof unfold_locales
  fix db c r db'
  assume "site_ok db" and "site_exec c db = (r, db')" and "\<not> is_ok r"
  then show "db' = db" using site.failed_unchanged unfolding site_ok_def by blast
next
  fix db c r db'
  assume ok: "site_ok db" and run: "site_exec c db = (r, db')" and "\<not> \<not> is_ok r"
  then obtain u where u: "r = Ok u" by (auto simp: is_ok_iff)
  have inv: "site_inv db" "history_bounded (yard_deploys db)" using ok by (simp_all add: site_ok_def)
  have "history_bounded (yard_deploys db')"
  proof (cases c)
    case (Yard yc)
    then show ?thesis using yard_exec_bounded [OF site_invD(1) [OF inv(1)] _ inv(2)] run u by simp
  next
    case (Shared sc)
    then show ?thesis using run inv(2) by (auto simp: on_repository_def split: prod.split_asm)
  qed
  then show "site_ok db'" using site.inv_step [OF inv(1) run] by (simp add: site_ok_def)
qed

text \<open>A site without yards.\<close>

definition empty_site :: "database \<Rightarrow> yard_database" where
  "empty_site m = \<lparr>repository = m, web_yards = [], yard_environments = [], yard_deploys = [], yard_deploy_files = []\<rparr>"

lemma empty_site_ok: "store_wide_inv m \<Longrightarrow> site_ok (empty_site m)"
  by (simp add: site_ok_def site_inv_def yard_inv_def yard_core_def yards_ok_def deploys_ok_def files_ok_def linked_def
      history_bounded_def retained_count_def empty_site_def)

section \<open>Repeated starts\<close>

lemma repeated_start:
  assumes inv: "yard_inv db" and ok: "start_yard_deploy db y d ev = (Ok x, db')"
  shows "start_yard_deploy db' y d ev = (Ok x, db')"
proof -
  have run: "start_in y d ev db = Ok (x, db')" using ok by (simp add: start_yard_deploy_def outcome_iffs)
  have inv': "yard_inv db'" by (rule start_inv [OF inv ok])
  from run have "start_in y d ev db' = Ok (x, db')"
  proof (cases rule: start_in_D)
    case (reused e)
    then show ?thesis using run by simp
  next
    case (started selected db1 t1 t2 s)
    note i = insert_deploy_D [OF started(4)]
    obtain r where r: "yard_inv db1" "r \<in> set (web_yards db1)" "yard r = Ok selected" "wy_status r = ''active''"
        "wy_name r = slug_as_str (nwy_name y)" "wy_project_id r = nwy_project_id y" "wy_workspace_id r = nwy_workspace_id y"
      by (rule select_yard_inv [OF inv started(3)])
    obtain e where e: "e \<in> set (yard_deploys db')" "yd_id e = nyd_id d" "deploy e = Ok s" by (rule deploy_by_id_D [OF started(5)])
    have new: "new_deploy_row selected d t2 \<in> set (yard_deploys db')" by (simp add: i(1))
    have eq: "e = new_deploy_row selected d t2"
      by (rule deploy_unique [OF yard_invD(2) [OF inv'] e(1) new]) (simp add: e(2) new_deploy_row_def)
    have "find (\<lambda>r. yd_client_deploy_id r = nyd_client_deploy_id d) (yard_deploys db') = Some e"
    proof (rule find_unique [where P = "\<lambda>r. yd_client_deploy_id r = nyd_client_deploy_id d"])
      show "q = e" if "q \<in> set (yard_deploys db')" "yd_client_deploy_id q = nyd_client_deploy_id d" for q
        using distinct_map_eq [of yd_client_deploy_id "yard_deploys db'" q e] yard_invD(2) [OF inv'] that e(1) eq
        by (simp add: deploys_ok_def new_deploy_row_def)
    qed (use e eq in \<open>simp_all add: new_deploy_row_def\<close>)
    then have found: "deploy_by_client_id db' (nyd_client_deploy_id d) = Ok (Some s)"
      using e(3) by (simp add: deploy_by_client_id_def query_optional_def)
    have "find (\<lambda>z. wy_id z = wyr_id selected) (web_yards db') = Some r"
    proof (rule find_unique [where P = "\<lambda>z. wy_id z = wyr_id selected"])
      show "z = r" if "z \<in> set (web_yards db')" "wy_id z = wyr_id selected" for z
        using yard_unique [OF yard_invD(1) [OF inv'], of z r] that r(2,3) by (simp add: i(1) yard_Ok_iff)
    qed (use r i(1) in \<open>simp_all add: yard_Ok_iff\<close>)
    then have back_again: "yard_by_id db' (wyr_id selected) = Ok selected" using r(3) by (simp add: yard_by_id_def query_row_def)
    have "wyr_name selected = nwy_name y"
      using r(3,5) by (auto simp: yard_Ok_iff slug_new_def split: if_split_asm)
    moreover have "nyd_workspace_id d = nwy_workspace_id y" "nyd_project_id d = nwy_project_id y"
      using started(2) by (auto simp: validate_start_def result_simps split: if_split_asm)
    ultimately have "reused db' y d s = Ok x"
      using back_again e(3) r(3,4,6,7)
      by (auto simp: reused_def eq new_deploy_row_def deploy_Ok_iff yard_Ok_iff started(6) sql_bool_def)
    then show ?thesis using started(2) found by (simp add: start_in_def)
  qed
  then show ?thesis by (simp add: start_yard_deploy_def write_transaction_def)
qed

end
