(* ===== verification/Yard_Alias.thy ===== *)
theory Yard_Alias
  imports Yard_Evolution
begin

text \<open>
  What moves the alias of a yard, and what does not. A live row that is still live after a command is
  the same row; and a command that neither publishes in a yard, nor rolls it back, nor deletes it leaves
  its active row naming the same deploy. So the stable host keeps serving what it served.
\<close>

section \<open>Commands that move an alias\<close>

text \<open>A command succeeds in publishing another deploy of the yard, in rolling it back or in deleting it.\<close>

fun moves_alias :: "string \<Rightarrow> site_command \<Rightarrow> yard_database \<Rightarrow> bool" where
  "moves_alias uid (Yard (FinaliseYardDeploy k fs t e)) db =
     (case fst (finalise_yard_deploy db k fs t e) of Err _ \<Rightarrow> False
      | Ok x \<Rightarrow> ydr_yard_id (ydm_deploy x) = uid \<and> ydr_status (ydm_deploy x) = YdLive)"
| "moves_alias uid (Yard (RollbackWebYard k chosen t e)) db = (k = uid \<and> is_ok (fst (rollback_web_yard db k chosen t e)))"
| "moves_alias uid (Yard (DeleteWebYard k t e)) db = (k = uid \<and> is_ok (fst (delete_web_yard db k t e)))"
| "moves_alias uid _ db = False"

fun undisturbed :: "string \<Rightarrow> site_command list \<Rightarrow> yard_database \<Rightarrow> bool" where
  "undisturbed uid [] db = True"
| "undisturbed uid (c # cs) db = (\<not> moves_alias uid c db \<and> undisturbed uid cs (snd (site_exec c db)))"

section \<open>Live rows\<close>

text \<open>Commands publish, supersede and prune rows; they never rewrite one that stays live.\<close>

definition live_rows_kept :: "yard_deploy_row list \<Rightarrow> yard_deploy_row list \<Rightarrow> bool" where
  "live_rows_kept ds es \<longleftrightarrow> (\<forall>d \<in> set ds. \<forall>e \<in> set es.
     yd_status d = ''live'' \<and> yd_status e = ''live'' \<and> yd_id e = yd_id d \<longrightarrow> e = d)"

lemma live_rows_keptI:
  assumes ok: "deploys_ok ys ds" and f: "deploy_change f"
    and live: "\<And>d. yd_status d = ''live'' \<Longrightarrow> f d = d \<or> yd_status (f d) \<noteq> ''live''"
  shows "live_rows_kept ds (map f ds)"
  unfolding live_rows_kept_def
proof (intro ballI impI, elim conjE)
  fix d e
  assume d: "d \<in> set ds" "yd_status d = ''live''" and e: "e \<in> set (map f ds)" "yd_status e = ''live''" "yd_id e = yd_id d"
  obtain r where r: "r \<in> set ds" "e = f r" using e(1) by auto
  then have "r = d" using deploy_unique [OF ok r(1) d(1)] e(3) deploy_changeD(1) [OF f] by simp
  then show "e = d" using live [OF d(2)] r(2) e(2) by auto
qed

lemma live_rows_kept_subset:
  assumes "deploys_ok ys es" and "set ds \<subseteq> set es"
  shows "live_rows_kept ds es"
  using deploy_unique [OF assms(1)] assms(2) unfolding live_rows_kept_def by blast

lemma pruned_live: "pruned_row ids t d = d \<or> yd_status (pruned_row ids t d) \<noteq> ''live''"
  by (simp add: pruned_row_def)

lemma pruned_after:
  assumes "\<And>d. yd_status d = ''live'' \<Longrightarrow> h d = d \<or> yd_status (h d) \<noteq> ''live''"
  shows "yd_status d = ''live'' \<Longrightarrow> (pruned_row ids t \<circ> h) d = d \<or> yd_status ((pruned_row ids t \<circ> h) d) \<noteq> ''live''"
  using assms [of d] pruned_live [of ids t "h d"] by (auto simp: pruned_row_status)

lemma deploy_change_comp: "deploy_change f \<Longrightarrow> deploy_change g \<Longrightarrow> deploy_change (f \<circ> g)"
  by (simp add: deploy_change_def)

text \<open>The rows after a finalised deploy, as one change of the yards and one of the deploys.\<close>

lemma finalise_rows:
  assumes "yard_inv db" and "insert_files files d db = Ok db1" and "promote_status db1 d at = Ok (status, db2)"
    and "update_rows (\<lambda>r. yd_id r = uid \<and> yd_status r \<in> {''uploading'', ''finalising''})
           (\<lambda>r. r\<lparr>yd_status := yard_deploy_status_as_str status, yd_finalised_at_ms := Some at,
                  yd_file_count := cnt, yd_total_bytes := bytes\<rparr>) yard_deploy_check
           (yard_deploys db2) = Ok (n, rows)"
    and "prune k c t (db2\<lparr>yard_deploys := rows, repository := m\<rparr>) = Ok db'"
  obtains g f where "web_yards db' = map g (web_yards db)" and "\<forall>y. wy_id y \<noteq> ydr_yard_id d \<longrightarrow> g y = y"
    and "yard_deploys db' = map f (yard_deploys db)" and "deploy_change f"
    and "\<forall>d. yd_status d = ''live'' \<longrightarrow> f d = d \<or> yd_status (f d) \<noteq> ''live''"
proof (rule finalise_tables [OF assms])
  fix g h ids
  assume g: "web_yards db' = map g (web_yards db)" "\<And>y. wy_id y \<noteq> ydr_yard_id d \<Longrightarrow> g y = y"
    and h: "yard_deploys db' = map (pruned_row ids t \<circ> h) (yard_deploys db)" "deploy_change h"
      "\<And>d. yd_status d = ''live'' \<Longrightarrow> h d = d \<or> yd_status (h d) \<noteq> ''live''"
  show thesis
  proof (rule that [OF g(1) _ h(1) deploy_change_comp [OF pruned_row_change h(2)]])
    show "\<forall>y. wy_id y \<noteq> ydr_yard_id d \<longrightarrow> g y = y" using g(2) by simp
    show "\<forall>d. yd_status d = ''live'' \<longrightarrow> (pruned_row ids t \<circ> h) d = d \<or> yd_status ((pruned_row ids t \<circ> h) d) \<noteq> ''live''"
      using pruned_after [OF h(3)] by simp
  qed
qed

lemma yard_exec_live_rows:
  assumes inv: "yard_inv db" and run: "yard_exec c db = (Ok u, db')"
  shows "live_rows_kept (yard_deploys db) (yard_deploys db')"
proof -
  note ok = yard_invD(2) [OF inv]
  have inv': "yard_inv db'" by (rule yards.inv_step [OF inv run])
  have same: "live_rows_kept (yard_deploys db) (yard_deploys db)" by (rule live_rows_kept_subset [OF ok]) simp
  show ?thesis
  proof (cases c)
    case (StartYardDeploy y d e)
    with run obtain x where "start_in y d e db = Ok (x, db')" by (auto dest!: outcome_of_Ok simp: start_yard_deploy_def outcome_iffs)
    then show ?thesis
    proof (cases rule: start_in_D)
      case (started selected db1 t1 t2 s)
      have "yard_deploys db1 = yard_deploys db" by (rule select_yard_inv [OF inv started(3)])
      then have "set (yard_deploys db) \<subseteq> set (yard_deploys db')" using insert_deploy_D(1) [OF started(4)] by auto
      then show ?thesis by (rule live_rows_kept_subset [OF yard_invD(2) [OF inv']])
    qed (use same in simp)
  next
    case (FinaliseYardDeploy k fs t e)
    with run obtain x where "finalise_in k fs t e db = Ok (x, db')" by (auto dest!: outcome_of_Ok simp: finalise_yard_deploy_def outcome_iffs)
    then show ?thesis
    proof (cases rule: finalise_in_D)
      case (done' d y at cnt bytes status db1 db2 n rows m y')
      obtain g f where f: "yard_deploys db' = map f (yard_deploys db)" "deploy_change f"
          "\<forall>d. yd_status d = ''live'' \<longrightarrow> f d = d \<or> yd_status (f d) \<noteq> ''live''"
        by (rule finalise_rows [OF inv done'(5,6,7,9)])
      show ?thesis unfolding f(1) by (rule live_rows_keptI [OF ok f(2)]) (use f(3) in simp)
    qed (use same in simp)
  next
    case (FailYardDeploy k code message t)
    with run obtain x where "fail_in k code message t db = Ok (x, db')" by (auto dest!: outcome_of_Ok simp: fail_yard_deploy_def outcome_iffs)
    then show ?thesis
    proof (cases rule: fail_in_D)
      case (marked d n rows y)
      let ?h = "change_if (\<lambda>r. yd_id r = ydr_id d \<and> yd_status r \<in> {''uploading'', ''finalising''})
          (\<lambda>r. r\<lparr>yd_status := ''failed'', yd_failure_code := Some code, yd_failure_message := Some message\<rparr>)"
      obtain ids where "yard_deploys db' = map (pruned_row ids (int t)) rows" using prune_tables(2) [OF marked(5)] by auto
      then have rows: "yard_deploys db' = map (pruned_row ids (int t) \<circ> ?h) (yard_deploys db)"
        using update_rows_change(1) [OF marked(3)] by simp
      have h: "deploy_change ?h" by (rule change_if_deploy) (simp add: deploy_change_def)
      have l: "?h d = d \<or> yd_status (?h d) \<noteq> ''live''" for d by (simp add: change_if_def)
      show ?thesis unfolding rows by (rule live_rows_keptI [OF ok deploy_change_comp [OF pruned_row_change h] pruned_after [OF l]])
    qed (use same in simp)
  next
    case (RollbackWebYard k chosen t e)
    with run obtain x where r: "rollback_in k chosen t e db = Ok (x, db')" by (auto dest!: outcome_of_Ok simp: rollback_web_yard_def outcome_iffs)
    obtain y :: WebYardRecord and target :: YardDeployRecord and n1 ds1 n2 ds2 ys m where
      u1: "update_rows (\<lambda>r. Some (yd_id r) = wyr_current_deploy_id y \<and> yd_status r = ''live'')
             (\<lambda>r. r\<lparr>yd_status := ''superseded''\<rparr>) yard_deploy_check (yard_deploys db) = Ok (n1, ds1)"
      and u2: "update_rows (\<lambda>r. yd_id r = ydr_id target \<and> yd_status r = ''superseded'')
             (\<lambda>r. r\<lparr>yd_status := ''live''\<rparr>) yard_deploy_check ds1 = Ok (n2, ds2)"
      and eq: "db' = db\<lparr>yard_deploys := ds2, web_yards := ys, repository := m\<rparr>"
      by (rule rollback_in_D [OF r])
    let ?h = "change_if (\<lambda>r. yd_id r = ydr_id target \<and> yd_status r = ''superseded'') (\<lambda>r. r\<lparr>yd_status := ''live''\<rparr>)
        \<circ> change_if (\<lambda>r. Some (yd_id r) = wyr_current_deploy_id y \<and> yd_status r = ''live'') (\<lambda>r. r\<lparr>yd_status := ''superseded''\<rparr>)"
    have rows: "yard_deploys db' = map ?h (yard_deploys db)"
      using update_rows_change(1) [OF u1] update_rows_change(1) [OF u2] by (simp add: eq)
    have h: "deploy_change ?h" by (intro deploy_change_comp change_if_deploy) (simp_all add: deploy_change_def)
    show ?thesis unfolding rows by (rule live_rows_keptI [OF ok h]) (simp add: change_if_def)
  next
    case (DeleteWebYard k t e)
    with run obtain x where "delete_in k t e db = Ok (x, db')" by (auto dest!: outcome_of_Ok simp: delete_web_yard_def outcome_iffs)
    then show ?thesis
    proof (cases rule: delete_in_D)
      case (deleted y db1 n ys m)
      obtain ids where ids: "prune_each ids (int t) db = Ok db1" by (rule prune_all_D [OF deleted(3)])
      have "yard_deploys db1 = map (pruned_row ids (int t)) (yard_deploys db)" by (rule prune_each_D [OF ids]) simp
      then have rows: "yard_deploys db' = map (pruned_row ids (int t)) (yard_deploys db)" by (simp add: deleted(5))
      show ?thesis unfolding rows by (rule live_rows_keptI [OF ok pruned_row_change pruned_live])
    qed (use same in simp)
  qed
qed

section \<open>The alias\<close>

text \<open>The active yard \<open>uid\<close> answers at host \<open>h\<close> with its deploy \<open>c\<close>.\<close>

definition points :: "yard_database \<Rightarrow> string \<Rightarrow> string \<Rightarrow> string \<Rightarrow> bool" where
  "points db uid h c \<longleftrightarrow> (\<exists>y \<in> set (web_yards db). wy_id y = uid \<and> wy_host_label y = h \<and> wy_status y = ''active''
     \<and> wy_current_deploy_id y = Some c)"

lemma points_map:
  assumes "web_yards db' = map g (web_yards db)" and "\<And>y. wy_id y = uid \<Longrightarrow> g y = y" and "points db uid h c"
  shows "points db' uid h c"
  using assms by (force simp: points_def)

lemma finalise_other_yard:
  assumes inv: "yard_inv db" and ok: "finalise_yard_deploy db k fs t e = (Ok x, db')"
    and other: "ydr_yard_id (ydm_deploy x) \<noteq> uid" and p: "points db uid h c"
  shows "points db' uid h c"
proof -
  have "finalise_in k fs t e db = Ok (x, db')" using ok by (simp add: finalise_yard_deploy_def outcome_iffs)
  then show ?thesis
  proof (cases rule: finalise_in_D)
    case (done' d y at cnt bytes status db1 db2 n rows m y')
    obtain g f where g: "web_yards db' = map g (web_yards db)" "\<forall>y. wy_id y \<noteq> ydr_yard_id d \<longrightarrow> g y = y"
      and f: "yard_deploys db' = map f (yard_deploys db)" "deploy_change f"
      by (rule finalise_rows [OF inv done'(5,6,7,9)])
    obtain r where r: "r \<in> set (yard_deploys db)" "yd_id r = k" "deploy r = Ok d" by (rule deploy_by_id_D [OF done'(1)])
    obtain s where s: "s \<in> set (yard_deploys db')" "yd_id s = k" "deploy s = Ok (ydm_deploy x)" by (rule deploy_by_id_D [OF done'(10)])
    obtain r0 where r0: "r0 \<in> set (yard_deploys db)" "s = f r0" using s(1) f(1) by auto
    have "r0 = r" using deploy_unique [OF yard_invD(2) [OF inv] r0(1) r(1)] s(2) r(2) r0(2)
      by (simp add: deploy_changeD [OF f(2)])
    then have "ydr_yard_id (ydm_deploy x) = ydr_yard_id d"
      using s(3) r(3) r0(2) by (simp add: deploy_Ok_iff deploy_changeD [OF f(2)])
    then show ?thesis using points_map [OF g(1) _ p] g(2) other by metis
  qed (use p in simp)
qed

lemma yard_exec_points:
  assumes inv: "yard_inv db" and run: "yard_exec c db = (Ok u, db')" and still: "\<not> moves_alias uid (Yard c) db"
    and p: "points db uid h k"
  shows "points db' uid h k"
proof (cases c)
  case (StartYardDeploy y d e)
  with run obtain x where "start_in y d e db = Ok (x, db')" by (auto dest!: outcome_of_Ok simp: start_yard_deploy_def outcome_iffs)
  then show ?thesis
  proof (cases rule: start_in_D)
    case (started selected db1 t1 t2 s)
    have "set (web_yards db) \<subseteq> set (web_yards db1)" by (rule select_yard_inv [OF inv started(3)])
    then show ?thesis using p insert_deploy_D(1) [OF started(4)] by (auto simp: points_def)
  qed (use p in simp)
next
  case (FinaliseYardDeploy d fs t e)
  with run obtain x where x: "finalise_yard_deploy db d fs t e = (Ok x, db')" by (auto dest!: outcome_of_Ok)
  show ?thesis
  proof (cases "ydr_yard_id (ydm_deploy x) = uid")
    case True
    then have "ydr_status (ydm_deploy x) \<noteq> YdLive" using still x FinaliseYardDeploy by simp
    then show ?thesis using finalise_effect(2) [OF inv x] p by (simp add: points_def)
  qed (rule finalise_other_yard [OF inv x _ p])
next
  case (FailYardDeploy d code message t)
  with run obtain x where "fail_in d code message t db = Ok (x, db')" by (auto dest!: outcome_of_Ok simp: fail_yard_deploy_def outcome_iffs)
  then show ?thesis
  proof (cases rule: fail_in_D)
    case (marked d n rows y)
    then show ?thesis using prune_tables(1) [OF marked(5)] p by (simp add: points_def)
  qed (use p in simp)
next
  case (RollbackWebYard w chosen t e)
  with run obtain x where x: "rollback_web_yard db w chosen t e = (Ok x, db')" by (auto dest!: outcome_of_Ok)
  then have r: "rollback_in w chosen t e db = Ok (x, db')" by (simp add: rollback_web_yard_def outcome_iffs)
  have "w \<noteq> uid" using still x RollbackWebYard by simp
  obtain y :: WebYardRecord and target :: YardDeployRecord and n3 ys ds m where y: "yard_by_id db w = Ok y"
    and up: "update_rows (\<lambda>r. wy_id r = wyr_id y \<and> wy_status r = ''active'')
           (\<lambda>r. r\<lparr>wy_current_deploy_id := Some (ydr_id target), wy_updated_at_ms := int t\<rparr>) web_yard_check
           (web_yards db) = Ok (n3, ys)" and eq: "db' = db\<lparr>yard_deploys := ds, web_yards := ys, repository := m\<rparr>"
    by (rule rollback_in_D [OF r])
  have "wyr_id y = w" using y by (auto elim!: yard_by_id_D simp: yard_Ok_iff)
  then show ?thesis
    using points_map [of db' "change_if (\<lambda>r. wy_id r = wyr_id y \<and> wy_status r = ''active'')
           (\<lambda>r. r\<lparr>wy_current_deploy_id := Some (ydr_id target), wy_updated_at_ms := int t\<rparr>)", OF _ _ p]
      update_rows_change(1) [OF up] \<open>w \<noteq> uid\<close> by (simp add: eq change_if_def)
next
  case (DeleteWebYard w t e)
  with run obtain x where x: "delete_web_yard db w t e = (Ok x, db')" by (auto dest!: outcome_of_Ok)
  have "w \<noteq> uid" using still x DeleteWebYard by simp
  from x have "delete_in w t e db = Ok (x, db')" by (simp add: delete_web_yard_def outcome_iffs)
  then show ?thesis
  proof (cases rule: delete_in_D)
    case (deleted y db1 n ys m)
    obtain ids where ids: "prune_each ids (int t) db = Ok db1" by (rule prune_all_D [OF deleted(3)])
    have "web_yards db1 = web_yards db" by (rule prune_each_D [OF ids]) simp
    then have "web_yards db' = map (deleted_yard w (int t)) (web_yards db)"
      using update_rows_change(1) [OF deleted(4)] deleted(5) by (simp add: change_if_def deleted_yard_def)
    then show ?thesis by (rule points_map [OF _ _ p]) (use \<open>w \<noteq> uid\<close> in \<open>simp add: deleted_yard_def\<close>)
  qed (use p in simp)
qed

section \<open>What the stable host keeps serving\<close>

definition serves :: "yard_database \<Rightarrow> string \<Rightarrow> string \<Rightarrow> yard_deploy_row \<Rightarrow> bool" where
  "serves db uid h d \<longleftrightarrow> d \<in> set (yard_deploys db) \<and> yd_status d = ''live'' \<and> points db uid h (yd_id d)"

lemma site_exec_serves:
  assumes inv: "yard_inv db" and run: "site_exec c db = (r, db')" and still: "\<not> moves_alias uid c db"
    and s: "serves db uid h d"
  shows "yard_inv db'" and "serves db' uid h d"
proof -
  have "yard_inv db' \<and> serves db' uid h d"
  proof (cases c)
    case (Yard yc)
    then have run': "yard_exec yc db = (r, db')" using run by simp
    have inv': "yard_inv db'" by (rule yards.inv_step [OF inv run'])
    show ?thesis
    proof (cases "is_ok r")
      case False
      then show ?thesis using yards.failed_unchanged [OF inv run'] inv s by simp
    next
      case True
      then obtain u where "r = Ok u" by (auto simp: is_ok_iff)
      with run' have u: "yard_exec yc db = (Ok u, db')" by simp
      have p: "points db' uid h (yd_id d)"
        using yard_exec_points [OF inv u] still s Yard by (simp add: serves_def)
      then obtain y where y: "y \<in> set (web_yards db')" "wy_current_deploy_id y = Some (yd_id d)" by (auto simp: points_def)
      note a = yard_invD(4) [OF inv' y(1), unfolded alias_of_def y(2) option.case]
      then obtain e where e: "e \<in> set (yard_deploys db')" "yd_id e = yd_id d" "yd_yard_id e = wy_id y" by blast
      then have live: "yd_status e = ''live''" using a by metis
      have "e = d" using yard_exec_live_rows [OF inv u] s e(1,2) live by (simp add: live_rows_kept_def serves_def)
      then show ?thesis using e live p inv' by (simp add: serves_def)
    qed
  next
    case (Shared sc)
    then obtain m where "db' = db\<lparr>repository := m, yard_deploy_files := map (unlink_file m) (yard_deploy_files db)\<rparr>"
      using run by (auto simp: on_repository_def split: prod.split_asm)
    then show ?thesis using s inv yard_inv_unlink [where db = "db\<lparr>repository := m\<rparr>" and m = m]
      by (simp add: serves_def points_def)
  qed
  then show "yard_inv db'" and "serves db' uid h d" by simp_all
qed

lemma site_run_serves:
  "yard_inv db \<Longrightarrow> serves db uid h d \<Longrightarrow> undisturbed uid cs db
    \<Longrightarrow> yard_inv (run_commands site_exec cs db) \<and> serves (run_commands site_exec cs db) uid h d"
proof (induction cs arbitrary: db)
  case (Cons c cs)
  obtain r db1 where e: "site_exec c db = (r, db1)" by force
  have "\<not> moves_alias uid c db" using Cons.prems(3) by simp
  note step = site_exec_serves [OF Cons.prems(1) e this Cons.prems(2)]
  then show ?case using Cons.IH [OF step] Cons.prems(3) e by simp
qed simp

lemma serves_serving:
  assumes inv: "yard_inv db" and s: "serves db uid h d" and x: "deploy d = Ok x"
  shows "serving_deploy db h = Ok x"
proof -
  obtain y where "y \<in> set (web_yards db)" "wy_host_label y = h" "wy_status y = ''active''" "wy_current_deploy_id y = Some (yd_id d)"
    using s by (auto simp: serves_def points_def)
  then show ?thesis using serves_current [OF inv] s x by (auto simp: serves_def)
qed

text \<open>What a host serves as the live deploy of a yard it serves until the alias is moved.\<close>

lemma serving_undisturbed:
  assumes inv: "yard_inv db" and y: "yard_by_id db (ydr_yard_id x) = Ok y" "wyr_status y = WyActive"
    and d: "deploy_by_id db k = Ok x" "ydr_status x = YdLive" and still: "undisturbed (ydr_yard_id x) cs db"
  shows "serving_deploy (run_commands site_exec cs db) (wyr_host_label y) = Ok x"
proof -
  obtain r where r: "r \<in> set (web_yards db)" "wy_id r = ydr_yard_id x" "yard r = Ok y" by (rule yard_by_id_D [OF y(1)])
  obtain e where e: "e \<in> set (yard_deploys db)" "deploy e = Ok x" by (rule deploy_by_id_D [OF d(1)])
  have "wyr_current_deploy_id y = Some (ydr_id x)" by (rule read_back_serves(2) [OF inv y d refl])
  then have "serves db (ydr_yard_id x) (wyr_host_label y) e"
    using r e y(2) d(2) by (auto simp: serves_def points_def yard_Ok_iff deploy_Ok_iff)
  from site_run_serves [OF inv this still] serves_serving [OF _ _ e(2)] show ?thesis by blast
qed

lemma finalise_served_undisturbed:
  assumes inv: "yard_inv db" and ok: "finalise_yard_deploy db uid files t ev = (Ok x, db')"
    and live: "ydr_status (ydm_deploy x) = YdLive" and still: "undisturbed (ydr_yard_id (ydm_deploy x)) cs db'"
  shows "serving_deploy (run_commands site_exec cs db') (wyr_host_label (ydm_yard x)) = Ok (ydm_deploy x)"
proof -
  have run: "finalise_in uid files t ev db = Ok (x, db')" using ok by (simp add: finalise_yard_deploy_def outcome_iffs)
  then have "deploy_by_id db' uid = Ok (ydm_deploy x) \<and> yard_by_id db' (ydr_yard_id (ydm_deploy x)) = Ok (ydm_yard x)"
    by (cases rule: finalise_in_D) simp_all
  then show ?thesis using serving_undisturbed [OF finalise_inv [OF inv ok] _ finalise_effect(4) [OF inv ok] _ live still] by blast
qed

end
