(* ===== verification/Yard_Properties.thy ===== *)
theory Yard_Properties
  imports Yard_Alias
begin

text \<open>
  What the histories of a site guarantee: the stable host of a yard serves its one live deploy, a
  publication is served at once, the history stays within its depth, pruning spares what is still
  shown, and a deleted yard is never served again.
\<close>

section \<open>A sample site\<close>

text \<open>Constants of the checks, in a form the simplifier evaluates.\<close>

lemma maximum_files_less [code_unfold]: "MAXIMUM_FILES < n \<longleftrightarrow> 10000 < int n"
  by (simp add: MAXIMUM_FILES_def)

lemma u64_max_less [code_unfold]: "u64_max < n \<longleftrightarrow> 18446744073709551615 < int n"
  by (simp add: u64_max_def)

lemma cast_signed_code [code]: "cast_signed n = (if int n \<le> 9223372036854775807 then int n else int n - 2 ^ 64)"
  by (simp add: cast_signed_def le_i64_max)

definition sample_new_yard :: NewWebYard where
  "sample_new_yard = \<lparr>nwy_id = ''y1'', nwy_workspace_id = ''w'', nwy_project_id = ''p'', nwy_name = Slug ''docs'',
     nwy_host_label = ''docs-1'', nwy_created_at_ms = 60\<rparr>"

definition sample_new_deploy :: "string \<Rightarrow> nat \<Rightarrow> NewYardDeploy" where
  "sample_new_deploy k t = \<lparr>nyd_id = k, nyd_yard_id = ''y1'', nyd_workspace_id = ''w'', nyd_project_id = ''p'',
     nyd_client_deploy_id = ''client-deploy-'' @ k, nyd_manifest_root = manifest_root_of ''y1'' (''client-deploy-'' @ k),
     nyd_deployment_host_label = ''docs-'' @ k, nyd_spa = False, nyd_clean_urls = True, nyd_created_at_ms = t\<rparr>"

definition sample_yard_event :: "string \<Rightarrow> string \<Rightarrow> string \<Rightarrow> nat \<Rightarrow> (string \<times> AuditValue) list \<Rightarrow> NewAuditEvent" where
  "sample_yard_event uid action target t metadata = \<lparr>nae_id = uid, nae_workspace_id = ''w'', nae_actor = ''a'',
     nae_action = action, nae_request_id = ''r'', nae_target_type = target, nae_metadata = metadata, nae_created_at_ms = t\<rparr>"

definition sample_start :: "string \<Rightarrow> nat \<Rightarrow> yard_command" where
  "sample_start k t = StartYardDeploy sample_new_yard (sample_new_deploy k t)
     (sample_yard_event ''v1'' ''yard.created'' ''web_yard'' 60 [(''yardId'', AvString ''y1'')])"

definition sample_finalise :: "string \<Rightarrow> nat \<Rightarrow> string \<Rightarrow> yard_command" where
  "sample_finalise k t uid = FinaliseYardDeploy k [\<lparr>nyf_normalized_path = ''index.html'', nyf_version_id = ''u1'', nyf_byte_size = 3\<rparr>] t
     (sample_yard_event uid ''yard.deployed'' ''yard_deploy'' t
       [(''deployId'', AvString k), (''fileCount'', AvNumber 1), (''status'', AvString ''live''), (''totalBytes'', AvNumber 3)])"

definition sample_site :: yard_database where
  "sample_site = run_commands site_exec [Yard (sample_start ''d1'' 61), Yard (sample_finalise ''d1'' 62 ''v2''),
     Yard (sample_start ''d2'' 63), Yard (sample_finalise ''d2'' 64 ''v3'')] (empty_site sample_store)"


definition sample_deployed_row :: "int \<Rightarrow> string \<Rightarrow> string \<Rightarrow> int \<Rightarrow> audit_event_row" where
  "sample_deployed_row n uid k t = \<lparr>ae_sequence = n, ae_id = uid, ae_workspace_id = ''w'', ae_actor = ''a'',
     ae_action = ''yard.deployed'', ae_request_id = ''r'', ae_target_type = ''yard_deploy'',
     ae_metadata = [(''deployId'', JsonString k), (''fileCount'', JsonNumber 1), (''status'', JsonString ''live''),
       (''totalBytes'', JsonNumber 3)], ae_created_at_ms = t\<rparr>"

definition sample_deploy_row :: "string \<Rightarrow> string \<Rightarrow> int \<Rightarrow> yard_deploy_row" where
  "sample_deploy_row k status t = \<lparr>yd_id = k, yd_yard_id = ''y1'', yd_workspace_id = ''w'', yd_project_id = ''p'',
     yd_client_deploy_id = ''client-deploy-'' @ k, yd_manifest_root = ''.blobyard-yard/y1/client-deploy-'' @ k @ ''/'',
     yd_deployment_host_label = ''docs-'' @ k, yd_spa = 0, yd_clean_urls = 1, yd_status = status, yd_created_at_ms = t,
     yd_finalised_at_ms = Some (t + 1), yd_file_count = 1, yd_total_bytes = 3, yd_failure_code = None,
     yd_failure_message = None, yd_pruned_at_ms = None\<rparr>"

lemma sample_site_rows [code]:
  "sample_site = \<lparr>repository = sample_store\<lparr>audit_events := audit_events sample_store @
       [\<lparr>ae_sequence = 2, ae_id = ''v1'', ae_workspace_id = ''w'', ae_actor = ''a'', ae_action = ''yard.created'',
         ae_request_id = ''r'', ae_target_type = ''web_yard'', ae_metadata = [(''yardId'', JsonString ''y1'')],
         ae_created_at_ms = 60\<rparr>, sample_deployed_row 3 ''v2'' ''d1'' 62, sample_deployed_row 4 ''v3'' ''d2'' 64],
       audit_sequence := 4\<rparr>,
     web_yards = [\<lparr>wy_id = ''y1'', wy_workspace_id = ''w'', wy_project_id = ''p'', wy_name = ''docs'', wy_host_label = ''docs-1'',
       wy_current_deploy_id = Some ''d2'', wy_status = ''active'', wy_created_at_ms = 60, wy_updated_at_ms = 64,
       wy_deleted_at_ms = None\<rparr>],
     yard_environments = [\<lparr>ye_id = ''yardenv_y1'', ye_yard_id = ''y1'', ye_name = ''production'', ye_kind = ''production'',
       ye_status = ''active'', ye_created_at_ms = 60, ye_updated_at_ms = 60, ye_deleted_at_ms = None\<rparr>],
     yard_deploys = [sample_deploy_row ''d1'' ''superseded'' 61, sample_deploy_row ''d2'' ''live'' 63],
     yard_deploy_files = [\<lparr>yf_deploy_id = ''d1'', yf_normalized_path = ''index.html'', yf_version_id = Some ''u1'', yf_byte_size = 3\<rparr>,
       \<lparr>yf_deploy_id = ''d2'', yf_normalized_path = ''index.html'', yf_version_id = Some ''u1'', yf_byte_size = 3\<rparr>]\<rparr>"
  by code_simp

lemma sample_store_wide: "store_wide_inv sample_store"
proof -
  have "inbox_tables sample_store = ([], [], [])" by code_simp
  then have "inbox_inv sample_store" by (simp add: inbox_tables_def inbox_inv_def)
  then show ?thesis using sample_store_lifecycle by (simp add: store_wide_inv_def)
qed

lemma sample_site_ok: "site_ok sample_site"
  unfolding sample_site_def by (rule bounded_site.inv_run [OF empty_site_ok [OF sample_store_wide]])

lemma sample_yard_inv: "yard_inv sample_site"
  using sample_site_ok by (simp add: site_ok_def site_inv_def)

section \<open>The stable host\<close>

lemma alias_selects_live:
  assumes inv: "yard_inv db" and y: "y \<in> set (web_yards db)"
  shows "(\<forall>d \<in> set (yard_deploys db). yd_yard_id d = wy_id y \<longrightarrow>
           (yd_status d = ''live'' \<longleftrightarrow> wy_current_deploy_id y = Some (yd_id d)))
    \<and> (\<forall>c. wy_current_deploy_id y = Some c \<longrightarrow>
         (\<exists>d \<in> set (yard_deploys db). yd_id d = c \<and> yd_yard_id d = wy_id y \<and> yd_status d = ''live''
            \<and> yd_file_count d = int (length (filter (\<lambda>f. yf_deploy_id f = c) (yard_deploy_files db)))
            \<and> (\<exists>f \<in> set (yard_deploy_files db). yf_deploy_id f = c \<and> yf_normalized_path f = ''index.html'')))
    \<and> (wy_status y = ''deleted'' \<longrightarrow>
         (\<forall>d \<in> set (yard_deploys db). yd_yard_id d = wy_id y \<longrightarrow> yd_status d = ''pruned''))"
proof (intro conjI allI impI)
  note I = yard_invD [OF inv]
  show live: "\<forall>d \<in> set (yard_deploys db). yd_yard_id d = wy_id y \<longrightarrow>
      (yd_status d = ''live'' \<longleftrightarrow> wy_current_deploy_id y = Some (yd_id d))"
    using I(4) [OF y] by (simp add: alias_of_def)
  fix c
  assume c: "wy_current_deploy_id y = Some c"
  obtain d where d: "d \<in> set (yard_deploys db)" "yd_id d = c" "yd_yard_id d = wy_id y"
    using I(4) [OF y] c by (auto simp: alias_of_def)
  have st: "yd_status d = ''live''" using live d c by blast
  have "file_complete (yard_deploy_files db) d" using I(3) d(1) by (simp add: files_ok_def)
  then have "yd_file_count d = int (length (filter (\<lambda>f. yf_deploy_id f = c) (yard_deploy_files db)))
      \<and> (\<exists>f \<in> set (yard_deploy_files db). yf_deploy_id f = c \<and> yf_normalized_path f = ''index.html'')"
    using st d(2) by (auto simp: file_complete_def finalised_def deploy_files_def)
  then show "\<exists>d \<in> set (yard_deploys db). yd_id d = c \<and> yd_yard_id d = wy_id y \<and> yd_status d = ''live''
            \<and> yd_file_count d = int (length (filter (\<lambda>f. yf_deploy_id f = c) (yard_deploy_files db)))
            \<and> (\<exists>f \<in> set (yard_deploy_files db). yf_deploy_id f = c \<and> yf_normalized_path f = ''index.html'')"
    using d st by blast
next
  assume del: "wy_status y = ''deleted''"
  show "\<forall>d \<in> set (yard_deploys db). yd_yard_id d = wy_id y \<longrightarrow> yd_status d = ''pruned''"
  proof (intro ballI impI)
    fix d
    assume d: "d \<in> set (yard_deploys db)" "yd_yard_id d = wy_id y"
    then obtain z where z: "z \<in> set (web_yards db)" "yard_of d z" using yard_invD(2) [OF inv] by (auto simp: deploys_ok_def)
    then have "z = y" using yard_unique [OF yard_invD(1) [OF inv] z(1) y] d(2) by (simp add: yard_of_def)
    with z(2) del show "yd_status d = ''pruned''" by (simp add: yard_of_def)
  qed
qed

text \<open>C12. In every history of a site the current deploy of a yard is exactly its live deploy; that
  deploy still has all the files it was finalised with, an index page among them; and a deleted yard
  has nothing but pruned deploys.\<close>

theorem yard_alias_selects_live:
  assumes "store_wide_inv m" and "db = run_commands site_exec cs (empty_site m)" and "y \<in> set (web_yards db)"
  shows "(\<forall>d \<in> set (yard_deploys db). yd_yard_id d = wy_id y \<longrightarrow>
           (yd_status d = ''live'' \<longleftrightarrow> wy_current_deploy_id y = Some (yd_id d)))
    \<and> (\<forall>c. wy_current_deploy_id y = Some c \<longrightarrow>
         (\<exists>d \<in> set (yard_deploys db). yd_id d = c \<and> yd_yard_id d = wy_id y \<and> yd_status d = ''live''
            \<and> yd_file_count d = int (length (filter (\<lambda>f. yf_deploy_id f = c) (yard_deploy_files db)))
            \<and> (\<exists>f \<in> set (yard_deploy_files db). yf_deploy_id f = c \<and> yf_normalized_path f = ''index.html'')))
    \<and> (wy_status y = ''deleted'' \<longrightarrow>
         (\<forall>d \<in> set (yard_deploys db). yd_yard_id d = wy_id y \<longrightarrow> yd_status d = ''pruned''))"
proof (rule alias_selects_live [OF _ assms(3)])
  show "yard_inv db"
    using bounded_site.inv_run [OF empty_site_ok [OF assms(1)], of cs] by (simp add: assms(2) site_ok_def site_inv_def)
qed

theorem yard_alias_selects_live_witness:
  "wy_current_deploy_id (hd (web_yards sample_site)) = Some ''d2''
   \<and> (\<exists>d \<in> set (yard_deploys sample_site). yd_id d = ''d2'' \<and> yd_status d = ''live'')"
proof -
  have y: "hd (web_yards sample_site) \<in> set (web_yards sample_site)" by code_simp
  have c: "wy_current_deploy_id (hd (web_yards sample_site)) = Some ''d2''" by code_simp
  from yard_alias_selects_live [OF sample_store_wide sample_site_def y] c show ?thesis by blast
qed

section \<open>Publishing\<close>

text \<open>C13. Finalising a deploy answers with the deploy it was asked for. If the answer says it is live,
  the stable host of the yard serves exactly this deploy, and goes on serving it after every history of the
  site in which no command succeeds in publishing another deploy of the yard, in rolling it back or in
  deleting it (\<open>undisturbed\<close>): starting and failing deploys, the pruning that goes with it, the commands
  of other yards and every command of the shared services leave it as it is. Otherwise (a newer deploy
  was finalised first) no alias moved.\<close>

theorem finalise_publishes:
  assumes "yard_inv db" and "finalise_yard_deploy db deploy_id files now event = (Ok x, db')"
  shows "ydr_id (ydm_deploy x) = deploy_id
    \<and> (if ydr_status (ydm_deploy x) = YdLive
       then serving_deploy db' (wyr_host_label (ydm_yard x)) = Ok (ydm_deploy x)
         \<and> (\<forall>later. undisturbed (ydr_yard_id (ydm_deploy x)) later db' \<longrightarrow>
              serving_deploy (run_commands site_exec later db') (wyr_host_label (ydm_yard x)) = Ok (ydm_deploy x))
       else web_yards db' = web_yards db)"
  using finalise_effect [OF assms] finalise_served_undisturbed [OF assms] by simp

definition sample_started :: yard_database where
  "sample_started = run_commands site_exec [Yard (sample_start ''d3'' 65)] sample_site"

lemma sample_started_inv: "yard_inv sample_started"
  using bounded_site.inv_run [OF sample_site_ok] unfolding sample_started_def site_ok_def site_inv_def by blast

definition sample_manifest :: "NewYardFile list" where
  "sample_manifest = [\<lparr>nyf_normalized_path = ''index.html'', nyf_version_id = ''u1'', nyf_byte_size = 3\<rparr>]"

definition sample_deployed_event :: NewAuditEvent where
  "sample_deployed_event = sample_yard_event ''v4'' ''yard.deployed'' ''yard_deploy'' 66
     [(''deployId'', AvString ''d3''), (''fileCount'', AvNumber 1), (''status'', AvString ''live''), (''totalBytes'', AvNumber 3)]"

text \<open>Later the same yard starts another deploy and gives it up.\<close>

definition sample_later :: "site_command list" where
  "sample_later = [Yard (sample_start ''d4'' 67), Yard (FailYardDeploy ''d4'' ''UPLOAD_FAILED'' ''gone'' 68)]"

theorem finalise_publishes_witness:
  "\<exists>x db'. finalise_yard_deploy sample_started ''d3'' sample_manifest 66 sample_deployed_event = (Ok x, db')
    \<and> serving_deploy db' (wyr_host_label (ydm_yard x)) = Ok (ydm_deploy x)
    \<and> map yd_status (yard_deploys (run_commands site_exec sample_later db')) = [''superseded'', ''superseded'', ''live'', ''failed'']
    \<and> serving_deploy (run_commands site_exec sample_later db') (wyr_host_label (ydm_yard x)) = Ok (ydm_deploy x)"
proof -
  let ?run = "finalise_yard_deploy sample_started ''d3'' sample_manifest 66 sample_deployed_event"
  have later: "map_err (\<lambda>_. ()) (and_then (fst ?run) (\<lambda>x. Ok (undisturbed (ydr_yard_id (ydm_deploy x)) sample_later (snd ?run)))) = Ok True"
    by code_simp
  have rows: "map yd_status (yard_deploys (run_commands site_exec sample_later (snd ?run)))
      = [''superseded'', ''superseded'', ''live'', ''failed'']" by code_simp
  have "map_err (\<lambda>_. ()) (and_then (fst ?run) (\<lambda>x. Ok (ydr_status (ydm_deploy x)))) = Ok YdLive" by code_simp
  then obtain x where "fst ?run = Ok x" and live: "ydr_status (ydm_deploy x) = YdLive" by (auto simp: result_simps)
  then have run: "?run = (Ok x, snd ?run)" by (metis prod.collapse)
  have still: "undisturbed (ydr_yard_id (ydm_deploy x)) sample_later (snd ?run)"
    using later \<open>fst ?run = Ok x\<close> by (simp add: result_simps)
  have served: "serving_deploy (snd ?run) (wyr_host_label (ydm_yard x)) = Ok (ydm_deploy x)"
      "serving_deploy (run_commands site_exec sample_later (snd ?run)) (wyr_host_label (ydm_yard x)) = Ok (ydm_deploy x)"
    using finalise_publishes [OF sample_started_inv run] live still by simp_all
  show ?thesis by (intro exI conjI) (rule run served(1) rows served(2))+
qed

text \<open>C21. A rollback of a yard serves, at its stable host, the deploy that was named, and if none was
  named the newest superseded deploy; it is never the deploy that was current.\<close>

theorem rollback_serves_target:
  assumes "yard_inv db" and "rollback_web_yard db yard_id chosen now event = (Ok x, db')"
  shows "serving_deploy db' (wyr_host_label (ydm_yard x)) = Ok (ydm_deploy x)
    \<and> wyr_id (ydm_yard x) = yard_id \<and> current_of db yard_id \<noteq> Some (ydr_id (ydm_deploy x))
    \<and> (case chosen of Some k \<Rightarrow> ydr_id (ydm_deploy x) = k
       | None \<Rightarrow> \<forall>d \<in> set (yard_deploys db). yd_yard_id d = yard_id \<and> yd_status d = ''superseded'' \<longrightarrow>
           (yd_created_at_ms d, yd_id d) \<le> (int (ydr_created_at_ms (ydm_deploy x)), ydr_id (ydm_deploy x)))"
  using rollback_effect [OF assms] by (cases chosen) (simp_all add: previous_deploy_def)

theorem rollback_serves_target_witness:
  "\<exists>x db'. rollback_web_yard sample_site ''y1'' None 65 (sample_yard_event ''v4'' ''yard.rolled_back'' ''yard_deploy'' 65
       [(''deployId'', AvString ''d1''), (''yardId'', AvString ''y1'')]) = (Ok x, db')
    \<and> serving_deploy db' (wyr_host_label (ydm_yard x)) = Ok (ydm_deploy x) \<and> ydr_id (ydm_deploy x) = ''d1''"
proof -
  let ?run = "rollback_web_yard sample_site ''y1'' None 65 (sample_yard_event ''v4'' ''yard.rolled_back'' ''yard_deploy'' 65
       [(''deployId'', AvString ''d1''), (''yardId'', AvString ''y1'')])"
  have "map_err (\<lambda>_. ()) (and_then (fst ?run) (\<lambda>x. Ok (ydr_id (ydm_deploy x)))) = Ok ''d1''" by code_simp
  then obtain x where "fst ?run = Ok x" and d1: "ydr_id (ydm_deploy x) = ''d1''" by (auto simp: result_simps)
  then have run: "?run = (Ok x, snd ?run)" by (metis prod.collapse)
  from rollback_serves_target [OF sample_yard_inv run] d1 run show ?thesis by blast
qed

text \<open>Repeating a successful start of a deploy, with the same arguments, answers the same records and
  changes nothing: a client may retry it.\<close>

theorem start_retry_idempotent:
  assumes "yard_inv db" and "start_yard_deploy db new_yard new_deploy event = (Ok x, db')"
  shows "start_yard_deploy db' new_yard new_deploy event = (Ok x, db')"
  by (rule repeated_start [OF assms])

theorem start_retry_idempotent_witness:
  "\<exists>x db'. start_yard_deploy sample_site sample_new_yard (sample_new_deploy ''d3'' 65)
       (sample_yard_event ''v1'' ''yard.created'' ''web_yard'' 60 [(''yardId'', AvString ''y1'')]) = (Ok x, db')
    \<and> length (yard_deploys db') = 3
    \<and> start_yard_deploy db' sample_new_yard (sample_new_deploy ''d3'' 65)
       (sample_yard_event ''v1'' ''yard.created'' ''web_yard'' 60 [(''yardId'', AvString ''y1'')]) = (Ok x, db')"
proof -
  let ?run = "\<lambda>db. start_yard_deploy db sample_new_yard (sample_new_deploy ''d3'' 65)
       (sample_yard_event ''v1'' ''yard.created'' ''web_yard'' 60 [(''yardId'', AvString ''y1'')])"
  have "is_ok (fst (?run sample_site)) \<and> length (yard_deploys (snd (?run sample_site))) = 3" by code_simp
  then obtain x where "fst (?run sample_site) = Ok x" and three: "length (yard_deploys (snd (?run sample_site))) = 3"
    by (auto simp: is_ok_iff)
  then have run: "?run sample_site = (Ok x, snd (?run sample_site))" by (metis prod.collapse)
  from start_retry_idempotent [OF sample_yard_inv run] run three show ?thesis by blast
qed

section \<open>History and deletion\<close>

text \<open>C22. However a site is used, a yard never retains more than ten deploys that were finalised or
  failed: the history is pruned in the transaction that would exceed it.\<close>

theorem retained_history_bounded:
  assumes "store_wide_inv m" and "db = run_commands site_exec cs (empty_site m)"
  shows "length (filter (\<lambda>d. yd_yard_id d = yard_id \<and> yd_status d \<in> {''live'', ''failed'', ''superseded''})
           (yard_deploys db)) \<le> 10"
proof -
  have "history_bounded (yard_deploys db)"
    using bounded_site.inv_run [OF empty_site_ok [OF assms(1)], of cs] by (simp add: assms(2) site_ok_def)
  then show ?thesis by (simp add: history_bounded_def retained_count_def retained_def HISTORY_DEPTH_def)
qed

theorem retained_history_bounded_witness:
  "length (filter (\<lambda>d. yd_yard_id d = ''y1'' \<and> yd_status d \<in> {''live'', ''failed'', ''superseded''})
      (yard_deploys sample_site)) = 2
   \<and> length (filter (\<lambda>d. yd_yard_id d = ''y1'' \<and> yd_status d \<in> {''live'', ''failed'', ''superseded''})
      (yard_deploys sample_site)) \<le> 10"
proof
  show "length (filter (\<lambda>d. yd_yard_id d = ''y1'' \<and> yd_status d \<in> {''live'', ''failed'', ''superseded''})
      (yard_deploys sample_site)) = 2" by code_simp
qed (rule retained_history_bounded [OF sample_store_wide sample_site_def])

text \<open>C14. Whatever a yard command plans for deletion, no file of a deploy that is still retained names:
  pruning the history and deleting a yard never take an object away that another deploy shows.\<close>

theorem cleanup_spares_retained_files:
  assumes "yard_inv db" and "yard_exec command db = (Ok u, db')"
  shows "Some ` di_version_id ` (set (deletion_items (repository db')) - set (deletion_items (repository db)))
    \<inter> yf_version_id ` set (yard_deploy_files db') = {}"
  using yard_exec_repository(1) [OF assms] by (auto simp: repository_step_def spared_def)

definition sample_rooted :: yard_database where
  "sample_rooted = run_commands yard_exec [sample_start ''d1'' 61, sample_finalise ''d1'' 62 ''v2'']
     (empty_site (sample_store\<lparr>object_versions :=
        map (\<lambda>v. v\<lparr>ov_object_path := ''.blobyard-yard/y1/client-deploy-d1/index.html''\<rparr>) (object_versions sample_store)\<rparr>))"

lemma sample_rooted_inv: "yard_inv sample_rooted"
proof -
  have "yard_inv (empty_site m)" for m
    by (simp add: yard_inv_def yard_core_def yards_ok_def deploys_ok_def files_ok_def empty_site_def)
  then show ?thesis unfolding sample_rooted_def by (rule yards.inv_run)
qed

definition sample_delete :: yard_command where
  "sample_delete = DeleteWebYard ''y1'' 70 (sample_yard_event ''v5'' ''yard.deleted'' ''web_yard'' 70 [(''yardId'', AvString ''y1'')])"

theorem cleanup_spares_retained_files_witness:
  "map di_version_id (deletion_items (repository (snd (yard_exec sample_delete sample_rooted)))) = [''u1'']
   \<and> Some ` di_version_id ` (set (deletion_items (repository (snd (yard_exec sample_delete sample_rooted))))
         - set (deletion_items (repository sample_rooted)))
       \<inter> yf_version_id ` set (yard_deploy_files (snd (yard_exec sample_delete sample_rooted))) = {}"
proof -
  have "is_ok (fst (yard_exec sample_delete sample_rooted))
      \<and> map di_version_id (deletion_items (repository (snd (yard_exec sample_delete sample_rooted)))) = [''u1'']" by code_simp
  then obtain u where "fst (yard_exec sample_delete sample_rooted) = Ok u"
    and u1: "map di_version_id (deletion_items (repository (snd (yard_exec sample_delete sample_rooted)))) = [''u1'']"
    by (auto simp: is_ok_iff)
  then have run: "yard_exec sample_delete sample_rooted = (Ok u, snd (yard_exec sample_delete sample_rooted))" by (metis prod.collapse)
  from cleanup_spares_retained_files [OF sample_rooted_inv run] u1 show ?thesis by blast
qed

text \<open>C15. Once a yard is deleted no host label serves any of its deploys again, whatever commands of the
  site follow.\<close>

theorem yard_deletion_final:
  assumes "site_inv db" and "delete_web_yard db yard_id now event = (Ok b, db')"
  shows "\<not> (\<exists>x. serving_deploy (run_commands site_exec cs db') host_label = Ok x \<and> ydr_yard_id x = yard_id)"
proof -
  have inv: "yard_inv db" by (rule site_invD [OF assms(1)])
  have run: "site_exec (Yard (DeleteWebYard yard_id now event)) db = (Ok (), db')"
    using assms(2) by (simp add: outcome_of_def)
  have inv': "site_inv db'" by (rule site.inv_step [OF assms(1) run])
  have "yard_deleted (run_commands site_exec cs db') yard_id"
    by (rule site_run_deleted [OF inv' delete_marks [OF inv assms(2)]])
  then show ?thesis using deleted_not_served [OF site_invD(1) [OF site.inv_run [OF inv']]] by blast
qed

theorem yard_deletion_final_witness:
  "\<exists>b db'. serving_deploy sample_site ''docs-1'' = deploy (sample_deploy_row ''d2'' ''live'' 63)
    \<and> delete_web_yard sample_site ''y1'' 70
        (sample_yard_event ''v5'' ''yard.deleted'' ''web_yard'' 70 [(''yardId'', AvString ''y1'')]) = (Ok b, db')
    \<and> \<not> (\<exists>x. serving_deploy (run_commands site_exec [Yard (sample_start ''d3'' 71)] db') ''docs-1'' = Ok x \<and> ydr_yard_id x = ''y1'')"
proof -
  let ?run = "delete_web_yard sample_site ''y1'' 70
        (sample_yard_event ''v5'' ''yard.deleted'' ''web_yard'' 70 [(''yardId'', AvString ''y1'')])"
  have "is_ok (fst ?run)" by code_simp
  then obtain b where "fst ?run = Ok b" by (auto simp: is_ok_iff)
  then have run: "?run = (Ok b, snd ?run)" by (metis prod.collapse)
  have inv: "site_inv sample_site" using sample_site_ok by (simp add: site_ok_def)
  have "serving_deploy sample_site ''docs-1'' = deploy (sample_deploy_row ''d2'' ''live'' 63)" by code_simp
  with yard_deletion_final [OF inv run] run show ?thesis by blast
qed

end
