(* ===== verification/Yard_Admission.thy ===== *)
theory Yard_Admission
  imports Yards Access_State Application_Policy
begin

text \<open>
  Who may open a Web Yard: \<^verbatim>\<open>yard_session_admission.rs\<close>, \<^verbatim>\<open>yard_guest_admission.rs\<close>,
  \<^verbatim>\<open>yard_session_store.rs\<close>, \<^verbatim>\<open>yard_sessions.rs\<close>, \<^verbatim>\<open>yard_session_rows.rs\<close>,
  \<^verbatim>\<open>yard_session_validation.rs\<close>, the visibility policy of \<^verbatim>\<open>yard_access.rs\<close> and the authorised
  delivery of \<^verbatim>\<open>yard_queries.rs\<close>. A subject, a member or a guest, is admitted to the production
  environment of a yard by its visibility and the grants; an admitted subject gets a single-use
  exchange code, the code a session bound to one host, and every private delivery evaluates the
  admission again. The tables of users, groups,
  grants and invitations are declared and read here; the theories above this one write them.
\<close>

section \<open>Contract types\<close>

datatype YardVisibility = YvPublic | YvOwner | YvSelected | YvWorkspace | YvAuthenticatedLink | YvAnyAuthenticated

fun yard_visibility_as_str :: "YardVisibility \<Rightarrow> string" where
  "yard_visibility_as_str YvPublic = ''public''"
| "yard_visibility_as_str YvOwner = ''owner''"
| "yard_visibility_as_str YvSelected = ''selected''"
| "yard_visibility_as_str YvWorkspace = ''workspace''"
| "yard_visibility_as_str YvAuthenticatedLink = ''authenticated-link''"
| "yard_visibility_as_str YvAnyAuthenticated = ''any-authenticated''"

definition yard_visibility_parse :: "string \<Rightarrow> YardVisibility option" where
  "yard_visibility_parse value =
     (if value = ''public'' then Some YvPublic
      else if value = ''owner'' then Some YvOwner
      else if value = ''selected'' then Some YvSelected
      else if value = ''workspace'' then Some YvWorkspace
      else if value = ''authenticated-link'' then Some YvAuthenticatedLink
      else if value = ''any-authenticated'' then Some YvAnyAuthenticated else None)"

interpretation yard_visibility: string_codec yard_visibility_as_str yard_visibility_parse
proof unfold_locales
  show "yard_visibility_parse (yard_visibility_as_str x) = Some x" for x
    by (cases x) (simp_all add: yard_visibility_parse_def)
qed (auto simp: yard_visibility_parse_def split: if_split_asm)

definition YARD_EXCHANGE_CODE_LIFETIME_MS :: nat where "YARD_EXCHANGE_CODE_LIFETIME_MS = 60000"
definition YARD_SESSION_LIFETIME_MS :: nat where "YARD_SESSION_LIFETIME_MS = 43200000"

record YardAccessPolicyRecord =
  yap_yard_id :: string
  yap_visibility :: YardVisibility
  yap_updated_at_ms :: nat
  yap_updated_by_principal :: string

record YardAdmission =
  yad_yard_id :: string
  yad_environment_id :: string
  yad_workspace_id :: string

record NewYardContinuation =
  nyc_id :: string
  nyc_continuation_hash :: string
  nyc_code_hash :: string
  nyc_yard_id :: string
  nyc_environment_id :: string
  nyc_host_label :: string
  nyc_user_id :: string
  nyc_return_path :: string
  nyc_created_at_ms :: nat
  nyc_expires_at_ms :: nat

record YardContinuationRecord =
  ycr_continuation :: NewYardContinuation
  ycr_consumed_at_ms :: "nat option"

record NewYardSession =
  nys_id :: string
  nys_token_hash :: string
  nys_created_at_ms :: nat
  nys_expires_at_ms :: nat

record YardSessionAuditContext =
  yac_id :: string
  yac_request_id :: string

record YardSessionRecord =
  ysn_id :: string
  ysn_token_hash :: string
  ysn_yard_id :: string
  ysn_environment_id :: string
  ysn_host_label :: string
  ysn_user_id :: string
  ysn_created_at_ms :: nat
  ysn_expires_at_ms :: nat
  ysn_last_used_at_ms :: "nat option"
  ysn_revoked_at_ms :: "nat option"

datatype YardSessionStatus = YsActive | YsExpired | YsRevoked

definition session_status_at :: "YardSessionRecord \<Rightarrow> nat \<Rightarrow> YardSessionStatus" where
  "session_status_at s now_ms =
     (if ysn_revoked_at_ms s \<noteq> None then YsRevoked
      else if ysn_expires_at_ms s \<le> now_ms then YsExpired else YsActive)"

record YardSessionListing =
  ysl_session :: YardSessionRecord
  ysl_user_display_name :: string

record YardSessionExchange =
  yse_session :: YardSessionRecord
  yse_return_path :: string

section \<open>Tables\<close>

text \<open>A column of JSON text, the application roles of a grant and the two graphs of an approved
  policy, is the value it encodes: every writer stores the canonical text of the value, and the
  decoders compare it with that text.\<close>

record access_policy_row =
  ap_yard_id :: string
  ap_visibility :: string
  ap_updated_at_ms :: int
  ap_updated_by_principal :: string

record access_grant_row =
  ag_id :: string
  ag_yard_id :: string
  ag_environment_id :: "string option"
  ag_principal_kind :: string
  ag_principal_id :: string
  ag_app_roles :: "string list"
  ag_status :: string
  ag_created_at_ms :: int
  ag_created_by_principal :: string
  ag_expires_at_ms :: "int option"
  ag_revoked_at_ms :: "int option"

record local_user_row =
  lu_id :: string
  lu_workspace_id :: string
  lu_display_name :: string
  lu_email :: "string option"
  lu_status :: string
  lu_created_at_ms :: int
  lu_deactivated_at_ms :: "int option"

record workspace_group_row =
  wg_id :: string
  wg_workspace_id :: string
  wg_name :: string
  wg_status :: string
  wg_member_count :: int
  wg_created_at_ms :: int
  wg_deactivated_at_ms :: "int option"

record group_member_row =
  gm_group_id :: string
  gm_workspace_id :: string
  gm_user_id :: string
  gm_added_at_ms :: int

record login_key_row =
  lk_id :: string
  lk_user_id :: string
  lk_token_prefix :: string
  lk_secret_hash :: string
  lk_created_at_ms :: int
  lk_expires_at_ms :: int
  lk_last_used_at_ms :: "int option"
  lk_revoked_at_ms :: "int option"

record management_role_row =
  mr_yard_id :: string
  mr_user_id :: string
  mr_workspace_id :: string
  mr_role :: string
  mr_created_at_ms :: int
  mr_updated_at_ms :: int

record application_policy_row =
  py_yard_id :: string
  py_workspace_id :: string
  py_revision :: int
  py_source_manifest_digest :: string
  py_policy_json :: string
  py_effective_json :: string
  py_approved_at_ms :: int
  py_approved_by_principal :: string

record yard_subject_row =
  su_id :: string
  su_kind :: string
  su_workspace_id :: string
  su_local_user_id :: "string option"
  su_invitation_id :: "string option"
  su_created_at_ms :: int
  su_revoked_at_ms :: "int option"

record guest_invitation_row =
  gi_id :: string
  gi_workspace_id :: string
  gi_project_id :: string
  gi_yard_id :: string
  gi_environment_id :: "string option"
  gi_email :: string
  gi_token_hash :: "string option"
  gi_status :: string
  gi_accepted_subject_id :: "string option"
  gi_grant_id :: string
  gi_created_at_ms :: int
  gi_expires_at_ms :: int
  gi_accepted_at_ms :: "int option"
  gi_revoked_at_ms :: "int option"

record guest_key_row =
  gk_id :: string
  gk_subject_id :: string
  gk_invitation_id :: string
  gk_workspace_id :: string
  gk_token_prefix :: string
  gk_secret_hash :: string
  gk_created_at_ms :: int
  gk_expires_at_ms :: int
  gk_last_used_at_ms :: "int option"
  gk_revoked_at_ms :: "int option"

record continuation_row =
  yc_id :: string
  yc_continuation_hash :: string
  yc_code_hash :: string
  yc_yard_id :: string
  yc_environment_id :: string
  yc_host_label :: string
  yc_subject_id :: string
  yc_return_path :: string
  yc_created_at_ms :: int
  yc_expires_at_ms :: int
  yc_consumed_at_ms :: "int option"

record yard_session_row =
  yn_id :: string
  yn_token_hash :: string
  yn_yard_id :: string
  yn_environment_id :: string
  yn_host_label :: string
  yn_subject_id :: string
  yn_created_at_ms :: int
  yn_expires_at_ms :: int
  yn_last_used_at_ms :: "int option"
  yn_revoked_at_ms :: "int option"

record admission_database =
  yards :: yard_database
  access_policies :: "access_policy_row list"
  access_grants :: "access_grant_row list"
  local_users :: "local_user_row list"
  login_keys :: "login_key_row list"
  workspace_groups :: "workspace_group_row list"
  group_members :: "group_member_row list"
  management_roles :: "management_role_row list"
  application_policies :: "application_policy_row list"
  yard_subjects :: "yard_subject_row list"
  guest_invitations :: "guest_invitation_row list"
  guest_keys :: "guest_key_row list"
  yard_continuations :: "continuation_row list"
  yard_sessions :: "yard_session_row list"

type_synonym 'a admission_outcome = "(RepositoryError + 'a) \<times> admission_database"

definition access_policy_check :: "access_policy_row \<Rightarrow> bool" where
  "access_policy_check r \<longleftrightarrow>
     ap_visibility r \<in> {''public'', ''owner'', ''selected'', ''workspace'', ''authenticated-link'', ''any-authenticated''}
     \<and> ap_updated_at_ms r \<ge> 0"

definition at_or_after :: "int \<Rightarrow> int option \<Rightarrow> bool" where
  "at_or_after bound v \<longleftrightarrow> (case v of None \<Rightarrow> True | Some t \<Rightarrow> t \<ge> bound)"

definition continuation_check :: "continuation_row \<Rightarrow> bool" where
  "continuation_check r \<longleftrightarrow>
     yc_created_at_ms r \<ge> 0 \<and> yc_expires_at_ms r > yc_created_at_ms r
     \<and> at_or_after (yc_created_at_ms r) (yc_consumed_at_ms r)"

definition continuation_allowed :: "admission_database \<Rightarrow> continuation_row \<Rightarrow> bool" where
  "continuation_allowed db row \<longleftrightarrow>
     continuation_check row
     \<and> \<not> list_ex (\<lambda>r. yc_id r = yc_id row \<or> yc_continuation_hash r = yc_continuation_hash row
          \<or> yc_code_hash r = yc_code_hash row) (yard_continuations db)
     \<and> list_ex (\<lambda>y. wy_id y = yc_yard_id row) (web_yards (yards db))
     \<and> list_ex (\<lambda>e. ye_id e = yc_environment_id row \<and> ye_yard_id e = yc_yard_id row) (yard_environments (yards db))
     \<and> list_ex (\<lambda>s. su_id s = yc_subject_id row) (yard_subjects db)"

definition yard_session_check :: "yard_session_row \<Rightarrow> bool" where
  "yard_session_check r \<longleftrightarrow>
     yn_created_at_ms r \<ge> 0 \<and> yn_expires_at_ms r > yn_created_at_ms r
     \<and> at_or_after (yn_created_at_ms r) (yn_last_used_at_ms r) \<and> at_or_after (yn_created_at_ms r) (yn_revoked_at_ms r)"

definition yard_session_allowed :: "admission_database \<Rightarrow> yard_session_row \<Rightarrow> bool" where
  "yard_session_allowed db row \<longleftrightarrow>
     yard_session_check row
     \<and> \<not> list_ex (\<lambda>r. yn_id r = yn_id row \<or> yn_token_hash r = yn_token_hash row) (yard_sessions db)
     \<and> list_ex (\<lambda>y. wy_id y = yn_yard_id row) (web_yards (yards db))
     \<and> list_ex (\<lambda>e. ye_id e = yn_environment_id row \<and> ye_yard_id e = yn_yard_id row) (yard_environments (yards db))
     \<and> list_ex (\<lambda>s. su_id s = yn_subject_id row) (yard_subjects db)"

definition admission_audit :: "admission_database \<Rightarrow> NewAuditEvent \<Rightarrow> RepositoryError + admission_database" where
  "admission_audit db event = and_then (yard_audit (yards db) event) (\<lambda>m. Ok (db\<lparr>yards := m\<rparr>))"

section \<open>Admission\<close>

definition yard_validate_host_label :: "string \<Rightarrow> RepositoryError + unit" where
  "yard_validate_host_label value =
     and_then (validate_text value) (\<lambda>_.
       if CHR ''-'' \<in> set value \<and> is_valid_dns_label value then Ok () else Err InvalidInput)"

definition validate_return_path :: "string \<Rightarrow> RepositoryError + unit" where
  "validate_return_path value =
     (if starts_with ''/'' value \<and> \<not> starts_with ''//'' value \<and> \<not> starts_with [CHR ''/'', CHR 0x5C] value
         \<and> length value \<le> 2048 \<and> \<not> has_control value
         \<and> \<not> (case strip_prefix ''/'' value of None \<Rightarrow> False
              | Some path \<Rightarrow> path = ''.blobyard'' \<or> starts_with ''.blobyard/'' path)
      then Ok () else Err InvalidInput)"

text \<open>The host label of a yard, or of one of its retained deploys.\<close>

definition serves_host :: "yard_database \<Rightarrow> string \<Rightarrow> web_yard_row \<Rightarrow> bool" where
  "serves_host db host y \<longleftrightarrow>
     wy_host_label y = host
     \<or> list_ex (\<lambda>d. yd_yard_id d = wy_id y \<and> yd_deployment_host_label d = host
          \<and> yd_status d \<in> {''live'', ''superseded''}) (yard_deploys db)"

definition grant_applies :: "access_grant_row \<Rightarrow> string \<Rightarrow> string \<Rightarrow> web_yard_row \<Rightarrow> yard_environment_row \<Rightarrow> int \<Rightarrow> bool" where
  "grant_applies g kind principal_id y e now_ms \<longleftrightarrow>
     ag_yard_id g = wy_id y \<and> ag_principal_kind g = kind \<and> ag_principal_id g = principal_id
     \<and> ag_status g = ''active'' \<and> ag_revoked_at_ms g = None
     \<and> (case ag_expires_at_ms g of None \<Rightarrow> True | Some t \<Rightarrow> t > now_ms)
     \<and> (case ag_environment_id g of None \<Rightarrow> True | Some i \<Rightarrow> i = ye_id e)"

text \<open>\<^verbatim>\<open>SELECT COUNT(*) FROM (SELECT 1 .. LIMIT n)\<close>\<close>

definition count_up_to :: "nat \<Rightarrow> ('r \<Rightarrow> bool) \<Rightarrow> 'r list \<Rightarrow> int" where
  "count_up_to n selected rows = int (length (take n (filter selected rows)))"

definition group_members_of :: "admission_database \<Rightarrow> workspace_group_row \<Rightarrow> group_member_row list" where
  "group_members_of db g =
     filter (\<lambda>m. gm_group_id m = wg_id g \<and> gm_workspace_id m = wg_workspace_id g) (group_members db)"

definition member_usable :: "admission_database \<Rightarrow> group_member_row \<Rightarrow> bool" where
  "member_usable db m \<longleftrightarrow>
     gm_added_at_ms m \<ge> 0
     \<and> list_ex (\<lambda>u. lu_id u = gm_user_id m \<and> lu_workspace_id u = gm_workspace_id m \<and> lu_status u = ''active''
          \<and> lu_deactivated_at_ms u = None) (local_users db)"

definition group_usable :: "admission_database \<Rightarrow> workspace_group_row \<Rightarrow> bool" where
  "group_usable db g \<longleftrightarrow>
     wg_status g = ''active'' \<and> wg_deactivated_at_ms g = None \<and> wg_created_at_ms g \<ge> 0
     \<and> 0 \<le> wg_member_count g \<and> wg_member_count g \<le> 500
     \<and> wg_member_count g = int (length (take 501 (group_members_of db g)))
     \<and> list_all (member_usable db) (take 501 (group_members_of db g))"

definition group_grant_admits ::
  "admission_database \<Rightarrow> web_yard_row \<Rightarrow> yard_environment_row \<Rightarrow> workspace_group_row \<Rightarrow> int \<Rightarrow> bool" where
  "group_grant_admits db y e g now_ms \<longleftrightarrow>
     list_ex (\<lambda>a. grant_applies a ''group'' (wg_id g) y e now_ms) (access_grants db)
     \<and> count_up_to 501 (\<lambda>a. ag_principal_kind a = ''group'' \<and> ag_principal_id a = wg_id g \<and> ag_status a = ''active'')
         (access_grants db) \<le> 500"

definition selected_grant_admits ::
  "admission_database \<Rightarrow> web_yard_row \<Rightarrow> yard_environment_row \<Rightarrow> local_user_row \<Rightarrow> int \<Rightarrow> bool" where
  "selected_grant_admits db y e u now_ms \<longleftrightarrow>
     (list_ex (\<lambda>a. grant_applies a ''user'' (lu_id u) y e now_ms) (access_grants db)
        \<and> lu_workspace_id u = wy_workspace_id y)
     \<or> (lu_workspace_id u = wy_workspace_id y
        \<and> count_up_to 101 (\<lambda>m. gm_user_id m = lu_id u \<and> gm_workspace_id m = wy_workspace_id y) (group_members db) \<le> 100
        \<and> list_ex (\<lambda>m. gm_added_at_ms m \<ge> 0
             \<and> list_ex (\<lambda>g. wg_id g = gm_group_id m \<and> wg_workspace_id g = gm_workspace_id m
                  \<and> group_usable db g \<and> group_grant_admits db y e g now_ms) (workspace_groups db))
           (take 101 (filter (\<lambda>m. gm_user_id m = lu_id u \<and> gm_workspace_id m = wy_workspace_id y) (group_members db))))"

definition visibility_of :: "admission_database \<Rightarrow> string \<Rightarrow> string option" where
  "visibility_of db yard_id = map_option ap_visibility (find (\<lambda>p. ap_yard_id p = yard_id) (access_policies db))"

definition member_admitted ::
  "admission_database \<Rightarrow> string \<Rightarrow> string \<Rightarrow> int \<Rightarrow> web_yard_row \<Rightarrow> yard_environment_row \<Rightarrow> bool" where
  "member_admitted db host subject_id now_ms y e \<longleftrightarrow>
     ye_yard_id e = wy_id y \<and> ye_kind e = ''production'' \<and> ye_status e = ''active''
     \<and> wy_status y = ''active'' \<and> serves_host (yards db) host y
     \<and> list_ex (\<lambda>u. lu_id u = subject_id \<and> lu_status u = ''active'' \<and> lu_deactivated_at_ms u = None
          \<and> list_ex (\<lambda>s. su_id s = lu_id u \<and> su_kind s = ''member'' \<and> su_local_user_id s = Some (lu_id u)
               \<and> su_invitation_id s = None \<and> su_workspace_id s = lu_workspace_id u \<and> su_revoked_at_ms s = None)
             (yard_subjects db)
          \<and> (case visibility_of db (wy_id y) of
               None \<Rightarrow> True
             | Some v \<Rightarrow> v = ''public'' \<or> v = ''any-authenticated''
                 \<or> (v = ''workspace'' \<and> lu_workspace_id u = wy_workspace_id y)
                 \<or> (v \<in> {''selected'', ''authenticated-link''} \<and> selected_grant_admits db y e u now_ms)))
        (local_users db)"

definition guest_admitted ::
  "admission_database \<Rightarrow> string \<Rightarrow> string \<Rightarrow> int \<Rightarrow> web_yard_row \<Rightarrow> yard_environment_row \<Rightarrow> bool" where
  "guest_admitted db host subject_id now_ms y e \<longleftrightarrow>
     ye_yard_id e = wy_id y \<and> ye_kind e = ''production'' \<and> ye_status e = ''active''
     \<and> wy_status y = ''active'' \<and> serves_host (yards db) host y
     \<and> (case visibility_of db (wy_id y) of None \<Rightarrow> False | Some v \<Rightarrow> v \<in> {''selected'', ''authenticated-link''})
     \<and> list_ex (\<lambda>s. su_id s = subject_id \<and> su_kind s = ''guest'' \<and> su_local_user_id s = None \<and> su_revoked_at_ms s = None
          \<and> list_ex (\<lambda>i. Some (gi_id i) = su_invitation_id s \<and> gi_workspace_id i = su_workspace_id s
               \<and> gi_accepted_subject_id i = Some (su_id s)
               \<and> wy_id y = gi_yard_id i \<and> wy_project_id y = gi_project_id i \<and> wy_workspace_id y = gi_workspace_id i
               \<and> gi_status i = ''accepted'' \<and> gi_revoked_at_ms i = None \<and> gi_expires_at_ms i > now_ms
               \<and> (case gi_environment_id i of None \<Rightarrow> True | Some k \<Rightarrow> k = ye_id e)
               \<and> list_ex (\<lambda>g. ag_id g = gi_grant_id i \<and> ag_yard_id g = gi_yard_id i
                    \<and> ag_principal_kind g = ''guest-invite'' \<and> ag_principal_id g = gi_id i
                    \<and> ag_status g = ''active'' \<and> ag_revoked_at_ms g = None
                    \<and> ag_expires_at_ms g = Some (gi_expires_at_ms i) \<and> ag_environment_id g = gi_environment_id i)
                  (access_grants db)
               \<and> list_ex (\<lambda>k. gk_subject_id k = su_id s \<and> gk_invitation_id k = gi_id i
                    \<and> gk_workspace_id k = su_workspace_id s \<and> gk_revoked_at_ms k = None \<and> gk_expires_at_ms k > now_ms)
                  (guest_keys db)) (guest_invitations db)) (yard_subjects db)"

text \<open>\<^verbatim>\<open>LIMIT 1\<close> without an order: when two yards answer the same host label the model takes the first.\<close>

definition admitting ::
  "(web_yard_row \<Rightarrow> yard_environment_row \<Rightarrow> bool) \<Rightarrow> admission_database \<Rightarrow> RepositoryError + YardAdmission" where
  "admitting admitted db =
     query_row (\<lambda>(y, e). admitted y e)
       (\<lambda>(y, e). Ok \<lparr>yad_yard_id = wy_id y, yad_environment_id = ye_id e, yad_workspace_id = wy_workspace_id y\<rparr>)
       (List.product (web_yards (yards db)) (yard_environments (yards db)))"

definition subject_kind :: "admission_database \<Rightarrow> string \<Rightarrow> RepositoryError + string" where
  "subject_kind db subject_id =
     query_row (\<lambda>s. su_id s = subject_id \<and> su_revoked_at_ms s = None) (\<lambda>s. Ok (su_kind s)) (yard_subjects db)"

definition evaluate :: "admission_database \<Rightarrow> string \<Rightarrow> string \<Rightarrow> int \<Rightarrow> RepositoryError + YardAdmission" where
  "evaluate db host subject_id now_ms =
     and_then (yard_validate_host_label host) (\<lambda>_.
     and_then (validate_text subject_id) (\<lambda>_.
     and_then (subject_kind db subject_id) (\<lambda>kind.
       if kind = ''guest'' then admitting (guest_admitted db host subject_id now_ms) db
       else if kind \<noteq> ''member'' then Err NotFound
       else admitting (member_admitted db host subject_id now_ms) db)))"

definition evaluate_yard_admission :: "admission_database \<Rightarrow> string \<Rightarrow> string \<Rightarrow> nat \<Rightarrow> RepositoryError + YardAdmission" where
  "evaluate_yard_admission db host user_id now_ms =
     and_then (to_i64 now_ms) (\<lambda>now. evaluate db host user_id now)"

section \<open>Sessions\<close>

definition session_id ::
  "admission_database \<Rightarrow> string \<Rightarrow> string \<Rightarrow> string \<Rightarrow> int \<Rightarrow> RepositoryError + string option" where
  "session_id db token_hash host yard_id now_ms =
     (case find (\<lambda>s. yn_token_hash s = token_hash \<and> yn_host_label s = host \<and> yn_yard_id s = yard_id
         \<and> yn_revoked_at_ms s = None \<and> yn_expires_at_ms s > now_ms) (yard_sessions db) of
        None \<Rightarrow> Ok None
      | Some s \<Rightarrow>
          and_then (evaluate db host (yn_subject_id s) now_ms) (\<lambda>admission.
            Ok (if yad_yard_id admission = yard_id \<and> yad_environment_id admission = yn_environment_id s
                then Some (yn_id s) else None)))"

definition continuation :: "continuation_row \<Rightarrow> RepositoryError + YardContinuationRecord" where
  "continuation r =
     and_then (required_u64 (yc_created_at_ms r)) (\<lambda>created_at_ms.
     and_then (required_u64 (yc_expires_at_ms r)) (\<lambda>expires_at_ms.
     and_then (optional_u64 (yc_consumed_at_ms r)) (\<lambda>consumed_at_ms.
       Ok \<lparr>ycr_continuation = \<lparr>nyc_id = yc_id r, nyc_continuation_hash = yc_continuation_hash r,
             nyc_code_hash = yc_code_hash r, nyc_yard_id = yc_yard_id r, nyc_environment_id = yc_environment_id r,
             nyc_host_label = yc_host_label r, nyc_user_id = yc_subject_id r, nyc_return_path = yc_return_path r,
             nyc_created_at_ms = created_at_ms, nyc_expires_at_ms = expires_at_ms\<rparr>,
           ycr_consumed_at_ms = consumed_at_ms\<rparr>)))"

definition yard_session :: "yard_session_row \<Rightarrow> RepositoryError + YardSessionRecord" where
  "yard_session r =
     and_then (required_u64 (yn_created_at_ms r)) (\<lambda>created_at_ms.
     and_then (required_u64 (yn_expires_at_ms r)) (\<lambda>expires_at_ms.
     and_then (optional_u64 (yn_last_used_at_ms r)) (\<lambda>last_used_at_ms.
     and_then (optional_u64 (yn_revoked_at_ms r)) (\<lambda>revoked_at_ms.
       Ok \<lparr>ysn_id = yn_id r, ysn_token_hash = yn_token_hash r, ysn_yard_id = yn_yard_id r,
           ysn_environment_id = yn_environment_id r, ysn_host_label = yn_host_label r, ysn_user_id = yn_subject_id r,
           ysn_created_at_ms = created_at_ms, ysn_expires_at_ms = expires_at_ms,
           ysn_last_used_at_ms = last_used_at_ms, ysn_revoked_at_ms = revoked_at_ms\<rparr>))))"

definition validate_continuation :: "NewYardContinuation \<Rightarrow> RepositoryError + unit" where
  "validate_continuation c =
     and_then (try_each validate_text [nyc_id c, nyc_yard_id c, nyc_environment_id c, nyc_user_id c]) (\<lambda>_.
     and_then (validate_hash (nyc_continuation_hash c)) (\<lambda>_.
     and_then (validate_hash (nyc_code_hash c)) (\<lambda>_.
     and_then (yard_validate_host_label (nyc_host_label c)) (\<lambda>_.
     and_then (validate_return_path (nyc_return_path c)) (\<lambda>_.
       if nyc_created_at_ms c + YARD_EXCHANGE_CODE_LIFETIME_MS \<le> u64_max
          \<and> nyc_expires_at_ms c = nyc_created_at_ms c + YARD_EXCHANGE_CODE_LIFETIME_MS
       then Ok () else Err InvalidInput)))))"

definition validate_yard_session :: "NewYardSession \<Rightarrow> YardSessionAuditContext \<Rightarrow> nat \<Rightarrow> RepositoryError + unit" where
  "validate_yard_session s audit now_ms =
     and_then (try_each validate_text [nys_id s, yac_id audit, yac_request_id audit]) (\<lambda>_.
     and_then (validate_hash (nys_token_hash s)) (\<lambda>_.
       if nys_created_at_ms s = now_ms
          \<and> nys_created_at_ms s + YARD_SESSION_LIFETIME_MS \<le> u64_max
          \<and> nys_expires_at_ms s = nys_created_at_ms s + YARD_SESSION_LIFETIME_MS
       then Ok () else Err InvalidInput))"

definition session_record :: "NewYardSession \<Rightarrow> YardContinuationRecord \<Rightarrow> YardSessionRecord" where
  "session_record s c =
     \<lparr>ysn_id = nys_id s, ysn_token_hash = nys_token_hash s, ysn_yard_id = nyc_yard_id (ycr_continuation c),
      ysn_environment_id = nyc_environment_id (ycr_continuation c), ysn_host_label = nyc_host_label (ycr_continuation c),
      ysn_user_id = nyc_user_id (ycr_continuation c), ysn_created_at_ms = nys_created_at_ms s,
      ysn_expires_at_ms = nys_expires_at_ms s, ysn_last_used_at_ms = None, ysn_revoked_at_ms = None\<rparr>"

definition require_admission :: "YardAdmission \<Rightarrow> string \<Rightarrow> string \<Rightarrow> RepositoryError + unit" where
  "require_admission admission yard_id environment_id =
     (if yad_yard_id admission = yard_id \<and> yad_environment_id admission = environment_id then Ok () else Err NotFound)"

definition issue_in :: "NewYardContinuation \<Rightarrow> admission_database \<Rightarrow> RepositoryError + (unit \<times> admission_database)" where
  "issue_in c db =
     and_then (validate_continuation c) (\<lambda>_.
     and_then (sql_time (nyc_created_at_ms c)) (\<lambda>now.
     and_then (evaluate db (nyc_host_label c) (nyc_user_id c) now) (\<lambda>admission.
     and_then (require_admission admission (nyc_yard_id c) (nyc_environment_id c)) (\<lambda>_.
     and_then (sql_time (nyc_expires_at_ms c)) (\<lambda>expires.
       let row = \<lparr>yc_id = nyc_id c, yc_continuation_hash = nyc_continuation_hash c, yc_code_hash = nyc_code_hash c,
                  yc_yard_id = nyc_yard_id c, yc_environment_id = nyc_environment_id c,
                  yc_host_label = nyc_host_label c, yc_subject_id = nyc_user_id c, yc_return_path = nyc_return_path c,
                  yc_created_at_ms = now, yc_expires_at_ms = expires, yc_consumed_at_ms = None\<rparr>
       in and_then (insert_row (continuation_allowed db row) row (yard_continuations db)) (\<lambda>rows.
            Ok ((), db\<lparr>yard_continuations := rows\<rparr>)))))))"

definition issue_yard_exchange_code :: "admission_database \<Rightarrow> NewYardContinuation \<Rightarrow> unit admission_outcome" where
  "issue_yard_exchange_code db c = write_transaction (issue_in c) db"

text \<open>\<^verbatim>\<open>UPDATE .. RETURNING\<close> on a unique column\<close>

definition consumable :: "string \<Rightarrow> string \<Rightarrow> int \<Rightarrow> continuation_row \<Rightarrow> bool" where
  "consumable code_hash host now r \<longleftrightarrow>
     yc_code_hash r = code_hash \<and> yc_host_label r = host \<and> yc_consumed_at_ms r = None \<and> yc_expires_at_ms r > now"

definition consume_continuation ::
  "admission_database \<Rightarrow> string \<Rightarrow> string \<Rightarrow> int \<Rightarrow> RepositoryError + (YardContinuationRecord \<times> admission_database)" where
  "consume_continuation db code_hash host now =
     and_then (update_rows (consumable code_hash host now) (\<lambda>r. r\<lparr>yc_consumed_at_ms := Some now\<rparr>)
       continuation_check (yard_continuations db)) (\<lambda>(_, rows).
     and_then (query_row (consumable code_hash host now) (\<lambda>r. continuation (r\<lparr>yc_consumed_at_ms := Some now\<rparr>))
       (yard_continuations db)) (\<lambda>c.
       Ok (c, db\<lparr>yard_continuations := rows\<rparr>)))"

definition insert_yard_session :: "admission_database \<Rightarrow> YardSessionRecord \<Rightarrow> int \<Rightarrow> RepositoryError + admission_database" where
  "insert_yard_session db s created_at =
     and_then (sql_time (ysn_expires_at_ms s)) (\<lambda>expires_at.
       if list_ex (\<lambda>u. su_id u = ysn_user_id s \<and> su_revoked_at_ms u = None) (yard_subjects db)
       then let row = \<lparr>yn_id = ysn_id s, yn_token_hash = ysn_token_hash s, yn_yard_id = ysn_yard_id s,
                       yn_environment_id = ysn_environment_id s, yn_host_label = ysn_host_label s,
                       yn_subject_id = ysn_user_id s, yn_created_at_ms = created_at, yn_expires_at_ms = expires_at,
                       yn_last_used_at_ms = None, yn_revoked_at_ms = None\<rparr>
            in and_then (insert_row (yard_session_allowed db row) row (yard_sessions db)) (\<lambda>rows.
                 Ok (db\<lparr>yard_sessions := rows\<rparr>))
       else Err Conflict)"

definition issued_event :: "YardSessionAuditContext \<Rightarrow> YardAdmission \<Rightarrow> YardSessionRecord \<Rightarrow> nat \<Rightarrow> NewAuditEvent" where
  "issued_event audit admission s now_ms =
     \<lparr>nae_id = yac_id audit, nae_workspace_id = yad_workspace_id admission, nae_actor = ysn_user_id s,
      nae_action = ''yard.session_issued'', nae_request_id = yac_request_id audit, nae_target_type = ''yard_session'',
      nae_metadata = [(''sessionId'', AvString (ysn_id s)), (''yardId'', AvString (ysn_yard_id s))],
      nae_created_at_ms = now_ms\<rparr>"

definition exchange_in ::
  "string \<Rightarrow> string \<Rightarrow> NewYardSession \<Rightarrow> YardSessionAuditContext \<Rightarrow> nat \<Rightarrow> admission_database
     \<Rightarrow> RepositoryError + (YardSessionExchange \<times> admission_database)" where
  "exchange_in code_hash host s audit now_ms db =
     and_then (validate_hash code_hash) (\<lambda>_.
     and_then (yard_validate_host_label host) (\<lambda>_.
     and_then (validate_yard_session s audit now_ms) (\<lambda>_.
     and_then (sql_time now_ms) (\<lambda>now.
     and_then (consume_continuation db code_hash host now) (\<lambda>(c, db).
     and_then (evaluate db host (nyc_user_id (ycr_continuation c)) now) (\<lambda>admission.
     and_then (require_admission admission (nyc_yard_id (ycr_continuation c))
       (nyc_environment_id (ycr_continuation c))) (\<lambda>_.
     and_then (insert_yard_session db (session_record s c) now) (\<lambda>db.
     and_then (admission_audit db (issued_event audit admission (session_record s c) now_ms)) (\<lambda>db.
       Ok (\<lparr>yse_session = session_record s c, yse_return_path = nyc_return_path (ycr_continuation c)\<rparr>, db))))))))))"

definition exchange_yard_session_code ::
  "admission_database \<Rightarrow> string \<Rightarrow> string \<Rightarrow> NewYardSession \<Rightarrow> YardSessionAuditContext \<Rightarrow> nat
     \<Rightarrow> YardSessionExchange admission_outcome" where
  "exchange_yard_session_code db code_hash host s audit now_ms =
     write_transaction (exchange_in code_hash host s audit now_ms) db"

text \<open>\<^verbatim>\<open>COALESCE(u.display_name, invitation.email)\<close>; a missing label fails to decode.\<close>

definition session_label :: "admission_database \<Rightarrow> yard_subject_row \<Rightarrow> string option" where
  "session_label db s =
     (case (if su_kind s = ''member'' then find (\<lambda>u. Some (lu_id u) = su_local_user_id s) (local_users db) else None) of
        Some u \<Rightarrow> Some (lu_display_name u)
      | None \<Rightarrow> map_option gi_email
          (if su_kind s = ''guest'' then find (\<lambda>i. Some (gi_id i) = su_invitation_id s) (guest_invitations db) else None))"

definition list_yard_sessions :: "admission_database \<Rightarrow> string \<Rightarrow> RepositoryError + YardSessionListing list" where
  "list_yard_sessions db yard_id =
     and_then (validate_text yard_id) (\<lambda>_.
       collect_results (\<lambda>(r, s).
         and_then (yard_session r) (\<lambda>x.
         and_then (ok_or Unavailable (session_label db s)) (\<lambda>label.
           Ok \<lparr>ysl_session = x, ysl_user_display_name = label\<rparr>)))
        (rev (sort_key (\<lambda>(r, s). (yn_created_at_ms r, yn_id r))
          (filter (\<lambda>(r, s). yn_yard_id r = yard_id \<and> su_id s = yn_subject_id r)
            (List.product (yard_sessions db) (yard_subjects db))))))"

definition revoke_session_in ::
  "string \<Rightarrow> string \<Rightarrow> nat \<Rightarrow> NewAuditEvent \<Rightarrow> admission_database \<Rightarrow> RepositoryError + (bool \<times> admission_database)" where
  "revoke_session_in yard_id uid now_ms event db =
     and_then (query_optional (\<lambda>r. yn_id r = uid) yard_session (yard_sessions db)) (\<lambda>found.
     and_then (ok_or NotFound found) (\<lambda>s.
       if ysn_yard_id s \<noteq> yard_id then Err NotFound
       else if ysn_revoked_at_ms s \<noteq> None then Ok (False, db)
       else
         and_then (yard_by_id (yards db) yard_id) (\<lambda>y.
         and_then (action_event event ''yard.session_revoked'' ''yard_session'' (wyr_workspace_id y) now_ms
           [(''sessionId'', AvString (ysn_id s)), (''yardId'', AvString (wyr_id y))]) (\<lambda>revoked_at.
         and_then (update_rows (\<lambda>r. yn_id r = ysn_id s \<and> yn_revoked_at_ms r = None)
           (\<lambda>r. r\<lparr>yn_revoked_at_ms := Some revoked_at\<rparr>) yard_session_check (yard_sessions db)) (\<lambda>(_, rows).
         and_then (admission_audit (db\<lparr>yard_sessions := rows\<rparr>) event) (\<lambda>db. Ok (True, db)))))))"

definition revoke_yard_session ::
  "admission_database \<Rightarrow> string \<Rightarrow> string \<Rightarrow> nat \<Rightarrow> NewAuditEvent \<Rightarrow> bool admission_outcome" where
  "revoke_yard_session db yard_id uid now_ms event =
     after (and_then (validate_text yard_id) (\<lambda>_. validate_text uid)) db (\<lambda>_.
       write_transaction (revoke_session_in yard_id uid now_ms event) db)"

definition revoke_by_token_in ::
  "string \<Rightarrow> string \<Rightarrow> nat \<Rightarrow> admission_database \<Rightarrow> RepositoryError + (bool \<times> admission_database)" where
  "revoke_by_token_in token_hash host now_ms db =
     and_then (validate_hash token_hash) (\<lambda>_.
     and_then (yard_validate_host_label host) (\<lambda>_.
     and_then (sql_time now_ms) (\<lambda>now.
     and_then (update_rows (\<lambda>r. yn_token_hash r = token_hash \<and> yn_host_label r = host
         \<and> yn_revoked_at_ms r = None \<and> yn_expires_at_ms r > now) (\<lambda>r. r\<lparr>yn_revoked_at_ms := Some now\<rparr>)
       yard_session_check (yard_sessions db)) (\<lambda>(changed, rows).
       Ok (changed = 1, db\<lparr>yard_sessions := rows\<rparr>)))))"

definition revoke_yard_session_by_token ::
  "admission_database \<Rightarrow> string \<Rightarrow> string \<Rightarrow> nat \<Rightarrow> bool admission_outcome" where
  "revoke_yard_session_by_token db token_hash host now_ms =
     write_transaction (revoke_by_token_in token_hash host now_ms) db"

definition CONTINUATION_HISTORY_MS :: int where "CONTINUATION_HISTORY_MS = 86400000"
definition SESSION_HISTORY_MS :: int where "SESSION_HISTORY_MS = 2592000000"

definition purge_in :: "nat \<Rightarrow> admission_database \<Rightarrow> RepositoryError + (unit \<times> admission_database)" where
  "purge_in now_ms db =
     and_then (sql_time now_ms) (\<lambda>now.
       let continuation_before = now - CONTINUATION_HISTORY_MS; session_before = now - SESSION_HISTORY_MS
       in Ok ((), db\<lparr>
            yard_continuations := filter (\<lambda>r. \<not> yc_expires_at_ms r < continuation_before) (yard_continuations db),
            yard_sessions := filter (\<lambda>r. \<not> (yn_expires_at_ms r < session_before
              \<or> (case yn_revoked_at_ms r of None \<Rightarrow> False | Some t \<Rightarrow> t < session_before))) (yard_sessions db)\<rparr>))"

definition purge_yard_session_history :: "admission_database \<Rightarrow> nat \<Rightarrow> unit admission_outcome" where
  "purge_yard_session_history db now_ms = write_transaction (purge_in now_ms) db"

section \<open>Visibility\<close>

definition yard_policy_row :: "access_policy_row \<Rightarrow> RepositoryError + YardAccessPolicyRecord" where
  "yard_policy_row r =
     and_then (ok_or Unavailable (yard_visibility_parse (ap_visibility r))) (\<lambda>visibility.
     and_then (required_u64 (ap_updated_at_ms r)) (\<lambda>updated_at_ms.
       Ok \<lparr>yap_yard_id = ap_yard_id r, yap_visibility = visibility, yap_updated_at_ms = updated_at_ms,
           yap_updated_by_principal = ap_updated_by_principal r\<rparr>))"

definition access_policy :: "admission_database \<Rightarrow> string \<Rightarrow> RepositoryError + YardAccessPolicyRecord option" where
  "access_policy db yard_id = query_optional (\<lambda>r. ap_yard_id r = yard_id) yard_policy_row (access_policies db)"

definition get_yard_access_policy :: "admission_database \<Rightarrow> string \<Rightarrow> RepositoryError + YardAccessPolicyRecord option" where
  "get_yard_access_policy db yard_id = and_then (validate_text yard_id) (\<lambda>_. access_policy db yard_id)"

definition active_yard :: "yard_database \<Rightarrow> string \<Rightarrow> RepositoryError + WebYardRecord" where
  "active_yard db yard_id =
     and_then (yard_by_id db yard_id) (\<lambda>y. if wyr_status y = WyActive then Ok y else Err NotFound)"

text \<open>\<^verbatim>\<open>INSERT .. ON CONFLICT(yard_id) DO UPDATE\<close>\<close>

definition upsert_access_policy :: "access_policy_row \<Rightarrow> access_policy_row list \<Rightarrow> RepositoryError + access_policy_row list" where
  "upsert_access_policy row rows =
     (if \<not> access_policy_check row then Err Conflict
      else if list_ex (\<lambda>r. ap_yard_id r = ap_yard_id row) rows
           then Ok (map (\<lambda>r. if ap_yard_id r = ap_yard_id row then row else r) rows)
           else Ok (rows @ [row]))"

definition set_visibility_in ::
  "string \<Rightarrow> YardVisibility \<Rightarrow> nat \<Rightarrow> NewAuditEvent \<Rightarrow> admission_database
     \<Rightarrow> RepositoryError + (YardAccessPolicyRecord \<times> admission_database)" where
  "set_visibility_in yard_id visibility updated_at_ms event db =
     and_then (active_yard (yards db) yard_id) (\<lambda>y.
     and_then (access_policy db yard_id) (\<lambda>found.
       let previous = (case found of None \<Rightarrow> YvPublic | Some p \<Rightarrow> yap_visibility p)
       in and_then (action_event event ''yard.visibility_changed'' ''yard_access_policy'' (wyr_workspace_id y) updated_at_ms
            [(''from'', AvString (yard_visibility_as_str previous)), (''to'', AvString (yard_visibility_as_str visibility)),
             (''yardId'', AvString (wyr_id y))]) (\<lambda>updated_at.
          and_then (upsert_access_policy \<lparr>ap_yard_id = wyr_id y, ap_visibility = yard_visibility_as_str visibility,
              ap_updated_at_ms = updated_at, ap_updated_by_principal = nae_actor event\<rparr> (access_policies db)) (\<lambda>rows.
          and_then (admission_audit (db\<lparr>access_policies := rows\<rparr>) event) (\<lambda>db.
          and_then (access_policy db yard_id) (\<lambda>p.
          and_then (ok_or Unavailable p) (\<lambda>p. Ok (p, db))))))))"

definition set_yard_visibility ::
  "admission_database \<Rightarrow> string \<Rightarrow> YardVisibility \<Rightarrow> nat \<Rightarrow> NewAuditEvent \<Rightarrow> YardAccessPolicyRecord admission_outcome" where
  "set_yard_visibility db yard_id visibility updated_at_ms event =
     after (validate_text yard_id) db (\<lambda>_.
       write_transaction (set_visibility_in yard_id visibility updated_at_ms event) db)"

section \<open>Authorised delivery\<close>

definition effective_visibility :: "admission_database \<Rightarrow> string \<Rightarrow> string" where
  "effective_visibility db yard_id = (case visibility_of db yard_id of None \<Rightarrow> ''public'' | Some v \<Rightarrow> v)"

definition touch_session :: "admission_database \<Rightarrow> string \<Rightarrow> int \<Rightarrow> RepositoryError + admission_database" where
  "touch_session db uid now_ms =
     and_then (update_rows (\<lambda>r. yn_id r = uid) (\<lambda>r. r\<lparr>yn_last_used_at_ms :=
         (case yn_last_used_at_ms r of None \<Rightarrow> Some now_ms | Some t \<Rightarrow> Some (if t < now_ms then now_ms else t))\<rparr>)
       yard_session_check (yard_sessions db)) (\<lambda>(changed, rows).
     and_then (changed_once changed) (\<lambda>_. Ok (db\<lparr>yard_sessions := rows\<rparr>)))"

definition authorized_file ::
  "string \<Rightarrow> string \<Rightarrow> string option \<Rightarrow> int \<Rightarrow> admission_database
     \<Rightarrow> RepositoryError + (YardFileTarget \<times> admission_database)" where
  "authorized_file host request_path session_token_hash now_ms db =
     and_then (serving_deploy (yards db) host) (\<lambda>d.
     and_then (if effective_visibility db (ydr_yard_id d) = ''public'' then Ok None
         else and_then (ok_or NotFound session_token_hash) (\<lambda>hash.
              and_then (validate_hash hash) (\<lambda>_.
              and_then (session_id db hash host (ydr_yard_id d) now_ms) (\<lambda>found.
              and_then (ok_or NotFound found) (\<lambda>uid. Ok (Some uid)))))) (\<lambda>session.
     and_then (first_file (yards db) (ydr_id d) (resolution_candidates request_path d)) (\<lambda>target.
       case session of
         None \<Rightarrow> Ok (target, db)
       | Some uid \<Rightarrow> and_then (touch_session db uid now_ms) (\<lambda>db. Ok (target, db)))))"

definition yard_file_by_host ::
  "admission_database \<Rightarrow> string \<Rightarrow> string \<Rightarrow> string option \<Rightarrow> nat \<Rightarrow> YardFileTarget admission_outcome" where
  "yard_file_by_host db host request_path session_token_hash now_ms =
     after (and_then (validate_text host) (\<lambda>_.
            if is_valid_yard_request_path request_path then to_i64 now_ms else Err InvalidInput)) db (\<lambda>now.
       write_transaction (authorized_file host request_path session_token_hash now) db)"

end
