(* ===== verification/Local_Users.thy ===== *)
theory Local_Users
  imports Yard_Admission
begin

text \<open>
  Local user accounts and their sign-in keys: \<^verbatim>\<open>local_users.rs\<close>, with the member subjects of
  \<^verbatim>\<open>yard_guest_invites.rs\<close>, the session revocation of \<^verbatim>\<open>yard_session_store.rs\<close> and the membership
  removal of \<^verbatim>\<open>workspace_group_members.rs\<close> that a deactivation performs. The text functions the code
  takes from large tables or other crates are one argument: Unicode lower-casing, the canonical
  composition of \<^verbatim>\<open>unicode_normalization\<close>, and of \<^verbatim>\<open>serde_json\<close> the quoting of a string and the
  derived readers of the two texts of an application policy.
\<close>

section \<open>Text\<close>

record text_library =
  uc_lowercase :: "string \<Rightarrow> string"
  uc_nfc :: "string \<Rightarrow> string"
  uc_quoted :: "string \<Rightarrow> string"
  uc_graph_of_json :: "string \<Rightarrow> ApplicationPolicyGraph option"
  uc_effective_of_json :: "string \<Rightarrow> EffectiveApplicationPolicy option"

text \<open>The byte sequences of the scalar values of a string, and \<^verbatim>\<open>str::trim\<close> on them.\<close>

fun scalars :: "string \<Rightarrow> string list" where
  "scalars [] = []"
| "scalars (a # r) =
     (let n = (if byte a < 128 then 0 else if byte a < 224 then 1 else if byte a < 240 then 2 else 3 :: nat)
      in (a # take n r) # scalars (drop n r))"

definition whitespace_scalar :: "string \<Rightarrow> bool" where
  "whitespace_scalar s \<longleftrightarrow> list_all is_whitespace (chars s)"

definition trim :: "string \<Rightarrow> string" where
  "trim value = concat (rev (dropWhile whitespace_scalar (rev (dropWhile whitespace_scalar (scalars value)))))"

definition normalized_email :: "text_library \<Rightarrow> string \<Rightarrow> bool" where
  "normalized_email uc value \<longleftrightarrow>
     3 \<le> length value \<and> length value \<le> 254
     \<and> trim value = value \<and> uc_lowercase uc value = value
     \<and> \<not> list_ex (\<lambda>c. is_control c \<or> is_whitespace c) (chars value)
     \<and> (case split_once CHR ''@'' value of None \<Rightarrow> False
        | Some (l, d) \<Rightarrow> l \<noteq> [] \<and> d \<noteq> [] \<and> CHR ''@'' \<notin> set d)"

section \<open>Contract types\<close>

datatype LocalUserStatus = LuActive | LuDeactivated

fun local_user_status_as_str :: "LocalUserStatus \<Rightarrow> string" where
  "local_user_status_as_str LuActive = ''active''"
| "local_user_status_as_str LuDeactivated = ''deactivated''"

definition local_user_status_parse :: "string \<Rightarrow> LocalUserStatus option" where
  "local_user_status_parse value =
     (if value = ''active'' then Some LuActive else if value = ''deactivated'' then Some LuDeactivated else None)"

interpretation local_user_status: string_codec local_user_status_as_str local_user_status_parse
proof unfold_locales
  show "local_user_status_parse (local_user_status_as_str x) = Some x" for x
    by (cases x) (simp_all add: local_user_status_parse_def)
qed (auto simp: local_user_status_parse_def split: if_split_asm)

record LocalUserRecord =
  lur_id :: string
  lur_workspace_id :: string
  lur_display_name :: string
  lur_email :: "string option"
  lur_status :: LocalUserStatus
  lur_created_at_ms :: nat
  lur_deactivated_at_ms :: "nat option"

record LocalUserLoginKeyRecord =
  luk_id :: string
  luk_user_id :: string
  luk_token_prefix :: string
  luk_secret_hash :: string
  luk_created_at_ms :: nat
  luk_expires_at_ms :: nat
  luk_last_used_at_ms :: "nat option"
  luk_revoked_at_ms :: "nat option"

record LocalUserListing =
  lul_user :: LocalUserRecord
  lul_active_key_prefix :: "string option"

section \<open>Constraints\<close>

definition local_user_check :: "local_user_row \<Rightarrow> bool" where
  "local_user_check r \<longleftrightarrow>
     lu_status r \<in> {''active'', ''deactivated''} \<and> lu_created_at_ms r \<ge> 0
     \<and> (if lu_status r = ''deactivated''
        then (case lu_deactivated_at_ms r of None \<Rightarrow> False | Some t \<Rightarrow> t \<ge> lu_created_at_ms r)
        else lu_deactivated_at_ms r = None)"

definition workspace_exists :: "admission_database \<Rightarrow> string \<Rightarrow> bool" where
  "workspace_exists db workspace_id \<longleftrightarrow>
     list_ex (\<lambda>w. ws_id w = workspace_id) (workspaces (repository (yards db)))"

definition local_user_allowed :: "admission_database \<Rightarrow> local_user_row \<Rightarrow> bool" where
  "local_user_allowed db row \<longleftrightarrow>
     local_user_check row
     \<and> \<not> list_ex (\<lambda>r. lu_id r = lu_id row) (local_users db)
     \<and> (lu_email row = None \<or> lu_status row = ''deactivated''
        \<or> \<not> list_ex (\<lambda>r. lu_workspace_id r = lu_workspace_id row \<and> lu_email r = lu_email row \<and> lu_status r \<noteq> ''deactivated'')
            (local_users db))
     \<and> workspace_exists db (lu_workspace_id row)"

definition login_key_check :: "login_key_row \<Rightarrow> bool" where
  "login_key_check r \<longleftrightarrow>
     lk_created_at_ms r \<ge> 0 \<and> lk_expires_at_ms r \<ge> 0
     \<and> at_or_after (lk_created_at_ms r) (lk_last_used_at_ms r) \<and> at_or_after (lk_created_at_ms r) (lk_revoked_at_ms r)"

definition login_key_allowed :: "admission_database \<Rightarrow> login_key_row \<Rightarrow> bool" where
  "login_key_allowed db row \<longleftrightarrow>
     login_key_check row
     \<and> \<not> list_ex (\<lambda>r. lk_id r = lk_id row \<or> lk_secret_hash r = lk_secret_hash row) (login_keys db)
     \<and> list_ex (\<lambda>u. lu_id u = lk_user_id row) (local_users db)"

definition lower_hex_text :: "nat \<Rightarrow> string \<Rightarrow> bool" where
  "lower_hex_text n value \<longleftrightarrow> length value = n \<and> list_all is_lower_hex value"

definition yard_subject_check :: "yard_subject_row \<Rightarrow> bool" where
  "yard_subject_check r \<longleftrightarrow>
     su_created_at_ms r \<ge> 0 \<and> at_or_after (su_created_at_ms r) (su_revoked_at_ms r)
     \<and> (su_kind r = ''member'' \<and> su_local_user_id r = Some (su_id r) \<and> su_invitation_id r = None
        \<or> su_kind r = ''guest'' \<and> starts_with ''guest_'' (su_id r) \<and> lower_hex_text 32 (drop 6 (su_id r))
          \<and> su_local_user_id r = None \<and> su_invitation_id r \<noteq> None)"

definition yard_subject_allowed :: "admission_database \<Rightarrow> yard_subject_row \<Rightarrow> bool" where
  "yard_subject_allowed db row \<longleftrightarrow>
     yard_subject_check row
     \<and> \<not> list_ex (\<lambda>r. su_id r = su_id row
          \<or> (su_local_user_id row \<noteq> None \<and> su_local_user_id r = su_local_user_id row)
          \<or> (su_invitation_id row \<noteq> None \<and> su_invitation_id r = su_invitation_id row)) (yard_subjects db)
     \<and> workspace_exists db (su_workspace_id row)
     \<and> (case su_local_user_id row of None \<Rightarrow> True
        | Some i \<Rightarrow> list_ex (\<lambda>u. lu_id u = i \<and> lu_workspace_id u = su_workspace_id row) (local_users db))
     \<and> (case su_invitation_id row of None \<Rightarrow> True
        | Some i \<Rightarrow> list_ex (\<lambda>v. gi_id v = i \<and> gi_workspace_id v = su_workspace_id row) (guest_invitations db))"

section \<open>Validation and rows\<close>

definition validate_new_user :: "text_library \<Rightarrow> LocalUserRecord \<Rightarrow> RepositoryError + unit" where
  "validate_new_user uc u =
     and_then (validate_record (lur_id u) (lur_display_name u)) (\<lambda>_.
     and_then (validate_text (lur_workspace_id u)) (\<lambda>_.
     and_then (case lur_email u of None \<Rightarrow> Ok ()
         | Some email \<Rightarrow> and_then (validate_text email) (\<lambda>_.
             if normalized_email uc email then Ok () else Err InvalidInput)) (\<lambda>_.
       if lur_status u \<noteq> LuActive \<or> lur_deactivated_at_ms u \<noteq> None then Err InvalidInput else Ok ())))"

definition validate_new_key :: "LocalUserLoginKeyRecord \<Rightarrow> RepositoryError + unit" where
  "validate_new_key k =
     and_then (validate_record (luk_id k) (luk_user_id k)) (\<lambda>_.
     and_then (validate_text (luk_token_prefix k)) (\<lambda>_.
     and_then (validate_hash (luk_secret_hash k)) (\<lambda>_.
       if luk_created_at_ms k \<ge> luk_expires_at_ms k \<or> luk_last_used_at_ms k \<noteq> None \<or> luk_revoked_at_ms k \<noteq> None
       then Err InvalidInput else Ok ())))"

definition validate_user_event :: "NewAuditEvent \<Rightarrow> string \<Rightarrow> LocalUserRecord \<Rightarrow> nat \<Rightarrow> RepositoryError + unit" where
  "validate_user_event event action u created_at_ms =
     (if nae_action event \<noteq> action \<or> nae_target_type event \<noteq> ''local_user''
         \<or> nae_workspace_id event \<noteq> lur_workspace_id u \<or> nae_created_at_ms event \<noteq> created_at_ms
         \<or> nae_metadata event \<noteq> [(''userId'', AvString (lur_id u))]
      then Err InvalidInput else Ok ())"

definition local_user :: "local_user_row \<Rightarrow> RepositoryError + LocalUserRecord" where
  "local_user r =
     and_then (ok_or Unavailable (local_user_status_parse (lu_status r))) (\<lambda>status.
     and_then (required_u64 (lu_created_at_ms r)) (\<lambda>created_at_ms.
     and_then (optional_u64 (lu_deactivated_at_ms r)) (\<lambda>deactivated_at_ms.
       Ok \<lparr>lur_id = lu_id r, lur_workspace_id = lu_workspace_id r, lur_display_name = lu_display_name r,
           lur_email = lu_email r, lur_status = status, lur_created_at_ms = created_at_ms,
           lur_deactivated_at_ms = deactivated_at_ms\<rparr>)))"

definition active_user :: "admission_database \<Rightarrow> string \<Rightarrow> RepositoryError + LocalUserRecord" where
  "active_user db user_id =
     and_then (query_optional (\<lambda>u. lu_id u = user_id) local_user (local_users db)) (\<lambda>found.
     and_then (ok_or NotFound found) (\<lambda>u.
       if lur_status u = LuActive then Ok u else Err Conflict))"

definition require_workspace :: "admission_database \<Rightarrow> string \<Rightarrow> RepositoryError + unit" where
  "require_workspace db workspace_id = ensure (workspace_exists db workspace_id) NotFound"

section \<open>Statements\<close>

definition insert_user :: "LocalUserRecord \<Rightarrow> int \<Rightarrow> admission_database \<Rightarrow> RepositoryError + admission_database" where
  "insert_user u created_at_ms db =
     (let row = \<lparr>lu_id = lur_id u, lu_workspace_id = lur_workspace_id u, lu_display_name = lur_display_name u,
                lu_email = lur_email u, lu_status = ''active'', lu_created_at_ms = created_at_ms,
                lu_deactivated_at_ms = None\<rparr>
      in and_then (insert_row (local_user_allowed db row) row (local_users db)) (\<lambda>rows. Ok (db\<lparr>local_users := rows\<rparr>)))"

definition insert_member_subject ::
  "LocalUserRecord \<Rightarrow> int \<Rightarrow> admission_database \<Rightarrow> RepositoryError + admission_database" where
  "insert_member_subject u created_at_ms db =
     (let row = \<lparr>su_id = lur_id u, su_kind = ''member'', su_workspace_id = lur_workspace_id u,
                su_local_user_id = Some (lur_id u), su_invitation_id = None, su_created_at_ms = created_at_ms,
                su_revoked_at_ms = None\<rparr>
      in and_then (insert_row (yard_subject_allowed db row) row (yard_subjects db)) (\<lambda>rows. Ok (db\<lparr>yard_subjects := rows\<rparr>)))"

definition insert_key ::
  "LocalUserLoginKeyRecord \<Rightarrow> int \<Rightarrow> admission_database \<Rightarrow> RepositoryError + admission_database" where
  "insert_key k created_at_ms db =
     and_then (sql_time (luk_expires_at_ms k)) (\<lambda>expires_at_ms.
       let row = \<lparr>lk_id = luk_id k, lk_user_id = luk_user_id k, lk_token_prefix = luk_token_prefix k,
                  lk_secret_hash = luk_secret_hash k, lk_created_at_ms = created_at_ms, lk_expires_at_ms = expires_at_ms,
                  lk_last_used_at_ms = None, lk_revoked_at_ms = None\<rparr>
       in and_then (insert_row (login_key_allowed db row) row (login_keys db)) (\<lambda>rows. Ok (db\<lparr>login_keys := rows\<rparr>)))"

definition revoke_active_keys :: "string \<Rightarrow> int \<Rightarrow> admission_database \<Rightarrow> RepositoryError + admission_database" where
  "revoke_active_keys user_id now db =
     and_then (update_rows (\<lambda>k. lk_user_id k = user_id \<and> lk_revoked_at_ms k = None)
       (\<lambda>k. k\<lparr>lk_revoked_at_ms := Some now\<rparr>) login_key_check (login_keys db)) (\<lambda>(_, rows).
       Ok (db\<lparr>login_keys := rows\<rparr>))"

definition tombstone_user :: "string \<Rightarrow> int \<Rightarrow> admission_database \<Rightarrow> RepositoryError + admission_database" where
  "tombstone_user user_id now db =
     and_then (update_rows (\<lambda>u. lu_id u = user_id \<and> lu_status u = ''active'')
       (\<lambda>u. u\<lparr>lu_status := ''deactivated'', lu_deactivated_at_ms := Some now\<rparr>) local_user_check (local_users db)) (\<lambda>(_, rows).
       Ok (db\<lparr>local_users := rows\<rparr>))"

definition revoke_member_subject :: "string \<Rightarrow> int \<Rightarrow> admission_database \<Rightarrow> RepositoryError + admission_database" where
  "revoke_member_subject user_id now db =
     and_then (update_rows (\<lambda>s. su_id s = user_id \<and> su_kind s = ''member'' \<and> su_revoked_at_ms s = None)
       (\<lambda>s. s\<lparr>su_revoked_at_ms := Some now\<rparr>) yard_subject_check (yard_subjects db)) (\<lambda>(changed, rows).
     and_then (changed_once changed) (\<lambda>_. Ok (db\<lparr>yard_subjects := rows\<rparr>)))"

definition revoke_for_user :: "string \<Rightarrow> int \<Rightarrow> admission_database \<Rightarrow> RepositoryError + admission_database" where
  "revoke_for_user user_id now db =
     and_then (update_rows (\<lambda>s. yn_subject_id s = user_id \<and> yn_revoked_at_ms s = None \<and> yn_expires_at_ms s > now)
       (\<lambda>s. s\<lparr>yn_revoked_at_ms := Some now\<rparr>) yard_session_check (yard_sessions db)) (\<lambda>(_, rows).
       Ok (db\<lparr>yard_sessions := rows\<rparr>))"

definition workspace_group_check :: "workspace_group_row \<Rightarrow> bool" where
  "workspace_group_check r \<longleftrightarrow>
     wg_status r \<in> {''active'', ''deactivated''} \<and> 0 \<le> wg_member_count r \<and> wg_member_count r \<le> 500
     \<and> wg_created_at_ms r \<ge> 0
     \<and> (if wg_status r = ''deactivated''
        then (case wg_deactivated_at_ms r of None \<Rightarrow> False | Some t \<Rightarrow> t \<ge> wg_created_at_ms r)
        else wg_deactivated_at_ms r = None)"

definition remove_user_memberships ::
  "string \<Rightarrow> string \<Rightarrow> admission_database \<Rightarrow> RepositoryError + admission_database" where
  "remove_user_memberships workspace_id user_id db =
     and_then (update_rows (\<lambda>g. list_ex (\<lambda>m. gm_group_id m = wg_id g \<and> gm_workspace_id m = workspace_id \<and> gm_user_id m = user_id)
         (group_members db)) (\<lambda>g. g\<lparr>wg_member_count := wg_member_count g - 1\<rparr>) workspace_group_check
       (workspace_groups db)) (\<lambda>(_, groups).
       Ok (db\<lparr>workspace_groups := groups,
              group_members := filter (\<lambda>m. \<not> (gm_workspace_id m = workspace_id \<and> gm_user_id m = user_id)) (group_members db)\<rparr>))"

section \<open>Operations\<close>

definition create_local_user ::
  "text_library \<Rightarrow> admission_database \<Rightarrow> LocalUserRecord \<Rightarrow> LocalUserLoginKeyRecord \<Rightarrow> NewAuditEvent \<Rightarrow> unit admission_outcome" where
  "create_local_user uc db u k event =
     after (and_then (validate_new_user uc u) (\<lambda>_.
            and_then (validate_new_key k) (\<lambda>_.
              if luk_user_id k \<noteq> lur_id u then Err InvalidInput
              else if luk_created_at_ms k \<noteq> lur_created_at_ms u then Err InvalidInput
              else validate_user_event event ''user.created'' u (lur_created_at_ms u)))) db (\<lambda>_.
     write_transaction (\<lambda>db.
       and_then (require_workspace db (lur_workspace_id u)) (\<lambda>_.
       and_then (sql_time (luk_created_at_ms k)) (\<lambda>created_at_ms.
       and_then (insert_user u created_at_ms db) (\<lambda>db.
       and_then (insert_member_subject u created_at_ms db) (\<lambda>db.
       and_then (insert_key k created_at_ms db) (\<lambda>db.
       and_then (admission_audit db event) (\<lambda>db. Ok ((), db)))))))) db)"

definition active_key_prefix :: "admission_database \<Rightarrow> string \<Rightarrow> string option" where
  "active_key_prefix db user_id =
     map_option lk_token_prefix (find (\<lambda>_. True) (rev (sort_key (\<lambda>k. (lk_created_at_ms k, lk_id k))
       (filter (\<lambda>k. lk_user_id k = user_id \<and> lk_revoked_at_ms k = None) (login_keys db)))))"

definition list_local_users :: "admission_database \<Rightarrow> string \<Rightarrow> RepositoryError + LocalUserListing list" where
  "list_local_users db workspace_id =
     and_then (validate_text workspace_id) (\<lambda>_.
       collect_results (\<lambda>r. and_then (local_user r) (\<lambda>u.
           Ok \<lparr>lul_user = u, lul_active_key_prefix = active_key_prefix db (lu_id r)\<rparr>))
         (rev (sort_key (\<lambda>u. (lu_created_at_ms u, lu_id u))
           (filter (\<lambda>u. lu_workspace_id u = workspace_id) (local_users db)))))"

definition reset_local_user_login_key ::
  "admission_database \<Rightarrow> LocalUserLoginKeyRecord \<Rightarrow> nat \<Rightarrow> NewAuditEvent \<Rightarrow> unit admission_outcome" where
  "reset_local_user_login_key db k now_ms event =
     after (and_then (validate_new_key k) (\<lambda>_.
            if luk_created_at_ms k \<noteq> now_ms then Err InvalidInput else sql_time now_ms)) db (\<lambda>now.
     write_transaction (\<lambda>db.
       and_then (active_user db (luk_user_id k)) (\<lambda>u.
       and_then (validate_user_event event ''user.login_key_reset'' u now_ms) (\<lambda>_.
       and_then (revoke_active_keys (lur_id u) now db) (\<lambda>db.
       and_then (insert_key k now db) (\<lambda>db.
       and_then (admission_audit db event) (\<lambda>db. Ok ((), db))))))) db)"

definition deactivate_local_user ::
  "admission_database \<Rightarrow> string \<Rightarrow> nat \<Rightarrow> NewAuditEvent \<Rightarrow> unit admission_outcome" where
  "deactivate_local_user db user_id now_ms event =
     after (and_then (validate_text user_id) (\<lambda>_. sql_time now_ms)) db (\<lambda>now.
     write_transaction (\<lambda>db.
       and_then (active_user db user_id) (\<lambda>u.
       and_then (validate_user_event event ''user.deactivated'' u now_ms) (\<lambda>_.
       and_then (tombstone_user (lur_id u) now db) (\<lambda>db.
       and_then (revoke_active_keys (lur_id u) now db) (\<lambda>db.
       and_then (revoke_member_subject (lur_id u) now db) (\<lambda>db.
       and_then (revoke_for_user (lur_id u) now db) (\<lambda>db.
       and_then (remove_user_memberships (lur_workspace_id u) (lur_id u) db) (\<lambda>db.
       and_then (admission_audit db event) (\<lambda>db. Ok ((), db)))))))))) db)"

definition key_admits :: "admission_database \<Rightarrow> string \<Rightarrow> int \<Rightarrow> login_key_row \<Rightarrow> bool" where
  "key_admits db secret_hash now k \<longleftrightarrow>
     lk_secret_hash k = secret_hash \<and> lk_revoked_at_ms k = None \<and> lk_created_at_ms k \<le> now \<and> lk_expires_at_ms k > now
     \<and> list_ex (\<lambda>u. lu_id u = lk_user_id k \<and> lu_status u = ''active'') (local_users db)"

definition authenticate_local_user_key ::
  "admission_database \<Rightarrow> string \<Rightarrow> nat \<Rightarrow> LocalUserRecord admission_outcome" where
  "authenticate_local_user_key db secret_hash now_ms =
     after (and_then (validate_hash secret_hash) (\<lambda>_. sql_time now_ms)) db (\<lambda>now.
     write_transaction (\<lambda>db.
       and_then (update_returning (key_admits db secret_hash now)
         (\<lambda>k. k\<lparr>lk_last_used_at_ms := touched now (lk_last_used_at_ms k)\<rparr>) login_key_check (\<lambda>k. Ok (lk_user_id k))
         (login_keys db)) (\<lambda>(user_id, rows).
       and_then (query_row (\<lambda>u. lu_id u = user_id) local_user (local_users db)) (\<lambda>u.
         Ok (u, db\<lparr>login_keys := rows\<rparr>)))) db)"

end
