(* ===== verification/Workspace_Groups.thy ===== *)
theory Workspace_Groups
  imports Local_Users
begin

text \<open>
  Workspace groups and their members: \<^verbatim>\<open>workspace_groups.rs\<close>, \<^verbatim>\<open>workspace_group_mutations.rs\<close>,
  \<^verbatim>\<open>workspace_group_members.rs\<close>, \<^verbatim>\<open>workspace_group_queries.rs\<close>, \<^verbatim>\<open>workspace_group_rows.rs\<close>,
  \<^verbatim>\<open>workspace_group_validation.rs\<close> and \<^verbatim>\<open>workspace_group_audit.rs\<close>. A group keeps the number of its
  members beside the membership rows; a deactivated group has no member and no active grant.
\<close>

section \<open>Contract types\<close>

definition MAXIMUM_ACTIVE_GROUPS :: nat where "MAXIMUM_ACTIVE_GROUPS = 500"
definition MAXIMUM_GROUP_MEMBERS :: nat where "MAXIMUM_GROUP_MEMBERS = 500"
definition MAXIMUM_USER_GROUPS :: nat where "MAXIMUM_USER_GROUPS = 100"
definition MAXIMUM_ACTIVE_GROUP_GRANTS :: nat where "MAXIMUM_ACTIVE_GROUP_GRANTS = 500"

datatype WorkspaceGroupStatus = WgActive | WgDeactivated

fun workspace_group_status_as_str :: "WorkspaceGroupStatus \<Rightarrow> string" where
  "workspace_group_status_as_str WgActive = ''active''"
| "workspace_group_status_as_str WgDeactivated = ''deactivated''"

definition workspace_group_status_parse :: "string \<Rightarrow> WorkspaceGroupStatus option" where
  "workspace_group_status_parse value =
     (if value = workspace_group_status_as_str WgActive then Some WgActive
      else if value = workspace_group_status_as_str WgDeactivated then Some WgDeactivated else None)"

interpretation workspace_group_status: string_codec workspace_group_status_as_str workspace_group_status_parse
proof unfold_locales
  show "workspace_group_status_parse (workspace_group_status_as_str x) = Some x" for x
    by (cases x) (simp_all add: workspace_group_status_parse_def)
qed (auto simp: workspace_group_status_parse_def split: if_split_asm)

record WorkspaceGroupRecord =
  wgr_id :: string
  wgr_workspace_id :: string
  wgr_name :: string
  wgr_status :: WorkspaceGroupStatus
  wgr_member_count :: nat
  wgr_created_at_ms :: nat
  wgr_deactivated_at_ms :: "nat option"

record WorkspaceGroupCursor =
  wgc_created_at_ms :: nat
  wgc_id :: string

record WorkspaceGroupPage =
  wgp_items :: "WorkspaceGroupRecord list"
  wgp_next_cursor :: "WorkspaceGroupCursor option"

record WorkspaceGroupMemberRecord =
  wmr_group_id :: string
  wmr_workspace_id :: string
  wmr_user_id :: string
  wmr_added_at_ms :: nat

record WorkspaceGroupMemberCursor =
  wmc_added_at_ms :: nat
  wmc_user_id :: string

record WorkspaceGroupMemberPage =
  wmp_items :: "WorkspaceGroupMemberRecord list"
  wmp_next_cursor :: "WorkspaceGroupMemberCursor option"

definition normalize_group_name :: "text_library \<Rightarrow> string \<Rightarrow> RepositoryError + string" where
  "normalize_group_name uc value =
     (let trimmed = trim (uc_nfc uc value); n = length (chars trimmed)
      in if 2 \<le> n \<and> n \<le> 80 \<and> \<not> has_control trimmed then Ok trimmed else Err InvalidInput)"

section \<open>Validation and rows\<close>

definition valid_prefixed_hex_id :: "string \<Rightarrow> string \<Rightarrow> bool" where
  "valid_prefixed_hex_id value prefix =
     (case strip_prefix prefix value of None \<Rightarrow> False
      | Some suffix \<Rightarrow> length suffix = 32 \<and> list_all is_lower_hex suffix)"

definition validate_group_id :: "string \<Rightarrow> RepositoryError + unit" where
  "validate_group_id value = ensure (valid_prefixed_hex_id value ''group_'') InvalidInput"

definition validate_group :: "text_library \<Rightarrow> WorkspaceGroupRecord \<Rightarrow> RepositoryError + unit" where
  "validate_group uc g =
     and_then (validate_group_id (wgr_id g)) (\<lambda>_.
     and_then (validate_text (wgr_workspace_id g)) (\<lambda>_.
     and_then (normalize_group_name uc (wgr_name g)) (\<lambda>name.
       ensure (name = wgr_name g \<and> wgr_status g = WgActive \<and> wgr_member_count g = 0
         \<and> wgr_deactivated_at_ms g = None) InvalidInput)))"

definition validate_member :: "WorkspaceGroupMemberRecord \<Rightarrow> RepositoryError + unit" where
  "validate_member m =
     and_then (validate_group_id (wmr_group_id m)) (\<lambda>_.
     and_then (validate_text (wmr_workspace_id m)) (\<lambda>_. validate_text (wmr_user_id m)))"

definition validate_stored_group :: "text_library \<Rightarrow> WorkspaceGroupRecord \<Rightarrow> RepositoryError + unit" where
  "validate_stored_group uc g =
     ensure (is_ok (validate_group_id (wgr_id g)) \<and> is_ok (validate_text (wgr_workspace_id g))
       \<and> normalize_group_name uc (wgr_name g) = Ok (wgr_name g) \<and> wgr_member_count g \<le> MAXIMUM_GROUP_MEMBERS
       \<and> (case wgr_status g of
            WgActive \<Rightarrow> wgr_deactivated_at_ms g = None
          | WgDeactivated \<Rightarrow> wgr_member_count g = 0
              \<and> (case wgr_deactivated_at_ms g of None \<Rightarrow> False | Some t \<Rightarrow> t \<ge> wgr_created_at_ms g))) Unavailable"

definition workspace_group :: "text_library \<Rightarrow> workspace_group_row \<Rightarrow> RepositoryError + WorkspaceGroupRecord" where
  "workspace_group uc r =
     and_then (required_u64 (wg_member_count r)) (\<lambda>member_count.
     and_then (ok_or Unavailable (workspace_group_status_parse (wg_status r))) (\<lambda>status.
       if member_count > u32_max then Err Unavailable else
     and_then (required_u64 (wg_created_at_ms r)) (\<lambda>created_at_ms.
     and_then (optional_u64 (wg_deactivated_at_ms r)) (\<lambda>deactivated_at_ms.
       let g = \<lparr>wgr_id = wg_id r, wgr_workspace_id = wg_workspace_id r, wgr_name = wg_name r, wgr_status = status,
                wgr_member_count = member_count, wgr_created_at_ms = created_at_ms,
                wgr_deactivated_at_ms = deactivated_at_ms\<rparr>
       in and_then (validate_stored_group uc g) (\<lambda>_. Ok g)))))"

definition group_member :: "group_member_row \<Rightarrow> RepositoryError + WorkspaceGroupMemberRecord" where
  "group_member r =
     and_then (required_u64 (gm_added_at_ms r)) (\<lambda>added_at_ms.
       let m = \<lparr>wmr_group_id = gm_group_id r, wmr_workspace_id = gm_workspace_id r, wmr_user_id = gm_user_id r,
                wmr_added_at_ms = added_at_ms\<rparr>
       in and_then (map_err (\<lambda>_. Unavailable) (validate_member m)) (\<lambda>_. Ok m))"

section \<open>Queries\<close>

definition group_by_id ::
  "text_library \<Rightarrow> admission_database \<Rightarrow> string \<Rightarrow> string \<Rightarrow> RepositoryError + WorkspaceGroupRecord option" where
  "group_by_id uc db workspace_id group_id =
     query_optional (\<lambda>g. wg_id g = group_id \<and> wg_workspace_id g = workspace_id \<and> workspace_exists db (wg_workspace_id g))
       (workspace_group uc) (workspace_groups db)"

definition active_group ::
  "text_library \<Rightarrow> admission_database \<Rightarrow> string \<Rightarrow> string \<Rightarrow> RepositoryError + WorkspaceGroupRecord" where
  "active_group uc db workspace_id group_id =
     and_then (group_by_id uc db workspace_id group_id) (\<lambda>found.
     and_then (ok_or NotFound found) (\<lambda>g. if wgr_status g = WgActive then Ok g else Err Conflict))"

text \<open>\<^verbatim>\<open>ORDER BY .. DESC LIMIT limit + 1\<close> after a keyset position, and the page cut from its rows.\<close>

definition keyset_rows :: "('r \<Rightarrow> 'k::linorder) \<Rightarrow> 'k option \<Rightarrow> nat \<Rightarrow> 'r list \<Rightarrow> 'r list" where
  "keyset_rows key place limit rows =
     take (limit + 1) (rev (sort_key key (filter (\<lambda>r. case place of None \<Rightarrow> True | Some p \<Rightarrow> key r < p) rows)))"

definition page_end :: "nat \<Rightarrow> 'a list \<Rightarrow> 'a option" where
  "page_end limit items = (if length items > limit then Some (items ! (limit - 1)) else None)"

definition validate_limit :: "nat \<Rightarrow> RepositoryError + unit" where
  "validate_limit limit = ensure (1 \<le> limit \<and> limit \<le> 50) InvalidInput"

definition list_workspace_groups ::
  "text_library \<Rightarrow> admission_database \<Rightarrow> string \<Rightarrow> WorkspaceGroupCursor option \<Rightarrow> nat \<Rightarrow> RepositoryError + WorkspaceGroupPage" where
  "list_workspace_groups uc db workspace_id cursor limit =
     and_then (validate_text workspace_id) (\<lambda>_.
     and_then (validate_limit limit) (\<lambda>_.
     and_then (case cursor of None \<Rightarrow> Ok () | Some c \<Rightarrow> validate_group_id (wgc_id c)) (\<lambda>_.
     and_then (case cursor of None \<Rightarrow> Ok None
         | Some c \<Rightarrow> and_then (to_i64 (wgc_created_at_ms c)) (\<lambda>t. Ok (Some (t, wgc_id c)))) (\<lambda>place.
     and_then (collect_results (workspace_group uc)
         (keyset_rows (\<lambda>g. (wg_created_at_ms g, wg_id g)) place limit
           (filter (\<lambda>g. wg_workspace_id g = workspace_id \<and> workspace_exists db workspace_id) (workspace_groups db)))) (\<lambda>items.
       Ok \<lparr>wgp_items = take limit items,
           wgp_next_cursor = map_option (\<lambda>g. \<lparr>wgc_created_at_ms = wgr_created_at_ms g, wgc_id = wgr_id g\<rparr>)
             (page_end limit items)\<rparr>)))))"

definition list_workspace_group_members ::
  "text_library \<Rightarrow> admission_database \<Rightarrow> string \<Rightarrow> string \<Rightarrow> WorkspaceGroupMemberCursor option \<Rightarrow> nat
     \<Rightarrow> RepositoryError + WorkspaceGroupMemberPage" where
  "list_workspace_group_members uc db workspace_id group_id cursor limit =
     and_then (validate_text workspace_id) (\<lambda>_.
     and_then (validate_group_id group_id) (\<lambda>_.
     and_then (validate_limit limit) (\<lambda>_.
     and_then (active_group uc db workspace_id group_id) (\<lambda>_.
     and_then (case cursor of None \<Rightarrow> Ok None
         | Some c \<Rightarrow> and_then (to_i64 (wmc_added_at_ms c)) (\<lambda>t. Ok (Some (t, wmc_user_id c)))) (\<lambda>place.
     and_then (collect_results group_member
         (keyset_rows (\<lambda>m. (gm_added_at_ms m, gm_user_id m)) place limit
           (filter (\<lambda>m. gm_group_id m = group_id \<and> gm_workspace_id m = workspace_id
              \<and> list_ex (\<lambda>u. lu_id u = gm_user_id m \<and> lu_workspace_id u = gm_workspace_id m \<and> lu_status u = ''active'')
                  (local_users db)) (group_members db)))) (\<lambda>items.
       Ok \<lparr>wmp_items = take limit items,
           wmp_next_cursor = map_option (\<lambda>m. \<lparr>wmc_added_at_ms = wmr_added_at_ms m, wmc_user_id = wmr_user_id m\<rparr>)
             (page_end limit items)\<rparr>))))))"

section \<open>Guards and events\<close>

definition require_active_member :: "admission_database \<Rightarrow> string \<Rightarrow> string \<Rightarrow> RepositoryError + unit" where
  "require_active_member db workspace_id user_id =
     ensure (list_ex (\<lambda>u. lu_id u = user_id \<and> lu_workspace_id u = workspace_id \<and> lu_status u = ''active'') (local_users db))
       NotFound"

definition require_below_limit :: "RepositoryError + int \<Rightarrow> nat \<Rightarrow> RepositoryError + unit" where
  "require_below_limit counted maximum = and_then counted (\<lambda>n. ensure (n < int maximum) Conflict)"

definition require_unresolved_grant_absent :: "admission_database \<Rightarrow> string \<Rightarrow> RepositoryError + unit" where
  "require_unresolved_grant_absent db group_id =
     ensure (\<not> list_ex (\<lambda>a. ag_principal_kind a = ''group'' \<and> ag_principal_id a = group_id) (access_grants db)) Conflict"

definition active_grant_count :: "admission_database \<Rightarrow> string \<Rightarrow> nat" where
  "active_grant_count db group_id =
     length (filter (\<lambda>a. ag_principal_kind a = ''group'' \<and> ag_principal_id a = group_id \<and> ag_status a = ''active'')
       (access_grants db))"

definition group_event ::
  "NewAuditEvent \<Rightarrow> string \<Rightarrow> WorkspaceGroupRecord \<Rightarrow> nat \<Rightarrow> (string \<times> AuditValue) list \<Rightarrow> RepositoryError + int" where
  "group_event event action g at_ms entries =
     action_event event action ''workspace_group'' (wgr_workspace_id g) at_ms
       ([(''groupId'', AvString (wgr_id g)), (''workspaceId'', AvString (wgr_workspace_id g))] @ entries)"

definition validate_rename_event :: "NewAuditEvent \<Rightarrow> WorkspaceGroupRecord \<Rightarrow> string \<Rightarrow> RepositoryError + unit" where
  "validate_rename_event event g name =
     and_then (action_event event ''group.renamed'' ''workspace_group'' (wgr_workspace_id g) (nae_created_at_ms event)
       [(''groupId'', AvString (wgr_id g)), (''to'', AvString name), (''workspaceId'', AvString (wgr_workspace_id g))]) (\<lambda>_. Ok ())"

definition member_event ::
  "NewAuditEvent \<Rightarrow> string \<Rightarrow> WorkspaceGroupRecord \<Rightarrow> string \<Rightarrow> nat \<Rightarrow> RepositoryError + int" where
  "member_event event action g user_id at_ms =
     action_event event action ''workspace_group'' (wgr_workspace_id g) at_ms
       [(''groupId'', AvString (wgr_id g)), (''userId'', AvString user_id), (''workspaceId'', AvString (wgr_workspace_id g))]"

definition validate_deactivate_event :: "NewAuditEvent \<Rightarrow> WorkspaceGroupRecord \<Rightarrow> nat \<Rightarrow> RepositoryError + int" where
  "validate_deactivate_event event g now_ms =
     action_event event ''group.deactivated'' ''workspace_group'' (wgr_workspace_id g) now_ms
       [(''groupId'', AvString (wgr_id g)), (''workspaceId'', AvString (wgr_workspace_id g))]"

text \<open>The stored event of a rename or a deactivation carries one more entry.\<close>

definition audit_with ::
  "string \<Rightarrow> AuditValue \<Rightarrow> NewAuditEvent \<Rightarrow> admission_database \<Rightarrow> RepositoryError + admission_database" where
  "audit_with k v event db = admission_audit db (event\<lparr>nae_metadata := nae_metadata event @ [(k, v)]\<rparr>)"

section \<open>Constraints and statements\<close>

definition workspace_group_allowed :: "admission_database \<Rightarrow> workspace_group_row \<Rightarrow> bool" where
  "workspace_group_allowed db row \<longleftrightarrow>
     workspace_group_check row \<and> \<not> list_ex (\<lambda>r. wg_id r = wg_id row) (workspace_groups db)
     \<and> workspace_exists db (wg_workspace_id row)"

definition group_member_allowed :: "admission_database \<Rightarrow> group_member_row \<Rightarrow> bool" where
  "group_member_allowed db row \<longleftrightarrow>
     gm_added_at_ms row \<ge> 0
     \<and> \<not> list_ex (\<lambda>r. gm_group_id r = gm_group_id row \<and> gm_user_id r = gm_user_id row) (group_members db)
     \<and> list_ex (\<lambda>g. wg_id g = gm_group_id row \<and> wg_workspace_id g = gm_workspace_id row) (workspace_groups db)
     \<and> list_ex (\<lambda>u. lu_id u = gm_user_id row \<and> lu_workspace_id u = gm_workspace_id row) (local_users db)"

definition increment_member_count :: "string \<Rightarrow> int \<Rightarrow> admission_database \<Rightarrow> RepositoryError + admission_database" where
  "increment_member_count group_id delta db =
     and_then (update_rows (\<lambda>g. wg_id g = group_id) (\<lambda>g. g\<lparr>wg_member_count := wg_member_count g + delta\<rparr>)
       workspace_group_check (workspace_groups db)) (\<lambda>(_, groups). Ok (db\<lparr>workspace_groups := groups\<rparr>))"

definition access_grant_check :: "access_grant_row \<Rightarrow> bool" where
  "access_grant_check r \<longleftrightarrow>
     ag_principal_kind r \<in> {''user'', ''group'', ''guest-invite'', ''link''} \<and> ag_status r \<in> {''active'', ''revoked''}
     \<and> ag_created_at_ms r \<ge> 0
     \<and> (case ag_expires_at_ms r of None \<Rightarrow> True | Some t \<Rightarrow> t \<ge> ag_created_at_ms r)
     \<and> (if ag_status r = ''revoked''
        then (case ag_revoked_at_ms r of None \<Rightarrow> False | Some t \<Rightarrow> t \<ge> ag_created_at_ms r)
        else ag_revoked_at_ms r = None)"

definition revoke_group_grants :: "string \<Rightarrow> int \<Rightarrow> admission_database \<Rightarrow> RepositoryError + admission_database" where
  "revoke_group_grants group_id now db =
     and_then (update_rows (\<lambda>a. ag_principal_kind a = ''group'' \<and> ag_principal_id a = group_id \<and> ag_status a = ''active'')
       (\<lambda>a. a\<lparr>ag_status := ''revoked'', ag_revoked_at_ms := Some now\<rparr>) access_grant_check (access_grants db)) (\<lambda>(_, rows).
       Ok (db\<lparr>access_grants := rows\<rparr>))"

definition tombstone_group :: "string \<Rightarrow> string \<Rightarrow> int \<Rightarrow> admission_database \<Rightarrow> RepositoryError + admission_database" where
  "tombstone_group workspace_id group_id now db =
     and_then (update_rows (\<lambda>g. wg_id g = group_id \<and> wg_workspace_id g = workspace_id \<and> wg_status g = ''active'')
       (\<lambda>g. g\<lparr>wg_status := ''deactivated'', wg_member_count := 0, wg_deactivated_at_ms := Some now\<rparr>)
       workspace_group_check (workspace_groups db)) (\<lambda>(_, groups).
       Ok (db\<lparr>workspace_groups := groups,
              group_members := filter (\<lambda>m. \<not> (gm_group_id m = group_id \<and> gm_workspace_id m = workspace_id)) (group_members db)\<rparr>))"

section \<open>Operations\<close>

definition create_group_in ::
  "text_library \<Rightarrow> WorkspaceGroupRecord \<Rightarrow> NewAuditEvent \<Rightarrow> admission_database \<Rightarrow> RepositoryError + (unit \<times> admission_database)" where
  "create_group_in uc g event db =
     and_then (validate_group uc g) (\<lambda>_.
     and_then (require_workspace db (wgr_workspace_id g)) (\<lambda>_.
     and_then (require_below_limit
       (Ok (int (length (filter (\<lambda>r. wg_workspace_id r = wgr_workspace_id g \<and> wg_status r = ''active'') (workspace_groups db)))))
       MAXIMUM_ACTIVE_GROUPS) (\<lambda>_.
     and_then (require_unresolved_grant_absent db (wgr_id g)) (\<lambda>_.
     and_then (group_event event ''group.created'' g (wgr_created_at_ms g) [(''name'', AvString (wgr_name g))]) (\<lambda>created_at.
       let row = \<lparr>wg_id = wgr_id g, wg_workspace_id = wgr_workspace_id g, wg_name = wgr_name g, wg_status = ''active'',
                  wg_member_count = 0, wg_created_at_ms = created_at, wg_deactivated_at_ms = None\<rparr>
       in and_then (insert_row (workspace_group_allowed db row) row (workspace_groups db)) (\<lambda>rows.
          and_then (admission_audit (db\<lparr>workspace_groups := rows\<rparr>) event) (\<lambda>db. Ok ((), db))))))))"

definition create_workspace_group ::
  "text_library \<Rightarrow> admission_database \<Rightarrow> WorkspaceGroupRecord \<Rightarrow> NewAuditEvent \<Rightarrow> unit admission_outcome" where
  "create_workspace_group uc db g event = write_transaction (create_group_in uc g event) db"

definition rename_group_in ::
  "text_library \<Rightarrow> string \<Rightarrow> string \<Rightarrow> string \<Rightarrow> NewAuditEvent \<Rightarrow> admission_database
     \<Rightarrow> RepositoryError + (WorkspaceGroupRecord \<times> admission_database)" where
  "rename_group_in uc workspace_id group_id name event db =
     and_then (validate_group_id group_id) (\<lambda>_.
     and_then (normalize_group_name uc name) (\<lambda>name.
     and_then (active_group uc db workspace_id group_id) (\<lambda>g.
     and_then (validate_rename_event event g name) (\<lambda>_.
     and_then (update_rows (\<lambda>r. wg_id r = group_id \<and> wg_workspace_id r = workspace_id \<and> wg_status r = ''active'')
       (\<lambda>r. r\<lparr>wg_name := name\<rparr>) workspace_group_check (workspace_groups db)) (\<lambda>(_, rows).
     and_then (audit_with ''from'' (AvString (wgr_name g)) event (db\<lparr>workspace_groups := rows\<rparr>)) (\<lambda>db.
     and_then (group_by_id uc db workspace_id group_id) (\<lambda>found.
     and_then (ok_or Unavailable found) (\<lambda>g. Ok (g, db)))))))))"

definition rename_workspace_group ::
  "text_library \<Rightarrow> admission_database \<Rightarrow> string \<Rightarrow> string \<Rightarrow> string \<Rightarrow> NewAuditEvent \<Rightarrow> WorkspaceGroupRecord admission_outcome" where
  "rename_workspace_group uc db workspace_id group_id name event =
     after (and_then (validate_text workspace_id) (\<lambda>_.
            and_then (validate_group_id group_id) (\<lambda>_.
            and_then (normalize_group_name uc name) (\<lambda>normalized. ensure (normalized = name) InvalidInput)))) db (\<lambda>_.
     write_transaction (rename_group_in uc workspace_id group_id name event) db)"

definition add_member_in ::
  "text_library \<Rightarrow> WorkspaceGroupMemberRecord \<Rightarrow> NewAuditEvent \<Rightarrow> admission_database \<Rightarrow> RepositoryError + (unit \<times> admission_database)" where
  "add_member_in uc m event db =
     and_then (validate_member m) (\<lambda>_.
     and_then (active_group uc db (wmr_workspace_id m) (wmr_group_id m)) (\<lambda>g.
     and_then (require_active_member db (wmr_workspace_id m) (wmr_user_id m)) (\<lambda>_.
     and_then (require_below_limit (query_row (\<lambda>r. wg_id r = wmr_group_id m) (\<lambda>r. Ok (wg_member_count r)) (workspace_groups db))
       MAXIMUM_GROUP_MEMBERS) (\<lambda>_.
     and_then (require_below_limit (Ok (int (length (filter (\<lambda>r. gm_user_id r = wmr_user_id m) (group_members db)))))
       MAXIMUM_USER_GROUPS) (\<lambda>_.
     and_then (member_event event ''group.member_added'' g (wmr_user_id m) (wmr_added_at_ms m)) (\<lambda>added_at.
       let row = \<lparr>gm_group_id = wmr_group_id m, gm_workspace_id = wmr_workspace_id m, gm_user_id = wmr_user_id m,
                  gm_added_at_ms = added_at\<rparr>
       in and_then (insert_row (group_member_allowed db row) row (group_members db)) (\<lambda>rows.
          and_then (increment_member_count (wmr_group_id m) 1 (db\<lparr>group_members := rows\<rparr>)) (\<lambda>db.
          and_then (admission_audit db event) (\<lambda>db. Ok ((), db))))))))))"

definition add_workspace_group_member ::
  "text_library \<Rightarrow> admission_database \<Rightarrow> WorkspaceGroupMemberRecord \<Rightarrow> NewAuditEvent \<Rightarrow> unit admission_outcome" where
  "add_workspace_group_member uc db m event = write_transaction (add_member_in uc m event) db"

definition remove_member_in ::
  "text_library \<Rightarrow> string \<Rightarrow> string \<Rightarrow> string \<Rightarrow> NewAuditEvent \<Rightarrow> admission_database \<Rightarrow> RepositoryError + (unit \<times> admission_database)" where
  "remove_member_in uc workspace_id group_id user_id event db =
     and_then (validate_group_id group_id) (\<lambda>_.
     and_then (validate_text user_id) (\<lambda>_.
     and_then (active_group uc db workspace_id group_id) (\<lambda>g.
     and_then (member_event event ''group.member_removed'' g user_id (nae_created_at_ms event)) (\<lambda>_.
       let gone = (\<lambda>m. gm_group_id m = group_id \<and> gm_workspace_id m = workspace_id \<and> gm_user_id m = user_id)
       in if length (filter gone (group_members db)) \<noteq> 1 then Err NotFound
          else and_then (increment_member_count group_id (- 1) (db\<lparr>group_members := filter (\<lambda>m. \<not> gone m) (group_members db)\<rparr>)) (\<lambda>db.
               and_then (admission_audit db event) (\<lambda>db. Ok ((), db)))))))"

definition remove_workspace_group_member ::
  "text_library \<Rightarrow> admission_database \<Rightarrow> string \<Rightarrow> string \<Rightarrow> string \<Rightarrow> NewAuditEvent \<Rightarrow> unit admission_outcome" where
  "remove_workspace_group_member uc db workspace_id group_id user_id event =
     after (validate_text workspace_id) db (\<lambda>_.
     write_transaction (remove_member_in uc workspace_id group_id user_id event) db)"

definition deactivate_group_in ::
  "text_library \<Rightarrow> string \<Rightarrow> string \<Rightarrow> nat \<Rightarrow> NewAuditEvent \<Rightarrow> admission_database \<Rightarrow> RepositoryError + (unit \<times> admission_database)" where
  "deactivate_group_in uc workspace_id group_id now_ms event db =
     and_then (validate_group_id group_id) (\<lambda>_.
     and_then (active_group uc db workspace_id group_id) (\<lambda>g.
     and_then (validate_deactivate_event event g now_ms) (\<lambda>now.
       let revoked = active_grant_count db group_id
       in if revoked > MAXIMUM_ACTIVE_GROUP_GRANTS then Err Conflict
          else and_then (revoke_group_grants group_id now db) (\<lambda>db.
               and_then (tombstone_group workspace_id group_id now db) (\<lambda>db.
               and_then (audit_with ''revokedGrantCount'' (AvNumber revoked) event db) (\<lambda>db. Ok ((), db)))))))"

definition deactivate_workspace_group ::
  "text_library \<Rightarrow> admission_database \<Rightarrow> string \<Rightarrow> string \<Rightarrow> nat \<Rightarrow> NewAuditEvent \<Rightarrow> unit admission_outcome" where
  "deactivate_workspace_group uc db workspace_id group_id now_ms event =
     after (validate_text workspace_id) db (\<lambda>_.
     write_transaction (deactivate_group_in uc workspace_id group_id now_ms event) db)"

end
