(* ===== verification/Policy_Text.thy ===== *)
theory Policy_Text
  imports Local_Users
begin

text \<open>
  The text columns of an approved policy: \<^verbatim>\<open>yard_application_policy_encoding.rs\<close> writes the canonical
  graph and its closure as JSON by hand, with the strings quoted by \<^verbatim>\<open>serde_json\<close>. Every encoder is
  prefix free as soon as the quoting of strings is: a text that starts with the encoding of a value
  starts with the encoding of no other, so that the encoding of a policy determines the policy.
\<close>

section \<open>The encoders\<close>

definition push_separator :: "string \<Rightarrow> string" where
  "push_separator value = (if value \<noteq> [] then value @ '','' else value)"

definition separated :: "('a \<Rightarrow> string) \<Rightarrow> 'a list \<Rightarrow> string" where
  "separated item vs = foldl (\<lambda>entries v. push_separator entries @ item v) [] vs"

definition string_array :: "text_library \<Rightarrow> string list \<Rightarrow> string" where
  "string_array uc vs = ''['' @ separated (uc_quoted uc) vs @ '']''"

definition string_map :: "text_library \<Rightarrow> (string \<times> string list) list \<Rightarrow> string" where
  "string_map uc vs =
     ''{'' @ separated (\<lambda>(name, value). uc_quoted uc name @ '':'' @ string_array uc value) vs @ ''}''"

definition role_json :: "text_library \<Rightarrow> string list \<Rightarrow> string" where
  "role_json uc roles = string_array uc roles"

definition role_text :: "text_library \<Rightarrow> string \<times> ApplicationRoleDefinition \<Rightarrow> string" where
  "role_text uc = (\<lambda>(name, definition).
     uc_quoted uc name @ '':{\"inherits\":'' @ string_array uc (ard_inherits definition)
       @ '',\"permissions\":'' @ string_array uc (ard_permissions definition) @ ''}'')"

definition encode_graph :: "text_library \<Rightarrow> ApplicationPolicyGraph \<Rightarrow> string" where
  "encode_graph uc value =
     ''{\"defaultRole\":'' @ (case apg_default_role value of None \<Rightarrow> ''null'' | Some role \<Rightarrow> uc_quoted uc role)
       @ '',\"roles\":{'' @ separated (role_text uc) (apg_roles value) @ ''}}''"

definition encode_effective :: "text_library \<Rightarrow> EffectiveApplicationPolicy \<Rightarrow> string" where
  "encode_effective uc value =
     ''{\"effectiveRoles\":'' @ string_map uc (eap_effective_roles value)
       @ '',\"effectivePermissions\":'' @ string_map uc (eap_effective_permissions value) @ ''}''"

section \<open>Prefix free codes\<close>

definition prefix_free :: "('a \<Rightarrow> string) \<Rightarrow> bool" where
  "prefix_free code \<longleftrightarrow> (\<forall>a b x y. code a @ x = code b @ y \<longrightarrow> a = b)"

text \<open>What the encoders need of the quoting of a string: a JSON string opens with a quotation mark and
  ends where its closing one is.\<close>

definition json_quoting :: "text_library \<Rightarrow> bool" where
  "json_quoting uc \<longleftrightarrow> prefix_free (uc_quoted uc) \<and> (\<forall>s. \<exists>r. uc_quoted uc s = CHR 0x22 # r)"

lemma prefix_freeD: "prefix_free code \<Longrightarrow> code a @ x = code b @ y \<Longrightarrow> a = b \<and> x = y"
  unfolding prefix_free_def by (metis append_same_eq same_append_eq)

lemma prefix_freeI: "(\<And>a b x y. code a @ x = code b @ y \<Longrightarrow> a = b) \<Longrightarrow> prefix_free code"
  by (auto simp: prefix_free_def)

lemma prefix_free_inj: "prefix_free code \<Longrightarrow> code a = code b \<Longrightarrow> a = b"
  using prefix_freeD [of code a "[]" b "[]"] by simp

text \<open>Items separated by commas, read from the left.\<close>

lemma foldl_separated:
  assumes "\<And>v. item v \<noteq> []"
  shows "acc \<noteq> [] \<Longrightarrow> foldl (\<lambda>entries v. push_separator entries @ item v) acc vs
    = acc @ concat (map (\<lambda>v. CHR '','' # item v) vs)"
  by (induction vs arbitrary: acc) (simp_all add: push_separator_def)

lemma separated_Nil: "separated item [] = []"
  by (simp add: separated_def)

lemma separated_Cons:
  assumes "\<And>v. item v \<noteq> []"
  shows "separated item (v # vs) = item v @ concat (map (\<lambda>v. CHR '','' # item v) vs)"
  using foldl_separated [OF assms, of "item v"] assms by (simp add: separated_def push_separator_def)

lemma commas_prefix_free:
  assumes "prefix_free item" and "close \<noteq> CHR '',''"
  shows "concat (map (\<lambda>v. CHR '','' # item v) vs) @ close # x = concat (map (\<lambda>v. CHR '','' # item v) ws) @ close # y \<Longrightarrow> vs = ws"
proof (induction vs arbitrary: ws)
  case Nil
  then show ?case using assms(2) by (cases ws) auto
next
  case (Cons v vs)
  then obtain w ws' where ws: "ws = w # ws'" using assms(2) by (cases ws) auto
  then have "item v @ concat (map (\<lambda>v. CHR '','' # item v) vs) @ close # x
      = item w @ concat (map (\<lambda>v. CHR '','' # item v) ws') @ close # y" using Cons.prems by simp
  from prefix_freeD [OF assms(1) this] Cons.IH ws show ?case by blast
qed

lemma separated_prefix_free:
  assumes "prefix_free item" and "close \<noteq> CHR '',''" and "\<And>v. \<exists>r. item v = CHR 0x22 # r" and "close \<noteq> CHR 0x22"
    and eq: "separated item vs @ close # x = separated item ws @ close # y"
  shows "vs = ws \<and> x = y"
proof -
  have ne: "\<And>v. item v \<noteq> []" using assms(3) by (metis list.distinct(1))
  note cons = separated_Cons [of item, OF ne]
  have "vs = ws"
  proof (cases vs)
    case Nil
    then show ?thesis using eq assms(3,4) by (cases ws) (auto simp: separated_Nil cons, metis append_Cons list.inject)
  next
    case vs: (Cons v vs')
    show ?thesis
    proof (cases ws)
      case Nil
      then show ?thesis using vs eq assms(3,4) by (auto simp: separated_Nil cons) (metis append_Cons list.inject)
    next
      case (Cons w ws')
      then have "item v @ concat (map (\<lambda>v. CHR '','' # item v) vs') @ close # x
          = item w @ concat (map (\<lambda>v. CHR '','' # item v) ws') @ close # y" using eq vs by (simp add: cons)
      from prefix_freeD [OF assms(1) this] commas_prefix_free [OF assms(1,2)] vs Cons show ?thesis by blast
    qed
  qed
  then show ?thesis using eq by simp
qed

section \<open>The text determines the policy\<close>

lemma quoted_start: "json_quoting uc \<Longrightarrow> \<exists>r. uc_quoted uc s @ t = CHR 0x22 # r"
  unfolding json_quoting_def by (metis append_Cons)

lemma quoted_D:
  "json_quoting uc \<Longrightarrow> uc_quoted uc a @ x = uc_quoted uc b @ y \<Longrightarrow> a = b \<and> x = y"
  using prefix_freeD [of "uc_quoted uc" a x b y] by (simp add: json_quoting_def)

lemma string_array_prefix_free:
  assumes "json_quoting uc"
  shows "prefix_free (string_array uc)"
proof (rule prefix_freeI)
  fix a b x y
  assume "string_array uc a @ x = string_array uc b @ y"
  then have "separated (uc_quoted uc) a @ CHR '']'' # x = separated (uc_quoted uc) b @ CHR '']'' # y"
    by (simp add: string_array_def)
  with separated_prefix_free [of "uc_quoted uc" "CHR '']''" a x b y] assms show "a = b" by (simp add: json_quoting_def)
qed

lemmas array_D = prefix_freeD [OF string_array_prefix_free]

lemma string_map_prefix_free:
  assumes q: "json_quoting uc"
  shows "prefix_free (string_map uc)"
proof (rule prefix_freeI)
  let ?item = "\<lambda>(name, value). uc_quoted uc name @ '':'' @ string_array uc value"
  fix a b x y
  assume "string_map uc a @ x = string_map uc b @ y"
  then have "separated ?item a @ CHR ''}'' # x = separated ?item b @ CHR ''}'' # y" by (simp add: string_map_def)
  moreover have "prefix_free ?item"
  proof (rule prefix_freeI)
    fix p r x y assume "?item p @ x = ?item r @ y"
    then have *: "uc_quoted uc (fst p) @ '':'' @ string_array uc (snd p) @ x = uc_quoted uc (fst r) @ '':'' @ string_array uc (snd r) @ y"
      by (simp add: case_prod_unfold)
    have "fst p = fst r" and "string_array uc (snd p) @ x = string_array uc (snd r) @ y"
      using quoted_D [OF q *] by simp_all
    then show "p = r" using array_D [OF q] by (simp add: prod_eq_iff)
  qed
  moreover have "\<exists>r. ?item v = CHR 0x22 # r" for v using quoted_start [OF q] by (simp add: case_prod_unfold)
  ultimately show "a = b" using separated_prefix_free [of ?item "CHR ''}''" a x b y] by simp
qed

lemma role_text_prefix_free:
  assumes q: "json_quoting uc"
  shows "prefix_free (role_text uc)"
proof (rule prefix_freeI)
  fix p r x y assume "role_text uc p @ x = role_text uc r @ y"
  then have *: "uc_quoted uc (fst p) @ '':{\"inherits\":'' @ string_array uc (ard_inherits (snd p))
        @ '',\"permissions\":'' @ string_array uc (ard_permissions (snd p)) @ ''}'' @ x
      = uc_quoted uc (fst r) @ '':{\"inherits\":'' @ string_array uc (ard_inherits (snd r))
        @ '',\"permissions\":'' @ string_array uc (ard_permissions (snd r)) @ ''}'' @ y"
    by (simp add: role_text_def case_prod_unfold)
  have same: "fst p = fst r" and "string_array uc (ard_inherits (snd p)) @ '',\"permissions\":''
        @ string_array uc (ard_permissions (snd p)) @ ''}'' @ x
      = string_array uc (ard_inherits (snd r)) @ '',\"permissions\":'' @ string_array uc (ard_permissions (snd r)) @ ''}'' @ y"
    using quoted_D [OF q *] by simp_all
  from array_D [OF q this(2)]
  have "ard_inherits (snd p) = ard_inherits (snd r)"
    and "string_array uc (ard_permissions (snd p)) @ ''}'' @ x = string_array uc (ard_permissions (snd r)) @ ''}'' @ y" by auto
  moreover from array_D [OF q this(2)]
  have "ard_permissions (snd p) = ard_permissions (snd r)" by blast
  ultimately show "p = r" using same by (simp add: prod_eq_iff)
qed

lemma encode_graph_inj:
  assumes q: "json_quoting uc" and eq: "encode_graph uc a = encode_graph uc b"
  shows "a = b"
proof -
  let ?rest = "\<lambda>g. '',\"roles\":{'' @ separated (role_text uc) (apg_roles g) @ ''}}''"
  have split: "(case apg_default_role a of None \<Rightarrow> ''null'' | Some role \<Rightarrow> uc_quoted uc role) @ ?rest a
      = (case apg_default_role b of None \<Rightarrow> ''null'' | Some role \<Rightarrow> uc_quoted uc role) @ ?rest b"
    using eq by (simp add: encode_graph_def)
  have quoted: "uc_quoted uc r @ s \<noteq> ''null'' @ t" for r s t using quoted_start [OF q, of r s] by auto
  have "apg_default_role a = apg_default_role b \<and> ?rest a = ?rest b"
  proof (cases "apg_default_role a")
    case None
    with split quoted show ?thesis by (cases "apg_default_role b") (simp_all, metis append_Cons append_Nil)
  next
    case (Some r)
    with split quoted obtain s where s: "apg_default_role b = Some s" by (cases "apg_default_role b") auto
    with split Some quoted_D [OF q, of r "?rest a" s "?rest b"] show ?thesis by simp
  qed
  moreover have "\<exists>r. role_text uc v = CHR 0x22 # r" for v using quoted_start [OF q] by (simp add: role_text_def case_prod_unfold)
  ultimately show ?thesis
    using separated_prefix_free [OF role_text_prefix_free [OF q], of "CHR ''}''" "apg_roles a" "''}''" "apg_roles b" "''}''"] by simp
qed

lemma encode_effective_inj:
  assumes q: "json_quoting uc" and eq: "encode_effective uc a = encode_effective uc b"
  shows "a = b"
proof -
  have "string_map uc (eap_effective_roles a) @ '',\"effectivePermissions\":'' @ string_map uc (eap_effective_permissions a) @ ''}''
      = string_map uc (eap_effective_roles b) @ '',\"effectivePermissions\":'' @ string_map uc (eap_effective_permissions b) @ ''}''"
    using eq by (simp add: encode_effective_def)
  from prefix_freeD [OF string_map_prefix_free [OF q] this]
  have "eap_effective_roles a = eap_effective_roles b"
    and rest: "string_map uc (eap_effective_permissions a) @ ''}'' = string_map uc (eap_effective_permissions b) @ ''}''" by auto
  then show ?thesis using prefix_freeD [OF string_map_prefix_free [OF q] rest] by simp
qed

end
