(* ===== verification/Yard_Roles.thy ===== *)
theory Yard_Roles
  imports Workspace_Groups Policy_Text
begin

text \<open>
  Management roles, approved application policies and access grants of a Web Yard:
  \<^verbatim>\<open>yard_management_roles.rs\<close>, \<^verbatim>\<open>yard_management_role_rows.rs\<close>, \<^verbatim>\<open>yard_application_policy.rs\<close>,
  \<^verbatim>\<open>yard_application_policy_row.rs\<close>, the grants of \<^verbatim>\<open>yard_access.rs\<close>,
  \<^verbatim>\<open>yard_access_principals.rs\<close> and \<^verbatim>\<open>yard_access_record_validation.rs\<close>. Canonicalising a policy
  indexes a map and may panic; approving a policy then has no result, \<open>None\<close>.
\<close>

section \<open>Contract types\<close>

definition MAXIMUM_YARD_MANAGEMENT_ROLES :: nat where "MAXIMUM_YARD_MANAGEMENT_ROLES = 500"
definition MAXIMUM_YARD_ACCESS_ROLES :: nat where "MAXIMUM_YARD_ACCESS_ROLES = 16"
definition MAXIMUM_ROLES :: nat where "MAXIMUM_ROLES = 16"
definition MAXIMUM_ROLE_LENGTH :: nat where "MAXIMUM_ROLE_LENGTH = 64"

datatype YardManagementRole = MrOwner | MrAdmin | MrDeveloper | MrAuditor

fun management_role_as_str :: "YardManagementRole \<Rightarrow> string" where
  "management_role_as_str MrOwner = ''owner''"
| "management_role_as_str MrAdmin = ''admin''"
| "management_role_as_str MrDeveloper = ''developer''"
| "management_role_as_str MrAuditor = ''auditor''"

definition management_role_parse :: "string \<Rightarrow> YardManagementRole option" where
  "management_role_parse value =
     (if value = ''owner'' then Some MrOwner else if value = ''admin'' then Some MrAdmin
      else if value = ''developer'' then Some MrDeveloper else if value = ''auditor'' then Some MrAuditor else None)"

interpretation management_role: string_codec management_role_as_str management_role_parse
proof unfold_locales
  show "management_role_parse (management_role_as_str x) = Some x" for x
    by (cases x) (simp_all add: management_role_parse_def)
qed (auto simp: management_role_parse_def split: if_split_asm)

fun precedence :: "YardManagementRole \<Rightarrow> nat" where
  "precedence MrOwner = 0"
| "precedence MrAdmin = 1"
| "precedence MrDeveloper = 2"
| "precedence MrAuditor = 3"

record YardManagementRoleAssignment =
  yma_yard_id :: string
  yma_user_id :: string
  yma_workspace_id :: string
  yma_role :: YardManagementRole
  yma_created_at_ms :: nat
  yma_updated_at_ms :: nat

record YardManagementRoleCursor =
  ymc_role :: YardManagementRole
  ymc_user_id :: string

record YardManagementRolePage =
  ymp_items :: "YardManagementRoleAssignment list"
  ymp_next_cursor :: "YardManagementRoleCursor option"

record YardApplicationPolicyRecord =
  yar_yard_id :: string
  yar_workspace_id :: string
  yar_revision :: nat
  yar_source_manifest_digest :: string
  yar_policy :: ApplicationPolicyGraph
  yar_effective :: EffectiveApplicationPolicy
  yar_approved_at_ms :: nat
  yar_approved_by_principal :: string

datatype YardAccessPrincipalKind = YpUser | YpGroup | YpGuestInvite | YpLink

fun principal_kind_as_str :: "YardAccessPrincipalKind \<Rightarrow> string" where
  "principal_kind_as_str YpUser = ''user''"
| "principal_kind_as_str YpGroup = ''group''"
| "principal_kind_as_str YpGuestInvite = ''guest-invite''"
| "principal_kind_as_str YpLink = ''link''"

definition principal_kind_parse :: "string \<Rightarrow> YardAccessPrincipalKind option" where
  "principal_kind_parse value =
     (if value = ''user'' then Some YpUser else if value = ''group'' then Some YpGroup
      else if value = ''guest-invite'' then Some YpGuestInvite else if value = ''link'' then Some YpLink else None)"

interpretation principal_kind: string_codec principal_kind_as_str principal_kind_parse
proof unfold_locales
  show "principal_kind_parse (principal_kind_as_str x) = Some x" for x
    by (cases x) (simp_all add: principal_kind_parse_def)
qed (auto simp: principal_kind_parse_def split: if_split_asm)

record YardAccessGrantRecord =
  yag_id :: string
  yag_yard_id :: string
  yag_environment_id :: "string option"
  yag_principal_kind :: YardAccessPrincipalKind
  yag_principal_id :: string
  yag_app_roles :: "string list"
  yag_status :: RevocableStatus
  yag_created_at_ms :: nat
  yag_created_by_principal :: string
  yag_expires_at_ms :: "nat option"
  yag_revoked_at_ms :: "nat option"

record NewYardAccessGrant =
  nag_id :: string
  nag_yard_id :: string
  nag_environment_id :: "string option"
  nag_principal_kind :: YardAccessPrincipalKind
  nag_principal_id :: string
  nag_app_roles :: "string list"
  nag_created_at_ms :: nat
  nag_created_by_principal :: string
  nag_expires_at_ms :: "nat option"

section \<open>Management roles\<close>

definition management_role_check :: "management_role_row \<Rightarrow> bool" where
  "management_role_check r \<longleftrightarrow>
     mr_role r \<in> {''owner'', ''admin'', ''developer'', ''auditor''}
     \<and> mr_created_at_ms r \<ge> 0 \<and> mr_updated_at_ms r \<ge> mr_created_at_ms r"

definition management_role_allowed :: "admission_database \<Rightarrow> management_role_row \<Rightarrow> bool" where
  "management_role_allowed db row \<longleftrightarrow>
     management_role_check row
     \<and> list_ex (\<lambda>y. wy_id y = mr_yard_id row \<and> wy_workspace_id y = mr_workspace_id row) (web_yards (yards db))
     \<and> list_ex (\<lambda>u. lu_id u = mr_user_id row \<and> lu_workspace_id u = mr_workspace_id row) (local_users db)"

definition assignment :: "management_role_row \<Rightarrow> RepositoryError + YardManagementRoleAssignment" where
  "assignment r =
     and_then (ok_or Unavailable (management_role_parse (mr_role r))) (\<lambda>role.
     and_then (required_u64 (mr_created_at_ms r)) (\<lambda>created_at_ms.
     and_then (required_u64 (mr_updated_at_ms r)) (\<lambda>updated_at_ms.
       if is_ok (validate_text (mr_yard_id r)) \<and> is_ok (validate_text (mr_user_id r))
          \<and> is_ok (validate_text (mr_workspace_id r)) \<and> updated_at_ms \<ge> created_at_ms
       then Ok \<lparr>yma_yard_id = mr_yard_id r, yma_user_id = mr_user_id r, yma_workspace_id = mr_workspace_id r,
                yma_role = role, yma_created_at_ms = created_at_ms, yma_updated_at_ms = updated_at_ms\<rparr>
       else Err Unavailable)))"

record RoleState =
  rs_assignments :: nat
  rs_owners :: nat

definition validate_role_state :: "admission_database \<Rightarrow> string \<Rightarrow> RepositoryError + RoleState" where
  "validate_role_state db yard_id =
     (let rows = take 501 (filter (\<lambda>r. mr_yard_id r = yard_id) (management_roles db));
          state = \<lparr>rs_assignments = length rows, rs_owners = length (filter (\<lambda>r. mr_role r = ''owner'') rows)\<rparr>
      in if rs_assignments state \<le> MAXIMUM_YARD_MANAGEMENT_ROLES
            \<and> (rs_assignments state = 0 \<or> rs_owners state > 0) \<and> rs_owners state \<le> rs_assignments state
         then Ok state else Err Unavailable)"

definition validate_integrity :: "admission_database \<Rightarrow> string \<Rightarrow> RepositoryError + unit" where
  "validate_integrity db yard_id = and_then (validate_role_state db yard_id) (\<lambda>_. Ok ())"

definition require_owner :: "admission_database \<Rightarrow> string \<Rightarrow> RepositoryError + unit" where
  "require_owner db yard_id =
     and_then (validate_role_state db yard_id) (\<lambda>state. ensure (rs_owners state > 0) Conflict)"

definition role_by_user ::
  "admission_database \<Rightarrow> string \<Rightarrow> string \<Rightarrow> RepositoryError + YardManagementRoleAssignment option" where
  "role_by_user db yard_id user_id =
     query_optional (\<lambda>r. mr_yard_id r = yard_id \<and> mr_user_id r = user_id) assignment (management_roles db)"

definition require_active_manager :: "admission_database \<Rightarrow> string \<Rightarrow> string \<Rightarrow> RepositoryError + unit" where
  "require_active_manager db workspace_id user_id =
     and_then (validate_text user_id) (\<lambda>_.
       ensure (list_ex (\<lambda>u. lu_id u = user_id \<and> lu_workspace_id u = workspace_id \<and> lu_status u = ''active''
         \<and> lu_deactivated_at_ms u = None) (local_users db)) NotFound)"

definition validate_set_event ::
  "NewAuditEvent \<Rightarrow> string \<Rightarrow> string \<Rightarrow> string \<Rightarrow> YardManagementRole option \<Rightarrow> YardManagementRole \<Rightarrow> nat
     \<Rightarrow> RepositoryError + unit" where
  "validate_set_event event workspace_id yard_id user_id from_role to_role now_ms =
     and_then (action_event event ''yard.management_role_set'' ''yard_management_role'' workspace_id now_ms
       [(''from'', case from_role of None \<Rightarrow> AvNull | Some r \<Rightarrow> AvString (management_role_as_str r)),
        (''to'', AvString (management_role_as_str to_role)), (''userId'', AvString user_id), (''yardId'', AvString yard_id)]) (\<lambda>_. Ok ())"

definition upsert_management_role ::
  "admission_database \<Rightarrow> management_role_row \<Rightarrow> RepositoryError + management_role_row list" where
  "upsert_management_role db row =
     (let same = (\<lambda>r. mr_yard_id r = mr_yard_id row \<and> mr_user_id r = mr_user_id row)
      in if list_ex same (management_roles db)
         then and_then (update_rows same (\<lambda>r. r\<lparr>mr_role := mr_role row, mr_updated_at_ms := mr_updated_at_ms row\<rparr>)
                management_role_check (management_roles db)) (\<lambda>(_, rows). Ok rows)
         else insert_row (management_role_allowed db row) row (management_roles db))"

definition set_management_role_in ::
  "string \<Rightarrow> string \<Rightarrow> YardManagementRole \<Rightarrow> nat \<Rightarrow> NewAuditEvent \<Rightarrow> admission_database
     \<Rightarrow> RepositoryError + (YardManagementRoleAssignment \<times> admission_database)" where
  "set_management_role_in yard_id user_id role now_ms event db =
     and_then (active_yard (yards db) yard_id) (\<lambda>y.
     and_then (require_active_manager db (wyr_workspace_id y) user_id) (\<lambda>_.
     and_then (validate_role_state db yard_id) (\<lambda>state.
     and_then (role_by_user db yard_id user_id) (\<lambda>previous.
       if rs_assignments state = 0 \<and> role \<noteq> MrOwner then Err Conflict
       else if previous = None \<and> rs_assignments state \<ge> MAXIMUM_YARD_MANAGEMENT_ROLES then Err Conflict
       else if map_option yma_role previous = Some MrOwner \<and> role \<noteq> MrOwner \<and> rs_owners state = 1 then Err Conflict
       else
         and_then (validate_set_event event (wyr_workspace_id y) yard_id user_id (map_option yma_role previous) role now_ms) (\<lambda>_.
         and_then (upsert_management_role db \<lparr>mr_yard_id = yard_id, mr_user_id = user_id,
             mr_workspace_id = wyr_workspace_id y, mr_role = management_role_as_str role,
             mr_created_at_ms = int now_ms, mr_updated_at_ms = int now_ms\<rparr>) (\<lambda>rows.
         and_then (admission_audit (db\<lparr>management_roles := rows\<rparr>) event) (\<lambda>db.
         and_then (role_by_user db yard_id user_id) (\<lambda>found.
         and_then (ok_or Unavailable found) (\<lambda>x. Ok (x, db))))))))))"

definition set_yard_management_role ::
  "admission_database \<Rightarrow> string \<Rightarrow> string \<Rightarrow> YardManagementRole \<Rightarrow> nat \<Rightarrow> NewAuditEvent
     \<Rightarrow> YardManagementRoleAssignment admission_outcome" where
  "set_yard_management_role db yard_id user_id role now_ms event =
     after (to_i64 now_ms) db (\<lambda>_. write_transaction (set_management_role_in yard_id user_id role now_ms event) db)"

definition revoke_management_role_in ::
  "string \<Rightarrow> string \<Rightarrow> nat \<Rightarrow> NewAuditEvent \<Rightarrow> admission_database \<Rightarrow> RepositoryError + (unit \<times> admission_database)" where
  "revoke_management_role_in yard_id user_id now_ms event db =
     and_then (active_yard (yards db) yard_id) (\<lambda>y.
     and_then (validate_role_state db yard_id) (\<lambda>state.
     and_then (role_by_user db yard_id user_id) (\<lambda>found.
     and_then (ok_or NotFound found) (\<lambda>previous.
       if yma_role previous = MrOwner \<and> rs_owners state = 1 then Err Conflict
       else
         and_then (action_event event ''yard.management_role_revoked'' ''yard_management_role'' (wyr_workspace_id y) now_ms
           [(''from'', AvString (management_role_as_str (yma_role previous))), (''userId'', AvString user_id),
            (''yardId'', AvString yard_id)]) (\<lambda>_.
         let gone = (\<lambda>r. mr_yard_id r = yard_id \<and> mr_user_id r = user_id)
         in and_then (changed_once (length (filter gone (management_roles db)))) (\<lambda>_.
            and_then (admission_audit (db\<lparr>management_roles := filter (\<lambda>r. \<not> gone r) (management_roles db)\<rparr>) event) (\<lambda>db.
              Ok ((), db))))))))"

definition revoke_yard_management_role ::
  "admission_database \<Rightarrow> string \<Rightarrow> string \<Rightarrow> nat \<Rightarrow> NewAuditEvent \<Rightarrow> unit admission_outcome" where
  "revoke_yard_management_role db yard_id user_id now_ms event =
     after (to_i64 now_ms) db (\<lambda>_. write_transaction (revoke_management_role_in yard_id user_id now_ms event) db)"

text \<open>\<^verbatim>\<open>CASE role WHEN 'owner' THEN 0 .. ELSE 3 END\<close>\<close>

definition sql_precedence :: "string \<Rightarrow> nat" where
  "sql_precedence role =
     (if role = ''owner'' then 0 else if role = ''admin'' then 1 else if role = ''developer'' then 2 else 3)"

definition list_yard_management_roles ::
  "admission_database \<Rightarrow> string \<Rightarrow> YardManagementRoleCursor option \<Rightarrow> RepositoryError + YardManagementRolePage" where
  "list_yard_management_roles db yard_id cursor =
     and_then (validate_text yard_id) (\<lambda>_.
     and_then (ensure (list_ex (\<lambda>y. wy_id y = yard_id \<and> wy_status y = ''active'') (web_yards (yards db))) NotFound) (\<lambda>_.
     and_then (case cursor of None \<Rightarrow> Ok () | Some c \<Rightarrow> validate_text (ymc_user_id c)) (\<lambda>_.
     and_then (validate_role_state db yard_id) (\<lambda>_.
     and_then (collect_results assignment (take 51 (sort_key (\<lambda>r. (sql_precedence (mr_role r), mr_user_id r))
         (filter (\<lambda>r. mr_yard_id r = yard_id
             \<and> (case cursor of None \<Rightarrow> True
                | Some c \<Rightarrow> (sql_precedence (mr_role r), mr_user_id r) > (precedence (ymc_role c), ymc_user_id c)))
           (management_roles db))))) (\<lambda>items.
       Ok \<lparr>ymp_items = take 50 items,
           ymp_next_cursor = map_option (\<lambda>m. \<lparr>ymc_role = yma_role m, ymc_user_id = yma_user_id m\<rparr>) (page_end 50 items)\<rparr>)))))"

section \<open>Application roles and policies\<close>

definition validate_encoded_roles :: "string list \<Rightarrow> RepositoryError + unit" where
  "validate_encoded_roles roles =
     ensure (length roles \<le> MAXIMUM_ROLES
       \<and> list_all (\<lambda>r. r \<noteq> [] \<and> length r \<le> MAXIMUM_ROLE_LENGTH \<and> trim r = r \<and> \<not> has_control r) roles
       \<and> distinct roles) InvalidInput"

definition canonical_roles :: "string list \<Rightarrow> RepositoryError + string list" where
  "canonical_roles roles =
     (if distinct roles then and_then (validate_encoded_roles (sort roles)) (\<lambda>_. Ok (sort roles)) else Err InvalidInput)"

definition application_policy_check :: "application_policy_row \<Rightarrow> bool" where
  "application_policy_check r \<longleftrightarrow>
     py_revision r > 0 \<and> lower_hex_text 64 (py_source_manifest_digest r) \<and> py_policy_json r \<noteq> [] \<and> py_effective_json r \<noteq> []
     \<and> py_approved_at_ms r \<ge> 0 \<and> py_approved_by_principal r \<noteq> []"

text \<open>A stored text was written from an accepted graph, and \<^verbatim>\<open>serde_json\<close> reads it as that graph, so the
  canonicalisation of what was read does not panic; that impossible case decodes to the error of an
  invalid column.\<close>

definition application_policy ::
  "text_library \<Rightarrow> application_policy_row \<Rightarrow> RepositoryError + YardApplicationPolicyRecord" where
  "application_policy uc r =
     and_then (required_u64 (py_revision r)) (\<lambda>revision.
     and_then (ok_or Unavailable (uc_graph_of_json uc (py_policy_json r))) (\<lambda>policy.
     and_then (ok_or Unavailable (uc_effective_of_json uc (py_effective_json r))) (\<lambda>effective.
       case canonicalize_application_policy policy of
         Some (Inr canonical) \<Rightarrow>
           (if revision > 0 \<and> valid_source_manifest_digest (py_source_manifest_digest r)
               \<and> cap_graph canonical = policy \<and> cap_effective canonical = effective
               \<and> encode_graph uc policy = py_policy_json r \<and> encode_effective uc effective = py_effective_json r
            then and_then (required_u64 (py_approved_at_ms r)) (\<lambda>approved_at_ms.
              Ok \<lparr>yar_yard_id = py_yard_id r, yar_workspace_id = py_workspace_id r, yar_revision = revision,
                  yar_source_manifest_digest = py_source_manifest_digest r, yar_policy = policy,
                  yar_effective = effective, yar_approved_at_ms = approved_at_ms,
                  yar_approved_by_principal = py_approved_by_principal r\<rparr>)
            else Err Unavailable)
       | _ \<Rightarrow> Err Unavailable)))"

definition policy_by_yard ::
  "text_library \<Rightarrow> admission_database \<Rightarrow> string \<Rightarrow> RepositoryError + YardApplicationPolicyRecord option" where
  "policy_by_yard uc db yard_id =
     query_optional (\<lambda>r. py_yard_id r = yard_id) (application_policy uc) (application_policies db)"

definition validated_roles ::
  "text_library \<Rightarrow> admission_database \<Rightarrow> string \<Rightarrow> string list \<Rightarrow> RepositoryError + string list" where
  "validated_roles uc db yard_id roles =
     (if length roles > MAXIMUM_YARD_ACCESS_ROLES then Err Conflict
      else and_then (canonical_roles roles) (\<lambda>canonical.
        if canonical = [] then Ok canonical
        else and_then (policy_by_yard uc db yard_id) (\<lambda>found.
             and_then (ok_or InvalidInput found) (\<lambda>policy.
               if list_all (\<lambda>r. map_of (apg_roles (yar_policy policy)) r \<noteq> None) canonical then Ok canonical
               else Err InvalidInput))))"

definition get_yard_application_policy ::
  "text_library \<Rightarrow> admission_database \<Rightarrow> string \<Rightarrow> RepositoryError + YardApplicationPolicyRecord option" where
  "get_yard_application_policy uc db yard_id =
     and_then (validate_text yard_id) (\<lambda>_.
     and_then (yard_by_id (yards db) yard_id) (\<lambda>y.
       if wyr_status y \<noteq> WyActive then Err NotFound
       else and_then (policy_by_yard uc db yard_id) (\<lambda>found.
         case found of None \<Rightarrow> Ok None
         | Some p \<Rightarrow> if yar_workspace_id p \<noteq> wyr_workspace_id y then Err Unavailable else Ok (Some p))))"

definition validate_policy_event ::
  "NewAuditEvent \<Rightarrow> string \<Rightarrow> string \<Rightarrow> nat option \<Rightarrow> nat \<Rightarrow> string \<Rightarrow> nat \<Rightarrow> CanonicalApplicationPolicy
     \<Rightarrow> RepositoryError + unit" where
  "validate_policy_event event workspace_id yard_id from_revision to_revision digest approved_at_ms canonical =
     and_then (action_event event ''yard.application_policy_set'' ''yard_application_policy'' workspace_id approved_at_ms
       [(''fromRevision'', case from_revision of None \<Rightarrow> AvNull | Some n \<Rightarrow> AvNumber n),
        (''permissionCount'', AvNumber (length (btree_set (concat (map (ard_permissions \<circ> snd) (apg_roles (cap_graph canonical))))))),
        (''roleCount'', AvNumber (length (apg_roles (cap_graph canonical)))),
        (''sourceManifestDigest'', AvString digest), (''toRevision'', AvNumber to_revision),
        (''yardId'', AvString yard_id)]) (\<lambda>_. Ok ())"

definition upsert_application_policy ::
  "admission_database \<Rightarrow> application_policy_row \<Rightarrow> RepositoryError + application_policy_row list" where
  "upsert_application_policy db row =
     (if \<not> application_policy_check row then Err Conflict
      else if list_ex (\<lambda>r. py_yard_id r = py_yard_id row) (application_policies db)
      then Ok (map (\<lambda>r. if py_yard_id r = py_yard_id row then row\<lparr>py_workspace_id := py_workspace_id r\<rparr> else r)
             (application_policies db))
      else insert_row (list_ex (\<lambda>y. wy_id y = py_yard_id row \<and> wy_workspace_id y = py_workspace_id row) (web_yards (yards db)))
             row (application_policies db))"

definition approve_policy ::
  "text_library \<Rightarrow> string \<Rightarrow> string \<Rightarrow> CanonicalApplicationPolicy \<Rightarrow> string \<Rightarrow> nat \<Rightarrow> NewAuditEvent \<Rightarrow> WebYardRecord \<Rightarrow> admission_database
     \<Rightarrow> RepositoryError + (YardApplicationPolicyRecord \<times> admission_database)" where
  "approve_policy uc yard_id digest canonical approved_by now_ms event y db =
     and_then (policy_by_yard uc db yard_id) (\<lambda>previous.
       let revision = (case previous of None \<Rightarrow> 1 | Some p \<Rightarrow> yar_revision p + 1)
       in and_then (validate_policy_event event (wyr_workspace_id y) yard_id (map_option yar_revision previous) revision
            digest now_ms canonical) (\<lambda>_.
          if revision > i64_max then Err Conflict
          else and_then (upsert_application_policy db \<lparr>py_yard_id = yard_id, py_workspace_id = wyr_workspace_id y,
              py_revision = int revision, py_source_manifest_digest = digest, py_policy_json = encode_graph uc (cap_graph canonical),
              py_effective_json = encode_effective uc (cap_effective canonical), py_approved_at_ms = int now_ms,
              py_approved_by_principal = approved_by\<rparr>) (\<lambda>rows.
          and_then (admission_audit (db\<lparr>application_policies := rows\<rparr>) event) (\<lambda>db.
          and_then (policy_by_yard uc db yard_id) (\<lambda>found.
          and_then (ok_or Unavailable found) (\<lambda>p. Ok (p, db)))))))"

definition set_application_policy_in ::
  "text_library \<Rightarrow> string \<Rightarrow> string \<Rightarrow> ApplicationPolicyGraph \<Rightarrow> string \<Rightarrow> nat \<Rightarrow> NewAuditEvent \<Rightarrow> admission_database
     \<Rightarrow> (RepositoryError + (YardApplicationPolicyRecord \<times> admission_database)) option" where
  "set_application_policy_in uc yard_id digest policy approved_by now_ms event db =
     (case and_then (active_yard (yards db) yard_id) (\<lambda>y.
           and_then (require_owner db yard_id) (\<lambda>_.
           and_then (validate_text approved_by) (\<lambda>_.
             if valid_source_manifest_digest digest then Ok y else Err InvalidInput))) of
        Inl e \<Rightarrow> Some (Err e)
      | Inr y \<Rightarrow> map_option (\<lambda>r.
            and_then (map_err (\<lambda>_. InvalidInput) r) (\<lambda>canonical. approve_policy uc yard_id digest canonical approved_by now_ms event y db))
          (canonicalize_application_policy policy))"

definition set_yard_application_policy ::
  "text_library \<Rightarrow> admission_database \<Rightarrow> string \<Rightarrow> string \<Rightarrow> ApplicationPolicyGraph \<Rightarrow> string \<Rightarrow> nat \<Rightarrow> NewAuditEvent
     \<Rightarrow> YardApplicationPolicyRecord admission_outcome option" where
  "set_yard_application_policy uc db yard_id digest policy approved_by now_ms event =
     (case to_i64 now_ms of
        Inl e \<Rightarrow> Some (Err e, db)
      | Inr _ \<Rightarrow> map_option (\<lambda>r. write_transaction (\<lambda>_. r) db)
          (set_application_policy_in uc yard_id digest policy approved_by now_ms event db))"

section \<open>Grants\<close>

definition valid_grant_record :: "YardAccessGrantRecord \<Rightarrow> bool" where
  "valid_grant_record g \<longleftrightarrow>
     list_all (\<lambda>v. is_ok (validate_text v)) [yag_id g, yag_yard_id g, yag_principal_id g, yag_created_by_principal g]
     \<and> (case yag_environment_id g of None \<Rightarrow> True | Some v \<Rightarrow> is_ok (validate_text v))
     \<and> (case yag_status g of
          RvActive \<Rightarrow> yag_revoked_at_ms g = None
        | RvRevoked \<Rightarrow> (case yag_revoked_at_ms g of None \<Rightarrow> False | Some t \<Rightarrow> t \<ge> yag_created_at_ms g))
     \<and> (case yag_expires_at_ms g of None \<Rightarrow> True | Some t \<Rightarrow> t \<ge> yag_created_at_ms g)
     \<and> is_ok (validate_encoded_roles (yag_app_roles g))"

definition grant_columns :: "access_grant_row \<Rightarrow> RepositoryError + YardAccessGrantRecord" where
  "grant_columns r =
     and_then (ok_or Unavailable (principal_kind_parse (ag_principal_kind r))) (\<lambda>kind.
     and_then (ok_or Unavailable (revocable_parse (ag_status r))) (\<lambda>status.
     and_then (required_u64 (ag_created_at_ms r)) (\<lambda>created_at_ms.
     and_then (optional_u64 (ag_expires_at_ms r)) (\<lambda>expires_at_ms.
     and_then (optional_u64 (ag_revoked_at_ms r)) (\<lambda>revoked_at_ms.
       Ok \<lparr>yag_id = ag_id r, yag_yard_id = ag_yard_id r, yag_environment_id = ag_environment_id r,
           yag_principal_kind = kind, yag_principal_id = ag_principal_id r, yag_app_roles = ag_app_roles r,
           yag_status = status, yag_created_at_ms = created_at_ms,
           yag_created_by_principal = ag_created_by_principal r, yag_expires_at_ms = expires_at_ms,
           yag_revoked_at_ms = revoked_at_ms\<rparr>)))))"

definition access_grant :: "access_grant_row \<Rightarrow> RepositoryError + YardAccessGrantRecord" where
  "access_grant r = and_then (grant_columns r) (\<lambda>g. if valid_grant_record g then Ok g else Err Unavailable)"

definition grant_by_id :: "admission_database \<Rightarrow> string \<Rightarrow> RepositoryError + YardAccessGrantRecord option" where
  "grant_by_id db grant_id = query_optional (\<lambda>g. ag_id g = grant_id) access_grant (access_grants db)"

definition is_guest_subject :: "admission_database \<Rightarrow> string \<Rightarrow> bool" where
  "is_guest_subject db principal_id \<longleftrightarrow>
     list_ex (\<lambda>s. su_id s = principal_id \<and> su_kind s = ''guest'') (yard_subjects db)"

definition require_active_group :: "admission_database \<Rightarrow> string \<Rightarrow> string \<Rightarrow> RepositoryError + unit" where
  "require_active_group db workspace_id group_id =
     ensure (list_ex (\<lambda>g. wg_id g = group_id \<and> wg_workspace_id g = workspace_id \<and> wg_status g = ''active'') (workspace_groups db))
       NotFound"

definition require_group_grant_capacity :: "admission_database \<Rightarrow> string \<Rightarrow> RepositoryError + unit" where
  "require_group_grant_capacity db group_id =
     ensure (count_up_to 501 (\<lambda>a. ag_principal_kind a = ''group'' \<and> ag_principal_id a = group_id \<and> ag_status a = ''active'')
       (access_grants db) < int MAXIMUM_ACTIVE_GROUP_GRANTS) Conflict"

definition validate_principal :: "admission_database \<Rightarrow> WebYardRecord \<Rightarrow> NewYardAccessGrant \<Rightarrow> RepositoryError + unit" where
  "validate_principal db y g =
     (if nag_principal_kind g \<in> {YpUser, YpGroup} \<and> is_guest_subject db (nag_principal_id g) then Err InvalidInput
      else case nag_principal_kind g of
        YpUser \<Rightarrow> require_active_member db (wyr_workspace_id y) (nag_principal_id g)
      | YpGroup \<Rightarrow> and_then (require_active_group db (wyr_workspace_id y) (nag_principal_id g)) (\<lambda>_.
          require_group_grant_capacity db (nag_principal_id g))
      | YpGuestInvite \<Rightarrow> Ok ()
      | YpLink \<Rightarrow> Ok ())"

definition require_active_environment :: "admission_database \<Rightarrow> string \<Rightarrow> string \<Rightarrow> RepositoryError + unit" where
  "require_active_environment db yard_id environment_id =
     ensure (list_ex (\<lambda>e. ye_id e = environment_id \<and> ye_yard_id e = yard_id \<and> ye_status e = ''active'')
       (yard_environments (yards db))) InvalidInput"

definition validated_grant_yard :: "admission_database \<Rightarrow> NewYardAccessGrant \<Rightarrow> RepositoryError + WebYardRecord" where
  "validated_grant_yard db g =
     (if nag_principal_kind g = YpGuestInvite then Err InvalidInput
      else
        and_then (try_each validate_text [nag_id g, nag_yard_id g, nag_principal_id g, nag_created_by_principal g]) (\<lambda>_.
        and_then (active_yard (yards db) (nag_yard_id g)) (\<lambda>y.
        and_then (case nag_environment_id g of None \<Rightarrow> Ok ()
            | Some e \<Rightarrow> and_then (validate_text e) (\<lambda>_. require_active_environment db (wyr_id y) e)) (\<lambda>_.
          if (case nag_expires_at_ms g of None \<Rightarrow> False | Some t \<Rightarrow> t < nag_created_at_ms g) then Err InvalidInput
          else and_then (validate_principal db y g) (\<lambda>_. Ok y)))))"

definition access_grant_allowed :: "admission_database \<Rightarrow> access_grant_row \<Rightarrow> bool" where
  "access_grant_allowed db row \<longleftrightarrow>
     access_grant_check row \<and> \<not> list_ex (\<lambda>r. ag_id r = ag_id row) (access_grants db)
     \<and> list_ex (\<lambda>y. wy_id y = ag_yard_id row) (web_yards (yards db))
     \<and> (case ag_environment_id row of None \<Rightarrow> True
        | Some e \<Rightarrow> list_ex (\<lambda>r. ye_id r = e) (yard_environments (yards db)))"

definition insert_grant_in ::
  "text_library \<Rightarrow> NewYardAccessGrant \<Rightarrow> NewAuditEvent \<Rightarrow> admission_database \<Rightarrow> RepositoryError + (YardAccessGrantRecord \<times> admission_database)" where
  "insert_grant_in uc g event db =
     and_then (validated_grant_yard db g) (\<lambda>y.
     and_then (validated_roles uc db (wyr_id y) (nag_app_roles g)) (\<lambda>roles.
     and_then (action_event event ''yard.access_granted'' ''yard_access_grant'' (wyr_workspace_id y) (nag_created_at_ms g)
       [(''environmentId'', case nag_environment_id g of None \<Rightarrow> AvNull | Some e \<Rightarrow> AvString e),
        (''grantId'', AvString (nag_id g)), (''principalKind'', AvString (principal_kind_as_str (nag_principal_kind g))),
        (''yardId'', AvString (wyr_id y))]) (\<lambda>created_at.
     and_then (transpose_option to_i64 (nag_expires_at_ms g)) (\<lambda>expires_at.
       let row = \<lparr>ag_id = nag_id g, ag_yard_id = wyr_id y, ag_environment_id = nag_environment_id g,
                  ag_principal_kind = principal_kind_as_str (nag_principal_kind g), ag_principal_id = nag_principal_id g,
                  ag_app_roles = roles, ag_status = ''active'', ag_created_at_ms = created_at,
                  ag_created_by_principal = nag_created_by_principal g, ag_expires_at_ms = expires_at,
                  ag_revoked_at_ms = None\<rparr>
       in and_then (insert_row (access_grant_allowed db row) row (access_grants db)) (\<lambda>rows.
          and_then (admission_audit (db\<lparr>access_grants := rows\<rparr>) event) (\<lambda>db.
          and_then (grant_by_id db (nag_id g)) (\<lambda>found.
          and_then (ok_or Unavailable found) (\<lambda>x. Ok (x, db)))))))))"

definition insert_yard_access_grant ::
  "text_library \<Rightarrow> admission_database \<Rightarrow> NewYardAccessGrant \<Rightarrow> NewAuditEvent \<Rightarrow> YardAccessGrantRecord admission_outcome" where
  "insert_yard_access_grant uc db g event = write_transaction (insert_grant_in uc g event) db"

definition revoke_grant_in ::
  "string \<Rightarrow> string \<Rightarrow> nat \<Rightarrow> NewAuditEvent \<Rightarrow> admission_database \<Rightarrow> RepositoryError + (bool \<times> admission_database)" where
  "revoke_grant_in yard_id grant_id revoked_at_ms event db =
     and_then (active_yard (yards db) yard_id) (\<lambda>y.
     and_then (grant_by_id db grant_id) (\<lambda>found.
     and_then (ok_or NotFound found) (\<lambda>g.
       if yag_yard_id g \<noteq> wyr_id y then Err NotFound
       else if yag_principal_kind g = YpGuestInvite then Err InvalidInput
       else if yag_status g = RvRevoked then Ok (False, db)
       else
         and_then (action_event event ''yard.access_revoked'' ''yard_access_grant'' (wyr_workspace_id y) revoked_at_ms
           [(''grantId'', AvString (yag_id g)), (''yardId'', AvString (wyr_id y))]) (\<lambda>revoked_at.
         and_then (update_rows (\<lambda>r. ag_id r = yag_id g \<and> ag_status r = ''active'')
           (\<lambda>r. r\<lparr>ag_status := ''revoked'', ag_revoked_at_ms := Some revoked_at\<rparr>) access_grant_check (access_grants db)) (\<lambda>(_, rows).
         and_then (admission_audit (db\<lparr>access_grants := rows\<rparr>) event) (\<lambda>db. Ok (True, db)))))))"

definition revoke_yard_access_grant ::
  "admission_database \<Rightarrow> string \<Rightarrow> string \<Rightarrow> nat \<Rightarrow> NewAuditEvent \<Rightarrow> bool admission_outcome" where
  "revoke_yard_access_grant db yard_id grant_id revoked_at_ms event =
     after (and_then (validate_text yard_id) (\<lambda>_. validate_text grant_id)) db (\<lambda>_.
     write_transaction (revoke_grant_in yard_id grant_id revoked_at_ms event) db)"

definition list_yard_access_grants :: "admission_database \<Rightarrow> string \<Rightarrow> nat \<Rightarrow> RepositoryError + YardAccessGrantRecord list" where
  "list_yard_access_grants db yard_id now_ms =
     and_then (validate_text yard_id) (\<lambda>_.
     and_then (to_i64 now_ms) (\<lambda>now.
       collect_results access_grant (rev (sort_key (\<lambda>g. (ag_created_at_ms g, ag_id g))
         (filter (\<lambda>g. ag_yard_id g = yard_id \<and> ag_status g = ''active''
            \<and> (case ag_expires_at_ms g of None \<Rightarrow> True | Some t \<Rightarrow> t > now)) (access_grants db))))))"

definition set_grant_roles_in ::
  "text_library \<Rightarrow> string \<Rightarrow> string \<Rightarrow> string list \<Rightarrow> nat \<Rightarrow> NewAuditEvent \<Rightarrow> admission_database
     \<Rightarrow> RepositoryError + (YardAccessGrantRecord \<times> admission_database)" where
  "set_grant_roles_in uc yard_id grant_id app_roles now_ms event db =
     and_then (active_yard (yards db) yard_id) (\<lambda>y.
     and_then (grant_by_id db grant_id) (\<lambda>found.
     and_then (ok_or NotFound found) (\<lambda>g.
       if yag_yard_id g \<noteq> wyr_id y \<or> yag_status g \<noteq> RvActive then Err NotFound
       else
         and_then (validated_roles uc db yard_id app_roles) (\<lambda>roles.
         and_then (action_event event ''yard.access_roles_set'' ''yard_access_grant'' (wyr_workspace_id y) now_ms
           [(''from'', AvString (role_json uc (sort (yag_app_roles g)))), (''grantId'', AvString grant_id),
            (''to'', AvString (role_json uc roles)), (''yardId'', AvString yard_id)]) (\<lambda>_.
         and_then (update_rows (\<lambda>r. ag_id r = grant_id \<and> ag_yard_id r = yard_id \<and> ag_status r = ''active'')
           (\<lambda>r. r\<lparr>ag_app_roles := roles\<rparr>) access_grant_check (access_grants db)) (\<lambda>(changed, rows).
         and_then (changed_once changed) (\<lambda>_.
         and_then (admission_audit (db\<lparr>access_grants := rows\<rparr>) event) (\<lambda>db.
         and_then (grant_by_id db grant_id) (\<lambda>found.
         and_then (ok_or Unavailable found) (\<lambda>x. Ok (x, db)))))))))))"

definition set_yard_access_roles ::
  "text_library \<Rightarrow> admission_database \<Rightarrow> string \<Rightarrow> string \<Rightarrow> string list \<Rightarrow> nat \<Rightarrow> NewAuditEvent
     \<Rightarrow> YardAccessGrantRecord admission_outcome" where
  "set_yard_access_roles uc db yard_id grant_id app_roles now_ms event =
     after (to_i64 now_ms) db (\<lambda>_. write_transaction (set_grant_roles_in uc yard_id grant_id app_roles now_ms event) db)"

end
