(* ===== verification/Yard_Guests.thy ===== *)
theory Yard_Guests
  imports Yard_Roles
begin

text \<open>
  Guest invitations of a Web Yard: \<^verbatim>\<open>yard_guest_invites.rs\<close>, \<^verbatim>\<open>yard_guest_create.rs\<close>,
  \<^verbatim>\<open>yard_guest_accept.rs\<close>, \<^verbatim>\<open>yard_guest_revoke.rs\<close>, \<^verbatim>\<open>yard_guest_keys.rs\<close>,
  \<^verbatim>\<open>yard_guest_queries.rs\<close>, \<^verbatim>\<open>yard_guest_rows.rs\<close> and \<^verbatim>\<open>yard_guest_events.rs\<close>. An invitation is created
  with its grant, accepted once through its token, which creates the guest subject, its sign-in key
  and its first exchange code, and revoked together with the grant and the keys.
\<close>

section \<open>Contract types\<close>

definition YARD_GUEST_INVITE_PAGE_SIZE :: nat where "YARD_GUEST_INVITE_PAGE_SIZE = 50"
definition MAXIMUM_ACTIVE_YARD_GUEST_INVITES :: nat where "MAXIMUM_ACTIVE_YARD_GUEST_INVITES = 100"
definition YARD_GUEST_INVITE_MINIMUM_LIFETIME_MS :: nat where "YARD_GUEST_INVITE_MINIMUM_LIFETIME_MS = 300000"
definition YARD_GUEST_INVITE_MAXIMUM_LIFETIME_MS :: nat where "YARD_GUEST_INVITE_MAXIMUM_LIFETIME_MS = 2592000000"

datatype YardSubjectKind = YkMember | YkGuest

fun subject_kind_as_str :: "YardSubjectKind \<Rightarrow> string" where
  "subject_kind_as_str YkMember = ''member''"
| "subject_kind_as_str YkGuest = ''guest''"

definition subject_kind_parse :: "string \<Rightarrow> YardSubjectKind option" where
  "subject_kind_parse value =
     (if value = ''member'' then Some YkMember else if value = ''guest'' then Some YkGuest else None)"

interpretation yard_subject_kind: string_codec subject_kind_as_str subject_kind_parse
proof unfold_locales
  show "subject_kind_parse (subject_kind_as_str x) = Some x" for x
    by (cases x) (simp_all add: subject_kind_parse_def)
qed (auto simp: subject_kind_parse_def split: if_split_asm)

datatype YardGuestInviteStatus = GiPending | GiAccepted | GiRevoked

fun guest_invite_status_as_str :: "YardGuestInviteStatus \<Rightarrow> string" where
  "guest_invite_status_as_str GiPending = ''pending''"
| "guest_invite_status_as_str GiAccepted = ''accepted''"
| "guest_invite_status_as_str GiRevoked = ''revoked''"

definition guest_invite_status_parse :: "string \<Rightarrow> YardGuestInviteStatus option" where
  "guest_invite_status_parse value =
     (if value = ''pending'' then Some GiPending else if value = ''accepted'' then Some GiAccepted
      else if value = ''revoked'' then Some GiRevoked else None)"

interpretation guest_invite_status: string_codec guest_invite_status_as_str guest_invite_status_parse
proof unfold_locales
  show "guest_invite_status_parse (guest_invite_status_as_str x) = Some x" for x
    by (cases x) (simp_all add: guest_invite_status_parse_def)
qed (auto simp: guest_invite_status_parse_def split: if_split_asm)

record YardSubjectRecord =
  ysr_id :: string
  ysr_kind :: YardSubjectKind
  ysr_workspace_id :: string
  ysr_local_user_id :: "string option"
  ysr_invitation_id :: "string option"
  ysr_created_at_ms :: nat
  ysr_revoked_at_ms :: "nat option"

record YardGuestInviteCursor =
  ygc_created_at_ms :: nat
  ygc_id :: string

record NewYardGuestInvite =
  ngi_id :: string
  ngi_workspace_id :: string
  ngi_project_id :: string
  ngi_yard_id :: string
  ngi_environment_id :: "string option"
  ngi_email :: string
  ngi_token_hash :: string
  ngi_grant_id :: string
  ngi_created_at_ms :: nat
  ngi_expires_at_ms :: nat

record YardGuestInviteRecord =
  ygi_id :: string
  ygi_workspace_id :: string
  ygi_project_id :: string
  ygi_yard_id :: string
  ygi_environment_id :: "string option"
  ygi_email :: string
  ygi_status :: YardGuestInviteStatus
  ygi_accepted_subject_id :: "string option"
  ygi_grant_id :: string
  ygi_app_roles :: "string list"
  ygi_created_at_ms :: nat
  ygi_expires_at_ms :: nat
  ygi_accepted_at_ms :: "nat option"
  ygi_revoked_at_ms :: "nat option"

record YardGuestInvitePage =
  ygp_items :: "YardGuestInviteRecord list"
  ygp_next_cursor :: "YardGuestInviteCursor option"

record YardGuestLoginKeyRecord =
  ygk_id :: string
  ygk_subject_id :: string
  ygk_invitation_id :: string
  ygk_workspace_id :: string
  ygk_token_prefix :: string
  ygk_secret_hash :: string
  ygk_created_at_ms :: nat
  ygk_expires_at_ms :: nat
  ygk_last_used_at_ms :: "nat option"
  ygk_revoked_at_ms :: "nat option"

record YardGuestAcceptance =
  yga_invitation :: YardGuestInviteRecord
  yga_subject :: YardSubjectRecord

text \<open>What both forms of an invitation give an audit event, the trait \<^verbatim>\<open>YardGuestAuditInvitation\<close>.\<close>

record guest_scope =
  gs_invitation_id :: string
  gs_workspace_id :: string
  gs_project_id :: string
  gs_yard_id :: string
  gs_environment_id :: "string option"
  gs_grant_id :: string

definition new_invite_scope :: "NewYardGuestInvite \<Rightarrow> guest_scope" where
  "new_invite_scope i =
     \<lparr>gs_invitation_id = ngi_id i, gs_workspace_id = ngi_workspace_id i, gs_project_id = ngi_project_id i,
      gs_yard_id = ngi_yard_id i, gs_environment_id = ngi_environment_id i, gs_grant_id = ngi_grant_id i\<rparr>"

definition invite_scope :: "YardGuestInviteRecord \<Rightarrow> guest_scope" where
  "invite_scope i =
     \<lparr>gs_invitation_id = ygi_id i, gs_workspace_id = ygi_workspace_id i, gs_project_id = ygi_project_id i,
      gs_yard_id = ygi_yard_id i, gs_environment_id = ygi_environment_id i, gs_grant_id = ygi_grant_id i\<rparr>"

definition optional_text :: "string option \<Rightarrow> AuditValue" where
  "optional_text v = (case v of None \<Rightarrow> AvNull | Some t \<Rightarrow> AvString t)"

definition yard_guest_audit_metadata :: "guest_scope \<Rightarrow> string option \<Rightarrow> (string \<times> AuditValue) list" where
  "yard_guest_audit_metadata i subject_id =
     [(''environmentId'', optional_text (gs_environment_id i)), (''grantId'', AvString (gs_grant_id i)),
      (''invitationId'', AvString (gs_invitation_id i)), (''projectId'', AvString (gs_project_id i)),
      (''subjectId'', optional_text subject_id), (''yardId'', AvString (gs_yard_id i))]"

definition validate_guest_event ::
  "NewAuditEvent \<Rightarrow> string \<Rightarrow> guest_scope \<Rightarrow> string option \<Rightarrow> nat \<Rightarrow> RepositoryError + int" where
  "validate_guest_event event action i subject_id at_ms =
     action_event event action ''yard_guest_invite'' (gs_workspace_id i) at_ms (yard_guest_audit_metadata i subject_id)"

section \<open>Constraints\<close>

text \<open>\<^verbatim>\<open>length\<close> of a text column counts its characters.\<close>

definition guest_invitation_check :: "guest_invitation_row \<Rightarrow> bool" where
  "guest_invitation_check r \<longleftrightarrow>
     valid_prefixed_hex_id (gi_id r) ''ygi_''
     \<and> 3 \<le> length (chars (gi_email r)) \<and> length (chars (gi_email r)) \<le> 254
     \<and> (case gi_token_hash r of None \<Rightarrow> True | Some h \<Rightarrow> lower_hex_text 64 h)
     \<and> gi_created_at_ms r \<ge> 0 \<and> gi_expires_at_ms r > gi_created_at_ms r
     \<and> at_or_after (gi_created_at_ms r) (gi_accepted_at_ms r) \<and> at_or_after (gi_created_at_ms r) (gi_revoked_at_ms r)
     \<and> (gi_status r = ''pending'' \<and> gi_token_hash r \<noteq> None \<and> gi_accepted_subject_id r = None
          \<and> gi_accepted_at_ms r = None \<and> gi_revoked_at_ms r = None
        \<or> gi_status r = ''accepted'' \<and> gi_token_hash r = None \<and> gi_accepted_subject_id r \<noteq> None
          \<and> gi_accepted_at_ms r \<noteq> None \<and> gi_revoked_at_ms r = None
        \<or> gi_status r = ''revoked'' \<and> gi_token_hash r = None \<and> gi_revoked_at_ms r \<noteq> None)"

definition accepted_subject_exists :: "admission_database \<Rightarrow> guest_invitation_row \<Rightarrow> bool" where
  "accepted_subject_exists db r \<longleftrightarrow>
     (case gi_accepted_subject_id r of None \<Rightarrow> True
      | Some i \<Rightarrow> list_ex (\<lambda>s. su_id s = i \<and> su_workspace_id s = gi_workspace_id r \<and> su_invitation_id s = Some (gi_id r))
          (yard_subjects db))"

definition guest_invitation_allowed :: "admission_database \<Rightarrow> guest_invitation_row \<Rightarrow> bool" where
  "guest_invitation_allowed db row \<longleftrightarrow>
     guest_invitation_check row
     \<and> \<not> list_ex (\<lambda>r. gi_id r = gi_id row \<or> (gi_token_hash row \<noteq> None \<and> gi_token_hash r = gi_token_hash row))
         (guest_invitations db)
     \<and> workspace_exists db (gi_workspace_id row)
     \<and> list_ex (\<lambda>p. pj_id p = gi_project_id row \<and> pj_workspace_id p = gi_workspace_id row) (projects (repository (yards db)))
     \<and> list_ex (\<lambda>y. wy_id y = gi_yard_id row \<and> wy_project_id y = gi_project_id row \<and> wy_workspace_id y = gi_workspace_id row)
         (web_yards (yards db))
     \<and> (case gi_environment_id row of None \<Rightarrow> True
        | Some i \<Rightarrow> list_ex (\<lambda>e. ye_id e = i \<and> ye_yard_id e = gi_yard_id row) (yard_environments (yards db)))
     \<and> list_ex (\<lambda>g. ag_id g = gi_grant_id row \<and> ag_yard_id g = gi_yard_id row) (access_grants db)
     \<and> accepted_subject_exists db row"

definition guest_key_check :: "guest_key_row \<Rightarrow> bool" where
  "guest_key_check r \<longleftrightarrow>
     1 \<le> length (chars (gk_token_prefix r)) \<and> length (chars (gk_token_prefix r)) \<le> 32
     \<and> lower_hex_text 64 (gk_secret_hash r) \<and> gk_created_at_ms r \<ge> 0 \<and> gk_expires_at_ms r > gk_created_at_ms r
     \<and> at_or_after (gk_created_at_ms r) (gk_last_used_at_ms r) \<and> at_or_after (gk_created_at_ms r) (gk_revoked_at_ms r)"

definition guest_key_allowed :: "admission_database \<Rightarrow> guest_key_row \<Rightarrow> bool" where
  "guest_key_allowed db row \<longleftrightarrow>
     guest_key_check row
     \<and> \<not> list_ex (\<lambda>r. gk_id r = gk_id row \<or> gk_secret_hash r = gk_secret_hash row) (guest_keys db)
     \<and> list_ex (\<lambda>s. su_id s = gk_subject_id row \<and> su_workspace_id s = gk_workspace_id row
          \<and> su_invitation_id s = Some (gk_invitation_id row)) (yard_subjects db)
     \<and> list_ex (\<lambda>i. gi_id i = gk_invitation_id row \<and> gi_workspace_id i = gk_workspace_id row) (guest_invitations db)"

section \<open>Rows\<close>

definition validate_invitation_texts :: "guest_scope \<Rightarrow> string \<Rightarrow> RepositoryError + unit" where
  "validate_invitation_texts i email =
     try_each validate_text [gs_invitation_id i, gs_workspace_id i, gs_project_id i, gs_yard_id i, email, gs_grant_id i]"

definition validate_invitation ::
  "text_library \<Rightarrow> YardGuestInviteRecord \<Rightarrow> YardAccessGrantRecord \<Rightarrow> RepositoryError + unit" where
  "validate_invitation uc i g =
     and_then (validate_invitation_texts (invite_scope i) (ygi_email i)) (\<lambda>_.
       ensure (yag_id g = ygi_grant_id i \<and> yag_yard_id g = ygi_yard_id i \<and> yag_environment_id g = ygi_environment_id i
         \<and> yag_principal_kind g = YpGuestInvite \<and> yag_principal_id g = ygi_id i \<and> yag_app_roles g = ygi_app_roles i
         \<and> yag_created_at_ms g = ygi_created_at_ms i \<and> yag_expires_at_ms g = Some (ygi_expires_at_ms i)
         \<and> (case ygi_status i of
              GiPending \<Rightarrow> ygi_accepted_subject_id i = None \<and> ygi_accepted_at_ms i = None \<and> ygi_revoked_at_ms i = None
                \<and> yag_status g = RvActive \<and> yag_revoked_at_ms g = None
            | GiAccepted \<Rightarrow> ygi_accepted_subject_id i \<noteq> None \<and> ygi_accepted_at_ms i \<noteq> None \<and> ygi_revoked_at_ms i = None
                \<and> yag_status g = RvActive \<and> yag_revoked_at_ms g = None
            | GiRevoked \<Rightarrow> ygi_revoked_at_ms i \<noteq> None \<and> yag_status g = RvRevoked
                \<and> yag_revoked_at_ms g = ygi_revoked_at_ms i)
         \<and> ygi_created_at_ms i < ygi_expires_at_ms i \<and> normalized_email uc (ygi_email i)) Unavailable)"

definition guest_invitation ::
  "text_library \<Rightarrow> guest_invitation_row \<times> access_grant_row \<Rightarrow> RepositoryError + YardGuestInviteRecord" where
  "guest_invitation uc ig =
     (let i = fst ig; a = snd ig
      in and_then (ok_or Unavailable (guest_invite_status_parse (gi_status i))) (\<lambda>status.
         and_then (required_u64 (gi_created_at_ms i)) (\<lambda>created_at_ms.
         and_then (required_u64 (gi_expires_at_ms i)) (\<lambda>expires_at_ms.
         and_then (optional_u64 (gi_accepted_at_ms i)) (\<lambda>accepted_at_ms.
         and_then (optional_u64 (gi_revoked_at_ms i)) (\<lambda>revoked_at_ms.
           let r = \<lparr>ygi_id = gi_id i, ygi_workspace_id = gi_workspace_id i, ygi_project_id = gi_project_id i,
                    ygi_yard_id = gi_yard_id i, ygi_environment_id = gi_environment_id i, ygi_email = gi_email i,
                    ygi_status = status, ygi_accepted_subject_id = gi_accepted_subject_id i, ygi_grant_id = gi_grant_id i,
                    ygi_app_roles = ag_app_roles a, ygi_created_at_ms = created_at_ms, ygi_expires_at_ms = expires_at_ms,
                    ygi_accepted_at_ms = accepted_at_ms, ygi_revoked_at_ms = revoked_at_ms\<rparr>
           in and_then (grant_columns a) (\<lambda>g.
              and_then (map_err (\<lambda>_. Unavailable) (validate_invitation uc r g)) (\<lambda>_. Ok r))))))))"

definition validate_subject :: "YardSubjectRecord \<Rightarrow> RepositoryError + unit" where
  "validate_subject s =
     and_then (validate_text (ysr_id s)) (\<lambda>_.
     and_then (validate_text (ysr_workspace_id s)) (\<lambda>_.
       ensure ((case ysr_kind s of
            YkMember \<Rightarrow> ysr_local_user_id s = Some (ysr_id s) \<and> ysr_invitation_id s = None
          | YkGuest \<Rightarrow> ysr_local_user_id s = None \<and> ysr_invitation_id s \<noteq> None \<and> valid_prefixed_hex_id (ysr_id s) ''guest_'')
         \<and> (case ysr_revoked_at_ms s of None \<Rightarrow> True | Some t \<Rightarrow> t \<ge> ysr_created_at_ms s)) InvalidInput))"

definition yard_subject :: "yard_subject_row \<Rightarrow> RepositoryError + YardSubjectRecord" where
  "yard_subject r =
     and_then (ok_or Unavailable (subject_kind_parse (su_kind r))) (\<lambda>kind.
     and_then (required_u64 (su_created_at_ms r)) (\<lambda>created_at_ms.
     and_then (optional_u64 (su_revoked_at_ms r)) (\<lambda>revoked_at_ms.
       let s = \<lparr>ysr_id = su_id r, ysr_kind = kind, ysr_workspace_id = su_workspace_id r,
                ysr_local_user_id = su_local_user_id r, ysr_invitation_id = su_invitation_id r,
                ysr_created_at_ms = created_at_ms, ysr_revoked_at_ms = revoked_at_ms\<rparr>
       in and_then (map_err (\<lambda>_. Unavailable) (validate_subject s)) (\<lambda>_. Ok s))))"

definition validate_new_guest_key :: "YardGuestLoginKeyRecord \<Rightarrow> RepositoryError + unit" where
  "validate_new_guest_key k =
     and_then (try_each validate_text [ygk_id k, ygk_subject_id k, ygk_invitation_id k, ygk_workspace_id k, ygk_token_prefix k]) (\<lambda>_.
     and_then (validate_hash (ygk_secret_hash k)) (\<lambda>_.
       ensure (ygk_created_at_ms k < ygk_expires_at_ms k \<and> ygk_last_used_at_ms k = None \<and> ygk_revoked_at_ms k = None)
         InvalidInput))"

section \<open>Queries\<close>

definition invitation_join :: "admission_database \<Rightarrow> (guest_invitation_row \<times> access_grant_row) list" where
  "invitation_join db =
     filter (\<lambda>(i, g). ag_id g = gi_grant_id i \<and> ag_yard_id g = gi_yard_id i)
       (List.product (guest_invitations db) (access_grants db))"

definition guest_invite_by_id ::
  "text_library \<Rightarrow> admission_database \<Rightarrow> string \<Rightarrow> RepositoryError + YardGuestInviteRecord option" where
  "guest_invite_by_id uc db invitation_id =
     query_optional (\<lambda>(i, g). gi_id i = invitation_id) (guest_invitation uc) (invitation_join db)"

definition yard_guest_invite_by_id ::
  "text_library \<Rightarrow> admission_database \<Rightarrow> string \<Rightarrow> RepositoryError + YardGuestInviteRecord" where
  "yard_guest_invite_by_id uc db invitation_id =
     and_then (validate_text invitation_id) (\<lambda>_.
     and_then (guest_invite_by_id uc db invitation_id) (ok_or NotFound))"

definition pending_matches :: "admission_database \<Rightarrow> string \<Rightarrow> int \<Rightarrow> (guest_invitation_row \<times> access_grant_row) list" where
  "pending_matches db token_hash now =
     take 2 (filter (\<lambda>(i, g). gi_token_hash i = Some token_hash \<and> gi_status i = ''pending'' \<and> gi_expires_at_ms i > now
       \<and> ag_status g = ''active'' \<and> ag_revoked_at_ms g = None \<and> ag_expires_at_ms g = Some (gi_expires_at_ms i))
       (invitation_join db))"

definition pending_by_hash ::
  "text_library \<Rightarrow> admission_database \<Rightarrow> string \<Rightarrow> int \<Rightarrow> RepositoryError + YardGuestInviteRecord" where
  "pending_by_hash uc db token_hash now =
     and_then (validate_hash token_hash) (\<lambda>_.
     and_then (collect_results (guest_invitation uc) (pending_matches db token_hash now)) (\<lambda>matches.
       case matches of [i] \<Rightarrow> Ok i | _ \<Rightarrow> Err NotFound))"

definition pending_yard_guest_invite_by_token ::
  "text_library \<Rightarrow> admission_database \<Rightarrow> string \<Rightarrow> nat \<Rightarrow> RepositoryError + YardGuestInviteRecord" where
  "pending_yard_guest_invite_by_token uc db token_hash now_ms =
     and_then (sql_time now_ms) (pending_by_hash uc db token_hash)"

definition list_yard_guest_invites ::
  "text_library \<Rightarrow> admission_database \<Rightarrow> string \<Rightarrow> YardGuestInviteCursor option \<Rightarrow> nat \<Rightarrow> RepositoryError + YardGuestInvitePage" where
  "list_yard_guest_invites uc db yard_id cursor limit =
     and_then (validate_text yard_id) (\<lambda>_.
       if limit = 0 \<or> limit > YARD_GUEST_INVITE_PAGE_SIZE then Err InvalidInput
       else
         and_then (case cursor of None \<Rightarrow> Ok None
             | Some c \<Rightarrow> and_then (sql_time (ygc_created_at_ms c)) (\<lambda>t.
                 and_then (validate_text (ygc_id c)) (\<lambda>_. Ok (Some (t, ygc_id c))))) (\<lambda>place.
         and_then (collect_results (guest_invitation uc)
           (keyset_rows (\<lambda>(i, g). (gi_created_at_ms i, gi_id i)) place limit
             (filter (\<lambda>(i, g). gi_yard_id i = yard_id) (invitation_join db)))) (\<lambda>items.
           Ok \<lparr>ygp_items = take limit items,
               ygp_next_cursor = map_option (\<lambda>i. \<lparr>ygc_created_at_ms = ygi_created_at_ms i, ygc_id = ygi_id i\<rparr>)
                 (page_end limit items)\<rparr>)))"

section \<open>Creating an invitation\<close>

definition require_guest_environment :: "admission_database \<Rightarrow> string \<Rightarrow> string \<Rightarrow> RepositoryError + unit" where
  "require_guest_environment db yard_id environment_id =
     ensure (list_ex (\<lambda>e. ye_id e = environment_id \<and> ye_yard_id e = yard_id \<and> ye_kind e = ''production''
       \<and> ye_status e = ''active'') (yard_environments (yards db))) NotFound"

definition validate_create ::
  "text_library \<Rightarrow> admission_database \<Rightarrow> NewYardGuestInvite \<Rightarrow> NewYardAccessGrant \<Rightarrow> RepositoryError + unit" where
  "validate_create uc db i g =
     and_then (validate_invitation_texts (new_invite_scope i) (ngi_email i)) (\<lambda>_.
     and_then (validate_hash (ngi_token_hash i)) (\<lambda>_.
     and_then (active_yard (yards db) (ngi_yard_id i)) (\<lambda>y.
       if valid_prefixed_hex_id (ngi_id i) ''ygi_'' \<and> normalized_email uc (ngi_email i)
          \<and> wyr_workspace_id y = ngi_workspace_id i \<and> wyr_project_id y = ngi_project_id i
          \<and> ngi_created_at_ms i \<le> ngi_expires_at_ms i
          \<and> YARD_GUEST_INVITE_MINIMUM_LIFETIME_MS \<le> ngi_expires_at_ms i - ngi_created_at_ms i
          \<and> ngi_expires_at_ms i - ngi_created_at_ms i \<le> YARD_GUEST_INVITE_MAXIMUM_LIFETIME_MS
          \<and> nag_id g = ngi_grant_id i \<and> nag_yard_id g = ngi_yard_id i \<and> nag_environment_id g = ngi_environment_id i
          \<and> nag_principal_kind g = YpGuestInvite \<and> nag_principal_id g = ngi_id i
          \<and> nag_created_at_ms g = ngi_created_at_ms i \<and> trim (nag_created_by_principal g) = nag_created_by_principal g
          \<and> nag_expires_at_ms g = Some (ngi_expires_at_ms i)
       then (case ngi_environment_id i of None \<Rightarrow> Ok () | Some e \<Rightarrow> require_guest_environment db (ngi_yard_id i) e)
       else Err InvalidInput)))"

definition require_capacity :: "admission_database \<Rightarrow> NewYardGuestInvite \<Rightarrow> int \<Rightarrow> RepositoryError + unit" where
  "require_capacity db i now =
     (let open_invite = (\<lambda>r. gi_yard_id r = ngi_yard_id i \<and> gi_status r \<in> {''pending'', ''accepted''} \<and> gi_expires_at_ms r > now)
      in if count_up_to 101 open_invite (guest_invitations db) \<ge> int MAXIMUM_ACTIVE_YARD_GUEST_INVITES then Err Conflict
         else ensure (\<not> list_ex (\<lambda>r. open_invite r \<and> gi_environment_id r = ngi_environment_id i \<and> gi_email r = ngi_email i)
                (guest_invitations db)) Conflict)"

definition insert_guest_grant ::
  "NewYardAccessGrant \<Rightarrow> string list \<Rightarrow> int \<Rightarrow> int \<Rightarrow> admission_database \<Rightarrow> RepositoryError + admission_database" where
  "insert_guest_grant g roles created_at expires_at db =
     (let row = \<lparr>ag_id = nag_id g, ag_yard_id = nag_yard_id g, ag_environment_id = nag_environment_id g,
                ag_principal_kind = ''guest-invite'', ag_principal_id = nag_principal_id g, ag_app_roles = roles,
                ag_status = ''active'', ag_created_at_ms = created_at, ag_created_by_principal = nag_created_by_principal g,
                ag_expires_at_ms = Some expires_at, ag_revoked_at_ms = None\<rparr>
      in and_then (insert_row (access_grant_allowed db row) row (access_grants db)) (\<lambda>rows. Ok (db\<lparr>access_grants := rows\<rparr>)))"

definition insert_invitation ::
  "NewYardGuestInvite \<Rightarrow> int \<Rightarrow> int \<Rightarrow> admission_database \<Rightarrow> RepositoryError + admission_database" where
  "insert_invitation i created_at expires_at db =
     (let row = \<lparr>gi_id = ngi_id i, gi_workspace_id = ngi_workspace_id i, gi_project_id = ngi_project_id i,
                gi_yard_id = ngi_yard_id i, gi_environment_id = ngi_environment_id i, gi_email = ngi_email i,
                gi_token_hash = Some (ngi_token_hash i), gi_status = ''pending'', gi_accepted_subject_id = None,
                gi_grant_id = ngi_grant_id i, gi_created_at_ms = created_at, gi_expires_at_ms = expires_at,
                gi_accepted_at_ms = None, gi_revoked_at_ms = None\<rparr>
      in and_then (insert_row (guest_invitation_allowed db row) row (guest_invitations db)) (\<lambda>rows.
           Ok (db\<lparr>guest_invitations := rows\<rparr>)))"

definition create_invite_in ::
  "text_library \<Rightarrow> NewYardGuestInvite \<Rightarrow> NewYardAccessGrant \<Rightarrow> NewAuditEvent \<Rightarrow> admission_database
     \<Rightarrow> RepositoryError + (YardGuestInviteRecord \<times> admission_database)" where
  "create_invite_in uc i g event db =
     and_then (validate_create uc db i g) (\<lambda>_.
     and_then (validate_guest_event event ''yard.guest_invite.created'' (new_invite_scope i) None (ngi_created_at_ms i)) (\<lambda>created_at.
     and_then (sql_time (ngi_expires_at_ms i)) (\<lambda>expires_at.
     and_then (require_capacity db i created_at) (\<lambda>_.
     and_then (validated_roles uc db (ngi_yard_id i) (nag_app_roles g)) (\<lambda>roles.
     and_then (insert_guest_grant g roles created_at expires_at db) (\<lambda>db.
     and_then (insert_invitation i created_at expires_at db) (\<lambda>db.
     and_then (admission_audit db event) (\<lambda>db.
     and_then (guest_invite_by_id uc db (ngi_id i)) (\<lambda>found.
     and_then (ok_or Unavailable found) (\<lambda>x. Ok (x, db)))))))))))"

definition create_yard_guest_invite ::
  "text_library \<Rightarrow> admission_database \<Rightarrow> NewYardGuestInvite \<Rightarrow> NewYardAccessGrant \<Rightarrow> NewAuditEvent
     \<Rightarrow> YardGuestInviteRecord admission_outcome" where
  "create_yard_guest_invite uc db i g event = write_transaction (create_invite_in uc i g event) db"

section \<open>Accepting an invitation\<close>

definition validate_acceptance ::
  "YardGuestInviteRecord \<Rightarrow> YardSubjectRecord \<Rightarrow> YardGuestLoginKeyRecord \<Rightarrow> NewYardContinuation \<Rightarrow> NewAuditEvent \<Rightarrow> nat
     \<Rightarrow> RepositoryError + unit" where
  "validate_acceptance i s k c event now_ms =
     and_then (validate_subject s) (\<lambda>_.
     and_then (validate_new_guest_key k) (\<lambda>_.
     and_then (validate_guest_event event ''yard.guest_invite.accepted'' (invite_scope i) (Some (ysr_id s)) now_ms) (\<lambda>_.
       ensure (ysr_kind s = YkGuest \<and> ysr_workspace_id s = ygi_workspace_id i \<and> ysr_invitation_id s = Some (ygi_id i)
         \<and> ysr_created_at_ms s = now_ms \<and> ysr_revoked_at_ms s = None
         \<and> ygk_subject_id k = ysr_id s \<and> ygk_invitation_id k = ygi_id i \<and> ygk_workspace_id k = ygi_workspace_id i
         \<and> ygk_created_at_ms k = now_ms \<and> ygk_expires_at_ms k = ygi_expires_at_ms i
         \<and> nyc_user_id c = ysr_id s \<and> nyc_yard_id c = ygi_yard_id i
         \<and> (case ygi_environment_id i of None \<Rightarrow> True | Some e \<Rightarrow> e = nyc_environment_id c)
         \<and> nyc_created_at_ms c = now_ms) InvalidInput)))"

definition insert_guest_subject :: "YardSubjectRecord \<Rightarrow> int \<Rightarrow> admission_database \<Rightarrow> RepositoryError + admission_database" where
  "insert_guest_subject s created_at db =
     (let row = \<lparr>su_id = ysr_id s, su_kind = ''guest'', su_workspace_id = ysr_workspace_id s, su_local_user_id = None,
                su_invitation_id = ysr_invitation_id s, su_created_at_ms = created_at, su_revoked_at_ms = None\<rparr>
      in and_then (insert_row (yard_subject_allowed db row) row (yard_subjects db)) (\<lambda>rows. Ok (db\<lparr>yard_subjects := rows\<rparr>)))"

definition mark_accepted ::
  "string \<Rightarrow> string \<Rightarrow> string \<Rightarrow> int \<Rightarrow> admission_database \<Rightarrow> RepositoryError + admission_database" where
  "mark_accepted invitation_id subject_id token_hash now db =
     and_then (update_rows (\<lambda>i. gi_id i = invitation_id \<and> gi_status i = ''pending'' \<and> gi_token_hash i = Some token_hash
         \<and> gi_expires_at_ms i > now)
       (\<lambda>i. i\<lparr>gi_token_hash := None, gi_status := ''accepted'', gi_accepted_subject_id := Some subject_id,
              gi_accepted_at_ms := Some now\<rparr>) (\<lambda>i. guest_invitation_check i \<and> accepted_subject_exists db i)
       (guest_invitations db)) (\<lambda>(changed, rows).
     and_then (changed_once changed) (\<lambda>_. Ok (db\<lparr>guest_invitations := rows\<rparr>)))"

definition insert_guest_key ::
  "YardGuestLoginKeyRecord \<Rightarrow> int \<Rightarrow> int \<Rightarrow> admission_database \<Rightarrow> RepositoryError + admission_database" where
  "insert_guest_key k created_at expires_at db =
     (let row = \<lparr>gk_id = ygk_id k, gk_subject_id = ygk_subject_id k, gk_invitation_id = ygk_invitation_id k,
                gk_workspace_id = ygk_workspace_id k, gk_token_prefix = ygk_token_prefix k,
                gk_secret_hash = ygk_secret_hash k, gk_created_at_ms = created_at, gk_expires_at_ms = expires_at,
                gk_last_used_at_ms = None, gk_revoked_at_ms = None\<rparr>
      in and_then (insert_row (guest_key_allowed db row) row (guest_keys db)) (\<lambda>rows. Ok (db\<lparr>guest_keys := rows\<rparr>)))"

definition accept_in ::
  "text_library \<Rightarrow> string \<Rightarrow> YardSubjectRecord \<Rightarrow> YardGuestLoginKeyRecord \<Rightarrow> NewYardContinuation \<Rightarrow> NewAuditEvent \<Rightarrow> nat
     \<Rightarrow> admission_database \<Rightarrow> RepositoryError + (YardGuestAcceptance \<times> admission_database)" where
  "accept_in uc token_hash s k c event now_ms db =
     and_then (sql_time now_ms) (\<lambda>now.
     and_then (pending_by_hash uc db token_hash now) (\<lambda>i.
     and_then (validate_acceptance i s k c event now_ms) (\<lambda>_.
     and_then (insert_guest_subject s now db) (\<lambda>db.
     and_then (mark_accepted (ygi_id i) (ysr_id s) token_hash now db) (\<lambda>db.
     and_then (insert_guest_key k now (cast_signed (ygi_expires_at_ms i)) db) (\<lambda>db.
     and_then (issue_in c db) (\<lambda>(_, db).
     and_then (admission_audit db event) (\<lambda>db.
       Ok (\<lparr>yga_invitation = i\<lparr>ygi_status := GiAccepted, ygi_accepted_subject_id := Some (ysr_id s),
              ygi_accepted_at_ms := Some now_ms\<rparr>, yga_subject = s\<rparr>, db)))))))))"

definition accept_yard_guest_invite ::
  "text_library \<Rightarrow> admission_database \<Rightarrow> string \<Rightarrow> YardSubjectRecord \<Rightarrow> YardGuestLoginKeyRecord \<Rightarrow> NewYardContinuation
     \<Rightarrow> NewAuditEvent \<Rightarrow> nat \<Rightarrow> YardGuestAcceptance admission_outcome" where
  "accept_yard_guest_invite uc db token_hash s k c event now_ms =
     write_transaction (accept_in uc token_hash s k c event now_ms) db"

section \<open>Revoking an invitation\<close>

definition mark_revoked :: "string \<Rightarrow> int \<Rightarrow> admission_database \<Rightarrow> RepositoryError + admission_database" where
  "mark_revoked invitation_id now db =
     and_then (update_rows (\<lambda>i. gi_id i = invitation_id \<and> gi_status i \<in> {''pending'', ''accepted''})
       (\<lambda>i. i\<lparr>gi_token_hash := None, gi_status := ''revoked'', gi_revoked_at_ms := Some now\<rparr>) guest_invitation_check
       (guest_invitations db)) (\<lambda>(changed, rows).
     and_then (changed_once changed) (\<lambda>_. Ok (db\<lparr>guest_invitations := rows\<rparr>)))"

definition revoke_authority :: "YardGuestInviteRecord \<Rightarrow> int \<Rightarrow> admission_database \<Rightarrow> RepositoryError + admission_database" where
  "revoke_authority i now db =
     and_then (update_rows (\<lambda>g. ag_id g = ygi_grant_id i \<and> ag_status g = ''active'' \<and> ag_revoked_at_ms g = None)
       (\<lambda>g. g\<lparr>ag_status := ''revoked'', ag_revoked_at_ms := Some now\<rparr>) access_grant_check (access_grants db)) (\<lambda>(changed, grants).
     and_then (changed_once changed) (\<lambda>_.
     and_then (update_rows (\<lambda>k. gk_invitation_id k = ygi_id i \<and> gk_revoked_at_ms k = None)
       (\<lambda>k. k\<lparr>gk_revoked_at_ms := Some now\<rparr>) guest_key_check (guest_keys db)) (\<lambda>(_, keys).
       Ok (db\<lparr>access_grants := grants, guest_keys := keys\<rparr>))))"

definition revoke_invite_in ::
  "text_library \<Rightarrow> string \<Rightarrow> string \<Rightarrow> nat \<Rightarrow> NewAuditEvent \<Rightarrow> admission_database
     \<Rightarrow> RepositoryError + (YardGuestInviteRecord \<times> admission_database)" where
  "revoke_invite_in uc yard_id invitation_id now_ms event db =
     and_then (validate_text yard_id) (\<lambda>_.
     and_then (validate_text invitation_id) (\<lambda>_.
     and_then (guest_invite_by_id uc db invitation_id) (\<lambda>found.
     and_then (ok_or NotFound found) (\<lambda>i.
       if ygi_yard_id i \<noteq> yard_id then Err NotFound
       else if ygi_status i = GiRevoked then Err Conflict
       else
         and_then (validate_guest_event event ''yard.guest_invite.revoked'' (invite_scope i) (ygi_accepted_subject_id i) now_ms) (\<lambda>now.
         and_then (mark_revoked (ygi_id i) now db) (\<lambda>db.
         and_then (revoke_authority i now db) (\<lambda>db.
         and_then (admission_audit db event) (\<lambda>db.
           Ok (i\<lparr>ygi_status := GiRevoked, ygi_revoked_at_ms := Some now_ms\<rparr>, db)))))))))"

definition revoke_yard_guest_invite ::
  "text_library \<Rightarrow> admission_database \<Rightarrow> string \<Rightarrow> string \<Rightarrow> nat \<Rightarrow> NewAuditEvent \<Rightarrow> YardGuestInviteRecord admission_outcome" where
  "revoke_yard_guest_invite uc db yard_id invitation_id now_ms event =
     write_transaction (revoke_invite_in uc yard_id invitation_id now_ms event) db"

section \<open>Signing in\<close>

definition guest_key_admits :: "admission_database \<Rightarrow> string \<Rightarrow> int \<Rightarrow> guest_key_row \<Rightarrow> bool" where
  "guest_key_admits db secret_hash now k \<longleftrightarrow>
     gk_secret_hash k = secret_hash \<and> gk_revoked_at_ms k = None \<and> gk_created_at_ms k \<le> now \<and> gk_expires_at_ms k > now
     \<and> list_ex (\<lambda>s. su_id s = gk_subject_id k \<and> su_kind s = ''guest'' \<and> su_revoked_at_ms s = None
          \<and> list_ex (\<lambda>(i, g). Some (gi_id i) = su_invitation_id s \<and> gi_workspace_id i = su_workspace_id s
               \<and> gi_status i = ''accepted'' \<and> gi_accepted_subject_id i = Some (su_id s) \<and> gi_expires_at_ms i > now
               \<and> ag_principal_kind g = ''guest-invite'' \<and> ag_principal_id g = gi_id i
               \<and> ag_status g = ''active'' \<and> ag_revoked_at_ms g = None
               \<and> (case ag_expires_at_ms g of None \<Rightarrow> False | Some t \<Rightarrow> t > now)) (invitation_join db)) (yard_subjects db)"

definition authenticate_guest_in ::
  "string \<Rightarrow> nat \<Rightarrow> admission_database \<Rightarrow> RepositoryError + (YardSubjectRecord \<times> admission_database)" where
  "authenticate_guest_in secret_hash now_ms db =
     and_then (validate_hash secret_hash) (\<lambda>_.
     and_then (sql_time now_ms) (\<lambda>now.
     and_then (update_returning (guest_key_admits db secret_hash now)
       (\<lambda>k. k\<lparr>gk_last_used_at_ms := touched now (gk_last_used_at_ms k)\<rparr>) guest_key_check (\<lambda>k. Ok (gk_subject_id k))
       (guest_keys db)) (\<lambda>(subject_id, rows).
     and_then (query_row (\<lambda>s. su_id s = subject_id) yard_subject (yard_subjects db)) (\<lambda>s.
       Ok (s, db\<lparr>guest_keys := rows\<rparr>)))))"

definition authenticate_yard_guest_key ::
  "admission_database \<Rightarrow> string \<Rightarrow> nat \<Rightarrow> YardSubjectRecord admission_outcome" where
  "authenticate_yard_guest_key db secret_hash now_ms = write_transaction (authenticate_guest_in secret_hash now_ms) db"

end
