(* ===== verification/Yard_Identity.thy ===== *)
theory Yard_Identity
  imports Yard_Guests
begin

text \<open>
  The identity a Web Yard application sees behind a session: \<^verbatim>\<open>yard_identity_resolution.rs\<close>,
  \<^verbatim>\<open>yard_identity_grants.rs\<close> and \<^verbatim>\<open>yard_guest_identity.rs\<close>. The session is admitted again, the
  application roles of the grants that apply now are collected, and the approved policy expands them.
\<close>

section \<open>Contract types\<close>

record YardIdentity =
  yid_user_id :: string
  yid_workspace_id :: string
  yid_project_id :: string
  yid_yard_id :: string
  yid_environment_id :: string
  yid_display_name :: "string option"
  yid_email :: "string option"
  yid_groups :: "string list"
  yid_management_role :: "YardManagementRole option"
  yid_app_roles :: "string list"
  yid_permissions :: "string list"
  yid_session_id :: string

record IdentityGrantSources =
  igs_groups :: "string list"
  igs_roles :: "string list"

record IdentityBase =
  ib_session_id :: string
  ib_user_id :: string
  ib_subject_kind :: string
  ib_invitation_id :: "string option"
  ib_workspace_id :: string
  ib_project_id :: string
  ib_yard_id :: string
  ib_environment_id :: string
  ib_display_name :: "string option"
  ib_email :: "string option"
  ib_visibility :: string

section \<open>Grants of a member\<close>

definition require_bounded_memberships :: "admission_database \<Rightarrow> string \<Rightarrow> string \<Rightarrow> RepositoryError + unit" where
  "require_bounded_memberships db workspace_id user_id =
     ensure (count_up_to 101 (\<lambda>m. gm_workspace_id m = workspace_id \<and> gm_user_id m = user_id) (group_members db)
       \<le> int MAXIMUM_USER_GROUPS) Unavailable"

definition grant_in_force :: "access_grant_row \<Rightarrow> string \<Rightarrow> int \<Rightarrow> bool" where
  "grant_in_force g environment_id now_ms \<longleftrightarrow>
     ag_status g = ''active'' \<and> ag_revoked_at_ms g = None
     \<and> (case ag_expires_at_ms g of None \<Rightarrow> True | Some t \<Rightarrow> t > now_ms)
     \<and> (case ag_environment_id g of None \<Rightarrow> True | Some i \<Rightarrow> i = environment_id)"

definition direct_roles :: "admission_database \<Rightarrow> string \<Rightarrow> string \<Rightarrow> string \<Rightarrow> int \<Rightarrow> string list" where
  "direct_roles db yard_id environment_id user_id now_ms =
     concat (map ag_app_roles (sort_key ag_id (filter (\<lambda>g. ag_yard_id g = yard_id \<and> ag_principal_kind g = ''user''
       \<and> ag_principal_id g = user_id \<and> grant_in_force g environment_id now_ms) (access_grants db))))"

definition group_contributes :: "admission_database \<Rightarrow> workspace_group_row \<Rightarrow> bool" where
  "group_contributes db g \<longleftrightarrow>
     wg_status g = ''active'' \<and> wg_deactivated_at_ms g = None
     \<and> wg_member_count g \<ge> 0 \<and> wg_member_count g \<le> 500
     \<and> wg_member_count g = int (length (take 501 (group_members_of db g)))
     \<and> filter (\<lambda>m. \<not> member_usable db m) (take 501 (group_members_of db g)) = []
     \<and> count_up_to 501 (\<lambda>a. ag_principal_kind a = ''group'' \<and> ag_principal_id a = wg_id g \<and> ag_status a = ''active'')
         (access_grants db) \<le> 500"

definition group_rows ::
  "admission_database \<Rightarrow> string \<Rightarrow> string \<Rightarrow> string \<Rightarrow> string \<Rightarrow> int \<Rightarrow> (string \<times> string list) list" where
  "group_rows db yard_id environment_id workspace_id user_id now_ms =
     map (\<lambda>(m, w, g). (wg_id w, ag_app_roles g)) (sort_key (\<lambda>(m, w, g). (wg_id w, ag_id g))
       (filter (\<lambda>(m, w, g). gm_workspace_id m = workspace_id \<and> gm_user_id m = user_id \<and> gm_added_at_ms m \<ge> 0
           \<and> wg_id w = gm_group_id m \<and> wg_workspace_id w = gm_workspace_id m \<and> group_contributes db w
           \<and> ag_principal_kind g = ''group'' \<and> ag_principal_id g = wg_id w \<and> ag_yard_id g = yard_id
           \<and> grant_in_force g environment_id now_ms)
         (List.product (group_members db) (List.product (workspace_groups db) (access_grants db)))))"

text \<open>The loop over the ordered group rows keeps one entry per run of equal groups.\<close>

fun runs :: "string list \<Rightarrow> string list" where
  "runs [] = []"
| "runs [g] = [g]"
| "runs (g # h # gs) = (if g = h then runs (h # gs) else g # runs (h # gs))"

definition member_sources ::
  "admission_database \<Rightarrow> string \<Rightarrow> string \<Rightarrow> string \<Rightarrow> string \<Rightarrow> int \<Rightarrow> RepositoryError + IdentityGrantSources" where
  "member_sources db yard_id environment_id workspace_id user_id now_ms =
     and_then (try_each validate_text [yard_id, environment_id, workspace_id, user_id]) (\<lambda>_.
     and_then (require_bounded_memberships db workspace_id user_id) (\<lambda>_.
       let rows = group_rows db yard_id environment_id workspace_id user_id now_ms
       in Ok \<lparr>igs_groups = runs (map fst rows),
              igs_roles = direct_roles db yard_id environment_id user_id now_ms @ concat (map snd rows)\<rparr>))"

section \<open>Grant of a guest\<close>

definition guest_sources ::
  "admission_database \<Rightarrow> string \<Rightarrow> string \<Rightarrow> string \<Rightarrow> string \<Rightarrow> string \<Rightarrow> int \<Rightarrow> RepositoryError + IdentityGrantSources" where
  "guest_sources db yard_id environment_id workspace_id subject_id invitation_id now_ms =
     and_then (try_each validate_text [yard_id, environment_id, workspace_id, subject_id, invitation_id]) (\<lambda>_.
     and_then (query_row (\<lambda>(s, i, g). su_id s = subject_id \<and> su_kind s = ''guest'' \<and> su_workspace_id s = workspace_id
         \<and> su_invitation_id s = Some invitation_id \<and> su_local_user_id s = None \<and> su_revoked_at_ms s = None
         \<and> Some (gi_id i) = su_invitation_id s \<and> gi_accepted_subject_id i = Some (su_id s)
         \<and> gi_workspace_id i = su_workspace_id s \<and> gi_yard_id i = yard_id \<and> gi_status i = ''accepted''
         \<and> gi_revoked_at_ms i = None \<and> gi_expires_at_ms i > now_ms
         \<and> (case gi_environment_id i of None \<Rightarrow> True | Some e \<Rightarrow> e = environment_id)
         \<and> ag_principal_kind g = ''guest-invite'' \<and> ag_principal_id g = gi_id i
         \<and> ag_status g = ''active'' \<and> ag_revoked_at_ms g = None
         \<and> ag_expires_at_ms g = Some (gi_expires_at_ms i) \<and> ag_environment_id g = gi_environment_id i)
       (\<lambda>(s, i, g). Ok (ag_app_roles g)) (List.product (yard_subjects db) (invitation_join db))) (\<lambda>roles.
       Ok \<lparr>igs_groups = [], igs_roles = roles\<rparr>))"

section \<open>Resolution\<close>

definition session_member :: "admission_database \<Rightarrow> yard_subject_row \<Rightarrow> local_user_row option" where
  "session_member db s =
     (if su_kind s = ''member''
      then find (\<lambda>u. Some (lu_id u) = su_local_user_id s \<and> lu_workspace_id u = su_workspace_id s
             \<and> lu_deactivated_at_ms u = None \<and> lu_status u = ''active'') (local_users db)
      else None)"

definition session_invitation :: "admission_database \<Rightarrow> yard_subject_row \<Rightarrow> guest_invitation_row option" where
  "session_invitation db s =
     (if su_kind s = ''guest''
      then find (\<lambda>i. Some (gi_id i) = su_invitation_id s \<and> gi_workspace_id i = su_workspace_id s) (guest_invitations db)
      else None)"

definition identity_base ::
  "admission_database \<Rightarrow> yard_session_row \<times> yard_subject_row \<times> web_yard_row \<times> yard_environment_row \<times> access_policy_row
     \<Rightarrow> RepositoryError + IdentityBase" where
  "identity_base db row =
     (case row of (s, j, y, e, p) \<Rightarrow>
        let u = session_member db j; i = session_invitation db j
        in Ok \<lparr>ib_session_id = yn_id s, ib_user_id = su_id j, ib_subject_kind = su_kind j,
               ib_invitation_id = su_invitation_id j, ib_workspace_id = su_workspace_id j, ib_project_id = wy_project_id y,
               ib_yard_id = wy_id y, ib_environment_id = ye_id e,
               ib_display_name = (case u of Some u \<Rightarrow> Some (lu_display_name u) | None \<Rightarrow> map_option gi_email i),
               ib_email = (case map_option lu_email u of Some (Some m) \<Rightarrow> Some m | _ \<Rightarrow> map_option gi_email i),
               ib_visibility = ap_visibility p\<rparr>)"

definition base_matches ::
  "admission_database \<Rightarrow> string \<Rightarrow> string \<Rightarrow> int
     \<Rightarrow> yard_session_row \<times> yard_subject_row \<times> web_yard_row \<times> yard_environment_row \<times> access_policy_row \<Rightarrow> bool" where
  "base_matches db host token_hash now_ms row \<longleftrightarrow>
     (case row of (s, j, y, e, p) \<Rightarrow>
        su_id j = yn_subject_id s \<and> su_revoked_at_ms j = None
        \<and> wy_id y = yn_yard_id s \<and> wy_status y = ''active''
        \<and> ye_id e = yn_environment_id s \<and> ye_yard_id e = wy_id y \<and> ye_status e = ''active''
        \<and> ap_yard_id p = wy_id y \<and> ap_visibility p \<noteq> ''public'' \<and> ap_visibility p \<noteq> ''owner''
        \<and> yn_token_hash s = token_hash \<and> yn_host_label s = host \<and> yn_revoked_at_ms s = None \<and> yn_expires_at_ms s > now_ms
        \<and> (su_kind j = ''member'' \<and> su_invitation_id j = None \<and> session_member db j \<noteq> None
           \<or> su_kind j = ''guest'' \<and> su_local_user_id j = None \<and> session_invitation db j \<noteq> None)
        \<and> serves_host (yards db) host y)"

definition base_by_host :: "admission_database \<Rightarrow> string \<Rightarrow> string \<Rightarrow> int \<Rightarrow> RepositoryError + IdentityBase" where
  "base_by_host db host token_hash now_ms =
     and_then (query_optional (base_matches db host token_hash now_ms) (identity_base db)
       (List.product (yard_sessions db) (List.product (yard_subjects db) (List.product (web_yards (yards db))
         (List.product (yard_environments (yards db)) (access_policies db)))))) (ok_or NotFound)"

definition authority ::
  "admission_database \<Rightarrow> IdentityBase \<Rightarrow> int \<Rightarrow> RepositoryError + (YardManagementRole option \<times> IdentityGrantSources)" where
  "authority db b now_ms =
     (if ib_subject_kind b = ''member'' \<and> ib_invitation_id b = None
      then and_then (role_by_user db (ib_yard_id b) (ib_user_id b)) (\<lambda>assigned.
           and_then (member_sources db (ib_yard_id b) (ib_environment_id b) (ib_workspace_id b) (ib_user_id b) now_ms) (\<lambda>sources.
             Ok (map_option yma_role assigned, sources)))
      else (case ib_invitation_id b of
          Some invitation_id \<Rightarrow>
            if ib_subject_kind b = ''guest''
            then and_then (guest_sources db (ib_yard_id b) (ib_environment_id b) (ib_workspace_id b) (ib_user_id b)
                   invitation_id now_ms) (\<lambda>sources. Ok (None, sources))
            else Err Unavailable
        | None \<Rightarrow> Err Unavailable))"

definition effective_application_authority ::
  "YardApplicationPolicyRecord option \<Rightarrow> string list \<Rightarrow> string list \<times> string list" where
  "effective_application_authority policy assigned_roles =
     (case policy of
        None \<Rightarrow> ([], [])
      | Some p \<Rightarrow>
          let assigned = btree_set (assigned_roles @ (case apg_default_role (yar_policy p) of None \<Rightarrow> [] | Some r \<Rightarrow> [r]));
              known = filter (\<lambda>r. map_of (eap_effective_roles (yar_effective p)) r \<noteq> None) assigned
          in (btree_set (concat (map (\<lambda>r. case map_of (eap_effective_roles (yar_effective p)) r of
                None \<Rightarrow> [] | Some rs \<Rightarrow> rs) known)),
              btree_set (concat (map (\<lambda>r. case map_of (eap_effective_permissions (yar_effective p)) r of
                None \<Rightarrow> [] | Some ps \<Rightarrow> ps) known))))"

definition touch_identity :: "string \<Rightarrow> int \<Rightarrow> admission_database \<Rightarrow> RepositoryError + admission_database" where
  "touch_identity uid now_ms db =
     and_then (update_rows (\<lambda>s. yn_id s = uid \<and> yn_revoked_at_ms s = None \<and> yn_expires_at_ms s > now_ms)
       (\<lambda>s. s\<lparr>yn_last_used_at_ms := Some now_ms\<rparr>) yard_session_check (yard_sessions db)) (\<lambda>(changed, rows).
     and_then (changed_once changed) (\<lambda>_. Ok (db\<lparr>yard_sessions := rows\<rparr>)))"

definition resolve_in ::
  "text_library \<Rightarrow> string \<Rightarrow> string \<Rightarrow> int \<Rightarrow> admission_database \<Rightarrow> RepositoryError + (YardIdentity \<times> admission_database)" where
  "resolve_in uc host token_hash now_ms db =
     and_then (yard_validate_host_label host) (\<lambda>_.
     and_then (validate_hash token_hash) (\<lambda>_.
     and_then (base_by_host db host token_hash now_ms) (\<lambda>b.
     and_then (session_id db token_hash host (ib_yard_id b) now_ms) (\<lambda>admitted.
     and_then (ensure (admitted = Some (ib_session_id b)) NotFound) (\<lambda>_.
     and_then (validate_integrity db (ib_yard_id b)) (\<lambda>_.
     and_then (authority db b now_ms) (\<lambda>(management_role, sources).
     and_then (policy_by_yard uc db (ib_yard_id b)) (\<lambda>policy.
       let (app_roles, permissions) = effective_application_authority policy (igs_roles sources)
       in and_then (touch_identity (ib_session_id b) now_ms db) (\<lambda>db.
            Ok (\<lparr>yid_user_id = ib_user_id b, yid_workspace_id = ib_workspace_id b, yid_project_id = ib_project_id b,
                 yid_yard_id = ib_yard_id b, yid_environment_id = ib_environment_id b,
                 yid_display_name = ib_display_name b, yid_email = ib_email b, yid_groups = igs_groups sources,
                 yid_management_role = management_role, yid_app_roles = app_roles, yid_permissions = permissions,
                 yid_session_id = ib_session_id b\<rparr>, db))))))))))"

text \<open>The code runs without an explicit transaction; its only write is the last statement.\<close>

definition resolve_yard_identity ::
  "text_library \<Rightarrow> admission_database \<Rightarrow> string \<Rightarrow> string \<Rightarrow> nat \<Rightarrow> YardIdentity admission_outcome" where
  "resolve_yard_identity uc db host token_hash now_ms =
     after (to_i64 now_ms) db (\<lambda>now. write_transaction (resolve_in uc host token_hash now) db)"

end
