(* ===== verification/People_Site.thy ===== *)
theory People_Site
  imports Yard_Identity Yard_Evolution
begin

text \<open>
  The people of a site: one state with the yards and the access tables, one command per operation on
  it, and what every command leaves alone. A command changes the yards only through the yard
  commands and the audit log, and each access table only through the operations of its own part.
\<close>

section \<open>Commands\<close>

datatype people_command =
  OnSite site_command
| CreateLocalUser LocalUserRecord LocalUserLoginKeyRecord NewAuditEvent
| ResetLocalUserKey LocalUserLoginKeyRecord nat NewAuditEvent
| DeactivateLocalUser string nat NewAuditEvent
| AuthenticateLocalUser string nat
| CreateGroup WorkspaceGroupRecord NewAuditEvent
| RenameGroup string string string NewAuditEvent
| AddMember WorkspaceGroupMemberRecord NewAuditEvent
| RemoveMember string string string NewAuditEvent
| DeactivateGroup string string nat NewAuditEvent
| SetManagementRole string string YardManagementRole nat NewAuditEvent
| RevokeManagementRole string string nat NewAuditEvent
| SetApplicationPolicy string string ApplicationPolicyGraph string nat NewAuditEvent
| SetAccessRoles string string "string list" nat NewAuditEvent
| InsertAccessGrant NewYardAccessGrant NewAuditEvent
| RevokeAccessGrant string string nat NewAuditEvent
| SetVisibility string YardVisibility nat NewAuditEvent
| CreateGuestInvite NewYardGuestInvite NewYardAccessGrant NewAuditEvent
| AcceptGuestInvite string YardSubjectRecord YardGuestLoginKeyRecord NewYardContinuation NewAuditEvent nat
| RevokeGuestInvite string string nat NewAuditEvent
| AuthenticateGuest string nat
| IssueExchangeCode NewYardContinuation
| ExchangeCode string string NewYardSession YardSessionAuditContext nat
| RevokeSession string string nat NewAuditEvent
| RevokeSessionByToken string string nat
| PurgeSessionHistory nat
| DeliverFile string string "string option" nat
| ResolveIdentity string string nat

text \<open>An operation of the site on its part of the state; a panic ends the process before it changes
  anything.\<close>

definition on_yards :: "(yard_database \<Rightarrow> 'r \<times> yard_database) \<Rightarrow> admission_database \<Rightarrow> 'r \<times> admission_database" where
  "on_yards operation db = (let (r, m) = operation (yards db) in (r, db\<lparr>yards := m\<rparr>))"

definition unless_panic ::
  "((RepositoryError + unit) \<times> admission_database) option \<Rightarrow> admission_database
     \<Rightarrow> (RepositoryError + unit) \<times> admission_database" where
  "unless_panic result db = (case result of None \<Rightarrow> (Err Unavailable, db) | Some r \<Rightarrow> r)"

fun people_exec ::
  "text_library \<Rightarrow> people_command \<Rightarrow> admission_database \<Rightarrow> (RepositoryError + unit) \<times> admission_database" where
  "people_exec uc (OnSite c) db = on_yards (site_exec c) db"
| "people_exec uc (CreateLocalUser u k e) db = outcome_of (create_local_user uc db u k e)"
| "people_exec uc (ResetLocalUserKey k t e) db = outcome_of (reset_local_user_login_key db k t e)"
| "people_exec uc (DeactivateLocalUser uid t e) db = outcome_of (deactivate_local_user db uid t e)"
| "people_exec uc (AuthenticateLocalUser h t) db = outcome_of (authenticate_local_user_key db h t)"
| "people_exec uc (CreateGroup g e) db = outcome_of (create_workspace_group uc db g e)"
| "people_exec uc (RenameGroup w g n e) db = outcome_of (rename_workspace_group uc db w g n e)"
| "people_exec uc (AddMember m e) db = outcome_of (add_workspace_group_member uc db m e)"
| "people_exec uc (RemoveMember w g u e) db = outcome_of (remove_workspace_group_member uc db w g u e)"
| "people_exec uc (DeactivateGroup w g t e) db = outcome_of (deactivate_workspace_group uc db w g t e)"
| "people_exec uc (SetManagementRole y u r t e) db = outcome_of (set_yard_management_role db y u r t e)"
| "people_exec uc (RevokeManagementRole y u t e) db = outcome_of (revoke_yard_management_role db y u t e)"
| "people_exec uc (SetApplicationPolicy y d p a t e) db =
     unless_panic (map_option outcome_of (set_yard_application_policy uc db y d p a t e)) db"
| "people_exec uc (SetAccessRoles y g rs t e) db = outcome_of (set_yard_access_roles uc db y g rs t e)"
| "people_exec uc (InsertAccessGrant g e) db = outcome_of (insert_yard_access_grant uc db g e)"
| "people_exec uc (RevokeAccessGrant y g t e) db = outcome_of (revoke_yard_access_grant db y g t e)"
| "people_exec uc (SetVisibility y v t e) db = outcome_of (set_yard_visibility db y v t e)"
| "people_exec uc (CreateGuestInvite i g e) db = outcome_of (create_yard_guest_invite uc db i g e)"
| "people_exec uc (AcceptGuestInvite h s k c e t) db = outcome_of (accept_yard_guest_invite uc db h s k c e t)"
| "people_exec uc (RevokeGuestInvite y i t e) db = outcome_of (revoke_yard_guest_invite uc db y i t e)"
| "people_exec uc (AuthenticateGuest h t) db = outcome_of (authenticate_yard_guest_key db h t)"
| "people_exec uc (IssueExchangeCode c) db = outcome_of (issue_yard_exchange_code db c)"
| "people_exec uc (ExchangeCode h host s a t) db = outcome_of (exchange_yard_session_code db h host s a t)"
| "people_exec uc (RevokeSession y s t e) db = outcome_of (revoke_yard_session db y s t e)"
| "people_exec uc (RevokeSessionByToken h host t) db = outcome_of (revoke_yard_session_by_token db h host t)"
| "people_exec uc (PurgeSessionHistory t) db = outcome_of (purge_yard_session_history db t)"
| "people_exec uc (DeliverFile host p h t) db = outcome_of (yard_file_by_host db host p h t)"
| "people_exec uc (ResolveIdentity host h t) db = outcome_of (resolve_yard_identity uc db host h t)"

section \<open>Runs of an operation\<close>

lemma outcome_of_Ok_iff: "outcome_of p = (Ok u, db') \<longleftrightarrow> (\<exists>x. p = (Ok x, db'))"
  by (cases p) (auto simp: outcome_of_def result_simps)

lemma outcome_of_Err_iff: "outcome_of p = (Err e, db') \<longleftrightarrow> p = (Err e, db')"
  by (cases p) (auto simp: outcome_of_def result_simps)

lemma write_Ok_iff: "write_transaction f s = (Ok x, s') \<longleftrightarrow> f s = Ok (x, s')"
  by (auto simp: write_transaction_def split: sum.split prod.split)

lemma write_Err_iff: "write_transaction f s = (Err e, s') \<longleftrightarrow> f s = Err e \<and> s' = s"
  by (auto simp: write_transaction_def split: sum.split prod.split)

lemma after_write_Ok_iff:
  "after v s (\<lambda>x. write_transaction (f x) s) = (Ok y, s') \<longleftrightarrow> (\<exists>x. v = Ok x \<and> f x s = Ok (y, s'))"
  by (cases v) (auto simp: after_def write_Ok_iff)

lemma after_write_Err_iff:
  "after v s (\<lambda>x. write_transaction (f x) s) = (Err e, s') \<longleftrightarrow> (v = Err e \<or> (\<exists>x. v = Ok x \<and> f x s = Err e)) \<and> s' = s"
  by (cases v) (auto simp: after_def write_Err_iff)

lemmas run_iffs = outcome_of_Ok_iff outcome_of_Err_iff write_Ok_iff write_Err_iff after_write_Ok_iff after_write_Err_iff

lemmas transaction_operations =
  create_workspace_group_def rename_workspace_group_def add_workspace_group_member_def remove_workspace_group_member_def
  deactivate_workspace_group_def set_yard_management_role_def revoke_yard_management_role_def set_yard_access_roles_def
  insert_yard_access_grant_def revoke_yard_access_grant_def set_yard_visibility_def create_yard_guest_invite_def
  accept_yard_guest_invite_def revoke_yard_guest_invite_def authenticate_yard_guest_key_def issue_yard_exchange_code_def
  exchange_yard_session_code_def revoke_yard_session_def revoke_yard_session_by_token_def purge_yard_session_history_def
  yard_file_by_host_def resolve_yard_identity_def

lemmas write_operations = transaction_operations
  create_local_user_def reset_local_user_login_key_def deactivate_local_user_def authenticate_local_user_key_def

text \<open>A failed command leaves no trace.\<close>

lemma on_yards_run:
  assumes "on_yards f db = (r, db')"
  obtains m where "f (yards db) = (r, m)" and "db' = db\<lparr>yards := m\<rparr>"
  using assms by (auto simp: on_yards_def split: prod.split_asm)

lemma people_exec_failed:
  assumes "site_inv (yards db)" and run: "people_exec uc c db = (Err e, db')"
  shows "db' = db"
proof (cases c)
  case (OnSite s)
  with run obtain m where "site_exec s (yards db) = (Err e, m)" and "db' = db\<lparr>yards := m\<rparr>" by (auto elim: on_yards_run)
  moreover have "m = yards db" using site.failed_unchanged [OF assms(1) calculation(1)] by simp
  ultimately show ?thesis by simp
next
  case (SetApplicationPolicy y d p a t ev)
  with run show ?thesis
    by (auto simp: unless_panic_def set_yard_application_policy_def run_iffs split: option.split_asm sum.split_asm)
qed (use run in \<open>auto simp: run_iffs write_operations\<close>)

section \<open>What an operation leaves alone\<close>

text \<open>Auditing is the one way an operation of this layer reaches the yards.\<close>

definition audited :: "yard_database \<Rightarrow> yard_database \<Rightarrow> bool" where
  "audited y y' \<longleftrightarrow> (\<exists>m. repository_step (repository y) {} m \<and> y' = y\<lparr>repository := m\<rparr>)"

lemma audited_refl [simp, intro]: "audited y y"
  unfolding audited_def by (rule exI [of _ "repository y"]) simp

lemma audited_site_inv: "audited y y' \<Longrightarrow> site_inv y \<Longrightarrow> site_inv y'"
  by (auto simp: audited_def site_inv_def repository_step_def yard_inv_def yard_core_def linked_def)

lemma admission_audit_D:
  assumes "admission_audit db ev = Ok db'"
  obtains m where "db' = db\<lparr>yards := m\<rparr>" and "audited (yards db) m"
proof -
  obtain m where m: "yard_audit (yards db) ev = Ok m" "db' = db\<lparr>yards := m\<rparr>"
    using assms by (auto simp: admission_audit_def result_simps)
  have "audited (yards db) m"
    by (rule yard_audit_D [OF m(1)]) (auto simp: audited_def intro!: exI repository_step_audit)
  with m(2) show ?thesis by (rule that)
qed

text \<open>The tables the invariants of this layer speak of.\<close>

definition tracked where
  "tracked db = (local_users db, workspace_groups db, group_members db, management_roles db,
     yard_continuations db, yard_sessions db, guest_invitations db, yard_subjects db)"

lemma tracked_eq_iff:
  "tracked db' = tracked db \<longleftrightarrow>
     local_users db' = local_users db \<and> workspace_groups db' = workspace_groups db \<and> group_members db' = group_members db
     \<and> management_roles db' = management_roles db \<and> yard_continuations db' = yard_continuations db
     \<and> yard_sessions db' = yard_sessions db \<and> guest_invitations db' = guest_invitations db
     \<and> yard_subjects db' = yard_subjects db"
  by (simp add: tracked_def)

lemmas effect_simps = result_simps Let_def run_iffs

end
