(* ===== verification/People_Effects.thy ===== *)
theory People_Effects
  imports People_Site
begin

text \<open>
  What a command of the site can do to the tables of users, groups, roles, invitations, codes and
  sessions: an abstract step relation \<open>change\<close> over these tables, and the lemma that every
  successful command is one of its steps.
\<close>

section \<open>Changes\<close>

definition session_kept :: "yard_session_row \<Rightarrow> yard_session_row \<Rightarrow> bool" where
  "session_kept r r' \<longleftrightarrow>
     yn_id r' = yn_id r \<and> yn_token_hash r' = yn_token_hash r \<and> yn_yard_id r' = yn_yard_id r
     \<and> yn_environment_id r' = yn_environment_id r \<and> yn_host_label r' = yn_host_label r
     \<and> yn_subject_id r' = yn_subject_id r \<and> (yn_revoked_at_ms r \<noteq> None \<longrightarrow> yn_revoked_at_ms r' \<noteq> None)"

definition retire_user :: "string \<Rightarrow> int \<Rightarrow> local_user_row \<Rightarrow> local_user_row" where
  "retire_user uid t u = (if lu_id u = uid \<and> lu_status u = ''active''
     then u\<lparr>lu_status := ''deactivated'', lu_deactivated_at_ms := Some t\<rparr> else u)"

definition retire_member :: "string \<Rightarrow> int \<Rightarrow> yard_subject_row \<Rightarrow> yard_subject_row" where
  "retire_member uid t s = (if su_id s = uid \<and> su_kind s = ''member'' \<and> su_revoked_at_ms s = None
     then s\<lparr>su_revoked_at_ms := Some t\<rparr> else s)"

definition leave_groups :: "string \<Rightarrow> string \<Rightarrow> admission_database \<Rightarrow> workspace_group_row list" where
  "leave_groups ws uid db = map (\<lambda>g. if list_ex (\<lambda>m. gm_group_id m = wg_id g \<and> gm_workspace_id m = ws \<and> gm_user_id m = uid)
     (group_members db) then g\<lparr>wg_member_count := wg_member_count g - 1\<rparr> else g) (workspace_groups db)"

definition count_members :: "string \<Rightarrow> int \<Rightarrow> workspace_group_row \<Rightarrow> workspace_group_row" where
  "count_members gid n g = (if wg_id g = gid then g\<lparr>wg_member_count := wg_member_count g + n\<rparr> else g)"

definition retire_group :: "string \<Rightarrow> string \<Rightarrow> int \<Rightarrow> workspace_group_row \<Rightarrow> workspace_group_row" where
  "retire_group ws gid t g = (if wg_id g = gid \<and> wg_workspace_id g = ws \<and> wg_status g = ''active''
     then g\<lparr>wg_status := ''deactivated'', wg_member_count := 0, wg_deactivated_at_ms := Some t\<rparr> else g)"

definition revoke_invite :: "string \<Rightarrow> int \<Rightarrow> guest_invitation_row \<Rightarrow> guest_invitation_row" where
  "revoke_invite iid t i = (if gi_id i = iid \<and> gi_status i \<in> {''pending'', ''accepted''}
     then i\<lparr>gi_token_hash := None, gi_status := ''revoked'', gi_revoked_at_ms := Some t\<rparr> else i)"

definition accept_invite :: "string \<Rightarrow> string \<Rightarrow> string \<Rightarrow> int \<Rightarrow> guest_invitation_row \<Rightarrow> guest_invitation_row" where
  "accept_invite iid sid h t i =
     (if gi_id i = iid \<and> gi_status i = ''pending'' \<and> gi_token_hash i = Some h \<and> gi_expires_at_ms i > t
      then i\<lparr>gi_token_hash := None, gi_status := ''accepted'', gi_accepted_subject_id := Some sid, gi_accepted_at_ms := Some t\<rparr>
      else i)"

definition spend :: "string \<Rightarrow> string \<Rightarrow> int \<Rightarrow> continuation_row \<Rightarrow> continuation_row" where
  "spend h host t r = (if consumable h host t r then r\<lparr>yc_consumed_at_ms := Some t\<rparr> else r)"

lemma update_rows_map:
  "update_rows sel f check xs = Ok (n, ys) \<longleftrightarrow>
     ys = map (\<lambda>x. if sel x then f x else x) xs \<and> n = length (filter sel xs) \<and> (\<forall>x \<in> set xs. sel x \<longrightarrow> check (f x))"
  by (auto simp: update_rows_Ok_iff)

inductive change :: "people_command \<Rightarrow> admission_database \<Rightarrow> admission_database \<Rightarrow> bool" for cmd db where
  kept: "tracked db' = tracked db \<Longrightarrow> change cmd db db'"
| user_created:
    "local_user_allowed db u \<Longrightarrow> lu_status u = ''active''
     \<Longrightarrow> yard_subject_allowed (db\<lparr>local_users := local_users db @ [u]\<rparr>) s \<Longrightarrow> su_id s = lu_id u \<Longrightarrow> su_kind s = ''member''
     \<Longrightarrow> tracked db' = tracked (db\<lparr>local_users := local_users db @ [u], yard_subjects := yard_subjects db @ [s]\<rparr>)
     \<Longrightarrow> change cmd db db'"
| user_deactivated:
    "u \<in> set (local_users db) \<Longrightarrow> lu_id u = uid \<Longrightarrow> lu_workspace_id u = ws \<Longrightarrow> lu_status u = ''active''
     \<Longrightarrow> (\<And>r. session_kept r (f r))
     \<Longrightarrow> tracked db' = tracked (db\<lparr>local_users := map (retire_user uid t) (local_users db),
           yard_subjects := map (retire_member uid t) (yard_subjects db), yard_sessions := map f (yard_sessions db),
           workspace_groups := leave_groups ws uid db,
           group_members := filter (\<lambda>m. \<not> (gm_workspace_id m = ws \<and> gm_user_id m = uid)) (group_members db)\<rparr>)
     \<Longrightarrow> change cmd db db'"
| group_created:
    "workspace_group_allowed db g \<Longrightarrow> wg_status g = ''active'' \<Longrightarrow> wg_member_count g = 0
     \<Longrightarrow> tracked db' = tracked (db\<lparr>workspace_groups := workspace_groups db @ [g]\<rparr>) \<Longrightarrow> change cmd db db'"
| group_renamed:
    "tracked db' = tracked (db\<lparr>workspace_groups := map (\<lambda>g. if P g then g\<lparr>wg_name := n\<rparr> else g) (workspace_groups db)\<rparr>)
     \<Longrightarrow> change cmd db db'"
| member_added:
    "g \<in> set (workspace_groups db) \<Longrightarrow> wg_id g = gm_group_id m \<Longrightarrow> wg_workspace_id g = gm_workspace_id m \<Longrightarrow> wg_status g = ''active''
     \<Longrightarrow> group_member_allowed db m
     \<Longrightarrow> list_ex (\<lambda>u. lu_id u = gm_user_id m \<and> lu_workspace_id u = gm_workspace_id m \<and> lu_status u = ''active'') (local_users db)
     \<Longrightarrow> length (filter (\<lambda>r. gm_user_id r = gm_user_id m) (group_members db)) < MAXIMUM_USER_GROUPS
     \<Longrightarrow> \<forall>g \<in> set (workspace_groups db). wg_id g = gm_group_id m \<longrightarrow> workspace_group_check (count_members (gm_group_id m) 1 g)
     \<Longrightarrow> tracked db' = tracked (db\<lparr>group_members := group_members db @ [m],
           workspace_groups := map (count_members (gm_group_id m) 1) (workspace_groups db)\<rparr>)
     \<Longrightarrow> change cmd db db'"
| member_removed:
    "length (filter (\<lambda>m. gm_group_id m = gid \<and> gm_workspace_id m = ws \<and> gm_user_id m = uid) (group_members db)) = 1
     \<Longrightarrow> tracked db' = tracked (db\<lparr>group_members :=
           filter (\<lambda>m. \<not> (gm_group_id m = gid \<and> gm_workspace_id m = ws \<and> gm_user_id m = uid)) (group_members db),
           workspace_groups := map (count_members gid (- 1)) (workspace_groups db)\<rparr>)
     \<Longrightarrow> change cmd db db'"
| group_deactivated:
    "tracked db' = tracked (db\<lparr>workspace_groups := map (retire_group ws gid t) (workspace_groups db),
           group_members := filter (\<lambda>m. \<not> (gm_group_id m = gid \<and> gm_workspace_id m = ws)) (group_members db)\<rparr>)
     \<Longrightarrow> g \<in> set (workspace_groups db) \<Longrightarrow> wg_id g = gid \<Longrightarrow> wg_workspace_id g = ws \<Longrightarrow> wg_status g = ''active''
     \<Longrightarrow> change cmd db db'"
| role_set:
    "validate_role_state db (mr_yard_id r) = Ok state
     \<Longrightarrow> role_by_user db (mr_yard_id r) (mr_user_id r) = Ok previous
     \<Longrightarrow> rs_assignments state = 0 \<longrightarrow> mr_role r = ''owner''
     \<Longrightarrow> previous = None \<longrightarrow> rs_assignments state < MAXIMUM_YARD_MANAGEMENT_ROLES
     \<Longrightarrow> map_option yma_role previous = Some MrOwner \<and> rs_owners state = 1 \<longrightarrow> mr_role r = ''owner''
     \<Longrightarrow> upsert_management_role db r = Ok rows
     \<Longrightarrow> tracked db' = tracked (db\<lparr>management_roles := rows\<rparr>) \<Longrightarrow> change cmd db db'"
| role_revoked:
    "validate_role_state db yid = Ok state \<Longrightarrow> role_by_user db yid uid = Ok (Some previous)
     \<Longrightarrow> yma_role previous = MrOwner \<longrightarrow> rs_owners state \<noteq> 1
     \<Longrightarrow> tracked db' = tracked (db\<lparr>management_roles :=
           filter (\<lambda>r. \<not> (mr_yard_id r = yid \<and> mr_user_id r = uid)) (management_roles db)\<rparr>)
     \<Longrightarrow> change cmd db db'"
| invited:
    "guest_invitation_allowed d i \<Longrightarrow> guest_invitations d = guest_invitations db
     \<Longrightarrow> tracked db' = tracked (db\<lparr>guest_invitations := guest_invitations db @ [i]\<rparr>) \<Longrightarrow> change cmd db db'"
| invite_accepted:
    "cmd = AcceptGuestInvite h sr key new ev now \<Longrightarrow> yc_code_hash c = nyc_code_hash new \<Longrightarrow> yc_consumed_at_ms c = None
     \<Longrightarrow> yard_subject_allowed db s \<Longrightarrow> su_kind s = ''guest'' \<Longrightarrow> su_invitation_id s = Some iid
     \<Longrightarrow> tracked db' = tracked (db\<lparr>yard_subjects := yard_subjects db @ [s],
           guest_invitations := map (accept_invite iid (su_id s) h t) (guest_invitations db),
           yard_continuations := yard_continuations db @ [c]\<rparr>)
     \<Longrightarrow> change cmd db db'"
| invite_revoked:
    "tracked db' = tracked (db\<lparr>guest_invitations := map (revoke_invite iid t) (guest_invitations db)\<rparr>) \<Longrightarrow> change cmd db db'"
| code_issued:
    "cmd = IssueExchangeCode new \<Longrightarrow> yc_code_hash c = nyc_code_hash new \<Longrightarrow> yc_consumed_at_ms c = None
     \<Longrightarrow> tracked db' = tracked (db\<lparr>yard_continuations := yard_continuations db @ [c]\<rparr>) \<Longrightarrow> change cmd db db'"
| code_exchanged:
    "cmd = ExchangeCode h host new audit_context now \<Longrightarrow> yard_session_allowed db s \<Longrightarrow> yn_token_hash s = nys_token_hash new
     \<Longrightarrow> r \<in> set (yard_continuations db) \<Longrightarrow> consumable h host t r
     \<Longrightarrow> tracked db' = tracked (db\<lparr>yard_continuations := map (spend h host t) (yard_continuations db),
           yard_sessions := yard_sessions db @ [s]\<rparr>) \<Longrightarrow> change cmd db db'"
| sessions_updated:
    "(\<And>r. session_kept r (f r)) \<Longrightarrow> tracked db' = tracked (db\<lparr>yard_sessions := map f (yard_sessions db)\<rparr>) \<Longrightarrow> change cmd db db'"
| history_purged:
    "tracked db' = tracked (db\<lparr>yard_continuations := filter P (yard_continuations db),
           yard_sessions := filter Q (yard_sessions db)\<rparr>) \<Longrightarrow> change cmd db db'"

section \<open>Operations are changes\<close>

abbreviation effect :: "people_command \<Rightarrow> admission_database \<Rightarrow> admission_database \<Rightarrow> bool" where
  "effect cmd db db' \<equiv> change cmd db db' \<and> audited (yards db) (yards db')"

text \<open>One lemma per operation.\<close>

lemma reset_effect:
  assumes "reset_local_user_login_key db k t ev = (Ok x, db')"
  shows "effect cmd db db'"
  using assms by (auto simp: reset_local_user_login_key_def effect_simps revoke_active_keys_def insert_key_def tracked_def
     split: if_split_asm elim!: admission_audit_D intro!: change.kept)

lemma insert_grant_effect:
  assumes "insert_grant_in uc g ev db = Ok (x, db')"
  shows "effect cmd db db'"
  using assms by (auto simp: insert_grant_in_def effect_simps tracked_def  elim!: admission_audit_D intro!: change.kept)

lemma set_grant_roles_effect:
  assumes "set_grant_roles_in uc y g rs t ev db = Ok (x, db')"
  shows "effect cmd db db'"
  using assms by (auto simp: set_grant_roles_in_def effect_simps tracked_def split: if_split_asm elim!: admission_audit_D intro!: change.kept)

lemma revoke_grant_effect:
  assumes "revoke_grant_in y g t ev db = Ok (x, db')"
  shows "effect cmd db db'"
  using assms by (auto simp: revoke_grant_in_def effect_simps tracked_def split: if_split_asm elim!: admission_audit_D intro!: change.kept)

lemma set_visibility_effect:
  assumes "set_visibility_in y v t ev db = Ok (x, db')"
  shows "effect cmd db db'"
  using assms by (auto simp: set_visibility_in_def effect_simps tracked_def split: if_split_asm elim!: admission_audit_D intro!: change.kept)

lemma approve_policy_effect:
  assumes "approve_policy uc y d c a t ev r db = Ok (x, db')"
  shows "effect cmd db db'"
  using assms by (auto simp: approve_policy_def effect_simps tracked_def split: if_split_asm elim!: admission_audit_D intro!: change.kept)

lemma set_policy_effect:
  assumes "set_application_policy_in uc y d p a t ev db = Some (Ok (x, db'))"
  shows "effect cmd db db'"
  using assms by (auto simp: set_application_policy_in_def result_simps dest!: approve_policy_effect split: sum.split_asm)

lemma authenticate_user_effect:
  assumes "authenticate_local_user_key db h t = (Ok x, db')"
  shows "effect cmd db db'"
  using assms by (auto simp: authenticate_local_user_key_def effect_simps tracked_def  intro!: change.kept)

lemma authenticate_guest_effect:
  assumes "authenticate_guest_in h t db = Ok (x, db')"
  shows "effect cmd db db'"
  using assms by (auto simp: authenticate_guest_in_def effect_simps tracked_def intro!: change.kept)

lemma create_user_effect:
  assumes "create_local_user uc db u k ev = (Ok x, db')"
  shows "effect cmd db db'"
  using assms by (auto simp: create_local_user_def effect_simps insert_user_def insert_member_subject_def insert_key_def tracked_def
     split: if_split_asm elim!: admission_audit_D intro!: change.user_created)

lemma create_group_effect:
  assumes "create_group_in uc g ev db = Ok (x, db')"
  shows "effect cmd db db'"
  using assms by (auto simp: create_group_in_def effect_simps tracked_def elim!: admission_audit_D intro!: change.group_created)

lemma rename_group_effect:
  assumes "rename_group_in uc w g n ev db = Ok (x, db')"
  shows "effect cmd db db'"
proof -
  from assms obtain n' P k rows e where
      rows: "update_rows P (\<lambda>r. r\<lparr>wg_name := n'\<rparr>) workspace_group_check (workspace_groups db) = Ok (k, rows)"
      and aud: "admission_audit (db\<lparr>workspace_groups := rows\<rparr>) e = Ok db'"
    by (fastforce simp: rename_group_in_def audit_with_def effect_simps)
  from aud obtain m where m: "db' = db\<lparr>workspace_groups := rows, yards := m\<rparr>" "audited (yards db) m"
    by (auto elim: admission_audit_D)
  have "change cmd db db'"
    by (rule change.group_renamed [where P = P and n = n']) (use m rows in \<open>simp add: tracked_def update_rows_map\<close>)
  with m show ?thesis by simp
qed

lemma invite_effect:
  assumes "create_invite_in uc i g ev db = Ok (x, db')"
  shows "effect cmd db db'"
  using assms by (auto simp: create_invite_in_def insert_guest_grant_def insert_invitation_def effect_simps tracked_def elim!: admission_audit_D intro!: change.invited)

lemma issue_effect:
  assumes "issue_in c db = Ok (x, db')"
  shows "effect (IssueExchangeCode c) db db'"
  using assms by (auto simp: issue_in_def effect_simps tracked_def intro!: change.code_issued)

lemma purge_effect:
  assumes "purge_in t db = Ok (x, db')"
  shows "effect cmd db db'"
  using assms by (auto simp: purge_in_def effect_simps tracked_def intro!: change.history_purged)

lemma revoke_session_effect:
  assumes "revoke_session_in y sid t ev db = Ok (x, db')"
  shows "effect cmd db db'"
proof -
  from assms consider (same) "db' = db"
    | (row) P n k rows where "update_rows P (\<lambda>r. r\<lparr>yn_revoked_at_ms := Some n\<rparr>) yard_session_check (yard_sessions db) = Ok (k, rows)"
        "admission_audit (db\<lparr>yard_sessions := rows\<rparr>) ev = Ok db'"
    by (fastforce simp: revoke_session_in_def effect_simps split: if_split_asm)
  then show ?thesis
  proof cases
    case row
    then obtain m where m: "db' = db\<lparr>yard_sessions := rows, yards := m\<rparr>" "audited (yards db) m"
      by (auto elim: admission_audit_D)
    have "change cmd db db'"
      by (rule change.sessions_updated [where f = "\<lambda>r. if P r then r\<lparr>yn_revoked_at_ms := Some n\<rparr> else r"])
        (use m row in \<open>auto simp: tracked_def update_rows_map session_kept_def\<close>)
    with m show ?thesis by simp
  qed (auto intro: change.kept)
qed

lemma sessions_updated_by:
  assumes "update_rows P g chk (yard_sessions db) = Ok (k, rows)" and "\<And>r. session_kept r (g r)"
  shows "change cmd db (db\<lparr>yard_sessions := rows\<rparr>)"
  by (rule change.sessions_updated [where f = "\<lambda>r. if P r then g r else r"])
    (use assms in \<open>auto simp: tracked_def update_rows_map session_kept_def\<close>)

lemma session_kept_revoke [intro]: "session_kept r (r\<lparr>yn_revoked_at_ms := Some n\<rparr>)"
  and session_kept_touch [intro]: "session_kept r (r\<lparr>yn_last_used_at_ms := v\<rparr>)"
  by (simp_all add: session_kept_def)

lemma revoke_by_token_effect:
  assumes "revoke_by_token_in h host t db = Ok (x, db')"
  shows "effect cmd db db'"
  using assms by (auto simp: revoke_by_token_in_def effect_simps intro: sessions_updated_by)

lemma deliver_effect:
  assumes "authorized_file host p h t db = Ok (x, db')"
  shows "effect cmd db db'"
  using assms by (auto simp: authorized_file_def touch_session_def effect_simps
    split: if_split_asm option.split_asm intro: sessions_updated_by change.kept)

lemma resolve_effect:
  assumes "resolve_in uc host h t db = Ok (x, db')"
  shows "effect cmd db db'"
proof -
  from assms obtain i where "touch_identity i t db = Ok db'"
    by (auto simp: resolve_in_def effect_simps case_prod_unfold)
  then show ?thesis by (auto simp: touch_identity_def effect_simps intro: sessions_updated_by)
qed

lemma exchange_D:
  assumes "exchange_in h host s a t db = (Ok (x, db'))"
  obtains now row r where "r \<in> set (yard_continuations db)" and "consumable h host now r"
    and "yard_session_allowed db row" and "yn_token_hash row = nys_token_hash s"
    and "yard_continuations db' = map (spend h host now) (yard_continuations db)"
    and "tracked db' = tracked (db\<lparr>yard_continuations := map (spend h host now) (yard_continuations db),
           yard_sessions := yard_sessions db @ [row]\<rparr>)"
    and "audited (yards db) (yards db')"
proof -
  from assms obtain now k rows n c row r ev where
      r: "r \<in> set (yard_continuations db)" "consumable h host now r" and
      rows: "update_rows (consumable h host now) (\<lambda>r. r\<lparr>yc_consumed_at_ms := Some now\<rparr>) n (yard_continuations db) = Ok (k, rows)"
      and row: "yard_session_allowed (db\<lparr>yard_continuations := rows\<rparr>) row" "yn_token_hash row = nys_token_hash s"
      and aud: "admission_audit (db\<lparr>yard_continuations := rows, yard_sessions := yard_sessions db @ [row]\<rparr>) ev = Ok db'"
    by (auto simp: exchange_in_def consume_continuation_def insert_yard_session_def effect_simps session_record_def
      split: if_split_asm dest!: query_row_Ok_D)
  from aud obtain m where m: "db' = db\<lparr>yard_continuations := rows, yard_sessions := yard_sessions db @ [row], yards := m\<rparr>"
      "audited (yards db) m"
    by (auto elim: admission_audit_D)
  have "rows = map (spend h host now) (yard_continuations db)"
    using rows by (auto simp: update_rows_map spend_def)
  with m row show ?thesis
    by (intro that [OF r]) (simp_all add: tracked_def yard_session_allowed_def)
qed

lemma exchange_effect:
  assumes "exchange_in h host s a t db = Ok (x, db')"
  shows "effect (ExchangeCode h host s a t) db db'"
  by (rule exchange_D [OF assms]) (auto intro: change.code_exchanged)

lemma query_optional_Ok_D:
  assumes "query_optional P f xs = Ok (Some y)"
  obtains r where "r \<in> set xs" and "P r" and "f r = Ok y" and "find P xs = Some r"
proof -
  from assms obtain r where r: "find P xs = Some r" "f r = Ok y"
    by (auto simp: query_optional_def result_simps split: option.split_asm)
  with find_Some_iff_first [OF r(1)] that show ?thesis by blast
qed

lemma active_group_D:
  assumes "active_group uc db w gid = Ok g"
  obtains r where "r \<in> set (workspace_groups db)" and "wg_id r = gid" and "wg_workspace_id r = w" and "wg_status r = ''active''"
    and "wgr_id g = gid" and "wgr_workspace_id g = w"
proof -
  from assms have "group_by_id uc db w gid = Ok (Some g)" and st: "wgr_status g = WgActive"
    by (auto simp: active_group_def result_simps split: if_split_asm)
  then obtain r where r: "r \<in> set (workspace_groups db)" "wg_id r = gid" "wg_workspace_id r = w" "workspace_group uc r = Ok g"
    by (auto simp: group_by_id_def elim: query_optional_Ok_D)
  from r(4) st have "wg_status r = ''active'' \<and> wgr_id g = wg_id r \<and> wgr_workspace_id g = wg_workspace_id r"
    by (auto simp: workspace_group_def Let_def result_simps workspace_group_status_parse_def split: if_split_asm)
  with r that show ?thesis by auto
qed

lemma add_member_effect:
  assumes "add_member_in uc m ev db = Ok (x, db')"
  shows "effect cmd db db'"
proof -
  from assms obtain g at row d where
      g: "active_group uc db (wmr_workspace_id m) (wmr_group_id m) = Ok g"
      and user: "require_active_member db (wmr_workspace_id m) (wmr_user_id m) = Ok ()"
      and few: "int (length (filter (\<lambda>r. gm_user_id r = wmr_user_id m) (group_members db))) < int MAXIMUM_USER_GROUPS"
      and row: "row = \<lparr>gm_group_id = wmr_group_id m, gm_workspace_id = wmr_workspace_id m, gm_user_id = wmr_user_id m,
                  gm_added_at_ms = at\<rparr>" "group_member_allowed db row"
      and count: "increment_member_count (wmr_group_id m) 1 (db\<lparr>group_members := group_members db @ [row]\<rparr>) = Ok d"
      and aud: "admission_audit d ev = Ok db'"
    by (auto simp: add_member_in_def require_below_limit_def effect_simps)
  from count obtain k rows where rows:
      "update_rows (\<lambda>g. wg_id g = wmr_group_id m) (\<lambda>g. g\<lparr>wg_member_count := wg_member_count g + 1\<rparr>) workspace_group_check (workspace_groups db) = Ok (k, rows)"
      and d: "d = db\<lparr>group_members := group_members db @ [row], workspace_groups := rows\<rparr>"
    by (auto simp: increment_member_count_def effect_simps)
  from aud obtain y where y: "db' = d\<lparr>yards := y\<rparr>" "audited (yards d) y" by (auto elim: admission_audit_D)
  obtain w where w: "w \<in> set (workspace_groups db)" "wg_id w = wmr_group_id m" "wg_workspace_id w = wmr_workspace_id m" "wg_status w = ''active''"
    by (rule active_group_D [OF g])
  have "change cmd db db'"
    by (rule change.member_added [where g = w and m = row])
      (use w user few row rows y d in \<open>auto simp: tracked_def update_rows_map count_members_def require_active_member_def result_simps list_all_iff\<close>)
  with y d show ?thesis by simp
qed

lemma remove_member_effect:
  assumes "remove_member_in uc w gid uid ev db = Ok (x, db')"
  shows "effect cmd db db'"
proof -
  define gone where "gone = (\<lambda>m :: group_member_row. gm_group_id m = gid \<and> gm_workspace_id m = w \<and> gm_user_id m = uid)"
  from assms obtain d where one: "length (filter gone (group_members db)) = 1"
      and count: "increment_member_count gid (- 1) (db\<lparr>group_members := filter (\<lambda>m. \<not> gone m) (group_members db)\<rparr>) = Ok d"
      and aud: "admission_audit d ev = Ok db'"
    by (auto simp: remove_member_in_def effect_simps gone_def split: if_split_asm)
  from count obtain k rows where rows:
      "update_rows (\<lambda>g. wg_id g = gid) (\<lambda>g. g\<lparr>wg_member_count := wg_member_count g + - 1\<rparr>) workspace_group_check (workspace_groups db) = Ok (k, rows)"
      and d: "d = db\<lparr>group_members := filter (\<lambda>m. \<not> gone m) (group_members db), workspace_groups := rows\<rparr>"
    by (auto simp: increment_member_count_def effect_simps)
  from aud obtain y where y: "db' = d\<lparr>yards := y\<rparr>" "audited (yards d) y" by (auto elim: admission_audit_D)
  have "change cmd db db'"
    by (rule change.member_removed [OF one [unfolded gone_def]])
      (use rows y d in \<open>auto simp: tracked_def update_rows_map count_members_def gone_def\<close>)
  with y d show ?thesis by simp
qed

lemma deactivate_group_effect:
  assumes "deactivate_group_in uc w gid t ev db = Ok (x, db')"
  shows "effect cmd db db'"
proof -
  from assms obtain g now d d' e where g: "active_group uc db w gid = Ok g"
      and grants: "revoke_group_grants gid now db = Ok d" and tomb: "tombstone_group w gid now d = Ok d'"
      and aud: "admission_audit d' e = Ok db'"
    by (fastforce simp: deactivate_group_in_def audit_with_def effect_simps split: if_split_asm)
  from grants obtain gs where d: "d = db\<lparr>access_grants := gs\<rparr>" by (auto simp: revoke_group_grants_def effect_simps)
  from tomb obtain k rows where rows: "update_rows (\<lambda>g. wg_id g = gid \<and> wg_workspace_id g = w \<and> wg_status g = ''active'')
       (\<lambda>g. g\<lparr>wg_status := ''deactivated'', wg_member_count := 0, wg_deactivated_at_ms := Some now\<rparr>)
       workspace_group_check (workspace_groups d) = Ok (k, rows)"
      and d': "d' = d\<lparr>workspace_groups := rows,
        group_members := filter (\<lambda>m. \<not> (gm_group_id m = gid \<and> gm_workspace_id m = w)) (group_members d)\<rparr>"
    by (auto simp: tombstone_group_def effect_simps)
  from aud obtain y where y: "db' = d'\<lparr>yards := y\<rparr>" "audited (yards d') y" by (auto elim: admission_audit_D)
  obtain r where r: "r \<in> set (workspace_groups db)" "wg_id r = gid" "wg_workspace_id r = w" "wg_status r = ''active''"
    by (rule active_group_D [OF g])
  have "change cmd db db'"
    by (rule change.group_deactivated [OF _ r, where t = now])
      (use rows y d d' in \<open>auto simp: tracked_def update_rows_map retire_group_def\<close>)
  with y d d' show ?thesis by simp
qed

lemma set_role_effect:
  assumes "set_management_role_in y u role t ev db = Ok (x, db')"
  shows "effect cmd db db'"
proof -
  define row where "row ws = \<lparr>mr_yard_id = y, mr_user_id = u, mr_workspace_id = ws, mr_role = management_role_as_str role,
             mr_created_at_ms = int t, mr_updated_at_ms = int t\<rparr>" for ws
  from assms obtain ws st previous rows where
      g: "validate_role_state db y = Ok st" "role_by_user db y u = Ok previous"
      "\<not> (rs_assignments st = 0 \<and> role \<noteq> MrOwner)"
      "\<not> (previous = None \<and> rs_assignments st \<ge> MAXIMUM_YARD_MANAGEMENT_ROLES)"
      "\<not> (map_option yma_role previous = Some MrOwner \<and> role \<noteq> MrOwner \<and> rs_owners st = 1)"
      and row: "upsert_management_role db (row ws) = Ok rows"
      and aud: "admission_audit (db\<lparr>management_roles := rows\<rparr>) ev = Ok db'"
    by (auto simp: set_management_role_in_def effect_simps row_def split: if_split_asm)
  from aud obtain m where m: "db' = db\<lparr>management_roles := rows, yards := m\<rparr>" "audited (yards db) m"
    by (auto elim: admission_audit_D)
  have "change cmd db db'"
    by (rule change.role_set [where r = "row ws" and state = st and previous = previous and rows = rows])
      (use g row m in \<open>auto simp: tracked_def row_def\<close>)
  with m show ?thesis by simp
qed

lemma revoke_role_effect:
  assumes "revoke_management_role_in y u t ev db = Ok (x, db')"
  shows "effect cmd db db'"
proof -
  from assms obtain st previous where
      g: "validate_role_state db y = Ok st" "role_by_user db y u = Ok (Some previous)"
      "\<not> (yma_role previous = MrOwner \<and> rs_owners st = 1)"
      and aud: "admission_audit (db\<lparr>management_roles := filter (\<lambda>r. \<not> (mr_yard_id r = y \<and> mr_user_id r = u)) (management_roles db)\<rparr>) ev = Ok db'"
    by (auto simp: revoke_management_role_in_def effect_simps split: if_split_asm)
  from aud obtain m where m: "db' = db\<lparr>management_roles := filter (\<lambda>r. \<not> (mr_yard_id r = y \<and> mr_user_id r = u)) (management_roles db), yards := m\<rparr>"
      "audited (yards db) m"
    by (auto elim: admission_audit_D)
  have "change cmd db db'"
    by (rule change.role_revoked [where yid = y and state = st and uid = u and previous = previous]) (use g m in \<open>auto simp: tracked_def\<close>)
  with m show ?thesis by simp
qed

lemma insert_subject_D:
  assumes "insert_guest_subject s now db = Ok d"
  obtains row where "yard_subject_allowed db row" and "su_kind row = ''guest''" and "su_id row = ysr_id s"
    and "su_invitation_id row = ysr_invitation_id s" and "d = db\<lparr>yard_subjects := yard_subjects db @ [row]\<rparr>"
  using assms by (auto simp: insert_guest_subject_def effect_simps)

lemma mark_accepted_D:
  assumes "mark_accepted iid sid h now db = Ok d"
  shows "d = db\<lparr>guest_invitations := map (accept_invite iid sid h now) (guest_invitations db)\<rparr>"
  using assms by (auto simp: mark_accepted_def effect_simps update_rows_map accept_invite_def fun_eq_iff
    intro!: arg_cong [where f = "\<lambda>r. db\<lparr>guest_invitations := r\<rparr>"])

lemma insert_guest_key_D:
  assumes "insert_guest_key k a e db = Ok d"
  obtains ks where "d = db\<lparr>guest_keys := ks\<rparr>"
  using assms by (auto simp: insert_guest_key_def effect_simps)

lemma issue_in_D:
  assumes "issue_in c db = Ok (x, d)"
  obtains row where "d = db\<lparr>yard_continuations := yard_continuations db @ [row]\<rparr>" and "yc_code_hash row = nyc_code_hash c"
    and "yc_consumed_at_ms row = None"
  using assms by (auto simp: issue_in_def effect_simps)

lemma accept_effect:
  assumes "accept_in uc h s k c ev t db = Ok (x, db')"
  shows "effect (AcceptGuestInvite h s k c ev t) db db'"
proof -
  from assms obtain now i d1 d2 d3 d4 where valid: "validate_acceptance i s k c ev t = Ok ()"
      and d1: "insert_guest_subject s now db = Ok d1"
      and d2: "mark_accepted (ygi_id i) (ysr_id s) h now d1 = Ok d2"
      and d3: "insert_guest_key k now (cast_signed (ygi_expires_at_ms i)) d2 = Ok d3"
      and d4: "issue_in c d3 = Ok ((), d4)" and aud: "admission_audit d4 ev = Ok db'"
    by (auto simp: accept_in_def effect_simps)
  obtain row where row: "yard_subject_allowed db row" "su_kind row = ''guest''" "su_id row = ysr_id s"
      "su_invitation_id row = ysr_invitation_id s" "d1 = db\<lparr>yard_subjects := yard_subjects db @ [row]\<rparr>"
    by (rule insert_subject_D [OF d1])
  obtain ks where ks: "d3 = d2\<lparr>guest_keys := ks\<rparr>" by (rule insert_guest_key_D [OF d3])
  obtain cr where cr: "d4 = d3\<lparr>yard_continuations := yard_continuations d3 @ [cr]\<rparr>"
      "yc_code_hash cr = nyc_code_hash c" "yc_consumed_at_ms cr = None" by (rule issue_in_D [OF d4])
  from aud obtain y where y: "db' = d4\<lparr>yards := y\<rparr>" "audited (yards d4) y" by (auto elim: admission_audit_D)
  note d = y cr ks mark_accepted_D [OF d2] row(5)
  have "ysr_invitation_id s = Some (ygi_id i)" using valid by (auto simp: validate_acceptance_def result_simps)
  then have "change (AcceptGuestInvite h s k c ev t) db db'"
    by (intro change.invite_accepted [OF refl, where s = row and iid = "ygi_id i" and t = now and c = cr])
      (use row d in \<open>simp_all add: tracked_def\<close>)
  with d show ?thesis by simp
qed

lemma mark_revoked_D:
  assumes "mark_revoked iid now db = Ok d"
  shows "d = db\<lparr>guest_invitations := map (revoke_invite iid now) (guest_invitations db)\<rparr>"
  using assms by (auto simp: mark_revoked_def effect_simps update_rows_map revoke_invite_def fun_eq_iff
    intro!: arg_cong [where f = "\<lambda>r. db\<lparr>guest_invitations := r\<rparr>"])

lemma revoke_authority_D:
  assumes "revoke_authority i now db = Ok d"
  obtains gs ks where "d = db\<lparr>access_grants := gs, guest_keys := ks\<rparr>"
  using assms by (auto simp: revoke_authority_def effect_simps)

lemma revoke_invite_effect:
  assumes "revoke_invite_in uc y iid t ev db = Ok (x, db')"
  shows "effect cmd db db'"
proof -
  from assms obtain i now d1 d2 where d1: "mark_revoked (ygi_id i) now db = Ok d1"
      and d2: "revoke_authority i now d1 = Ok d2" and aud: "admission_audit d2 ev = Ok db'"
    by (auto simp: revoke_invite_in_def effect_simps split: if_split_asm)
  obtain gs ks where ks: "d2 = d1\<lparr>access_grants := gs, guest_keys := ks\<rparr>" by (rule revoke_authority_D [OF d2])
  from aud obtain m where m: "db' = d2\<lparr>yards := m\<rparr>" "audited (yards d2) m" by (auto elim: admission_audit_D)
  note d = m ks mark_revoked_D [OF d1]
  have "change cmd db db'"
    by (rule change.invite_revoked [where iid = "ygi_id i" and t = now]) (use d in \<open>simp add: tracked_def\<close>)
  with d show ?thesis by simp
qed

lemma deactivate_user_D:
  assumes "deactivate_local_user db uid t ev = (Ok x, db')"
  obtains r now f where "r \<in> set (local_users db)" and "lu_id r = uid" and "lu_status r = ''active''"
    and "length (filter (\<lambda>s. su_id s = uid \<and> su_kind s = ''member'' \<and> su_revoked_at_ms s = None) (yard_subjects db)) = 1"
    and "\<And>s. session_kept s (f s)"
    and "tracked db' = tracked (db\<lparr>local_users := map (retire_user uid now) (local_users db),
           yard_subjects := map (retire_member uid now) (yard_subjects db), yard_sessions := map f (yard_sessions db),
           workspace_groups := leave_groups (lu_workspace_id r) uid db,
           group_members := filter (\<lambda>m. \<not> (gm_workspace_id m = lu_workspace_id r \<and> gm_user_id m = uid)) (group_members db)\<rparr>)"
    and "audited (yards db) (yards db')"
proof -
  from assms obtain u now d1 d2 d3 d4 d5 where u: "active_user db uid = Ok u"
      and d1: "tombstone_user (lur_id u) now db = Ok d1" and d2: "revoke_active_keys (lur_id u) now d1 = Ok d2"
      and d3: "revoke_member_subject (lur_id u) now d2 = Ok d3" and d4: "revoke_for_user (lur_id u) now d3 = Ok d4"
      and d5: "remove_user_memberships (lur_workspace_id u) (lur_id u) d4 = Ok d5" and aud: "admission_audit d5 ev = Ok db'"
    by (auto simp: deactivate_local_user_def effect_simps)
  from u obtain r where r: "r \<in> set (local_users db)" "lu_id r = uid" "local_user r = Ok u" "lur_status u = LuActive"
    by (auto simp: active_user_def effect_simps split: if_split_asm elim!: query_optional_Ok_D)
  then have w: "lur_id u = lu_id r" "lur_workspace_id u = lu_workspace_id r" "lu_status r = ''active''"
    by (auto simp: local_user_def result_simps local_user_status_parse_def split: if_split_asm)
  have d1': "d1 = db\<lparr>local_users := map (retire_user uid now) (local_users db)\<rparr>"
    using d1 r(2) w(1) by (auto simp: tombstone_user_def effect_simps update_rows_map retire_user_def)
  obtain ks where d2': "d2 = d1\<lparr>login_keys := ks\<rparr>" using d2 by (auto simp: revoke_active_keys_def effect_simps)
  have one: "length (filter (\<lambda>s. su_id s = uid \<and> su_kind s = ''member'' \<and> su_revoked_at_ms s = None) (yard_subjects d2)) = 1"
    using d3 r(2) w(1) by (auto simp: revoke_member_subject_def effect_simps update_rows_map)
  have d3': "d3 = d2\<lparr>yard_subjects := map (retire_member uid now) (yard_subjects d2)\<rparr>"
    using d3 r(2) w(1) by (auto simp: revoke_member_subject_def effect_simps update_rows_map retire_member_def)
  define f where "f s = (if yn_subject_id s = uid \<and> yn_revoked_at_ms s = None \<and> yn_expires_at_ms s > now
      then s\<lparr>yn_revoked_at_ms := Some now\<rparr> else s)" for s :: yard_session_row
  have d4': "d4 = d3\<lparr>yard_sessions := map f (yard_sessions d3)\<rparr>"
    using d4 r(2) w(1) by (auto simp: revoke_for_user_def effect_simps update_rows_map f_def)
  have d5': "d5 = d4\<lparr>workspace_groups := leave_groups (lu_workspace_id r) uid d4,
      group_members := filter (\<lambda>m. \<not> (gm_workspace_id m = lu_workspace_id r \<and> gm_user_id m = uid)) (group_members d4)\<rparr>"
    using d5 r(2) w(1,2) by (auto simp: remove_user_memberships_def effect_simps update_rows_map leave_groups_def)
  from aud obtain m where m: "db' = d5\<lparr>yards := m\<rparr>" "audited (yards d5) m" by (auto elim: admission_audit_D)
  note d = m d5' d4' d3' d2' d1'
  show ?thesis
    by (rule that [OF r(1,2) w(3), of f now]) (use d one in \<open>simp_all add: tracked_def f_def session_kept_def leave_groups_def\<close>)
qed

lemma deactivate_user_effect:
  assumes "deactivate_local_user db uid t ev = (Ok x, db')"
  shows "effect cmd db db'"
proof (rule deactivate_user_D [OF assms], intro conjI)
  fix r now f
  assume r: "r \<in> set (local_users db)" "lu_id r = uid" "lu_status r = ''active''" "\<And>s. session_kept s (f s)"
    and db': "tracked db' = tracked (db\<lparr>local_users := map (retire_user uid now) (local_users db),
           yard_subjects := map (retire_member uid now) (yard_subjects db), yard_sessions := map f (yard_sessions db),
           workspace_groups := leave_groups (lu_workspace_id r) uid db,
           group_members := filter (\<lambda>m. \<not> (gm_workspace_id m = lu_workspace_id r \<and> gm_user_id m = uid)) (group_members db)\<rparr>)"
  show "change cmd db db'" by (rule change.user_deactivated [OF r(1,2) refl r(3,4) db'])
qed

section \<open>Commands are changes\<close>

lemma people_exec_effect:
  assumes run: "people_exec uc c db = (Ok u, db')"
  shows "change c db db' \<and> ((\<exists>s. c = OnSite s \<and> site_exec s (yards db) = (Ok u, yards db')) \<or> audited (yards db) (yards db'))"
proof (cases c)
  case (OnSite s)
  with run obtain m where m: "site_exec s (yards db) = (Ok u, m)" "db' = db\<lparr>yards := m\<rparr>" by (auto elim: on_yards_run)
  have "change c db db'" by (rule change.kept) (simp add: m tracked_def)
  with m OnSite show ?thesis by simp
next
  case (SetApplicationPolicy y d p a t ev)
  with run show ?thesis
    by (auto simp: unless_panic_def set_yard_application_policy_def run_iffs split: option.split_asm sum.split_asm
      dest: set_policy_effect)
qed (use run in \<open>auto simp: people_exec.simps run_iffs transaction_operations
  dest: reset_effect insert_grant_effect set_grant_roles_effect revoke_grant_effect set_visibility_effect
    authenticate_user_effect authenticate_guest_effect create_user_effect create_group_effect rename_group_effect
    invite_effect issue_effect purge_effect revoke_session_effect revoke_by_token_effect deliver_effect resolve_effect
    exchange_effect add_member_effect remove_member_effect deactivate_group_effect set_role_effect revoke_role_effect
    accept_effect revoke_invite_effect deactivate_user_effect\<close>)

lemma people_exec_site_inv:
  assumes "people_exec uc c db = (Ok u, db')" and "site_inv (yards db)"
  shows "site_inv (yards db')"
  using people_exec_effect [OF assms(1)] assms(2) site.inv_step by (auto intro: audited_site_inv)

end
