(* ===== verification/People_Invariants.thy ===== *)
theory People_Invariants
  imports People_Effects
begin

text \<open>
  What every history of the site keeps: users and subjects have one row each, a group counts its
  members, and a yard with roles has an owner. Each part is shown for every abstract change; the
  service interpretation lifts it to histories.
\<close>

section \<open>Users and subjects\<close>

definition user_inv :: "admission_database \<Rightarrow> bool" where
  "user_inv db \<longleftrightarrow>
     distinct (map lu_id (local_users db)) \<and> distinct (map su_id (yard_subjects db))
     \<and> distinct (map gi_id (guest_invitations db))"

definition session_inv :: "admission_database \<Rightarrow> bool" where
  "session_inv db \<longleftrightarrow> distinct (map yn_id (yard_sessions db)) \<and> distinct (map yn_token_hash (yard_sessions db))"

lemma retire_keys [simp]:
  "lu_id (retire_user uid t u) = lu_id u" "lu_workspace_id (retire_user uid t u) = lu_workspace_id u"
  "su_id (retire_member uid t s) = su_id s" "su_kind (retire_member uid t s) = su_kind s"
  "su_invitation_id (retire_member uid t s) = su_invitation_id s"
  "wg_id (retire_group ws gid t g) = wg_id g" "wg_workspace_id (retire_group ws gid t g) = wg_workspace_id g"
  "wg_id (count_members gid n g) = wg_id g" "wg_workspace_id (count_members gid n g) = wg_workspace_id g"
  "wg_status (count_members gid n g) = wg_status g"
  "gi_id (revoke_invite iid t i) = gi_id i" "gi_id (accept_invite iid sid h t i) = gi_id i"
  by (simp_all add: retire_user_def retire_member_def retire_group_def count_members_def revoke_invite_def accept_invite_def)

lemma user_inv_change:
  assumes "change cmd db db'" and "user_inv db"
  shows "user_inv db'"
  using assms
  by cases (auto simp: user_inv_def tracked_def local_user_allowed_def yard_subject_allowed_def guest_invitation_allowed_def
    list_ex_iff o_def image_iff)

lemma session_inv_map:
  assumes "session_inv db" and "yard_sessions db' = map f (yard_sessions db)" and "\<And>r. session_kept r (f r)"
  shows "session_inv db'"
  using assms(1,2) assms(3) [unfolded session_kept_def] by (simp add: session_inv_def o_def)

lemma session_inv_change:
  assumes "change cmd db db'" and "session_inv db"
  shows "session_inv db'"
  using assms(1)
proof cases
  case (user_deactivated u uid ws f t)
  then show ?thesis by (intro session_inv_map [OF assms(2)]) (auto simp: tracked_def)
next
  case (sessions_updated f)
  then show ?thesis by (intro session_inv_map [OF assms(2)]) (auto simp: tracked_def)
next
  case code_exchanged
  then show ?thesis using assms(2) by (auto simp: session_inv_def tracked_def yard_session_allowed_def list_ex_iff image_iff)
qed (use assms(2) in \<open>auto simp: session_inv_def tracked_def distinct_map_filter\<close>)

section \<open>Groups\<close>

definition group_counted :: "admission_database \<Rightarrow> workspace_group_row \<Rightarrow> bool" where
  "group_counted db g \<longleftrightarrow>
     wg_member_count g = int (length (group_members_of db g)) \<and> wg_member_count g \<le> 500
     \<and> (wg_status g \<noteq> ''active'' \<longrightarrow> group_members_of db g = [])"

definition member_placed :: "admission_database \<Rightarrow> group_member_row \<Rightarrow> bool" where
  "member_placed db m \<longleftrightarrow>
     (\<exists>g \<in> set (workspace_groups db). wg_id g = gm_group_id m \<and> wg_workspace_id g = gm_workspace_id m)
     \<and> (\<exists>u \<in> set (local_users db). lu_id u = gm_user_id m \<and> lu_workspace_id u = gm_workspace_id m \<and> lu_status u = ''active'')"

definition group_inv :: "admission_database \<Rightarrow> bool" where
  "group_inv db \<longleftrightarrow>
     distinct (map wg_id (workspace_groups db))
     \<and> distinct (map (\<lambda>m. (gm_group_id m, gm_user_id m)) (group_members db))
     \<and> (\<forall>g \<in> set (workspace_groups db). group_counted db g)
     \<and> (\<forall>m \<in> set (group_members db). member_placed db m)
     \<and> (\<forall>uid. length (filter (\<lambda>m. gm_user_id m = uid) (group_members db)) \<le> MAXIMUM_USER_GROUPS)"

lemmas group_inv_defs = group_inv_def group_counted_def member_placed_def group_members_of_def

lemma group_inv_frame:
  assumes inv: "group_inv db" and "workspace_groups db' = map f (workspace_groups db)" and "group_members db' = group_members db"
    and users: "set (local_users db) \<subseteq> set (local_users db')"
    and f: "\<And>g. wg_id (f g) = wg_id g \<and> wg_workspace_id (f g) = wg_workspace_id g \<and> wg_status (f g) = wg_status g
      \<and> wg_member_count (f g) = wg_member_count g"
  shows "group_inv db'"
proof -
  have "group_counted db' (f g)" if "group_counted db g" for g
    using that f assms(3) by (simp add: group_counted_def group_members_of_def)
  moreover have "member_placed db' m" if "member_placed db m" for m
    using that f assms(2) users by (auto simp: member_placed_def)
  ultimately show ?thesis using inv assms(2,3) f by (simp add: group_inv_def o_def)
qed

text \<open>Removing the one row with a given key.\<close>

lemma filter_out_key:
  assumes d: "distinct (map key xs)" and x: "x \<in> set xs" "P x"
    and one: "\<And>y. y \<in> set xs \<Longrightarrow> P y \<Longrightarrow> key y = key x"
  shows "Suc (length (filter (\<lambda>y. \<not> P y) xs)) = length xs"
proof -
  have "y = x" if "y \<in> set xs" "P y" for y
    by (rule inj_onD [of key "set xs"]) (use one [OF that] d that(1) x(1) in \<open>simp_all add: distinct_map\<close>)
  then have "set (filter P xs) = {x}" unfolding set_filter using x by blast
  moreover have "distinct (filter P xs)" using d by (simp add: distinct_map)
  ultimately have "length (filter P xs) = 1" by (metis distinct_card card.empty card_insert_disjoint empty_iff finite.emptyI One_nat_def)
  moreover have "length (filter P xs) + length (filter (\<lambda>y. \<not> P y) xs) = length xs" by (rule sum_length_filter_compl)
  ultimately show ?thesis by simp
qed

lemma group_unique:
  "group_inv db \<Longrightarrow> g \<in> set (workspace_groups db) \<Longrightarrow> h \<in> set (workspace_groups db) \<Longrightarrow> wg_id g = wg_id h \<Longrightarrow> g = h"
  by (auto simp: group_inv_def distinct_map dest: inj_onD)

lemma user_unique:
  "user_inv db \<Longrightarrow> u \<in> set (local_users db) \<Longrightarrow> v \<in> set (local_users db) \<Longrightarrow> lu_id u = lu_id v \<Longrightarrow> u = v"
  by (auto simp: user_inv_def distinct_map dest: inj_onD)

lemma group_inv_created:
  assumes inv: "group_inv db" and g: "workspace_group_allowed db g" "wg_status g = ''active''" "wg_member_count g = 0"
    and db': "tracked db' = tracked (db\<lparr>workspace_groups := workspace_groups db @ [g]\<rparr>)"
  shows "group_inv db'"
proof -
  have fresh: "wg_id h \<noteq> wg_id g" if "h \<in> set (workspace_groups db)" for h
    using g(1) that by (auto simp: workspace_group_allowed_def list_ex_iff)
  have "gm_group_id m \<noteq> wg_id g" if "m \<in> set (group_members db)" for m
    using inv fresh that by (auto simp: group_inv_defs)
  then have "filter (\<lambda>m. gm_group_id m = wg_id g \<and> gm_workspace_id m = wg_workspace_id g) (group_members db) = []"
    by (auto simp: filter_empty_conv)
  with inv g fresh db' show ?thesis by (fastforce simp: group_inv_defs tracked_def)
qed

lemma group_inv_renamed:
  assumes inv: "group_inv db"
    and db': "tracked db' = tracked (db\<lparr>workspace_groups := map (\<lambda>g. if P g then g\<lparr>wg_name := n\<rparr> else g) (workspace_groups db)\<rparr>)"
  shows "group_inv db'"
  by (rule group_inv_frame [OF inv, where f = "\<lambda>g. if P g then g\<lparr>wg_name := n\<rparr> else g"]) (use db' in \<open>auto simp: tracked_def\<close>)

lemma group_inv_member_added:
  assumes inv: "group_inv db" and g: "g \<in> set (workspace_groups db)" "wg_id g = gm_group_id m" "wg_workspace_id g = gm_workspace_id m"
      "wg_status g = ''active''"
    and m: "group_member_allowed db m"
      "list_ex (\<lambda>u. lu_id u = gm_user_id m \<and> lu_workspace_id u = gm_workspace_id m \<and> lu_status u = ''active'') (local_users db)"
    and few: "length (filter (\<lambda>r. gm_user_id r = gm_user_id m) (group_members db)) < MAXIMUM_USER_GROUPS"
    and check: "\<forall>g \<in> set (workspace_groups db). wg_id g = gm_group_id m \<longrightarrow> workspace_group_check (count_members (gm_group_id m) 1 g)"
    and db': "tracked db' = tracked (db\<lparr>group_members := group_members db @ [m],
           workspace_groups := map (count_members (gm_group_id m) 1) (workspace_groups db)\<rparr>)"
  shows "group_inv db'"
proof -
  have t: "workspace_groups db' = map (count_members (gm_group_id m) 1) (workspace_groups db)"
      "group_members db' = group_members db @ [m]" "local_users db' = local_users db"
    using db' by (simp_all add: tracked_def)
  have counted: "group_counted db' (count_members (gm_group_id m) 1 h)" if h: "h \<in> set (workspace_groups db)" for h
  proof (cases "wg_id h = gm_group_id m")
    case True
    then have "h = g" using group_unique [OF inv h g(1)] g(2) by simp
    moreover have "wg_member_count (count_members (gm_group_id m) 1 h) \<le> 500"
      using check h True by (simp add: workspace_group_check_def)
    ultimately show ?thesis using inv h g t by (auto simp: group_inv_defs count_members_def)
  next
    case False
    with inv h t show ?thesis by (auto simp: group_inv_defs count_members_def)
  qed
  have "(gm_group_id m, gm_user_id m) \<notin> (\<lambda>m. (gm_group_id m, gm_user_id m)) ` set (group_members db)"
    using m(1) by (force simp: group_member_allowed_def list_ex_iff)
  then have pairs: "distinct (map (\<lambda>m. (gm_group_id m, gm_user_id m)) (group_members db'))"
    using inv t by (simp add: group_inv_def)
  have "member_placed db' r" if "r \<in> set (group_members db')" for r
    using that inv t m(2) g by (fastforce simp: group_inv_defs list_ex_iff)
  moreover have "length (filter (\<lambda>r. gm_user_id r = u) (group_members db')) \<le> MAXIMUM_USER_GROUPS" for u
    using inv few t by (auto simp: group_inv_def)
  ultimately show ?thesis using inv pairs counted t by (simp add: group_inv_def o_def)
qed

lemma filter_filter_length: "length (filter P (filter Q xs)) \<le> length (filter P xs)"
  by (induction xs) auto

text \<open>Removing rows keeps everything but the counts.\<close>

lemma group_inv_removed:
  assumes inv: "group_inv db"
    and groups: "workspace_groups db' = map f (workspace_groups db)"
    and members: "group_members db' = filter keep (group_members db)"
    and f: "\<And>g. wg_id (f g) = wg_id g \<and> wg_workspace_id (f g) = wg_workspace_id g"
    and counted: "\<And>g. g \<in> set (workspace_groups db) \<Longrightarrow> group_counted db g \<Longrightarrow> group_counted db' (f g)"
    and users: "\<And>m u. m \<in> set (group_members db) \<Longrightarrow> keep m \<Longrightarrow> u \<in> set (local_users db) \<Longrightarrow> lu_id u = gm_user_id m
      \<Longrightarrow> lu_workspace_id u = gm_workspace_id m \<Longrightarrow> lu_status u = ''active'' \<Longrightarrow> u \<in> set (local_users db')"
  shows "group_inv db'"
proof -
  have "member_placed db' m" if m: "m \<in> set (group_members db)" "keep m" for m
  proof -
    obtain g u where "g \<in> set (workspace_groups db)" "wg_id g = gm_group_id m" "wg_workspace_id g = gm_workspace_id m"
        and u: "u \<in> set (local_users db)" "lu_id u = gm_user_id m" "lu_workspace_id u = gm_workspace_id m" "lu_status u = ''active''"
      using inv m(1) by (auto simp: group_inv_def member_placed_def)
    moreover have "u \<in> set (local_users db')" by (rule users [OF m u])
    ultimately show ?thesis using f groups by (auto simp: member_placed_def)
  qed
  moreover have "length (filter (\<lambda>m. gm_user_id m = u) (group_members db')) \<le> MAXIMUM_USER_GROUPS" for u
    using inv filter_filter_length [of "\<lambda>m. gm_user_id m = u" keep "group_members db"] members
    by (auto simp: group_inv_def intro: order_trans)
  moreover have "distinct (map (\<lambda>m. (gm_group_id m, gm_user_id m)) (group_members db'))"
    using inv members by (simp add: group_inv_def distinct_map_filter)
  ultimately show ?thesis using inv counted groups members f by (simp add: group_inv_def o_def)
qed

lemma group_inv_member_removed:
  assumes inv: "group_inv db"
    and one: "length (filter (\<lambda>m. gm_group_id m = gid \<and> gm_workspace_id m = ws \<and> gm_user_id m = uid) (group_members db)) = 1"
    and db': "tracked db' = tracked (db\<lparr>group_members :=
           filter (\<lambda>m. \<not> (gm_group_id m = gid \<and> gm_workspace_id m = ws \<and> gm_user_id m = uid)) (group_members db),
           workspace_groups := map (count_members gid (- 1)) (workspace_groups db)\<rparr>)"
  shows "group_inv db'"
proof -
  define gone where "gone m \<longleftrightarrow> gm_group_id m = gid \<and> gm_workspace_id m = ws \<and> gm_user_id m = uid" for m :: group_member_row
  have t: "workspace_groups db' = map (count_members gid (- 1)) (workspace_groups db)"
      "group_members db' = filter (\<lambda>m. \<not> gone m) (group_members db)" "local_users db' = local_users db"
    using db' by (simp_all add: tracked_def gone_def)
  have "length (filter gone (group_members db)) = 1" using one by (simp add: gone_def [abs_def])
  then have "filter gone (group_members db) \<noteq> []" by fastforce
  then have "hd (filter gone (group_members db)) \<in> set (filter gone (group_members db))" by (rule hd_in_set)
  then obtain m where m: "m \<in> set (group_members db)" "gone m" by fastforce
  obtain h where h: "h \<in> set (workspace_groups db)" "wg_id h = gid" "wg_workspace_id h = ws"
    using inv m by (auto simp: group_inv_def member_placed_def gone_def)
  have counted: "group_counted db' (count_members gid (- 1) g)" if g: "g \<in> set (workspace_groups db)" "group_counted db g" for g
  proof (cases "wg_id g = gid")
    case True
    then have [simp]: "g = h" using group_unique [OF inv g(1) h(1)] h(2) by simp
    have swap: "group_members_of db' g = filter (\<lambda>m. \<not> gone m) (group_members_of db g)"
      using t(2) by (simp add: group_members_of_def conj_commute)
    have "Suc (length (filter (\<lambda>m. \<not> gone m) (group_members_of db g))) = length (group_members_of db g)"
    proof (rule filter_out_key)
      show "distinct (map (\<lambda>m. (gm_group_id m, gm_user_id m)) (group_members_of db g))"
        using inv by (simp add: group_inv_def group_members_of_def distinct_map_filter)
      show "m \<in> set (group_members_of db g)" using m h by (simp add: group_members_of_def gone_def)
      show "gone m" by (rule m(2))
    qed (auto simp: gone_def m(2) [unfolded gone_def])
    then show ?thesis using g(2) True swap by (auto simp: group_counted_def count_members_def group_members_of_def)
  next
    case False
    then have "group_members_of db' g = group_members_of db g"
      using t(2) by (auto simp: group_members_of_def gone_def intro: filter_cong)
    with False g(2) show ?thesis by (simp add: group_counted_def count_members_def)
  qed
  show ?thesis by (rule group_inv_removed [OF inv t(1,2) _ counted]) (simp_all add: t(3))
qed

lemma group_inv_deactivated:
  assumes inv: "group_inv db"
    and db': "tracked db' = tracked (db\<lparr>workspace_groups := map (retire_group ws gid t) (workspace_groups db),
           group_members := filter (\<lambda>m. \<not> (gm_group_id m = gid \<and> gm_workspace_id m = ws)) (group_members db)\<rparr>)"
    and h: "h \<in> set (workspace_groups db)" "wg_id h = gid" "wg_workspace_id h = ws" "wg_status h = ''active''"
  shows "group_inv db'"
proof -
  have t: "workspace_groups db' = map (retire_group ws gid t) (workspace_groups db)"
      "group_members db' = filter (\<lambda>m. \<not> (gm_group_id m = gid \<and> gm_workspace_id m = ws)) (group_members db)"
      "local_users db' = local_users db"
    using db' by (simp_all add: tracked_def)
  have counted: "group_counted db' (retire_group ws gid t g)" if g: "g \<in> set (workspace_groups db)" "group_counted db g" for g
  proof (cases "wg_id g = gid")
    case True
    then have "g = h" using group_unique [OF inv g(1) h(1)] h(2) by simp
    with h t(2) show ?thesis by (auto simp: group_counted_def group_members_of_def retire_group_def filter_empty_conv)
  next
    case False
    then have "group_members_of db' g = group_members_of db g"
      using t(2) by (auto simp: group_members_of_def intro: filter_cong)
    with False g(2) show ?thesis by (simp add: group_counted_def retire_group_def group_members_of_def)
  qed
  show ?thesis by (rule group_inv_removed [OF inv t(1,2) _ counted]) (simp_all add: t(3))
qed

lemma group_inv_user_deactivated:
  assumes inv: "group_inv db" and uinv: "user_inv db"
    and u: "u \<in> set (local_users db)" "lu_id u = uid" "lu_workspace_id u = ws"
    and db': "tracked db' = tracked (db\<lparr>local_users := map (retire_user uid t) (local_users db),
           yard_subjects := map (retire_member uid t) (yard_subjects db), yard_sessions := map f (yard_sessions db),
           workspace_groups := leave_groups ws uid db,
           group_members := filter (\<lambda>m. \<not> (gm_workspace_id m = ws \<and> gm_user_id m = uid)) (group_members db)\<rparr>)"
  shows "group_inv db'"
proof -
  define gone where "gone m \<longleftrightarrow> gm_workspace_id m = ws \<and> gm_user_id m = uid" for m :: group_member_row
  define touches where "touches g \<longleftrightarrow> (\<exists>m \<in> set (group_members db). gm_group_id m = wg_id g \<and> gone m)" for g :: workspace_group_row
  define leave where "leave g = (if touches g then g\<lparr>wg_member_count := wg_member_count g - 1\<rparr> else g)" for g :: workspace_group_row
  have groups: "workspace_groups db' = map leave (workspace_groups db)"
    using db' by (simp add: tracked_def leave_groups_def leave_def touches_def gone_def list_ex_iff)
  have members: "group_members db' = filter (\<lambda>m. \<not> gone m) (group_members db)"
    and users: "local_users db' = map (retire_user uid t) (local_users db)"
    using db' by (simp_all add: tracked_def gone_def)
  have counted: "group_counted db' (leave g)" if g: "g \<in> set (workspace_groups db)" "group_counted db g" for g
  proof -
    have swap: "group_members_of db' g = filter (\<lambda>m. \<not> gone m) (group_members_of db g)"
      using members by (simp add: group_members_of_def conj_commute)
    show ?thesis
    proof (cases "touches g")
      case True
      then obtain m where m: "m \<in> set (group_members db)" "gm_group_id m = wg_id g" "gone m" by (auto simp: touches_def)
      obtain h where h: "h \<in> set (workspace_groups db)" "wg_id h = gm_group_id m" "wg_workspace_id h = gm_workspace_id m"
        using inv m(1) by (auto simp: group_inv_def member_placed_def)
      then have "h = g" using group_unique [OF inv h(1) g(1)] m(2) by simp
      have "Suc (length (filter (\<lambda>m. \<not> gone m) (group_members_of db g))) = length (group_members_of db g)"
      proof (rule filter_out_key)
        show "distinct (map (\<lambda>m. (gm_group_id m, gm_user_id m)) (group_members_of db g))"
          using inv by (simp add: group_inv_def group_members_of_def distinct_map_filter)
        show "m \<in> set (group_members_of db g)" using m h \<open>h = g\<close> by (simp add: group_members_of_def)
      qed (use m in \<open>auto simp: gone_def group_members_of_def\<close>)
      then show ?thesis using g(2) True swap by (auto simp: group_counted_def leave_def group_members_of_def)
    next
      case False
      then have "filter (\<lambda>m. \<not> gone m) (group_members_of db g) = group_members_of db g"
        by (auto simp: group_members_of_def touches_def intro: filter_cong)
      with swap g(2) False show ?thesis by (simp add: group_counted_def leave_def)
    qed
  qed
  have kept: "v \<in> set (local_users db')"
    if "m \<in> set (group_members db)" "\<not> gone m" "v \<in> set (local_users db)" "lu_id v = gm_user_id m"
      "lu_workspace_id v = gm_workspace_id m" for m v
  proof -
    have "lu_id v \<noteq> uid" using user_unique [OF uinv that(3) u(1)] that u by (auto simp: gone_def)
    then have "retire_user uid t v = v" by (simp add: retire_user_def)
    with that(3) users show ?thesis by force
  qed
  show ?thesis by (rule group_inv_removed [OF inv groups members _ counted kept]) (simp_all add: leave_def)
qed

lemma group_inv_change:
  assumes "change cmd db db'" and "user_inv db" and "group_inv db"
  shows "group_inv db'"
  using assms(1)
proof cases
  case user_deactivated
  then show ?thesis by (intro group_inv_user_deactivated [OF assms(3,2)])
next
  case (group_created g)
  then show ?thesis by (intro group_inv_created [OF assms(3)])
next
  case (group_renamed P n)
  then show ?thesis by (intro group_inv_renamed [OF assms(3)])
next
  case member_added
  then show ?thesis by (intro group_inv_member_added [OF assms(3)])
next
  case member_removed
  then show ?thesis by (intro group_inv_member_removed [OF assms(3)])
next
  case group_deactivated
  then show ?thesis by (intro group_inv_deactivated [OF assms(3)])
qed (rule group_inv_frame [OF assms(3), where f = id]; force simp: tracked_def)+

section \<open>Roles\<close>

definition roles_of :: "admission_database \<Rightarrow> string \<Rightarrow> management_role_row list" where
  "roles_of db yid = filter (\<lambda>r. mr_yard_id r = yid) (management_roles db)"

definition governed :: "management_role_row list \<Rightarrow> bool" where
  "governed rows \<longleftrightarrow> length rows \<le> MAXIMUM_YARD_MANAGEMENT_ROLES \<and> (rows = [] \<or> (\<exists>r \<in> set rows. mr_role r = ''owner''))"

definition role_inv :: "admission_database \<Rightarrow> bool" where
  "role_inv db \<longleftrightarrow>
     distinct (map (\<lambda>r. (mr_yard_id r, mr_user_id r)) (management_roles db)) \<and> (\<forall>yid. governed (roles_of db yid))"

lemma role_inv_frame: "role_inv db \<Longrightarrow> management_roles db' = management_roles db \<Longrightarrow> role_inv db'"
  by (simp add: role_inv_def roles_of_def)

lemma validate_role_state_D:
  assumes "validate_role_state db yid = Ok st"
  shows "rs_assignments st = length (roles_of db yid)"
    and "rs_owners st = length (filter (\<lambda>r. mr_role r = ''owner'') (roles_of db yid))"
proof -
  have "length (take 501 (roles_of db yid)) \<le> 500"
    using assms by (auto simp: validate_role_state_def Let_def MAXIMUM_YARD_MANAGEMENT_ROLES_def roles_of_def simp del: length_take split: if_split_asm)
  then have "take 501 (roles_of db yid) = roles_of db yid" by simp
  then show "rs_assignments st = length (roles_of db yid)"
      "rs_owners st = length (filter (\<lambda>r. mr_role r = ''owner'') (roles_of db yid))"
    using assms by (auto simp: validate_role_state_def Let_def roles_of_def simp del: length_take split: if_split_asm)
qed

text \<open>Two rows that satisfy a predicate: one of them has another key.\<close>

lemma another_key:
  assumes d: "distinct (map key xs)" and x: "x \<in> set xs" "P x" and two: "length (filter P xs) \<noteq> 1"
  obtains y where "y \<in> set xs" and "P y" and "key y \<noteq> key x"
proof -
  have "\<exists>y \<in> set xs. P y \<and> key y \<noteq> key x"
  proof (rule ccontr)
    assume "\<not> ?thesis"
    then have "Suc (length (filter (\<lambda>y. \<not> P y) xs)) = length xs" using x by (intro filter_out_key [OF d x(1), where P = P]) blast+
    moreover have "length (filter P xs) + length (filter (\<lambda>y. \<not> P y) xs) = length xs" by (rule sum_length_filter_compl)
    ultimately show False using two by simp
  qed
  with that show ?thesis by blast
qed

lemma role_by_user_D:
  assumes "role_by_user db yid uid = Ok (Some a)"
  obtains r where "r \<in> set (roles_of db yid)" and "mr_user_id r = uid" and "yma_role a = MrOwner \<longleftrightarrow> mr_role r = ''owner''"
  using assms
  by (auto simp: role_by_user_def assignment_def result_simps management_role_parse_def roles_of_def split: if_split_asm
    elim!: query_optional_Ok_D)

lemma role_by_user_None:
  "role_by_user db yid uid = Ok None \<Longrightarrow> r \<in> set (management_roles db) \<Longrightarrow> mr_yard_id r = yid \<Longrightarrow> mr_user_id r \<noteq> uid"
  by (auto simp: role_by_user_def query_optional_def result_simps find_None_iff split: option.split_asm)

text \<open>An owner other than the one given, when there must be one.\<close>

lemma other_owner:
  assumes inv: "role_inv db" and st: "validate_role_state db yid = Ok st"
    and prev: "role_by_user db yid uid = Ok (Some a)" "\<not> (yma_role a = MrOwner \<and> rs_owners st = 1)"
  obtains r where "r \<in> set (roles_of db yid)" and "mr_role r = ''owner''" and "mr_user_id r \<noteq> uid"
proof -
  obtain p where p: "p \<in> set (roles_of db yid)" "mr_user_id p = uid" "yma_role a = MrOwner \<longleftrightarrow> mr_role p = ''owner''"
    by (rule role_by_user_D [OF prev(1)])
  have d: "distinct (map (\<lambda>r. (mr_yard_id r, mr_user_id r)) (roles_of db yid))"
    using inv by (simp add: role_inv_def roles_of_def distinct_map_filter)
  have yard: "mr_yard_id r = yid" if "r \<in> set (roles_of db yid)" for r using that by (simp add: roles_of_def)
  show ?thesis
  proof (cases "mr_role p = ''owner''")
    case True
    with prev(2) p(3) validate_role_state_D(2) [OF st]
    have two: "length (filter (\<lambda>r. mr_role r = ''owner'') (roles_of db yid)) \<noteq> 1" by simp
    obtain r where "r \<in> set (roles_of db yid)" "mr_role r = ''owner''" "(mr_yard_id r, mr_user_id r) \<noteq> (mr_yard_id p, mr_user_id p)"
      by (rule another_key [OF d p(1) _ two]) (use True in auto)
    with yard p show ?thesis by (intro that [of r]) auto
  next
    case False
    obtain r where "r \<in> set (roles_of db yid)" "mr_role r = ''owner''"
      using inv p(1) by (force simp: role_inv_def governed_def)
    moreover then have "mr_user_id r \<noteq> uid"
      using False p d yard by (metis (mono_tags, lifting) distinct_map inj_onD)
    ultimately show ?thesis by (rule that)
  qed
qed

lemma role_inv_revoked:
  assumes inv: "role_inv db" and st: "validate_role_state db yid = Ok st"
    and prev: "role_by_user db yid uid = Ok (Some a)" "yma_role a = MrOwner \<longrightarrow> rs_owners st \<noteq> 1"
    and rows: "management_roles db' = filter (\<lambda>r. \<not> (mr_yard_id r = yid \<and> mr_user_id r = uid)) (management_roles db)"
  shows "role_inv db'"
proof -
  obtain o1 where o1: "o1 \<in> set (roles_of db yid)" "mr_role o1 = ''owner''" "mr_user_id o1 \<noteq> uid"
    by (rule other_owner [OF inv st prev(1)]) (use prev(2) in auto)
  have "governed (roles_of db' k)" for k
  proof (cases "k = yid")
    case True
    have le: "length (roles_of db' yid) \<le> length (roles_of db yid)"
      using filter_filter_length [of "\<lambda>r. mr_yard_id r = yid"] by (simp add: roles_of_def rows)
    have "o1 \<in> set (roles_of db' yid)" using o1 by (simp add: roles_of_def rows)
    with o1(2) le inv True show ?thesis by (auto simp: role_inv_def governed_def intro: order_trans)
  next
    case False
    then have "roles_of db' k = roles_of db k" by (auto simp: roles_of_def rows intro: filter_cong)
    with inv show ?thesis by (simp add: role_inv_def)
  qed
  moreover have "distinct (map (\<lambda>r. (mr_yard_id r, mr_user_id r)) (management_roles db'))"
    using inv by (simp add: role_inv_def rows distinct_map_filter)
  ultimately show ?thesis by (simp add: role_inv_def)
qed

lemma upsert_role_D:
  assumes "upsert_management_role db row = Ok rows"
  shows "(\<exists>r \<in> set (management_roles db). mr_yard_id r = mr_yard_id row \<and> mr_user_id r = mr_user_id row)
       \<and> rows = map (\<lambda>r. if mr_yard_id r = mr_yard_id row \<and> mr_user_id r = mr_user_id row
           then r\<lparr>mr_role := mr_role row, mr_updated_at_ms := mr_updated_at_ms row\<rparr> else r) (management_roles db)
     \<or> (\<forall>r \<in> set (management_roles db). mr_yard_id r = mr_yard_id row \<longrightarrow> mr_user_id r \<noteq> mr_user_id row)
       \<and> rows = management_roles db @ [row]"
  using assms by (auto simp: upsert_management_role_def Let_def result_simps update_rows_map list_ex_iff split: if_split_asm)

lemma role_inv_set:
  assumes inv: "role_inv db" and st: "validate_role_state db (mr_yard_id row) = Ok st"
    and prev: "role_by_user db (mr_yard_id row) (mr_user_id row) = Ok previous"
    and first: "rs_assignments st = 0 \<longrightarrow> mr_role row = ''owner''"
    and few: "previous = None \<longrightarrow> rs_assignments st < MAXIMUM_YARD_MANAGEMENT_ROLES"
    and last: "map_option yma_role previous = Some MrOwner \<and> rs_owners st = 1 \<longrightarrow> mr_role row = ''owner''"
    and up: "upsert_management_role db row = Ok rows" and rows: "management_roles db' = rows"
  shows "role_inv db'"
  using upsert_role_D [OF up]
proof (elim disjE conjE bexE)
  fix p
  assume p: "p \<in> set (management_roles db)" "mr_yard_id p = mr_yard_id row" "mr_user_id p = mr_user_id row"
  define f where "f r = (if mr_yard_id r = mr_yard_id row \<and> mr_user_id r = mr_user_id row
      then r\<lparr>mr_role := mr_role row, mr_updated_at_ms := mr_updated_at_ms row\<rparr> else r)" for r :: management_role_row
  assume "rows = map (\<lambda>r. if mr_yard_id r = mr_yard_id row \<and> mr_user_id r = mr_user_id row
      then r\<lparr>mr_role := mr_role row, mr_updated_at_ms := mr_updated_at_ms row\<rparr> else r) (management_roles db)"
  then have rows: "management_roles db' = map f (management_roles db)" using rows by (simp add: f_def [abs_def])
  have keys [simp]: "mr_yard_id (f r) = mr_yard_id r" "mr_user_id (f r) = mr_user_id r" for r by (simp_all add: f_def)
  have of: "roles_of db' k = map f (roles_of db k)" for k by (simp add: roles_of_def rows filter_map o_def)
  have "governed (roles_of db' k)" for k
  proof (cases "k = mr_yard_id row")
    case True
    have "\<exists>r \<in> set (roles_of db' k). mr_role r = ''owner''"
    proof (cases "mr_role row = ''owner''")
      case owner: True
      have "p \<in> set (roles_of db k)" using p True by (simp add: roles_of_def)
      then have "f p \<in> set (roles_of db' k)" by (simp add: of)
      moreover have "mr_role (f p) = ''owner''" using p owner by (simp add: f_def)
      ultimately show ?thesis by blast
    next
      case False
      have "previous \<noteq> None" using role_by_user_None [of db "mr_yard_id row" "mr_user_id row" p] p prev by auto
      then obtain a where a: "previous = Some a" by blast
      obtain r where "r \<in> set (roles_of db k)" "mr_role r = ''owner''" "mr_user_id r \<noteq> mr_user_id row"
        by (rule other_owner [OF inv st]) (use prev a last False True in auto)
      then have "f r \<in> set (roles_of db' k)" "mr_role (f r) = ''owner''" by (simp_all add: of f_def)
      then show ?thesis by blast
    qed
    with inv show ?thesis by (auto simp: role_inv_def governed_def of)
  next
    case False
    then have "f r = r" if "r \<in> set (roles_of db k)" for r using that by (simp add: f_def roles_of_def)
    then have "roles_of db' k = roles_of db k" unfolding of by (rule map_idI)
    with inv show ?thesis by (simp add: role_inv_def)
  qed
  then show ?thesis using inv by (simp add: role_inv_def rows o_def)
next
  assume new: "\<forall>r \<in> set (management_roles db). mr_yard_id r = mr_yard_id row \<longrightarrow> mr_user_id r \<noteq> mr_user_id row"
    and "rows = management_roles db @ [row]"
  then have rows: "management_roles db' = management_roles db @ [row]" using rows by simp
  have "previous = None"
  proof (cases previous)
    case (Some a)
    with prev obtain r where "r \<in> set (roles_of db (mr_yard_id row))" "mr_user_id r = mr_user_id row"
      by (auto elim: role_by_user_D)
    with new show ?thesis by (auto simp: roles_of_def)
  qed
  with few validate_role_state_D(1) [OF st]
  have room: "length (roles_of db (mr_yard_id row)) < MAXIMUM_YARD_MANAGEMENT_ROLES" by simp
  have "governed (roles_of db' k)" for k
  proof (cases "k = mr_yard_id row")
    case True
    have of: "roles_of db' (mr_yard_id row) = roles_of db (mr_yard_id row) @ [row]" by (simp add: roles_of_def rows)
    show ?thesis
    proof (cases "roles_of db (mr_yard_id row)")
      case Nil
      with first validate_role_state_D(1) [OF st] True room show ?thesis by (simp add: of governed_def)
    next
      case (Cons r rs)
      moreover have "governed (roles_of db (mr_yard_id row))" using inv by (simp add: role_inv_def)
      ultimately show ?thesis using room True by (auto simp: of governed_def)
    qed
  next
    case False
    then have "roles_of db' k = roles_of db k" by (simp add: roles_of_def rows)
    with inv show ?thesis by (simp add: role_inv_def)
  qed
  moreover have "distinct (map (\<lambda>r. (mr_yard_id r, mr_user_id r)) (management_roles db'))"
    using inv new by (auto simp: role_inv_def rows)
  ultimately show ?thesis by (simp add: role_inv_def)
qed

lemma role_inv_change:
  assumes "change cmd db db'" and "role_inv db"
  shows "role_inv db'"
  using assms(1)
proof cases
  case (role_set r st previous rows)
  then show ?thesis by (intro role_inv_set [OF assms(2)]) (simp_all add: tracked_def)
next
  case (role_revoked yid st uid a)
  then show ?thesis by (intro role_inv_revoked [OF assms(2)]) (simp_all add: tracked_def)
qed (rule role_inv_frame [OF assms(2)]; simp add: tracked_def)+

section \<open>Histories\<close>

definition people_inv :: "admission_database \<Rightarrow> bool" where
  "people_inv db \<longleftrightarrow> site_inv (yards db) \<and> user_inv db \<and> session_inv db \<and> group_inv db \<and> role_inv db"

lemma people_inv_step:
  assumes inv: "people_inv db" and run: "people_exec uc c db = (Ok u, db')"
  shows "people_inv db'"
proof -
  have "change c db db'" using people_exec_effect [OF run] by blast
  with inv people_exec_site_inv [OF run] show ?thesis
    by (auto simp: people_inv_def intro: user_inv_change session_inv_change group_inv_change role_inv_change)
qed

interpretation people: transactional_service "people_exec uc" "\<lambda>r. \<not> is_ok r" people_inv for uc
proof unfold_locales
  fix db c and r :: "RepositoryError + unit" and db'
  assume inv: "people_inv db" and run: "people_exec uc c db = (r, db')"
  {
    assume "\<not> is_ok r"
    then obtain e where "r = Err e" by (cases r) simp_all
    then show "db' = db" using people_exec_failed run inv by (auto simp: people_inv_def)
  next
    assume "\<not> \<not> is_ok r"
    then obtain u where "r = Ok u" by (cases r) simp_all
    then show "people_inv db'" using people_inv_step [OF inv] run by blast
  }
qed

text \<open>A fact every change keeps holds after every history.\<close>

lemma people_run_keeps:
  assumes keep: "\<And>c db db'. c \<in> set cs \<Longrightarrow> people_inv db \<Longrightarrow> change c db db' \<Longrightarrow> P db \<Longrightarrow> P db'"
    and "people_inv db" and "P db"
  shows "P (run_commands (people_exec uc) cs db)"
  using assms
proof (induction cs arbitrary: db)
  case (Cons c cs)
  obtain r db' where run: "people_exec uc c db = (r, db')" by force
  have inv': "people_inv db'" by (rule people.inv_step [OF Cons.prems(2) run])
  have "P db'"
  proof (cases r)
    case (Inl e)
    then have "db' = db" using people.failed_unchanged [OF Cons.prems(2) run] by simp
    with Cons.prems(3) show ?thesis by simp
  next
    case (Inr u)
    then have ch: "change c db db'" using people_exec_effect run by blast
    show ?thesis by (rule Cons.prems(1) [OF _ Cons.prems(2) ch Cons.prems(3)]) simp
  qed
  moreover have "P (run_commands (people_exec uc) cs db')" by (rule Cons.IH) (use Cons.prems(1) inv' calculation in auto)
  ultimately show ?case using run by simp
qed simp

definition empty_people :: "yard_database \<Rightarrow> admission_database" where
  "empty_people y = \<lparr>yards = y, access_policies = [], access_grants = [], local_users = [], login_keys = [],
     workspace_groups = [], group_members = [], management_roles = [], application_policies = [], yard_subjects = [],
     guest_invitations = [], guest_keys = [], yard_continuations = [], yard_sessions = []\<rparr>"

lemma empty_people_inv: "site_inv y \<Longrightarrow> people_inv (empty_people y)"
  by (simp add: people_inv_def user_inv_def session_inv_def group_inv_def role_inv_def roles_of_def governed_def empty_people_def)

end
