(* ===== verification/People_Histories.thy ===== *)
theory People_Histories
  imports People_Invariants
begin

text \<open>
  What an admission, a session and a sign-in rest on, and the facts about one user, one session
  token, one invitation and one exchange code that no later command of the site can undo.
\<close>

section \<open>Admissions and sessions\<close>

lemma evaluate_D:
  assumes "evaluate db host sid t = Ok a"
  obtains s y e where "s \<in> set (yard_subjects db)" and "su_id s = sid" and "su_revoked_at_ms s = None"
    and "y \<in> set (web_yards (yards db))" and "e \<in> set (yard_environments (yards db))"
    and "a = \<lparr>yad_yard_id = wy_id y, yad_environment_id = ye_id e, yad_workspace_id = wy_workspace_id y\<rparr>"
    and "su_kind s = ''guest'' \<and> guest_admitted db host sid t y e \<or> su_kind s = ''member'' \<and> member_admitted db host sid t y e"
proof -
  from assms obtain kind where k: "subject_kind db sid = Ok kind"
      and k': "kind = ''guest'' \<and> admitting (guest_admitted db host sid t) db = Ok a
        \<or> kind = ''member'' \<and> admitting (member_admitted db host sid t) db = Ok a"
    by (auto simp: evaluate_def result_simps split: if_split_asm)
  obtain s where s: "s \<in> set (yard_subjects db)" "su_id s = sid" "su_revoked_at_ms s = None" "su_kind s = kind"
    using k by (auto simp: subject_kind_def dest!: query_row_Ok_D)
  have "\<exists>y e. y \<in> set (web_yards (yards db)) \<and> e \<in> set (yard_environments (yards db)) \<and> P y e
      \<and> a = \<lparr>yad_yard_id = wy_id y, yad_environment_id = ye_id e, yad_workspace_id = wy_workspace_id y\<rparr>"
    if "admitting P db = Ok a" for P
    using query_row_Ok_D [OF that [unfolded admitting_def]] by force
  with k' s that show ?thesis by blast
qed

lemma session_id_D:
  assumes "session_id db h host yid t = Ok (Some i)"
  obtains s a where "s \<in> set (yard_sessions db)" and "yn_token_hash s = h" and "yn_host_label s = host" and "yn_yard_id s = yid"
    and "yn_revoked_at_ms s = None" and "yn_expires_at_ms s > t" and "yn_id s = i"
    and "evaluate db host (yn_subject_id s) t = Ok a" and "yad_yard_id a = yid" and "yad_environment_id a = yn_environment_id s"
proof -
  from assms obtain s where f: "find (\<lambda>s. yn_token_hash s = h \<and> yn_host_label s = host \<and> yn_yard_id s = yid
         \<and> yn_revoked_at_ms s = None \<and> yn_expires_at_ms s > t) (yard_sessions db) = Some s"
      and e: "\<exists>a. evaluate db host (yn_subject_id s) t = Ok a \<and> yad_yard_id a = yid \<and> yad_environment_id a = yn_environment_id s
        \<and> yn_id s = i"
    by (auto simp: session_id_def result_simps split: option.split_asm if_split_asm)
  from find_Some_iff_first [OF f] e that show ?thesis by blast
qed

lemma deliver_D:
  assumes "yard_file_by_host db host path token now_ms = (Ok f, db')"
  obtains d where "serving_deploy (yards db) host = Ok d"
    and "effective_visibility db (ydr_yard_id d) = ''public''
      \<or> (\<exists>h i. token = Some h \<and> session_id db h host (ydr_yard_id d) (int now_ms) = Ok (Some i))"
  using assms
  by (auto simp: yard_file_by_host_def run_iffs authorized_file_def result_simps split: if_split_asm option.split_asm)

lemma resolve_D:
  assumes "resolve_yard_identity uc db host h now_ms = (Ok x, db')"
  obtains b where "base_by_host db host h (int now_ms) = Ok b"
    and "session_id db h host (ib_yard_id b) (int now_ms) = Ok (Some (ib_session_id b))"
  using assms by (auto simp: resolve_yard_identity_def run_iffs resolve_in_def result_simps case_prod_unfold)

section \<open>A deactivated user\<close>

definition user_retired :: "string \<Rightarrow> admission_database \<Rightarrow> bool" where
  "user_retired uid db \<longleftrightarrow>
     uid \<in> lu_id ` set (local_users db) \<and> uid \<in> su_id ` set (yard_subjects db)
     \<and> (\<forall>u \<in> set (local_users db). lu_id u = uid \<longrightarrow> lu_status u \<noteq> ''active'')
     \<and> (\<forall>s \<in> set (yard_subjects db). su_id s = uid \<longrightarrow> su_revoked_at_ms s \<noteq> None)"

lemma retired_frame:
  assumes "user_retired uid db"
    and "local_users db' = map f (local_users db)" and "\<And>u. lu_id (f u) = lu_id u" and "\<And>u. lu_status u \<noteq> ''active'' \<Longrightarrow> lu_status (f u) \<noteq> ''active''"
    and "yard_subjects db' = map g (yard_subjects db)" and "\<And>s. su_id (g s) = su_id s"
    and "\<And>s. su_revoked_at_ms s \<noteq> None \<Longrightarrow> su_revoked_at_ms (g s) \<noteq> None"
  shows "user_retired uid db'"
  using assms by (simp add: user_retired_def image_image)

lemma user_retired_change:
  assumes "change cmd db db'" and ret: "user_retired uid db"
  shows "user_retired uid db'"
  using assms(1)
proof cases
  case (user_created u s)
  then show ?thesis using ret
    by (auto simp: user_retired_def tracked_def local_user_allowed_def yard_subject_allowed_def list_ex_iff)
next
  case (user_deactivated u uid ws f t)
  then show ?thesis
    by (intro retired_frame [OF ret, where f = "retire_user uid t" and g = "retire_member uid t"])
      (auto simp: tracked_def retire_user_def retire_member_def)
next
  case invite_accepted
  then show ?thesis using ret by (auto simp: user_retired_def tracked_def yard_subject_allowed_def list_ex_iff)
qed (rule retired_frame [OF ret, where f = id and g = id]; simp add: tracked_def)+

lemma deactivated_retired:
  assumes inv: "people_inv db" and run: "deactivate_local_user db uid t ev = (Ok x, db')"
  shows "user_retired uid db'"
proof (rule deactivate_user_D [OF run])
  fix r now f
  assume r: "r \<in> set (local_users db)" "lu_id r = uid" "lu_status r = ''active''"
    and one: "length (filter (\<lambda>s. su_id s = uid \<and> su_kind s = ''member'' \<and> su_revoked_at_ms s = None) (yard_subjects db)) = 1"
    and db': "tracked db' = tracked (db\<lparr>local_users := map (retire_user uid now) (local_users db),
           yard_subjects := map (retire_member uid now) (yard_subjects db), yard_sessions := map f (yard_sessions db),
           workspace_groups := leave_groups (lu_workspace_id r) uid db,
           group_members := filter (\<lambda>m. \<not> (gm_workspace_id m = lu_workspace_id r \<and> gm_user_id m = uid)) (group_members db)\<rparr>)"
  have "filter (\<lambda>s. su_id s = uid \<and> su_kind s = ''member'' \<and> su_revoked_at_ms s = None) (yard_subjects db) \<noteq> []"
    using one by fastforce
  then obtain s where s: "s \<in> set (yard_subjects db)" "su_id s = uid" "su_kind s = ''member''"
    by (auto simp: filter_empty_conv)
  have "v = s" if "v \<in> set (yard_subjects db)" "su_id v = uid" for v
    by (rule inj_onD [of su_id "set (yard_subjects db)"])
      (use that s inv in \<open>simp_all add: people_inv_def user_inv_def distinct_map\<close>)
  with s have revoked: "su_revoked_at_ms (retire_member uid now v) \<noteq> None" if "v \<in> set (yard_subjects db)" "su_id v = uid" for v
    using that unfolding retire_member_def by (cases "su_revoked_at_ms v") auto
  have status: "lu_status (retire_user uid now u) \<noteq> ''active''" if "lu_id u = uid" for u
    using that by (simp add: retire_user_def)
  have tables: "local_users db' = map (retire_user uid now) (local_users db)"
      "yard_subjects db' = map (retire_member uid now) (yard_subjects db)"
    using db' by (simp_all add: tracked_def)
  have "uid \<in> lu_id ` set (local_users db')" "uid \<in> su_id ` set (yard_subjects db')"
    using r(1,2) s(1,2) unfolding tables by (force simp: image_image)+
  moreover have "\<forall>u \<in> set (local_users db'). lu_id u = uid \<longrightarrow> lu_status u \<noteq> ''active''"
    using status by (simp add: tables)
  moreover have "\<forall>s \<in> set (yard_subjects db'). su_id s = uid \<longrightarrow> su_revoked_at_ms s \<noteq> None"
    using revoked by (simp add: tables)
  ultimately show ?thesis unfolding user_retired_def by blast
qed

lemma retired_not_admitted: "user_retired uid db \<Longrightarrow> evaluate db host uid t \<noteq> Ok a"
  by (auto simp: user_retired_def elim!: evaluate_D)

lemma retired_not_authenticated:
  assumes "user_retired uid db" and "authenticate_local_user_key db h t = (Ok u, db')"
  shows "lur_id u \<noteq> uid"
proof -
  from assms(2) obtain now k' rows where ret: "update_returning (key_admits db h now)
        (\<lambda>k. k\<lparr>lk_last_used_at_ms := touched now (lk_last_used_at_ms k)\<rparr>) login_key_check (\<lambda>k. Ok (lk_user_id k))
        (login_keys db) = Ok (k', rows)"
      and u: "query_row (\<lambda>u. lu_id u = k') local_user (local_users db) = Ok u"
    by (auto simp: authenticate_local_user_key_def run_iffs result_simps)
  from ret obtain k where k: "key_admits db h now k" "k' = lk_user_id k"
    by (auto simp: update_returning_def result_simps dest!: query_row_Ok_D)
  from u have "lur_id u = k'"
    by (auto simp: local_user_def result_simps dest!: query_row_Ok_D)
  with k assms(1) show ?thesis by (auto simp: key_admits_def user_retired_def list_ex_iff)
qed

section \<open>A revoked session\<close>

definition token_dead :: "string \<Rightarrow> admission_database \<Rightarrow> bool" where
  "token_dead h db \<longleftrightarrow> (\<forall>s \<in> set (yard_sessions db). yn_token_hash s = h \<longrightarrow> yn_revoked_at_ms s \<noteq> None)"

fun mints_session :: "string \<Rightarrow> people_command \<Rightarrow> bool" where
  "mints_session h (ExchangeCode _ _ s _ _) \<longleftrightarrow> nys_token_hash s = h"
| "mints_session h _ \<longleftrightarrow> False"

lemma token_dead_map:
  assumes "token_dead h db" and "yard_sessions db' = map f (yard_sessions db)" and "\<And>r. session_kept r (f r)"
  shows "token_dead h db'"
  using assms(1,2) assms(3) [unfolded session_kept_def] by (simp add: token_dead_def)

lemma token_dead_change:
  assumes "change cmd db db'" and dead: "token_dead h db" and fresh: "\<not> mints_session h cmd"
  shows "token_dead h db'"
  using assms(1)
proof cases
  case (user_deactivated u uid ws f t)
  then show ?thesis by (intro token_dead_map [OF dead]) (auto simp: tracked_def)
next
  case (sessions_updated f)
  then show ?thesis by (intro token_dead_map [OF dead]) (auto simp: tracked_def)
next
  case code_exchanged
  then show ?thesis using dead fresh by (auto simp: token_dead_def tracked_def)
qed (use dead in \<open>auto simp: token_dead_def tracked_def\<close>)

lemma revoked_token_dead:
  assumes inv: "people_inv db" and run: "revoke_yard_session db yid (yn_id s) t ev = (Ok b, db')" and s: "s \<in> set (yard_sessions db)"
  shows "token_dead (yn_token_hash s) db'"
proof -
  have ids: "v = s" if "v \<in> set (yard_sessions db)" "yn_id v = yn_id s" for v
    by (rule inj_onD [of yn_id "set (yard_sessions db)"])
      (use that s inv in \<open>simp_all add: people_inv_def session_inv_def distinct_map\<close>)
  have tokens: "v = s" if "v \<in> set (yard_sessions db)" "yn_token_hash v = yn_token_hash s" for v
    by (rule inj_onD [of yn_token_hash "set (yard_sessions db)"])
      (use that s inv in \<open>simp_all add: people_inv_def session_inv_def distinct_map\<close>)
  from run obtain x where x: "query_optional (\<lambda>r. yn_id r = yn_id s) yard_session (yard_sessions db) = Ok (Some x)"
      and more: "db' = db \<and> ysn_revoked_at_ms x \<noteq> None
        \<or> (\<exists>n rows k. update_rows (\<lambda>r. yn_id r = ysn_id x \<and> yn_revoked_at_ms r = None)
            (\<lambda>r. r\<lparr>yn_revoked_at_ms := Some n\<rparr>) yard_session_check (yard_sessions db) = Ok (k, rows)
          \<and> admission_audit (db\<lparr>yard_sessions := rows\<rparr>) ev = Ok db')"
    by (fastforce simp: revoke_yard_session_def run_iffs revoke_session_in_def result_simps split: if_split_asm)
  obtain r where "r \<in> set (yard_sessions db)" "yn_id r = yn_id s" "yard_session r = Ok x"
    using x by (rule query_optional_Ok_D)
  then have "yard_session s = Ok x" using ids [of r] by simp
  then have x: "ysn_id x = yn_id s" "ysn_revoked_at_ms x \<noteq> None \<longrightarrow> yn_revoked_at_ms s \<noteq> None"
    by (auto simp: yard_session_def result_simps optional_u64_def split: option.split_asm)
  from more show ?thesis
  proof (elim disjE conjE exE)
    assume "db' = db" "ysn_revoked_at_ms x \<noteq> None"
    with x tokens show ?thesis by (auto simp: token_dead_def)
  next
    fix n rows k
    assume rows: "update_rows (\<lambda>r. yn_id r = ysn_id x \<and> yn_revoked_at_ms r = None)
            (\<lambda>r. r\<lparr>yn_revoked_at_ms := Some n\<rparr>) yard_session_check (yard_sessions db) = Ok (k, rows)"
      and "admission_audit (db\<lparr>yard_sessions := rows\<rparr>) ev = Ok db'"
    then have "yard_sessions db' = rows" by (auto elim: admission_audit_D)
    with rows x(1) tokens show ?thesis by (auto simp: token_dead_def update_rows_map)
  qed
qed

lemma dead_token_refused: "token_dead h db \<Longrightarrow> session_id db h host yid t \<noteq> Ok (Some i)"
  by (auto simp: token_dead_def elim!: session_id_D)

section \<open>A revoked invitation\<close>

definition invite_dead :: "string \<Rightarrow> admission_database \<Rightarrow> bool" where
  "invite_dead iid db \<longleftrightarrow>
     iid \<in> gi_id ` set (guest_invitations db)
     \<and> (\<forall>i \<in> set (guest_invitations db). gi_id i = iid \<longrightarrow> gi_status i \<notin> {''pending'', ''accepted''})"

lemma invite_dead_map:
  assumes "invite_dead iid db" and t: "guest_invitations db' = map f (guest_invitations db)" and f: "\<And>i. gi_id (f i) = gi_id i"
    and keep: "\<And>i. gi_status i \<notin> {''pending'', ''accepted''} \<Longrightarrow> gi_status (f i) \<notin> {''pending'', ''accepted''}"
  shows "invite_dead iid db'"
  using assms(1) f keep by (simp add: invite_dead_def t image_image)

lemma invite_dead_change:
  assumes "change cmd db db'" and dead: "invite_dead iid db"
  shows "invite_dead iid db'"
  using assms(1)
proof cases
  case (invited d i)
  then show ?thesis using dead by (auto simp: invite_dead_def tracked_def guest_invitation_allowed_def list_ex_iff)
next
  case (invite_accepted h sr key new ev now c s i t)
  then show ?thesis
    by (intro invite_dead_map [OF dead, where f = "accept_invite i (su_id s) h t"]) (auto simp: tracked_def accept_invite_def)
next
  case (invite_revoked i t)
  then show ?thesis
    by (intro invite_dead_map [OF dead, where f = "revoke_invite i t"]) (auto simp: tracked_def revoke_invite_def)
qed (rule invite_dead_map [OF dead, where f = id]; simp add: tracked_def)+

lemma revoked_invite_dead:
  assumes "revoke_yard_guest_invite uc db yid iid t ev = (Ok x, db')"
  shows "invite_dead iid db'"
proof -
  from assms obtain i now d1 d2 where i: "guest_invite_by_id uc db iid = Ok (Some i)"
      and d1: "mark_revoked (ygi_id i) now db = Ok d1"
      and d2: "revoke_authority i now d1 = Ok d2" and aud: "admission_audit d2 ev = Ok db'"
    by (auto simp: revoke_yard_guest_invite_def run_iffs revoke_invite_in_def effect_simps split: if_split_asm)
  from i obtain p where p: "p \<in> set (invitation_join db)" "gi_id (fst p) = iid" "guest_invitation uc p = Ok i"
    by (auto simp: guest_invite_by_id_def elim!: query_optional_Ok_D)
  then have id: "ygi_id i = iid" by (auto simp: guest_invitation_def Let_def result_simps)
  have mem: "fst p \<in> set (guest_invitations db)" using p(1) by (auto simp: invitation_join_def)
  have t: "guest_invitations db' = map (revoke_invite iid now) (guest_invitations db)"
    using mark_revoked_D [OF d1] d2 aud id by (auto elim!: revoke_authority_D admission_audit_D)
  have "iid \<in> gi_id ` set (guest_invitations db')" using mem p(2) unfolding t by (force simp: image_image)
  moreover have "gi_status (revoke_invite iid now i) \<notin> {''pending'', ''accepted''}" if "gi_id i = iid" for i
    using that by (simp add: revoke_invite_def)
  ultimately show ?thesis by (simp add: invite_dead_def t)
qed

lemma dead_invite_not_pending:
  assumes "invite_dead iid db" and "pending_by_hash uc db h now = Ok i"
  shows "ygi_id i \<noteq> iid"
proof -
  from assms(2) obtain ms where ms: "collect_results (guest_invitation uc) (pending_matches db h now) = Ok ms"
      "(case ms of [j] \<Rightarrow> Ok j | _ \<Rightarrow> Err NotFound) = Ok i"
    unfolding pending_by_hash_def and_then_Ok_iff by blast
  from ms(2) have "ms = [i]" by (auto split: list.split_asm)
  with ms(1) have "collect_results (guest_invitation uc) (pending_matches db h now) = Ok [i]" by simp
  then obtain p where p: "p \<in> set (pending_matches db h now)" "guest_invitation uc p = Ok i"
    using collect_results_member by fastforce
  from p(1) have "fst p \<in> set (guest_invitations db)" "gi_status (fst p) = ''pending''"
    by (auto simp: pending_matches_def invitation_join_def dest!: in_set_takeD)
  moreover have "ygi_id i = gi_id (fst p)" using p(2) by (auto simp: guest_invitation_def Let_def result_simps)
  ultimately show ?thesis using assms(1) by (auto simp: invite_dead_def)
qed

lemma dead_guest_not_admitted:
  assumes inv: "people_inv db" and dead: "invite_dead iid db"
    and s: "s \<in> set (yard_subjects db)" "su_kind s = ''guest''" "su_invitation_id s = Some iid"
  shows "evaluate db host (su_id s) t \<noteq> Ok a"
proof
  assume "evaluate db host (su_id s) t = Ok a"
  have same: "v = s" if "v \<in> set (yard_subjects db)" "su_id v = su_id s" for v
    by (rule inj_onD [of su_id "set (yard_subjects db)"])
      (use that s(1) inv in \<open>simp_all add: people_inv_def user_inv_def distinct_map\<close>)
  obtain v y e where v: "v \<in> set (yard_subjects db)" "su_id v = su_id s"
      and adm: "su_kind v = ''guest'' \<and> guest_admitted db host (su_id s) t y e \<or> su_kind v = ''member'' \<and> member_admitted db host (su_id s) t y e"
    by (rule evaluate_D [OF \<open>evaluate db host (su_id s) t = Ok a\<close>])
  from same [OF v] adm s(2) have "guest_admitted db host (su_id s) t y e" by auto
  then obtain w i where w: "w \<in> set (yard_subjects db)" "su_id w = su_id s" and i: "i \<in> set (guest_invitations db)"
      "Some (gi_id i) = su_invitation_id w" "gi_status i = ''accepted''"
    by (auto simp: guest_admitted_def list_ex_iff)
  with same [OF w] s(3) have "gi_id i = iid" by simp
  with i dead show False by (auto simp: invite_dead_def)
qed

lemma dead_guest_not_authenticated:
  assumes inv: "people_inv db" and dead: "invite_dead iid db" and run: "authenticate_yard_guest_key db h t = (Ok x, db')"
  shows "ysr_invitation_id x \<noteq> Some iid"
proof -
  from run obtain now k' rows where ret: "update_returning (guest_key_admits db h now)
        (\<lambda>k. k\<lparr>gk_last_used_at_ms := touched now (gk_last_used_at_ms k)\<rparr>) guest_key_check (\<lambda>k. Ok (gk_subject_id k))
        (guest_keys db) = Ok (k', rows)"
      and x: "query_row (\<lambda>s. su_id s = k') yard_subject (yard_subjects db) = Ok x"
    by (auto simp: authenticate_yard_guest_key_def run_iffs authenticate_guest_in_def result_simps)
  from ret obtain k where k: "guest_key_admits db h now k" "k' = gk_subject_id k"
    by (auto simp: update_returning_def result_simps dest!: query_row_Ok_D)
  from x obtain s where s: "s \<in> set (yard_subjects db)" "su_id s = k'" "ysr_invitation_id x = su_invitation_id s"
    by (auto simp: yard_subject_def Let_def result_simps dest!: query_row_Ok_D)
  have same: "v = s" if "v \<in> set (yard_subjects db)" "su_id v = su_id s" for v
    by (rule inj_onD [of su_id "set (yard_subjects db)"])
      (use that s(1) inv in \<open>simp_all add: people_inv_def user_inv_def distinct_map\<close>)
  from k obtain w i where w: "w \<in> set (yard_subjects db)" "su_id w = k'" and i: "i \<in> set (guest_invitations db)"
      "Some (gi_id i) = su_invitation_id w" "gi_status i = ''accepted''"
    by (auto simp: guest_key_admits_def list_ex_iff invitation_join_def)
  with same [OF w(1)] s show ?thesis using dead by (auto simp: invite_dead_def)
qed

section \<open>Exchange codes\<close>

text \<open>The issued codes with a given hash that nobody exchanged.\<close>

definition unspent :: "string \<Rightarrow> admission_database \<Rightarrow> nat" where
  "unspent h db = length (filter (\<lambda>r. yc_code_hash r = h \<and> yc_consumed_at_ms r = None) (yard_continuations db))"

fun issues_code :: "string \<Rightarrow> people_command \<Rightarrow> bool" where
  "issues_code h (IssueExchangeCode c) \<longleftrightarrow> nyc_code_hash c = h"
| "issues_code h (AcceptGuestInvite _ _ _ c _ _) \<longleftrightarrow> nyc_code_hash c = h"
| "issues_code h _ \<longleftrightarrow> False"

fun exchanges_code :: "string \<Rightarrow> people_command \<Rightarrow> bool" where
  "exchanges_code h (ExchangeCode code _ _ _ _) \<longleftrightarrow> code = h"
| "exchanges_code h _ \<longleftrightarrow> False"

lemma spend_unspent:
  "length (filter (\<lambda>r. yc_code_hash r = h \<and> yc_consumed_at_ms r = None) (map (spend k host t) rs))
     \<le> length (filter (\<lambda>r. yc_code_hash r = h \<and> yc_consumed_at_ms r = None) rs)"
  by (induction rs) (auto simp: spend_def)

lemma spend_one:
  assumes "r \<in> set rs" and "consumable h host t r"
  shows "length (filter (\<lambda>r. yc_code_hash r = h \<and> yc_consumed_at_ms r = None) (map (spend h host t) rs))
       < length (filter (\<lambda>r. yc_code_hash r = h \<and> yc_consumed_at_ms r = None) rs)"
proof -
  obtain xs ys where rs: "rs = xs @ r # ys" using assms(1) by (auto simp: in_set_conv_decomp)
  have "yc_code_hash r = h" "yc_consumed_at_ms r = None" "yc_consumed_at_ms (spend h host t r) = Some t"
    using assms(2) by (simp_all add: consumable_def spend_def)
  then show ?thesis using spend_unspent [of h h host t xs] spend_unspent [of h h host t ys] by (simp add: rs)
qed

lemma unspent_change:
  assumes "change cmd db db'"
  shows "unspent h db' \<le> unspent h db + (if issues_code h cmd then 1 else 0)"
  using assms
proof cases
  case (code_exchanged k host new ctx now s r t)
  then show ?thesis using spend_unspent [of h k host t "yard_continuations db"] by (simp add: unspent_def tracked_def)
next
  case (history_purged Q P)
  then show ?thesis
    using filter_filter_length [of "\<lambda>r. yc_code_hash r = h \<and> yc_consumed_at_ms r = None" P "yard_continuations db"]
    by (simp add: unspent_def tracked_def)
qed (auto simp: unspent_def tracked_def)

lemma unspent_exchange:
  assumes "people_exec uc (ExchangeCode h host s a t) db = (Ok u, db')"
  shows "unspent h db' < unspent h db"
proof -
  from assms obtain x where "exchange_in h host s a t db = Ok (x, db')"
    by (auto simp: run_iffs exchange_yard_session_code_def)
  then show ?thesis
  proof (rule exchange_D)
    fix now r
    assume "r \<in> set (yard_continuations db)" and "consumable h host now r"
      and eq: "yard_continuations db' = map (spend h host now) (yard_continuations db)"
    then show ?thesis unfolding unspent_def eq by (intro spend_one)
  qed
qed

lemma exchanges_within_issues:
  assumes "people_inv db"
  shows "length (filter (exchanges_code h) (effective_commands (people_exec uc) (\<lambda>r. \<not> is_ok r) cs db))
    \<le> unspent h db + length (filter (issues_code h) (effective_commands (people_exec uc) (\<lambda>r. \<not> is_ok r) cs db))"
  using assms
proof (induction cs arbitrary: db)
  case (Cons c cs)
  obtain r db' where run: "people_exec uc c db = (r, db')" by force
  have inv': "people_inv db'" by (rule people.inv_step [OF Cons.prems run])
  show ?case
  proof (cases r)
    case (Inl e)
    then have "db' = db" using people.failed_unchanged [OF Cons.prems run] by simp
    with Cons run Inl show ?thesis by simp
  next
    case (Inr u)
    have "unspent h db' + (if exchanges_code h c then 1 else 0) \<le> unspent h db + (if issues_code h c then 1 else 0)"
    proof (cases "exchanges_code h c")
      case True
      then obtain host s a t where "c = ExchangeCode h host s a t" by (cases c) auto
      then show ?thesis using unspent_exchange run Inr by fastforce
    next
      case False
      with people_exec_effect run Inr show ?thesis using unspent_change by fastforce
    qed
    with Cons.IH [OF inv'] run Inr show ?thesis by auto
  qed
qed simp

end
