(* ===== verification/People_Samples.thy ===== *)
theory People_Samples
  imports People_Histories Yard_Properties "HOL-Library.Code_Target_Nat"
begin

text \<open>
  A sample history of a site, used to show that the hypotheses of the properties can hold: two users,
  a group, an owner, an approved policy, a group grant, a private yard, a session and a guest.
\<close>

text \<open>A text library for ASCII: strings are quoted with the two escapes such texts need, and the readers
  know the texts of the sample policy and of its closure.\<close>

fun sample_escaped :: "string \<Rightarrow> string" where
  "sample_escaped [] = []"
| "sample_escaped (c # s) =
     (if c = CHR 0x22 \<or> c = CHR 0x5C then CHR 0x5C # c # sample_escaped s else c # sample_escaped s)"

definition sample_writer :: text_library where
  "sample_writer = \<lparr>uc_lowercase = (\<lambda>s. s), uc_nfc = (\<lambda>s. s),
     uc_quoted = (\<lambda>s. CHR 0x22 # sample_escaped s @ [CHR 0x22]),
     uc_graph_of_json = (\<lambda>_. None), uc_effective_of_json = (\<lambda>_. None)\<rparr>"

definition sample_closure :: EffectiveApplicationPolicy where
  "sample_closure = \<lparr>eap_effective_roles = [(''admin'', [''admin'', ''member'']), (''member'', [''member''])],
     eap_effective_permissions = [(''admin'', [''notes.read'', ''notes.write'']), (''member'', [''notes.read''])]\<rparr>"

definition sample_text :: text_library where
  "sample_text = sample_writer\<lparr>
     uc_graph_of_json := (\<lambda>s. if s = encode_graph sample_writer sample_policy then Some sample_policy else None),
     uc_effective_of_json := (\<lambda>s. if s = encode_effective sample_writer sample_closure then Some sample_closure else None)\<rparr>"

lemma sample_escaped_ends:
  "sample_escaped a @ CHR 0x22 # x = sample_escaped b @ CHR 0x22 # y \<Longrightarrow> a = b"
proof (induction a arbitrary: b)
  case Nil
  then show ?case by (cases b) (auto split: if_split_asm)
next
  case (Cons c a)
  then show ?case by (cases b) (auto split: if_split_asm)
qed

lemma sample_text_quoting: "json_quoting sample_text"
  unfolding json_quoting_def
proof
  show "prefix_free (uc_quoted sample_text)"
    by (rule prefix_freeI) (auto simp: sample_text_def sample_writer_def dest: sample_escaped_ends)
qed (simp add: sample_text_def sample_writer_def)

definition sample_user :: "string \<Rightarrow> nat \<Rightarrow> LocalUserRecord" where
  "sample_user k t = \<lparr>lur_id = k, lur_workspace_id = ''w'', lur_display_name = k, lur_email = None, lur_status = LuActive,
     lur_created_at_ms = t, lur_deactivated_at_ms = None\<rparr>"

definition sample_key :: "string \<Rightarrow> char \<Rightarrow> nat \<Rightarrow> LocalUserLoginKeyRecord" where
  "sample_key k c t = \<lparr>luk_id = ''key-'' @ k, luk_user_id = k, luk_token_prefix = ''by'', luk_secret_hash = sample_hash c,
     luk_created_at_ms = t, luk_expires_at_ms = t + 1000000, luk_last_used_at_ms = None, luk_revoked_at_ms = None\<rparr>"

definition sample_create_user :: "string \<Rightarrow> char \<Rightarrow> nat \<Rightarrow> people_command" where
  "sample_create_user k c t = CreateLocalUser (sample_user k t) (sample_key k c t)
     (sample_yard_event (''ev-'' @ k) ''user.created'' ''local_user'' t [(''userId'', AvString k)])"

definition sample_group :: string where
  "sample_group = ''group_'' @ replicate 32 CHR ''0''"

definition sample_create_group :: people_command where
  "sample_create_group = CreateGroup \<lparr>wgr_id = sample_group, wgr_workspace_id = ''w'', wgr_name = ''team'',
       wgr_status = WgActive, wgr_member_count = 0, wgr_created_at_ms = 102, wgr_deactivated_at_ms = None\<rparr>
     (sample_yard_event ''ev-group'' ''group.created'' ''workspace_group'' 102
       [(''groupId'', AvString sample_group), (''workspaceId'', AvString ''w''), (''name'', AvString ''team'')])"

definition sample_add_member :: people_command where
  "sample_add_member = AddMember \<lparr>wmr_group_id = sample_group, wmr_workspace_id = ''w'', wmr_user_id = ''bob'', wmr_added_at_ms = 103\<rparr>
     (sample_yard_event ''ev-member'' ''group.member_added'' ''workspace_group'' 103
       [(''groupId'', AvString sample_group), (''userId'', AvString ''bob''), (''workspaceId'', AvString ''w'')])"

definition sample_set_owner :: people_command where
  "sample_set_owner = SetManagementRole ''y1'' ''ada'' MrOwner 104
     (sample_yard_event ''ev-owner'' ''yard.management_role_set'' ''yard_management_role'' 104
       [(''from'', AvNull), (''to'', AvString ''owner''), (''userId'', AvString ''ada''), (''yardId'', AvString ''y1'')])"

definition sample_policy_event :: NewAuditEvent where
  "sample_policy_event = sample_yard_event ''ev-policy'' ''yard.application_policy_set'' ''yard_application_policy'' 105
     [(''fromRevision'', AvNull), (''permissionCount'', AvNumber 2), (''roleCount'', AvNumber 2),
      (''sourceManifestDigest'', AvString (sample_hash CHR ''a'')), (''toRevision'', AvNumber 1), (''yardId'', AvString ''y1'')]"

definition sample_approve :: people_command where
  "sample_approve = SetApplicationPolicy ''y1'' (sample_hash CHR ''a'') sample_policy ''ada'' 105 sample_policy_event"

definition sample_grant :: people_command where
  "sample_grant = InsertAccessGrant \<lparr>nag_id = ''g1'', nag_yard_id = ''y1'', nag_environment_id = None,
       nag_principal_kind = YpGroup, nag_principal_id = sample_group, nag_app_roles = [''admin''], nag_created_at_ms = 106,
       nag_created_by_principal = ''ada'', nag_expires_at_ms = None\<rparr>
     (sample_yard_event ''ev-grant'' ''yard.access_granted'' ''yard_access_grant'' 106
       [(''environmentId'', AvNull), (''grantId'', AvString ''g1''), (''principalKind'', AvString ''group''),
        (''yardId'', AvString ''y1'')])"

definition sample_private :: people_command where
  "sample_private = SetVisibility ''y1'' YvSelected 107
     (sample_yard_event ''ev-private'' ''yard.visibility_changed'' ''yard_access_policy'' 107
       [(''from'', AvString ''public''), (''to'', AvString ''selected''), (''yardId'', AvString ''y1'')])"

definition sample_code :: "string \<Rightarrow> char \<Rightarrow> nat \<Rightarrow> NewYardContinuation" where
  "sample_code who c t = \<lparr>nyc_id = ''code-'' @ who, nyc_continuation_hash = sample_hash c, nyc_code_hash = sample_hash c,
     nyc_yard_id = ''y1'', nyc_environment_id = ''yardenv_y1'', nyc_host_label = ''docs-1'', nyc_user_id = who,
     nyc_return_path = ''/'', nyc_created_at_ms = t, nyc_expires_at_ms = t + 60000\<rparr>"

definition sample_exchange :: people_command where
  "sample_exchange = ExchangeCode (sample_hash CHR ''c'') ''docs-1''
     \<lparr>nys_id = ''s1'', nys_token_hash = sample_hash CHR ''d'', nys_created_at_ms = 110, nys_expires_at_ms = 43200110\<rparr>
     \<lparr>yac_id = ''ev-session'', yac_request_id = ''r''\<rparr> 110"

definition sample_invitation :: string where
  "sample_invitation = ''ygi_'' @ replicate 32 CHR ''0''"

definition sample_guest :: string where
  "sample_guest = ''guest_'' @ replicate 32 CHR ''0''"

definition sample_guest_metadata :: "AuditValue \<Rightarrow> (string \<times> AuditValue) list" where
  "sample_guest_metadata s = [(''environmentId'', AvNull), (''grantId'', AvString ''g2''),
      (''invitationId'', AvString sample_invitation), (''projectId'', AvString ''p''), (''subjectId'', s),
      (''yardId'', AvString ''y1'')]"

definition sample_invite :: people_command where
  "sample_invite = CreateGuestInvite \<lparr>ngi_id = sample_invitation, ngi_workspace_id = ''w'', ngi_project_id = ''p'',
       ngi_yard_id = ''y1'', ngi_environment_id = None, ngi_email = ''eve@example.org'', ngi_token_hash = sample_hash CHR ''e'',
       ngi_grant_id = ''g2'', ngi_created_at_ms = 111, ngi_expires_at_ms = 400111\<rparr>
     \<lparr>nag_id = ''g2'', nag_yard_id = ''y1'', nag_environment_id = None, nag_principal_kind = YpGuestInvite,
       nag_principal_id = sample_invitation, nag_app_roles = [], nag_created_at_ms = 111,
       nag_created_by_principal = ''ada'', nag_expires_at_ms = Some 400111\<rparr>
     (sample_yard_event ''ev-invite'' ''yard.guest_invite.created'' ''yard_guest_invite'' 111 (sample_guest_metadata AvNull))"

definition sample_accept :: people_command where
  "sample_accept = AcceptGuestInvite (sample_hash CHR ''e'')
     \<lparr>ysr_id = sample_guest, ysr_kind = YkGuest, ysr_workspace_id = ''w'', ysr_local_user_id = None,
      ysr_invitation_id = Some sample_invitation, ysr_created_at_ms = 112, ysr_revoked_at_ms = None\<rparr>
     \<lparr>ygk_id = ''gk1'', ygk_subject_id = sample_guest, ygk_invitation_id = sample_invitation, ygk_workspace_id = ''w'',
      ygk_token_prefix = ''by'', ygk_secret_hash = sample_hash CHR ''f'', ygk_created_at_ms = 112, ygk_expires_at_ms = 400111,
      ygk_last_used_at_ms = None, ygk_revoked_at_ms = None\<rparr>
     (sample_code sample_guest CHR ''9'' 112)
     (sample_yard_event ''ev-accept'' ''yard.guest_invite.accepted'' ''yard_guest_invite'' 112
       (sample_guest_metadata (AvString sample_guest))) 112"

definition sample_history :: "people_command list" where
  "sample_history = [sample_create_user ''ada'' CHR ''1'' 100, sample_create_user ''bob'' CHR ''2'' 101, sample_create_group,
     sample_add_member, sample_set_owner, sample_approve, sample_grant, sample_private,
     IssueExchangeCode (sample_code ''bob'' CHR ''c'' 108), sample_exchange, sample_invite, sample_accept]"

text \<open>The rows the history leaves, computed once.\<close>

definition sample_audit :: "int \<Rightarrow> string \<Rightarrow> string \<Rightarrow> string \<Rightarrow> string \<Rightarrow> int \<Rightarrow> (string \<times> json_value) list \<Rightarrow> audit_event_row" where
  "sample_audit n uid actor action target t columns = \<lparr>ae_sequence = n, ae_id = uid, ae_workspace_id = ''w'', ae_actor = actor,
     ae_action = action, ae_request_id = ''r'', ae_target_type = target, ae_metadata = columns, ae_created_at_ms = t\<rparr>"

definition sample_people :: admission_database where
  "sample_people = run_commands (people_exec sample_text) sample_history (empty_people sample_site)"

lemma sample_people_rows [code]:
  "sample_people = \<lparr>yards = sample_site\<lparr>repository := (repository sample_site)\<lparr>audit_events := audit_events (repository sample_site) @
       [sample_audit 5 ''ev-ada'' ''a'' ''user.created'' ''local_user'' 100 [(''userId'', JsonString ''ada'')],
        sample_audit 6 ''ev-bob'' ''a'' ''user.created'' ''local_user'' 101 [(''userId'', JsonString ''bob'')],
        sample_audit 7 ''ev-group'' ''a'' ''group.created'' ''workspace_group'' 102 [(''groupId'', JsonString
          sample_group), (''name'', JsonString ''team''), (''workspaceId'', JsonString ''w'')],
        sample_audit 8 ''ev-member'' ''a'' ''group.member_added'' ''workspace_group'' 103 [(''groupId'', JsonString
          sample_group), (''userId'', JsonString ''bob''), (''workspaceId'', JsonString ''w'')],
        sample_audit 9 ''ev-owner'' ''a'' ''yard.management_role_set'' ''yard_management_role'' 104 [(''from'',
          JsonNull), (''to'', JsonString ''owner''), (''userId'', JsonString ''ada''), (''yardId'', JsonString
          ''y1'')],
        sample_audit 10 ''ev-policy'' ''a'' ''yard.application_policy_set'' ''yard_application_policy'' 105
          [(''fromRevision'', JsonNull), (''permissionCount'', JsonNumber 2), (''roleCount'', JsonNumber 2),
          (''sourceManifestDigest'', JsonString (sample_hash CHR ''a'')), (''toRevision'', JsonNumber 1),
          (''yardId'', JsonString ''y1'')],
        sample_audit 11 ''ev-grant'' ''a'' ''yard.access_granted'' ''yard_access_grant'' 106 [(''environmentId'',
          JsonNull), (''grantId'', JsonString ''g1''), (''principalKind'', JsonString ''group''), (''yardId'',
          JsonString ''y1'')],
        sample_audit 12 ''ev-private'' ''a'' ''yard.visibility_changed'' ''yard_access_policy'' 107 [(''from'',
          JsonString ''public''), (''to'', JsonString ''selected''), (''yardId'', JsonString ''y1'')],
        sample_audit 13 ''ev-session'' ''bob'' ''yard.session_issued'' ''yard_session'' 110 [(''sessionId'', JsonString
          ''s1''), (''yardId'', JsonString ''y1'')],
        sample_audit 14 ''ev-invite'' ''a'' ''yard.guest_invite.created'' ''yard_guest_invite'' 111 [(''environmentId'',
          JsonNull), (''grantId'', JsonString ''g2''), (''invitationId'', JsonString sample_invitation),
          (''projectId'', JsonString ''p''), (''subjectId'', JsonNull), (''yardId'', JsonString ''y1'')],
        sample_audit 15 ''ev-accept'' ''a'' ''yard.guest_invite.accepted'' ''yard_guest_invite'' 112
          [(''environmentId'', JsonNull), (''grantId'', JsonString ''g2''), (''invitationId'', JsonString
          sample_invitation), (''projectId'', JsonString ''p''), (''subjectId'', JsonString sample_guest),
          (''yardId'', JsonString ''y1'')]],
       audit_sequence := 15\<rparr>\<rparr>,
     access_policies = [\<lparr>ap_yard_id = ''y1'', ap_visibility = ''selected'', ap_updated_at_ms = 107,
       ap_updated_by_principal = ''a''\<rparr>],
     access_grants = [\<lparr>ag_id = ''g1'', ag_yard_id = ''y1'', ag_environment_id = None, ag_principal_kind =
       ''group'', ag_principal_id = sample_group, ag_app_roles = [''admin''], ag_status = ''active'', ag_created_at_ms
       = 106, ag_created_by_principal = ''ada'', ag_expires_at_ms = None, ag_revoked_at_ms = None\<rparr>,
       \<lparr>ag_id = ''g2'', ag_yard_id = ''y1'', ag_environment_id = None, ag_principal_kind = ''guest-invite'',
       ag_principal_id = sample_invitation, ag_app_roles = [], ag_status = ''active'', ag_created_at_ms = 111,
       ag_created_by_principal = ''ada'', ag_expires_at_ms = Some 400111, ag_revoked_at_ms = None\<rparr>],
     local_users = [\<lparr>lu_id = ''ada'', lu_workspace_id = ''w'', lu_display_name = ''ada'', lu_email = None,
       lu_status = ''active'', lu_created_at_ms = 100, lu_deactivated_at_ms = None\<rparr>, \<lparr>lu_id = ''bob'',
       lu_workspace_id = ''w'', lu_display_name = ''bob'', lu_email = None, lu_status = ''active'', lu_created_at_ms =
       101, lu_deactivated_at_ms = None\<rparr>],
     login_keys = [\<lparr>lk_id = ''key-ada'', lk_user_id = ''ada'', lk_token_prefix = ''by'', lk_secret_hash =
       sample_hash CHR ''1'', lk_created_at_ms = 100, lk_expires_at_ms = 1000100, lk_last_used_at_ms = None,
       lk_revoked_at_ms = None\<rparr>, \<lparr>lk_id = ''key-bob'', lk_user_id = ''bob'', lk_token_prefix = ''by'',
       lk_secret_hash = sample_hash CHR ''2'', lk_created_at_ms = 101, lk_expires_at_ms = 1000101, lk_last_used_at_ms
       = None, lk_revoked_at_ms = None\<rparr>],
     workspace_groups = [\<lparr>wg_id = sample_group, wg_workspace_id = ''w'', wg_name = ''team'', wg_status =
       ''active'', wg_member_count = 1, wg_created_at_ms = 102, wg_deactivated_at_ms = None\<rparr>],
     group_members = [\<lparr>gm_group_id = sample_group, gm_workspace_id = ''w'', gm_user_id = ''bob'',
       gm_added_at_ms = 103\<rparr>],
     management_roles = [\<lparr>mr_yard_id = ''y1'', mr_user_id = ''ada'', mr_workspace_id = ''w'', mr_role =
       ''owner'', mr_created_at_ms = 104, mr_updated_at_ms = 104\<rparr>],
     application_policies = [\<lparr>py_yard_id = ''y1'', py_workspace_id = ''w'', py_revision = 1,
       py_source_manifest_digest = sample_hash CHR ''a'', py_policy_json = encode_graph sample_writer sample_policy,
       py_effective_json = encode_effective sample_writer sample_closure, py_approved_at_ms = 105, py_approved_by_principal = ''ada''\<rparr>],
     yard_subjects = [\<lparr>su_id = ''ada'', su_kind = ''member'', su_workspace_id = ''w'', su_local_user_id = Some
       ''ada'', su_invitation_id = None, su_created_at_ms = 100, su_revoked_at_ms = None\<rparr>, \<lparr>su_id =
       ''bob'', su_kind = ''member'', su_workspace_id = ''w'', su_local_user_id = Some ''bob'', su_invitation_id =
       None, su_created_at_ms = 101, su_revoked_at_ms = None\<rparr>, \<lparr>su_id = sample_guest, su_kind =
       ''guest'', su_workspace_id = ''w'', su_local_user_id = None, su_invitation_id = Some sample_invitation,
       su_created_at_ms = 112, su_revoked_at_ms = None\<rparr>],
     guest_invitations = [\<lparr>gi_id = sample_invitation, gi_workspace_id = ''w'', gi_project_id = ''p'',
       gi_yard_id = ''y1'', gi_environment_id = None, gi_email = ''eve@example.org'', gi_token_hash = None, gi_status
       = ''accepted'', gi_accepted_subject_id = Some sample_guest, gi_grant_id = ''g2'', gi_created_at_ms = 111,
       gi_expires_at_ms = 400111, gi_accepted_at_ms = Some 112, gi_revoked_at_ms = None\<rparr>],
     guest_keys = [\<lparr>gk_id = ''gk1'', gk_subject_id = sample_guest, gk_invitation_id = sample_invitation,
       gk_workspace_id = ''w'', gk_token_prefix = ''by'', gk_secret_hash = sample_hash CHR ''f'', gk_created_at_ms =
       112, gk_expires_at_ms = 400111, gk_last_used_at_ms = None, gk_revoked_at_ms = None\<rparr>],
     yard_continuations = [\<lparr>yc_id = ''code-bob'', yc_continuation_hash = sample_hash CHR ''c'', yc_code_hash =
       sample_hash CHR ''c'', yc_yard_id = ''y1'', yc_environment_id = ''yardenv_y1'', yc_host_label = ''docs-1'',
       yc_subject_id = ''bob'', yc_return_path = ''/'', yc_created_at_ms = 108, yc_expires_at_ms = 60108,
       yc_consumed_at_ms = Some 110\<rparr>, \<lparr>yc_id = (''code-'' @ sample_guest), yc_continuation_hash =
       sample_hash CHR ''9'', yc_code_hash = sample_hash CHR ''9'', yc_yard_id = ''y1'', yc_environment_id =
       ''yardenv_y1'', yc_host_label = ''docs-1'', yc_subject_id = sample_guest, yc_return_path = ''/'',
       yc_created_at_ms = 112, yc_expires_at_ms = 60112, yc_consumed_at_ms = None\<rparr>],
     yard_sessions = [\<lparr>yn_id = ''s1'', yn_token_hash = sample_hash CHR ''d'', yn_yard_id = ''y1'',
       yn_environment_id = ''yardenv_y1'', yn_host_label = ''docs-1'', yn_subject_id = ''bob'', yn_created_at_ms =
       110, yn_expires_at_ms = 43200110, yn_last_used_at_ms = None, yn_revoked_at_ms = None\<rparr>]\<rparr>"
  by code_simp

lemma sample_site_inv: "site_inv sample_site"
  using sample_site_ok by (simp add: site_ok_def)

section \<open>Operations on the sample\<close>

definition sample_deactivation :: NewAuditEvent where
  "sample_deactivation = sample_yard_event ''ev-off'' ''user.deactivated'' ''local_user'' 200 [(''userId'', AvString ''bob'')]"

definition sample_session_revocation :: NewAuditEvent where
  "sample_session_revocation = sample_yard_event ''ev-off'' ''yard.session_revoked'' ''yard_session'' 200
     [(''sessionId'', AvString ''s1''), (''yardId'', AvString ''y1'')]"

definition sample_guest_revocation :: NewAuditEvent where
  "sample_guest_revocation = sample_yard_event ''ev-off'' ''yard.guest_invite.revoked'' ''yard_guest_invite'' 200
     (sample_guest_metadata (AvString sample_guest))"

definition sample_reapproval :: NewAuditEvent where
  "sample_reapproval = sample_yard_event ''ev-again'' ''yard.application_policy_set'' ''yard_application_policy'' 200
     [(''fromRevision'', AvNumber 1), (''permissionCount'', AvNumber 2), (''roleCount'', AvNumber 2),
      (''sourceManifestDigest'', AvString (sample_hash CHR ''b'')), (''toRevision'', AvNumber 2), (''yardId'', AvString ''y1'')]"

lemma sample_people_revocations:
  "is_ok (fst (deactivate_local_user sample_people ''bob'' 200 sample_deactivation))
   \<and> is_ok (fst (revoke_yard_session sample_people ''y1'' ''s1'' 200 sample_session_revocation))
   \<and> is_ok (fst (revoke_yard_guest_invite sample_text sample_people ''y1'' sample_invitation 200 sample_guest_revocation))"
  by code_simp

lemma sample_people_tables:
  "map yn_id (yard_sessions sample_people) = [''s1''] \<and> map wg_member_count (workspace_groups sample_people) = [1]
   \<and> map mr_yard_id (management_roles sample_people) = [''y1'']
   \<and> map su_id (filter (\<lambda>s. su_kind s = ''guest'') (yard_subjects sample_people)) = [sample_guest]"
  by code_simp

lemma sample_people_delivery:
  "is_ok (fst (yard_file_by_host sample_people ''docs-1'' [] (Some (sample_hash CHR ''d'')) 120))
   \<and> and_then (serving_deploy (yards sample_people) ''docs-1'') (\<lambda>d. Ok (effective_visibility sample_people (ydr_yard_id d)))
       = Ok ''selected''"
  by code_simp

lemma sample_people_identity:
  "and_then (fst (resolve_yard_identity sample_text sample_people ''docs-1'' (sample_hash CHR ''d'') 120)) (\<lambda>x. Ok (yid_app_roles x))
     = Ok [''admin'', ''member'']"
  by code_simp

lemma sample_people_approval:
  "(case set_yard_application_policy sample_text sample_people ''y1'' (sample_hash CHR ''b'') sample_policy ''ada'' 200 sample_reapproval of
      None \<Rightarrow> False | Some r \<Rightarrow> is_ok (fst r))
   \<and> and_then (policy_by_yard sample_text sample_people ''y1'') (\<lambda>p. Ok (map_option yar_revision p)) = Ok (Some 1)"
  by code_simp

definition sample_code_history :: "people_command list" where
  "sample_code_history = [sample_create_user ''bob'' CHR ''2'' 101, IssueExchangeCode (sample_code ''bob'' CHR ''c'' 108),
     sample_exchange, sample_exchange]"

lemma sample_people_exchanges:
  "length (filter (exchanges_code (sample_hash CHR ''c''))
      (effective_commands (people_exec sample_text) (\<lambda>r. \<not> is_ok r) sample_code_history (empty_people sample_site))) = 1"
  by code_simp

end
