(* ===== verification/People_Properties.thy ===== *)
theory People_Properties
  imports People_Histories People_Samples
begin

text \<open>
  What the access layer guarantees: a private file needs a live session of an admitted subject, a
  deactivated user, a revoked session and a revoked invitation stay out for good, an exchange code
  buys at most one session, groups count their members, a yard with roles keeps an owner, and an
  application sees no role the approved policy and a grant in force do not give.
\<close>

section \<open>Private files\<close>

text \<open>C1. A file of a yard that is not public is delivered only to a session token bound to this host
  and this yard, neither revoked nor expired, whose subject may open the yard at this moment: an
  active user the visibility admits, or a guest with an accepted invitation in force.\<close>

theorem private_delivery_admitted:
  assumes "yard_file_by_host db host path token now_ms = (Ok f, db')"
  shows "\<exists>d v. serving_deploy (yards db) host = Ok d \<and> v = effective_visibility db (ydr_yard_id d)
    \<and> (v = ''public''
       \<or> (\<exists>s \<in> set (yard_sessions db). \<exists>y \<in> set (web_yards (yards db)). \<exists>e \<in> set (yard_environments (yards db)).
            token = Some (yn_token_hash s) \<and> yn_host_label s = host \<and> yn_yard_id s = ydr_yard_id d
            \<and> yn_revoked_at_ms s = None \<and> int now_ms < yn_expires_at_ms s
            \<and> wy_id y = ydr_yard_id d \<and> wy_status y = ''active'' \<and> ye_id e = yn_environment_id s \<and> ye_yard_id e = wy_id y
            \<and> ((\<exists>u \<in> set (local_users db). lu_id u = yn_subject_id s \<and> lu_status u = ''active''
                 \<and> (v = ''any-authenticated'' \<or> v = ''workspace'' \<and> lu_workspace_id u = wy_workspace_id y
                    \<or> v \<in> {''selected'', ''authenticated-link''} \<and> selected_grant_admits db y e u (int now_ms)))
               \<or> v \<in> {''selected'', ''authenticated-link''}
                 \<and> (\<exists>i \<in> set (guest_invitations db). gi_accepted_subject_id i = Some (yn_subject_id s)
                      \<and> gi_yard_id i = wy_id y \<and> gi_status i = ''accepted'' \<and> int now_ms < gi_expires_at_ms i))))"
proof (rule deliver_D [OF assms])
  fix d :: YardDeployRecord
  let ?v = "effective_visibility db (ydr_yard_id d)"
  assume d: "serving_deploy (yards db) host = Ok d"
    and open_to: "?v = ''public'' \<or> (\<exists>h i. token = Some h \<and> session_id db h host (ydr_yard_id d) (int now_ms) = Ok (Some i))"
  show ?thesis
  proof (cases "?v = ''public''")
    case False
    with open_to obtain h i where h: "token = Some h" "session_id db h host (ydr_yard_id d) (int now_ms) = Ok (Some i)"
      by blast
    from h(2) show ?thesis
    proof (rule session_id_D, elim evaluate_D)
      fix s a w y e
      assume s: "s \<in> set (yard_sessions db)" "yn_token_hash s = h" "yn_host_label s = host" "yn_yard_id s = ydr_yard_id d"
          "yn_revoked_at_ms s = None" "int now_ms < yn_expires_at_ms s"
        and a: "yad_yard_id a = ydr_yard_id d" "yad_environment_id a = yn_environment_id s"
          "a = \<lparr>yad_yard_id = wy_id y, yad_environment_id = ye_id e, yad_workspace_id = wy_workspace_id y\<rparr>"
        and y: "y \<in> set (web_yards (yards db))" "e \<in> set (yard_environments (yards db))"
        and w: "su_id w = yn_subject_id s"
          "su_kind w = ''guest'' \<and> guest_admitted db host (yn_subject_id s) (int now_ms) y e
           \<or> su_kind w = ''member'' \<and> member_admitted db host (yn_subject_id s) (int now_ms) y e"
      have yard: "wy_id y = ydr_yard_id d" "ye_id e = yn_environment_id s" using a by simp_all
      have hidden: "visibility_of db (wy_id y) = Some ?v"
        using False yard(1) by (auto simp: effective_visibility_def split: option.split_asm)
      have "(\<exists>u \<in> set (local_users db). lu_id u = yn_subject_id s \<and> lu_status u = ''active''
              \<and> (?v = ''any-authenticated'' \<or> ?v = ''workspace'' \<and> lu_workspace_id u = wy_workspace_id y
                 \<or> ?v \<in> {''selected'', ''authenticated-link''} \<and> selected_grant_admits db y e u (int now_ms)))
            \<or> ?v \<in> {''selected'', ''authenticated-link''}
              \<and> (\<exists>i \<in> set (guest_invitations db). gi_accepted_subject_id i = Some (yn_subject_id s)
                   \<and> gi_yard_id i = wy_id y \<and> gi_status i = ''accepted'' \<and> int now_ms < gi_expires_at_ms i)"
        using w(2)
      proof (elim disjE conjE)
        assume "guest_admitted db host (yn_subject_id s) (int now_ms) y e"
        then show ?thesis using hidden by (fastforce simp: guest_admitted_def list_ex_iff)
      next
        assume "member_admitted db host (yn_subject_id s) (int now_ms) y e"
        then show ?thesis using hidden False by (fastforce simp: member_admitted_def list_ex_iff)
      qed
      moreover have "wy_status y = ''active''" "ye_yard_id e = wy_id y"
        using w(2) by (auto simp: guest_admitted_def member_admitted_def)
      ultimately show ?thesis using d h(1) s y yard by blast
    qed
  qed (use d in blast)
qed

theorem private_delivery_admitted_witness:
  "\<exists>f db'. yard_file_by_host sample_people ''docs-1'' [] (Some (sample_hash CHR ''d'')) 120 = (Ok f, db')
    \<and> (\<exists>s \<in> set (yard_sessions sample_people). yn_token_hash s = sample_hash CHR ''d'' \<and> yn_revoked_at_ms s = None
         \<and> 120 < yn_expires_at_ms s)"
proof -
  let ?run = "yard_file_by_host sample_people ''docs-1'' [] (Some (sample_hash CHR ''d'')) 120"
  obtain f where "fst ?run = Ok f" using sample_people_delivery by (auto simp: is_ok_iff)
  then have run: "?run = (Ok f, snd ?run)" by (metis prod.collapse)
  obtain d where d: "serving_deploy (yards sample_people) ''docs-1'' = Ok d"
      "effective_visibility sample_people (ydr_yard_id d) = ''selected''"
    using sample_people_delivery by (auto simp: result_simps)
  from private_delivery_admitted [OF run] d
  have "\<exists>s \<in> set (yard_sessions sample_people). yn_token_hash s = sample_hash CHR ''d'' \<and> yn_revoked_at_ms s = None
         \<and> 120 < yn_expires_at_ms s"
    by auto
  with run show ?thesis by blast
qed

section \<open>Revocations are final\<close>

text \<open>C2. Once a user is deactivated, whatever commands follow, the user is admitted to no yard, signs in
  with no key and belongs to no group.\<close>

theorem user_deactivation_final:
  assumes "site_inv y" and "db = run_commands (people_exec uc) before (empty_people y)"
    and "deactivate_local_user db uid now_ms event = (Ok (), db1)"
    and "db2 = run_commands (people_exec uc) later db1"
  shows "evaluate_yard_admission db2 host uid t \<noteq> Ok a
    \<and> (authenticate_local_user_key db2 h t = (Ok u, db3) \<longrightarrow> lur_id u \<noteq> uid)
    \<and> (\<forall>m \<in> set (group_members db2). gm_user_id m \<noteq> uid)"
proof -
  have inv: "people_inv db" using people.inv_run [OF empty_people_inv [OF assms(1)]] by (simp add: assms(2))
  have step: "people_exec uc (DeactivateLocalUser uid now_ms event) db = (Ok (), db1)"
    using assms(3) by (simp add: run_iffs)
  have inv1: "people_inv db1" by (rule people.inv_step [OF inv step])
  have inv2: "people_inv db2" using people.inv_run [OF inv1] by (simp add: assms(4))
  have "user_retired uid db2" unfolding assms(4)
    by (rule people_run_keeps [where P = "user_retired uid", OF _ inv1 deactivated_retired [OF inv assms(3)]]) (rule user_retired_change)
  moreover from this have "gm_user_id m \<noteq> uid" if "m \<in> set (group_members db2)" for m
    using inv2 that by (auto simp: people_inv_def group_inv_def member_placed_def user_retired_def)
  ultimately show ?thesis
    by (auto simp: evaluate_yard_admission_def result_simps retired_not_admitted retired_not_authenticated)
qed

theorem user_deactivation_final_witness:
  "\<exists>db1. deactivate_local_user sample_people ''bob'' 200 sample_deactivation = (Ok (), db1)
    \<and> (\<forall>host t a. evaluate_yard_admission
         (run_commands (people_exec sample_text) [sample_create_user ''bob'' CHR ''3'' 201] db1) host ''bob'' t \<noteq> Ok a)"
proof -
  let ?run = "deactivate_local_user sample_people ''bob'' 200 sample_deactivation"
  obtain u where "fst ?run = Ok u" using sample_people_revocations by (auto simp: is_ok_iff)
  then have run: "?run = (Ok (), snd ?run)" by (metis prod.collapse unit_eq)
  from user_deactivation_final [OF sample_site_inv sample_people_def run refl] run show ?thesis by blast
qed

text \<open>C4. Once an operator revokes a session, its token opens no private file and resolves to no
  identity, whatever commands follow, as long as no exchange mints a session with that very token
  again.\<close>

theorem session_revocation_final:
  assumes "site_inv y" and "db = run_commands (people_exec uc) before (empty_people y)"
    and "s \<in> set (yard_sessions db)" and "revoke_yard_session db yard_id (yn_id s) now_ms event = (Ok b, db1)"
    and "db2 = run_commands (people_exec uc) later db1" and "\<forall>c \<in> set later. \<not> mints_session (yn_token_hash s) c"
  shows "resolve_yard_identity uc db2 host (yn_token_hash s) t \<noteq> (Ok x, db3)
    \<and> (yard_file_by_host db2 host path (Some (yn_token_hash s)) t = (Ok f, db3) \<longrightarrow>
         (\<exists>d. serving_deploy (yards db2) host = Ok d \<and> effective_visibility db2 (ydr_yard_id d) = ''public''))"
proof -
  have inv: "people_inv db" using people.inv_run [OF empty_people_inv [OF assms(1)]] by (simp add: assms(2))
  have step: "people_exec uc (RevokeSession yard_id (yn_id s) now_ms event) db = (Ok (), db1)"
    using assms(4) by (simp add: run_iffs)
  have inv1: "people_inv db1" by (rule people.inv_step [OF inv step])
  have "token_dead (yn_token_hash s) db2" unfolding assms(5)
    by (rule people_run_keeps [where P = "token_dead (yn_token_hash s)", OF _ inv1 revoked_token_dead [OF inv assms(4,3)]])
      (use assms(6) in \<open>auto intro: token_dead_change\<close>)
  then show ?thesis by (auto simp: dead_token_refused elim!: resolve_D deliver_D)
qed

theorem session_revocation_final_witness:
  "\<exists>s \<in> set (yard_sessions sample_people). \<exists>b db1.
     revoke_yard_session sample_people ''y1'' (yn_id s) 200 sample_session_revocation = (Ok b, db1)
     \<and> (\<forall>host t x db3. resolve_yard_identity sample_text (run_commands (people_exec sample_text) [PurgeSessionHistory 300] db1)
          host (yn_token_hash s) t \<noteq> (Ok x, db3))"
proof -
  obtain s where s: "s \<in> set (yard_sessions sample_people)" "yn_id s = ''s1''" using sample_people_tables by auto
  let ?run = "revoke_yard_session sample_people ''y1'' (yn_id s) 200 sample_session_revocation"
  obtain b where "fst ?run = Ok b" using sample_people_revocations s(2) by (auto simp: is_ok_iff)
  then have run: "?run = (Ok b, snd ?run)" by (metis prod.collapse)
  have fresh: "\<forall>c \<in> set [PurgeSessionHistory 300]. \<not> mints_session (yn_token_hash s) c" by simp
  from session_revocation_final [OF sample_site_inv sample_people_def s(1) run refl fresh] run s(1) show ?thesis by blast
qed

text \<open>C3. Once a guest invitation is revoked, whatever commands follow, it cannot be accepted, its guest
  is admitted to no yard and no sign-in key of the guest authenticates.\<close>

theorem guest_revocation_final:
  assumes "site_inv y" and "db = run_commands (people_exec uc) before (empty_people y)"
    and "revoke_yard_guest_invite uc db yard_id invitation_id now_ms event = (Ok i, db1)"
    and "db2 = run_commands (people_exec uc) later db1"
  shows "(pending_yard_guest_invite_by_token uc db2 h t = Ok j \<longrightarrow> ygi_id j \<noteq> invitation_id)
    \<and> (\<forall>s \<in> set (yard_subjects db2). su_kind s = ''guest'' \<and> su_invitation_id s = Some invitation_id \<longrightarrow>
         evaluate_yard_admission db2 host (su_id s) t \<noteq> Ok a)
    \<and> (authenticate_yard_guest_key db2 h t = (Ok x, db3) \<longrightarrow> ysr_invitation_id x \<noteq> Some invitation_id)"
proof -
  have inv: "people_inv db" using people.inv_run [OF empty_people_inv [OF assms(1)]] by (simp add: assms(2))
  have step: "people_exec uc (RevokeGuestInvite yard_id invitation_id now_ms event) db = (Ok (), db1)"
    using assms(3) by (simp add: run_iffs)
  have inv1: "people_inv db1" by (rule people.inv_step [OF inv step])
  have inv2: "people_inv db2" using people.inv_run [OF inv1] by (simp add: assms(4))
  have dead: "invite_dead invitation_id db2" unfolding assms(4)
    by (rule people_run_keeps [where P = "invite_dead invitation_id", OF _ inv1 revoked_invite_dead [OF assms(3)]]) (rule invite_dead_change)
  show ?thesis
    by (auto simp: pending_yard_guest_invite_by_token_def evaluate_yard_admission_def result_simps
      dest: dead_invite_not_pending [OF dead] dead_guest_not_admitted [OF inv2 dead] dead_guest_not_authenticated [OF inv2 dead])
qed

theorem guest_revocation_final_witness:
  "\<exists>i db1. revoke_yard_guest_invite sample_text sample_people ''y1'' sample_invitation 200 sample_guest_revocation = (Ok i, db1)
    \<and> (\<forall>h t j. pending_yard_guest_invite_by_token sample_text (run_commands (people_exec sample_text) [sample_accept] db1) h t
         = Ok j \<longrightarrow> ygi_id j \<noteq> sample_invitation)"
proof -
  let ?run = "revoke_yard_guest_invite sample_text sample_people ''y1'' sample_invitation 200 sample_guest_revocation"
  obtain i where "fst ?run = Ok i" using sample_people_revocations by (auto simp: is_ok_iff)
  then have run: "?run = (Ok i, snd ?run)" by (metis prod.collapse)
  from guest_revocation_final [OF sample_site_inv sample_people_def run refl] run show ?thesis by blast
qed

section \<open>Exchange codes\<close>

text \<open>C7. In every history the successful exchanges of a code hash are at most as many as its successful
  issues: an issued code buys at most one session.\<close>

theorem code_exchanged_once:
  assumes "site_inv y"
    and "succeeded = effective_commands (people_exec uc) (\<lambda>r. \<not> is_ok r) commands (empty_people y)"
  shows "length (filter (exchanges_code h) succeeded) \<le> length (filter (issues_code h) succeeded)"
  using exchanges_within_issues [OF empty_people_inv [OF assms(1)]] by (simp add: assms(2) unspent_def empty_people_def)

theorem code_exchanged_once_witness:
  "let succeeded = effective_commands (people_exec sample_text) (\<lambda>r. \<not> is_ok r) sample_code_history (empty_people sample_site)
   in length (filter (exchanges_code (sample_hash CHR ''c'')) succeeded) = 1
      \<and> 1 \<le> length (filter (issues_code (sample_hash CHR ''c'')) succeeded)"
  using code_exchanged_once [OF sample_site_inv refl, of "sample_hash CHR ''c''" sample_text sample_code_history]
    sample_people_exchanges
  by (simp add: Let_def)

section \<open>Groups and roles\<close>

text \<open>C8. In every history a group row counts exactly its members, at most 500 and none once the group is
  deactivated; every member is an active user of the workspace of the group; and nobody is in more
  than a hundred groups.\<close>

theorem groups_count_members:
  assumes "site_inv y" and "db = run_commands (people_exec uc) commands (empty_people y)"
  shows "(\<forall>g \<in> set (workspace_groups db).
            wg_member_count g = int (length (group_members_of db g)) \<and> wg_member_count g \<le> 500
            \<and> (wg_status g \<noteq> ''active'' \<longrightarrow> wg_member_count g = 0))
    \<and> (\<forall>m \<in> set (group_members db). \<exists>u \<in> set (local_users db).
            lu_id u = gm_user_id m \<and> lu_workspace_id u = gm_workspace_id m \<and> lu_status u = ''active'')
    \<and> (\<forall>uid. length (filter (\<lambda>m. gm_user_id m = uid) (group_members db)) \<le> 100)"
proof -
  have "people_inv db" using people.inv_run [OF empty_people_inv [OF assms(1)]] by (simp add: assms(2))
  then show ?thesis
    by (auto simp: people_inv_def group_inv_def group_counted_def member_placed_def MAXIMUM_USER_GROUPS_def)
qed

theorem groups_count_members_witness:
  "\<exists>g \<in> set (workspace_groups sample_people). wg_member_count g = 1 \<and> length (group_members_of sample_people g) = 1"
proof -
  obtain g where "g \<in> set (workspace_groups sample_people)" "wg_member_count g = 1" using sample_people_tables by auto
  with groups_count_members [OF sample_site_inv sample_people_def] show ?thesis by force
qed

text \<open>C6. In every history a yard either has no management role at all or has an owner among its
  assignments, which are never more than 500.\<close>

theorem yard_keeps_owner:
  assumes "site_inv y" and "db = run_commands (people_exec uc) commands (empty_people y)"
    and "r \<in> set (management_roles db)"
  shows "(\<exists>p \<in> set (management_roles db). mr_yard_id p = mr_yard_id r \<and> mr_role p = ''owner'')
    \<and> length (filter (\<lambda>p. mr_yard_id p = mr_yard_id r) (management_roles db)) \<le> 500"
proof -
  have "people_inv db" using people.inv_run [OF empty_people_inv [OF assms(1)]] by (simp add: assms(2))
  then have "governed (roles_of db (mr_yard_id r))" by (simp add: people_inv_def role_inv_def)
  with assms(3) show ?thesis
    by (auto simp: governed_def roles_of_def MAXIMUM_YARD_MANAGEMENT_ROLES_def filter_empty_conv)
qed

theorem yard_keeps_owner_witness:
  "\<exists>p \<in> set (management_roles sample_people). mr_yard_id p = ''y1'' \<and> mr_role p = ''owner''"
proof -
  obtain r where r: "r \<in> set (management_roles sample_people)" "mr_yard_id r = ''y1''" using sample_people_tables by auto
  from yard_keeps_owner [OF sample_site_inv sample_people_def r(1)] r(2) show ?thesis by auto
qed

section \<open>Application roles\<close>

text \<open>A grant in force gives the subject of an identity a role: directly, through a group the user
  belongs to, or through the invitation the guest accepted.\<close>

definition role_granted :: "admission_database \<Rightarrow> YardIdentity \<Rightarrow> int \<Rightarrow> string \<Rightarrow> bool" where
  "role_granted db x now_ms role \<longleftrightarrow>
     (\<exists>g \<in> set (access_grants db). role \<in> set (ag_app_roles g) \<and> ag_yard_id g = yid_yard_id x
        \<and> grant_in_force g (yid_environment_id x) now_ms
        \<and> (ag_principal_kind g = ''user'' \<and> ag_principal_id g = yid_user_id x
           \<or> ag_principal_kind g = ''group'' \<and> (\<exists>m \<in> set (group_members db). gm_group_id m = ag_principal_id g \<and> gm_user_id m = yid_user_id x)
           \<or> ag_principal_kind g = ''guest-invite'' \<and> (\<exists>i \<in> set (guest_invitations db). gi_id i = ag_principal_id g
                \<and> gi_accepted_subject_id i = Some (yid_user_id x) \<and> gi_status i = ''accepted'' \<and> now_ms < gi_expires_at_ms i)))"

lemma member_sources_granted:
  assumes "member_sources db (yid_yard_id x) (yid_environment_id x) w (yid_user_id x) now = Ok src" and "r \<in> set (igs_roles src)"
  shows "role_granted db x now r"
  using assms
  by (fastforce simp: member_sources_def Let_def result_simps direct_roles_def group_rows_def role_granted_def)

lemma guest_sources_granted:
  assumes "guest_sources db (yid_yard_id x) (yid_environment_id x) w (yid_user_id x) iid now = Ok src" and "r \<in> set (igs_roles src)"
  shows "role_granted db x now r"
  using assms
  by (fastforce simp: guest_sources_def result_simps role_granted_def invitation_join_def grant_in_force_def dest!: query_row_Ok_D)

lemma authority_granted:
  assumes "authority db b now = Ok (m, src)" and "r \<in> set (igs_roles src)"
    and "yid_yard_id x = ib_yard_id b" "yid_environment_id x = ib_environment_id b" "yid_user_id x = ib_user_id b"
  shows "role_granted db x now r"
  using assms
  by (auto simp: authority_def result_simps split: if_split_asm option.split_asm
    intro: member_sources_granted guest_sources_granted simp flip: assms(3-5))

lemma set_sorted_subset: "x \<in> set (sorted_list_of_set A) \<Longrightarrow> x \<in> A"
  by (cases "finite A") simp_all

lemma application_policy_D:
  assumes "application_policy uc r = Ok p"
  obtains c where "canonicalize_application_policy (yar_policy p) = Some (Ok c)" and "cap_effective c = yar_effective p"
    and "py_revision r = int (yar_revision p)" and "encode_graph uc (yar_policy p) = py_policy_json r"
    and "encode_effective uc (yar_effective p) = py_effective_json r"
    and "yar_source_manifest_digest p = py_source_manifest_digest r" and "yar_approved_by_principal p = py_approved_by_principal r"
    and "py_approved_at_ms r = int (yar_approved_at_ms p)"
proof -
  from assms obtain revision g e where r: "required_u64 (py_revision r) = Ok revision"
    and rest: "(case canonicalize_application_policy g of
         Some (Inr canonical) \<Rightarrow>
           (if revision > 0 \<and> valid_source_manifest_digest (py_source_manifest_digest r)
               \<and> cap_graph canonical = g \<and> cap_effective canonical = e
               \<and> encode_graph uc g = py_policy_json r \<and> encode_effective uc e = py_effective_json r
            then and_then (required_u64 (py_approved_at_ms r)) (\<lambda>approved_at_ms.
              Ok \<lparr>yar_yard_id = py_yard_id r, yar_workspace_id = py_workspace_id r, yar_revision = revision,
                  yar_source_manifest_digest = py_source_manifest_digest r, yar_policy = g,
                  yar_effective = e, yar_approved_at_ms = approved_at_ms,
                  yar_approved_by_principal = py_approved_by_principal r\<rparr>)
            else Err Unavailable)
       | _ \<Rightarrow> Err Unavailable) = Ok p"
    unfolding application_policy_def and_then_Ok_iff by blast
  obtain c where c: "canonicalize_application_policy g = Some (Ok c)"
    using rest by (cases "canonicalize_application_policy g") (auto split: sum.split_asm)
  with rest r show thesis by (intro that [of c]) (auto simp: result_simps split: if_split_asm)
qed

lemma policy_by_yard_effective:
  assumes "policy_by_yard uc db yid = Ok (Some p)"
  shows "yar_effective p = effective_spec (yar_policy p)"
proof -
  obtain row where "application_policy uc row = Ok p" using assms by (auto simp: policy_by_yard_def elim: query_optional_Ok_D)
  then show ?thesis by (rule application_policy_D) (auto dest: canonicalize_Ok_D)
qed

lemma map_of_keys: "map_of (map (\<lambda>k. (k, f k)) ks) a = Some v \<Longrightarrow> a \<in> set ks \<and> v = f a"
  by (induction ks) (auto split: if_split_asm)

lemma effective_authority_D:
  assumes "effective_application_authority policy granted = (roles, permissions)"
    and eff: "\<And>p. policy = Some p \<Longrightarrow> yar_effective p = effective_spec (yar_policy p)"
  shows "r \<in> set roles \<Longrightarrow> \<exists>p a. policy = Some p \<and> (a \<in> set granted \<or> apg_default_role (yar_policy p) = Some a)
      \<and> a \<in> fst ` set (apg_roles (yar_policy p)) \<and> r \<in> closure_of (yar_policy p) a"
    and "q \<in> set permissions \<Longrightarrow> \<exists>p a. policy = Some p \<and> (a \<in> set granted \<or> apg_default_role (yar_policy p) = Some a)
      \<and> a \<in> fst ` set (apg_roles (yar_policy p)) \<and> q \<in> permissions_of (yar_policy p) a"
proof -
  have spec: "map_of (eap_effective_roles (effective_spec g)) a = Some rs \<Longrightarrow>
        a \<in> fst ` set (apg_roles g) \<and> set rs \<subseteq> closure_of g a"
      "map_of (eap_effective_permissions (effective_spec g)) a = Some ps \<Longrightarrow>
        a \<in> fst ` set (apg_roles g) \<and> set ps \<subseteq> permissions_of g a" for g a rs ps
    by (auto simp: effective_spec_def simp del: map_map list.map_comp dest!: map_of_keys dest: set_sorted_subset)
  show "\<exists>p a. policy = Some p \<and> (a \<in> set granted \<or> apg_default_role (yar_policy p) = Some a)
      \<and> a \<in> fst ` set (apg_roles (yar_policy p)) \<and> r \<in> closure_of (yar_policy p) a" if "r \<in> set roles"
  proof (cases policy)
    case (Some p)
    define A where "A = granted @ (case apg_default_role (yar_policy p) of None \<Rightarrow> [] | Some r \<Rightarrow> [r])"
    have "roles = btree_set (concat (map (\<lambda>r. case map_of (eap_effective_roles (effective_spec (yar_policy p))) r of
        None \<Rightarrow> [] | Some rs \<Rightarrow> rs) (filter (\<lambda>r. map_of (eap_effective_roles (effective_spec (yar_policy p))) r \<noteq> None) (btree_set A))))"
      using assms(1) by (simp add: effective_application_authority_def Let_def Some eff [OF Some] A_def)
    with that obtain a where a: "a \<in> set A" "r \<in> set (case map_of (eap_effective_roles (effective_spec (yar_policy p))) a of
        None \<Rightarrow> [] | Some rs \<Rightarrow> rs)"
      by auto
    then obtain rs where rs: "map_of (eap_effective_roles (effective_spec (yar_policy p))) a = Some rs" "r \<in> set rs"
      by (cases "map_of (eap_effective_roles (effective_spec (yar_policy p))) a") auto
    have "a \<in> set granted \<or> apg_default_role (yar_policy p) = Some a"
      using a(1) by (cases "apg_default_role (yar_policy p)") (auto simp: A_def)
    with spec(1) [OF rs(1)] rs(2) Some show ?thesis by (intro exI [of _ p] exI [of _ a]) auto
  qed (use assms(1) that in \<open>simp add: effective_application_authority_def\<close>)
  show "\<exists>p a. policy = Some p \<and> (a \<in> set granted \<or> apg_default_role (yar_policy p) = Some a)
      \<and> a \<in> fst ` set (apg_roles (yar_policy p)) \<and> q \<in> permissions_of (yar_policy p) a" if "q \<in> set permissions"
  proof (cases policy)
    case (Some p)
    define A where "A = granted @ (case apg_default_role (yar_policy p) of None \<Rightarrow> [] | Some r \<Rightarrow> [r])"
    have "permissions = btree_set (concat (map (\<lambda>r. case map_of (eap_effective_permissions (effective_spec (yar_policy p))) r of
        None \<Rightarrow> [] | Some rs \<Rightarrow> rs) (filter (\<lambda>r. map_of (eap_effective_roles (effective_spec (yar_policy p))) r \<noteq> None) (btree_set A))))"
      using assms(1) by (simp add: effective_application_authority_def Let_def Some eff [OF Some] A_def)
    with that obtain a where a: "a \<in> set A" "q \<in> set (case map_of (eap_effective_permissions (effective_spec (yar_policy p))) a of
        None \<Rightarrow> [] | Some rs \<Rightarrow> rs)"
      by auto
    then obtain rs where rs: "map_of (eap_effective_permissions (effective_spec (yar_policy p))) a = Some rs" "q \<in> set rs"
      by (cases "map_of (eap_effective_permissions (effective_spec (yar_policy p))) a") auto
    have "a \<in> set granted \<or> apg_default_role (yar_policy p) = Some a"
      using a(1) by (cases "apg_default_role (yar_policy p)") (auto simp: A_def)
    with spec(2) [OF rs(1)] rs(2) Some show ?thesis by (intro exI [of _ p] exI [of _ a]) auto
  qed (use assms(1) that in \<open>simp add: effective_application_authority_def\<close>)
qed

text \<open>C5. The roles and permissions an application sees behind a session follow from the approved policy: each
  comes, through the closure of the policy, from a declared role that is the default role or that a
  grant in force gives the subject. Without an approved policy there are none.\<close>

theorem identity_confined_to_policy:
  assumes "resolve_yard_identity uc db host h now_ms = (Ok x, db')"
  shows "\<exists>policy. policy_by_yard uc db (yid_yard_id x) = Ok policy
    \<and> (\<forall>r \<in> set (yid_app_roles x). \<exists>p a. policy = Some p
         \<and> (role_granted db x (int now_ms) a \<or> apg_default_role (yar_policy p) = Some a)
         \<and> a \<in> fst ` set (apg_roles (yar_policy p)) \<and> r \<in> closure_of (yar_policy p) a)
    \<and> (\<forall>q \<in> set (yid_permissions x). \<exists>p a. policy = Some p
         \<and> (role_granted db x (int now_ms) a \<or> apg_default_role (yar_policy p) = Some a)
         \<and> a \<in> fst ` set (apg_roles (yar_policy p)) \<and> q \<in> permissions_of (yar_policy p) a)"
proof -
  from assms obtain b m src policy where auth: "authority db b (int now_ms) = Ok (m, src)"
      and policy: "policy_by_yard uc db (ib_yard_id b) = Ok policy"
      and ids: "yid_yard_id x = ib_yard_id b" "yid_environment_id x = ib_environment_id b" "yid_user_id x = ib_user_id b"
      and eff: "effective_application_authority policy (igs_roles src) = (yid_app_roles x, yid_permissions x)"
    by (auto simp: resolve_yard_identity_def run_iffs resolve_in_def result_simps case_prod_unfold Let_def)
  have granted: "role_granted db x (int now_ms) a" if "a \<in> set (igs_roles src)" for a
    by (rule authority_granted [OF auth that ids])
  have spec: "yar_effective p = effective_spec (yar_policy p)" if "policy = Some p" for p
    using policy_by_yard_effective policy that by blast
  have "\<exists>p a. policy = Some p \<and> (role_granted db x (int now_ms) a \<or> apg_default_role (yar_policy p) = Some a)
         \<and> a \<in> fst ` set (apg_roles (yar_policy p)) \<and> r \<in> closure_of (yar_policy p) a" if "r \<in> set (yid_app_roles x)" for r
    using effective_authority_D(1) [OF eff spec that] granted by blast
  moreover have "\<exists>p a. policy = Some p \<and> (role_granted db x (int now_ms) a \<or> apg_default_role (yar_policy p) = Some a)
         \<and> a \<in> fst ` set (apg_roles (yar_policy p)) \<and> q \<in> permissions_of (yar_policy p) a" if "q \<in> set (yid_permissions x)" for q
    using effective_authority_D(2) [OF eff spec that] granted by blast
  ultimately show ?thesis using policy unfolding ids(1) by blast
qed

theorem identity_confined_to_policy_witness:
  "\<exists>x db' p a. resolve_yard_identity sample_text sample_people ''docs-1'' (sample_hash CHR ''d'') 120 = (Ok x, db')
    \<and> policy_by_yard sample_text sample_people (yid_yard_id x) = Ok (Some p)
    \<and> (role_granted sample_people x 120 a \<or> apg_default_role (yar_policy p) = Some a)
    \<and> ''admin'' \<in> closure_of (yar_policy p) a"
proof -
  let ?run = "resolve_yard_identity sample_text sample_people ''docs-1'' (sample_hash CHR ''d'') 120"
  obtain x where "fst ?run = Ok x" and admin: "''admin'' \<in> set (yid_app_roles x)"
    using sample_people_identity by (auto simp: result_simps)
  then have run: "?run = (Ok x, snd ?run)" by (metis prod.collapse)
  from identity_confined_to_policy [OF run] admin obtain p a where
      "policy_by_yard sample_text sample_people (yid_yard_id x) = Ok (Some p)"
      "role_granted sample_people x 120 a \<or> apg_default_role (yar_policy p) = Some a" "''admin'' \<in> closure_of (yar_policy p) a"
    by fastforce
  with run show ?thesis by blast
qed

section \<open>Approved policies\<close>

lemma upsert_policy_find:
  assumes "upsert_application_policy db row = Ok rows"
  shows "\<exists>ws. find (\<lambda>r. py_yard_id r = py_yard_id row) rows = Some (row\<lparr>py_workspace_id := ws\<rparr>)"
proof -
  have up: "find (\<lambda>r. py_yard_id r = py_yard_id row)
      (map (\<lambda>r. if py_yard_id r = py_yard_id row then row\<lparr>py_workspace_id := py_workspace_id r\<rparr> else r) rs)
      = map_option (\<lambda>r. row\<lparr>py_workspace_id := py_workspace_id r\<rparr>) (find (\<lambda>r. py_yard_id r = py_yard_id row) rs)" for rs
    by (induction rs) auto
  have new: "\<not> list_ex (\<lambda>r. py_yard_id r = py_yard_id row) rs \<Longrightarrow> find (\<lambda>r. py_yard_id r = py_yard_id row) (rs @ [row]) = Some row" for rs
    by (induction rs) auto
  have old: "list_ex (\<lambda>r. py_yard_id r = py_yard_id row) rs \<Longrightarrow> \<exists>r. find (\<lambda>r. py_yard_id r = py_yard_id row) rs = Some r" for rs
    by (induction rs) auto
  have same: "row = row\<lparr>py_workspace_id := py_workspace_id row\<rparr>" by simp
  show ?thesis
  proof (cases "list_ex (\<lambda>r. py_yard_id r = py_yard_id row) (application_policies db)")
    case True
    with assms old [OF True] show ?thesis by (auto simp: upsert_application_policy_def up split: if_split_asm)
  next
    case False
    then have "rows = application_policies db @ [row]"
      using assms by (auto simp: upsert_application_policy_def result_simps split: if_split_asm)
    with new [OF False] same show ?thesis by metis
  qed
qed

text \<open>C9. An approved policy is well formed and reads back as approved, through the text it is stored as:
  what the row holds are the encodings of the canonical graph and of its transitive closure, and what is
  decoded from it is this graph and this closure, with the digest, approver and time given, one revision
  above the previous one; and the yard has an owner. Of the JSON library only the quoting of strings
  matters: a quoted string opens with a quotation mark and ends at its closing one.\<close>

theorem policy_approval_reads_back:
  assumes quoting: "json_quoting uc"
    and ok: "set_yard_application_policy uc db yard_id digest policy approved_by now_ms event = Some (Ok p, db')"
  shows "policy_ok policy \<and> policy_by_yard uc db' yard_id = Ok (Some p)
    \<and> (\<exists>r \<in> set (application_policies db'). py_yard_id r = yard_id
         \<and> py_policy_json r = encode_graph uc (canonicalize_direct_arrays policy)
         \<and> py_effective_json r = encode_effective uc (effective_spec policy))
    \<and> yar_policy p = canonicalize_direct_arrays policy \<and> yar_effective p = effective_spec policy
    \<and> yar_source_manifest_digest p = digest \<and> yar_approved_by_principal p = approved_by \<and> yar_approved_at_ms p = now_ms
    \<and> (\<exists>previous. policy_by_yard uc db yard_id = Ok previous
         \<and> yar_revision p = (case previous of None \<Rightarrow> 1 | Some q \<Rightarrow> yar_revision q + 1))
    \<and> (\<exists>r \<in> set (management_roles db). mr_yard_id r = yard_id \<and> mr_role r = ''owner'')"
proof -
  from ok have "set_application_policy_in uc yard_id digest policy approved_by now_ms event db = Some (Ok (p, db'))"
    by (auto simp: set_yard_application_policy_def run_iffs split: sum.split_asm)
  then obtain y c where owner: "require_owner db yard_id = Ok ()" and c: "canonicalize_application_policy policy = Some (Ok c)"
      and run: "approve_policy uc yard_id digest c approved_by now_ms event y db = Ok (p, db')"
    by (auto simp: set_application_policy_in_def result_simps split: sum.split_asm if_split_asm)
  have c': "policy_ok policy" "cap_graph c = canonicalize_direct_arrays policy" "cap_effective c = effective_spec policy"
    using canonicalize_Ok_D [OF c] by simp_all
  define revision where "revision previous = (case previous of None \<Rightarrow> 1 | Some q \<Rightarrow> yar_revision q + 1)"
    for previous :: "YardApplicationPolicyRecord option"
  define row where "row n = \<lparr>py_yard_id = yard_id, py_workspace_id = wyr_workspace_id y,
              py_revision = int n, py_source_manifest_digest = digest, py_policy_json = encode_graph uc (cap_graph c),
              py_effective_json = encode_effective uc (cap_effective c), py_approved_at_ms = int now_ms,
              py_approved_by_principal = approved_by\<rparr>" for n
  from run obtain previous rows where previous: "policy_by_yard uc db yard_id = Ok previous"
      and up: "upsert_application_policy db (row (revision previous)) = Ok rows"
      and aud: "admission_audit (db\<lparr>application_policies := rows\<rparr>) event = Ok db'"
      and reads: "policy_by_yard uc db' yard_id = Ok (Some p)"
    by (auto simp: approve_policy_def Let_def result_simps revision_def row_def split: if_split_asm)
  from aud have rows: "application_policies db' = rows" by (auto elim: admission_audit_D)
  obtain ws where found: "find (\<lambda>r. py_yard_id r = yard_id) rows = Some ((row (revision previous))\<lparr>py_workspace_id := ws\<rparr>)"
    using upsert_policy_find [OF up] by (auto simp: row_def)
  with reads rows have "application_policy uc ((row (revision previous))\<lparr>py_workspace_id := ws\<rparr>) = Ok p"
    by (auto simp: policy_by_yard_def query_optional_def result_simps)
  then have "yar_policy p = cap_graph c \<and> yar_effective p = cap_effective c \<and> yar_revision p = revision previous
      \<and> yar_source_manifest_digest p = digest \<and> yar_approved_by_principal p = approved_by \<and> yar_approved_at_ms p = now_ms"
    by (rule application_policy_D) (auto simp: row_def dest: encode_graph_inj [OF quoting] encode_effective_inj [OF quoting])
  moreover from find_Some_iff_first [OF found]
  have "\<exists>r \<in> set (application_policies db'). py_yard_id r = yard_id
         \<and> py_policy_json r = encode_graph uc (canonicalize_direct_arrays policy)
         \<and> py_effective_json r = encode_effective uc (effective_spec policy)"
    using c' by (intro bexI [of _ "(row (revision previous))\<lparr>py_workspace_id := ws\<rparr>"]) (simp_all add: rows row_def)
  moreover have "\<exists>r \<in> set (management_roles db). mr_yard_id r = yard_id \<and> mr_role r = ''owner''"
    using owner by (auto simp: require_owner_def result_simps roles_of_def filter_empty_conv dest!: validate_role_state_D(2))
  ultimately show ?thesis using c' previous reads by (auto simp: revision_def)
qed

theorem policy_approval_reads_back_witness:
  "\<exists>p db'. set_yard_application_policy sample_text sample_people ''y1'' (sample_hash CHR ''b'') sample_policy ''ada'' 200 sample_reapproval
      = Some (Ok p, db') \<and> policy_by_yard sample_text db' ''y1'' = Ok (Some p) \<and> yar_revision p = 2"
proof -
  let ?run = "set_yard_application_policy sample_text sample_people ''y1'' (sample_hash CHR ''b'') sample_policy ''ada'' 200 sample_reapproval"
  obtain r where r: "?run = Some r" "is_ok (fst r)" using sample_people_approval by (auto split: option.split_asm)
  then obtain p where "fst r = Ok p" by (auto simp: is_ok_iff)
  with r have run: "?run = Some (Ok p, snd r)" by (metis prod.collapse)
  obtain q where "policy_by_yard sample_text sample_people ''y1'' = Ok (Some q)" "yar_revision q = 1"
    using sample_people_approval by (auto simp: result_simps)
  with policy_approval_reads_back [OF sample_text_quoting run] run show ?thesis by auto
qed

end
