(* ===== verification/Spec2Isabelle.thy ===== *)
theory Spec2Isabelle
  imports Core_Errors Core_Secrets Core_Uri Core_Web_Origin Application_Policy Manifest_Cross
    Machine_Sessions Inbox_Capacity Yard_Properties People_Properties
begin

text \<open>
  A verification development for Blob Yard, a self-hosted store for build artefacts and static sites.

  \<^bold>\<open>The program.\<close> A server, a command line client and an MCP bridge talk over HTTP. Everything the
  server has to remember is behind one interface, the metadata repository: the traits of
  \<^verbatim>\<open>crates/blobyard-contract\<close>, implemented over SQLite by \<^verbatim>\<open>crates/blobyard-repository-sqlite\<close>. The bytes
  of the objects are behind a storage provider and never pass through the repository, which plans and
  records what happens to them. \<^verbatim>\<open>crates/blobyard-core\<close> holds the pure part: errors, secrets, object
  identifiers, site origins, application manifests and role policies. The development models the core
  crate, the contract types and the repository. A repository operation checks its arguments, then works in
  one transaction that rolls back on an error; one connection behind a lock serialises them. So an
  operation is a function from a database and arguments to a result and a database, and a history is a list
  of commands.

  \<^bold>\<open>Reading the source in HOL.\<close> \<^verbatim>\<open>Prelude\<close>: a \<^verbatim>\<open>Result\<close> is a sum with \<open>Err\<close> and \<open>Ok\<close>, \<^verbatim>\<open>?\<close> is
  \<open>and_then\<close>, a string is its list of UTF-8 bytes, an unsigned integer a natural whose checked
  conversions and bounds are written out, an SQL INTEGER an \<open>int\<close>. \<^verbatim>\<open>Contract\<close>: the persisted enums,
  requests and records. \<^verbatim>\<open>Repository_State\<close>, \<^verbatim>\<open>Access_State\<close>, \<^verbatim>\<open>Yard_State\<close> and the first sections of
  \<^verbatim>\<open>Yard_Admission\<close>: one record per table of the migrations, tables as lists of rows in insertion order,
  with every CHECK, UNIQUE and FOREIGN KEY that a statement can meet as a predicate (\<open>..._check\<close> on a row,
  \<open>..._allowed\<close> on an insertion), and the row decoders. A statement is \<open>insert_row\<close>, \<open>update_rows\<close>, a
  filter or a \<open>find\<close>; \<open>write_transaction\<close> drops the changes of a failure. \<open>string_codec\<close> is the interface
  of a persisted enum, interpreted for each of them.

  \<^bold>\<open>The core crate.\<close>
    \<^item> \<^verbatim>\<open>Core_Errors\<close>, \<^verbatim>\<open>Core_Secrets\<close>, \<^verbatim>\<open>Core_Uri\<close>, \<^verbatim>\<open>Core_Web_Origin\<close>: \<^verbatim>\<open>error.rs\<close>, \<^verbatim>\<open>secret.rs\<close>,
      \<^verbatim>\<open>encoding.rs\<close>, \<^verbatim>\<open>slug.rs\<close>, \<^verbatim>\<open>uri.rs\<close> and \<^verbatim>\<open>web_yard_origin.rs\<close>; parsers and printers and their
      round trips.
    \<^item> \<^verbatim>\<open>Worklist\<close>, \<^verbatim>\<open>Application_Policy\<close>: \<^verbatim>\<open>application_policy.rs\<close>. The searches over the role graph,
      a locale that the cycle check and the closure interpret, decide and compute the transitive closure.
    \<^item> \<^verbatim>\<open>Manifest_Types\<close>, \<^verbatim>\<open>Manifest_Patterns\<close>, \<^verbatim>\<open>Manifest_Cross\<close>: \<^verbatim>\<open>application_manifest/\<close>, its value
      grammars and the cross-field validation.

  \<^bold>\<open>The store.\<close> \<^verbatim>\<open>Service\<close> states the interface of a service, \<open>transactional_service\<close>: a command fails
  without a trace or keeps the invariant; it lifts invariants to histories, and each layer below
  interprets it on its commands. \<open>expiring_capability\<close> is the interface of an upload or download
  secret, interpreted on both.
    \<^item> \<^verbatim>\<open>Transfers\<close> with \<^verbatim>\<open>Transfer_Invariants\<close>, \<^verbatim>\<open>Transfer_Properties\<close>, \<^verbatim>\<open>Transfer_Histories\<close>:
      reservation, upload, completion, parts, downloads and listings of object versions.
    \<^item> \<^verbatim>\<open>Audit_Log\<close>, \<^verbatim>\<open>Sharing\<close>, \<^verbatim>\<open>Sharing_Properties\<close>: the append-only log and its pages; public shares
      with a download budget.
    \<^item> \<^verbatim>\<open>Lifecycle\<close>, \<^verbatim>\<open>Glob\<close>, \<^verbatim>\<open>Lifecycle_Purge\<close>, \<^verbatim>\<open>Lifecycle_Properties\<close>, \<^verbatim>\<open>Lifecycle_Histories\<close>,
      \<^verbatim>\<open>Retention\<close>: deletions planned before any byte is touched, the cascade that finishes them, refined
      to an abstract purge, and retention runs with the memoised glob matcher.
    \<^item> \<^verbatim>\<open>Inboxes\<close>, \<^verbatim>\<open>Inbox_Invariants\<close>, \<^verbatim>\<open>Inbox_Properties\<close>, \<^verbatim>\<open>Inbox_Histories\<close>,
      \<^verbatim>\<open>Inbox_Capacity\<close>, \<^verbatim>\<open>Inbox_Rates\<close>: guest uploads against a budget of files and bytes, the capacity an
      inbox loses to an abort by an operator, and the fixed-window rate limiter.
    \<^item> \<^verbatim>\<open>Credentials\<close>, \<^verbatim>\<open>Ref_Glob\<close>, \<^verbatim>\<open>Access_Invariants\<close>, \<^verbatim>\<open>Access_Histories\<close>, \<^verbatim>\<open>Access_Samples\<close>,
      \<^verbatim>\<open>Access_Properties\<close>, \<^verbatim>\<open>Machine_Sessions\<close>: API tokens, CLI sessions, the bootstrap secret, CI trusts
      and the machine sessions minted under them.

  \<^bold>\<open>Web Yards.\<close> A yard is a named static site with a history of deploys.
    \<^item> \<^verbatim>\<open>Yards\<close>, \<^verbatim>\<open>Yard_Invariants\<close>, \<^verbatim>\<open>Yard_Histories\<close>, \<^verbatim>\<open>Yard_Serving\<close>: start, finalise, fail, roll back,
      delete, prune and serve (\<^verbatim>\<open>yard_start.rs\<close>, \<^verbatim>\<open>yard_finalise.rs\<close>, \<^verbatim>\<open>yard_lifecycle.rs\<close>,
      \<^verbatim>\<open>yard_history.rs\<close>, \<^verbatim>\<open>yard_cleanup.rs\<close>, \<^verbatim>\<open>yard_queries.rs\<close>).
    \<^item> \<^verbatim>\<open>Yard_Site\<close>, \<^verbatim>\<open>Yard_Evolution\<close>, \<^verbatim>\<open>Yard_Alias\<close>, \<^verbatim>\<open>Yard_Properties\<close>: yards and store as one service,
      since the cleanup of a yard plans deletions in the store and a purge unlinks the files of a yard; which
      commands move the alias of a yard, and that no other one changes what its stable host serves.
    \<^item> \<^verbatim>\<open>Yard_Admission\<close>: visibility, admission, exchange codes, sessions and authorised delivery
      (\<^verbatim>\<open>yard_session_*.rs\<close>, \<^verbatim>\<open>yard_guest_admission.rs\<close>, \<^verbatim>\<open>yard_access.rs\<close>, \<^verbatim>\<open>yard_queries.rs\<close>).
    \<^item> \<^verbatim>\<open>Local_Users\<close>, \<^verbatim>\<open>Workspace_Groups\<close>, \<^verbatim>\<open>Policy_Text\<close>, \<^verbatim>\<open>Yard_Roles\<close>, \<^verbatim>\<open>Yard_Guests\<close>,
      \<^verbatim>\<open>Yard_Identity\<close>: accounts and their keys, groups, the JSON text of an approved policy
      (\<^verbatim>\<open>yard_application_policy_encoding.rs\<close>) and why it determines the policy, management roles with policies
      and grants, guest invitations, and the identity an application sees.
    \<^item> \<^verbatim>\<open>People_Site\<close>, \<^verbatim>\<open>People_Effects\<close>, \<^verbatim>\<open>People_Invariants\<close>, \<^verbatim>\<open>People_Histories\<close>, \<^verbatim>\<open>People_Samples\<close>,
      \<^verbatim>\<open>People_Properties\<close>: all of it as one service. Every successful command is one step of an abstract
      relation, \<open>change\<close>, over the access tables; each invariant and each fact that nothing undoes is shown
      once per kind of step.

  \<^bold>\<open>Bounds and termination.\<close> No definition uses fuel. The loops of the source terminate by the recursion on
  their list, and where the recursion is not structural by a termination proof: the pending roles of a policy
  by the lexicographic measure of unseen names and stack, the memoised glob by the positions left. Numbers
  the database keeps are bounded by \<open>i64_max\<close> through the checked conversions of the code. A history is any
  finite list of commands; the start of one is a site that satisfies the invariant of the yards and has
  no access rows, so workspaces and projects are arbitrary.

  \<^bold>\<open>Parameters.\<close> Code outside the repository is an argument of the definitions: the \<^verbatim>\<open>percent_encoding\<close> crate
  (\<open>enc\<close>, \<open>dec\<close>), the \<^verbatim>\<open>url\<close> crate (\<open>parse\<close>), the time zone database of a schedule, and, in \<open>text_library\<close>,
  Unicode lower-casing, Unicode normalisation, the JSON quoting of a string and the readers \<^verbatim>\<open>serde_json\<close> derives
  for the two texts of a policy. The properties hold for every value of these arguments, or name what they need
  of it, as \<open>json_quoting\<close> does: a quoted string opens with a quotation mark and ends at its closing one. Times are arguments as they are in the source, in no assumed
  order.

  \<^bold>\<open>Left out.\<close> The JSON text of a metadata column and of the role list of a grant (the column is the parsed
  value, since \<^verbatim>\<open>serde_json\<close> writes and reads it); previews, which repeat the scheme of the yards without aliases
  and access; the plain rows of workspaces and projects; the OIDC provider of the yards, recovery, inventory
  and migrations; the JSON schema of manifests. The server, the storage providers, the clients and the bridge
  are input and output around the repository.
\<close>

end
